(* ===== verification/Prelude.thy ===== *)
theory Prelude
  imports Main "HOL-Library.List_Lexorder" "HOL-Library.Char_ord"
begin

text \<open>
  The vocabulary the component theories share: Go strings (byte lists with UTF-8 runes), Go
  time values, the named collections of simplification rules, and generic facts on lists and
  association lists.
\<close>

named_theorems store_simps \<open>unfoldings of the SQL statement model\<close>
named_theorems orch_simps \<open>unfoldings of the orchestration handlers\<close>
named_theorems queue_simps \<open>unfoldings of the channel queue handlers\<close>
named_theorems tenant_simps \<open>unfoldings of the access decisions\<close>

section \<open>Go strings\<close>

text \<open>
  A Go string is a byte sequence; \<^typ>\<open>string\<close> is a list of 8-bit characters, so the two agree.
  \<open>rune_width\<close> is the width of the first UTF-8 sequence (package unicode/utf8, DecodeRune): an
  ill-formed byte counts as one rune of width one.
\<close>

definition byte_of :: "char \<Rightarrow> nat" where
  "byte_of c = of_char c"

definition in_bytes :: "nat \<Rightarrow> nat \<Rightarrow> char \<Rightarrow> bool" where
  "in_bytes lo hi c \<longleftrightarrow> lo \<le> byte_of c \<and> byte_of c \<le> hi"

definition second_byte_ok :: "nat \<Rightarrow> char \<Rightarrow> bool" where
  "second_byte_ok b c =
     (if b = 0xE0 then in_bytes 0xA0 0xBF c
      else if b = 0xED then in_bytes 0x80 0x9F c
      else if b = 0xF0 then in_bytes 0x90 0xBF c
      else if b = 0xF4 then in_bytes 0x80 0x8F c
      else in_bytes 0x80 0xBF c)"

definition well_formed_width :: "string \<Rightarrow> nat" where
  "well_formed_width s =
     (case s of [] \<Rightarrow> 0 | c # cs \<Rightarrow>
       (let b = byte_of c in
        if b < 0x80 then 1
        else if 0xC2 \<le> b \<and> b \<le> 0xDF then
          (case cs of c1 # _ \<Rightarrow> if second_byte_ok b c1 then 2 else 0 | _ \<Rightarrow> 0)
        else if 0xE0 \<le> b \<and> b \<le> 0xEF then
          (case cs of c1 # c2 # _ \<Rightarrow>
             if second_byte_ok b c1 \<and> in_bytes 0x80 0xBF c2 then 3 else 0 | _ \<Rightarrow> 0)
        else if 0xF0 \<le> b \<and> b \<le> 0xF4 then
          (case cs of c1 # c2 # c3 # _ \<Rightarrow>
             if second_byte_ok b c1 \<and> in_bytes 0x80 0xBF c2 \<and> in_bytes 0x80 0xBF c3
             then 4 else 0 | _ \<Rightarrow> 0)
        else 0))"

definition rune_width :: "string \<Rightarrow> nat" where
  "rune_width s = max 1 (well_formed_width s)"

lemma rune_width_pos [simp]: "0 < rune_width s"
  by (simp add: rune_width_def)

text \<open>The string cut into the byte sequences of its runes.\<close>

function rune_split :: "string \<Rightarrow> string list" where
  "rune_split s = (if s = [] then [] else take (rune_width s) s # rune_split (drop (rune_width s) s))"
  by pat_completeness auto
termination
  by (relation "measure length") auto

declare rune_split.simps [simp del]

lemma rune_split_Nil [simp]: "rune_split [] = []"
  by (simp add: rune_split.simps)

lemma concat_rune_split [simp]: "concat (rune_split s) = s"
proof (induction s rule: rune_split.induct)
  case (1 s)
  then show ?case
    by (cases "s = []") (simp_all add: rune_split.simps [of s])
qed

text \<open>
  \<open>runes\<close> is the conversion \<^verbatim>\<open>[]rune(s)\<close>, each rune given by its encoding; an ill-formed byte becomes
  U+FFFD. So \<open>length (runes s)\<close> is \<^verbatim>\<open>len([]rune(s))\<close> and \<open>concat (take n (runes s))\<close> is
  \<^verbatim>\<open>string([]rune(s)[:n])\<close>.
\<close>

definition replacement_rune :: string where
  "replacement_rune = [char_of (0xEF::nat), char_of (0xBF::nat), char_of (0xBD::nat)]"

definition runes :: "string \<Rightarrow> string list" where
  "runes s = map (\<lambda>r. if well_formed_width r = 0 then replacement_rune else r) (rune_split s)"

lemma length_runes: "length (runes s) = length (rune_split s)"
  by (simp add: runes_def)

text \<open>\<^verbatim>\<open>strings.TrimSpace\<close> with the characters of \<^verbatim>\<open>unicode.IsSpace\<close>.\<close>

definition space_rune :: "string \<Rightarrow> bool" where
  "space_rune r \<longleftrightarrow> map byte_of r \<in> set
     [[9], [10], [11], [12], [13], [32], [0xC2, 0x85], [0xC2, 0xA0], [0xE1, 0x9A, 0x80],
      [0xE2, 0x80, 0x80], [0xE2, 0x80, 0x81], [0xE2, 0x80, 0x82], [0xE2, 0x80, 0x83],
      [0xE2, 0x80, 0x84], [0xE2, 0x80, 0x85], [0xE2, 0x80, 0x86], [0xE2, 0x80, 0x87],
      [0xE2, 0x80, 0x88], [0xE2, 0x80, 0x89], [0xE2, 0x80, 0x8A], [0xE2, 0x80, 0xA8],
      [0xE2, 0x80, 0xA9], [0xE2, 0x80, 0xAF], [0xE2, 0x81, 0x9F], [0xE3, 0x80, 0x80]]"

definition trim_space :: "string \<Rightarrow> string" where
  "trim_space s =
     concat (rev (dropWhile space_rune (rev (dropWhile space_rune (rune_split s)))))"

lemma trim_space_Nil [simp]: "trim_space [] = []"
  by (simp add: trim_space_def)

definition has_prefix :: "string \<Rightarrow> string \<Rightarrow> bool" where
  "has_prefix s p \<longleftrightarrow> take (length p) s = p"

definition has_suffix :: "string \<Rightarrow> string \<Rightarrow> bool" where
  "has_suffix s p \<longleftrightarrow> length p \<le> length s \<and> drop (length s - length p) s = p"

definition trim_prefix :: "string \<Rightarrow> string \<Rightarrow> string" where
  "trim_prefix s p = (if has_prefix s p then drop (length p) s else s)"

definition trim_suffix :: "string \<Rightarrow> string \<Rightarrow> string" where
  "trim_suffix s p = (if has_suffix s p then take (length s - length p) s else s)"

lemma has_prefix_iff: "has_prefix s p \<longleftrightarrow> (\<exists>r. s = p @ r)"
  by (auto simp: has_prefix_def) (metis append_take_drop_id)

lemma has_suffix_iff: "has_suffix s p \<longleftrightarrow> (\<exists>r. s = r @ p)"
proof
  assume "has_suffix s p"
  then have "s = take (length s - length p) s @ p"
    by (metis append_take_drop_id has_suffix_def)
  then show "\<exists>r. s = r @ p" ..
qed (auto simp: has_suffix_def)

section \<open>Go time values\<close>

text \<open>
  A \<^verbatim>\<open>time.Time\<close> in UTC is its distance in nanoseconds from the zero value (1 January of year 1), so
  \<open>IsZero\<close> is equality with 0. The current time is an argument of every operation that reads the clock.
\<close>

type_synonym gotime = int

abbreviation is_zero :: "gotime \<Rightarrow> bool" where
  "is_zero t \<equiv> t = 0"

definition second_ns :: int where
  "second_ns = 1000000000"

definition minute_ns :: int where
  "minute_ns = 60 * second_ns"

definition hour_ns :: int where
  "hour_ns = 60 * minute_ns"

lemmas ns_defs = second_ns_def minute_ns_def hour_ns_def

section \<open>Lists\<close>

lemma find_Some_in: "find P xs = Some x \<Longrightarrow> x \<in> set xs \<and> P x"
  by (induction xs) (auto split: if_splits)

lemma find_None_iff': "find P xs = None \<longleftrightarrow> (\<forall>x\<in>set xs. \<not> P x)"
  by (induction xs) auto

lemma length_filter_Suc:
  "i < length xs \<Longrightarrow> \<not> P (xs ! i) \<Longrightarrow> P y \<Longrightarrow>
   length (filter P (xs[i := y])) = Suc (length (filter P xs))"
  by (induction xs arbitrary: i) (auto simp: nth_Cons split: nat.splits)

lemma length_filter_pred:
  "i < length xs \<Longrightarrow> P (xs ! i) \<Longrightarrow> \<not> P y \<Longrightarrow>
   Suc (length (filter P (xs[i := y]))) = length (filter P xs)"
  by (induction xs arbitrary: i) (auto simp: nth_Cons split: nat.splits)

lemma length_filter_same:
  "i < length xs \<Longrightarrow> P (xs ! i) = P y \<Longrightarrow>
   length (filter P (xs[i := y])) = length (filter P xs)"
  by (induction xs arbitrary: i) (auto simp: nth_Cons split: nat.splits)

lemma map_of_rev_same: "distinct (map fst xs) \<Longrightarrow> map_of (rev xs) = map_of xs"
  by (subst map_of_inject_set) (auto simp: rev_map [symmetric])

lemma map_update_same: "i < length xs \<Longrightarrow> f y = f (xs ! i) \<Longrightarrow> map f (xs[i := y]) = map f xs"
  by (simp add: map_update list_update_same_conv)

lemma length_filter_key:
  "distinct (map fst xs) \<Longrightarrow> (j, v) \<in> set xs \<Longrightarrow> Suc (length (filter (\<lambda>(i, _). i \<noteq> j) xs)) = length xs"
proof (induction xs)
  case (Cons x xs)
  show ?case
  proof (cases "fst x = j")
    case True
    with Cons.prems(1) have "j \<notin> fst ` set xs" by simp
    then have "\<forall>p\<in>set xs. fst p \<noteq> j" by blast
    then have "filter (\<lambda>(i, _). i \<noteq> j) xs = xs"
      by (simp add: filter_id_conv case_prod_beta)
    with True show ?thesis by (cases x) simp
  next
    case False
    with Cons show ?thesis by auto
  qed
qed simp

lemma sort_key_map_gen: "sort_key f (map g xs) = map g (sort_key (\<lambda>x. f (g x)) xs)"
proof -
  have "insort_key f (g x) (map g ys) = map g (insort_key (\<lambda>x. f (g x)) x ys)" for x ys
    by (induction ys) simp_all
  then show ?thesis by (induction xs) simp_all
qed

lemma sort_key_map_same: "(\<And>x. f (g x) = f x) \<Longrightarrow> sort_key f (map g xs) = map g (sort_key f xs)"
  by (simp add: sort_key_map_gen)

lemma filter_map_same: "(\<And>x. P (g x) = P x) \<Longrightarrow> filter P (map g xs) = map g (filter P xs)"
  by (induction xs) simp_all

lemma find_append_None: "find P xs = None \<Longrightarrow> find P (xs @ ys) = find P ys"
  by (induction xs) (auto split: if_splits)

lemma find_distinct_key:
  "distinct (map f xs) \<Longrightarrow> x \<in> set xs \<Longrightarrow> find (\<lambda>y. f y = f x) xs = Some x"
  by (induction xs) auto

section \<open>Claims that can be used once\<close>

text \<open>
  The contract of a token or a request that the first use consumes: whatever other operations run between two
  uses, a used one stays used. \<open>step\<close> tells whether the operation was a successful use.
\<close>

fun uses :: "('op \<Rightarrow> 's \<Rightarrow> bool \<times> 's) \<Rightarrow> 'op list \<Rightarrow> 's \<Rightarrow> nat" where
  "uses step [] s = 0"
| "uses step (a # ops) s = (if fst (step a s) then 1 else 0) + uses step ops (snd (step a s))"

locale single_use =
  fixes step :: "'op \<Rightarrow> 's \<Rightarrow> bool \<times> 's"
    and wf :: "'s \<Rightarrow> bool"
    and spent :: "'s \<Rightarrow> bool"
  assumes wf_step: "wf s \<Longrightarrow> wf (snd (step a s))"
    and use_spends: "wf s \<Longrightarrow> fst (step a s) \<Longrightarrow> spent (snd (step a s))"
    and spent_step: "wf s \<Longrightarrow> spent s \<Longrightarrow> \<not> fst (step a s) \<and> spent (snd (step a s))"
begin

lemma uses_spent: "wf s \<Longrightarrow> spent s \<Longrightarrow> uses step ops s = 0"
  by (induction ops arbitrary: s) (simp_all add: wf_step spent_step)

lemma at_most_once: "wf s \<Longrightarrow> uses step ops s \<le> 1"
  by (induction ops arbitrary: s) (simp_all add: wf_step use_spends uses_spent)

end

end
