(* ===== verification/Database.thy ===== *)
theory Database
  imports Prelude
begin

text \<open>
  The database/sql layer the store package is written against. A statement either runs, or the
  driver reports an error and nothing changes; which calls fail is the schedule \<open>fault\<close>, indexed by
  the number of statements issued so far (\<open>tick\<close>). Every table of the store is added to the record
  \<open>db\<close> by the component that owns it, as a record extension. \<open>rebindPostgres\<close> (store/database.go)
  rewrites the parameter markers of a statement.
\<close>

section \<open>Statements and transactions\<close>

datatype db_error = DriverError

record db =
  fault :: "nat \<Rightarrow> bool"
  tick :: nat

definition healthy :: "'a db_scheme \<Rightarrow> bool" where
  "healthy d \<longleftrightarrow> fault d = (\<lambda>_. False)"

text \<open>A writing statement; \<open>None\<close> is a violated constraint, reported like a driver error.\<close>

definition sql_exec :: "('a db_scheme \<Rightarrow> 'a db_scheme option) \<Rightarrow> 'a db_scheme \<Rightarrow> bool \<times> 'a db_scheme" where
  "sql_exec f d =
     (let d' = d\<lparr>tick := Suc (tick d)\<rparr>
      in if fault d (tick d) then (False, d')
         else (case f d' of None \<Rightarrow> (False, d') | Some d'' \<Rightarrow> (True, d'')))"

text \<open>A query; \<open>None\<close> is a driver error.\<close>

definition sql_query :: "('a db_scheme \<Rightarrow> 'r) \<Rightarrow> 'a db_scheme \<Rightarrow> 'r option \<times> 'a db_scheme" where
  "sql_query f d =
     (let d' = d\<lparr>tick := Suc (tick d)\<rparr>
      in (if fault d (tick d) then None else Some (f d'), d'))"

fun sql_all :: "('a db_scheme \<Rightarrow> 'a db_scheme option) list \<Rightarrow> 'a db_scheme \<Rightarrow> bool \<times> 'a db_scheme" where
  "sql_all [] d = (True, d)"
| "sql_all (f # fs) d =
     (case sql_exec f d of (False, d') \<Rightarrow> (False, d') | (True, d') \<Rightarrow> sql_all fs d')"

text \<open>BeginTx, the statements, Commit; any error rolls every table back.\<close>

definition sql_tx :: "('a db_scheme \<Rightarrow> 'a db_scheme option) list \<Rightarrow> 'a db_scheme \<Rightarrow> bool \<times> 'a db_scheme" where
  "sql_tx fs d =
     (case sql_exec Some d of
        (False, d1) \<Rightarrow> (False, d1)
      | (True, d1) \<Rightarrow>
          (case sql_all fs d1 of
             (False, d2) \<Rightarrow> (False, d1\<lparr>tick := tick d2\<rparr>)
           | (True, d2) \<Rightarrow>
               (case sql_exec Some d2 of
                  (False, d3) \<Rightarrow> (False, d1\<lparr>tick := tick d3\<rparr>)
                | (True, d3) \<Rightarrow> (True, d3))))"

text \<open>
  A writing statement that reports a result: the number of affected rows (\<^verbatim>\<open>RowsAffected\<close>) or the values of its
  \<^verbatim>\<open>RETURNING\<close> clause.
\<close>

definition sql_returning ::
  "('a db_scheme \<Rightarrow> ('r \<times> 'a db_scheme) option) \<Rightarrow> 'a db_scheme \<Rightarrow> 'r option \<times> 'a db_scheme" where
  "sql_returning f d =
     (let d' = d\<lparr>tick := Suc (tick d)\<rparr>
      in if fault d (tick d) then (None, d')
         else (case f d' of None \<Rightarrow> (None, d') | Some (r, d'') \<Rightarrow> (Some r, d'')))"

text \<open>
  A transaction whose statements depend on what it reads: BeginTx, the body, and then Commit, or Rollback by the
  deferred call on any earlier return. \<open>failed\<close> is the result when BeginTx or Commit reports an error.
\<close>

datatype 'r tx_end = Rollback 'r | Commit 'r

definition in_tx :: "'r \<Rightarrow> ('a db_scheme \<Rightarrow> 'r tx_end \<times> 'a db_scheme) \<Rightarrow> 'a db_scheme \<Rightarrow> 'r \<times> 'a db_scheme" where
  "in_tx failed body d =
     (case sql_exec Some d of
        (False, d1) \<Rightarrow> (failed, d1)
      | (True, d1) \<Rightarrow>
          (case body d1 of
             (Rollback r, d2) \<Rightarrow> (r, d1\<lparr>tick := tick d2\<rparr>)
           | (Commit r, d2) \<Rightarrow>
               (case sql_exec Some d2 of
                  (False, d3) \<Rightarrow> (failed, d1\<lparr>tick := tick d3\<rparr>)
                | (True, d3) \<Rightarrow> (r, d3))))"

section \<open>Parameter markers\<close>

text \<open>
  \<open>rebindPostgres\<close> as a scan over the query with its local variables: the quote flags and the number of
  the next parameter.
\<close>

definition digit_char :: "nat \<Rightarrow> char" where
  "digit_char n = char_of (48 + n)"

fun decimal :: "nat \<Rightarrow> string" where
  "decimal n = (if n < 10 then [digit_char n] else decimal (n div 10) @ [digit_char (n mod 10)])"

declare decimal.simps [simp del]

fun rebind :: "string \<Rightarrow> nat \<Rightarrow> bool \<Rightarrow> bool \<Rightarrow> string" where
  "rebind [] k inSingle inDouble = []"
| "rebind (ch # rest) k inSingle inDouble =
     (if ch = CHR 0x27 then
        (if \<not> inDouble then
           (case rest of
              c2 # rest' \<Rightarrow>
                if inSingle \<and> c2 = CHR 0x27 then ch # c2 # rebind rest' k inSingle inDouble
                else ch # rebind rest k (\<not> inSingle) inDouble
            | [] \<Rightarrow> ch # rebind rest k (\<not> inSingle) inDouble)
         else ch # rebind rest k inSingle inDouble)
      else if ch = CHR 0x22 then
        ch # rebind rest k inSingle (if \<not> inSingle then \<not> inDouble else inDouble)
      else if ch = CHR ''?'' \<and> \<not> inSingle \<and> \<not> inDouble then
        CHR ''$'' # decimal k @ rebind rest (Suc k) inSingle inDouble
      else ch # rebind rest k inSingle inDouble)"

definition rebindPostgres :: "string \<Rightarrow> string" where
  "rebindPostgres query = rebind query 1 False False"

section \<open>Facts\<close>

lemma sql_exec_healthy [store_simps]:
  "healthy d \<Longrightarrow> sql_exec f d =
     (case f (d\<lparr>tick := Suc (tick d)\<rparr>) of
        None \<Rightarrow> (False, d\<lparr>tick := Suc (tick d)\<rparr>) | Some d' \<Rightarrow> (True, d'))"
  by (simp add: sql_exec_def healthy_def Let_def)

lemma sql_query_healthy [store_simps]:
  "healthy d \<Longrightarrow> sql_query f d = (Some (f (d\<lparr>tick := Suc (tick d)\<rparr>)), d\<lparr>tick := Suc (tick d)\<rparr>)"
  by (simp add: sql_query_def healthy_def Let_def)

lemma healthy_tick [simp]: "healthy (d\<lparr>tick := n\<rparr>) = healthy d"
  by (simp add: healthy_def)

lemma sql_exec_cases:
  "sql_exec f d = (False, d\<lparr>tick := Suc (tick d)\<rparr>) \<or>
   (\<exists>d'. f (d\<lparr>tick := Suc (tick d)\<rparr>) = Some d' \<and> sql_exec f d = (True, d'))"
  by (cases "f (d\<lparr>tick := Suc (tick d)\<rparr>)") (auto simp: sql_exec_def Let_def)

text \<open>A failed transaction leaves every table as it was.\<close>

lemma sql_tx_atomic: "sql_tx fs d = (False, d') \<Longrightarrow> \<exists>n. d' = d\<lparr>tick := n\<rparr>"
proof -
  assume *: "sql_tx fs d = (False, d')"
  have "sql_exec Some d = (False, d\<lparr>tick := Suc (tick d)\<rparr>) \<or>
        sql_exec Some d = (True, d\<lparr>tick := Suc (tick d)\<rparr>)"
    using sql_exec_cases [of Some d] by auto
  then show ?thesis
    using * by (auto simp: sql_tx_def split: prod.splits bool.splits)
qed

text \<open>A transaction has no effect, or the effect of a body that reached its commit.\<close>

lemma sql_exec_Some:
  "sql_exec Some d = (if fault d (tick d) then False else True, d\<lparr>tick := Suc (tick d)\<rparr>)"
  by (simp add: sql_exec_def Let_def)

lemma in_tx_cases:
  assumes "in_tx failed body d = (r, d')"
  obtains (unchanged) n d2 where "d' = d\<lparr>tick := n\<rparr>" "r = failed \<or> body (d\<lparr>tick := Suc (tick d)\<rparr>) = (Rollback r, d2)"
  | (committed) d2 n where "body (d\<lparr>tick := Suc (tick d)\<rparr>) = (Commit r, d2)" "d' = d2\<lparr>tick := n\<rparr>"
proof (cases "body (d\<lparr>tick := Suc (tick d)\<rparr>)")
  case (Pair e d2)
  then show thesis
    using assms unchanged committed
    by (cases e) (auto simp: in_tx_def sql_exec_Some split: if_splits)
qed

lemma in_tx_healthy [store_simps]:
  "healthy d \<Longrightarrow> in_tx failed body d =
     (case body (d\<lparr>tick := Suc (tick d)\<rparr>) of
        (Rollback r, d2) \<Rightarrow> (r, d\<lparr>tick := tick d2\<rparr>)
      | (Commit r, d2) \<Rightarrow> if fault d2 (tick d2) then (failed, d\<lparr>tick := Suc (tick d2)\<rparr>)
                         else (r, d2\<lparr>tick := Suc (tick d2)\<rparr>))"
  by (auto simp: in_tx_def sql_exec_def healthy_def Let_def split: prod.splits tx_end.splits)

lemma sql_returning_healthy [store_simps]:
  "healthy d \<Longrightarrow> sql_returning f d =
     (case f (d\<lparr>tick := Suc (tick d)\<rparr>) of
        None \<Rightarrow> (None, d\<lparr>tick := Suc (tick d)\<rparr>) | Some (r, d') \<Rightarrow> (Some r, d'))"
  by (simp add: sql_returning_def healthy_def Let_def)

lemma sql_returning_SomeD:
  "sql_returning f d = (Some r, d') \<Longrightarrow> f (d\<lparr>tick := Suc (tick d)\<rparr>) = Some (r, d')"
  by (auto simp: sql_returning_def Let_def split: if_splits option.splits)

lemma sql_query_SomeD:
  "sql_query f d = (Some r, d') \<Longrightarrow> r = f (d\<lparr>tick := Suc (tick d)\<rparr>) \<and> d' = d\<lparr>tick := Suc (tick d)\<rparr>"
  by (auto simp: sql_query_def Let_def split: if_splits)

lemma sql_query_state: "snd (sql_query f d) = d\<lparr>tick := Suc (tick d)\<rparr>"
  by (simp add: sql_query_def Let_def)

end
