(* ===== verification/Orchestration_Store.thy ===== *)
theory Orchestration_Store
  imports Database
begin

text \<open>
  The data of core/orchestration.go and the two orchestration tables of store/orchestrations.go, with
  the statements that write and read them. The interface \<^verbatim>\<open>orchestration.Store\<close> the service is written
  against is the locale \<open>task_store\<close>, interpreted here on these statements.
\<close>

section \<open>Data\<close>

datatype OrchestrationStatus =
  OrchestrationQueued | OrchestrationRunning | OrchestrationSucceeded
  | OrchestrationFailed | OrchestrationCancelled

record OrchestrationTask =
  t_ID :: string
  t_OrchestrationID :: string
  t_AgentID :: string
  t_Input :: string
  t_DependsOn :: "string list"
  t_Status :: OrchestrationStatus
  t_Output :: string
  t_Error :: string
  t_InvocationID :: string
  t_ConversationID :: string
  t_CreatedAt :: gotime
  t_StartedAt :: gotime
  t_FinishedAt :: gotime
  t_UpdatedAt :: gotime

record Orchestration =
  o_ID :: string
  o_Name :: string
  o_Status :: OrchestrationStatus
  o_MaxConcurrency :: int
  o_Error :: string
  o_Tasks :: "OrchestrationTask list"
  o_OwnerTenantID :: string
  o_CreatedAt :: gotime
  o_StartedAt :: gotime
  o_FinishedAt :: gotime
  o_UpdatedAt :: gotime

section \<open>Tables\<close>

text \<open>
  A time column holds the RFC 3339 text of a time, or the empty text for the zero time; it is modelled by
  the time it denotes. The dependency list is stored as JSON, which reads back as the same list.
\<close>

definition formatControlTime :: "gotime \<Rightarrow> gotime option" where
  "formatControlTime t = (if is_zero t then None else Some t)"

definition parseControlTime :: "gotime option \<Rightarrow> gotime" where
  "parseControlTime v = (case v of None \<Rightarrow> 0 | Some t \<Rightarrow> t)"

lemma parse_formatControlTime [simp]: "parseControlTime (formatControlTime t) = t"
  by (simp add: parseControlTime_def formatControlTime_def)

definition nullableOwner :: "string \<Rightarrow> string option" where
  "nullableOwner tenantID = (if tenantID = [] then None else Some tenantID)"

definition null_string :: "string option \<Rightarrow> string" where
  "null_string v = (case v of None \<Rightarrow> [] | Some s \<Rightarrow> s)"

lemma null_string_nullableOwner [simp]: "null_string (nullableOwner s) = s"
  by (simp add: null_string_def nullableOwner_def)

record orch_row =
  or_id :: string
  or_name :: string
  or_status :: OrchestrationStatus
  or_max_concurrency :: int
  or_error :: string
  or_owner_tenant_id :: "string option"
  or_created_at :: "gotime option"
  or_started_at :: "gotime option"
  or_finished_at :: "gotime option"
  or_updated_at :: "gotime option"

record orch_task_row =
  tr_orchestration_id :: string
  tr_id :: string
  tr_agent_id :: string
  tr_input :: string
  tr_depends_on :: "string list"
  tr_status :: OrchestrationStatus
  tr_output :: string
  tr_error :: string
  tr_invocation_id :: string
  tr_conversation_id :: string
  tr_created_at :: "gotime option"
  tr_started_at :: "gotime option"
  tr_finished_at :: "gotime option"
  tr_updated_at :: "gotime option"

text \<open>
  \<open>time_key\<close> and \<open>text_key\<close> give the sort keys the server uses for the text columns of the
  \<^verbatim>\<open>ORDER BY\<close> clauses; they depend on the collation of the database, which is not part of the code.
\<close>

record orch_db = db +
  orchestrations :: "orch_row list"
  orchestration_tasks :: "orch_task_row list"
  time_key :: "gotime option \<Rightarrow> int"
  text_key :: "string \<Rightarrow> string"

definition orch_row_of :: "Orchestration \<Rightarrow> orch_row" where
  "orch_row_of v = \<lparr>or_id = o_ID v, or_name = o_Name v, or_status = o_Status v,
     or_max_concurrency = o_MaxConcurrency v, or_error = o_Error v,
     or_owner_tenant_id = nullableOwner (o_OwnerTenantID v),
     or_created_at = formatControlTime (o_CreatedAt v),
     or_started_at = formatControlTime (o_StartedAt v),
     or_finished_at = formatControlTime (o_FinishedAt v),
     or_updated_at = formatControlTime (o_UpdatedAt v)\<rparr>"

definition task_row_of :: "string \<Rightarrow> OrchestrationTask \<Rightarrow> orch_task_row" where
  "task_row_of oid t = \<lparr>tr_orchestration_id = oid, tr_id = t_ID t, tr_agent_id = t_AgentID t,
     tr_input = t_Input t, tr_depends_on = t_DependsOn t, tr_status = t_Status t,
     tr_output = t_Output t, tr_error = t_Error t, tr_invocation_id = t_InvocationID t,
     tr_conversation_id = t_ConversationID t,
     tr_created_at = formatControlTime (t_CreatedAt t),
     tr_started_at = formatControlTime (t_StartedAt t),
     tr_finished_at = formatControlTime (t_FinishedAt t),
     tr_updated_at = formatControlTime (t_UpdatedAt t)\<rparr>"

section \<open>Statements\<close>

definition insert_orchestration :: "Orchestration \<Rightarrow> 'a orch_db_scheme \<Rightarrow> 'a orch_db_scheme option" where
  "insert_orchestration v d =
     (if \<exists>r\<in>set (orchestrations d). or_id r = o_ID v then None
      else Some (d\<lparr>orchestrations := orchestrations d @ [orch_row_of v]\<rparr>))"

definition insert_task :: "string \<Rightarrow> OrchestrationTask \<Rightarrow> 'a orch_db_scheme \<Rightarrow> 'a orch_db_scheme option" where
  "insert_task oid t d =
     (if \<exists>r\<in>set (orchestration_tasks d). tr_orchestration_id r = oid \<and> tr_id r = t_ID t then None
      else Some (d\<lparr>orchestration_tasks := orchestration_tasks d @ [task_row_of oid t]\<rparr>))"

definition CreateOrchestration :: "Orchestration \<Rightarrow> 'a orch_db_scheme \<Rightarrow> bool \<times> 'a orch_db_scheme" where
  "CreateOrchestration v d =
     sql_tx (insert_orchestration v # map (insert_task (o_ID v)) (o_Tasks v)) d"

definition write_head_row :: "Orchestration \<Rightarrow> orch_row \<Rightarrow> orch_row" where
  "write_head_row v r = r\<lparr>or_name := o_Name v, or_status := o_Status v,
     or_max_concurrency := o_MaxConcurrency v, or_error := o_Error v,
     or_started_at := formatControlTime (o_StartedAt v),
     or_finished_at := formatControlTime (o_FinishedAt v),
     or_updated_at := formatControlTime (o_UpdatedAt v)\<rparr>"

definition UpdateOrchestration :: "Orchestration \<Rightarrow> 'a orch_db_scheme \<Rightarrow> bool \<times> 'a orch_db_scheme" where
  "UpdateOrchestration v = sql_exec (\<lambda>d. Some (d\<lparr>orchestrations :=
     map (\<lambda>r. if or_id r = o_ID v then write_head_row v r else r) (orchestrations d)\<rparr>))"

definition write_task_row :: "OrchestrationTask \<Rightarrow> orch_task_row \<Rightarrow> orch_task_row" where
  "write_task_row t r = r\<lparr>tr_agent_id := t_AgentID t, tr_input := t_Input t,
     tr_depends_on := t_DependsOn t, tr_status := t_Status t, tr_output := t_Output t,
     tr_error := t_Error t, tr_invocation_id := t_InvocationID t,
     tr_conversation_id := t_ConversationID t,
     tr_started_at := formatControlTime (t_StartedAt t),
     tr_finished_at := formatControlTime (t_FinishedAt t),
     tr_updated_at := formatControlTime (t_UpdatedAt t)\<rparr>"

definition UpdateOrchestrationTask :: "OrchestrationTask \<Rightarrow> 'a orch_db_scheme \<Rightarrow> bool \<times> 'a orch_db_scheme" where
  "UpdateOrchestrationTask t = sql_exec (\<lambda>d. Some (d\<lparr>orchestration_tasks :=
     map (\<lambda>r. if tr_orchestration_id r = t_OrchestrationID t \<and> tr_id r = t_ID t
              then write_task_row t r else r) (orchestration_tasks d)\<rparr>))"

definition scan_task :: "orch_task_row \<Rightarrow> OrchestrationTask" where
  "scan_task r = \<lparr>t_ID = tr_id r, t_OrchestrationID = tr_orchestration_id r,
     t_AgentID = tr_agent_id r, t_Input = tr_input r, t_DependsOn = tr_depends_on r,
     t_Status = tr_status r, t_Output = tr_output r, t_Error = tr_error r,
     t_InvocationID = tr_invocation_id r, t_ConversationID = tr_conversation_id r,
     t_CreatedAt = parseControlTime (tr_created_at r),
     t_StartedAt = parseControlTime (tr_started_at r),
     t_FinishedAt = parseControlTime (tr_finished_at r),
     t_UpdatedAt = parseControlTime (tr_updated_at r)\<rparr>"

definition task_rows :: "string \<Rightarrow> 'a orch_db_scheme \<Rightarrow> orch_task_row list" where
  "task_rows oid d =
     sort_key (\<lambda>r. time_key d (tr_created_at r))
       (sort_key (\<lambda>r. text_key d (tr_id r))
         (filter (\<lambda>r. tr_orchestration_id r = oid) (orchestration_tasks d)))"

definition listOrchestrationTasks :: "string \<Rightarrow> 'a orch_db_scheme \<Rightarrow> OrchestrationTask list option \<times> 'a orch_db_scheme" where
  "listOrchestrationTasks oid = sql_query (\<lambda>d. map scan_task (task_rows oid d))"

definition scanOrchestration :: "orch_row \<Rightarrow> Orchestration" where
  "scanOrchestration r = \<lparr>o_ID = or_id r, o_Name = or_name r, o_Status = or_status r,
     o_MaxConcurrency = or_max_concurrency r, o_Error = or_error r, o_Tasks = [],
     o_OwnerTenantID = null_string (or_owner_tenant_id r),
     o_CreatedAt = parseControlTime (or_created_at r),
     o_StartedAt = parseControlTime (or_started_at r),
     o_FinishedAt = parseControlTime (or_finished_at r),
     o_UpdatedAt = parseControlTime (or_updated_at r)\<rparr>"

definition GetOrchestration ::
  "string \<Rightarrow> 'a orch_db_scheme \<Rightarrow> (db_error + Orchestration option) \<times> 'a orch_db_scheme" where
  "GetOrchestration oid d =
     (case sql_query (\<lambda>d. find (\<lambda>r. or_id r = oid) (orchestrations d)) d of
        (None, d1) \<Rightarrow> (Inl DriverError, d1)
      | (Some None, d1) \<Rightarrow> (Inr None, d1)
      | (Some (Some r), d1) \<Rightarrow>
          (case listOrchestrationTasks oid d1 of
             (None, d2) \<Rightarrow> (Inl DriverError, d2)
           | (Some ts, d2) \<Rightarrow> (Inr (Some ((scanOrchestration r)\<lparr>o_Tasks := ts\<rparr>)), d2)))"

definition active_status :: "OrchestrationStatus \<Rightarrow> bool" where
  "active_status s \<longleftrightarrow> s = OrchestrationQueued \<or> s = OrchestrationRunning"

definition listOrchestrations ::
  "bool \<Rightarrow> int \<Rightarrow> string \<Rightarrow> 'a orch_db_scheme \<Rightarrow> Orchestration list option \<times> 'a orch_db_scheme" where
  "listOrchestrations activeOnly limit tenantID =
     (let n = (if limit \<le> 0 \<or> limit > 500 then 100 else limit) in
      sql_query (\<lambda>d. map scanOrchestration (take (nat n)
        (sort_key (\<lambda>r. - time_key d (or_updated_at r))
          (filter (\<lambda>r. (activeOnly \<longrightarrow> active_status (or_status r)) \<and>
                       (tenantID \<noteq> [] \<longrightarrow> or_owner_tenant_id r = Some tenantID))
            (orchestrations d))))))"

definition ListOrchestrations :: "bool \<Rightarrow> int \<Rightarrow> 'a orch_db_scheme \<Rightarrow> Orchestration list option \<times> 'a orch_db_scheme" where
  "ListOrchestrations activeOnly limit = listOrchestrations activeOnly limit []"

definition ListOrchestrationsForTenant ::
  "bool \<Rightarrow> int \<Rightarrow> string \<Rightarrow> 'a orch_db_scheme \<Rightarrow> Orchestration list option \<times> 'a orch_db_scheme" where
  "ListOrchestrationsForTenant activeOnly limit tenantID = listOrchestrations activeOnly limit tenantID"

section \<open>The contract of the task table\<close>

text \<open>An update writes every column but the creation time.\<close>

definition merge_task :: "OrchestrationTask \<Rightarrow> OrchestrationTask \<Rightarrow> OrchestrationTask" where
  "merge_task t u = t\<lparr>t_CreatedAt := t_CreatedAt u\<rparr>"

text \<open>
  What the scheduler relies on: a write to a task is seen by the next read, in place and nowhere else,
  a write to the orchestration row does not touch the tasks, and it replaces every field of the row but
  the owner and the creation time.
\<close>

definition merge_head :: "Orchestration \<Rightarrow> Orchestration \<Rightarrow> Orchestration" where
  "merge_head v h = v\<lparr>o_Tasks := [], o_OwnerTenantID := o_OwnerTenantID h, o_CreatedAt := o_CreatedAt h\<rparr>"

locale task_store =
  fixes update_task :: "OrchestrationTask \<Rightarrow> 'd \<Rightarrow> bool \<times> 'd"
    and update_head :: "Orchestration \<Rightarrow> 'd \<Rightarrow> bool \<times> 'd"
    and stored :: "string \<Rightarrow> 'd \<Rightarrow> OrchestrationTask list"
    and head :: "string \<Rightarrow> 'd \<Rightarrow> Orchestration option"
    and ok :: "'d \<Rightarrow> bool"
  assumes update_task_ok: "ok d \<Longrightarrow> ok (snd (update_task t d))"
    and update_head_ok: "ok d \<Longrightarrow> ok (snd (update_head v d))"
    and update_task_stored: "ok d \<Longrightarrow> stored oid (snd (update_task t d)) =
      map (\<lambda>u. if t_OrchestrationID t = oid \<and> t_ID u = t_ID t then merge_task t u else u) (stored oid d)"
    and update_head_stored: "ok d \<Longrightarrow> stored oid (snd (update_head v d)) = stored oid d"
    and update_task_head: "ok d \<Longrightarrow> head oid (snd (update_task t d)) = head oid d"
    and update_head_head: "ok d \<Longrightarrow> head oid (snd (update_head v d)) =
      (if oid = o_ID v then map_option (merge_head v) (head oid d) else head oid d)"
    and stored_oid: "t \<in> set (stored oid d) \<Longrightarrow> t_OrchestrationID t = oid"
begin

lemma write_through:
  assumes "ok d" and ts: "stored oid d = ts" "distinct (map t_ID ts)" and i: "i < length ts"
    and t: "t_ID t = t_ID (ts ! i)" "t_OrchestrationID t = t_OrchestrationID (ts ! i)"
      "t_CreatedAt t = t_CreatedAt (ts ! i)"
  shows "stored oid (snd (update_task t d)) = ts[i := t]"
proof -
  have "t_OrchestrationID t = oid" using stored_oid [of "ts ! i" oid d] ts(1) i t(2) by simp
  moreover have "t_ID (ts ! j) = t_ID t \<longleftrightarrow> j = i" if "j < length ts" for j
    using ts(2) i that t(1) by (metis length_map nth_eq_iff_index_eq nth_map)
  ultimately show ?thesis
    using update_task_stored [OF assms(1), of oid t] ts(1) t(3)
    by (auto intro!: nth_equalityI simp: nth_list_update merge_task_def)
qed

lemma head_through:
  "ok d \<Longrightarrow> head (o_ID v) d = Some h \<Longrightarrow> o_OwnerTenantID v = o_OwnerTenantID h \<Longrightarrow>
   o_CreatedAt v = o_CreatedAt h \<Longrightarrow> head (o_ID v) (snd (update_head v d)) = Some (v\<lparr>o_Tasks := []\<rparr>)"
  by (simp add: update_head_head merge_head_def)

lemma other_unchanged:
  "ok d \<Longrightarrow> t_OrchestrationID t \<noteq> oid \<Longrightarrow> stored oid (snd (update_task t d)) = stored oid d"
  by (simp add: update_task_stored)

end

section \<open>The SQL statements meet the contract\<close>

definition stored_tasks :: "string \<Rightarrow> 'a orch_db_scheme \<Rightarrow> OrchestrationTask list" where
  "stored_tasks oid d = map scan_task (task_rows oid d)"

lemma write_task_row_keys [simp]:
  "tr_orchestration_id (write_task_row t r) = tr_orchestration_id r"
  "tr_id (write_task_row t r) = tr_id r" "tr_created_at (write_task_row t r) = tr_created_at r"
  by (simp_all add: write_task_row_def)

definition stored_head :: "string \<Rightarrow> 'a orch_db_scheme \<Rightarrow> Orchestration option" where
  "stored_head oid d = map_option scanOrchestration (find (\<lambda>r. or_id r = oid) (orchestrations d))"

lemma find_map_key: "(\<And>x. P (g x) = P x) \<Longrightarrow> find P (map g xs) = map_option g (find P xs)"
  by (induction xs) auto

lemma or_id_write_head_row [simp]: "or_id (write_head_row v r) = or_id r"
  by (simp add: write_head_row_def)

lemma scan_write_head_row: "or_id r = o_ID v \<Longrightarrow> scanOrchestration (write_head_row v r) = merge_head v (scanOrchestration r)"
  by (simp add: scanOrchestration_def write_head_row_def merge_head_def)

lemma stored_head_update:
  assumes "healthy d"
  shows "stored_head oid (snd (UpdateOrchestration v d)) =
    (if oid = o_ID v then map_option (merge_head v) (stored_head oid d) else stored_head oid d)"
proof -
  let ?g = "\<lambda>r. if or_id r = o_ID v then write_head_row v r else r"
  have "find (\<lambda>r. or_id r = oid) (map ?g rs) = map_option ?g (find (\<lambda>r. or_id r = oid) rs)" for rs
    by (rule find_map_key) simp
  then have eq: "stored_head oid (snd (UpdateOrchestration v d)) =
      map_option (\<lambda>r. scanOrchestration (?g r)) (find (\<lambda>r. or_id r = oid) (orchestrations d))"
    using assms by (simp add: stored_head_def UpdateOrchestration_def sql_exec_healthy option.map_comp comp_def)
  show ?thesis
  proof (cases "find (\<lambda>r. or_id r = oid) (orchestrations d)")
    case None
    then show ?thesis unfolding eq by (auto simp: stored_head_def)
  next
    case (Some r)
    then have "or_id r = oid" using find_Some_in [OF Some] by simp
    with Some show ?thesis unfolding eq by (auto simp: stored_head_def scan_write_head_row)
  qed
qed

lemma task_rows_oid: "r \<in> set (task_rows oid d) \<Longrightarrow> tr_orchestration_id r = oid"
  by (auto simp: task_rows_def)

lemma task_rows_tick [simp]: "task_rows oid (d\<lparr>tick := n\<rparr>) = task_rows oid d"
  by (simp add: task_rows_def)

lemma task_rows_map:
  assumes "\<And>r. tr_orchestration_id (g r) = tr_orchestration_id r" "\<And>r. tr_id (g r) = tr_id r"
    "\<And>r. tr_created_at (g r) = tr_created_at r"
  shows "task_rows oid (d\<lparr>orchestration_tasks := map g (orchestration_tasks d)\<rparr>) = map g (task_rows oid d)"
proof -
  have "filter (\<lambda>r. tr_orchestration_id r = oid) (map g rs) = map g (filter (\<lambda>r. tr_orchestration_id r = oid) rs)" for rs
    by (rule filter_map_same) (simp add: assms)
  moreover have "sort_key (\<lambda>r. text_key d (tr_id r)) (map g rs) = map g (sort_key (\<lambda>r. text_key d (tr_id r)) rs)" for rs
    by (rule sort_key_map_same) (simp add: assms)
  moreover have "sort_key (\<lambda>r. time_key d (tr_created_at r)) (map g rs) =
      map g (sort_key (\<lambda>r. time_key d (tr_created_at r)) rs)" for rs
    by (rule sort_key_map_same) (simp add: assms)
  ultimately show ?thesis by (simp add: task_rows_def)
qed

lemma UpdateOrchestrationTask_rows:
  "healthy d \<Longrightarrow> task_rows oid (snd (UpdateOrchestrationTask t d)) =
     map (\<lambda>r. if tr_orchestration_id r = t_OrchestrationID t \<and> tr_id r = t_ID t then write_task_row t r else r)
       (task_rows oid d)"
  using task_rows_map [of "\<lambda>r. if tr_orchestration_id r = t_OrchestrationID t \<and> tr_id r = t_ID t
      then write_task_row t r else r" oid "d\<lparr>tick := Suc (tick d)\<rparr>"]
  by (simp add: UpdateOrchestrationTask_def sql_exec_healthy)

lemma scan_write_task_row:
  "tr_orchestration_id r = t_OrchestrationID t \<Longrightarrow> tr_id r = t_ID t \<Longrightarrow>
   scan_task (write_task_row t r) = merge_task t (scan_task r)"
  by (simp add: scan_task_def write_task_row_def merge_task_def)

interpretation sql: task_store UpdateOrchestrationTask UpdateOrchestration stored_tasks stored_head healthy
proof unfold_locales
  fix d :: "'a orch_db_scheme" and t oid
  assume h: "healthy d"
  show "healthy (snd (UpdateOrchestrationTask t d))"
    using h by (simp add: UpdateOrchestrationTask_def sql_exec_healthy) (simp add: healthy_def)
  show "stored_tasks oid (snd (UpdateOrchestrationTask t d)) =
      map (\<lambda>u. if t_OrchestrationID t = oid \<and> t_ID u = t_ID t then merge_task t u else u) (stored_tasks oid d)"
    using task_rows_oid [of _ oid d]
    by (auto simp: stored_tasks_def UpdateOrchestrationTask_rows [OF h] scan_write_task_row)
       (auto simp: scan_task_def)
  show "stored_head oid (snd (UpdateOrchestrationTask t d)) = stored_head oid d"
    using h by (simp add: UpdateOrchestrationTask_def sql_exec_healthy stored_head_def)
next
  fix d :: "'a orch_db_scheme" and v oid
  assume h: "healthy d"
  show "healthy (snd (UpdateOrchestration v d))"
    using h by (simp add: UpdateOrchestration_def sql_exec_healthy) (simp add: healthy_def)
  show "stored_tasks oid (snd (UpdateOrchestration v d)) = stored_tasks oid d"
    by (simp add: UpdateOrchestration_def sql_exec_healthy [OF h] stored_tasks_def task_rows_def)
  show "stored_head oid (snd (UpdateOrchestration v d)) =
      (if oid = o_ID v then map_option (merge_head v) (stored_head oid d) else stored_head oid d)"
    by (rule stored_head_update [OF h])
next
  fix d :: "'a orch_db_scheme" and t oid
  show "t \<in> set (stored_tasks oid d) \<Longrightarrow> t_OrchestrationID t = oid"
    by (auto simp: stored_tasks_def scan_task_def dest: task_rows_oid)
qed

lemma GetOrchestration_tasks:
  "GetOrchestration oid d = (Inr (Some v), d') \<Longrightarrow> stored_head oid d = Some (v\<lparr>o_Tasks := []\<rparr>) \<and>
     o_Tasks v = stored_tasks oid d \<and> o_ID v = oid \<and> stored_tasks x d' = stored_tasks x d \<and>
     (\<exists>n. d' = d\<lparr>tick := n\<rparr>)"
  by (auto simp: GetOrchestration_def listOrchestrationTasks_def sql_query_def Let_def stored_tasks_def
      scanOrchestration_def stored_head_def split: if_splits option.splits prod.splits dest: find_Some_in)

section \<open>Create and read back\<close>

lemma tick_commute [simp]:
  "d\<lparr>orchestrations := os, tick := n\<rparr> = d\<lparr>tick := n, orchestrations := os\<rparr>"
  "d\<lparr>orchestration_tasks := ts, tick := n\<rparr> = d\<lparr>tick := n, orchestration_tasks := ts\<rparr>"
  by (cases d; simp)+

text \<open>The order in which tasks are read: by creation time, then by id.\<close>

definition stored_order :: "'a orch_db_scheme \<Rightarrow> OrchestrationTask list \<Rightarrow> OrchestrationTask list" where
  "stored_order d ts = sort_key (\<lambda>t. time_key d (formatControlTime (t_CreatedAt t)))
     (sort_key (\<lambda>t. text_key d (t_ID t)) ts)"

lemma sql_all_inserts:
  assumes "healthy d" and "distinct (map t_ID ts)"
    and "\<And>r. r \<in> set (orchestration_tasks d) \<Longrightarrow> tr_orchestration_id r = oid \<Longrightarrow> tr_id r \<notin> t_ID ` set ts"
  shows "sql_all (map (insert_task oid) ts) d =
    (True, d\<lparr>orchestration_tasks := orchestration_tasks d @ map (task_row_of oid) ts,
             tick := tick d + length ts\<rparr>)"
  using assms
proof (induction ts arbitrary: d)
  case (Cons t ts)
  let ?d = "d\<lparr>orchestration_tasks := orchestration_tasks d @ [task_row_of oid t], tick := Suc (tick d)\<rparr>"
  have e: "sql_exec (insert_task oid t) d = (True, ?d)"
    using Cons.prems by (auto simp: sql_exec_healthy insert_task_def)
  have "sql_all (map (insert_task oid) ts) ?d =
      (True, ?d\<lparr>orchestration_tasks := orchestration_tasks ?d @ map (task_row_of oid) ts, tick := tick ?d + length ts\<rparr>)"
  proof (intro Cons.IH)
    have "tr_id (task_row_of oid t) = t_ID t" by (simp add: task_row_of_def)
    then show "tr_id r \<notin> t_ID ` set ts"
      if "r \<in> set (orchestration_tasks ?d)" "tr_orchestration_id r = oid" for r
      using that Cons.prems(2,3) by (force simp: image_iff)
  qed (use Cons.prems in \<open>simp_all add: healthy_def\<close>)
  with e show ?case by simp
qed simp

lemma scan_task_row_of: "t_OrchestrationID t = oid \<Longrightarrow> scan_task (task_row_of oid t) = t"
  by (simp add: scan_task_def task_row_of_def)

lemma CreateOrchestration_ok:
  assumes "healthy d" and "distinct (map t_ID (o_Tasks v))"
    and "\<And>r. r \<in> set (orchestrations d) \<Longrightarrow> or_id r \<noteq> o_ID v"
    and "\<And>r. r \<in> set (orchestration_tasks d) \<Longrightarrow> tr_orchestration_id r \<noteq> o_ID v"
  shows "CreateOrchestration v d =
    (True, d\<lparr>orchestrations := orchestrations d @ [orch_row_of v],
             orchestration_tasks := orchestration_tasks d @ map (task_row_of (o_ID v)) (o_Tasks v),
             tick := tick d + length (o_Tasks v) + 3\<rparr>)"
proof -
  let ?d1 = "d\<lparr>orchestrations := orchestrations d @ [orch_row_of v], tick := tick d + 2\<rparr>"
  have "sql_all (insert_orchestration v # map (insert_task (o_ID v)) (o_Tasks v)) (d\<lparr>tick := Suc (tick d)\<rparr>) =
      sql_all (map (insert_task (o_ID v)) (o_Tasks v)) ?d1"
    using assms(1,3) by (auto simp: sql_exec_healthy insert_orchestration_def)
  also have "\<dots> = (True, ?d1\<lparr>orchestration_tasks := orchestration_tasks ?d1 @ map (task_row_of (o_ID v)) (o_Tasks v),
             tick := tick ?d1 + length (o_Tasks v)\<rparr>)"
    using assms by (intro sql_all_inserts) (auto simp: healthy_def)
  finally show ?thesis
    using assms(1) by (simp add: CreateOrchestration_def sql_tx_def sql_exec_healthy healthy_def sql_exec_def)
qed

lemma stored_tasks_created:
  assumes "\<And>r. r \<in> set (orchestration_tasks d) \<Longrightarrow> tr_orchestration_id r \<noteq> oid"
    and "\<And>t. t \<in> set ts \<Longrightarrow> t_OrchestrationID t = oid"
  shows "stored_tasks oid (d\<lparr>orchestration_tasks := orchestration_tasks d @ map (task_row_of oid) ts\<rparr>) = stored_order d ts"
proof -
  have "filter (\<lambda>r. tr_orchestration_id r = oid) (orchestration_tasks d @ map (task_row_of oid) ts) = map (task_row_of oid) ts"
    using assms(1) by (auto simp: filter_empty_conv filter_id_conv task_row_of_def)
  then have "task_rows oid (d\<lparr>orchestration_tasks := orchestration_tasks d @ map (task_row_of oid) ts\<rparr>) =
      map (task_row_of oid) (stored_order d ts)"
    by (simp add: task_rows_def sort_key_map_gen stored_order_def) (simp add: task_row_of_def)
  then show ?thesis
    using assms(2) by (auto simp: stored_tasks_def scan_task_row_of stored_order_def intro!: map_idI)
qed

text \<open>A stored orchestration reads back as it was created, its tasks in the order of the store.\<close>

lemma create_then_get:
  assumes d: "healthy d" and ids: "distinct (map t_ID (o_Tasks v))"
    and o: "\<And>r. r \<in> set (orchestrations d) \<Longrightarrow> or_id r \<noteq> o_ID v"
    and t: "\<And>r. r \<in> set (orchestration_tasks d) \<Longrightarrow> tr_orchestration_id r \<noteq> o_ID v"
    and oid: "\<And>t. t \<in> set (o_Tasks v) \<Longrightarrow> t_OrchestrationID t = o_ID v"
  shows "fst (GetOrchestration (o_ID v) (snd (CreateOrchestration v d))) =
     Inr (Some (v\<lparr>o_Tasks := stored_order d (o_Tasks v)\<rparr>))"
proof -
  let ?d = "snd (CreateOrchestration v d)"
  have eq: "?d = d\<lparr>tick := tick d + length (o_Tasks v) + 3, orchestrations := orchestrations d @ [orch_row_of v],
             orchestration_tasks := orchestration_tasks d @ map (task_row_of (o_ID v)) (o_Tasks v)\<rparr>"
    using CreateOrchestration_ok [OF d ids o t] by simp
  have h: "healthy ?d" using d by (simp add: eq healthy_def)
  have "find (\<lambda>r. or_id r = o_ID v) (orchestrations d) = None"
    using o by (auto simp: find_None_iff')
  then have "find (\<lambda>r. or_id r = o_ID v) (orchestrations ?d) = Some (orch_row_of v)"
    by (simp add: eq find_append_None orch_row_of_def)
  moreover have "stored_tasks (o_ID v) ?d = stored_order d (o_Tasks v)"
    using stored_tasks_created [OF t oid, of "d\<lparr>tick := tick d + length (o_Tasks v) + 3, orchestrations := orchestrations d @ [orch_row_of v]\<rparr>"]
    by (simp add: eq stored_order_def)
  moreover have "scanOrchestration (orch_row_of v) = v\<lparr>o_Tasks := []\<rparr>"
    by (simp add: scanOrchestration_def orch_row_of_def)
  ultimately show ?thesis
    using h by (simp add: GetOrchestration_def listOrchestrationTasks_def sql_query_healthy stored_tasks_def)
qed

end
