(* ===== verification/Orchestration_Validate.thy ===== *)
theory Orchestration_Validate
  imports Orchestration_Store
begin

text \<open>
  The validation half of orchestration/service.go: \<open>Normalize\<close> with its two loops over the submitted
  tasks, and the depth-first search of \<open>validateAcyclic\<close>. The search is shown to decide acyclicity of
  the task graph, and \<open>Normalize\<close> to accept exactly the valid requests.
\<close>

section \<open>Validation\<close>

definition maxTasks :: nat where "maxTasks = 32"
definition defaultWorkers :: int where "defaultWorkers = 4"
definition maxWorkers :: int where "maxWorkers = 12"
definition maxInputRunes :: int where "maxInputRunes = 250000"
definition maxOutputRunes :: int where "maxOutputRunes = 100000"

lemmas limit_defs = maxTasks_def defaultWorkers_def maxWorkers_def maxInputRunes_def maxOutputRunes_def

definition alnum :: "char \<Rightarrow> bool" where
  "alnum c \<longleftrightarrow> in_bytes 65 90 c \<or> in_bytes 97 122 c \<or> in_bytes 48 57 c"

definition taskIDPattern :: "string \<Rightarrow> bool" where
  "taskIDPattern s = (case s of [] \<Rightarrow> False
     | c # cs \<Rightarrow> alnum c \<and> length cs \<le> 63 \<and>
                list_all (\<lambda>c. alnum c \<or> c = CHR ''_'' \<or> c = CHR ''.'' \<or> c = CHR ''-'') cs)"

datatype norm_error =
  NameTooLong | TaskCount | ConcurrencyTooHigh | InvalidTaskID string | NoAgent string
  | BadInput string | BadDependency string string | CycleAt string

text \<open>The first loop: trimming, the per-task checks and the reset of the runtime fields.\<close>

definition queued_task :: "gotime \<Rightarrow> string \<Rightarrow> OrchestrationTask \<Rightarrow> OrchestrationTask" where
  "queued_task now oid t = t\<lparr>t_OrchestrationID := oid, t_Status := OrchestrationQueued,
     t_Output := [], t_Error := [], t_InvocationID := [], t_ConversationID := [],
     t_CreatedAt := now, t_UpdatedAt := now, t_StartedAt := 0, t_FinishedAt := 0\<rparr>"

fun norm_tasks :: "gotime \<Rightarrow> string \<Rightarrow> string list \<Rightarrow> OrchestrationTask list \<Rightarrow>
    norm_error + OrchestrationTask list" where
  "norm_tasks now oid ids [] = Inr []"
| "norm_tasks now oid ids (t0 # ts) =
     (let t = t0\<lparr>t_ID := trim_space (t_ID t0), t_AgentID := trim_space (t_AgentID t0),
                  t_Input := trim_space (t_Input t0)\<rparr>
      in if \<not> taskIDPattern (t_ID t) \<or> t_ID t \<in> set ids then Inl (InvalidTaskID (t_ID t))
         else if t_AgentID t = [] then Inl (NoAgent (t_ID t))
         else if t_Input t = [] \<or> int (length (runes (t_Input t))) > maxInputRunes then Inl (BadInput (t_ID t))
         else (case norm_tasks now oid (t_ID t # ids) ts of
                 Inl e \<Rightarrow> Inl e
               | Inr ts' \<Rightarrow> Inr (queued_task now oid t # ts')))"

text \<open>The second loop: dependencies trimmed, checked, deduplicated in order and sorted.\<close>

fun norm_deps :: "string \<Rightarrow> string list \<Rightarrow> string list \<Rightarrow> string list \<Rightarrow> norm_error + string list" where
  "norm_deps self ids normalized [] = Inr (sort normalized)"
| "norm_deps self ids normalized (d0 # ds) =
     (let d = trim_space d0
      in if d = self \<or> d \<notin> set ids then Inl (BadDependency self d)
         else norm_deps self ids (if d \<in> set normalized then normalized else normalized @ [d]) ds)"

fun norm_all_deps :: "string list \<Rightarrow> OrchestrationTask list \<Rightarrow> norm_error + OrchestrationTask list" where
  "norm_all_deps ids [] = Inr []"
| "norm_all_deps ids (t # ts) =
     (case norm_deps (t_ID t) ids [] (t_DependsOn t) of
        Inl e \<Rightarrow> Inl e
      | Inr ds \<Rightarrow>
          (case norm_all_deps ids ts of
             Inl e \<Rightarrow> Inl e
           | Inr ts' \<Rightarrow> Inr (t\<lparr>t_DependsOn := ds\<rparr> # ts')))"

text \<open>
  \<open>validateAcyclic\<close>: the closure \<open>visit\<close> with the set \<open>visiting\<close> (the path from the root, restored on
  return) and \<open>visited\<close> in the order of completion. The map \<open>deps\<close> is an association list, the last
  entry for a key first; \<open>rng\<close> is the order in which Go ranges over the map.
\<close>

definition dep_map :: "OrchestrationTask list \<Rightarrow> (string \<times> string list) list" where
  "dep_map tasks = rev (map (\<lambda>t. (t_ID t, t_DependsOn t)) tasks)"

lemma card_visiting_less:
  assumes "x \<notin> set visiting" and "map_of deps x = Some ds"
  shows "card (fst ` set deps - insert x (set visiting)) < card (fst ` set deps - set visiting)"
proof (rule psubset_card_mono)
  have "x \<in> fst ` set deps" using map_of_SomeD [OF assms(2)] by force
  with assms(1) show "fst ` set deps - insert x (set visiting) \<subset> fst ` set deps - set visiting"
    by blast
qed simp

function visit :: "(string \<times> string list) list \<Rightarrow> string list \<Rightarrow> string list \<Rightarrow> string \<Rightarrow>
    norm_error + string list"
  and visit_all :: "(string \<times> string list) list \<Rightarrow> string list \<Rightarrow> string list \<Rightarrow> string list \<Rightarrow>
    norm_error + string list" where
  "visit deps visiting visited x =
     (if x \<in> set visiting then Inl (CycleAt x)
      else if x \<in> set visited then Inr visited
      else (case map_of deps x of
              None \<Rightarrow> Inr (x # visited)
            | Some ds \<Rightarrow>
                (case visit_all deps (x # visiting) visited ds of
                   Inl e \<Rightarrow> Inl e
                 | Inr visited' \<Rightarrow> Inr (x # visited'))))"
| "visit_all deps visiting visited [] = Inr visited"
| "visit_all deps visiting visited (d # ds) =
     (case visit deps visiting visited d of
        Inl e \<Rightarrow> Inl e
      | Inr visited' \<Rightarrow> visit_all deps visiting visited' ds)"
  by pat_completeness auto
termination
  by (relation "measures
        [case_sum (\<lambda>(deps, v, s, x). card (fst ` set deps - set v))
                  (\<lambda>(deps, v, s, ds). card (fst ` set deps - set v)),
         case_sum (\<lambda>_. 0) (\<lambda>(deps, v, s, ds). Suc (length ds))]")
     (auto simp: card_visiting_less)

declare visit.simps [simp del]

definition validateAcyclic :: "(string list \<Rightarrow> string list) \<Rightarrow> OrchestrationTask list \<Rightarrow> norm_error option" where
  "validateAcyclic rng tasks =
     (case visit_all (dep_map tasks) [] [] (rng (map t_ID tasks)) of
        Inl e \<Rightarrow> Some e | Inr _ \<Rightarrow> None)"

definition Normalize :: "gotime \<Rightarrow> string \<Rightarrow> (string list \<Rightarrow> string list) \<Rightarrow> string \<Rightarrow> int \<Rightarrow>
    OrchestrationTask list \<Rightarrow> norm_error + Orchestration" where
  "Normalize now oid rng name0 maxConcurrency0 tasks0 =
     (let name1 = trim_space name0;
          name = (if name1 = [] then ''Agent orchestration'' else name1);
          maxConcurrency = (if maxConcurrency0 \<le> 0 then defaultWorkers else maxConcurrency0)
      in if length (runes name) > 160 then Inl NameTooLong
         else if length tasks0 = 0 \<or> length tasks0 > maxTasks then Inl TaskCount
         else if maxConcurrency > maxWorkers then Inl ConcurrencyTooHigh
         else (case norm_tasks now oid [] tasks0 of
                 Inl e \<Rightarrow> Inl e
               | Inr tasks1 \<Rightarrow>
                   (case norm_all_deps (map t_ID tasks1) tasks1 of
                      Inl e \<Rightarrow> Inl e
                    | Inr tasks2 \<Rightarrow>
                        (case validateAcyclic rng tasks2 of
                           Some e \<Rightarrow> Inl e
                         | None \<Rightarrow> Inr \<lparr>o_ID = oid, o_Name = name, o_Status = OrchestrationQueued,
                             o_MaxConcurrency = maxConcurrency, o_Error = [], o_Tasks = tasks2,
                             o_OwnerTenantID = [], o_CreatedAt = now, o_StartedAt = 0,
                             o_FinishedAt = 0, o_UpdatedAt = now\<rparr>))))"

section \<open>The depth-first search decides acyclicity\<close>

definition deps_of :: "(string \<times> string list) list \<Rightarrow> string \<Rightarrow> string list" where
  "deps_of deps x = (case map_of deps x of None \<Rightarrow> [] | Some ds \<Rightarrow> ds)"

definition depends :: "(string \<times> string list) list \<Rightarrow> (string \<times> string) set" where
  "depends deps = {(x, d). d \<in> set (deps_of deps x)}"

lemma depends_iff: "(x, d) \<in> depends deps \<longleftrightarrow> (\<exists>ds. map_of deps x = Some ds \<and> d \<in> set ds)"
  by (cases "map_of deps x") (auto simp: depends_def deps_of_def)

text \<open>The task graph: an edge from each task to every task it depends on.\<close>

definition task_edges :: "OrchestrationTask list \<Rightarrow> (string \<times> string) set" where
  "task_edges tasks = {(t_ID t, d) | t d. t \<in> set tasks \<and> d \<in> set (t_DependsOn t)}"

text \<open>A completion order: each node after all it depends on, read from the right.\<close>

fun topo :: "(string \<times> string list) list \<Rightarrow> string list \<Rightarrow> bool" where
  "topo deps [] = True"
| "topo deps (x # xs) = (x \<notin> set xs \<and> set (deps_of deps x) \<subseteq> set xs \<and> topo deps xs)"

lemma visit_sound:
  "visit deps V S x = Inr S' \<Longrightarrow> topo deps S \<Longrightarrow> set V \<inter> set S = {} \<Longrightarrow>
     topo deps S' \<and> set V \<inter> set S' = {} \<and> set S \<subseteq> set S' \<and> x \<in> set S'"
  "visit_all deps V S ds = Inr S' \<Longrightarrow> topo deps S \<Longrightarrow> set V \<inter> set S = {} \<Longrightarrow>
     topo deps S' \<and> set V \<inter> set S' = {} \<and> set S \<subseteq> set S' \<and> set ds \<subseteq> set S'"
proof (induction deps V S x and deps V S ds arbitrary: S' and S' rule: visit_visit_all.induct)
  case (1 deps V S x)
  show ?case
  proof (cases "x \<in> set V \<or> x \<in> set S \<or> map_of deps x = None")
    case True
    with 1(2-4) show ?thesis
      by (auto simp: visit.simps deps_of_def split: if_splits)
  next
    case False
    then obtain ds where ds: "map_of deps x = Some ds" and x: "x \<notin> set V" "x \<notin> set S" by auto
    with 1(2) obtain S1 where S1: "visit_all deps (x # V) S ds = Inr S1" and S': "S' = x # S1"
      by (auto simp: visit.simps split: sum.splits)
    have "topo deps S1 \<and> set (x # V) \<inter> set S1 = {} \<and> set S \<subseteq> set S1 \<and> set ds \<subseteq> set S1"
      using 1(1) [OF x ds S1 1(3)] 1(4) x by auto
    with S' x ds show ?thesis by (auto simp: deps_of_def)
  qed
next
  case (2 deps V S)
  then show ?case by simp
next
  case (3 deps V S d ds)
  from 3(3) obtain S1 where S1: "visit deps V S d = Inr S1" and S': "visit_all deps V S1 ds = Inr S'"
    by (auto split: sum.splits)
  have a: "topo deps S1 \<and> set V \<inter> set S1 = {} \<and> set S \<subseteq> set S1 \<and> d \<in> set S1"
    using 3(1) [OF S1 3(4,5)] .
  have "topo deps S' \<and> set V \<inter> set S' = {} \<and> set S1 \<subseteq> set S' \<and> set ds \<subseteq> set S'"
    using 3(2) [OF S1 S'] a by blast
  with a show ?case by auto
qed

text \<open>The stack \<open>visiting\<close> is a path of the graph, its top the node being expanded.\<close>

fun dep_path :: "(string \<times> string list) list \<Rightarrow> string list \<Rightarrow> bool" where
  "dep_path deps [] = True"
| "dep_path deps [x] = True"
| "dep_path deps (x # y # ys) = ((y, x) \<in> depends deps \<and> dep_path deps (y # ys))"

lemma dep_path_reaches: "dep_path deps (x # V) \<Longrightarrow> y \<in> set V \<Longrightarrow> (y, x) \<in> (depends deps)\<^sup>+"
proof (induction V arbitrary: x)
  case (Cons z V)
  then have zx: "(z, x) \<in> depends deps" and p: "dep_path deps (z # V)" by auto
  show ?case
  proof (cases "y = z")
    case True
    with zx show ?thesis by auto
  next
    case False
    with Cons.prems(2) have "y \<in> set V" by simp
    from Cons.IH [OF p this] zx show ?thesis by (rule trancl_into_trancl)
  qed
qed simp

lemma visit_complete:
  "visit deps V S x = Inl e \<Longrightarrow> dep_path deps (x # V) \<Longrightarrow>
     \<exists>y. e = CycleAt y \<and> (y, y) \<in> (depends deps)\<^sup>+"
  "visit_all deps V S ds = Inl e \<Longrightarrow> \<forall>d \<in> set ds. dep_path deps (d # V) \<Longrightarrow>
     \<exists>y. e = CycleAt y \<and> (y, y) \<in> (depends deps)\<^sup>+"
proof (induction deps V S x and deps V S ds arbitrary: e and e rule: visit_visit_all.induct)
  case (1 deps V S x)
  show ?case
  proof (cases "x \<in> set V")
    case True
    with 1(2,3) show ?thesis by (auto simp: visit.simps dest: dep_path_reaches)
  next
    case False
    with 1(2) obtain ds where ds: "x \<notin> set S" "map_of deps x = Some ds"
      and e: "visit_all deps (x # V) S ds = Inl e"
      by (auto simp: visit.simps split: if_splits option.splits sum.splits)
    have "\<forall>d \<in> set ds. dep_path deps (d # x # V)"
      using 1(3) ds by (auto simp: depends_def deps_of_def)
    with 1(1) [OF False ds e] show ?thesis by blast
  qed
next
  case (2 deps V S)
  then show ?case by simp
next
  case (3 deps V S d ds)
  show ?case
  proof (cases "visit deps V S d")
    case (Inl e')
    with 3(3) have "e' = e" by simp
    with Inl 3(1,4) show ?thesis by auto
  next
    case (Inr S1)
    with 3(3) have "visit_all deps V S1 ds = Inl e" by simp
    with 3(2) [OF Inr] 3(4) show ?thesis by auto
  qed
qed

lemma topo_position:
  "topo deps L \<Longrightarrow> x \<in> set L \<Longrightarrow> d \<in> set (deps_of deps x) \<Longrightarrow>
   length (dropWhile (\<lambda>y. y \<noteq> d) L) < length (dropWhile (\<lambda>y. y \<noteq> x) L)"
proof (induction L)
  case (Cons z L)
  have le: "length (dropWhile P xs) \<le> length xs" for P and xs :: "string list"
    by (induction xs) auto
  show ?case
  proof (cases "z = x")
    case True
    with Cons.prems have "d \<in> set L" "x \<notin> set L" by auto
    then have "d \<noteq> z" using True by auto
    with True le [of "\<lambda>y. y \<noteq> d" L] show ?thesis by simp
  next
    case False
    with Cons.prems have "x \<in> set L" "topo deps L" by auto
    with Cons.IH Cons.prems(3) have *: "length (dropWhile (\<lambda>y. y \<noteq> d) L) < length (dropWhile (\<lambda>y. y \<noteq> x) L)"
      by simp
    have "d \<in> set L"
      using \<open>topo deps L\<close> \<open>x \<in> set L\<close> Cons.prems(3) by (induction L) auto
    with Cons.prems(1) False have "d \<noteq> z" by auto
    with False * show ?thesis by simp
  qed
qed simp

lemma topo_acyclic:
  assumes "topo deps L" and "fst ` set deps \<subseteq> set L"
  shows "acyclic (depends deps)"
proof (rule acyclicI_order)
  fix x d assume "(x, d) \<in> depends deps"
  then have d: "d \<in> set (deps_of deps x)" by (simp add: depends_def)
  then have "map_of deps x \<noteq> None" by (cases "map_of deps x") (auto simp: deps_of_def)
  then have "x \<in> set L" using assms(2) by (auto simp: map_of_eq_None_iff)
  from topo_position [OF assms(1) this d]
  show "length (dropWhile (\<lambda>y. y \<noteq> d) L) < length (dropWhile (\<lambda>y. y \<noteq> x) L)" .
qed

lemma depends_dep_map:
  assumes "distinct (map t_ID tasks)"
  shows "depends (dep_map tasks) = task_edges tasks"
proof -
  let ?m = "map (\<lambda>t. (t_ID t, t_DependsOn t)) tasks"
  have dist: "distinct (map fst ?m)" using assms by (simp add: comp_def)
  have "map_of (dep_map tasks) x = Some ds \<longleftrightarrow> (\<exists>t\<in>set tasks. x = t_ID t \<and> ds = t_DependsOn t)" for x ds
  proof -
    have "map_of (dep_map tasks) = map_of ?m"
      unfolding dep_map_def using dist by (simp add: map_of_rev_same)
    then show ?thesis using dist by (auto simp: map_of_eq_Some_iff)
  qed
  then show ?thesis
    by (fastforce simp: depends_iff task_edges_def)
qed

lemma validateAcyclic_iff:
  assumes "distinct (map t_ID tasks)" and "set (rng (map t_ID tasks)) = set (map t_ID tasks)"
  shows "validateAcyclic rng tasks = None \<longleftrightarrow> acyclic (task_edges tasks)"
proof (cases "visit_all (dep_map tasks) [] [] (rng (map t_ID tasks))")
  case (Inl e)
  have "\<exists>y. (y, y) \<in> (depends (dep_map tasks))\<^sup>+"
    using visit_complete(2) [OF Inl] by auto
  with Inl depends_dep_map [OF assms(1)] show ?thesis
    by (auto simp: validateAcyclic_def acyclic_def)
next
  case (Inr S)
  have "topo (dep_map tasks) S \<and> set (map t_ID tasks) \<subseteq> set S"
    using visit_sound(2) [OF Inr] assms(2) by auto
  moreover have "fst ` set (dep_map tasks) = set (map t_ID tasks)"
    by (force simp: dep_map_def)
  ultimately have "acyclic (depends (dep_map tasks))"
    using topo_acyclic [of "dep_map tasks" S] by auto
  with Inr depends_dep_map [OF assms(1)] show ?thesis
    by (simp add: validateAcyclic_def)
qed

section \<open>What Normalize accepts\<close>

definition trim_task :: "OrchestrationTask \<Rightarrow> OrchestrationTask" where
  "trim_task t = t\<lparr>t_ID := trim_space (t_ID t), t_AgentID := trim_space (t_AgentID t),
     t_Input := trim_space (t_Input t)\<rparr>"

definition task_ok :: "OrchestrationTask \<Rightarrow> bool" where
  "task_ok t \<longleftrightarrow> taskIDPattern (t_ID t) \<and> t_AgentID t \<noteq> [] \<and> t_Input t \<noteq> [] \<and>
     int (length (runes (t_Input t))) \<le> maxInputRunes"

text \<open>The trimmed request, its dependencies trimmed too: the graph the caller describes.\<close>

definition trim_deps :: "OrchestrationTask \<Rightarrow> OrchestrationTask" where
  "trim_deps t = (trim_task t)\<lparr>t_DependsOn := map trim_space (t_DependsOn t)\<rparr>"

definition valid_request :: "string \<Rightarrow> int \<Rightarrow> OrchestrationTask list \<Rightarrow> bool" where
  "valid_request name maxConcurrency tasks \<longleftrightarrow>
     length (runes (trim_space name)) \<le> 160 \<and>
     0 < length tasks \<and> length tasks \<le> maxTasks \<and> maxConcurrency \<le> maxWorkers \<and>
     (\<forall>t\<in>set tasks. task_ok (trim_task t)) \<and>
     distinct (map (\<lambda>t. t_ID (trim_task t)) tasks) \<and>
     (\<forall>t\<in>set tasks. \<forall>d\<in>set (t_DependsOn t). trim_space d \<noteq> t_ID (trim_task t) \<and>
        trim_space d \<in> set (map (\<lambda>t. t_ID (trim_task t)) tasks)) \<and>
     acyclic (task_edges (map trim_deps tasks))"

text \<open>The shape of an accepted orchestration.\<close>

definition wf_tasks :: "OrchestrationTask list \<Rightarrow> bool" where
  "wf_tasks ts \<longleftrightarrow> distinct (map t_ID ts) \<and> acyclic (task_edges ts) \<and>
     (\<forall>t\<in>set ts. task_ok t \<and> sorted (t_DependsOn t) \<and> distinct (t_DependsOn t) \<and>
        set (t_DependsOn t) \<subseteq> set (map t_ID ts) - {t_ID t})"

definition wf_orchestration :: "Orchestration \<Rightarrow> bool" where
  "wf_orchestration v \<longleftrightarrow> o_Name v \<noteq> [] \<and> length (runes (o_Name v)) \<le> 160 \<and>
     1 \<le> o_MaxConcurrency v \<and> o_MaxConcurrency v \<le> maxWorkers \<and>
     0 < length (o_Tasks v) \<and> length (o_Tasks v) \<le> maxTasks \<and> wf_tasks (o_Tasks v) \<and>
     (\<forall>t\<in>set (o_Tasks v). t_Status t = OrchestrationQueued \<and> t_OrchestrationID t = o_ID v \<and>
        t_CreatedAt t = o_CreatedAt v)"

lemma norm_tasks_Inr_iff:
  "norm_tasks now oid ids ts = Inr ts' \<longleftrightarrow>
     (\<forall>t\<in>set ts. task_ok (trim_task t)) \<and> distinct (map (\<lambda>t. t_ID (trim_task t)) ts) \<and>
     set ids \<inter> set (map (\<lambda>t. t_ID (trim_task t)) ts) = {} \<and>
     ts' = map (\<lambda>t. queued_task now oid (trim_task t)) ts"
proof (induction ts arbitrary: ids ts')
  case (Cons t ts)
  let ?n = "norm_tasks now oid (t_ID (trim_task t) # ids) ts"
  show ?case
    using Cons.IH [of "t_ID (trim_task t) # ids"]
    by (cases ?n) (auto simp: Let_def task_ok_def trim_task_def [symmetric])
qed auto

lemma norm_deps_Inr:
  "(\<exists>r. norm_deps self ids acc ds = Inr r) \<longleftrightarrow>
     (\<forall>d\<in>set ds. trim_space d \<noteq> self \<and> trim_space d \<in> set ids)"
  by (induction ds arbitrary: acc) (auto simp: Let_def)

lemma norm_deps_result:
  "norm_deps self ids acc ds = Inr r \<Longrightarrow> distinct acc \<Longrightarrow>
     sorted r \<and> distinct r \<and> set r = set acc \<union> trim_space ` set ds"
  by (induction ds arbitrary: acc) (auto simp: Let_def split: if_splits)

lemma norm_all_deps_Inr:
  "(\<exists>r. norm_all_deps ids ts = Inr r) \<longleftrightarrow>
     (\<forall>t\<in>set ts. \<forall>d\<in>set (t_DependsOn t). trim_space d \<noteq> t_ID t \<and> trim_space d \<in> set ids)"
proof (induction ts)
  case (Cons t ts)
  show ?case
    using norm_deps_Inr [of "t_ID t" ids "[]" "t_DependsOn t"] Cons.IH
    by (cases "norm_deps (t_ID t) ids [] (t_DependsOn t)"; cases "norm_all_deps ids ts") auto
qed simp

lemma task_edges_iff: "(x, d) \<in> task_edges ts \<longleftrightarrow> (\<exists>t\<in>set ts. x = t_ID t \<and> d \<in> set (t_DependsOn t))"
  by (auto simp: task_edges_def)

text \<open>Only the dependency lists change, each to the sorted set of its trimmed entries.\<close>

definition deps_normalized :: "OrchestrationTask \<Rightarrow> OrchestrationTask \<Rightarrow> bool" where
  "deps_normalized t t' \<longleftrightarrow> t' = t\<lparr>t_DependsOn := t_DependsOn t'\<rparr> \<and> sorted (t_DependsOn t') \<and>
     distinct (t_DependsOn t') \<and> set (t_DependsOn t') = trim_space ` set (t_DependsOn t)"

lemma norm_all_deps_result:
  "norm_all_deps ids ts = Inr ts' \<Longrightarrow> list_all2 deps_normalized ts ts'"
proof (induction ts arbitrary: ts')
  case (Cons t ts)
  then obtain ds ts1 where "norm_deps (t_ID t) ids [] (t_DependsOn t) = Inr ds"
    and "norm_all_deps ids ts = Inr ts1" and "ts' = t\<lparr>t_DependsOn := ds\<rparr> # ts1"
    by (auto split: sum.splits)
  with Cons.IH norm_deps_result [of "t_ID t" ids "[]" "t_DependsOn t" ds] show ?case
    by (simp add: deps_normalized_def)
qed simp

lemma deps_normalized_fields:
  "deps_normalized t t' \<Longrightarrow> t_ID t' = t_ID t \<and> t_AgentID t' = t_AgentID t \<and> t_Input t' = t_Input t \<and>
     t_Status t' = t_Status t \<and> t_OrchestrationID t' = t_OrchestrationID t \<and> t_CreatedAt t' = t_CreatedAt t"
  unfolding deps_normalized_def by (metis OrchestrationTask.select_convs OrchestrationTask.surjective OrchestrationTask.update_convs(5))

lemma deps_normalized_ids: "list_all2 deps_normalized ts ts' \<Longrightarrow> map t_ID ts' = map t_ID ts"
  by (induction rule: list_all2_induct) (auto dest: deps_normalized_fields)

text \<open>Normalization leaves the graph the caller described.\<close>

lemma task_edges_normalized:
  "list_all2 deps_normalized (map (\<lambda>t. queued_task now oid (trim_task t)) ts) ts' \<Longrightarrow>
   task_edges ts' = task_edges (map trim_deps ts)"
proof -
  have step: "(\<exists>t\<in>set ts'. x = t_ID t \<and> d \<in> set (t_DependsOn t)) =
     (\<exists>t\<in>set ts. x = t_ID (trim_task t) \<and> d \<in> trim_space ` set (t_DependsOn t))"
    if "list_all2 deps_normalized (map (\<lambda>t. queued_task now oid (trim_task t)) ts) ts'" for x d
    using that
  proof (induction ts arbitrary: ts')
    case (Cons t ts)
    then obtain t1 ts1 where "ts' = t1 # ts1" and n: "deps_normalized (queued_task now oid (trim_task t)) t1"
      and "list_all2 deps_normalized (map (\<lambda>t. queued_task now oid (trim_task t)) ts) ts1"
      by (auto simp: list_all2_Cons1)
    moreover have "t_ID t1 = t_ID (trim_task t)" "set (t_DependsOn t1) = trim_space ` set (t_DependsOn t)"
      using deps_normalized_fields [OF n] n
      by (auto simp: queued_task_def deps_normalized_def trim_task_def)
    ultimately show ?case using Cons.IH by auto
  qed simp
  assume "list_all2 deps_normalized (map (\<lambda>t. queued_task now oid (trim_task t)) ts) ts'"
  note eq = step [OF this]
  have "(x, d) \<in> task_edges ts' \<longleftrightarrow> (x, d) \<in> task_edges (map trim_deps ts)" for x d
    using eq [of x d] by (simp add: task_edges_iff trim_deps_def)
  then show ?thesis by auto
qed

lemma norm_tasks_ids:
  "map t_ID (map (\<lambda>t. queued_task now oid (trim_task t)) ts) = map (\<lambda>t. t_ID (trim_task t)) ts"
  by (simp add: queued_task_def)

lemma Normalize_accepts:
  assumes rng: "\<And>xs. set (rng xs) = set xs"
  shows "(\<exists>v. Normalize now oid rng name n tasks = Inr v) \<longleftrightarrow> valid_request name n tasks"
proof -
  let ?q = "map (\<lambda>t. queued_task now oid (trim_task t)) tasks"
  let ?ids = "map (\<lambda>t. t_ID (trim_task t)) tasks"
  have len: "length (runes (if trim_space name = [] then ''Agent orchestration'' else trim_space name)) > 160
     \<longleftrightarrow> length (runes (trim_space name)) > 160"
    by (auto, code_simp, simp add: runes_def)
  have conc: "(if n \<le> 0 then defaultWorkers else n) > maxWorkers \<longleftrightarrow> n > maxWorkers"
    by (auto simp: limit_defs)
  have deps: "(\<exists>ts. norm_all_deps ?ids ?q = Inr ts) \<longleftrightarrow>
     (\<forall>t\<in>set tasks. \<forall>d\<in>set (t_DependsOn t). trim_space d \<noteq> t_ID (trim_task t) \<and> trim_space d \<in> set ?ids)"
    by (simp add: norm_all_deps_Inr queued_task_def trim_task_def)
  have acyc: "validateAcyclic rng ts = None \<longleftrightarrow> acyclic (task_edges (map trim_deps tasks))"
    if "norm_all_deps ?ids ?q = Inr ts" and "distinct ?ids" for ts
  proof -
    note l = norm_all_deps_result [OF that(1)]
    have "distinct (map t_ID ts)"
      using deps_normalized_ids [OF l] that(2) by (simp only: norm_tasks_ids)
    then show ?thesis
      using validateAcyclic_iff [of ts rng] rng task_edges_normalized [OF l] by simp
  qed
  show ?thesis
  proof (cases "norm_tasks now oid [] tasks")
    case (Inl e)
    then have "\<not> (\<forall>t\<in>set tasks. task_ok (trim_task t)) \<or> \<not> distinct ?ids"
      using norm_tasks_Inr_iff [of now oid "[]" tasks ?q] by auto
    with Inl show ?thesis by (auto simp: Normalize_def valid_request_def Let_def)
  next
    case (Inr ts)
    then have ok: "(\<forall>t\<in>set tasks. task_ok (trim_task t))" "distinct ?ids" and ts: "ts = ?q"
      using norm_tasks_Inr_iff [of now oid "[]" tasks ts] by auto
    show ?thesis
      using Inr ok deps acyc
      by (cases "norm_all_deps ?ids ?q")
         (auto simp: Normalize_def valid_request_def Let_def ts norm_tasks_ids len conc not_less
               simp del: map_map split: option.splits)
  qed
qed

lemma Normalize_result:
  assumes "Normalize now oid rng name n tasks = Inr v"
  obtains ts where "norm_tasks now oid [] tasks = Inr (map (\<lambda>t. queued_task now oid (trim_task t)) tasks)"
    and "list_all2 deps_normalized (map (\<lambda>t. queued_task now oid (trim_task t)) tasks) ts"
    and "o_Tasks v = ts" "o_ID v = oid" "o_CreatedAt v = now"
    and "o_Name v = (if trim_space name = [] then ''Agent orchestration'' else trim_space name)"
    and "o_MaxConcurrency v = (if n \<le> 0 then defaultWorkers else n)"
    and "length (runes (o_Name v)) \<le> 160" "o_MaxConcurrency v \<le> maxWorkers"
    and "0 < length tasks" "length tasks \<le> maxTasks"
proof -
  from assms obtain q ts where q: "norm_tasks now oid [] tasks = Inr q"
    and ts: "norm_all_deps (map t_ID q) q = Inr ts"
    and v: "v = \<lparr>o_ID = oid, o_Name = (if trim_space name = [] then ''Agent orchestration'' else trim_space name),
        o_Status = OrchestrationQueued, o_MaxConcurrency = (if n \<le> 0 then defaultWorkers else n),
        o_Error = [], o_Tasks = ts, o_OwnerTenantID = [], o_CreatedAt = now, o_StartedAt = 0,
        o_FinishedAt = 0, o_UpdatedAt = now\<rparr>"
    and "length (runes (o_Name v)) \<le> 160" "o_MaxConcurrency v \<le> maxWorkers"
    and "0 < length tasks" "length tasks \<le> maxTasks"
    by (auto simp: Normalize_def Let_def not_less split: if_splits sum.splits option.splits)
  moreover have "q = map (\<lambda>t. queued_task now oid (trim_task t)) tasks"
    using q norm_tasks_Inr_iff by blast
  ultimately show ?thesis
    using norm_all_deps_result [OF ts] that by simp
qed

lemma Normalize_wf_orchestration:
  assumes rng: "\<And>xs. set (rng xs) = set xs" and N: "Normalize now oid rng name n tasks = Inr v"
  shows "wf_orchestration v"
proof -
  from N have req: "valid_request name n tasks" using Normalize_accepts [OF rng] by blast
  from Normalize_result [OF N] obtain ts where
    l: "list_all2 deps_normalized (map (\<lambda>t. queued_task now oid (trim_task t)) tasks) ts"
    and v: "o_Tasks v = ts" "o_ID v = oid" "o_CreatedAt v = now"
      "o_Name v = (if trim_space name = [] then ''Agent orchestration'' else trim_space name)"
      "o_MaxConcurrency v = (if n \<le> 0 then defaultWorkers else n)"
      "length (runes (o_Name v)) \<le> 160" "o_MaxConcurrency v \<le> maxWorkers"
      "0 < length tasks" "length tasks \<le> maxTasks"
    by metis
  have ids: "map t_ID ts = map (\<lambda>t. t_ID (trim_task t)) tasks"
    using deps_normalized_ids [OF l] by (simp only: norm_tasks_ids)
  have each: "\<exists>t0\<in>set tasks. deps_normalized (queued_task now oid (trim_task t0)) t" if "t \<in> set ts" for t
    using l that by (auto simp: list_all2_conv_all_nth in_set_conv_nth) (metis length_map nth_map nth_mem)
  have task: "task_ok t \<and> sorted (t_DependsOn t) \<and> distinct (t_DependsOn t) \<and>
      set (t_DependsOn t) \<subseteq> set (map t_ID ts) - {t_ID t} \<and>
      t_Status t = OrchestrationQueued \<and> t_OrchestrationID t = oid \<and> t_CreatedAt t = now"
    if "t \<in> set ts" for t
  proof -
    from each [OF that] obtain t0 where t0: "t0 \<in> set tasks"
      and n: "deps_normalized (queued_task now oid (trim_task t0)) t" ..
    show ?thesis
      using req t0 n deps_normalized_fields [OF n]
      by (auto simp: valid_request_def task_ok_def ids deps_normalized_def queued_task_def trim_task_def)
  qed
  have "length ts = length tasks" using l by (simp add: list_all2_lengthD [symmetric])
  with task v req show ?thesis
    by (auto simp: wf_orchestration_def wf_tasks_def ids valid_request_def
        task_edges_normalized [OF l] limit_defs)
qed

end
