(* ===== verification/Orchestration_Service.thy ===== *)
theory Orchestration_Service
  imports Orchestration_Run
begin

text \<open>
  The orchestration service over its store: a run on a working database keeps the stored orchestration
  equal to the one in memory, recovery after a crash leaves tasks a new run can start from, and the
  service never has two goroutines for one orchestration. The properties of the whole orchestration
  component are at the end.
\<close>

section \<open>The store follows the run\<close>

text \<open>The task table of the orchestration holds exactly the tasks in memory.\<close>

definition mirrors :: "'a run_state \<Rightarrow> bool" where
  "mirrors s \<longleftrightarrow> healthy (fst s) \<and> distinct (map t_ID (tasks_of_run (snd s))) \<and>
     stored_tasks (o_ID (r_orch (snd s))) (fst s) = tasks_of_run (snd s) \<and>
     stored_head (o_ID (r_orch (snd s))) (fst s) = Some ((r_orch (snd s))\<lparr>o_Tasks := []\<rparr>)"

lemma save_task_mirrors:
  assumes m: "mirrors s" and i: "i < length (tasks_of_run (snd s))"
    and t: "t_ID t = t_ID (tasks_of_run (snd s) ! i)" "t_OrchestrationID t = t_OrchestrationID (tasks_of_run (snd s) ! i)"
      "t_CreatedAt t = t_CreatedAt (tasks_of_run (snd s) ! i)"
  shows "mirrors (save_task i t s)"
proof -
  let ?ts = "tasks_of_run (snd s)"
  have "stored_tasks (o_ID (r_orch (snd s))) (snd (UpdateOrchestrationTask t (fst s))) = ?ts[i := t]"
    using m i t by (intro sql.write_through) (auto simp: mirrors_def)
  moreover have "distinct (map t_ID (?ts[i := t]))"
    using m i t(1) by (simp add: mirrors_def map_update_same)
  moreover have "fst (save_task i t s) = snd (UpdateOrchestrationTask t (fst s))"
    by (simp add: save_task_def case_prod_beta)
  ultimately show ?thesis
    using m by (simp add: mirrors_def sql.update_task_ok sql.update_task_head)
qed

lemma finish_queued_mirrors:
  "mirrors s \<Longrightarrow> \<forall>i\<in>set is. i < length (tasks_of_run (snd s)) \<Longrightarrow> mirrors (finish_queued now st e is s)"
proof (induction "is" arbitrary: s)
  case (Cons i "is")
  have "mirrors (save_task i (finishTask now st e (tasks_of_run (snd s) ! i)) s)"
    using Cons.prems by (intro save_task_mirrors) (auto simp: finishTask_def)
  with Cons.prems show ?case
    by (auto simp: Let_def intro!: Cons.IH)
qed simp

lemma launch_one_mirrors:
  assumes "mirrors s" and "i < length (tasks_of_run (snd s))"
  shows "mirrors (launch_one now c i s)"
proof -
  let ?t = "tasks_of_run (snd s) ! i"
  let ?t' = "?t\<lparr>t_Status := OrchestrationRunning, t_StartedAt := now, t_UpdatedAt := now\<rparr>"
  have "mirrors (save_task i (finishTask now OrchestrationCancelled e ?t) s)" for e
    using assms by (intro save_task_mirrors) (auto simp: finishTask_def)
  moreover have "mirrors (save_task i ?t' s)"
    using assms by (intro save_task_mirrors) auto
  ultimately show ?thesis
    using assms(1)
    by (auto simp: launch_one_def Let_def case_prod_beta mirrors_def)
qed

lemma launch_one_length [simp]:
  "length (tasks_of_run (snd (launch_one now c i s))) = length (tasks_of_run (snd s))"
  by (simp add: launch_one_def Let_def case_prod_beta)

lemma launch_scan_mirrors:
  "mirrors s \<Longrightarrow> \<forall>i\<in>set is. i < length (tasks_of_run (snd s)) \<Longrightarrow> mirrors (launch_scan now cx is s)"
proof (induction "is" arbitrary: s)
  case (Cons i "is")
  then have "mirrors (launch_one now (cx i) i s)" by (intro launch_one_mirrors) auto
  with Cons show ?case by simp
qed simp

lemma finish_queued_length [simp]:
  "length (tasks_of_run (snd (finish_queued now st e is s))) = length (tasks_of_run (snd s))"
  by (induction "is" arbitrary: s) (auto simp: Let_def)

lemma launch_scan_length [simp]:
  "length (tasks_of_run (snd (launch_scan now cx is s))) = length (tasks_of_run (snd s))"
  by (induction "is" arbitrary: s) simp_all

lemma scan_body_mirrors:
  assumes "mirrors s"
  shows "mirrors (scan_body now k s)"
proof -
  let ?is = "[0..<length (tasks_of_run (snd s))]"
  define s1 where "s1 = (if r_ctx (snd s) then finish_queued now OrchestrationCancelled ''orchestration cancelled'' ?is s else s)"
  define s2 where "s2 = (fst s1, (snd s1)\<lparr>r_launched := False\<rparr>)"
  define s3 where "s3 = launch_scan now (\<lambda>i. r_ctx (snd s) \<or> k \<le> i) ?is s2"
  define s4 where "s4 = (fst s3, (snd s3)\<lparr>r_ctx := r_ctx (snd s) \<or> k \<le> length ?is\<rparr>)"
  have len: "length (tasks_of_run (snd s2)) = length (tasks_of_run (snd s))"
    "length (tasks_of_run (snd s4)) = length (tasks_of_run (snd s))"
    by (simp_all add: s2_def s1_def s3_def s4_def)
  have "mirrors s1" using assms unfolding s1_def by (auto intro!: finish_queued_mirrors)
  then have "mirrors s2" by (simp add: s2_def mirrors_def)
  then have "mirrors s3" unfolding s3_def using len by (intro launch_scan_mirrors) auto
  then have 4: "mirrors s4" by (simp add: s4_def mirrors_def)
  then have 5: "mirrors (finish_queued now OrchestrationFailed ''no runnable dependency path'' ?is s4)"
    using len by (intro finish_queued_mirrors) auto
  have "mirrors (set_phase p u) = mirrors u" for p and u :: "'a run_state"
    by (simp add: set_phase_def mirrors_def)
  with 4 5 show ?thesis
    by (simp add: scan_body_def Let_def s1_def s2_def s3_def s4_def)
qed

lemma receive_mirrors:
  assumes "mirrors s" and "run_inv (snd s)" and "(j, input) \<in> set (r_inflight (snd s))"
  shows "mirrors (receive now j result err s)"
proof -
  let ?r = "snd s"
  let ?k = "task_index (tasks_of_run ?r) j"
  let ?s = "(fst s, ?r\<lparr>r_running := r_running ?r - 1, r_inflight := filter (\<lambda>(i, _). i \<noteq> j) (r_inflight ?r)\<rparr>)"
  have "j \<in> set (map t_ID (tasks_of_run ?r))"
    using assms(2,3) unfolding run_inv_def core_inv_def by (metis sched_invD(5) fst_conv image_eqI subsetD)
  then have k: "?k < length (tasks_of_run ?r)"
    using assms(1) task_index_in by (auto simp: mirrors_def)
  have "mirrors (save_task ?k (outcome_task now result err (r_ctx ?r) (tasks_of_run ?r ! ?k)) ?s)"
    using assms(1) k
    by (intro save_task_mirrors) (auto simp: mirrors_def outcome_task_def finishTask_def Let_def split: option.splits)
  then show ?thesis
    by (simp add: receive_def Let_def set_phase_def mirrors_def)
qed

lemma finish_run_mirrors: "mirrors s \<Longrightarrow> mirrors (finish_run now s)"
  by (simp add: mirrors_def finish_run_def summarize_def Let_def sql.update_head_ok sql.update_head_stored
      sql.update_head_head merge_head_def)

lemma run_step_mirrors: "run_step s s' \<Longrightarrow> run_inv (snd s) \<Longrightarrow> mirrors s \<Longrightarrow> mirrors s'"
proof (induction rule: run_step.induct)
  case (cancel s)
  then show ?case by (simp add: mirrors_def)
qed (auto intro: scan_body_mirrors receive_mirrors finish_run_mirrors)

lemma run_steps_mirrors: "run_step\<^sup>*\<^sup>* s s' \<Longrightarrow> run_inv (snd s) \<Longrightarrow> mirrors s \<Longrightarrow> mirrors s'"
  by (induction rule: rtranclp_induct) (auto intro: run_step_mirrors run_steps_inv)

lemma begin_run_mirrors:
  assumes "healthy d" and "begin_run now i d = (Some r, d')" and "distinct (map t_ID (stored_tasks i d))"
  shows "mirrors (d', r)"
proof -
  from assms(2) obtain v d1 where g: "GetOrchestration i d = (Inr (Some v), d1)"
    and r: "tasks_of_run r = o_Tasks v" "o_ID (r_orch r) = o_ID v"
      "o_OwnerTenantID (r_orch r) = o_OwnerTenantID v" "o_CreatedAt (r_orch r) = o_CreatedAt v" and d': "d' = snd (UpdateOrchestration (r_orch r) d1)"
    by (auto simp: begin_run_def Let_def split: prod.splits sum.splits option.splits)
  note G = GetOrchestration_tasks [OF g, of i]
  have h: "healthy d1" using G assms(1) by auto
  then have "stored_head i d1 = Some (v\<lparr>o_Tasks := []\<rparr>)" using G by (auto simp: stored_head_def)
  with sql.update_head_ok [OF h] sql.update_head_stored [OF h] d' G r assms(3) show ?thesis
    by (auto simp: mirrors_def sql.update_head_head [OF h] merge_head_def)
qed

section \<open>Recovery\<close>

definition recovered :: "gotime \<Rightarrow> OrchestrationTask \<Rightarrow> OrchestrationTask" where
  "recovered now t = (if t_Status t = OrchestrationRunning
     then finishTask now OrchestrationFailed ''AgentMux restarted while task was running'' t else t)"

lemma recover_tasks_stored:
  assumes "healthy d" and "stored_tasks oid d = xs @ ts" and "distinct (map t_ID (xs @ ts))"
  shows "healthy (recover_tasks now ts d) \<and> stored_tasks oid (recover_tasks now ts d) = xs @ map (recovered now) ts"
  using assms
proof (induction ts arbitrary: d xs)
  case (Cons t ts)
  let ?d = "if t_Status t = OrchestrationRunning then snd (UpdateOrchestrationTask (recovered now t) d) else d"
  have d: "recover_tasks now (t # ts) d = recover_tasks now ts ?d" by (simp add: recovered_def)
  have "healthy ?d" using Cons.prems(1) by (simp add: sql.update_task_ok)
  moreover have "stored_tasks oid ?d = (xs @ [recovered now t]) @ ts"
  proof (cases "t_Status t = OrchestrationRunning")
    case True
    have "stored_tasks oid (snd (UpdateOrchestrationTask (recovered now t) d)) =
        (xs @ t # ts)[length xs := recovered now t]"
      using Cons.prems by (intro sql.write_through) (auto simp: nth_append recovered_def finishTask_def)
    with True show ?thesis by (simp add: list_update_append)
  qed (simp add: Cons.prems(2) recovered_def)
  ultimately have "healthy (recover_tasks now ts ?d) \<and>
      stored_tasks oid (recover_tasks now ts ?d) = (xs @ [recovered now t]) @ map (recovered now) ts"
    using Cons.prems(3) by (intro Cons.IH) (simp_all add: recovered_def finishTask_def)
  then show ?case unfolding d by simp
qed simp

text \<open>Tasks of the other orchestrations are left alone.\<close>

lemma recover_tasks_other:
  "healthy d \<Longrightarrow> \<forall>t\<in>set ts. t_OrchestrationID t \<noteq> oid \<Longrightarrow> stored_tasks oid (recover_tasks now ts d) = stored_tasks oid d"
proof (induction ts arbitrary: d)
  case (Cons t ts)
  have "stored_tasks oid (snd (UpdateOrchestrationTask
       (finishTask now OrchestrationFailed ''AgentMux restarted while task was running'' t) d)) = stored_tasks oid d"
    using Cons.prems by (intro sql.other_unchanged) (auto simp: finishTask_def)
  with Cons show ?case by (simp add: sql.update_task_ok)
qed simp

lemma recovered_idem [simp]: "recovered now (recovered now t) = recovered now t"
  by (simp add: recovered_def finishTask_def)

lemma recovered_simps [simp]:
  "t_ID (recovered now t) = t_ID t" "t_DependsOn (recovered now t) = t_DependsOn t"
  "t_OrchestrationID (recovered now t) = t_OrchestrationID t"
  "t_Status (recovered now t) \<noteq> OrchestrationRunning"
  "t_Status (recovered now t) = OrchestrationSucceeded \<longleftrightarrow> t_Status t = OrchestrationSucceeded"
  by (simp_all add: recovered_def finishTask_def)

lemma recover_tasks_heads: "healthy d \<Longrightarrow> orchestrations (recover_tasks now ts d) = orchestrations d"
proof (induction ts arbitrary: d)
  case (Cons t ts)
  let ?t = "finishTask now OrchestrationFailed ''AgentMux restarted while task was running'' t"
  have "orchestrations (snd (UpdateOrchestrationTask ?t d)) = orchestrations d"
    using Cons.prems by (simp add: UpdateOrchestrationTask_def sql_exec_healthy)
  with Cons show ?case by (simp add: sql.update_task_ok)
qed simp

lemma GetOrchestration_healthy:
  "healthy d \<Longrightarrow> GetOrchestration i d =
     (case find (\<lambda>r. or_id r = i) (orchestrations d) of
        None \<Rightarrow> (Inr None, d\<lparr>tick := Suc (tick d)\<rparr>)
      | Some r \<Rightarrow> (Inr (Some ((scanOrchestration r)\<lparr>o_Tasks := stored_tasks i d\<rparr>)), d\<lparr>tick := tick d + 2\<rparr>))"
  by (simp add: GetOrchestration_def listOrchestrationTasks_def sql_query_healthy stored_tasks_def split: option.splits)

lemma stored_tasks_tick [simp]: "stored_tasks i (d\<lparr>tick := n\<rparr>) = stored_tasks i d"
  by (simp add: stored_tasks_def)

lemma Start_store [simp]: "sv_store (Start i sv) = sv_store sv"
  by (simp add: Start_def)

lemma Start_cancels: "set (sv_cancels (Start i sv)) = insert i (set (sv_cancels sv))"
  by (auto simp: Start_def)

lemma recover_all_result:
  assumes "healthy (sv_store sv)" and "\<And>j. distinct (map t_ID (stored_tasks j (sv_store sv)))"
    and "\<And>i. i \<in> set is \<Longrightarrow> i \<in> or_id ` set (orchestrations (sv_store sv))"
  shows "healthy (sv_store (recover_all now is sv)) \<and>
     (\<forall>j. stored_tasks j (sv_store (recover_all now is sv)) =
        (if j \<in> set is then map (recovered now) (stored_tasks j (sv_store sv)) else stored_tasks j (sv_store sv))) \<and>
     set (sv_cancels (recover_all now is sv)) = set is \<union> set (sv_cancels sv)"
  using assms
proof (induction "is" arbitrary: sv)
  case (Cons i "is")
  let ?d = "sv_store sv"
  obtain r where f: "find (\<lambda>r. or_id r = i) (orchestrations ?d) = Some r" and ri: "or_id r = i"
  proof -
    have "find (\<lambda>r. or_id r = i) (orchestrations ?d) \<noteq> None"
      using Cons.prems(3) [of i] by (auto simp: find_None_iff')
    then show ?thesis using that find_Some_in by fastforce
  qed
  define e where "e = recover_tasks now (stored_tasks i ?d) (?d\<lparr>tick := tick ?d + 2\<rparr>)"
  let ?sv = "Start i (sv\<lparr>sv_store := e\<rparr>)"
  have step: "recover_all now (i # is) sv = recover_all now is ?sv"
    using Cons.prems(1) f ri by (simp add: e_def GetOrchestration_healthy scanOrchestration_def)
  have h: "healthy e" and own: "stored_tasks i e = map (recovered now) (stored_tasks i ?d)"
    using recover_tasks_stored [of "?d\<lparr>tick := tick ?d + 2\<rparr>" i "[]" "stored_tasks i ?d" now] Cons.prems(1,2)
    by (simp_all add: e_def)
  have others: "stored_tasks j e = stored_tasks j ?d" if "j \<noteq> i" for j
    using recover_tasks_other [of "?d\<lparr>tick := tick ?d + 2\<rparr>" "stored_tasks i ?d" j now] Cons.prems(1) that sql.stored_oid [of _ i ?d]
    by (auto simp: e_def)
  have e: "stored_tasks j e = (if j = i then map (recovered now) (stored_tasks i ?d) else stored_tasks j ?d)" for j
    using own others by simp
  have "distinct (map t_ID (stored_tasks j e))" for j
    using own others Cons.prems(2) by (cases "j = i") (simp_all add: comp_def)
  then have "healthy (sv_store (recover_all now is ?sv)) \<and>
     (\<forall>j. stored_tasks j (sv_store (recover_all now is ?sv)) =
        (if j \<in> set is then map (recovered now) (stored_tasks j (sv_store ?sv)) else stored_tasks j (sv_store ?sv))) \<and>
     set (sv_cancels (recover_all now is ?sv)) = set is \<union> set (sv_cancels ?sv)"
    using h Cons.prems by (intro Cons.IH) (simp_all add: e_def recover_tasks_heads)
  then show ?case
    unfolding step using e by (auto simp: Start_cancels comp_def)
qed simp

text \<open>A crash at any point of a run leaves tasks from which recovery can start the next run.\<close>

lemma recovered_startable:
  assumes "run_inv r"
  shows "startable ((r_orch r)\<lparr>o_Tasks := map (recovered now) (tasks_of_run r)\<rparr>)"
proof -
  let ?ts = "tasks_of_run r"
  let ?us = "map (recovered now) ?ts"
  have sch: "sched_inv (o_MaxConcurrency (r_orch r)) ?ts (r_inflight r)"
    using assms by (simp add: run_inv_def core_inv_def)
  note D = sched_invD [OF sch]
  have ids: "map t_ID ?us = map t_ID ?ts" by simp
  have idx: "task_index ?us = task_index ?ts" by (rule task_index_cong [OF ids])
  have deps: "set (t_DependsOn t) \<subseteq> set (map t_ID ?ts)" if "t \<in> set ?ts" for t
    using that D(2) by (auto simp: in_set_conv_nth [of t])
  have succ: "status_of ?us d = OrchestrationSucceeded"
    if t: "t \<in> set ?ts" "t_Status t = OrchestrationSucceeded" and d: "d \<in> set (t_DependsOn t)" for t d
  proof -
    from t(1) obtain i where i: "i < length ?ts" "t = ?ts ! i" by (auto simp: in_set_conv_nth)
    with task_index_in [OF D(1) D(2) [of i d]] D(7) [of i d] t(2) d show ?thesis by (simp add: idx)
  qed
  have "1 \<le> o_MaxConcurrency (r_orch r)" using assms by (simp add: run_inv_def)
  moreover have "distinct (map t_ID ?us)" unfolding ids by (rule D(1))
  moreover have "set (t_DependsOn u) \<subseteq> set (map t_ID ?us) \<and> t_Status u \<noteq> OrchestrationRunning \<and>
      (t_Status u = OrchestrationSucceeded \<longrightarrow> (\<forall>d\<in>set (t_DependsOn u). status_of ?us d = OrchestrationSucceeded))"
    if "u \<in> set ?us" for u
  proof -
    from that obtain t where t: "t \<in> set ?ts" "u = recovered now t" by auto
    then show ?thesis using deps [OF t(1)] succ [OF t(1)] unfolding ids by simp
  qed
  ultimately show ?thesis by (simp add: startable_def)
qed

section \<open>One goroutine for each orchestration\<close>

definition service_ok :: "'d service \<Rightarrow> bool" where
  "service_ok sv \<longleftrightarrow> sv_cancels sv = map fst (sv_runs sv) \<and> distinct (map fst (sv_runs sv))"

lemma service_ok_store [simp]: "service_ok (sv\<lparr>sv_store := d\<rparr>) = service_ok sv"
  by (simp add: service_ok_def)

lemma service_ok_Start: "service_ok sv \<Longrightarrow> service_ok (Start i sv)"
  by (simp add: service_ok_def Start_def)

lemma service_ok_set_run: "service_ok sv \<Longrightarrow> service_ok (set_run i f sv)"
  by (simp add: service_ok_def set_run_def comp_def case_prod_unfold)

lemma service_ok_end_run: "service_ok sv \<Longrightarrow> service_ok (end_run i sv)"
  by (simp add: service_ok_def end_run_def filter_map comp_def case_prod_unfold distinct_map_filter)

lemma service_ok_recover_all: "service_ok sv \<Longrightarrow> service_ok (recover_all now is sv)"
  by (induction "is" arbitrary: sv)
     (auto simp: service_ok_Start split: prod.splits sum.splits option.splits)

lemmas service_ok_intros = service_ok_Start service_ok_set_run service_ok_end_run service_ok_recover_all

lemma service_step_ok: "service_step sv sv' \<Longrightarrow> service_ok sv \<Longrightarrow> service_ok sv'"
proof (induction rule: service_step.induct)
  case (create sv v)
  then show ?case by (auto simp: Create_def service_ok_intros split: prod.splits bool.splits)
next
  case (cancel_request sv i)
  then show ?case by (auto simp: Cancel_def service_ok_intros split: prod.splits sum.splits option.splits)
next
  case (recover sv now)
  then show ?case by (auto simp: Recover_def service_ok_intros split: prod.splits option.splits)
qed (simp_all add: service_ok_intros)

section \<open>Reachable states of a run\<close>

inductive run_reach :: "gotime \<Rightarrow> string \<Rightarrow> 'a orch_db_scheme \<Rightarrow> 'a run_state \<Rightarrow> bool"
  for now :: gotime and i :: string and d0 :: "'a orch_db_scheme" where
  start: "fst (GetOrchestration i d0) = Inr (Some v) \<Longrightarrow> startable v \<Longrightarrow>
     fst (begin_run now i d0) = Some r \<Longrightarrow> run_reach now i d0 (snd (begin_run now i d0), r)"
| step: "run_reach now i d0 s \<Longrightarrow> run_step s s' \<Longrightarrow> run_reach now i d0 s'"

lemma run_reach_start:
  assumes "fst (GetOrchestration i d0) = Inr (Some v)" "startable v" "fst (begin_run now i d0) = Some r"
  shows "run_inv r" and "r_phase r = Scanning"
proof -
  obtain d' where b: "begin_run now i d0 = (Some r, d')" using assms(3) by (cases "begin_run now i d0") auto
  have "startable w" if "GetOrchestration i d0 = (Inr (Some w), d1)" for w d1
    using assms(1,2) that by simp
  from begin_run_inv [OF b this] show "run_inv r" and "r_phase r = Scanning" by auto
qed

lemma run_reach_inv: "run_reach now i d0 s \<Longrightarrow> run_inv (snd s)"
proof (induction rule: run_reach.induct)
  case (start v r)
  then show ?case using run_reach_start(1) by simp
qed (auto intro: run_step_inv)

lemma run_reach_mirrors: "run_reach now i d0 s \<Longrightarrow> healthy d0 \<Longrightarrow> mirrors s \<and> o_ID (r_orch (snd s)) = i"
proof (induction rule: run_reach.induct)
  case (start v r)
  obtain d' where b: "begin_run now i d0 = (Some r, d')" using start(3) by (cases "begin_run now i d0") auto
  obtain d1 where g: "GetOrchestration i d0 = (Inr (Some v), d1)" using start(1) by (cases "GetOrchestration i d0") auto
  note G = GetOrchestration_tasks [OF g, of i]
  have "distinct (map t_ID (stored_tasks i d0))" using start(2) G by (simp add: startable_def)
  with begin_run_mirrors [OF start(4) b] b g G show ?case
    by (auto simp: begin_run_def Let_def)
next
  case (step s s')
  have "o_ID (r_orch (snd s')) = o_ID (r_orch (snd s))"
    using step.hyps(2) run_reach_inv [OF step.hyps(1)]
  proof (induction rule: run_step.induct)
    case (scan s now k)
    then show ?case using scan_body_result [of s now k] by (simp add: scan_result_def)
  qed (simp_all add: receive_def finish_run_def summarize_def set_phase_def Let_def)
  with step run_reach_inv [OF step.hyps(1)] show ?case by (auto intro: run_step_mirrors)
qed

text \<open>A read of the store returns the orchestration as the run has it.\<close>

lemma mirrors_read:
  assumes "mirrors s"
  shows "fst (GetOrchestration (o_ID (r_orch (snd s))) (fst s)) = Inr (Some (r_orch (snd s)))"
proof -
  let ?i = "o_ID (r_orch (snd s))"
  have "stored_head ?i (fst s) = Some ((r_orch (snd s))\<lparr>o_Tasks := []\<rparr>)" and h: "healthy (fst s)"
    and t: "stored_tasks ?i (fst s) = tasks_of_run (snd s)"
    using assms by (auto simp: mirrors_def)
  then obtain r where r: "find (\<lambda>r. or_id r = ?i) (orchestrations (fst s)) = Some r"
    "scanOrchestration r = (r_orch (snd s))\<lparr>o_Tasks := []\<rparr>"
    by (auto simp: stored_head_def)
  then show ?thesis by (simp add: GetOrchestration_healthy [OF h] t)
qed

definition final_status :: "run \<Rightarrow> OrchestrationStatus" where
  "final_status r = (if r_ctx r then OrchestrationCancelled
      else if \<forall>t\<in>set (tasks_of_run r). t_Status t = OrchestrationSucceeded then OrchestrationSucceeded
      else OrchestrationFailed)"

lemma run_step_final:
  "run_step s s' \<Longrightarrow> run_inv (snd s) \<Longrightarrow> r_phase (snd s') = Done \<Longrightarrow> o_Status (r_orch (snd s')) = final_status (snd s')"
proof (induction rule: run_step.induct)
  case (scan s now k)
  then show ?case using scan_body_result [of s now k] by (auto simp: scan_result_def)
next
  case (recv s i input now result err)
  then show ?case by (simp add: receive_def set_phase_def Let_def)
next
  case (finish s now)
  then show ?case
    using finish_run_status [of s now] finish_run_result [of s now] by (simp add: final_status_def)
qed auto

lemma run_reach_final:
  "run_reach now i d0 s \<Longrightarrow> r_phase (snd s) = Done \<Longrightarrow> o_Status (r_orch (snd s)) = final_status (snd s)"
proof (induction rule: run_reach.induct)
  case (start v r)
  then show ?case using run_reach_start(2) by fastforce
next
  case (step s s')
  then show ?case using run_step_final run_reach_inv by blast
qed

lemma done_stuck: "r_phase (snd s) = Done \<Longrightarrow> \<not> run_step s s'"
  by (auto elim: run_stepE)

text \<open>After a cancellation nothing is launched any more.\<close>

lemma launch_scan_cancelled: "(\<And>i. cx i) \<Longrightarrow> launch_scan now cx is s = s"
  by (induction "is" arbitrary: s) (simp_all add: launch_one_def Let_def)

lemma run_step_cancelled:
  assumes "run_step s s'" and "run_inv (snd s)" and "r_ctx (snd s)"
  shows "r_ctx (snd s')" and "set (r_inflight (snd s')) \<subseteq> set (r_inflight (snd s))"
    and "r_phase (snd s) = Scanning \<Longrightarrow> \<forall>t\<in>set (tasks_of_run (snd s')). t_Status t \<noteq> OrchestrationQueued"
proof -
  have "r_ctx (snd s') \<and> set (r_inflight (snd s')) \<subseteq> set (r_inflight (snd s)) \<and>
    (r_phase (snd s) = Scanning \<longrightarrow> (\<forall>t\<in>set (tasks_of_run (snd s')). t_Status t \<noteq> OrchestrationQueued))"
    using assms
  proof (induction rule: run_step.induct)
    case (scan s now k)
    let ?is = "[0..<length (tasks_of_run (snd s))]"
    define s1 where "s1 = finish_queued now OrchestrationCancelled ''orchestration cancelled'' ?is s"
    have q: "t_Status (tasks_of_run (snd s1) ! j) \<noteq> OrchestrationQueued" if "j < length (tasks_of_run (snd s))" for j
      using finish_queued_status [of OrchestrationCancelled ?is s j now] that by (simp add: s1_def)
    have f: "t_Status (tasks_of_run (snd (finish_queued now OrchestrationFailed e ?is u)) ! j) \<noteq> OrchestrationQueued"
      if "tasks_of_run (snd u) = tasks_of_run (snd s1)" "j < length (tasks_of_run (snd s))" for e j and u :: "'a run_state"
      using finish_queued_status [of OrchestrationFailed ?is u j now e] that q by (simp add: s1_def)
    have c: "r_ctx (snd (finish_queued now st e is u)) = r_ctx (snd u)" for st e "is" and u :: "'a run_state"
      by (induction "is" arbitrary: u) (simp_all add: Let_def)
    have l: "length (tasks_of_run (snd s1)) = length (tasks_of_run (snd s))" by (simp add: s1_def)
    show ?case
      using scan.prems(2) q f c l
      by (auto simp: scan_body_def Let_def launch_scan_cancelled set_phase_def s1_def [symmetric] in_set_conv_nth
          simp flip: s1_def)
         (auto simp: s1_def)
  next
    case (recv s i input now result err)
    then show ?case by (auto simp: receive_def set_phase_def Let_def)
  next
    case (finish s now)
    then show ?case by (simp add: finish_run_def Let_def)
  qed auto
  then show "r_ctx (snd s')" and "set (r_inflight (snd s')) \<subseteq> set (r_inflight (snd s))"
    and "r_phase (snd s) = Scanning \<Longrightarrow> \<forall>t\<in>set (tasks_of_run (snd s')). t_Status t \<noteq> OrchestrationQueued"
    by auto
qed

text \<open>The primary key of the task table.\<close>

definition task_key_unique :: "'a orch_db_scheme \<Rightarrow> bool" where
  "task_key_unique d \<longleftrightarrow> distinct (map (\<lambda>r. (tr_orchestration_id r, tr_id r)) (orchestration_tasks d))"

lemma task_key_unique_ids:
  assumes "task_key_unique d"
  shows "distinct (map t_ID (stored_tasks j d))"
proof -
  have "map t_ID (stored_tasks j d) = map tr_id (task_rows j d)"
    by (simp add: stored_tasks_def scan_task_def)
  moreover have "distinct (map tr_id (task_rows j d))"
    using assms by (auto simp: task_key_unique_def task_rows_def distinct_map inj_on_def)
  ultimately show ?thesis by simp
qed

section \<open>Properties\<close>

text \<open>A small request and the database it is stored in, for the concrete instances below.\<close>

definition demo_task :: "string \<Rightarrow> string list \<Rightarrow> OrchestrationTask" where
  "demo_task x ds = \<lparr>t_ID = x, t_OrchestrationID = ''o'', t_AgentID = ''ag'', t_Input = ''do'', t_DependsOn = ds,
     t_Status = OrchestrationQueued, t_Output = [], t_Error = [], t_InvocationID = [], t_ConversationID = [],
     t_CreatedAt = 1, t_StartedAt = 0, t_FinishedAt = 0, t_UpdatedAt = 1\<rparr>"

definition demo_orchestration :: "OrchestrationTask list \<Rightarrow> Orchestration" where
  "demo_orchestration ts = \<lparr>o_ID = ''o'', o_Name = ''n'', o_Status = OrchestrationQueued, o_MaxConcurrency = 2,
     o_Error = [], o_Tasks = ts, o_OwnerTenantID = [], o_CreatedAt = 1, o_StartedAt = 0, o_FinishedAt = 0,
     o_UpdatedAt = 1\<rparr>"

definition demo_empty :: orch_db where
  "demo_empty = \<lparr>fault = (\<lambda>_. False), tick = 0, orchestrations = [], orchestration_tasks = [],
     time_key = (\<lambda>t. case t of None \<Rightarrow> 0 | Some x \<Rightarrow> x), text_key = (\<lambda>x. x)\<rparr>"

definition demo_db :: orch_db where
  "demo_db = snd (CreateOrchestration (demo_orchestration [demo_task ''a'' [], demo_task ''b'' [''a'']]) demo_empty)"

lemma demo_healthy: "healthy demo_db"
  unfolding demo_db_def
  by (subst CreateOrchestration_ok) (simp_all add: demo_empty_def healthy_def demo_orchestration_def demo_task_def)

definition demo_run :: run where
  "demo_run = the (fst (begin_run 5 ''o'' demo_db))"

definition demo_scanned :: "unit run_state" where
  "demo_scanned = scan_body 6 9 (snd (begin_run 5 ''o'' demo_db), demo_run)"

lemma demo_start: "run_reach 5 ''o'' demo_db (snd (begin_run 5 ''o'' demo_db), demo_run)"
proof (rule run_reach.start)
  show "fst (GetOrchestration ''o'' demo_db) =
     Inr (Some (demo_orchestration [demo_task ''a'' [], demo_task ''b'' [''a'']]))" by code_simp
  show "startable (demo_orchestration [demo_task ''a'' [], demo_task ''b'' [''a'']])" by code_simp
  show "fst (begin_run 5 ''o'' demo_db) = Some demo_run" by code_simp
qed

lemma demo_reach: "run_reach 5 ''o'' demo_db demo_scanned"
  unfolding demo_scanned_def
proof (rule run_reach.step [OF demo_start run_step.scan])
  show "r_phase (snd (snd (begin_run 5 ''o'' demo_db), demo_run)) = Scanning" by code_simp
qed

definition demo_second :: "unit run_state" where
  "demo_second = scan_body 8 9 (receive 7 ''a'' \<lparr>ir_ID = ''i'', ir_ConversationID = ''c'', ir_Answer = ''done''\<rparr> None demo_scanned)"

lemma demo_reach2: "run_reach 5 ''o'' demo_db demo_second"
  unfolding demo_second_def
proof (rule run_reach.step [OF run_reach.step [OF demo_reach run_step.recv] run_step.scan])
  show "r_phase (snd demo_scanned) = Waiting" by code_simp
  show "(''a'', ''do'') \<in> set (r_inflight (snd demo_scanned))" by code_simp
qed (code_simp)

text \<open>
  C2. Concurrency: in every reachable state of a run at most \<open>MaxConcurrency\<close> tasks are running.
\<close>

theorem run_concurrency_bound:
  assumes "run_reach now i d0 s"
  shows "int (length (filter (\<lambda>t. t_Status t = OrchestrationRunning) (tasks_of_run (snd s))))
           \<le> o_MaxConcurrency (r_orch (snd s))"
  using running_bounded [OF run_reach_inv [OF assms]] .

theorem run_concurrency_bound_witness:
  "length (filter (\<lambda>t. t_Status t = OrchestrationRunning) (tasks_of_run (snd demo_scanned))) \<le> 2"
proof -
  have "o_MaxConcurrency (r_orch (snd demo_scanned)) = 2" by code_simp
  then show ?thesis using run_concurrency_bound [OF demo_reach] by simp
qed

text \<open>
  C1. Dependency order: a task that runs or has succeeded has only succeeded tasks among its direct and
  indirect dependencies, in every reachable state of a run.
\<close>

theorem run_dependency_order:
  assumes "run_reach now i d0 s" and t: "t \<in> set (tasks_of_run (snd s))"
    and st: "t_Status t = OrchestrationRunning \<or> t_Status t = OrchestrationSucceeded"
    and d: "(t_ID t, d) \<in> (task_edges (tasks_of_run (snd s)))\<^sup>+"
  shows "status_of (tasks_of_run (snd s)) d = OrchestrationSucceeded"
proof -
  from t obtain k where k: "k < length (tasks_of_run (snd s))" "tasks_of_run (snd s) ! k = t"
    by (auto simp: in_set_conv_nth)
  with edge_status [OF run_reach_inv [OF assms(1)] k(1)] st d show ?thesis by simp
qed

theorem run_dependency_order_witness: "status_of (tasks_of_run (snd demo_second)) ''a'' = OrchestrationSucceeded"
proof -
  let ?t = "tasks_of_run (snd demo_second) ! 1"
  have "?t \<in> set (tasks_of_run (snd demo_second))" and r: "t_Status ?t = OrchestrationRunning"
    and "t_ID ?t = ''b''" "t_DependsOn ?t = [''a'']" by code_simp+
  then have "(t_ID ?t, ''a'') \<in> (task_edges (tasks_of_run (snd demo_second)))\<^sup>+"
    by (intro r_into_trancl) (auto simp: task_edges_iff intro!: bexI [of _ ?t])
  with run_dependency_order [OF demo_reach2 _ disjI1 [OF r]] \<open>?t \<in> set (tasks_of_run (snd demo_second))\<close>
  show ?thesis by blast
qed

text \<open>
  Every invocation in flight belongs to a running task and was given the input built from the outputs
  of its dependencies as they are stored now: outputs of succeeded tasks never change under a consumer.
\<close>

theorem run_inputs:
  assumes "run_reach now i d0 s" and j: "(j, input) \<in> set (r_inflight (snd s))"
  shows "status_of (tasks_of_run (snd s)) j = OrchestrationRunning \<and>
     input = taskInput (tasks_of_run (snd s) ! task_index (tasks_of_run (snd s)) j) (tasks_of_run (snd s))"
proof -
  have sch: "sched_inv (o_MaxConcurrency (r_orch (snd s))) (tasks_of_run (snd s)) (r_inflight (snd s))"
    using run_reach_inv [OF assms(1)] by (simp add: run_inv_def core_inv_def)
  note D = sched_invD [OF sch]
  have "j \<in> fst ` set (r_inflight (snd s))" using j by force
  moreover from this have "j \<in> set (map t_ID (tasks_of_run (snd s)))" using D(5) by blast
  ultimately show ?thesis using task_index_in [OF D(1)] D(6) D(8) [OF j] by metis
qed

theorem run_inputs_witness: "status_of (tasks_of_run (snd demo_scanned)) ''a'' = OrchestrationRunning"
proof -
  have "(''a'', ''do'') \<in> set (r_inflight (snd demo_scanned))" by code_simp
  from run_inputs [OF demo_reach this] show ?thesis ..
qed

text \<open>
  C3. Every run ends: from any reachable state at most \<open>2 n + 4\<close> further steps are possible for \<open>n\<close> tasks,
  whatever the invocations return and whenever the run is cancelled.
\<close>

theorem run_terminates:
  assumes "run_reach now i d0 s" and "(run_step ^^ n) s s'"
  shows "n \<le> 2 * length (tasks_of_run (snd s)) + 4"
proof -
  have "unfinished (tasks_of_run (snd s)) \<le> length (tasks_of_run (snd s))" by (simp add: unfinished_def)
  then have "potential (snd s) \<le> 2 * length (tasks_of_run (snd s)) + 4"
    by (simp add: potential_def phase_weight_def split: run_phase.split)
  with run_steps_bounded [OF assms(2) run_reach_inv [OF assms(1)]] show ?thesis by simp
qed

theorem run_terminates_witness: "\<not> (run_step ^^ 9) demo_scanned demo_second"
proof -
  have "length (tasks_of_run (snd demo_scanned)) = 2" by code_simp
  with run_terminates [OF demo_reach, of 9 demo_second] show ?thesis by auto
qed

text \<open>
  C4. A run never stalls: a reachable state has no further step exactly when the run is done, and then
  every task is terminal and the orchestration's status is cancelled after a cancellation, succeeded when
  all tasks succeeded and failed otherwise.
\<close>

theorem run_completes:
  assumes "run_reach now i d0 s"
  shows "(\<exists>s'. run_step s s') \<noteq> (r_phase (snd s) = Done) \<and>
    (r_phase (snd s) = Done \<longrightarrow> (\<forall>t\<in>set (tasks_of_run (snd s)). terminal (t_Status t)) \<and>
       o_Status (r_orch (snd s)) = final_status (snd s))"
  using run_progress [OF run_reach_inv [OF assms]] done_stuck [of s] run_reach_final [OF assms]
    done_terminal [OF run_reach_inv [OF assms]] by blast

theorem run_completes_witness: "\<exists>s'. run_step demo_scanned s'"
proof -
  have "r_phase (snd demo_scanned) \<noteq> Done" by code_simp
  with run_completes [OF demo_reach] show ?thesis by blast
qed

text \<open>
  Tasks only move forward: their identity, input and dependencies never change, a running task goes
  only to a terminal status, and a terminal task is never touched again.
\<close>

theorem run_forward:
  assumes "run_reach now i d0 s" and "run_step\<^sup>*\<^sup>* s s'"
  shows "list_all2 evolves (tasks_of_run (snd s)) (tasks_of_run (snd s'))"
  using assms(2)
proof (induction rule: rtranclp_induct)
  case (step u w)
  have "run_inv (snd u)" using run_steps_inv [OF step.hyps(1) run_reach_inv [OF assms(1)]] .
  with step run_step_evolves show ?case by (blast intro: all_evolve_trans)
qed simp

theorem run_forward_witness: "list_all2 evolves (tasks_of_run demo_run) (tasks_of_run (snd demo_scanned))"
proof -
  have "run_step (snd (begin_run 5 ''o'' demo_db), demo_run) demo_scanned"
    unfolding demo_scanned_def by (rule run_step.scan) code_simp
  from run_forward [OF demo_start r_into_rtranclp [of run_step, OF this]] show ?thesis by simp
qed

text \<open>
  C5. On a working database the store refines the run: after every step a read of the orchestration
  returns exactly the orchestration and the tasks the run has in memory.
\<close>

theorem run_store_refines:
  assumes "run_reach now i d0 s" and "healthy d0"
  shows "fst (GetOrchestration i (fst s)) = Inr (Some (r_orch (snd s)))"
  using run_reach_mirrors [OF assms] mirrors_read [of s] by auto

theorem run_store_refines_witness:
  "fst (GetOrchestration ''o'' (fst demo_second)) = Inr (Some (r_orch (snd demo_second)))"
proof (rule run_store_refines [OF demo_reach2])
  show "healthy demo_db" by (rule demo_healthy)
qed

text \<open>
  Cancellation: once a run's context is cancelled it stays so, no further invocation is started, and
  the next pass of the loop leaves no task queued.
\<close>

theorem run_cancellation:
  assumes "run_reach now i d0 s" and "run_step s s'" and "r_ctx (snd s)"
  shows "r_ctx (snd s') \<and> set (r_inflight (snd s')) \<subseteq> set (r_inflight (snd s)) \<and>
    (r_phase (snd s) = Scanning \<longrightarrow> (\<forall>t\<in>set (tasks_of_run (snd s')). t_Status t \<noteq> OrchestrationQueued))"
  using run_step_cancelled [OF assms(2) run_reach_inv [OF assms(1)] assms(3)] by blast

definition demo_cancelled :: "unit run_state" where
  "demo_cancelled = (snd (begin_run 5 ''o'' demo_db), demo_run\<lparr>r_ctx := True\<rparr>)"

theorem run_cancellation_witness: "r_inflight (snd (scan_body 6 9 demo_cancelled)) = []"
proof -
  have p: "r_phase demo_run = Scanning" and c: "\<not> r_ctx demo_run" and f: "r_inflight demo_run = []" by code_simp+
  have "run_reach 5 ''o'' demo_db demo_cancelled"
    using run_reach.step [OF demo_start run_step.cancel] p c by (simp add: demo_cancelled_def)
  moreover have "run_step demo_cancelled (scan_body 6 9 demo_cancelled)"
    by (rule run_step.scan) (simp add: demo_cancelled_def p)
  ultimately show ?thesis using run_cancellation f by (fastforce simp: demo_cancelled_def)
qed

text \<open>
  Crash recovery: if the process dies in any reachable state of a run on a working database, the
  recovery pass leaves the stored tasks as they were except that every running task has failed, and the
  orchestration it leaves meets the precondition of a run again.
\<close>

theorem crash_recovery:
  assumes "run_reach now i d0 s" and "healthy d0"
  shows "stored_tasks i (recover_tasks later (stored_tasks i (fst s)) (fst s)) =
       map (recovered later) (tasks_of_run (snd s)) \<and>
     startable ((r_orch (snd s))\<lparr>o_Tasks := stored_tasks i (recover_tasks later (stored_tasks i (fst s)) (fst s))\<rparr>)"
proof -
  have m: "mirrors s" "o_ID (r_orch (snd s)) = i" using run_reach_mirrors [OF assms] by auto
  then have "stored_tasks i (recover_tasks later (stored_tasks i (fst s)) (fst s)) = map (recovered later) (tasks_of_run (snd s))"
    using recover_tasks_stored [of "fst s" i "[]" "stored_tasks i (fst s)" later] by (simp add: mirrors_def)
  with recovered_startable [OF run_reach_inv [OF assms(1)]] show ?thesis by simp
qed

theorem crash_recovery_witness:
  "map t_Status (stored_tasks ''o'' (recover_tasks 9 (stored_tasks ''o'' (fst demo_scanned)) (fst demo_scanned))) =
     [OrchestrationFailed, OrchestrationQueued]"
proof -
  have "map t_Status (map (recovered 9) (tasks_of_run (snd demo_scanned))) = [OrchestrationFailed, OrchestrationQueued]"
    by code_simp
  with crash_recovery [OF demo_reach demo_healthy, of 9] show ?thesis by simp
qed

text \<open>
  \<open>Recover\<close> on a working database: for every active orchestration among the 500 most recently updated
  ones the running tasks are failed and a goroutine is started; all other stored tasks stay as they are.
\<close>

theorem Recover_restarts:
  assumes "healthy (sv_store sv)"
    and "task_key_unique (sv_store sv)"
    and "fst (ListOrchestrations True 500 (sv_store sv)) = Some items"
  shows "stored_tasks j (sv_store (Recover now sv)) =
      (if j \<in> o_ID ` set items then map (recovered now) (stored_tasks j (sv_store sv))
       else stored_tasks j (sv_store sv)) \<and>
    set (sv_cancels (Recover now sv)) = o_ID ` set items \<union> set (sv_cancels sv)"
proof -
  let ?d = "(sv_store sv)\<lparr>tick := Suc (tick (sv_store sv))\<rparr>"
  have l: "ListOrchestrations True 500 (sv_store sv) = (Some items, ?d)"
    using assms(1,3) by (simp add: ListOrchestrations_def listOrchestrations_def sql_query_healthy)
  have "i \<in> or_id ` set (orchestrations (sv_store sv))" if "i \<in> o_ID ` set items" for i
    using that assms(1,3)
    by (auto simp: ListOrchestrations_def listOrchestrations_def sql_query_healthy scanOrchestration_def
        dest!: in_set_takeD)
  then have "healthy (sv_store (recover_all now (map o_ID items) (sv\<lparr>sv_store := ?d\<rparr>))) \<and>
     (\<forall>j. stored_tasks j (sv_store (recover_all now (map o_ID items) (sv\<lparr>sv_store := ?d\<rparr>))) =
        (if j \<in> set (map o_ID items) then map (recovered now) (stored_tasks j (sv_store (sv\<lparr>sv_store := ?d\<rparr>)))
         else stored_tasks j (sv_store (sv\<lparr>sv_store := ?d\<rparr>)))) \<and>
     set (sv_cancels (recover_all now (map o_ID items) (sv\<lparr>sv_store := ?d\<rparr>))) =
       set (map o_ID items) \<union> set (sv_cancels (sv\<lparr>sv_store := ?d\<rparr>))"
    using assms(1) task_key_unique_ids [OF assms(2)] by (intro recover_all_result) auto
  then show ?thesis by (simp add: Recover_def l)
qed

theorem Recover_restarts_witness:
  "map t_Status (stored_tasks ''o'' (sv_store (Recover 9 \<lparr>sv_store = demo_db, sv_cancels = [], sv_runs = []\<rparr>))) =
     [OrchestrationQueued, OrchestrationQueued] \<and>
   set (sv_cancels (Recover 9 \<lparr>sv_store = demo_db, sv_cancels = [], sv_runs = []\<rparr>)) = {''o''}"
proof -
  let ?v = "demo_orchestration []"
  have l: "fst (ListOrchestrations True 500 demo_db) = Some [?v]" by code_simp
  have u: "task_key_unique demo_db" by code_simp
  have "map t_Status (map (recovered 9) (stored_tasks ''o'' demo_db)) = [OrchestrationQueued, OrchestrationQueued]"
    and i: "o_ID ?v = ''o''" by code_simp+
  with Recover_restarts [of "\<lparr>sv_store = demo_db, sv_cancels = [], sv_runs = []\<rparr>" "[?v]" "''o''" 9] l u demo_healthy
  show ?thesis by simp
qed

text \<open>
  C7. At most one goroutine per orchestration: under any interleaving of requests, recovery and run steps
  the goroutines have distinct orchestration ids, and they are exactly those with a cancel function.
\<close>

theorem one_goroutine:
  assumes "service_step\<^sup>*\<^sup>* \<lparr>sv_store = d, sv_cancels = [], sv_runs = []\<rparr> sv"
  shows "sv_cancels sv = map fst (sv_runs sv) \<and> distinct (map fst (sv_runs sv))"
proof -
  have "service_ok \<lparr>sv_store = d, sv_cancels = [], sv_runs = []\<rparr>" by (simp add: service_ok_def)
  with assms have "service_ok sv" by (induction rule: rtranclp_induct) (auto intro: service_step_ok)
  then show ?thesis by (simp add: service_ok_def)
qed

theorem one_goroutine_witness:
  "sv_cancels (snd (Create (demo_orchestration []) \<lparr>sv_store = demo_empty, sv_cancels = [], sv_runs = []\<rparr>)) =
   map fst (sv_runs (snd (Create (demo_orchestration []) \<lparr>sv_store = demo_empty, sv_cancels = [], sv_runs = []\<rparr>)))"
  using one_goroutine [OF r_into_rtranclp [of service_step, OF service_step.create]] by blast

text \<open>
  Round trip: an orchestration written to a working database that holds no row under its id reads back
  unchanged, with its tasks ordered by creation time and then by id.
\<close>

theorem create_get_roundtrip:
  assumes "healthy d" and "distinct (map t_ID (o_Tasks v))"
    and "o_ID v \<notin> or_id ` set (orchestrations d)"
    and "o_ID v \<notin> tr_orchestration_id ` set (orchestration_tasks d)"
    and "\<forall>t\<in>set (o_Tasks v). t_OrchestrationID t = o_ID v"
  shows "fst (CreateOrchestration v d) \<and>
     fst (GetOrchestration (o_ID v) (snd (CreateOrchestration v d))) =
       Inr (Some (v\<lparr>o_Tasks := stored_order d (o_Tasks v)\<rparr>))"
proof
  have o: "or_id r \<noteq> o_ID v" if "r \<in> set (orchestrations d)" for r using assms(3) that by force
  have t: "tr_orchestration_id r \<noteq> o_ID v" if "r \<in> set (orchestration_tasks d)" for r using assms(4) that by force
  show "fst (CreateOrchestration v d)"
    using CreateOrchestration_ok [OF assms(1,2) o t] by simp
  show "fst (GetOrchestration (o_ID v) (snd (CreateOrchestration v d))) =
       Inr (Some (v\<lparr>o_Tasks := stored_order d (o_Tasks v)\<rparr>))"
    using assms(5) by (intro create_then_get [OF assms(1,2) o t]) auto
qed

theorem create_get_roundtrip_witness:
  "fst (GetOrchestration ''o'' (snd (CreateOrchestration (demo_orchestration [demo_task ''b'' [], demo_task ''a'' []]) demo_empty))) =
     Inr (Some (demo_orchestration [demo_task ''a'' [], demo_task ''b'' []]))"
proof -
  let ?v = "demo_orchestration [demo_task ''b'' [], demo_task ''a'' []]"
  have "stored_order demo_empty (o_Tasks ?v) = [demo_task ''a'' [], demo_task ''b'' []]" by code_simp
  moreover have "healthy demo_empty" by (simp add: demo_empty_def healthy_def)
  ultimately show ?thesis
    using create_get_roundtrip [of demo_empty ?v]
    by (simp add: demo_empty_def demo_orchestration_def demo_task_def)
qed

text \<open>
  Creation is atomic: when \<open>CreateOrchestration\<close> reports an error, at whichever statement it occurred,
  both tables are as they were.
\<close>

theorem create_atomic:
  assumes "\<not> fst (CreateOrchestration v d)"
  shows "orchestrations (snd (CreateOrchestration v d)) = orchestrations d \<and>
     orchestration_tasks (snd (CreateOrchestration v d)) = orchestration_tasks d"
proof -
  have "sql_tx (insert_orchestration v # map (insert_task (o_ID v)) (o_Tasks v)) d = (False, snd (CreateOrchestration v d))"
    using assms by (simp add: CreateOrchestration_def prod_eq_iff)
  from sql_tx_atomic [OF this] show ?thesis by auto
qed

theorem create_atomic_witness:
  "orchestrations (snd (CreateOrchestration (demo_orchestration [demo_task ''a'' [], demo_task ''a'' []]) demo_empty)) = []"
proof -
  let ?v = "demo_orchestration [demo_task ''a'' [], demo_task ''a'' []]"
  have "\<not> fst (CreateOrchestration ?v demo_empty)" by code_simp
  from create_atomic [OF this] show ?thesis by (simp add: demo_empty_def)
qed

text \<open>
  C6. \<open>validateAcyclic\<close> decides acyclicity: for tasks with distinct ids and whatever order Go's map iteration
  picks, it reports no error exactly when the dependency graph has no cycle.
\<close>

theorem validateAcyclic_decides:
  assumes "distinct (map t_ID tasks)" and "set (rng (map t_ID tasks)) = set (map t_ID tasks)"
  shows "validateAcyclic rng tasks = None \<longleftrightarrow> acyclic (task_edges tasks)"
  using assms by (rule validateAcyclic_iff)

theorem validateAcyclic_decides_witness:
  "\<not> acyclic (task_edges [demo_task ''a'' [''b''], demo_task ''b'' [''a'']])"
proof -
  let ?ts = "[demo_task ''a'' [''b''], demo_task ''b'' [''a'']]"
  have "validateAcyclic rev ?ts \<noteq> None" and "distinct (map t_ID ?ts)" by code_simp+
  with validateAcyclic_decides [of ?ts rev, OF _ set_rev] show ?thesis by blast
qed

text \<open>
  \<open>Normalize\<close> accepts exactly the valid requests: a name of at most 160 runes, 1 to 32 tasks, at most 12
  workers, and after trimming distinct well-formed ids, an agent and an input for each task, and
  dependencies that are other tasks of the request and form no cycle.
\<close>

theorem Normalize_accepts_valid:
  assumes "\<And>xs. set (rng xs) = set xs"
  shows "(\<exists>v. Normalize now oid rng name n tasks = Inr v) \<longleftrightarrow> valid_request name n tasks"
  by (rule Normalize_accepts [OF assms])

theorem Normalize_accepts_valid_witness: "valid_request '' x '' 3 [demo_task '' a '' [''b''], demo_task ''b'' []]"
proof -
  have "case Normalize 4 ''o'' rev '' x '' 3 [demo_task '' a '' [''b''], demo_task ''b'' []] of Inr _ \<Rightarrow> True | Inl _ \<Rightarrow> False"
    by code_simp
  then have "\<exists>v. Normalize 4 ''o'' rev '' x '' 3 [demo_task '' a '' [''b''], demo_task ''b'' []] = Inr v"
    by (auto split: sum.splits)
  then show ?thesis using Normalize_accepts_valid [of rev] by simp
qed

text \<open>
  What \<open>Normalize\<close> returns is well formed and a run can start from it: the concurrency is between 1 and 12,
  every task is queued, its dependencies are sorted, without duplicates and other tasks of the
  orchestration, and the graph is acyclic.
\<close>

theorem Normalize_startable:
  assumes "\<And>xs. set (rng xs) = set xs" and "Normalize now oid rng name n tasks = Inr v"
  shows "wf_orchestration v \<and> startable v \<and> o_ID v = oid"
  using Normalize_wf_orchestration [OF assms] startable_fresh Normalize_result [OF assms(2)] by metis

theorem Normalize_startable_witness:
  "startable (demo_orchestration [demo_task ''a'' [''b''], demo_task ''b'' []])"
proof -
  have "Normalize 1 ''o'' rev ''n'' 2 [demo_task '' a '' [''b'', '' b''], demo_task ''b'' []] =
      Inr (demo_orchestration [demo_task ''a'' [''b''], demo_task ''b'' []])" by code_simp
  from Normalize_startable [OF _ this] show ?thesis by simp
qed

text \<open>
  Stored outputs are bounded: \<open>truncateRunes\<close> returns the value itself up to the limit, and otherwise the
  first \<open>limit\<close> runes followed by the truncation mark of 13 runes.
\<close>

theorem truncateRunes_bound:
  assumes "0 \<le> limit"
  shows "truncateRunes s limit = s \<and> int (length (runes s)) \<le> limit \<or>
    (\<exists>rs. truncateRunes s limit = concat rs @ truncated_mark \<and> rs = take (nat limit) (runes s) \<and>
       int (length rs) = limit \<and> limit < int (length (runes s)))"
  using assms by (auto simp: truncateRunes_def min_def)

theorem truncateRunes_bound_witness: "truncateRunes ''abc'' 2 = ''ab'' @ truncated_mark"
proof -
  have "\<not> int (length (runes ''abc'')) \<le> 2" and "concat (take (nat 2) (runes ''abc'')) = ''ab''" by code_simp+
  with truncateRunes_bound [of 2 "''abc''"] show ?thesis by auto
qed

text \<open>
  The order of the tasks decides how a skipped task is reported: with a failed task \<open>a\<close>, a task
  \<open>c\<close> depending on \<open>a\<close> and a task \<open>b\<close> depending on \<open>c\<close>, the pass after the failure cancels \<open>c\<close> because of its
  dependency, but ends \<open>b\<close> as failed with "no runnable dependency path" since it visits \<open>b\<close> before \<open>c\<close>.
\<close>

theorem skipped_task_order:
  "map (\<lambda>t. (t_ID t, t_Status t, t_Error t))
     (tasks_of_run (snd (scan_body 8 9 (demo_empty,
        \<lparr>r_orch = demo_orchestration [(demo_task ''a'' [])\<lparr>t_Status := OrchestrationFailed\<rparr>, demo_task ''b'' [''c''], demo_task ''c'' [''a'']],
         r_running = 0, r_launched = False, r_inflight = [], r_ctx = False, r_phase = Scanning\<rparr>)))) =
   [(''a'', OrchestrationFailed, []), (''b'', OrchestrationFailed, ''no runnable dependency path''),
    (''c'', OrchestrationCancelled, ''dependency did not succeed: a'')]"
  by code_simp

end
