(* ===== verification/Resources.thy ===== *)
theory Resources
  imports Orchestration_Store
begin

text \<open>
  The tables of tenant-owned resources: agent instances (store/agents.go), channels (store/channels.go)
  and triggers (store/triggers.go), with the data of core/agent_instance.go and core/channel.go, and the
  tables of tenants, tenant tokens and grants that decide who may see them. A table keyed by an id is the
  locale \<open>keyed_table\<close>, interpreted on the three resource tables.

  A row is the struct it is scanned into. A \<^verbatim>\<open>NULL\<close> owner scans as the empty string and
  \<open>nullableOwner\<close> never stores an empty owner, so an owner column equals a tenant id only when it is not
  empty. Lists and maps are stored as JSON text that reads back as the same value; they are kept as text.
\<close>

section \<open>Data\<close>

record AgentInstance =
  a_ID :: string
  a_Name :: string
  a_RuntimeID :: string
  a_DesktopThreadID :: string
  a_WorkDir :: string
  a_WorkspaceMode :: string
  a_WorktreeBaseRef :: string
  a_SessionBackend :: string
  a_SystemPrompt :: string
  a_ProviderTool :: string
  a_ProviderID :: string
  a_ProviderName :: string
  a_DefaultModel :: string
  a_DefaultReasoningEffort :: string
  a_DefaultServiceTier :: string
  a_DefaultApprovalMode :: string
  a_MemoryScope :: string
  a_Env :: string
  a_ChannelBindings :: string
  a_Schedules :: string
  a_MCPServers :: string
  a_Skills :: string
  a_CLIs :: string
  a_Enabled :: bool
  a_Source :: string
  a_OwnerTenantID :: string
  a_OwnerTenantName :: string
  a_Visibility :: string
  a_CreatedAt :: gotime
  a_UpdatedAt :: gotime
  a_PrivateChatMode :: string
  a_GroupChatMode :: string

record RuntimeSettings =
  rs_Model :: string
  rs_ReasoningEffort :: string
  rs_ServiceTier :: string
  rs_ApprovalMode :: string

record Channel =
  c_ID :: string
  c_Name :: string
  c_Type :: string
  c_AgentID :: string
  c_Config :: string
  c_Enabled :: bool
  c_OwnerTenantID :: string
  c_OwnerTenantName :: string
  c_Visibility :: string
  c_CreatedAt :: gotime
  c_UpdatedAt :: gotime

record Trigger =
  tg_ID :: string
  tg_Name :: string
  tg_Kind :: string
  tg_AgentID :: string
  tg_ChannelID :: string
  tg_ChatID :: string
  tg_CronExpr :: string
  tg_Prompt :: string
  tg_Event :: string
  tg_ActionType :: string
  tg_ActionTarget :: string
  tg_Token :: string
  tg_SessionMode :: string
  tg_Enabled :: bool
  tg_LastRun :: gotime
  tg_LastStatus :: string
  tg_LastError :: string
  tg_OwnerTenantID :: string
  tg_CreatedAt :: gotime
  tg_UpdatedAt :: gotime

record Tenant =
  tn_ID :: string
  tn_Name :: string
  tn_Kind :: string
  tn_Status :: string
  tn_Note :: string
  tn_CreatedAt :: gotime
  tn_UpdatedAt :: gotime

record TenantToken =
  tk_ID :: string
  tk_TenantID :: string
  tk_Name :: string
  tk_Prefix :: string
  tk_CreatedAt :: gotime
  tk_LastUsedAt :: "gotime option"
  tk_ExpiresAt :: "gotime option"
  tk_RevokedAt :: "gotime option"
  tk_Secret :: string

record ResourceGrant =
  rg_TenantID :: string
  rg_ResourceType :: string
  rg_ResourceID :: string
  rg_Level :: string
  rg_CreatedAt :: gotime
  rg_UpdatedAt :: gotime

text \<open>A token row pairs the hash of the secret with the token, whose secret is never stored.\<close>

record tenancy_db = orch_db +
  agent_instances :: "AgentInstance list"
  channels :: "Channel list"
  triggers :: "Trigger list"
  tenants :: "Tenant list"
  tenant_tokens :: "(string \<times> TenantToken) list"
  resource_grants :: "ResourceGrant list"

section \<open>Tables keyed by an id\<close>

definition table_find :: "('r \<Rightarrow> string) \<Rightarrow> string \<Rightarrow> 'r list \<Rightarrow> 'r option" where
  "table_find key k rows = find (\<lambda>r. key r = k) rows"

text \<open>\<^verbatim>\<open>INSERT ... ON CONFLICT(id) DO UPDATE\<close>: \<open>merge\<close> is the row after the update clause.\<close>

definition table_upsert :: "('r \<Rightarrow> string) \<Rightarrow> ('r \<Rightarrow> 'r \<Rightarrow> 'r) \<Rightarrow> 'r \<Rightarrow> 'r list \<Rightarrow> 'r list" where
  "table_upsert key merge r rows =
     (if list_ex (\<lambda>q. key q = key r) rows then map (\<lambda>q. if key q = key r then merge r q else q) rows
      else rows @ [r])"

definition table_delete :: "('r \<Rightarrow> string) \<Rightarrow> string \<Rightarrow> 'r list \<Rightarrow> 'r list" where
  "table_delete key k rows = filter (\<lambda>r. key r \<noteq> k) rows"

locale keyed_table =
  fixes key :: "'r \<Rightarrow> string" and merge :: "'r \<Rightarrow> 'r \<Rightarrow> 'r"
  assumes key_merge: "key q = key r \<Longrightarrow> key (merge r q) = key r"
begin

lemma find_upsert:
  "table_find key k (table_upsert key merge r rows) =
     (if k = key r then Some (case table_find key k rows of None \<Rightarrow> r | Some q \<Rightarrow> merge r q)
      else table_find key k rows)"
proof (cases "list_ex (\<lambda>q. key q = key r) rows")
  case False
  then have "find (\<lambda>q. key q = key r) rows = None" by (auto simp: find_None_iff' list_ex_iff)
  moreover have "find P (rows @ [r]) = (case find P rows of None \<Rightarrow> (if P r then Some r else None) | Some q \<Rightarrow> Some q)" for P
    by (induction rows) auto
  ultimately show ?thesis
    using False by (auto simp: table_find_def table_upsert_def split: option.splits)
next
  case True
  let ?g = "\<lambda>q. if key q = key r then merge r q else q"
  have "find (\<lambda>q. key q = k) (map ?g rows) = map_option ?g (find (\<lambda>q. key q = k) rows)"
    by (rule find_map_key) (simp add: key_merge)
  moreover have "\<exists>q. find (\<lambda>q. key q = key r) rows = Some q"
    using True by (metis find_None_iff' list_ex_iff not_Some_eq)
  ultimately show ?thesis
    using True
    by (cases "find (\<lambda>q. key q = k) rows")
       (auto simp: table_find_def table_upsert_def dest: find_Some_in split: option.splits)
qed

lemma find_delete: "table_find key k (table_delete key j rows) = (if k = j then None else table_find key k rows)"
  by (induction rows) (auto simp: table_find_def table_delete_def)

lemma upsert_distinct: "distinct (map key rows) \<Longrightarrow> distinct (map key (table_upsert key merge r rows))"
proof -
  assume d: "distinct (map key rows)"
  have "map key (map (\<lambda>q. if key q = key r then merge r q else q) rows) = map key rows"
    by (simp add: key_merge)
  with d show ?thesis by (simp add: table_upsert_def list_ex_iff del: map_map) auto
qed

end

section \<open>Statements\<close>

definition owned_by :: "string \<Rightarrow> string \<Rightarrow> bool" where
  "owned_by owner tenantID \<longleftrightarrow> owner \<noteq> [] \<and> owner = tenantID"

text \<open>The sub-select on \<^verbatim>\<open>resource_grants\<close>.\<close>

definition granted :: "string \<Rightarrow> string \<Rightarrow> string \<Rightarrow> 'a tenancy_db_scheme \<Rightarrow> bool" where
  "granted tenantID resourceType resourceID d =
     list_ex (\<lambda>g. rg_TenantID g = tenantID \<and> rg_ResourceType g = resourceType \<and> rg_ResourceID g = resourceID)
       (resource_grants d)"

definition visibleToTenant :: "string \<Rightarrow> string \<Rightarrow> string \<Rightarrow> string \<Rightarrow> string \<Rightarrow> 'a tenancy_db_scheme \<Rightarrow> bool" where
  "visibleToTenant resourceType tenantID rid owner visibility d \<longleftrightarrow>
     owned_by owner tenantID \<or> visibility = ''public'' \<or> granted tenantID resourceType rid d"

definition agent_order :: "'a tenancy_db_scheme \<Rightarrow> AgentInstance list \<Rightarrow> AgentInstance list" where
  "agent_order d xs = sort_key (\<lambda>a. - time_key d (Some (a_UpdatedAt a))) (sort_key (\<lambda>a. text_key d (a_Name a)) xs)"

definition ListAgentInstances :: "'a tenancy_db_scheme \<Rightarrow> AgentInstance list option \<times> 'a tenancy_db_scheme" where
  "ListAgentInstances = sql_query (\<lambda>d. agent_order d (agent_instances d))"

definition ListAgentInstancesForTenant ::
  "string \<Rightarrow> 'a tenancy_db_scheme \<Rightarrow> AgentInstance list option \<times> 'a tenancy_db_scheme" where
  "ListAgentInstancesForTenant tenantID = sql_query (\<lambda>d. agent_order d
     (filter (\<lambda>a. visibleToTenant ''agent'' tenantID (a_ID a) (a_OwnerTenantID a) (a_Visibility a) d) (agent_instances d)))"

definition GetAgentInstance ::
  "string \<Rightarrow> 'a tenancy_db_scheme \<Rightarrow> AgentInstance option option \<times> 'a tenancy_db_scheme" where
  "GetAgentInstance i = sql_query (\<lambda>d. table_find a_ID i (agent_instances d))"

definition agent_row :: "AgentInstance \<Rightarrow> AgentInstance" where
  "agent_row a = a\<lparr>a_ProviderName := [], a_OwnerTenantName := []\<rparr>"

definition merge_agent :: "AgentInstance \<Rightarrow> AgentInstance \<Rightarrow> AgentInstance" where
  "merge_agent a q = (agent_row a)\<lparr>a_CreatedAt := a_CreatedAt q\<rparr>"

definition UpsertAgentInstance :: "AgentInstance \<Rightarrow> 'a tenancy_db_scheme \<Rightarrow> bool \<times> 'a tenancy_db_scheme" where
  "UpsertAgentInstance a = sql_exec (\<lambda>d. Some (d\<lparr>agent_instances :=
     table_upsert a_ID merge_agent (agent_row a) (agent_instances d)\<rparr>))"

definition DeleteAgentInstance :: "string \<Rightarrow> 'a tenancy_db_scheme \<Rightarrow> bool \<times> 'a tenancy_db_scheme" where
  "DeleteAgentInstance i = sql_exec (\<lambda>d. Some (d\<lparr>agent_instances := table_delete a_ID i (agent_instances d)\<rparr>))"

definition SetAgentInstanceOwner :: "gotime \<Rightarrow> string \<Rightarrow> string \<Rightarrow> 'a tenancy_db_scheme \<Rightarrow> bool \<times> 'a tenancy_db_scheme" where
  "SetAgentInstanceOwner now i tenantID = sql_exec (\<lambda>d. Some (d\<lparr>agent_instances :=
     map (\<lambda>a. if a_ID a = i then a\<lparr>a_OwnerTenantID := tenantID, a_UpdatedAt := now\<rparr> else a) (agent_instances d)\<rparr>))"

definition UpdateAgentRuntimeSettings ::
  "gotime \<Rightarrow> string \<Rightarrow> RuntimeSettings \<Rightarrow> 'a tenancy_db_scheme \<Rightarrow> bool \<times> 'a tenancy_db_scheme" where
  "UpdateAgentRuntimeSettings now i settings = sql_exec (\<lambda>d. Some (d\<lparr>agent_instances :=
     map (\<lambda>a. if a_ID a = i then a\<lparr>a_DefaultModel := rs_Model settings,
            a_DefaultReasoningEffort := rs_ReasoningEffort settings, a_DefaultServiceTier := rs_ServiceTier settings,
            a_DefaultApprovalMode := rs_ApprovalMode settings, a_UpdatedAt := now\<rparr> else a) (agent_instances d)\<rparr>))"

definition enabled_first :: "bool \<Rightarrow> nat" where
  "enabled_first b = (if b then 0 else 1)"

definition channel_order :: "'a tenancy_db_scheme \<Rightarrow> Channel list \<Rightarrow> Channel list" where
  "channel_order d xs = sort_key (\<lambda>c. enabled_first (c_Enabled c)) (sort_key (\<lambda>c. text_key d (c_Name c)) xs)"

definition ListChannels :: "'a tenancy_db_scheme \<Rightarrow> Channel list option \<times> 'a tenancy_db_scheme" where
  "ListChannels = sql_query (\<lambda>d. channel_order d (channels d))"

definition ListChannelsForTenant :: "string \<Rightarrow> 'a tenancy_db_scheme \<Rightarrow> Channel list option \<times> 'a tenancy_db_scheme" where
  "ListChannelsForTenant tenantID = sql_query (\<lambda>d. channel_order d
     (filter (\<lambda>c. visibleToTenant ''channel'' tenantID (c_ID c) (c_OwnerTenantID c) (c_Visibility c) d) (channels d)))"

definition GetChannel :: "string \<Rightarrow> 'a tenancy_db_scheme \<Rightarrow> Channel option option \<times> 'a tenancy_db_scheme" where
  "GetChannel i = sql_query (\<lambda>d. table_find c_ID i (channels d))"

definition channel_row :: "Channel \<Rightarrow> Channel" where
  "channel_row c = c\<lparr>c_OwnerTenantName := []\<rparr>"

definition merge_channel :: "Channel \<Rightarrow> Channel \<Rightarrow> Channel" where
  "merge_channel c q = (channel_row c)\<lparr>c_CreatedAt := c_CreatedAt q\<rparr>"

definition UpsertChannel :: "Channel \<Rightarrow> 'a tenancy_db_scheme \<Rightarrow> bool \<times> 'a tenancy_db_scheme" where
  "UpsertChannel c = sql_exec (\<lambda>d. Some (d\<lparr>channels := table_upsert c_ID merge_channel (channel_row c) (channels d)\<rparr>))"

definition DeleteChannel :: "string \<Rightarrow> 'a tenancy_db_scheme \<Rightarrow> bool \<times> 'a tenancy_db_scheme" where
  "DeleteChannel i = sql_exec (\<lambda>d. Some (d\<lparr>channels := table_delete c_ID i (channels d)\<rparr>))"

definition SetChannelOwner :: "gotime \<Rightarrow> string \<Rightarrow> string \<Rightarrow> 'a tenancy_db_scheme \<Rightarrow> bool \<times> 'a tenancy_db_scheme" where
  "SetChannelOwner now i tenantID = sql_exec (\<lambda>d. Some (d\<lparr>channels :=
     map (\<lambda>c. if c_ID c = i then c\<lparr>c_OwnerTenantID := tenantID, c_UpdatedAt := now\<rparr> else c) (channels d)\<rparr>))"

definition trigger_order :: "'a tenancy_db_scheme \<Rightarrow> Trigger list \<Rightarrow> Trigger list" where
  "trigger_order d xs = sort_key (\<lambda>t. enabled_first (tg_Enabled t))
     (sort_key (\<lambda>t. text_key d (tg_Kind t)) (sort_key (\<lambda>t. text_key d (tg_Name t)) xs))"

definition ListTriggers :: "'a tenancy_db_scheme \<Rightarrow> Trigger list option \<times> 'a tenancy_db_scheme" where
  "ListTriggers = sql_query (\<lambda>d. trigger_order d (triggers d))"

definition ListTriggersForTenant :: "string \<Rightarrow> 'a tenancy_db_scheme \<Rightarrow> Trigger list option \<times> 'a tenancy_db_scheme" where
  "ListTriggersForTenant tenantID = sql_query (\<lambda>d. trigger_order d
     (filter (\<lambda>t. owned_by (tg_OwnerTenantID t) tenantID \<or> granted tenantID ''trigger'' (tg_ID t) d) (triggers d)))"

definition GetTrigger :: "string \<Rightarrow> 'a tenancy_db_scheme \<Rightarrow> Trigger option option \<times> 'a tenancy_db_scheme" where
  "GetTrigger i = sql_query (\<lambda>d. table_find tg_ID i (triggers d))"

text \<open>The bookkeeping of the last run survives an update of the definition.\<close>

definition merge_trigger :: "Trigger \<Rightarrow> Trigger \<Rightarrow> Trigger" where
  "merge_trigger t q = t\<lparr>tg_LastRun := tg_LastRun q, tg_LastStatus := tg_LastStatus q, tg_LastError := tg_LastError q,
     tg_CreatedAt := tg_CreatedAt q\<rparr>"

definition UpsertTrigger :: "Trigger \<Rightarrow> 'a tenancy_db_scheme \<Rightarrow> bool \<times> 'a tenancy_db_scheme" where
  "UpsertTrigger t = sql_exec (\<lambda>d. Some (d\<lparr>triggers := table_upsert tg_ID merge_trigger t (triggers d)\<rparr>))"

definition SetTriggerOwner :: "gotime \<Rightarrow> string \<Rightarrow> string \<Rightarrow> 'a tenancy_db_scheme \<Rightarrow> bool \<times> 'a tenancy_db_scheme" where
  "SetTriggerOwner now i tenantID = sql_exec (\<lambda>d. Some (d\<lparr>triggers :=
     map (\<lambda>t. if tg_ID t = i then t\<lparr>tg_OwnerTenantID := tenantID, tg_UpdatedAt := now\<rparr> else t) (triggers d)\<rparr>))"

definition UpdateTriggerRun ::
  "string \<Rightarrow> gotime \<Rightarrow> string \<Rightarrow> string \<Rightarrow> 'a tenancy_db_scheme \<Rightarrow> bool \<times> 'a tenancy_db_scheme" where
  "UpdateTriggerRun i lastRun status errMsg = sql_exec (\<lambda>d. Some (d\<lparr>triggers :=
     map (\<lambda>t. if tg_ID t = i then t\<lparr>tg_LastRun := lastRun, tg_LastStatus := status, tg_LastError := errMsg\<rparr> else t)
       (triggers d)\<rparr>))"

definition DeleteTrigger :: "string \<Rightarrow> 'a tenancy_db_scheme \<Rightarrow> bool \<times> 'a tenancy_db_scheme" where
  "DeleteTrigger i = sql_exec (\<lambda>d. Some (d\<lparr>triggers := table_delete tg_ID i (triggers d)\<rparr>))"

section \<open>The three resource tables\<close>

interpretation agent_tab: keyed_table a_ID merge_agent
  by unfold_locales (simp add: merge_agent_def agent_row_def)

interpretation channel_tab: keyed_table c_ID merge_channel
  by unfold_locales (simp add: merge_channel_def channel_row_def)

interpretation trigger_tab: keyed_table tg_ID merge_trigger
  by unfold_locales (simp add: merge_trigger_def)

end
