(* ===== verification/Tenancy.thy ===== *)
theory Tenancy
  imports Resources
begin

text \<open>
  Tenants, their credentials and their grants: the levels and principals of core/tenancy.go and the
  statements of store/tenancy.go. SHA-256 (\<^verbatim>\<open>HashSecret\<close>) is the argument \<open>hash\<close>, random ids and secrets
  are arguments of the operations that draw them.
\<close>

section \<open>Grant levels\<close>

definition grantRank :: "string \<Rightarrow> nat option" where
  "grantRank level = map_of [(''read'', 1), (''use'', 2), (''manage'', 3)] level"

text \<open>Indexing the map: a missing key reads 0.\<close>

definition rank_of :: "string \<Rightarrow> nat" where
  "rank_of level = (case grantRank level of None \<Rightarrow> 0 | Some r \<Rightarrow> r)"

definition GrantSatisfies :: "string \<Rightarrow> string \<Rightarrow> bool" where
  "GrantSatisfies held required =
     (case grantRank held of
        None \<Rightarrow> False
      | Some heldRank \<Rightarrow>
          (case grantRank required of
             None \<Rightarrow> False
           | Some requiredRank \<Rightarrow> heldRank \<ge> requiredRank))"

definition StrongerGrant :: "string \<Rightarrow> string \<Rightarrow> string" where
  "StrongerGrant a b = (if rank_of a \<ge> rank_of b then a else b)"

definition NormalizeGrantLevel :: "string \<Rightarrow> string" where
  "NormalizeGrantLevel level = (case grantRank level of Some _ \<Rightarrow> level | None \<Rightarrow> ''read'')"

definition NormalizeVisibility :: "string \<Rightarrow> string" where
  "NormalizeVisibility visibility = (if visibility = ''public'' then ''public'' else ''private'')"

definition Active :: "Tenant option \<Rightarrow> bool" where
  "Active t = (case t of None \<Rightarrow> False | Some t \<Rightarrow> tn_Status t = ''active'')"

record Principal =
  p_Admin :: bool
  p_TenantID :: string
  p_TenantName :: string

definition IsTenant :: "Principal option \<Rightarrow> bool" where
  "IsTenant p = (case p of None \<Rightarrow> False | Some p \<Rightarrow> \<not> p_Admin p \<and> p_TenantID p \<noteq> [])"

definition AdminPrincipal :: Principal where
  "AdminPrincipal = \<lparr>p_Admin = True, p_TenantID = [], p_TenantName = []\<rparr>"

section \<open>Tenants\<close>

definition ListTenants :: "'a tenancy_db_scheme \<Rightarrow> Tenant list option \<times> 'a tenancy_db_scheme" where
  "ListTenants = sql_query (\<lambda>d. sort_key (\<lambda>t. - time_key d (Some (tn_CreatedAt t)))
     (sort_key (\<lambda>t. text_key d (tn_Name t)) (tenants d)))"

text \<open>The grouped count as the map from a tenant id to its number of owned rows.\<close>

definition CountOwnedResourcesByTenant ::
  "'a tenancy_db_scheme \<Rightarrow> (string \<Rightarrow> nat option) option \<times> 'a tenancy_db_scheme" where
  "CountOwnedResourcesByTenant = sql_query (\<lambda>d.
     let owned = filter (\<lambda>x. x \<noteq> []) (map a_OwnerTenantID (agent_instances d) @
                  map c_OwnerTenantID (channels d) @ map tg_OwnerTenantID (triggers d))
     in (\<lambda>t. if t \<in> set owned then Some (length (filter (\<lambda>x. x = t) owned)) else None))"

definition GetTenant :: "string \<Rightarrow> 'a tenancy_db_scheme \<Rightarrow> Tenant option option \<times> 'a tenancy_db_scheme" where
  "GetTenant i = sql_query (\<lambda>d. table_find tn_ID i (tenants d))"

definition GetTenantByName :: "string \<Rightarrow> 'a tenancy_db_scheme \<Rightarrow> Tenant option option \<times> 'a tenancy_db_scheme" where
  "GetTenantByName name = sql_query (\<lambda>d. table_find tn_Name name (tenants d))"

definition merge_tenant :: "Tenant \<Rightarrow> Tenant \<Rightarrow> Tenant" where
  "merge_tenant t q = t\<lparr>tn_CreatedAt := tn_CreatedAt q\<rparr>"

text \<open>The unique index on the name refuses a second tenant of that name.\<close>

definition UpsertTenant :: "Tenant \<Rightarrow> 'a tenancy_db_scheme \<Rightarrow> bool \<times> 'a tenancy_db_scheme" where
  "UpsertTenant t = sql_exec (\<lambda>d.
     if list_ex (\<lambda>q. tn_Name q = tn_Name t \<and> tn_ID q \<noteq> tn_ID t) (tenants d) then None
     else Some (d\<lparr>tenants := table_upsert tn_ID merge_tenant t (tenants d)\<rparr>))"

interpretation tenant_tab: keyed_table tn_ID merge_tenant
  by unfold_locales (simp add: merge_tenant_def)

text \<open>\<^verbatim>\<open>SET owner_tenant_id=NULL WHERE owner_tenant_id=?\<close>\<close>

definition unassign :: "('r \<Rightarrow> string) \<Rightarrow> ('r \<Rightarrow> 'r) \<Rightarrow> string \<Rightarrow> 'r list \<Rightarrow> 'r list" where
  "unassign owner clear i rows = map (\<lambda>r. if owned_by (owner r) i then clear r else r) rows"

definition DeleteTenant :: "string \<Rightarrow> 'a tenancy_db_scheme \<Rightarrow> bool \<times> 'a tenancy_db_scheme" where
  "DeleteTenant i = sql_tx
     [\<lambda>d. Some (d\<lparr>tenant_tokens := filter (\<lambda>(h, t). tk_TenantID t \<noteq> i) (tenant_tokens d)\<rparr>),
      \<lambda>d. Some (d\<lparr>resource_grants := filter (\<lambda>g. rg_TenantID g \<noteq> i) (resource_grants d)\<rparr>),
      \<lambda>d. Some (d\<lparr>tenants := table_delete tn_ID i (tenants d)\<rparr>),
      \<lambda>d. Some (d\<lparr>agent_instances := unassign a_OwnerTenantID (\<lambda>a. a\<lparr>a_OwnerTenantID := []\<rparr>) i (agent_instances d)\<rparr>),
      \<lambda>d. Some (d\<lparr>channels := unassign c_OwnerTenantID (\<lambda>c. c\<lparr>c_OwnerTenantID := []\<rparr>) i (channels d)\<rparr>),
      \<lambda>d. Some (d\<lparr>triggers := unassign tg_OwnerTenantID (\<lambda>t. t\<lparr>tg_OwnerTenantID := []\<rparr>) i (triggers d)\<rparr>),
      \<lambda>d. Some (d\<lparr>orchestrations := map (\<lambda>r. if or_owner_tenant_id r = Some i
              then r\<lparr>or_owner_tenant_id := None\<rparr> else r) (orchestrations d)\<rparr>)]"

definition TenantNames :: "'a tenancy_db_scheme \<Rightarrow> (string \<rightharpoonup> string) option \<times> 'a tenancy_db_scheme" where
  "TenantNames = sql_query (\<lambda>d. map_of (map (\<lambda>t. (tn_ID t, tn_Name t)) (tenants d)))"

section \<open>Tokens\<close>

definition tenantTokenPrefix :: string where "tenantTokenPrefix = ''amxt_''"
definition tenantDisplayedPrefix :: nat where "tenantDisplayedPrefix = 12"
definition tenantLastUsedWindow :: int where "tenantLastUsedWindow = 5 * minute_ns"

definition secretDisplayPrefix :: "string \<Rightarrow> string" where
  "secretDisplayPrefix secret =
     (if length secret \<le> tenantDisplayedPrefix then secret else take tenantDisplayedPrefix secret)"

definition formatTimePtr :: "gotime option \<Rightarrow> gotime option" where
  "formatTimePtr v = (case v of None \<Rightarrow> None | Some t \<Rightarrow> if is_zero t then None else Some t)"

definition newTenancyID :: "string \<Rightarrow> string \<Rightarrow> string" where
  "newTenancyID kind rnd = kind @ ''_'' @ rnd"

definition generateSecret :: "string \<Rightarrow> string \<Rightarrow> string" where
  "generateSecret prefix rnd = prefix @ rnd"

text \<open>
  \<open>rndID\<close> and \<open>rndSecret\<close> are the hexadecimal random draws. The id is the primary key and the hash is
  unique, so a collision is refused.
\<close>

definition CreateTenantToken ::
  "(string \<Rightarrow> string) \<Rightarrow> gotime \<Rightarrow> string \<Rightarrow> string \<Rightarrow> string \<Rightarrow> string \<Rightarrow> gotime option \<Rightarrow>
   'a tenancy_db_scheme \<Rightarrow> TenantToken option \<times> 'a tenancy_db_scheme" where
  "CreateTenantToken hash now rndID rndSecret tenantID name expiresAt d =
     (let secret = generateSecret tenantTokenPrefix rndSecret;
          token = \<lparr>tk_ID = newTenancyID ''tok'' rndID, tk_TenantID = tenantID, tk_Name = name,
            tk_Prefix = secretDisplayPrefix secret, tk_CreatedAt = now, tk_LastUsedAt = None,
            tk_ExpiresAt = expiresAt, tk_RevokedAt = None, tk_Secret = secret\<rparr>
      in case sql_exec (\<lambda>d. if list_ex (\<lambda>(h, t). h = hash secret \<or> tk_ID t = tk_ID token) (tenant_tokens d) then None
                else Some (d\<lparr>tenant_tokens := tenant_tokens d @
                  [(hash secret, token\<lparr>tk_ExpiresAt := formatTimePtr expiresAt, tk_Secret := []\<rparr>)]\<rparr>)) d of
           (True, d') \<Rightarrow> (Some token, d')
         | (False, d') \<Rightarrow> (None, d'))"

definition ListTenantTokens :: "string \<Rightarrow> 'a tenancy_db_scheme \<Rightarrow> TenantToken list option \<times> 'a tenancy_db_scheme" where
  "ListTenantTokens tenantID = sql_query (\<lambda>d. sort_key (\<lambda>t. - time_key d (Some (tk_CreatedAt t)))
     (filter (\<lambda>t. tk_TenantID t = tenantID) (map snd (tenant_tokens d))))"

definition RevokeTenantToken :: "gotime \<Rightarrow> string \<Rightarrow> 'a tenancy_db_scheme \<Rightarrow> bool \<times> 'a tenancy_db_scheme" where
  "RevokeTenantToken now i = sql_exec (\<lambda>d. Some (d\<lparr>tenant_tokens :=
     map (\<lambda>(h, t). (h, if tk_ID t = i \<and> tk_RevokedAt t = None then t\<lparr>tk_RevokedAt := Some now\<rparr> else t))
       (tenant_tokens d)\<rparr>))"

text \<open>The advisory update of the last use; the text comparison of the times is \<open>time_key\<close>.\<close>

definition touch_token :: "gotime \<Rightarrow> TenantToken \<Rightarrow> 'a tenancy_db_scheme \<Rightarrow> 'a tenancy_db_scheme" where
  "touch_token now token d =
     (if (case tk_LastUsedAt token of None \<Rightarrow> True | Some l \<Rightarrow> now - l \<ge> tenantLastUsedWindow) then
        snd (sql_exec (\<lambda>d. Some (d\<lparr>tenant_tokens :=
          map (\<lambda>(h, t). (h, if tk_ID t = tk_ID token \<and>
                (case tk_LastUsedAt t of None \<Rightarrow> True
                 | Some l \<Rightarrow> time_key d (Some l) < time_key d (Some (now - tenantLastUsedWindow)))
              then t\<lparr>tk_LastUsedAt := Some now\<rparr> else t)) (tenant_tokens d)\<rparr>)) d)
      else d)"

definition AuthenticateTenantToken ::
  "(string \<Rightarrow> string) \<Rightarrow> gotime \<Rightarrow> string \<Rightarrow> 'a tenancy_db_scheme \<Rightarrow>
   (db_error + Tenant option) \<times> 'a tenancy_db_scheme" where
  "AuthenticateTenantToken hash now secret0 d =
     (let secret = trim_space secret0 in
      if secret = [] \<or> \<not> has_prefix secret tenantTokenPrefix then (Inr None, d)
      else (case sql_query (\<lambda>d. find (\<lambda>(h, t). h = hash secret) (tenant_tokens d)) d of
        (None, d1) \<Rightarrow> (Inl DriverError, d1)
      | (Some None, d1) \<Rightarrow> (Inr None, d1)
      | (Some (Some (h, token)), d1) \<Rightarrow>
          (if tk_RevokedAt token \<noteq> None then (Inr None, d1)
           else if (case tk_ExpiresAt token of None \<Rightarrow> False | Some e \<Rightarrow> now > e) then (Inr None, d1)
           else (case GetTenant (tk_TenantID token) d1 of
             (None, d2) \<Rightarrow> (Inl DriverError, d2)
           | (Some tenant, d2) \<Rightarrow>
               (if \<not> Active tenant then (Inr None, d2) else (Inr tenant, touch_token now token d2))))))"

section \<open>Grants\<close>

definition same_grant :: "ResourceGrant \<Rightarrow> ResourceGrant \<Rightarrow> bool" where
  "same_grant g q \<longleftrightarrow> rg_TenantID q = rg_TenantID g \<and> rg_ResourceType q = rg_ResourceType g \<and>
     rg_ResourceID q = rg_ResourceID g"

definition UpsertResourceGrant :: "gotime \<Rightarrow> ResourceGrant \<Rightarrow> 'a tenancy_db_scheme \<Rightarrow> bool \<times> 'a tenancy_db_scheme" where
  "UpsertResourceGrant now grant0 =
     (let grant = grant0\<lparr>rg_CreatedAt := (if is_zero (rg_CreatedAt grant0) then now else rg_CreatedAt grant0),
            rg_UpdatedAt := now, rg_Level := NormalizeGrantLevel (rg_Level grant0)\<rparr>
      in sql_exec (\<lambda>d. Some (d\<lparr>resource_grants :=
        (if list_ex (same_grant grant) (resource_grants d)
         then map (\<lambda>q. if same_grant grant q then q\<lparr>rg_Level := rg_Level grant, rg_UpdatedAt := rg_UpdatedAt grant\<rparr> else q)
                (resource_grants d)
         else resource_grants d @ [grant])\<rparr>)))"

definition DeleteResourceGrant :: "string \<Rightarrow> string \<Rightarrow> string \<Rightarrow> 'a tenancy_db_scheme \<Rightarrow> bool \<times> 'a tenancy_db_scheme" where
  "DeleteResourceGrant tenantID resourceType resourceID = sql_exec (\<lambda>d. Some (d\<lparr>resource_grants :=
     filter (\<lambda>g. \<not> (rg_TenantID g = tenantID \<and> rg_ResourceType g = resourceType \<and> rg_ResourceID g = resourceID))
       (resource_grants d)\<rparr>))"

definition ListResourceGrants :: "string \<Rightarrow> 'a tenancy_db_scheme \<Rightarrow> ResourceGrant list option \<times> 'a tenancy_db_scheme" where
  "ListResourceGrants tenantID = sql_query (\<lambda>d. sort_key (\<lambda>g. text_key d (rg_ResourceType g))
     (sort_key (\<lambda>g. text_key d (rg_ResourceID g))
       (filter (\<lambda>g. tenantID \<noteq> [] \<longrightarrow> rg_TenantID g = tenantID) (resource_grants d))))"

definition grant_level :: "string \<Rightarrow> string \<Rightarrow> string \<Rightarrow> 'a tenancy_db_scheme \<Rightarrow> string" where
  "grant_level tenantID resourceType resourceID d =
     (case find (\<lambda>g. rg_TenantID g = tenantID \<and> rg_ResourceType g = resourceType \<and> rg_ResourceID g = resourceID)
             (resource_grants d) of
        None \<Rightarrow> [] | Some g \<Rightarrow> rg_Level g)"

definition GrantLevelFor :: "string \<Rightarrow> string \<Rightarrow> string \<Rightarrow> 'a tenancy_db_scheme \<Rightarrow> string option \<times> 'a tenancy_db_scheme" where
  "GrantLevelFor tenantID resourceType resourceID = sql_query (grant_level tenantID resourceType resourceID)"

section \<open>Facts\<close>

text \<open>The levels form a chain below which everything else ranks.\<close>

lemma grantRank_cases:
  "grantRank x = (if x = ''read'' then Some 1 else if x = ''use'' then Some 2 else if x = ''manage'' then Some 3 else None)"
  by (simp add: grantRank_def)

lemma GrantSatisfies_rank: "GrantSatisfies h r \<longleftrightarrow> 0 < rank_of r \<and> rank_of r \<le> rank_of h"
  by (auto simp: GrantSatisfies_def rank_of_def grantRank_cases)

lemma StrongerGrant_rank [simp]: "rank_of (StrongerGrant a b) = max (rank_of a) (rank_of b)"
  by (simp add: StrongerGrant_def max_def)

lemma rank_of_levels [simp]: "rank_of ''read'' = 1" "rank_of ''use'' = 2" "rank_of ''manage'' = 3" "rank_of [] = 0"
  by (simp_all add: rank_of_def grantRank_def)

text \<open>Every stored level is one of the three; \<open>UpsertResourceGrant\<close>, the only writer, keeps it so.\<close>

definition levels_valid :: "'a tenancy_db_scheme \<Rightarrow> bool" where
  "levels_valid d \<longleftrightarrow> (\<forall>g\<in>set (resource_grants d). grantRank (rg_Level g) \<noteq> None)"

lemma NormalizeGrantLevel_valid: "grantRank (NormalizeGrantLevel l) \<noteq> None"
  by (cases "grantRank l") (simp_all add: NormalizeGrantLevel_def grantRank_cases)

lemma UpsertResourceGrant_valid: "levels_valid d \<Longrightarrow> levels_valid (snd (UpsertResourceGrant now g d))"
  using NormalizeGrantLevel_valid
  by (auto simp: UpsertResourceGrant_def Let_def levels_valid_def sql_exec_def)

lemma grant_level_granted:
  "levels_valid d \<Longrightarrow> granted t ty r d \<longleftrightarrow> 0 < rank_of (grant_level t ty r d)"
proof -
  assume v: "levels_valid d"
  let ?P = "\<lambda>g. rg_TenantID g = t \<and> rg_ResourceType g = ty \<and> rg_ResourceID g = r"
  show ?thesis
  proof (cases "find ?P (resource_grants d)")
    case None
    then have "\<not> granted t ty r d" by (auto simp: granted_def list_ex_iff find_None_iff')
    with None show ?thesis by (simp add: grant_level_def)
  next
    case (Some g)
    then have g: "g \<in> set (resource_grants d)" "?P g" using find_Some_in [OF Some] by auto
    then have "granted t ty r d" by (auto simp: granted_def list_ex_iff)
    moreover have "0 < rank_of (rg_Level g)"
      using v g by (auto simp: levels_valid_def rank_of_def grantRank_cases split: if_splits)
    ultimately show ?thesis using Some by (simp add: grant_level_def)
  qed
qed

lemma AuthenticateTenantToken_sound:
  assumes "AuthenticateTenantToken hash now secret d = (Inr (Some tenant), d')"
  shows "\<exists>token. (hash (trim_space secret), token) \<in> set (tenant_tokens d) \<and> tk_TenantID token = tn_ID tenant \<and>
     tk_RevokedAt token = None \<and> (\<forall>e. tk_ExpiresAt token = Some e \<longrightarrow> now \<le> e) \<and>
     tenant \<in> set (tenants d) \<and> tn_Status tenant = ''active''"
proof -
  let ?s = "trim_space secret"
  from assms obtain h token where f: "find (\<lambda>(h, t). h = hash ?s) (tenant_tokens d) = Some (h, token)"
    and r: "tk_RevokedAt token = None" and e: "\<not> (case tk_ExpiresAt token of None \<Rightarrow> False | Some e \<Rightarrow> now > e)"
    and g: "table_find tn_ID (tk_TenantID token) (tenants d) = Some tenant" and a: "Active (Some tenant)"
    by (auto simp: AuthenticateTenantToken_def Let_def sql_query_def GetTenant_def
        split: if_splits option.splits prod.splits)
  have "(hash ?s, token) \<in> set (tenant_tokens d)" using find_Some_in [OF f] by auto
  moreover have "tenant \<in> set (tenants d) \<and> tn_ID tenant = tk_TenantID token"
    using find_Some_in [OF g [unfolded table_find_def]] by simp
  ultimately show ?thesis using r e a by (auto simp: Active_def split: option.splits)
qed

end
