(* ===== verification/Access.thy ===== *)
theory Access
  imports Tenancy
begin

text \<open>
  Who may do what with a resource: the access decisions of server/tenancy_scope.go and the agent upsert of
  server/agent_instances.go. A handler's response is a value of type \<open>reply\<close>: either what the handler goes
  on with, or a status code and a message. Messages that repeat an error of the store are \<open>store_error\<close>.
\<close>

datatype 'r reply = Granted 'r | Denied nat string

section \<open>Access decisions\<close>

text \<open>The server's store is \<open>None\<close> when none is configured (\<^verbatim>\<open>s.st == nil\<close>).\<close>

type_synonym 'a st = "'a tenancy_db_scheme option"

definition accessLevel :: "Principal \<Rightarrow> string \<Rightarrow> string \<Rightarrow> string \<Rightarrow> string \<Rightarrow> 'a st \<Rightarrow> string \<times> 'a st" where
  "accessLevel caller resourceType resourceID ownerTenantID visibility st =
     (if \<not> IsTenant (Some caller) then (''manage'', st)
      else if ownerTenantID \<noteq> [] \<and> ownerTenantID = p_TenantID caller then (''manage'', st)
      else (let level = (if visibility = ''public'' then ''use'' else [])
            in case st of
                 None \<Rightarrow> (level, st)
               | Some d \<Rightarrow>
                   (case GrantLevelFor (p_TenantID caller) resourceType resourceID d of
                      (None, d') \<Rightarrow> (level, Some d')
                    | (Some g, d') \<Rightarrow> (StrongerGrant level g, Some d'))))"

definition writeNotVisible :: "string \<Rightarrow> 'r reply" where
  "writeNotVisible kind = Denied 404 (kind @ '' not found'')"

definition denyResource :: "Principal \<Rightarrow> string \<Rightarrow> string \<Rightarrow> 'r reply" where
  "denyResource caller kind held =
     (if held = [] then writeNotVisible kind
      else Denied 403 (''tenant '' @ [CHR 0x22] @ p_TenantName caller @ [CHR 0x22] @ '' holds only '' @ held @
             '' access on this '' @ kind))"

text \<open>
  The search through all agents that admins use for host agents. The listing also fills in display names,
  which the decisions do not read.
\<close>

definition findAgentInstance :: "string \<Rightarrow> 'a tenancy_db_scheme \<Rightarrow> AgentInstance option option \<times> 'a tenancy_db_scheme" where
  "findAgentInstance i d =
     (case ListAgentInstances d of
        (None, d') \<Rightarrow> (None, d')
      | (Some items, d') \<Rightarrow> (Some (find (\<lambda>a. a_ID a = i) items), d'))"

definition store_error :: string where "store_error = ''store error''"

definition authorizeAgent :: "Principal \<Rightarrow> string \<Rightarrow> string \<Rightarrow> 'a st \<Rightarrow> AgentInstance reply \<times> 'a st" where
  "authorizeAgent caller agentID required st =
     (case st of
        None \<Rightarrow> (Denied 503 ''store unavailable'', None)
      | Some d \<Rightarrow>
          (if has_prefix agentID ''config:'' then
             (if IsTenant (Some caller) then (writeNotVisible ''agent'', st)
              else (case findAgentInstance agentID d of
                 (None, d') \<Rightarrow> (Denied 500 store_error, Some d')
               | (Some None, d') \<Rightarrow> (Denied 404 ''agent not found'', Some d')
               | (Some (Some agent), d') \<Rightarrow> (Granted agent, Some d')))
           else (case GetAgentInstance agentID d of
             (None, d') \<Rightarrow> (Denied 500 store_error, Some d')
           | (Some None, d') \<Rightarrow> (Denied 404 ''agent not found'', Some d')
           | (Some (Some agent), d') \<Rightarrow>
               (case accessLevel caller ''agent'' (a_ID agent) (a_OwnerTenantID agent) (a_Visibility agent) (Some d') of
                  (level, st') \<Rightarrow>
                    if \<not> GrantSatisfies level required then (denyResource caller ''agent'' level, st')
                    else (Granted agent, st')))))"

definition authorizeChannel :: "Principal \<Rightarrow> string \<Rightarrow> string \<Rightarrow> 'a st \<Rightarrow> Channel reply \<times> 'a st" where
  "authorizeChannel caller channelID required st =
     (case st of
        None \<Rightarrow> (Denied 503 ''store unavailable'', None)
      | Some d \<Rightarrow>
          (case GetChannel channelID d of
             (None, d') \<Rightarrow> (Denied 500 store_error, Some d')
           | (Some None, d') \<Rightarrow> (Denied 404 ''channel not found'', Some d')
           | (Some (Some channel), d') \<Rightarrow>
               (case accessLevel caller ''channel'' (c_ID channel) (c_OwnerTenantID channel) (c_Visibility channel) (Some d') of
                  (level, st') \<Rightarrow>
                    if \<not> GrantSatisfies level required then (denyResource caller ''channel'' level, st')
                    else (Granted channel, st'))))"

definition authorizeTrigger :: "Principal \<Rightarrow> string \<Rightarrow> string \<Rightarrow> 'a st \<Rightarrow> Trigger reply \<times> 'a st" where
  "authorizeTrigger caller triggerID required st =
     (case st of
        None \<Rightarrow> (Denied 503 ''store unavailable'', None)
      | Some d \<Rightarrow>
          (case GetTrigger triggerID d of
             (None, d') \<Rightarrow> (Denied 500 store_error, Some d')
           | (Some None, d') \<Rightarrow> (Denied 404 ''trigger not found'', Some d')
           | (Some (Some trigger), d') \<Rightarrow>
               (case accessLevel caller ''trigger'' (tg_ID trigger) (tg_OwnerTenantID trigger) [] (Some d') of
                  (level, st') \<Rightarrow>
                    if \<not> GrantSatisfies level required then (denyResource caller ''trigger'' level, st')
                    else (Granted trigger, st'))))"

text \<open>
  The provider service behind \<^verbatim>\<open>core.ProviderManager\<close> is an interface value: its lookup by id and its active
  routes, each of which may fail. Only the id of a provider matters here.
\<close>

record Provider =
  pr_ID :: string

record provider_service =
  ps_Get :: "string \<Rightarrow> Provider option option"
  ps_ActiveRoutes :: "(string \<times> string) list option"

definition authorizeProvider ::
  "provider_service option \<Rightarrow> Principal \<Rightarrow> string \<Rightarrow> string \<Rightarrow> 'a st \<Rightarrow> Provider reply \<times> 'a st" where
  "authorizeProvider ps caller providerID required st =
     (case (ps, st) of
        (Some p, Some d) \<Rightarrow>
          (case ps_Get p providerID of
             None \<Rightarrow> (Denied 500 store_error, st)
           | Some None \<Rightarrow> (Denied 404 ''provider not found'', st)
           | Some (Some provider) \<Rightarrow>
               if \<not> IsTenant (Some caller) then (Granted provider, st)
               else (case GrantLevelFor (p_TenantID caller) ''provider'' (pr_ID provider) d of
                  (None, d') \<Rightarrow> (Denied 500 store_error, Some d')
                | (Some level, d') \<Rightarrow>
                    if \<not> GrantSatisfies level required then (denyResource caller ''provider'' level, Some d')
                    else (Granted provider, Some d')))
      | _ \<Rightarrow> (Denied 503 ''provider service unavailable'', st))"

definition NormalizeProviderTool :: "string \<Rightarrow> string" where
  "NormalizeProviderTool tool0 =
     (let tool = trim_space tool0 in
      if tool \<in> set [''claude'', ''claudecode'', ''claudecode-cli'', ''claude-code-cli''] then ''claudecode''
      else if tool \<in> set [''claude-desktop'', ''claudecode-desktop'', ''claude-code-desktop''] then ''claude-desktop''
      else if tool \<in> set [''codex'', ''codex-cli'', ''codex-app'', ''codex-desktop'', ''codex-app-server''] then ''codex''
      else tool)"

definition agentProvider :: "provider_service option \<Rightarrow> AgentInstance \<Rightarrow> Provider option option" where
  "agentProvider ps a =
     (case ps of
        None \<Rightarrow> Some None
      | Some p \<Rightarrow>
          if a_ProviderID a \<noteq> [] then ps_Get p (a_ProviderID a)
          else (let tool = (if a_ProviderTool a = [] then a_RuntimeID a else a_ProviderTool a)
                in case ps_ActiveRoutes p of
                     None \<Rightarrow> None
                   | Some routes \<Rightarrow>
                       (case find (\<lambda>(t, _). t = tool) routes of
                          Some (_, pid) \<Rightarrow> ps_Get p pid
                        | None \<Rightarrow>
                            (case find (\<lambda>(t, _). NormalizeProviderTool t = NormalizeProviderTool tool) routes of
                               Some (_, pid) \<Rightarrow> ps_Get p pid
                             | None \<Rightarrow> Some None))))"

definition authorizeInvocationProvider ::
  "provider_service option \<Rightarrow> Principal \<Rightarrow> AgentInstance \<Rightarrow> 'a st \<Rightarrow> unit reply \<times> 'a st" where
  "authorizeInvocationProvider ps caller agent st =
     (if \<not> IsTenant (Some caller) \<or> ps = None then (Granted (), st)
      else (case agentProvider ps agent of
         None \<Rightarrow> (Denied 500 store_error, st)
       | Some None \<Rightarrow> (Granted (), st)
       | Some (Some provider) \<Rightarrow>
           (case authorizeProvider ps caller (pr_ID provider) ''use'' st of
              (Granted _, st') \<Rightarrow> (Granted (), st')
            | (Denied c m, st') \<Rightarrow> (Denied c m, st'))))"

definition authorizeInvocationTarget ::
  "provider_service option \<Rightarrow> Principal \<Rightarrow> string \<Rightarrow> 'a st \<Rightarrow> unit reply \<times> 'a st" where
  "authorizeInvocationTarget ps caller agentID0 st =
     (if \<not> IsTenant (Some caller) then (Granted (), st)
      else (let agentID = trim_space agentID0 in
        if agentID = [] then (Denied 400 ''agent_id is required'', st)
        else (case authorizeAgent caller agentID ''use'' st of
           (Denied c m, st') \<Rightarrow> (Denied c m, st')
         | (Granted agent, st') \<Rightarrow> authorizeInvocationProvider ps caller agent st')))"

text \<open>The same decision for the OpenAI-compatible layer, which hides every refusal behind one message.\<close>

definition model_not_found :: "'r reply" where
  "model_not_found = Denied 404 ''the requested model was not found''"

definition authorizeOpenAIInvocationTarget ::
  "provider_service option \<Rightarrow> Principal \<Rightarrow> string \<Rightarrow> 'a tenancy_db_scheme \<Rightarrow> unit reply \<times> 'a tenancy_db_scheme" where
  "authorizeOpenAIInvocationTarget ps caller agentID0 d =
     (if \<not> IsTenant (Some caller) then (Granted (), d)
      else (let agentID = trim_space agentID0 in
        if agentID = [] then (Denied 400 ''an agent target is required'', d)
        else (case GetAgentInstance agentID d of
           (None, d1) \<Rightarrow> (Denied 500 store_error, d1)
         | (Some None, d1) \<Rightarrow> (model_not_found, d1)
         | (Some (Some agent), d1) \<Rightarrow>
             (case accessLevel caller ''agent'' (a_ID agent) (a_OwnerTenantID agent) (a_Visibility agent) (Some d1) of
                (level, st2) \<Rightarrow>
                  (let d2 = the st2 in
                   if \<not> GrantSatisfies level ''use'' then (model_not_found, d2)
                   else (case ps of
                      None \<Rightarrow> (Granted (), d2)
                    | Some p \<Rightarrow>
                        (case agentProvider ps agent of
                           None \<Rightarrow> (Denied 500 store_error, d2)
                         | Some None \<Rightarrow> (Granted (), d2)
                         | Some (Some provider) \<Rightarrow>
                             (case GrantLevelFor (p_TenantID caller) ''provider'' (pr_ID provider) d2 of
                                (None, d3) \<Rightarrow> (Denied 500 store_error, d3)
                              | (Some providerLevel, d3) \<Rightarrow>
                                  if \<not> GrantSatisfies providerLevel ''use'' then (model_not_found, d3)
                                  else (Granted (), d3)))))))))"

definition stampAgentOwnership :: "Principal \<Rightarrow> AgentInstance \<Rightarrow> AgentInstance option \<Rightarrow> AgentInstance" where
  "stampAgentOwnership caller agent existing =
     (if IsTenant (Some caller) then
        agent\<lparr>a_OwnerTenantID := p_TenantID caller,
              a_Visibility := (case existing of Some e \<Rightarrow> a_Visibility e | None \<Rightarrow> ''private'')\<rparr>
      else agent\<lparr>a_OwnerTenantID := (case existing of
                    Some e \<Rightarrow> if trim_space (a_OwnerTenantID agent) = [] then a_OwnerTenantID e else a_OwnerTenantID agent
                  | None \<Rightarrow> a_OwnerTenantID agent),
                 a_Visibility := NormalizeVisibility (a_Visibility agent)\<rparr>)"

definition stampChannelOwnership :: "Principal \<Rightarrow> Channel \<Rightarrow> Channel option \<Rightarrow> Channel" where
  "stampChannelOwnership caller channel existing =
     (if IsTenant (Some caller) then
        channel\<lparr>c_OwnerTenantID := p_TenantID caller,
                c_Visibility := (case existing of Some e \<Rightarrow> c_Visibility e | None \<Rightarrow> ''private'')\<rparr>
      else channel\<lparr>c_OwnerTenantID := (case existing of
                    Some e \<Rightarrow> if trim_space (c_OwnerTenantID channel) = [] then c_OwnerTenantID e else c_OwnerTenantID channel
                  | None \<Rightarrow> c_OwnerTenantID channel),
                 c_Visibility := NormalizeVisibility (c_Visibility channel)\<rparr>)"

definition label_owner :: "(string \<rightharpoonup> string) \<Rightarrow> string \<Rightarrow> string \<Rightarrow> string" where
  "label_owner names owner old = (if owner \<noteq> [] then (case names owner of None \<Rightarrow> [] | Some n \<Rightarrow> n) else old)"

definition labelAgentOwners :: "AgentInstance list \<Rightarrow> 'a st \<Rightarrow> AgentInstance list \<times> 'a st" where
  "labelAgentOwners items st =
     (case st of
        None \<Rightarrow> (items, st)
      | Some d \<Rightarrow>
          if items = [] then (items, st)
          else (case TenantNames d of
             (None, d') \<Rightarrow> (items, Some d')
           | (Some names, d') \<Rightarrow>
               if tenants d = [] then (items, Some d')
               else (map (\<lambda>a. a\<lparr>a_OwnerTenantName := label_owner names (a_OwnerTenantID a) (a_OwnerTenantName a)\<rparr>) items, Some d')))"

definition labelChannelOwners :: "Channel list \<Rightarrow> 'a st \<Rightarrow> Channel list \<times> 'a st" where
  "labelChannelOwners items st =
     (case st of
        None \<Rightarrow> (items, st)
      | Some d \<Rightarrow>
          if items = [] then (items, st)
          else (case TenantNames d of
             (None, d') \<Rightarrow> (items, Some d')
           | (Some names, d') \<Rightarrow>
               if tenants d = [] then (items, Some d')
               else (map (\<lambda>c. c\<lparr>c_OwnerTenantName := label_owner names (c_OwnerTenantID c) (c_OwnerTenantName c)\<rparr>) items, Some d')))"

text \<open>\<open>Some None\<close> is the nil map returned for an unscoped caller.\<close>

definition visibleAgentIDs :: "Principal \<Rightarrow> 'a st \<Rightarrow> string set option option \<times> 'a st" where
  "visibleAgentIDs caller st =
     (if \<not> IsTenant (Some caller) then (Some None, st)
      else (case st of
         None \<Rightarrow> (Some None, st)
       | Some d \<Rightarrow>
           (case ListAgentInstancesForTenant (p_TenantID caller) d of
              (None, d') \<Rightarrow> (None, Some d')
            | (Some agents, d') \<Rightarrow> (Some (Some (a_ID ` set agents)), Some d'))))"

text \<open>
  The part of \<open>handleAgentInstanceUpsert\<close> that decides and writes: the provider check, the check on an
  existing agent, \<open>prepare\<close> (\<open>normalizeAgentInstance\<close>, the validation of the runtime fields, which may refuse and may choose an id), the
  ownership stamp and the write.
\<close>

definition handleAgentInstanceUpsert ::
  "provider_service option \<Rightarrow> (AgentInstance \<Rightarrow> AgentInstance option) \<Rightarrow> Principal \<Rightarrow> AgentInstance \<Rightarrow> 'a st \<Rightarrow>
   AgentInstance reply \<times> 'a st" where
  "handleAgentInstanceUpsert ps prepare caller a st =
     (case st of
        None \<Rightarrow> (Denied 503 ''store unavailable'', None)
      | Some d \<Rightarrow>
          (let providerID = trim_space (a_ProviderID a);
               (pr, st1) = (if IsTenant (Some caller) \<and> providerID \<noteq> []
                            then authorizeProvider ps caller providerID ''use'' st
                            else (Granted \<lparr>pr_ID = []\<rparr>, st))
           in case pr of
                Denied c m \<Rightarrow> (Denied c m, st1)
              | Granted _ \<Rightarrow>
                  (let i = trim_space (a_ID a);
                       (existing, st2) = (if i = [] then (Some None, st1)
                          else (case GetAgentInstance i (the st1) of (q, d') \<Rightarrow> (q, Some d')))
                   in case existing of
                        None \<Rightarrow> (Denied 500 store_error, st2)
                      | Some found \<Rightarrow>
                          (let (au, st3) = (case found of None \<Rightarrow> (Granted a, st2)
                                            | Some _ \<Rightarrow> authorizeAgent caller i ''manage'' st2)
                           in case au of
                                Denied c m \<Rightarrow> (Denied c m, st3)
                              | Granted _ \<Rightarrow>
                                  (case prepare a of
                                     None \<Rightarrow> (Denied 400 ''invalid agent'', st3)
                                   | Some a' \<Rightarrow>
                                       (let a'' = stampAgentOwnership caller a' found
                                        in case UpsertAgentInstance a'' (the st3) of
                                             (False, d') \<Rightarrow> (Denied 500 store_error, Some d')
                                           | (True, d') \<Rightarrow> (Granted a'', Some d')))))))"

end
