(* ===== verification/Auth.thy ===== *)
theory Auth
  imports Access
begin

text \<open>
  Route policy, console sessions, principal resolution and the middleware: server/route_manifest.go,
  server/tenancy_auth.go, server/console_session.go and \<open>withAuth\<close> of server/server.go.
\<close>

section \<open>Routes open to tenants\<close>

record PublicRouteSpec =
  ro_Method :: string
  ro_Path :: string
  ro_Stability :: string
  ro_Tenant :: bool

definition consoleSessionEndpoint :: string where "consoleSessionEndpoint = ''/api/v1/console/sessions''"
definition consoleEnterPath :: string where "consoleEnterPath = ''/console/enter''"

definition route :: "string \<Rightarrow> string \<Rightarrow> string \<Rightarrow> bool \<Rightarrow> PublicRouteSpec" where
  "route meth path stability tenant = \<lparr>ro_Method = meth, ro_Path = path, ro_Stability = stability, ro_Tenant = tenant\<rparr>"

definition publicRouteManifest :: "PublicRouteSpec list" where
  "publicRouteManifest =
    [route ''GET'' ''/api/v1/event-sources'' ''beta'' True,
     route ''GET'' ''/api/v1/event-subscriptions'' ''beta'' True,
     route ''POST'' ''/api/v1/event-subscriptions'' ''beta'' True,
     route ''DELETE'' ''/api/v1/event-subscriptions'' ''beta'' True,
     route ''POST'' ''/api/v1/event-subscriptions/test'' ''beta'' True,
     route ''POST'' ''/api/v1/event-subscriptions/rotate-secret'' ''beta'' True,
     route ''GET'' ''/api/v1/event-deliveries'' ''beta'' True,
     route ''POST'' ''/api/v1/event-deliveries/retry'' ''beta'' True,
     route ''GET'' ''/api/v1/capabilities'' ''stable'' True,
     route ''GET'' ''/api/v1/status'' ''stable'' True,
     route ''POST'' ''/api/v1/tenancy/register'' ''stable'' False,
     route ''GET'' ''/api/v1/tenancy/self'' ''stable'' True,
     route ''POST'' ''/api/v1/invocations'' ''stable'' True,
     route ''POST'' ''/api/v1/invocations/stream'' ''stable'' True,
     route ''POST'' ''/api/v1/send'' ''stable'' True,
     route ''GET'' ''/api/v1/agent-instances'' ''stable'' True,
     route ''POST'' ''/api/v1/agent-instances'' ''stable'' True,
     route ''DELETE'' ''/api/v1/agent-instances'' ''stable'' True,
     route ''GET'' ''/api/v1/channels'' ''stable'' True,
     route ''POST'' ''/api/v1/channels'' ''stable'' True,
     route ''DELETE'' ''/api/v1/channels'' ''stable'' True,
     route ''POST'' consoleSessionEndpoint ''stable'' True,
     route ''GET'' consoleEnterPath ''stable'' False,
     route ''GET'' ''/api/v1/orchestrations'' ''beta'' True,
     route ''POST'' ''/api/v1/orchestrations'' ''beta'' True,
     route ''POST'' ''/api/v1/orchestrations/cancel'' ''beta'' True,
     route ''GET'' ''/api/v1/triggers'' ''beta'' True,
     route ''POST'' ''/api/v1/triggers'' ''beta'' True,
     route ''DELETE'' ''/api/v1/triggers'' ''beta'' True,
     route ''POST'' ''/api/v1/triggers/run'' ''beta'' True,
     route ''GET'' ''/api/v1/usage'' ''beta'' True]"

text \<open>\<^verbatim>\<open>policy[path] = append(policy[path], ...)\<close>\<close>

definition policy_add :: "string \<Rightarrow> string list \<Rightarrow> (string \<rightharpoonup> string list) \<Rightarrow> (string \<rightharpoonup> string list)" where
  "policy_add path methods policy = policy(path \<mapsto> (case policy path of None \<Rightarrow> [] | Some ms \<Rightarrow> ms) @ methods)"

definition publicTenantRoutePolicy :: "string \<rightharpoonup> string list" where
  "publicTenantRoutePolicy =
     fold (\<lambda>r policy. if \<not> ro_Tenant r then policy else policy_add (ro_Path r) [ro_Method r] policy)
       publicRouteManifest Map.empty"

definition tenantConsoleRoutePolicy :: "(string \<times> string list) list" where
  "tenantConsoleRoutePolicy =
    [(''/api/v1/platforms'', [''GET'']),
     (''/api/v1/agents'', [''GET'']),
     (''/api/v1/agent-instances/initialize'', [''POST'']),
     (''/api/v1/channels/validate'', [''POST'']),
     (''/api/v1/channels/restart'', [''POST'']),
     (''/api/v1/channel-avatar'', [''GET'']),
     (''/api/v1/setup/feishu/begin'', [''POST'']),
     (''/api/v1/setup/feishu/poll'', [''POST'']),
     (''/api/v1/setup/feishu/automation/begin'', [''POST'']),
     (''/api/v1/setup/feishu/automation/poll'', [''POST'']),
     (''/api/v1/setup/feishu/automation/configure'', [''POST'']),
     (''/api/v1/providers'', [''GET'']),
     (''/api/v1/providers/active'', [''GET'']),
     (''/api/v1/tools'', [''GET'']),
     (''/api/v1/frameworks'', [''GET'']),
     (''/api/v1/frameworks/runtime-settings'', [''GET''])]"

definition tenantRoutePolicy :: "string \<rightharpoonup> string list" where
  "tenantRoutePolicy = fold (\<lambda>(path, methods). policy_add path methods) tenantConsoleRoutePolicy publicTenantRoutePolicy"

definition tenantRouteAllowed :: "string \<Rightarrow> string \<Rightarrow> bool" where
  "tenantRouteAllowed meth path =
     (if has_prefix path ''/v1/'' then True
      else (case tenantRoutePolicy path of
         None \<Rightarrow> False
       | Some methods \<Rightarrow> if methods = [] then True else meth \<in> set methods))"

section \<open>Console sessions\<close>

definition consoleNonceTTL :: int where "consoleNonceTTL = 60 * second_ns"
definition consoleSessionTTL :: int where "consoleSessionTTL = 8 * hour_ns"

record consoleGrant =
  cg_expiry :: gotime
  cg_principal :: "Principal option"

text \<open>Both maps are association lists with one entry per key. The clock is read once per critical section.\<close>

record consoleSessionManager =
  cs_nonces :: "(string \<times> consoleGrant) list"
  cs_sessions :: "(string \<times> consoleGrant) list"

definition map_put :: "string \<Rightarrow> 'v \<Rightarrow> (string \<times> 'v) list \<Rightarrow> (string \<times> 'v) list" where
  "map_put k v xs = (k, v) # filter (\<lambda>(j, _). j \<noteq> k) xs"

definition map_drop :: "string \<Rightarrow> (string \<times> 'v) list \<Rightarrow> (string \<times> 'v) list" where
  "map_drop k xs = filter (\<lambda>(j, _). j \<noteq> k) xs"

definition prune :: "gotime \<Rightarrow> consoleSessionManager \<Rightarrow> consoleSessionManager" where
  "prune now m = m\<lparr>cs_nonces := filter (\<lambda>(_, g). \<not> now > cg_expiry g) (cs_nonces m),
                   cs_sessions := filter (\<lambda>(_, g). \<not> now > cg_expiry g) (cs_sessions m)\<rparr>"

definition issueNonce :: "gotime \<Rightarrow> string \<Rightarrow> Principal option \<Rightarrow> consoleSessionManager \<Rightarrow>
    (string \<times> gotime) \<times> consoleSessionManager" where
  "issueNonce now nonce pal m =
     (let m1 = prune now m; expiry = now + consoleNonceTTL
      in ((nonce, expiry), m1\<lparr>cs_nonces := map_put nonce \<lparr>cg_expiry = expiry, cg_principal = pal\<rparr> (cs_nonces m1)\<rparr>))"

definition consumeNonce :: "gotime \<Rightarrow> string \<Rightarrow> string \<Rightarrow> consoleSessionManager \<Rightarrow>
    string option \<times> consoleSessionManager" where
  "consumeNonce now session nonce m =
     (let m1 = prune now m;
          m2 = m1\<lparr>cs_nonces := map_drop nonce (cs_nonces m1)\<rparr>
      in case map_of (cs_nonces m1) nonce of
           None \<Rightarrow> (None, m2)
         | Some g \<Rightarrow>
             if now > cg_expiry g then (None, m2)
             else (Some session, m2\<lparr>cs_sessions := map_put session
                    \<lparr>cg_expiry = now + consoleSessionTTL, cg_principal = cg_principal g\<rparr> (cs_sessions m2)\<rparr>))"

definition sessionPrincipal :: "gotime \<Rightarrow> string \<Rightarrow> consoleSessionManager \<Rightarrow> Principal option \<times> consoleSessionManager" where
  "sessionPrincipal now token m =
     (if token = [] then (None, m)
      else (let m1 = prune now m
            in case map_of (cs_sessions m1) token of
                 None \<Rightarrow> (None, m1)
               | Some g \<Rightarrow>
                   if \<not> now < cg_expiry g then (None, m1)
                   else (case cg_principal g of None \<Rightarrow> (Some AdminPrincipal, m1) | Some p \<Rightarrow> (Some p, m1))))"

section \<open>Principals\<close>

text \<open>The parts of a request the decisions read; a missing header is the empty string.\<close>

record request =
  rq_Method :: string
  rq_Path :: string
  rq_Authorization :: string
  rq_ConsoleCookie :: "string option"
  rq_ConsoleHeader :: string
  rq_SecFetchSite :: string
  rq_TenantScope :: string

record 'd server =
  sr_BridgeEnabled :: bool
  sr_BridgeToken :: string
  sr_st :: "'d option"
  sr_sessions :: consoleSessionManager

type_synonym 'a srv = "'a tenancy_db_scheme server"

definition lower_char :: "char \<Rightarrow> char" where
  "lower_char c = (if in_bytes 65 90 c then char_of (byte_of c + 32) else c)"

text \<open>\<^verbatim>\<open>EqualFold\<close> with a prefix of ASCII letters that have no further case variants.\<close>

definition bearerToken :: "string \<Rightarrow> string option" where
  "bearerToken header =
     (if length header \<le> 7 \<or> map lower_char (take 7 header) \<noteq> ''bearer '' then None
      else Some (trim_space (drop 7 header)))"

definition consoleSessionPrincipal :: "gotime \<Rightarrow> request \<Rightarrow> 'd server \<Rightarrow> Principal option \<times> 'd server" where
  "consoleSessionPrincipal now r s =
     (case rq_ConsoleCookie r of
        None \<Rightarrow> (None, s)
      | Some cookie \<Rightarrow>
          (case sessionPrincipal now cookie (sr_sessions s) of
             (None, m) \<Rightarrow> (None, s\<lparr>sr_sessions := m\<rparr>)
           | (Some p, m) \<Rightarrow>
               if rq_ConsoleHeader r = [] \<and> rq_SecFetchSite r \<noteq> ''same-origin'' then (None, s\<lparr>sr_sessions := m\<rparr>)
               else (Some p, s\<lparr>sr_sessions := m\<rparr>)))"

definition tenant_principal :: "Tenant \<Rightarrow> Principal" where
  "tenant_principal t = \<lparr>p_Admin = False, p_TenantID = tn_ID t, p_TenantName = tn_Name t\<rparr>"

definition resolvePrincipal :: "(string \<Rightarrow> string) \<Rightarrow> gotime \<Rightarrow> request \<Rightarrow> 'a srv \<Rightarrow> Principal option \<times> 'a srv" where
  "resolvePrincipal hash now r s =
     (case bearerToken (trim_space (rq_Authorization r)) of
        Some token \<Rightarrow>
          (if sr_BridgeToken s \<noteq> [] \<and> token = sr_BridgeToken s then (Some AdminPrincipal, s)
           else (case sr_st s of
             None \<Rightarrow> (None, s)
           | Some d \<Rightarrow>
               (case AuthenticateTenantToken hash now token d of
                  (Inl _, d') \<Rightarrow> (None, s\<lparr>sr_st := Some d'\<rparr>)
                | (Inr None, d') \<Rightarrow> (None, s\<lparr>sr_st := Some d'\<rparr>)
                | (Inr (Some t), d') \<Rightarrow> (Some (tenant_principal t), s\<lparr>sr_st := Some d'\<rparr>))))
      | None \<Rightarrow> consoleSessionPrincipal now r s)"

text \<open>\<open>Inl\<close> is an error, which the caller answers with 403.\<close>

definition applyAdminTenantScope :: "request \<Rightarrow> Principal option \<Rightarrow> 'a srv \<Rightarrow> (string + Principal option) \<times> 'a srv" where
  "applyAdminTenantScope r pal s =
     (case pal of
        None \<Rightarrow> (Inr None, s)
      | Some p \<Rightarrow>
          if \<not> p_Admin p then (Inr pal, s)
          else (let tenantID = trim_space (rq_TenantScope r) in
            if tenantID = [] then (Inr pal, s)
            else (case sr_st s of
               None \<Rightarrow> (Inl ''tenant scope is unavailable'', s)
             | Some d \<Rightarrow>
                 (case GetTenant tenantID d of
                    (None, d') \<Rightarrow> (Inl store_error, s\<lparr>sr_st := Some d'\<rparr>)
                  | (Some None, d') \<Rightarrow> (Inl ''unknown tenant scope'', s\<lparr>sr_st := Some d'\<rparr>)
                  | (Some (Some t), d') \<Rightarrow>
                      if tn_Status t = ''disabled'' then (Inl ''tenant is disabled'', s\<lparr>sr_st := Some d'\<rparr>)
                      else (Inr (Some (tenant_principal t)), s\<lparr>sr_st := Some d'\<rparr>)))))"

section \<open>The middleware\<close>

definition isObservabilityPath :: "string \<Rightarrow> bool" where
  "isObservabilityPath path \<longleftrightarrow> has_prefix path ''/api/v1/observability/'' \<or> path = ''/api/v1/observability''"

definition isBridgeAPIPath :: "string \<Rightarrow> bool" where
  "isBridgeAPIPath path \<longleftrightarrow> has_prefix path ''/api/'' \<or> has_prefix path ''/v1/''"

definition isSelfAuthenticatingPath :: "string \<Rightarrow> bool" where
  "isSelfAuthenticatingPath path \<longleftrightarrow> path = ''/api/v1/tenancy/register''"

definition isRemoteProxyPath :: "string \<Rightarrow> bool" where
  "isRemoteProxyPath path \<longleftrightarrow> has_prefix path ''/api/v1/remote/proxy/''"

definition hasExplicitCredential :: "request \<Rightarrow> bool" where
  "hasExplicitCredential r \<longleftrightarrow> trim_space (rq_Authorization r) \<noteq> [] \<or> rq_ConsoleCookie r \<noteq> None"

text \<open>
  What the middleware does with a request: refuse it with a status, answer a preflight, hand it to the
  observability credential check, or serve it, with the principal put in its context if there is one.
\<close>

datatype auth_outcome = Refuse nat | Preflight | Observe | Serve "Principal option"

definition withAuth :: "(string \<Rightarrow> string) \<Rightarrow> gotime \<Rightarrow> request \<Rightarrow> 'a srv \<Rightarrow> auth_outcome \<times> 'a srv" where
  "withAuth hash now r s =
     (if isObservabilityPath (rq_Path r) then
        (if rq_Method r = ''OPTIONS'' then (Preflight, s)
         else (case resolvePrincipal hash now r s of (p1, s1) \<Rightarrow>
           (case applyAdminTenantScope r p1 s1 of
              (Inl e, s2) \<Rightarrow> (Refuse 403, s2)
            | (Inr p2, s2) \<Rightarrow> if IsTenant p2 then (Refuse 403, s2) else (Observe, s2))))
      else if isBridgeAPIPath (rq_Path r) \<and> rq_Method r = ''OPTIONS'' then (Preflight, s)
      else if isBridgeAPIPath (rq_Path r) \<and> \<not> isSelfAuthenticatingPath (rq_Path r) \<and>
              (sr_BridgeEnabled s \<or> hasExplicitCredential r) then
        (case resolvePrincipal hash now r s of
           (None, s1) \<Rightarrow> (Refuse 401, s1)
         | (Some p1, s1) \<Rightarrow>
             (case (if isRemoteProxyPath (rq_Path r) then (Inr (Some p1), s1)
                    else applyAdminTenantScope r (Some p1) s1) of
                (Inl e, s2) \<Rightarrow> (Refuse 403, s2)
              | (Inr p2, s2) \<Rightarrow>
                  if IsTenant p2 \<and> \<not> tenantRouteAllowed (rq_Method r) (rq_Path r) then (Refuse 403, s2)
                  else (Serve p2, s2)))
      else (Serve None, s))"

text \<open>What a handler sees: without a principal in the context the caller counts as the administrator.\<close>

definition principalFrom :: "Principal option \<Rightarrow> Principal" where
  "principalFrom ctx = (case ctx of Some p \<Rightarrow> p | None \<Rightarrow> AdminPrincipal)"

section \<open>Entering the console\<close>

fun landing_chars :: "nat \<Rightarrow> string \<Rightarrow> bool" where
  "landing_chars i [] = True"
| "landing_chars i (c # cs) =
     ((in_bytes 97 122 c \<or> (i > 0 \<and> in_bytes 48 57 c) \<or> (i > 0 \<and> c = CHR ''-'')) \<and> landing_chars (Suc i) cs)"

definition normalizeConsoleLanding :: "string \<Rightarrow> string option" where
  "normalizeConsoleLanding value0 =
     (let value = trim_space value0 in
      if value = [] then Some []
      else if length value > 48 then None
      else if landing_chars 0 value then Some value else None)"

definition handleConsoleSessionCreate ::
  "(string \<Rightarrow> string) \<Rightarrow> gotime \<Rightarrow> string \<Rightarrow> string \<Rightarrow> request \<Rightarrow> 'a srv \<Rightarrow> (string \<times> string \<times> gotime) reply \<times> 'a srv" where
  "handleConsoleSessionCreate hash now nonce landing0 r s =
     (case bearerToken (trim_space (rq_Authorization r)) of
        None \<Rightarrow> (Denied 401 ''console sessions require a bearer token'', s)
      | Some token \<Rightarrow>
          (let (pal, s1) =
             (if sr_BridgeToken s = [] \<or> token \<noteq> sr_BridgeToken s then
                (case sr_st s of
                   None \<Rightarrow> (None, s)
                 | Some d \<Rightarrow>
                     (case AuthenticateTenantToken hash now token d of
                        (Inr (Some t), d') \<Rightarrow> (Some (tenant_principal t), s\<lparr>sr_st := Some d'\<rparr>)
                      | (_, d') \<Rightarrow> (None, s\<lparr>sr_st := Some d'\<rparr>)))
              else (Some AdminPrincipal, s))
           in case pal of
                None \<Rightarrow> (Denied 401 ''console sessions require the bridge or a tenant bearer token'', s1)
              | Some p \<Rightarrow>
                  (case normalizeConsoleLanding landing0 of
                     None \<Rightarrow> (Denied 400 ''invalid console landing page'', s1)
                   | Some landing \<Rightarrow>
                       (case issueNonce now nonce (Some p) (sr_sessions s1) of
                          ((n, expiry), m) \<Rightarrow> (Granted (n, landing, expiry), s1\<lparr>sr_sessions := m\<rparr>)))))"

text \<open>On success the session cookie and the page the browser is sent to.\<close>

definition handleConsoleEnter :: "gotime \<Rightarrow> string \<Rightarrow> string \<Rightarrow> string \<Rightarrow> 'd server \<Rightarrow> (string \<times> string) reply \<times> 'd server" where
  "handleConsoleEnter now session landing0 nonce s =
     (case normalizeConsoleLanding landing0 of
        None \<Rightarrow> (Denied 400 ''invalid console landing page'', s)
      | Some landing \<Rightarrow>
          (case consumeNonce now session (trim_space nonce) (sr_sessions s) of
             (None, m) \<Rightarrow> (Denied 401 ''invalid or expired console entry link'', s\<lparr>sr_sessions := m\<rparr>)
           | (Some token, m) \<Rightarrow>
               (Granted (token, if landing \<noteq> [] then ''/#'' @ landing else ''/''), s\<lparr>sr_sessions := m\<rparr>)))"

section \<open>Access on a working store\<close>

lemma GrantLevelFor_healthy [tenant_simps]:
  "healthy d \<Longrightarrow> GrantLevelFor t ty r d = (Some (grant_level t ty r d), d\<lparr>tick := Suc (tick d)\<rparr>)"
  by (simp add: GrantLevelFor_def sql_query_healthy grant_level_def)

lemma granted_tick [simp]: "granted t ty r (d\<lparr>tick := n\<rparr>) = granted t ty r d"
  by (simp add: granted_def)

lemma grant_level_tick [simp]: "grant_level t ty r (d\<lparr>tick := n\<rparr>) = grant_level t ty r d"
  by (simp add: grant_level_def)

lemma healthy_Suc_tick [simp]: "fault (d\<lparr>tick := n\<rparr>) = fault d"
  by simp

text \<open>What a caller may do: the contract behind all four resource types.\<close>

definition may :: "Principal \<Rightarrow> string \<Rightarrow> string \<Rightarrow> string \<Rightarrow> string \<Rightarrow> string \<Rightarrow> 'a tenancy_db_scheme \<Rightarrow> bool" where
  "may p ty rid owner vis required d \<longleftrightarrow> 0 < rank_of required \<and>
     (\<not> IsTenant (Some p) \<or> owned_by owner (p_TenantID p) \<or>
      vis = ''public'' \<and> rank_of required \<le> 2 \<or>
      rank_of required \<le> rank_of (grant_level (p_TenantID p) ty rid d))"

lemma rank_of_le: "rank_of l \<le> 3"
  by (simp add: rank_of_def grantRank_cases)

lemma accessLevel_may:
  assumes "healthy d"
  shows "GrantSatisfies (fst (accessLevel p ty rid owner vis (Some d))) required \<longleftrightarrow> may p ty rid owner vis required d"
  using assms rank_of_le [of required]
  by (auto simp: accessLevel_def GrantLevelFor_healthy Let_def GrantSatisfies_rank may_def owned_by_def)

lemma rank_pos_not_Nil: "0 < rank_of l \<Longrightarrow> l \<noteq> []"
  by auto

lemma accessLevel_none:
  assumes "healthy d" and "levels_valid d" and "IsTenant (Some p)"
    and "\<not> may p ty rid owner vis ''read'' d"
  shows "fst (accessLevel p ty rid owner vis (Some d)) = []"
proof -
  have g: "rank_of (grant_level (p_TenantID p) ty rid d) = 0" and o: "\<not> owned_by owner (p_TenantID p)"
    and v: "vis \<noteq> ''public''"
    using assms(3,4) by (auto simp: may_def)
  have "grant_level (p_TenantID p) ty rid d = []"
  proof -
    have "\<not> granted (p_TenantID p) ty rid d" using g grant_level_granted [OF assms(2)] by simp
    then have "find (\<lambda>g. rg_TenantID g = p_TenantID p \<and> rg_ResourceType g = ty \<and> rg_ResourceID g = rid) (resource_grants d) = None"
      by (auto simp: granted_def list_ex_iff find_None_iff')
    then show ?thesis by (simp add: grant_level_def)
  qed
  then show ?thesis
    using assms(1,3) o v
    by (auto simp: accessLevel_def GrantLevelFor_healthy Let_def owned_by_def StrongerGrant_def)
qed

lemma authorizeAgent_healthy:
  assumes "healthy d" and "\<not> has_prefix i ''config:''"
  shows "fst (authorizeAgent p i required (Some d)) =
     (case table_find a_ID i (agent_instances d) of
        None \<Rightarrow> Denied 404 ''agent not found''
      | Some a \<Rightarrow>
          if may p ''agent'' i (a_OwnerTenantID a) (a_Visibility a) required d then Granted a
          else denyResource p ''agent'' (fst (accessLevel p ''agent'' i (a_OwnerTenantID a) (a_Visibility a) (Some d))))"
proof (cases "table_find a_ID i (agent_instances d)")
  case None
  then show ?thesis
    using assms by (simp add: authorizeAgent_def GetAgentInstance_def sql_query_healthy)
next
  case (Some a)
  let ?d = "d\<lparr>tick := Suc (tick d)\<rparr>"
  let ?l = "accessLevel p ''agent'' i (a_OwnerTenantID a) (a_Visibility a)"
  have i: "a_ID a = i" using find_Some_in [OF Some [unfolded table_find_def]] by simp
  have "fst (?l (Some ?d)) = fst (?l (Some d))"
    using assms(1) by (simp add: accessLevel_def GrantLevelFor_healthy Let_def)
  then show ?thesis
    using assms Some i accessLevel_may [OF assms(1), of p "''agent''" i "a_OwnerTenantID a" "a_Visibility a" required]
    by (simp add: authorizeAgent_def GetAgentInstance_def sql_query_healthy case_prod_beta)
qed

section \<open>Tokens, routes and sessions\<close>

lemma AuthenticateTenantToken_healthy:
  assumes "healthy d" and "trim_space secret \<noteq> []" and "has_prefix (trim_space secret) tenantTokenPrefix"
  shows "fst (AuthenticateTenantToken hash now secret d) =
     (case find (\<lambda>(h, t). h = hash (trim_space secret)) (tenant_tokens d) of
        None \<Rightarrow> Inr None
      | Some (h, token) \<Rightarrow>
          if tk_RevokedAt token \<noteq> None then Inr None
          else if (case tk_ExpiresAt token of None \<Rightarrow> False | Some e \<Rightarrow> now > e) then Inr None
          else if \<not> Active (table_find tn_ID (tk_TenantID token) (tenants d)) then Inr None
          else Inr (table_find tn_ID (tk_TenantID token) (tenants d)))"
  using assms
  by (simp add: AuthenticateTenantToken_def Let_def sql_query_healthy GetTenant_def case_prod_beta split: option.splits)

text \<open>Adding one path to the policy.\<close>

lemma policy_add_allows:
  "(case policy_add p ms pol q of None \<Rightarrow> False | Some ns \<Rightarrow> m \<in> set ns) \<longleftrightarrow>
     (case pol q of None \<Rightarrow> False | Some ns \<Rightarrow> m \<in> set ns) \<or> p = q \<and> m \<in> set ms"
  by (auto simp: policy_add_def split: option.splits)

definition allows :: "(string \<rightharpoonup> string list) \<Rightarrow> string \<Rightarrow> string \<Rightarrow> bool" where
  "allows pol q m \<longleftrightarrow> (case pol q of None \<Rightarrow> False | Some ns \<Rightarrow> m \<in> set ns)"

lemma public_policy_allows:
  "allows (fold (\<lambda>r policy. if \<not> ro_Tenant r then policy else policy_add (ro_Path r) [ro_Method r] policy) rs pol) q m \<longleftrightarrow>
     allows pol q m \<or> (\<exists>r\<in>set rs. ro_Tenant r \<and> ro_Path r = q \<and> ro_Method r = m)"
  by (induction rs arbitrary: pol) (auto simp: allows_def policy_add_allows)

lemma console_policy_allows:
  "allows (fold (\<lambda>(path, methods). policy_add path methods) cs pol) q m \<longleftrightarrow>
     allows pol q m \<or> (\<exists>(path, methods)\<in>set cs. path = q \<and> m \<in> set methods)"
  by (induction cs arbitrary: pol) (auto simp: allows_def policy_add_allows)

text \<open>No path has an empty list of methods, which would open it to every method.\<close>

definition no_wildcard :: "(string \<rightharpoonup> string list) \<Rightarrow> bool" where
  "no_wildcard pol \<longleftrightarrow> (\<forall>q. pol q \<noteq> Some [])"

lemma policy_add_no_wildcard: "no_wildcard pol \<Longrightarrow> ms \<noteq> [] \<Longrightarrow> no_wildcard (policy_add p ms pol)"
  by (simp add: no_wildcard_def policy_add_def)

lemma console_no_wildcard:
  "no_wildcard pol \<Longrightarrow> \<forall>(path, methods)\<in>set cs. methods \<noteq> [] \<Longrightarrow>
   no_wildcard (fold (\<lambda>(path, methods). policy_add path methods) cs pol)"
  by (induction cs arbitrary: pol) (auto simp: policy_add_no_wildcard)

lemma public_no_wildcard:
  "no_wildcard pol \<Longrightarrow>
   no_wildcard (fold (\<lambda>r policy. if \<not> ro_Tenant r then policy else policy_add (ro_Path r) [ro_Method r] policy) rs pol)"
  by (induction rs arbitrary: pol) (auto simp: policy_add_no_wildcard)

text \<open>The operations on the session manager, as requests arrive.\<close>

datatype session_op =
  Issue gotime string "Principal option"
| Consume gotime string string
| Look gotime string

fun do_session_op :: "session_op \<Rightarrow> consoleSessionManager \<Rightarrow> consoleSessionManager" where
  "do_session_op (Issue now nonce p) m = snd (issueNonce now nonce p m)"
| "do_session_op (Consume now session nonce) m = snd (consumeNonce now session nonce m)"
| "do_session_op (Look now token) m = snd (sessionPrincipal now token m)"

lemma map_of_put: "map_of (map_put k v xs) j = (if j = k then Some v else map_of xs j)"
  by (induction xs) (auto simp: map_put_def)

lemma map_of_drop: "map_of (map_drop k xs) j = (if j = k then None else map_of xs j)"
  by (induction xs) (auto simp: map_drop_def)

lemma map_of_pruned: "map_of xs j = None \<Longrightarrow> map_of (filter P xs) j = None"
  by (induction xs) (auto split: if_splits)

lemma nonce_stays_gone:
  "map_of (cs_nonces m) n = None \<Longrightarrow> \<forall>t p. op \<noteq> Issue t n p \<Longrightarrow> map_of (cs_nonces (do_session_op op m)) n = None"
  by (cases op)
     (auto simp: issueNonce_def consumeNonce_def sessionPrincipal_def Let_def prune_def map_of_put map_of_drop map_of_pruned
       split: option.splits)

lemma nonces_stay_gone:
  "map_of (cs_nonces m) n = None \<Longrightarrow> \<forall>op\<in>set ops. \<forall>t p. op \<noteq> Issue t n p \<Longrightarrow>
   map_of (cs_nonces (fold do_session_op ops m)) n = None"
  by (induction ops arbitrary: m) (auto simp: nonce_stays_gone)

lemma consume_removes: "map_of (cs_nonces (snd (consumeNonce now session n m))) n = None"
  by (auto simp: consumeNonce_def Let_def map_of_drop split: option.splits)

lemma consume_unknown: "map_of (cs_nonces m) n = None \<Longrightarrow> fst (consumeNonce now session n m) = None"
  by (simp add: consumeNonce_def Let_def prune_def map_of_pruned)

lemma resolve_served:
  assumes "resolvePrincipal hash now r s = (Some p, s')"
  shows "p = AdminPrincipal \<and> bearerToken (trim_space (rq_Authorization r)) = Some (sr_BridgeToken s) \<and> sr_BridgeToken s \<noteq> [] \<or>
     (\<exists>t d. sr_st s = Some d \<and> t \<in> set (tenants d) \<and> tn_Status t = ''active'' \<and> p = tenant_principal t) \<or>
     (\<exists>c. rq_ConsoleCookie r = Some c \<and> fst (sessionPrincipal now c (sr_sessions s)) = Some p)"
proof (cases "bearerToken (trim_space (rq_Authorization r))")
  case None
  with assms show ?thesis
    by (auto simp: resolvePrincipal_def consoleSessionPrincipal_def split: option.splits prod.splits if_splits)
next
  case (Some token)
  show ?thesis
  proof (cases "sr_BridgeToken s \<noteq> [] \<and> token = sr_BridgeToken s")
    case True
    with assms Some show ?thesis by (simp add: resolvePrincipal_def)
  next
    case False
    with assms Some obtain d t d' where "sr_st s = Some d" "p = tenant_principal t"
      "AuthenticateTenantToken hash now token d = (Inr (Some t), d')"
      by (auto simp: resolvePrincipal_def split: option.splits sum.splits prod.splits if_splits)
    with AuthenticateTenantToken_sound show ?thesis by blast
  qed
qed

lemma scope_keeps_tenant: "applyAdminTenantScope r (Some p) s = (Inr q, s') \<Longrightarrow> \<not> p_Admin p \<Longrightarrow> q = Some p"
  by (simp add: applyAdminTenantScope_def)

lemma map_of_filter_put: "map_of (filter P (map_put k v xs)) k = (if P (k, v) then Some v else None)"
proof -
  have "map_of (filter P (filter (\<lambda>(j, _). j \<noteq> k) xs)) k = None" by (induction xs) auto
  then show ?thesis by (simp add: map_put_def)
qed

lemma sessionPrincipal_put:
  "session \<noteq> [] \<Longrightarrow> cs_sessions m = map_put session \<lparr>cg_expiry = e, cg_principal = Some p\<rparr> xs \<Longrightarrow>
   fst (sessionPrincipal t session m) = (if t < e then Some p else None)"
  by (simp add: sessionPrincipal_def Let_def prune_def map_of_filter_put)

section \<open>Properties\<close>

definition demo_tdb :: tenancy_db where
  "demo_tdb = \<lparr>fault = (\<lambda>_. False), tick = 0, orchestrations = [], orchestration_tasks = [],
     time_key = (\<lambda>t. case t of None \<Rightarrow> 0 | Some x \<Rightarrow> x), text_key = (\<lambda>x. x),
     agent_instances = [\<lparr>a_ID = ''ag'', a_Name = ''A'', a_RuntimeID = ''codex'', a_DesktopThreadID = [], a_WorkDir = [],
        a_WorkspaceMode = [], a_WorktreeBaseRef = [], a_SessionBackend = [], a_SystemPrompt = [], a_ProviderTool = [],
        a_ProviderID = [], a_ProviderName = [], a_DefaultModel = [], a_DefaultReasoningEffort = [],
        a_DefaultServiceTier = [], a_DefaultApprovalMode = [], a_MemoryScope = [], a_Env = [], a_ChannelBindings = [],
        a_Schedules = [], a_MCPServers = [], a_Skills = [], a_CLIs = [], a_Enabled = True, a_Source = [],
        a_OwnerTenantID = ''t1'', a_OwnerTenantName = [], a_Visibility = ''private'', a_CreatedAt = 1, a_UpdatedAt = 1,
        a_PrivateChatMode = [], a_GroupChatMode = []\<rparr>],
     channels = [], triggers = [],
     tenants = [\<lparr>tn_ID = ''t1'', tn_Name = ''one'', tn_Kind = [], tn_Status = ''active'', tn_Note = [], tn_CreatedAt = 1, tn_UpdatedAt = 1\<rparr>,
                \<lparr>tn_ID = ''t2'', tn_Name = ''two'', tn_Kind = [], tn_Status = ''active'', tn_Note = [], tn_CreatedAt = 1, tn_UpdatedAt = 1\<rparr>],
     tenant_tokens = [(''amxt_x'', \<lparr>tk_ID = ''k1'', tk_TenantID = ''t1'', tk_Name = [], tk_Prefix = [], tk_CreatedAt = 1,
        tk_LastUsedAt = None, tk_ExpiresAt = None, tk_RevokedAt = None, tk_Secret = []\<rparr>)],
     resource_grants = [\<lparr>rg_TenantID = ''t2'', rg_ResourceType = ''channel'', rg_ResourceID = ''c'', rg_Level = ''use'', rg_CreatedAt = 1, rg_UpdatedAt = 1\<rparr>]\<rparr>"

definition demo_two :: Principal where
  "demo_two = \<lparr>p_Admin = False, p_TenantID = ''t2'', p_TenantName = ''two''\<rparr>"


lemma demo_tdb_healthy: "healthy demo_tdb"
  by (simp add: demo_tdb_def healthy_def)

lemma find_distinct_perm:
  assumes "distinct (map f xs)" and "set ys = set xs"
  shows "find (\<lambda>a. f a = i) ys = find (\<lambda>a. f a = i) xs"
proof (cases "find (\<lambda>a. f a = i) xs")
  case None
  then have "find (\<lambda>a. f a = i) ys = None" using assms(2) by (auto simp: find_None_iff)
  with None show ?thesis by simp
next
  case (Some x)
  then have x: "x \<in> set ys" "f x = i" using assms(2) find_Some_in [OF Some] by auto
  then obtain y where y: "find (\<lambda>a. f a = i) ys = Some y"
    by (cases "find (\<lambda>a. f a = i) ys") (auto simp: find_None_iff)
  then have "y \<in> set xs" "f y = f x" using assms(2) x find_Some_in [OF y] by auto
  then have "y = x" using assms x by (auto simp: distinct_map inj_on_def)
  with y Some show ?thesis by simp
qed

text \<open>
  The access contract of an agent: it is stored, and it is an agent of the host (its id begins with config:) and the
  caller no tenant, or the caller may have the level.
\<close>

definition agent_contract :: "Principal \<Rightarrow> string \<Rightarrow> string \<Rightarrow> AgentInstance \<Rightarrow> 'a tenancy_db_scheme \<Rightarrow> bool" where
  "agent_contract p i required a d \<longleftrightarrow>
     table_find a_ID i (agent_instances d) = Some a \<and>
     (if has_prefix i ''config:'' then \<not> IsTenant (Some p)
      else may p ''agent'' i (a_OwnerTenantID a) (a_Visibility a) required d)"

lemma denied_not_granted [simp]: "denyResource p kind held \<noteq> Granted a"
  by (simp add: denyResource_def writeNotVisible_def)

lemma authorizeAgent_config:
  assumes "has_prefix i ''config:''" and "distinct (map a_ID (agent_instances d))"
  shows "fst (authorizeAgent p i required (Some d)) = Granted a \<Longrightarrow> agent_contract p i required a d"
    and "healthy d \<Longrightarrow> agent_contract p i required a d \<Longrightarrow> fst (authorizeAgent p i required (Some d)) = Granted a"
proof -
  have f: "find (\<lambda>a. a_ID a = i) (agent_order e (agent_instances d)) = table_find a_ID i (agent_instances d)" for e :: "'a tenancy_db_scheme"
    unfolding table_find_def
    by (rule find_distinct_perm [OF assms(2)]) (simp add: agent_order_def)
  show "fst (authorizeAgent p i required (Some d)) = Granted a \<Longrightarrow> agent_contract p i required a d"
    using assms(1) f [of "d\<lparr>tick := Suc (tick d)\<rparr>"]
    by (auto simp: authorizeAgent_def findAgentInstance_def ListAgentInstances_def sql_query_def agent_contract_def
        writeNotVisible_def Let_def split: if_splits option.splits)
  show "healthy d \<Longrightarrow> agent_contract p i required a d \<Longrightarrow> fst (authorizeAgent p i required (Some d)) = Granted a"
    using assms(1) f [of d] f [of "d\<lparr>tick := Suc (tick d)\<rparr>"]
    by (simp add: authorizeAgent_def findAgentInstance_def ListAgentInstances_def sql_query_healthy agent_contract_def)
qed

lemma accessLevel_sound:
  assumes "GrantSatisfies (fst (accessLevel p ty rid owner vis (Some d))) required"
  shows "may p ty rid owner vis required d"
  using assms rank_of_le [of required]
  by (auto simp: accessLevel_def GrantLevelFor_def sql_query_def Let_def GrantSatisfies_rank may_def owned_by_def
      grant_level_def split: if_splits)

lemma authorizeAgent_decides:
  assumes "distinct (map a_ID (agent_instances d))"
  shows "(fst (authorizeAgent p i required (Some d)) = Granted a \<longrightarrow> agent_contract p i required a d) \<and>
     (healthy d \<and> agent_contract p i required a d \<longrightarrow> fst (authorizeAgent p i required (Some d)) = Granted a)"
proof (cases "has_prefix i ''config:''")
  case True
  then show ?thesis using authorizeAgent_config [OF True assms] by blast
next
  case False
  have "agent_contract p i required a d" if g: "fst (authorizeAgent p i required (Some d)) = Granted a"
  proof -
    obtain level st where l: "table_find a_ID i (agent_instances d) = Some a"
      "accessLevel p ''agent'' (a_ID a) (a_OwnerTenantID a) (a_Visibility a) (Some (d\<lparr>tick := Suc (tick d)\<rparr>)) = (level, st)"
      "GrantSatisfies level required"
    proof (cases "table_find a_ID i (agent_instances d)")
      case None
      then show ?thesis using g False
        by (simp add: authorizeAgent_def GetAgentInstance_def sql_query_def Let_def split: if_splits)
    next
      case (Some b)
      obtain level st where lv: "accessLevel p ''agent'' (a_ID b) (a_OwnerTenantID b) (a_Visibility b)
          (Some (d\<lparr>tick := Suc (tick d)\<rparr>)) = (level, st)" by fastforce
      have "GrantSatisfies level required \<and> b = a"
        using g False Some lv
        by (simp add: authorizeAgent_def GetAgentInstance_def sql_query_def Let_def split: if_splits)
      then show ?thesis using that Some lv by blast
    qed
    have "a_ID a = i" using find_Some_in [OF l(1) [unfolded table_find_def]] by simp
    then show ?thesis
      using False l accessLevel_sound [of p "''agent''" i "a_OwnerTenantID a" "a_Visibility a" "d\<lparr>tick := Suc (tick d)\<rparr>" required]
      by (auto simp: agent_contract_def may_def)
  qed
  moreover have "fst (authorizeAgent p i required (Some d)) = Granted a" if "healthy d" "agent_contract p i required a d"
    using that False by (simp add: authorizeAgent_healthy agent_contract_def)
  ultimately show ?thesis by blast
qed



text \<open>
  Ids cannot be probed: on a working store a tenant without access to an agent gets the same answer as
  if the agent did not exist.
\<close>

theorem authorizeAgent_no_probe:
  assumes "healthy d" and "levels_valid d" and "IsTenant (Some p)" and "\<not> has_prefix i ''config:''"
    and "\<And>a. table_find a_ID i (agent_instances d) = Some a \<Longrightarrow>
       \<not> may p ''agent'' i (a_OwnerTenantID a) (a_Visibility a) ''read'' d"
    and "0 < rank_of required"
  shows "fst (authorizeAgent p i required (Some d)) = Denied 404 ''agent not found'' \<and>
     fst (authorizeAgent p i required (Some (snd (DeleteAgentInstance i d)))) = Denied 404 ''agent not found''"
proof
  have "denyResource p ''agent'' (fst (accessLevel p ''agent'' i (a_OwnerTenantID a) (a_Visibility a) (Some d))) =
      (Denied 404 ''agent not found'' :: AgentInstance reply)"
    and "\<not> may p ''agent'' i (a_OwnerTenantID a) (a_Visibility a) required d"
    if "table_find a_ID i (agent_instances d) = Some a" for a
    using accessLevel_none [OF assms(1-3) assms(5) [OF that]] assms(5) [OF that] assms(6)
    by (auto simp: denyResource_def writeNotVisible_def may_def)
  then show "fst (authorizeAgent p i required (Some d)) = Denied 404 ''agent not found''"
    unfolding authorizeAgent_healthy [OF assms(1,4)] by (auto split: option.splits)
  let ?e = "snd (DeleteAgentInstance i d)"
  have "healthy ?e" "table_find a_ID i (agent_instances ?e) = None"
    using assms(1) agent_tab.find_delete
    by (simp_all add: DeleteAgentInstance_def sql_exec_healthy) (simp add: healthy_def)
  then show "fst (authorizeAgent p i required (Some ?e)) = Denied 404 ''agent not found''"
    by (simp add: authorizeAgent_healthy assms(4))
qed

theorem authorizeAgent_no_probe_witness:
  "fst (authorizeAgent demo_two ''ag'' ''use'' (Some demo_tdb)) = Denied 404 ''agent not found''"
proof -
  have "levels_valid demo_tdb" "IsTenant (Some demo_two)" "\<not> has_prefix ''ag'' ''config:''" "0 < rank_of ''use''" by code_simp+
  moreover have "list_all (\<lambda>a. \<not> may demo_two ''agent'' ''ag'' (a_OwnerTenantID a) (a_Visibility a) ''read'' demo_tdb)
      (agent_instances demo_tdb)" by code_simp
  ultimately show ?thesis
    using authorizeAgent_no_probe [OF demo_tdb_healthy, of demo_two "''ag''" "''use''"]
    by (auto simp: list_all_iff table_find_def dest: find_Some_in)
qed

text \<open>
  C9. Listing and authorization agree but for ids that begin with config: on a working store with unique agent ids and
  valid grant levels a tenant is authorized to read exactly the agents that are listed for it and whose id does not
  begin with config:. (A tenant that creates an agent with such an id sees it listed and is told that it does not exist.)
\<close>

theorem list_matches_authorize:
  assumes "healthy d" and "levels_valid d" and "distinct (map a_ID (agent_instances d))"
    and "IsTenant (Some p)" and "a \<in> set (agent_instances d)"
  shows "fst (authorizeAgent p (a_ID a) ''read'' (Some d)) = Granted a \<longleftrightarrow>
     (case fst (ListAgentInstancesForTenant (p_TenantID p) d) of Some items \<Rightarrow> a \<in> set items | None \<Rightarrow> False) \<and>
     \<not> has_prefix (a_ID a) ''config:''"
proof -
  have "table_find a_ID (a_ID a) (agent_instances d) = Some a"
    using find_distinct_key [OF assms(3,5)] by (simp add: table_find_def)
  moreover have "visibleToTenant ''agent'' (p_TenantID p) (a_ID a) (a_OwnerTenantID a) (a_Visibility a) d \<longleftrightarrow>
      may p ''agent'' (a_ID a) (a_OwnerTenantID a) (a_Visibility a) ''read'' d"
    using assms(4) grant_level_granted [OF assms(2)] by (auto simp: visibleToTenant_def may_def)
  moreover have "fst (authorizeAgent p (a_ID a) ''read'' (Some d)) = Granted a \<longleftrightarrow>
      agent_contract p (a_ID a) ''read'' a d"
    using authorizeAgent_decides [OF assms(3)] assms(1) by blast
  ultimately show ?thesis
    using assms(1,4,5)
    by (auto simp: agent_contract_def ListAgentInstancesForTenant_def sql_query_healthy agent_order_def visibleToTenant_def)
qed

theorem list_matches_authorize_witness:
  "\<exists>a\<in>set (agent_instances demo_tdb). a_ID a = ''ag'' \<and>
     \<not> (case fst (ListAgentInstancesForTenant ''t2'' demo_tdb) of Some items \<Rightarrow> a \<in> set items | None \<Rightarrow> False)"
proof -
  let ?a = "hd (agent_instances demo_tdb)"
  have "?a \<in> set (agent_instances demo_tdb)" "a_ID ?a = ''ag''" by code_simp+
  moreover have "levels_valid demo_tdb" "distinct (map a_ID (agent_instances demo_tdb))" "IsTenant (Some demo_two)"
    "p_TenantID demo_two = ''t2''" "\<not> has_prefix (a_ID ?a) ''config:''"
    "fst (authorizeAgent demo_two (a_ID ?a) ''read'' (Some demo_tdb)) \<noteq> Granted ?a" by code_simp+
  ultimately show ?thesis
    using list_matches_authorize [OF demo_tdb_healthy, of demo_two ?a] by metis
qed

text \<open>
  A token authenticates only while it is good: if a secret authenticates as a tenant, then a stored token
  with its hash belongs to that tenant, is neither revoked nor expired, and the tenant is active.
\<close>

theorem token_authenticates_only_if_valid:
  assumes "fst (AuthenticateTenantToken hash now secret d) = Inr (Some tenant)"
  shows "\<exists>token. (hash (trim_space secret), token) \<in> set (tenant_tokens d) \<and> tk_TenantID token = tn_ID tenant \<and>
     tk_RevokedAt token = None \<and> (\<forall>e. tk_ExpiresAt token = Some e \<longrightarrow> now \<le> e) \<and>
     tenant \<in> set (tenants d) \<and> tn_Status tenant = ''active''"
  using AuthenticateTenantToken_sound [of hash now secret d tenant] assms
  by (cases "AuthenticateTenantToken hash now secret d") auto

theorem token_authenticates_only_if_valid_witness: "hd (tenants demo_tdb) \<in> set (tenants demo_tdb)"
proof -
  have "fst (AuthenticateTenantToken (\<lambda>x. x) 5 '' amxt_x'' demo_tdb) = Inr (Some (hd (tenants demo_tdb)))" by code_simp
  from token_authenticates_only_if_valid [OF this] show ?thesis by blast
qed

text \<open>
  Revocation is final: on a working store, after \<open>RevokeTenantToken\<close> no secret of that token
  authenticates at any later time.
\<close>

theorem revoked_token_rejected:
  assumes "healthy d" and "distinct (map fst (tenant_tokens d))"
    and "(hash (trim_space secret), token) \<in> set (tenant_tokens d)"
  shows "fst (AuthenticateTenantToken hash later secret (snd (RevokeTenantToken now (tk_ID token) d))) = Inr None"
proof -
  let ?f = "\<lambda>(h, t). (h, if tk_ID t = tk_ID token \<and> tk_RevokedAt t = None then t\<lparr>tk_RevokedAt := Some now\<rparr> else t)"
  let ?d = "snd (RevokeTenantToken now (tk_ID token) d)"
  have tt: "tenant_tokens ?d = map ?f (tenant_tokens d)" and h: "healthy ?d"
    using assms(1) by (simp_all add: RevokeTenantToken_def sql_exec_healthy) (simp add: healthy_def)
  have "find (\<lambda>(h, t). h = hash (trim_space secret)) (map ?f (tenant_tokens d)) =
      map_option ?f (find (\<lambda>(h, t). h = hash (trim_space secret)) (tenant_tokens d))"
    by (rule find_map_key) (simp add: case_prod_beta)
  moreover have "find (\<lambda>(h, t). h = hash (trim_space secret)) (tenant_tokens d) = Some (hash (trim_space secret), token)"
    using find_distinct_key [OF assms(2,3)] by (simp add: case_prod_unfold)
  ultimately show ?thesis
    using AuthenticateTenantToken_healthy [OF h, of secret hash later] tt
    by (cases "trim_space secret = [] \<or> \<not> has_prefix (trim_space secret) tenantTokenPrefix")
       (auto simp: AuthenticateTenantToken_def)
qed

theorem revoked_token_rejected_witness:
  "fst (AuthenticateTenantToken (\<lambda>x. x) 9 ''amxt_x'' (snd (RevokeTenantToken 8 ''k1'' demo_tdb))) = Inr None"
proof -
  let ?t = "snd (hd (tenant_tokens demo_tdb))"
  have "distinct (map fst (tenant_tokens demo_tdb))" "(trim_space ''amxt_x'', ?t) \<in> set (tenant_tokens demo_tdb)"
    "tk_ID ?t = ''k1''" by code_simp+
  then show ?thesis using revoked_token_rejected [OF demo_tdb_healthy, of "\<lambda>x. x" "''amxt_x''" ?t 9 8] by simp
qed

text \<open>
  Routes are closed to tenants unless listed: outside the OpenAI-compatible prefix a tenant may call a route
  exactly when the public manifest opens it to tenants or the console policy lists it, with that method.
\<close>

theorem tenant_routes_exact:
  "tenantRouteAllowed m q \<longleftrightarrow> has_prefix q ''/v1/'' \<or>
     (\<exists>r\<in>set publicRouteManifest. ro_Tenant r \<and> ro_Path r = q \<and> ro_Method r = m) \<or>
     (\<exists>(path, methods)\<in>set tenantConsoleRoutePolicy. path = q \<and> m \<in> set methods)"
proof -
  have "\<forall>(path, methods)\<in>set tenantConsoleRoutePolicy. methods \<noteq> []" by code_simp
  then have "no_wildcard tenantRoutePolicy"
    unfolding tenantRoutePolicy_def publicTenantRoutePolicy_def
    by (intro console_no_wildcard public_no_wildcard) (auto simp: no_wildcard_def)
  then have "tenantRouteAllowed m q \<longleftrightarrow> has_prefix q ''/v1/'' \<or> allows tenantRoutePolicy q m"
    by (auto simp: tenantRouteAllowed_def allows_def no_wildcard_def split: option.splits)
  also have "allows tenantRoutePolicy q m \<longleftrightarrow> allows publicTenantRoutePolicy q m \<or>
      (\<exists>(path, methods)\<in>set tenantConsoleRoutePolicy. path = q \<and> m \<in> set methods)"
    unfolding tenantRoutePolicy_def by (rule console_policy_allows)
  also have "allows publicTenantRoutePolicy q m \<longleftrightarrow> (\<exists>r\<in>set publicRouteManifest. ro_Tenant r \<and> ro_Path r = q \<and> ro_Method r = m)"
    unfolding publicTenantRoutePolicy_def by (subst public_policy_allows) (simp add: allows_def)
  finally show ?thesis by blast
qed

theorem tenant_routes_exact_witness: "\<not> tenantRouteAllowed ''POST'' ''/api/v1/providers''"
proof -
  have "\<not> has_prefix ''/api/v1/providers'' ''/v1/''"
    "list_all (\<lambda>r. \<not> (ro_Tenant r \<and> ro_Path r = ''/api/v1/providers'' \<and> ro_Method r = ''POST'')) publicRouteManifest"
    "list_all (\<lambda>(path, methods). \<not> (path = ''/api/v1/providers'' \<and> ''POST'' \<in> set methods)) tenantConsoleRoutePolicy"
    by code_simp+
  then show ?thesis unfolding tenant_routes_exact by (auto simp: list_all_iff)
qed

text \<open>
  C10. The middleware confines tenants: a request served on behalf of a tenant has a route tenants may call, and
  a request for the observability pages is never passed on for one.
\<close>

theorem withAuth_confines:
  assumes "withAuth hash now r s = (Serve (Some p), s')" and "IsTenant (Some p)"
  shows "tenantRouteAllowed (rq_Method r) (rq_Path r) \<and> \<not> isObservabilityPath (rq_Path r)"
  using assms
  by (auto simp: withAuth_def split: if_splits prod.splits option.splits sum.splits)

text \<open>
  With the bridge on, an API request is served only for a credential: the configured bridge token, a token
  of an active tenant, or a live console session.
\<close>

theorem withAuth_requires_credential:
  assumes "sr_BridgeEnabled s" and "isBridgeAPIPath (rq_Path r)" and "\<not> isSelfAuthenticatingPath (rq_Path r)"
    and "withAuth hash now r s = (Serve ctx, s')"
  shows "bearerToken (trim_space (rq_Authorization r)) = Some (sr_BridgeToken s) \<and> sr_BridgeToken s \<noteq> [] \<or>
     (\<exists>t d. sr_st s = Some d \<and> t \<in> set (tenants d) \<and> tn_Status t = ''active'' \<and>
        ctx = Some (tenant_principal t)) \<or>
     (\<exists>c p. rq_ConsoleCookie r = Some c \<and> fst (sessionPrincipal now c (sr_sessions s)) = Some p)"
proof -
  from assms obtain p1 s1 where p1: "resolvePrincipal hash now r s = (Some p1, s1)"
    and "applyAdminTenantScope r (Some p1) s1 = (Inr ctx, s') \<or> ctx = Some p1"
    by (auto simp: withAuth_def split: if_splits prod.splits option.splits sum.splits)
  then have ctx: "\<not> p_Admin p1 \<longrightarrow> ctx = Some p1" using scope_keeps_tenant by blast
  have "\<not> p_Admin (tenant_principal t)" for t by (simp add: tenant_principal_def)
  with resolve_served [OF p1] ctx show ?thesis by blast
qed

definition demo_server :: "tenancy_db server" where
  "demo_server = \<lparr>sr_BridgeEnabled = True, sr_BridgeToken = ''secret'', sr_st = Some demo_tdb,
     sr_sessions = \<lparr>cs_nonces = [], cs_sessions = []\<rparr>\<rparr>"

definition demo_request :: "string \<Rightarrow> string \<Rightarrow> string \<Rightarrow> request" where
  "demo_request meth path auth = \<lparr>rq_Method = meth, rq_Path = path, rq_Authorization = auth, rq_ConsoleCookie = None,
     rq_ConsoleHeader = [], rq_SecFetchSite = [], rq_TenantScope = []\<rparr>"

theorem withAuth_confines_witness: "tenantRouteAllowed ''GET'' ''/v1/models''"
proof -
  let ?r = "demo_request ''GET'' ''/v1/models'' ''Bearer amxt_x''"
  let ?p = "tenant_principal (hd (tenants demo_tdb))"
  have f: "fst (withAuth (\<lambda>x. x) 5 ?r demo_server) = Serve (Some ?p)" by code_simp
  have "IsTenant (Some ?p)" by code_simp
  moreover have "withAuth (\<lambda>x. x) 5 ?r demo_server = (Serve (Some ?p), snd (withAuth (\<lambda>x. x) 5 ?r demo_server))"
    using f by (simp add: prod_eq_iff)
  ultimately have "tenantRouteAllowed (rq_Method ?r) (rq_Path ?r)" using withAuth_confines by blast
  then show ?thesis by (simp add: demo_request_def)
qed

theorem withAuth_requires_credential_witness: "\<exists>t\<in>set (tenants demo_tdb). tn_Status t = ''active''"
proof -
  let ?r = "demo_request ''GET'' ''/v1/models'' ''Bearer amxt_x''"
  let ?p = "tenant_principal (hd (tenants demo_tdb))"
  have "fst (withAuth (\<lambda>x. x) 5 ?r demo_server) = Serve (Some ?p)" by code_simp
  then have w: "withAuth (\<lambda>x. x) 5 ?r demo_server = (Serve (Some ?p), snd (withAuth (\<lambda>x. x) 5 ?r demo_server))"
    by (simp add: prod_eq_iff)
  have c: "sr_BridgeEnabled demo_server" "isBridgeAPIPath (rq_Path ?r)" "\<not> isSelfAuthenticatingPath (rq_Path ?r)"
    "bearerToken (trim_space (rq_Authorization ?r)) \<noteq> Some (sr_BridgeToken demo_server)" "rq_ConsoleCookie ?r = None"
    by code_simp+
  have "sr_st demo_server = Some demo_tdb" by (simp add: demo_server_def)
  with withAuth_requires_credential [OF c(1-3) w] c(4,5) show ?thesis by auto
qed

text \<open>
  C11. An entry link works once: after a nonce was presented, whether it was accepted or not, it is refused for
  ever, whatever other nonces are issued, consumed or sessions used in between.
\<close>

theorem nonce_single_use:
  assumes "\<forall>op\<in>set ops. \<forall>t p. op \<noteq> Issue t n p"
  shows "fst (consumeNonce later session' n (fold do_session_op ops (snd (consumeNonce now session n m)))) = None"
  by (intro consume_unknown nonces_stay_gone consume_removes assms)

theorem nonce_single_use_witness:
  "fst (consumeNonce 9 ''s2'' ''n'' (snd (consumeNonce 8 ''s1'' ''n'' (snd (issueNonce 7 ''n'' None \<lparr>cs_nonces = [], cs_sessions = []\<rparr>))))) = None"
  using nonce_single_use [of "[]" "''n''"] by simp

text \<open>
  A console session has the scope of the credential that minted its entry link: within the minute the link is
  valid it yields a session that resolves to exactly that principal for eight hours, and to none afterwards.
\<close>

theorem session_scope:
  assumes "t0 \<le> t1" and "t1 \<le> t0 + consoleNonceTTL" and "t1 \<le> t2" and "session \<noteq> []"
  shows "fst (consumeNonce t1 session n (snd (issueNonce t0 n (Some p) m))) = Some session \<and>
     fst (sessionPrincipal t2 session (snd (consumeNonce t1 session n (snd (issueNonce t0 n (Some p) m))))) =
       (if t2 < t1 + consoleSessionTTL then Some p else None)"
proof -
  let ?m = "snd (issueNonce t0 n (Some p) m)"
  have f: "map_of (filter (\<lambda>(_, g). \<not> t1 > cg_expiry g) (cs_nonces ?m)) n =
      Some \<lparr>cg_expiry = t0 + consoleNonceTTL, cg_principal = Some p\<rparr>"
    using assms(2) by (simp add: issueNonce_def Let_def map_of_filter_put)
  have c: "fst (consumeNonce t1 session n ?m) = Some session"
    and s: "\<exists>xs. cs_sessions (snd (consumeNonce t1 session n ?m)) =
      map_put session \<lparr>cg_expiry = t1 + consoleSessionTTL, cg_principal = Some p\<rparr> xs"
    using f assms(2) by (auto simp: consumeNonce_def Let_def prune_def)
  from s sessionPrincipal_put [OF assms(4)] c show ?thesis by blast
qed

theorem session_scope_witness:
  "fst (sessionPrincipal 20 ''s'' (snd (consumeNonce 10 ''s'' ''n'' (snd (issueNonce 0 ''n'' (Some demo_two)
     \<lparr>cs_nonces = [], cs_sessions = []\<rparr>))))) = Some demo_two"
  using session_scope [of 0 10 20 "''s''" "''n''" demo_two] by (simp add: consoleNonceTTL_def consoleSessionTTL_def ns_defs)

text \<open>
  Console sessions outlive their tenant: the principal of a session request does not depend on the store, so
  a session minted by a tenant still resolves after the tenant was disabled or deleted.
\<close>

theorem session_ignores_tenant_state:
  "bearerToken (trim_space (rq_Authorization r)) = None \<Longrightarrow>
   fst (resolvePrincipal hash now r (s\<lparr>sr_st := st\<rparr>)) = fst (resolvePrincipal hash now r s)"
  by (auto simp: resolvePrincipal_def consoleSessionPrincipal_def split: option.splits prod.splits)

theorem session_ignores_tenant_state_witness:
  "fst (resolvePrincipal (\<lambda>x. x) 5 (demo_request ''GET'' ''/api/v1/usage'' []) (demo_server\<lparr>sr_st := None\<rparr>)) =
   fst (resolvePrincipal (\<lambda>x. x) 5 (demo_request ''GET'' ''/api/v1/usage'' []) demo_server)"
proof (rule session_ignores_tenant_state)
  show "bearerToken (trim_space (rq_Authorization (demo_request ''GET'' ''/api/v1/usage'' []))) = None" by code_simp
qed

text \<open>
  Deleting a tenant on a working store succeeds and removes its tokens, its grants and the tenant, and leaves
  no agent, channel, trigger or orchestration owned by it; rows of other owners stay.
\<close>

theorem DeleteTenant_complete:
  assumes "healthy d" and "i \<noteq> []"
  shows "fst (DeleteTenant i d) \<and> (let e = snd (DeleteTenant i d) in
     tenant_tokens e = filter (\<lambda>(h, t). tk_TenantID t \<noteq> i) (tenant_tokens d) \<and>
     resource_grants e = filter (\<lambda>g. rg_TenantID g \<noteq> i) (resource_grants d) \<and>
     table_find tn_ID i (tenants e) = None \<and>
     i \<notin> a_OwnerTenantID ` set (agent_instances e) \<and> i \<notin> c_OwnerTenantID ` set (channels e) \<and>
     i \<notin> tg_OwnerTenantID ` set (triggers e) \<and> Some i \<notin> or_owner_tenant_id ` set (orchestrations e) \<and>
     filter (\<lambda>a. a_OwnerTenantID a \<noteq> i \<and> a_OwnerTenantID a \<noteq> []) (agent_instances e) =
       filter (\<lambda>a. a_OwnerTenantID a \<noteq> i \<and> a_OwnerTenantID a \<noteq> []) (agent_instances d))"
proof -
  have f: "filter (\<lambda>a. a_OwnerTenantID a \<noteq> i \<and> a_OwnerTenantID a \<noteq> [])
       (unassign a_OwnerTenantID (\<lambda>a. a\<lparr>a_OwnerTenantID := []\<rparr>) i xs) =
     filter (\<lambda>a. a_OwnerTenantID a \<noteq> i \<and> a_OwnerTenantID a \<noteq> []) xs" for xs
    by (induction xs) (auto simp: unassign_def owned_by_def)
  show ?thesis
    using assms f [of "agent_instances d"] tenant_tab.find_delete [of i i "tenants d"]
    by (auto simp: DeleteTenant_def sql_tx_def sql_exec_def healthy_def Let_def unassign_def owned_by_def split: if_splits)
qed

theorem DeleteTenant_complete_witness: "map a_OwnerTenantID (agent_instances (snd (DeleteTenant ''t1'' demo_tdb))) = [[]]"
proof -
  have "''t1'' \<notin> a_OwnerTenantID ` set (agent_instances (snd (DeleteTenant ''t1'' demo_tdb)))"
    using DeleteTenant_complete [OF demo_tdb_healthy, of "''t1''"] by (simp add: Let_def)
  then show ?thesis by code_simp
qed

text \<open>
  A manage grant is enough to take an agent over: when a tenant that holds a manage grant on another tenant's
  agent saves it, the stored agent is owned by the saving tenant.
\<close>

theorem manage_grant_takes_over:
  "let d = demo_tdb\<lparr>resource_grants := [\<lparr>rg_TenantID = ''t2'', rg_ResourceType = ''agent'', rg_ResourceID = ''ag'',
              rg_Level = ''manage'', rg_CreatedAt = 1, rg_UpdatedAt = 1\<rparr>]\<rparr>;
       st = snd (handleAgentInstanceUpsert None Some demo_two (hd (agent_instances d)) (Some d))
   in map a_OwnerTenantID (agent_instances d) = [''t1''] \<and>
      map a_OwnerTenantID (agent_instances (the st)) = [''t2'']"
  by code_simp

end
