(* ===== verification/Channel_Store.thy ===== *)
theory Channel_Store
  imports Resources "HOL-Library.Multiset"
begin

text \<open>
  The control store of chat channels: tasks, feedback and interactions of core/channel_control.go and the
  statements of store/channel_control.go, with the limits read from a channel's configuration. A row is the
  struct it is scanned into; the fields a query does not select are empty. Texts shown to users are kept as
  their UTF-8 bytes.
\<close>

section \<open>Data\<close>

datatype ChannelTaskStatus =
  ChannelTaskQueued | ChannelTaskRunning | ChannelTaskWaitingInput | ChannelTaskSucceeded | ChannelTaskFailed
| ChannelTaskCancelled | ChannelTaskInterrupted | ChannelTaskSteering | ChannelTaskSteered | ChannelTaskSteerUnknown

record ChannelTask =
  ct_SourceMessageID :: string
  ct_ChatMode :: string
  ct_ReplyInThread :: bool
  ct_ControlCardID :: string
  ct_ControlNonce :: string
  ct_TargetTaskID :: string
  ct_QueuePosition :: int
  ct_CanSteer :: bool
  ct_ID :: string
  ct_ChannelID :: string
  ct_ConversationID :: string
  ct_ConversationKey :: string
  ct_ChatID :: string
  ct_MessageID :: string
  ct_ChatType :: string
  ct_RootID :: string
  ct_ThreadID :: string
  ct_UserID :: string
  ct_ControllerID :: string
  ct_NativeThreadID :: string
  ct_TurnID :: string
  ct_Status :: ChannelTaskStatus
  ct_Error :: string
  ct_DeliveryKey :: string
  ct_DeliveryStatus :: string
  ct_DeliveryAttempts :: int
  ct_DeliveryError :: string
  ct_DeliveredAt :: gotime
  ct_FeedbackNonce :: string
  ct_Prompt :: string
  ct_CreatedAt :: gotime
  ct_StartedAt :: gotime
  ct_FinishedAt :: gotime
  ct_UpdatedAt :: gotime

record ChannelFeedback =
  cf_ID :: string
  cf_TaskID :: string
  cf_ChannelID :: string
  cf_ConversationID :: string
  cf_UserID :: string
  cf_Semantic :: string
  cf_Reason :: string
  cf_Comment :: string
  cf_CreatedAt :: gotime
  cf_UpdatedAt :: gotime

datatype ChannelInteractionStatus =
  ChannelInteractionPending | ChannelInteractionResolved | ChannelInteractionDeclined | ChannelInteractionExpired

text \<open>
  The request of an interaction is stored as JSON and read back; its \<^verbatim>\<open>RawParams\<close> are not stored and have no
  field here.
\<close>

datatype AgentInteractionKind =
  AgentInteractionCommandApproval | AgentInteractionFileChangeApproval | AgentInteractionPermissionApproval
| AgentInteractionUserInput

record InteractionOption =
  io_Label :: string
  io_Description :: string

record InteractionQuestion =
  iq_ID :: string
  iq_Header :: string
  iq_Question :: string
  iq_Secret :: bool
  iq_Other :: bool
  iq_Options :: "InteractionOption list"

record AgentInteraction =
  ai_ID :: string
  ai_Kind :: AgentInteractionKind
  ai_ThreadID :: string
  ai_TurnID :: string
  ai_ItemID :: string
  ai_Title :: string
  ai_Description :: string
  ai_Command :: string
  ai_Cwd :: string
  ai_Reason :: string
  ai_HighRisk :: bool
  ai_Questions :: "InteractionQuestion list"
  ai_AutoResolutionMs :: int

record ChannelInteraction =
  ci_ID :: string
  ci_TaskID :: string
  ci_ChannelID :: string
  ci_ConversationID :: string
  ci_ConversationKey :: string
  ci_ControllerID :: string
  ci_Nonce :: string
  ci_MessageID :: string
  ci_Status :: ChannelInteractionStatus
  ci_Request :: AgentInteraction
  ci_CreatedAt :: gotime
  ci_ExpiresAt :: gotime
  ci_ResolvedAt :: gotime
  ci_ResolvedBy :: string

record channel_db = tenancy_db +
  channel_tasks :: "ChannelTask list"
  channel_feedback :: "ChannelFeedback list"
  channel_interactions :: "ChannelInteraction list"

section \<open>Limits from the configuration\<close>

text \<open>\<^verbatim>\<open>strconv.Atoi\<close> with its error dropped: 0 for a syntax error, the nearest bound out of range.\<close>

definition digit_value :: "char \<Rightarrow> int" where
  "digit_value c = int (byte_of c) - 48"

fun digits_value :: "int \<Rightarrow> string \<Rightarrow> int option" where
  "digits_value acc [] = Some acc"
| "digits_value acc (c # cs) = (if in_bytes 48 57 c then digits_value (10 * acc + digit_value c) cs else None)"

definition max_int64 :: int where "max_int64 = 9223372036854775807"

definition atoi :: "string \<Rightarrow> int" where
  "atoi s =
     (let (neg, ds) = (case s of c # cs \<Rightarrow> if c = CHR ''-'' then (True, cs) else if c = CHR ''+'' then (False, cs) else (False, s)
                       | [] \<Rightarrow> (False, []))
      in if ds = [] then 0
         else (case digits_value 0 ds of
            None \<Rightarrow> 0
          | Some n \<Rightarrow> if neg then max (- max_int64 - 1) (- n) else min max_int64 n))"

text \<open>A channel's configuration map; a missing key reads as the empty string.\<close>

type_synonym channel_config = "string \<Rightarrow> string"

definition DefaultCodexMaxQueue :: int where "DefaultCodexMaxQueue = 20"
definition DefaultChannelTurnTimeoutMinutes :: int where "DefaultChannelTurnTimeoutMinutes = 720"
definition MaxChannelTurnTimeoutMinutes :: int where "MaxChannelTurnTimeoutMinutes = 720"

definition ChannelCodexMaxQueue :: "channel_config \<Rightarrow> int" where
  "ChannelCodexMaxQueue cfg =
     (let raw = (if cfg ''max_queue'' = [] then cfg ''codex_max_queue'' else cfg ''max_queue'');
          n = atoi (trim_space raw)
      in if n \<le> 0 then DefaultCodexMaxQueue else if n > 100 then 100 else n)"

definition ChannelTurnTimeout :: "channel_config \<Rightarrow> int" where
  "ChannelTurnTimeout cfg =
     (let raw0 = trim_space (cfg ''turn_timeout_minutes'');
          raw = (if raw0 = [] then trim_space (cfg ''codex_turn_timeout_minutes'') else raw0);
          n0 = atoi raw;
          n1 = (if n0 \<le> 0 then DefaultChannelTurnTimeoutMinutes else n0);
          n2 = (if n1 > MaxChannelTurnTimeoutMinutes then MaxChannelTurnTimeoutMinutes else n1)
      in n2 * minute_ns)"

definition ChannelCodexTurnTimeout :: "channel_config \<Rightarrow> int" where
  "ChannelCodexTurnTimeout cfg = ChannelTurnTimeout cfg"

section \<open>Tasks\<close>

definition steer_rejected_text :: string where
  "steer_rejected_text = map char_of [232::nat, 191, 189, 229, 138, 160, 232, 162, 171, 230, 139, 146, 231, 187, 157, 239, 188, 140, 228, 191, 157, 231, 149, 153, 230, 142, 146, 233, 152, 159, 239, 188, 154]"

definition steer_unknown_text :: string where
  "steer_unknown_text = map char_of [232::nat, 191, 189, 229, 138, 160, 231, 187, 147, 230, 158, 156, 229, 190, 133, 231, 161, 174, 232, 174, 164, 239, 188, 140, 228, 184, 141, 228, 188, 154, 232, 135, 170, 229, 138, 168, 233, 135, 141, 232, 175, 149, 239, 188, 154]"

definition steer_save_failed_text :: string where
  "steer_save_failed_text = map char_of [232::nat, 191, 189, 229, 138, 160, 231, 138, 182, 230, 128, 129, 228, 191, 157, 229, 173, 152, 229, 164, 177, 232, 180, 165, 239, 188, 140, 229, 129, 156, 230, 173, 162, 232, 135, 170, 229, 138, 168, 230, 137, 167, 232, 161, 140]"

definition steer_restart_text :: string where
  "steer_restart_text = map char_of [232::nat, 191, 189, 229, 138, 160, 231, 187, 147, 230, 158, 156, 229, 190, 133, 231, 161, 174, 232, 174, 164, 239, 188, 154, 230, 156, 141, 229, 138, 161, 229, 156, 168, 230, 143, 144, 228, 186, 164, 230, 156, 159, 233, 151, 180, 233, 135, 141, 229, 144, 175]"

definition task_row :: "ChannelTask \<Rightarrow> ChannelTask" where
  "task_row t = t\<lparr>ct_QueuePosition := 0, ct_CanSteer := False\<rparr>"

definition CreateChannelTask :: "gotime \<Rightarrow> ChannelTask \<Rightarrow> 'a channel_db_scheme \<Rightarrow> bool \<times> 'a channel_db_scheme" where
  "CreateChannelTask now task0 =
     (let task = task0\<lparr>ct_CreatedAt := (if is_zero (ct_CreatedAt task0) then now else ct_CreatedAt task0),
                        ct_UpdatedAt := (if is_zero (ct_UpdatedAt task0) then now else ct_UpdatedAt task0)\<rparr>
      in sql_exec (\<lambda>d. if list_ex (\<lambda>r. ct_ID r = ct_ID task) (channel_tasks d) then None
           else Some (d\<lparr>channel_tasks := channel_tasks d @ [task_row task]\<rparr>)))"

text \<open>The columns an update writes.\<close>

definition write_channel_task :: "gotime \<Rightarrow> ChannelTask \<Rightarrow> ChannelTask \<Rightarrow> ChannelTask" where
  "write_channel_task now t r = r\<lparr>ct_ConversationID := ct_ConversationID t, ct_ControllerID := ct_ControllerID t,
     ct_NativeThreadID := ct_NativeThreadID t, ct_TurnID := ct_TurnID t, ct_Status := ct_Status t, ct_Error := ct_Error t,
     ct_Prompt := ct_Prompt t, ct_DeliveryKey := ct_DeliveryKey t, ct_DeliveryStatus := ct_DeliveryStatus t,
     ct_DeliveryAttempts := ct_DeliveryAttempts t, ct_DeliveryError := ct_DeliveryError t, ct_DeliveredAt := ct_DeliveredAt t,
     ct_FeedbackNonce := ct_FeedbackNonce t, ct_ControlCardID := ct_ControlCardID t, ct_ControlNonce := ct_ControlNonce t,
     ct_TargetTaskID := ct_TargetTaskID t, ct_ChatMode := ct_ChatMode t, ct_ReplyInThread := ct_ReplyInThread t,
     ct_StartedAt := ct_StartedAt t, ct_FinishedAt := ct_FinishedAt t, ct_UpdatedAt := now\<rparr>"

definition UpdateChannelTask :: "gotime \<Rightarrow> ChannelTask \<Rightarrow> 'a channel_db_scheme \<Rightarrow> bool \<times> 'a channel_db_scheme" where
  "UpdateChannelTask now task = sql_exec (\<lambda>d. Some (d\<lparr>channel_tasks :=
     map (\<lambda>r. if ct_ID r = ct_ID task then write_channel_task now task r else r) (channel_tasks d)\<rparr>))"

definition GetChannelTask :: "string \<Rightarrow> 'a channel_db_scheme \<Rightarrow> ChannelTask option option \<times> 'a channel_db_scheme" where
  "GetChannelTask i = sql_query (\<lambda>d. table_find ct_ID i (channel_tasks d))"

definition ListChannelTasks ::
  "string \<Rightarrow> string \<Rightarrow> bool \<Rightarrow> 'a channel_db_scheme \<Rightarrow> ChannelTask list option \<times> 'a channel_db_scheme" where
  "ListChannelTasks channelID conversationID activeOnly = sql_query (\<lambda>d.
     sort_key (\<lambda>t. - time_key d (formatControlTime (ct_CreatedAt t)))
       (filter (\<lambda>t. (channelID \<noteq> [] \<longrightarrow> ct_ChannelID t = channelID) \<and>
                    (conversationID \<noteq> [] \<longrightarrow> ct_ConversationID t = conversationID) \<and>
                    (activeOnly \<longrightarrow> ct_Status t \<in> {ChannelTaskQueued, ChannelTaskRunning, ChannelTaskWaitingInput}))
         (channel_tasks d)))"

definition HasChannelSourceTask :: "string \<Rightarrow> string \<Rightarrow> 'a channel_db_scheme \<Rightarrow> bool option \<times> 'a channel_db_scheme" where
  "HasChannelSourceTask channelID messageID = sql_query (\<lambda>d.
     list_ex (\<lambda>t. ct_ChannelID t = channelID \<and> (ct_SourceMessageID t = messageID \<or> ct_MessageID t = messageID)) (channel_tasks d))"

text \<open>The three updates and the query of recovery, each of which may fail and end it.\<close>

definition recover_steering :: "gotime \<Rightarrow> string \<Rightarrow> ChannelTask \<Rightarrow> ChannelTask" where
  "recover_steering now channelID t =
     (if ct_ChannelID t = channelID \<and> ct_Status t = ChannelTaskSteering
      then t\<lparr>ct_Status := ChannelTaskSteerUnknown, ct_Error := steer_restart_text, ct_Prompt := [], ct_UpdatedAt := now\<rparr> else t)"

definition recover_running :: "gotime \<Rightarrow> string \<Rightarrow> ChannelTask \<Rightarrow> ChannelTask" where
  "recover_running now channelID t =
     (if ct_ChannelID t = channelID \<and> ct_Status t \<in> {ChannelTaskRunning, ChannelTaskWaitingInput}
      then t\<lparr>ct_Status := ChannelTaskInterrupted, ct_Error := ''AgentMux restarted while task was active'',
             ct_FinishedAt := now, ct_UpdatedAt := now, ct_Prompt := []\<rparr> else t)"

definition expire_interaction :: "gotime \<Rightarrow> string \<Rightarrow> ChannelTask list \<Rightarrow> ChannelInteraction \<Rightarrow> ChannelInteraction" where
  "expire_interaction now channelID tasks i =
     (if ci_ChannelID i = channelID \<and> ci_Status i = ChannelInteractionPending \<and>
         list_ex (\<lambda>t. ct_ID t = ci_TaskID i \<and> ct_ChannelID t = channelID \<and>
            ct_Status t \<in> {ChannelTaskRunning, ChannelTaskWaitingInput}) tasks
      then i\<lparr>ci_Status := ChannelInteractionExpired, ci_ResolvedAt := now, ci_ResolvedBy := ''system-restart''\<rparr> else i)"

definition RecoverChannelTasks ::
  "gotime \<Rightarrow> string \<Rightarrow> 'a channel_db_scheme \<Rightarrow> ChannelTask list option \<times> 'a channel_db_scheme" where
  "RecoverChannelTasks now channelID d0 =
     (case sql_exec (\<lambda>d. Some (d\<lparr>channel_tasks := map (recover_steering now channelID) (channel_tasks d)\<rparr>)) d0 of
        (False, d1) \<Rightarrow> (None, d1)
      | (True, d1) \<Rightarrow>
          (case sql_exec (\<lambda>d. Some (d\<lparr>channel_interactions :=
                   map (expire_interaction now channelID (channel_tasks d)) (channel_interactions d)\<rparr>)) d1 of
             (False, d2) \<Rightarrow> (None, d2)
           | (True, d2) \<Rightarrow>
               (case sql_exec (\<lambda>d. Some (d\<lparr>channel_tasks := map (recover_running now channelID) (channel_tasks d)\<rparr>)) d2 of
                  (False, d3) \<Rightarrow> (None, d3)
                | (True, d3) \<Rightarrow>
                    (case sql_query (\<lambda>d. filter (\<lambda>t. ct_ChannelID t = channelID \<and> ct_Status t = ChannelTaskQueued) (channel_tasks d)) d3 of
                       (None, d4) \<Rightarrow> (None, d4)
                     | (Some rows, d4) \<Rightarrow> (Some (sort_key (\<lambda>t. ct_CreatedAt t) (sort_key (\<lambda>t. ct_ID t) rows)), d4)))))"

section \<open>Feedback\<close>

text \<open>One row per task and user; the number of affected rows is returned as whether it is one.\<close>

definition SubmitChannelFeedback ::
  "gotime \<Rightarrow> string \<Rightarrow> ChannelFeedback \<Rightarrow> string \<Rightarrow> 'a channel_db_scheme \<Rightarrow> bool option \<times> 'a channel_db_scheme" where
  "SubmitChannelFeedback now newID feedback0 nonce d =
     (let feedback = feedback0\<lparr>cf_ID := (if cf_ID feedback0 = [] then newID else cf_ID feedback0),
            cf_CreatedAt := (if is_zero (cf_CreatedAt feedback0) then now else cf_CreatedAt feedback0), cf_UpdatedAt := now\<rparr>;
          eligible = (\<lambda>d. filter (\<lambda>t. ct_ID t = cf_TaskID feedback \<and> ct_FeedbackNonce t = nonce \<and> ct_UserID t = cf_UserID feedback \<and>
                ct_Status t = ChannelTaskSucceeded \<and> ct_DeliveryStatus t = ''sent'') (channel_tasks d));
          same = (\<lambda>t q. cf_TaskID q = ct_ID t \<and> cf_UserID q = cf_UserID feedback);
          stmt = (\<lambda>d. case eligible d of
             [] \<Rightarrow> Some d
           | t # _ \<Rightarrow>
               if list_ex (same t) (channel_feedback d) then
                 Some (d\<lparr>channel_feedback := map (\<lambda>q. if same t q then q\<lparr>cf_Semantic := cf_Semantic feedback, cf_Reason := cf_Reason feedback,
                    cf_Comment := cf_Comment feedback, cf_UpdatedAt := cf_UpdatedAt feedback\<rparr> else q) (channel_feedback d)\<rparr>)
               else if list_ex (\<lambda>q. cf_ID q = cf_ID feedback) (channel_feedback d) then None
               else Some (d\<lparr>channel_feedback := channel_feedback d @ [feedback\<lparr>cf_TaskID := ct_ID t, cf_ChannelID := ct_ChannelID t,
                    cf_ConversationID := ct_ConversationID t\<rparr>]\<rparr>))
      in case sql_exec stmt d of
           (False, d') \<Rightarrow> (None, d')
         | (True, d') \<Rightarrow> (Some (eligible d \<noteq> []), d'))"

definition ListChannelFeedback ::
  "string \<Rightarrow> string \<Rightarrow> int \<Rightarrow> 'a channel_db_scheme \<Rightarrow> ChannelFeedback list option \<times> 'a channel_db_scheme" where
  "ListChannelFeedback channelID taskID limit =
     (let n = (if limit \<le> 0 \<or> limit > 1000 then 200 else limit)
      in sql_query (\<lambda>d. take (nat n) (sort_key (\<lambda>f. - time_key d (formatControlTime (cf_UpdatedAt f)))
           (filter (\<lambda>f. (channelID \<noteq> [] \<longrightarrow> cf_ChannelID f = channelID) \<and> (taskID \<noteq> [] \<longrightarrow> cf_TaskID f = taskID))
             (channel_feedback d)))))"

definition UpdateChannelFeedbackDetail ::
  "gotime \<Rightarrow> string \<Rightarrow> string \<Rightarrow> string \<Rightarrow> 'a channel_db_scheme \<Rightarrow> bool option \<times> 'a channel_db_scheme" where
  "UpdateChannelFeedbackDetail now i reason comment d =
     (case sql_exec (\<lambda>d. Some (d\<lparr>channel_feedback := map (\<lambda>q. if cf_ID q = i
             then q\<lparr>cf_Reason := reason, cf_Comment := comment, cf_UpdatedAt := now\<rparr> else q) (channel_feedback d)\<rparr>)) d of
        (False, d') \<Rightarrow> (None, d')
      | (True, d') \<Rightarrow> (Some (length (filter (\<lambda>q. cf_ID q = i) (channel_feedback d)) = 1), d'))"

section \<open>Interactions\<close>

definition CreateChannelInteraction :: "ChannelInteraction \<Rightarrow> 'a channel_db_scheme \<Rightarrow> bool \<times> 'a channel_db_scheme" where
  "CreateChannelInteraction i = sql_exec (\<lambda>d. if list_ex (\<lambda>q. ci_ID q = ci_ID i) (channel_interactions d) then None
     else Some (d\<lparr>channel_interactions := channel_interactions d @ [i]\<rparr>))"

definition UpdateChannelInteractionMessage :: "string \<Rightarrow> string \<Rightarrow> 'a channel_db_scheme \<Rightarrow> bool \<times> 'a channel_db_scheme" where
  "UpdateChannelInteractionMessage i messageID = sql_exec (\<lambda>d. Some (d\<lparr>channel_interactions :=
     map (\<lambda>q. if ci_ID q = i \<and> ci_Status q = ChannelInteractionPending then q\<lparr>ci_MessageID := messageID\<rparr> else q) (channel_interactions d)\<rparr>))"

definition resolvable :: "string \<Rightarrow> string \<Rightarrow> ChannelInteraction \<Rightarrow> bool" where
  "resolvable i nonce q \<longleftrightarrow> ci_ID q = i \<and> ci_Nonce q = nonce \<and> ci_Status q = ChannelInteractionPending"

definition ResolveChannelInteraction ::
  "gotime \<Rightarrow> string \<Rightarrow> string \<Rightarrow> string \<Rightarrow> ChannelInteractionStatus \<Rightarrow> 'a channel_db_scheme \<Rightarrow> bool option \<times> 'a channel_db_scheme" where
  "ResolveChannelInteraction now i nonce actor status d =
     (case sql_exec (\<lambda>d. Some (d\<lparr>channel_interactions :=
             map (\<lambda>q. if resolvable i nonce q then q\<lparr>ci_Status := status, ci_ResolvedAt := now, ci_ResolvedBy := actor\<rparr> else q)
               (channel_interactions d)\<rparr>)) d of
        (False, d') \<Rightarrow> (None, d')
      | (True, d') \<Rightarrow> (Some (length (filter (resolvable i nonce) (channel_interactions d)) = 1), d'))"

definition GetChannelInteraction :: "string \<Rightarrow> 'a channel_db_scheme \<Rightarrow> ChannelInteraction option option \<times> 'a channel_db_scheme" where
  "GetChannelInteraction i = sql_query (\<lambda>d. table_find ci_ID i (channel_interactions d))"

definition ListChannelInteractions ::
  "string \<Rightarrow> string \<Rightarrow> bool \<Rightarrow> 'a channel_db_scheme \<Rightarrow> ChannelInteraction list option \<times> 'a channel_db_scheme" where
  "ListChannelInteractions channelID conversationID pendingOnly = sql_query (\<lambda>d.
     sort_key (\<lambda>i. - time_key d (formatControlTime (ci_CreatedAt i)))
       (filter (\<lambda>i. (channelID \<noteq> [] \<longrightarrow> ci_ChannelID i = channelID) \<and> (conversationID \<noteq> [] \<longrightarrow> ci_ConversationID i = conversationID) \<and>
                    (pendingOnly \<longrightarrow> ci_Status i = ChannelInteractionPending)) (channel_interactions d)))"

section \<open>The contract of the control store\<close>

text \<open>
  What the queue relies on: a create adds one row with a new id, an update overwrites the row with the task's id
  and no other, recovery settles every task that was in an agent's hands, and a failed call changes no status.
\<close>

locale control_store =
  fixes rows :: "'d \<Rightarrow> ChannelTask list"
    and create :: "gotime \<Rightarrow> ChannelTask \<Rightarrow> 'd \<Rightarrow> bool \<times> 'd"
    and update :: "gotime \<Rightarrow> ChannelTask \<Rightarrow> 'd \<Rightarrow> bool \<times> 'd"
    and recover :: "gotime \<Rightarrow> string \<Rightarrow> 'd \<Rightarrow> ChannelTask list option \<times> 'd"
  assumes create_rows: "create now t d = (ok, d') \<Longrightarrow>
      (ok \<longrightarrow> ct_ID t \<notin> ct_ID ` set (rows d) \<and>
         (\<exists>r. rows d' = rows d @ [r] \<and> ct_ID r = ct_ID t \<and> ct_Status r = ct_Status t)) \<and>
      (\<not> ok \<longrightarrow> rows d' = rows d)"
    and update_rows: "update now t d = (ok, d') \<Longrightarrow>
      rows d' = (if ok then map (\<lambda>r. if ct_ID r = ct_ID t then write_channel_task now t r else r) (rows d) else rows d)"
    and recover_ids: "recover now ch d = (res, d') \<Longrightarrow> map ct_ID (rows d') = map ct_ID (rows d)"
    and recover_queued: "recover now ch d = (res, d') \<Longrightarrow>
      filter (\<lambda>r. ct_Status r = ChannelTaskQueued) (rows d') = filter (\<lambda>r. ct_Status r = ChannelTaskQueued) (rows d)"
    and recover_result: "recover now ch d = (Some ts, d') \<Longrightarrow>
      mset ts = mset (filter (\<lambda>r. ct_ChannelID r = ch \<and> ct_Status r = ChannelTaskQueued) (rows d'))"
begin

text \<open>No row that may be handed out has an id of the given list.\<close>

definition settled :: "string list \<Rightarrow> 'd \<Rightarrow> bool" where
  "settled sent d \<longleftrightarrow> distinct (map ct_ID (rows d)) \<and> (\<forall>r\<in>set (rows d). ct_Status r = ChannelTaskQueued \<longrightarrow> ct_ID r \<notin> set sent)"

lemma settled_update:
  assumes "settled sent d" "update now t d = (ok, d')" "ct_Status t = ChannelTaskQueued \<longrightarrow> ct_ID t \<notin> set sent"
  shows "settled sent d'"
proof -
  have "map ct_ID (rows d') = map ct_ID (rows d)"
    using update_rows [OF assms(2)] by (auto simp: write_channel_task_def)
  then show ?thesis using assms update_rows [OF assms(2)] by (auto simp: settled_def write_channel_task_def)
qed

text \<open>Handing out a task whose claim was committed keeps the store settled.\<close>

lemma settled_claim:
  assumes "settled sent d" "update now t d = (True, d')" "ct_Status t \<noteq> ChannelTaskQueued"
  shows "settled (sent @ [ct_ID t]) d'"
  using settled_update [OF assms(1,2)] assms(3) update_rows [OF assms(2)]
  by (auto simp: settled_def write_channel_task_def)

lemma settled_create:
  assumes "settled sent d" "create now t d = (ok, d')" "ct_ID t \<notin> set sent"
  shows "settled sent d'"
  using assms create_rows [OF assms(2)] by (cases ok) (auto simp: settled_def)

lemma settled_create_running:
  assumes "settled sent d" "create now t d = (True, d')" "ct_Status t \<noteq> ChannelTaskQueued"
  shows "settled (sent @ [ct_ID t]) d'"
  using assms create_rows [OF assms(2)] by (auto simp: settled_def image_iff) metis

lemma settled_forget: "settled sent d \<Longrightarrow> settled (filter P sent) d"
  by (auto simp: settled_def)

lemma settled_recover:
  assumes "settled sent d" "recover now ch d = (res, d')"
  shows "settled sent d'"
proof -
  have "r \<in> set (rows d)" if "r \<in> set (rows d')" "ct_Status r = ChannelTaskQueued" for r
    using that arg_cong [OF recover_queued [OF assms(2)], of set] by auto
  then show ?thesis using assms(1) recover_ids [OF assms(2)] by (simp add: settled_def)
qed

text \<open>What recovery returns may all be handed out, once.\<close>

lemma recovered_fresh:
  assumes "settled sent d" "recover now ch d = (Some ts, d')"
  shows "distinct (map ct_ID ts)" "\<And>t. t \<in> set ts \<Longrightarrow> ct_Status t = ChannelTaskQueued \<and> ct_ID t \<notin> set sent"
proof -
  have m: "mset ts = mset (filter (\<lambda>r. ct_ChannelID r = ch \<and> ct_Status r = ChannelTaskQueued) (rows d'))"
    by (rule recover_result [OF assms(2)])
  have s: "settled sent d'" by (rule settled_recover [OF assms])
  then have "distinct (map ct_ID (filter (\<lambda>r. ct_ChannelID r = ch \<and> ct_Status r = ChannelTaskQueued) (rows d')))"
    by (simp add: settled_def distinct_map_filter)
  then show "distinct (map ct_ID ts)" using m by (metis mset_eq_imp_distinct_iff mset_map)
  show "ct_Status t = ChannelTaskQueued \<and> ct_ID t \<notin> set sent" if "t \<in> set ts" for t
    using that s mset_eq_setD [OF m] by (auto simp: settled_def)
qed

end

lemma CreateChannelTask_rows:
  assumes "CreateChannelTask now t d = (ok, d')"
  shows "(ok \<longrightarrow> ct_ID t \<notin> ct_ID ` set (channel_tasks d) \<and>
      (\<exists>r. channel_tasks d' = channel_tasks d @ [r] \<and> ct_ID r = ct_ID t \<and> ct_Status r = ct_Status t)) \<and>
    (\<not> ok \<longrightarrow> channel_tasks d' = channel_tasks d)"
  using assms by (auto simp: CreateChannelTask_def sql_exec_def task_row_def list_ex_iff Let_def split: if_splits)

lemma UpdateChannelTask_rows:
  assumes "UpdateChannelTask now t d = (ok, d')"
  shows "channel_tasks d' =
    (if ok then map (\<lambda>r. if ct_ID r = ct_ID t then write_channel_task now t r else r) (channel_tasks d) else channel_tasks d)"
  using assms by (auto simp: UpdateChannelTask_def sql_exec_def Let_def split: if_splits)

lemma filter_map_queued:
  assumes "\<And>r. ct_Status r \<noteq> ChannelTaskQueued \<Longrightarrow> ct_Status (f r) \<noteq> ChannelTaskQueued" "\<And>r. ct_Status r = ChannelTaskQueued \<Longrightarrow> f r = r"
  shows "filter (\<lambda>r. ct_Status r = ChannelTaskQueued) (map f rs) = filter (\<lambda>r. ct_Status r = ChannelTaskQueued) rs"
  using assms by (induction rs) auto

lemma recover_steering_row [simp]:
  "ct_ID (recover_steering now ch r) = ct_ID r"
  "filter (\<lambda>r. ct_Status r = ChannelTaskQueued) (map (recover_steering now ch) rs) = filter (\<lambda>r. ct_Status r = ChannelTaskQueued) rs"
  by (simp add: recover_steering_def) (rule filter_map_queued; simp add: recover_steering_def)

lemma recover_running_row [simp]:
  "ct_ID (recover_running now ch r) = ct_ID r"
  "filter (\<lambda>r. ct_Status r = ChannelTaskQueued) (map (recover_running now ch) rs) = filter (\<lambda>r. ct_Status r = ChannelTaskQueued) rs"
  by (simp add: recover_running_def) (rule filter_map_queued; simp add: recover_running_def)

lemma RecoverChannelTasks_rows:
  assumes "RecoverChannelTasks now ch d = (res, d')"
  shows "channel_tasks d' \<in> {channel_tasks d, map (recover_steering now ch) (channel_tasks d),
           map (recover_running now ch) (map (recover_steering now ch) (channel_tasks d))}"
  using assms by (auto simp: RecoverChannelTasks_def sql_exec_def sql_query_def Let_def split: if_splits)

lemma RecoverChannelTasks_result:
  assumes "RecoverChannelTasks now ch d = (Some ts, d')"
  shows "mset ts = mset (filter (\<lambda>r. ct_ChannelID r = ch \<and> ct_Status r = ChannelTaskQueued) (channel_tasks d'))"
    and "channel_tasks d' = map (recover_running now ch) (map (recover_steering now ch) (channel_tasks d))"
  using assms by (auto simp: RecoverChannelTasks_def sql_exec_def sql_query_def Let_def split: if_splits)

interpretation control: control_store channel_tasks CreateChannelTask UpdateChannelTask RecoverChannelTasks
proof (unfold_locales, goal_cases)
  case 1 then show ?case by (rule CreateChannelTask_rows)
next
  case 2 then show ?case by (rule UpdateChannelTask_rows)
next
  case 3 then show ?case using RecoverChannelTasks_rows by (fastforce simp: comp_def)
next
  case (4 now ch d res d')
  then show ?case using RecoverChannelTasks_rows [of now ch d res d'] by (auto simp del: map_map)
next
  case 5 then show ?case by (rule RecoverChannelTasks_result)
qed

end
