(* ===== verification/Channel_Queue.thy ===== *)
theory Channel_Queue
  imports Channel_Store "HOL-Library.Sublist"
begin

text \<open>
  The per-conversation task queue of core/channel_remote.go and core/channel_queue.go: admission of messages,
  the FIFO queue, starting, finishing, cancelling and steering tasks, delivery records and recovery after a
  restart. Each definition is one critical section under \<^verbatim>\<open>controlMu\<close>; a handler with several sections has one
  definition for each. Cards, replies and hooks only render the state and are left out. Tasks are told apart by
  their id, which \<^verbatim>\<open>NewChannelControlID\<close> draws at random. A write that happens after the lock is released is
  put on \<open>rt_writes\<close> and done later by \<open>write_snapshot\<close>.
\<close>

section \<open>Messages and conversations\<close>

record Message =
  ms_ID :: string
  ms_ChatID :: string
  ms_ChatType :: string
  ms_RootID :: string
  ms_ThreadID :: string
  ms_UserID :: string
  ms_Platform :: string
  ms_ConversationKey :: string
  ms_SourceMessageID :: string
  ms_ChatMode :: string
  ms_ReplyInThread :: bool
  ms_Text :: string
  ms_InteractionMessageID :: string

definition lower_byte :: "char \<Rightarrow> char" where
  "lower_byte c = (if in_bytes 65 90 c then char_of (byte_of c + 32) else c)"

text \<open>
  \<^verbatim>\<open>strings.ToLower\<close> for a comparison with an ASCII word: besides the ASCII capitals only U+0130 and U+212A
  have an ASCII lower case. \<^verbatim>\<open>strings.EqualFold\<close> with an ASCII word also accepts U+017F and U+212A.
\<close>

definition to_lower :: "string \<Rightarrow> string" where
  "to_lower s = concat (map (\<lambda>r. if map byte_of r = [0xC4, 0xB0] then ''i''
     else if map byte_of r = [0xE2, 0x84, 0xAA] then ''k'' else map lower_byte r) (rune_split s))"

definition equal_fold :: "string \<Rightarrow> string \<Rightarrow> bool" where
  "equal_fold s word \<longleftrightarrow> concat (map (\<lambda>r. if map byte_of r = [0xC5, 0xBF] then ''s''
     else if map byte_of r = [0xE2, 0x84, 0xAA] then ''k'' else map lower_byte r) (rune_split s)) = word"

definition isDirectChatType :: "string \<Rightarrow> bool" where
  "isDirectChatType chatType \<longleftrightarrow> to_lower (trim_space chatType) \<in> set [''p2p'', ''private'', ''direct'', ''dm'']"

definition ResolveConversationKey :: "Message \<Rightarrow> string" where
  "ResolveConversationKey msg =
     (let key = trim_space (ms_ConversationKey msg); chatID = trim_space (ms_ChatID msg);
          threadID = trim_space (ms_ThreadID msg); rootID = trim_space (ms_RootID msg)
      in if key \<noteq> [] then key
         else if isDirectChatType (ms_ChatType msg) then ''chat:'' @ chatID
         else if threadID \<noteq> [] then ''thread:'' @ threadID
         else if rootID \<noteq> [] then ''root:'' @ rootID
         else if ms_ID msg \<noteq> [] \<and> \<not> isDirectChatType (ms_ChatType msg) \<and>
                 (equal_fold (ms_Platform msg) ''feishu'' \<or> equal_fold (ms_Platform msg) ''lark'') then ''root:'' @ ms_ID msg
         else ''chat:'' @ chatID)"

section \<open>The runtime of a channel\<close>

text \<open>
  A task in memory. Of its agent session only what the handlers ask matters: whether it is interactive, its
  active turn, and whether its generation is retired.
\<close>

record runtimeChannelTask =
  qt_task :: ChannelTask
  qt_msg :: Message
  qt_interactive :: bool
  qt_ActiveTurnID :: string
  qt_retired :: bool
  qt_stopRequested :: bool
  qt_runErr :: string

abbreviation qt_id :: "runtimeChannelTask \<Rightarrow> string" where
  "qt_id q \<equiv> ct_ID (qt_task q)"

record channelControlState =
  st_active :: "runtimeChannelTask option"
  st_queue :: "runtimeChannelTask list"
  st_steering :: bool

definition empty_state :: channelControlState where
  "empty_state = \<lparr>st_active = None, st_queue = [], st_steering = False\<rparr>"

text \<open>A turn that runs outside the queue (core/channel_direct.go).\<close>

record directChannelTurn =
  dt_controllerID :: string
  dt_stopRequested :: bool
  dt_task :: "ChannelTask option"
  dt_runErr :: string

text \<open>
  The runtime: its control states (\<open>controlStateLocked\<close> creates a missing one empty), the direct turns, the
  pending confirmations of \<^verbatim>\<open>/queue clear\<close>, whether its context is alive, and the control store if the engine has
  one. \<open>rt_ended\<close> are the tasks that left the queue but are still referenced by a goroutine, \<open>rt_writes\<close> the
  snapshots a goroutine still has to write. The last three fields record history for the proofs: the ids whose
  prompt an agent has or may have received, and for each conversation the ids admitted and started, in order,
  since the process started.
\<close>

record 'd channelRuntime =
  rt_store :: "'d option"
  rt_channelID :: string
  rt_config :: channel_config
  rt_control :: "string \<Rightarrow> channelControlState"
  rt_direct :: "string \<Rightarrow> directChannelTurn option"
  rt_clearConfirm :: "string \<Rightarrow> gotime option"
  rt_live :: bool
  rt_ended :: "runtimeChannelTask list"
  rt_writes :: "ChannelTask list"
  rt_sent :: "string list"
  rt_admitted :: "string \<Rightarrow> string list"
  rt_started :: "string \<Rightarrow> string list"

type_synonym 'a runtime = "'a channel_db_scheme channelRuntime"

definition set_state :: "string \<Rightarrow> channelControlState \<Rightarrow> 'd channelRuntime \<Rightarrow> 'd channelRuntime" where
  "set_state key st rt = rt\<lparr>rt_control := (rt_control rt)(key := st)\<rparr>"

definition updateRemoteTask :: "gotime \<Rightarrow> ChannelTask \<Rightarrow> 'a runtime \<Rightarrow> bool \<times> 'a runtime" where
  "updateRemoteTask now task rt =
     (case rt_store rt of
        None \<Rightarrow> (True, rt)
      | Some d \<Rightarrow> (case UpdateChannelTask now task d of (ok, d') \<Rightarrow> (ok, rt\<lparr>rt_store := Some d'\<rparr>)))"

definition create_task :: "gotime \<Rightarrow> ChannelTask \<Rightarrow> 'a runtime \<Rightarrow> bool \<times> 'a runtime" where
  "create_task now task rt =
     (case rt_store rt of
        None \<Rightarrow> (True, rt)
      | Some d \<Rightarrow> (case CreateChannelTask now task d of (ok, d') \<Rightarrow> (ok, rt\<lparr>rt_store := Some d'\<rparr>)))"

definition push_write :: "ChannelTask \<Rightarrow> 'd channelRuntime \<Rightarrow> 'd channelRuntime" where
  "push_write t rt = rt\<lparr>rt_writes := rt_writes rt @ [t]\<rparr>"

text \<open>Writers that hold no lock finish in any order.\<close>

definition write_snapshot :: "gotime \<Rightarrow> nat \<Rightarrow> 'a runtime \<Rightarrow> 'a runtime" where
  "write_snapshot now n rt =
     (if n < length (rt_writes rt)
      then snd (updateRemoteTask now (rt_writes rt ! n) (rt\<lparr>rt_writes := take n (rt_writes rt) @ drop (Suc n) (rt_writes rt)\<rparr>))
      else rt)"

definition push_ended :: "runtimeChannelTask list \<Rightarrow> 'd channelRuntime \<Rightarrow> 'd channelRuntime" where
  "push_ended qs rt = rt\<lparr>rt_ended := rt_ended rt @ qs\<rparr>"

definition mark_sent :: "string \<Rightarrow> 'd channelRuntime \<Rightarrow> 'd channelRuntime" where
  "mark_sent i rt = rt\<lparr>rt_sent := rt_sent rt @ [i]\<rparr>"

definition mark_admitted :: "string \<Rightarrow> string \<Rightarrow> 'd channelRuntime \<Rightarrow> 'd channelRuntime" where
  "mark_admitted key i rt = rt\<lparr>rt_admitted := (rt_admitted rt)(key := rt_admitted rt key @ [i])\<rparr>"

definition mark_started :: "string \<Rightarrow> string \<Rightarrow> 'd channelRuntime \<Rightarrow> 'd channelRuntime" where
  "mark_started key i rt = mark_sent i (rt\<lparr>rt_started := (rt_started rt)(key := rt_started rt key @ [i])\<rparr>)"

definition newRemoteTask :: "gotime \<Rightarrow> string \<Rightarrow> string \<Rightarrow> string \<Rightarrow> Message \<Rightarrow> string \<Rightarrow> ChannelTaskStatus \<Rightarrow> runtimeChannelTask" where
  "newRemoteTask now taskID feedbackNonce channelID msg prompt status =
     \<lparr>qt_task = \<lparr>ct_SourceMessageID = ms_SourceMessageID msg, ct_ChatMode = ms_ChatMode msg, ct_ReplyInThread = ms_ReplyInThread msg,
        ct_ControlCardID = [], ct_ControlNonce = [], ct_TargetTaskID = [], ct_QueuePosition = 0, ct_CanSteer = False,
        ct_ID = taskID, ct_ChannelID = channelID, ct_ConversationID = [], ct_ConversationKey = ResolveConversationKey msg,
        ct_ChatID = ms_ChatID msg, ct_MessageID = ms_ID msg, ct_ChatType = ms_ChatType msg, ct_RootID = ms_RootID msg,
        ct_ThreadID = ms_ThreadID msg, ct_UserID = ms_UserID msg, ct_ControllerID = ms_UserID msg, ct_NativeThreadID = [],
        ct_TurnID = [], ct_Status = status, ct_Error = [], ct_DeliveryKey = ''turn:'' @ taskID, ct_DeliveryStatus = ''pending'',
        ct_DeliveryAttempts = 0, ct_DeliveryError = [], ct_DeliveredAt = 0, ct_FeedbackNonce = feedbackNonce, ct_Prompt = prompt,
        ct_CreatedAt = now, ct_StartedAt = 0, ct_FinishedAt = 0, ct_UpdatedAt = now\<rparr>,
      qt_msg = msg\<lparr>ms_Text := prompt\<rparr>, qt_interactive = False, qt_ActiveTurnID = [], qt_retired = False,
      qt_stopRequested = False, qt_runErr = []\<rparr>"

text \<open>The claim of the next task: committed as running before it is launched.\<close>

definition startNextRemoteLocked :: "gotime \<Rightarrow> string \<Rightarrow> 'a runtime \<Rightarrow> 'a runtime" where
  "startNextRemoteLocked now key rt =
     (let st = rt_control rt key in
      if st_active st \<noteq> None \<or> st_steering st \<or> \<not> rt_live rt then rt
      else (case st_queue st of
         [] \<Rightarrow> rt
       | q # rest \<Rightarrow>
           if ct_ConversationKey (qt_task q) \<in> dom (rt_direct rt) then rt
           else (let t = (qt_task q)\<lparr>ct_Status := ChannelTaskRunning, ct_StartedAt := now, ct_Prompt := []\<rparr>
                 in case updateRemoteTask now t rt of
                      (False, rt') \<Rightarrow> rt'
                    | (True, rt') \<Rightarrow>
                        mark_started key (qt_id q)
                          (set_state key (st\<lparr>st_queue := rest, st_active := Some (q\<lparr>qt_task := t\<rparr>)\<rparr>) rt'))))"

datatype queue_error = EmptyPrompt | QueueFull int | StoreFailed | TaskGone | BadNonce | NotAllowed
  | TargetGone | NotSteerable | SteerBusy | Rejected string | Unconfirmed string

definition enqueueRemoteTask ::
  "gotime \<Rightarrow> string \<Rightarrow> string \<Rightarrow> string \<Rightarrow> Message \<Rightarrow> string \<Rightarrow> 'a runtime \<Rightarrow> (queue_error + runtimeChannelTask) \<times> 'a runtime" where
  "enqueueRemoteTask now taskID feedbackNonce controlNonce msg prompt rt =
     (if trim_space prompt = [] then (Inl EmptyPrompt, rt)
      else (let key = ResolveConversationKey msg; st = rt_control rt key in
        if int (length (st_queue st)) \<ge> ChannelCodexMaxQueue (rt_config rt) then (Inl (QueueFull (ChannelCodexMaxQueue (rt_config rt))), rt)
        else (let q0 = newRemoteTask now taskID feedbackNonce (rt_channelID rt) msg prompt ChannelTaskQueued;
                  t1 = (qt_task q0)\<lparr>ct_ControlNonce := controlNonce\<rparr>;
                  t2 = (case st_active st of None \<Rightarrow> t1
                        | Some a \<Rightarrow> t1\<lparr>ct_TargetTaskID := qt_id a, ct_ConversationID := ct_ConversationID (qt_task a)\<rparr>);
                  q = q0\<lparr>qt_task := t2\<rparr>
              in case create_task now t2 rt of
                   (False, rt') \<Rightarrow> (Inl StoreFailed, rt')
                 | (True, rt') \<Rightarrow>
                     (Inr q, startNextRemoteLocked now key
                        (mark_admitted key taskID (set_state key (st\<lparr>st_queue := st_queue st @ [q]\<rparr>) rt'))))))"

text \<open>
  The end of \<open>handleChannelMessage\<close> (lines 83 to 121): start at once when the conversation is idle. The lock is
  released between the check and the enqueue; an enqueue in a later state is a step of its own.
\<close>

definition admitMessage :: "gotime \<Rightarrow> string \<Rightarrow> string \<Rightarrow> string \<Rightarrow> Message \<Rightarrow> 'a runtime \<Rightarrow> (queue_error + runtimeChannelTask) \<times> 'a runtime" where
  "admitMessage now taskID feedbackNonce controlNonce msg rt =
     (let key = ResolveConversationKey msg; st = rt_control rt key in
      if st_active st \<noteq> None \<or> st_steering st \<or> st_queue st \<noteq> [] \<or> key \<in> dom (rt_direct rt)
      then enqueueRemoteTask now taskID feedbackNonce controlNonce msg (ms_Text msg) rt
      else (let q0 = newRemoteTask now taskID feedbackNonce (rt_channelID rt) msg (ms_Text msg) ChannelTaskRunning;
                q = q0\<lparr>qt_task := (qt_task q0)\<lparr>ct_Prompt := [], ct_StartedAt := now\<rparr>\<rparr>
            in case create_task now (qt_task q) rt of
                 (False, rt') \<Rightarrow> (Inl StoreFailed, rt')
               | (True, rt') \<Rightarrow>
                   (Inr q, mark_started key taskID (mark_admitted key taskID (set_state key (st\<lparr>st_active := Some q\<rparr>) rt')))))"

text \<open>The outcome \<open>runRemoteTask\<close> reports (lines 289 to 312); \<open>parentErr\<close> is the error of a cancelled parent context.\<close>

definition remote_outcome :: "bool \<Rightarrow> string option \<Rightarrow> string \<Rightarrow> runtimeChannelTask \<Rightarrow> ChannelTaskStatus \<times> string" where
  "remote_outcome deadline parentErr timeoutText q =
     (let (status, errText) =
        (if deadline then (ChannelTaskInterrupted, ''task exceeded '' @ timeoutText @ '' timeout'')
         else (case parentErr of Some e \<Rightarrow> (ChannelTaskInterrupted, e) | None \<Rightarrow> (ChannelTaskSucceeded, [])))
      in if qt_stopRequested q then (ChannelTaskInterrupted, ''interrupted by task controller'')
         else if qt_runErr q \<noteq> [] then (ChannelTaskFailed, qt_runErr q)
         else (status, errText))"

definition finishRemoteTask :: "gotime \<Rightarrow> runtimeChannelTask \<Rightarrow> ChannelTaskStatus \<Rightarrow> string \<Rightarrow> 'a runtime \<Rightarrow> 'a runtime" where
  "finishRemoteTask now q status errText rt =
     (let key = ct_ConversationKey (qt_task q); st = rt_control rt key;
          t = (qt_task q)\<lparr>ct_Status := status, ct_Error := errText, ct_FinishedAt := now, ct_UpdatedAt := now, ct_Prompt := []\<rparr>;
          rt1 = snd (updateRemoteTask now t rt);
          st' = (case st_active st of Some a \<Rightarrow> if qt_id a = qt_id q then st\<lparr>st_active := None\<rparr> else st | None \<Rightarrow> st)
      in startNextRemoteLocked now key (push_ended [q\<lparr>qt_task := t\<rparr>] (set_state key st' rt1)))"

text \<open>
  An event of an agent concerns the active task of a conversation or else its direct turn.
  \<open>on_live_task\<close> applies the change to the task with the given id and returns the task it became.
\<close>

definition on_live_task ::
  "(ChannelTask \<Rightarrow> ChannelTask) \<Rightarrow> (string \<Rightarrow> string) \<Rightarrow> string \<Rightarrow> string \<Rightarrow> 'd channelRuntime \<Rightarrow> ChannelTask option \<times> 'd channelRuntime" where
  "on_live_task f g key taskID rt =
     (let st = rt_control rt key in
      case find (\<lambda>a. qt_id a = taskID) (case st_active st of Some a \<Rightarrow> [a] | None \<Rightarrow> []) of
        Some a \<Rightarrow>
          (Some (f (qt_task a)), set_state key (st\<lparr>st_active := Some (a\<lparr>qt_task := f (qt_task a), qt_runErr := g (qt_runErr a)\<rparr>)\<rparr>) rt)
      | None \<Rightarrow>
          (case rt_direct rt key of
             Some turn \<Rightarrow>
               (case dt_task turn of
                  Some t \<Rightarrow> if ct_ID t = taskID
                    then (Some (f t), rt\<lparr>rt_direct := (rt_direct rt)(key \<mapsto> turn\<lparr>dt_task := Some (f t), dt_runErr := g (dt_runErr turn)\<rparr>)\<rparr>)
                    else (None, rt)
                | None \<Rightarrow> (None, rt))
           | None \<Rightarrow> (None, rt)))"

definition live_task :: "string \<Rightarrow> string \<Rightarrow> 'd channelRuntime \<Rightarrow> ChannelTask option" where
  "live_task key taskID rt = fst (on_live_task (\<lambda>t. t) (\<lambda>e. e) key taskID rt)"

definition activeChannelTask :: "string \<Rightarrow> string \<Rightarrow> 'd channelRuntime \<Rightarrow> ChannelTask option" where
  "activeChannelTask key taskID rt = (if key = [] \<or> taskID = [] then None else live_task key taskID rt)"

definition markRemoteTaskError :: "string \<Rightarrow> string \<Rightarrow> string \<Rightarrow> 'd channelRuntime \<Rightarrow> 'd channelRuntime" where
  "markRemoteTaskError key taskID err rt =
     (if taskID = [] then rt
      else snd (on_live_task (\<lambda>t. t) (\<lambda>_. if trim_space err = [] then ''Agent task failed'' else trim_space err) key taskID rt))"

definition updateRemoteTaskFromEvent :: "gotime \<Rightarrow> string \<Rightarrow> string \<Rightarrow> string \<Rightarrow> 'd channelRuntime \<Rightarrow> 'd channelRuntime" where
  "updateRemoteTaskFromEvent now key taskID turnID rt =
     (if turnID = [] \<or> taskID = [] then rt
      else (case live_task key taskID rt of
         None \<Rightarrow> rt
       | Some t \<Rightarrow>
           if ct_TurnID t = turnID then rt
           else (case on_live_task (\<lambda>t. t\<lparr>ct_TurnID := turnID, ct_UpdatedAt := now\<rparr>) (\<lambda>e. e) key taskID rt of
              (Some t', rt') \<Rightarrow> push_write t' rt'
            | (None, rt') \<Rightarrow> rt')))"

text \<open>\<open>attachRemoteSession\<close>: the agent session of the active task becomes known.\<close>

definition attachRemoteSession ::
  "gotime \<Rightarrow> string \<Rightarrow> (bool \<times> string \<times> bool) \<Rightarrow> (string \<times> string) option \<Rightarrow> string \<Rightarrow> 'a runtime \<Rightarrow> 'a runtime" where
  "attachRemoteSession now key session conv nativeID rt =
     (case session of (interactive, turnID, retired) \<Rightarrow>
       (let st = rt_control rt key in
        case st_active st of
          None \<Rightarrow> rt
        | Some a \<Rightarrow>
            (let t0 = qt_task a;
                 t1 = (case conv of None \<Rightarrow> t0 | Some (cid, native) \<Rightarrow> t0\<lparr>ct_ConversationID := cid, ct_NativeThreadID := native\<rparr>);
                 t2 = (if nativeID \<noteq> [] then t1\<lparr>ct_NativeThreadID := nativeID\<rparr> else t1);
                 t3 = (if interactive then t2\<lparr>ct_TurnID := turnID\<rparr> else t2);
                 t4 = t3\<lparr>ct_UpdatedAt := now\<rparr>;
                 a' = a\<lparr>qt_task := t4, qt_interactive := interactive, qt_ActiveTurnID := turnID, qt_retired := retired\<rparr>
             in snd (updateRemoteTask now t4 (set_state key (st\<lparr>st_active := Some a'\<rparr>) rt)))))"

text \<open>
  A queue card was sent: its id is remembered with the task (lines 62 to 65 and 75 to 78), which may have been
  started or may have ended while the card was sent.
\<close>

definition update_item :: "string \<Rightarrow> (ChannelTask \<Rightarrow> ChannelTask) \<Rightarrow> runtimeChannelTask list \<Rightarrow> runtimeChannelTask list" where
  "update_item i f qs = map (\<lambda>q. if qt_id q = i then q\<lparr>qt_task := f (qt_task q)\<rparr> else q) qs"

definition save_card :: "gotime \<Rightarrow> string \<Rightarrow> string \<Rightarrow> string \<Rightarrow> 'a runtime \<Rightarrow> 'a runtime" where
  "save_card now key i cardID rt =
     (let st = rt_control rt key; put = (\<lambda>t. t\<lparr>ct_ControlCardID := cardID\<rparr>) in
      case find (\<lambda>q. qt_id q = i) (st_queue st) of
        Some q \<Rightarrow>
          snd (updateRemoteTask now (put (qt_task q)) (set_state key (st\<lparr>st_queue := update_item i put (st_queue st)\<rparr>) rt))
      | None \<Rightarrow>
          (case find (\<lambda>q. qt_id q = i) (case st_active st of Some a \<Rightarrow> [a] | None \<Rightarrow> []) of
             Some a \<Rightarrow>
               snd (updateRemoteTask now (put (qt_task a)) (set_state key (st\<lparr>st_active := Some (a\<lparr>qt_task := put (qt_task a)\<rparr>)\<rparr>) rt))
           | None \<Rightarrow>
               (case find (\<lambda>q. qt_id q = i) (rt_ended rt) of
                  Some q \<Rightarrow> snd (updateRemoteTask now (put (qt_task q)) (rt\<lparr>rt_ended := update_item i put (rt_ended rt)\<rparr>))
                | None \<Rightarrow> rt)))"

record ChannelTaskAction =
  ac_Nonce :: string
  ac_TaskID :: string
  ac_Action :: string

text \<open>
  The first critical section of \<open>controlQueuedTask\<close>: the checks, and then either the cancellation or the mark
  that a steer is in flight. From then on the agent may have received the prompt. \<open>manager\<close> is the platform's answer to \<open>isChatManager\<close>.
\<close>

definition controlQueuedTask ::
  "gotime \<Rightarrow> bool \<Rightarrow> Message \<Rightarrow> ChannelTaskAction \<Rightarrow> 'a runtime \<Rightarrow> (queue_error + bool) \<times> 'a runtime" where
  "controlQueuedTask now manager msg action rt =
     (let key = ResolveConversationKey msg; st = rt_control rt key in
      case find (\<lambda>q. qt_id q = ac_TaskID action) (st_queue st) of
        None \<Rightarrow> (Inl TaskGone, rt)
      | Some q \<Rightarrow>
          if ct_Status (qt_task q) \<noteq> ChannelTaskQueued then (Inl TaskGone, rt)
          else if ms_InteractionMessageID msg \<noteq> [] \<and> (ac_Nonce action = [] \<or> ac_Nonce action \<noteq> ct_ControlNonce (qt_task q))
          then (Inl BadNonce, rt)
          else if ct_UserID (qt_task q) \<noteq> ms_UserID msg \<and> \<not> manager then (Inl NotAllowed, rt)
          else if ac_Action action = ''cancel'' then
            (let t = (qt_task q)\<lparr>ct_Status := ChannelTaskCancelled, ct_FinishedAt := now, ct_Prompt := []\<rparr>
             in case updateRemoteTask now t rt of
                  (False, rt') \<Rightarrow> (Inl StoreFailed, rt')
                | (True, rt') \<Rightarrow>
                    (Inr False, startNextRemoteLocked now key (push_ended [q\<lparr>qt_task := t\<rparr>]
                       (set_state key (st\<lparr>st_queue := filter (\<lambda>p. qt_id p \<noteq> qt_id q) (st_queue st)\<rparr>) rt'))))
          else (case st_active st of
             None \<Rightarrow> (Inl TargetGone, rt)
           | Some a \<Rightarrow>
               if ac_Action action \<noteq> ''steer'' \<or> qt_id a \<noteq> ct_TargetTaskID (qt_task q) then (Inl TargetGone, rt)
               else if ct_ControllerID (qt_task a) \<noteq> ms_UserID msg \<and> \<not> manager then (Inl NotAllowed, rt)
               else if \<not> qt_interactive a \<or> qt_retired a then (Inl NotSteerable, rt)
               else if st_steering st then (Inl SteerBusy, rt)
               else (let t = (qt_task q)\<lparr>ct_TurnID := qt_ActiveTurnID a, ct_Status := ChannelTaskSteering\<rparr>
                     in case updateRemoteTask now t rt of
                          (False, rt') \<Rightarrow> (Inl StoreFailed, rt')
                        | (True, rt') \<Rightarrow>
                            (Inr True, mark_sent (qt_id q)
                              (set_state key (st\<lparr>st_queue := update_item (qt_id q) (\<lambda>_. t) (st_queue st), st_steering := True\<rparr>) rt')))))"

text \<open>What \<open>Steer\<close> returned: accepted, positively rejected, or anything else, which is ambiguous.\<close>

datatype steer_result = SteerAccepted | SteerRejected string | SteerAmbiguous string

definition steered_task :: "gotime \<Rightarrow> steer_result \<Rightarrow> ChannelTask \<Rightarrow> ChannelTask" where
  "steered_task now result t =
     (case result of
        SteerAccepted \<Rightarrow> t\<lparr>ct_Status := ChannelTaskSteered, ct_Prompt := [], ct_FinishedAt := now\<rparr>
      | SteerRejected e \<Rightarrow> t\<lparr>ct_Status := ChannelTaskQueued, ct_Error := steer_rejected_text @ e\<rparr>
      | SteerAmbiguous e \<Rightarrow> t\<lparr>ct_Status := ChannelTaskSteerUnknown, ct_Error := steer_unknown_text @ e, ct_Prompt := []\<rparr>)"

text \<open>
  The second critical section, after \<open>Steer\<close> returned; \<open>i\<close> is the item in flight. A rejection confirms that the
  agent did not receive the prompt.
\<close>

definition finishSteer :: "gotime \<Rightarrow> string \<Rightarrow> string \<Rightarrow> steer_result \<Rightarrow> 'a runtime \<Rightarrow> 'a runtime" where
  "finishSteer now key i result rt =
     (let st = rt_control rt key in
      case find (\<lambda>q. qt_id q = i) (st_queue st) of
        None \<Rightarrow> rt
      | Some q \<Rightarrow>
          (let t1 = steered_task now result (qt_task q);
               (ok, rt1) = updateRemoteTask now t1 rt;
               t2 = (if \<not> ok \<and> ct_Status t1 = ChannelTaskQueued
                     then t1\<lparr>ct_Status := ChannelTaskSteerUnknown, ct_Error := steer_save_failed_text\<rparr> else t1);
               queue' = (if ct_Status t2 \<noteq> ChannelTaskQueued then filter (\<lambda>p. qt_id p \<noteq> i) (st_queue st)
                         else update_item i (\<lambda>_. t2) (st_queue st));
               rt2 = (case result of SteerRejected _ \<Rightarrow> rt1\<lparr>rt_sent := filter (\<lambda>j. j \<noteq> i) (rt_sent rt1)\<rparr> | _ \<Rightarrow> rt1);
               rt3 = (if ct_Status t2 \<noteq> ChannelTaskQueued then push_ended [q\<lparr>qt_task := t2\<rparr>] rt2 else rt2)
           in startNextRemoteLocked now key (set_state key (st\<lparr>st_queue := queue', st_steering := False\<rparr>) rt3)))"

definition record_attempt :: "gotime \<Rightarrow> string option \<Rightarrow> bool \<Rightarrow> ChannelTask \<Rightarrow> ChannelTask" where
  "record_attempt now deliveryErr finalFailure t0 =
     (let t = t0\<lparr>ct_DeliveryAttempts := ct_DeliveryAttempts t0 + 1, ct_UpdatedAt := now\<rparr> in
      case deliveryErr of
        None \<Rightarrow> t\<lparr>ct_DeliveryStatus := ''sent'', ct_DeliveryError := [], ct_DeliveredAt := now\<rparr>
      | Some e \<Rightarrow> t\<lparr>ct_DeliveryError := e, ct_DeliveryStatus := (if finalFailure then ''failed'' else ''pending'')\<rparr>)"

definition attempt_error :: "string option \<Rightarrow> bool \<Rightarrow> string \<Rightarrow> string" where
  "attempt_error deliveryErr finalFailure old =
     (case deliveryErr of
        Some e \<Rightarrow> if finalFailure then ''final response delivery failed: '' @ e else old
      | None \<Rightarrow> old)"

definition recordChannelDeliveryAttempt ::
  "gotime \<Rightarrow> string \<Rightarrow> string \<Rightarrow> string option \<Rightarrow> bool \<Rightarrow> 'd channelRuntime \<Rightarrow> 'd channelRuntime" where
  "recordChannelDeliveryAttempt now key taskID deliveryErr finalFailure rt =
     (if key = [] \<or> taskID = [] then rt
      else (case on_live_task (record_attempt now deliveryErr finalFailure) (attempt_error deliveryErr finalFailure) key taskID rt of
         (Some t, rt') \<Rightarrow> push_write t rt'
       | (None, rt') \<Rightarrow> rt'))"

text \<open>Recovery: the stored queue is loaded completely before any task is started.\<close>

definition recovered_item :: "string \<Rightarrow> string \<Rightarrow> ChannelTask \<Rightarrow> runtimeChannelTask" where
  "recovered_item platform channelID t =
     \<lparr>qt_task = t,
      qt_msg = \<lparr>ms_ID = ct_MessageID t, ms_ChatID = ct_ChatID t, ms_ChatType = ct_ChatType t, ms_RootID = ct_RootID t,
        ms_ThreadID = ct_ThreadID t, ms_UserID = ct_UserID t, ms_Platform = platform, ms_ConversationKey = ct_ConversationKey t,
        ms_SourceMessageID = ct_SourceMessageID t, ms_ChatMode = ct_ChatMode t, ms_ReplyInThread = ct_ReplyInThread t,
        ms_Text = ct_Prompt t, ms_InteractionMessageID = []\<rparr>,
      qt_interactive = False, qt_ActiveTurnID = [], qt_retired = False, qt_stopRequested = False, qt_runErr = []\<rparr>"

fun load_queue :: "string \<Rightarrow> ChannelTask list \<Rightarrow> 'd channelRuntime \<Rightarrow> 'd channelRuntime" where
  "load_queue platform [] rt = rt"
| "load_queue platform (t # ts) rt =
     (let key = ct_ConversationKey t; st = rt_control rt key
      in load_queue platform ts (mark_admitted key (ct_ID t)
           (set_state key (st\<lparr>st_queue := st_queue st @ [recovered_item platform (rt_channelID rt) t]\<rparr>) rt)))"

text \<open>\<open>keys\<close> is the order in which the map of control states is ranged over.\<close>

definition recoverRemoteTasks :: "gotime \<Rightarrow> string \<Rightarrow> string list \<Rightarrow> 'a runtime \<Rightarrow> 'a runtime" where
  "recoverRemoteTasks now platform keys rt =
     (case rt_store rt of
        None \<Rightarrow> rt
      | Some d \<Rightarrow>
          (case RecoverChannelTasks now (rt_channelID rt) d of
             (None, d') \<Rightarrow> rt\<lparr>rt_store := Some d'\<rparr>
           | (Some tasks, d') \<Rightarrow>
               fold (startNextRemoteLocked now) keys (load_queue platform tasks (rt\<lparr>rt_store := Some d'\<rparr>))))"

end
