(* ===== verification/Channel_Control.thy ===== *)
theory Channel_Control
  imports Channel_Queue
begin

text \<open>
  The control operations of a channel beside the queue itself: direct turns (core/channel_direct.go), the
  commands of core/channel_remote_commands.go and core/conversation_control.go, the interactions an agent
  asks for (core/channel_remote_interactions.go) and feedback (core/channel_feedback.go). As in
  \<open>Channel_Queue\<close> a definition is one critical section, or one store call between two of them.
\<close>

section \<open>Who may control a conversation\<close>

text \<open>The platform's answer to \<^verbatim>\<open>CanManageConversationChat\<close>, if it has chats and did not fail.\<close>

type_synonym chat_platform = "string \<Rightarrow> string \<Rightarrow> bool option"

definition isChatManager :: "chat_platform \<Rightarrow> Message \<Rightarrow> bool" where
  "isChatManager platform msg \<longleftrightarrow> \<not> (ms_UserID msg = [] \<or> ms_ChatID msg = [] \<or> isDirectChatType (ms_ChatType msg)) \<and>
     platform (ms_ChatID msg) (ms_UserID msg) = Some True"

section \<open>Direct turns\<close>

definition normalizedConversationRuntimeKey :: "string \<Rightarrow> string" where
  "normalizedConversationRuntimeKey value = (if trim_space value = [] then ''default'' else trim_space value)"

definition beginDirectTurn :: "string \<Rightarrow> string \<Rightarrow> 'd channelRuntime \<Rightarrow> bool \<times> 'd channelRuntime" where
  "beginDirectTurn key0 controllerID rt =
     (let key = normalizedConversationRuntimeKey key0 in
      if st_active (rt_control rt key) \<noteq> None then (False, rt)
      else if rt_direct rt key \<noteq> None then (False, rt)
      else (True, rt\<lparr>rt_direct := (rt_direct rt)(key \<mapsto>
        \<lparr>dt_controllerID = controllerID, dt_stopRequested = False, dt_task = None, dt_runErr = []\<rparr>)\<rparr>))"

text \<open>
  The first section of \<open>finishDirectTurn\<close>. Only the goroutine that began a turn ends it, so the turn found is
  its own. \<open>ctxErr\<close> is the error of the turn's context. The finished task is written after the section.
\<close>

definition ended_direct_task :: "gotime \<Rightarrow> string option \<Rightarrow> directChannelTurn \<Rightarrow> ChannelTask \<Rightarrow> ChannelTask" where
  "ended_direct_task now ctxErr turn t0 =
     (let t = t0\<lparr>ct_FinishedAt := now, ct_UpdatedAt := now\<rparr> in
      if dt_stopRequested turn
      then t\<lparr>ct_Status := ChannelTaskInterrupted, ct_Error := (if ct_Error t = [] then ''interrupted by task controller'' else ct_Error t)\<rparr>
      else (case ctxErr of
          Some e \<Rightarrow> t\<lparr>ct_Status := ChannelTaskInterrupted, ct_Error := e\<rparr>
        | None \<Rightarrow>
            if dt_runErr turn \<noteq> [] then t\<lparr>ct_Status := ChannelTaskFailed, ct_Error := dt_runErr turn\<rparr>
            else t\<lparr>ct_Status := ChannelTaskSucceeded\<rparr>))"

definition detachDirectTurn :: "gotime \<Rightarrow> string option \<Rightarrow> string \<Rightarrow> 'd channelRuntime \<Rightarrow> 'd channelRuntime" where
  "detachDirectTurn now ctxErr key0 rt =
     (let key = normalizedConversationRuntimeKey key0 in
      case rt_direct rt key of
        None \<Rightarrow> rt
      | Some turn \<Rightarrow>
          (let rt' = rt\<lparr>rt_direct := (rt_direct rt)(key := None)\<rparr> in
           case dt_task turn of
             None \<Rightarrow> rt'
           | Some t \<Rightarrow> push_write (ended_direct_task now ctxErr turn t) rt'))"

text \<open>The whole of \<open>finishDirectTurn\<close> when nothing interleaves: detach, write, start the next queued task.\<close>

definition finishDirectTurn :: "gotime \<Rightarrow> string option \<Rightarrow> string \<Rightarrow> 'a runtime \<Rightarrow> 'a runtime" where
  "finishDirectTurn now ctxErr key rt =
     (let rt' = detachDirectTurn now ctxErr key rt
      in startNextRemoteLocked now (normalizedConversationRuntimeKey key)
           (if length (rt_writes rt) < length (rt_writes rt') then write_snapshot now (length (rt_writes rt)) rt' else rt'))"

text \<open>
  The task of a direct turn (core/channel_dispatch.go, 159 to 186): attached to the turn and stored. Its id is
  known to nobody else before that, so the two calls are one step. A failed create ends the turn with no task.
\<close>

definition attachDirectTask :: "string \<Rightarrow> ChannelTask \<Rightarrow> 'd channelRuntime \<Rightarrow> bool \<times> 'd channelRuntime" where
  "attachDirectTask key0 task rt =
     (let key = normalizedConversationRuntimeKey key0 in
      case rt_direct rt key of
        None \<Rightarrow> (False, rt)
      | Some turn \<Rightarrow> (True, rt\<lparr>rt_direct := (rt_direct rt)(key \<mapsto> turn\<lparr>dt_task := Some task\<rparr>)\<rparr>))"

definition startDirectTask ::
  "gotime \<Rightarrow> string \<Rightarrow> string \<Rightarrow> (string \<times> string) option \<Rightarrow> string \<Rightarrow> Message \<Rightarrow> 'a runtime \<Rightarrow> bool \<times> 'a runtime" where
  "startDirectTask now taskID feedbackNonce conv nativeID msg rt =
     (let key = ResolveConversationKey msg;
          t0 = (qt_task (newRemoteTask now taskID feedbackNonce (rt_channelID rt) msg [] ChannelTaskRunning))\<lparr>ct_StartedAt := now, ct_UpdatedAt := now\<rparr>;
          t1 = (case conv of None \<Rightarrow> t0 | Some (cid, native) \<Rightarrow> t0\<lparr>ct_ConversationID := cid, ct_NativeThreadID := native\<rparr>);
          t = (if nativeID \<noteq> [] then t1\<lparr>ct_NativeThreadID := nativeID\<rparr> else t1)
      in case attachDirectTask key t rt of
           (False, rt') \<Rightarrow> (False, rt')
         | (True, rt') \<Rightarrow>
             (case create_task now t rt' of
                (True, rt'') \<Rightarrow> (True, mark_sent taskID rt'')
              | (False, rt'') \<Rightarrow>
                  (let k = normalizedConversationRuntimeKey key
                   in (False, finishDirectTurn now (Some ''context canceled'') key
                        (rt''\<lparr>rt_direct := (rt_direct rt'')(k := map_option (\<lambda>turn. turn\<lparr>dt_task := None\<rparr>) (rt_direct rt'' k))\<rparr>)))))"

definition stop_direct :: "string \<Rightarrow> 'd channelRuntime \<Rightarrow> 'd channelRuntime" where
  "stop_direct key rt = rt\<lparr>rt_direct := (rt_direct rt)(key := map_option (\<lambda>turn. turn\<lparr>dt_stopRequested := True\<rparr>) (rt_direct rt key))\<rparr>"

datatype stop_reply = NoActiveTask | NoLongerCurrent | StopNotAllowed | StopRequested | UnknownAction

definition handleDirectStop :: "bool \<Rightarrow> Message \<Rightarrow> 'd channelRuntime \<Rightarrow> stop_reply \<times> 'd channelRuntime" where
  "handleDirectStop manager msg rt =
     (let key = normalizedConversationRuntimeKey (ResolveConversationKey msg) in
      case rt_direct rt key of
        None \<Rightarrow> (NoActiveTask, rt)
      | Some turn \<Rightarrow>
          if dt_controllerID turn \<noteq> [] \<and> dt_controllerID turn \<noteq> ms_UserID msg \<and> \<not> manager then (StopNotAllowed, rt)
          else (StopRequested, stop_direct key rt))"

definition handleDirectTaskAction :: "bool \<Rightarrow> Message \<Rightarrow> ChannelTaskAction \<Rightarrow> 'd channelRuntime \<Rightarrow> stop_reply \<times> 'd channelRuntime" where
  "handleDirectTaskAction manager msg action rt =
     (if ac_Action action \<noteq> ''stop'' then (UnknownAction, rt)
      else (let key = ResolveConversationKey msg in
        case rt_direct rt key of
          None \<Rightarrow> (NoLongerCurrent, rt)
        | Some turn \<Rightarrow>
            if map_option ct_ID (dt_task turn) \<noteq> Some (ac_TaskID action) then (NoLongerCurrent, rt)
            else if dt_controllerID turn \<noteq> [] \<and> dt_controllerID turn \<noteq> ms_UserID msg \<and> \<not> manager then (StopNotAllowed, rt)
            else (StopRequested, stop_direct key rt)))"

section \<open>Commands on the active task and the queue\<close>

definition on_active :: "(runtimeChannelTask \<Rightarrow> runtimeChannelTask) \<Rightarrow> string \<Rightarrow> 'd channelRuntime \<Rightarrow> 'd channelRuntime" where
  "on_active f key rt = set_state key ((rt_control rt key)\<lparr>st_active := map_option f (st_active (rt_control rt key))\<rparr>) rt"

definition stopRemoteTask :: "bool \<Rightarrow> Message \<Rightarrow> string \<Rightarrow> 'd channelRuntime \<Rightarrow> stop_reply \<times> 'd channelRuntime" where
  "stopRemoteTask manager msg expectedTaskID rt =
     (let key = ResolveConversationKey msg in
      case st_active (rt_control rt key) of
        None \<Rightarrow> (NoActiveTask, rt)
      | Some a \<Rightarrow>
          if expectedTaskID \<noteq> [] \<and> qt_id a \<noteq> expectedTaskID then (NoLongerCurrent, rt)
          else if ct_ControllerID (qt_task a) \<noteq> ms_UserID msg \<and> \<not> manager then (StopNotAllowed, rt)
          else (StopRequested, on_active (\<lambda>a. a\<lparr>qt_stopRequested := True\<rparr>) key rt))"

definition takeOverRemoteTask :: "gotime \<Rightarrow> bool \<Rightarrow> Message \<Rightarrow> 'd channelRuntime \<Rightarrow> bool \<times> 'd channelRuntime" where
  "takeOverRemoteTask now manager msg rt =
     (if \<not> manager then (False, rt)
      else (let key = ResolveConversationKey msg in
        case st_active (rt_control rt key) of
          None \<Rightarrow> (False, rt)
        | Some a \<Rightarrow>
            (let t = (qt_task a)\<lparr>ct_ControllerID := ms_UserID msg, ct_UpdatedAt := now\<rparr>
             in (True, push_write t (on_active (\<lambda>a. a\<lparr>qt_task := t\<rparr>) key rt)))))"

text \<open>The state of a conversation the console shows, and its stop button.\<close>

datatype conversation_status = StatusIdle | StatusOffline | StatusStopping | StatusTask ChannelTaskStatus

record ConversationRuntimeState =
  cr_Status :: conversation_status
  cr_CanStop :: bool
  cr_TaskID :: string

definition conversationRuntimeState :: "string \<Rightarrow> 'd channelRuntime option \<Rightarrow> ConversationRuntimeState" where
  "conversationRuntimeState key0 attached =
     (case attached of
        None \<Rightarrow> \<lparr>cr_Status = StatusOffline, cr_CanStop = False, cr_TaskID = []\<rparr>
      | Some rt \<Rightarrow>
          (let key = normalizedConversationRuntimeKey key0; st = rt_control rt key in
           case st_active st of
             Some a \<Rightarrow> \<lparr>cr_Status = (if qt_stopRequested a then StatusStopping else StatusTask (ct_Status (qt_task a))),
                         cr_CanStop = \<not> qt_stopRequested a, cr_TaskID = qt_id a\<rparr>
           | None \<Rightarrow>
               (case rt_direct rt key of
                  Some turn \<Rightarrow> \<lparr>cr_Status = (if dt_stopRequested turn then StatusStopping else StatusTask ChannelTaskRunning),
                                 cr_CanStop = \<not> dt_stopRequested turn, cr_TaskID = []\<rparr>
                | None \<Rightarrow>
                    (case st_queue st of
                       q # _ \<Rightarrow> \<lparr>cr_Status = StatusTask ChannelTaskQueued, cr_CanStop = False, cr_TaskID = qt_id q\<rparr>
                     | [] \<Rightarrow> \<lparr>cr_Status = StatusIdle, cr_CanStop = False, cr_TaskID = []\<rparr>))))"

definition StopConversation :: "string \<Rightarrow> string \<Rightarrow> 'd channelRuntime \<Rightarrow> ConversationRuntimeState option \<times> 'd channelRuntime" where
  "StopConversation key0 expected0 rt =
     (let key = normalizedConversationRuntimeKey key0; expectedTaskID = trim_space expected0 in
      case st_active (rt_control rt key) of
        Some a \<Rightarrow>
          if expectedTaskID \<noteq> [] \<and> qt_id a \<noteq> expectedTaskID then (None, rt)
          else (Some \<lparr>cr_Status = StatusStopping, cr_CanStop = False, cr_TaskID = qt_id a\<rparr>,
                on_active (\<lambda>a. a\<lparr>qt_stopRequested := True\<rparr>) key rt)
      | None \<Rightarrow>
          (case rt_direct rt key of
             Some _ \<Rightarrow> (Some \<lparr>cr_Status = StatusStopping, cr_CanStop = False, cr_TaskID = []\<rparr>, stop_direct key rt)
           | None \<Rightarrow> (None, rt)))"

text \<open>
  \<^verbatim>\<open>/queue clear\<close>: the first message arms a confirmation for one minute, the second cancels the sender's queued
  tasks, or all for a manager. A task whose cancellation cannot be stored stays queued.
\<close>

definition clears :: "bool \<Rightarrow> string \<Rightarrow> runtimeChannelTask \<Rightarrow> bool" where
  "clears admin user q \<longleftrightarrow> admin \<or> ct_ControllerID (qt_task q) = user"

fun clear_scan ::
  "gotime \<Rightarrow> bool \<Rightarrow> string \<Rightarrow> runtimeChannelTask list \<Rightarrow> 'a runtime \<Rightarrow> (runtimeChannelTask list \<times> runtimeChannelTask list) \<times> 'a runtime" where
  "clear_scan now admin user [] rt = (([], []), rt)"
| "clear_scan now admin user (q # qs) rt =
     (if ct_Status (qt_task q) \<noteq> ChannelTaskQueued \<or> \<not> clears admin user q
      then (case clear_scan now admin user qs rt of ((remaining, queued), rt') \<Rightarrow> ((q # remaining, queued), rt'))
      else (let t = (qt_task q)\<lparr>ct_Status := ChannelTaskCancelled, ct_Error := ''cancelled before start'', ct_Prompt := [], ct_FinishedAt := now\<rparr>
            in case updateRemoteTask now t rt of
                 (False, rt1) \<Rightarrow> (case clear_scan now admin user qs rt1 of ((remaining, queued), rt') \<Rightarrow> ((q # remaining, queued), rt'))
               | (True, rt1) \<Rightarrow>
                   (case clear_scan now admin user qs rt1 of ((remaining, queued), rt') \<Rightarrow> ((remaining, q\<lparr>qt_task := t\<rparr> # queued), rt'))))"

datatype clear_reply = ClearAsked int | ClearExpired | ClearDone int

definition clearRemoteQueue :: "gotime \<Rightarrow> bool \<Rightarrow> Message \<Rightarrow> bool \<Rightarrow> 'a runtime \<Rightarrow> clear_reply \<times> 'a runtime" where
  "clearRemoteQueue now admin msg confirmed rt =
     (let key = ResolveConversationKey msg; confirmKey = key @ '':'' @ ms_UserID msg; st = rt_control rt key in
      if \<not> confirmed then
        (ClearAsked (int (length (filter (clears admin (ms_UserID msg)) (st_queue st)))),
         rt\<lparr>rt_clearConfirm := (rt_clearConfirm rt)(confirmKey \<mapsto> now + minute_ns)\<rparr>)
      else if (case rt_clearConfirm rt confirmKey of None \<Rightarrow> True | Some expiry \<Rightarrow> is_zero expiry \<or> now > expiry) then (ClearExpired, rt)
      else (case clear_scan now admin (ms_UserID msg) (st_queue st) (rt\<lparr>rt_clearConfirm := (rt_clearConfirm rt)(confirmKey := None)\<rparr>) of
         ((remaining, queued), rt') \<Rightarrow>
           (ClearDone (int (length queued)),
            startNextRemoteLocked now key (push_ended queued (set_state key (st\<lparr>st_queue := remaining\<rparr>) rt')))))"

text \<open>The text commands on one queued item; the steer of a new item is enqueued first.\<close>

definition queue_action :: "string \<Rightarrow> ChannelTaskAction" where
  "queue_action text =
     (let a0 = \<lparr>ac_Nonce = [], ac_TaskID = [], ac_Action = []\<rparr>;
          a1 = (if has_prefix text ''/queue cancel ''
                then \<lparr>ac_Nonce = [], ac_TaskID = trim_space (trim_prefix text ''/queue cancel ''), ac_Action = ''cancel''\<rparr> else a0)
      in if has_prefix text ''/steer-task ''
         then \<lparr>ac_Nonce = [], ac_TaskID = trim_space (trim_prefix text ''/steer-task ''), ac_Action = ''steer''\<rparr> else a1)"

definition handleQueueCommand ::
  "gotime \<Rightarrow> string \<Rightarrow> string \<Rightarrow> string \<Rightarrow> bool \<Rightarrow> Message \<Rightarrow> string \<Rightarrow> 'a runtime \<Rightarrow> bool \<times> 'a runtime" where
  "handleQueueCommand now taskID feedbackNonce controlNonce manager msg text rt =
     (if text = ''/queue'' then (True, rt)
      else if has_prefix text ''/steer '' then
        (case st_active (rt_control rt (ResolveConversationKey msg)) of
           None \<Rightarrow> (True, rt)
         | Some _ \<Rightarrow>
             (case enqueueRemoteTask now taskID feedbackNonce controlNonce msg (trim_space (trim_prefix text ''/steer '')) rt of
                (Inl _, rt') \<Rightarrow> (True, rt')
              | (Inr q, rt') \<Rightarrow>
                  (True, snd (controlQueuedTask now manager msg \<lparr>ac_Nonce = [], ac_TaskID = qt_id q, ac_Action = ''steer''\<rparr> rt'))))
      else if ac_Action (queue_action text) = [] then (False, rt)
      else (True, snd (controlQueuedTask now manager msg (queue_action text) rt)))"

section \<open>Interactions\<close>

definition with_store :: "('d \<Rightarrow> 'r option \<times> 'd) \<Rightarrow> 'd channelRuntime \<Rightarrow> 'r option \<times> 'd channelRuntime" where
  "with_store f rt =
     (case rt_store rt of None \<Rightarrow> (None, rt) | Some d \<Rightarrow> (case f d of (r, d') \<Rightarrow> (r, rt\<lparr>rt_store := Some d'\<rparr>)))"

text \<open>A Go \<^verbatim>\<open>int64\<close> product wraps.\<close>

definition wrap64 :: "int \<Rightarrow> int" where
  "wrap64 n = (n + 2 ^ 63) mod 2 ^ 64 - 2 ^ 63"

text \<open>An agent asks: the task waits for input, and if the request can be stored the task is written too.\<close>

definition interaction_record :: "gotime \<Rightarrow> string \<Rightarrow> string \<Rightarrow> string \<Rightarrow> AgentInteraction \<Rightarrow> ChannelTask \<Rightarrow> ChannelInteraction" where
  "interaction_record now nonce channelID key req t =
     \<lparr>ci_ID = ai_ID req, ci_TaskID = ct_ID t, ci_ChannelID = channelID, ci_ConversationID = ct_ConversationID t,
      ci_ConversationKey = key, ci_ControllerID = ct_ControllerID t, ci_Nonce = nonce, ci_MessageID = [],
      ci_Status = ChannelInteractionPending, ci_Request = req, ci_CreatedAt = now,
      ci_ExpiresAt = (if ai_AutoResolutionMs req > 0 then now + wrap64 (ai_AutoResolutionMs req * (second_ns div 1000)) else now + 10 * minute_ns),
      ci_ResolvedAt = 0, ci_ResolvedBy = []\<rparr>"

definition dispatchAgentInteraction :: "gotime \<Rightarrow> string \<Rightarrow> string \<Rightarrow> AgentInteraction \<Rightarrow> 'a runtime \<Rightarrow> bool \<times> 'a runtime" where
  "dispatchAgentInteraction now nonce key req rt =
     (if rt_store rt = None then (False, rt)
      else (case st_active (rt_control rt key) of
         None \<Rightarrow> (False, rt)
       | Some a \<Rightarrow>
           (let i = interaction_record now nonce (rt_channelID rt) key req (qt_task a);
                t = (qt_task a)\<lparr>ct_Status := ChannelTaskWaitingInput, ct_TurnID := ai_TurnID req\<rparr>
            in case with_store (\<lambda>d. case CreateChannelInteraction i d of (ok, d') \<Rightarrow> (if ok then Some () else None, d'))
                      (on_active (\<lambda>a. a\<lparr>qt_task := t\<rparr>) key rt) of
                 (None, rt') \<Rightarrow> (False, rt')
               | (Some _, rt') \<Rightarrow> (True, push_write t rt'))))"

text \<open>
  An answer and an expiry look the request up, look at the owning task under the mutex, and claim the request with an
  update that only a pending row matches. Others run in between, so each of the three is a definition of its own, and
  the step relation of \<open>Channel_Safety\<close> and the operations of \<open>Channel_Correctness\<close> interleave them.
  The claim, for the actor and with the status the caller gives; what was claimed is the request as it was read.
\<close>

datatype interaction_error = StoreUnavailable | StoreError | ForeignInteraction | NotPending | InvalidNonce | WrongCard
  | NotController | SecretInput | HighRiskSession | TaskNotActive | NotInteractive | AlreadyHandled | SessionError string
  | InteractionNotFound

definition claim_request ::
  "gotime \<Rightarrow> string \<Rightarrow> ChannelInteractionStatus \<Rightarrow> ChannelInteraction \<Rightarrow> 'a runtime \<Rightarrow> (interaction_error + ChannelInteraction) \<times> 'a runtime" where
  "claim_request now actor status i rt =
     (case with_store (ResolveChannelInteraction now (ci_ID i) (ci_Nonce i) actor status) rt of
        (None, rt') \<Rightarrow> (Inl StoreError, rt')
      | (Some claimed, rt') \<Rightarrow> (if claimed then Inr i else Inl AlreadyHandled, rt'))"

definition owning_task :: "ChannelInteraction \<Rightarrow> 'a runtime \<Rightarrow> runtimeChannelTask option" where
  "owning_task i rt =
     (case st_active (rt_control rt (ci_ConversationKey i)) of
        None \<Rightarrow> None
      | Some a \<Rightarrow> if qt_id a = ci_TaskID i then Some a else None)"

text \<open>The expiry of a request, after its timer fired: the read, and the whole when nothing comes between.\<close>

definition expiry_due :: "ChannelInteraction \<Rightarrow> 'a runtime \<Rightarrow> bool \<times> 'a runtime" where
  "expiry_due i rt =
     (case with_store (GetChannelInteraction (ci_ID i)) rt of
        (Some (Some current), rt') \<Rightarrow> (ci_Status current = ChannelInteractionPending, rt')
      | (_, rt') \<Rightarrow> (False, rt'))"

definition expireRemoteInteraction :: "gotime \<Rightarrow> ChannelInteraction \<Rightarrow> 'a runtime \<Rightarrow> bool \<times> 'a runtime" where
  "expireRemoteInteraction now i rt =
     (case expiry_due i rt of
        (False, rt1) \<Rightarrow> (False, rt1)
      | (True, rt1) \<Rightarrow>
          (case owning_task i rt1 of
             None \<Rightarrow> (False, rt1)
           | Some a \<Rightarrow>
               (case claim_request now ''system'' ChannelInteractionExpired i rt1 of
                  (Inl _, rt2) \<Rightarrow> (False, rt2)
                | (Inr _, rt2) \<Rightarrow> (qt_interactive a, rt2))))"

record AgentInteractionAction =
  aa_InteractionID :: string
  aa_TaskID :: string
  aa_Nonce :: string
  aa_Decision :: string
  aa_Answers :: "string \<Rightarrow> string list"

text \<open>The checks of a response against the stored request (lines 165 to 187).\<close>

definition check_response ::
  "string \<Rightarrow> bool \<Rightarrow> bool \<Rightarrow> Message \<Rightarrow> AgentInteractionAction \<Rightarrow> ChannelInteraction option \<Rightarrow> interaction_error + ChannelInteraction" where
  "check_response channelID manager local msg action found =
     (case found of
        None \<Rightarrow> Inl ForeignInteraction
      | Some i \<Rightarrow>
          if ci_ChannelID i \<noteq> channelID \<or> ci_ConversationKey i \<noteq> ResolveConversationKey msg then Inl ForeignInteraction
          else if ci_Status i \<noteq> ChannelInteractionPending then Inl NotPending
          else if aa_Nonce action = [] \<or> aa_Nonce action \<noteq> ci_Nonce i then Inl InvalidNonce
          else if \<not> local \<and> ci_MessageID i \<noteq> [] \<and> ms_InteractionMessageID msg \<noteq> ci_MessageID i then Inl WrongCard
          else if \<not> local \<and> ms_UserID msg \<noteq> ci_ControllerID i \<and> \<not> manager then Inl NotController
          else if list_ex (\<lambda>q. iq_Secret q \<and> \<not> local \<and> aa_Answers action (iq_ID q) \<noteq> []) (ai_Questions (ci_Request i)) then Inl SecretInput
          else if ai_HighRisk (ci_Request i) \<and> aa_Decision action = ''acceptForSession'' then Inl HighRiskSession
          else Inr i)"

definition claim_status :: "AgentInteractionAction \<Rightarrow> ChannelInteractionStatus" where
  "claim_status action = (if aa_Decision action \<in> {''decline'', ''cancel''} then ChannelInteractionDeclined else ChannelInteractionResolved)"

definition claim_actor :: "bool \<Rightarrow> Message \<Rightarrow> string" where
  "claim_actor local msg = (if local \<and> ms_UserID msg = [] then ''local-console'' else ms_UserID msg)"

text \<open>The read and its checks (lines 158 to 187), and the session that is told (lines 189 to 199).\<close>

definition lookup_request ::
  "bool \<Rightarrow> bool \<Rightarrow> Message \<Rightarrow> AgentInteractionAction \<Rightarrow> 'a runtime \<Rightarrow> (interaction_error + ChannelInteraction) \<times> 'a runtime" where
  "lookup_request manager local msg action rt =
     (if rt_store rt = None then (Inl StoreUnavailable, rt)
      else (case with_store (GetChannelInteraction (aa_InteractionID action)) rt of
         (None, rt') \<Rightarrow> (Inl StoreError, rt')
       | (Some found, rt') \<Rightarrow> (check_response (rt_channelID rt) manager local msg action found, rt')))"

definition owning_session :: "ChannelInteraction \<Rightarrow> 'a runtime \<Rightarrow> interaction_error + runtimeChannelTask" where
  "owning_session i rt =
     (case owning_task i rt of
        None \<Rightarrow> Inl TaskNotActive
      | Some a \<Rightarrow> if \<not> qt_interactive a then Inl NotInteractive else Inr a)"

text \<open>The part up to the claim of the request (lines 158 to 214) when nothing comes between.\<close>

definition claimInteraction ::
  "gotime \<Rightarrow> bool \<Rightarrow> bool \<Rightarrow> Message \<Rightarrow> AgentInteractionAction \<Rightarrow> 'a runtime \<Rightarrow> (interaction_error + ChannelInteraction) \<times> 'a runtime" where
  "claimInteraction now manager local msg action rt =
     (case lookup_request manager local msg action rt of
        (Inl e, rt1) \<Rightarrow> (Inl e, rt1)
      | (Inr i, rt1) \<Rightarrow>
          (case owning_session i rt1 of
             Inl e \<Rightarrow> (Inl e, rt1)
           | Inr _ \<Rightarrow> claim_request now (claim_actor local msg) (claim_status action) i rt1))"

text \<open>The agent accepted the answer: its task runs again, if it is still the active one.\<close>

definition resumeRemoteTask :: "gotime \<Rightarrow> string \<Rightarrow> string \<Rightarrow> 'a runtime \<Rightarrow> 'a runtime" where
  "resumeRemoteTask now key taskID rt =
     (case st_active (rt_control rt key) of
        Some a \<Rightarrow>
          if qt_id a = taskID
          then (let t = (qt_task a)\<lparr>ct_Status := ChannelTaskRunning, ct_UpdatedAt := now\<rparr>
                in snd (updateRemoteTask now t (on_active (\<lambda>a. a\<lparr>qt_task := t\<rparr>) key rt)))
          else rt
      | None \<Rightarrow> rt)"

text \<open>\<open>sessionErr\<close> is the error of the agent's \<^verbatim>\<open>ResolveInteraction\<close>.\<close>

definition resolveRemoteInteraction ::
  "gotime \<Rightarrow> bool \<Rightarrow> bool \<Rightarrow> string option \<Rightarrow> Message \<Rightarrow> AgentInteractionAction \<Rightarrow> 'a runtime \<Rightarrow> interaction_error option \<times> 'a runtime" where
  "resolveRemoteInteraction now manager local sessionErr msg action rt =
     (case claimInteraction now manager local msg action rt of
        (Inl e, rt1) \<Rightarrow> (Some e, rt1)
      | (Inr i, rt1) \<Rightarrow>
          (case sessionErr of
             Some e \<Rightarrow> (Some (SessionError e), rt1)
           | None \<Rightarrow> (None, resumeRemoteTask now (ci_ConversationKey i) (ci_TaskID i) rt1)))"

text \<open>The local console: it answers any stored request of this channel, as the user \<^verbatim>\<open>local-console\<close>.\<close>

definition local_message :: "string \<Rightarrow> string \<Rightarrow> ChannelInteraction \<Rightarrow> Message" where
  "local_message chatID platform i =
     \<lparr>ms_ID = [], ms_ChatID = chatID, ms_ChatType = [], ms_RootID = [], ms_ThreadID = [], ms_UserID = ''local-console'',
      ms_Platform = platform, ms_ConversationKey = ci_ConversationKey i, ms_SourceMessageID = [], ms_ChatMode = [],
      ms_ReplyInThread = False, ms_Text = [], ms_InteractionMessageID = ci_MessageID i\<rparr>"

definition ResolveChannelInteractionLocal ::
  "gotime \<Rightarrow> string option \<Rightarrow> string \<Rightarrow> string \<Rightarrow> AgentInteractionAction \<Rightarrow> 'a runtime \<Rightarrow> interaction_error option \<times> 'a runtime" where
  "ResolveChannelInteractionLocal now sessionErr chatID platform action rt =
     (if rt_store rt = None then (Some StoreUnavailable, rt)
      else (case with_store (GetChannelInteraction (aa_InteractionID action)) rt of
         (None, rt1) \<Rightarrow> (Some StoreError, rt1)
       | (Some None, rt1) \<Rightarrow> (Some InteractionNotFound, rt1)
       | (Some (Some i), rt1) \<Rightarrow> resolveRemoteInteraction now False True sessionErr (local_message chatID platform i) action rt1))"

section \<open>Feedback\<close>

record ChannelFeedbackAction =
  fa_TaskID :: string
  fa_Nonce :: string
  fa_Semantic :: string

definition ValidFeedbackSemantic :: "string \<Rightarrow> bool" where
  "ValidFeedbackSemantic value \<longleftrightarrow> to_lower (trim_space value) \<in> set [''positive'', ''progress'', ''negative'']"

datatype feedback_reply = FeedbackUnavailable | FeedbackInvalid | FeedbackFailed | FeedbackRefused | FeedbackRecorded

definition handleChannelFeedback ::
  "gotime \<Rightarrow> string \<Rightarrow> Message \<Rightarrow> ChannelFeedbackAction \<Rightarrow> 'a runtime \<Rightarrow> feedback_reply \<times> 'a runtime" where
  "handleChannelFeedback now newID msg action rt =
     (let semantic = to_lower (trim_space (fa_Semantic action)) in
      if rt_store rt = None then (FeedbackUnavailable, rt)
      else if \<not> ValidFeedbackSemantic semantic \<or> trim_space (fa_TaskID action) = [] \<or> trim_space (fa_Nonce action) = [] \<or>
              trim_space (ms_UserID msg) = [] then (FeedbackInvalid, rt)
      else (let f = \<lparr>cf_ID = newID, cf_TaskID = trim_space (fa_TaskID action), cf_ChannelID = rt_channelID rt, cf_ConversationID = [],
                      cf_UserID = trim_space (ms_UserID msg), cf_Semantic = semantic, cf_Reason = [], cf_Comment = [],
                      cf_CreatedAt = 0, cf_UpdatedAt = 0\<rparr>
            in case with_store (SubmitChannelFeedback now newID f (trim_space (fa_Nonce action))) rt of
                 (None, rt') \<Rightarrow> (FeedbackFailed, rt')
               | (Some False, rt') \<Rightarrow> (FeedbackRefused, rt')
               | (Some True, rt') \<Rightarrow> (FeedbackRecorded, rt')))"

end
