(* ===== verification/Channel_Safety.thy ===== *)
theory Channel_Safety
  imports Channel_Control "HOL-Library.Sublist"
begin

text \<open>
  The channel runtime as a transition system: its critical sections and store calls interleave in any order,
  writes may fail, and the process may crash and restart at any point. The invariants proved here give that no
  prompt is handed to an agent twice, that a conversation runs one task at a time and in the order of admission,
  and that an agent's request is answered at most once.
\<close>

section \<open>Steps\<close>

definition queue_ids :: "channelControlState \<Rightarrow> string list" where
  "queue_ids st = map qt_id (st_queue st)"

text \<open>An id drawn by \<^verbatim>\<open>NewChannelControlID\<close> is new to the runtime and to its store.\<close>

definition row_ids :: "'a runtime \<Rightarrow> string set" where
  "row_ids rt = (case rt_store rt of None \<Rightarrow> {} | Some d \<Rightarrow> ct_ID ` set (channel_tasks d))"

definition fresh :: "string \<Rightarrow> 'a runtime \<Rightarrow> bool" where
  "fresh i rt \<longleftrightarrow> i \<notin> set (rt_sent rt) \<and> (\<forall>k. i \<notin> set (queue_ids (rt_control rt k)) \<and> i \<notin> set (rt_admitted rt k)) \<and> i \<notin> row_ids rt"

text \<open>The channel is attached with an empty memory, and the stored queue is recovered.\<close>

definition restart :: "gotime \<Rightarrow> string \<Rightarrow> string list \<Rightarrow> 'a runtime \<Rightarrow> 'a runtime" where
  "restart now platform keys rt = recoverRemoteTasks now platform keys
     (rt\<lparr>rt_control := (\<lambda>_. empty_state), rt_direct := (\<lambda>_. None), rt_clearConfirm := (\<lambda>_. None), rt_live := True,
         rt_ended := [], rt_writes := [], rt_admitted := (\<lambda>_. []), rt_started := (\<lambda>_. [])\<rparr>)"

inductive rt_step :: "'a runtime \<Rightarrow> 'a runtime \<Rightarrow> bool" where
  message: "fresh i rt \<Longrightarrow> rt_step rt (snd (admitMessage now i fn cn msg rt))"
| enqueue: "fresh i rt \<Longrightarrow> rt_step rt (snd (enqueueRemoteTask now i fn cn msg prompt rt))"
| finished: "st_active (rt_control rt key) = Some q \<Longrightarrow> remote_outcome dl pe tt q' = (status, err) \<Longrightarrow>
     rt_step rt (finishRemoteTask now q status err rt)"
| next_task: "rt_step rt (startNextRemoteLocked now key rt)"
| failed: "rt_step rt (markRemoteTaskError key i err rt)"
| event: "rt_step rt (updateRemoteTaskFromEvent now key i turnID rt)"
| delivered: "rt_step rt (recordChannelDeliveryAttempt now key i derr final rt)"
| written: "rt_step rt (write_snapshot now n rt)"
| attached: "rt_step rt (attachRemoteSession now key session conv nativeID rt)"
| carded: "rt_step rt (save_card now key i c rt)"
| controlled: "rt_step rt (snd (controlQueuedTask now manager msg action rt))"
| steered: "st_steering (rt_control rt key) \<Longrightarrow> q \<in> set (st_queue (rt_control rt key)) \<Longrightarrow>
     ct_Status (qt_task q) = ChannelTaskSteering \<Longrightarrow> rt_step rt (finishSteer now key (qt_id q) result rt)"
| stopped: "rt_step rt (snd (stopRemoteTask manager msg expected rt))"
| stopped_console: "rt_step rt (snd (StopConversation key expected rt))"
| stopped_direct: "rt_step rt (snd (handleDirectTaskAction manager msg action rt))"
| stopped_direct_text: "rt_step rt (snd (handleDirectStop manager msg rt))"
| taken_over: "rt_step rt (snd (takeOverRemoteTask now manager msg rt))"
| cleared: "rt_step rt (snd (clearRemoteQueue now admin msg confirmed rt))"
| direct_begun: "rt_step rt (snd (beginDirectTurn key user rt))"
| direct_started: "fresh i rt \<Longrightarrow> rt_step rt (snd (startDirectTask now i fn conv native msg rt))"
| direct_ended: "rt_step rt (detachDirectTurn now cerr key rt)"
| asked: "rt_step rt (snd (dispatchAgentInteraction now nonce key req rt))"
| looked_up: "rt_step rt (snd (lookup_request manager local msg ia rt))"
| claimed: "status \<noteq> ChannelInteractionPending \<Longrightarrow> rt_step rt (snd (claim_request now actor status ci rt))"
| resumed: "rt_step rt (resumeRemoteTask now key i rt)"
| expiry: "rt_step rt (snd (expiry_due ci rt))"
| feedback: "rt_step rt (snd (handleChannelFeedback now newID msg fba rt))"
| shutdown: "rt_step rt (rt\<lparr>rt_live := False\<rparr>)"
| crashed: "rt_step rt (restart now platform keys rt)"

text \<open>The engine attaches a channel whose queued rows have not been handed out, with an empty memory.\<close>

inductive rt_reach :: "'a runtime \<Rightarrow> bool" where
  boot: "rt_sent rt = [] \<Longrightarrow> (case rt_store rt of None \<Rightarrow> True | Some d \<Rightarrow> distinct (map ct_ID (channel_tasks d))) \<Longrightarrow>
     rt_reach (restart now platform keys rt)"
| step: "rt_reach rt \<Longrightarrow> rt_step rt rt' \<Longrightarrow> rt_reach rt'"

section \<open>The invariant\<close>

definition item_ok :: "string list \<Rightarrow> bool \<Rightarrow> string \<Rightarrow> runtimeChannelTask \<Rightarrow> bool" where
  "item_ok sent steering k q \<longleftrightarrow> ct_ConversationKey (qt_task q) = k \<and>
     (if ct_Status (qt_task q) = ChannelTaskQueued then qt_id q \<notin> set sent
      else ct_Status (qt_task q) = ChannelTaskSteering \<and> steering)"

definition one_steering :: "runtimeChannelTask list \<Rightarrow> bool" where
  "one_steering qs \<longleftrightarrow> (\<forall>q\<in>set qs. \<forall>q'\<in>set qs. ct_Status (qt_task q) = ChannelTaskSteering \<longrightarrow>
     ct_Status (qt_task q') = ChannelTaskSteering \<longrightarrow> qt_id q = qt_id q')"

definition state_ok :: "string list \<Rightarrow> string \<Rightarrow> channelControlState \<Rightarrow> bool" where
  "state_ok sent k st \<longleftrightarrow> distinct (queue_ids st) \<and> (\<forall>q\<in>set (st_queue st). item_ok sent (st_steering st) k q) \<and>
     one_steering (st_queue st) \<and>
     (\<forall>a. st_active st = Some a \<longrightarrow> ct_Status (qt_task a) \<noteq> ChannelTaskQueued \<and> ct_ConversationKey (qt_task a) = k)"

definition store_ok :: "string list \<Rightarrow> 'a channel_db_scheme option \<Rightarrow> bool" where
  "store_ok sent s \<longleftrightarrow> (case s of None \<Rightarrow> True | Some d \<Rightarrow> control.settled sent d)"

definition unqueued :: "ChannelTask \<Rightarrow> bool" where
  "unqueued t \<longleftrightarrow> ct_Status t \<noteq> ChannelTaskQueued"

definition rt_inv :: "'a runtime \<Rightarrow> bool" where
  "rt_inv rt \<longleftrightarrow> distinct (rt_sent rt) \<and> (\<forall>k. state_ok (rt_sent rt) k (rt_control rt k)) \<and>
     (\<forall>k k'. k \<noteq> k' \<longrightarrow> set (queue_ids (rt_control rt k)) \<inter> set (queue_ids (rt_control rt k')) = {}) \<and>
     (\<forall>k turn t. rt_direct rt k = Some turn \<longrightarrow> dt_task turn = Some t \<longrightarrow> unqueued t) \<and>
     (\<forall>t\<in>set (rt_writes rt). unqueued t) \<and> (\<forall>q\<in>set (rt_ended rt). unqueued (qt_task q)) \<and>
     store_ok (rt_sent rt) (rt_store rt)"

lemma updateRemoteTask_store:
  assumes "updateRemoteTask now t rt = (ok, rt')"
  shows "rt' = rt\<lparr>rt_store := rt_store rt'\<rparr>"
    and "store_ok sent (rt_store rt) \<Longrightarrow> ct_Status t = ChannelTaskQueued \<longrightarrow> ct_ID t \<notin> set sent \<Longrightarrow> store_ok sent (rt_store rt')"
    and "ok \<Longrightarrow> unqueued t \<Longrightarrow> store_ok sent (rt_store rt) \<Longrightarrow> store_ok (sent @ [ct_ID t]) (rt_store rt')"
  using assms control.settled_update [of sent _ now t] control.settled_claim [of sent _ now t]
  by (auto simp: updateRemoteTask_def store_ok_def unqueued_def split: option.splits prod.splits)

lemma create_task_store:
  assumes "create_task now t rt = (ok, rt')"
  shows "rt' = rt\<lparr>rt_store := rt_store rt'\<rparr>"
    and "store_ok sent (rt_store rt) \<Longrightarrow> ct_ID t \<notin> set sent \<Longrightarrow> store_ok sent (rt_store rt')"
    and "ok \<Longrightarrow> unqueued t \<Longrightarrow> store_ok sent (rt_store rt) \<Longrightarrow> store_ok (sent @ [ct_ID t]) (rt_store rt')"
  using assms control.settled_create [of sent _ now t] control.settled_create_running [of sent _ now t]
  by (auto simp: create_task_def store_ok_def unqueued_def split: option.splits prod.splits)

lemma inv_store: "rt_inv rt \<Longrightarrow> store_ok (rt_sent rt) s \<Longrightarrow> rt_inv (rt\<lparr>rt_store := s\<rparr>)"
  by (simp add: rt_inv_def)

lemma inv_update:
  assumes "rt_inv rt" "ct_Status t = ChannelTaskQueued \<longrightarrow> ct_ID t \<notin> set (rt_sent rt)" "updateRemoteTask now t rt = (ok, rt')"
  shows "rt_inv rt'"
proof -
  have "rt_inv (rt\<lparr>rt_store := rt_store rt'\<rparr>)"
    using inv_store [OF assms(1)] updateRemoteTask_store(2) [OF assms(3)] assms(1,2) by (simp add: rt_inv_def)
  then show ?thesis using updateRemoteTask_store(1) [OF assms(3)] by simp
qed

lemma inv_update_snd:
  "rt_inv rt \<Longrightarrow> ct_Status t = ChannelTaskQueued \<longrightarrow> ct_ID t \<notin> set (rt_sent rt) \<Longrightarrow> rt_inv (snd (updateRemoteTask now t rt))"
  by (metis inv_update prod.collapse)

lemma rt_sent_update [simp]:
  "rt_sent (snd (updateRemoteTask now t rt)) = rt_sent rt" "rt_control (snd (updateRemoteTask now t rt)) = rt_control rt"
  "rt_direct (snd (updateRemoteTask now t rt)) = rt_direct rt"
  "rt_admitted (snd (updateRemoteTask now t rt)) = rt_admitted rt" "rt_started (snd (updateRemoteTask now t rt)) = rt_started rt"
  by (auto simp: updateRemoteTask_def split: option.splits prod.splits)

lemma rt_fields_set_state [simp]:
  "rt_sent (set_state k st rt) = rt_sent rt" "rt_store (set_state k st rt) = rt_store rt"
  "rt_direct (set_state k st rt) = rt_direct rt" "rt_admitted (set_state k st rt) = rt_admitted rt"
  "rt_started (set_state k st rt) = rt_started rt" "rt_control (set_state k st rt) = (rt_control rt)(k := st)"
  "rt_writes (set_state k st rt) = rt_writes rt" "rt_ended (set_state k st rt) = rt_ended rt"
  by (simp_all add: set_state_def)

lemma inv_set_state:
  assumes "rt_inv rt" "state_ok (rt_sent rt) k st" "set (queue_ids st) \<subseteq> set (queue_ids (rt_control rt k))"
  shows "rt_inv (set_state k st rt)"
proof -
  have "\<forall>a b. a \<noteq> b \<longrightarrow> set (queue_ids (((rt_control rt)(k := st)) a)) \<inter> set (queue_ids (((rt_control rt)(k := st)) b)) = {}"
  proof (intro allI impI)
    fix a b :: string assume "a \<noteq> b"
    moreover have "set (queue_ids (((rt_control rt)(k := st)) c)) \<subseteq> set (queue_ids (rt_control rt c))" for c
      using assms(3) by simp
    moreover have "set (queue_ids (rt_control rt a)) \<inter> set (queue_ids (rt_control rt b)) = {}"
      using assms(1) \<open>a \<noteq> b\<close> unfolding rt_inv_def by blast
    ultimately show "set (queue_ids (((rt_control rt)(k := st)) a)) \<inter> set (queue_ids (((rt_control rt)(k := st)) b)) = {}"
      by (meson disjoint_iff subsetD)
  qed
  then show ?thesis using assms(1,2) by (simp add: rt_inv_def)
qed

lemma inv_push_write: "rt_inv rt \<Longrightarrow> unqueued t \<Longrightarrow> rt_inv (push_write t rt)"
  by (simp add: rt_inv_def push_write_def)

lemma inv_push_ended: "rt_inv rt \<Longrightarrow> \<forall>q\<in>set qs. unqueued (qt_task q) \<Longrightarrow> rt_inv (push_ended qs rt)"
  by (auto simp add: rt_inv_def push_ended_def)

lemma item_ok_sent: "item_ok sent b k q \<Longrightarrow> i \<noteq> qt_id q \<Longrightarrow> item_ok (sent @ [i]) b k q"
  by (auto simp: item_ok_def)

lemma state_ok_sent:
  assumes "state_ok sent k st" "i \<notin> set (queue_ids st)"
  shows "state_ok (sent @ [i]) k st"
proof -
  have "\<forall>q\<in>set (st_queue st). item_ok (sent @ [i]) (st_steering st) k q"
    using assms by (intro ballI item_ok_sent) (auto simp: state_ok_def queue_ids_def)
  then show ?thesis using assms(1) by (simp add: state_ok_def)
qed

lemma state_okD: "rt_inv rt \<Longrightarrow> state_ok (rt_sent rt) k (rt_control rt k)"
  by (simp add: rt_inv_def)

text \<open>Handing out a task: the claim is committed, the id was not sent before, and no queue keeps it as queued.\<close>

lemma inv_claim:
  assumes inv: "rt_inv rt" and s: "store_ok (rt_sent rt @ [i]) s" and i: "i \<notin> set (rt_sent rt)"
    and st: "state_ok (rt_sent rt @ [i]) k st" "set (queue_ids st) \<subseteq> set (queue_ids (rt_control rt k))"
    and other: "\<And>k'. k' \<noteq> k \<Longrightarrow> i \<notin> set (queue_ids (rt_control rt k'))"
  shows "rt_inv (mark_sent i (set_state k st (rt\<lparr>rt_store := s\<rparr>)))"
proof -
  have ok: "\<forall>k'. state_ok (rt_sent rt @ [i]) k' (((rt_control rt)(k := st)) k')"
    using st(1) state_ok_sent [OF state_okD [OF inv]] other by simp
  have "\<forall>a b. a \<noteq> b \<longrightarrow> set (queue_ids (((rt_control rt)(k := st)) a)) \<inter> set (queue_ids (((rt_control rt)(k := st)) b)) = {}"
  proof (intro allI impI)
    fix a b :: string assume "a \<noteq> b"
    moreover have "set (queue_ids (((rt_control rt)(k := st)) c)) \<subseteq> set (queue_ids (rt_control rt c))" for c
      using st(2) by simp
    moreover have "set (queue_ids (rt_control rt a)) \<inter> set (queue_ids (rt_control rt b)) = {}"
      using inv \<open>a \<noteq> b\<close> unfolding rt_inv_def by blast
    ultimately show "set (queue_ids (((rt_control rt)(k := st)) a)) \<inter> set (queue_ids (((rt_control rt)(k := st)) b)) = {}"
      by (meson disjoint_iff subsetD)
  qed
  then show ?thesis using inv i s ok by (simp add: rt_inv_def mark_sent_def)
qed

lemma inv_ghost [simp]:
  "rt_inv (rt\<lparr>rt_started := x\<rparr>) = rt_inv rt" "rt_inv (rt\<lparr>rt_admitted := y\<rparr>) = rt_inv rt" "rt_inv (rt\<lparr>rt_live := b\<rparr>) = rt_inv rt"
  "rt_inv (rt\<lparr>rt_clearConfirm := c\<rparr>) = rt_inv rt"
  by (simp_all add: rt_inv_def)

lemma inv_mark [simp]:
  "rt_inv (mark_started k i rt) = rt_inv (mark_sent i rt)" "rt_inv (mark_admitted k i rt) = rt_inv rt"
  "rt_inv (mark_sent j (mark_admitted k i rt)) = rt_inv (mark_sent j rt)"
  by (simp_all add: mark_started_def mark_sent_def mark_admitted_def rt_inv_def)

lemma inv_item:
  assumes "rt_inv rt" "q \<in> set (st_queue (rt_control rt k))"
  shows "item_ok (rt_sent rt) (st_steering (rt_control rt k)) k q" "k' \<noteq> k \<Longrightarrow> qt_id q \<notin> set (queue_ids (rt_control rt k'))"
proof -
  show "item_ok (rt_sent rt) (st_steering (rt_control rt k)) k q"
    using state_okD [OF assms(1), of k] assms(2) by (simp add: state_ok_def)
  have "qt_id q \<in> set (queue_ids (rt_control rt k))" using assms(2) by (simp add: queue_ids_def)
  moreover assume "k' \<noteq> k"
  ultimately show "qt_id q \<notin> set (queue_ids (rt_control rt k'))"
    using assms(1) unfolding rt_inv_def by blast
qed

lemma state_ok_active:
  "state_ok sent k st \<Longrightarrow> ct_Status (qt_task a) \<noteq> ChannelTaskQueued \<Longrightarrow> ct_ConversationKey (qt_task a) = k \<Longrightarrow>
   state_ok sent k (st\<lparr>st_active := Some a\<rparr>)"
  "state_ok sent k st \<Longrightarrow> state_ok sent k (st\<lparr>st_active := None\<rparr>)"
  by (simp_all add: state_ok_def queue_ids_def)

lemma one_steering_mono: "one_steering qs \<Longrightarrow> set ps \<subseteq> set qs \<Longrightarrow> one_steering ps"
  unfolding one_steering_def by blast

lemma state_ok_subqueue:
  assumes "state_ok sent k st" "set qs \<subseteq> set (st_queue st)" "distinct (map qt_id qs)"
  shows "state_ok sent k (st\<lparr>st_queue := qs\<rparr>)"
  using assms one_steering_mono [of "st_queue st" qs] by (simp add: state_ok_def queue_ids_def subset_iff)

lemma queue_ids_sub: "set qs \<subseteq> set (st_queue st) \<Longrightarrow> set (queue_ids (st\<lparr>st_queue := qs\<rparr>)) \<subseteq> set (queue_ids st)"
  by (auto simp: queue_ids_def)

lemma queue_ids_simps [simp]:
  "queue_ids (st\<lparr>st_active := a\<rparr>) = queue_ids st" "queue_ids (st\<lparr>st_steering := b\<rparr>) = queue_ids st"
  "queue_ids (st\<lparr>st_queue := qs\<rparr>) = map qt_id qs"
  by (simp_all add: queue_ids_def)

lemma inv_start:
  assumes inv: "rt_inv rt"
  shows "rt_inv (startNextRemoteLocked now key rt)"
proof (cases "st_active (rt_control rt key) \<noteq> None \<or> st_steering (rt_control rt key) \<or> \<not> rt_live rt \<or>
    (\<forall>q rest. st_queue (rt_control rt key) = q # rest \<longrightarrow> ct_ConversationKey (qt_task q) \<in> dom (rt_direct rt))")
  case True
  then show ?thesis using inv by (auto simp: startNextRemoteLocked_def Let_def split: list.splits)
next
  case False
  let ?st = "rt_control rt key"
  from False obtain q rest where g: "st_active ?st = None" "\<not> st_steering ?st" "rt_live rt" "st_queue ?st = q # rest"
    "ct_ConversationKey (qt_task q) \<notin> dom (rt_direct rt)" by auto
  let ?t = "(qt_task q)\<lparr>ct_Status := ChannelTaskRunning, ct_StartedAt := now, ct_Prompt := []\<rparr>"
  obtain ok rt' where u: "updateRemoteTask now ?t rt = (ok, rt')" by fastforce
  have q: "item_ok (rt_sent rt) False key q" using inv_item(1) [OF inv, of q key] g by simp
  have st: "state_ok (rt_sent rt) key (?st\<lparr>st_queue := rest, st_active := Some (q\<lparr>qt_task := ?t\<rparr>)\<rparr>)"
  proof (rule state_ok_active(1))
    have "distinct (map qt_id (st_queue ?st))" using state_okD [OF inv, of key] by (simp add: state_ok_def queue_ids_def)
    then show "state_ok (rt_sent rt) key (?st\<lparr>st_queue := rest\<rparr>)"
      using state_okD [OF inv, of key] g by (intro state_ok_subqueue) auto
  qed (use q in \<open>auto simp: item_ok_def\<close>)
  have d: "distinct (map qt_id (q # rest))" using state_okD [OF inv, of key] g by (simp add: state_ok_def queue_ids_def)
  have "rt_inv (mark_sent (qt_id q) (set_state key (?st\<lparr>st_queue := rest, st_active := Some (q\<lparr>qt_task := ?t\<rparr>)\<rparr>) (rt\<lparr>rt_store := rt_store rt'\<rparr>)))" if ok
  proof (rule inv_claim [OF inv])
    show "store_ok (rt_sent rt @ [qt_id q]) (rt_store rt')"
      using updateRemoteTask_store(3) [OF u that, of "rt_sent rt"] inv by (simp add: unqueued_def rt_inv_def)
    show "qt_id q \<notin> set (rt_sent rt)" using q by (auto simp: item_ok_def split: if_splits)
    show "state_ok (rt_sent rt @ [qt_id q]) key (?st\<lparr>st_queue := rest, st_active := Some (q\<lparr>qt_task := ?t\<rparr>)\<rparr>)"
      by (rule state_ok_sent [OF st]) (use d in simp)
    show "qt_id q \<notin> set (queue_ids (rt_control rt k'))" if "k' \<noteq> key" for k'
      using inv_item(2) [OF inv, of q key k'] g that by simp
  qed (use g in \<open>auto simp: queue_ids_def\<close>)
  moreover have "rt_inv rt'" by (rule inv_update [OF inv _ u]) simp
  ultimately show ?thesis
    using g u updateRemoteTask_store(1) [OF u]
    by (auto simp: startNextRemoteLocked_def Let_def split: bool.splits)
qed

lemma one_steering_append: "one_steering qs \<Longrightarrow> ct_Status (qt_task q) \<noteq> ChannelTaskSteering \<Longrightarrow> one_steering (qs @ [q])"
  unfolding one_steering_def set_append list.set by blast

lemma inv_append:
  assumes inv: "rt_inv rt" and q: "ct_Status (qt_task q) = ChannelTaskQueued" "ct_ConversationKey (qt_task q) = k" "qt_id q \<notin> set (rt_sent rt)"
    and new: "\<And>k'. qt_id q \<notin> set (queue_ids (rt_control rt k'))"
  shows "rt_inv (set_state k ((rt_control rt k)\<lparr>st_queue := st_queue (rt_control rt k) @ [q]\<rparr>) rt)"
proof -
  let ?st = "rt_control rt k" and ?st' = "(rt_control rt k)\<lparr>st_queue := st_queue (rt_control rt k) @ [q]\<rparr>"
  have "one_steering (st_queue ?st @ [q])"
    using state_okD [OF inv, of k] q(1) by (simp add: state_ok_def one_steering_append)
  moreover have "item_ok (rt_sent rt) (st_steering ?st) k q" using q by (simp add: item_ok_def)
  ultimately have st: "state_ok (rt_sent rt) k ?st'"
    using state_okD [OF inv, of k] new [of k] by (simp add: state_ok_def queue_ids_def)
  have dj: "set (queue_ids (rt_control rt a)) \<inter> set (queue_ids (rt_control rt b)) = {}" if "a \<noteq> b" for a b
    using inv that unfolding rt_inv_def by blast
  have "set (queue_ids (((rt_control rt)(k := ?st')) a)) \<inter> set (queue_ids (((rt_control rt)(k := ?st')) b)) = {}" if "a \<noteq> b" for a b
    using dj [OF that] new [of a] new [of b] that by (auto simp: queue_ids_def)
  then show ?thesis using inv st by (simp add: rt_inv_def)
qed

lemma create_task_snd: "create_task now t rt = (ok, rt') \<Longrightarrow> ct_ID t \<notin> set (rt_sent rt) \<Longrightarrow> rt_inv rt \<Longrightarrow> rt_inv rt'"
  using create_task_store(1) [of now t rt ok rt'] create_task_store(2) [of now t rt ok rt' "rt_sent rt"] inv_store [of rt "rt_store rt'"]
  by (metis rt_inv_def)

lemma freshD: "fresh i rt \<Longrightarrow> i \<notin> set (rt_sent rt)" "fresh i rt \<Longrightarrow> i \<notin> set (queue_ids (rt_control rt k))"
  by (auto simp: fresh_def)

lemma newRemoteTask_fields [simp]:
  "qt_id (newRemoteTask now i fn ch msg p s) = i" "ct_Status (qt_task (newRemoteTask now i fn ch msg p s)) = s"
  "ct_ConversationKey (qt_task (newRemoteTask now i fn ch msg p s)) = ResolveConversationKey msg"
  by (simp_all add: newRemoteTask_def)

definition queued_item :: "gotime \<Rightarrow> string \<Rightarrow> string \<Rightarrow> string \<Rightarrow> Message \<Rightarrow> string \<Rightarrow> 'd channelRuntime \<Rightarrow> runtimeChannelTask" where
  "queued_item now taskID feedbackNonce controlNonce msg prompt rt =
     (let q0 = newRemoteTask now taskID feedbackNonce (rt_channelID rt) msg prompt ChannelTaskQueued;
          t1 = (qt_task q0)\<lparr>ct_ControlNonce := controlNonce\<rparr>
      in q0\<lparr>qt_task := (case st_active (rt_control rt (ResolveConversationKey msg)) of None \<Rightarrow> t1
           | Some a \<Rightarrow> t1\<lparr>ct_TargetTaskID := qt_id a, ct_ConversationID := ct_ConversationID (qt_task a)\<rparr>)\<rparr>)"

lemma queued_item_fields [simp]:
  "qt_id (queued_item now i fn cn msg p rt) = i" "ct_Status (qt_task (queued_item now i fn cn msg p rt)) = ChannelTaskQueued"
  "ct_ConversationKey (qt_task (queued_item now i fn cn msg p rt)) = ResolveConversationKey msg"
  by (auto simp: queued_item_def Let_def split: option.splits)

lemma enqueueRemoteTask_eq:
  "enqueueRemoteTask now i fn cn msg prompt rt =
     (let key = ResolveConversationKey msg; st = rt_control rt key; q = queued_item now i fn cn msg prompt rt in
      if trim_space prompt = [] then (Inl EmptyPrompt, rt)
      else if int (length (st_queue st)) \<ge> ChannelCodexMaxQueue (rt_config rt) then (Inl (QueueFull (ChannelCodexMaxQueue (rt_config rt))), rt)
      else (case create_task now (qt_task q) rt of
         (False, rt') \<Rightarrow> (Inl StoreFailed, rt')
       | (True, rt') \<Rightarrow> (Inr q, startNextRemoteLocked now key
            (mark_admitted key i (set_state key (st\<lparr>st_queue := st_queue st @ [q]\<rparr>) rt')))))"
  by (auto simp: enqueueRemoteTask_def queued_item_def Let_def split: option.splits prod.splits bool.splits)

lemma inv_enqueue:
  assumes inv: "rt_inv rt" and f: "fresh i rt"
  shows "rt_inv (snd (enqueueRemoteTask now i fn cn msg prompt rt))"
proof -
  let ?key = "ResolveConversationKey msg" and ?q = "queued_item now i fn cn msg prompt rt"
  obtain ok rt' where c: "create_task now (qt_task ?q) rt = (ok, rt')" by fastforce
  have rt': "rt' = rt\<lparr>rt_store := rt_store rt'\<rparr>" by (rule create_task_store(1) [OF c])
  have i': "rt_inv rt'" using create_task_snd [OF c _ inv] freshD(1) [OF f] by simp
  have e: "rt_control rt' = rt_control rt" "rt_sent rt' = rt_sent rt" using arg_cong [OF rt', of rt_control] arg_cong [OF rt', of rt_sent] by simp_all
  have "rt_inv (set_state ?key ((rt_control rt' ?key)\<lparr>st_queue := st_queue (rt_control rt' ?key) @ [?q]\<rparr>) rt')"
    by (rule inv_append [OF i']) (use f in \<open>simp_all add: e freshD\<close>)
  then show ?thesis using inv c i' by (simp add: enqueueRemoteTask_eq e inv_start Let_def split: bool.splits)
qed

lemma inv_admit:
  assumes inv: "rt_inv rt" and f: "fresh i rt"
  shows "rt_inv (snd (admitMessage now i fn cn msg rt))"
proof -
  let ?key = "ResolveConversationKey msg" and ?q0 = "newRemoteTask now i fn (rt_channelID rt) msg (ms_Text msg) ChannelTaskRunning"
  let ?q = "?q0\<lparr>qt_task := (qt_task ?q0)\<lparr>ct_Prompt := [], ct_StartedAt := now\<rparr>\<rparr>"
  let ?st = "(rt_control rt ?key)\<lparr>st_active := Some ?q\<rparr>"
  obtain ok rt' where c: "create_task now (qt_task ?q) rt = (ok, rt')" by fastforce
  have rt': "rt' = rt\<lparr>rt_store := rt_store rt'\<rparr>" by (rule create_task_store(1) [OF c])
  have i': "rt_inv rt'" using create_task_snd [OF c _ inv] freshD(1) [OF f] by simp
  have "rt_inv (mark_sent i (set_state ?key ?st (rt\<lparr>rt_store := rt_store rt'\<rparr>)))" if ok
  proof (rule inv_claim [OF inv])
    show "store_ok (rt_sent rt @ [i]) (rt_store rt')"
      using create_task_store(3) [OF c that, of "rt_sent rt"] inv by (simp add: unqueued_def rt_inv_def)
    show "state_ok (rt_sent rt @ [i]) ?key ?st"
      using freshD(2) [OF f] by (intro state_ok_active(1) state_ok_sent state_okD [OF inv]) simp_all
  qed (use f in \<open>simp_all add: freshD\<close>)
  then show ?thesis
    using inv_enqueue [OF inv f] c i' rt' by (simp add: admitMessage_def Let_def split: bool.splits)
qed

lemma inv_active:
  assumes "rt_inv rt" "\<And>a. x = Some a \<Longrightarrow> unqueued (qt_task a) \<and> ct_ConversationKey (qt_task a) = k"
  shows "rt_inv (set_state k ((rt_control rt k)\<lparr>st_active := x\<rparr>) rt)"
  using assms state_okD [OF assms(1), of k]
  by (intro inv_set_state) (auto simp: state_ok_def queue_ids_def unqueued_def)

lemma inv_activeD:
  assumes "rt_inv rt" "st_active (rt_control rt k) = Some a"
  shows "unqueued (qt_task a)" "ct_ConversationKey (qt_task a) = k"
  using state_okD [OF assms(1), of k] assms(2) by (auto simp: state_ok_def unqueued_def)

lemma inv_direct:
  assumes "rt_inv rt" "\<And>turn t. x = Some turn \<Longrightarrow> dt_task turn = Some t \<Longrightarrow> unqueued t"
  shows "rt_inv (rt\<lparr>rt_direct := (rt_direct rt)(k := x)\<rparr>)"
  using assms by (auto simp: rt_inv_def)

lemma inv_directD: "rt_inv rt \<Longrightarrow> rt_direct rt k = Some turn \<Longrightarrow> dt_task turn = Some t \<Longrightarrow> unqueued t"
  unfolding rt_inv_def by blast

lemma inv_updateI: "rt_inv rt \<Longrightarrow> unqueued t \<Longrightarrow> rt_inv (snd (updateRemoteTask now t rt))"
  by (rule inv_update_snd) (simp_all add: unqueued_def)

lemma remote_outcome_unqueued: "remote_outcome dl pe tt q = (status, err) \<Longrightarrow> status \<noteq> ChannelTaskQueued"
  by (auto simp: remote_outcome_def Let_def split: if_splits option.splits)

lemma inv_finish:
  assumes inv: "rt_inv rt" and a: "st_active (rt_control rt key) = Some q" and s: "status \<noteq> ChannelTaskQueued"
  shows "rt_inv (finishRemoteTask now q status err rt)"
proof -
  let ?t = "(qt_task q)\<lparr>ct_Status := status, ct_Error := err, ct_FinishedAt := now, ct_UpdatedAt := now, ct_Prompt := []\<rparr>"
  have k: "ct_ConversationKey (qt_task q) = key" using inv_activeD [OF inv a] by simp
  have "rt_inv (snd (updateRemoteTask now ?t rt))" by (rule inv_updateI [OF inv]) (simp add: unqueued_def s)
  from inv_active [OF this, of None key] a k s show ?thesis
    by (auto simp: finishRemoteTask_def Let_def unqueued_def intro!: inv_start inv_push_ended)
qed

lemma on_live_task_inv:
  assumes inv: "rt_inv rt" and f: "\<And>t. unqueued (f t) = unqueued t" "\<And>t. ct_ConversationKey (f t) = ct_ConversationKey t"
    and r: "on_live_task f g key i rt = (res, rt')"
  shows "rt_inv rt'" "res = Some t \<Longrightarrow> unqueued t"
proof -
  have "rt_inv rt' \<and> (\<forall>t. res = Some t \<longrightarrow> unqueued t)"
    using inv f r inv_activeD [OF inv, of key] inv_directD [OF inv, of key]
    by (auto simp: on_live_task_def Let_def intro!: inv_direct inv_active split: option.splits if_splits)
  then show "rt_inv rt'" "res = Some t \<Longrightarrow> unqueued t" by auto
qed

lemma inv_error: "rt_inv rt \<Longrightarrow> rt_inv (markRemoteTaskError key i err rt)"
  using on_live_task_inv(1) [of rt "\<lambda>t. t"] by (auto simp: markRemoteTaskError_def prod_eq_iff)

lemma inv_event: "rt_inv rt \<Longrightarrow> rt_inv (updateRemoteTaskFromEvent now key i turnID rt)"
  using on_live_task_inv [of rt "\<lambda>t. t\<lparr>ct_TurnID := turnID, ct_UpdatedAt := now\<rparr>"]
  by (auto simp: updateRemoteTaskFromEvent_def unqueued_def intro!: inv_push_write split: option.splits prod.splits)

lemma record_attempt_fields [simp]:
  "unqueued (record_attempt now derr final t) = unqueued t" "ct_ConversationKey (record_attempt now derr final t) = ct_ConversationKey t"
  by (simp_all add: record_attempt_def unqueued_def Let_def split: option.splits)

lemma inv_delivery:
  assumes inv: "rt_inv rt"
  shows "rt_inv (recordChannelDeliveryAttempt now key i derr final rt)"
proof -
  obtain res rt' where r: "on_live_task (record_attempt now derr final) (attempt_error derr final) key i rt = (res, rt')" by fastforce
  have "rt_inv rt'" by (rule on_live_task_inv(1) [OF inv _ _ r]) simp_all
  moreover have "unqueued t" if "res = Some t" for t by (rule on_live_task_inv(2) [OF inv _ _ r that]) simp_all
  ultimately show ?thesis using inv r by (simp add: recordChannelDeliveryAttempt_def inv_push_write split: option.splits)
qed

lemma inv_write: "rt_inv rt \<Longrightarrow> rt_inv (write_snapshot now n rt)"
proof -
  assume inv: "rt_inv rt"
  have "set (take n (rt_writes rt) @ drop (Suc n) (rt_writes rt)) \<subseteq> set (rt_writes rt)"
    by (auto dest: in_set_takeD in_set_dropD)
  then have "rt_inv (rt\<lparr>rt_writes := take n (rt_writes rt) @ drop (Suc n) (rt_writes rt)\<rparr>)"
    using inv by (auto simp: rt_inv_def)
  moreover have "unqueued (rt_writes rt ! n)" if "n < length (rt_writes rt)"
    using inv that nth_mem unfolding rt_inv_def by blast
  ultimately show ?thesis using inv by (auto simp: write_snapshot_def intro!: inv_updateI)
qed

lemma inv_attach: "rt_inv rt \<Longrightarrow> rt_inv (attachRemoteSession now key session conv native rt)"
  by (auto simp: attachRemoteSession_def Let_def unqueued_def dest: inv_activeD
      intro!: inv_updateI inv_active split: prod.splits option.splits)

lemma update_item_ids [simp]: "(\<And>t. ct_ID (f t) = ct_ID t) \<Longrightarrow> map qt_id (update_item i f qs) = map qt_id qs"
  by (auto simp: update_item_def)

lemma find_item: "find (\<lambda>q. qt_id q = i) qs = Some q \<Longrightarrow> q \<in> set qs \<and> qt_id q = i"
  by (auto simp: find_Some_iff in_set_conv_nth)

lemma state_ok_retag:
  assumes st: "state_ok sent k st" and f: "\<And>t. ct_ID (f t) = ct_ID t" "\<And>t. ct_Status (f t) = ct_Status t" "\<And>t. ct_ConversationKey (f t) = ct_ConversationKey t"
  shows "state_ok sent k (st\<lparr>st_queue := update_item i f (st_queue st)\<rparr>)"
proof -
  have "one_steering (update_item i f (st_queue st))"
  proof (unfold one_steering_def, intro ballI impI)
    fix x y assume xy: "x \<in> set (update_item i f (st_queue st))" "y \<in> set (update_item i f (st_queue st))"
      "ct_Status (qt_task x) = ChannelTaskSteering" "ct_Status (qt_task y) = ChannelTaskSteering"
    then obtain x' y' where "x' \<in> set (st_queue st)" "y' \<in> set (st_queue st)" "qt_id x = qt_id x'" "qt_id y = qt_id y'"
      "ct_Status (qt_task x') = ChannelTaskSteering" "ct_Status (qt_task y') = ChannelTaskSteering"
      using f by (auto simp: update_item_def split: if_splits)
    then show "qt_id x = qt_id y" using st unfolding state_ok_def one_steering_def by metis
  qed
  moreover have "\<forall>q\<in>set (update_item i f (st_queue st)). item_ok sent (st_steering st) k q"
    using st f by (auto simp: update_item_def state_ok_def item_ok_def)
  ultimately show ?thesis using st f by (simp add: state_ok_def queue_ids_def)
qed

lemma inv_card: 
  assumes inv: "rt_inv rt"
  shows "rt_inv (save_card now key i c rt)"
proof (cases "find (\<lambda>q. qt_id q = i) (st_queue (rt_control rt key))")
  case (Some q)
  let ?put = "\<lambda>t. t\<lparr>ct_ControlCardID := c\<rparr>"
  have "rt_inv (set_state key ((rt_control rt key)\<lparr>st_queue := update_item i ?put (st_queue (rt_control rt key))\<rparr>) rt)"
    by (rule inv_set_state [OF inv state_ok_retag [OF state_okD [OF inv]]]) (simp_all add: queue_ids_def)
  moreover have "item_ok (rt_sent rt) (st_steering (rt_control rt key)) key q" using inv_item(1) [OF inv] find_item [OF Some] by blast
  ultimately show ?thesis using Some
    by (auto simp: save_card_def Let_def item_ok_def split: if_splits intro!: inv_update_snd)
next
  case None
  have "rt_inv (rt\<lparr>rt_ended := update_item i (\<lambda>t. t\<lparr>ct_ControlCardID := c\<rparr>) (rt_ended rt)\<rparr>)"
    using inv by (auto simp: rt_inv_def update_item_def unqueued_def)
  moreover have "unqueued (qt_task q)" if "find (\<lambda>q. qt_id q = i) (rt_ended rt) = Some q" for q
    using find_item [OF that] inv unfolding rt_inv_def by blast
  ultimately show ?thesis using None inv inv_activeD [OF inv, of key]
    by (auto simp: save_card_def Let_def unqueued_def split: option.splits if_splits intro!: inv_updateI inv_active)
qed

lemma inv_cancel_item:
  assumes inv: "rt_inv rt"
  shows "rt_inv (set_state k ((rt_control rt k)\<lparr>st_queue := filter P (st_queue (rt_control rt k))\<rparr>) rt)"
proof -
  have "distinct (map qt_id (filter P (st_queue (rt_control rt k))))"
    using state_okD [OF inv, of k] by (simp add: state_ok_def queue_ids_def distinct_map_filter)
  then show ?thesis
    using state_okD [OF inv, of k] by (intro inv_set_state [OF inv] state_ok_subqueue) (auto simp: queue_ids_def)
qed

text \<open>The steer of a queued item: every other item of the queue keeps its status.\<close>

lemma state_ok_steer:
  assumes st: "state_ok sent k st" and q: "q \<in> set (st_queue st)" and ns: "\<not> st_steering st"
    and t: "ct_ID t = qt_id q" "ct_Status t = ChannelTaskSteering" "ct_ConversationKey t = k"
  shows "state_ok (sent @ [qt_id q]) k (st\<lparr>st_queue := update_item (qt_id q) (\<lambda>_. t) (st_queue st), st_steering := True\<rparr>)"
proof -
  have old: "item_ok sent False k p" if "p \<in> set (st_queue st)" for p using st ns that by (simp add: state_ok_def)
  have "\<forall>p\<in>set (update_item (qt_id q) (\<lambda>_. t) (st_queue st)). item_ok (sent @ [qt_id q]) True k p"
    using t old by (fastforce simp: update_item_def item_ok_def split: if_splits)
  moreover have "one_steering (update_item (qt_id q) (\<lambda>_. t) (st_queue st))"
  proof (unfold one_steering_def, intro ballI impI)
    fix x y assume "x \<in> set (update_item (qt_id q) (\<lambda>_. t) (st_queue st))" "y \<in> set (update_item (qt_id q) (\<lambda>_. t) (st_queue st))"
      "ct_Status (qt_task x) = ChannelTaskSteering" "ct_Status (qt_task y) = ChannelTaskSteering"
    then have "qt_id x = qt_id q" "qt_id y = qt_id q"
      using t old by (fastforce simp: update_item_def item_ok_def split: if_splits)+
    then show "qt_id x = qt_id y" by simp
  qed
  moreover have "map qt_id (update_item (qt_id q) (\<lambda>_. t) (st_queue st)) = map qt_id (st_queue st)"
    using t by (auto simp: update_item_def)
  ultimately show ?thesis using st by (simp add: state_ok_def queue_ids_def)
qed

lemma inv_control_cancel:
  assumes inv: "rt_inv rt" and u: "updateRemoteTask now t rt = (True, rt')" and t: "unqueued t"
  shows "rt_inv (push_ended [q\<lparr>qt_task := t\<rparr>] (set_state k ((rt_control rt k)\<lparr>st_queue := filter P (st_queue (rt_control rt k))\<rparr>) rt'))"
proof -
  have "rt_inv rt'" by (rule inv_update [OF inv _ u]) (use t in \<open>simp add: unqueued_def\<close>)
  moreover have "rt_control rt' = rt_control rt" using arg_cong [OF updateRemoteTask_store(1) [OF u], of rt_control] by simp
  ultimately show ?thesis using inv_cancel_item [of rt' k P] t by (simp add: inv_push_ended)
qed

lemma inv_control_steer:
  assumes inv: "rt_inv rt" and u: "updateRemoteTask now t rt = (True, rt')"
    and q: "q \<in> set (st_queue (rt_control rt k))" "ct_Status (qt_task q) = ChannelTaskQueued" and ns: "\<not> st_steering (rt_control rt k)"
    and t: "ct_ID t = qt_id q" "ct_Status t = ChannelTaskSteering" "ct_ConversationKey t = ct_ConversationKey (qt_task q)"
  shows "rt_inv (mark_sent (qt_id q) (set_state k ((rt_control rt k)\<lparr>st_queue := update_item (qt_id q) (\<lambda>_. t) (st_queue (rt_control rt k)), st_steering := True\<rparr>) rt'))"
proof -
  let ?st = "(rt_control rt k)\<lparr>st_queue := update_item (qt_id q) (\<lambda>_. t) (st_queue (rt_control rt k)), st_steering := True\<rparr>"
  have it: "item_ok (rt_sent rt) False k q" using inv_item(1) [OF inv q(1)] ns by simp
  have "rt_inv (mark_sent (qt_id q) (set_state k ?st (rt\<lparr>rt_store := rt_store rt'\<rparr>)))"
  proof (rule inv_claim [OF inv])
    show "store_ok (rt_sent rt @ [qt_id q]) (rt_store rt')"
      using updateRemoteTask_store(3) [OF u TrueI, of "rt_sent rt"] inv t by (simp add: unqueued_def rt_inv_def)
    show "qt_id q \<notin> set (rt_sent rt)" using it q(2) by (simp add: item_ok_def)
    show "state_ok (rt_sent rt @ [qt_id q]) k ?st"
      by (rule state_ok_steer [OF state_okD [OF inv] q(1) ns]) (use t it in \<open>simp_all add: item_ok_def\<close>)
    show "set (queue_ids ?st) \<subseteq> set (queue_ids (rt_control rt k))" using t q(1) by (auto simp: queue_ids_def update_item_def)
  qed (rule inv_item(2) [OF inv q(1)])
  then show ?thesis using updateRemoteTask_store(1) [OF u] by simp
qed

lemma inv_control:
  assumes inv: "rt_inv rt"
  shows "rt_inv (snd (controlQueuedTask now manager msg action rt))"
proof (cases "find (\<lambda>q. qt_id q = ac_TaskID action) (st_queue (rt_control rt (ResolveConversationKey msg)))")
  case None
  then show ?thesis using inv by (simp add: controlQueuedTask_def)
next
  case (Some q)
  have q: "q \<in> set (st_queue (rt_control rt (ResolveConversationKey msg)))" using find_item [OF Some] by simp
  let ?k = "ResolveConversationKey msg"
  let ?tc = "(qt_task q)\<lparr>ct_Status := ChannelTaskCancelled, ct_FinishedAt := now, ct_Prompt := []\<rparr>"
  obtain okc rtc where uc: "updateRemoteTask now ?tc rt = (okc, rtc)" by fastforce
  have c: "rt_inv (startNextRemoteLocked now ?k (push_ended [q\<lparr>qt_task := ?tc\<rparr>]
      (set_state ?k ((rt_control rt ?k)\<lparr>st_queue := filter (\<lambda>p. qt_id p \<noteq> qt_id q) (st_queue (rt_control rt ?k))\<rparr>) rtc)))" if okc
    using uc that by (intro inv_start inv_control_cancel [OF inv]) (simp_all add: unqueued_def)
  have cf: "rt_inv rtc" by (rule inv_update [OF inv _ uc]) simp
  show ?thesis
  proof (cases "st_active (rt_control rt ?k)")
    case None
    then show ?thesis using Some inv uc c cf by (simp add: controlQueuedTask_def Let_def split: bool.splits)
  next
    case (Some a)
    let ?ts = "(qt_task q)\<lparr>ct_TurnID := qt_ActiveTurnID a, ct_Status := ChannelTaskSteering\<rparr>"
    obtain oks rts where us: "updateRemoteTask now ?ts rt = (oks, rts)" by fastforce
    have s: "rt_inv (mark_sent (qt_id q) (set_state ?k ((rt_control rt ?k)\<lparr>st_queue := update_item (qt_id q) (\<lambda>_. ?ts) (st_queue (rt_control rt ?k)),
        st_steering := True\<rparr>) rts))" if oks "ct_Status (qt_task q) = ChannelTaskQueued" "\<not> st_steering (rt_control rt ?k)"
      using us that by (intro inv_control_steer [OF inv _ q]) simp_all
    have sf: "rt_inv rts" by (rule inv_update [OF inv _ us]) simp
    show ?thesis using Some \<open>find _ _ = Some q\<close> inv uc c cf us s sf
      by (simp add: controlQueuedTask_def Let_def split: bool.splits)
  qed
qed

lemma inv_forget: "rt_inv rt \<Longrightarrow> rt_inv (rt\<lparr>rt_sent := filter P (rt_sent rt)\<rparr>)"
proof -
  assume inv: "rt_inv rt"
  have "store_ok (filter P (rt_sent rt)) (rt_store rt)"
    using inv control.settled_forget by (auto simp: rt_inv_def store_ok_def split: option.splits)
  moreover have "state_ok (filter P (rt_sent rt)) k (rt_control rt k)" for k
    using state_okD [OF inv, of k] by (auto simp: state_ok_def item_ok_def)
  ultimately show ?thesis using inv by (simp add: rt_inv_def)
qed

lemma update_commute:
  "updateRemoteTask now t rt = (ok, rt') \<Longrightarrow> updateRemoteTask now t (rt\<lparr>rt_sent := x\<rparr>) = (ok, rt'\<lparr>rt_sent := x\<rparr>)"
  by (auto simp: updateRemoteTask_def split: option.splits prod.splits)

lemma steer_others:
  assumes st: "state_ok sent k st" and q: "q \<in> set (st_queue st)" "ct_Status (qt_task q) = ChannelTaskSteering"
    and p: "p \<in> set (st_queue st)" "qt_id p \<noteq> qt_id q"
  shows "ct_Status (qt_task p) = ChannelTaskQueued" "item_ok sent b k p"
proof -
  have "ct_Status (qt_task p) \<noteq> ChannelTaskSteering" using st q p unfolding state_ok_def one_steering_def by metis
  then show "ct_Status (qt_task p) = ChannelTaskQueued" "item_ok sent b k p"
    using st p(1) by (auto simp: state_ok_def item_ok_def split: if_splits)
qed

lemma one_steeringI: "\<forall>q\<in>set qs. ct_Status (qt_task q) = ChannelTaskQueued \<Longrightarrow> one_steering qs"
  by (simp add: one_steering_def)

lemma state_ok_steer_removed:
  assumes st: "state_ok sent k st" and q: "q \<in> set (st_queue st)" "ct_Status (qt_task q) = ChannelTaskSteering"
  shows "state_ok sent k (st\<lparr>st_queue := filter (\<lambda>p. qt_id p \<noteq> qt_id q) (st_queue st), st_steering := False\<rparr>)"
  using st steer_others [OF st q] by (auto simp: state_ok_def queue_ids_def distinct_map_filter intro!: one_steeringI)

lemma state_ok_steer_rejected:
  assumes st: "state_ok sent k st" and q: "q \<in> set (st_queue st)" "ct_Status (qt_task q) = ChannelTaskSteering"
    and t: "ct_ID t = qt_id q" "ct_Status t = ChannelTaskQueued" "ct_ConversationKey t = k" "qt_id q \<notin> set sent"
  shows "state_ok sent k (st\<lparr>st_queue := update_item (qt_id q) (\<lambda>_. t) (st_queue st), st_steering := False\<rparr>)"
proof -
  have new: "item_ok sent False k (x\<lparr>qt_task := t\<rparr>)" for x using t by (simp add: item_ok_def)
  have "\<forall>p\<in>set (update_item (qt_id q) (\<lambda>_. t) (st_queue st)). ct_Status (qt_task p) = ChannelTaskQueued \<and> item_ok sent False k p"
    using t new steer_others [OF st q] by (auto simp: update_item_def)
  moreover have "map qt_id (update_item (qt_id q) (\<lambda>_. t) (st_queue st)) = map qt_id (st_queue st)"
    using t by (auto simp: update_item_def)
  ultimately show ?thesis using st by (simp add: state_ok_def queue_ids_def one_steeringI)
qed

lemma steered_task_fields [simp]:
  "ct_ID (steered_task now r t) = ct_ID t" "ct_ConversationKey (steered_task now r t) = ct_ConversationKey t"
  "ct_Status (steered_task now r t) = (case r of SteerAccepted \<Rightarrow> ChannelTaskSteered | SteerRejected _ \<Rightarrow> ChannelTaskQueued | SteerAmbiguous _ \<Rightarrow> ChannelTaskSteerUnknown)"
  by (auto simp: steered_task_def split: steer_result.splits)

lemma find_distinct: "distinct (map qt_id qs) \<Longrightarrow> q \<in> set qs \<Longrightarrow> find (\<lambda>p. qt_id p = qt_id q) qs = Some q"
  by (induction qs) auto

text \<open>The end of a steer: the item leaves the queue, or it is queued again and no longer counts as sent.\<close>

lemma inv_steer_removed:
  assumes inv: "rt_inv rt" and q: "q \<in> set (st_queue (rt_control rt k))" "ct_Status (qt_task q) = ChannelTaskSteering"
  shows "rt_inv (set_state k ((rt_control rt k)\<lparr>st_queue := filter (\<lambda>p. qt_id p \<noteq> qt_id q) (st_queue (rt_control rt k)), st_steering := False\<rparr>) rt)"
  by (rule inv_set_state [OF inv state_ok_steer_removed [OF state_okD [OF inv] q]]) (auto simp: queue_ids_def)

lemma inv_steer_rejected:
  assumes inv: "rt_inv rt" and q: "q \<in> set (st_queue (rt_control rt k))" "ct_Status (qt_task q) = ChannelTaskSteering"
    and t: "ct_ID t = qt_id q" "ct_Status t = ChannelTaskQueued" "ct_ConversationKey t = k" "qt_id q \<notin> set (rt_sent rt)"
  shows "rt_inv (set_state k ((rt_control rt k)\<lparr>st_queue := update_item (qt_id q) (\<lambda>_. t) (st_queue (rt_control rt k)), st_steering := False\<rparr>) rt)"
  by (rule inv_set_state [OF inv state_ok_steer_rejected [OF state_okD [OF inv] q t]]) (use t q in \<open>auto simp: queue_ids_def update_item_def\<close>)

lemma inv_steered:
  assumes inv: "rt_inv rt" and q: "q \<in> set (st_queue (rt_control rt k))" "ct_Status (qt_task q) = ChannelTaskSteering"
  shows "rt_inv (finishSteer now k (qt_id q) r rt)"
proof -
  have f: "find (\<lambda>p. qt_id p = qt_id q) (st_queue (rt_control rt k)) = Some q"
    using state_okD [OF inv, of k] q(1) by (intro find_distinct) (simp_all add: state_ok_def queue_ids_def)
  have key: "ct_ConversationKey (qt_task q) = k" using inv_item(1) [OF inv q(1)] by (simp add: item_ok_def)
  define sent where "sent = (case r of SteerRejected _ \<Rightarrow> filter (\<lambda>j. j \<noteq> qt_id q) (rt_sent rt) | _ \<Rightarrow> rt_sent rt)"
  have i0: "rt_inv (rt\<lparr>rt_sent := sent\<rparr>)" using inv inv_forget [OF inv] by (simp add: sent_def split: steer_result.splits)
  let ?t = "steered_task now r (qt_task q)"
  obtain ok rt1 where u: "updateRemoteTask now ?t rt = (ok, rt1)" by fastforce
  note u0 = update_commute [OF u, of sent]
  have i1: "rt_inv (rt1\<lparr>rt_sent := sent\<rparr>)"
    by (rule inv_update [OF i0 _ u0]) (auto simp: sent_def split: steer_result.splits)
  have e: "rt_control rt1 = rt_control rt" "rt_sent rt1 = rt_sent rt"
    using arg_cong [OF updateRemoteTask_store(1) [OF u], of rt_control] arg_cong [OF updateRemoteTask_store(1) [OF u], of rt_sent] by simp_all
  have rem: "rt_inv (set_state k ((rt_control rt k)\<lparr>st_queue := filter (\<lambda>p. qt_id p \<noteq> qt_id q) (st_queue (rt_control rt k)), st_steering := False\<rparr>) (rt1\<lparr>rt_sent := sent\<rparr>))"
    using inv_steer_removed [OF i1, of q k] q e by simp
  have rej: "rt_inv (set_state k ((rt_control rt k)\<lparr>st_queue := update_item (qt_id q) (\<lambda>_. ?t) (st_queue (rt_control rt k)), st_steering := False\<rparr>) (rt1\<lparr>rt_sent := sent\<rparr>))"
    if "r = SteerRejected x" for x
    using inv_steer_rejected [OF i1, of q k ?t] q e key that by (simp add: sent_def)
  have same: "rt1\<lparr>rt_sent := rt_sent rt\<rparr> = rt1" unfolding e(2) [symmetric] by (cases rt1) simp
  have swap: "set_state k s (push_ended qs rt0) = push_ended qs (set_state k s rt0)" for s qs and rt0 :: "'a runtime"
    by (simp add: set_state_def push_ended_def)
  show ?thesis
  proof (cases r)
    case (SteerRejected x)
    then show ?thesis using f u rem rej [of x] e
      by (auto simp: finishSteer_def Let_def swap sent_def unqueued_def intro!: inv_start inv_push_ended)
  next
    case SteerAccepted
    then show ?thesis using f u rem e same
      by (auto simp: finishSteer_def Let_def swap sent_def unqueued_def intro!: inv_start inv_push_ended)
  next
    case (SteerAmbiguous x)
    then show ?thesis using f u rem e same
      by (auto simp: finishSteer_def Let_def swap sent_def unqueued_def intro!: inv_start inv_push_ended)
  qed
qed

lemma inv_on_active:
  assumes inv: "rt_inv rt" and f: "\<And>a. st_active (rt_control rt k) = Some a \<Longrightarrow> unqueued (qt_task (f a)) \<and> ct_ConversationKey (qt_task (f a)) = ct_ConversationKey (qt_task a)"
  shows "rt_inv (on_active f k rt)"
  unfolding on_active_def by (rule inv_active [OF inv]) (use f inv_activeD [OF inv] in auto)

lemma inv_stop: "rt_inv rt \<Longrightarrow> rt_inv (snd (stopRemoteTask manager msg expected rt))"
  by (auto simp: stopRemoteTask_def Let_def intro!: inv_on_active dest: inv_activeD(1) split: option.splits)

lemma inv_stop_direct: "rt_inv rt \<Longrightarrow> rt_inv (stop_direct key rt)"
  unfolding stop_direct_def by (rule inv_direct) (auto dest: inv_directD)

lemma inv_stop_console: "rt_inv rt \<Longrightarrow> rt_inv (snd (StopConversation key expected rt))"
  by (auto simp: StopConversation_def Let_def intro!: inv_on_active inv_stop_direct dest: inv_activeD(1) split: option.splits)

lemma inv_stop_direct_action: "rt_inv rt \<Longrightarrow> rt_inv (snd (handleDirectTaskAction manager msg action rt))"
  by (auto simp: handleDirectTaskAction_def Let_def intro!: inv_stop_direct split: option.splits)

lemma inv_stop_direct_text: "rt_inv rt \<Longrightarrow> rt_inv (snd (handleDirectStop manager msg rt))"
  by (auto simp: handleDirectStop_def Let_def intro!: inv_stop_direct split: option.splits)

lemma inv_take_over: "rt_inv rt \<Longrightarrow> rt_inv (snd (takeOverRemoteTask now manager msg rt))"
  by (auto simp: takeOverRemoteTask_def Let_def unqueued_def intro!: inv_push_write inv_on_active dest: inv_activeD(1) split: option.splits)

lemma distinct_subseq: "subseq xs ys \<Longrightarrow> distinct ys \<Longrightarrow> distinct xs"
  by (metis subseq_conv_nths distinct_nthsI)

lemma clear_scan_inv:
  assumes "rt_inv rt" "clear_scan now admin user qs rt = ((remaining, queued), rt')"
  shows "rt_inv rt' \<and> rt_control rt' = rt_control rt \<and> subseq remaining qs \<and> (\<forall>q\<in>set queued. unqueued (qt_task q))"
  using assms
proof (induction qs arbitrary: rt rt' remaining queued)
  case Nil then show ?case by simp
next
  case (Cons q qs)
  let ?t = "(qt_task q)\<lparr>ct_Status := ChannelTaskCancelled, ct_Error := ''cancelled before start'', ct_Prompt := [], ct_FinishedAt := now\<rparr>"
  obtain ok rt1 where u: "updateRemoteTask now ?t rt = (ok, rt1)" by fastforce
  have i1: "rt_inv rt1" by (rule inv_update [OF Cons.prems(1) _ u]) simp
  have e1: "rt_control rt1 = rt_control rt" using arg_cong [OF updateRemoteTask_store(1) [OF u], of rt_control] by simp
  obtain r0 c0 s0 where c: "clear_scan now admin user qs rt = ((r0, c0), s0)" by (metis prod.collapse)
  obtain r1 c1 s1 where c1: "clear_scan now admin user qs rt1 = ((r1, c1), s1)" by (metis prod.collapse)
  show ?case
    using Cons.IH [OF Cons.prems(1) c] Cons.IH [OF i1 c1] Cons.prems(2) c c1 u e1
    by (auto simp: Let_def unqueued_def split: if_splits bool.splits)
qed

lemma inv_clear:
  assumes inv: "rt_inv rt"
  shows "rt_inv (snd (clearRemoteQueue now admin msg confirmed rt))"
proof -
  let ?k = "ResolveConversationKey msg" and ?c = "ResolveConversationKey msg @ '':'' @ ms_UserID msg"
  obtain rem qd rt' where c: "clear_scan now admin (ms_UserID msg) (st_queue (rt_control rt ?k)) (rt\<lparr>rt_clearConfirm := (rt_clearConfirm rt)(?c := None)\<rparr>) = ((rem, qd), rt')"
    by (metis prod.collapse)
  have i': "rt_inv rt'" and e: "rt_control rt' = rt_control rt" and s: "subseq rem (st_queue (rt_control rt ?k))" and q: "\<forall>q\<in>set qd. unqueued (qt_task q)"
    using clear_scan_inv [OF _ c] inv by simp_all
  have sub: "set rem \<subseteq> set (st_queue (rt_control rt ?k))" using s by (auto dest: list_emb_set)
  have "subseq (map qt_id rem) (map qt_id (st_queue (rt_control rt ?k)))" using s by (rule subseq_map)
  then have "distinct (map qt_id rem)"
    using state_okD [OF inv, of ?k] distinct_subseq by (auto simp: state_ok_def queue_ids_def)
  then have "rt_inv (set_state ?k ((rt_control rt ?k)\<lparr>st_queue := rem\<rparr>) rt')"
    using state_okD [OF i', of ?k] sub e by (intro inv_set_state [OF i'] state_ok_subqueue) (auto simp: queue_ids_def)
  then show ?thesis using inv c q by (simp add: clearRemoteQueue_def Let_def inv_start inv_push_ended)
qed

lemma inv_begin_direct: "rt_inv rt \<Longrightarrow> rt_inv (snd (beginDirectTurn key user rt))"
  by (auto simp: beginDirectTurn_def Let_def intro!: inv_direct)

lemma ended_direct_unqueued: "unqueued (ended_direct_task now cerr turn t)"
  by (simp add: ended_direct_task_def Let_def unqueued_def split: option.splits)

lemma inv_end_direct: "rt_inv rt \<Longrightarrow> rt_inv (detachDirectTurn now cerr key rt)"
  using inv_direct [of rt None] by (auto simp: detachDirectTurn_def Let_def ended_direct_unqueued intro!: inv_push_write split: option.splits)

lemma inv_finish_direct: "rt_inv rt \<Longrightarrow> rt_inv (finishDirectTurn now cerr key rt)"
  by (simp add: finishDirectTurn_def Let_def inv_start inv_write inv_end_direct)

text \<open>A task whose claim is already stored is handed out without a place in a queue.\<close>

lemma inv_claim_direct:
  assumes inv: "rt_inv rt" and f: "fresh i rt" and s: "store_ok (rt_sent rt @ [i]) s"
  shows "rt_inv (mark_sent i (rt\<lparr>rt_store := s\<rparr>))"
proof -
  have "\<forall>k. state_ok (rt_sent rt @ [i]) k (rt_control rt k)"
    using state_ok_sent [OF state_okD [OF inv]] freshD(2) [OF f] by simp
  then show ?thesis using inv s freshD(1) [OF f] by (simp add: rt_inv_def mark_sent_def)
qed

lemma inv_start_direct:
  assumes inv: "rt_inv rt" and f: "fresh i rt"
  shows "rt_inv (snd (startDirectTask now i fn conv native msg rt))"
proof -
  define t where "t = (let t0 = (qt_task (newRemoteTask now i fn (rt_channelID rt) msg [] ChannelTaskRunning))\<lparr>ct_StartedAt := now, ct_UpdatedAt := now\<rparr>;
      t1 = (case conv of None \<Rightarrow> t0 | Some (cid, nid) \<Rightarrow> t0\<lparr>ct_ConversationID := cid, ct_NativeThreadID := nid\<rparr>)
    in if native \<noteq> [] then t1\<lparr>ct_NativeThreadID := native\<rparr> else t1)"
  have t: "ct_ID t = i" "unqueued t" by (auto simp: t_def Let_def unqueued_def split: option.splits)
  obtain ok rt1 where a: "attachDirectTask (ResolveConversationKey msg) t rt = (ok, rt1)" by fastforce
  have i1: "rt_inv rt1" and s1: "rt_sent rt1 = rt_sent rt" and f1: "fresh i rt1"
    using a inv t f by (auto simp: attachDirectTask_def Let_def fresh_def row_ids_def intro!: inv_direct split: option.splits)
  obtain ok2 rt2 where c: "create_task now t rt1 = (ok2, rt2)" by fastforce
  have i2: "rt_inv rt2" using create_task_snd [OF c _ i1] freshD(1) [OF f1] t by simp
  have "rt_inv (mark_sent i (rt1\<lparr>rt_store := rt_store rt2\<rparr>))" if ok2
    using create_task_store(3) [OF c that t(2), of "rt_sent rt1"] i1 t by (intro inv_claim_direct [OF i1 f1]) (simp add: rt_inv_def)
  then have ok: "rt_inv (mark_sent i rt2)" if ok2 using that create_task_store(1) [OF c] by simp
  have "rt_inv (finishDirectTurn now e k (rt2\<lparr>rt_direct := (rt_direct rt2)(k' := map_option (\<lambda>turn. turn\<lparr>dt_task := None\<rparr>) (rt_direct rt2 k'))\<rparr>))" for e k k'
    by (intro inv_finish_direct inv_direct [OF i2]) auto
  then show ?thesis using a c ok i1 unfolding startDirectTask_def Let_def t_def [unfolded Let_def, symmetric]
    by (auto simp: Let_def split: bool.splits)
qed

text \<open>The statements on interactions and feedback leave the tasks alone.\<close>

definition keeps_tasks :: "('a channel_db_scheme \<Rightarrow> 'r \<times> 'a channel_db_scheme) \<Rightarrow> bool" where
  "keeps_tasks f \<longleftrightarrow> (\<forall>d. channel_tasks (snd (f d)) = channel_tasks d)"

lemma keeps_statements:
  "keeps_tasks (CreateChannelInteraction ci)" "keeps_tasks (GetChannelInteraction i)"
  "keeps_tasks (ResolveChannelInteraction now i nonce actor status)" "keeps_tasks (SubmitChannelFeedback now i fb nonce)"
  by (auto simp: CreateChannelInteraction_def GetChannelInteraction_def ResolveChannelInteraction_def SubmitChannelFeedback_def
      keeps_tasks_def sql_exec_def sql_query_def Let_def split: prod.splits bool.splits list.splits if_splits)

lemma inv_with_store:
  assumes "rt_inv rt" "keeps_tasks f" "with_store f rt = (r, rt')"
  shows "rt_inv rt'" "rt_control rt' = rt_control rt" "rt_direct rt' = rt_direct rt" "rt_admitted rt' = rt_admitted rt" "rt_started rt' = rt_started rt"
proof -
  have "rt_inv (rt\<lparr>rt_store := Some (snd (f d))\<rparr>)" if "rt_store rt = Some d" for d
    using assms(1,2) that by (intro inv_store) (auto simp: rt_inv_def store_ok_def control.settled_def keeps_tasks_def)
  then show "rt_inv rt'" using assms(1,3) by (auto simp: with_store_def split: option.splits prod.splits)
  show "rt_control rt' = rt_control rt" "rt_direct rt' = rt_direct rt" "rt_admitted rt' = rt_admitted rt" "rt_started rt' = rt_started rt"
    using assms(3) by (auto simp: with_store_def split: option.splits prod.splits)
qed

lemma inv_asked:
  assumes inv: "rt_inv rt"
  shows "rt_inv (snd (dispatchAgentInteraction now nonce key req rt))"
proof (cases "st_active (rt_control rt key)")
  case None
  then show ?thesis using inv by (simp add: dispatchAgentInteraction_def)
next
  case (Some a)
  let ?t = "(qt_task a)\<lparr>ct_Status := ChannelTaskWaitingInput, ct_TurnID := ai_TurnID req\<rparr>"
  let ?f = "\<lambda>d. case CreateChannelInteraction (interaction_record now nonce (rt_channelID rt) key req (qt_task a)) d of (ok, d') \<Rightarrow> (if ok then Some () else None, d')"
  obtain r rt' where w: "with_store ?f (on_active (\<lambda>a. a\<lparr>qt_task := ?t\<rparr>) key rt) = (r, rt')" by fastforce
  have "keeps_tasks ?f" using keeps_statements(1) by (auto simp: keeps_tasks_def case_prod_unfold)
  moreover have "rt_inv (on_active (\<lambda>a. a\<lparr>qt_task := ?t\<rparr>) key rt)"
    by (rule inv_on_active [OF inv]) (use Some in \<open>simp add: unqueued_def\<close>)
  ultimately have "rt_inv rt'" using inv_with_store(1) [OF _ _ w] by blast
  then show ?thesis using Some inv w by (auto simp: dispatchAgentInteraction_def Let_def unqueued_def intro!: inv_push_write split: option.splits)
qed

lemma lookup_with_store:
  assumes "rt_inv rt" "lookup_request manager local msg ia rt = (res, rt')"
  shows "rt_inv rt' \<and> rt_control rt' = rt_control rt \<and> rt_direct rt' = rt_direct rt \<and> rt_admitted rt' = rt_admitted rt \<and> rt_started rt' = rt_started rt"
  using assms(2) assms(1) inv_with_store [OF assms(1) keeps_statements(2)]
  by (fastforce simp: lookup_request_def split: option.splits if_splits prod.splits)

lemma claim_with_store:
  assumes "rt_inv rt" "claim_request now actor status ci rt = (res, rt')"
  shows "rt_inv rt' \<and> rt_control rt' = rt_control rt \<and> rt_direct rt' = rt_direct rt \<and> rt_admitted rt' = rt_admitted rt \<and> rt_started rt' = rt_started rt"
  using assms(2) inv_with_store [OF assms(1) keeps_statements(3)]
  by (fastforce simp: claim_request_def split: option.splits if_splits prod.splits)

lemma expiry_with_store:
  assumes "rt_inv rt" "expiry_due ci rt = (b, rt')"
  shows "rt_inv rt' \<and> rt_control rt' = rt_control rt \<and> rt_direct rt' = rt_direct rt \<and> rt_admitted rt' = rt_admitted rt \<and> rt_started rt' = rt_started rt"
  using assms(2) inv_with_store [OF assms(1) keeps_statements(2)]
  by (fastforce simp: expiry_due_def split: option.splits if_splits prod.splits)

lemma inv_resume: "rt_inv rt \<Longrightarrow> rt_inv (resumeRemoteTask now key i rt)"
  by (auto simp: resumeRemoteTask_def Let_def unqueued_def intro!: inv_updateI inv_on_active split: option.splits)

lemma inv_feedback:
  assumes "rt_inv rt" "handleChannelFeedback now i msg fb rt = (r, rt')"
  shows "rt_inv rt' \<and> rt_control rt' = rt_control rt \<and> rt_direct rt' = rt_direct rt \<and> rt_admitted rt' = rt_admitted rt \<and> rt_started rt' = rt_started rt"
  using assms(2) inv_with_store [OF assms(1) keeps_statements(4)] assms(1)
  by (fastforce simp: handleChannelFeedback_def Let_def split: if_splits prod.splits option.splits bool.splits)

lemma load_queue_inv:
  assumes "rt_inv rt" "distinct (map ct_ID ts)" "\<And>t. t \<in> set ts \<Longrightarrow> ct_Status t = ChannelTaskQueued \<and> ct_ID t \<notin> set (rt_sent rt)"
    "\<And>t k. t \<in> set ts \<Longrightarrow> ct_ID t \<notin> set (queue_ids (rt_control rt k))"
  shows "rt_inv (load_queue platform ts rt)"
  using assms
proof (induction ts arbitrary: rt)
  case Nil then show ?case by simp
next
  case (Cons t ts)
  let ?k = "ct_ConversationKey t" and ?q = "recovered_item platform (rt_channelID rt) t"
  let ?rt = "set_state ?k ((rt_control rt ?k)\<lparr>st_queue := st_queue (rt_control rt ?k) @ [?q]\<rparr>) rt"
  have "rt_inv ?rt" by (rule inv_append) (use Cons.prems in \<open>simp_all add: recovered_item_def\<close>)
  then have "rt_inv (load_queue platform ts (mark_admitted ?k (ct_ID t) ?rt))"
  proof (intro Cons.IH, goal_cases)
    case (4 u k)
    have "ct_ID u \<noteq> ct_ID t" using 4 Cons.prems(2) by (metis distinct.simps(2) image_eqI list.simps(9) set_map)
    then show ?case using 4 Cons.prems(4) [of u k] by (auto simp: mark_admitted_def queue_ids_def recovered_item_def)
  qed (use Cons.prems in \<open>simp_all add: mark_admitted_def\<close>)
  then show ?case by (simp add: Let_def)
qed

lemma fold_start_inv: "rt_inv rt \<Longrightarrow> rt_inv (fold (startNextRemoteLocked now) keys rt)"
  by (induction keys arbitrary: rt) (simp_all add: inv_start)

lemma inv_restart:
  assumes "distinct (rt_sent rt)" "store_ok (rt_sent rt) (rt_store rt)"
  shows "rt_inv (restart now platform keys rt)"
proof -
  let ?rt = "rt\<lparr>rt_control := (\<lambda>_. empty_state), rt_direct := (\<lambda>_. None), rt_clearConfirm := (\<lambda>_. None), rt_live := True,
         rt_ended := [], rt_writes := [], rt_admitted := (\<lambda>_. []), rt_started := (\<lambda>_. [])\<rparr>"
  have i0: "rt_inv ?rt" using assms by (simp add: rt_inv_def state_ok_def empty_state_def queue_ids_def one_steering_def)
  show ?thesis
  proof (cases "rt_store rt")
    case None
    then show ?thesis using i0 by (simp add: restart_def recoverRemoteTasks_def)
  next
    case (Some d)
    obtain res d' where r: "RecoverChannelTasks now (rt_channelID rt) d = (res, d')" by fastforce
    have s: "control.settled (rt_sent rt) d" using assms(2) Some by (simp add: store_ok_def)
    have "store_ok (rt_sent rt) (Some d')" using control.settled_recover [OF s r] by (simp add: store_ok_def)
    then have i1: "rt_inv (?rt\<lparr>rt_store := Some d'\<rparr>)" using inv_store [OF i0, of "Some d'"] by simp
    show ?thesis
    proof (cases res)
      case None
      then show ?thesis using i1 r Some by (simp add: restart_def recoverRemoteTasks_def)
    next
      fix ts assume ts: "res = Some ts"
      then have "rt_inv (load_queue platform ts (?rt\<lparr>rt_store := Some d'\<rparr>))"
        using control.recovered_fresh [OF s, of now "rt_channelID rt" ts d'] r
        by (intro load_queue_inv [OF i1]) (simp_all add: empty_state_def queue_ids_def)
      from fold_start_inv [OF this] show ?thesis using r Some ts by (simp add: restart_def recoverRemoteTasks_def)
    qed
  qed
qed

lemma step_inv: "rt_step rt rt' \<Longrightarrow> rt_inv rt \<Longrightarrow> rt_inv rt'"
proof (induction rule: rt_step.induct)
  case (finished rt key q dl pe tt q' status err now) then show ?case by (metis inv_finish remote_outcome_unqueued)
next
  case looked_up then show ?case using lookup_with_store by (metis prod.collapse)
next
  case claimed then show ?case using claim_with_store by (metis prod.collapse)
next
  case expiry then show ?case using expiry_with_store by (metis prod.collapse)
next
  case feedback then show ?case using inv_feedback by (metis prod.collapse)
next
  case (crashed rt now platform keys) then show ?case by (intro inv_restart) (simp_all add: rt_inv_def)
qed (simp_all add: inv_admit inv_enqueue inv_start inv_error inv_event inv_delivery inv_write inv_attach inv_card inv_control
    inv_steered inv_stop inv_stop_console inv_stop_direct_action inv_stop_direct_text inv_take_over inv_clear inv_begin_direct
    inv_start_direct inv_end_direct inv_asked inv_resume)

lemma reach_inv: "rt_reach rt \<Longrightarrow> rt_inv rt"
proof (induction rule: rt_reach.induct)
  case (boot rt now platform keys)
  then show ?case by (intro inv_restart) (auto simp: store_ok_def control.settled_def split: option.splits)
next
  case (step rt rt') then show ?case by (blast intro: step_inv)
qed

section \<open>Order and exclusion\<close>

definition order_ok :: "'d channelRuntime \<Rightarrow> bool" where
  "order_ok rt \<longleftrightarrow> (\<forall>k. subseq (rt_started rt k @ queue_ids (rt_control rt k)) (rt_admitted rt k) \<and>
     (st_active (rt_control rt k) \<noteq> None \<longrightarrow> rt_direct rt k = None))"

text \<open>A step that starts nothing: queues only lose items, and no turn begins.\<close>

definition quieter :: "'d channelRuntime \<Rightarrow> 'd channelRuntime \<Rightarrow> bool" where
  "quieter rt rt' \<longleftrightarrow> (\<forall>k. rt_started rt' k = rt_started rt k \<and> rt_admitted rt' k = rt_admitted rt k \<and>
     subseq (queue_ids (rt_control rt' k)) (queue_ids (rt_control rt k)) \<and>
     (st_active (rt_control rt k) = None \<longrightarrow> st_active (rt_control rt' k) = None) \<and>
     (rt_direct rt k = None \<longrightarrow> rt_direct rt' k = None))"

lemma order_quieter: "order_ok rt \<Longrightarrow> quieter rt rt' \<Longrightarrow> order_ok rt'"
  unfolding order_ok_def quieter_def
  by (metis list_emb_append_mono subseq_order.order_refl subseq_order.order_trans)

lemma quieter_refl: "quieter rt rt"
  by (simp add: quieter_def)

lemma quieter_trans: "quieter a b \<Longrightarrow> quieter b c \<Longrightarrow> quieter a c"
  unfolding quieter_def by (metis subseq_order.order_trans)

lemma quieter_same:
  "rt_started rt' = rt_started rt \<Longrightarrow> rt_admitted rt' = rt_admitted rt \<Longrightarrow> rt_control rt' = rt_control rt \<Longrightarrow> rt_direct rt' = rt_direct rt \<Longrightarrow> quieter rt rt'"
  by (simp add: quieter_def)

lemma update_same:
  assumes "updateRemoteTask now t rt = (ok, rt')"
  shows "rt_started rt' = rt_started rt" "rt_admitted rt' = rt_admitted rt" "rt_control rt' = rt_control rt" "rt_direct rt' = rt_direct rt"
    "rt_live rt' = rt_live rt" "rt_sent rt' = rt_sent rt"
  using assms by (auto simp: updateRemoteTask_def split: option.splits prod.splits)

lemma create_same:
  assumes "create_task now t rt = (ok, rt')"
  shows "rt_started rt' = rt_started rt" "rt_admitted rt' = rt_admitted rt" "rt_control rt' = rt_control rt" "rt_direct rt' = rt_direct rt"
    "rt_live rt' = rt_live rt" "rt_sent rt' = rt_sent rt"
  using assms by (auto simp: create_task_def split: option.splits prod.splits)

lemma quieter_set_state:
  "subseq (queue_ids st) (queue_ids (rt_control rt k)) \<Longrightarrow> (st_active (rt_control rt k) = None \<Longrightarrow> st_active st = None) \<Longrightarrow> quieter rt (set_state k st rt)"
  by (simp add: quieter_def)

lemma quieter_update: "quieter rt rt' \<Longrightarrow> quieter rt (snd (updateRemoteTask now t rt'))"
  by (simp add: quieter_def)

lemma rt_push_fields [simp]:
  "rt_started (push_write t rt) = rt_started rt" "rt_admitted (push_write t rt) = rt_admitted rt" "rt_control (push_write t rt) = rt_control rt"
  "rt_direct (push_write t rt) = rt_direct rt" "rt_started (push_ended qs rt) = rt_started rt" "rt_admitted (push_ended qs rt) = rt_admitted rt"
  "rt_control (push_ended qs rt) = rt_control rt" "rt_direct (push_ended qs rt) = rt_direct rt"
  "rt_started (mark_sent i rt) = rt_started rt" "rt_admitted (mark_sent i rt) = rt_admitted rt" "rt_control (mark_sent i rt) = rt_control rt"
  "rt_direct (mark_sent i rt) = rt_direct rt"
  by (simp_all add: push_write_def push_ended_def mark_sent_def)

lemma quieter_push [simp]:
  "quieter rt (push_write t rt') = quieter rt rt'" "quieter rt (push_ended qs rt') = quieter rt rt'" "quieter rt (mark_sent i rt') = quieter rt rt'"
  by (simp_all add: quieter_def)

lemma quieter_on_live: "quieter rt (snd (on_live_task f g key i rt))"
  by (auto simp: on_live_task_def Let_def quieter_def queue_ids_def split: option.splits)

lemma quieter_on_active: "quieter rt (on_active f k rt)"
  by (auto simp: on_active_def quieter_def queue_ids_def)

lemma quieter_stop_direct: "quieter rt (stop_direct k rt)"
  by (auto simp: stop_direct_def quieter_def)

lemma quieter_detach: "quieter rt (detachDirectTurn now cerr key rt)"
  by (auto simp: detachDirectTurn_def Let_def quieter_def push_write_def split: option.splits)

lemma quieter_write: "quieter rt (write_snapshot now n rt)"
  by (auto simp: write_snapshot_def quieter_def)

lemma subseq_ids_filter: "subseq (map qt_id (filter P qs)) (map qt_id qs)"
  by (simp add: subseq_map)

text \<open>Starting the head of the queue moves its id from the queue to the started ids.\<close>

lemma order_start_keyed:
  assumes o: "order_ok rt" and keyed: "\<And>q. q \<in> set (st_queue (rt_control rt key)) \<Longrightarrow> ct_ConversationKey (qt_task q) = key"
  shows "order_ok (startNextRemoteLocked now key rt)"
proof (cases "st_queue (rt_control rt key)")
  case Nil
  then show ?thesis using o by (simp add: startNextRemoteLocked_def Let_def)
next
  case (Cons q rest)
  let ?st = "rt_control rt key" and ?t = "(qt_task q)\<lparr>ct_Status := ChannelTaskRunning, ct_StartedAt := now, ct_Prompt := []\<rparr>"
  obtain ok rt' where u: "updateRemoteTask now ?t rt = (ok, rt')" by fastforce
  have key: "ct_ConversationKey (qt_task q) = key" using keyed Cons by simp
  have f: "order_ok rt'" using o by (simp add: order_ok_def update_same [OF u])
  have "order_ok (mark_started key (qt_id q) (set_state key (?st\<lparr>st_queue := rest, st_active := Some (q\<lparr>qt_task := ?t\<rparr>)\<rparr>) rt'))"
    if "rt_direct rt key = None"
    using o that Cons by (auto simp: order_ok_def mark_started_def mark_sent_def set_state_def queue_ids_def update_same [OF u] dest: spec [of _ key])
  then show ?thesis using o f u key Cons by (auto simp: startNextRemoteLocked_def Let_def dom_def split: bool.splits)
qed

lemma inv_keyed: "rt_inv rt \<Longrightarrow> q \<in> set (st_queue (rt_control rt key)) \<Longrightarrow> ct_ConversationKey (qt_task q) = key"
  using inv_item(1) [of rt q key] by (simp add: item_ok_def)

lemma order_start: "order_ok rt \<Longrightarrow> rt_inv rt \<Longrightarrow> order_ok (startNextRemoteLocked now key rt)"
  by (rule order_start_keyed) (auto dest: inv_keyed)

lemma order_enqueue:
  assumes o: "order_ok rt" and inv: "rt_inv rt" and f: "fresh i rt"
  shows "order_ok (snd (enqueueRemoteTask now i fn cn msg prompt rt))"
proof -
  let ?k = "ResolveConversationKey msg" and ?q = "queued_item now i fn cn msg prompt rt"
  obtain ok rt' where c: "create_task now (qt_task ?q) rt = (ok, rt')" by fastforce
  have i': "rt_inv rt'" using create_task_snd [OF c _ inv] freshD(1) [OF f] by simp
  have o': "order_ok rt'" using o by (simp add: order_ok_def create_same [OF c])
  let ?rt = "mark_admitted ?k i (set_state ?k ((rt_control rt' ?k)\<lparr>st_queue := st_queue (rt_control rt' ?k) @ [?q]\<rparr>) rt')"
  have "subseq ((rt_started rt' ?k @ queue_ids (rt_control rt' ?k)) @ [i]) (rt_admitted rt' ?k @ [i])"
    using o' by (intro list_emb_append_mono) (auto simp: order_ok_def)
  then have "order_ok ?rt"
    using o' by (auto simp: order_ok_def mark_admitted_def queue_ids_def)
  moreover have "rt_inv ?rt"
    unfolding inv_mark by (rule inv_append [OF i']) (use f in \<open>simp_all add: create_same [OF c] freshD\<close>)
  ultimately show ?thesis using o o' c order_start [of ?rt]
    by (simp add: enqueueRemoteTask_eq create_same [OF c] Let_def split: bool.splits)
qed

lemma order_admit:
  assumes o: "order_ok rt" and inv: "rt_inv rt" and f: "fresh i rt"
  shows "order_ok (snd (admitMessage now i fn cn msg rt))"
proof -
  let ?k = "ResolveConversationKey msg" and ?q0 = "newRemoteTask now i fn (rt_channelID rt) msg (ms_Text msg) ChannelTaskRunning"
  let ?q = "?q0\<lparr>qt_task := (qt_task ?q0)\<lparr>ct_Prompt := [], ct_StartedAt := now\<rparr>\<rparr>"
  obtain ok rt' where c: "create_task now (qt_task ?q) rt = (ok, rt')" by fastforce
  have o': "order_ok rt'" using o by (simp add: order_ok_def create_same [OF c])
  have "order_ok (mark_started ?k i (mark_admitted ?k i (set_state ?k ((rt_control rt ?k)\<lparr>st_active := Some ?q\<rparr>) rt')))"
    if "st_queue (rt_control rt ?k) = []" "rt_direct rt ?k = None"
  proof -
    have "subseq (rt_started rt ?k @ [i]) (rt_admitted rt ?k @ [i])"
      using o that by (intro list_emb_append_mono) (auto simp: order_ok_def queue_ids_def dest: spec [of _ ?k])
    then show ?thesis using o that
      by (auto simp: order_ok_def mark_started_def mark_admitted_def mark_sent_def queue_ids_def create_same [OF c] set_state_def)
  qed
  then show ?thesis using order_enqueue [OF o inv f] c o' by (auto simp: admitMessage_def Let_def dom_def split: bool.splits)
qed

lemma order_finish:
  assumes o: "order_ok rt" and inv: "rt_inv rt" and a: "st_active (rt_control rt key) = Some q" and s: "status \<noteq> ChannelTaskQueued"
  shows "order_ok (finishRemoteTask now q status err rt)"
proof -
  let ?t = "(qt_task q)\<lparr>ct_Status := status, ct_Error := err, ct_FinishedAt := now, ct_UpdatedAt := now, ct_Prompt := []\<rparr>"
  let ?rt = "push_ended [q\<lparr>qt_task := ?t\<rparr>] (set_state key ((rt_control rt key)\<lparr>st_active := None\<rparr>) (snd (updateRemoteTask now ?t rt)))"
  have k: "ct_ConversationKey (qt_task q) = key" using inv_activeD [OF inv a] by simp
  have u: "rt_inv (snd (updateRemoteTask now ?t rt))" by (rule inv_updateI [OF inv]) (simp add: unqueued_def s)
  have "rt_inv ?rt" using inv_active [OF u, of None key] s by (intro inv_push_ended) (simp_all add: unqueued_def)
  moreover have "quieter rt ?rt" by (auto simp: quieter_def queue_ids_def)
  ultimately have "order_ok (startNextRemoteLocked now key ?rt)" using o by (blast intro: order_start order_quieter)
  then show ?thesis using a k by (simp add: finishRemoteTask_def Let_def)
qed

lemma quieter_event: "quieter rt (updateRemoteTaskFromEvent now key i turnID rt)"
  using quieter_on_live [of rt "\<lambda>t. t\<lparr>ct_TurnID := turnID, ct_UpdatedAt := now\<rparr>" "\<lambda>e. e" key i]
  by (auto simp: updateRemoteTaskFromEvent_def quieter_refl split: option.splits prod.splits)

lemma quieter_delivery: "quieter rt (recordChannelDeliveryAttempt now key i derr final rt)"
  using quieter_on_live [of rt "record_attempt now derr final" "attempt_error derr final" key i]
  by (auto simp: recordChannelDeliveryAttempt_def quieter_refl split: option.splits prod.splits)

lemma quieter_error: "quieter rt (markRemoteTaskError key i err rt)"
  by (simp add: markRemoteTaskError_def quieter_on_live quieter_refl)

lemma quieter_attach: "quieter rt (attachRemoteSession now key session conv native rt)"
  by (auto simp: attachRemoteSession_def Let_def quieter_refl intro!: quieter_update quieter_set_state split: prod.splits option.splits)

lemma quieter_card: "quieter rt (save_card now key i c rt)"
  by (auto simp: save_card_def Let_def quieter_refl queue_ids_def intro!: quieter_update quieter_set_state quieter_same split: option.splits if_splits)

lemma quieter_others:
  "quieter rt (snd (stopRemoteTask manager msg expected rt))" "quieter rt (snd (StopConversation key expected rt))"
  "quieter rt (snd (handleDirectTaskAction manager msg action rt))" "quieter rt (snd (handleDirectStop manager msg rt))"
  "quieter rt (snd (takeOverRemoteTask now manager msg rt))" "quieter rt (resumeRemoteTask now key i rt)"
  by (auto simp: stopRemoteTask_def StopConversation_def handleDirectTaskAction_def handleDirectStop_def takeOverRemoteTask_def
      resumeRemoteTask_def Let_def quieter_refl quieter_on_active quieter_stop_direct intro!: quieter_update split: option.splits)

lemma order_control:
  assumes o: "order_ok rt" and inv: "rt_inv rt"
  shows "order_ok (snd (controlQueuedTask now manager msg action rt))"
proof (cases "find (\<lambda>q. qt_id q = ac_TaskID action) (st_queue (rt_control rt (ResolveConversationKey msg)))")
  case None
  then show ?thesis using o by (simp add: controlQueuedTask_def)
next
  case (Some q)
  let ?k = "ResolveConversationKey msg"
  let ?tc = "(qt_task q)\<lparr>ct_Status := ChannelTaskCancelled, ct_FinishedAt := now, ct_Prompt := []\<rparr>"
  obtain okc rtc where uc: "updateRemoteTask now ?tc rt = (okc, rtc)" by fastforce
  let ?rc = "push_ended [q\<lparr>qt_task := ?tc\<rparr>] (set_state ?k ((rt_control rt ?k)\<lparr>st_queue := filter (\<lambda>p. qt_id p \<noteq> qt_id q) (st_queue (rt_control rt ?k))\<rparr>) rtc)"
  have c: "order_ok (startNextRemoteLocked now ?k ?rc)" if okc
  proof (rule order_start)
    have "quieter rt ?rc" by (auto simp: quieter_def update_same [OF uc] queue_ids_def subseq_ids_filter)
    then show "order_ok ?rc" using o by (rule order_quieter [rotated])
    show "rt_inv ?rc" using uc that by (intro inv_control_cancel [OF inv]) (simp_all add: unqueued_def)
  qed
  have cf: "order_ok rtc" using o by (simp add: order_ok_def update_same [OF uc])
  show ?thesis
  proof (cases "st_active (rt_control rt ?k)")
    case None
    then show ?thesis using Some o uc c cf by (simp add: controlQueuedTask_def Let_def split: bool.splits)
  next
    case (Some a)
    let ?ts = "(qt_task q)\<lparr>ct_TurnID := qt_ActiveTurnID a, ct_Status := ChannelTaskSteering\<rparr>"
    obtain oks rts where us: "updateRemoteTask now ?ts rt = (oks, rts)" by fastforce
    have "quieter rt (mark_sent (qt_id q) (set_state ?k ((rt_control rt ?k)\<lparr>st_queue := update_item (qt_id q) (\<lambda>_. ?ts) (st_queue (rt_control rt ?k)), st_steering := True\<rparr>) rts))"
      by (auto simp: quieter_def update_same [OF us] queue_ids_def update_item_def comp_def if_distrib cong: if_cong)
    from order_quieter [OF o this] have s: "order_ok (mark_sent (qt_id q) (set_state ?k ((rt_control rt ?k)\<lparr>st_queue := update_item (qt_id q) (\<lambda>_. ?ts) (st_queue (rt_control rt ?k)), st_steering := True\<rparr>) rts))" .
    have sf: "order_ok rts" using o by (simp add: order_ok_def update_same [OF us])
    show ?thesis using Some \<open>find _ _ = Some q\<close> o uc c cf us s sf by (simp add: controlQueuedTask_def Let_def split: bool.splits)
  qed
qed

lemma order_steered:
  assumes o: "order_ok rt" and inv: "rt_inv rt"
  shows "order_ok (finishSteer now k i r rt)"
proof (cases "find (\<lambda>q. qt_id q = i) (st_queue (rt_control rt k))")
  case None
  then show ?thesis using o by (simp add: finishSteer_def)
next
  case (Some q)
  have q: "q \<in> set (st_queue (rt_control rt k))" "qt_id q = i" using find_item [OF Some] by auto
  let ?t1 = "steered_task now r (qt_task q)"
  obtain ok rt1 where u: "updateRemoteTask now ?t1 rt = (ok, rt1)" by fastforce
  define t2 where "t2 = (if \<not> ok \<and> ct_Status ?t1 = ChannelTaskQueued then ?t1\<lparr>ct_Status := ChannelTaskSteerUnknown, ct_Error := steer_save_failed_text\<rparr> else ?t1)"
  have t2: "ct_ID t2 = i" "ct_ConversationKey t2 = k" using q inv_keyed [OF inv q(1)] by (auto simp: t2_def)
  define qs where "qs = (if ct_Status t2 \<noteq> ChannelTaskQueued then filter (\<lambda>p. qt_id p \<noteq> i) (st_queue (rt_control rt k))
      else update_item i (\<lambda>_. t2) (st_queue (rt_control rt k)))"
  define rt2 where "rt2 = (case r of SteerRejected _ \<Rightarrow> rt1\<lparr>rt_sent := filter (\<lambda>j. j \<noteq> i) (rt_sent rt1)\<rparr> | _ \<Rightarrow> rt1)"
  define rt3 where "rt3 = (if ct_Status t2 \<noteq> ChannelTaskQueued then push_ended [q\<lparr>qt_task := t2\<rparr>] rt2 else rt2)"
  let ?rt = "set_state k ((rt_control rt k)\<lparr>st_queue := qs, st_steering := False\<rparr>) rt3"
  have keyed: "ct_ConversationKey (qt_task p) = k" if "p \<in> set qs" for p
    using that t2 inv_keyed [OF inv, of _ k] by (auto simp: qs_def update_item_def split: if_splits)
  have ids: "subseq (map qt_id qs) (map qt_id (st_queue (rt_control rt k)))"
    using t2 by (auto simp: qs_def subseq_ids_filter update_item_def comp_def if_distrib cong: if_cong)
  have "rt_control rt3 = rt_control rt" "rt_direct rt3 = rt_direct rt" "rt_started rt3 = rt_started rt" "rt_admitted rt3 = rt_admitted rt"
    by (auto simp: rt3_def rt2_def update_same [OF u] split: steer_result.splits)
  then have "quieter rt ?rt" using ids by (simp add: quieter_def queue_ids_def)
  then have "order_ok (startNextRemoteLocked now k ?rt)"
    by (intro order_start_keyed order_quieter [OF o]) (simp_all add: keyed)
  moreover have "finishSteer now k i r rt = startNextRemoteLocked now k ?rt"
    using Some u by (cases r; cases ok) (simp_all add: finishSteer_def Let_def t2_def qs_def rt2_def rt3_def)
  ultimately show ?thesis by simp
qed

lemma clear_scan_same:
  assumes "clear_scan now admin user qs rt = ((remaining, queued), rt')"
  shows "rt_control rt' = rt_control rt \<and> rt_direct rt' = rt_direct rt \<and> rt_started rt' = rt_started rt \<and> rt_admitted rt' = rt_admitted rt \<and> subseq remaining qs"
  using assms
proof (induction qs arbitrary: rt rt' remaining queued)
  case Nil then show ?case by simp
next
  case (Cons q qs)
  let ?t = "(qt_task q)\<lparr>ct_Status := ChannelTaskCancelled, ct_Error := ''cancelled before start'', ct_Prompt := [], ct_FinishedAt := now\<rparr>"
  obtain ok rt1 where u: "updateRemoteTask now ?t rt = (ok, rt1)" by fastforce
  obtain r0 c0 s0 where c: "clear_scan now admin user qs rt = ((r0, c0), s0)" by (metis prod.collapse)
  obtain r1 c1 s1 where c1: "clear_scan now admin user qs rt1 = ((r1, c1), s1)" by (metis prod.collapse)
  show ?case using Cons.IH [OF c] Cons.IH [OF c1] Cons.prems c c1 u update_same [OF u]
    by (auto simp: Let_def split: if_splits bool.splits)
qed

lemma order_clear:
  assumes o: "order_ok rt" and inv: "rt_inv rt"
  shows "order_ok (snd (clearRemoteQueue now admin msg confirmed rt))"
proof -
  let ?k = "ResolveConversationKey msg" and ?c = "ResolveConversationKey msg @ '':'' @ ms_UserID msg"
  obtain rem qd rt' where c: "clear_scan now admin (ms_UserID msg) (st_queue (rt_control rt ?k)) (rt\<lparr>rt_clearConfirm := (rt_clearConfirm rt)(?c := None)\<rparr>) = ((rem, qd), rt')"
    by (metis prod.collapse)
  note s = clear_scan_same [OF c]
  let ?rt = "push_ended qd (set_state ?k ((rt_control rt ?k)\<lparr>st_queue := rem\<rparr>) rt')"
  have "set rem \<subseteq> set (st_queue (rt_control rt ?k))" using s by (auto dest: list_emb_set)
  moreover have "quieter rt ?rt" using s by (simp add: quieter_def queue_ids_def subseq_map)
  ultimately have "order_ok (startNextRemoteLocked now ?k ?rt)"
    by (intro order_start_keyed order_quieter [OF o]) (auto dest: inv_keyed [OF inv])
  moreover have "order_ok (rt\<lparr>rt_clearConfirm := x\<rparr>)" for x using o by (simp add: order_ok_def)
  ultimately show ?thesis using o c by (simp add: clearRemoteQueue_def Let_def)
qed

lemma order_begin_direct: "order_ok rt \<Longrightarrow> order_ok (snd (beginDirectTurn key user rt))"
  by (auto simp: beginDirectTurn_def Let_def order_ok_def)

lemma order_finish_direct:
  assumes o: "order_ok rt" and inv: "rt_inv rt"
  shows "order_ok (finishDirectTurn now cerr key rt)"
proof -
  let ?d = "detachDirectTurn now cerr key rt"
  have d: "order_ok ?d" "rt_inv ?d" using order_quieter [OF o quieter_detach] inv_end_direct [OF inv] by auto
  then show ?thesis using order_quieter [OF d(1) quieter_write] inv_write [OF d(2)]
    by (auto simp: finishDirectTurn_def Let_def intro!: order_start)
qed

lemma order_asked: "order_ok rt \<Longrightarrow> order_ok (snd (dispatchAgentInteraction now nonce key req rt))"
  by (erule order_quieter)
    (auto simp: dispatchAgentInteraction_def Let_def with_store_def on_active_def quieter_def queue_ids_def split: option.splits prod.splits)

lemma order_start_direct:
  assumes o: "order_ok rt" and inv: "rt_inv rt" and f: "fresh i rt"
  shows "order_ok (snd (startDirectTask now i fn conv native msg rt))"
proof -
  define t where "t = (let t0 = (qt_task (newRemoteTask now i fn (rt_channelID rt) msg [] ChannelTaskRunning))\<lparr>ct_StartedAt := now, ct_UpdatedAt := now\<rparr>;
      t1 = (case conv of None \<Rightarrow> t0 | Some (cid, nid) \<Rightarrow> t0\<lparr>ct_ConversationID := cid, ct_NativeThreadID := nid\<rparr>)
    in if native \<noteq> [] then t1\<lparr>ct_NativeThreadID := native\<rparr> else t1)"
  have t: "ct_ID t = i" "unqueued t" by (auto simp: t_def Let_def unqueued_def split: option.splits)
  obtain ok rt1 where a: "attachDirectTask (ResolveConversationKey msg) t rt = (ok, rt1)" by fastforce
  have "quieter rt rt1" using a by (auto simp: attachDirectTask_def Let_def quieter_def split: option.splits)
  then have o1: "order_ok rt1" using o by (rule order_quieter [rotated])
  have i1: "rt_inv rt1" "i \<notin> set (rt_sent rt1)"
    using a inv t freshD(1) [OF f] by (auto simp: attachDirectTask_def Let_def intro!: inv_direct split: option.splits)
  obtain ok2 rt2 where c: "create_task now t rt1 = (ok2, rt2)" by fastforce
  have i2: "rt_inv rt2" using create_task_snd [OF c _ i1(1)] i1(2) t by simp
  have o2: "order_ok rt2" "order_ok (mark_sent i rt2)" using o1 by (simp_all add: order_ok_def create_same [OF c])
  have "order_ok (finishDirectTurn now e k (rt2\<lparr>rt_direct := (rt_direct rt2)(k' := map_option (\<lambda>turn. turn\<lparr>dt_task := None\<rparr>) (rt_direct rt2 k'))\<rparr>))" for e k k'
  proof (rule order_finish_direct)
    show "order_ok (rt2\<lparr>rt_direct := (rt_direct rt2)(k' := map_option (\<lambda>turn. turn\<lparr>dt_task := None\<rparr>) (rt_direct rt2 k'))\<rparr>)"
      by (rule order_quieter [OF o2(1)]) (simp add: quieter_def)
  qed (intro inv_direct [OF i2], auto)
  then show ?thesis using a c o1 o2 unfolding startDirectTask_def Let_def t_def [unfolded Let_def, symmetric]
    by (auto simp: Let_def split: bool.splits)
qed

lemma order_load: "order_ok rt \<Longrightarrow> order_ok (load_queue platform ts rt)"
proof (induction ts arbitrary: rt)
  case (Cons t ts)
  let ?k = "ct_ConversationKey t"
  have "subseq ((rt_started rt ?k @ queue_ids (rt_control rt ?k)) @ [ct_ID t]) (rt_admitted rt ?k @ [ct_ID t])"
    using Cons.prems by (intro list_emb_append_mono) (auto simp: order_ok_def)
  then have "order_ok (mark_admitted ?k (ct_ID t)
      (set_state ?k ((rt_control rt ?k)\<lparr>st_queue := st_queue (rt_control rt ?k) @ [recovered_item platform (rt_channelID rt) t]\<rparr>) rt))"
    using Cons.prems by (auto simp: order_ok_def mark_admitted_def queue_ids_def recovered_item_def)
  then show ?case using Cons.IH by (simp add: Let_def)
qed simp

lemma load_queue_keyed:
  assumes "\<And>k q. q \<in> set (st_queue (rt_control rt k)) \<Longrightarrow> ct_ConversationKey (qt_task q) = k"
    "q \<in> set (st_queue (rt_control (load_queue platform ts rt) k))"
  shows "ct_ConversationKey (qt_task q) = k"
  using assms
proof (induction ts arbitrary: rt)
  case (Cons t ts)
  show ?case
  proof (rule Cons.IH)
    show "q \<in> set (st_queue (rt_control (load_queue platform ts (mark_admitted (ct_ConversationKey t) (ct_ID t) (set_state (ct_ConversationKey t)
      ((rt_control rt (ct_ConversationKey t))\<lparr>st_queue := st_queue (rt_control rt (ct_ConversationKey t)) @ [recovered_item platform (rt_channelID rt) t]\<rparr>) rt))) k))"
      using Cons.prems(2) by (simp add: Let_def)
  qed (use Cons.prems(1) in \<open>auto simp: mark_admitted_def recovered_item_def split: if_splits\<close>)
qed simp

lemma fold_start_order:
  assumes "order_ok rt" "\<And>k q. q \<in> set (st_queue (rt_control rt k)) \<Longrightarrow> ct_ConversationKey (qt_task q) = k"
  shows "order_ok (fold (startNextRemoteLocked now) keys rt)"
  using assms
proof (induction keys arbitrary: rt)
  case (Cons key keys)
  have "set (st_queue (rt_control (startNextRemoteLocked now key rt) k)) \<subseteq> set (st_queue (rt_control rt k))" for k
    by (auto simp: startNextRemoteLocked_def Let_def mark_started_def mark_sent_def set_state_def update_same
        split: list.splits prod.splits bool.splits if_splits)
  then show ?case using Cons.prems order_start_keyed [of rt key now] by (simp, intro Cons.IH) blast+
qed simp

lemma order_restart: "order_ok (restart now platform keys rt)"
proof -
  let ?rt = "rt\<lparr>rt_control := (\<lambda>_. empty_state), rt_direct := (\<lambda>_. None), rt_clearConfirm := (\<lambda>_. None), rt_live := True,
         rt_ended := [], rt_writes := [], rt_admitted := (\<lambda>_. []), rt_started := (\<lambda>_. [])\<rparr>"
  have o: "order_ok ?rt" "order_ok (?rt\<lparr>rt_store := s\<rparr>)" for s by (simp_all add: order_ok_def empty_state_def queue_ids_def)
  have "order_ok (fold (startNextRemoteLocked now) keys (load_queue platform ts (?rt\<lparr>rt_store := s\<rparr>)))" for ts s
  proof (rule fold_start_order [OF order_load [OF o(2)]])
    fix k q assume q: "q \<in> set (st_queue (rt_control (load_queue platform ts (?rt\<lparr>rt_store := s\<rparr>)) k))"
    show "ct_ConversationKey (qt_task q) = k" by (rule load_queue_keyed [OF _ q]) (simp add: empty_state_def)
  qed
  then show ?thesis using o by (auto simp: restart_def recoverRemoteTasks_def split: option.splits prod.splits)
qed

lemma step_order: "rt_step rt rt' \<Longrightarrow> rt_inv rt \<Longrightarrow> order_ok rt \<Longrightarrow> order_ok rt'"
proof (induction rule: rt_step.induct)
  case (finished rt key q dl pe tt q' status err now) then show ?case by (metis order_finish remote_outcome_unqueued)
next
  case looked_up then show ?case using lookup_with_store by (metis prod.collapse order_quieter quieter_same)
next
  case claimed then show ?case using claim_with_store by (metis prod.collapse order_quieter quieter_same)
next
  case expiry then show ?case using expiry_with_store by (metis prod.collapse order_quieter quieter_same)
next
  case feedback then show ?case using inv_feedback by (metis prod.collapse order_quieter quieter_same)
next
  case shutdown then show ?case by (simp add: order_ok_def)
qed (simp_all add: order_admit order_enqueue order_start order_quieter [OF _ quieter_error] order_quieter [OF _ quieter_event]
    order_quieter [OF _ quieter_delivery] order_quieter [OF _ quieter_write] order_quieter [OF _ quieter_attach]
    order_quieter [OF _ quieter_card] order_control order_steered order_quieter [OF _ quieter_others(1)] order_quieter [OF _ quieter_others(2)]
    order_quieter [OF _ quieter_others(3)] order_quieter [OF _ quieter_others(4)] order_quieter [OF _ quieter_others(5)]
    order_quieter [OF _ quieter_others(6)] order_clear order_begin_direct order_start_direct order_quieter [OF _ quieter_detach] order_asked order_restart)

lemma reach_order: "rt_reach rt \<Longrightarrow> order_ok rt"
  by (induction rule: rt_reach.induct) (auto simp: order_restart intro: step_order reach_inv)

end
