(* ===== verification/Channel_Correctness.thy ===== *)
theory Channel_Correctness
  imports Channel_Safety
begin

text \<open>
  The correctness of channel control over the reachable states of \<open>Channel_Safety\<close> and over its single
  operations: who may do what, what a restart leaves behind, the bounds, and that a request of an agent is
  answered at most once (the locale \<open>single_use\<close> of \<open>Prelude\<close>, interpreted on the runtime's operations).
\<close>

section \<open>Answers to an agent's request\<close>

text \<open>
  A handler that answers a request, or the goroutine of its expiry, between its parts: it has read the request, or it
  has also found the owning task. An expiry tells the agent only if the session is interactive.
\<close>

datatype flight =
  Answering ChannelInteraction bool Message AgentInteractionAction
| AnswerOwned ChannelInteraction bool Message AgentInteractionAction
| Expiring ChannelInteraction
| ExpiryOwned ChannelInteraction bool

text \<open>
  The operations on interactions: an agent asks, a card gets its message, a handler reads a request or a timer fires,
  the n-th goroutine looks for the owning task, the n-th goroutine claims the request, any other step of the runtime
  that leaves the requests alone moves the control states, and the process restarts, which ends all goroutines. A
  goroutine whose check fails ends. The flag tells whether the agent was given an answer to request \<open>i\<close>.
\<close>

datatype interaction_op =
  AskOp gotime string string AgentInteraction
| CardOp string string
| ReadOp bool bool Message AgentInteractionAction
| TimerOp ChannelInteraction
| OwnOp nat
| ClaimOp nat gotime
| ControlOp string channelControlState
| RestartOp gotime string "string list"

definition card_interaction :: "string \<Rightarrow> string \<Rightarrow> 'a runtime \<Rightarrow> 'a runtime" where
  "card_interaction i messageID rt =
     snd (with_store (\<lambda>d. case UpdateChannelInteractionMessage i messageID d of (ok, d') \<Rightarrow> (Some ok, d')) rt)"

definition ended :: "nat \<Rightarrow> flight list \<Rightarrow> flight list" where
  "ended n fs = take n fs @ drop (Suc n) fs"

definition own_step :: "nat \<Rightarrow> 'a runtime \<Rightarrow> flight list \<Rightarrow> flight list" where
  "own_step n rt fs =
     (case fs ! n of
        Answering r local msg ia \<Rightarrow>
          (case owning_session r rt of Inl _ \<Rightarrow> ended n fs | Inr _ \<Rightarrow> fs[n := AnswerOwned r local msg ia])
      | Expiring r \<Rightarrow>
          (case owning_task r rt of None \<Rightarrow> ended n fs | Some a \<Rightarrow> fs[n := ExpiryOwned r (qt_interactive a)])
      | _ \<Rightarrow> fs)"

definition claim_step :: "string \<Rightarrow> gotime \<Rightarrow> nat \<Rightarrow> 'a runtime \<Rightarrow> flight list \<Rightarrow> bool \<times> 'a runtime \<times> flight list" where
  "claim_step i now n rt fs =
     (case fs ! n of
        AnswerOwned r local msg ia \<Rightarrow>
          (case claim_request now (claim_actor local msg) (claim_status ia) r rt of
             (res, rt') \<Rightarrow> (\<not> isl res \<and> ci_ID r = i, rt', ended n fs))
      | ExpiryOwned r interactive \<Rightarrow>
          (case claim_request now ''system'' ChannelInteractionExpired r rt of
             (res, rt') \<Rightarrow> (\<not> isl res \<and> interactive \<and> ci_ID r = i, rt', ended n fs))
      | _ \<Rightarrow> (False, rt, fs))"

fun interaction_step :: "string \<Rightarrow> interaction_op \<Rightarrow> 'a runtime \<times> flight list \<Rightarrow> bool \<times> 'a runtime \<times> flight list" where
  "interaction_step i (AskOp now nonce key req) (rt, fs) = (False, snd (dispatchAgentInteraction now nonce key req rt), fs)"
| "interaction_step i (CardOp j messageID) (rt, fs) = (False, card_interaction j messageID rt, fs)"
| "interaction_step i (ReadOp manager local msg ia) (rt, fs) =
     (case lookup_request manager local msg ia rt of
        (Inl _, rt') \<Rightarrow> (False, rt', fs) | (Inr r, rt') \<Rightarrow> (False, rt', fs @ [Answering r local msg ia]))"
| "interaction_step i (TimerOp ci) (rt, fs) =
     (case expiry_due ci rt of (due, rt') \<Rightarrow> (False, rt', if due then fs @ [Expiring ci] else fs))"
| "interaction_step i (OwnOp n) (rt, fs) = (False, rt, if n < length fs then own_step n rt fs else fs)"
| "interaction_step i (ClaimOp n now) (rt, fs) = (if n < length fs then claim_step i now n rt fs else (False, rt, fs))"
| "interaction_step i (ControlOp key st) (rt, fs) = (False, set_state key st rt, fs)"
| "interaction_step i (RestartOp now platform keys) (rt, fs) = (False, restart now platform keys rt, [])"

definition unique_requests :: "'a runtime \<Rightarrow> bool" where
  "unique_requests rt \<longleftrightarrow> (\<forall>d. rt_store rt = Some d \<longrightarrow> distinct (map ci_ID (channel_interactions d)))"

definition settled_in :: "string \<Rightarrow> ChannelInteraction list \<Rightarrow> bool" where
  "settled_in i is \<longleftrightarrow> (\<exists>r\<in>set is. ci_ID r = i \<and> ci_Status r \<noteq> ChannelInteractionPending)"

definition answered :: "string \<Rightarrow> 'a runtime \<Rightarrow> bool" where
  "answered i rt \<longleftrightarrow> (\<exists>d. rt_store rt = Some d \<and> settled_in i (channel_interactions d))"

text \<open>A table changes by adding a request with a new id and by moving rows forward.\<close>

definition forward :: "ChannelInteraction list \<Rightarrow> ChannelInteraction list \<Rightarrow> bool" where
  "forward is js \<longleftrightarrow> (distinct (map ci_ID is) \<longrightarrow> distinct (map ci_ID js)) \<and> (\<forall>i. settled_in i is \<longrightarrow> settled_in i js)"

lemma forward_refl: "forward is is"
  by (simp add: forward_def)

lemma forward_trans: "forward a b \<Longrightarrow> forward b c \<Longrightarrow> forward a c"
  by (simp add: forward_def)

lemma forward_map:
  assumes "\<And>r. ci_ID (f r) = ci_ID r" "\<And>r. ci_Status r \<noteq> ChannelInteractionPending \<Longrightarrow> ci_Status (f r) \<noteq> ChannelInteractionPending"
  shows "forward is (map f is)"
  using assms by (auto simp: forward_def settled_in_def comp_def)

lemma forward_append: "\<not> list_ex (\<lambda>q. ci_ID q = ci_ID r) is \<Longrightarrow> forward is (is @ [r])"
  by (auto simp: forward_def settled_in_def list_ex_iff)

definition rt_forward :: "'a runtime \<Rightarrow> 'a runtime \<Rightarrow> bool" where
  "rt_forward rt rt' \<longleftrightarrow> (case rt_store rt of None \<Rightarrow> rt_store rt' = None
     | Some d \<Rightarrow> (\<exists>d'. rt_store rt' = Some d' \<and> forward (channel_interactions d) (channel_interactions d')))"

lemma rt_forward_refl: "rt_forward rt rt"
  by (simp add: rt_forward_def forward_refl split: option.splits)

lemma rt_forward_trans: "rt_forward a b \<Longrightarrow> rt_forward b c \<Longrightarrow> rt_forward a c"
  by (auto simp: rt_forward_def intro: forward_trans split: option.splits)

lemma rt_forward_store: "rt_store rt1 = rt_store rt \<Longrightarrow> rt_store rt2 = rt_store rt' \<Longrightarrow> rt_forward rt rt' \<Longrightarrow> rt_forward rt1 rt2"
  by (cases "rt_store rt") (simp_all add: rt_forward_def)

lemma rt_forwardD:
  "rt_forward rt rt' \<Longrightarrow> unique_requests rt \<Longrightarrow> unique_requests rt'"
  "rt_forward rt rt' \<Longrightarrow> answered i rt \<Longrightarrow> answered i rt'"
  by (auto simp: rt_forward_def unique_requests_def answered_def forward_def split: option.splits)

lemma with_store_forward:
  "(\<And>d r d'. f d = (r, d') \<Longrightarrow> forward (channel_interactions d) (channel_interactions d')) \<Longrightarrow> with_store f rt = (r, rt') \<Longrightarrow> rt_forward rt rt'"
  by (auto simp: with_store_def rt_forward_def split: option.splits prod.splits)

lemma create_forward:
  "CreateChannelInteraction i d = (ok, d') \<Longrightarrow> forward (channel_interactions d) (channel_interactions d')"
  by (auto simp: CreateChannelInteraction_def sql_exec_def Let_def forward_refl forward_append split: if_splits)

lemma message_forward:
  "UpdateChannelInteractionMessage i m d = (ok, d') \<Longrightarrow> forward (channel_interactions d) (channel_interactions d')"
  by (auto simp: UpdateChannelInteractionMessage_def sql_exec_def Let_def forward_refl intro!: forward_map split: if_splits)

lemma get_forward: "GetChannelInteraction i d = (r, d') \<Longrightarrow> forward (channel_interactions d) (channel_interactions d')"
  by (auto simp: GetChannelInteraction_def sql_query_def Let_def forward_refl)

lemma resolve_forward:
  "st \<noteq> ChannelInteractionPending \<Longrightarrow> ResolveChannelInteraction now i nonce actor st d = (r, d') \<Longrightarrow>
   forward (channel_interactions d) (channel_interactions d')"
  by (auto simp: ResolveChannelInteraction_def sql_exec_def Let_def forward_refl intro!: forward_map split: if_splits)

text \<open>A successful claim finds the request pending and settles it.\<close>

lemma resolve_claims:
  assumes "st \<noteq> ChannelInteractionPending" "ResolveChannelInteraction now i nonce actor st d = (Some True, d')"
  shows "\<exists>r\<in>set (channel_interactions d). ci_ID r = i \<and> ci_Status r = ChannelInteractionPending" "settled_in i (channel_interactions d')"
proof -
  from assms(2) have l: "length (filter (resolvable i nonce) (channel_interactions d)) = 1"
    and d': "channel_interactions d' = map (\<lambda>q. if resolvable i nonce q then q\<lparr>ci_Status := st, ci_ResolvedAt := now, ci_ResolvedBy := actor\<rparr> else q) (channel_interactions d)"
    by (auto simp: ResolveChannelInteraction_def sql_exec_def Let_def split: if_splits)
  from l have "filter (resolvable i nonce) (channel_interactions d) \<noteq> []" by auto
  then obtain r where r: "r \<in> set (channel_interactions d)" "resolvable i nonce r" by (auto simp: filter_empty_conv)
  then show "\<exists>r\<in>set (channel_interactions d). ci_ID r = i \<and> ci_Status r = ChannelInteractionPending" by (auto simp: resolvable_def)
  let ?f = "\<lambda>q. if resolvable i nonce q then q\<lparr>ci_Status := st, ci_ResolvedAt := now, ci_ResolvedBy := actor\<rparr> else q"
  have "?f r \<in> set (channel_interactions d')" unfolding d' set_map using r(1) by (rule imageI)
  moreover have "ci_ID (?f r) = i \<and> ci_Status (?f r) \<noteq> ChannelInteractionPending" using r(2) assms(1) by (simp add: resolvable_def)
  ultimately show "settled_in i (channel_interactions d')" unfolding settled_in_def by blast
qed

lemma update_store_forward: "rt_forward rt (snd (updateRemoteTask now t rt))"
  by (auto simp: updateRemoteTask_def rt_forward_def UpdateChannelTask_def sql_exec_def Let_def forward_refl split: option.splits)

lemma start_forward: "rt_forward rt (startNextRemoteLocked now key rt)"
proof -
  have "rt_forward rt rt'" if "updateRemoteTask now t rt = (ok, rt')" for t ok rt'
    using update_store_forward [of rt now t] that by simp
  then show ?thesis
    by (auto simp: startNextRemoteLocked_def Let_def mark_started_def mark_sent_def rt_forward_refl
        intro: rt_forward_store split: list.splits prod.splits bool.splits)
qed

lemma fold_start_forward: "rt_forward rt (fold (startNextRemoteLocked now) keys rt)"
  by (induction keys arbitrary: rt) (auto simp: rt_forward_refl intro: rt_forward_trans start_forward)

lemma load_queue_store [simp]: "rt_store (load_queue platform ts rt) = rt_store rt"
  by (induction ts arbitrary: rt) (simp_all add: Let_def mark_admitted_def)

lemma recover_forward:
  assumes "RecoverChannelTasks now ch d = (res, d')"
  shows "forward (channel_interactions d) (channel_interactions d')"
proof -
  have "channel_interactions d' \<in> {channel_interactions d} \<union> range (\<lambda>ts. map (expire_interaction now ch ts) (channel_interactions d))"
    using assms by (auto simp: RecoverChannelTasks_def sql_exec_def sql_query_def Let_def split: if_splits)
  moreover have "forward (channel_interactions d) (map (expire_interaction now ch ts) (channel_interactions d))" for ts
    by (rule forward_map) (simp_all add: expire_interaction_def)
  ultimately show ?thesis by (auto simp: forward_refl)
qed

lemma restart_forward: "rt_forward rt (restart now platform keys rt)"
proof (cases "rt_store rt")
  case None
  then show ?thesis by (simp add: restart_def recoverRemoteTasks_def rt_forward_def)
next
  case (Some d)
  obtain res d' where r: "RecoverChannelTasks now (rt_channelID rt) d = (res, d')" by fastforce
  have f: "rt_forward rt rt1" if "rt_store rt1 = Some d'" for rt1 :: "'a runtime"
    using recover_forward [OF r] Some that by (simp add: rt_forward_def)
  show ?thesis
    using Some r by (auto simp: restart_def recoverRemoteTasks_def intro!: f rt_forward_trans [OF f fold_start_forward] split: option.splits)
qed

lemma ask_forward: "rt_forward rt (snd (dispatchAgentInteraction now nonce key req rt))"
proof (cases "st_active (rt_control rt key)")
  case None
  then show ?thesis by (simp add: dispatchAgentInteraction_def rt_forward_refl)
next
  case (Some a)
  let ?t = "(qt_task a)\<lparr>ct_Status := ChannelTaskWaitingInput, ct_TurnID := ai_TurnID req\<rparr>"
  let ?f = "\<lambda>d. case CreateChannelInteraction (interaction_record now nonce (rt_channelID rt) key req (qt_task a)) d of (ok, d') \<Rightarrow> (if ok then Some () else None, d')"
  obtain r rt' where w: "with_store ?f (on_active (\<lambda>a. a\<lparr>qt_task := ?t\<rparr>) key rt) = (r, rt')" by fastforce
  have "rt_forward (on_active (\<lambda>a. a\<lparr>qt_task := ?t\<rparr>) key rt) rt'"
    by (rule with_store_forward [OF _ w]) (auto split: prod.splits intro: create_forward)
  then have "rt_forward rt rt'" "rt_forward rt (push_write ?t rt')"
    by (rule rt_forward_store [rotated 2]; simp add: on_active_def push_write_def)+
  then show ?thesis using Some w by (simp add: dispatchAgentInteraction_def Let_def rt_forward_refl split: option.splits)
qed

lemma card_forward: "rt_forward rt (card_interaction i m rt)"
proof -
  obtain r rt' where w: "with_store (\<lambda>d. case UpdateChannelInteractionMessage i m d of (ok, d') \<Rightarrow> (Some ok, d')) rt = (r, rt')" by fastforce
  have "rt_forward rt rt'" by (rule with_store_forward [OF _ w]) (auto split: prod.splits intro: message_forward)
  then show ?thesis by (simp add: card_interaction_def w)
qed

lemma get_rt_forward: "with_store (GetChannelInteraction i) rt = (r, rt') \<Longrightarrow> rt_forward rt rt'"
  by (erule with_store_forward [rotated]) (rule get_forward)

lemma resolve_rt_forward:
  "st \<noteq> ChannelInteractionPending \<Longrightarrow> with_store (ResolveChannelInteraction now i nonce actor st) rt = (r, rt') \<Longrightarrow> rt_forward rt rt'"
  by (erule with_store_forward [rotated]) (rule resolve_forward)

text \<open>What a successful claim checked and did.\<close>

lemma claim_status_final [simp]: "claim_status ia \<noteq> ChannelInteractionPending"
  by (simp add: claim_status_def)

lemma claim_request_SomeD:
  assumes "claim_request now actor status i rt = (Inr j, rt')"
  shows "with_store (ResolveChannelInteraction now (ci_ID i) (ci_Nonce i) actor status) rt = (Some True, rt') \<and> j = i"
  using assms by (auto simp: claim_request_def split: option.splits prod.splits if_splits)

lemma claim_cases:
  assumes "claimInteraction now manager local msg ia rt = (Inr i, rt')"
  obtains rt1 a where "with_store (GetChannelInteraction (aa_InteractionID ia)) rt = (Some (Some i), rt1)"
    "check_response (rt_channelID rt) manager local msg ia (Some i) = Inr i"
    "st_active (rt_control rt1 (ci_ConversationKey i)) = Some a" "qt_id a = ci_TaskID i" "qt_interactive a"
    "with_store (ResolveChannelInteraction now (ci_ID i) (ci_Nonce i) (claim_actor local msg) (claim_status ia)) rt1 = (Some True, rt')"
proof -
  obtain k rt1 where l: "lookup_request manager local msg ia rt = (Inr k, rt1)"
    using assms by (cases "lookup_request manager local msg ia rt") (auto simp: claimInteraction_def split: sum.splits)
  then obtain b where o: "owning_session k rt1 = Inr b"
    using assms by (cases "owning_session k rt1") (auto simp: claimInteraction_def)
  have c: "claim_request now (claim_actor local msg) (claim_status ia) k rt1 = (Inr i, rt')"
    using assms l o by (simp add: claimInteraction_def)
  note s = claim_request_SomeD [OF c]
  obtain j where g: "with_store (GetChannelInteraction (aa_InteractionID ia)) rt = (Some j, rt1)"
    "check_response (rt_channelID rt) manager local msg ia j = Inr k"
    using l by (auto simp: lookup_request_def split: if_splits option.splits prod.splits)
  have j: "j = Some k" using g(2) by (auto simp: check_response_def split: option.splits if_splits)
  have "st_active (rt_control rt1 (ci_ConversationKey i)) = Some b \<and> qt_id b = ci_TaskID i \<and> qt_interactive b"
    using o s by (auto simp: owning_session_def owning_task_def split: option.splits if_splits)
  then show ?thesis using g j s that by blast
qed

lemma claim_request_forward:
  "status \<noteq> ChannelInteractionPending \<Longrightarrow> claim_request now actor status i rt = (res, rt') \<Longrightarrow> rt_forward rt rt'"
  using resolve_rt_forward [of status now "ci_ID i" "ci_Nonce i" actor rt]
  by (auto simp: claim_request_def split: option.splits prod.splits)

lemma lookup_forward: "lookup_request manager local msg ia rt = (res, rt') \<Longrightarrow> rt_forward rt rt'"
  using get_rt_forward [of "aa_InteractionID ia" rt]
  by (auto simp: lookup_request_def rt_forward_refl split: option.splits prod.splits if_splits)

lemma expiry_forward: "expiry_due i rt = (b, rt') \<Longrightarrow> rt_forward rt rt'"
  using get_rt_forward [of "ci_ID i" rt] by (auto simp: expiry_due_def split: option.splits prod.splits)

lemma resolve_rt_claims:
  assumes "st \<noteq> ChannelInteractionPending" "with_store (ResolveChannelInteraction now i nonce actor st) rt = (Some True, rt')"
  shows "answered i rt'" "unique_requests rt \<Longrightarrow> \<not> answered i rt"
proof -
  obtain d d' where d: "rt_store rt = Some d" "ResolveChannelInteraction now i nonce actor st d = (Some True, d')" "rt_store rt' = Some d'"
    using assms(2) by (auto simp: with_store_def split: option.splits prod.splits)
  show "answered i rt'" using resolve_claims(2) [OF assms(1) d(2)] d(3) by (simp add: answered_def)
  show "\<not> answered i rt" if "unique_requests rt"
  proof
    assume "answered i rt"
    then obtain r where r: "r \<in> set (channel_interactions d)" "ci_ID r = i" "ci_Status r \<noteq> ChannelInteractionPending"
      using d(1) by (auto simp: answered_def settled_in_def)
    obtain q where q: "q \<in> set (channel_interactions d)" "ci_ID q = i" "ci_Status q = ChannelInteractionPending"
      using resolve_claims(1) [OF assms(1) d(2)] by blast
    have "distinct (map ci_ID (channel_interactions d))" using that d(1) by (simp add: unique_requests_def)
    then have "q = r" using r q by (metis distinct_map inj_onD)
    then show False using r q by simp
  qed
qed

lemma claim_request_claims:
  assumes "status \<noteq> ChannelInteractionPending" "claim_request now actor status r rt = (res, rt')" "\<not> isl res"
  shows "answered (ci_ID r) rt'" "unique_requests rt \<Longrightarrow> \<not> answered (ci_ID r) rt"
proof -
  obtain j where "res = Inr j" using assms(3) by (cases res) auto
  with assms(2) have "with_store (ResolveChannelInteraction now (ci_ID r) (ci_Nonce r) actor status) rt = (Some True, rt')"
    using claim_request_SomeD by blast
  from resolve_rt_claims [OF assms(1) this]
  show "answered (ci_ID r) rt'" "unique_requests rt \<Longrightarrow> \<not> answered (ci_ID r) rt" by blast+
qed

lemma claim_step_result:
  assumes "claim_step i now n rt fs = (told, rt', fs')"
  shows "rt_forward rt rt'" and "told \<Longrightarrow> answered i rt'" and "told \<Longrightarrow> unique_requests rt \<Longrightarrow> \<not> answered i rt"
proof -
  have "rt_forward rt rt' \<and> (told \<longrightarrow> answered i rt' \<and> (unique_requests rt \<longrightarrow> \<not> answered i rt))"
  proof (cases "fs ! n")
    case (AnswerOwned r local msg ia)
    obtain res rt1 where c: "claim_request now (claim_actor local msg) (claim_status ia) r rt = (res, rt1)" by fastforce
    show ?thesis
      using assms AnswerOwned c claim_request_forward [OF claim_status_final c] claim_request_claims [OF claim_status_final c]
      by (auto simp: claim_step_def)
  next
    case (ExpiryOwned r interactive)
    obtain res rt1 where c: "claim_request now ''system'' ChannelInteractionExpired r rt = (res, rt1)" by fastforce
    have f: "ChannelInteractionExpired \<noteq> ChannelInteractionPending" by simp
    show ?thesis
      using assms ExpiryOwned c claim_request_forward [OF f c] claim_request_claims [OF f c] by (auto simp: claim_step_def)
  qed (use assms in \<open>auto simp: claim_step_def rt_forward_refl\<close>)
  then show "rt_forward rt rt'" "told \<Longrightarrow> answered i rt'" "told \<Longrightarrow> unique_requests rt \<Longrightarrow> \<not> answered i rt" by auto
qed

lemma interaction_step_result:
  assumes "interaction_step i op (rt, fs) = (told, rt', fs')"
  shows "rt_forward rt rt' \<and> (told \<longrightarrow> answered i rt' \<and> (unique_requests rt \<longrightarrow> \<not> answered i rt))"
proof (cases op)
  case (ReadOp manager local msg ia)
  obtain res rt1 where l: "lookup_request manager local msg ia rt = (res, rt1)" by fastforce
  show ?thesis using assms ReadOp l lookup_forward [OF l] by (auto split: sum.splits)
next
  case (TimerOp ci)
  obtain b rt1 where l: "expiry_due ci rt = (b, rt1)" by fastforce
  show ?thesis using assms TimerOp l expiry_forward [OF l] by auto
next
  case (ClaimOp n now)
  show ?thesis using assms ClaimOp claim_step_result [of i now n rt fs told rt' fs'] by (auto simp: rt_forward_refl split: if_splits)
next
  case (ControlOp key st)
  show ?thesis using assms ControlOp by (auto simp: rt_forward_def set_state_def forward_refl split: option.splits)
qed (use assms in \<open>auto simp: ask_forward card_forward restart_forward rt_forward_refl\<close>)

interpretation request: single_use "interaction_step i" "\<lambda>s. unique_requests (fst s)" "\<lambda>s. answered i (fst s)" for i
proof unfold_locales
  fix s :: "'a runtime \<times> flight list" and op
  obtain rt fs told rt' fs' where s: "s = (rt, fs)" and r: "interaction_step i op (rt, fs) = (told, rt', fs')"
    by (metis prod.collapse)
  note res = interaction_step_result [OF r]
  show "unique_requests (fst (snd (interaction_step i op s)))" if "unique_requests (fst s)"
    using that res rt_forwardD(1) by (auto simp: s r)
  show "answered i (fst (snd (interaction_step i op s)))" if "fst (interaction_step i op s)"
    using that res by (auto simp: s r)
  show "\<not> fst (interaction_step i op s) \<and> answered i (fst (snd (interaction_step i op s)))"
    if "unique_requests (fst s)" "answered i (fst s)"
    using that res rt_forwardD(2) by (auto simp: s r)
qed

section \<open>A channel to try the properties on\<close>

definition demo_cdb :: channel_db where
  "demo_cdb = \<lparr>fault = (\<lambda>_. False), tick = 0, orchestrations = [], orchestration_tasks = [],
     time_key = (\<lambda>t. case t of None \<Rightarrow> 0 | Some x \<Rightarrow> x), text_key = (\<lambda>x. x), agent_instances = [], channels = [], triggers = [],
     tenants = [], tenant_tokens = [], resource_grants = [], channel_tasks = [], channel_feedback = [], channel_interactions = []\<rparr>"

definition demo_msg :: "string \<Rightarrow> string \<Rightarrow> Message" where
  "demo_msg user prompt = \<lparr>ms_ID = ''m'', ms_ChatID = ''chat'', ms_ChatType = ''group'', ms_RootID = [], ms_ThreadID = [], ms_UserID = user,
     ms_Platform = ''feishu'', ms_ConversationKey = ''c'', ms_SourceMessageID = [], ms_ChatMode = [], ms_ReplyInThread = False,
     ms_Text = prompt, ms_InteractionMessageID = []\<rparr>"

definition demo_boot :: "unit runtime" where
  "demo_boot = \<lparr>rt_store = Some demo_cdb, rt_channelID = ''ch'', rt_config = (\<lambda>_. []), rt_control = (\<lambda>_. empty_state), rt_direct = (\<lambda>_. None),
     rt_clearConfirm = (\<lambda>_. None), rt_live = True, rt_ended = [], rt_writes = [], rt_sent = [], rt_admitted = (\<lambda>_. []), rt_started = (\<lambda>_. [])\<rparr>"

definition demo_start :: "unit runtime" where
  "demo_start = restart 1 ''feishu'' [] demo_boot"

definition demo_busy :: "unit runtime" where
  "demo_busy = snd (admitMessage 3 ''t2'' ''f2'' ''n2'' (demo_msg ''u2'' ''second'')
     (snd (admitMessage 2 ''t1'' ''f1'' ''n1'' (demo_msg ''u1'' ''first'') demo_start)))"

definition demo_next :: "unit runtime" where
  "demo_next = finishRemoteTask 4 (the (st_active (rt_control demo_busy ''c''))) ChannelTaskSucceeded [] demo_busy"

lemma update_row_ids:
  assumes u: "updateRemoteTask now t rt = (ok, rt')"
  shows "row_ids rt' = row_ids rt"
proof -
  have "ct_ID ` set (channel_tasks d') = ct_ID ` set (channel_tasks d)" if "UpdateChannelTask now t d = (ok, d')" for ok and d d' :: "'a channel_db_scheme"
  proof -
    have "map ct_ID (channel_tasks d') = map ct_ID (channel_tasks d)" using UpdateChannelTask_rows [OF that] by (auto simp: write_channel_task_def)
    then show ?thesis by (metis set_map)
  qed
  note ids = this
  show ?thesis
  proof (cases "rt_store rt")
    case None
    then show ?thesis using u by (simp add: updateRemoteTask_def)
  next
    case (Some d)
    obtain ok' d' where d: "UpdateChannelTask now t d = (ok', d')" by fastforce
    then have "rt_store rt' = Some d'" using u Some by (auto simp: updateRemoteTask_def)
    then show ?thesis using Some ids [OF d] d u by (auto simp: row_ids_def updateRemoteTask_def)
  qed
qed

lemma create_row_ids: "create_task now t rt = (ok, rt') \<Longrightarrow> row_ids rt' \<subseteq> insert (ct_ID t) (row_ids rt)"
  by (auto simp: create_task_def row_ids_def dest!: CreateChannelTask_rows split: option.splits prod.splits)

lemma fresh_start: "fresh j rt \<Longrightarrow> fresh j (startNextRemoteLocked now key rt)"
proof -
  assume f: "fresh j rt"
  have "fresh j rt'" if "updateRemoteTask now t rt = (ok, rt')" for t ok rt'
    using f update_same [OF that] update_row_ids [OF that] by (simp add: fresh_def)
  moreover have "fresh j (mark_started key (qt_id q) (set_state key (rt_control rt key\<lparr>st_queue := rest, st_active := a\<rparr>) rt'))"
    if "fresh j rt'" "st_queue (rt_control rt key) = q # rest" "rt_control rt' = rt_control rt" for rt' q rest a
  proof -
    have "j \<noteq> qt_id q" "j \<notin> qt_id ` set rest" using freshD(2) [OF f, of key] that(2) by (auto simp: queue_ids_def)
    then show ?thesis using that(1) by (auto simp: fresh_def mark_started_def mark_sent_def set_state_def row_ids_def)
  qed
  ultimately show ?thesis using f update_same(3)
    by (simp add: startNextRemoteLocked_def Let_def split: list.splits prod.splits bool.splits) blast
qed

lemma fresh_admit:
  assumes f: "fresh j rt" and j: "j \<noteq> i"
  shows "fresh j (snd (admitMessage now i fn cn msg rt))"
proof -
  have c: "fresh j rt'" if "create_task now t rt = (ok, rt')" "ct_ID t = i" for t ok rt'
    using f j create_same [OF that(1)] create_row_ids [OF that(1)] that(2) by (auto simp: fresh_def)
  have e: "fresh j (snd (enqueueRemoteTask now i fn cn msg prompt rt))" for prompt
  proof -
    let ?k = "ResolveConversationKey msg" and ?q = "queued_item now i fn cn msg prompt rt"
    obtain ok rt' where ct: "create_task now (qt_task ?q) rt = (ok, rt')" by fastforce
    have f': "fresh j rt'" using c [OF ct] by simp
    have "fresh j (mark_admitted ?k i (set_state ?k ((rt_control rt ?k)\<lparr>st_queue := st_queue (rt_control rt ?k) @ [?q]\<rparr>) rt'))"
      using f' f j by (auto simp: fresh_def mark_admitted_def set_state_def row_ids_def queue_ids_def)
    from fresh_start [OF this] show ?thesis using f f' ct by (simp add: enqueueRemoteTask_eq Let_def split: bool.splits)
  qed
  let ?k = "ResolveConversationKey msg" and ?q0 = "newRemoteTask now i fn (rt_channelID rt) msg (ms_Text msg) ChannelTaskRunning"
  let ?q = "?q0\<lparr>qt_task := (qt_task ?q0)\<lparr>ct_Prompt := [], ct_StartedAt := now\<rparr>\<rparr>"
  obtain ok rt' where ct: "create_task now (qt_task ?q) rt = (ok, rt')" by fastforce
  have f': "fresh j rt'" using c [OF ct] by simp
  have "fresh j (mark_started ?k i (mark_admitted ?k i (set_state ?k ((rt_control rt ?k)\<lparr>st_active := Some ?q\<rparr>) rt')))"
    using f' f j by (auto simp: fresh_def mark_admitted_def mark_started_def mark_sent_def set_state_def row_ids_def queue_ids_def)
  then show ?thesis using f f' ct e by (auto simp: admitMessage_def Let_def split: bool.splits)
qed

lemma demo_channel_reach: "rt_reach demo_start" "rt_reach demo_busy" "rt_reach demo_next"
proof -
  show start: "rt_reach demo_start"
    unfolding demo_start_def by (rule rt_reach.boot) (simp_all add: demo_boot_def demo_cdb_def)
  have fr: "fresh i demo_start" for i
    by (simp add: demo_start_def demo_boot_def demo_cdb_def restart_def recoverRemoteTasks_def RecoverChannelTasks_def
        sql_exec_def sql_query_def Let_def fresh_def row_ids_def empty_state_def queue_ids_def)
  have "rt_reach (snd (admitMessage 2 ''t1'' ''f1'' ''n1'' (demo_msg ''u1'' ''first'') demo_start))"
    by (rule rt_reach.step [OF start rt_step.message [OF fr]])
  then show busy: "rt_reach demo_busy"
    unfolding demo_busy_def by (rule rt_reach.step [OF _ rt_step.message [OF fresh_admit [OF fr]]]) simp
  have "\<not> Option.is_none (st_active (rt_control demo_busy ''c''))" by code_simp
  then have "st_active (rt_control demo_busy ''c'') = Some (the (st_active (rt_control demo_busy ''c'')))" by (simp add: Option.is_none_def)
  moreover have "remote_outcome False None [] (newRemoteTask 0 [] [] [] (demo_msg [] []) [] ChannelTaskRunning) = (ChannelTaskSucceeded, [])"
    by (simp add: remote_outcome_def newRemoteTask_def)
  ultimately show "rt_reach demo_next"
    unfolding demo_next_def by (rule rt_reach.step [OF busy rt_step.finished])
qed

section \<open>What a restart admits\<close>

text \<open>The queued tasks of the channel in the store, unless recovery fails.\<close>

definition recoverable :: "gotime \<Rightarrow> 'a runtime \<Rightarrow> ChannelTask list" where
  "recoverable now rt =
     (case rt_store rt of
        None \<Rightarrow> []
      | Some d \<Rightarrow>
          if fst (RecoverChannelTasks now (rt_channelID rt) d) = None then []
          else filter (\<lambda>r. ct_ChannelID r = rt_channelID rt \<and> ct_Status r = ChannelTaskQueued) (channel_tasks d))"

lemma recovered_queue:
  assumes "RecoverChannelTasks now ch d = (Some ts, d')"
  shows "mset ts = mset (filter (\<lambda>r. ct_ChannelID r = ch \<and> ct_Status r = ChannelTaskQueued) (channel_tasks d)) \<and>
    sorted (map ct_CreatedAt ts)"
proof
  show "mset ts = mset (filter (\<lambda>r. ct_ChannelID r = ch \<and> ct_Status r = ChannelTaskQueued) (channel_tasks d))"
  proof -
    have f: "filter (\<lambda>r. ct_ChannelID r = ch \<and> ct_Status r = ChannelTaskQueued) xs =
        filter (\<lambda>r. ct_ChannelID r = ch) (filter (\<lambda>r. ct_Status r = ChannelTaskQueued) xs)" for xs
      by simp (metis (no_types, lifting))
    have "mset ts = mset (filter (\<lambda>r. ct_ChannelID r = ch \<and> ct_Status r = ChannelTaskQueued) (channel_tasks d'))"
      by (rule RecoverChannelTasks_result(1) [OF assms])
    also have "\<dots> = mset (filter (\<lambda>r. ct_ChannelID r = ch) (filter (\<lambda>r. ct_Status r = ChannelTaskQueued) (channel_tasks d)))"
      by (simp only: f [of "channel_tasks d'"] control.recover_queued [OF assms])
    finally show ?thesis by (simp only: f [of "channel_tasks d"])
  qed
  show "sorted (map ct_CreatedAt ts)"
    using assms by (auto simp: RecoverChannelTasks_def sql_exec_def sql_query_def Let_def split: if_splits)
qed

lemma load_queue_admitted:
  "rt_admitted (load_queue platform ts rt) k = rt_admitted rt k @ map ct_ID (filter (\<lambda>t. ct_ConversationKey t = k) ts)"
  by (induction ts arbitrary: rt) (auto simp: Let_def mark_admitted_def set_state_def)

lemma fold_start_admitted: "rt_admitted (fold (startNextRemoteLocked now) keys rt) = rt_admitted rt"
proof (induction keys arbitrary: rt)
  case (Cons key keys)
  have "rt_admitted (startNextRemoteLocked now key rt) = rt_admitted rt"
    by (auto simp: startNextRemoteLocked_def Let_def mark_started_def mark_sent_def set_state_def update_same
        split: list.splits prod.splits bool.splits if_splits)
  then show ?case using Cons.IH by simp
qed simp

lemma restart_admits:
  "\<exists>ts. rt_admitted (restart now platform keys rt) k = map ct_ID (filter (\<lambda>t. ct_ConversationKey t = k) ts) \<and>
     sorted (map ct_CreatedAt ts) \<and> mset ts = mset (recoverable now rt)"
proof (cases "rt_store rt")
  case None
  then show ?thesis by (intro exI [of _ "[]"]) (simp add: restart_def recoverRemoteTasks_def recoverable_def)
next
  case (Some d)
  obtain res d' where r: "RecoverChannelTasks now (rt_channelID rt) d = (res, d')" by fastforce
  show ?thesis
  proof (cases res)
    case None
    then show ?thesis using Some r by (intro exI [of _ "[]"]) (simp add: restart_def recoverRemoteTasks_def recoverable_def)
  next
    case (Some ts)
    have "mset ts = mset (filter (\<lambda>r. ct_ChannelID r = rt_channelID rt \<and> ct_Status r = ChannelTaskQueued) (channel_tasks d)) \<and>
        sorted (map ct_CreatedAt ts)"
      using recovered_queue r Some by blast
    then show ?thesis using \<open>rt_store rt = Some d\<close> Some r
      by (intro exI [of _ ts]) (simp add: restart_def recoverRemoteTasks_def recoverable_def load_queue_admitted fold_start_admitted)
  qed
qed

section \<open>Properties\<close>

text \<open>
  C12. A prompt is never handed to an agent twice: in every reachable state of a channel, whatever the order of the
  handlers, the failed writes, the steers and the crashes, the tasks whose prompt an agent has or may have received
  are pairwise different.
\<close>

theorem prompt_sent_at_most_once: "rt_reach rt \<Longrightarrow> distinct (rt_sent rt)"
  using reach_inv [of rt] by (simp add: rt_inv_def)

theorem prompt_sent_at_most_once_witness: "rt_sent demo_next = [''t1'', ''t2''] \<and> distinct (rt_sent demo_next)"
  by (rule conjI [OF _ prompt_sent_at_most_once [OF demo_channel_reach(3)]]) code_simp

text \<open>
  C13. The queue of a conversation is first in, first out since the channel was attached: the tasks started since then,
  followed by those still queued, are in the order in which their messages were admitted. And when the channel is
  attached again, the tasks it finds are admitted in the order in which they were created: of the conversation's tasks
  that are queued in the store each once, the oldest first, or none if the store cannot be read.
\<close>

theorem started_in_admission_order:
  assumes "rt_reach rt"
  shows "subseq (rt_started rt k @ queue_ids (rt_control rt k)) (rt_admitted rt k) \<and>
    (\<exists>ts. rt_admitted (restart now platform keys rt) k = map ct_ID (filter (\<lambda>t. ct_ConversationKey t = k) ts) \<and>
       sorted (map ct_CreatedAt ts) \<and> mset ts = mset (recoverable now rt))"
  using reach_order [OF assms] restart_admits [of now platform keys rt k] by (simp add: order_ok_def)

theorem started_in_admission_order_witness:
  "rt_started demo_busy ''c'' @ queue_ids (rt_control demo_busy ''c'') = [''t1'', ''t2''] \<and>
   rt_admitted demo_busy ''c'' = [''t1'', ''t2''] \<and> map ct_ID (recoverable 9 demo_busy) = [''t2''] \<and>
   subseq (rt_started demo_busy ''c'' @ queue_ids (rt_control demo_busy ''c'')) (rt_admitted demo_busy ''c'')"
proof -
  have "rt_started demo_busy ''c'' @ queue_ids (rt_control demo_busy ''c'') = [''t1'', ''t2'']"
    "rt_admitted demo_busy ''c'' = [''t1'', ''t2'']" "map ct_ID (recoverable 9 demo_busy) = [''t2'']" by code_simp+
  with started_in_admission_order [OF demo_channel_reach(2), of "''c''"] show ?thesis by blast
qed

text \<open>A conversation runs one turn at a time: while a queued task is active, no direct turn runs under the same key.\<close>

theorem one_turn_per_conversation: "rt_reach rt \<Longrightarrow> st_active (rt_control rt k) = None \<or> rt_direct rt k = None"
  using reach_order [of rt] by (auto simp: order_ok_def)

theorem one_turn_per_conversation_witness:
  "\<not> Option.is_none (st_active (rt_control demo_busy ''c'')) \<and> rt_direct demo_busy ''c'' = None"
proof
  show "\<not> Option.is_none (st_active (rt_control demo_busy ''c''))" by code_simp
  then show "rt_direct demo_busy ''c'' = None"
    using one_turn_per_conversation [OF demo_channel_reach(2), of "''c''"] by (auto simp: Option.is_none_def)
qed

text \<open>
  C14. An agent's request is answered at most once: however the reads, the checks and the claims of answers from cards
  and the console and of expiries are interleaved with each other, with new requests, with changes of the control states
  and with restarts, and whichever store calls fail, the agent's session is told the outcome of a request at most one
  time.
\<close>

theorem request_answered_at_most_once: "unique_requests rt \<Longrightarrow> uses (interaction_step i) ops (rt, fs) \<le> 1"
  using request.at_most_once [of "(rt, fs)" i ops] by simp

text \<open>A running task of an interactive agent, a request from it, and the answer of its user sent twice.\<close>

definition demo_request :: AgentInteraction where
  "demo_request = \<lparr>ai_ID = ''q'', ai_Kind = AgentInteractionCommandApproval, ai_ThreadID = [], ai_TurnID = ''turn'', ai_ItemID = [],
     ai_Title = [], ai_Description = [], ai_Command = [], ai_Cwd = [], ai_Reason = [], ai_HighRisk = False, ai_Questions = [],
     ai_AutoResolutionMs = 0\<rparr>"

definition demo_active :: "unit runtime" where
  "demo_active = set_state ''c''
     (empty_state\<lparr>st_active := Some ((newRemoteTask 2 ''t1'' ''f1'' ''ch'' (demo_msg ''u1'' ''first'') ''first'' ChannelTaskRunning)\<lparr>qt_interactive := True\<rparr>)\<rparr>) demo_boot"

definition demo_answer :: AgentInteractionAction where
  "demo_answer = \<lparr>aa_InteractionID = ''q'', aa_TaskID = ''t1'', aa_Nonce = ''nonce'', aa_Decision = ''accept'', aa_Answers = (\<lambda>_. [])\<rparr>"

text \<open>Two handlers have read the request and found its task before the first of them claims it.\<close>

definition demo_race :: "interaction_op list" where
  "demo_race = [AskOp 3 ''nonce'' ''c'' demo_request, ReadOp False False (demo_msg ''u1'' []) demo_answer,
     ReadOp False False (demo_msg ''u1'' []) demo_answer, OwnOp 0, OwnOp 1, ClaimOp 1 4, ClaimOp 0 5]"

theorem request_answered_at_most_once_witness:
  "uses (interaction_step ''q'') demo_race (demo_active, []) = 1 \<and> uses (interaction_step ''q'') demo_race (demo_active, []) \<le> 1"
proof -
  have "unique_requests demo_active" by (simp add: unique_requests_def demo_active_def demo_boot_def demo_cdb_def)
  from request_answered_at_most_once [OF this, of "''q''" demo_race "[]"] show ?thesis by (intro conjI) code_simp
qed

text \<open>
  C15. Who may answer an agent's request: a claim succeeds only for a pending request of this channel and
  conversation, with its nonce, while its task is the active one, and from a channel only by the task's controller
  or a chat manager, without secret answers; a high-risk action is never approved for the session.
\<close>

theorem claim_authorized:
  assumes "claimInteraction now manager local msg ia rt = (Inr i, rt')"
  shows "\<exists>d a. rt_store rt = Some d \<and> i \<in> set (channel_interactions d) \<and> ci_ID i = aa_InteractionID ia \<and>
      ci_Status i = ChannelInteractionPending \<and> ci_ChannelID i = rt_channelID rt \<and>
      ci_ConversationKey i = ResolveConversationKey msg \<and> ci_Nonce i = aa_Nonce ia \<and> aa_Nonce ia \<noteq> [] \<and>
      st_active (rt_control rt (ResolveConversationKey msg)) = Some a \<and> qt_id a = ci_TaskID i \<and> qt_interactive a \<and>
      (local \<or> ms_UserID msg = ci_ControllerID i \<or> manager) \<and>
      (local \<or> list_all (\<lambda>q. \<not> iq_Secret q \<or> aa_Answers ia (iq_ID q) = []) (ai_Questions (ci_Request i))) \<and>
      \<not> (ai_HighRisk (ci_Request i) \<and> aa_Decision ia = ''acceptForSession'')"
proof -
  from assms obtain rt1 a where g: "with_store (GetChannelInteraction (aa_InteractionID ia)) rt = (Some (Some i), rt1)"
    and c: "check_response (rt_channelID rt) manager local msg ia (Some i) = Inr i"
    and a: "st_active (rt_control rt1 (ci_ConversationKey i)) = Some a" "qt_id a = ci_TaskID i" "qt_interactive a"
    by (rule claim_cases)
  have "rt_control rt1 = rt_control rt \<and> (\<exists>d. rt_store rt = Some d \<and> i \<in> set (channel_interactions d) \<and> ci_ID i = aa_InteractionID ia)"
    using g by (auto simp: with_store_def GetChannelInteraction_def sql_query_def table_find_def find_Some_iff Let_def
        split: option.splits prod.splits if_splits)
  then show ?thesis using c a by (auto simp: check_response_def list_ex_iff list_all_iff split: if_splits)
qed

theorem claim_authorized_witness:
  "\<not> isl (fst (claimInteraction 4 False False (demo_msg ''u1'' []) demo_answer (snd (dispatchAgentInteraction 3 ''nonce'' ''c'' demo_request demo_active)))) \<and>
   isl (fst (claimInteraction 4 False False (demo_msg ''u2'' []) demo_answer (snd (dispatchAgentInteraction 3 ''nonce'' ''c'' demo_request demo_active))))"
proof
  let ?rt = "snd (dispatchAgentInteraction 3 ''nonce'' ''c'' demo_request demo_active)"
  show "\<not> isl (fst (claimInteraction 4 False False (demo_msg ''u1'' []) demo_answer ?rt))" by code_simp
  have u: "ms_UserID (demo_msg ''u2'' []) = ''u2''" by (simp add: demo_msg_def)
  show "isl (fst (claimInteraction 4 False False (demo_msg ''u2'' []) demo_answer ?rt))"
  proof (rule ccontr)
    assume "\<not> isl (fst (claimInteraction 4 False False (demo_msg ''u2'' []) demo_answer ?rt))"
    then obtain i rt' where "claimInteraction 4 False False (demo_msg ''u2'' []) demo_answer ?rt = (Inr i, rt')"
      by (metis prod.collapse sum.collapse(2))
    from claim_authorized [OF this] obtain d where d: "rt_store ?rt = Some d" and i: "i \<in> set (channel_interactions d)"
      "ms_UserID (demo_msg ''u2'' []) = ci_ControllerID i" by blast
    have "list_ex (\<lambda>i. ci_ControllerID i = ''u2'') (channel_interactions d)" unfolding list_ex_iff using i u by metis
    moreover
    have "case rt_store ?rt of None \<Rightarrow> True | Some d \<Rightarrow> \<not> list_ex (\<lambda>i. ci_ControllerID i = ''u2'') (channel_interactions d)" by code_simp
    ultimately show False using d by simp
  qed
qed

text \<open>
  A restart settles what was in an agent's hands: when recovery of a channel succeeds, none of its tasks is
  running, waiting for input or being steered, the tasks it returns are exactly the queued ones as they were stored,
  each once and oldest first, and the prompts of the others that it changed are erased.
\<close>

theorem recovery_settles:
  assumes "RecoverChannelTasks now ch d = (Some ts, d')"
  shows "list_all (\<lambda>r. ct_ChannelID r = ch \<longrightarrow> ct_Status r \<notin> {ChannelTaskRunning, ChannelTaskWaitingInput, ChannelTaskSteering}) (channel_tasks d') \<and>
    mset ts = mset (filter (\<lambda>r. ct_ChannelID r = ch \<and> ct_Status r = ChannelTaskQueued) (channel_tasks d)) \<and>
    sorted (map ct_CreatedAt ts) \<and>
    list_all2 (\<lambda>r r'. r' = r \<or> (ct_ID r' = ct_ID r \<and> ct_Prompt r' = [] \<and> ct_Status r' \<in> {ChannelTaskInterrupted, ChannelTaskSteerUnknown}))
      (channel_tasks d) (channel_tasks d')"
proof (intro conjI)
  note d' = RecoverChannelTasks_result(2) [OF assms]
  show "list_all (\<lambda>r. ct_ChannelID r = ch \<longrightarrow> ct_Status r \<notin> {ChannelTaskRunning, ChannelTaskWaitingInput, ChannelTaskSteering}) (channel_tasks d')"
  proof -
    have "ct_ChannelID r' = ch \<longrightarrow> ct_Status r' \<notin> {ChannelTaskRunning, ChannelTaskWaitingInput, ChannelTaskSteering}"
      if "r' = recover_running now ch (recover_steering now ch r)" for r r'
      by (simp add: that recover_running_def recover_steering_def)
    then show ?thesis unfolding d' list_all_iff by simp
  qed
  show "mset ts = mset (filter (\<lambda>r. ct_ChannelID r = ch \<and> ct_Status r = ChannelTaskQueued) (channel_tasks d))"
    "sorted (map ct_CreatedAt ts)"
    using recovered_queue [OF assms] by simp_all
  show "list_all2 (\<lambda>r r'. r' = r \<or> (ct_ID r' = ct_ID r \<and> ct_Prompt r' = [] \<and> ct_Status r' \<in> {ChannelTaskInterrupted, ChannelTaskSteerUnknown}))
      (channel_tasks d) (channel_tasks d')"
    by (auto simp: d' list_all2_map2 recover_running_def recover_steering_def intro!: list.rel_refl_strong)
qed

definition demo_rows :: channel_db where
  "demo_rows = demo_cdb\<lparr>channel_tasks :=
     [qt_task (newRemoteTask 9 ''t3'' [] ''ch'' (demo_msg ''u1'' []) ''later'' ChannelTaskQueued),
      qt_task (newRemoteTask 1 ''t1'' [] ''ch'' (demo_msg ''u1'' []) [] ChannelTaskRunning),
      qt_task (newRemoteTask 2 ''t2'' [] ''ch'' (demo_msg ''u2'' []) ''next'' ChannelTaskQueued)]\<rparr>"

theorem recovery_settles_witness:
  "map ct_ID (the (fst (RecoverChannelTasks 10 ''ch'' demo_rows))) = [''t2'', ''t3''] \<and>
   list_all (\<lambda>r. ct_ChannelID r = ''ch'' \<longrightarrow> ct_Status r \<notin> {ChannelTaskRunning, ChannelTaskWaitingInput, ChannelTaskSteering})
     (channel_tasks (snd (RecoverChannelTasks 10 ''ch'' demo_rows)))"
proof
  show "map ct_ID (the (fst (RecoverChannelTasks 10 ''ch'' demo_rows))) = [''t2'', ''t3'']" by code_simp
  have "\<not> Option.is_none (fst (RecoverChannelTasks 10 ''ch'' demo_rows))" by code_simp
  then obtain ts d' where r: "RecoverChannelTasks 10 ''ch'' demo_rows = (Some ts, d')"
    by (cases "RecoverChannelTasks 10 ''ch'' demo_rows") (auto simp: Option.is_none_def)
  from recovery_settles [OF r] show "list_all (\<lambda>r. ct_ChannelID r = ''ch'' \<longrightarrow> ct_Status r \<notin> {ChannelTaskRunning, ChannelTaskWaitingInput, ChannelTaskSteering})
     (channel_tasks (snd (RecoverChannelTasks 10 ''ch'' demo_rows)))" by (simp add: r)
qed

lemma start_queue_length: "length (st_queue (rt_control (startNextRemoteLocked now key rt) k)) \<le> length (st_queue (rt_control rt k))"
  by (auto simp: startNextRemoteLocked_def Let_def mark_started_def mark_sent_def set_state_def update_same
      split: list.splits prod.splits bool.splits)

text \<open>
  The queue limit: it is between 1 and 100 whatever the configuration says, a message to a full queue is
  refused without any change, and enqueueing never grows a queue beyond the limit.
\<close>

theorem queue_limit:
  "let limit = ChannelCodexMaxQueue (rt_config rt); key = ResolveConversationKey msg; n = int (length (st_queue (rt_control rt key)));
       r = enqueueRemoteTask now i fn cn msg prompt rt
   in 1 \<le> limit \<and> limit \<le> 100 \<and> (limit \<le> n \<longrightarrow> isl (fst r) \<and> snd r = rt) \<and>
      int (length (st_queue (rt_control (snd r) key))) \<le> max n limit"
proof -
  let ?key = "ResolveConversationKey msg" and ?q = "queued_item now i fn cn msg prompt rt"
  obtain ok rt' where c: "create_task now (qt_task ?q) rt = (ok, rt')" by fastforce
  let ?rt = "mark_admitted ?key i (set_state ?key ((rt_control rt ?key)\<lparr>st_queue := st_queue (rt_control rt ?key) @ [?q]\<rparr>) rt')"
  have "length (st_queue (rt_control (startNextRemoteLocked now ?key ?rt) ?key)) \<le> Suc (length (st_queue (rt_control rt ?key)))"
    using start_queue_length [of now ?key ?rt ?key] by (simp add: mark_admitted_def)
  moreover have "1 \<le> ChannelCodexMaxQueue cfg \<and> ChannelCodexMaxQueue cfg \<le> 100" for cfg
    by (simp add: ChannelCodexMaxQueue_def Let_def DefaultCodexMaxQueue_def)
  ultimately show ?thesis
    by (auto simp: enqueueRemoteTask_eq c create_same [OF c] Let_def split: bool.splits)
qed

theorem queue_limit_witness:
  "let rt = demo_active\<lparr>rt_config := (\<lambda>k. if k = ''max_queue'' then ''1'' else []), rt_control := (rt_control demo_active)(''c'' :=
        (rt_control demo_active ''c'')\<lparr>st_queue := [newRemoteTask 3 ''t2'' [] ''ch'' (demo_msg ''u2'' []) ''x'' ChannelTaskQueued]\<rparr>)\<rparr>
   in isl (fst (enqueueRemoteTask 4 ''t3'' [] [] (demo_msg ''u3'' []) ''y'' rt)) \<and>
      snd (enqueueRemoteTask 4 ''t3'' [] [] (demo_msg ''u3'' []) ''y'' rt) = rt"
proof -
  let ?rt = "demo_active\<lparr>rt_config := (\<lambda>k. if k = ''max_queue'' then ''1'' else []), rt_control := (rt_control demo_active)(''c'' :=
        (rt_control demo_active ''c'')\<lparr>st_queue := [newRemoteTask 3 ''t2'' [] ''ch'' (demo_msg ''u2'' []) ''x'' ChannelTaskQueued]\<rparr>)\<rparr>"
  have "ChannelCodexMaxQueue (rt_config ?rt) \<le> int (length (st_queue (rt_control ?rt (ResolveConversationKey (demo_msg ''u3'' [])))))" by code_simp
  then show ?thesis using queue_limit [of ?rt "demo_msg ''u3'' []" 4 "''t3''" "[]" "[]" "''y''"] unfolding Let_def by blast
qed

definition one_per_user :: "'a channel_db_scheme \<Rightarrow> bool" where
  "one_per_user d \<longleftrightarrow> distinct (map (\<lambda>f. (cf_TaskID f, cf_UserID f)) (channel_feedback d))"

lemma SubmitChannelFeedback_rows:
  assumes "SubmitChannelFeedback now newID f nonce d = (Some True, d')"
  shows "(map (\<lambda>q. (cf_TaskID q, cf_UserID q)) (channel_feedback d') = map (\<lambda>q. (cf_TaskID q, cf_UserID q)) (channel_feedback d) \<or>
      (\<exists>q. channel_feedback d' = channel_feedback d @ [q] \<and> (cf_TaskID q, cf_UserID q) \<notin> (\<lambda>q. (cf_TaskID q, cf_UserID q)) ` set (channel_feedback d))) \<and>
    list_ex (\<lambda>t. ct_ID t = cf_TaskID f \<and> ct_FeedbackNonce t = nonce \<and> ct_UserID t = cf_UserID f \<and>
      ct_Status t = ChannelTaskSucceeded \<and> ct_DeliveryStatus t = ''sent'') (channel_tasks d)"
proof -
  let ?el = "filter (\<lambda>t. ct_ID t = cf_TaskID f \<and> ct_FeedbackNonce t = nonce \<and> ct_UserID t = cf_UserID f \<and>
      ct_Status t = ChannelTaskSucceeded \<and> ct_DeliveryStatus t = ''sent'') (channel_tasks d)"
  have "?el \<noteq> []" using assms by (auto simp: SubmitChannelFeedback_def sql_exec_def Let_def split: if_splits prod.splits bool.splits)
  then obtain t ts where t: "?el = t # ts" by (cases ?el) auto
  then have "t \<in> set ?el" by simp
  then have tt: "t \<in> set (channel_tasks d)" "ct_ID t = cf_TaskID f" "ct_FeedbackNonce t = nonce" "ct_UserID t = cf_UserID f"
    "ct_Status t = ChannelTaskSucceeded" "ct_DeliveryStatus t = ''sent''" by auto
  have m: "map (\<lambda>q. (cf_TaskID q, cf_UserID q)) (map (\<lambda>q. if P q then g q else q) qs) = map (\<lambda>q. (cf_TaskID q, cf_UserID q)) qs"
    if "\<And>q. cf_TaskID (g q) = cf_TaskID q" "\<And>q. cf_UserID (g q) = cf_UserID q" for P g and qs :: "ChannelFeedback list"
    using that by simp
  have "map (\<lambda>q. (cf_TaskID q, cf_UserID q)) (channel_feedback d') = map (\<lambda>q. (cf_TaskID q, cf_UserID q)) (channel_feedback d) \<or>
      (\<exists>q. channel_feedback d' = channel_feedback d @ [q] \<and> (cf_TaskID q, cf_UserID q) \<notin> (\<lambda>q. (cf_TaskID q, cf_UserID q)) ` set (channel_feedback d))"
  proof (cases "list_ex (\<lambda>q. cf_TaskID q = ct_ID t \<and> cf_UserID q = cf_UserID f) (channel_feedback d)")
    case True
    then show ?thesis using assms t
      by (simp add: SubmitChannelFeedback_def sql_exec_def Let_def m del: map_map split: if_splits) (auto simp: m simp del: map_map)
  next
    case False
    then have "(ct_ID t, cf_UserID f) \<notin> (\<lambda>q. (cf_TaskID q, cf_UserID q)) ` set (channel_feedback d)" by (auto simp: list_ex_iff)
    then show ?thesis using assms t False
      by (simp add: SubmitChannelFeedback_def sql_exec_def Let_def split: if_splits) auto
  qed
  then show ?thesis using tt by (auto simp: list_ex_iff)
qed

text \<open>
  Feedback comes from the requester: it is recorded only for a task of that user that succeeded and was
  delivered, with the task's nonce, and there is at most one row per task and user.
\<close>

theorem feedback_from_requester:
  assumes "handleChannelFeedback now newID msg action rt = (FeedbackRecorded, rt')"
  shows "\<exists>d d'. rt_store rt = Some d \<and> rt_store rt' = Some d' \<and> (one_per_user d \<longrightarrow> one_per_user d') \<and>
    list_ex (\<lambda>t. ct_ID t = trim_space (fa_TaskID action) \<and> ct_FeedbackNonce t = trim_space (fa_Nonce action) \<and>
      ct_UserID t = trim_space (ms_UserID msg) \<and> ct_Status t = ChannelTaskSucceeded \<and> ct_DeliveryStatus t = ''sent'') (channel_tasks d)"
proof -
  let ?f = "\<lparr>cf_ID = newID, cf_TaskID = trim_space (fa_TaskID action), cf_ChannelID = rt_channelID rt, cf_ConversationID = [],
      cf_UserID = trim_space (ms_UserID msg), cf_Semantic = to_lower (trim_space (fa_Semantic action)), cf_Reason = [], cf_Comment = [],
      cf_CreatedAt = 0, cf_UpdatedAt = 0\<rparr>"
  obtain d d' where d: "rt_store rt = Some d" "rt_store rt' = Some d'"
    and s: "SubmitChannelFeedback now newID ?f (trim_space (fa_Nonce action)) d = (Some True, d')"
    using assms by (auto simp: handleChannelFeedback_def with_store_def Let_def split: if_splits option.splits prod.splits bool.splits)
  from SubmitChannelFeedback_rows [OF s] have "one_per_user d \<longrightarrow> one_per_user d'" by (auto simp: one_per_user_def)
  then show ?thesis using d SubmitChannelFeedback_rows [OF s] by simp
qed

definition demo_done :: "unit runtime" where
  "demo_done = demo_boot\<lparr>rt_store := Some (demo_cdb\<lparr>channel_tasks :=
     [(qt_task (newRemoteTask 1 ''t1'' ''nonce'' ''ch'' (demo_msg ''u1'' []) [] ChannelTaskSucceeded))\<lparr>ct_DeliveryStatus := ''sent''\<rparr>]\<rparr>)\<rparr>"

definition demo_vote :: ChannelFeedbackAction where
  "demo_vote = \<lparr>fa_TaskID = ''t1'', fa_Nonce = ''nonce'', fa_Semantic = ''positive''\<rparr>"

theorem feedback_from_requester_witness:
  "fst (handleChannelFeedback 5 ''f'' (demo_msg ''u1'' []) demo_vote demo_done) = FeedbackRecorded \<and>
   fst (handleChannelFeedback 5 ''f'' (demo_msg ''u2'' []) demo_vote demo_done) \<noteq> FeedbackRecorded"
proof
  show "fst (handleChannelFeedback 5 ''f'' (demo_msg ''u1'' []) demo_vote demo_done) = FeedbackRecorded" by code_simp
  have u: "trim_space (ms_UserID (demo_msg ''u2'' [])) = ''u2''" by code_simp
  show "fst (handleChannelFeedback 5 ''f'' (demo_msg ''u2'' []) demo_vote demo_done) \<noteq> FeedbackRecorded"
  proof
    assume "fst (handleChannelFeedback 5 ''f'' (demo_msg ''u2'' []) demo_vote demo_done) = FeedbackRecorded"
    then obtain rt' where "handleChannelFeedback 5 ''f'' (demo_msg ''u2'' []) demo_vote demo_done = (FeedbackRecorded, rt')" by (metis prod.collapse)
    from feedback_from_requester [OF this] obtain d where "rt_store demo_done = Some d" "\<exists>t\<in>set (channel_tasks d). ct_UserID t = ''u2''"
      unfolding u list_ex_iff by blast
    then show False by (auto simp: demo_done_def newRemoteTask_def demo_msg_def)
  qed
qed

text \<open>
  C16. Who may cancel or steer a queued message: only its sender or a chat manager, from a card only with the item's
  nonce, and only while it is still queued; a steer also needs the right to the active task it targets, an interactive
  agent and no other steer in flight. A refused request leaves every conversation as it was.
\<close>

theorem control_authorized:
  assumes "controlQueuedTask now manager msg action rt = (r, rt')"
  shows "case r of
      Inl _ \<Rightarrow> rt_control rt' = rt_control rt \<and> rt_sent rt' = rt_sent rt
    | Inr steer \<Rightarrow> (\<exists>q\<in>set (st_queue (rt_control rt (ResolveConversationKey msg))). qt_id q = ac_TaskID action \<and>
        ct_Status (qt_task q) = ChannelTaskQueued \<and> (ct_UserID (qt_task q) = ms_UserID msg \<or> manager) \<and>
        (ms_InteractionMessageID msg = [] \<or> ac_Nonce action \<noteq> [] \<and> ac_Nonce action = ct_ControlNonce (qt_task q)) \<and>
        (if steer then ac_Action action = ''steer'' \<and> \<not> st_steering (rt_control rt (ResolveConversationKey msg)) \<and>
           (\<exists>a. st_active (rt_control rt (ResolveConversationKey msg)) = Some a \<and> qt_id a = ct_TargetTaskID (qt_task q) \<and>
             (ct_ControllerID (qt_task a) = ms_UserID msg \<or> manager) \<and> qt_interactive a \<and> \<not> qt_retired a)
         else ac_Action action = ''cancel''))"
proof (cases "find (\<lambda>q. qt_id q = ac_TaskID action) (st_queue (rt_control rt (ResolveConversationKey msg)))")
  case None
  then show ?thesis using assms by (auto simp: controlQueuedTask_def)
next
  case (Some q)
  let ?k = "ResolveConversationKey msg"
  have q: "q \<in> set (st_queue (rt_control rt ?k))" "qt_id q = ac_TaskID action" using find_item [OF Some] by auto
  obtain okc rtc where uc: "updateRemoteTask now ((qt_task q)\<lparr>ct_Status := ChannelTaskCancelled, ct_FinishedAt := now, ct_Prompt := []\<rparr>) rt = (okc, rtc)" by fastforce
  show ?thesis
  proof (cases "st_active (rt_control rt ?k)")
    case None
    then show ?thesis using Some assms q uc update_same [OF uc]
      by (auto simp: controlQueuedTask_def Let_def split: if_splits bool.splits intro!: bexI [OF _ q(1)])
  next
    case act: (Some a)
    obtain oks rts where us: "updateRemoteTask now ((qt_task q)\<lparr>ct_TurnID := qt_ActiveTurnID a, ct_Status := ChannelTaskSteering\<rparr>) rt = (oks, rts)" by fastforce
    show ?thesis using Some assms q uc us update_same [OF uc] update_same [OF us] act
      by (auto simp: controlQueuedTask_def Let_def split: if_splits bool.splits intro!: bexI [OF _ q(1)])
  qed
qed

definition demo_cancel :: ChannelTaskAction where
  "demo_cancel = \<lparr>ac_Nonce = [], ac_TaskID = ''t2'', ac_Action = ''cancel''\<rparr>"

theorem control_authorized_witness:
  "fst (controlQueuedTask 5 False (demo_msg ''u2'' []) demo_cancel demo_busy) = Inr False \<and>
   rt_control (snd (controlQueuedTask 5 False (demo_msg ''u3'' []) demo_cancel demo_busy)) = rt_control demo_busy"
proof
  show "fst (controlQueuedTask 5 False (demo_msg ''u2'' []) demo_cancel demo_busy) = Inr False" by code_simp
  obtain r rt' where c: "controlQueuedTask 5 False (demo_msg ''u3'' []) demo_cancel demo_busy = (r, rt')" by fastforce
  have "isl (fst (controlQueuedTask 5 False (demo_msg ''u3'' []) demo_cancel demo_busy))" by code_simp
  then show "rt_control (snd (controlQueuedTask 5 False (demo_msg ''u3'' []) demo_cancel demo_busy)) = rt_control demo_busy"
    using control_authorized [OF c] c by (auto simp: isl_def)
qed

end
