(* ===== verification/Event_Store.thy ===== *)
theory Event_Store
  imports Tenancy
begin

text \<open>
  The durable side of the event relay: the data of core/event_relay.go, the tables of subscriptions, events,
  deliveries and attempts, and every statement of store/event_relay.go. A subscriber's deliveries are dispatched
  under a lease of 30 seconds that is held on the subscription and on the delivery.

  Time columns hold milliseconds since 1970. Configurations and envelopes are stored as JSON that reads back as the
  same value without the secret, which is not part of the JSON. Random identifiers are arguments. A transaction is
  one step: the writer of SQLite is a single connection, and on PostgreSQL the row locks of the statements
  serialise the operations on a subscription.
\<close>

section \<open>Data\<close>

record RelayEvent =
  ev_SchemaVersion :: string
  ev_ID :: string
  ev_Source :: string
  ev_Type :: string
  ev_SourceRef :: string
  ev_SourceEventID :: string
  ev_OccurredAt :: gotime
  ev_ReceivedAt :: gotime
  ev_Attributes :: "string \<rightharpoonup> string"
  ev_Data :: string

text \<open>The filters are listed in the order of one iteration over the map.\<close>

record EventSubscription =
  es_ID :: string
  es_OwnerTenantID :: string
  es_Key :: string
  es_Name :: string
  es_Source :: string
  es_SourceRefs :: "string list"
  es_EventTypes :: "string list"
  es_Filters :: "(string \<times> string list) list"
  es_CallbackURL :: string
  es_Paused :: bool
  es_CreatedAt :: gotime
  es_UpdatedAt :: gotime
  es_Deleted :: bool
  es_Secret :: string
  es_Pending :: int
  es_Dead :: int
  es_LastSuccessAt :: "gotime option"
  es_LastError :: string

definition Matches :: "EventSubscription \<Rightarrow> RelayEvent \<Rightarrow> bool" where
  "Matches s e =
     (if es_Deleted s \<or> es_Source s \<noteq> ev_Source e \<or> ev_SourceRef e \<notin> set (es_SourceRefs s) \<or>
         ev_Type e \<notin> set (es_EventTypes s) then False
      else list_all (\<lambda>(k, values).
             case ev_Attributes e k of None \<Rightarrow> False | Some value \<Rightarrow> value \<in> set values) (es_Filters s))"

record EventDeliveryAttempt =
  ea_ID :: string
  ea_DeliveryID :: string
  ea_StartedAt :: gotime
  ea_FinishedAt :: "gotime option"
  ea_HTTPStatus :: int
  ea_Error :: string

record EventDelivery =
  ed_ID :: string
  ed_SubscriptionID :: string
  ed_EventID :: string
  ed_Status :: string
  ed_Attempts :: int
  ed_NextAttemptAt :: gotime
  ed_FirstAttemptAt :: "gotime option"
  ed_CreatedAt :: gotime
  ed_UpdatedAt :: gotime
  ed_LastError :: string
  ed_Event :: "RelayEvent option"
  ed_History :: "EventDeliveryAttempt list"
  ed_LeaseToken :: string

section \<open>Tables\<close>

definition unix_epoch :: gotime where
  "unix_epoch = 62135596800 * second_ns"

definition UnixMilli :: "gotime \<Rightarrow> int" where
  "UnixMilli t = (t - unix_epoch) div 1000000"

definition time_UnixMilli :: "int \<Rightarrow> gotime" where
  "time_UnixMilli ms = unix_epoch + ms * 1000000"

text \<open>The flag columns hold 0 or 1.\<close>

record sub_row =
  sr_id :: string
  sr_owner :: string
  sr_key :: string
  sr_config :: EventSubscription
  sr_secret :: string
  sr_paused :: bool
  sr_deleted :: bool
  sr_created :: int
  sr_updated :: int
  sr_lease_token :: string
  sr_lease_until :: int

record event_row =
  vr_id :: string
  vr_dedupe :: string
  vr_source_ref :: string
  vr_envelope :: RelayEvent
  vr_created :: int

record delivery_row =
  dr_id :: string
  dr_sub :: string
  dr_event :: string
  dr_status :: string
  dr_attempts :: int
  dr_first :: int
  dr_next :: int
  dr_lease_token :: string
  dr_lease_until :: int
  dr_last_error :: string
  dr_created :: int
  dr_updated :: int

record attempt_row =
  at_id :: string
  at_delivery :: string
  at_started :: int
  at_finished :: int
  at_http :: int
  at_error :: string

record relay_db = tenancy_db +
  subs :: "sub_row list"
  events :: "event_row list"
  deliveries :: "delivery_row list"
  attempts :: "attempt_row list"

text \<open>
  An operation returns the error or the result it returns in the code. \<open>DbError\<close> is an error of the driver, \<open>NoRows\<close>
  is \<^verbatim>\<open>sql.ErrNoRows\<close>, and \<open>Refused\<close> carries the message of a \<^verbatim>\<open>fmt.Errorf\<close>.
\<close>

datatype relay_error = DbError | NoRows | Refused string

type_synonym 'r relay_result = "relay_error + 'r"

text \<open>The early return on an error inside a transaction.\<close>

definition tx_then ::
  "'x option \<times> 'd \<Rightarrow> ('x \<Rightarrow> 'd \<Rightarrow> 'r relay_result tx_end \<times> 'd) \<Rightarrow> 'r relay_result tx_end \<times> 'd" where
  "tx_then m k = (case m of (None, d) \<Rightarrow> (Rollback (Inl DbError), d) | (Some x, d) \<Rightarrow> k x d)"

definition scanEventSubscription :: "sub_row \<Rightarrow> EventSubscription" where
  "scanEventSubscription r =
     (sr_config r)\<lparr>es_ID := sr_id r, es_OwnerTenantID := sr_owner r, es_Key := sr_key r, es_Secret := sr_secret r,
        es_Paused := sr_paused r, es_Deleted := sr_deleted r, es_CreatedAt := time_UnixMilli (sr_created r),
        es_UpdatedAt := time_UnixMilli (sr_updated r)\<rparr>"

section \<open>Subscriptions\<close>

definition ListEventSubscriptions ::
  "string option \<Rightarrow> 'a relay_db_scheme \<Rightarrow> EventSubscription list option \<times> 'a relay_db_scheme" where
  "ListEventSubscriptions owner = sql_query (\<lambda>d. map scanEventSubscription
     (sort_key sr_created (sort_key (\<lambda>r. text_key d (sr_id r))
       (filter (\<lambda>r. \<not> sr_deleted r \<and> (case owner of None \<Rightarrow> True | Some t \<Rightarrow> sr_owner r = t)) (subs d)))))"

definition GetEventSubscription ::
  "string \<Rightarrow> 'a relay_db_scheme \<Rightarrow> EventSubscription option option \<times> 'a relay_db_scheme" where
  "GetEventSubscription i = sql_query (\<lambda>d. map_option scanEventSubscription (table_find sr_id i (subs d)))"

text \<open>
  The insert of \<open>SaveEventSubscription\<close> with its \<^verbatim>\<open>ON CONFLICT\<close> and \<^verbatim>\<open>RETURNING\<close> clauses: the outer \<open>None\<close> is a violated
  constraint, the inner one a result without rows.
\<close>

definition upsert_sub ::
  "sub_row \<Rightarrow> 'a relay_db_scheme \<Rightarrow> ((string \<times> string \<times> int) option \<times> 'a relay_db_scheme) option" where
  "upsert_sub r d =
     (if list_ex (\<lambda>q. sr_id q = sr_id r) (subs d) then None
      else case find (\<lambda>q. sr_owner q = sr_owner r \<and> sr_key q = sr_key r) (subs d) of
        None \<Rightarrow> Some (Some (sr_id r, sr_secret r, sr_created r), d\<lparr>subs := subs d @ [r]\<rparr>)
      | Some q \<Rightarrow>
          if sr_deleted q then Some (None, d)
          else Some (Some (sr_id q, sr_secret q, sr_created q),
                 d\<lparr>subs := map (\<lambda>x. if sr_owner x = sr_owner r \<and> sr_key x = sr_key r
                     then x\<lparr>sr_config := sr_config r, sr_paused := sr_paused r, sr_updated := sr_updated r\<rparr>
                     else x) (subs d)\<rparr>))"

definition key_taken :: string where
  "key_taken = ''subscription key belongs to a deleted subscription; use a new key''"

definition identity_changed :: string where
  "identity_changed = ''subscription identity cannot be changed''"

text \<open>The statement and what follows it; \<open>sub\<close> is the caller's struct, which the code updates in place.\<close>

definition save_sub ::
  "string \<Rightarrow> int \<Rightarrow> EventSubscription \<Rightarrow> 'a relay_db_scheme \<Rightarrow>
   (bool \<times> EventSubscription) relay_result \<times> 'a relay_db_scheme" where
  "save_sub proposed now sub d =
     (case sql_returning (upsert_sub
         \<lparr>sr_id = proposed, sr_owner = es_OwnerTenantID sub, sr_key = es_Key sub, sr_config = sub\<lparr>es_Secret := []\<rparr>,
          sr_secret = es_Secret sub, sr_paused = es_Paused sub, sr_deleted = False, sr_created = now,
          sr_updated = now, sr_lease_token = [], sr_lease_until = 0\<rparr>) d of
        (None, d') \<Rightarrow> (Inl DbError, d')
      | (Some None, d') \<Rightarrow> (Inl (Refused key_taken), d')
      | (Some (Some (i, secret, created)), d') \<Rightarrow>
          (Inr (i = proposed, sub\<lparr>es_ID := i, es_Secret := secret, es_CreatedAt := time_UnixMilli created,
                                  es_UpdatedAt := time_UnixMilli now\<rparr>), d'))"

definition SaveEventSubscription ::
  "string \<Rightarrow> gotime \<Rightarrow> EventSubscription \<Rightarrow> 'a relay_db_scheme \<Rightarrow>
   (bool \<times> EventSubscription) relay_result \<times> 'a relay_db_scheme" where
  "SaveEventSubscription uuid now0 sub d =
     (let proposed = ''sub_'' @ uuid; now = UnixMilli now0
      in if es_ID sub \<noteq> [] then
           (case GetEventSubscription (es_ID sub) d of
              (None, d') \<Rightarrow> (Inl DbError, d')
            | (Some None, d') \<Rightarrow> (Inl (Refused identity_changed), d')
            | (Some (Some existing), d') \<Rightarrow>
                if es_Deleted existing \<or> es_OwnerTenantID existing \<noteq> es_OwnerTenantID sub \<or>
                   es_Key existing \<noteq> es_Key sub
                then (Inl (Refused identity_changed), d') else save_sub proposed now sub d')
         else save_sub proposed now sub d)"

definition open_status :: "string \<Rightarrow> bool" where
  "open_status s \<longleftrightarrow> s \<in> set [''pending'', ''retry'', ''delivering'', ''blocked'']"

definition DeleteEventSubscription :: "gotime \<Rightarrow> string \<Rightarrow> 'a relay_db_scheme \<Rightarrow> bool \<times> 'a relay_db_scheme" where
  "DeleteEventSubscription now0 i = (let now = UnixMilli now0 in sql_tx
     [\<lambda>d. Some (d\<lparr>subs := map (\<lambda>r. if sr_id r = i then r\<lparr>sr_deleted := True, sr_secret := [], sr_updated := now,
            sr_lease_token := [], sr_lease_until := 0\<rparr> else r) (subs d)\<rparr>),
      \<lambda>d. Some (d\<lparr>deliveries := map (\<lambda>r. if dr_sub r = i \<and> open_status (dr_status r)
            then r\<lparr>dr_status := ''cancelled'', dr_lease_token := [], dr_lease_until := 0, dr_updated := now\<rparr>
            else r) (deliveries d)\<rparr>)])"

definition count_rows :: "('r \<Rightarrow> bool) \<Rightarrow> 'r list \<Rightarrow> nat" where
  "count_rows P rows = length (filter P rows)"

definition RotateEventSecret ::
  "gotime \<Rightarrow> string \<Rightarrow> string \<Rightarrow> 'a relay_db_scheme \<Rightarrow> unit relay_result \<times> 'a relay_db_scheme" where
  "RotateEventSecret now i secret d =
     (let P = \<lambda>r. sr_id r = i \<and> \<not> sr_deleted r
      in case sql_returning (\<lambda>d. Some (count_rows P (subs d),
             d\<lparr>subs := map (\<lambda>r. if P r then r\<lparr>sr_secret := secret, sr_updated := UnixMilli now\<rparr> else r) (subs d)\<rparr>)) d of
           (None, d') \<Rightarrow> (Inl DbError, d')
         | (Some n, d') \<Rightarrow> (if n \<noteq> 1 then Inl (Refused ''subscription is unavailable'') else Inr (), d'))"

section \<open>Which events a tenant may receive\<close>

text \<open>\<^verbatim>\<open>strings.Cut\<close> at a colon.\<close>

definition cut_colon :: "string \<Rightarrow> string \<times> string \<times> bool" where
  "cut_colon s =
     (let kind = takeWhile (\<lambda>c. c \<noteq> CHR '':'') s
      in if length kind < length s then (kind, drop (Suc (length kind)) s, True) else (s, [], False))"

text \<open>The table of a kind of source, as the owner of a row of that id.\<close>

definition source_table :: "string \<Rightarrow> (string \<Rightarrow> 'a relay_db_scheme \<Rightarrow> string option) option" where
  "source_table kind =
     (if kind = ''channel'' then Some (\<lambda>i d. map_option c_OwnerTenantID (table_find c_ID i (channels d)))
      else if kind = ''agent'' then Some (\<lambda>i d. map_option a_OwnerTenantID (table_find a_ID i (agent_instances d)))
      else if kind = ''trigger'' then Some (\<lambda>i d. map_option tg_OwnerTenantID (table_find tg_ID i (triggers d)))
      else None)"

definition eventSourceOwner :: "string \<Rightarrow> 'a relay_db_scheme \<Rightarrow> string relay_result \<times> 'a relay_db_scheme" where
  "eventSourceOwner ref d =
     (if ref = ''system'' then (Inr [], d)
      else case cut_colon ref of (kind, i, ok) \<Rightarrow>
        if \<not> ok \<or> i = [] then (Inl (Refused ''invalid event source''), d)
        else case source_table kind of
          None \<Rightarrow> (Inl (Refused ''invalid event source''), d)
        | Some owner \<Rightarrow>
            (case sql_query (owner i) d of
               (None, d') \<Rightarrow> (Inl DbError, d')
             | (Some None, d') \<Rightarrow> (Inl NoRows, d')
             | (Some (Some owner_id), d') \<Rightarrow> (Inr owner_id, d')))"

definition eventSourceAllowed ::
  "string \<Rightarrow> string \<Rightarrow> 'a relay_db_scheme \<Rightarrow> bool relay_result \<times> 'a relay_db_scheme" where
  "eventSourceAllowed tenant ref d =
     (case eventSourceOwner ref d of
        (Inl e, d1) \<Rightarrow> (if e = NoRows then Inr False else Inl e, d1)
      | (Inr owner, d1) \<Rightarrow>
          if tenant = [] then (Inr True, d1)
          else if ref = ''system'' then (Inr False, d1)
          else (case sql_query (\<lambda>d. map_option tn_Status (table_find tn_ID tenant (tenants d))) d1 of
             (None, d2) \<Rightarrow> (Inl DbError, d2)
           | (Some None, d2) \<Rightarrow> (Inr False, d2)
           | (Some (Some status), d2) \<Rightarrow>
               if status \<noteq> ''active'' then (Inr False, d2)
               else if owner = tenant then (Inr True, d2)
               else (case sql_query (\<lambda>d. map_option rg_Level (find (\<lambda>g. rg_TenantID g = tenant \<and>
                         rg_ResourceType g = ''event_source'' \<and> rg_ResourceID g = ref) (resource_grants d))) d2 of
                  (None, d3) \<Rightarrow> (Inl DbError, d3)
                | (Some None, d3) \<Rightarrow> (Inr False, d3)
                | (Some (Some level), d3) \<Rightarrow> (Inr (GrantSatisfies level ''use''), d3))))"

definition EventSourceAllowed ::
  "string \<Rightarrow> string \<Rightarrow> 'a relay_db_scheme \<Rightarrow> bool relay_result \<times> 'a relay_db_scheme" where
  "EventSourceAllowed = eventSourceAllowed"


section \<open>Ingestion\<close>

text \<open>
  The key events are deduplicated by. \<open>json_strings\<close> is \<^verbatim>\<open>json.Marshal\<close> of a slice of strings: quotes, backslashes,
  control characters, the HTML characters and U+2028 and U+2029 are escaped, and ill-formed bytes replaced.
\<close>

definition hex_digit :: "nat \<Rightarrow> char" where
  "hex_digit n = (if n < 10 then char_of (48 + n) else char_of (87 + n))"

definition json_rune :: "string \<Rightarrow> string" where
  "json_rune r =
     (let esc = CHR 0x5C in
      if well_formed_width r = 0 then esc # ''ufffd''
      else if map byte_of r = [0xE2, 0x80, 0xA8] then esc # ''u2028''
      else if map byte_of r = [0xE2, 0x80, 0xA9] then esc # ''u2029''
      else case r of
        [c] \<Rightarrow>
          (let b = byte_of c in
           if b = 0x22 \<or> b = 0x5C then [esc, c]
           else if b = 8 then [esc, CHR ''b''] else if b = 12 then [esc, CHR ''f'']
           else if b = 10 then [esc, CHR ''n''] else if b = 13 then [esc, CHR ''r'']
           else if b = 9 then [esc, CHR ''t'']
           else if b < 0x20 \<or> b \<in> set [0x3C, 0x3E, 0x26] then esc # ''u00'' @ [hex_digit (b div 16), hex_digit (b mod 16)]
           else [c])
      | _ \<Rightarrow> r)"

definition json_string :: "string \<Rightarrow> string" where
  "json_string s = [CHR 0x22] @ concat (map json_rune (rune_split s)) @ [CHR 0x22]"

fun json_elements :: "string list \<Rightarrow> string" where
  "json_elements [] = []"
| "json_elements [x] = json_string x"
| "json_elements (x # y # xs) = json_string x @ '','' @ json_elements (y # xs)"

definition json_strings :: "string list \<Rightarrow> string" where
  "json_strings xs = ''['' @ json_elements xs @ '']''"

definition dedupe_key :: "RelayEvent \<Rightarrow> string" where
  "dedupe_key e =
     (if ev_Source e \<noteq> ''agentmux'' \<and> ev_SourceEventID e \<noteq> []
      then json_strings [ev_Source e, null_string (ev_Attributes e ''app_id''), ev_Type e, ev_SourceEventID e]
      else ev_ID e)"

text \<open>The loop that keeps the matching subscriptions whose owner may receive the event.\<close>

fun allowed_subs ::
  "string \<Rightarrow> EventSubscription list \<Rightarrow> 'a relay_db_scheme \<Rightarrow> EventSubscription list relay_result \<times> 'a relay_db_scheme" where
  "allowed_subs ref [] d = (Inr [], d)"
| "allowed_subs ref (sub # rest) d =
     (case eventSourceAllowed (es_OwnerTenantID sub) ref d of
        (Inl e, d') \<Rightarrow> (Inl e, d')
      | (Inr ok, d') \<Rightarrow>
          (case allowed_subs ref rest d' of
             (Inl e, d'') \<Rightarrow> (Inl e, d'')
           | (Inr xs, d'') \<Rightarrow> (Inr (if ok then sub # xs else xs), d'')))"

text \<open>The row of a new delivery; its id and its pair of subscription and event are unique.\<close>

definition new_delivery :: "string \<Rightarrow> string \<Rightarrow> string \<Rightarrow> int \<Rightarrow> delivery_row" where
  "new_delivery i sub event now =
     \<lparr>dr_id = i, dr_sub = sub, dr_event = event, dr_status = ''pending'', dr_attempts = 0, dr_first = 0, dr_next = now,
      dr_lease_token = [], dr_lease_until = 0, dr_last_error = [], dr_created = now, dr_updated = now\<rparr>"

definition insert_delivery :: "delivery_row \<Rightarrow> 'a relay_db_scheme \<Rightarrow> 'a relay_db_scheme option" where
  "insert_delivery r d =
     (if list_ex (\<lambda>q. dr_id q = dr_id r \<or> dr_sub q = dr_sub r \<and> dr_event q = dr_event r) (deliveries d) then None
      else Some (d\<lparr>deliveries := deliveries d @ [r]\<rparr>))"

fun insert_deliveries ::
  "string \<Rightarrow> int \<Rightarrow> (nat \<Rightarrow> string) \<Rightarrow> nat \<Rightarrow> EventSubscription list \<Rightarrow> 'a relay_db_scheme \<Rightarrow>
   unit relay_result tx_end \<times> 'a relay_db_scheme" where
  "insert_deliveries event now uuid k [] d = (Commit (Inr ()), d)"
| "insert_deliveries event now uuid k (sub # rest) d =
     (case sql_exec (insert_delivery (new_delivery (''del_'' @ uuid k) (es_ID sub) event now)) d of
        (False, d') \<Rightarrow> (Rollback (Inl DbError), d')
      | (True, d') \<Rightarrow> insert_deliveries event now uuid (Suc k) rest d')"

text \<open>\<^verbatim>\<open>ON CONFLICT DO NOTHING\<close>: the number of inserted rows.\<close>

definition insert_event :: "event_row \<Rightarrow> 'a relay_db_scheme \<Rightarrow> (nat \<times> 'a relay_db_scheme) option" where
  "insert_event r d =
     (if list_ex (\<lambda>q. vr_id q = vr_id r \<or> vr_dedupe q = vr_dedupe r) (events d) then Some (0, d)
      else Some (1, d\<lparr>events := events d @ [r]\<rparr>))"

definition wanted :: "string \<Rightarrow> RelayEvent \<Rightarrow> EventSubscription \<Rightarrow> bool" where
  "wanted target e sub \<longleftrightarrow> (target = [] \<and> Matches sub e) \<or> (target \<noteq> [] \<and> es_ID sub = target)"

definition target_gone :: string where
  "target_gone = ''subscription no longer available or authorized''"

definition ingest_body ::
  "RelayEvent \<Rightarrow> string \<Rightarrow> int \<Rightarrow> (nat \<Rightarrow> string) \<Rightarrow> 'a relay_db_scheme \<Rightarrow> unit relay_result tx_end \<times> 'a relay_db_scheme" where
  "ingest_body event target now uuid d =
     tx_then (sql_query (\<lambda>d. map scanEventSubscription (filter (\<lambda>r. \<not> sr_deleted r) (subs d))) d) (\<lambda>live d1.
       case allowed_subs (ev_SourceRef event) (filter (wanted target event) live) d1 of
         (Inl e, d2) \<Rightarrow> (Rollback (Inl e), d2)
       | (Inr allowed, d2) \<Rightarrow>
           if allowed = [] then
             (if target \<noteq> [] then (Rollback (Inl (Refused target_gone)), d2) else (Commit (Inr ()), d2))
           else tx_then (sql_returning (insert_event \<lparr>vr_id = ev_ID event, vr_dedupe = dedupe_key event,
                   vr_source_ref = ev_SourceRef event, vr_envelope = event, vr_created = now\<rparr>) d2) (\<lambda>n d3.
             if n = 0 then (Commit (Inr ()), d3)
             else insert_deliveries (ev_ID event) now uuid 0 allowed d3))"

definition IngestRelayEvent ::
  "gotime \<Rightarrow> (nat \<Rightarrow> string) \<Rightarrow> RelayEvent \<Rightarrow> string \<Rightarrow> 'a relay_db_scheme \<Rightarrow> unit relay_result \<times> 'a relay_db_scheme" where
  "IngestRelayEvent now uuid event target = in_tx (Inl DbError) (ingest_body event target (UnixMilli now) uuid)"

section \<open>Deliveries\<close>

definition scanEventDelivery :: "delivery_row \<Rightarrow> event_row \<Rightarrow> EventDelivery" where
  "scanEventDelivery r e =
     \<lparr>ed_ID = dr_id r, ed_SubscriptionID = dr_sub r, ed_EventID = dr_event r, ed_Status = dr_status r,
      ed_Attempts = dr_attempts r, ed_NextAttemptAt = time_UnixMilli (dr_next r),
      ed_FirstAttemptAt = (if dr_first r \<noteq> 0 then Some (time_UnixMilli (dr_first r)) else None),
      ed_CreatedAt = time_UnixMilli (dr_created r), ed_UpdatedAt = time_UnixMilli (dr_updated r),
      ed_LastError = dr_last_error r, ed_Event = Some (vr_envelope e), ed_History = [],
      ed_LeaseToken = dr_lease_token r\<rparr>"

text \<open>The join of a delivery with its event.\<close>

definition joined :: "'a relay_db_scheme \<Rightarrow> delivery_row \<Rightarrow> EventDelivery option" where
  "joined d r = map_option (scanEventDelivery r) (table_find vr_id (dr_event r) (events d))"

definition scan_attempt :: "attempt_row \<Rightarrow> EventDeliveryAttempt" where
  "scan_attempt a =
     \<lparr>ea_ID = at_id a, ea_DeliveryID = at_delivery a, ea_StartedAt = time_UnixMilli (at_started a),
      ea_FinishedAt = (if at_finished a \<noteq> 0 then Some (time_UnixMilli (at_finished a)) else None),
      ea_HTTPStatus = at_http a, ea_Error = at_error a\<rparr>"

text \<open>Sorting in descending order of two keys, as \<^verbatim>\<open>ORDER BY k DESC, id DESC\<close>.\<close>

definition order_desc :: "('r \<Rightarrow> int) \<Rightarrow> ('r \<Rightarrow> string) \<Rightarrow> 'r list \<Rightarrow> 'r list" where
  "order_desc k i rows = rev (sort_key k (sort_key i rows))"

definition GetEventDelivery ::
  "string \<Rightarrow> 'a relay_db_scheme \<Rightarrow> EventDelivery option option \<times> 'a relay_db_scheme" where
  "GetEventDelivery i d =
     (case sql_query (\<lambda>d. Option.bind (table_find dr_id i (deliveries d)) (joined d)) d of
        (None, d') \<Rightarrow> (None, d')
      | (Some None, d') \<Rightarrow> (Some None, d')
      | (Some (Some v), d') \<Rightarrow>
          (case sql_query (\<lambda>d. take 200 (order_desc at_started (\<lambda>a. text_key d (at_id a))
                 (filter (\<lambda>a. at_delivery a = i) (attempts d)))) d' of
             (None, d'') \<Rightarrow> (None, d'')
           | (Some rows, d'') \<Rightarrow> (Some (Some (v\<lparr>ed_History := map scan_attempt rows\<rparr>)), d'')))"

definition ListEventDeliveries ::
  "string option \<Rightarrow> string \<Rightarrow> string \<Rightarrow> nat \<Rightarrow> nat \<Rightarrow> 'a relay_db_scheme \<Rightarrow> EventDelivery list option \<times> 'a relay_db_scheme" where
  "ListEventDeliveries owner subID status limit offset = sql_query (\<lambda>d.
     List.map_filter (joined d) (take limit (drop offset (order_desc dr_created (\<lambda>r. text_key d (dr_id r))
       (filter (\<lambda>r. joined d r \<noteq> None \<and>
          (case table_find sr_id (dr_sub r) (subs d) of None \<Rightarrow> False
           | Some s \<Rightarrow> (case owner of None \<Rightarrow> True | Some t \<Rightarrow> sr_owner s = t)) \<and>
          (subID \<noteq> [] \<longrightarrow> dr_sub r = subID) \<and> (status \<noteq> [] \<longrightarrow> dr_status r = status)) (deliveries d))))))"

text \<open>The order in which a subscription and then one of its deliveries are chosen, as \<^verbatim>\<open>LIMIT 1\<close> of a sorted query.\<close>

definition ready :: "int \<Rightarrow> delivery_row \<Rightarrow> bool" where
  "ready ms r \<longleftrightarrow> open_status (dr_status r) \<and> dr_next r \<le> ms \<and> dr_lease_until r \<le> ms"

definition first_row :: "'r list \<Rightarrow> 'r option" where
  "first_row rows = (case rows of [] \<Rightarrow> None | r # _ \<Rightarrow> Some r)"

definition claimable_sub :: "int \<Rightarrow> 'a relay_db_scheme \<Rightarrow> string option" where
  "claimable_sub ms d =
     map_option sr_id (first_row (sort_key sr_updated (sort_key (\<lambda>s. text_key d (sr_id s))
       (filter (\<lambda>s. \<not> sr_deleted s \<and> \<not> sr_paused s \<and> sr_lease_until s \<le> ms \<and>
          list_ex (\<lambda>r. dr_sub r = sr_id s \<and> ready ms r) (deliveries d)) (subs d)))))"

definition claimable_delivery :: "string \<Rightarrow> int \<Rightarrow> 'a relay_db_scheme \<Rightarrow> EventDelivery option" where
  "claimable_delivery subID ms d =
     Option.bind (first_row (sort_key dr_next (sort_key dr_created (sort_key (\<lambda>r. text_key d (dr_id r))
       (filter (\<lambda>r. dr_sub r = subID \<and> ready ms r \<and> joined d r \<noteq> None) (deliveries d)))))) (joined d)"

text \<open>\<^verbatim>\<open>UPDATE ... SET ... WHERE\<close> on the two tables, with the number of affected rows.\<close>

definition update_subs :: "(sub_row \<Rightarrow> bool) \<Rightarrow> (sub_row \<Rightarrow> sub_row) \<Rightarrow> 'a relay_db_scheme \<Rightarrow> nat option \<times> 'a relay_db_scheme" where
  "update_subs P f = sql_returning (\<lambda>d.
     Some (count_rows P (subs d), d\<lparr>subs := map (\<lambda>r. if P r then f r else r) (subs d)\<rparr>))"

definition update_deliveries ::
  "(delivery_row \<Rightarrow> bool) \<Rightarrow> (delivery_row \<Rightarrow> delivery_row) \<Rightarrow> 'a relay_db_scheme \<Rightarrow> nat option \<times> 'a relay_db_scheme" where
  "update_deliveries P f = sql_returning (\<lambda>d.
     Some (count_rows P (deliveries d), d\<lparr>deliveries := map (\<lambda>r. if P r then f r else r) (deliveries d)\<rparr>))"

definition lease_ms :: int where "lease_ms = 30000"

definition claim_body ::
  "string \<Rightarrow> int \<Rightarrow> 'a relay_db_scheme \<Rightarrow> EventDelivery option relay_result tx_end \<times> 'a relay_db_scheme" where
  "claim_body token ms d =
     tx_then (sql_query (claimable_sub ms) d) (\<lambda>subID d1. case subID of
         None \<Rightarrow> (Rollback (Inr None), d1)
       | Some i \<Rightarrow>
           tx_then (sql_query (claimable_delivery i ms) d1) (\<lambda>found d2. case found of
               None \<Rightarrow> (Rollback (Inl NoRows), d2)
             | Some v \<Rightarrow>
                 tx_then (update_subs (\<lambda>s. sr_id s = i)
                     (\<lambda>s. s\<lparr>sr_lease_token := token, sr_lease_until := ms + lease_ms, sr_updated := ms\<rparr>) d2) (\<lambda>_ d3.
                 tx_then (update_deliveries (\<lambda>r. dr_id r = ed_ID v)
                     (\<lambda>r. r\<lparr>dr_status := ''delivering'', dr_lease_token := token, dr_lease_until := ms + lease_ms\<rparr>) d3)
                   (\<lambda>_ d4. (Commit (Inr (Some (v\<lparr>ed_LeaseToken := token\<rparr>))), d4)))))"

definition ClaimEventDelivery ::
  "string \<Rightarrow> gotime \<Rightarrow> 'a relay_db_scheme \<Rightarrow> EventDelivery option relay_result \<times> 'a relay_db_scheme" where
  "ClaimEventDelivery token now = in_tx (Inl DbError) (claim_body token (UnixMilli now))"

text \<open>The rows a holder of a lease may still write.\<close>

definition held :: "EventDelivery \<Rightarrow> delivery_row \<Rightarrow> bool" where
  "held v r \<longleftrightarrow> dr_id r = ed_ID v \<and> dr_lease_token r = ed_LeaseToken v \<and> dr_status r = ''delivering''"

definition lease_lost :: string where "lease_lost = ''delivery lease lost''"

definition begin_body ::
  "string \<Rightarrow> EventDelivery \<Rightarrow> int \<Rightarrow> 'a relay_db_scheme \<Rightarrow> string relay_result tx_end \<times> 'a relay_db_scheme" where
  "begin_body uuid v ms d =
     tx_then (update_deliveries (held v)
         (\<lambda>r. r\<lparr>dr_attempts := dr_attempts r + 1, dr_first := (if dr_first r = 0 then ms else dr_first r), dr_updated := ms\<rparr>) d)
       (\<lambda>n d1.
         if n \<noteq> 1 then (Rollback (Inl (Refused lease_lost)), d1)
         else tx_then (sql_returning (\<lambda>d. if list_ex (\<lambda>a. at_id a = ''try_'' @ uuid) (attempts d) then None
               else Some ((), d\<lparr>attempts := attempts d @ [\<lparr>at_id = ''try_'' @ uuid, at_delivery = ed_ID v, at_started = ms,
                      at_finished = 0, at_http = 0, at_error = []\<rparr>]\<rparr>)) d1)
             (\<lambda>_ d2. (Commit (Inr (''try_'' @ uuid)), d2)))"

text \<open>The identifier of the attempt and the caller's struct, which counts the attempt too.\<close>

definition BeginEventAttempt ::
  "string \<Rightarrow> EventDelivery \<Rightarrow> gotime \<Rightarrow> 'a relay_db_scheme \<Rightarrow> (string \<times> EventDelivery) relay_result \<times> 'a relay_db_scheme" where
  "BeginEventAttempt uuid v now d =
     (case in_tx (Inl DbError) (begin_body uuid v (UnixMilli now)) d of
        (Inl e, d') \<Rightarrow> (Inl e, d')
      | (Inr i, d') \<Rightarrow> (Inr (i, v\<lparr>ed_Attempts := ed_Attempts v + 1,
            ed_FirstAttemptAt := (case ed_FirstAttemptAt v of None \<Rightarrow> Some now | Some t \<Rightarrow> Some t)\<rparr>), d'))"

definition finish_body ::
  "EventDelivery \<Rightarrow> string \<Rightarrow> string \<Rightarrow> int \<Rightarrow> string \<Rightarrow> int \<Rightarrow> int \<Rightarrow> 'a relay_db_scheme \<Rightarrow>
   unit relay_result tx_end \<times> 'a relay_db_scheme" where
  "finish_body v attemptID status httpStatus message next_ms now d =
     tx_then (update_deliveries (held v)
         (\<lambda>r. r\<lparr>dr_status := status, dr_last_error := message, dr_next := next_ms, dr_lease_token := [], dr_lease_until := 0,
               dr_updated := now\<rparr>) d)
       (\<lambda>n d1.
         if n \<noteq> 1 then (Rollback (Inl (Refused lease_lost)), d1)
         else tx_then (if attemptID \<noteq> [] then sql_returning (\<lambda>d. Some ((), d\<lparr>attempts :=
                 map (\<lambda>a. if at_id a = attemptID then a\<lparr>at_finished := now, at_http := httpStatus, at_error := message\<rparr>
                          else a) (attempts d)\<rparr>)) d1 else (Some (), d1))
             (\<lambda>_ d2. tx_then (update_subs (\<lambda>s. sr_id s = ed_SubscriptionID v \<and> sr_lease_token s = ed_LeaseToken v)
                 (\<lambda>s. s\<lparr>sr_lease_token := [], sr_lease_until := 0\<rparr>) d2) (\<lambda>_ d3. (Commit (Inr ()), d3))))"

definition FinishEventDelivery ::
  "gotime \<Rightarrow> EventDelivery \<Rightarrow> string \<Rightarrow> string \<Rightarrow> int \<Rightarrow> string \<Rightarrow> gotime \<Rightarrow> 'a relay_db_scheme \<Rightarrow>
   unit relay_result \<times> 'a relay_db_scheme" where
  "FinishEventDelivery now v attemptID status httpStatus message next_at =
     in_tx (Inl DbError) (finish_body v attemptID status httpStatus message (UnixMilli next_at) (UnixMilli now))"

definition RetryEventDelivery :: "gotime \<Rightarrow> string \<Rightarrow> 'a relay_db_scheme \<Rightarrow> unit relay_result \<times> 'a relay_db_scheme" where
  "RetryEventDelivery now0 i d =
     (let now = UnixMilli now0 in
      case update_deliveries
             (\<lambda>r. dr_id r = i \<and> dr_status r \<in> set [''dead'', ''retry'', ''blocked''] \<and> dr_lease_until r \<le> now)
             (\<lambda>r. r\<lparr>dr_status := ''pending'', dr_first := 0, dr_next := now, dr_last_error := [], dr_updated := now\<rparr>) d of
        (None, d') \<Rightarrow> (Inl DbError, d')
      | (Some n, d') \<Rightarrow> (if n \<noteq> 1 then Inl (Refused ''delivery is not retryable'') else Inr (), d'))"

section \<open>Statistics and retention\<close>

text \<open>The groups of the counting query: the count and the latest update of a status, if a row has it.\<close>

definition stat_group :: "string \<Rightarrow> string \<Rightarrow> 'a relay_db_scheme \<Rightarrow> (nat \<times> int) option" where
  "stat_group subID status d =
     (let rows = filter (\<lambda>r. dr_sub r = subID \<and> dr_status r = status) (deliveries d)
      in if rows = [] then None else Some (length rows, Max (set (map dr_updated rows))))"

definition add_group :: "string \<Rightarrow> (nat \<times> int) option \<Rightarrow> EventSubscription \<Rightarrow> EventSubscription" where
  "add_group status g sub =
     (case g of None \<Rightarrow> sub
      | Some (n, last_ms) \<Rightarrow>
          if open_status status then sub\<lparr>es_Pending := es_Pending sub + int n\<rparr>
          else if status = ''dead'' then sub\<lparr>es_Dead := es_Dead sub + int n\<rparr>
          else if status = ''sent'' then sub\<lparr>es_LastSuccessAt := Some (time_UnixMilli last_ms)\<rparr>
          else sub)"

definition delivery_statuses :: "string list" where
  "delivery_statuses = [''pending'', ''retry'', ''delivering'', ''sent'', ''dead'', ''blocked'', ''cancelled'']"

definition EventSubscriptionStats ::
  "EventSubscription \<Rightarrow> 'a relay_db_scheme \<Rightarrow> (bool \<times> EventSubscription) \<times> 'a relay_db_scheme" where
  "EventSubscriptionStats sub d =
     (case sql_query (\<lambda>d. map (\<lambda>st. (st, stat_group (es_ID sub) st d)) delivery_statuses) d of
        (None, d') \<Rightarrow> ((False, sub), d')
      | (Some groups, d') \<Rightarrow>
          (let sub' = fold (\<lambda>(st, g). add_group st g) groups sub
           in case sql_query (\<lambda>d. first_row (sort_key (\<lambda>r. - dr_updated r)
                  (filter (\<lambda>r. dr_sub r = es_ID sub \<and> dr_last_error r \<noteq> []) (deliveries d)))) d' of
                (None, d'') \<Rightarrow> ((False, sub'), d'')
              | (Some None, d'') \<Rightarrow> ((True, sub'), d'')
              | (Some (Some r), d'') \<Rightarrow> ((True, sub'\<lparr>es_LastError := dr_last_error r\<rparr>), d'')))"

definition prunable :: "gotime \<Rightarrow> delivery_row \<Rightarrow> bool" where
  "prunable now r \<longleftrightarrow>
     dr_status r = ''sent'' \<and> dr_updated r < UnixMilli (now - 7 * 24 * hour_ns) \<or>
     dr_status r \<in> set [''dead'', ''cancelled''] \<and> dr_updated r < UnixMilli (now - 30 * 24 * hour_ns)"

definition PruneEventDeliveries :: "gotime \<Rightarrow> 'a relay_db_scheme \<Rightarrow> bool \<times> 'a relay_db_scheme" where
  "PruneEventDeliveries now = sql_tx
     [\<lambda>d. Some (d\<lparr>attempts := filter (\<lambda>a. \<not> list_ex (\<lambda>r. dr_id r = at_delivery a \<and> prunable now r) (deliveries d)) (attempts d)\<rparr>),
      \<lambda>d. Some (d\<lparr>deliveries := filter (\<lambda>r. \<not> prunable now r) (deliveries d)\<rparr>),
      \<lambda>d. Some (d\<lparr>events := filter (\<lambda>e. list_ex (\<lambda>r. dr_event r = vr_id e) (deliveries d)) (events d)\<rparr>)]"

end
