(* ===== verification/Event_Relay.thy ===== *)
theory Event_Relay
  imports Event_Store Access
begin

text \<open>
  The event relay service (eventrelay/service.go) and its HTTP handlers (server/event_relay.go): signatures and
  callback validation, publishing with the health record, the list of wanted event types, and the worker that
  delivers one event. The worker's calls are separate definitions, because other processes run between them, and
  \<open>deliver\<close> composes them as the code does.

  HMAC-SHA256, the parser of URLs and of IP addresses, the resolver and the connections are arguments. The response
  of a callback is a value of type \<open>http_result\<close>.
\<close>

section \<open>Signatures\<close>

definition hex_encode :: "string \<Rightarrow> string" where
  "hex_encode s = concat (map (\<lambda>c. [hex_digit (byte_of c div 16), hex_digit (byte_of c mod 16)]) s)"

definition Signature :: "(string \<Rightarrow> string \<Rightarrow> string) \<Rightarrow> string \<Rightarrow> string \<Rightarrow> string \<Rightarrow> string \<Rightarrow> string" where
  "Signature hmac secret timestamp deliveryID body =
     ''v1='' @ hex_encode (hmac secret (timestamp @ ''.'' @ deliveryID @ ''.'' @ body))"

text \<open>\<^verbatim>\<open>strconv.ParseInt(s, 10, 64)\<close>, and \<^verbatim>\<open>strconv.FormatInt(n, 10)\<close>.\<close>

definition digits :: "string \<Rightarrow> bool" where
  "digits s \<longleftrightarrow> s \<noteq> [] \<and> list_all (\<lambda>c. in_bytes 48 57 c) s"

definition digits_value :: "string \<Rightarrow> int" where
  "digits_value s = foldl (\<lambda>n c. 10 * n + (int (byte_of c) - 48)) 0 s"

definition int64 :: "int \<Rightarrow> int option" where
  "int64 n = (if - (2 ^ 63) \<le> n \<and> n < 2 ^ 63 then Some n else None)"

definition ParseInt :: "string \<Rightarrow> int option" where
  "ParseInt s =
     (case s of
        [] \<Rightarrow> None
      | c # cs \<Rightarrow>
          if c = CHR ''-'' then (if digits cs then int64 (- digits_value cs) else None)
          else if c = CHR ''+'' then (if digits cs then int64 (digits_value cs) else None)
          else if digits s then int64 (digits_value s) else None)"

definition FormatInt :: "int \<Rightarrow> string" where
  "FormatInt n = (if n < 0 then CHR ''-'' # decimal (nat (- n)) else decimal (nat n))"

definition Unix :: "gotime \<Rightarrow> int" where
  "Unix t = (t - unix_epoch) div second_ns"

definition time_Unix :: "int \<Rightarrow> gotime" where
  "time_Unix s = unix_epoch + s * second_ns"

definition VerifySignature ::
  "(string \<Rightarrow> string \<Rightarrow> string) \<Rightarrow> string \<Rightarrow> string \<Rightarrow> string \<Rightarrow> string \<Rightarrow> string \<Rightarrow> gotime \<Rightarrow> bool" where
  "VerifySignature hmac secret timestamp deliveryID signature body now =
     (case ParseInt timestamp of
        None \<Rightarrow> False
      | Some seconds \<Rightarrow>
          if deliveryID = [] \<or> secret = [] then False
          else let age = now - time_Unix seconds in
            if age < - 5 * minute_ns \<or> age > 5 * minute_ns then False
            else signature = Signature hmac secret timestamp deliveryID body)"

section \<open>Callbacks\<close>

text \<open>What the code reads of a parsed URL (\<^verbatim>\<open>net/url\<close>) and of the network (package \<^verbatim>\<open>net\<close>).\<close>

record url =
  u_Scheme :: string
  u_hasUser :: bool
  u_Fragment :: string
  u_Hostname :: string
  u_Port :: string

record net =
  url_Parse :: "string \<Rightarrow> url option"
  ParseIP :: "string \<Rightarrow> string option"
  IsLoopback :: "string \<Rightarrow> bool"
  LookupIPAddr :: "string \<Rightarrow> (string \<times> string) list option"
  dials :: "string \<Rightarrow> string \<Rightarrow> bool"

datatype callback_error = InvalidURL | NotLoopbackURL | NotLocalHost | InvalidPort

definition ValidateCallback :: "net \<Rightarrow> string \<Rightarrow> callback_error option" where
  "ValidateCallback n raw =
     (case url_Parse n raw of
        None \<Rightarrow> Some InvalidURL
      | Some u \<Rightarrow>
          if (u_Scheme u \<noteq> ''http'' \<and> u_Scheme u \<noteq> ''https'') \<or> u_hasUser u \<or> u_Fragment u \<noteq> [] \<or> u_Hostname u = []
          then Some NotLoopbackURL
          else if u_Hostname u \<noteq> ''localhost'' \<and>
                  (case ParseIP n (u_Hostname u) of None \<Rightarrow> True | Some ip \<Rightarrow> \<not> IsLoopback n ip)
          then Some NotLocalHost
          else if u_Port u \<noteq> [] \<and>
                  (case ParseInt (u_Port u) of None \<Rightarrow> True | Some p \<Rightarrow> p < 1 \<or> p > 65535)
          then Some InvalidPort
          else None)"

text \<open>
  The dialer of the client, for an address already split into host and port: the addresses it connects to in turn
  until one answers, or an error. An address is an IP with its zone; \<open>None\<close> stands for an unparsable IP.
\<close>

datatype dial_result = DialError | Dialled string | Unreachable

fun dial_first :: "net \<Rightarrow> string \<Rightarrow> string list \<Rightarrow> dial_result" where
  "dial_first n port [] = Unreachable"
| "dial_first n port (ip # rest) = (if dials n ip port then Dialled ip else dial_first n port rest)"

definition local_dial :: "net \<Rightarrow> string \<Rightarrow> string \<Rightarrow> dial_result" where
  "local_dial n host port =
     (case (if host = ''localhost'' then map_option (map (\<lambda>(ip, zone). (Some ip, zone))) (LookupIPAddr n host)
            else Some [(ParseIP n host, [])]) of
        None \<Rightarrow> DialError
      | Some addresses \<Rightarrow>
          if addresses = [] then DialError
          else if list_ex (\<lambda>(ip, zone). (case ip of None \<Rightarrow> True | Some ip \<Rightarrow> \<not> IsLoopback n ip) \<or> zone \<noteq> []) addresses
          then DialError
          else dial_first n port (map (\<lambda>(ip, zone). case ip of None \<Rightarrow> [] | Some ip \<Rightarrow> ip) addresses))"

section \<open>Validation of a subscription\<close>

text \<open>The regular expression \<^verbatim>\<open>eventName\<close>.\<close>

definition name_char :: "char \<Rightarrow> bool" where
  "name_char c \<longleftrightarrow> in_bytes 65 90 c \<or> in_bytes 97 122 c \<or> in_bytes 48 57 c \<or> c = CHR ''_''"

definition eventName :: "string \<Rightarrow> bool" where
  "eventName s =
     (case s of [] \<Rightarrow> False
      | c # cs \<Rightarrow> name_char c \<and> length cs \<le> 199 \<and>
          list_all (\<lambda>c. name_char c \<or> c = CHR ''.'' \<or> c = CHR ''-'') cs)"

definition LifecycleEventTypes :: "string list" where
  "LifecycleEventTypes =
     [''message.received'', ''message.sent'', ''session.started'', ''session.ended'', ''cron.triggered'',
      ''webhook.triggered'', ''permission.requested'', ''task.queued'', ''task.started'', ''task.steered'',
      ''task.controller_changed'', ''task.interrupted'', ''task.completed'', ''interaction.resolved'',
      ''feedback.received'', ''thread.bound'', ''error'']"

datatype sub_error =
    KeyOrName | UnknownSource | ItemCount | InvalidRef string | PlatformRef | InvalidType string
  | UnknownLifecycle string | InvalidFilter string | InvalidFilterValue | InvalidCallback callback_error

definition ref_error :: "string \<Rightarrow> string \<Rightarrow> sub_error option" where
  "ref_error source ref =
     (case cut_colon ref of (kind, i, ok) \<Rightarrow>
        if ref \<noteq> ''system'' \<and> (\<not> ok \<or> i = [] \<or> kind \<notin> set [''channel'', ''agent'', ''trigger'']) then Some (InvalidRef ref)
        else if source \<noteq> ''agentmux'' \<and> kind \<noteq> ''channel'' then Some PlatformRef
        else None)"

definition type_error :: "string \<Rightarrow> string \<Rightarrow> sub_error option" where
  "type_error source typ =
     (if \<not> eventName typ \<or> typ = ''app_ticket'' then Some (InvalidType typ)
      else if source = ''agentmux'' \<and> typ \<notin> set LifecycleEventTypes then Some (UnknownLifecycle typ)
      else None)"

definition filter_error :: "string \<times> string list \<Rightarrow> sub_error option" where
  "filter_error f =
     (case f of (k, values) \<Rightarrow>
        if k \<notin> set [''chat_id'', ''file_token'', ''table_id'', ''agent_id''] \<or> values = [] \<or> length values > 100
        then Some (InvalidFilter k)
        else if list_ex (\<lambda>v. v = [] \<or> length v > 256) values then Some InvalidFilterValue
        else None)"

text \<open>The first error of a loop that returns on the first error.\<close>

fun first_error :: "('x \<Rightarrow> 'e option) \<Rightarrow> 'x list \<Rightarrow> 'e option" where
  "first_error f [] = None"
| "first_error f (x # xs) = (case f x of None \<Rightarrow> first_error f xs | Some e \<Rightarrow> Some e)"

definition or_else :: "'e option \<Rightarrow> 'e option \<Rightarrow> 'e option" where
  "or_else a b = (case a of None \<Rightarrow> b | Some e \<Rightarrow> Some e)"

definition ValidateSubscription :: "net \<Rightarrow> EventSubscription \<Rightarrow> sub_error option \<times> EventSubscription" where
  "ValidateSubscription n sub0 =
     (let sub = sub0\<lparr>es_Key := trim_space (es_Key sub0), es_Name := trim_space (es_Name sub0),
                     es_CallbackURL := trim_space (es_CallbackURL sub0)\<rparr>;
          source = es_Source sub; refs = es_SourceRefs sub; types = es_EventTypes sub
      in (if \<not> eventName (es_Key sub) \<or> es_Name sub = [] \<or> length (es_Name sub) > 200 then Some KeyOrName
          else if source \<noteq> ''agentmux'' \<and> source \<noteq> ''feishu'' \<and> source \<noteq> ''lark'' then Some UnknownSource
          else if length refs = 0 \<or> length refs > 100 \<or> length types = 0 \<or> length types > 100 then Some ItemCount
          else or_else (first_error (ref_error source) refs)
                 (or_else (first_error (type_error source) types)
                    (or_else (first_error filter_error (es_Filters sub))
                       (map_option InvalidCallback (ValidateCallback n (es_CallbackURL sub))))),
          sub))"

section \<open>Publishing\<close>

record EventIngestionHealth =
  ih_Failures :: int
  ih_LastError :: string
  ih_LastFailureAt :: "gotime option"
  ih_LastSuccessAt :: "gotime option"

text \<open>
  The service: the wanted types of each \<^verbatim>\<open>source|ref\<close> and the health of each source; a missing key reads as Go's zero
  value. The local consumer is an interface value: its types and whether it accepts an event.
\<close>

record LocalConsumer =
  lc_EventTypes :: "string \<Rightarrow> string \<Rightarrow> string list"
  lc_HandleRelayEvent :: "RelayEvent \<Rightarrow> bool"

record relay_service =
  sv_local :: "LocalConsumer option"
  sv_types :: "string \<Rightarrow> string list"
  sv_health :: "string \<Rightarrow> EventIngestionHealth"

definition LifecycleSourceRef :: "(string \<rightharpoonup> string) \<Rightarrow> string" where
  "LifecycleSourceRef data =
     (case find (\<lambda>kind. trim_space (null_string (data (kind @ ''_id''))) \<noteq> []) [''channel'', ''trigger'', ''agent''] of
        None \<Rightarrow> ''system''
      | Some kind \<Rightarrow> kind @ '':'' @ trim_space (null_string (data (kind @ ''_id''))))"

text \<open>
  The events of the two sources of the service: a platform event is stamped with the channel it came through, and a
  lifecycle event carries its data as attributes and as payload.
\<close>

definition platform_event :: "Channel \<Rightarrow> string \<Rightarrow> RelayEvent \<Rightarrow> RelayEvent" where
  "platform_event ch app_id e =
     e\<lparr>ev_Source := c_Type ch, ev_SourceRef := ''channel:'' @ c_ID ch,
       ev_Attributes := (ev_Attributes e)(''app_id'' \<mapsto> app_id, ''channel_id'' \<mapsto> c_ID ch, ''agent_id'' \<mapsto> c_AgentID ch)\<rparr>"

definition empty_event :: RelayEvent where
  "empty_event = \<lparr>ev_SchemaVersion = [], ev_ID = [], ev_Source = [], ev_Type = [], ev_SourceRef = [],
     ev_SourceEventID = [], ev_OccurredAt = 0, ev_ReceivedAt = 0, ev_Attributes = (\<lambda>_. None), ev_Data = []\<rparr>"

definition lifecycle_event :: "((string \<rightharpoonup> string) \<Rightarrow> string) \<Rightarrow> string \<Rightarrow> (string \<rightharpoonup> string) \<Rightarrow> RelayEvent" where
  "lifecycle_event marshal kind data0 =
     (let project = null_string (data0 ''project'');
          data = (if null_string (data0 ''agent_id'') = [] \<and> has_prefix project ''agent:''
                  then data0(''agent_id'' \<mapsto> trim_prefix project ''agent:'') else data0)
      in empty_event\<lparr>ev_Source := ''agentmux'', ev_Type := kind, ev_SourceRef := LifecycleSourceRef data,
           ev_Attributes := data, ev_Data := marshal data\<rparr>)"

text \<open>\<open>publish\<close>: the event is completed and ingested, and the outcome recorded.\<close>

definition complete_event :: "string \<Rightarrow> gotime \<Rightarrow> RelayEvent \<Rightarrow> RelayEvent" where
  "complete_event uuid now e =
     e\<lparr>ev_SchemaVersion := ''1'', ev_ID := (if ev_ID e = [] then ''evt_'' @ uuid else ev_ID e), ev_ReceivedAt := now,
       ev_OccurredAt := (if is_zero (ev_OccurredAt e) then now else ev_OccurredAt e)\<rparr>"

definition record_health :: "gotime \<Rightarrow> bool \<Rightarrow> EventIngestionHealth \<Rightarrow> EventIngestionHealth" where
  "record_health now failed h =
     (if failed then h\<lparr>ih_Failures := ih_Failures h + 1, ih_LastFailureAt := Some now,
                      ih_LastError := ''event persistence failed''\<rparr>
      else h\<lparr>ih_LastSuccessAt := Some now, ih_LastError := []\<rparr>)"

definition publish_event ::
  "gotime \<Rightarrow> (nat \<Rightarrow> string) \<Rightarrow> RelayEvent \<Rightarrow> string \<Rightarrow> relay_service \<Rightarrow> 'a relay_db_scheme \<Rightarrow>
   unit relay_result \<times> relay_service \<times> 'a relay_db_scheme" where
  "publish_event now uuid e0 target sv d =
     (let e = complete_event (uuid 0) now e0
      in case IngestRelayEvent now (\<lambda>k. uuid (Suc k)) e target d of
           (r, d') \<Rightarrow> (r, sv\<lparr>sv_health := (sv_health sv)(ev_SourceRef e :=
                record_health now (r \<noteq> Inr ()) (sv_health sv (ev_SourceRef e)))\<rparr>, d'))"

definition local_error :: string where "local_error = ''local event consumer failed''"

definition Publish ::
  "gotime \<Rightarrow> (nat \<Rightarrow> string) \<Rightarrow> RelayEvent \<Rightarrow> relay_service \<Rightarrow> 'a relay_db_scheme \<Rightarrow>
   unit relay_result \<times> relay_service \<times> 'a relay_db_scheme" where
  "Publish now uuid e sv d =
     (if (case sv_local sv of None \<Rightarrow> False
          | Some l \<Rightarrow> ev_Source e \<noteq> ''agentmux'' \<and> \<not> lc_HandleRelayEvent l e)
      then (Inl (Refused local_error), sv, d)
      else publish_event now uuid e [] sv d)"

text \<open>The test event of a subscription; \<open>es_SourceRefs\<close> of a stored subscription is not empty.\<close>

definition test_event :: "EventSubscription \<Rightarrow> string \<Rightarrow> RelayEvent" where
  "test_event sub body = empty_event\<lparr>ev_Source := es_Source sub, ev_Type := ''agentmux.subscription.test'',
     ev_SourceRef := hd (es_SourceRefs sub), ev_Attributes := [''test'' \<mapsto> ''true''], ev_Data := body\<rparr>"

definition Test ::
  "gotime \<Rightarrow> (nat \<Rightarrow> string) \<Rightarrow> string \<Rightarrow> EventSubscription \<Rightarrow> relay_service \<Rightarrow> 'a relay_db_scheme \<Rightarrow>
   unit relay_result \<times> relay_service \<times> 'a relay_db_scheme" where
  "Test now uuid body sub sv d = publish_event now uuid (test_event sub body) (es_ID sub) sv d"

definition EventTypes :: "string \<Rightarrow> string \<Rightarrow> relay_service \<Rightarrow> string list" where
  "EventTypes ref source sv =
     (let types = sv_types sv (source @ ''|'' @ ref)
      in case sv_local sv of None \<Rightarrow> types
         | Some l \<Rightarrow> remdups_adj (sort (types @ lc_EventTypes l ref source)))"

fun refresh_refs ::
  "EventSubscription \<Rightarrow> string list \<Rightarrow> (string \<Rightarrow> string list) \<Rightarrow> 'a relay_db_scheme \<Rightarrow>
   (string \<Rightarrow> string list) relay_result \<times> 'a relay_db_scheme" where
  "refresh_refs sub [] types d = (Inr types, d)"
| "refresh_refs sub (ref # rest) types d =
     (case EventSourceAllowed (es_OwnerTenantID sub) ref d of
        (Inl e, d') \<Rightarrow> (Inl e, d')
      | (Inr ok, d') \<Rightarrow>
          (let key = es_Source sub @ ''|'' @ ref
           in refresh_refs sub rest (if ok then types(key := types key @ es_EventTypes sub) else types) d'))"

fun refresh_subs ::
  "EventSubscription list \<Rightarrow> (string \<Rightarrow> string list) \<Rightarrow> 'a relay_db_scheme \<Rightarrow>
   (string \<Rightarrow> string list) relay_result \<times> 'a relay_db_scheme" where
  "refresh_subs [] types d = (Inr types, d)"
| "refresh_subs (sub # rest) types d =
     (if es_Source sub = ''agentmux'' then refresh_subs rest types d
      else case refresh_refs sub (es_SourceRefs sub) types d of
        (Inl e, d') \<Rightarrow> (Inl e, d')
      | (Inr types', d') \<Rightarrow> refresh_subs rest types' d')"

definition Refresh ::
  "relay_service \<Rightarrow> 'a relay_db_scheme \<Rightarrow> unit relay_result \<times> relay_service \<times> 'a relay_db_scheme" where
  "Refresh sv d =
     (case ListEventSubscriptions None d of
        (None, d') \<Rightarrow> (Inl DbError, sv, d')
      | (Some live, d') \<Rightarrow>
          (case refresh_subs live (\<lambda>_. []) d' of
             (Inl e, d'') \<Rightarrow> (Inl e, sv, d'')
           | (Inr types, d'') \<Rightarrow> (Inr (), sv\<lparr>sv_types := (\<lambda>k. remdups_adj (sort (types k)))\<rparr>, d'')))"

section \<open>Delivery\<close>

text \<open>
  \<open>RetryDelay\<close> in nanoseconds. \<open>r\<close> is the draw of \<^verbatim>\<open>rand.Float64\<close> as a number of 53 bits; the product is exact here,
  while the code rounds it to a double.
\<close>

definition full_delay :: "int \<Rightarrow> int" where
  "full_delay attempt = min (second_ns * 2 ^ nat (min (max (attempt - 1) 0) 9)) (5 * minute_ns)"

definition RetryDelay :: "int \<Rightarrow> int \<Rightarrow> int" where
  "RetryDelay r attempt = full_delay attempt * (8 * 2 ^ 53 + 2 * r) div (10 * 2 ^ 53)"

text \<open>
  How the worker goes on after loading the subscription (\<open>None\<close> is an error of the store): it asks for the
  permission of the owner, or releases the delivery with a status and a message.
\<close>

datatype decision = Ask EventSubscription | Release string string

definition after_load :: "EventSubscription option option \<Rightarrow> decision" where
  "after_load loaded =
     (case loaded of
        Some (Some sub) \<Rightarrow>
          if \<not> es_Deleted sub \<and> \<not> es_Paused sub then Ask sub
          else if es_Deleted sub then Release ''cancelled'' ''subscription deleted''
          else Release ''pending'' ''subscription paused''
      | _ \<Rightarrow> Release ''blocked'' ''subscription unavailable'')"

definition event_ref :: "EventDelivery \<Rightarrow> string" where
  "event_ref v = (case ed_Event v of None \<Rightarrow> [] | Some e \<Rightarrow> ev_SourceRef e)"

definition permitted :: "bool relay_result \<Rightarrow> bool" where
  "permitted r = (case r of Inr ok \<Rightarrow> ok | Inl _ \<Rightarrow> False)"

datatype http_result = Response int | DeadlineExceeded | RequestFailed

text \<open>
  What \<open>send\<close> stores: the status of the delivery, the HTTP status and the message. A callback that is refused before
  the request counts as a failed request.
\<close>

definition send_error :: "http_result \<Rightarrow> string" where
  "send_error result =
     (case result of
        Response st \<Rightarrow> if st \<noteq> 0 then ''callback returned HTTP '' @ FormatInt st else ''callback connection or request failed''
      | DeadlineExceeded \<Rightarrow> ''callback timed out''
      | RequestFailed \<Rightarrow> ''callback connection or request failed'')"

definition http_status :: "http_result \<Rightarrow> int" where
  "http_status result = (case result of Response st \<Rightarrow> st | _ \<Rightarrow> 0)"

definition send_outcome :: "gotime \<Rightarrow> EventDelivery \<Rightarrow> http_result \<Rightarrow> string \<times> int \<times> string" where
  "send_outcome now v result =
     (if (case result of Response st \<Rightarrow> 200 \<le> st \<and> st < 300 | _ \<Rightarrow> False) then (''sent'', http_status result, [])
      else (if (case ed_FirstAttemptAt v of None \<Rightarrow> False | Some t \<Rightarrow> now - t \<ge> 24 * hour_ns) then ''dead'' else ''retry'',
            http_status result, send_error result))"

text \<open>The headers of the request that identify and sign the delivery.\<close>

definition send_headers ::
  "(string \<Rightarrow> string \<Rightarrow> string) \<Rightarrow> gotime \<Rightarrow> EventDelivery \<Rightarrow> EventSubscription \<Rightarrow> string \<Rightarrow> (string \<times> string) list" where
  "send_headers hmac now v sub body =
     (let timestamp = FormatInt (Unix now)
      in [(''Content-Type'', ''application/json''), (''X-AgentMux-Event-ID'', ed_EventID v),
          (''X-AgentMux-Delivery-ID'', ed_ID v), (''X-AgentMux-Timestamp'', timestamp),
          (''X-AgentMux-Signature'', Signature hmac (es_Secret sub) timestamp (ed_ID v) body)])"

definition send_callback :: "net \<Rightarrow> (string \<Rightarrow> http_result) \<Rightarrow> EventSubscription \<Rightarrow> http_result" where
  "send_callback n post sub =
     (if ValidateCallback n (es_CallbackURL sub) \<noteq> None then RequestFailed else post (es_CallbackURL sub))"

definition finish_send ::
  "gotime \<Rightarrow> int \<Rightarrow> EventDelivery \<Rightarrow> string \<Rightarrow> http_result \<Rightarrow> 'a relay_db_scheme \<Rightarrow> unit relay_result \<times> 'a relay_db_scheme" where
  "finish_send now r v attempt result =
     (case send_outcome now v result of (state, status, message) \<Rightarrow>
        FinishEventDelivery now v attempt state status message (now + RetryDelay r (ed_Attempts v)))"

definition send_event ::
  "net \<Rightarrow> (string \<Rightarrow> http_result) \<Rightarrow> string \<Rightarrow> gotime \<Rightarrow> gotime \<Rightarrow> int \<Rightarrow> EventDelivery \<Rightarrow> EventSubscription \<Rightarrow>
   'a relay_db_scheme \<Rightarrow> unit relay_result \<times> 'a relay_db_scheme" where
  "send_event n post uuid now later r v sub d =
     (case BeginEventAttempt uuid v now d of
        (Inl e, d') \<Rightarrow> (Inl e, d')
      | (Inr (attempt, v'), d') \<Rightarrow> finish_send later r v' attempt (send_callback n post sub) d')"

definition release ::
  "gotime \<Rightarrow> EventDelivery \<Rightarrow> string \<Rightarrow> string \<Rightarrow> 'a relay_db_scheme \<Rightarrow> unit relay_result \<times> 'a relay_db_scheme" where
  "release now v state message = FinishEventDelivery now v [] state 0 message (now + 10 * second_ns)"

definition unpermitted :: string where "unpermitted = ''event source permission unavailable''"

definition deliver ::
  "net \<Rightarrow> (string \<Rightarrow> http_result) \<Rightarrow> string \<Rightarrow> gotime \<Rightarrow> gotime \<Rightarrow> int \<Rightarrow> EventDelivery \<Rightarrow>
   'a relay_db_scheme \<Rightarrow> unit relay_result \<times> 'a relay_db_scheme" where
  "deliver n post uuid now later r v d =
     (case GetEventSubscription (ed_SubscriptionID v) d of
        (loaded, d1) \<Rightarrow>
          (case after_load loaded of
             Release state message \<Rightarrow> release now v state message d1
           | Ask sub \<Rightarrow>
               (case EventSourceAllowed (es_OwnerTenantID sub) (event_ref v) d1 of
                  (ok, d2) \<Rightarrow> if permitted ok then send_event n post uuid now later r v sub d2
                              else release now v ''blocked'' unpermitted d2)))"

text \<open>One tick of a worker.\<close>

definition worker_tick ::
  "net \<Rightarrow> (string \<Rightarrow> http_result) \<Rightarrow> string \<Rightarrow> string \<Rightarrow> gotime \<Rightarrow> gotime \<Rightarrow> int \<Rightarrow> 'a relay_db_scheme \<Rightarrow> 'a relay_db_scheme" where
  "worker_tick n post token uuid now later r d =
     (case ClaimEventDelivery token now d of
        (Inr (Some v), d') \<Rightarrow> snd (deliver n post uuid now later r v d')
      | (_, d') \<Rightarrow> d')"

section \<open>Handlers\<close>

text \<open>
  The handlers take the caller and the decoded request, for a server that has a store; without one they answer 503. The
  message of an error of the store is \<open>store_error\<close>.
\<close>

definition requireQuery :: "string \<Rightarrow> string \<Rightarrow> string reply" where
  "requireQuery name raw =
     (let value = trim_space raw in if value = [] then Denied 400 (''missing '' @ name) else Granted value)"

definition eventOwner :: "Principal \<Rightarrow> string option" where
  "eventOwner p = (if IsTenant (Some p) then Some (p_TenantID p) else None)"

definition sub_missing :: "'r reply" where
  "sub_missing = Denied 404 ''subscription not found''"

definition ownedEventSubscription ::
  "Principal \<Rightarrow> string \<Rightarrow> 'a relay_db_scheme \<Rightarrow> EventSubscription reply \<times> 'a relay_db_scheme" where
  "ownedEventSubscription p i d =
     (case GetEventSubscription i d of
        (None, d') \<Rightarrow> (Denied 500 store_error, d')
      | (Some None, d') \<Rightarrow> (sub_missing, d')
      | (Some (Some sub), d') \<Rightarrow>
          if IsTenant (Some p) \<and> es_OwnerTenantID sub \<noteq> p_TenantID p then (sub_missing, d') else (Granted sub, d'))"

text \<open>The check of the sources of a subscription, one reference after the other; \<open>None\<close> is success.\<close>

definition check_source ::
  "EventSubscription \<Rightarrow> string \<Rightarrow> 'a relay_db_scheme \<Rightarrow> string option \<times> 'a relay_db_scheme" where
  "check_source sub ref d =
     (case EventSourceAllowed (es_OwnerTenantID sub) ref d of
        (Inl e, d1) \<Rightarrow> (Some store_error, d1)
      | (Inr ok, d1) \<Rightarrow>
          if \<not> ok then (Some (''event source permission required for '' @ ref), d1)
          else if es_Source sub = ''agentmux'' then (None, d1)
          else (case GetChannel (trim_prefix ref ''channel:'') d1 of
             (None, d2) \<Rightarrow> (Some store_error, d2)
           | (Some ch, d2) \<Rightarrow>
               (if (case ch of None \<Rightarrow> True | Some c \<Rightarrow> c_Type c \<noteq> es_Source sub)
                then Some ''source does not match channel platform'' else None, d2)))"

fun check_sources ::
  "EventSubscription \<Rightarrow> string list \<Rightarrow> 'a relay_db_scheme \<Rightarrow> string option \<times> 'a relay_db_scheme" where
  "check_sources sub [] d = (None, d)"
| "check_sources sub (ref # rest) d =
     (case check_source sub ref d of
        (Some e, d') \<Rightarrow> (Some e, d')
      | (None, d') \<Rightarrow> check_sources sub rest d')"

definition validateEventAccess :: "EventSubscription \<Rightarrow> 'a relay_db_scheme \<Rightarrow> string option \<times> 'a relay_db_scheme" where
  "validateEventAccess sub = check_sources sub (es_SourceRefs sub)"

fun stats_all ::
  "EventSubscription list \<Rightarrow> 'a relay_db_scheme \<Rightarrow> EventSubscription list option \<times> 'a relay_db_scheme" where
  "stats_all [] d = (Some [], d)"
| "stats_all (sub # rest) d =
     (case EventSubscriptionStats sub d of
        ((False, _), d') \<Rightarrow> (None, d')
      | ((True, sub'), d') \<Rightarrow>
          (case stats_all rest d' of (None, d'') \<Rightarrow> (None, d'') | (Some xs, d'') \<Rightarrow> (Some (sub' # xs), d'')))"

definition handleEventSubscriptions ::
  "Principal \<Rightarrow> 'a relay_db_scheme \<Rightarrow> EventSubscription list reply \<times> 'a relay_db_scheme" where
  "handleEventSubscriptions p d =
     (case ListEventSubscriptions (eventOwner p) d of
        (None, d') \<Rightarrow> (Denied 500 store_error, d')
      | (Some items, d') \<Rightarrow>
          (case stats_all items d' of
             (None, d'') \<Rightarrow> (Denied 500 store_error, d'')
           | (Some items', d'') \<Rightarrow> (Granted items', d'')))"

text \<open>
  Saving: the reply is the subscription and, when it is new, its signing secret. \<open>quote\<close> is the \<^verbatim>\<open>%q\<close> of an error
  message; \<open>secret\<close> is the drawn key, \<open>None\<close> if the random source fails.
\<close>

definition sub_error_text :: "(string \<Rightarrow> string) \<Rightarrow> sub_error \<Rightarrow> string" where
  "sub_error_text quote e =
     (case e of
        KeyOrName \<Rightarrow> ''key must be a stable identifier and name must contain 1'' @
          [char_of (0xE2::nat), char_of (0x80::nat), char_of (0x93::nat)] @ ''200 bytes''
      | UnknownSource \<Rightarrow> ''source must be agentmux, feishu or lark''
      | ItemCount \<Rightarrow> ''source_refs and event_types must contain 1'' @
          [char_of (0xE2::nat), char_of (0x80::nat), char_of (0x93::nat)] @ ''100 items''
      | InvalidRef ref \<Rightarrow> ''invalid source_ref '' @ quote ref
      | PlatformRef \<Rightarrow> ''platform events require channel sources''
      | InvalidType typ \<Rightarrow> ''invalid or reserved event type '' @ quote typ
      | UnknownLifecycle typ \<Rightarrow> ''unknown lifecycle event '' @ quote typ
      | InvalidFilter k \<Rightarrow> ''invalid filter '' @ quote k
      | InvalidFilterValue \<Rightarrow> ''invalid filter value''
      | InvalidCallback c \<Rightarrow>
          (case c of
             InvalidURL \<Rightarrow> ''invalid callback URL''
           | NotLoopbackURL \<Rightarrow> ''callback must be an HTTP(S) loopback URL without credentials or fragment''
           | NotLocalHost \<Rightarrow> ''callback host must be localhost or a loopback IP''
           | InvalidPort \<Rightarrow> ''invalid callback port''))"

definition relay_error_text :: "relay_error \<Rightarrow> string" where
  "relay_error_text e = (case e of Refused m \<Rightarrow> m | _ \<Rightarrow> store_error)"

definition deleted_reply :: "'r reply" where
  "deleted_reply = Denied 409 ''subscription is deleted''"

definition save_checked ::
  "string \<Rightarrow> gotime \<Rightarrow> string option \<Rightarrow> EventSubscription \<Rightarrow> 'a relay_db_scheme \<Rightarrow>
   (EventSubscription \<times> string option) reply \<times> 'a relay_db_scheme" where
  "save_checked uuid now secret sub d =
     (case validateEventAccess sub d of
        (Some e, d1) \<Rightarrow> (Denied 403 e, d1)
      | (None, d1) \<Rightarrow>
          (case secret of None \<Rightarrow> (Denied 500 ''cannot generate signing key'', d1)
           | Some key \<Rightarrow>
               (case SaveEventSubscription uuid now (sub\<lparr>es_Secret := key, es_Deleted := False, es_Pending := 0,
                       es_Dead := 0, es_LastSuccessAt := None, es_LastError := []\<rparr>) d1 of
                  (Inl e, d2) \<Rightarrow> (Denied 409 (relay_error_text e), d2)
                | (Inr (created, saved), d2) \<Rightarrow>
                    (Granted (saved, if created then Some (es_Secret saved) else None), d2))))"

definition handleEventSubscriptionSave ::
  "net \<Rightarrow> (string \<Rightarrow> string) \<Rightarrow> string \<Rightarrow> gotime \<Rightarrow> string option \<Rightarrow> Principal \<Rightarrow> EventSubscription \<Rightarrow>
   'a relay_db_scheme \<Rightarrow> (EventSubscription \<times> string option) reply \<times> 'a relay_db_scheme" where
  "handleEventSubscriptionSave n quote uuid now secret p request d =
     (let sub0 = (if IsTenant (Some p) then request\<lparr>es_OwnerTenantID := p_TenantID p\<rparr> else request)
      in case ValidateSubscription n sub0 of
           (Some e, _) \<Rightarrow> (Denied 400 (sub_error_text quote e), d)
         | (None, sub) \<Rightarrow>
             if es_ID sub \<noteq> [] then
               (case ownedEventSubscription p (es_ID sub) d of
                  (Denied code m, d1) \<Rightarrow> (Denied code m, d1)
                | (Granted old, d1) \<Rightarrow> if es_Deleted old then (deleted_reply, d1) else save_checked uuid now secret sub d1)
             else save_checked uuid now secret sub d)"

definition handleEventSubscriptionDelete ::
  "gotime \<Rightarrow> Principal \<Rightarrow> string \<Rightarrow> 'a relay_db_scheme \<Rightarrow> unit reply \<times> 'a relay_db_scheme" where
  "handleEventSubscriptionDelete now p raw d =
     (case requireQuery ''id'' raw of
        Denied code m \<Rightarrow> (Denied code m, d)
      | Granted i \<Rightarrow>
          (case ownedEventSubscription p i d of
             (Denied code m, d1) \<Rightarrow> (Denied code m, d1)
           | (Granted _, d1) \<Rightarrow>
               (case DeleteEventSubscription now i d1 of
                  (False, d2) \<Rightarrow> (Denied 500 store_error, d2)
                | (True, d2) \<Rightarrow> (Granted (), d2))))"

definition eventActionSubscription ::
  "Principal \<Rightarrow> string \<Rightarrow> 'a relay_db_scheme \<Rightarrow> EventSubscription reply \<times> 'a relay_db_scheme" where
  "eventActionSubscription p i d =
     (case ownedEventSubscription p i d of
        (Denied code m, d1) \<Rightarrow> (Denied code m, d1)
      | (Granted sub, d1) \<Rightarrow>
          if es_Deleted sub then (deleted_reply, d1)
          else (case validateEventAccess sub d1 of
             (Some e, d2) \<Rightarrow> (Denied 403 e, d2)
           | (None, d2) \<Rightarrow> (Granted sub, d2)))"

text \<open>The relay is \<open>None\<close> when the daemon runs without it.\<close>

definition handleEventSubscriptionTest ::
  "gotime \<Rightarrow> (nat \<Rightarrow> string) \<Rightarrow> string \<Rightarrow> Principal \<Rightarrow> string \<Rightarrow> relay_service option \<Rightarrow> 'a relay_db_scheme \<Rightarrow>
   unit reply \<times> relay_service option \<times> 'a relay_db_scheme" where
  "handleEventSubscriptionTest now uuid body p i relay d =
     (case eventActionSubscription p i d of
        (Denied code m, d1) \<Rightarrow> (Denied code m, relay, d1)
      | (Granted sub, d1) \<Rightarrow>
          (case relay of
             None \<Rightarrow> (Denied 503 ''event relay is not running'', None, d1)
           | Some sv \<Rightarrow>
               if es_Paused sub then (Denied 409 ''resume subscription before testing delivery'', relay, d1)
               else (case Test now uuid body sub sv d1 of
                  (Inl e, sv', d2) \<Rightarrow> (Denied 503 ''test event could not be persisted'', Some sv', d2)
                | (Inr _, sv', d2) \<Rightarrow> (Granted (), Some sv', d2))))"

definition handleEventSecretRotate ::
  "gotime \<Rightarrow> string option \<Rightarrow> Principal \<Rightarrow> string \<Rightarrow> 'a relay_db_scheme \<Rightarrow> string reply \<times> 'a relay_db_scheme" where
  "handleEventSecretRotate now secret p i d =
     (case eventActionSubscription p i d of
        (Denied code m, d1) \<Rightarrow> (Denied code m, d1)
      | (Granted sub, d1) \<Rightarrow>
          (case secret of
             None \<Rightarrow> (Denied 500 ''cannot generate signing key'', d1)
           | Some key \<Rightarrow>
               (case RotateEventSecret now (es_ID sub) key d1 of
                  (Inl e, d2) \<Rightarrow> (Denied 500 (relay_error_text e), d2)
                | (Inr _, d2) \<Rightarrow> (Granted key, d2))))"

definition ownedEventDelivery ::
  "Principal \<Rightarrow> string \<Rightarrow> 'a relay_db_scheme \<Rightarrow> EventDelivery reply \<times> 'a relay_db_scheme" where
  "ownedEventDelivery p i d =
     (case GetEventDelivery i d of
        (None, d1) \<Rightarrow> (Denied 500 store_error, d1)
      | (Some None, d1) \<Rightarrow> (Denied 404 ''delivery not found'', d1)
      | (Some (Some v), d1) \<Rightarrow>
          (case ownedEventSubscription p (ed_SubscriptionID v) d1 of
             (Denied code m, d2) \<Rightarrow> (Denied code m, d2)
           | (Granted sub, d2) \<Rightarrow>
               (let tenant = (if IsTenant (Some p) then es_OwnerTenantID sub else [])
                in case EventSourceAllowed tenant (event_ref v) d2 of
                     (ok, d3) \<Rightarrow> if permitted ok then (Granted v, d3)
                                 else (Denied 403 ''event source permission unavailable'', d3))))"

text \<open>The payload of an event is hidden from a caller who may not receive events of its source.\<close>

fun hide_events :: "string \<Rightarrow> EventDelivery list \<Rightarrow> 'a relay_db_scheme \<Rightarrow> EventDelivery list \<times> 'a relay_db_scheme" where
  "hide_events tenant [] d = ([], d)"
| "hide_events tenant (v # rest) d =
     (case EventSourceAllowed tenant (event_ref v) d of
        (ok, d') \<Rightarrow>
          (case hide_events tenant rest d' of
             (items, d'') \<Rightarrow> ((if permitted ok then v else v\<lparr>ed_Event := None\<rparr>) # items, d'')))"

text \<open>A page parameter: absent, or a number; anything else is refused.\<close>

definition page_value :: "int \<Rightarrow> string \<Rightarrow> int option" where
  "page_value dflt value =
     (if value = [] then Some dflt
      else case ParseInt value of None \<Rightarrow> None | Some n \<Rightarrow> if n < 0 then None else Some n)"

record delivery_page =
  dp_items :: "EventDelivery list"
  dp_limit :: int
  dp_offset :: int
  dp_has_more :: bool

definition list_deliveries ::
  "Principal \<Rightarrow> string \<Rightarrow> string \<Rightarrow> string \<Rightarrow> string \<Rightarrow> 'a relay_db_scheme \<Rightarrow> delivery_page reply \<times> 'a relay_db_scheme" where
  "list_deliveries p limit0 offset0 status subID d =
     (case (page_value 50 limit0, page_value 0 offset0) of
        (Some limit, Some offset) \<Rightarrow>
          if limit < 1 \<or> limit > 100
          then (Denied 400 (''limit must be 1'' @ [char_of (0xE2::nat), char_of (0x80::nat), char_of (0x93::nat)] @ ''100''), d)
          else if status \<noteq> [] \<and> status \<notin> set delivery_statuses then (Denied 400 ''invalid delivery status'', d)
          else (case ListEventDeliveries (eventOwner p) subID status (Suc (nat limit)) (nat offset) d of
             (None, d1) \<Rightarrow> (Denied 500 store_error, d1)
           | (Some items, d1) \<Rightarrow>
               (case hide_events (p_TenantID p) (take (nat limit) items) d1 of
                  (shown, d2) \<Rightarrow> (Granted \<lparr>dp_items = shown, dp_limit = limit, dp_offset = offset,
                                          dp_has_more = length items > nat limit\<rparr>, d2)))
      | _ \<Rightarrow> (Denied 400 ''invalid pagination'', d))"

definition handleEventDeliveries ::
  "Principal \<Rightarrow> string \<Rightarrow> string \<Rightarrow> string \<Rightarrow> string \<Rightarrow> string \<Rightarrow> 'a relay_db_scheme \<Rightarrow>
   (EventDelivery + delivery_page) reply \<times> 'a relay_db_scheme" where
  "handleEventDeliveries p i limit offset status subID d =
     (if i \<noteq> [] then
        (case ownedEventDelivery p i d of
           (Denied code m, d') \<Rightarrow> (Denied code m, d')
         | (Granted v, d') \<Rightarrow> (Granted (Inl v), d'))
      else (case list_deliveries p limit offset status subID d of
           (Denied code m, d') \<Rightarrow> (Denied code m, d')
         | (Granted page, d') \<Rightarrow> (Granted (Inr page), d')))"

definition handleEventDeliveryRetry ::
  "gotime \<Rightarrow> Principal \<Rightarrow> string \<Rightarrow> 'a relay_db_scheme \<Rightarrow> unit reply \<times> 'a relay_db_scheme" where
  "handleEventDeliveryRetry now p i d =
     (case ownedEventDelivery p i d of
        (Denied code m, d1) \<Rightarrow> (Denied code m, d1)
      | (Granted v, d1) \<Rightarrow>
          (case ownedEventSubscription p (ed_SubscriptionID v) d1 of
             (Denied code m, d2) \<Rightarrow> (Denied code m, d2)
           | (Granted sub, d2) \<Rightarrow>
               if es_Deleted sub then (deleted_reply, d2)
               else (case EventSourceAllowed (es_OwnerTenantID sub) (event_ref v) d2 of
                  (ok, d3) \<Rightarrow>
                    if \<not> permitted ok then (Denied 403 ''subscription owner no longer has event permission'', d3)
                    else (case RetryEventDelivery now (ed_ID v) d3 of
                       (Inl e, d4) \<Rightarrow> (Denied 409 (relay_error_text e), d4)
                     | (Inr _, d4) \<Rightarrow> (Granted (), d4)))))"

text \<open>The list of event sources the caller may subscribe to. \<open>statuses\<close> are the states of the connected channels.\<close>

record EventSource =
  so_Ref :: string
  so_Name :: string
  so_Sources :: "string list"
  so_EventTypes :: "string list"
  so_Connected :: bool
  so_State :: string
  so_Ingestion :: "EventIngestionHealth option"

fun add_sources ::
  "string \<Rightarrow> relay_service option \<Rightarrow> EventSource list \<Rightarrow> 'a relay_db_scheme \<Rightarrow> EventSource list option \<times> 'a relay_db_scheme" where
  "add_sources tenant relay [] d = (Some [], d)"
| "add_sources tenant relay (item # rest) d =
     (case EventSourceAllowed tenant (so_Ref item) d of
        (Inl e, d') \<Rightarrow> (None, d')
      | (Inr ok, d') \<Rightarrow>
          (case add_sources tenant relay rest d' of
             (None, d'') \<Rightarrow> (None, d'')
           | (Some items, d'') \<Rightarrow>
               (Some (if ok then item\<lparr>so_Ingestion := map_option (\<lambda>sv. sv_health sv (so_Ref item)) relay\<rparr> # items
                      else items), d'')))"

definition feishu_types :: "string list" where
  "feishu_types = [''im.message.receive_v1'', ''card.action.trigger'', ''drive.file.bitable_record_changed_v1'',
     ''drive.file.bitable_field_changed_v1'', ''drive.file.edit_v1'']"

definition channel_source ::
  "relay_service option \<Rightarrow> (string \<Rightarrow> (string \<times> bool) option) \<Rightarrow> Channel \<Rightarrow> EventSource" where
  "channel_source relay statuses ch =
     (let ref = ''channel:'' @ c_ID ch;
          platform = (c_Type ch = ''feishu'' \<or> c_Type ch = ''lark'');
          types = (if platform then remdups_adj (sort (LifecycleEventTypes @ feishu_types @
                     (case relay of None \<Rightarrow> [] | Some sv \<Rightarrow> EventTypes ref (c_Type ch) sv)))
                   else LifecycleEventTypes);
          (st, connected) = (case statuses (c_ID ch) of None \<Rightarrow> ([], False) | Some x \<Rightarrow> x);
          state = (if st \<noteq> [] then st else if c_Enabled ch then ''pending'' else ''stopped'')
      in \<lparr>so_Ref = ref, so_Name = c_Name ch,
          so_Sources = (if platform then [''agentmux'', c_Type ch] else [''agentmux'']),
          so_EventTypes = types, so_Connected = connected, so_State = state, so_Ingestion = None\<rparr>)"

definition local_source :: "relay_service option \<Rightarrow> string \<Rightarrow> string \<Rightarrow> EventSource" where
  "local_source relay ref name =
     \<lparr>so_Ref = ref, so_Name = name, so_Sources = [''agentmux''], so_EventTypes = LifecycleEventTypes,
      so_Connected = (relay \<noteq> None), so_State = ''local'', so_Ingestion = None\<rparr>"

text \<open>A query followed by the sources of its rows.\<close>

definition list_sources ::
  "string \<Rightarrow> relay_service option \<Rightarrow> ('r \<Rightarrow> EventSource) \<Rightarrow>
   ('a relay_db_scheme \<Rightarrow> 'r list option \<times> 'a relay_db_scheme) \<Rightarrow> 'a relay_db_scheme \<Rightarrow>
   EventSource list option \<times> 'a relay_db_scheme" where
  "list_sources tenant relay src rows d =
     (case rows d of
        (None, d') \<Rightarrow> (None, d')
      | (Some items, d') \<Rightarrow> add_sources tenant relay (map src items) d')"

definition handleEventSources ::
  "(string \<Rightarrow> (string \<times> bool) option) \<Rightarrow> Principal \<Rightarrow> relay_service option \<Rightarrow> 'a relay_db_scheme \<Rightarrow>
   EventSource list reply \<times> 'a relay_db_scheme" where
  "handleEventSources statuses p relay d =
     (let tenant = p_TenantID p; failed = Denied 500 store_error in
      case list_sources tenant relay (channel_source relay statuses) ListChannels d of
        (None, d1) \<Rightarrow> (failed, d1)
      | (Some s1, d1) \<Rightarrow>
      (case list_sources tenant relay (\<lambda>a. local_source relay (''agent:'' @ a_ID a) (a_Name a)) ListAgentInstances d1 of
        (None, d2) \<Rightarrow> (failed, d2)
      | (Some s2, d2) \<Rightarrow>
      (case list_sources tenant relay (\<lambda>t. local_source relay (''trigger:'' @ tg_ID t) (tg_Name t)) ListTriggers d2 of
        (None, d3) \<Rightarrow> (failed, d3)
      | (Some s3, d3) \<Rightarrow>
      (case add_sources tenant relay [local_source relay ''system'' ''AgentMux system''] d3 of
        (None, d4) \<Rightarrow> (failed, d4)
      | (Some s4, d4) \<Rightarrow> (Granted (s1 @ s2 @ s3 @ s4), d4)))))"

end
