(* ===== verification/Event_Safety.thy ===== *)
theory Event_Safety
  imports Event_Relay
begin

text \<open>
  The event relay as a transition system: workers of any number of processes claim and deliver events while the
  handlers save, delete, rotate, ingest, retry and prune, with a clock that bounds every request by the deadline of
  its context. The invariant covers the keys and references of the tables, the leases, and the workers.
\<close>

section \<open>What the operations do to the tables\<close>

definition same_tables :: "'a relay_db_scheme \<Rightarrow> 'a relay_db_scheme \<Rightarrow> bool" where
  "same_tables d d' \<longleftrightarrow> subs d' = subs d \<and> events d' = events d \<and> deliveries d' = deliveries d \<and> attempts d' = attempts d"

lemma same_tables_tick [simp]: "same_tables d (d\<lparr>tick := n\<rparr>)"
  by (simp add: same_tables_def)

lemma same_tables_refl [simp]: "same_tables d d"
  by (simp add: same_tables_def)

lemma same_tables_trans: "same_tables d e \<Longrightarrow> same_tables e f \<Longrightarrow> same_tables d f"
  by (simp add: same_tables_def)

lemma tx_then_Commit:
  "tx_then m k = (Commit r, d') \<longleftrightarrow> (\<exists>x d1. m = (Some x, d1) \<and> k x d1 = (Commit r, d'))"
  by (auto simp: tx_then_def split: prod.splits option.splits)

lemma tx_then_Rollback:
  "tx_then m k = (Rollback r, d') \<longleftrightarrow>
     fst m = None \<and> r = Inl DbError \<and> d' = snd m \<or> (\<exists>x d1. m = (Some x, d1) \<and> k x d1 = (Rollback r, d'))"
  by (auto simp: tx_then_def split: prod.splits option.splits)

lemma query_Some:
  "sql_query f d = (Some r, d') \<longleftrightarrow>
     \<not> fault d (tick d) \<and> r = f (d\<lparr>tick := Suc (tick d)\<rparr>) \<and> d' = d\<lparr>tick := Suc (tick d)\<rparr>"
  by (auto simp: sql_query_def Let_def)

lemma returning_Some:
  "sql_returning f d = (Some r, d') \<longleftrightarrow> \<not> fault d (tick d) \<and> f (d\<lparr>tick := Suc (tick d)\<rparr>) = Some (r, d')"
  by (auto simp: sql_returning_def Let_def split: option.splits)

lemma update_subs_Some:
  "update_subs P f d = (Some n, d') \<longleftrightarrow>
     \<not> fault d (tick d) \<and> n = count_rows P (subs d) \<and>
     d' = d\<lparr>tick := Suc (tick d), subs := map (\<lambda>r. if P r then f r else r) (subs d)\<rparr>"
  by (auto simp: update_subs_def returning_Some)

lemma update_deliveries_Some:
  "update_deliveries P f d = (Some n, d') \<longleftrightarrow>
     \<not> fault d (tick d) \<and> n = count_rows P (deliveries d) \<and>
     d' = d\<lparr>tick := Suc (tick d), deliveries := map (\<lambda>r. if P r then f r else r) (deliveries d)\<rparr>"
  by (auto simp: update_deliveries_def returning_Some)

lemmas tx_simps = tx_then_Commit tx_then_Rollback query_Some returning_Some update_subs_Some update_deliveries_Some

lemma returning_None: "sql_returning f d = (None, d') \<Longrightarrow> d' = d\<lparr>tick := Suc (tick d)\<rparr>"
  by (auto simp: sql_returning_def Let_def split: if_splits option.splits)

lemma count_rows_pos: "count_rows P rows = 1 \<Longrightarrow> \<exists>r\<in>set rows. P r"
  by (cases "filter P rows") (auto simp: count_rows_def filter_eq_Cons_iff)

text \<open>Claiming a delivery.\<close>

definition claimed ::
  "string \<Rightarrow> int \<Rightarrow> EventDelivery \<Rightarrow> 'a relay_db_scheme \<Rightarrow> 'a relay_db_scheme \<Rightarrow> sub_row \<Rightarrow> delivery_row \<Rightarrow> bool" where
  "claimed token ms v d d' s q \<longleftrightarrow>
     s \<in> set (subs d) \<and> \<not> sr_deleted s \<and> \<not> sr_paused s \<and> sr_lease_until s \<le> ms \<and>
     q \<in> set (deliveries d) \<and> dr_sub q = sr_id s \<and> ready ms q \<and>
     ed_ID v = dr_id q \<and> ed_SubscriptionID v = sr_id s \<and> ed_EventID v = dr_event q \<and> ed_LeaseToken v = token \<and>
     subs d' = map (\<lambda>x. if sr_id x = sr_id s then x\<lparr>sr_lease_token := token, sr_lease_until := ms + lease_ms,
                          sr_updated := ms\<rparr> else x) (subs d) \<and>
     deliveries d' = map (\<lambda>x. if dr_id x = dr_id q then x\<lparr>dr_status := ''delivering'', dr_lease_token := token,
                          dr_lease_until := ms + lease_ms\<rparr> else x) (deliveries d) \<and>
     events d' = events d \<and> attempts d' = attempts d"

lemma first_row_in: "first_row xs = Some x \<Longrightarrow> x \<in> set xs"
  by (auto simp: first_row_def split: list.splits)

lemma claimable_sub_Some:
  assumes "claimable_sub ms d = Some i"
  shows "\<exists>s. s \<in> set (subs d) \<and> sr_id s = i \<and> \<not> sr_deleted s \<and> \<not> sr_paused s \<and> sr_lease_until s \<le> ms"
  using assms by (auto simp: claimable_sub_def dest!: first_row_in)

lemma claimable_delivery_Some:
  assumes "claimable_delivery i ms d = Some v"
  shows "\<exists>q. q \<in> set (deliveries d) \<and> dr_sub q = i \<and> ready ms q \<and> ed_ID v = dr_id q \<and> ed_SubscriptionID v = i \<and>
     ed_EventID v = dr_event q"
  using assms
  by (auto simp: claimable_delivery_def joined_def scanEventDelivery_def bind_eq_Some_conv dest!: first_row_in)

lemma ClaimEventDelivery_effect:
  assumes "ClaimEventDelivery token now d = (r, d')"
  shows "(case r of Inr (Some v) \<Rightarrow> \<exists>s q. claimed token (UnixMilli now) v d d' s q | _ \<Rightarrow> same_tables d d')"
  using assms unfolding ClaimEventDelivery_def
proof (cases rule: in_tx_cases)
  case (unchanged n d2)
  have "r \<noteq> Inr (Some v)" for v
    using unchanged(2) by (auto simp: claim_body_def tx_simps split: option.splits)
  with unchanged(1) show ?thesis by (auto split: sum.splits option.splits)
next
  case (committed d2 n)
  let ?ms = "UnixMilli now" and ?d1 = "d\<lparr>tick := Suc (tick d)\<rparr>"
  from committed(1) obtain i v where i: "claimable_sub ?ms (?d1\<lparr>tick := Suc (tick ?d1)\<rparr>) = Some i"
    and v: "claimable_delivery i ?ms (?d1\<lparr>tick := Suc (Suc (tick ?d1))\<rparr>) = Some v"
    and r: "r = Inr (Some (v\<lparr>ed_LeaseToken := token\<rparr>))"
    and t: "subs d2 = map (\<lambda>x. if sr_id x = i then x\<lparr>sr_lease_token := token, sr_lease_until := ?ms + lease_ms,
                          sr_updated := ?ms\<rparr> else x) (subs d)"
      "deliveries d2 = map (\<lambda>x. if dr_id x = ed_ID v then x\<lparr>dr_status := ''delivering'', dr_lease_token := token,
                          dr_lease_until := ?ms + lease_ms\<rparr> else x) (deliveries d)"
      "events d2 = events d" "attempts d2 = attempts d"
    by (auto simp: claim_body_def tx_simps split: option.splits)
  from claimable_sub_Some [OF i] obtain s where s: "s \<in> set (subs d)" "sr_id s = i" "\<not> sr_deleted s" "\<not> sr_paused s"
    "sr_lease_until s \<le> ?ms" by auto
  from claimable_delivery_Some [OF v] obtain q where q: "q \<in> set (deliveries d)" "dr_sub q = i" "ready ?ms q"
    "ed_ID v = dr_id q" "ed_SubscriptionID v = i" "ed_EventID v = dr_event q" by auto
  have "claimed token ?ms (v\<lparr>ed_LeaseToken := token\<rparr>) d d' s q"
    using s q t committed(2) by (simp add: claimed_def)
  then show ?thesis unfolding r by auto
qed

text \<open>Beginning and finishing an attempt touch only the row the caller holds.\<close>

lemma BeginEventAttempt_effect:
  assumes "BeginEventAttempt uuid v now d = (r, d')"
  shows "case r of
     Inl _ \<Rightarrow> same_tables d d'
   | Inr (i, v') \<Rightarrow> (\<exists>q\<in>set (deliveries d). held v q) \<and> ed_ID v' = ed_ID v \<and> ed_SubscriptionID v' = ed_SubscriptionID v \<and>
       ed_LeaseToken v' = ed_LeaseToken v \<and> i \<notin> at_id ` set (attempts d) \<and> subs d' = subs d \<and> events d' = events d \<and>
       deliveries d' = map (\<lambda>x. if held v x then x\<lparr>dr_attempts := dr_attempts x + 1,
          dr_first := (if dr_first x = 0 then UnixMilli now else dr_first x), dr_updated := UnixMilli now\<rparr> else x) (deliveries d) \<and>
       attempts d' = attempts d @ [\<lparr>at_id = i, at_delivery = ed_ID v, at_started = UnixMilli now,
                      at_finished = 0, at_http = 0, at_error = []\<rparr>]"
proof -
  obtain r0 d0 where b: "in_tx (Inl DbError) (begin_body uuid v (UnixMilli now)) d = (r0, d0)" by fastforce
  then show ?thesis
  proof (cases rule: in_tx_cases)
    case (unchanged n d2)
    have "r0 \<noteq> Inr i" for i
      using unchanged(2) by (auto simp: begin_body_def tx_simps split: if_splits)
    with b unchanged(1) assms show ?thesis by (cases r0) (auto simp: BeginEventAttempt_def)
  next
    case (committed d2 n)
    from committed(1) have "count_rows (held v) (deliveries d) = 1"
      by (auto simp: begin_body_def tx_simps split: if_splits)
    then have "\<exists>q\<in>set (deliveries d). held v q" by (rule count_rows_pos)
    moreover have "\<not> list_ex (\<lambda>a. at_id a = ''try_'' @ uuid) (attempts d) \<and> r0 = Inr (''try_'' @ uuid)"
      using committed(1) by (auto simp: begin_body_def tx_simps split: if_splits)
    then have "''try_'' @ uuid \<notin> at_id ` set (attempts d)" "r0 = Inr (''try_'' @ uuid)" by (auto simp: list_ex_iff)
    ultimately show ?thesis
      using b committed assms by (auto simp: BeginEventAttempt_def begin_body_def tx_simps split: if_splits)
  qed
qed

lemma FinishEventDelivery_effect:
  assumes "FinishEventDelivery now v attempt status code message next_at d = (r, d')"
  shows "case r of
     Inl _ \<Rightarrow> same_tables d d'
   | Inr _ \<Rightarrow> (\<exists>q\<in>set (deliveries d). held v q) \<and> events d' = events d \<and>
       deliveries d' = map (\<lambda>x. if held v x then x\<lparr>dr_status := status, dr_last_error := message,
          dr_next := UnixMilli next_at, dr_lease_token := [], dr_lease_until := 0, dr_updated := UnixMilli now\<rparr> else x)
          (deliveries d) \<and>
       attempts d' = map (\<lambda>a. if attempt \<noteq> [] \<and> at_id a = attempt then a\<lparr>at_finished := UnixMilli now, at_http := code,
          at_error := message\<rparr> else a) (attempts d) \<and>
       subs d' = map (\<lambda>x. if sr_id x = ed_SubscriptionID v \<and> sr_lease_token x = ed_LeaseToken v
          then x\<lparr>sr_lease_token := [], sr_lease_until := 0\<rparr> else x) (subs d)"
  using assms unfolding FinishEventDelivery_def
proof (cases rule: in_tx_cases)
  case (unchanged n d2)
  have "r \<noteq> Inr i" for i
    using unchanged(2) by (auto simp: finish_body_def tx_simps split: if_splits)
  with unchanged(1) show ?thesis by (cases r) auto
next
  case (committed d2 n)
  from committed(1) have "count_rows (held v) (deliveries d) = 1"
    by (auto simp: finish_body_def tx_simps split: if_splits)
  then have "\<exists>q\<in>set (deliveries d). held v q" by (rule count_rows_pos)
  with committed show ?thesis
    by (cases "attempt = []") (auto simp: finish_body_def tx_simps split: if_splits)
qed

lemma RetryEventDelivery_effect:
  assumes "RetryEventDelivery now i d = (r, d')"
  shows "subs d' = subs d \<and> events d' = events d \<and> attempts d' = attempts d \<and>
    (deliveries d' = deliveries d \<or>
     deliveries d' = map (\<lambda>x. if dr_id x = i \<and> dr_status x \<in> set [''dead'', ''retry'', ''blocked''] \<and>
          dr_lease_until x \<le> UnixMilli now
        then x\<lparr>dr_status := ''pending'', dr_first := 0, dr_next := UnixMilli now, dr_last_error := [],
               dr_updated := UnixMilli now\<rparr> else x) (deliveries d))"
  using assms
  by (auto simp: RetryEventDelivery_def Let_def update_deliveries_def sql_returning_def split: if_splits option.splits)

text \<open>Events and deliveries are only added, and only pending ones for live subscriptions.\<close>

lemma eventSourceAllowed_state: "eventSourceAllowed t ref d = (r, d') \<Longrightarrow> \<exists>n. d' = d\<lparr>tick := n\<rparr>"
proof -
  assume a: "eventSourceAllowed t ref d = (r, d')"
  have "\<exists>n. snd (eventSourceOwner ref d) = d\<lparr>tick := n\<rparr>"
    by (auto simp: eventSourceOwner_def sql_query_def Let_def intro: exI [of _ "tick d"] split: prod.splits option.splits)
  then show ?thesis
    using a by (auto simp: eventSourceAllowed_def sql_query_def Let_def
        split: prod.splits sum.splits option.splits if_splits)
qed

lemma allowed_subs_state: "allowed_subs ref xs d = (r, d') \<Longrightarrow> \<exists>n. d' = d\<lparr>tick := n\<rparr>"
proof (induction xs arbitrary: d r)
  case Nil
  then show ?case by (auto intro: exI [of _ "tick d"])
next
  case (Cons sub xs)
  then show ?case
    by (auto split: prod.splits sum.splits if_splits dest!: eventSourceAllowed_state) (fastforce)+
qed

lemma allowed_subs_subset: "allowed_subs ref xs d = (Inr ys, d') \<Longrightarrow> set ys \<subseteq> set xs"
proof (induction xs arbitrary: d ys)
  case (Cons sub xs)
  then show ?case by (auto split: prod.splits sum.splits if_splits) blast+
qed simp

definition fresh_deliveries :: "string \<Rightarrow> delivery_row list \<Rightarrow> 'a relay_db_scheme \<Rightarrow> bool" where
  "fresh_deliveries event new d \<longleftrightarrow>
     (\<forall>r\<in>set new. dr_event r = event \<and> dr_status r = ''pending'' \<and> dr_lease_token r = [] \<and> dr_lease_until r = 0) \<and>
     distinct (map dr_id new) \<and> distinct (map dr_sub new) \<and>
     (\<forall>r\<in>set new. \<forall>q\<in>set (deliveries d). dr_id q \<noteq> dr_id r \<and> (dr_sub q, dr_event q) \<noteq> (dr_sub r, event))"

lemma insert_deliveries_effect:
  assumes "insert_deliveries event now uuid k xs d = (Commit r, d')"
  shows "\<exists>new. deliveries d' = deliveries d @ new \<and> map dr_sub new = map es_ID xs \<and> fresh_deliveries event new d \<and>
    subs d' = subs d \<and> events d' = events d \<and> attempts d' = attempts d \<and>
    (\<forall>r\<in>set new. r = new_delivery (dr_id r) (dr_sub r) event now)"
  using assms
proof (induction xs arbitrary: k d)
  case Nil
  then show ?case by (auto simp: fresh_deliveries_def intro: exI [of _ "[]"])
next
  case (Cons sub xs)
  let ?r = "new_delivery (''del_'' @ uuid k) (es_ID sub) event now"
  from Cons.prems obtain d1 where e: "sql_exec (insert_delivery ?r) d = (True, d1)"
    and rest: "insert_deliveries event now uuid (Suc k) xs d1 = (Commit r, d')"
    by (auto split: prod.splits bool.splits)
  from e have d1: "deliveries d1 = deliveries d @ [?r]" "subs d1 = subs d" "events d1 = events d" "attempts d1 = attempts d"
    and u: "\<forall>q\<in>set (deliveries d). dr_id q \<noteq> dr_id ?r \<and> \<not> (dr_sub q = dr_sub ?r \<and> dr_event q = dr_event ?r)"
    by (auto simp: sql_exec_def Let_def insert_delivery_def list_ex_iff split: if_splits)
  from Cons.IH [OF rest] obtain new where new: "deliveries d' = deliveries d1 @ new" "map dr_sub new = map es_ID xs"
    "fresh_deliveries event new d1" "subs d' = subs d1" "events d' = events d1" "attempts d' = attempts d1"
    "\<forall>r\<in>set new. r = new_delivery (dr_id r) (dr_sub r) event now" by blast
  have "fresh_deliveries event (?r # new) d"
    using new(3) u unfolding fresh_deliveries_def d1
    by (auto simp: new_delivery_def)
  then show ?case
    using new d1 by (intro exI [of _ "?r # new"]) (simp add: new_delivery_def)
qed

lemma scan_id [simp]: "es_ID (scanEventSubscription s) = sr_id s"
  by (simp add: scanEventSubscription_def)

lemma IngestRelayEvent_effect:
  assumes "IngestRelayEvent now uuid e target d = (r, d')"
  shows "same_tables d d' \<or>
    (\<exists>new row. ev_ID e \<notin> vr_id ` set (events d) \<and> dedupe_key e \<notin> vr_dedupe ` set (events d) \<and>
       vr_id row = ev_ID e \<and> vr_dedupe row = dedupe_key e \<and> vr_envelope row = e \<and> events d' = events d @ [row] \<and>
       deliveries d' = deliveries d @ new \<and> fresh_deliveries (ev_ID e) new d \<and>
       (\<forall>r\<in>set new. \<exists>s\<in>set (subs d). \<not> sr_deleted s \<and> sr_id s = dr_sub r \<and> wanted target e (scanEventSubscription s)) \<and>
       subs d' = subs d \<and> attempts d' = attempts d)"
  using assms unfolding IngestRelayEvent_def
proof (cases rule: in_tx_cases)
  case (unchanged n d2)
  then show ?thesis by simp
next
  case (committed d2 n)
  let ?live = "map scanEventSubscription (filter (\<lambda>r. \<not> sr_deleted r) (subs d))"
  from committed(1) obtain d1 ok where
    a: "allowed_subs (ev_SourceRef e) (filter (wanted target e) ?live) (d\<lparr>tick := Suc (Suc (tick d))\<rparr>) = (Inr ok, d1)"
    and b: "(if ok = [] then (if target \<noteq> [] then (Rollback (Inl (Refused target_gone)), d1) else (Commit (Inr ()), d1))
         else tx_then (sql_returning (insert_event \<lparr>vr_id = ev_ID e, vr_dedupe = dedupe_key e,
                   vr_source_ref = ev_SourceRef e, vr_envelope = e, vr_created = UnixMilli now\<rparr>) d1) (\<lambda>n d3.
             if n = 0 then (Commit (Inr ()), d3)
             else insert_deliveries (ev_ID e) (UnixMilli now) uuid 0 ok d3)) = (Commit r, d2)"
    by (auto simp: ingest_body_def tx_simps split: prod.splits sum.splits)
  from allowed_subs_state [OF a] have d1: "subs d1 = subs d" "events d1 = events d" "deliveries d1 = deliveries d"
    "attempts d1 = attempts d" by auto
  have sub: "\<forall>x\<in>set ok. \<exists>s\<in>set (subs d). \<not> sr_deleted s \<and> sr_id s = es_ID x \<and> wanted target e (scanEventSubscription s)"
    using allowed_subs_subset [OF a] by fastforce
  let ?row = "\<lparr>vr_id = ev_ID e, vr_dedupe = dedupe_key e, vr_source_ref = ev_SourceRef e, vr_envelope = e,
      vr_created = UnixMilli now\<rparr>"
  let ?d3 = "d1\<lparr>tick := Suc (tick d1), events := events d @ [?row]\<rparr>"
  have "d2 = d1 \<or> d2 = d1\<lparr>tick := Suc (tick d1)\<rparr> \<or>
    ev_ID e \<notin> vr_id ` set (events d) \<and> dedupe_key e \<notin> vr_dedupe ` set (events d) \<and>
    insert_deliveries (ev_ID e) (UnixMilli now) uuid 0 ok ?d3 = (Commit r, d2)"
    using b by (cases "ok = []") (auto simp: tx_simps insert_event_def list_ex_iff d1 split: if_splits)
  then consider (same) "same_tables d d2"
    | (new) "ev_ID e \<notin> vr_id ` set (events d)" "dedupe_key e \<notin> vr_dedupe ` set (events d)"
        "insert_deliveries (ev_ID e) (UnixMilli now) uuid 0 ok ?d3 = (Commit r, d2)"
    using d1 by (auto simp: same_tables_def)
  then show ?thesis
  proof cases
    case same
    with committed(2) show ?thesis by (simp add: same_tables_def)
  next
    case n: new
    from insert_deliveries_effect [OF n(3)] obtain new where new: "deliveries d2 = deliveries ?d3 @ new"
      "map dr_sub new = map es_ID ok" "fresh_deliveries (ev_ID e) new ?d3" "subs d2 = subs ?d3" "events d2 = events ?d3"
      "attempts d2 = attempts ?d3" by blast
    have "\<forall>r\<in>set new. dr_sub r \<in> es_ID ` set ok"
      using new(2) by (metis image_eqI image_set list.set_map)
    then have "\<forall>r\<in>set new. \<exists>s\<in>set (subs d). \<not> sr_deleted s \<and> sr_id s = dr_sub r \<and> wanted target e (scanEventSubscription s)"
      using sub by fastforce
    moreover have "fresh_deliveries (ev_ID e) new d"
      using new(3) d1 by (simp add: fresh_deliveries_def)
    ultimately show ?thesis
      using n new d1 committed(2) by (intro disjI2 exI [of _ new] exI [of _ ?row]) simp
  qed
qed

definition row_added :: "'a relay_db_scheme \<Rightarrow> 'a relay_db_scheme \<Rightarrow> bool" where
  "row_added d d' \<longleftrightarrow> (\<exists>row. subs d' = subs d @ [row] \<and> sr_id row \<notin> sr_id ` set (subs d) \<and> \<not> sr_deleted row \<and>
     (sr_owner row, sr_key row) \<notin> (\<lambda>r. (sr_owner r, sr_key r)) ` set (subs d) \<and> sr_lease_token row = [] \<and>
     sr_lease_until row = 0)"

text \<open>The rows of one key of a live subscription take a new configuration; nothing else changes in them.\<close>

definition row_saved :: "'a relay_db_scheme \<Rightarrow> 'a relay_db_scheme \<Rightarrow> bool" where
  "row_saved d d' \<longleftrightarrow> (\<exists>t k c p u. subs d' = map (\<lambda>x. if sr_owner x = t \<and> sr_key x = k
       then x\<lparr>sr_config := c, sr_paused := p, sr_updated := u\<rparr> else x) (subs d) \<and>
     (\<exists>q\<in>set (subs d). sr_owner q = t \<and> sr_key q = k \<and> \<not> sr_deleted q))"

definition rest_same :: "'a relay_db_scheme \<Rightarrow> 'a relay_db_scheme \<Rightarrow> bool" where
  "rest_same d d' \<longleftrightarrow> events d' = events d \<and> deliveries d' = deliveries d \<and> attempts d' = attempts d"

lemma upsert_sub_effect:
  assumes "upsert_sub row d = Some (res, d')" and "\<not> sr_deleted row" "sr_lease_token row = []" "sr_lease_until row = 0"
  shows "rest_same d d' \<and> (subs d' = subs d \<or> row_added d d' \<or> row_saved d d')"
proof -
  let ?P = "\<lambda>q. sr_owner q = sr_owner row \<and> sr_key q = sr_key row"
  from assms(1) have new: "sr_id row \<notin> sr_id ` set (subs d)"
    by (auto simp: upsert_sub_def list_ex_iff split: if_splits)
  show ?thesis
  proof (cases "find ?P (subs d)")
    case None
    then have "(sr_owner row, sr_key row) \<notin> (\<lambda>r. (sr_owner r, sr_key r)) ` set (subs d)"
      by (auto simp: find_None_iff')
    moreover have "subs d' = subs d @ [row]" "rest_same d d'"
      using assms(1) None by (auto simp: upsert_sub_def rest_same_def split: if_splits)
    ultimately show ?thesis using new assms(2-4) by (auto simp: row_added_def)
  next
    case (Some q)
    have q: "q \<in> set (subs d)" "?P q" using find_Some_in [OF Some] by auto
    show ?thesis
    proof (cases "sr_deleted q")
      case True
      with assms(1) Some show ?thesis by (auto simp: upsert_sub_def rest_same_def split: if_splits)
    next
      case False
      with assms(1) Some have "rest_same d d'" "subs d' = map (\<lambda>x. if sr_owner x = sr_owner row \<and> sr_key x = sr_key row
          then x\<lparr>sr_config := sr_config row, sr_paused := sr_paused row, sr_updated := sr_updated row\<rparr> else x) (subs d)"
        by (auto simp: upsert_sub_def rest_same_def split: if_splits)
      with q False show ?thesis unfolding row_saved_def by blast
    qed
  qed
qed

lemma save_sub_effect:
  assumes "save_sub pr ms sub d = (r, d')"
  shows "rest_same d d' \<and> (subs d' = subs d \<or> row_added d d' \<or> row_saved d d')"
proof -
  let ?row = "\<lparr>sr_id = pr, sr_owner = es_OwnerTenantID sub, sr_key = es_Key sub, sr_config = sub\<lparr>es_Secret := []\<rparr>,
          sr_secret = es_Secret sub, sr_paused = es_Paused sub, sr_deleted = False, sr_created = ms,
          sr_updated = ms, sr_lease_token = [], sr_lease_until = 0\<rparr>"
  obtain x where x: "sql_returning (upsert_sub ?row) d = (x, d')"
    using assms by (auto simp: save_sub_def split: prod.splits option.splits)
  show ?thesis
  proof (cases x)
    case None
    with x have "d' = d\<lparr>tick := Suc (tick d)\<rparr>" by (auto dest: returning_None)
    then show ?thesis by (simp add: rest_same_def)
  next
    case (Some res)
    with x have "upsert_sub ?row (d\<lparr>tick := Suc (tick d)\<rparr>) = Some (res, d')" by (simp add: returning_Some)
    from upsert_sub_effect [OF this] show ?thesis by (simp add: rest_same_def row_added_def row_saved_def)
  qed
qed

lemma SaveEventSubscription_effect:
  assumes "SaveEventSubscription uuid now sub d = (r, d')"
  shows "rest_same d d' \<and> (subs d' = subs d \<or> row_added d d' \<or> row_saved d d')"
proof (cases "es_ID sub = []")
  case True
  with assms show ?thesis by (simp add: SaveEventSubscription_def Let_def save_sub_effect)
next
  case False
  obtain found d1 where g: "GetEventSubscription (es_ID sub) d = (found, d1)" by fastforce
  then have d1: "d1 = d\<lparr>tick := Suc (tick d)\<rparr>"
    by (auto simp: GetEventSubscription_def sql_query_def Let_def)
  with False assms g have "d' = d1 \<or> save_sub (''sub_'' @ uuid) (UnixMilli now) sub d1 = (r, d')"
    by (auto simp: SaveEventSubscription_def Let_def split: option.splits if_splits)
  then show ?thesis
  proof
    assume "save_sub (''sub_'' @ uuid) (UnixMilli now) sub d1 = (r, d')"
    from save_sub_effect [OF this] show ?thesis by (simp add: d1 rest_same_def row_added_def row_saved_def)
  qed (simp add: d1 rest_same_def)
qed

lemma RotateEventSecret_effect:
  assumes "RotateEventSecret now i secret d = (r, d')"
  shows "rest_same d d' \<and> (subs d' = subs d \<or> subs d' = map (\<lambda>x. if sr_id x = i \<and> \<not> sr_deleted x
     then x\<lparr>sr_secret := secret, sr_updated := UnixMilli now\<rparr> else x) (subs d))"
  using assms
  by (auto simp: RotateEventSecret_def Let_def sql_returning_def rest_same_def split: if_splits option.splits)

lemma sql_tx_effect:
  assumes "sql_tx fs d = (b, d')"
  obtains n where "d' = d\<lparr>tick := n\<rparr>" | d2 n where "sql_all fs (d\<lparr>tick := Suc (tick d)\<rparr>) = (True, d2)" "d' = d2\<lparr>tick := n\<rparr>"
  using assms by (auto simp: sql_tx_def sql_exec_Some split: prod.splits bool.splits if_splits)

lemma DeleteEventSubscription_effect:
  assumes "DeleteEventSubscription now i d = (b, d')"
  shows "\<not> b \<and> same_tables d d' \<or>
    b \<and> events d' = events d \<and> attempts d' = attempts d \<and>
    subs d' = map (\<lambda>r. if sr_id r = i then r\<lparr>sr_deleted := True, sr_secret := [], sr_updated := UnixMilli now,
            sr_lease_token := [], sr_lease_until := 0\<rparr> else r) (subs d) \<and>
    deliveries d' = map (\<lambda>r. if dr_sub r = i \<and> open_status (dr_status r)
            then r\<lparr>dr_status := ''cancelled'', dr_lease_token := [], dr_lease_until := 0, dr_updated := UnixMilli now\<rparr>
            else r) (deliveries d)"
  using assms
  by (auto simp: DeleteEventSubscription_def Let_def sql_tx_def sql_exec_def same_tables_def split: if_splits)

lemma PruneEventDeliveries_effect:
  assumes "PruneEventDeliveries now d = (b, d')"
  shows "same_tables d d' \<or>
    subs d' = subs d \<and> deliveries d' = filter (\<lambda>r. \<not> prunable now r) (deliveries d) \<and>
    attempts d' = filter (\<lambda>a. \<not> (\<exists>r\<in>set (deliveries d). dr_id r = at_delivery a \<and> prunable now r)) (attempts d) \<and>
    events d' = filter (\<lambda>e. \<exists>r\<in>set (deliveries d). \<not> prunable now r \<and> dr_event r = vr_id e) (events d)"
  using assms
  by (auto simp: PruneEventDeliveries_def sql_tx_def sql_exec_def Let_def same_tables_def list_ex_iff
      intro!: filter_cong split: if_splits)

section \<open>The invariant of the tables\<close>

text \<open>The keys and references of the rows, which most operations leave alone.\<close>

type_synonym relay_shape =
  "(string \<times> string \<times> string) list \<times> (string \<times> string \<times> string) list \<times> (string \<times> string) list \<times> (string \<times> string) list"

definition shape :: "'a relay_db_scheme \<Rightarrow> relay_shape" where
  "shape d = (map (\<lambda>s. (sr_id s, sr_owner s, sr_key s)) (subs d), map (\<lambda>r. (dr_id r, dr_sub r, dr_event r)) (deliveries d),
     map (\<lambda>e. (vr_id e, vr_dedupe e)) (events d), map (\<lambda>a. (at_id a, at_delivery a)) (attempts d))"

definition shape_ok :: "relay_shape \<Rightarrow> bool" where
  "shape_ok x \<longleftrightarrow> (case x of (S, R, E, A) \<Rightarrow>
     distinct (map fst S) \<and> distinct (map snd S) \<and> distinct (map fst R) \<and> distinct (map snd R) \<and>
     distinct (map fst E) \<and> distinct (map snd E) \<and> distinct (map fst A) \<and>
     (\<forall>(i, s, e)\<in>set R. s \<in> fst ` set S \<and> e \<in> fst ` set E) \<and> (\<forall>(a, i)\<in>set A. i \<in> fst ` set R))"

definition row_ok :: "delivery_row \<Rightarrow> bool" where
  "row_ok r \<longleftrightarrow> dr_status r \<in> set delivery_statuses \<and>
     (dr_status r \<noteq> ''delivering'' \<longrightarrow> dr_lease_token r = [] \<and> dr_lease_until r = 0)"

text \<open>A deleted subscription has no secret and no lease, and none of its deliveries is being delivered.\<close>

definition silent :: "sub_row \<Rightarrow> 'a relay_db_scheme \<Rightarrow> bool" where
  "silent s d \<longleftrightarrow> sr_secret s = [] \<and> sr_lease_token s = [] \<and> sr_lease_until s = 0 \<and>
     (\<forall>r\<in>set (deliveries d). dr_sub r = sr_id s \<longrightarrow> dr_status r \<noteq> ''delivering'')"

definition relay_ok :: "'a relay_db_scheme \<Rightarrow> bool" where
  "relay_ok d \<longleftrightarrow> shape_ok (shape d) \<and> (\<forall>r\<in>set (deliveries d). row_ok r) \<and>
     (\<forall>s\<in>set (subs d). sr_deleted s \<longrightarrow> silent s d)"

lemma shape_same: "same_tables d d' \<Longrightarrow> shape d' = shape d"
  by (simp add: shape_def same_tables_def)

lemma relay_ok_same: "same_tables d d' \<Longrightarrow> relay_ok d' = relay_ok d"
  by (simp add: relay_ok_def shape_def same_tables_def silent_def)

lemma relay_ok_keys:
  assumes "relay_ok d"
  shows "distinct (map sr_id (subs d))" "distinct (map dr_id (deliveries d))"
    "distinct (map (\<lambda>s. (sr_owner s, sr_key s)) (subs d))" "distinct (map (\<lambda>r. (dr_sub r, dr_event r)) (deliveries d))"
    "distinct (map vr_id (events d))" "distinct (map vr_dedupe (events d))"
  using assms by (auto simp: relay_ok_def shape_ok_def shape_def comp_def)

lemma unique_row: "distinct (map f xs) \<Longrightarrow> x \<in> set xs \<Longrightarrow> y \<in> set xs \<Longrightarrow> f x = f y \<Longrightarrow> x = y"
  by (simp add: distinct_map inj_on_def)

lemma shape_refs:
  assumes "relay_ok d" "r \<in> set (deliveries d)"
  shows "dr_sub r \<in> sr_id ` set (subs d)" "dr_event r \<in> vr_id ` set (events d)"
  using assms by (force simp: relay_ok_def shape_ok_def shape_def)+

lemma relay_ok_claimed:
  assumes "claimed token ms v d d' s q" "relay_ok d"
  shows "relay_ok d'"
proof -
  have c: "s \<in> set (subs d)" "\<not> sr_deleted s" "q \<in> set (deliveries d)" "dr_sub q = sr_id s"
    "subs d' = map (\<lambda>x. if sr_id x = sr_id s then x\<lparr>sr_lease_token := token, sr_lease_until := ms + lease_ms,
                          sr_updated := ms\<rparr> else x) (subs d)"
    "deliveries d' = map (\<lambda>x. if dr_id x = dr_id q then x\<lparr>dr_status := ''delivering'', dr_lease_token := token,
                          dr_lease_until := ms + lease_ms\<rparr> else x) (deliveries d)"
    "events d' = events d" "attempts d' = attempts d"
    using assms(1) by (simp_all add: claimed_def)
  have "shape d' = shape d" by (simp add: shape_def c)
  moreover have "\<forall>r\<in>set (deliveries d'). row_ok r"
    using assms(2) unfolding c by (auto simp: relay_ok_def row_ok_def delivery_statuses_def)
  moreover have "silent x' d'" if x': "x' \<in> set (subs d')" "sr_deleted x'" for x'
  proof -
    from x' obtain x where x: "x \<in> set (subs d)" "x' = (if sr_id x = sr_id s then x\<lparr>sr_lease_token := token,
        sr_lease_until := ms + lease_ms, sr_updated := ms\<rparr> else x)" unfolding c by auto
    with x' have "sr_deleted x" by (auto split: if_splits)
    then have ne: "sr_id x \<noteq> sr_id s"
      using unique_row [OF relay_ok_keys(1) [OF assms(2)] x(1) c(1)] c(2) by auto
    have "silent x d" using assms(2) x(1) \<open>sr_deleted x\<close> by (simp add: relay_ok_def)
    moreover have "dr_id r \<noteq> dr_id q" if "r \<in> set (deliveries d)" "dr_sub r = sr_id x" for r
      using unique_row [OF relay_ok_keys(2) [OF assms(2)] that(1) c(3)] that(2) ne c(4) by auto
    ultimately show ?thesis
      using x(2) ne unfolding silent_def c by auto
  qed
  ultimately show ?thesis using assms(2) by (simp add: relay_ok_def)
qed

text \<open>
  A change of rows that keeps the keys and the references, starts no delivery, and leaves the subscriptions silent
  that were.
\<close>

lemma relay_ok_update:
  assumes "relay_ok d" "shape d' = shape d" "\<forall>r\<in>set (deliveries d'). row_ok r"
    and "\<And>s'. s' \<in> set (subs d') \<Longrightarrow> sr_deleted s' \<Longrightarrow> silent s' d'"
  shows "relay_ok d'"
  using assms by (auto simp: relay_ok_def)

lemma shape_ok_iff:
  "shape_ok (shape d) \<longleftrightarrow>
     distinct (map sr_id (subs d)) \<and> distinct (map (\<lambda>s. (sr_owner s, sr_key s)) (subs d)) \<and>
     distinct (map dr_id (deliveries d)) \<and> distinct (map (\<lambda>r. (dr_sub r, dr_event r)) (deliveries d)) \<and>
     distinct (map vr_id (events d)) \<and> distinct (map vr_dedupe (events d)) \<and> distinct (map at_id (attempts d)) \<and>
     (\<forall>r\<in>set (deliveries d). dr_sub r \<in> sr_id ` set (subs d) \<and> dr_event r \<in> vr_id ` set (events d)) \<and>
     (\<forall>a\<in>set (attempts d). at_delivery a \<in> dr_id ` set (deliveries d))"
  by (simp add: shape_ok_def shape_def comp_def image_image)

lemma silent_mono:
  assumes "silent s d"
    and "\<And>r'. r' \<in> set (deliveries d') \<Longrightarrow> dr_status r' = ''delivering'' \<Longrightarrow>
      \<exists>r\<in>set (deliveries d). dr_sub r = dr_sub r' \<and> dr_status r = ''delivering''"
  shows "silent s d'"
  using assms unfolding silent_def by metis

lemma relay_ok_begin:
  assumes "BeginEventAttempt uuid v now d = (r, d')" "relay_ok d"
  shows "relay_ok d'"
proof (cases r)
  case (Inl e)
  with assms relay_ok_same show ?thesis by (fastforce dest: BeginEventAttempt_effect)
next
  case (Inr p)
  obtain i v' where p: "p = (i, v')" by fastforce
  from BeginEventAttempt_effect [OF assms(1)] have e: "\<exists>q\<in>set (deliveries d). held v q" "i \<notin> at_id ` set (attempts d)"
    "subs d' = subs d" "events d' = events d"
    "deliveries d' = map (\<lambda>x. if held v x then x\<lparr>dr_attempts := dr_attempts x + 1,
       dr_first := (if dr_first x = 0 then UnixMilli now else dr_first x), dr_updated := UnixMilli now\<rparr> else x) (deliveries d)"
    "attempts d' = attempts d @ [\<lparr>at_id = i, at_delivery = ed_ID v, at_started = UnixMilli now,
                      at_finished = 0, at_http = 0, at_error = []\<rparr>]"
    by (simp_all add: Inr p)
  have "ed_ID v \<in> dr_id ` set (deliveries d)" using e(1) by (force simp: held_def)
  then have "shape_ok (shape d')"
    using assms(2) e unfolding relay_ok_def by (auto simp: shape_def shape_ok_def comp_def image_image if_distrib
        cong: if_cong)
  moreover have "\<forall>r\<in>set (deliveries d'). row_ok r"
    using assms(2) unfolding e(5) by (auto simp: relay_ok_def row_ok_def)
  moreover have "\<forall>s\<in>set (subs d'). sr_deleted s \<longrightarrow> silent s d'"
    using assms(2) e by (auto simp: relay_ok_def silent_def)
  ultimately show ?thesis by (simp add: relay_ok_def)
qed

lemma relay_ok_finish:
  assumes "FinishEventDelivery now v attempt status code message next_at d = (r, d')" "relay_ok d"
    and "status \<in> set delivery_statuses" "status \<noteq> ''delivering''"
  shows "relay_ok d'"
proof (cases r)
  case (Inl e)
  with assms relay_ok_same show ?thesis by (fastforce dest: FinishEventDelivery_effect)
next
  case (Inr p)
  note e = FinishEventDelivery_effect [OF assms(1), unfolded Inr, simplified]
  have "shape d' = shape d" using e by (auto simp: shape_def)
  moreover have "\<forall>r\<in>set (deliveries d'). row_ok r"
    using assms(2-4) e by (auto simp: relay_ok_def row_ok_def)
  moreover have "silent s' d'" if s': "s' \<in> set (subs d')" "sr_deleted s'" for s'
  proof -
    from s'(1) obtain s where s: "s \<in> set (subs d)" "s' = s \<or> s' = s\<lparr>sr_lease_token := [], sr_lease_until := 0\<rparr>"
      using e by auto
    with s'(2) have "silent s d" using assms(2) by (auto simp: relay_ok_def)
    with s(2) e assms(4) show ?thesis by (auto simp: silent_def)
  qed
  ultimately show ?thesis using relay_ok_update [OF assms(2)] by blast
qed

lemma relay_ok_retry:
  assumes "RetryEventDelivery now i d = (r, d')" "relay_ok d"
  shows "relay_ok d'"
proof -
  note e = RetryEventDelivery_effect [OF assms(1)]
  have "shape d' = shape d" using e by (auto simp: shape_def)
  moreover have "\<forall>r\<in>set (deliveries d'). row_ok r"
    using assms(2) e by (auto simp: relay_ok_def row_ok_def delivery_statuses_def)
  moreover have "silent s d'" if "s \<in> set (subs d')" "sr_deleted s" for s
  proof -
    have "silent s d" using that assms(2) e by (simp add: relay_ok_def)
    with e show ?thesis by (auto simp: silent_def)
  qed
  ultimately show ?thesis using relay_ok_update [OF assms(2)] by blast
qed

lemma relay_ok_rotate:
  assumes "RotateEventSecret now i secret d = (r, d')" "relay_ok d"
  shows "relay_ok d'"
proof -
  note e = RotateEventSecret_effect [OF assms(1), unfolded rest_same_def]
  have "shape d' = shape d" using e by (auto simp: shape_def)
  moreover have "\<forall>r\<in>set (deliveries d'). row_ok r" using assms(2) e by (simp add: relay_ok_def)
  moreover have "silent s' d'" if s': "s' \<in> set (subs d')" "sr_deleted s'" for s'
  proof -
    have "s' \<in> set (subs d)" using s' e by auto
    with s'(2) e assms(2) show ?thesis by (simp add: relay_ok_def silent_def)
  qed
  ultimately show ?thesis using relay_ok_update [OF assms(2)] by blast
qed

lemma relay_ok_delete:
  assumes "DeleteEventSubscription now i d = (b, d')" "relay_ok d"
  shows "relay_ok d'"
proof (cases "same_tables d d'")
  case True
  with assms(2) relay_ok_same show ?thesis by blast
next
  case False
  let ?h = "\<lambda>r. if sr_id r = i then r\<lparr>sr_deleted := True, sr_secret := [], sr_updated := UnixMilli now,
            sr_lease_token := [], sr_lease_until := 0\<rparr> else r"
  let ?g = "\<lambda>r. if dr_sub r = i \<and> open_status (dr_status r)
            then r\<lparr>dr_status := ''cancelled'', dr_lease_token := [], dr_lease_until := 0, dr_updated := UnixMilli now\<rparr> else r"
  have e: "events d' = events d" "attempts d' = attempts d" "subs d' = map ?h (subs d)"
    "deliveries d' = map ?g (deliveries d)"
    using DeleteEventSubscription_effect [OF assms(1)] False by blast+
  have "shape d' = shape d" by (simp add: shape_def e)
  moreover have "\<forall>r\<in>set (deliveries d'). row_ok r"
    using assms(2) by (auto simp: relay_ok_def row_ok_def delivery_statuses_def e)
  moreover have "silent s' d'" if s': "s' \<in> set (subs d')" "sr_deleted s'" for s'
  proof (cases "sr_id s' = i")
    case True
    have st: "dr_status (?g r) \<noteq> ''delivering''" if "dr_sub (?g r) = i" for r
      using that by (cases "dr_sub r = i") (simp_all add: open_status_def)
    from s'(1) obtain x where x: "s' = ?h x" unfolding e(3) set_map by blast
    with True have "sr_id x = i" by (simp split: if_splits)
    then have "sr_secret s' = [] \<and> sr_lease_token s' = [] \<and> sr_lease_until s' = 0" by (simp add: x)
    moreover have "\<forall>r\<in>set (deliveries d'). dr_sub r = i \<longrightarrow> dr_status r \<noteq> ''delivering''"
    proof (intro ballI impI)
      fix r' assume "r' \<in> set (deliveries d')" and sub: "dr_sub r' = i"
      then obtain r where r: "r' = ?g r" unfolding e(4) set_map by blast
      show "dr_status r' \<noteq> ''delivering''" using sub unfolding r by (rule st)
    qed
    ultimately show ?thesis unfolding silent_def True by blast
  next
    case False
    with s' have "s' \<in> set (subs d)" unfolding e by (auto split: if_splits)
    with s'(2) assms(2) have "silent s' d" by (simp add: relay_ok_def)
    then show ?thesis
      by (rule silent_mono) (auto simp: e split: if_splits)
  qed
  ultimately show ?thesis using relay_ok_update [OF assms(2)] by blast
qed

lemma relay_ok_prune:
  assumes "PruneEventDeliveries now d = (b, d')" "relay_ok d"
  shows "relay_ok d'"
proof (cases "same_tables d d'")
  case True
  with assms(2) relay_ok_same show ?thesis by blast
next
  case False
  with PruneEventDeliveries_effect [OF assms(1)]
  have e: "subs d' = subs d" "deliveries d' = filter (\<lambda>r. \<not> prunable now r) (deliveries d)"
    "attempts d' = filter (\<lambda>a. \<not> (\<exists>r\<in>set (deliveries d). dr_id r = at_delivery a \<and> prunable now r)) (attempts d)"
    "events d' = filter (\<lambda>e. \<exists>r\<in>set (deliveries d). \<not> prunable now r \<and> dr_event r = vr_id e) (events d)"
    by blast+
  have o: "shape_ok (shape d)" "\<forall>r\<in>set (deliveries d). row_ok r" using assms(2) by (auto simp: relay_ok_def)
  have "dr_event r \<in> vr_id ` set (events d')" if "r \<in> set (deliveries d')" for r
  proof -
    have r: "r \<in> set (deliveries d)" "\<not> prunable now r" using that e by auto
    then obtain x where "x \<in> set (events d)" "vr_id x = dr_event r" using shape_refs [OF assms(2)] by force
    with r show ?thesis unfolding e by (intro rev_image_eqI [of x]) auto
  qed
  moreover have "at_delivery a \<in> dr_id ` set (deliveries d')" if "a \<in> set (attempts d')" for a
  proof -
    have a: "a \<in> set (attempts d)" "\<forall>r\<in>set (deliveries d). dr_id r = at_delivery a \<longrightarrow> \<not> prunable now r"
      using that e by auto
    then obtain r where "r \<in> set (deliveries d)" "dr_id r = at_delivery a" using o(1) unfolding shape_ok_iff by force
    with a show ?thesis unfolding e by (intro rev_image_eqI [of r]) auto
  qed
  moreover have "dr_sub r \<in> sr_id ` set (subs d')" if "r \<in> set (deliveries d')" for r
    using that e shape_refs [OF assms(2)] by auto
  ultimately have "shape_ok (shape d')"
    using o(1) unfolding shape_ok_iff by (simp add: e distinct_map_filter)
  moreover have "\<forall>s\<in>set (subs d'). sr_deleted s \<longrightarrow> silent s d'"
  proof (intro ballI impI)
    fix s assume "s \<in> set (subs d')" "sr_deleted s"
    with assms(2) have "silent s d" by (simp add: relay_ok_def e(1))
    then show "silent s d'" by (rule silent_mono) (auto simp: e(2))
  qed
  ultimately show ?thesis using o(2) e by (simp add: relay_ok_def)
qed

lemma relay_ok_ingest:
  assumes "IngestRelayEvent now uuid e target d = (r, d')" "relay_ok d"
  shows "relay_ok d'"
  using IngestRelayEvent_effect [OF assms(1)]
proof
  assume "same_tables d d'"
  with assms(2) relay_ok_same show ?thesis by blast
next
  assume "\<exists>new row. ev_ID e \<notin> vr_id ` set (events d) \<and> dedupe_key e \<notin> vr_dedupe ` set (events d) \<and>
       vr_id row = ev_ID e \<and> vr_dedupe row = dedupe_key e \<and> vr_envelope row = e \<and> events d' = events d @ [row] \<and>
       deliveries d' = deliveries d @ new \<and> fresh_deliveries (ev_ID e) new d \<and>
       (\<forall>r\<in>set new. \<exists>s\<in>set (subs d). \<not> sr_deleted s \<and> sr_id s = dr_sub r \<and> wanted target e (scanEventSubscription s)) \<and>
       subs d' = subs d \<and> attempts d' = attempts d"
  then obtain new row where n: "ev_ID e \<notin> vr_id ` set (events d)" "dedupe_key e \<notin> vr_dedupe ` set (events d)"
    "vr_id row = ev_ID e" "vr_dedupe row = dedupe_key e" "events d' = events d @ [row]"
    "deliveries d' = deliveries d @ new" "fresh_deliveries (ev_ID e) new d" "subs d' = subs d" "attempts d' = attempts d"
    and w: "\<forall>r\<in>set new. \<exists>s\<in>set (subs d). \<not> sr_deleted s \<and> sr_id s = dr_sub r \<and>
       wanted target e (scanEventSubscription s)"
    by (elim exE conjE) blast
  have r: "\<forall>r\<in>set new. dr_sub r \<in> sr_id ` set (subs d)"
    using w by (metis image_eqI)
  have f: "\<forall>r\<in>set new. dr_event r = ev_ID e \<and> dr_status r = ''pending'' \<and> dr_lease_token r = [] \<and> dr_lease_until r = 0"
    "distinct (map dr_id new)" "distinct (map dr_sub new)"
    using n(7) by (simp_all add: fresh_deliveries_def)
  have u: "dr_id q \<noteq> dr_id r" "(dr_sub q, dr_event q) \<noteq> (dr_sub r, dr_event r)"
    if "r \<in> set new" "q \<in> set (deliveries d)" for q r
    using n(7) that by (simp_all add: fresh_deliveries_def)
  have "dr_id ` set (deliveries d) \<inter> dr_id ` set new = {}" using u(1) by blast
  moreover have "(\<lambda>r. (dr_sub r, dr_event r)) ` set (deliveries d) \<inter> (\<lambda>r. (dr_sub r, dr_event r)) ` set new = {}"
    using u(2) by blast
  moreover have "distinct (map (\<lambda>r. (dr_sub r, dr_event r)) new)"
    using f(3) by (auto simp: distinct_map inj_on_def)
  moreover have "shape_ok (shape d)" using assms(2) by (simp add: relay_ok_def)
  ultimately have "shape_ok (shape d')"
    using n(1-4) r f(1-3) unfolding shape_ok_iff n(5,6,8,9)
    by (intro conjI) (simp_all add: ball_Un image_Un)
  moreover have "\<forall>r\<in>set (deliveries d'). row_ok r"
    using assms(2) f(1) unfolding n(6) by (auto simp: relay_ok_def row_ok_def delivery_statuses_def)
  moreover have "\<forall>s\<in>set (subs d'). sr_deleted s \<longrightarrow> silent s d'"
  proof (intro ballI impI)
    fix s assume "s \<in> set (subs d')" "sr_deleted s"
    with assms(2) have "silent s d" by (simp add: relay_ok_def n(8))
    then show "silent s d'" by (rule silent_mono) (use f(1) in \<open>auto simp: n(6)\<close>)
  qed
  ultimately show ?thesis by (simp add: relay_ok_def)
qed

lemma relay_ok_save:
  assumes "SaveEventSubscription uuid now sub d = (r, d')" "relay_ok d"
  shows "relay_ok d'"
proof -
  have rest: "events d' = events d" "deliveries d' = deliveries d" "attempts d' = attempts d"
    using SaveEventSubscription_effect [OF assms(1)] by (auto simp: rest_same_def)
  consider "subs d' = subs d" | (added) "row_added d d'" | (saved) "row_saved d d'"
    using SaveEventSubscription_effect [OF assms(1)] by blast
  then show ?thesis
  proof cases
    case 1
    with rest assms(2) show ?thesis by (simp add: relay_ok_def shape_def silent_def)
  next
    case added
    then obtain row where row: "subs d' = subs d @ [row]" "sr_id row \<notin> sr_id ` set (subs d)" "\<not> sr_deleted row"
      "(sr_owner row, sr_key row) \<notin> (\<lambda>r. (sr_owner r, sr_key r)) ` set (subs d)"
      by (auto simp: row_added_def)
    then have "shape_ok (shape d')"
      using assms(2) rest unfolding relay_ok_def by (auto simp: shape_def shape_ok_def comp_def)
    with row rest assms(2) show ?thesis by (auto simp: relay_ok_def silent_def)
  next
    case saved
    then obtain t k c p u where s: "subs d' = map (\<lambda>x. if sr_owner x = t \<and> sr_key x = k
       then x\<lparr>sr_config := c, sr_paused := p, sr_updated := u\<rparr> else x) (subs d)" unfolding row_saved_def by blast
    have "shape d' = shape d" using rest s by (simp add: shape_def)
    moreover have "silent x' d'" if "x' \<in> set (subs d')" "sr_deleted x'" for x'
      using that s rest assms(2) by (auto simp: relay_ok_def silent_def split: if_splits)
    moreover have "\<forall>r\<in>set (deliveries d'). row_ok r" using rest assms(2) by (simp add: relay_ok_def)
    ultimately show ?thesis using relay_ok_update [OF assms(2)] by blast
  qed
qed

end
