(* ===== verification/Event_Workers.thy ===== *)
theory Event_Workers
  imports Event_Safety
begin

text \<open>
  The relay as a transition system: the clock, the tables, and the workers of any number of processes, each between
  two calls of \<open>deliver\<close>. Everything else that writes the tables may run between two steps. A worker's context ends ten
  seconds after its tick began; a request in flight ends with it, which bounds how far the clock may advance, and a
  transaction under an ended context fails. \<open>leases\<close> records the tokens drawn so far with the end of their leases.
\<close>

section \<open>Workers\<close>

datatype worker =
    Idle
  | Claimed EventDelivery gotime
  | Loaded EventDelivery EventSubscription gotime
  | Releasing EventDelivery string string gotime
  | Approved EventDelivery EventSubscription gotime
  | Sending EventDelivery string EventSubscription gotime
  | Finishing EventDelivery string http_result gotime

record relay_sys =
  clk :: gotime
  rdb :: relay_db
  wk :: "nat \<Rightarrow> worker"
  leases :: "(string \<times> int) list"

definition after_claim :: "gotime \<Rightarrow> EventDelivery option relay_result \<Rightarrow> worker" where
  "after_claim dl r = (case r of Inr (Some v) \<Rightarrow> Claimed v dl | _ \<Rightarrow> Idle)"

definition after_read :: "EventDelivery \<Rightarrow> gotime \<Rightarrow> decision \<Rightarrow> worker" where
  "after_read v dl dec = (case dec of Ask sub \<Rightarrow> Loaded v sub dl | Release state message \<Rightarrow> Releasing v state message dl)"

definition after_check :: "EventDelivery \<Rightarrow> EventSubscription \<Rightarrow> gotime \<Rightarrow> bool relay_result \<Rightarrow> worker" where
  "after_check v sub dl ok = (if permitted ok then Approved v sub dl else Releasing v ''blocked'' unpermitted dl)"

definition after_begin :: "EventSubscription \<Rightarrow> gotime \<Rightarrow> (string \<times> EventDelivery) relay_result \<Rightarrow> worker" where
  "after_begin sub dl r = (case r of Inl _ \<Rightarrow> Idle | Inr (attempt, v) \<Rightarrow> Sending v attempt sub dl)"

definition op_deadline :: int where "op_deadline = 10 * second_ns"

definition in_time :: "gotime \<Rightarrow> worker \<Rightarrow> bool" where
  "in_time t w = (case w of Sending _ _ _ dl \<Rightarrow> t \<le> dl | _ \<Rightarrow> True)"

inductive relay_step :: "relay_sys \<Rightarrow> relay_sys \<Rightarrow> bool" where
  advance: "clk s \<le> t \<Longrightarrow> (\<forall>i. in_time t (wk s i)) \<Longrightarrow> relay_step s (s\<lparr>clk := t\<rparr>)"
| claim: "wk s i = Idle \<Longrightarrow> now \<le> clk s \<Longrightarrow> dl \<le> now + op_deadline \<Longrightarrow> token \<noteq> [] \<Longrightarrow> token \<notin> fst ` set (leases s) \<Longrightarrow>
    ClaimEventDelivery token now (rdb s) = (r, d') \<Longrightarrow>
    relay_step s (s\<lparr>rdb := d', wk := (wk s)(i := after_claim dl r), leases := (token, UnixMilli now + lease_ms) # leases s\<rparr>)"
| load: "wk s i = Claimed v dl \<Longrightarrow> GetEventSubscription (ed_SubscriptionID v) (rdb s) = (loaded, d') \<Longrightarrow>
    relay_step s (s\<lparr>rdb := d', wk := (wk s)(i := after_read v dl (after_load loaded))\<rparr>)"
| check: "wk s i = Loaded v sub dl \<Longrightarrow> EventSourceAllowed (es_OwnerTenantID sub) (event_ref v) (rdb s) = (ok, d') \<Longrightarrow>
    relay_step s (s\<lparr>rdb := d', wk := (wk s)(i := after_check v sub dl ok)\<rparr>)"
| begin_attempt: "wk s i = Approved v sub dl \<Longrightarrow> clk s \<le> dl \<Longrightarrow> now \<le> clk s \<Longrightarrow>
    BeginEventAttempt uuid v now (rdb s) = (r, d') \<Longrightarrow>
    relay_step s (s\<lparr>rdb := d', wk := (wk s)(i := after_begin sub dl r)\<rparr>)"
| respond: "wk s i = Sending v attempt sub dl \<Longrightarrow>
    relay_step s (s\<lparr>wk := (wk s)(i := Finishing v attempt result dl)\<rparr>)"
| finish: "wk s i = Finishing v attempt result dl \<Longrightarrow> finish_send now rnd v attempt result (rdb s) = (r, d') \<Longrightarrow>
    relay_step s (s\<lparr>rdb := d', wk := (wk s)(i := Idle)\<rparr>)"
| let_go: "wk s i = Releasing v state message dl \<Longrightarrow> release now v state message (rdb s) = (r, d') \<Longrightarrow>
    relay_step s (s\<lparr>rdb := d', wk := (wk s)(i := Idle)\<rparr>)"
| abandon: "relay_step s (s\<lparr>wk := (wk s)(i := Idle)\<rparr>)"
| save: "SaveEventSubscription uuid now sub (rdb s) = (r1, d') \<Longrightarrow> relay_step s (s\<lparr>rdb := d'\<rparr>)"
| delete: "DeleteEventSubscription now i (rdb s) = (r2, d') \<Longrightarrow> relay_step s (s\<lparr>rdb := d'\<rparr>)"
| rotate: "RotateEventSecret now i secret (rdb s) = (r3, d') \<Longrightarrow> relay_step s (s\<lparr>rdb := d'\<rparr>)"
| ingest: "IngestRelayEvent now uuids e target (rdb s) = (r3, d') \<Longrightarrow> relay_step s (s\<lparr>rdb := d'\<rparr>)"
| retry: "RetryEventDelivery now i (rdb s) = (r3, d') \<Longrightarrow> relay_step s (s\<lparr>rdb := d'\<rparr>)"
| prune: "PruneEventDeliveries now (rdb s) = (r2, d') \<Longrightarrow> relay_step s (s\<lparr>rdb := d'\<rparr>)"
| other: "same_tables (rdb s) d' \<Longrightarrow> relay_step s (s\<lparr>rdb := d'\<rparr>)"

text \<open>The tables are empty when they are created, or at least satisfy their constraints.\<close>

definition relay_init :: "relay_sys \<Rightarrow> bool" where
  "relay_init s \<longleftrightarrow> subs (rdb s) = [] \<and> events (rdb s) = [] \<and> deliveries (rdb s) = [] \<and> attempts (rdb s) = [] \<and>
     wk s = (\<lambda>_. Idle) \<and> leases s = []"

inductive relay_reach :: "relay_sys \<Rightarrow> bool" where
  start: "relay_init s \<Longrightarrow> relay_reach s"
| step: "relay_reach s \<Longrightarrow> relay_step s s' \<Longrightarrow> relay_reach s'"

section \<open>The invariant\<close>

text \<open>What a busy worker holds: the token, the subscription and the deadline.\<close>

fun holds :: "worker \<Rightarrow> (string \<times> string \<times> gotime) option" where
  "holds Idle = None"
| "holds (Claimed v dl) = Some (ed_LeaseToken v, ed_SubscriptionID v, dl)"
| "holds (Loaded v sub dl) = Some (ed_LeaseToken v, ed_SubscriptionID v, dl)"
| "holds (Releasing v state message dl) = Some (ed_LeaseToken v, ed_SubscriptionID v, dl)"
| "holds (Approved v sub dl) = Some (ed_LeaseToken v, ed_SubscriptionID v, dl)"
| "holds (Sending v attempt sub dl) = Some (ed_LeaseToken v, ed_SubscriptionID v, dl)"
| "holds (Finishing v attempt result dl) = Some (ed_LeaseToken v, ed_SubscriptionID v, dl)"

definition expired :: "relay_sys \<Rightarrow> string \<Rightarrow> bool" where
  "expired s token \<longleftrightarrow> (\<exists>e. map_of (leases s) token = Some e \<and> e \<le> UnixMilli (clk s))"

definition release_ok :: "worker \<Rightarrow> bool" where
  "release_ok w = (case w of Releasing _ state _ _ \<Rightarrow> state \<in> set [''blocked'', ''cancelled'', ''pending''] | _ \<Rightarrow> True)"

definition workers_ok :: "relay_sys \<Rightarrow> bool" where
  "workers_ok s \<longleftrightarrow>
     (\<forall>i t u dl. holds (wk s i) = Some (t, u, dl) \<longrightarrow> t \<noteq> [] \<and> u \<in> sr_id ` set (subs (rdb s)) \<and>
        (\<exists>e. map_of (leases s) t = Some e \<and> UnixMilli dl + 20000 \<le> e)) \<and>
     (\<forall>i j t u dl t' u' dl'. i \<noteq> j \<longrightarrow> holds (wk s i) = Some (t, u, dl) \<longrightarrow> holds (wk s j) = Some (t', u', dl') \<longrightarrow>
        t \<noteq> t' \<and> (u = u' \<longrightarrow> expired s t \<or> expired s t')) \<and>
     (\<forall>i t u dl. \<forall>x\<in>set (subs (rdb s)). holds (wk s i) = Some (t, u, dl) \<longrightarrow> sr_id x = u \<longrightarrow> \<not> sr_deleted x \<longrightarrow>
        sr_lease_token x \<noteq> t \<longrightarrow> expired s t) \<and>
     (\<forall>x\<in>set (subs (rdb s)). sr_lease_token x = [] \<and> sr_lease_until x = 0 \<or>
        map_of (leases s) (sr_lease_token x) = Some (sr_lease_until x)) \<and>
     (\<forall>i. in_time (clk s) (wk s i) \<and> release_ok (wk s i)) \<and> [] \<notin> fst ` set (leases s)"

definition relay_inv :: "relay_sys \<Rightarrow> bool" where
  "relay_inv s \<longleftrightarrow> relay_ok (rdb s) \<and> workers_ok s"

lemma workers_okD:
  assumes "workers_ok s"
  shows "holds (wk s i) = Some (t, u, dl) \<Longrightarrow> t \<noteq> []"
    "holds (wk s i) = Some (t, u, dl) \<Longrightarrow> u \<in> sr_id ` set (subs (rdb s))"
    "holds (wk s i) = Some (t, u, dl) \<Longrightarrow> \<exists>e. map_of (leases s) t = Some e \<and> UnixMilli dl + 20000 \<le> e"
    "i \<noteq> j \<Longrightarrow> holds (wk s i) = Some (t, u, dl) \<Longrightarrow> holds (wk s j) = Some (t', u', dl') \<Longrightarrow> t \<noteq> t'"
    "i \<noteq> j \<Longrightarrow> holds (wk s i) = Some (t, u, dl) \<Longrightarrow> holds (wk s j) = Some (t', u, dl') \<Longrightarrow> expired s t \<or> expired s t'"
    "holds (wk s i) = Some (t, u, dl) \<Longrightarrow> x \<in> set (subs (rdb s)) \<Longrightarrow> sr_id x = u \<Longrightarrow> \<not> sr_deleted x \<Longrightarrow>
       sr_lease_token x \<noteq> t \<Longrightarrow> expired s t"
    "x \<in> set (subs (rdb s)) \<Longrightarrow> sr_lease_token x = [] \<and> sr_lease_until x = 0 \<or>
        map_of (leases s) (sr_lease_token x) = Some (sr_lease_until x)"
    "in_time (clk s) (wk s i)" "release_ok (wk s i)" "[] \<notin> fst ` set (leases s)"
proof -
  note ok = assms [unfolded workers_ok_def]
  note a = ok [THEN conjunct1, rule_format] and b = ok [THEN conjunct2, THEN conjunct1, rule_format]
    and c = ok [THEN conjunct2, THEN conjunct2, THEN conjunct1, rule_format]
    and d = ok [THEN conjunct2, THEN conjunct2, THEN conjunct2, THEN conjunct1, rule_format]
    and e = ok [THEN conjunct2, THEN conjunct2, THEN conjunct2, THEN conjunct2]
  show "holds (wk s i) = Some (t, u, dl) \<Longrightarrow> t \<noteq> []"
    "holds (wk s i) = Some (t, u, dl) \<Longrightarrow> u \<in> sr_id ` set (subs (rdb s))"
    "holds (wk s i) = Some (t, u, dl) \<Longrightarrow> \<exists>e. map_of (leases s) t = Some e \<and> UnixMilli dl + 20000 \<le> e"
    by (erule a [THEN conjunct1], erule a [THEN conjunct2, THEN conjunct1], erule a [THEN conjunct2, THEN conjunct2])
  show "i \<noteq> j \<Longrightarrow> holds (wk s i) = Some (t, u, dl) \<Longrightarrow> holds (wk s j) = Some (t', u', dl') \<Longrightarrow> t \<noteq> t'"
    by (rule b [THEN conjunct1])
  show "i \<noteq> j \<Longrightarrow> holds (wk s i) = Some (t, u, dl) \<Longrightarrow> holds (wk s j) = Some (t', u, dl') \<Longrightarrow> expired s t \<or> expired s t'"
    by (rule b [THEN conjunct2, rule_format, OF _ _ _ refl])
  show "holds (wk s i) = Some (t, u, dl) \<Longrightarrow> x \<in> set (subs (rdb s)) \<Longrightarrow> sr_id x = u \<Longrightarrow> \<not> sr_deleted x \<Longrightarrow>
       sr_lease_token x \<noteq> t \<Longrightarrow> expired s t"
    by (rule c)
  show "x \<in> set (subs (rdb s)) \<Longrightarrow> sr_lease_token x = [] \<and> sr_lease_until x = 0 \<or>
        map_of (leases s) (sr_lease_token x) = Some (sr_lease_until x)"
    by (rule d)
  show "in_time (clk s) (wk s i)" "release_ok (wk s i)" "[] \<notin> fst ` set (leases s)"
    using e by blast+
qed

lemma UnixMilli_mono: "t \<le> t' \<Longrightarrow> UnixMilli t \<le> UnixMilli t'"
  by (simp add: UnixMilli_def zdiv_mono1)

lemma expired_mono: "expired s t \<Longrightarrow> leases s' = leases s \<Longrightarrow> clk s \<le> clk s' \<Longrightarrow> expired s' t"
  using UnixMilli_mono order_trans unfolding expired_def by metis

text \<open>How a row may change in a step that claims nothing: it is new, or keeps its lease, or loses it.\<close>

definition lease_kept :: "relay_sys \<Rightarrow> relay_sys \<Rightarrow> sub_row \<Rightarrow> bool" where
  "lease_kept s s' x' \<longleftrightarrow>
     (sr_id x' \<notin> sr_id ` set (subs (rdb s)) \<and> sr_lease_token x' = [] \<and> sr_lease_until x' = 0) \<or>
     (\<exists>x\<in>set (subs (rdb s)). sr_id x = sr_id x' \<and> (sr_deleted x \<longrightarrow> sr_deleted x') \<and>
        (sr_lease_token x' = sr_lease_token x \<and> sr_lease_until x' = sr_lease_until x \<or>
         sr_lease_token x' = [] \<and> sr_lease_until x' = 0 \<and>
           (sr_deleted x' \<or> (\<forall>i u dl. holds (wk s' i) \<noteq> Some (sr_lease_token x, u, dl)))))"

lemma workers_ok_quiet:
  assumes ok: "workers_ok s"
    and clk: "clk s \<le> clk s'" and leases: "leases s' = leases s"
    and w: "\<And>i. holds (wk s' i) = holds (wk s i) \<or> holds (wk s' i) = None"
    and ids: "sr_id ` set (subs (rdb s)) \<subseteq> sr_id ` set (subs (rdb s'))"
    and rows: "\<And>x'. x' \<in> set (subs (rdb s')) \<Longrightarrow> lease_kept s s' x'"
    and t: "\<And>i. in_time (clk s') (wk s' i) \<and> release_ok (wk s' i)"
  shows "workers_ok s'"
proof -
  have old: "holds (wk s i) = Some h" if "holds (wk s' i) = Some h" for i h
    using w [of i] that by auto
  have ex: "expired s tk \<Longrightarrow> expired s' tk" for tk by (rule expired_mono [OF _ leases clk])
  have "tk \<noteq> [] \<and> u \<in> sr_id ` set (subs (rdb s')) \<and> (\<exists>e. map_of (leases s') tk = Some e \<and> UnixMilli dl + 20000 \<le> e)"
    if "holds (wk s' i) = Some (tk, u, dl)" for i tk u dl
    unfolding leases using workers_okD(1-3) [OF ok old [OF that]] ids by blast
  moreover have "tk \<noteq> tk' \<and> (u = u' \<longrightarrow> expired s' tk \<or> expired s' tk')"
    if "i \<noteq> j" "holds (wk s' i) = Some (tk, u, dl)" "holds (wk s' j) = Some (tk', u', dl')" for i j tk u dl tk' u' dl'
    using workers_okD(4,5) [OF ok that(1) old [OF that(2)]] old [OF that(3)] ex by blast
  moreover have "expired s' tk"
    if h: "holds (wk s' i) = Some (tk, u, dl)" and x: "x' \<in> set (subs (rdb s'))" "sr_id x' = u" "\<not> sr_deleted x'"
      "sr_lease_token x' \<noteq> tk" for i tk u dl x'
  proof -
    have "u \<in> sr_id ` set (subs (rdb s))" by (rule workers_okD(2) [OF ok old [OF h]])
    with rows [OF x(1)] x(2) obtain y where y: "y \<in> set (subs (rdb s))" "sr_id y = u" "sr_deleted y \<longrightarrow> sr_deleted x'"
      "sr_lease_token x' = sr_lease_token y \<or> sr_deleted x' \<or> (\<forall>i u dl. holds (wk s' i) \<noteq> Some (sr_lease_token y, u, dl))"
      unfolding lease_kept_def by blast
    with x h have "sr_lease_token y \<noteq> tk" "\<not> sr_deleted y" by metis+
    then show ?thesis using workers_okD(6) [OF ok old [OF h] y(1,2)] ex by blast
  qed
  moreover have "sr_lease_token x' = [] \<and> sr_lease_until x' = 0 \<or>
      map_of (leases s') (sr_lease_token x') = Some (sr_lease_until x')" if "x' \<in> set (subs (rdb s'))" for x'
    using rows [OF that] workers_okD(7) [OF ok] unfolding lease_kept_def leases by metis
  moreover have "[] \<notin> fst ` set (leases s')" unfolding leases by (rule workers_okD(10) [OF ok])
  ultimately show ?thesis using t unfolding workers_ok_def by blast
qed

lemma map_ids: "(\<And>x. f (h x) = f x) \<Longrightarrow> f ` set (map h xs) = f ` set xs"
  by (simp add: image_image)

lemma kept_row:
  "x \<in> set (subs (rdb s)) \<Longrightarrow> sr_id x' = sr_id x \<Longrightarrow> sr_deleted x' = sr_deleted x \<Longrightarrow>
   sr_lease_token x' = sr_lease_token x \<Longrightarrow> sr_lease_until x' = sr_lease_until x \<Longrightarrow> lease_kept s s' x'"
  unfolding lease_kept_def by auto

text \<open>A step of one worker that leaves the leases of the subscriptions alone.\<close>

lemma worker_step_ok:
  assumes "relay_inv s" "subs d' = subs (rdb s)" "relay_ok d'"
    and "holds w = holds (wk s i) \<or> holds w = None" "in_time (clk s) w" "release_ok w"
  shows "relay_inv (s\<lparr>rdb := d', wk := (wk s)(i := w)\<rparr>)"
  unfolding relay_inv_def
proof
  have ok: "workers_ok s" using assms(1) by (simp add: relay_inv_def)
  show "workers_ok (s\<lparr>rdb := d', wk := (wk s)(i := w)\<rparr>)"
    by (rule workers_ok_quiet [OF ok])
       (use assms workers_okD(8,9) [OF ok] in \<open>auto intro: kept_row\<close>)
qed (simp add: assms)

text \<open>A step of a handler, whose effect on a row of a subscription keeps its lease or deletes it.\<close>

lemma handler_step_ok:
  assumes "relay_inv s" "relay_ok d'" "sr_id ` set (subs (rdb s)) \<subseteq> sr_id ` set (subs d')"
    and "\<And>x'. x' \<in> set (subs d') \<Longrightarrow> lease_kept s (s\<lparr>rdb := d'\<rparr>) x'"
  shows "relay_inv (s\<lparr>rdb := d'\<rparr>)"
  unfolding relay_inv_def
proof
  have ok: "workers_ok s" using assms(1) by (simp add: relay_inv_def)
  show "workers_ok (s\<lparr>rdb := d'\<rparr>)"
    by (rule workers_ok_quiet [OF ok]) (use assms(3,4) workers_okD(8,9) [OF ok] in \<open>auto simp: image_subset_iff\<close>)
qed (simp add: assms)

lemma handler_same_ok:
  assumes "relay_inv s" "relay_ok d'" "subs d' = subs (rdb s)"
  shows "relay_inv (s\<lparr>rdb := d'\<rparr>)"
  by (rule handler_step_ok [OF assms(1,2)]) (use assms(3) in \<open>auto intro: kept_row\<close>)

lemma finish_ok:
  assumes inv: "relay_inv s" and h: "holds (wk s i) = Some (ed_LeaseToken v, ed_SubscriptionID v, dl)"
    and f: "FinishEventDelivery now v attempt status code message next_at (rdb s) = (r, d')"
    and st: "status \<in> set delivery_statuses" "status \<noteq> ''delivering''"
  shows "relay_inv (s\<lparr>rdb := d', wk := (wk s)(i := Idle)\<rparr>)"
proof (cases r)
  case (Inl e)
  have "same_tables (rdb s) d'" using FinishEventDelivery_effect [OF f] Inl by simp
  then show ?thesis
    using inv relay_ok_same by (intro worker_step_ok) (auto simp: relay_inv_def same_tables_def in_time_def release_ok_def)
next
  case (Inr u)
  let ?s = "s\<lparr>rdb := d', wk := (wk s)(i := Idle)\<rparr>"
  let ?h = "\<lambda>x. if sr_id x = ed_SubscriptionID v \<and> sr_lease_token x = ed_LeaseToken v
          then x\<lparr>sr_lease_token := [], sr_lease_until := 0\<rparr> else x"
  have e: "subs d' = map ?h (subs (rdb s))" using FinishEventDelivery_effect [OF f] Inr by simp
  have ok: "workers_ok s" "relay_ok (rdb s)" using inv by (simp_all add: relay_inv_def)
  have other: "holds (wk ?s j) \<noteq> Some (ed_LeaseToken v, u, dl')" for j u dl'
    using workers_okD(4) [OF ok(1) _ h, of j] by (cases "j = i") auto
  have "lease_kept s ?s (?h x)" if x: "x \<in> set (subs (rdb s))" for x
  proof (cases "sr_id x = ed_SubscriptionID v \<and> sr_lease_token x = ed_LeaseToken v")
    case True
    with x other show ?thesis unfolding lease_kept_def by (intro disjI2 bexI [of _ x]) auto
  next
    case False
    with x show ?thesis by (intro kept_row [of x]) auto
  qed
  then have "\<And>x'. x' \<in> set (subs d') \<Longrightarrow> lease_kept s ?s x'" unfolding e set_map by blast
  moreover have "sr_id ` set (subs (rdb s)) \<subseteq> sr_id ` set (subs d')" unfolding e by (subst map_ids) simp_all
  ultimately have "workers_ok ?s"
    by (intro workers_ok_quiet [OF ok(1)])
       (use workers_okD(8,9) [OF ok(1)] in \<open>auto simp: in_time_def release_ok_def\<close>)
  then show ?thesis
    using relay_ok_finish [OF f ok(2) st] by (simp add: relay_inv_def)
qed

lemma delete_ok:
  assumes inv: "relay_inv s" and f: "DeleteEventSubscription now i (rdb s) = (b, d')"
  shows "relay_inv (s\<lparr>rdb := d'\<rparr>)"
proof (cases "same_tables (rdb s) d'")
  case True
  then show ?thesis
    using inv relay_ok_same by (intro handler_same_ok) (auto simp: relay_inv_def same_tables_def)
next
  case False
  let ?h = "\<lambda>r. if sr_id r = i then r\<lparr>sr_deleted := True, sr_secret := [], sr_updated := UnixMilli now,
            sr_lease_token := [], sr_lease_until := 0\<rparr> else r"
  have e: "subs d' = map ?h (subs (rdb s))" using DeleteEventSubscription_effect [OF f] False by blast
  have "lease_kept s s' (?h x)" if "x \<in> set (subs (rdb s))" for x s'
    using that unfolding lease_kept_def by (intro disjI2 bexI [of _ x]) auto
  then have "\<And>x' s'. x' \<in> set (subs d') \<Longrightarrow> lease_kept s s' x'" unfolding e set_map by blast
  moreover have "sr_id ` set (subs (rdb s)) \<subseteq> sr_id ` set (subs d')" unfolding e by (subst map_ids) simp_all
  ultimately show ?thesis
    using relay_ok_delete [OF f] inv by (intro handler_step_ok) (auto simp: relay_inv_def)
qed

lemma save_ok:
  assumes inv: "relay_inv s" and f: "SaveEventSubscription uuid now sub (rdb s) = (r, d')"
  shows "relay_inv (s\<lparr>rdb := d'\<rparr>)"
proof (rule handler_step_ok [OF inv])
  show "relay_ok d'" using relay_ok_save [OF f] inv by (simp add: relay_inv_def)
  note e = SaveEventSubscription_effect [OF f, THEN conjunct2]
  show "sr_id ` set (subs (rdb s)) \<subseteq> sr_id ` set (subs d')"
  proof -
    have "sr_id ` set (subs d') = sr_id ` set (subs (rdb s))" if "row_saved (rdb s) d'"
      using that unfolding row_saved_def by (elim exE conjE, simp only:) (rule map_ids, simp)
    with e show ?thesis by (auto simp: row_added_def)
  qed
  fix x' assume x': "x' \<in> set (subs d')"
  from e consider "subs d' = subs (rdb s)" | "row_added (rdb s) d'" | "row_saved (rdb s) d'" by blast
  then show "lease_kept s (s\<lparr>rdb := d'\<rparr>) x'"
  proof cases
    case 1
    with x' show ?thesis by (auto intro: kept_row)
  next
    case 2
    with x' show ?thesis by (auto simp: row_added_def lease_kept_def)
  next
    case 3
    with x' obtain x where "x \<in> set (subs (rdb s))" "sr_id x' = sr_id x" "sr_deleted x' = sr_deleted x"
      "sr_lease_token x' = sr_lease_token x" "sr_lease_until x' = sr_lease_until x"
      by (auto simp: row_saved_def)
    then show ?thesis by (rule kept_row)
  qed
qed

lemma rotate_ok:
  assumes inv: "relay_inv s" and f: "RotateEventSecret now i secret (rdb s) = (r, d')"
  shows "relay_inv (s\<lparr>rdb := d'\<rparr>)"
proof (rule handler_step_ok [OF inv])
  show "relay_ok d'" using relay_ok_rotate [OF f] inv by (simp add: relay_inv_def)
  note e = RotateEventSecret_effect [OF f, THEN conjunct2]
  show "sr_id ` set (subs (rdb s)) \<subseteq> sr_id ` set (subs d')"
    using e by (elim disjE; simp only:) (subst map_ids; simp)
  fix x' assume "x' \<in> set (subs d')"
  with e obtain x where "x \<in> set (subs (rdb s))" "sr_id x' = sr_id x" "sr_deleted x' = sr_deleted x"
      "sr_lease_token x' = sr_lease_token x" "sr_lease_until x' = sr_lease_until x" by auto
  then show "lease_kept s (s\<lparr>rdb := d'\<rparr>) x'" by (rule kept_row)
qed

text \<open>Drawing a token that was never drawn before.\<close>

lemma draw_ok:
  assumes inv: "relay_inv s" and token: "token \<noteq> []" "token \<notin> fst ` set (leases s)"
  shows "relay_inv (s\<lparr>leases := (token, e) # leases s\<rparr>)" (is "relay_inv ?s")
    and "x \<in> set (subs (rdb s)) \<Longrightarrow> sr_lease_token x \<noteq> token"
    and "holds (wk s i) = Some (t, u, dl) \<Longrightarrow> t \<noteq> token"
proof -
  have ok: "workers_ok s" "relay_ok (rdb s)" using inv by (simp_all add: relay_inv_def)
  have fresh: "map_of (leases s) token = None" using token(2) by (simp add: map_of_eq_None_iff)
  have old: "map_of (leases s) t = Some k \<Longrightarrow> map_of (leases ?s) t = Some k" for t k using fresh by auto
  have ex: "expired s t \<Longrightarrow> expired ?s t" for t using old [of t] unfolding expired_def by auto
  show r: "x \<in> set (subs (rdb s)) \<Longrightarrow> sr_lease_token x \<noteq> token" for x
    using workers_okD(7) [OF ok(1)] fresh token(1) by force
  show h: "holds (wk s i) = Some (t, u, dl) \<Longrightarrow> t \<noteq> token" for i t u dl
    using workers_okD(3) [OF ok(1)] fresh by force
  have "workers_ok ?s"
    unfolding workers_ok_def
  proof (intro conjI allI ballI impI)
    fix i t u dl assume a: "holds (wk ?s i) = Some (t, u, dl)"
    then have a': "holds (wk s i) = Some (t, u, dl)" by simp
    show "t \<noteq> []" by (rule workers_okD(1) [OF ok(1) a'])
    show "u \<in> sr_id ` set (subs (rdb ?s))" using workers_okD(2) [OF ok(1) a'] by simp
    show "\<exists>e. map_of (leases ?s) t = Some e \<and> UnixMilli dl + 20000 \<le> e"
      using workers_okD(3) [OF ok(1) a'] old by blast
  next
    fix i j t u dl t' u' dl'
    assume "i \<noteq> j" "holds (wk ?s i) = Some (t, u, dl)" "holds (wk ?s j) = Some (t', u', dl')"
    then have a: "i \<noteq> j" "holds (wk s i) = Some (t, u, dl)" "holds (wk s j) = Some (t', u', dl')" by simp_all
    show "t \<noteq> t'" by (rule workers_okD(4) [OF ok(1) a])
    show "expired ?s t \<or> expired ?s t'" if "u = u'"
      using workers_okD(5) [OF ok(1) a(1,2)] a(3) that ex by blast
  next
    fix i t u dl x
    assume "x \<in> set (subs (rdb ?s))" "holds (wk ?s i) = Some (t, u, dl)" "sr_id x = u" "\<not> sr_deleted x" "sr_lease_token x \<noteq> t"
    then show "expired ?s t" using workers_okD(6) [OF ok(1)] ex by simp
  next
    fix x assume "x \<in> set (subs (rdb ?s))"
    then have "x \<in> set (subs (rdb s))" by simp
    then show "sr_lease_token x = [] \<and> sr_lease_until x = 0 \<or> map_of (leases ?s) (sr_lease_token x) = Some (sr_lease_until x)"
      using workers_okD(7) [OF ok(1)] old by blast
  qed (use workers_okD(8-10) [OF ok(1)] token(1) in auto)
  with ok(2) show "relay_inv ?s" by (simp add: relay_inv_def)
qed

lemma claim_ok:
  assumes inv: "relay_inv s" and idle: "wk s i = Idle" and now: "now \<le> clk s" and dl: "dl \<le> now + op_deadline"
    and token: "map_of (leases s) token = Some (UnixMilli now + lease_ms)" "token \<noteq> []"
      "\<And>x. x \<in> set (subs (rdb s)) \<Longrightarrow> sr_lease_token x \<noteq> token"
      "\<And>j t u dl. holds (wk s j) = Some (t, u, dl) \<Longrightarrow> t \<noteq> token"
    and f: "ClaimEventDelivery token now (rdb s) = (r, d')"
  shows "relay_inv (s\<lparr>rdb := d', wk := (wk s)(i := after_claim dl r)\<rparr>)" (is "relay_inv ?s")
proof (cases "\<exists>v. r = Inr (Some v)")
  case False
  then have same: "same_tables (rdb s) d'" and idle': "after_claim dl r = Idle"
    using ClaimEventDelivery_effect [OF f] by (auto simp: after_claim_def split: sum.splits option.splits)
  show ?thesis
    using inv idle idle' same relay_ok_same [OF same]
    by (intro worker_step_ok) (auto simp: relay_inv_def same_tables_def in_time_def release_ok_def)
next
  case True
  then obtain v where r: "r = Inr (Some v)" by blast
  have ok: "workers_ok s" "relay_ok (rdb s)" using inv by (simp_all add: relay_inv_def)
  from ClaimEventDelivery_effect [OF f] r obtain x q where c: "claimed token (UnixMilli now) v (rdb s) d' x q" by auto
  let ?ms = "UnixMilli now"
  let ?h = "\<lambda>y. if sr_id y = sr_id x then y\<lparr>sr_lease_token := token, sr_lease_until := ?ms + lease_ms, sr_updated := ?ms\<rparr> else y"
  have x: "x \<in> set (subs (rdb s))" "\<not> sr_deleted x" "sr_lease_until x \<le> ?ms" "ed_SubscriptionID v = sr_id x"
    "ed_LeaseToken v = token" and subs: "subs d' = map ?h (subs (rdb s))"
    using c by (simp_all add: claimed_def)
  have w: "wk ?s = (wk s)(i := Claimed v dl)" by (simp add: after_claim_def r)
  have hi: "holds (wk ?s i) = Some (token, sr_id x, dl)" using x by (simp add: w)
  have hj: "holds (wk ?s j) = holds (wk s j)" if "j \<noteq> i" for j using that by (simp add: w)
  have ex: "expired ?s t = expired s t" for t by (simp add: expired_def)
  have "UnixMilli dl \<le> UnixMilli (now + op_deadline)" by (rule UnixMilli_mono [OF dl])
  also have "\<dots> = ?ms + 10000"
    by (simp add: UnixMilli_def op_deadline_def second_ns_def)
  finally have lease: "UnixMilli dl + 20000 \<le> ?ms + lease_ms" by (simp add: lease_ms_def)
  text \<open>Whoever else holds a delivery of this subscription has an expired lease.\<close>
  have stale: "expired s t" if "holds (wk s j) = Some (t, sr_id x, dl')" for j t dl'
  proof (cases "sr_lease_token x = t")
    case False
    with workers_okD(6) [OF ok(1) that x(1) refl x(2)] show ?thesis by simp
  next
    case True
    with workers_okD(1) [OF ok(1) that] workers_okD(7) [OF ok(1) x(1)]
    have "map_of (leases s) t = Some (sr_lease_until x)" by auto
    moreover have "sr_lease_until x \<le> UnixMilli (clk s)" using x(3) UnixMilli_mono [OF now] by simp
    ultimately show ?thesis by (auto simp: expired_def)
  qed
  have "workers_ok ?s"
    unfolding workers_ok_def
  proof (intro conjI allI ballI impI)
    fix j t u dl' assume a: "holds (wk ?s j) = Some (t, u, dl')"
    show "t \<noteq> []" using a hi hj [of j] workers_okD(1) [OF ok(1), of j] token(2) by (cases "j = i") auto
    have "sr_id ` set (subs d') = sr_id ` set (subs (rdb s))" unfolding subs by (rule map_ids) simp
    then show "u \<in> sr_id ` set (subs (rdb ?s))"
      using a hi hj [of j] workers_okD(2) [OF ok(1), of j] x(1) by (cases "j = i") auto
    show "\<exists>e. map_of (leases ?s) t = Some e \<and> UnixMilli dl' + 20000 \<le> e"
      using a hi hj [of j] workers_okD(3) [OF ok(1), of j] token(1) lease by (cases "j = i") auto
  next
    fix j k t u dl1 t' u' dl2
    assume a: "j \<noteq> k" "holds (wk ?s j) = Some (t, u, dl1)" "holds (wk ?s k) = Some (t', u', dl2)"
    consider "j = i" "holds (wk s k) = Some (t', u', dl2)" "t = token" "u = sr_id x"
      | "k = i" "holds (wk s j) = Some (t, u, dl1)" "t' = token" "u' = sr_id x"
      | "holds (wk s j) = Some (t, u, dl1)" "holds (wk s k) = Some (t', u', dl2)"
      using a hi hj [of j] hj [of k] by (cases "j = i"; cases "k = i") auto
    then have "t \<noteq> t' \<and> (u = u' \<longrightarrow> expired s t \<or> expired s t')"
    proof cases
      case 1
      then show ?thesis using token(4) [of k t'] stale [of k t'] by auto
    next
      case 2
      then show ?thesis using token(4) [of j t] stale [of j t] by auto
    next
      case 3
      then show ?thesis using workers_okD(4,5) [OF ok(1) a(1)] by blast
    qed
    then show "t \<noteq> t'" "u = u' \<Longrightarrow> expired ?s t \<or> expired ?s t'" by (simp_all add: ex)
  next
    fix j t u dl' y'
    assume a: "y' \<in> set (subs (rdb ?s))" "holds (wk ?s j) = Some (t, u, dl')" "sr_id y' = u" "\<not> sr_deleted y'"
      "sr_lease_token y' \<noteq> t"
    have "y' \<in> set (subs d')" using a(1) by simp
    then obtain y where y: "y \<in> set (subs (rdb s))" "y' = ?h y" unfolding subs set_map by blast
    show "expired ?s t"
    proof (cases "j = i")
      case True
      with a(2) hi have "t = token" "u = sr_id x" by simp_all
      moreover have "sr_id y' = sr_id y" unfolding y(2) by simp
      ultimately have "sr_lease_token y' = t" using a(3) unfolding y(2) by simp
      with a(5) show ?thesis by simp
    next
      case False
      with a(2) hj have h: "holds (wk s j) = Some (t, u, dl')" by simp
      show ?thesis
      proof (cases "u = sr_id x")
        case True
        with stale h show ?thesis by (simp add: ex)
      next
        case False
        moreover have "sr_id y' = sr_id y" unfolding y(2) by simp
        ultimately have "y' = y" using a(3) unfolding y(2) by simp
        with workers_okD(6) [OF ok(1) h y(1)] a show ?thesis by (simp add: ex)
      qed
    qed
  next
    fix y' assume "y' \<in> set (subs (rdb ?s))"
    then have "y' \<in> set (subs d')" by simp
    then obtain y where y: "y \<in> set (subs (rdb s))" "y' = ?h y" unfolding subs set_map by blast
    show "sr_lease_token y' = [] \<and> sr_lease_until y' = 0 \<or> map_of (leases ?s) (sr_lease_token y') = Some (sr_lease_until y')"
      using workers_okD(7) [OF ok(1) y(1)] token(1) unfolding y(2) by (cases "sr_id y = sr_id x") simp_all
  next
    fix j show "in_time (clk ?s) (wk ?s j)" "release_ok (wk ?s j)"
      using workers_okD(8,9) [OF ok(1), of j] by (cases "j = i"; simp add: w in_time_def release_ok_def)+
  next
    show "[] \<notin> fst ` set (leases ?s)" using workers_okD(10) [OF ok(1)] by simp
  qed
  with relay_ok_claimed [OF c ok(2)] show ?thesis by (simp add: relay_inv_def)
qed

lemma send_outcome_status:
  "fst (send_outcome now v result) \<in> set delivery_statuses" "fst (send_outcome now v result) \<noteq> ''delivering''"
  by (simp_all add: send_outcome_def delivery_statuses_def)

lemma sources_same: "EventSourceAllowed t ref d = (ok, d') \<Longrightarrow> same_tables d d'"
  using eventSourceAllowed_state [of t ref d ok d'] by (auto simp: EventSourceAllowed_def)

lemma get_same: "GetEventSubscription i d = (x, d') \<Longrightarrow> same_tables d d'"
  by (auto simp: GetEventSubscription_def sql_query_def Let_def)

text \<open>A step of worker \<open>i\<close> that keeps the tables, or at least the subscriptions.\<close>

lemma worker_same_ok:
  assumes "relay_inv s" "same_tables (rdb s) d'"
    and "holds w = holds (wk s i) \<or> holds w = None" "in_time (clk s) w" "release_ok w"
  shows "relay_inv (s\<lparr>rdb := d', wk := (wk s)(i := w)\<rparr>)"
  using assms relay_ok_same [OF assms(2)]
  by (intro worker_step_ok) (auto simp: relay_inv_def same_tables_def)

lemma relay_inv_step:
  assumes "relay_step s s'" "relay_inv s"
  shows "relay_inv s'"
  using assms
proof (cases rule: relay_step.cases)
  case (advance t)
  have ok: "workers_ok s" using assms(2) by (simp add: relay_inv_def)
  have "workers_ok (s\<lparr>clk := t\<rparr>)"
    by (rule workers_ok_quiet [OF ok])
       (use advance workers_okD(9) [OF ok] in \<open>auto intro: kept_row\<close>)
  then show ?thesis using assms(2) advance(1) by (simp add: relay_inv_def)
next
  case (claim i now dl token r d')
  let ?s1 = "s\<lparr>leases := (token, UnixMilli now + lease_ms) # leases s\<rparr>"
  note d = draw_ok(1) [OF assms(2) claim(5,6), where e = "UnixMilli now + lease_ms"]
    and fresh = draw_ok(2,3) [OF assms(2) claim(5,6)]
  have "relay_inv (?s1\<lparr>rdb := d', wk := (wk ?s1)(i := after_claim dl r)\<rparr>)"
    by (rule claim_ok [OF d]) (use claim fresh in auto)
  moreover have "?s1\<lparr>rdb := d', wk := (wk ?s1)(i := after_claim dl r)\<rparr> = s'"
    unfolding claim(1) by (rule relay_sys.equality) simp_all
  ultimately show ?thesis by simp
next
  case (load i v dl loaded d')
  have "holds (after_read v dl (after_load loaded)) = holds (wk s i)"
    "in_time (clk s) (after_read v dl (after_load loaded))" "release_ok (after_read v dl (after_load loaded))"
    by (auto simp: load(2) after_read_def after_load_def in_time_def release_ok_def split: option.splits)
  then show ?thesis unfolding load(1) using worker_same_ok [OF assms(2) get_same [OF load(3)]] by blast
next
  case (check i v sub dl ok d')
  have "holds (after_check v sub dl ok) = holds (wk s i)" "in_time (clk s) (after_check v sub dl ok)"
    "release_ok (after_check v sub dl ok)"
    by (auto simp: check(2) after_check_def in_time_def release_ok_def)
  then show ?thesis unfolding check(1) using worker_same_ok [OF assms(2) sources_same [OF check(3)]] by blast
next
  case (begin_attempt i v sub dl now uuid r d')
  note e = BeginEventAttempt_effect [OF begin_attempt(5)]
  have "subs d' = subs (rdb s)" using e by (auto simp: same_tables_def split: sum.splits prod.splits)
  moreover have "relay_ok d'" using relay_ok_begin [OF begin_attempt(5)] assms(2) by (simp add: relay_inv_def)
  moreover have "holds (after_begin sub dl r) = holds (wk s i) \<or> holds (after_begin sub dl r) = None"
    "in_time (clk s) (after_begin sub dl r)" "release_ok (after_begin sub dl r)"
    using e begin_attempt(2,3) by (auto simp: after_begin_def in_time_def release_ok_def split: sum.splits prod.splits)
  ultimately show ?thesis unfolding begin_attempt(1) using worker_step_ok [OF assms(2)] by blast
next
  case (respond i v attempt sub dl result)
  have "relay_inv (s\<lparr>rdb := rdb s, wk := (wk s)(i := Finishing v attempt result dl)\<rparr>)"
    by (rule worker_same_ok [OF assms(2)]) (simp_all add: respond(2) in_time_def release_ok_def)
  then show ?thesis using respond(1) by simp
next
  case (finish i v attempt result dl now rnd r d')
  obtain st c m where o: "send_outcome now v result = (st, c, m)" by (metis prod_cases3)
  have st: "st \<in> set delivery_statuses" "st \<noteq> ''delivering''" using send_outcome_status [of now v result] o by auto
  have h: "holds (wk s i) = Some (ed_LeaseToken v, ed_SubscriptionID v, dl)" by (simp add: finish(2))
  show ?thesis
    unfolding finish(1) by (rule finish_ok [OF assms(2) h _ st]) (use finish(3) o in \<open>simp add: finish_send_def\<close>)
next
  case (let_go i v state message dl now r d')
  have h: "holds (wk s i) = Some (ed_LeaseToken v, ed_SubscriptionID v, dl)" by (simp add: let_go(2))
  have "release_ok (wk s i)" using assms(2) workers_okD(9) by (auto simp: relay_inv_def)
  then have st: "state \<in> set delivery_statuses" "state \<noteq> ''delivering''"
    by (auto simp: release_ok_def let_go(2) delivery_statuses_def)
  show ?thesis
    unfolding let_go(1) by (rule finish_ok [OF assms(2) h let_go(3) [unfolded release_def] st])
next
  case (abandon i)
  have "relay_inv (s\<lparr>rdb := rdb s, wk := (wk s)(i := Idle)\<rparr>)"
    by (rule worker_same_ok [OF assms(2)]) (simp_all add: in_time_def release_ok_def)
  then show ?thesis using abandon by simp
next
  case (save uuid now sub r1 d')
  then show ?thesis using save_ok [OF assms(2)] by blast
next
  case (delete now i r2 d')
  then show ?thesis using delete_ok [OF assms(2)] by blast
next
  case (rotate now i secret r3 d')
  then show ?thesis using rotate_ok [OF assms(2)] by blast
next
  case (ingest now uuids e target r3 d')
  have "subs d' = subs (rdb s)" using IngestRelayEvent_effect [OF ingest(2)] by (auto simp: same_tables_def)
  then show ?thesis
    unfolding ingest(1) using relay_ok_ingest [OF ingest(2)] assms(2)
    by (intro handler_same_ok) (auto simp: relay_inv_def)
next
  case (retry now i r3 d')
  then show ?thesis
    using relay_ok_retry RetryEventDelivery_effect assms(2) by (metis handler_same_ok relay_inv_def)
next
  case (prune now r2 d')
  have "subs d' = subs (rdb s)" using PruneEventDeliveries_effect [OF prune(2)] by (auto simp: same_tables_def)
  then show ?thesis
    unfolding prune(1) using relay_ok_prune [OF prune(2)] assms(2)
    by (intro handler_same_ok) (auto simp: relay_inv_def)
next
  case (other d')
  show ?thesis
    unfolding other(1) by (rule handler_same_ok [OF assms(2)])
      (use other(2) assms(2) relay_ok_same in \<open>auto simp: relay_inv_def same_tables_def\<close>)
qed

lemma relay_inv_init: "relay_init s \<Longrightarrow> relay_inv s"
  by (auto simp: relay_init_def relay_inv_def relay_ok_def shape_def shape_ok_def workers_ok_def in_time_def release_ok_def)

lemma relay_reach_inv: "relay_reach s \<Longrightarrow> relay_inv s"
  by (induction rule: relay_reach.induct) (auto intro: relay_inv_init relay_inv_step)

end
