(* ===== verification/Event_Correctness.thy ===== *)
theory Event_Correctness
  imports Event_Workers
begin

text \<open>
  The properties of the event relay: the transition system never has two requests in flight to one subscription, a
  deleted subscription stays silent, what is sent stays sent; and the functional behaviour of ingestion, of saving, of
  claiming, of signatures and of the handlers.
\<close>

section \<open>One request at a time\<close>

definition requesting :: "worker \<Rightarrow> string option" where
  "requesting w = (case w of Sending v _ _ _ \<Rightarrow> Some (ed_SubscriptionID v) | _ \<Rightarrow> None)"

lemma requesting_Some:
  "requesting w = Some u \<Longrightarrow> \<exists>v attempt sub dl. w = Sending v attempt sub dl \<and> ed_SubscriptionID v = u"
  by (auto simp: requesting_def split: worker.splits)

lemma sending_not_expired:
  assumes "relay_inv s" "wk s i = Sending v attempt sub dl"
  shows "\<not> expired s (ed_LeaseToken v)"
proof -
  have ok: "workers_ok s" using assms(1) by (simp add: relay_inv_def)
  from workers_okD(8) [OF ok, of i] have "clk s \<le> dl" by (simp add: assms(2) in_time_def)
  then have "UnixMilli (clk s) \<le> UnixMilli dl" by (rule UnixMilli_mono)
  moreover have "holds (wk s i) = Some (ed_LeaseToken v, ed_SubscriptionID v, dl)" by (simp add: assms(2))
  from workers_okD(3) [OF ok this] obtain e where "map_of (leases s) (ed_LeaseToken v) = Some e" "UnixMilli dl + 20000 \<le> e"
    by blast
  ultimately show ?thesis by (auto simp: expired_def)
qed

lemma requests_distinct:
  assumes "relay_inv s" "requesting (wk s i) = Some u" "requesting (wk s j) = Some u"
  shows "i = j"
proof (rule ccontr)
  assume ne: "i \<noteq> j"
  have ok: "workers_ok s" using assms(1) by (simp add: relay_inv_def)
  from requesting_Some [OF assms(2)] obtain v a sub dl where v: "wk s i = Sending v a sub dl" "ed_SubscriptionID v = u" by blast
  from requesting_Some [OF assms(3)] obtain v' a' sub' dl' where v': "wk s j = Sending v' a' sub' dl'" "ed_SubscriptionID v' = u"
    by blast
  have "expired s (ed_LeaseToken v) \<or> expired s (ed_LeaseToken v')"
    by (rule workers_okD(5) [OF ok ne, of _ u dl _ dl']) (simp_all add: v v')
  with sending_not_expired [OF assms(1) v(1)] sending_not_expired [OF assms(1) v'(1)] show False by blast
qed

section \<open>What a step may do to a deleted subscription and to a delivery\<close>

definition subs_grow :: "'a relay_db_scheme \<Rightarrow> 'a relay_db_scheme \<Rightarrow> bool" where
  "subs_grow d d' \<longleftrightarrow> (\<exists>h new. subs d' = map h (subs d) @ new \<and>
     (\<forall>y. sr_id (h y) = sr_id y \<and> (sr_deleted y \<longrightarrow> sr_deleted (h y))))"

lemma subs_grow_same: "subs d' = subs d \<Longrightarrow> subs_grow d d'"
  unfolding subs_grow_def by (intro exI [of _ "\<lambda>x. x"] exI [of _ "[]"]) simp

lemma subs_grow_map:
  "subs d' = map h (subs d) \<Longrightarrow> (\<And>y. sr_id (h y) = sr_id y) \<Longrightarrow> (\<And>y. sr_deleted y \<Longrightarrow> sr_deleted (h y)) \<Longrightarrow> subs_grow d d'"
  unfolding subs_grow_def by (intro exI [of _ h] exI [of _ "[]"]) simp

lemma subs_growD: "subs_grow d d' \<Longrightarrow> x \<in> set (subs d) \<Longrightarrow>
    \<exists>x'\<in>set (subs d'). sr_id x' = sr_id x \<and> (sr_deleted x \<longrightarrow> sr_deleted x')"
  by (auto simp: subs_grow_def)

text \<open>The attempts made for a subscription.\<close>

definition attempts_of :: "string \<Rightarrow> 'a relay_db_scheme \<Rightarrow> string set" where
  "attempts_of i d = at_id ` set (filter (\<lambda>a. list_ex (\<lambda>r. dr_id r = at_delivery a \<and> dr_sub r = i) (deliveries d)) (attempts d))"

definition dead :: "string \<Rightarrow> 'a relay_db_scheme \<Rightarrow> bool" where
  "dead i d \<longleftrightarrow> list_ex (\<lambda>x. sr_id x = i \<and> sr_deleted x) (subs d)"

text \<open>A sent delivery is left alone or removed.\<close>

definition sent_kept :: "'a relay_db_scheme \<Rightarrow> 'a relay_db_scheme \<Rightarrow> bool" where
  "sent_kept d d' \<longleftrightarrow> (\<forall>r\<in>set (deliveries d). \<forall>r'\<in>set (deliveries d').
     dr_id r' = dr_id r \<longrightarrow> dr_status r = ''sent'' \<longrightarrow> r' = r)"

text \<open>The three effects together; \<open>quiet\<close> is preserved by every operation.\<close>

definition quiet :: "'a relay_db_scheme \<Rightarrow> 'a relay_db_scheme \<Rightarrow> bool" where
  "quiet d d' \<longleftrightarrow> subs_grow d d' \<and> sent_kept d d' \<and> (\<forall>i. dead i d \<longrightarrow> attempts_of i d' \<subseteq> attempts_of i d)"

lemma attempts_of_cong:
  fixes d d' :: "'a relay_db_scheme"
  assumes "map (\<lambda>r. (dr_id r, dr_sub r)) (deliveries d') = map (\<lambda>r. (dr_id r, dr_sub r)) (deliveries d)"
    "map (\<lambda>a. (at_id a, at_delivery a)) (attempts d') = map (\<lambda>a. (at_id a, at_delivery a)) (attempts d)"
  shows "attempts_of i d' = attempts_of i d"
proof -
  have e: "attempts_of i x = {a. \<exists>k. (a, k) \<in> set (map (\<lambda>a. (at_id a, at_delivery a)) (attempts x)) \<and>
      (k, i) \<in> set (map (\<lambda>r. (dr_id r, dr_sub r)) (deliveries x))}" for x :: "'a relay_db_scheme"
    by (fastforce simp: attempts_of_def list_ex_iff)
  show ?thesis by (simp only: e [of d'] e [of d] assms)
qed

lemma sent_kept_map:
  assumes "relay_ok d" "deliveries d' = map g (deliveries d)" "\<And>r. dr_id (g r) = dr_id r"
    and "\<And>r. r \<in> set (deliveries d) \<Longrightarrow> dr_status r = ''sent'' \<Longrightarrow> g r = r"
  shows "sent_kept d d'"
  unfolding sent_kept_def
proof (intro ballI impI)
  fix r r' assume r: "r \<in> set (deliveries d)" "r' \<in> set (deliveries d')" "dr_id r' = dr_id r" "dr_status r = ''sent''"
  from r(2) obtain q where q: "q \<in> set (deliveries d)" "r' = g q" unfolding assms(2) set_map by blast
  with r(3) assms(3) have "dr_id q = dr_id r" by simp
  then have "q = r" using unique_row [OF relay_ok_keys(2) [OF assms(1)] q(1) r(1)] by blast
  with q r assms(4) show "r' = r" by simp
qed

lemma sent_kept_same: "relay_ok d \<Longrightarrow> deliveries d' = deliveries d \<Longrightarrow> sent_kept d d'"
  by (rule sent_kept_map [of d d' "\<lambda>x. x"]) simp_all

lemma quiet_same: "relay_ok d \<Longrightarrow> same_tables d d' \<Longrightarrow> quiet d d'"
  by (simp add: quiet_def subs_grow_same sent_kept_same same_tables_def attempts_of_def)

lemma quiet_map:
  assumes "relay_ok d" "subs_grow d d'" "deliveries d' = map g (deliveries d)"
    and "\<And>r. dr_id (g r) = dr_id r" "\<And>r. dr_sub (g r) = dr_sub r"
    and "\<And>r. r \<in> set (deliveries d) \<Longrightarrow> dr_status r = ''sent'' \<Longrightarrow> g r = r"
    and "map (\<lambda>a. (at_id a, at_delivery a)) (attempts d') = map (\<lambda>a. (at_id a, at_delivery a)) (attempts d)"
  shows "quiet d d'"
proof -
  have "attempts_of i d' = attempts_of i d" for i
    by (rule attempts_of_cong) (simp_all add: assms(3,4,5,7))
  with assms(2) sent_kept_map [OF assms(1,3,4,6)] show ?thesis by (simp add: quiet_def)
qed

lemma row_added_grow: "row_added d d' \<Longrightarrow> subs_grow d d'"
  unfolding row_added_def subs_grow_def
proof (elim exE conjE)
  fix row assume "subs d' = subs d @ [row]"
  then show "\<exists>h new. subs d' = map h (subs d) @ new \<and> (\<forall>y. sr_id (h y) = sr_id y \<and> (sr_deleted y \<longrightarrow> sr_deleted (h y)))"
    by (intro exI [of _ "\<lambda>x. x"] exI [of _ "[row]"]) simp
qed

lemma row_saved_grow: "row_saved d d' \<Longrightarrow> subs_grow d d'"
  unfolding row_saved_def
proof (elim exE conjE)
  fix t k c p u
  assume sb: "subs d' = map (\<lambda>x. if sr_owner x = t \<and> sr_key x = k
       then x\<lparr>sr_config := c, sr_paused := p, sr_updated := u\<rparr> else x) (subs d)"
  show "subs_grow d d'" by (rule subs_grow_map [OF sb]) simp_all
qed

lemma quiet_ingest:
  assumes ok: "relay_ok d" and "IngestRelayEvent now uuids e target d = (r, d')"
  shows "quiet d d'"
proof (cases "same_tables d d'")
  case True
  then show ?thesis by (rule quiet_same [OF ok])
next
  case False
  with IngestRelayEvent_effect [OF assms(2)] obtain new where n: "deliveries d' = deliveries d @ new"
    "fresh_deliveries (ev_ID e) new d" "subs d' = subs d" "attempts d' = attempts d" by blast
  have fresh: "\<And>q r. r \<in> set new \<Longrightarrow> q \<in> set (deliveries d) \<Longrightarrow> dr_id q \<noteq> dr_id r"
    using n(2) by (simp add: fresh_deliveries_def)
  have "sent_kept d d'"
    using fresh unique_row [OF relay_ok_keys(2) [OF ok]] unfolding sent_kept_def n(1) by fastforce
  moreover have "attempts_of i d' \<subseteq> attempts_of i d" for i
  proof
    fix y assume "y \<in> attempts_of i d'"
    then obtain b r where b: "b \<in> set (attempts d)" "y = at_id b" "r \<in> set (deliveries d')" "dr_id r = at_delivery b" "dr_sub r = i"
      by (auto simp: attempts_of_def list_ex_iff n(4))
    have "at_delivery b \<in> dr_id ` set (deliveries d)" using ok b(1) by (simp add: relay_ok_def shape_ok_iff)
    then obtain q where "q \<in> set (deliveries d)" "dr_id q = at_delivery b" by auto
    with b(3,4) fresh [of r q] have "r \<in> set (deliveries d)" unfolding n(1) by auto
    with b show "y \<in> attempts_of i d" by (auto simp: attempts_of_def list_ex_iff)
  qed
  ultimately show ?thesis by (simp add: quiet_def subs_grow_same n(3))
qed

lemma quiet_prune:
  assumes ok: "relay_ok d" and "PruneEventDeliveries now d = (r, d')"
  shows "quiet d d'"
proof (cases "same_tables d d'")
  case True
  then show ?thesis by (rule quiet_same [OF ok])
next
  case False
  with PruneEventDeliveries_effect [OF assms(2)]
  have e: "subs d' = subs d" "deliveries d' = filter (\<lambda>r. \<not> prunable now r) (deliveries d)"
    "set (attempts d') \<subseteq> set (attempts d)" by auto
  have "sent_kept d d'"
    using unique_row [OF relay_ok_keys(2) [OF ok]] unfolding sent_kept_def e by fastforce
  moreover have "attempts_of i d' \<subseteq> attempts_of i d" for i
    using e(2,3) by (auto simp: attempts_of_def list_ex_iff)
  ultimately show ?thesis by (simp add: quiet_def subs_grow_same e(1))
qed

lemma quiet_step:
  assumes "relay_step s s'" "relay_inv s"
  shows "quiet (rdb s) (rdb s')"
  using assms(1)
proof (cases rule: relay_step.cases)
  have ok: "relay_ok (rdb s)" using assms(2) by (simp add: relay_inv_def)
  have fin: "quiet (rdb s) d'" if "FinishEventDelivery now v attempt status code message next_at (rdb s) = (r, d')"
    for now v attempt status code message next_at r d'
  proof (cases r)
    case (Inl e)
    then show ?thesis using FinishEventDelivery_effect [OF that] quiet_same [OF ok] by simp
  next
    case (Inr u)
    note e = FinishEventDelivery_effect [OF that, unfolded Inr sum.case, THEN conjunct2, THEN conjunct2]
    note dl = e [THEN conjunct1] and at = e [THEN conjunct2, THEN conjunct1] and sb = e [THEN conjunct2, THEN conjunct2]
    show ?thesis
      by (rule quiet_map [OF ok subs_grow_map [OF sb] dl]) (simp_all add: held_def at)
  qed
  {
    case (advance t)
    then show ?thesis using quiet_same [OF ok] by simp
  next
    case (claim i now dl token r d')
    show ?thesis
    proof (cases "\<exists>v. r = Inr (Some v)")
      case False
      with ClaimEventDelivery_effect [OF claim(7)] quiet_same [OF ok] show ?thesis
        by (auto simp: claim(1) split: sum.splits option.splits)
    next
      case True
      then obtain v x q where c: "claimed token (UnixMilli now) v (rdb s) d' x q"
        using ClaimEventDelivery_effect [OF claim(7)] by auto
      have q: "q \<in> set (deliveries (rdb s))" "dr_status q \<noteq> ''sent''"
        using c by (auto simp: claimed_def ready_def open_status_def)
      have "r = q" if "r \<in> set (deliveries (rdb s))" "dr_id r = dr_id q" for r
        using unique_row [OF relay_ok_keys(2) [OF ok] that(1) q(1) that(2)] .
      moreover have sb: "subs d' = map (\<lambda>y. if sr_id y = sr_id x then y\<lparr>sr_lease_token := token,
          sr_lease_until := UnixMilli now + lease_ms, sr_updated := UnixMilli now\<rparr> else y) (subs (rdb s))"
        and dl: "deliveries d' = map (\<lambda>x. if dr_id x = dr_id q then x\<lparr>dr_status := ''delivering'',
          dr_lease_token := token, dr_lease_until := UnixMilli now + lease_ms\<rparr> else x) (deliveries (rdb s))"
        and "attempts d' = attempts (rdb s)"
        using c by (simp_all add: claimed_def)
      ultimately have "quiet (rdb s) d'"
        by (intro quiet_map [OF ok subs_grow_map [OF sb] dl]) (use q in auto)
      then show ?thesis by (simp add: claim(1))
    qed
  next
    case (load i v dl loaded d')
    then show ?thesis using quiet_same [OF ok get_same] by simp
  next
    case (check i v sub dl ok' d')
    then show ?thesis using quiet_same [OF ok sources_same] by simp
  next
    case (begin_attempt i v sub dl now uuid r d')
    show ?thesis
    proof (cases r)
      case (Inl e)
      then show ?thesis using BeginEventAttempt_effect [OF begin_attempt(5)] quiet_same [OF ok] by (simp add: begin_attempt(1))
    next
      case (Inr p)
      obtain a v' where p: "p = (a, v')" by fastforce
      note e = BeginEventAttempt_effect [OF begin_attempt(5), unfolded Inr p sum.case prod.case]
      from e obtain q where q: "q \<in> set (deliveries (rdb s))" "held v q" by blast
      have g: "deliveries d' = map (\<lambda>x. if held v x then x\<lparr>dr_attempts := dr_attempts x + 1,
          dr_first := (if dr_first x = 0 then UnixMilli now else dr_first x), dr_updated := UnixMilli now\<rparr> else x)
          (deliveries (rdb s))" using e by blast
      have "sent_kept (rdb s) d'" by (rule sent_kept_map [OF ok g]) (auto simp: held_def)
      moreover have "attempts_of k d' \<subseteq> attempts_of k (rdb s)" if "dead k (rdb s)" for k
      proof
        fix y assume "y \<in> attempts_of k d'"
        then obtain b r' where b: "b \<in> set (attempts d')" "y = at_id b" and r': "r' \<in> set (deliveries d')"
          "dr_id r' = at_delivery b" "dr_sub r' = k" by (auto simp: attempts_of_def list_ex_iff)
        from r' obtain r where r: "r \<in> set (deliveries (rdb s))" "dr_id r = at_delivery b" "dr_sub r = k"
          unfolding g by (auto split: if_splits)
        from that obtain x where "x \<in> set (subs (rdb s))" "sr_id x = k" "sr_deleted x" by (auto simp: dead_def list_ex_iff)
        then have "silent x (rdb s)" "sr_id x = k" using ok by (auto simp: relay_ok_def)
        then have nd: "dr_status r \<noteq> ''delivering''" using r by (simp add: silent_def)
        have "at_delivery b \<noteq> ed_ID v"
        proof
          assume "at_delivery b = ed_ID v"
          then have "dr_id r = dr_id q" using r(2) q(2) by (simp add: held_def)
          then have "r = q" using unique_row [OF relay_ok_keys(2) [OF ok] r(1) q(1)] by blast
          with nd q(2) show False by (simp add: held_def)
        qed
        then have "b \<in> set (attempts (rdb s))" using b(1) e by auto
        with b(2) r show "y \<in> attempts_of k (rdb s)" by (auto simp: attempts_of_def list_ex_iff)
      qed
      moreover have "subs_grow (rdb s) d'" using e by (simp add: subs_grow_same)
      ultimately show ?thesis by (simp add: begin_attempt(1) quiet_def)
    qed
  next
    case (respond i v attempt sub dl result)
    then show ?thesis using quiet_same [OF ok] by simp
  next
    case (finish i v attempt result dl now rnd r d')
    then show ?thesis using fin by (auto simp: finish_send_def split: prod.splits)
  next
    case (let_go i v state message dl now r d')
    then show ?thesis using fin by (simp add: release_def)
  next
    case (abandon i)
    then show ?thesis using quiet_same [OF ok] by simp
  next
    case (save uuid now sub r1 d')
    have "rest_same (rdb s) d'" "subs d' = subs (rdb s) \<or> row_added (rdb s) d' \<or> row_saved (rdb s) d'"
      using SaveEventSubscription_effect [OF save(2)] by blast+
    then have "subs_grow (rdb s) d'" "deliveries d' = deliveries (rdb s)" "attempts d' = attempts (rdb s)"
      using subs_grow_same row_added_grow row_saved_grow unfolding rest_same_def by blast+
    then show ?thesis
      unfolding save(1) by (intro quiet_map [OF ok, where g = "\<lambda>x. x"]) simp_all
  next
    case (delete now i r2 d')
    show ?thesis
    proof (cases "same_tables (rdb s) d'")
      case True
      then show ?thesis using quiet_same [OF ok] delete(1) by simp
    next
      case False
      with DeleteEventSubscription_effect [OF delete(2)]
      have e: "attempts d' = attempts (rdb s)"
        "subs d' = map (\<lambda>r. if sr_id r = i then r\<lparr>sr_deleted := True, sr_secret := [], sr_updated := UnixMilli now,
            sr_lease_token := [], sr_lease_until := 0\<rparr> else r) (subs (rdb s))"
        "deliveries d' = map (\<lambda>r. if dr_sub r = i \<and> open_status (dr_status r)
            then r\<lparr>dr_status := ''cancelled'', dr_lease_token := [], dr_lease_until := 0, dr_updated := UnixMilli now\<rparr>
            else r) (deliveries (rdb s))" by blast+
      have "quiet (rdb s) d'"
        by (rule quiet_map [OF ok subs_grow_map [OF e(2)] e(3)]) (auto simp: e(1) open_status_def)
      then show ?thesis by (simp add: delete(1))
    qed
  next
    case (rotate now i secret r3 d')
    have "subs_grow (rdb s) d'"
      using RotateEventSecret_effect [OF rotate(2), THEN conjunct2]
    proof
      assume sb: "subs d' = map (\<lambda>x. if sr_id x = i \<and> \<not> sr_deleted x
         then x\<lparr>sr_secret := secret, sr_updated := UnixMilli now\<rparr> else x) (subs (rdb s))"
      show ?thesis by (rule subs_grow_map [OF sb]) simp_all
    qed (rule subs_grow_same)
    moreover have "deliveries d' = deliveries (rdb s)" "attempts d' = attempts (rdb s)"
      using RotateEventSecret_effect [OF rotate(2)] by (simp_all add: rest_same_def)
    ultimately show ?thesis
      unfolding rotate(1) by (intro quiet_map [OF ok, where g = "\<lambda>x. x"]) simp_all
  next
    case (ingest now uuids e target r3 d')
    then show ?thesis using quiet_ingest [OF ok ingest(2)] by simp
  next
    case (retry now i r3 d')
    note e = RetryEventDelivery_effect [OF retry(2)]
    have "quiet (rdb s) d'"
    proof (cases "deliveries d' = deliveries (rdb s)")
      case True
      with e quiet_same [OF ok] show ?thesis by (simp add: same_tables_def)
    next
      case False
      with e have dl: "deliveries d' = map (\<lambda>x. if dr_id x = i \<and> dr_status x \<in> set [''dead'', ''retry'', ''blocked''] \<and>
          dr_lease_until x \<le> UnixMilli now
        then x\<lparr>dr_status := ''pending'', dr_first := 0, dr_next := UnixMilli now, dr_last_error := [],
               dr_updated := UnixMilli now\<rparr> else x) (deliveries (rdb s))" by blast
      show ?thesis by (rule quiet_map [OF ok subs_grow_same dl]) (use e in simp_all)
    qed
    then show ?thesis by (simp add: retry(1))
  next
    case (prune now r2 d')
    then show ?thesis using quiet_prune [OF ok prune(2)] by simp
  next
    case (other d')
    then show ?thesis using quiet_same [OF ok] by simp
  }
qed

lemma quiet_steps:
  assumes "relay_step\<^sup>*\<^sup>* s s'" "relay_inv s" "x \<in> set (subs (rdb s))" "sr_deleted x"
  shows "relay_inv s' \<and> (\<exists>x'\<in>set (subs (rdb s')). sr_id x' = sr_id x \<and> sr_deleted x') \<and>
    attempts_of (sr_id x) (rdb s') \<subseteq> attempts_of (sr_id x) (rdb s)"
  using assms
proof (induction rule: rtranclp_induct)
  case base
  then show ?case by auto
next
  case (step t s')
  then have inv: "relay_inv t" and x: "\<exists>x'\<in>set (subs (rdb t)). sr_id x' = sr_id x \<and> sr_deleted x'"
    and a: "attempts_of (sr_id x) (rdb t) \<subseteq> attempts_of (sr_id x) (rdb s)" by auto
  from quiet_step [OF step(2) inv] have q: "quiet (rdb t) (rdb s')" .
  have "dead (sr_id x) (rdb t)" using x by (auto simp: dead_def list_ex_iff)
  with q a have "attempts_of (sr_id x) (rdb s') \<subseteq> attempts_of (sr_id x) (rdb s)" by (auto simp: quiet_def)
  moreover from q x have "\<exists>x'\<in>set (subs (rdb s')). sr_id x' = sr_id x \<and> sr_deleted x'"
    unfolding quiet_def by (metis subs_growD)
  ultimately show ?case using relay_inv_step [OF step(2) inv] by blast
qed

section \<open>Who receives an event\<close>

text \<open>The contract of the sources: an existing source is open to the administrator, and to an active tenant that owns
  it or holds a grant to use it; the system source is for the administrator only.\<close>

definition valid_ref :: "string \<Rightarrow> bool" where
  "valid_ref ref \<longleftrightarrow> ref = ''system'' \<or>
     (case cut_colon ref of (kind, i, ok) \<Rightarrow> ok \<and> i \<noteq> [] \<and> kind \<in> set [''channel'', ''agent'', ''trigger''])"

definition source_owner :: "string \<Rightarrow> 'a relay_db_scheme \<Rightarrow> string option" where
  "source_owner ref d =
     (if ref = ''system'' then Some []
      else case cut_colon ref of (kind, i, ok) \<Rightarrow>
        (case source_table kind of None \<Rightarrow> None | Some owner \<Rightarrow> owner i d))"

definition may_receive :: "string \<Rightarrow> string \<Rightarrow> 'a relay_db_scheme \<Rightarrow> bool" where
  "may_receive tenant ref d =
     (case source_owner ref d of
        None \<Rightarrow> False
      | Some owner \<Rightarrow> tenant = [] \<or>
          ref \<noteq> ''system'' \<and> Active (table_find tn_ID tenant (tenants d)) \<and>
          (owner = tenant \<or> GrantSatisfies (grant_level tenant ''event_source'' ref d) ''use''))"

lemma source_table_tick: "source_table kind = Some f \<Longrightarrow> f i (d\<lparr>tick := n\<rparr>) = f i d"
  by (auto simp: source_table_def split: if_splits)

lemma valid_source: "valid_ref ref \<Longrightarrow> ref \<noteq> ''system'' \<Longrightarrow>
    \<exists>kind i (f :: string \<Rightarrow> 'a relay_db_scheme \<Rightarrow> string option).
      cut_colon ref = (kind, i, True) \<and> i \<noteq> [] \<and> source_table kind = Some f"
  by (auto simp: valid_ref_def source_table_def split: prod.splits)

lemma may_receive_tick [simp]: "may_receive t ref (d\<lparr>tick := n\<rparr>) = may_receive t ref d"
proof -
  have "source_owner ref (d\<lparr>tick := n\<rparr>) = source_owner ref d"
    by (auto simp: source_owner_def source_table_def split: prod.splits option.splits)
  then show ?thesis by (simp add: may_receive_def grant_level_def cong: option.case_cong)
qed

lemma eventSourceOwner_healthy:
  fixes d :: "'a relay_db_scheme"
  assumes "healthy d" "valid_ref ref"
  shows "\<exists>n. eventSourceOwner ref d =
    (case source_owner ref d of None \<Rightarrow> Inl NoRows | Some owner \<Rightarrow> Inr owner, d\<lparr>tick := n\<rparr>)"
proof (cases "ref = ''system''")
  case True
  then show ?thesis by (auto simp: eventSourceOwner_def source_owner_def intro: exI [of _ "tick d"])
next
  case False
  with valid_source [OF assms(2)] obtain kind i
    and f :: "string \<Rightarrow> 'a relay_db_scheme \<Rightarrow> string option" where s: "cut_colon ref = (kind, i, True)" "i \<noteq> []" "source_table kind = Some f"
    by blast
  show ?thesis
    using False s source_table_tick [OF s(3)] assms(1)
    by (cases "f i d") (auto simp: eventSourceOwner_def source_owner_def sql_query_healthy)
qed

lemma GrantSatisfies_Nil [simp]: "\<not> GrantSatisfies [] r"
  by (simp add: GrantSatisfies_rank rank_of_def grantRank_def)

lemma eventSourceAllowed_healthy:
  assumes "healthy d" "valid_ref ref"
  shows "\<exists>n. eventSourceAllowed t ref d = (Inr (may_receive t ref d), d\<lparr>tick := n\<rparr>)"
proof -
  obtain n where n: "eventSourceOwner ref d =
    (case source_owner ref d of None \<Rightarrow> Inl NoRows | Some owner \<Rightarrow> Inr owner, d\<lparr>tick := n\<rparr>)"
    using eventSourceOwner_healthy [OF assms] by blast
  show ?thesis
  proof (cases "source_owner ref d")
    case None
    with n show ?thesis by (auto simp: eventSourceAllowed_def may_receive_def)
  next
    case (Some owner)
    with n assms(1) show ?thesis
      by (auto simp: eventSourceAllowed_def may_receive_def sql_query_healthy Active_def grant_level_def split: option.splits)
  qed
qed

lemma allowed_subs_healthy:
  assumes "healthy d" "valid_ref ref"
  shows "\<exists>n. allowed_subs ref xs d = (Inr (filter (\<lambda>s. may_receive (es_OwnerTenantID s) ref d) xs), d\<lparr>tick := n\<rparr>)"
  using assms
proof (induction xs arbitrary: d)
  case Nil
  then show ?case by (auto intro: exI [of _ "tick d"])
next
  case (Cons sub xs)
  obtain n where n: "eventSourceAllowed (es_OwnerTenantID sub) ref d =
      (Inr (may_receive (es_OwnerTenantID sub) ref d), d\<lparr>tick := n\<rparr>)"
    using eventSourceAllowed_healthy [OF Cons.prems] by blast
  obtain m where "allowed_subs ref xs (d\<lparr>tick := n\<rparr>) =
      (Inr (filter (\<lambda>s. may_receive (es_OwnerTenantID s) ref (d\<lparr>tick := n\<rparr>)) xs), d\<lparr>tick := n, tick := m\<rparr>)"
    using Cons.IH [of "d\<lparr>tick := n\<rparr>"] Cons.prems by auto
  with n show ?case by auto
qed

text \<open>With fresh identifiers every insertion succeeds.\<close>

lemma insert_deliveries_healthy:
  assumes "healthy d" "distinct (map es_ID xs)" "inj uuid"
    and "\<forall>r\<in>set (deliveries d). dr_event r = event \<longrightarrow> dr_sub r \<notin> es_ID ` set xs"
    and "\<forall>j\<ge>k. ''del_'' @ uuid j \<notin> dr_id ` set (deliveries d)"
  shows "\<exists>d'. insert_deliveries event now uuid k xs d = (Commit (Inr ()), d') \<and> healthy d'"
  using assms
proof (induction xs arbitrary: k d)
  case (Cons sub xs)
  let ?r = "new_delivery (''del_'' @ uuid k) (es_ID sub) event now"
  let ?d = "d\<lparr>tick := Suc (tick d), deliveries := deliveries d @ [?r]\<rparr>"
  have "''del_'' @ uuid k \<notin> dr_id ` set (deliveries d)" using Cons.prems(5) by blast
  then have "\<forall>q\<in>set (deliveries d). dr_id q \<noteq> ''del_'' @ uuid k" by (metis image_eqI)
  then have "\<not> list_ex (\<lambda>q. dr_id q = dr_id ?r \<or> dr_sub q = dr_sub ?r \<and> dr_event q = dr_event ?r) (deliveries d)"
    using Cons.prems(4) unfolding list_ex_iff new_delivery_def by auto
  then have e: "sql_exec (insert_delivery ?r) d = (True, ?d)"
    using Cons.prems(1) by (simp add: sql_exec_healthy insert_delivery_def)
  have "uuid j \<noteq> uuid k" if "j \<ge> Suc k" for j using that Cons.prems(3) by (auto dest: injD)
  then have "\<exists>d'. insert_deliveries event now uuid (Suc k) xs ?d = (Commit (Inr ()), d') \<and> healthy d'"
    using Cons.prems by (intro Cons.IH) (auto simp: healthy_def new_delivery_def)
  with e show ?case by simp
qed auto

definition receivers :: "RelayEvent \<Rightarrow> 'a relay_db_scheme \<Rightarrow> sub_row list" where
  "receivers e d = filter (\<lambda>s. \<not> sr_deleted s \<and> Matches (scanEventSubscription s) e \<and>
     may_receive (sr_owner s) (ev_SourceRef e) d) (subs d)"

lemma scan_owner [simp]: "es_OwnerTenantID (scanEventSubscription s) = sr_owner s"
  by (simp add: scanEventSubscription_def)

lemma live_receivers:
  "filter (\<lambda>s. may_receive (es_OwnerTenantID s) (ev_SourceRef e) d)
     (filter (wanted [] e) (map scanEventSubscription (filter (\<lambda>r. \<not> sr_deleted r) (subs d)))) =
   map scanEventSubscription (receivers e d)"
  by (simp add: receivers_def filter_map comp_def wanted_def conj_commute conj_left_commute)

lemma ingest_new:
  assumes h: "healthy d" and ok: "relay_ok d" and ref: "valid_ref (ev_SourceRef e)"
    and new: "ev_ID e \<notin> vr_id ` set (events d)" "dedupe_key e \<notin> vr_dedupe ` set (events d)"
    and uuid: "inj uuid" "\<forall>k. ''del_'' @ uuid k \<notin> dr_id ` set (deliveries d)"
    and run: "IngestRelayEvent now uuid e [] d = (r, d')"
  shows "r = Inr () \<and> (\<exists>added. deliveries d' = deliveries d @ added \<and> map dr_sub added = map sr_id (receivers e d) \<and>
     (\<forall>x\<in>set added. x = new_delivery (dr_id x) (dr_sub x) (ev_ID e) (UnixMilli now))) \<and> subs d' = subs d"
proof -
  let ?live = "map scanEventSubscription (filter (\<lambda>r. \<not> sr_deleted r) (subs d))"
  let ?xs = "map scanEventSubscription (receivers e d)"
  let ?d1 = "d\<lparr>tick := Suc (Suc (tick d))\<rparr>"
  obtain n where a: "allowed_subs (ev_SourceRef e) (filter (wanted [] e) ?live) ?d1 = (Inr ?xs, d\<lparr>tick := n\<rparr>)"
    using allowed_subs_healthy [of ?d1 "ev_SourceRef e" "filter (wanted [] e) ?live"] h ref live_receivers [of e d]
    by auto
  show ?thesis
  proof (cases "receivers e d = []")
    case True
    then have "ingest_body e [] (UnixMilli now) uuid (d\<lparr>tick := Suc (tick d)\<rparr>) = (Commit (Inr ()), d\<lparr>tick := n\<rparr>)"
      using a h by (simp add: ingest_body_def tx_then_def sql_query_healthy)
    with run h True show ?thesis
      by (auto simp: IngestRelayEvent_def in_tx_healthy healthy_def)
  next
    case False
    let ?row = "\<lparr>vr_id = ev_ID e, vr_dedupe = dedupe_key e, vr_source_ref = ev_SourceRef e, vr_envelope = e,
       vr_created = UnixMilli now\<rparr>"
    let ?d3 = "d\<lparr>tick := Suc n, events := events d @ [?row]\<rparr>"
    have none: "\<forall>r\<in>set (deliveries d). dr_event r \<noteq> ev_ID e" using shape_refs(2) [OF ok] new(1) by metis
    have "distinct (map sr_id (receivers e d))"
      using relay_ok_keys(1) [OF ok] unfolding receivers_def by (rule distinct_map_filter)
    then obtain d4 where i: "insert_deliveries (ev_ID e) (UnixMilli now) uuid 0 ?xs ?d3 = (Commit (Inr ()), d4)" "healthy d4"
      using insert_deliveries_healthy [of ?d3 ?xs uuid "ev_ID e" 0 "UnixMilli now"] h uuid none
      by (auto simp: comp_def healthy_def)
    have "ingest_body e [] (UnixMilli now) uuid (d\<lparr>tick := Suc (tick d)\<rparr>) = (Commit (Inr ()), d4)"
      using a h False i new
      by (simp add: ingest_body_def tx_then_def sql_query_healthy sql_returning_healthy insert_event_def list_ex_iff image_iff)
         (metis (no_types, lifting))
    then have "r = Inr ()" "d' = d4\<lparr>tick := Suc (tick d4)\<rparr>"
      using run h i(2) by (simp_all add: IngestRelayEvent_def in_tx_healthy healthy_def)
    with insert_deliveries_effect [OF i(1)] show ?thesis by (auto simp: comp_def)
  qed
qed

section \<open>Claiming\<close>

lemma first_row_None: "first_row xs = None \<longleftrightarrow> xs = []"
  by (simp add: first_row_def split: list.splits)

text \<open>
  A delivery that waits for a subscription: not yet settled, due, and under no lease; and a subscription that can be
  served.
\<close>

definition waiting :: "int \<Rightarrow> string \<Rightarrow> delivery_row \<Rightarrow> bool" where
  "waiting ms i r \<longleftrightarrow> dr_sub r = i \<and> dr_status r \<in> {''pending'', ''retry'', ''blocked'', ''delivering''} \<and>
     dr_next r \<le> ms \<and> dr_lease_until r \<le> ms"

definition serviceable :: "int \<Rightarrow> 'a relay_db_scheme \<Rightarrow> sub_row \<Rightarrow> bool" where
  "serviceable ms d s \<longleftrightarrow> \<not> sr_deleted s \<and> \<not> sr_paused s \<and> sr_lease_until s \<le> ms \<and>
     list_ex (waiting ms (sr_id s)) (deliveries d)"

text \<open>
  What a claim hands out and leaves behind: the subscription that was served longest ago, its waiting delivery that is
  due first, and a lease of thirty seconds on both.
\<close>

definition serves :: "string \<Rightarrow> int \<Rightarrow> 'a relay_db_scheme \<Rightarrow> 'a relay_db_scheme \<Rightarrow> EventDelivery \<Rightarrow> bool" where
  "serves token ms d d' v \<longleftrightarrow>
     (\<exists>s\<in>set (subs d). \<exists>x\<in>set (deliveries d).
        serviceable ms d s \<and> list_all (\<lambda>q. serviceable ms d q \<longrightarrow> sr_updated s \<le> sr_updated q) (subs d) \<and>
        waiting ms (sr_id s) x \<and> list_all (\<lambda>y. waiting ms (sr_id s) y \<longrightarrow> dr_next x \<le> dr_next y) (deliveries d) \<and>
        ed_ID v = dr_id x \<and> ed_SubscriptionID v = sr_id s \<and> ed_LeaseToken v = token \<and>
        subs d' = map (\<lambda>q. if sr_id q = sr_id s
          then q\<lparr>sr_lease_token := token, sr_lease_until := ms + 30000, sr_updated := ms\<rparr> else q) (subs d) \<and>
        deliveries d' = map (\<lambda>y. if dr_id y = dr_id x
          then y\<lparr>dr_status := ''delivering'', dr_lease_token := token, dr_lease_until := ms + 30000\<rparr> else y) (deliveries d))"

lemma waiting_ready: "waiting ms i r \<longleftrightarrow> dr_sub r = i \<and> ready ms r"
  by (auto simp: waiting_def ready_def open_status_def)

lemma first_sorted: "first_row (sort_key f xs) = Some x \<Longrightarrow> x \<in> set xs \<and> (\<forall>y\<in>set xs. f x \<le> f y)"
proof -
  assume f: "first_row (sort_key f xs) = Some x"
  then obtain ys where ys: "sort_key f xs = x # ys" by (auto simp: first_row_def split: list.splits)
  have "sorted (map f (x # ys))" unfolding ys [symmetric] by simp
  moreover have "set (x # ys) = set xs" unfolding ys [symmetric] by simp
  ultimately show ?thesis by auto
qed

lemma sort_Nil_iff: "sort_key f xs = [] \<longleftrightarrow> xs = []"
  by (metis length_0_conv length_sort)

lemma claimable_sub_None: "claimable_sub ms d = None \<longleftrightarrow> \<not> list_ex (serviceable ms d) (subs d)"
  by (auto simp: claimable_sub_def first_row_None sort_Nil_iff serviceable_def waiting_ready filter_empty_conv list_ex_iff)

lemma claimable_sub_serves:
  assumes "claimable_sub ms d = Some i"
  shows "\<exists>s\<in>set (subs d). i = sr_id s \<and> serviceable ms d s \<and> list_all (\<lambda>q. serviceable ms d q \<longrightarrow> sr_updated s \<le> sr_updated q) (subs d)"
proof -
  have f: "filter (\<lambda>s. \<not> sr_deleted s \<and> \<not> sr_paused s \<and> sr_lease_until s \<le> ms \<and>
      list_ex (\<lambda>r. dr_sub r = sr_id s \<and> ready ms r) (deliveries d)) (subs d) = filter (serviceable ms d) (subs d)"
    by (rule filter_cong) (simp_all add: serviceable_def waiting_ready [abs_def])
  obtain s where s: "first_row (sort_key sr_updated (sort_key (\<lambda>s. text_key d (sr_id s)) (filter (serviceable ms d) (subs d)))) = Some s"
    "i = sr_id s"
    using assms unfolding claimable_sub_def f by auto
  from first_sorted [OF s(1)] s(2) show ?thesis by (auto simp: list_all_iff)
qed

lemma joined_total: "relay_ok d \<Longrightarrow> r \<in> set (deliveries d) \<Longrightarrow> joined d r \<noteq> None"
  using shape_refs(2) [of d r] by (auto simp: joined_def table_find_def find_None_iff')

lemma claimable_delivery_serves:
  assumes "relay_ok d" "list_ex (waiting ms i) (deliveries d)"
  shows "\<exists>v. \<exists>x\<in>set (deliveries d). claimable_delivery i ms d = Some v \<and> ed_ID v = dr_id x \<and> ed_SubscriptionID v = i \<and>
    waiting ms i x \<and> list_all (\<lambda>y. waiting ms i y \<longrightarrow> dr_next x \<le> dr_next y) (deliveries d)"
proof -
  let ?rows = "filter (\<lambda>r. dr_sub r = i \<and> ready ms r \<and> joined d r \<noteq> None) (deliveries d)"
  have r: "?rows = filter (waiting ms i) (deliveries d)"
    using joined_total [OF assms(1)] by (auto simp: waiting_ready intro: filter_cong)
  have "?rows \<noteq> []" unfolding r using assms(2) by (auto simp: filter_empty_conv list_ex_iff)
  then have "first_row (sort_key dr_next (sort_key dr_created (sort_key (\<lambda>r. text_key d (dr_id r)) ?rows))) \<noteq> None"
    by (simp only: first_row_None sort_Nil_iff not_False_eq_True)
  then obtain x where x: "first_row (sort_key dr_next (sort_key dr_created (sort_key (\<lambda>r. text_key d (dr_id r)) ?rows))) = Some x"
    by blast
  from first_sorted [OF this] have m: "x \<in> set (deliveries d)" "waiting ms i x"
    "list_all (\<lambda>y. waiting ms i y \<longrightarrow> dr_next x \<le> dr_next y) (deliveries d)"
    unfolding r by (auto simp: list_all_iff)
  obtain v where v: "joined d x = Some v" using joined_total [OF assms(1) m(1)] by blast
  then have "ed_ID v = dr_id x \<and> ed_SubscriptionID v = i"
    using m(2) by (auto simp: joined_def scanEventDelivery_def waiting_def)
  moreover have "claimable_delivery i ms d = Some v" using x v by (simp add: claimable_delivery_def)
  ultimately show ?thesis using m by blast
qed

lemma joined_tick [simp]: "joined (d\<lparr>tick := n\<rparr>) = joined d"
  by (rule ext) (simp add: joined_def)

lemma claim_iff:
  assumes h: "healthy d" and ok: "relay_ok d" and run: "ClaimEventDelivery token now d = (r, d')"
  shows "if list_ex (serviceable (UnixMilli now) d) (subs d) then \<exists>v. r = Inr (Some v) \<and> serves token (UnixMilli now) d d' v
    else r = Inr None \<and> subs d' = subs d \<and> deliveries d' = deliveries d"
proof (cases "claimable_sub (UnixMilli now) d")
  case None
  have t: "claimable_sub ms (d\<lparr>tick := n\<rparr>) = claimable_sub ms d" for ms n by (simp add: claimable_sub_def)
  have "r = Inr None \<and> subs d' = subs d \<and> deliveries d' = deliveries d"
    using run h None
    by (auto simp: ClaimEventDelivery_def in_tx_healthy claim_body_def tx_then_def sql_query_healthy t)
  with None show ?thesis by (simp add: claimable_sub_None)
next
  case (Some i)
  have t: "claimable_sub ms (d\<lparr>tick := n\<rparr>) = claimable_sub ms d" "claimable_delivery i ms (d\<lparr>tick := n\<rparr>) = claimable_delivery i ms d"
    for ms n by (simp_all add: claimable_sub_def claimable_delivery_def)
  obtain s where s: "s \<in> set (subs d)" "i = sr_id s" "serviceable (UnixMilli now) d s"
    "list_all (\<lambda>q. serviceable (UnixMilli now) d q \<longrightarrow> sr_updated s \<le> sr_updated q) (subs d)"
    using claimable_sub_serves [OF Some] by blast
  then have "list_ex (waiting (UnixMilli now) i) (deliveries d)" by (simp add: serviceable_def)
  from claimable_delivery_serves [OF ok this] obtain v x where v: "claimable_delivery i (UnixMilli now) d = Some v"
    and x: "x \<in> set (deliveries d)" "ed_ID v = dr_id x" "ed_SubscriptionID v = i" "waiting (UnixMilli now) i x"
      "list_all (\<lambda>y. waiting (UnixMilli now) i y \<longrightarrow> dr_next x \<le> dr_next y) (deliveries d)" by blast
  have res: "r = Inr (Some (v\<lparr>ed_LeaseToken := token\<rparr>)) \<and>
      subs d' = map (\<lambda>q. if sr_id q = i then q\<lparr>sr_lease_token := token, sr_lease_until := UnixMilli now + 30000, sr_updated := UnixMilli now\<rparr> else q) (subs d) \<and>
      deliveries d' = map (\<lambda>y. if dr_id y = dr_id x
          then y\<lparr>dr_status := ''delivering'', dr_lease_token := token, dr_lease_until := UnixMilli now + 30000\<rparr> else y) (deliveries d)"
    using run h Some v x(2)
    by (auto simp: ClaimEventDelivery_def in_tx_healthy claim_body_def tx_then_def sql_query_healthy t update_subs_def
        update_deliveries_def sql_returning_healthy healthy_def sql_returning_def Let_def lease_ms_def)
  have "serves token (UnixMilli now) d d' (v\<lparr>ed_LeaseToken := token\<rparr>)"
    unfolding serves_def using s x res by (intro bexI [OF _ s(1)] bexI [OF _ x(1)]) simp
  moreover have "list_ex (serviceable (UnixMilli now) d) (subs d)" using Some claimable_sub_None [of "UnixMilli now" d] by auto
  ultimately show ?thesis using res by auto
qed

section \<open>Saving\<close>

text \<open>The row a save ends in: a new one with the proposed secret, or the live row of the key, which keeps its secret.\<close>

definition kept_secret :: "string \<Rightarrow> string \<Rightarrow> string \<Rightarrow> string \<Rightarrow> 'a relay_db_scheme \<Rightarrow> bool" where
  "kept_secret i secret t k d \<longleftrightarrow> (\<exists>q\<in>set (subs d). sr_id q = i \<and> \<not> sr_deleted q \<and> sr_secret q = secret \<and>
     sr_owner q = t \<and> sr_key q = k)"

definition stored :: "bool \<Rightarrow> string \<Rightarrow> string \<Rightarrow> EventSubscription \<Rightarrow> 'a relay_db_scheme \<Rightarrow> 'a relay_db_scheme \<Rightarrow> bool" where
  "stored created i secret sub d d' \<longleftrightarrow>
     (\<exists>x\<in>set (subs d'). sr_id x = i \<and> \<not> sr_deleted x \<and> sr_secret x = secret \<and> sr_owner x = es_OwnerTenantID sub \<and>
        sr_key x = es_Key sub \<and> sr_config x = sub\<lparr>es_Secret := []\<rparr>) \<and>
     (if created then i \<notin> sr_id ` set (subs d) \<and> secret = es_Secret sub
      else kept_secret i secret (es_OwnerTenantID sub) (es_Key sub) d) \<and>
     (\<forall>q\<in>set (subs d). sr_deleted q \<longrightarrow> q \<in> set (subs d'))"

lemma stored_tick: "stored created i secret sub (d\<lparr>tick := n\<rparr>) d' = stored created i secret sub d d'"
  unfolding stored_def kept_secret_def by simp

lemma save_sub_Inr:
  assumes "save_sub pr ms sub d = (Inr (created, saved), d')" "relay_ok d"
  shows "stored created (es_ID saved) (es_Secret saved) sub d d'"
proof -
  let ?row = "\<lparr>sr_id = pr, sr_owner = es_OwnerTenantID sub, sr_key = es_Key sub, sr_config = sub\<lparr>es_Secret := []\<rparr>,
          sr_secret = es_Secret sub, sr_paused = es_Paused sub, sr_deleted = False, sr_created = ms,
          sr_updated = ms, sr_lease_token = [], sr_lease_until = 0\<rparr>"
  let ?P = "\<lambda>q. sr_owner q = es_OwnerTenantID sub \<and> sr_key q = es_Key sub"
  from assms(1) obtain i secret c where u: "upsert_sub ?row (d\<lparr>tick := Suc (tick d)\<rparr>) = Some (Some (i, secret, c), d')"
    and s: "created = (i = pr)" "es_ID saved = i" "es_Secret saved = secret"
    by (auto simp: save_sub_def returning_Some split: prod.splits option.splits)
  have new: "pr \<notin> sr_id ` set (subs d)"
    using u by (auto simp: upsert_sub_def list_ex_iff split: if_splits)
  show ?thesis
  proof (cases "find ?P (subs d)")
    case None
    with u have "i = pr" "secret = es_Secret sub" "subs d' = subs d @ [?row]" by (auto simp: upsert_sub_def split: if_splits)
    with new s show ?thesis by (simp add: stored_def)
  next
    case (Some q)
    have q: "q \<in> set (subs d)" "?P q" using find_Some_in [OF Some] by auto
    let ?h = "\<lambda>x. if ?P x then x\<lparr>sr_config := sub\<lparr>es_Secret := []\<rparr>, sr_paused := es_Paused sub, sr_updated := ms\<rparr> else x"
    from u Some have r: "\<not> sr_deleted q" "i = sr_id q" "secret = sr_secret q" "subs d' = map ?h (subs d)"
      by (auto simp: upsert_sub_def split: if_splits)
    have "\<not> ?P x" if "x \<in> set (subs d)" "sr_deleted x" for x
      using unique_row [OF relay_ok_keys(3) [OF assms(2)] that(1) q(1)] q(2) r(1) that(2) by metis
    then have fix_h: "?h x = x" if "x \<in> set (subs d)" "sr_deleted x" for x using that by (simp only: if_False)
    have "x \<in> set (subs d')" if "x \<in> set (subs d)" "sr_deleted x" for x
    proof -
      have "?h x \<in> set (subs d')" unfolding r(4) set_map by (rule imageI [OF that(1)])
      then show ?thesis by (simp only: fix_h [OF that])
    qed
    then have "\<forall>x\<in>set (subs d). sr_deleted x \<longrightarrow> x \<in> set (subs d')" by blast
    moreover have "?h q \<in> set (subs d')" using q(1) unfolding r(4) set_map by blast
    then have "\<exists>x\<in>set (subs d'). sr_id x = i \<and> \<not> sr_deleted x \<and> sr_secret x = secret \<and> sr_owner x = es_OwnerTenantID sub \<and>
        sr_key x = es_Key sub \<and> sr_config x = sub\<lparr>es_Secret := []\<rparr>"
      by (rule rev_bexI) (use q r(1-3) in simp)
    moreover have "kept_secret i secret (es_OwnerTenantID sub) (es_Key sub) d"
      using q r(1-3) unfolding kept_secret_def by blast
    moreover have "\<not> created" using new q(1) r(2) s(1) by auto
    ultimately show ?thesis unfolding stored_def s(2,3) by simp
  qed
qed

lemma SaveEventSubscription_Inr:
  assumes "SaveEventSubscription uuid now sub d = (Inr (created, saved), d')" "relay_ok d"
  shows "stored created (es_ID saved) (es_Secret saved) sub d d'"
proof (cases "es_ID sub = []")
  case True
  with assms show ?thesis by (auto simp: SaveEventSubscription_def Let_def intro: save_sub_Inr)
next
  case False
  obtain found d1 where g: "GetEventSubscription (es_ID sub) d = (found, d1)" by fastforce
  then have d1: "d1 = d\<lparr>tick := Suc (tick d)\<rparr>"
    by (auto simp: GetEventSubscription_def sql_query_def Let_def)
  with False assms g have "save_sub (''sub_'' @ uuid) (UnixMilli now) sub d1 = (Inr (created, saved), d')"
    by (auto simp: SaveEventSubscription_def Let_def split: option.splits if_splits)
  moreover have "relay_ok d1" using assms(2) relay_ok_same unfolding d1 by (metis same_tables_tick)
  ultimately have "stored created (es_ID saved) (es_Secret saved) sub d1 d'" by (rule save_sub_Inr)
  then show ?thesis by (simp only: stored_tick d1)
qed

end
