(* ===== verification/Event_Properties.thy ===== *)
theory Event_Properties
  imports Event_Correctness
begin

text \<open>
  The properties of the event relay, each with a run of a small relay as its witness: one subscription of the
  administrator to the errors of the system, one event, and one worker.
\<close>

section \<open>Signatures\<close>

lemma digits_value_snoc: "digits_value (xs @ [c]) = 10 * digits_value xs + (int (byte_of c) - 48)"
  by (simp add: digits_value_def)

lemma byte_of_digit: "n < 10 \<Longrightarrow> byte_of (digit_char n) = 48 + n"
  by (simp add: byte_of_def digit_char_def)

lemma decimal_digits: "digits (decimal n) \<and> digits_value (decimal n) = int n"
proof (induction n rule: decimal.induct)
  case (1 n)
  show ?case
  proof (cases "n < 10")
    case True
    then show ?thesis
      by (simp add: decimal.simps [of n] digits_def in_bytes_def byte_of_digit digits_value_def)
  next
    case False
    with 1 have ih: "digits (decimal (n div 10))" "digits_value (decimal (n div 10)) = int (n div 10)" by blast+
    have "decimal n = decimal (n div 10) @ [digit_char (n mod 10)]" using False by (simp add: decimal.simps [of n])
    with ih show ?thesis by (simp add: digits_def in_bytes_def byte_of_digit digits_value_snoc zdiv_int) presburger
  qed
qed

lemma digits_head: "digits (c # cs) \<Longrightarrow> c \<noteq> CHR ''-'' \<and> c \<noteq> CHR ''+''"
  by (auto simp: digits_def in_bytes_def byte_of_def)

lemma ParseInt_FormatInt:
  assumes "int64 n = Some n"
  shows "ParseInt (FormatInt n) = Some n"
proof (cases "n < 0")
  case True
  then show ?thesis
    using assms decimal_digits [of "nat (- n)"] by (simp add: ParseInt_def FormatInt_def)
next
  case False
  obtain c cs where d: "decimal (nat n) = c # cs"
    using decimal_digits [of "nat n"] by (cases "decimal (nat n)") (auto simp: digits_def)
  with decimal_digits [of "nat n"] digits_head [of c cs] False assms show ?thesis
    by (simp add: ParseInt_def FormatInt_def)
qed

section \<open>Isolation of tenants\<close>

lemma eventSourceAllowed_sound:
  assumes "eventSourceAllowed t ref d = (Inr True, d')"
  shows "may_receive t ref d"
proof -
  have o: "source_owner ref d = Some owner" if "eventSourceOwner ref d = (Inr owner, d1)" for owner d1
    using that
    by (auto simp: eventSourceOwner_def source_owner_def sql_query_def Let_def source_table_tick
        split: if_splits prod.splits option.splits)
  have s: "\<exists>n. d1 = d\<lparr>tick := n\<rparr>" if "eventSourceOwner ref d = (r, d1)" for r d1
    using that by (auto simp: eventSourceOwner_def sql_query_def Let_def intro: exI [of _ "tick d"]
        split: prod.splits option.splits if_splits)
  obtain r d1 where e: "eventSourceOwner ref d = (r, d1)" by fastforce
  show ?thesis
  proof (cases r)
    case (Inl x)
    with e assms show ?thesis by (auto simp: eventSourceAllowed_def split: if_splits)
  next
    case (Inr owner)
    with e assms o s show ?thesis
      by (auto simp: eventSourceAllowed_def may_receive_def sql_query_def Let_def Active_def grant_level_def
          split: if_splits option.splits)
  qed
qed

lemma permitted_iff: "permitted r \<longleftrightarrow> r = Inr True"
  by (auto simp: permitted_def split: sum.splits)

lemma hide_events_sound:
  assumes "hide_events tenant xs d = (ys, d')"
  shows "(\<forall>v\<in>set ys. ed_Event v \<noteq> None \<longrightarrow> may_receive tenant (event_ref v) d) \<and>
    map ed_SubscriptionID ys = map ed_SubscriptionID xs"
  using assms
proof (induction xs arbitrary: d ys d')
  case (Cons v xs)
  obtain ok d1 where a: "EventSourceAllowed tenant (event_ref v) d = (ok, d1)" by fastforce
  obtain zs d2 where z: "hide_events tenant xs d1 = (zs, d2)" by fastforce
  from eventSourceAllowed_state [OF a [unfolded EventSourceAllowed_def]] obtain n where d1: "d1 = d\<lparr>tick := n\<rparr>" by blast
  have ys: "ys = (if permitted ok then v else v\<lparr>ed_Event := None\<rparr>) # zs" using Cons.prems a z by simp
  have "permitted ok \<Longrightarrow> may_receive tenant (event_ref v) d"
    using a eventSourceAllowed_sound by (metis EventSourceAllowed_def permitted_iff)
  with Cons.IH [OF z] d1 show ?case unfolding ys by auto
qed simp

lemma owned_foreign:
  assumes "healthy d" "IsTenant (Some p)" "table_find sr_id i (subs d) = Some r" "sr_owner r \<noteq> p_TenantID p"
  shows "ownedEventSubscription p i d = (sub_missing, d\<lparr>tick := Suc (tick d)\<rparr>)"
  using assms by (simp add: ownedEventSubscription_def GetEventSubscription_def sql_query_healthy)

lemma ListEventDeliveries_owner:
  assumes "ListEventDeliveries (Some t) subID status limit offset d = (Some items, d')" "v \<in> set items"
  shows "\<exists>x\<in>set (subs d). sr_id x = ed_SubscriptionID v \<and> sr_owner x = t"
proof -
  from assms obtain r where r: "r \<in> set (deliveries d)" "joined d r = Some v"
    "case table_find sr_id (dr_sub r) (subs d) of None \<Rightarrow> False
     | Some s \<Rightarrow> (case Some t of None \<Rightarrow> True | Some t \<Rightarrow> sr_owner s = t)"
    by (auto simp: ListEventDeliveries_def query_Some List.map_filter_def order_desc_def dest!: in_set_takeD in_set_dropD)
  then obtain x where "table_find sr_id (dr_sub r) (subs d) = Some x" "sr_owner x = t"
    by (cases "table_find sr_id (dr_sub r) (subs d)") auto
  moreover have "ed_SubscriptionID v = dr_sub r" using r(2) by (auto simp: joined_def scanEventDelivery_def)
  ultimately show ?thesis by (auto simp: table_find_def dest!: find_Some_in)
qed

lemma insert_deliveries_fault: "insert_deliveries e now uuid k xs d = (x, d') \<Longrightarrow> fault d' = fault d"
  by (induction xs arbitrary: k d)
     (auto simp: sql_exec_def Let_def insert_delivery_def split: prod.splits bool.splits if_splits)

lemma ingest_healthy:
  assumes "healthy d" "IngestRelayEvent now uuid e target d = (r, d')"
  shows "healthy d'"
  using assms(2) unfolding IngestRelayEvent_def
proof (cases rule: in_tx_cases)
  case (unchanged n d2)
  with assms(1) show ?thesis by simp
next
  case (committed d2 n)
  have "fault d2 = fault d"
    using committed(1)
    by (auto simp: ingest_body_def tx_simps insert_event_def split: prod.splits sum.splits if_splits
        dest!: allowed_subs_state insert_deliveries_fault)
  with committed(2) assms(1) show ?thesis by (simp add: healthy_def)
qed

section \<open>A small relay\<close>

definition demo_now :: gotime where "demo_now = unix_epoch + 1000000 * second_ns"

definition demo_relay_db :: relay_db where
  "demo_relay_db = \<lparr>fault = (\<lambda>_. False), tick = 0, orchestrations = [], orchestration_tasks = [],
     time_key = (\<lambda>_. 0), text_key = (\<lambda>x. x), agent_instances = [], channels = [], triggers = [], tenants = [],
     tenant_tokens = [], resource_grants = [], subs = [], events = [], deliveries = [], attempts = []\<rparr>"

definition demo_sub :: EventSubscription where
  "demo_sub = \<lparr>es_ID = [], es_OwnerTenantID = [], es_Key = ''ops'', es_Name = ''Operations'', es_Source = ''agentmux'',
     es_SourceRefs = [''system''], es_EventTypes = [''error''], es_Filters = [], es_CallbackURL = ''http://localhost:9/'',
     es_Paused = False, es_CreatedAt = 0, es_UpdatedAt = 0, es_Deleted = False, es_Secret = ''secret'',
     es_Pending = 0, es_Dead = 0, es_LastSuccessAt = None, es_LastError = []\<rparr>"

definition demo_event :: RelayEvent where
  "demo_event = empty_event\<lparr>ev_ID := ''evt_1'', ev_Source := ''agentmux'', ev_Type := ''error'', ev_SourceRef := ''system''\<rparr>"

definition demo_uuid :: "nat \<Rightarrow> string" where "demo_uuid k = replicate k (CHR ''x'')"

definition demo_saved :: relay_db where
  "demo_saved = snd (SaveEventSubscription ''1'' demo_now demo_sub demo_relay_db)"

definition demo_ingested :: relay_db where
  "demo_ingested = snd (IngestRelayEvent demo_now demo_uuid demo_event [] demo_saved)"

definition demo_claim :: "EventDelivery option relay_result \<times> relay_db" where
  "demo_claim = ClaimEventDelivery ''t1'' demo_now demo_ingested"

definition demo_delivery :: EventDelivery where
  "demo_delivery = (case fst demo_claim of Inr (Some v) \<Rightarrow> v | _ \<Rightarrow> undefined)"

definition demo_load :: "EventSubscription option option \<times> relay_db" where
  "demo_load = GetEventSubscription ''sub_1'' (snd demo_claim)"

definition demo_check :: "bool relay_result \<times> relay_db" where
  "demo_check = EventSourceAllowed [] ''system'' (snd demo_load)"

definition demo_begin :: "(string \<times> EventDelivery) relay_result \<times> relay_db" where
  "demo_begin = BeginEventAttempt ''1'' demo_delivery demo_now (snd demo_check)"

lemma demo_claim_code: "case fst demo_claim of Inr (Some v) \<Rightarrow> ed_SubscriptionID v = ''sub_1'' \<and> event_ref v = ''system'' | _ \<Rightarrow> False"
  by code_simp

lemma demo_load_code: "case after_load (fst demo_load) of Ask sub \<Rightarrow> es_OwnerTenantID sub = [] | _ \<Rightarrow> False"
  by code_simp

lemma demo_check_code: "permitted (fst demo_check)"
  by code_simp

lemma demo_begin_code: "case fst demo_begin of Inr (a, v) \<Rightarrow> ed_SubscriptionID v = ''sub_1'' | _ \<Rightarrow> False"
  by code_simp

definition demo_idle :: "relay_db \<Rightarrow> relay_sys" where
  "demo_idle d = \<lparr>clk = demo_now, rdb = d, wk = (\<lambda>_. Idle), leases = []\<rparr>"

definition demo_sending :: relay_sys where
  "demo_sending = \<lparr>clk = demo_now, rdb = snd demo_begin, wk = (\<lambda>_. Idle)(0 := after_begin
     (case after_load (fst demo_load) of Ask sub \<Rightarrow> sub | _ \<Rightarrow> undefined) (demo_now + op_deadline) (fst demo_begin)),
     leases = [(''t1'', UnixMilli demo_now + lease_ms)]\<rparr>"

lemma demo_saved_reach: "relay_reach (demo_idle demo_saved)"
proof -
  have "relay_reach (demo_idle demo_relay_db)"
    by (rule relay_reach.start) (simp add: relay_init_def demo_idle_def demo_relay_db_def)
  moreover have "relay_step (demo_idle demo_relay_db) (demo_idle demo_saved)"
    using relay_step.save [where uuid = "''1''" and now = demo_now and sub = demo_sub and s = "demo_idle demo_relay_db",
      OF surjective_pairing]
    by (simp add: demo_idle_def demo_saved_def)
  ultimately show ?thesis by (blast intro: relay_reach.step)
qed

lemma demo_ingested_reach: "relay_reach (demo_idle demo_ingested)"
proof -
  have "relay_step (demo_idle demo_saved) (demo_idle demo_ingested)"
    using relay_step.ingest [where now = demo_now and uuids = demo_uuid and e = demo_event and target = "[]" and
      s = "demo_idle demo_saved", OF surjective_pairing]
    by (simp add: demo_idle_def demo_ingested_def)
  then show ?thesis by (rule relay_reach.step [OF demo_saved_reach])
qed

lemma demo_sending_reach: "relay_reach demo_sending"
proof -
  let ?dl = "demo_now + op_deadline"
  let ?leases = "[(''t1'', UnixMilli demo_now + lease_ms)]"
  let ?st = "\<lambda>d w. \<lparr>clk = demo_now, rdb = d, wk = (\<lambda>_. Idle)(0 := w), leases = ?leases\<rparr>"
  have c: "fst demo_claim = Inr (Some demo_delivery)" "ed_SubscriptionID demo_delivery = ''sub_1''"
    "event_ref demo_delivery = ''system''"
    using demo_claim_code unfolding demo_delivery_def by (auto split: sum.splits option.splits)
  obtain sub where l: "after_load (fst demo_load) = Ask sub" "es_OwnerTenantID sub = []"
    using demo_load_code by (auto split: decision.splits)
  have "relay_step (demo_idle demo_ingested) (?st (snd demo_claim) (Claimed demo_delivery ?dl))"
    using relay_step.claim [of "demo_idle demo_ingested" 0 demo_now ?dl "''t1''" "fst demo_claim" "snd demo_claim"] c(1)
    by (simp add: demo_idle_def demo_claim_def after_claim_def)
  moreover have "relay_step (?st (snd demo_claim) (Claimed demo_delivery ?dl)) (?st (snd demo_load) (Loaded demo_delivery sub ?dl))"
    using relay_step.load [of "?st (snd demo_claim) (Claimed demo_delivery ?dl)" 0 demo_delivery ?dl "fst demo_load" "snd demo_load"]
      c(2) l(1) by (simp add: demo_load_def after_read_def)
  moreover have "relay_step (?st (snd demo_load) (Loaded demo_delivery sub ?dl)) (?st (snd demo_check) (Approved demo_delivery sub ?dl))"
    using relay_step.check [of "?st (snd demo_load) (Loaded demo_delivery sub ?dl)" 0 demo_delivery sub ?dl "fst demo_check"
        "snd demo_check"] c(3) l(2) demo_check_code by (simp add: demo_check_def after_check_def)
  moreover have "relay_step (?st (snd demo_check) (Approved demo_delivery sub ?dl)) demo_sending"
    using relay_step.begin_attempt [of "?st (snd demo_check) (Approved demo_delivery sub ?dl)" 0 demo_delivery sub ?dl demo_now
        "''1''" "fst demo_begin" "snd demo_begin"] l(1)
    by (simp add: demo_begin_def demo_sending_def op_deadline_def second_ns_def)
  ultimately show ?thesis using demo_ingested_reach by (blast intro: relay_reach.step)
qed

lemma demo_sending_requests: "requesting (wk demo_sending 0) = Some ''sub_1''"
  using demo_begin_code
  by (auto simp: demo_sending_def after_begin_def requesting_def split: sum.splits prod.splits)

definition demo_deleted :: relay_db where
  "demo_deleted = snd (DeleteEventSubscription demo_now ''sub_1'' demo_ingested)"

definition demo_rotated :: relay_db where
  "demo_rotated = snd (RotateEventSecret demo_now ''sub_1'' ''new'' demo_deleted)"

definition demo_responded :: worker where
  "demo_responded = (case fst demo_begin of Inr (a, v) \<Rightarrow> Finishing v a (Response 200) (demo_now + op_deadline) | _ \<Rightarrow> Idle)"

definition demo_finished :: relay_db where
  "demo_finished = (case fst demo_begin of
     Inr (a, v) \<Rightarrow> snd (finish_send demo_now 0 v a (Response 200) (snd demo_begin)) | _ \<Rightarrow> undefined)"

definition demo_done :: relay_sys where
  "demo_done = \<lparr>clk = demo_now, rdb = demo_finished, wk = (\<lambda>_. Idle)(0 := Idle),
     leases = [(''t1'', UnixMilli demo_now + lease_ms)]\<rparr>"

definition demo_resaved :: "(bool \<times> EventSubscription) relay_result \<times> relay_db" where
  "demo_resaved = SaveEventSubscription ''2'' demo_now (demo_sub\<lparr>es_Name := ''Renamed'', es_Secret := ''other''\<rparr>) demo_saved"

lemma demo_deleted_reach: "relay_reach (demo_idle demo_deleted)"
proof -
  have "relay_step (demo_idle demo_ingested) (demo_idle demo_deleted)"
    using relay_step.delete [where now = demo_now and i = "''sub_1''" and s = "demo_idle demo_ingested", OF surjective_pairing]
    by (simp add: demo_idle_def demo_deleted_def)
  then show ?thesis by (rule relay_reach.step [OF demo_ingested_reach])
qed

lemma demo_rotate_step: "relay_step (demo_idle demo_deleted) (demo_idle demo_rotated)"
  using relay_step.rotate [where now = demo_now and i = "''sub_1''" and secret = "''new''" and s = "demo_idle demo_deleted",
      OF surjective_pairing]
  by (simp add: demo_idle_def demo_rotated_def)

lemma demo_saved_ok: "relay_ok demo_saved"
  using relay_reach_inv [OF demo_saved_reach] by (simp add: relay_inv_def demo_idle_def)

lemma demo_relay_healthy: "healthy demo_saved" "healthy demo_ingested"
proof -
  show "healthy demo_saved"
    by (simp add: demo_saved_def demo_relay_db_def demo_sub_def healthy_def SaveEventSubscription_def Let_def save_sub_def
        sql_returning_def upsert_sub_def)
  from ingest_healthy [OF this surjective_pairing] show "healthy demo_ingested" by (simp add: demo_ingested_def)
qed


lemma demo_done_reach: "relay_reach demo_done"
proof -
  obtain a v where b: "fst demo_begin = Inr (a, v)"
    using demo_begin_code by (auto split: sum.splits)
  let ?w = "wk demo_sending 0"
  obtain sub dl where w: "?w = Sending v a sub dl"
    using b by (auto simp: demo_sending_def after_begin_def)
  have r: "relay_step demo_sending (demo_sending\<lparr>wk := (wk demo_sending)(0 := Finishing v a (Response 200) dl)\<rparr>)" (is "relay_step _ ?s")
    by (rule relay_step.respond [OF w])
  have "relay_step ?s (?s\<lparr>rdb := snd (finish_send demo_now 0 v a (Response 200) (rdb ?s)), wk := (wk ?s)(0 := Idle)\<rparr>)"
    by (rule relay_step.finish [of _ 0 v a "Response 200" dl, OF _ surjective_pairing]) simp
  moreover have "?s\<lparr>rdb := snd (finish_send demo_now 0 v a (Response 200) (rdb ?s)), wk := (wk ?s)(0 := Idle)\<rparr> = demo_done"
    by (simp add: demo_done_def demo_sending_def demo_finished_def b fun_eq_iff)
  ultimately show ?thesis using r demo_sending_reach by (metis relay_reach.step)
qed

lemma demo_sent_code: "list_ex (\<lambda>r. dr_id r = ''del_'' \<and> dr_status r = ''sent'') (deliveries demo_finished)"
  by code_simp

lemma demo_deleted_code: "list_ex (\<lambda>x. sr_id x = ''sub_1'' \<and> sr_deleted x) (subs demo_deleted)"
  by code_simp

lemma demo_resaved_code:
  "case fst demo_resaved of Inr (created, saved) \<Rightarrow> \<not> created \<and> es_ID saved = ''sub_1'' | _ \<Rightarrow> False"
  by code_simp

section \<open>Properties\<close>

text \<open>
  C17. In every reachable state, whatever the interleaving of workers, handlers, crashes and failed statements, at most
  one request is in flight to a subscription: the lease of thirty seconds outlives the ten seconds of a request.
\<close>

theorem one_request_per_subscription:
  assumes "relay_reach s" "requesting (wk s i) = Some u" "requesting (wk s j) = Some u"
  shows "i = j"
  using requests_distinct [OF relay_reach_inv [OF assms(1)] assms(2,3)] .

theorem one_request_per_subscription_witness:
  "{j. requesting (wk demo_sending j) = Some ''sub_1''} = {0}"
  using one_request_per_subscription [OF demo_sending_reach demo_sending_requests] demo_sending_requests by blast

text \<open>
  C18. Once a subscription is deleted it stays deleted in every later state, its signing secret is gone, and no attempt to
  deliver to it ever begins again.
\<close>

theorem deleted_subscription_silent:
  assumes "relay_reach s" "relay_step\<^sup>*\<^sup>* s s'" "x \<in> set (subs (rdb s))" "sr_deleted x"
  shows "(\<exists>x'\<in>set (subs (rdb s')). sr_id x' = sr_id x \<and> sr_deleted x' \<and> sr_secret x' = []) \<and>
    attempts_of (sr_id x) (rdb s') \<subseteq> attempts_of (sr_id x) (rdb s)"
proof -
  note q = quiet_steps [OF assms(2) relay_reach_inv [OF assms(1)] assms(3,4)]
  then obtain x' where x': "x' \<in> set (subs (rdb s'))" "sr_id x' = sr_id x" "sr_deleted x'" by blast
  moreover from q x' have "sr_secret x' = []" by (simp add: relay_inv_def relay_ok_def silent_def)
  ultimately show ?thesis using q by blast
qed

theorem deleted_subscription_silent_witness:
  "\<exists>x'\<in>set (subs demo_rotated). sr_id x' = ''sub_1'' \<and> sr_deleted x' \<and> sr_secret x' = []"
proof -
  obtain x where "x \<in> set (subs (rdb (demo_idle demo_deleted)))" "sr_id x = ''sub_1''" "sr_deleted x"
    using demo_deleted_code by (auto simp: list_ex_iff demo_idle_def)
  with deleted_subscription_silent [OF demo_deleted_reach r_into_rtranclp [of relay_step, OF demo_rotate_step]]
  show ?thesis by (fastforce simp: demo_idle_def)
qed

text \<open>
  What was delivered is final: from a reachable state no step changes a sent delivery, retries and claims included;
  it can only be removed by the retention.
\<close>

theorem sent_is_final:
  assumes "relay_reach s" "relay_step s s'" "r \<in> set (deliveries (rdb s))" "dr_status r = ''sent''"
    and "r' \<in> set (deliveries (rdb s'))" "dr_id r' = dr_id r"
  shows "r' = r"
  using quiet_step [OF assms(2) relay_reach_inv [OF assms(1)]] assms(3-6) by (auto simp: quiet_def sent_kept_def)

theorem sent_is_final_witness:
  "{r' \<in> set (deliveries (snd (RetryEventDelivery demo_now ''del_'' demo_finished))). dr_id r' = ''del_''} \<subseteq>
     {r'. dr_status r' = ''sent''}"
proof (intro subsetI CollectI, elim CollectE conjE)
  let ?d = "snd (RetryEventDelivery demo_now ''del_'' demo_finished)"
  fix r' assume r': "r' \<in> set (deliveries ?d)" "dr_id r' = ''del_''"
  obtain r where r: "r \<in> set (deliveries (rdb demo_done))" "dr_id r = ''del_''" "dr_status r = ''sent''"
    using demo_sent_code by (auto simp: list_ex_iff demo_done_def)
  have "relay_step demo_done (demo_done\<lparr>rdb := ?d\<rparr>)"
    using relay_step.retry [where now = demo_now and i = "''del_''" and s = demo_done, OF surjective_pairing]
    by (simp add: demo_done_def)
  from sent_is_final [OF demo_done_reach this r(1,3), of r'] r r' show "dr_status r' = ''sent''" by simp
qed

text \<open>
  C19. A new event on a working database is accepted and gets exactly one pending delivery for every live subscription that
  matches it and whose owner may receive events of its source: the administrator, or an active tenant that owns the
  source or holds a grant to use it.
\<close>

theorem ingest_reaches_receivers:
  assumes "healthy d" "relay_ok d" "valid_ref (ev_SourceRef e)"
    and "ev_ID e \<notin> vr_id ` set (events d)" "dedupe_key e \<notin> vr_dedupe ` set (events d)"
    and "inj uuid" "\<forall>k. ''del_'' @ uuid k \<notin> dr_id ` set (deliveries d)"
    and "IngestRelayEvent now uuid e [] d = (r, d')"
  shows "r = Inr () \<and> (\<exists>added. deliveries d' = deliveries d @ added \<and> map dr_sub added = map sr_id (receivers e d) \<and>
     (\<forall>x\<in>set added. x = new_delivery (dr_id x) (dr_sub x) (ev_ID e) (UnixMilli now))) \<and> subs d' = subs d"
  using ingest_new [OF assms] .

theorem ingest_reaches_receivers_witness:
  "map dr_sub (deliveries demo_ingested) = map sr_id (receivers demo_event demo_saved)"
proof -
  have h: "valid_ref (ev_SourceRef demo_event)" "events demo_saved = []" "deliveries demo_saved = []"
    by (simp_all add: demo_saved_def demo_relay_db_def demo_sub_def demo_event_def valid_ref_def
        SaveEventSubscription_def Let_def save_sub_def sql_returning_def upsert_sub_def)
  have i: "inj demo_uuid"
    by (rule injI) (metis demo_uuid_def length_replicate)
  show ?thesis
    using ingest_reaches_receivers [OF demo_relay_healthy(1) demo_saved_ok h(1) _ _ i _ surjective_pairing, of demo_now] h(2,3)
    by (auto simp: demo_ingested_def)
qed

text \<open>
  An event that is already known, by its identifier or by the key of its source, adds no delivery and no event: a
  duplicate never reaches subscribers that registered later.
\<close>

theorem duplicate_adds_nothing:
  assumes "IngestRelayEvent now uuid e target d = (r, d')"
    and "ev_ID e \<in> vr_id ` set (events d) \<or> dedupe_key e \<in> vr_dedupe ` set (events d)"
  shows "deliveries d' = deliveries d \<and> events d' = events d"
  using IngestRelayEvent_effect [OF assms(1)] assms(2) by (auto simp: same_tables_def)

theorem duplicate_adds_nothing_witness:
  "deliveries (snd (IngestRelayEvent demo_now demo_uuid demo_event [] demo_ingested)) = deliveries demo_ingested"
proof -
  have "list_ex (\<lambda>e. vr_id e = ''evt_1'') (events demo_ingested)" by code_simp
  then have "ev_ID demo_event \<in> vr_id ` set (events demo_ingested)"
    by (force simp: list_ex_iff demo_event_def)
  with duplicate_adds_nothing [OF surjective_pairing, of demo_event demo_ingested demo_now demo_uuid "[]"]
  show ?thesis by blast
qed

text \<open>
  Saving a subscription ends in a live row of its owner and key with the new configuration. A new row takes the
  proposed signing secret; an existing one keeps its identifier and its secret, and the reply tells which. Deleted rows
  are left as they are, so a save never resurrects one.
\<close>

theorem save_keeps_secret:
  assumes "SaveEventSubscription uuid now sub d = (Inr (created, saved), d')" "relay_ok d"
  shows "(\<exists>x\<in>set (subs d'). sr_id x = es_ID saved \<and> \<not> sr_deleted x \<and> sr_secret x = es_Secret saved \<and>
        sr_owner x = es_OwnerTenantID sub \<and> sr_key x = es_Key sub \<and> sr_config x = sub\<lparr>es_Secret := []\<rparr>) \<and>
    (if created then es_ID saved \<notin> sr_id ` set (subs d) \<and> es_Secret saved = es_Secret sub
     else \<exists>q\<in>set (subs d). sr_id q = es_ID saved \<and> \<not> sr_deleted q \<and> sr_secret q = es_Secret saved \<and>
        sr_owner q = es_OwnerTenantID sub \<and> sr_key q = es_Key sub) \<and>
    (\<forall>q\<in>set (subs d). sr_deleted q \<longrightarrow> q \<in> set (subs d'))"
  using SaveEventSubscription_Inr [OF assms] unfolding stored_def kept_secret_def .

theorem save_keeps_secret_witness:
  "\<exists>q\<in>set (subs demo_saved). sr_id q = ''sub_1'' \<and>
     (case fst demo_resaved of Inr (created, saved) \<Rightarrow> \<not> created \<and> es_Secret saved = sr_secret q | _ \<Rightarrow> False)"
proof -
  obtain saved where r: "fst demo_resaved = Inr (False, saved)" "es_ID saved = ''sub_1''"
    using demo_resaved_code by (auto split: sum.splits)
  then have "demo_resaved = (Inr (False, saved), snd demo_resaved)" by (metis prod.collapse)
  from save_keeps_secret [OF this [unfolded demo_resaved_def] demo_saved_ok] r show ?thesis by auto
qed



text \<open>
  A receiver that checks the headers of a callback accepts a signature exactly when it is the one in the headers and
  the clock is within five minutes of the second in which the callback was signed.
\<close>

theorem signature_window:
  assumes "map_of (send_headers hmac now v sub body) ''X-AgentMux-Timestamp'' = Some ts"
    and "es_Secret sub \<noteq> []" "ed_ID v \<noteq> []" "int64 (Unix now) \<noteq> None"
  shows "VerifySignature hmac (es_Secret sub) ts (ed_ID v) sg body later \<longleftrightarrow>
    map_of (send_headers hmac now v sub body) ''X-AgentMux-Signature'' = Some sg \<and>
    \<bar>later - time_Unix (Unix now)\<bar> \<le> 5 * minute_ns"
proof -
  have ts: "ts = FormatInt (Unix now)" using assms(1) by (simp add: send_headers_def Let_def)
  have "int64 (Unix now) = Some (Unix now)" using assms(4) by (auto simp: int64_def split: if_splits)
  from ParseInt_FormatInt [OF this] show ?thesis
    using assms(2,3) by (auto simp: VerifySignature_def send_headers_def Let_def ts)
qed

theorem signature_window_witness:
  "\<forall>sg. VerifySignature (\<lambda>k m. k @ m) ''key'' (FormatInt 1000000) ''del_1'' sg ''{}'' (demo_now + 301 * second_ns) = False"
proof
  fix sg
  let ?v = "demo_delivery\<lparr>ed_ID := ''del_1''\<rparr>" and ?sub = "demo_sub\<lparr>es_Secret := ''key''\<rparr>"
  have u: "Unix demo_now = 1000000" by (simp add: Unix_def demo_now_def second_ns_def)
  have "map_of (send_headers (\<lambda>k m. k @ m) demo_now ?v ?sub ''{}'') ''X-AgentMux-Timestamp'' = Some (FormatInt 1000000)"
    by (simp add: send_headers_def Let_def u)
  moreover have "demo_now = time_Unix 1000000" by (simp add: demo_now_def time_Unix_def)
  ultimately show "VerifySignature (\<lambda>k m. k @ m) ''key'' (FormatInt 1000000) ''del_1'' sg ''{}'' (demo_now + 301 * second_ns) = False"
    using signature_window [of "\<lambda>k m. k @ m" demo_now ?v ?sub "''{}''" "FormatInt 1000000" sg "demo_now + 301 * second_ns"]
    by (simp add: u int64_def second_ns_def minute_ns_def)
qed

text \<open>
  A tenant cannot act on a subscription of another owner: deleting, testing and rotating answer as for a missing
  subscription and leave the tables alone.
\<close>

theorem foreign_subscription_hidden:
  assumes "healthy d" "IsTenant (Some p)" "table_find sr_id (trim_space i) (subs d) = Some row" "sr_owner row \<noteq> p_TenantID p"
    and "trim_space i \<noteq> []"
  shows "fst (handleEventSubscriptionDelete now p i d) = sub_missing \<and> same_tables d (snd (handleEventSubscriptionDelete now p i d)) \<and>
    fst (handleEventSecretRotate now secret p (trim_space i) d) = sub_missing \<and>
    same_tables d (snd (handleEventSecretRotate now secret p (trim_space i) d)) \<and>
    fst (handleEventSubscriptionTest now uuid body p (trim_space i) relay d) = sub_missing \<and>
    same_tables d (snd (snd (handleEventSubscriptionTest now uuid body p (trim_space i) relay d)))"
  using owned_foreign [OF assms(1-4)] assms(5)
  by (simp add: handleEventSubscriptionDelete_def requireQuery_def handleEventSecretRotate_def handleEventSubscriptionTest_def
      eventActionSubscription_def sub_missing_def)

theorem foreign_subscription_hidden_witness:
  "fst (handleEventSubscriptionDelete demo_now \<lparr>p_Admin = False, p_TenantID = ''acme'', p_TenantName = ''Acme''\<rparr> ''sub_1''
     demo_saved) = sub_missing"
proof -
  have "case table_find sr_id (trim_space ''sub_1'') (subs demo_saved) of Some row \<Rightarrow> sr_owner row = [] | None \<Rightarrow> False"
    by code_simp
  then obtain row where row: "table_find sr_id (trim_space ''sub_1'') (subs demo_saved) = Some row" "sr_owner row = []"
    by (auto split: option.splits)
  have "trim_space ''sub_1'' \<noteq> []" by code_simp
  with foreign_subscription_hidden [OF demo_relay_healthy(1) _ row(1), of "\<lparr>p_Admin = False, p_TenantID = ''acme'', p_TenantName = ''Acme''\<rparr>"] row(2)
  show ?thesis by (simp add: IsTenant_def)
qed

text \<open>
  A page of deliveries shows a tenant only deliveries of its own subscriptions, and the payload of an event only to
  callers who may receive events of its source at that moment.
\<close>

theorem event_page_confined:
  assumes "list_deliveries p limit offset status subID d = (Granted page, d')" "v \<in> set (dp_items page)"
  shows "(ed_Event v \<noteq> None \<longrightarrow> may_receive (p_TenantID p) (event_ref v) d) \<and>
    (IsTenant (Some p) \<longrightarrow> (\<exists>x\<in>set (subs d). sr_id x = ed_SubscriptionID v \<and> sr_owner x = p_TenantID p))"
proof -
  from assms(1) obtain l k items d1 shown where l: "ListEventDeliveries (eventOwner p) subID status (Suc (nat l)) k d = (Some items, d1)"
    and h: "hide_events (p_TenantID p) (take (nat l) items) d1 = (shown, d')" and page: "dp_items page = shown"
    by (auto simp: list_deliveries_def split: option.splits prod.splits if_splits)
  have d1: "d1 = d\<lparr>tick := Suc (tick d)\<rparr>" using l by (auto simp: ListEventDeliveries_def query_Some)
  note s = hide_events_sound [OF h, unfolded d1]
  have "ed_Event v \<noteq> None \<longrightarrow> may_receive (p_TenantID p) (event_ref v) d" using s assms(2) page by auto
  moreover have "\<exists>x\<in>set (subs d). sr_id x = ed_SubscriptionID v \<and> sr_owner x = p_TenantID p" if "IsTenant (Some p)"
  proof -
    have "ed_SubscriptionID v \<in> ed_SubscriptionID ` set (take (nat l) items)"
      using s assms(2) page by (metis image_eqI image_set)
    then obtain w where "w \<in> set items" "ed_SubscriptionID w = ed_SubscriptionID v" by (auto dest: in_set_takeD)
    moreover from l that have "ListEventDeliveries (Some (p_TenantID p)) subID status (Suc (nat l)) k d = (Some items, d1)"
      by (simp add: eventOwner_def)
    ultimately show ?thesis using ListEventDeliveries_owner by metis
  qed
  ultimately show ?thesis by blast
qed

theorem event_page_confined_witness:
  "\<exists>page v. fst (list_deliveries AdminPrincipal [] [] [] [] demo_ingested) = Granted page \<and> v \<in> set (dp_items page) \<and>
     may_receive [] ''system'' demo_ingested"
proof -
  let ?l = "list_deliveries AdminPrincipal [] [] [] [] demo_ingested"
  have "case fst ?l of Granted page \<Rightarrow> list_ex (\<lambda>v. event_ref v = ''system'' \<and> (case ed_Event v of None \<Rightarrow> False | Some _ \<Rightarrow> True))
      (dp_items page) | _ \<Rightarrow> False"
    by code_simp
  then obtain page v where v: "fst ?l = Granted page" "v \<in> set (dp_items page)" "event_ref v = ''system''" "ed_Event v \<noteq> None"
    by (auto simp: list_ex_iff split: reply.splits option.splits)
  then have "?l = (Granted page, snd ?l)" by (metis prod.collapse)
  from event_page_confined [OF this v(2)] v show ?thesis by (auto simp: AdminPrincipal_def)
qed

end
