(* ===== verification/Super_Store.thy ===== *)
theory Super_Store
  imports Event_Store
begin

text \<open>
  The data of core/superagent.go and the statements of store/superagents.go: Super Agents, the events they were sent
  (triggers), the tickets their workers carry out, and the read positions of their sources.

  A row keeps the columns its statements name beside the JSON document, which reads back as the same value. Two copies
  of one fact, such as the status of a ticket in its column and in its document, are both kept.
\<close>

section \<open>Data\<close>

record SuperAgentWorker =
  sw_ID :: string
  sw_Label :: string
  sw_HostID :: string
  sw_AgentID :: string
  sw_Capabilities :: string

record SuperAgentSource =
  so_ID :: string
  so_Kind :: string
  so_Name :: string
  so_Enabled :: bool
  so_AllowedActors :: "string list"
  so_Config :: "string \<rightharpoonup> string"

record SuperAgent =
  sa_ID :: string
  sa_Name :: string
  sa_Description :: string
  sa_RouterRuntime :: string
  sa_RouterAgentID :: string
  sa_RouterPrompt :: string
  sa_Mode :: string
  sa_MaxConcurrency :: int
  sa_Workers :: "SuperAgentWorker list"
  sa_AutoWorkers :: bool
  sa_WorkerRuntimes :: "string list"
  sa_AutoWorkerDir :: string
  sa_AutoWorkerApprovalMode :: string
  sa_Sources :: "SuperAgentSource list"
  sa_Enabled :: bool
  sa_CreatedAt :: gotime
  sa_UpdatedAt :: gotime

text \<open>The reply address of a trigger is the JSON its source wrote.\<close>

record SuperAgentTrigger =
  sg_ID :: string
  sg_SuperAgentID :: string
  sg_SourceID :: string
  sg_SourceKind :: string
  sg_DedupeKey :: string
  sg_ThreadKey :: string
  sg_Actor :: string
  sg_ActorName :: string
  sg_Addressed :: bool
  sg_Title :: string
  sg_Text :: string
  sg_Reply :: string
  sg_Disposition :: string
  sg_Reason :: string
  sg_TicketID :: string
  sg_ReceivedAt :: gotime
  sg_UpdatedAt :: gotime

record SuperAgentTicket =
  ti_ID :: string
  ti_SuperAgentID :: string
  ti_SourceID :: string
  ti_SourceKind :: string
  ti_ThreadKey :: string
  ti_TriggerID :: string
  ti_Title :: string
  ti_Actor :: string
  ti_Worker :: SuperAgentWorker
  ti_ConversationID :: string
  ti_Status :: string
  ti_Inputs :: "string list"
  ti_Output :: string
  ti_Error :: string
  ti_ReplyError :: string
  ti_Reply :: string
  ti_Attempts :: int
  ti_CreatedAt :: gotime
  ti_StartedAt :: gotime
  ti_FinishedAt :: gotime
  ti_UpdatedAt :: gotime

record SuperAgentWorkerStatus =
  ws_WorkerID :: string
  ws_Available :: bool
  ws_Detail :: string

text \<open>The zero values of the struct types.\<close>

definition zero_worker :: SuperAgentWorker where
  "zero_worker = \<lparr>sw_ID = [], sw_Label = [], sw_HostID = [], sw_AgentID = [], sw_Capabilities = []\<rparr>"

definition zero_trigger :: SuperAgentTrigger where
  "zero_trigger = \<lparr>sg_ID = [], sg_SuperAgentID = [], sg_SourceID = [], sg_SourceKind = [], sg_DedupeKey = [],
     sg_ThreadKey = [], sg_Actor = [], sg_ActorName = [], sg_Addressed = False, sg_Title = [], sg_Text = [], sg_Reply = [],
     sg_Disposition = [], sg_Reason = [], sg_TicketID = [], sg_ReceivedAt = 0, sg_UpdatedAt = 0\<rparr>"

section \<open>Tables\<close>

record super_row =
  gr_id :: string
  gr_data :: SuperAgent
  gr_created :: "gotime option"
  gr_updated :: "gotime option"

record trigger_row =
  yr_id :: string
  yr_agent :: string
  yr_source :: string
  yr_dedupe :: string
  yr_thread :: string
  yr_disposition :: string
  yr_data :: SuperAgentTrigger
  yr_received :: "gotime option"
  yr_updated :: "gotime option"

record ticket_row =
  kr_id :: string
  kr_agent :: string
  kr_thread :: string
  kr_status :: string
  kr_data :: SuperAgentTicket
  kr_created :: "gotime option"
  kr_updated :: "gotime option"

record state_row =
  pr_source :: string
  pr_agent :: string
  pr_state :: string

record super_db = relay_db +
  super_agents :: "super_row list"
  agent_triggers :: "trigger_row list"
  agent_tickets :: "ticket_row list"
  source_states :: "state_row list"

section \<open>Super Agents\<close>

definition ListSuperAgents :: "'a super_db_scheme \<Rightarrow> SuperAgent list option \<times> 'a super_db_scheme" where
  "ListSuperAgents = sql_query (\<lambda>d. map gr_data
     (sort_key (\<lambda>r. - time_key d (gr_created r)) (sort_key (\<lambda>r. text_key d (gr_id r)) (super_agents d))))"

definition GetSuperAgent :: "string \<Rightarrow> 'a super_db_scheme \<Rightarrow> SuperAgent option option \<times> 'a super_db_scheme" where
  "GetSuperAgent i = sql_query (\<lambda>d. map_option gr_data (table_find gr_id i (super_agents d)))"

definition super_row_of :: "SuperAgent \<Rightarrow> super_row" where
  "super_row_of a = \<lparr>gr_id = sa_ID a, gr_data = a, gr_created = formatControlTime (sa_CreatedAt a),
     gr_updated = formatControlTime (sa_UpdatedAt a)\<rparr>"

definition merge_super_row :: "super_row \<Rightarrow> super_row \<Rightarrow> super_row" where
  "merge_super_row r q = q\<lparr>gr_data := gr_data r, gr_updated := gr_updated r\<rparr>"

definition UpsertSuperAgent :: "SuperAgent \<Rightarrow> 'a super_db_scheme \<Rightarrow> bool \<times> 'a super_db_scheme" where
  "UpsertSuperAgent a = sql_exec (\<lambda>d. Some (d\<lparr>super_agents :=
     table_upsert gr_id merge_super_row (super_row_of a) (super_agents d)\<rparr>))"

definition DeleteSuperAgent :: "string \<Rightarrow> 'a super_db_scheme \<Rightarrow> bool \<times> 'a super_db_scheme" where
  "DeleteSuperAgent i = sql_tx
     [\<lambda>d. Some (d\<lparr>agent_tickets := filter (\<lambda>r. kr_agent r \<noteq> i) (agent_tickets d)\<rparr>),
      \<lambda>d. Some (d\<lparr>agent_triggers := filter (\<lambda>r. yr_agent r \<noteq> i) (agent_triggers d)\<rparr>),
      \<lambda>d. Some (d\<lparr>source_states := filter (\<lambda>r. pr_agent r \<noteq> i) (source_states d)\<rparr>),
      \<lambda>d. Some (d\<lparr>super_agents := filter (\<lambda>r. gr_id r \<noteq> i) (super_agents d)\<rparr>)]"

section \<open>Triggers\<close>

definition trigger_row_of :: "SuperAgentTrigger \<Rightarrow> trigger_row" where
  "trigger_row_of t = \<lparr>yr_id = sg_ID t, yr_agent = sg_SuperAgentID t, yr_source = sg_SourceID t,
     yr_dedupe = sg_DedupeKey t, yr_thread = sg_ThreadKey t, yr_disposition = sg_Disposition t, yr_data = t,
     yr_received = formatControlTime (sg_ReceivedAt t), yr_updated = formatControlTime (sg_UpdatedAt t)\<rparr>"

text \<open>
  The insert reports the number of inserted rows: none when the source already sent an event with this key. A second
  row with the same id violates the primary key.
\<close>

definition same_event :: "trigger_row \<Rightarrow> trigger_row \<Rightarrow> bool" where
  "same_event r q \<longleftrightarrow> yr_agent q = yr_agent r \<and> yr_source q = yr_source r \<and> yr_dedupe q = yr_dedupe r"

definition insert_trigger :: "trigger_row \<Rightarrow> 'a super_db_scheme \<Rightarrow> (nat \<times> 'a super_db_scheme) option" where
  "insert_trigger r d =
     (if list_ex (same_event r) (agent_triggers d) then Some (0, d)
      else if list_ex (\<lambda>q. yr_id q = yr_id r) (agent_triggers d) then None
      else Some (1, d\<lparr>agent_triggers := agent_triggers d @ [r]\<rparr>))"

definition InsertSuperAgentTrigger :: "SuperAgentTrigger \<Rightarrow> 'a super_db_scheme \<Rightarrow> bool option \<times> 'a super_db_scheme" where
  "InsertSuperAgentTrigger t d =
     (case sql_returning (insert_trigger (trigger_row_of t)) d of
        (None, d') \<Rightarrow> (None, d') | (Some inserted, d') \<Rightarrow> (Some (0 < inserted), d'))"

definition UpdateSuperAgentTrigger :: "SuperAgentTrigger \<Rightarrow> 'a super_db_scheme \<Rightarrow> bool \<times> 'a super_db_scheme" where
  "UpdateSuperAgentTrigger t = sql_exec (\<lambda>d. Some (d\<lparr>agent_triggers := map (\<lambda>r. if yr_id r = sg_ID t
     then r\<lparr>yr_disposition := sg_Disposition t, yr_data := t, yr_updated := formatControlTime (sg_UpdatedAt t)\<rparr>
     else r) (agent_triggers d)\<rparr>))"

text \<open>A negative limit is no limit; the callers pass constants.\<close>

definition ListPendingSuperAgentTriggers ::
  "nat \<Rightarrow> 'a super_db_scheme \<Rightarrow> SuperAgentTrigger list option \<times> 'a super_db_scheme" where
  "ListPendingSuperAgentTriggers limit = sql_query (\<lambda>d. map yr_data (take limit
     (sort_key (\<lambda>r. time_key d (yr_received r)) (sort_key (\<lambda>r. text_key d (yr_id r))
       (filter (\<lambda>r. yr_disposition r = ''pending'') (agent_triggers d))))))"

definition ListSuperAgentTriggers ::
  "string \<Rightarrow> nat \<Rightarrow> 'a super_db_scheme \<Rightarrow> SuperAgentTrigger list option \<times> 'a super_db_scheme" where
  "ListSuperAgentTriggers i limit = sql_query (\<lambda>d. map yr_data (take limit
     (sort_key (\<lambda>r. - time_key d (yr_received r)) (sort_key (\<lambda>r. text_key d (yr_id r))
       (filter (\<lambda>r. yr_agent r = i) (agent_triggers d))))))"

section \<open>Tickets\<close>

definition ticket_row_of :: "SuperAgentTicket \<Rightarrow> ticket_row" where
  "ticket_row_of t = \<lparr>kr_id = ti_ID t, kr_agent = ti_SuperAgentID t, kr_thread = ti_ThreadKey t,
     kr_status = ti_Status t, kr_data = t, kr_created = formatControlTime (ti_CreatedAt t),
     kr_updated = formatControlTime (ti_UpdatedAt t)\<rparr>"

definition merge_ticket_row :: "ticket_row \<Rightarrow> ticket_row \<Rightarrow> ticket_row" where
  "merge_ticket_row r q = q\<lparr>kr_status := kr_status r, kr_data := kr_data r, kr_updated := kr_updated r\<rparr>"

definition UpsertSuperAgentTicket :: "SuperAgentTicket \<Rightarrow> 'a super_db_scheme \<Rightarrow> bool \<times> 'a super_db_scheme" where
  "UpsertSuperAgentTicket t = sql_exec (\<lambda>d. Some (d\<lparr>agent_tickets :=
     table_upsert kr_id merge_ticket_row (ticket_row_of t) (agent_tickets d)\<rparr>))"

definition GetSuperAgentTicket ::
  "string \<Rightarrow> 'a super_db_scheme \<Rightarrow> SuperAgentTicket option option \<times> 'a super_db_scheme" where
  "GetSuperAgentTicket i = sql_query (\<lambda>d. map_option kr_data (table_find kr_id i (agent_tickets d)))"

definition ListSuperAgentTickets ::
  "string \<Rightarrow> nat \<Rightarrow> 'a super_db_scheme \<Rightarrow> SuperAgentTicket list option \<times> 'a super_db_scheme" where
  "ListSuperAgentTickets i limit = sql_query (\<lambda>d. map kr_data (take limit
     (sort_key (\<lambda>r. - time_key d (kr_created r)) (sort_key (\<lambda>r. text_key d (kr_id r))
       (filter (\<lambda>r. kr_agent r = i) (agent_tickets d))))))"

definition ticket_order :: "'a super_db_scheme \<Rightarrow> ticket_row list \<Rightarrow> ticket_row list" where
  "ticket_order d rows = sort_key (\<lambda>r. time_key d (kr_created r)) (sort_key (\<lambda>r. text_key d (kr_id r)) rows)"

definition ListSuperAgentThreadTickets ::
  "string \<Rightarrow> string \<Rightarrow> 'a super_db_scheme \<Rightarrow> SuperAgentTicket list option \<times> 'a super_db_scheme" where
  "ListSuperAgentThreadTickets i thread = sql_query (\<lambda>d. map kr_data (ticket_order d
     (filter (\<lambda>r. kr_agent r = i \<and> kr_thread r = thread) (agent_tickets d))))"

fun ListSuperAgentTicketsByStatus ::
  "string list \<Rightarrow> 'a super_db_scheme \<Rightarrow> SuperAgentTicket list option \<times> 'a super_db_scheme" where
  "ListSuperAgentTicketsByStatus [] d = (Some [], d)"
| "ListSuperAgentTicketsByStatus (status # statuses) d =
     (case sql_query (\<lambda>d. map kr_data (ticket_order d (filter (\<lambda>r. kr_status r = status) (agent_tickets d)))) d of
        (None, d') \<Rightarrow> (None, d')
      | (Some items, d') \<Rightarrow>
          (case ListSuperAgentTicketsByStatus statuses d' of
             (None, d'') \<Rightarrow> (None, d'') | (Some rest, d'') \<Rightarrow> (Some (items @ rest), d'')))"

section \<open>Read positions\<close>

definition GetSuperAgentSourceState :: "string \<Rightarrow> 'a super_db_scheme \<Rightarrow> string option \<times> 'a super_db_scheme" where
  "GetSuperAgentSourceState i = sql_query (\<lambda>d.
     case table_find pr_source i (source_states d) of None \<Rightarrow> [] | Some r \<Rightarrow> pr_state r)"

definition merge_state_row :: "state_row \<Rightarrow> state_row \<Rightarrow> state_row" where
  "merge_state_row r q = q\<lparr>pr_state := pr_state r\<rparr>"

definition SetSuperAgentSourceState ::
  "string \<Rightarrow> string \<Rightarrow> string \<Rightarrow> 'a super_db_scheme \<Rightarrow> bool \<times> 'a super_db_scheme" where
  "SetSuperAgentSourceState agent source state = sql_exec (\<lambda>d. Some (d\<lparr>source_states :=
     table_upsert pr_source merge_state_row \<lparr>pr_source = source, pr_agent = agent, pr_state = state\<rparr>
       (source_states d)\<rparr>))"

interpretation ticket_tab: keyed_table kr_id merge_ticket_row
  by unfold_locales (simp add: merge_ticket_row_def)

interpretation super_tab: keyed_table gr_id merge_super_row
  by unfold_locales (simp add: merge_super_row_def)

interpretation state_tab: keyed_table pr_source merge_state_row
  by unfold_locales (simp add: merge_state_row_def)

end
