(* ===== verification/Super_Intake.thy ===== *)
theory Super_Intake
  imports Super_Store Channel_Queue
begin

text \<open>
  How events reach a Super Agent: the state a service keeps in memory, the index of enabled sources
  (superagent/claims.go), the gate (\<open>actorAllowed\<close>, \<open>Ingest\<close>, \<open>TriggerManually\<close> in superagent/service.go), the hook on
  inbound chat messages (superagent/feishu.go) and GitHub webhooks (superagent/github.go).

  Case folding of Unicode text, hashes and JSON decoding are arguments of the definitions that use them.
\<close>

section \<open>The service in memory\<close>

record sourceClaim =
  sc_agent :: SuperAgent
  sc_source :: SuperAgentSource

text \<open>The map by source is kept in the order of one iteration over it, each key once.\<close>

record claimIndex =
  ci_bySource :: "(string \<times> sourceClaim) list"
  ci_byChannel :: "string \<rightharpoonup> sourceClaim list"

record SourceHealth =
  sh_LastEventAt :: gotime
  sh_LastError :: string
  sh_LastErrorAt :: gotime

text \<open>
  The maps whose values are only ever true or a cancel function are lists of their keys. The counter of finished
  evaluations is a 64-bit word in the code; it does not wrap within the life of a process.
\<close>

record service_state =
  sv_running :: "string list"
  sv_stopping :: "string list"
  sv_evaluating :: "string list"
  sv_evaluations :: nat
  sv_routerAttempts :: "string \<rightharpoonup> nat"
  sv_notBefore :: "string \<rightharpoonup> gotime"
  sv_health :: "string \<rightharpoonup> SourceHealth"
  sv_claims :: claimIndex
  sv_wake :: bool

definition no_claims :: claimIndex where
  "no_claims = \<lparr>ci_bySource = [], ci_byChannel = Map.empty\<rparr>"

definition fresh_service :: service_state where
  "fresh_service = \<lparr>sv_running = [], sv_stopping = [], sv_evaluating = [], sv_evaluations = 0,
     sv_routerAttempts = Map.empty, sv_notBefore = Map.empty, sv_health = Map.empty, sv_claims = no_claims,
     sv_wake = False\<rparr>"

definition notify :: "service_state \<Rightarrow> service_state" where
  "notify sv = sv\<lparr>sv_wake := True\<rparr>"

definition health_of :: "service_state \<Rightarrow> string \<Rightarrow> SourceHealth" where
  "health_of sv i = (case sv_health sv i of None \<Rightarrow> \<lparr>sh_LastEventAt = 0, sh_LastError = [], sh_LastErrorAt = 0\<rparr>
     | Some h \<Rightarrow> h)"

definition recordEvent :: "string \<Rightarrow> gotime \<Rightarrow> service_state \<Rightarrow> service_state" where
  "recordEvent i at sv = sv\<lparr>sv_health := (sv_health sv)(i \<mapsto> (health_of sv i)\<lparr>sh_LastEventAt := at\<rparr>)\<rparr>"

definition recordSourceError :: "gotime \<Rightarrow> string \<Rightarrow> string option \<Rightarrow> service_state \<Rightarrow> service_state" where
  "recordSourceError now i err sv = sv\<lparr>sv_health := (sv_health sv)(i \<mapsto>
     (case err of None \<Rightarrow> (health_of sv i)\<lparr>sh_LastError := [], sh_LastErrorAt := 0\<rparr>
      | Some e \<Rightarrow> (health_of sv i)\<lparr>sh_LastError := e, sh_LastErrorAt := now\<rparr>))\<rparr>"

section \<open>Which sources listen where\<close>

definition map_set :: "string \<Rightarrow> 'v \<Rightarrow> (string \<times> 'v) list \<Rightarrow> (string \<times> 'v) list" where
  "map_set k v m = (if k \<in> fst ` set m then map (\<lambda>(j, w). if j = k then (j, v) else (j, w)) m else m @ [(k, v)])"

definition claim_source :: "claimIndex \<Rightarrow> string \<Rightarrow> sourceClaim option" where
  "claim_source c i = map_of (ci_bySource c) i"

definition channelSources :: "claimIndex \<Rightarrow> string \<Rightarrow> string \<Rightarrow> sourceClaim list" where
  "channelSources c channelID kind =
     filter (\<lambda>claim. so_Kind (sc_source claim) = kind)
       (case ci_byChannel c channelID of None \<Rightarrow> [] | Some claims \<Rightarrow> claims)"

definition ofKind :: "claimIndex \<Rightarrow> string \<Rightarrow> sourceClaim list" where
  "ofKind c kind = filter (\<lambda>claim. so_Kind (sc_source claim) = kind) (map snd (ci_bySource c))"

definition config :: "SuperAgentSource \<Rightarrow> string \<Rightarrow> string" where
  "config source key = (case so_Config source key of None \<Rightarrow> [] | Some v \<Rightarrow> v)"

definition add_claim :: "SuperAgent \<Rightarrow> SuperAgentSource \<Rightarrow> claimIndex \<Rightarrow> claimIndex" where
  "add_claim agent source c =
     (if \<not> so_Enabled source then c
      else let claim = \<lparr>sc_agent = agent, sc_source = source\<rparr>; channelID = trim_space (config source ''channel_id'')
           in \<lparr>ci_bySource = map_set (so_ID source) claim (ci_bySource c),
               ci_byChannel = (if channelID = [] then ci_byChannel c
                 else (ci_byChannel c)(channelID \<mapsto>
                   (case ci_byChannel c channelID of None \<Rightarrow> [] | Some claims \<Rightarrow> claims) @ [claim]))\<rparr>)"

definition add_agent_claims :: "SuperAgent \<Rightarrow> claimIndex \<Rightarrow> claimIndex" where
  "add_agent_claims agent c = (if \<not> sa_Enabled agent then c else fold (add_claim agent) (sa_Sources agent) c)"

definition build_claims :: "SuperAgent list \<Rightarrow> claimIndex" where
  "build_claims agents = fold add_agent_claims agents no_claims"

text \<open>The subscriptions of document sources, which \<open>refreshClaims\<close> renews in the background, are left out.\<close>

definition refreshClaims ::
  "service_state \<Rightarrow> 'a super_db_scheme \<Rightarrow> unit relay_result \<times> service_state \<times> 'a super_db_scheme" where
  "refreshClaims sv d =
     (case ListSuperAgents d of
        (None, d') \<Rightarrow> (Inl DbError, sv, d')
      | (Some agents, d') \<Rightarrow> (Inr (), sv\<lparr>sv_claims := build_claims agents\<rparr>, d'))"

section \<open>The gate\<close>

definition maxTriggerRunes :: nat where "maxTriggerRunes = 60000"

definition cut_mark :: string where
  "cut_mark = char_of (10::nat) # ''[truncated]''"

definition truncate_text :: "string \<Rightarrow> nat \<Rightarrow> string" where
  "truncate_text text limit =
     (if length (runes text) \<le> limit then text else concat (take limit (runes text)) @ cut_mark)"

fun firstNonEmpty :: "string list \<Rightarrow> string" where
  "firstNonEmpty [] = []"
| "firstNonEmpty (v # vs) = (if trim_space v \<noteq> [] then trim_space v else firstNonEmpty vs)"

text \<open>\<open>eqf\<close> is \<^verbatim>\<open>strings.EqualFold\<close>.\<close>

fun actor_listed :: "(string \<Rightarrow> string \<Rightarrow> bool) \<Rightarrow> string list \<Rightarrow> string \<Rightarrow> bool" where
  "actor_listed eqf [] actor = False"
| "actor_listed eqf (c # cs) actor =
     (let candidate = trim_space c
      in if candidate = ''*'' then actor \<noteq> []
         else if actor \<noteq> [] \<and> eqf candidate actor then True else actor_listed eqf cs actor)"

definition actorAllowed :: "(string \<Rightarrow> string \<Rightarrow> bool) \<Rightarrow> SuperAgentSource \<Rightarrow> string \<Rightarrow> bool" where
  "actorAllowed eqf source actor = actor_listed eqf (so_AllowedActors source) (trim_space actor)"

definition sender_unlisted :: string where
  "sender_unlisted = ''sender is not on this source's allowed list''"

text \<open>The trigger as it is stored. \<open>uuid\<close> is the drawn identifier.\<close>

definition stored_trigger ::
  "string \<Rightarrow> gotime \<Rightarrow> SuperAgent \<Rightarrow> SuperAgentSource \<Rightarrow> bool \<Rightarrow> SuperAgentTrigger \<Rightarrow> SuperAgentTrigger" where
  "stored_trigger uuid now agent source allowed trigger =
     (let t = trigger\<lparr>sg_ID := ''sat_'' @ uuid, sg_SuperAgentID := sa_ID agent, sg_SourceID := so_ID source,
                sg_SourceKind := so_Kind source, sg_Text := truncate_text (sg_Text trigger) maxTriggerRunes,
                sg_ReceivedAt := now, sg_UpdatedAt := now, sg_Disposition := ''pending''\<rparr>
      in if allowed then t else t\<lparr>sg_Disposition := ''filtered'', sg_Reason := sender_unlisted\<rparr>)"

definition store_trigger ::
  "SuperAgentTrigger \<Rightarrow> bool \<Rightarrow> service_state \<Rightarrow> 'a super_db_scheme \<Rightarrow>
   bool relay_result \<times> service_state \<times> 'a super_db_scheme" where
  "store_trigger t allowed sv d =
     (case InsertSuperAgentTrigger t d of
        (None, d') \<Rightarrow> (Inl DbError, sv, d')
      | (Some inserted, d') \<Rightarrow> (Inr inserted, if inserted \<and> allowed then notify sv else sv, d'))"

definition Ingest ::
  "(string \<Rightarrow> string \<Rightarrow> bool) \<Rightarrow> string \<Rightarrow> gotime \<Rightarrow> SuperAgent \<Rightarrow> SuperAgentSource \<Rightarrow> SuperAgentTrigger \<Rightarrow>
   service_state \<Rightarrow> 'a super_db_scheme \<Rightarrow> bool relay_result \<times> service_state \<times> 'a super_db_scheme" where
  "Ingest eqf uuid now agent source trigger sv d =
     (if \<not> sa_Enabled agent \<or> \<not> so_Enabled source then (Inr False, sv, d)
      else
        let sv1 = recordEvent (so_ID source) now sv;
            allowed = actorAllowed eqf source (sg_Actor trigger);
            t = stored_trigger uuid now agent source allowed trigger
        in if \<not> sg_Addressed trigger then
             if \<not> allowed then (Inr False, sv1, d)
             else (case ListSuperAgentThreadTickets (sa_ID agent) (sg_ThreadKey trigger) d of
                 (None, d') \<Rightarrow> (Inl DbError, sv1, d')
               | (Some tickets, d') \<Rightarrow>
                   if tickets = [] then (Inr False, sv1, d') else store_trigger t allowed sv1 d')
           else store_trigger t allowed sv1 d)"

datatype super_error = Failed relay_error | ErrNotFound | ErrConflict | Unauthorized | Because string

definition console_trigger :: "string \<Rightarrow> gotime \<Rightarrow> SuperAgent \<Rightarrow> string \<Rightarrow> SuperAgentTrigger" where
  "console_trigger uuid now agent text =
     (let i = ''sat_'' @ uuid
      in zero_trigger\<lparr>sg_ID := i, sg_SuperAgentID := sa_ID agent, sg_SourceID := ''console'',
           sg_SourceKind := ''console'', sg_DedupeKey := i, sg_ThreadKey := ''console:'' @ i, sg_Actor := ''console'',
           sg_Addressed := True, sg_Text := truncate_text text maxTriggerRunes, sg_Disposition := ''pending'',
           sg_ReceivedAt := now, sg_UpdatedAt := now\<rparr>)"

definition TriggerManually ::
  "string \<Rightarrow> gotime \<Rightarrow> string \<Rightarrow> string \<Rightarrow> service_state \<Rightarrow> 'a super_db_scheme \<Rightarrow>
   (super_error + SuperAgentTrigger) \<times> service_state \<times> 'a super_db_scheme" where
  "TriggerManually uuid now i text sv d =
     (if trim_space text = [] then (Inl (Because ''text is required''), sv, d)
      else case GetSuperAgent i d of
        (None, d') \<Rightarrow> (Inl (Failed DbError), sv, d')
      | (Some None, d') \<Rightarrow> (Inl ErrNotFound, sv, d')
      | (Some (Some agent), d') \<Rightarrow>
          if \<not> sa_Enabled agent then (Inl (Because ''super agent is disabled''), sv, d')
          else let t = console_trigger uuid now agent (trim_space text)
               in case InsertSuperAgentTrigger t d' of
                    (None, d'') \<Rightarrow> (Inl (Failed DbError), sv, d'')
                  | (Some _, d'') \<Rightarrow> (Inr t, notify sv, d''))"

end
