(* ===== verification/Super_Sources.thy ===== *)
theory Super_Sources
  imports Super_Intake
begin

text \<open>
  What turns an outside event into a trigger: the hook on inbound chat messages (superagent/feishu.go), GitHub webhooks
  and polled GitHub messages (superagent/github.go, the polling loop of superagent/github_poll.go) and mailboxes (the
  polling loop of superagent/email.go). The network clients and the decoding of JSON and of mail are arguments.
\<close>

section \<open>Chat messages\<close>

text \<open>\<open>json_object\<close> is \<^verbatim>\<open>json.Marshal\<close> of a struct of strings whose members are given in their order.\<close>

fun json_members :: "(string \<times> string) list \<Rightarrow> string" where
  "json_members [] = []"
| "json_members [(k, v)] = json_string k @ '':'' @ v"
| "json_members ((k, v) # m # ms) = json_string k @ '':'' @ v @ '','' @ json_members (m # ms)"

definition json_object :: "(string \<times> string) list \<Rightarrow> string" where
  "json_object ms = ''{'' @ json_members ms @ ''}''"

definition feishuReply :: "string \<Rightarrow> string \<Rightarrow> string \<Rightarrow> string" where
  "feishuReply channelID chatID messageID =
     json_object ([(''channel_id'', json_string channelID), (''chat_id'', json_string chatID)] @
       (if messageID = [] then [] else [(''message_id'', json_string messageID)]))"

text \<open>The fields of \<^verbatim>\<open>core.Message\<close> the hook reads besides those of the channel queue.\<close>

record InboundMessage = Message +
  im_ChannelID :: string
  im_UserName :: string
  im_MentionedBot :: bool
  im_Callback :: bool

definition feishuMessageTrigger :: "SuperAgentSource \<Rightarrow> InboundMessage \<Rightarrow> SuperAgentTrigger" where
  "feishuMessageTrigger source msg =
     (let addressed = im_MentionedBot msg \<or> ms_ChatType msg = ''p2p'' \<or> config source ''require_mention'' = ''false'';
          root = firstNonEmpty [ms_RootID msg, ms_ThreadID msg, ms_SourceMessageID msg, ms_ID msg];
          own = firstNonEmpty [ms_SourceMessageID msg, ms_ID msg]
      in zero_trigger\<lparr>sg_DedupeKey := own,
           sg_ThreadKey := ''feishu:'' @ im_ChannelID msg @ '':'' @ ms_ChatID msg @ '':'' @ root,
           sg_Actor := ms_UserID msg, sg_ActorName := im_UserName msg, sg_Addressed := addressed,
           sg_Text := ms_Text msg, sg_Reply := feishuReply (im_ChannelID msg) (ms_ChatID msg) own\<rparr>)"

text \<open>\<open>splitList\<close> cuts at commas and white space; \<open>normalizeActors\<close> drops blank and repeated entries.\<close>

fun normalizeActors :: "string list \<Rightarrow> string list \<Rightarrow> string list" where
  "normalizeActors out [] = out"
| "normalizeActors out (a # as) =
     (let actor = trim_space a
      in normalizeActors (if actor \<noteq> [] \<and> actor \<notin> set out then out @ [actor] else out) as)"

definition is_separator :: "char \<Rightarrow> bool" where
  "is_separator c \<longleftrightarrow> c = CHR '','' \<or> byte_of c \<in> set [10, 32, 9, 13]"

fun fields :: "string \<Rightarrow> string \<Rightarrow> string list" where
  "fields word [] = (if word = [] then [] else [word])"
| "fields word (c # cs) =
     (if is_separator c then (if word = [] then fields [] cs else word # fields [] cs) else fields (word @ [c]) cs)"

definition splitList :: "string \<Rightarrow> string list" where
  "splitList value = normalizeActors [] (fields [] value)"

text \<open>
  The loop over the claims of the channel. \<open>uuids\<close> are the identifiers drawn in turn; \<open>hasAgent\<close> is the optional
  callback that tells whether the channel has an Agent of its own.
\<close>

fun intercept_claims ::
  "(string \<Rightarrow> string \<Rightarrow> bool) \<Rightarrow> (nat \<Rightarrow> string) \<Rightarrow> gotime \<Rightarrow> (string \<Rightarrow> bool) option \<Rightarrow> InboundMessage \<Rightarrow>
   sourceClaim list \<Rightarrow> bool \<Rightarrow> nat \<Rightarrow> service_state \<Rightarrow> 'a super_db_scheme \<Rightarrow>
   (bool \<times> relay_error option) \<times> service_state \<times> 'a super_db_scheme" where
  "intercept_claims eqf uuids now hasAgent msg [] claimed k sv d = ((claimed, None), sv, d)"
| "intercept_claims eqf uuids now hasAgent msg (claim # rest) claimed k sv d =
     (let chats = splitList (config (sc_source claim) ''chat_ids'')
      in if chats \<noteq> [] \<and> ms_ChatID msg \<notin> set chats
         then intercept_claims eqf uuids now hasAgent msg rest claimed k sv d
         else let trigger = feishuMessageTrigger (sc_source claim) msg
              in case Ingest eqf (uuids k) now (sc_agent claim) (sc_source claim) trigger sv d of
                   (Inl e, sv', d') \<Rightarrow> ((True, Some e), sv', d')
                 | (Inr inserted, sv', d') \<Rightarrow>
                     intercept_claims eqf uuids now hasAgent msg rest
                       (claimed \<or> inserted \<or> sg_Addressed trigger \<or>
                        (case hasAgent of None \<Rightarrow> False | Some has \<Rightarrow> \<not> has (im_ChannelID msg))) (Suc k) sv' d')"

definition InterceptMessage ::
  "(string \<Rightarrow> string \<Rightarrow> bool) \<Rightarrow> (nat \<Rightarrow> string) \<Rightarrow> gotime \<Rightarrow> (string \<Rightarrow> bool) option \<Rightarrow> InboundMessage option \<Rightarrow>
   service_state \<Rightarrow> 'a super_db_scheme \<Rightarrow> (bool \<times> relay_error option) \<times> service_state \<times> 'a super_db_scheme" where
  "InterceptMessage eqf uuids now hasAgent m sv d =
     (case m of None \<Rightarrow> ((False, None), sv, d)
      | Some msg \<Rightarrow>
          if im_Callback msg \<or> has_prefix (trim_space (ms_Text msg)) ''/'' then ((False, None), sv, d)
          else intercept_claims eqf uuids now hasAgent msg
                 (channelSources (sv_claims sv) (im_ChannelID msg) ''feishu_message'') False 0 sv d)"

section \<open>GitHub\<close>

record githubUser =
  gu_Login :: string
  gu_Type :: string

record githubItem =
  gi_Key :: string
  gi_Repo :: string
  gi_Number :: int
  gi_Title :: string
  gi_Text :: string
  gi_Sender :: githubUser
  gi_Assigned :: bool
  gi_At :: gotime

text \<open>
  The regular expression of \<open>mentionsLogin\<close>: an at sign and the login under case folding, neither preceded by a word
  character, an at sign, a slash, a dot or a dash, nor followed by a word character or a dash. Case folding puts
  U+017F and U+212A among the word characters. A login that is not UTF-8 does not compile.
\<close>

definition word_rune :: "string \<Rightarrow> bool" where
  "word_rune r \<longleftrightarrow> (case r of [c] \<Rightarrow> in_bytes 48 57 c \<or> in_bytes 65 90 c \<or> in_bytes 97 122 c \<or> c = CHR ''_'' | _ \<Rightarrow> False) \<or>
     map byte_of r \<in> set [[0xC5, 0xBF], [0xE2, 0x84, 0xAA]]"

definition mentionsLogin :: "(string \<Rightarrow> string \<Rightarrow> bool) \<Rightarrow> string \<Rightarrow> string \<Rightarrow> bool" where
  "mentionsLogin eqf text login \<longleftrightarrow>
     login \<noteq> [] \<and> list_all (\<lambda>r. well_formed_width r \<noteq> 0) (rune_split login) \<and>
     (let rs = rune_split text; n = length (rune_split login)
      in list_ex (\<lambda>i. rs ! i = ''@'' \<and>
           (i = 0 \<or> \<not> (word_rune (rs ! (i - 1)) \<or> rs ! (i - 1) \<in> set [''@'', ''/'', ''.'', ''-''])) \<and>
           Suc i + n \<le> length rs \<and> eqf (concat (take n (drop (Suc i) rs))) login \<and>
           (Suc i + n = length rs \<or> \<not> (word_rune (rs ! (Suc i + n)) \<or> rs ! (Suc i + n) = ''-'')))
         [0..<length rs])"

definition show_int :: "int \<Rightarrow> string" where
  "show_int n = (if n < 0 then CHR ''-'' # decimal (nat (- n)) else decimal (nat n))"

text \<open>\<open>lower\<close> is \<^verbatim>\<open>strings.ToLower\<close>.\<close>

definition githubItemTrigger ::
  "(string \<Rightarrow> string \<Rightarrow> bool) \<Rightarrow> (string \<Rightarrow> string) \<Rightarrow> SuperAgentSource \<Rightarrow> githubItem \<Rightarrow> SuperAgentTrigger option" where
  "githubItemTrigger eqf lower source item =
     (let login = trim_space (config source ''agent_login''); sender = gu_Login (gi_Sender item);
          want = trim_space (config source ''repo'')
      in if sender = [] \<or> eqf sender login \<or> gu_Type (gi_Sender item) = ''Bot'' then None
         else if want \<noteq> [] \<and> \<not> eqf want (gi_Repo item) then None
         else Some (zero_trigger\<lparr>sg_DedupeKey := gi_Key item,
           sg_ThreadKey := ''github:'' @ lower (gi_Repo item) @ ''#'' @ show_int (gi_Number item),
           sg_Actor := sender, sg_Addressed := gi_Assigned item \<or> mentionsLogin eqf (gi_Text item) login,
           sg_Title := gi_Repo item @ ''#'' @ show_int (gi_Number item) @ '' '' @ gi_Title item,
           sg_Text := gi_Text item,
           sg_Reply := json_object [(''repo'', json_string (gi_Repo item)), (''number'', show_int (gi_Number item))]\<rparr>))"

record githubThing =
  gh_Number :: int
  gh_Title :: string
  gh_Body :: string

record githubPayload =
  gp_Action :: string
  gp_FullName :: string
  gp_Sender :: githubUser
  gp_Assignee :: "githubUser option"
  gp_Comment :: "string option"
  gp_Issue :: "githubThing option"
  gp_PullRequest :: "githubThing option"

record GitHubDelivery =
  gd_Event :: string
  gd_DeliveryID :: string
  gd_Signature :: string
  gd_Body :: string

text \<open>\<open>digest\<close> is the SHA-256 of a text in hexadecimal; \<open>decode\<close> is the JSON decoder.\<close>

definition github_message ::
  "githubPayload \<Rightarrow> string \<Rightarrow> bool \<Rightarrow> githubItem \<Rightarrow> githubItem option" where
  "github_message p event assigned item =
     (let say = \<lambda>thing text flag. Some (item\<lparr>gi_Number := gh_Number thing, gi_Title := gh_Title thing, gi_Text := text,
            gi_Assigned := flag\<rparr>)
      in case (event = ''issue_comment'' \<and> gp_Action p = ''created'', gp_Comment p, gp_Issue p) of
           (True, Some comment, Some issue) \<Rightarrow> say issue comment False
         | _ \<Rightarrow>
        case (event = ''pull_request_review_comment'' \<and> gp_Action p = ''created'', gp_Comment p, gp_PullRequest p) of
           (True, Some comment, Some pull) \<Rightarrow> say pull comment False
         | _ \<Rightarrow>
        case (event = ''issues'' \<and> (gp_Action p = ''opened'' \<or> assigned), gp_Issue p) of
           (True, Some issue) \<Rightarrow> say issue (gh_Body issue) assigned
         | _ \<Rightarrow>
        case (event = ''pull_request'' \<and> (gp_Action p = ''opened'' \<or> assigned), gp_PullRequest p) of
           (True, Some pull) \<Rightarrow> say pull (gh_Body pull) assigned
         | _ \<Rightarrow> None)"

definition parseGitHubEvent ::
  "(string \<Rightarrow> string \<Rightarrow> bool) \<Rightarrow> (string \<Rightarrow> string) \<Rightarrow> (string \<Rightarrow> string) \<Rightarrow> (string \<Rightarrow> githubPayload option) \<Rightarrow>
   SuperAgentSource \<Rightarrow> GitHubDelivery \<Rightarrow> string + SuperAgentTrigger option" where
  "parseGitHubEvent eqf lower digest decode source delivery =
     (case decode (gd_Body delivery) of
        None \<Rightarrow> Inl ''decode GitHub payload''
      | Some p \<Rightarrow>
          let login = trim_space (config source ''agent_login'');
              item = \<lparr>gi_Key = (if gd_DeliveryID delivery = [] then digest (gd_Body delivery) else gd_DeliveryID delivery),
                      gi_Repo = gp_FullName p, gi_Number = 0, gi_Title = [], gi_Text = [], gi_Sender = gp_Sender p,
                      gi_Assigned = False, gi_At = 0\<rparr>;
              assigned = (gp_Action p = ''assigned'' \<and>
                (case gp_Assignee p of None \<Rightarrow> False | Some u \<Rightarrow> eqf (gu_Login u) login))
          in case github_message p (gd_Event delivery) assigned item of
               None \<Rightarrow> Inr None
             | Some message \<Rightarrow> Inr (githubItemTrigger eqf lower source message))"

text \<open>\<^verbatim>\<open>hex.DecodeString\<close>, and the check of a signature; \<open>hmac\<close> is HMAC-SHA256 of a text under a key.\<close>

definition hex_value :: "char \<Rightarrow> nat option" where
  "hex_value c = (if in_bytes 48 57 c then Some (byte_of c - 48)
     else if in_bytes 97 102 c then Some (byte_of c - 87)
     else if in_bytes 65 70 c then Some (byte_of c - 55) else None)"

fun hex_decode :: "string \<Rightarrow> string option" where
  "hex_decode [] = Some []"
| "hex_decode [c] = None"
| "hex_decode (a # b # cs) =
     (case (hex_value a, hex_value b, hex_decode cs) of
        (Some x, Some y, Some rest) \<Rightarrow> Some (char_of (16 * x + y) # rest) | _ \<Rightarrow> None)"

definition verifyGitHubSignature :: "(string \<Rightarrow> string \<Rightarrow> string) \<Rightarrow> string \<Rightarrow> string \<Rightarrow> string \<Rightarrow> bool" where
  "verifyGitHubSignature hmac secret signature body =
     (if secret = [] \<or> \<not> has_prefix signature ''sha256='' then False
      else case hex_decode (trim_prefix signature ''sha256='') of
        None \<Rightarrow> False | Some provided \<Rightarrow> provided = hmac secret body)"

definition HandleGitHubWebhook ::
  "(string \<Rightarrow> string \<Rightarrow> bool) \<Rightarrow> (string \<Rightarrow> string) \<Rightarrow> (string \<Rightarrow> string \<Rightarrow> string) \<Rightarrow> (string \<Rightarrow> string) \<Rightarrow>
   (string \<Rightarrow> githubPayload option) \<Rightarrow> string \<Rightarrow> gotime \<Rightarrow> string \<Rightarrow> GitHubDelivery \<Rightarrow> service_state \<Rightarrow>
   'a super_db_scheme \<Rightarrow> (super_error + unit) \<times> service_state \<times> 'a super_db_scheme" where
  "HandleGitHubWebhook eqf lower hmac digest decode uuid now sourceID delivery sv d =
     (case claim_source (sv_claims sv) sourceID of
        None \<Rightarrow> (Inl ErrNotFound, sv, d)
      | Some claim \<Rightarrow>
          if so_Kind (sc_source claim) \<noteq> ''github_webhook'' then (Inl ErrNotFound, sv, d)
          else if \<not> verifyGitHubSignature hmac (config (sc_source claim) ''webhook_secret'')
                      (gd_Signature delivery) (gd_Body delivery) then (Inl Unauthorized, sv, d)
          else case parseGitHubEvent eqf lower digest decode (sc_source claim) delivery of
                 Inl message \<Rightarrow> (Inl (Because message), sv, d)
               | Inr None \<Rightarrow> (Inr (), sv, d)
               | Inr (Some trigger) \<Rightarrow>
                   (case Ingest eqf uuid now (sc_agent claim) (sc_source claim) trigger sv d of
                      (Inl e, sv', d') \<Rightarrow> (Inl (Failed e), sv', d') | (Inr _, sv', d') \<Rightarrow> (Inr (), sv', d')))"

section \<open>Polling\<close>

text \<open>
  A poll reads the position of its source, asks the service what is new, ingests it in order and moves the position.
  \<open>enc\<close> and \<open>dec\<close> are the JSON form of a position, \<open>activity\<close> and \<open>fetch\<close> the clients; what a poll reports is the error, or
  the interval GitHub asks for.
\<close>

definition githubPollOverlap :: int where "githubPollOverlap = minute_ns"

record GitHubActivity =
  ga_Now :: gotime
  ga_Interval :: int
  ga_Items :: "githubItem list"

fun ingest_items ::
  "(string \<Rightarrow> string \<Rightarrow> bool) \<Rightarrow> (string \<Rightarrow> string) \<Rightarrow> (nat \<Rightarrow> string) \<Rightarrow> gotime \<Rightarrow> sourceClaim \<Rightarrow> githubItem list \<Rightarrow> nat \<Rightarrow>
   service_state \<Rightarrow> 'a super_db_scheme \<Rightarrow> unit relay_result \<times> service_state \<times> 'a super_db_scheme" where
  "ingest_items eqf lower uuids now claim [] k sv d = (Inr (), sv, d)"
| "ingest_items eqf lower uuids now claim (item # items) k sv d =
     (case githubItemTrigger eqf lower (sc_source claim) item of
        None \<Rightarrow> ingest_items eqf lower uuids now claim items k sv d
      | Some trigger \<Rightarrow>
          (case Ingest eqf (uuids k) now (sc_agent claim) (sc_source claim) trigger sv d of
             (Inl e, sv', d') \<Rightarrow> (Inl e, sv', d')
           | (Inr _, sv', d') \<Rightarrow> ingest_items eqf lower uuids now claim items (Suc k) sv' d'))"

definition pollGitHub ::
  "(string \<Rightarrow> string \<Rightarrow> bool) \<Rightarrow> (string \<Rightarrow> string) \<Rightarrow> (gotime \<Rightarrow> string) \<Rightarrow> (string \<Rightarrow> gotime option) \<Rightarrow>
   (SuperAgentSource \<Rightarrow> gotime \<Rightarrow> string + GitHubActivity) \<Rightarrow> (nat \<Rightarrow> string) \<Rightarrow> gotime \<Rightarrow> sourceClaim \<Rightarrow>
   service_state \<Rightarrow> 'a super_db_scheme \<Rightarrow> (super_error + int) \<times> service_state \<times> 'a super_db_scheme" where
  "pollGitHub eqf lower enc dec activity uuids now claim sv d =
     (case GetSuperAgentSourceState (so_ID (sc_source claim)) d of
        (None, d1) \<Rightarrow> (Inl (Failed DbError), sv, d1)
      | (Some raw, d1) \<Rightarrow>
          (case (if raw = [] then Some 0 else dec raw) of
             None \<Rightarrow> (Inl (Because ''decode GitHub position''), sv, d1)
           | Some cursor \<Rightarrow>
               (case activity (sc_source claim) (if is_zero cursor then 0 else cursor - githubPollOverlap) of
                  Inl e \<Rightarrow> (Inl (Because e), sv, d1)
                | Inr act \<Rightarrow>
                    (case ingest_items eqf lower uuids now claim (ga_Items act) 0 sv d1 of
                       (Inl e, sv', d2) \<Rightarrow> (Inl (Failed e), sv', d2)
                     | (Inr _, sv', d2) \<Rightarrow>
                         (case SetSuperAgentSourceState (sa_ID (sc_agent claim)) (so_ID (sc_source claim))
                             (enc (ga_Now act)) d2 of
                            (ok, d3) \<Rightarrow> (if ok then Inr (ga_Interval act) else Inl (Failed DbError), sv', d3))))))"

record MailPosition =
  mp_UIDValidity :: nat
  mp_LastUID :: nat

record MailMessage =
  mm_UID :: nat
  mm_Raw :: string

record MailBatch =
  mb_Position :: MailPosition
  mb_Baseline :: bool
  mb_Messages :: "MailMessage list"

definition save_position ::
  "(MailPosition \<Rightarrow> string) \<Rightarrow> sourceClaim \<Rightarrow> MailPosition \<Rightarrow> 'a super_db_scheme \<Rightarrow> bool \<times> 'a super_db_scheme" where
  "save_position enc claim p =
     SetSuperAgentSourceState (sa_ID (sc_agent claim)) (so_ID (sc_source claim)) (enc p)"

text \<open>
  The loop over a batch; \<open>parse\<close> is \<open>parseEmail\<close>, whose outer \<open>None\<close> is a message that cannot be read. Such a message is
  skipped.
\<close>

fun ingest_mail ::
  "(string \<Rightarrow> string \<Rightarrow> bool) \<Rightarrow> (SuperAgentSource \<Rightarrow> string \<Rightarrow> SuperAgentTrigger option option) \<Rightarrow>
   (MailPosition \<Rightarrow> string) \<Rightarrow> (nat \<Rightarrow> string) \<Rightarrow> gotime \<Rightarrow> sourceClaim \<Rightarrow> MailMessage list \<Rightarrow> MailPosition \<Rightarrow> nat \<Rightarrow>
   service_state \<Rightarrow> 'a super_db_scheme \<Rightarrow> unit relay_result \<times> service_state \<times> 'a super_db_scheme" where
  "ingest_mail eqf parse enc uuids now claim [] next k sv d =
     (case save_position enc claim next d of (ok, d') \<Rightarrow> (if ok then Inr () else Inl DbError, sv, d'))"
| "ingest_mail eqf parse enc uuids now claim (m # ms) next k sv d =
     (case (case parse (sc_source claim) (mm_Raw m) of
              Some (Some trigger) \<Rightarrow> Ingest eqf (uuids k) now (sc_agent claim) (sc_source claim) trigger sv d
            | _ \<Rightarrow> (Inr False, sv, d)) of
        (Inl e, sv', d') \<Rightarrow> (Inl e, sv', d')
      | (Inr _, sv', d') \<Rightarrow>
          let next' = next\<lparr>mp_LastUID := mm_UID m\<rparr>
          in case save_position enc claim next' d' of
               (False, d'') \<Rightarrow> (Inl DbError, sv', d'')
             | (True, d'') \<Rightarrow> ingest_mail eqf parse enc uuids now claim ms next' (Suc k) sv' d'')"

definition pollEmail ::
  "(string \<Rightarrow> string \<Rightarrow> bool) \<Rightarrow> (SuperAgentSource \<Rightarrow> string \<Rightarrow> SuperAgentTrigger option option) \<Rightarrow>
   (MailPosition \<Rightarrow> string) \<Rightarrow> (string \<Rightarrow> MailPosition option) \<Rightarrow>
   (SuperAgentSource \<Rightarrow> MailPosition \<Rightarrow> string + MailBatch) \<Rightarrow> (nat \<Rightarrow> string) \<Rightarrow> gotime \<Rightarrow> sourceClaim \<Rightarrow>
   service_state \<Rightarrow> 'a super_db_scheme \<Rightarrow> (super_error + unit) \<times> service_state \<times> 'a super_db_scheme" where
  "pollEmail eqf parse enc dec fetch uuids now claim sv d =
     (case GetSuperAgentSourceState (so_ID (sc_source claim)) d of
        (None, d1) \<Rightarrow> (Inl (Failed DbError), sv, d1)
      | (Some raw, d1) \<Rightarrow>
          (case (if raw = [] then Some \<lparr>mp_UIDValidity = 0, mp_LastUID = 0\<rparr> else dec raw) of
             None \<Rightarrow> (Inl (Because ''decode mailbox position''), sv, d1)
           | Some position \<Rightarrow>
               (case fetch (sc_source claim) position of
                  Inl e \<Rightarrow> (Inl (Because e), sv, d1)
                | Inr batch \<Rightarrow>
                    if mb_Baseline batch
                    then (case save_position enc claim (mb_Position batch) d1 of
                            (ok, d2) \<Rightarrow> (if ok then Inr () else Inl (Failed DbError), sv, d2))
                    else let next = \<lparr>mp_UIDValidity = mp_UIDValidity (mb_Position batch),
                               mp_LastUID = (if mp_UIDValidity position \<noteq> mp_UIDValidity (mb_Position batch) then 0
                                             else mp_LastUID position)\<rparr>
                         in case ingest_mail eqf parse enc uuids now claim (mb_Messages batch) next 0 sv d1 of
                              (Inl e, sv', d2) \<Rightarrow> (Inl (Failed e), sv', d2)
                            | (Inr _, sv', d2) \<Rightarrow> (Inr (), sv', d2))))"

end
