(* ===== verification/Super_Router.thy ===== *)
theory Super_Router
  imports Super_Sources
begin

text \<open>
  What the router's answer can make a Super Agent do (superagent/router.go): the reply and the action block are split,
  and the decision is validated. Decoding the JSON of the block is an argument; so are the rendered prompts, which only
  describe the event to a model.
\<close>

section \<open>Decisions\<close>

record routerDecision =
  rd_Decision :: string
  rd_Title :: string
  rd_WorkerID :: string
  rd_TicketID :: string
  rd_Instructions :: string
  rd_Reply :: string
  rd_Reason :: string

definition actionOpen :: string where "actionOpen = ''<agentmux-action>''"
definition actionClose :: string where "actionClose = ''</agentmux-action>''"

text \<open>\<^verbatim>\<open>strings.Index\<close> and \<^verbatim>\<open>strings.LastIndex\<close>; \<open>None\<close> stands for -1.\<close>

fun index_of :: "string \<Rightarrow> string \<Rightarrow> nat option" where
  "index_of p [] = (if p = [] then Some 0 else None)"
| "index_of p (c # cs) = (if has_prefix (c # cs) p then Some 0 else map_option Suc (index_of p cs))"

fun last_index_of :: "string \<Rightarrow> string \<Rightarrow> nat option" where
  "last_index_of p [] = (if p = [] then Some 0 else None)"
| "last_index_of p (c # cs) =
     (case last_index_of p cs of Some i \<Rightarrow> Some (Suc i) | None \<Rightarrow> if has_prefix (c # cs) p then Some 0 else None)"

definition validateDecision :: "routerDecision \<Rightarrow> string option" where
  "validateDecision r =
     (if rd_Decision r = ''accept'' then
        (if trim_space (rd_WorkerID r) = [] then Some ''router accepted without choosing a worker'' else None)
      else if rd_Decision r = ''attach'' \<or> rd_Decision r = ''stop'' then
        (if trim_space (rd_TicketID r) = []
         then Some (''router decided '' @ rd_Decision r @ '' without naming a ticket'') else None)
      else if rd_Decision r = ''ignore'' then None
      else Some ''router returned unknown action'')"

text \<open>
  An action block as decoded; \<open>decode\<close> decodes the block, \<open>legacy\<close> the JSON-only form of an answer, and \<open>lower\<close> is
  \<^verbatim>\<open>strings.ToLower\<close>.
\<close>

record actionBlock =
  ab_Action :: string
  ab_WorkerID :: string
  ab_TicketID :: string
  ab_Title :: string
  ab_Instructions :: string
  ab_Reason :: string

definition legacyRouterDecision ::
  "(string \<Rightarrow> string) \<Rightarrow> (string \<Rightarrow> routerDecision option) \<Rightarrow> string \<Rightarrow> routerDecision option" where
  "legacyRouterDecision lower legacy answer =
     (if \<not> has_prefix answer ''{'' \<or> \<not> has_suffix answer ''}'' then None
      else case legacy answer of
        None \<Rightarrow> None
      | Some r \<Rightarrow>
          if trim_space (rd_Decision r) = [] then None
          else let r' = r\<lparr>rd_Decision := lower (trim_space (rd_Decision r))\<rparr>
               in if validateDecision r' = None then Some r' else None)"

definition ignore_with :: "string \<Rightarrow> routerDecision" where
  "ignore_with reply = \<lparr>rd_Decision = ''ignore'', rd_Title = [], rd_WorkerID = [], rd_TicketID = [],
     rd_Instructions = [], rd_Reply = reply, rd_Reason = []\<rparr>"

definition fence :: string where "fence = replicate 3 (CHR 0x60)"

definition block_body :: "string \<Rightarrow> string" where
  "block_body text =
     trim_space (trim_suffix (trim_prefix (trim_prefix (trim_space text) (fence @ ''json'')) fence) fence)"

definition parseRouterDecision ::
  "(string \<Rightarrow> string) \<Rightarrow> (string \<Rightarrow> routerDecision option) \<Rightarrow> (string \<Rightarrow> actionBlock option) \<Rightarrow> string \<Rightarrow>
   string + routerDecision" where
  "parseRouterDecision lower legacy decode raw =
     (let answer = trim_space raw
      in case last_index_of actionOpen answer of
           None \<Rightarrow> (case legacyRouterDecision lower legacy answer of
                      Some r \<Rightarrow> Inr r | None \<Rightarrow> Inr (ignore_with answer))
         | Some start \<Rightarrow>
             let rest = drop (start + length actionOpen) answer
             in case index_of actionClose rest of
                  None \<Rightarrow> Inl ''router's action block is not closed''
                | Some stop \<Rightarrow>
                    (case decode (block_body (take stop rest)) of
                       None \<Rightarrow> Inl ''parse router action''
                     | Some b \<Rightarrow>
                         let action = lower (trim_space (ab_Action b));
                             r = \<lparr>rd_Decision = (if action = [] \<or> action = ''none'' then ''ignore'' else action),
                                  rd_Title = ab_Title b, rd_WorkerID = ab_WorkerID b, rd_TicketID = ab_TicketID b,
                                  rd_Instructions = ab_Instructions b,
                                  rd_Reply = trim_space (take start answer @ drop (stop + length actionClose) rest),
                                  rd_Reason = ab_Reason b\<rparr>
                         in case validateDecision r of Some e \<Rightarrow> Inl e | None \<Rightarrow> Inr r))"

text \<open>What an observing Super Agent records; \<open>quote\<close> is the verb \<^verbatim>\<open>%q\<close>.\<close>

fun join :: "string \<Rightarrow> string list \<Rightarrow> string" where
  "join sep [] = []"
| "join sep [x] = x"
| "join sep (x # y # xs) = x @ sep @ join sep (y # xs)"

definition summary :: "(string \<Rightarrow> string) \<Rightarrow> routerDecision \<Rightarrow> string" where
  "summary quote r = join ''; ''
     ([if rd_Decision r = ''ignore'' then ''would take no action'' else ''would '' @ rd_Decision r] @
      (if rd_WorkerID r = [] then [] else [''worker '' @ rd_WorkerID r]) @
      (if rd_TicketID r = [] then [] else [''ticket '' @ rd_TicketID r]) @
      (if rd_Reason r = [] then [] else [rd_Reason r]) @
      (if trim_space (rd_Reply r) = [] then []
       else [''reply '' @ quote (truncate_text (trim_space (rd_Reply r)) 300)]))"

lemma parseRouterDecision_valid:
  "parseRouterDecision lower legacy decode raw = Inr r \<Longrightarrow> validateDecision r = None"
  by (auto simp: parseRouterDecision_def legacyRouterDecision_def Let_def ignore_with_def validateDecision_def
      split: option.splits if_splits)

lemma no_block_no_action:
  assumes "last_index_of actionOpen (trim_space raw) = None" "\<not> has_prefix (trim_space raw) ''{''"
  shows "parseRouterDecision lower legacy decode raw = Inr (ignore_with (trim_space raw))"
  using assms by (simp add: parseRouterDecision_def legacyRouterDecision_def Let_def)

end
