(* ===== verification/Super_Agents.thy ===== *)
theory Super_Agents
  imports Super_Router
begin

text \<open>
  The agent instances a Super Agent routes and works with: approval modes (core/runtime_settings.go), router agents
  (superagent/routers.go, superagent/managed.go) and automatically launched workers (superagent/autoworker.go), with the
  home directories they are named after (superagent/home.go).

  The file system is an argument: the paths computed from an identifier, and whether a directory could be created.
\<close>

section \<open>Approval modes\<close>

definition ApprovalModeValuesForRuntime :: "(string \<Rightarrow> string) \<Rightarrow> string \<Rightarrow> string list" where
  "ApprovalModeValuesForRuntime lower runtimeID =
     (let r = lower (trim_space runtimeID)
      in if r \<in> set [''claude'', ''claudecode'', ''claude-code'', ''claudecode-cli'', ''qoder'']
         then [''manual'', ''auto_edit'', ''auto'', ''plan'', ''yolo'']
         else if r \<in> set [''codex'', ''codex-cli'', ''codex-app'', ''codex-desktop'', ''codex-app-server'', ''trae'', ''traecli'']
         then [''manual'', ''auto_edit'', ''auto'', ''plan'', ''yolo'']
         else if r \<in> set [''gemini'', ''opencode'', ''iflow''] then [''manual'', ''auto_edit'', ''plan'', ''yolo'']
         else if r = ''cursor'' then [''manual'', ''auto'', ''plan'', ''yolo'']
         else if r = ''dsh'' then [''auto_edit'', ''plan'', ''yolo'']
         else if r = ''kimi'' then [''auto''] else [])"

definition ApprovalModeSupported :: "(string \<Rightarrow> string) \<Rightarrow> string \<Rightarrow> string \<Rightarrow> bool" where
  "ApprovalModeSupported lower runtimeID mode = (trim_space mode \<in> set (ApprovalModeValuesForRuntime lower runtimeID))"

definition routerApprovalModes :: "(string \<Rightarrow> string) \<Rightarrow> string \<Rightarrow> string list" where
  "routerApprovalModes lower runtimeID = filter (\<lambda>m. m \<noteq> ''manual'') (ApprovalModeValuesForRuntime lower runtimeID)"

definition defaultRouterApproval :: "(string \<Rightarrow> string) \<Rightarrow> string \<Rightarrow> string" where
  "defaultRouterApproval lower runtimeID =
     (case find (\<lambda>m. m \<in> set (routerApprovalModes lower runtimeID)) [''yolo'', ''auto'', ''auto_edit'', ''plan''] of
        None \<Rightarrow> [] | Some m \<Rightarrow> m)"

text \<open>\<open>None\<close> is success.\<close>

definition checkRouterRuntime :: "(string \<Rightarrow> string) \<Rightarrow> string \<Rightarrow> string option" where
  "checkRouterRuntime lower runtimeID =
     (if ApprovalModeValuesForRuntime lower runtimeID \<noteq> [] \<and> routerApprovalModes lower runtimeID = []
      then Some ''the router runs unattended, so it needs an approval mode other than manual'' else None)"

definition routerApproval :: "(string \<Rightarrow> string) \<Rightarrow> string \<Rightarrow> string \<Rightarrow> string \<Rightarrow> string + string" where
  "routerApproval lower runtimeID requested current =
     (let modes = routerApprovalModes lower runtimeID;
          mode = (if trim_space requested = [] \<and> current \<in> set modes then current else trim_space requested)
      in if mode = [] then Inr (defaultRouterApproval lower runtimeID)
         else if modes = [] then Inl ''the framework's approval modes are not known''
         else if mode \<notin> set modes then Inl ''a router cannot run in this approval mode''
         else Inr mode)"

definition defaultAutoWorkerApproval :: "(string \<Rightarrow> string) \<Rightarrow> string \<Rightarrow> string" where
  "defaultAutoWorkerApproval lower runtimeID =
     (if ApprovalModeSupported lower runtimeID ''auto'' \<and> \<not> ApprovalModeSupported lower runtimeID ''auto_edit''
      then ''auto'' else ''auto_edit'')"

definition validateAutoWorkerApproval :: "string \<Rightarrow> string option" where
  "validateAutoWorkerApproval mode =
     (if mode \<in> set [''auto_edit'', ''auto'', ''yolo''] then None
      else Some ''auto workers run unattended, so auto_worker_approval_mode must be auto_edit, auto or yolo'')"

section \<open>Kinds of agent instances\<close>

definition routerAgentSource :: string where "routerAgentSource = ''super_agent_router''"
definition autoWorkerAgentSource :: string where "autoWorkerAgentSource = ''super_agent''"
definition routerIDPrefix :: string where "routerIDPrefix = ''sar_''"
definition autoWorkerID :: string where "autoWorkerID = ''auto''"

definition IsRouterAgent :: "AgentInstance \<Rightarrow> bool" where
  "IsRouterAgent a \<longleftrightarrow> a_Source a = routerAgentSource \<or>
     (a_Source a = autoWorkerAgentSource \<and> has_prefix (a_ID a) routerIDPrefix)"

definition IsManagedAgent :: "AgentInstance \<Rightarrow> bool" where
  "IsManagedAgent a \<longleftrightarrow> a_Source a = autoWorkerAgentSource"

definition autoWorkerRosterID :: "string \<Rightarrow> string" where
  "autoWorkerRosterID runtimeID = autoWorkerID @ '':'' @ runtimeID"

definition isAutoWorkerID :: "string \<Rightarrow> bool" where
  "isAutoWorkerID i \<longleftrightarrow> i = autoWorkerID \<or> has_prefix i (autoWorkerID @ '':'')"

definition autoWorkerAgentID :: "string \<Rightarrow> string \<Rightarrow> string" where
  "autoWorkerAgentID superAgentID runtimeID = ''saw_'' @ superAgentID @ ''_'' @ runtimeID"

text \<open>\<^verbatim>\<open>filepath.Base\<close> with a slash as the separator.\<close>

definition path_base :: "string \<Rightarrow> string" where
  "path_base p =
     (if p = [] then ''.''
      else let q = rev (dropWhile (\<lambda>c. c = CHR ''/'') (rev p))
           in if q = [] then ''/'' else rev (takeWhile (\<lambda>c. c \<noteq> CHR ''/'') (rev q)))"

definition validSuperAgentID :: "string \<Rightarrow> bool" where
  "validSuperAgentID i \<longleftrightarrow> \<not> (i = [] \<or> i \<noteq> path_base i \<or> i = ''.'' \<or> i = ''..'' \<or> i \<in> set [''router'', ''routers''])"

section \<open>Router agents\<close>

type_synonym 'r service_result = "super_error + 'r"

definition validateRouter ::
  "string \<Rightarrow> string \<Rightarrow> 'a super_db_scheme \<Rightarrow> AgentInstance service_result \<times> 'a super_db_scheme" where
  "validateRouter i current d =
     (if i = [] then (Inl (Because ''choose a router agent, or create one''), d)
      else case GetAgentInstance i d of
        (None, d') \<Rightarrow> (Inl (Failed DbError), d')
      | (Some None, d') \<Rightarrow> (Inl (Because ''router agent not found on this machine''), d')
      | (Some (Some router), d') \<Rightarrow>
          (if \<not> IsRouterAgent router \<and> i \<noteq> current then Inl (Because ''not a router agent'') else Inr router, d'))"

definition withWorkerRuntimes :: "SuperAgent \<Rightarrow> 'a super_db_scheme \<Rightarrow> SuperAgent \<times> 'a super_db_scheme" where
  "withWorkerRuntimes agent d =
     (if \<not> sa_AutoWorkers agent \<or> sa_WorkerRuntimes agent \<noteq> [] then (agent, d)
      else case GetAgentInstance (sa_RouterAgentID agent) d of
        (Some (Some router), d') \<Rightarrow> (agent\<lparr>sa_WorkerRuntimes := [a_RuntimeID router]\<rparr>, d')
      | (_, d') \<Rightarrow> (agent, d'))"

text \<open>The Super Agents that route with an agent instance, as pairs of id and name.\<close>

definition routerUsers ::
  "'a super_db_scheme \<Rightarrow> (string \<Rightarrow> (string \<times> string) list) option \<times> 'a super_db_scheme" where
  "routerUsers d =
     (case ListSuperAgents d of
        (None, d') \<Rightarrow> (None, d')
      | (Some agents, d') \<Rightarrow>
          (Some (\<lambda>i. map (\<lambda>a. (sa_ID a, sa_Name a)) (filter (\<lambda>a. sa_RouterAgentID a = i) agents)), d'))"

definition checkRouterOwner ::
  "string \<Rightarrow> AgentInstance \<Rightarrow> 'a super_db_scheme \<Rightarrow> unit service_result \<times> 'a super_db_scheme" where
  "checkRouterOwner superAgentID router d =
     (if a_ID router = [] \<or> \<not> IsRouterAgent router then (Inr (), d)
      else case routerUsers d of
        (None, d') \<Rightarrow> (Inl (Failed DbError), d')
      | (Some users, d') \<Rightarrow>
          (if list_ex (\<lambda>u. fst u \<noteq> superAgentID) (users (a_ID router)) then Inl ErrConflict else Inr (), d'))"

definition DeleteRouter :: "string \<Rightarrow> 'a super_db_scheme \<Rightarrow> unit service_result \<times> 'a super_db_scheme" where
  "DeleteRouter i0 d =
     (let i = trim_space i0
      in case GetAgentInstance i d of
           (None, d1) \<Rightarrow> (Inl (Failed DbError), d1)
         | (Some None, d1) \<Rightarrow> (Inl ErrNotFound, d1)
         | (Some (Some instance), d1) \<Rightarrow>
             if \<not> IsRouterAgent instance then (Inl (Because ''not a router agent''), d1)
             else case routerUsers d1 of
               (None, d2) \<Rightarrow> (Inl (Failed DbError), d2)
             | (Some users, d2) \<Rightarrow>
                 if users i \<noteq> [] then (Inl ErrConflict, d2)
                 else case DeleteAgentInstance i d2 of
                   (ok, d3) \<Rightarrow> (if ok then Inr () else Inl (Failed DbError), d3))"

definition deleteOwnedRouter :: "string \<Rightarrow> 'a super_db_scheme \<Rightarrow> unit service_result \<times> 'a super_db_scheme" where
  "deleteOwnedRouter i d =
     (if i = [] then (Inr (), d)
      else case GetAgentInstance i d of
        (None, d1) \<Rightarrow> (Inl (Failed DbError), d1)
      | (Some None, d1) \<Rightarrow> (Inr (), d1)
      | (Some (Some router), d1) \<Rightarrow>
          if \<not> IsRouterAgent router then (Inr (), d1)
          else case DeleteRouter i d1 of
            (Inl e, d2) \<Rightarrow> (if e = ErrConflict \<or> e = ErrNotFound then Inr () else Inl e, d2)
          | (Inr u, d2) \<Rightarrow> (Inr (), d2))"

definition routerName :: "string \<Rightarrow> string" where
  "routerName superAgentName = superAgentName @ '' router''"

definition nameRouter ::
  "gotime \<Rightarrow> SuperAgent \<Rightarrow> 'a super_db_scheme \<Rightarrow> unit service_result \<times> 'a super_db_scheme" where
  "nameRouter now agent d =
     (case GetAgentInstance (sa_RouterAgentID agent) d of
        (None, d1) \<Rightarrow> (Inl (Failed DbError), d1)
      | (Some None, d1) \<Rightarrow> (Inr (), d1)
      | (Some (Some router), d1) \<Rightarrow>
          if \<not> IsRouterAgent router then (Inr (), d1)
          else case routerUsers d1 of
            (None, d2) \<Rightarrow> (Inl (Failed DbError), d2)
          | (Some users, d2) \<Rightarrow>
              if list_ex (\<lambda>u. fst u \<noteq> sa_ID agent) (users (a_ID router)) \<or> a_Name router = routerName (sa_Name agent)
              then (Inr (), d2)
              else case UpsertAgentInstance (router\<lparr>a_Name := routerName (sa_Name agent), a_UpdatedAt := now\<rparr>) d2 of
                (ok, d3) \<Rightarrow> (if ok then Inr () else Inl (Failed DbError), d3))"

text \<open>\<open>home\<close> is the result of \<open>ensureHome\<close>: the directory, or the error of the file system.\<close>

definition bindRouter ::
  "string option \<Rightarrow> gotime \<Rightarrow> SuperAgent \<Rightarrow> 'a super_db_scheme \<Rightarrow> unit service_result \<times> 'a super_db_scheme" where
  "bindRouter home now agent d =
     (case home of
        None \<Rightarrow> (Inl (Because ''create super agent home''), d)
      | Some dir \<Rightarrow>
          (case GetAgentInstance (sa_RouterAgentID agent) d of
             (None, d1) \<Rightarrow> (Inl (Failed DbError), d1)
           | (Some None, d1) \<Rightarrow> (Inr (), d1)
           | (Some (Some router), d1) \<Rightarrow>
               if \<not> IsRouterAgent router \<or> a_WorkDir router = dir \<and> a_WorkspaceMode router = ''shared'' then (Inr (), d1)
               else case UpsertAgentInstance
                   (router\<lparr>a_WorkDir := dir, a_WorkspaceMode := ''shared'', a_UpdatedAt := now\<rparr>) d1 of
                 (ok, d2) \<Rightarrow> (if ok then Inr () else Inl (Failed DbError), d2)))"

section \<open>Automatically launched workers\<close>

text \<open>
  \<open>workdir\<close> is \<open>autoWorkerDir\<close>, which may create a directory, and \<open>wsmode\<close> the workspace mode for a directory,
  decided by asking git.
\<close>

definition auto_instance ::
  "(string \<Rightarrow> string) \<Rightarrow> (string \<Rightarrow> string) \<Rightarrow> gotime \<Rightarrow> gotime \<Rightarrow> SuperAgent \<Rightarrow> string \<Rightarrow> string \<Rightarrow> AgentInstance \<Rightarrow> AgentInstance" where
  "auto_instance lower wsmode now createdAt agent runtimeID workDir router =
     (let base = \<lparr>a_ID = autoWorkerAgentID (sa_ID agent) runtimeID,
          a_Name = sa_Name agent @ '' auto worker ('' @ runtimeID @ '')'', a_RuntimeID = runtimeID,
          a_DesktopThreadID = [], a_WorkDir = workDir, a_WorkspaceMode = wsmode workDir, a_WorktreeBaseRef = [],
          a_SessionBackend = ''structured'', a_SystemPrompt = [], a_ProviderTool = [], a_ProviderID = [],
          a_ProviderName = [], a_DefaultModel = [], a_DefaultReasoningEffort = [], a_DefaultServiceTier = [],
          a_DefaultApprovalMode =
            firstNonEmpty [sa_AutoWorkerApprovalMode agent, defaultAutoWorkerApproval lower runtimeID],
          a_MemoryScope = [], a_Env = ''null'', a_ChannelBindings = ''null'', a_Schedules = ''null'',
          a_MCPServers = ''null'', a_Skills = ''null'', a_CLIs = ''null'', a_Enabled = True,
          a_Source = autoWorkerAgentSource, a_OwnerTenantID = a_OwnerTenantID router,
          a_OwnerTenantName = a_OwnerTenantName router, a_Visibility = a_Visibility router, a_CreatedAt = createdAt,
          a_UpdatedAt = now, a_PrivateChatMode = [], a_GroupChatMode = []\<rparr>
      in if runtimeID = a_RuntimeID router
         then base\<lparr>a_SessionBackend := a_SessionBackend router, a_ProviderTool := a_ProviderTool router,
                a_ProviderID := a_ProviderID router, a_ProviderName := a_ProviderName router,
                a_DefaultModel := a_DefaultModel router, a_DefaultReasoningEffort := a_DefaultReasoningEffort router,
                a_DefaultServiceTier := a_DefaultServiceTier router, a_Env := a_Env router\<rparr>
         else base)"

definition launchAutoWorker ::
  "(string \<Rightarrow> string) \<Rightarrow> (SuperAgent \<Rightarrow> AgentInstance \<Rightarrow> string option) \<Rightarrow> (string \<Rightarrow> string) \<Rightarrow> gotime \<Rightarrow> SuperAgent \<Rightarrow> string \<Rightarrow>
   'a super_db_scheme \<Rightarrow> SuperAgentWorker service_result \<times> 'a super_db_scheme" where
  "launchAutoWorker lower workdir wsmode now agent runtimeID d =
     (if \<not> sa_AutoWorkers agent then (Inl (Because ''this Super Agent does not allow launching a worker''), d)
      else if runtimeID \<notin> set (sa_WorkerRuntimes agent)
      then (Inl (Because ''not one of this Super Agent's worker frameworks''), d)
      else case GetAgentInstance (sa_RouterAgentID agent) d of
        (None, d1) \<Rightarrow> (Inl (Failed DbError), d1)
      | (Some None, d1) \<Rightarrow> (Inl (Because ''router agent not found on this machine''), d1)
      | (Some (Some router), d1) \<Rightarrow>
          (case workdir agent router of
             None \<Rightarrow> (Inl (Because ''create auto worker directory''), d1)
           | Some dir \<Rightarrow>
               (case GetAgentInstance (autoWorkerAgentID (sa_ID agent) runtimeID) d1 of
                  (None, d2) \<Rightarrow> (Inl (Failed DbError), d2)
                | (Some existing, d2) \<Rightarrow>
                    let i = auto_instance lower wsmode now
                          (case existing of None \<Rightarrow> now | Some e \<Rightarrow> a_CreatedAt e) agent runtimeID dir router
                    in case UpsertAgentInstance i d2 of
                         (ok, d3) \<Rightarrow>
                           (if ok then Inr \<lparr>sw_ID = autoWorkerRosterID runtimeID, sw_Label = a_Name i, sw_HostID = [],
                                           sw_AgentID = a_ID i, sw_Capabilities = []\<rparr>
                            else Inl (Failed DbError), d3))))"

definition assignedWorker ::
  "(string \<Rightarrow> string) \<Rightarrow> (SuperAgent \<Rightarrow> AgentInstance \<Rightarrow> string option) \<Rightarrow> (string \<Rightarrow> string) \<Rightarrow> gotime \<Rightarrow> SuperAgent \<Rightarrow> string \<Rightarrow>
   'a super_db_scheme \<Rightarrow> SuperAgentWorker service_result \<times> 'a super_db_scheme" where
  "assignedWorker lower workdir wsmode now agent workerID d =
     (if has_prefix workerID (autoWorkerID @ '':'')
      then launchAutoWorker lower workdir wsmode now agent (trim_prefix workerID (autoWorkerID @ '':'')) d
      else case find (\<lambda>w. sw_ID w = workerID) (sa_Workers agent) of
        None \<Rightarrow> (Inl (Because ''router chose a worker which is not on the roster''), d)
      | Some worker \<Rightarrow> (Inr worker, d))"

definition owned_worker :: "string \<Rightarrow> AgentInstance \<Rightarrow> bool" where
  "owned_worker superAgentID a \<longleftrightarrow> IsManagedAgent a \<and>
     (a_ID a = ''saw_'' @ superAgentID \<or> a_ID a = autoWorkerAgentID superAgentID (a_RuntimeID a))"

fun delete_instances :: "AgentInstance list \<Rightarrow> 'a super_db_scheme \<Rightarrow> bool \<times> 'a super_db_scheme" where
  "delete_instances [] d = (True, d)"
| "delete_instances (a # as) d =
     (case DeleteAgentInstance (a_ID a) d of (False, d') \<Rightarrow> (False, d') | (True, d') \<Rightarrow> delete_instances as d')"

definition deleteAutoWorkers :: "string \<Rightarrow> 'a super_db_scheme \<Rightarrow> bool \<times> 'a super_db_scheme" where
  "deleteAutoWorkers superAgentID d =
     (case ListAgentInstances d of
        (None, d') \<Rightarrow> (False, d')
      | (Some instances, d') \<Rightarrow> delete_instances (filter (owned_worker superAgentID) instances) d')"

section \<open>Routers of one Super Agent each\<close>

text \<open>
  The loop of \<open>adoptRouters\<close> over the Super Agents in the order they were created; \<open>owners\<close> are the routers that already
  belong to one. \<open>homes\<close> gives the result of \<open>ensureHome\<close> for an identifier, \<open>uuids\<close> the identifiers drawn in turn. Errors
  are only logged.
\<close>

definition router_copy :: "gotime \<Rightarrow> string \<Rightarrow> SuperAgent \<Rightarrow> AgentInstance \<Rightarrow> AgentInstance" where
  "router_copy now uuid agent router = router\<lparr>a_ID := routerIDPrefix @ uuid, a_Name := routerName (sa_Name agent),
     a_WorkDir := [], a_Source := routerAgentSource, a_CreatedAt := now, a_UpdatedAt := now\<rparr>"

fun adopt_each ::
  "(string \<Rightarrow> string option) \<Rightarrow> (nat \<Rightarrow> string) \<Rightarrow> gotime \<Rightarrow> SuperAgent list \<Rightarrow> string list \<Rightarrow> nat \<Rightarrow>
   'a super_db_scheme \<Rightarrow> 'a super_db_scheme" where
  "adopt_each homes uuids now [] owners k d = d"
| "adopt_each homes uuids now (agent # rest) owners k d =
     (case GetAgentInstance (sa_RouterAgentID agent) d of
        (Some (Some router), d1) \<Rightarrow>
          if \<not> IsRouterAgent router then adopt_each homes uuids now rest owners k d1
          else if a_ID router \<notin> set owners then
            (case bindRouter (homes (sa_ID agent)) now agent d1 of
               (_, d2) \<Rightarrow> adopt_each homes uuids now rest (a_ID router # owners) k d2)
          else
            let copied = router_copy now (uuids k) agent router; agent' = agent\<lparr>sa_RouterAgentID := a_ID copied\<rparr>
            in (case UpsertAgentInstance copied d1 of
                  (False, d2) \<Rightarrow> adopt_each homes uuids now rest owners (Suc k) d2
                | (True, d2) \<Rightarrow>
                    (case UpsertSuperAgent agent' d2 of
                       (False, d3) \<Rightarrow> adopt_each homes uuids now rest owners (Suc k) d3
                     | (True, d3) \<Rightarrow>
                         (case bindRouter (homes (sa_ID agent)) now agent' d3 of
                            (_, d4) \<Rightarrow> adopt_each homes uuids now rest (a_ID copied # owners) (Suc k) d4)))
      | (_, d1) \<Rightarrow> adopt_each homes uuids now rest owners k d1)"

text \<open>Two stable sorts give the order by creation time and then by identifier.\<close>

definition adoptRouters ::
  "(string \<Rightarrow> string option) \<Rightarrow> (nat \<Rightarrow> string) \<Rightarrow> gotime \<Rightarrow> 'a super_db_scheme \<Rightarrow> 'a super_db_scheme" where
  "adoptRouters homes uuids now d =
     (case ListSuperAgents d of
        (None, d') \<Rightarrow> d'
      | (Some agents, d') \<Rightarrow>
          adopt_each homes uuids now (sort_key sa_CreatedAt (sort_key sa_ID agents)) [] 0 d')"

end
