(* ===== verification/Super_System.thy ===== *)
theory Super_System
  imports Super_Service
begin

text \<open>
  The running service as a transition system: the loop of \<open>Pass\<close>, one goroutine per evaluated event, one per turn of a
  worker, and the handlers that run beside them (superagent/service.go, superagent/config.go). A step is what happens
  between two points at which another goroutine may run: one statement, one critical section, or one call to the outside
  whose result is arbitrary. A crash may happen at any point and is followed by \<open>Start\<close>.

  Three fields record history: the identifiers drawn so far, the events that passed a gate with the source and the
  sender, and every ticket as it was created.
\<close>

section \<open>The goroutines\<close>

datatype pass =
    Resting
  | Counted nat
  | Considering nat "SuperAgentTrigger list" "string list"
  | Evaluated
  | Starting "SuperAgentTicket list"
  | Admitting SuperAgent string "SuperAgentTicket list"

datatype evaluation =
    Loading
  | Threading SuperAgent
  | Routing SuperAgent "SuperAgentTicket list"
  | Rescuing SuperAgent SuperAgentTicket string
  | Deciding SuperAgent "SuperAgentTicket list" routerDecision
  | Recording "SuperAgent option" string string string string
  | Replying
  | Leaving

datatype turn =
    Beginning
  | Working SuperAgentTicket nat
  | Returned SuperAgentTicket nat turn_result
  | Ending SuperAgentTicket nat turn_result
  | Answering SuperAgentTicket string string
  | Noting string
  | Closing

record system =
  tabs :: super_db
  svc :: service_state
  up :: bool
  ps :: pass
  evs :: "nat \<Rightarrow> (SuperAgentTrigger \<times> evaluation) option"
  tns :: "nat \<Rightarrow> (SuperAgent \<times> string \<times> turn) option"
  drawn :: "string set"
  admitted :: "(string \<times> SuperAgentSource option \<times> string) set"
  births :: "string \<rightharpoonup> SuperAgentTicket"

section \<open>The pass\<close>

definition eval_key :: "SuperAgentTrigger \<Rightarrow> string" where
  "eval_key t = sg_SuperAgentID t @ ''|'' @ sg_ThreadKey t"

definition not_yet :: "gotime \<Rightarrow> service_state \<Rightarrow> string \<Rightarrow> bool" where
  "not_yet now sv i = (case sv_notBefore sv i of None \<Rightarrow> False | Some t \<Rightarrow> now < t)"

text \<open>One round of the loop of \<open>evaluatePending\<close>: whether an evaluation starts.\<close>

definition eval_busy :: "gotime \<Rightarrow> nat \<Rightarrow> SuperAgentTrigger \<Rightarrow> service_state \<Rightarrow> bool" where
  "eval_busy now finished t sv \<longleftrightarrow>
     eval_key t \<in> set (sv_evaluating sv) \<or> sv_evaluations sv \<noteq> finished \<or>
     maxRouterEvals \<le> length (sv_evaluating sv) \<or> not_yet now sv (sg_ID t)"

definition consider_trigger ::
  "gotime \<Rightarrow> nat \<Rightarrow> SuperAgentTrigger \<Rightarrow> string list \<Rightarrow> service_state \<Rightarrow> bool \<times> string list \<times> service_state" where
  "consider_trigger now finished t blocked sv =
     (if eval_key t \<in> set blocked then (False, blocked, sv)
      else if eval_busy now finished t sv then (False, eval_key t # blocked, sv)
      else (True, eval_key t # blocked, sv\<lparr>sv_evaluating := eval_key t # sv_evaluating sv\<rparr>))"

text \<open>The deferred function of an evaluation.\<close>

definition leave_evaluation :: "SuperAgentTrigger \<Rightarrow> service_state \<Rightarrow> service_state" where
  "leave_evaluation t sv = notify (sv\<lparr>sv_evaluating := removeAll (eval_key t) (sv_evaluating sv),
     sv_evaluations := Suc (sv_evaluations sv)\<rparr>)"

text \<open>One round of the loop of \<open>startQueued\<close>: whether a turn starts.\<close>

definition active_runs :: "service_state \<Rightarrow> string \<Rightarrow> nat" where
  "active_runs sv agent = length (filter (\<lambda>k. has_prefix k (agent @ ''|'')) (sv_running sv))"

definition start_turn :: "gotime \<Rightarrow> SuperAgent \<Rightarrow> string \<Rightarrow> service_state \<Rightarrow> bool \<times> service_state" where
  "start_turn now agent i sv =
     (let key = run_key (sa_ID agent) i
      in if key \<in> set (sv_running sv) \<or> max (sa_MaxConcurrency agent) 1 \<le> int (active_runs sv (sa_ID agent)) \<or>
            not_yet now sv i
         then (False, sv) else (True, sv\<lparr>sv_running := key # sv_running sv\<rparr>))"

definition close_turn :: "SuperAgent \<Rightarrow> string \<Rightarrow> service_state \<Rightarrow> service_state" where
  "close_turn agent i sv = notify (sv\<lparr>sv_running := removeAll (run_key (sa_ID agent) i) (sv_running sv),
     sv_stopping := removeAll i (sv_stopping sv)\<rparr>)"

section \<open>Evaluation\<close>

text \<open>\<open>evaluate\<close> after it read the Super Agent and its worker frameworks.\<close>

definition after_agent :: "SuperAgent option option \<Rightarrow> evaluation" where
  "after_agent r = (case r of
       None \<Rightarrow> Leaving
     | Some None \<Rightarrow> Recording None ''failed'' ''super agent was deleted'' [] []
     | Some (Some agent) \<Rightarrow>
         if \<not> sa_Enabled agent then Recording None ''filtered'' ''super agent is disabled'' [] [] else Threading agent)"

definition load_agent :: "SuperAgentTrigger \<Rightarrow> super_db \<Rightarrow> evaluation \<times> super_db" where
  "load_agent t d =
     (case GetSuperAgent (sg_SuperAgentID t) d of
        (r, d1) \<Rightarrow> (case after_agent r of
             Threading agent \<Rightarrow> (case withWorkerRuntimes agent d1 of (agent', d2) \<Rightarrow> (Threading agent', d2))
           | e \<Rightarrow> (e, d1)))"

definition after_threads :: "SuperAgent \<Rightarrow> SuperAgentTicket list option \<Rightarrow> evaluation" where
  "after_threads agent r = (case r of None \<Rightarrow> Leaving | Some tickets \<Rightarrow> Routing agent tickets)"

text \<open>
  \<open>route\<close> checks the router again and then asks it: \<open>answer\<close> is what the call of the router and the decoding of its
  answer yield.
\<close>

definition route_event ::
  "(super_error \<Rightarrow> string) \<Rightarrow> SuperAgent \<Rightarrow> string + routerDecision \<Rightarrow> super_db \<Rightarrow> (string + routerDecision) \<times> super_db" where
  "route_event text agent answer d =
     (case validateRouter (sa_RouterAgentID agent) (sa_RouterAgentID agent) d of
        (Inl e, d') \<Rightarrow> (Inl (text e), d')
      | (Inr _, d') \<Rightarrow> (case answer of Inl e \<Rightarrow> Inl e
          | Inr r \<Rightarrow> if validateDecision r = None then Inr r else Inl ''router returned an invalid decision'', d'))"

definition router_gone :: string where
  "router_gone = ''I could not process this request because my router is unavailable. Please try again later.''"

definition router_wrong :: string where
  "router_wrong = ''I could not process this request because my router chose something I cannot carry out. Please try again, or ask the operator to check this Super Agent.''"

definition router_failed :: "SuperAgent \<Rightarrow> string \<Rightarrow> evaluation" where
  "router_failed agent cause = Recording (Some agent) ''failed'' (''router failed: '' @ cause) []
     (if sa_Mode agent = ''act'' then router_gone else [])"

text \<open>\<open>routerFailed\<close>: the retry, or what becomes of the event when the attempts are used up.\<close>

definition routerFailed ::
  "gotime \<Rightarrow> SuperAgent \<Rightarrow> SuperAgentTrigger \<Rightarrow> SuperAgentTicket list \<Rightarrow> string \<Rightarrow> service_state \<Rightarrow> evaluation \<times> service_state" where
  "routerFailed now agent t tickets cause sv =
     (let tries = Suc (case sv_routerAttempts sv (sg_ID t) of None \<Rightarrow> 0 | Some n \<Rightarrow> n)
      in if tries < maxRouterAttempts
         then (Leaving, sv\<lparr>sv_routerAttempts := (sv_routerAttempts sv)(sg_ID t \<mapsto> tries),
                         sv_notBefore := (sv_notBefore sv)(sg_ID t \<mapsto> now + retryDelay)\<rparr>)
         else (case latestLiveTicket tickets of
                 Some live \<Rightarrow> if sa_Mode agent = ''act'' then Rescuing agent live cause else router_failed agent cause
               | None \<Rightarrow> router_failed agent cause,
               sv\<lparr>sv_routerAttempts := (sv_routerAttempts sv)(sg_ID t := None),
                  sv_notBefore := (sv_notBefore sv)(sg_ID t := None)\<rparr>))"

definition after_route ::
  "(string \<Rightarrow> string) \<Rightarrow> SuperAgent \<Rightarrow> SuperAgentTrigger \<Rightarrow> SuperAgentTicket list \<Rightarrow> routerDecision \<Rightarrow> service_state \<Rightarrow>
   evaluation \<times> service_state" where
  "after_route quote agent t tickets r sv =
     (if sa_Mode agent = ''observe'' then Recording (Some agent) ''observed'' (summary quote r) [] []
      else Deciding agent tickets r,
      sv\<lparr>sv_routerAttempts := (sv_routerAttempts sv)(sg_ID t := None),
         sv_notBefore := (sv_notBefore sv)(sg_ID t := None)\<rparr>)"

definition routed ::
  "outside \<Rightarrow> gotime \<Rightarrow> SuperAgent \<Rightarrow> SuperAgentTrigger \<Rightarrow> SuperAgentTicket list \<Rightarrow> string + routerDecision \<Rightarrow> service_state \<Rightarrow>
   evaluation \<times> service_state" where
  "routed ot now agent t tickets outcome sv =
     (case outcome of Inl cause \<Rightarrow> routerFailed now agent t tickets cause sv
      | Inr r \<Rightarrow> after_route (ot_quote ot) agent t tickets r sv)"

definition after_rescue :: "SuperAgent \<Rightarrow> SuperAgentTicket \<Rightarrow> string \<Rightarrow> unit service_result \<Rightarrow> evaluation" where
  "after_rescue agent live cause r = (case r of
       Inr _ \<Rightarrow> Recording None ''follow_up'' ''router unavailable; delivered to the thread's ticket'' (ti_ID live) []
     | Inl _ \<Rightarrow> router_failed agent cause)"

definition after_apply ::
  "outside \<Rightarrow> SuperAgent \<Rightarrow> routerDecision \<Rightarrow> (string \<times> string \<times> string) service_result \<Rightarrow> evaluation" where
  "after_apply ot agent r outcome = (case outcome of
       Inr (disposition, reason, i) \<Rightarrow> Recording (Some agent) disposition reason i (rd_Reply r)
     | Inl e \<Rightarrow> Recording (Some agent) ''failed'' (ot_text ot e) [] router_wrong)"

section \<open>Turns\<close>

definition after_begin_turn :: "(nat \<times> SuperAgentTicket) service_result \<Rightarrow> turn" where
  "after_begin_turn r = (case r of Inl _ \<Rightarrow> Closing | Inr (n, t) \<Rightarrow> Working t n)"

definition after_end :: "SuperAgentTicket \<Rightarrow> turn_end service_result \<Rightarrow> turn" where
  "after_end t r = (case r of
       Inl _ \<Rightarrow> Closing
     | Inr e \<Rightarrow> if is_zero (te_finished e) \<or> trim_space (te_reply e) = [] then Closing
               else Answering t (te_replyTo e) (te_reply e))"

text \<open>\<open>Delete\<close> marks the turns of the Super Agent and cancels them.\<close>

definition mark_deleted :: "string \<Rightarrow> service_state \<Rightarrow> service_state" where
  "mark_deleted i sv = sv\<lparr>sv_stopping :=
     map (\<lambda>k. trim_prefix k (i @ ''|'')) (filter (\<lambda>k. has_prefix k (i @ ''|'')) (sv_running sv)) @ sv_stopping sv\<rparr>"

section \<open>Steps\<close>

text \<open>What may run between the two statements of a change of a ticket.\<close>

definition gap :: "(super_db \<Rightarrow> super_db) \<Rightarrow> bool" where
  "gap between \<longleftrightarrow> between = id \<or> (\<exists>i. between = (\<lambda>d. snd (DeleteSuperAgent i d)))"

definition other_tables :: "super_db \<Rightarrow> super_db \<Rightarrow> bool" where
  "other_tables d d' \<longleftrightarrow> agent_triggers d' = agent_triggers d \<and> agent_tickets d' = agent_tickets d \<and>
     super_agents d' = super_agents d \<and> time_key d' = time_key d \<and> text_key d' = text_key d"

text \<open>The ticket a decision created, as the code created it.\<close>

definition note_birth ::
  "(string \<times> string \<times> string) service_result \<Rightarrow> super_db \<Rightarrow> (string \<rightharpoonup> SuperAgentTicket) \<Rightarrow> (string \<rightharpoonup> SuperAgentTicket)" where
  "note_birth r d b = (case r of
       Inr (disposition, _, i) \<Rightarrow>
         if disposition = ''accepted'' then b(i := map_option kr_data (table_find kr_id i (agent_tickets d))) else b
     | Inl _ \<Rightarrow> b)"

inductive sa_step ::
  "outside \<Rightarrow> (string \<Rightarrow> string \<Rightarrow> bool) \<Rightarrow> system \<Rightarrow> system \<Rightarrow> bool"
  for ot :: outside and eqf :: "string \<Rightarrow> string \<Rightarrow> bool" where
  count: "up s \<Longrightarrow> ps s = Resting \<Longrightarrow> sa_step ot eqf s (s\<lparr>ps := Counted (sv_evaluations (svc s))\<rparr>)"
| list_pending: "ps s = Counted n \<Longrightarrow> ListPendingSuperAgentTriggers pendingBatchSize (tabs s) = (r, d') \<Longrightarrow>
    sa_step ot eqf s (s\<lparr>tabs := d', ps := (case r of None \<Rightarrow> Evaluated | Some ts \<Rightarrow> Considering n ts [])\<rparr>)"
| skip: "ps s = Considering n (t # ts) blocked \<Longrightarrow> consider_trigger now n t blocked (svc s) = (False, blocked', sv') \<Longrightarrow>
    sa_step ot eqf s (s\<lparr>svc := sv', ps := Considering n ts blocked'\<rparr>)"
| spawn: "ps s = Considering n (t # ts) blocked \<Longrightarrow> consider_trigger now n t blocked (svc s) = (True, blocked', sv') \<Longrightarrow>
    evs s k = None \<Longrightarrow>
    sa_step ot eqf s (s\<lparr>svc := sv', ps := Considering n ts blocked', evs := (evs s)(k \<mapsto> (t, Loading))\<rparr>)"
| considered: "ps s = Considering n [] blocked \<Longrightarrow> sa_step ot eqf s (s\<lparr>ps := Evaluated\<rparr>)"
| list_queued: "ps s = Evaluated \<Longrightarrow> ListSuperAgentTicketsByStatus [''queued''] (tabs s) = (r, d') \<Longrightarrow>
    sa_step ot eqf s (s\<lparr>tabs := d', ps := (case r of None \<Rightarrow> Resting | Some ts \<Rightarrow> Starting ts)\<rparr>)"
| find_agent: "ps s = Starting (t # ts) \<Longrightarrow> GetSuperAgent (ti_SuperAgentID t) (tabs s) = (r, d') \<Longrightarrow>
    sa_step ot eqf s (s\<lparr>tabs := d', ps := (case r of None \<Rightarrow> Resting
      | Some None \<Rightarrow> Starting ts
      | Some (Some agent) \<Rightarrow> if \<not> sa_Enabled agent then Starting ts else Admitting agent (ti_ID t) ts)\<rparr>)"
| refuse: "ps s = Admitting agent i ts \<Longrightarrow> start_turn now agent i (svc s) = (False, sv') \<Longrightarrow>
    sa_step ot eqf s (s\<lparr>svc := sv', ps := Starting ts\<rparr>)"
| admit: "ps s = Admitting agent i ts \<Longrightarrow> start_turn now agent i (svc s) = (True, sv') \<Longrightarrow> tns s k = None \<Longrightarrow>
    sa_step ot eqf s (s\<lparr>svc := sv', ps := Starting ts, tns := (tns s)(k \<mapsto> (agent, i, Beginning))\<rparr>)"
| started: "ps s = Starting [] \<Longrightarrow> sa_step ot eqf s (s\<lparr>ps := Resting\<rparr>)"
| load: "evs s k = Some (t, Loading) \<Longrightarrow> load_agent t (tabs s) = (e, d') \<Longrightarrow>
    sa_step ot eqf s (s\<lparr>tabs := d', evs := (evs s)(k \<mapsto> (t, e))\<rparr>)"
| threads: "evs s k = Some (t, Threading agent) \<Longrightarrow>
    ListSuperAgentThreadTickets (sa_ID agent) (sg_ThreadKey t) (tabs s) = (r, d') \<Longrightarrow>
    sa_step ot eqf s (s\<lparr>tabs := d', evs := (evs s)(k \<mapsto> (t, after_threads agent r))\<rparr>)"
| ask: "evs s k = Some (t, Routing agent tickets) \<Longrightarrow> route_event (ot_text ot) agent answer (tabs s) = (outcome, d') \<Longrightarrow>
    routed ot now agent t tickets outcome (svc s) = (e, sv') \<Longrightarrow>
    sa_step ot eqf s (s\<lparr>tabs := d', svc := sv', evs := (evs s)(k \<mapsto> (t, e))\<rparr>)"
| rescue: "evs s k = Some (t, Rescuing agent live cause) \<Longrightarrow> gap between \<Longrightarrow>
    attach between now (ti_ID live) t [] (svc s) (tabs s) = (r, sv', d') \<Longrightarrow>
    sa_step ot eqf s (s\<lparr>tabs := d', svc := sv', evs := (evs s)(k \<mapsto> (t, after_rescue agent live cause r))\<rparr>)"
| decide: "evs s k = Some (t, Deciding agent tickets decision) \<Longrightarrow> gap between \<Longrightarrow> uuid \<notin> drawn s \<Longrightarrow> CHR ''|'' \<notin> set uuid \<Longrightarrow>
    apply_decision ot between uuid now agent t tickets decision (svc s) (tabs s) = (r, sv', d') \<Longrightarrow>
    sa_step ot eqf s (s\<lparr>tabs := d', svc := sv', evs := (evs s)(k \<mapsto> (t, after_apply ot agent decision r)),
      drawn := insert uuid (drawn s), births := note_birth r d' (births s)\<rparr>)"
| conclude: "evs s k = Some (t, Recording agent disposition reason i reply) \<Longrightarrow>
    finishTrigger now t disposition reason i (svc s) (tabs s) = (sv', d') \<Longrightarrow>
    sa_step ot eqf s (s\<lparr>tabs := d', svc := sv', evs := (evs s)(k \<mapsto> (t, Replying))\<rparr>)"
| reply: "evs s k = Some (t, Replying) \<Longrightarrow> sa_step ot eqf s (s\<lparr>evs := (evs s)(k \<mapsto> (t, Leaving))\<rparr>)"
| leave: "evs s k = Some (t, Leaving) \<Longrightarrow>
    sa_step ot eqf s (s\<lparr>svc := leave_evaluation t (svc s), evs := (evs s)(k := None)\<rparr>)"
| begin_turn: "tns s k = Some (agent, i, Beginning) \<Longrightarrow> gap between \<Longrightarrow>
    mutateTicket between now i (begin_change now) (svc s) (tabs s) = (r, sv', d') \<Longrightarrow>
    sa_step ot eqf s (s\<lparr>tabs := d', svc := sv', tns := (tns s)(k \<mapsto> (agent, i, after_begin_turn r))\<rparr>)"
| work: "tns s k = Some (agent, i, Working t n) \<Longrightarrow>
    sa_step ot eqf s (s\<lparr>tns := (tns s)(k \<mapsto> (agent, i, Returned t n result))\<rparr>)"
| look: "tns s k = Some (agent, i, Returned t n result) \<Longrightarrow>
    sa_step ot eqf s (s\<lparr>tns := (tns s)(k \<mapsto> (agent, i, if i \<in> set (sv_stopping (svc s)) then Closing else Ending t n result))\<rparr>)"
| end_turn: "tns s k = Some (agent, i, Ending t n result) \<Longrightarrow> gap between \<Longrightarrow>
    mutateTicket between now i (end_change now t n result) (svc s) (tabs s) = (r2, sv', d') \<Longrightarrow>
    sa_step ot eqf s (s\<lparr>tabs := d', svc := sv', tns := (tns s)(k \<mapsto> (agent, i, after_end t r2))\<rparr>)"
| answer: "tns s k = Some (agent, i, Answering t target text) \<Longrightarrow>
    sa_step ot eqf s (s\<lparr>tns := (tns s)(k \<mapsto> (agent, i, case err of None \<Rightarrow> Closing
      | Some e \<Rightarrow> if sendReply agent (ti_SourceID t) target text = None then Closing else Noting e))\<rparr>)"
| note_error: "tns s k = Some (agent, i, Noting message) \<Longrightarrow> gap between \<Longrightarrow>
    mutateTicket between now i (reply_error_change message) (svc s) (tabs s) = (r3, sv', d') \<Longrightarrow>
    sa_step ot eqf s (s\<lparr>tabs := d', svc := sv', tns := (tns s)(k \<mapsto> (agent, i, Closing))\<rparr>)"
| close: "tns s k = Some (agent, i, Closing) \<Longrightarrow>
    sa_step ot eqf s (s\<lparr>svc := close_turn agent i (svc s), tns := (tns s)(k := None)\<rparr>)"
| ingest: "up s \<Longrightarrow> uuid \<notin> drawn s \<Longrightarrow> Ingest eqf uuid now agent source trigger (svc s) (tabs s) = (r4, sv', d') \<Longrightarrow>
    sa_step ot eqf s (s\<lparr>tabs := d', svc := sv', drawn := insert uuid (drawn s),
      admitted := (if so_Enabled source \<and> actorAllowed eqf source (sg_Actor trigger)
        then insert (''sat_'' @ uuid, Some source, sg_Actor trigger) (admitted s) else admitted s)\<rparr>)"
| manual: "up s \<Longrightarrow> uuid \<notin> drawn s \<Longrightarrow> TriggerManually uuid now i text (svc s) (tabs s) = (r5, sv', d') \<Longrightarrow>
    sa_step ot eqf s (s\<lparr>tabs := d', svc := sv', drawn := insert uuid (drawn s),
      admitted := insert (''sat_'' @ uuid, None, ''console'') (admitted s)\<rparr>)"
| stop: "up s \<Longrightarrow> gap between \<Longrightarrow> StopTicket between now i (svc s) (tabs s) = (r3, sv', d') \<Longrightarrow>
    sa_step ot eqf s (s\<lparr>tabs := d', svc := sv'\<rparr>)"
| retry: "up s \<Longrightarrow> gap between \<Longrightarrow> RetryTicket between now i (svc s) (tabs s) = (r3, sv', d') \<Longrightarrow>
    sa_step ot eqf s (s\<lparr>tabs := d', svc := sv'\<rparr>)"
| configure: "up s \<Longrightarrow> UpsertSuperAgent a (tabs s) = (ok, d') \<Longrightarrow> sa_step ot eqf s (s\<lparr>tabs := d'\<rparr>)"
| refresh: "up s \<Longrightarrow> refreshClaims (svc s) (tabs s) = (r3, sv', d') \<Longrightarrow> sa_step ot eqf s (s\<lparr>tabs := d', svc := sv'\<rparr>)"
| mark: "up s \<Longrightarrow> sa_step ot eqf s (s\<lparr>svc := mark_deleted i (svc s)\<rparr>)"
| delete: "up s \<Longrightarrow> DeleteSuperAgent i (tabs s) = (ok, d') \<Longrightarrow> sa_step ot eqf s (s\<lparr>tabs := d'\<rparr>)"
| other: "other_tables (tabs s) d' \<Longrightarrow>
    sa_step ot eqf s (s\<lparr>tabs := d', svc := (svc s)\<lparr>sv_health := h, sv_wake := w\<rparr>\<rparr>)"
| crash: "Start_service homes uuids now (tabs s) = (ok, sv', d') \<Longrightarrow>
    sa_step ot eqf s (s\<lparr>tabs := d', svc := sv', up := ok, ps := Resting, evs := (\<lambda>_. None), tns := (\<lambda>_. None)\<rparr>)"

definition sa_init :: "system \<Rightarrow> bool" where
  "sa_init s \<longleftrightarrow> super_agents (tabs s) = [] \<and> agent_triggers (tabs s) = [] \<and> agent_tickets (tabs s) = [] \<and>
     svc s = fresh_service \<and> ps s = Resting \<and> evs s = (\<lambda>_. None) \<and> tns s = (\<lambda>_. None) \<and> drawn s = {} \<and>
     admitted s = {} \<and> births s = Map.empty"

inductive sa_reach :: "outside \<Rightarrow> (string \<Rightarrow> string \<Rightarrow> bool) \<Rightarrow> system \<Rightarrow> bool" for ot eqf where
  init: "sa_init s \<Longrightarrow> sa_reach ot eqf s"
| step: "sa_reach ot eqf s \<Longrightarrow> sa_step ot eqf s s' \<Longrightarrow> sa_reach ot eqf s'"

end
