(* ===== verification/Super_Safety.thy ===== *)
theory Super_Safety
  imports Super_System
begin

text \<open>
  What the operations on triggers and tickets do to the tables, and the rows that stay consistent under them.
\<close>

section \<open>Effects on the tables\<close>

text \<open>Nothing of the Super Agents changes.\<close>

definition same_super :: "super_db \<Rightarrow> super_db \<Rightarrow> bool" where
  "same_super d d' \<longleftrightarrow> agent_triggers d' = agent_triggers d \<and> agent_tickets d' = agent_tickets d \<and>
     super_agents d' = super_agents d"

text \<open>At most a Super Agent is deleted.\<close>

definition pruned :: "super_db \<Rightarrow> super_db \<Rightarrow> bool" where
  "pruned d d' \<longleftrightarrow> set (agent_triggers d') \<subseteq> set (agent_triggers d) \<and> set (agent_tickets d') \<subseteq> set (agent_tickets d) \<and>
     set (super_agents d') \<subseteq> set (super_agents d) \<and>
     (distinct (map yr_id (agent_triggers d)) \<longrightarrow> distinct (map yr_id (agent_triggers d'))) \<and>
     (distinct (map kr_id (agent_tickets d)) \<longrightarrow> distinct (map kr_id (agent_tickets d')))"

lemma same_super_refl [simp]: "same_super d d"
  by (simp add: same_super_def)

lemma same_super_trans: "same_super d d' \<Longrightarrow> same_super d' d'' \<Longrightarrow> same_super d d''"
  by (simp add: same_super_def)

lemma same_super_tick [simp]: "same_super d (d\<lparr>tick := n\<rparr>)"
  by (simp add: same_super_def)

lemma pruned_same: "same_super d d' \<Longrightarrow> pruned d d'"
  by (simp add: same_super_def pruned_def)

lemma pruned_trans: "pruned d d' \<Longrightarrow> pruned d' d'' \<Longrightarrow> pruned d d''"
  unfolding pruned_def by blast

lemma query_same: "sql_query f d = (r, d') \<Longrightarrow> same_super d d'"
  by (auto simp: sql_query_def Let_def split: if_splits)

lemma distinct_map_filter_key: "distinct (map f xs) \<Longrightarrow> distinct (map f (filter P xs))"
  by (simp add: distinct_map inj_on_def)

lemma DeleteSuperAgent_pruned:
  assumes "DeleteSuperAgent i d = (ok, d')"
  shows "pruned d d'"
proof (cases ok)
  case False
  with assms have "\<exists>n. d' = d\<lparr>tick := n\<rparr>" unfolding DeleteSuperAgent_def by (intro sql_tx_atomic) simp
  then show ?thesis by (auto intro: pruned_same)
next
  case True
  with assms show ?thesis
    by (auto simp: DeleteSuperAgent_def sql_tx_def sql_exec_def Let_def pruned_def distinct_map_filter_key
        split: prod.splits bool.splits if_splits option.splits)
qed

lemma gap_pruned: "gap between \<Longrightarrow> pruned d (between d)"
  unfolding gap_def using DeleteSuperAgent_pruned pruned_same [OF same_super_refl] by (metis id_apply prod.collapse)

lemma GetSuperAgent_same: "GetSuperAgent i d = (r, d') \<Longrightarrow> same_super d d'"
  unfolding GetSuperAgent_def by (rule query_same)

lemma GetSuperAgentTicket_same: "GetSuperAgentTicket i d = (r, d') \<Longrightarrow> same_super d d'"
  unfolding GetSuperAgentTicket_def by (rule query_same)

lemma GetAgentInstance_same: "GetAgentInstance i d = (r, d') \<Longrightarrow> same_super d d'"
  unfolding GetAgentInstance_def by (rule query_same)

lemma ListSuperAgents_same: "ListSuperAgents d = (r, d') \<Longrightarrow> same_super d d'"
  unfolding ListSuperAgents_def by (rule query_same)

lemma ListThread_same: "ListSuperAgentThreadTickets i t d = (r, d') \<Longrightarrow> same_super d d'"
  unfolding ListSuperAgentThreadTickets_def by (rule query_same)

lemma ListPending_same: "ListPendingSuperAgentTriggers n d = (r, d') \<Longrightarrow> same_super d d'"
  unfolding ListPendingSuperAgentTriggers_def by (rule query_same)

lemma ListByStatus_same: "ListSuperAgentTicketsByStatus ss d = (r, d') \<Longrightarrow> same_super d d'"
proof (induction ss arbitrary: d r)
  case (Cons s ss)
  then show ?case
    by (auto split: prod.splits option.splits dest!: query_same intro: same_super_trans)
qed simp

lemma UpsertAgentInstance_same: "UpsertAgentInstance a d = (ok, d') \<Longrightarrow> same_super d d'"
  by (auto simp: UpsertAgentInstance_def sql_exec_def Let_def same_super_def split: if_splits)

lemma withWorkerRuntimes_same: "withWorkerRuntimes a d = (a', d') \<Longrightarrow> same_super d d' \<and> sa_ID a' = sa_ID a \<and> sa_Mode a' = sa_Mode a"
  by (auto simp: withWorkerRuntimes_def split: if_splits prod.splits option.splits dest: GetAgentInstance_same)

lemma launchAutoWorker_same: "launchAutoWorker l w m now a i d = (r, d') \<Longrightarrow> same_super d d'"
  by (auto simp: launchAutoWorker_def Let_def split: if_splits prod.splits option.splits
      dest!: GetAgentInstance_same UpsertAgentInstance_same intro: same_super_trans)

lemma assignedWorker_same: "assignedWorker l w m now a i d = (r, d') \<Longrightarrow> same_super d d'"
  by (auto simp: assignedWorker_def split: if_splits option.splits dest: launchAutoWorker_same)

lemma validateRouter_same: "validateRouter i c d = (r, d') \<Longrightarrow> same_super d d'"
  by (auto simp: validateRouter_def split: if_splits prod.splits option.splits dest: GetAgentInstance_same)

lemma route_same: "route_event tx a ans d = (r, d') \<Longrightarrow> same_super d d'"
  by (auto simp: route_event_def split: prod.splits sum.splits if_splits dest: validateRouter_same)

lemma load_agent_same: "load_agent t d = (e, d') \<Longrightarrow> same_super d d'"
  by (auto simp: load_agent_def split: prod.splits evaluation.splits
      dest!: GetSuperAgent_same withWorkerRuntimes_same intro: same_super_trans)

section \<open>Rows\<close>

definition trigger_ok :: "trigger_row \<Rightarrow> bool" where
  "trigger_ok r \<longleftrightarrow> sg_ID (yr_data r) = yr_id r \<and> sg_SuperAgentID (yr_data r) = yr_agent r \<and>
     sg_ThreadKey (yr_data r) = yr_thread r \<and> sg_Disposition (yr_data r) = yr_disposition r"

definition ticket_ok :: "ticket_row \<Rightarrow> bool" where
  "ticket_ok r \<longleftrightarrow> ti_ID (kr_data r) = kr_id r \<and> ti_SuperAgentID (kr_data r) = kr_agent r \<and>
     ti_ThreadKey (kr_data r) = kr_thread r \<and> ti_Status (kr_data r) = kr_status r"

definition super_ok :: "super_row \<Rightarrow> bool" where
  "super_ok r \<longleftrightarrow> sa_ID (gr_data r) = gr_id r"

definition tables_ok :: "super_db \<Rightarrow> bool" where
  "tables_ok d \<longleftrightarrow> distinct (map yr_id (agent_triggers d)) \<and> distinct (map kr_id (agent_tickets d)) \<and>
     (\<forall>r\<in>set (agent_triggers d). trigger_ok r) \<and> (\<forall>r\<in>set (agent_tickets d). ticket_ok r) \<and>
     (\<forall>r\<in>set (super_agents d). super_ok r)"

lemma tables_ok_pruned: "pruned d d' \<Longrightarrow> tables_ok d \<Longrightarrow> tables_ok d'"
  unfolding pruned_def tables_ok_def by blast

text \<open>How one ticket becomes another without losing what it was created with.\<close>

definition same_birth :: "SuperAgentTicket \<Rightarrow> SuperAgentTicket \<Rightarrow> bool" where
  "same_birth t t' \<longleftrightarrow> ti_ID t' = ti_ID t \<and> ti_SuperAgentID t' = ti_SuperAgentID t \<and> ti_ThreadKey t' = ti_ThreadKey t \<and>
     ti_TriggerID t' = ti_TriggerID t \<and> ti_Actor t' = ti_Actor t \<and> ti_Worker t' = ti_Worker t \<and>
     ti_SourceID t' = ti_SourceID t"

lemma same_birth_refl [simp]: "same_birth t t"
  by (simp add: same_birth_def)

lemma same_birth_trans: "same_birth a b \<Longrightarrow> same_birth b c \<Longrightarrow> same_birth a c"
  by (simp add: same_birth_def)

text \<open>The rows after a write of a ticket: the others as before, and its own.\<close>

definition written :: "super_db \<Rightarrow> SuperAgentTicket \<Rightarrow> super_db \<Rightarrow> bool" where
  "written d t d' \<longleftrightarrow> set (agent_triggers d') \<subseteq> set (agent_triggers d) \<and> set (super_agents d') \<subseteq> set (super_agents d) \<and>
     (\<exists>r. r \<in> set (agent_tickets d') \<and> kr_id r = ti_ID t \<and> kr_data r = t) \<and>
     (\<forall>r\<in>set (agent_tickets d'). r \<in> set (agent_tickets d) \<and> kr_id r \<noteq> ti_ID t \<or> kr_id r = ti_ID t \<and> kr_data r = t)"

lemma upsert_ticket_written:
  assumes "UpsertSuperAgentTicket t d = (True, d')" "tables_ok d"
    and "\<And>r. r \<in> set (agent_tickets d) \<Longrightarrow> kr_id r = ti_ID t \<Longrightarrow> kr_agent r = ti_SuperAgentID t \<and> kr_thread r = ti_ThreadKey t"
  shows "written d t d' \<and> tables_ok d' \<and> agent_triggers d' = agent_triggers d \<and> super_agents d' = super_agents d"
proof -
  let ?row = "ticket_row_of t"
  let ?rows = "table_upsert kr_id merge_ticket_row ?row (agent_tickets d)"
  have d': "agent_tickets d' = ?rows" "agent_triggers d' = agent_triggers d" "super_agents d' = super_agents d"
    using assms(1) by (auto simp: UpsertSuperAgentTicket_def sql_exec_def Let_def split: if_splits)
  have rows: "r \<in> set (agent_tickets d) \<and> kr_id r \<noteq> ti_ID t \<or> kr_id r = ti_ID t \<and> kr_data r = t \<and> ticket_ok r"
    if "r \<in> set ?rows" for r
    using that assms(2,3)
    by (auto simp: table_upsert_def ticket_row_of_def merge_ticket_row_def ticket_ok_def tables_ok_def list_ex_iff split: if_splits)
  moreover have "distinct (map kr_id ?rows)"
    using assms(2) ticket_tab.upsert_distinct unfolding tables_ok_def by blast
  moreover have "\<exists>r. r \<in> set ?rows \<and> kr_id r = ti_ID t \<and> kr_data r = t"
  proof (cases "list_ex (\<lambda>q. kr_id q = ti_ID t) (agent_tickets d)")
    case True
    then obtain q where "q \<in> set (agent_tickets d)" "kr_id q = ti_ID t" by (auto simp: list_ex_iff)
    with True show ?thesis
      by (intro exI [where x = "merge_ticket_row ?row q"])
         (force simp: table_upsert_def merge_ticket_row_def ticket_row_of_def)
  next
    case False
    then have "?row \<in> set ?rows" by (simp add: table_upsert_def ticket_row_of_def)
    then show ?thesis by (rule_tac x = ?row in exI) (simp add: ticket_row_of_def)
  qed
  ultimately show ?thesis using assms(2) unfolding written_def tables_ok_def d' by blast
qed

lemma upsert_ticket_failed: "UpsertSuperAgentTicket t d = (False, d') \<Longrightarrow> same_super d d'"
  by (auto simp: UpsertSuperAgentTicket_def sql_exec_def Let_def split: if_splits)

section \<open>Changes of tickets\<close>

text \<open>The part of the memory that says which goroutines there are.\<close>

definition core :: "service_state \<Rightarrow> string list \<times> string list \<times> nat" where
  "core sv = (sv_running sv, sv_evaluating sv, sv_evaluations sv)"

lemma core_simps [simp]:
  "core (notify sv) = core sv" "core (sv\<lparr>sv_notBefore := b\<rparr>) = core sv" "core (sv\<lparr>sv_stopping := c\<rparr>) = core sv"
  "core (sv\<lparr>sv_routerAttempts := a, sv_notBefore := b\<rparr>) = core sv" "core (sv\<lparr>sv_health := e, sv_wake := w\<rparr>) = core sv"
  "core (sv\<lparr>sv_health := e\<rparr>) = core sv" "core (sv\<lparr>sv_claims := g\<rparr>) = core sv"
  by (simp_all add: core_def notify_def)

text \<open>A change keeps what the ticket was created with and starts no goroutine.\<close>

definition change_ok :: "'x ticket_change \<Rightarrow> bool" where
  "change_ok f \<longleftrightarrow> (\<forall>t sv r sv'. f t sv = (r, sv') \<longrightarrow> core sv' = core sv \<and>
     (\<forall>t' x. r = Inr (t', x) \<longrightarrow> same_birth t t'))"

lemma attach_change_ok: "change_ok (attach_change trigger note)"
  by (auto simp: change_ok_def attach_change_def Let_def same_birth_def split: if_splits)

lemma retry_change_ok: "change_ok retry_change"
  by (auto simp: change_ok_def retry_change_def same_birth_def split: if_splits)

lemma begin_change_ok: "change_ok (begin_change now)"
  by (auto simp: change_ok_def begin_change_def Let_def same_birth_def split: if_splits)

lemma reply_error_change_ok: "change_ok (reply_error_change m)"
  by (auto simp: change_ok_def reply_error_change_def same_birth_def)

lemma end_change_ok: "change_ok (end_change now t n result)"
  unfolding change_ok_def
  by (cases result) (auto simp: end_change_def Let_def same_birth_def split: if_splits)

lemma written_mono:
  assumes "pruned d d0" "written d0 t d'"
  shows "written d t d'"
proof -
  have "set (agent_tickets d0) \<subseteq> set (agent_tickets d)" "set (agent_triggers d0) \<subseteq> set (agent_triggers d)"
    "set (super_agents d0) \<subseteq> set (super_agents d)" using assms(1) by (simp_all add: pruned_def)
  with assms(2) show ?thesis unfolding written_def by (meson subset_iff)
qed

lemma tables_ok_same: "same_super d d' \<Longrightarrow> tables_ok d \<Longrightarrow> tables_ok d'"
  using tables_ok_pruned pruned_same by blast

lemma find_ticket:
  "GetSuperAgentTicket i d = (Some (Some t), d') \<Longrightarrow> \<exists>r\<in>set (agent_tickets d). kr_id r = i \<and> kr_data r = t"
  by (cases "find (\<lambda>r. kr_id r = i) (agent_tickets d)")
    (auto simp: GetSuperAgentTicket_def table_find_def dest!: sql_query_SomeD dest: find_Some_in)

lemma ticket_key_unique:
  "tables_ok d \<Longrightarrow> r \<in> set (agent_tickets d) \<Longrightarrow> q \<in> set (agent_tickets d) \<Longrightarrow> kr_id r = kr_id q \<Longrightarrow> r = q"
  unfolding tables_ok_def distinct_map inj_on_def by blast

lemma trigger_key_unique:
  "tables_ok d \<Longrightarrow> r \<in> set (agent_triggers d) \<Longrightarrow> q \<in> set (agent_triggers d) \<Longrightarrow> yr_id r = yr_id q \<Longrightarrow> r = q"
  unfolding tables_ok_def distinct_map inj_on_def by blast

text \<open>A ticket may be written back over its row, which may have been deleted meanwhile.\<close>

lemma write_back:
  assumes "tables_ok d" "r \<in> set (agent_tickets d)" "same_birth (kr_data r) t" "pruned d d0"
    "UpsertSuperAgentTicket t d0 = (True, d')"
  shows "written d t d'" "tables_ok d'"
proof -
  have k: "kr_agent q = ti_SuperAgentID t \<and> kr_thread q = ti_ThreadKey t"
    if "q \<in> set (agent_tickets d0)" "kr_id q = ti_ID t" for q
  proof -
    have "ticket_ok r" using assms(1,2) by (simp add: tables_ok_def)
    with assms(3) have i: "kr_id r = ti_ID t" "kr_agent r = ti_SuperAgentID t" "kr_thread r = ti_ThreadKey t"
      by (auto simp: ticket_ok_def same_birth_def)
    moreover from that(1) assms(4) have "q \<in> set (agent_tickets d)" unfolding pruned_def by blast
    ultimately have "q = r" using ticket_key_unique [OF assms(1)] assms(2) that(2) by metis
    with i show ?thesis by simp
  qed
  note w = upsert_ticket_written [OF assms(5) tables_ok_pruned [OF assms(4,1)] k]
  show "written d t d'" "tables_ok d'"
    using w written_mono [OF assms(4)] by blast+
qed

lemma mutateTicket_cases:
  assumes "mutateTicket between now i f sv d = (r, sv', d')" "gap between" "tables_ok d" "change_ok f"
  obtains (quiet) e where "r = Inl e" "pruned d d'" "tables_ok d'" "core sv' = core sv"
  | (changed) row t' x sv0 where "row \<in> set (agent_tickets d)" "kr_id row = i" "f (kr_data row) sv = (Inr (t', x), sv0)"
      "same_birth (kr_data row) t'" "r = Inr x" "sv' = notify sv0" "core sv' = core sv"
      "written d (t'\<lparr>ti_UpdatedAt := now\<rparr>) d'" "tables_ok d'"
proof -
  obtain g d1 where g: "GetSuperAgentTicket i d = (g, d1)" by force
  note same = GetSuperAgentTicket_same [OF g]
  show thesis
  proof (cases "\<exists>t. g = Some (Some t)")
    case False
    with assms(1) g have "(\<exists>e. r = Inl e) \<and> d' = d1 \<and> sv' = sv"
      by (auto simp: mutateTicket_def split: option.splits)
    then show thesis using quiet pruned_same [OF same] tables_ok_same [OF same assms(3)] by blast
  next
    case True
    then obtain t where t: "g = Some (Some t)" ..
    from find_ticket g t obtain row where row: "row \<in> set (agent_tickets d)" "kr_id row = i" "kr_data row = t" by blast
    obtain q sv0 where f: "f t sv = (q, sv0)" by force
    from assms(4) f have core: "core sv0 = core sv" unfolding change_ok_def by blast
    show thesis
    proof (cases q)
      case (Inl e)
      with assms(1) g t f have "r = Inl e \<and> d' = d1 \<and> sv' = sv0" by (simp add: mutateTicket_def)
      then show thesis using quiet pruned_same [OF same] tables_ok_same [OF same assms(3)] core by blast
    next
      case (Inr p)
      obtain t' x where p: "p = (t', x)" by force
      let ?t = "t'\<lparr>ti_UpdatedAt := now\<rparr>"
      have sb: "same_birth t t'" using assms(4) f Inr p unfolding change_ok_def by blast
      obtain ok d2 where u: "UpsertSuperAgentTicket ?t (between d1) = (ok, d2)" by force
      have pr: "pruned d (between d1)" using pruned_trans [OF pruned_same [OF same] gap_pruned [OF assms(2)]] .
      show thesis
      proof (cases ok)
        case False
        with u have "same_super (between d1) d2" by (intro upsert_ticket_failed) simp
        then have "pruned d d2" using pr pruned_trans pruned_same by blast
        moreover from False assms(1) g t f Inr p u have "r = Inl (Failed DbError) \<and> d' = d2 \<and> sv' = sv0"
          by (simp add: mutateTicket_def)
        ultimately show thesis using quiet tables_ok_pruned assms(3) core by blast
      next
        case True
        with assms(1) g t f Inr p u have "r = Inr x \<and> d' = d2 \<and> sv' = notify sv0"
          by (simp add: mutateTicket_def)
        moreover have b: "same_birth (kr_data row) ?t" using sb row(3) by (simp add: same_birth_def)
        have u': "UpsertSuperAgentTicket ?t (between d1) = (True, d2)" using u True by simp
        note write_back [OF assms(3) row(1) b pr u']
        ultimately show thesis using changed row f Inr p sb core by simp
      qed
    qed
  qed
qed

lemma StopTicket_cases:
  assumes "StopTicket between now i sv d = (r, sv', d')" "gap between" "tables_ok d"
  obtains (quiet) e where "r = Inl e" "pruned d d'" "tables_ok d'" "core sv' = core sv"
  | (changed) row where "row \<in> set (agent_tickets d)" "kr_id row = i" "r = Inr ()" "core sv' = core sv"
      "ti_Status (kr_data row) \<noteq> ''stopped''" "written d (stopped_ticket now (kr_data row)) d'" "tables_ok d'"
proof -
  obtain g d1 where g: "GetSuperAgentTicket i d = (g, d1)" by force
  note same = GetSuperAgentTicket_same [OF g]
  show thesis
  proof (cases "\<exists>t. g = Some (Some t) \<and> ti_Status t \<noteq> ''stopped''")
    case False
    with assms(1) g have "(\<exists>e. r = Inl e) \<and> d' = d1 \<and> sv' = sv"
      by (auto simp: StopTicket_def split: option.splits if_splits)
    then show thesis using quiet pruned_same [OF same] tables_ok_same [OF same assms(3)] by blast
  next
    case True
    then obtain t where t: "g = Some (Some t)" "ti_Status t \<noteq> ''stopped''" by blast
    from find_ticket g t obtain row where row: "row \<in> set (agent_tickets d)" "kr_id row = i" "kr_data row = t" by blast
    obtain ok d2 where u: "UpsertSuperAgentTicket (stopped_ticket now t) (between d1) = (ok, d2)" by force
    have pr: "pruned d (between d1)" using pruned_trans [OF pruned_same [OF same] gap_pruned [OF assms(2)]] .
    show thesis
    proof (cases ok)
      case False
      with u have "same_super (between d1) d2" by (intro upsert_ticket_failed) simp
      then have "pruned d d2" using pr pruned_trans pruned_same by blast
      moreover from False assms(1) g t u have "r = Inl (Failed DbError) \<and> d' = d2 \<and> sv' = sv"
        by (simp add: StopTicket_def)
      ultimately show thesis using quiet tables_ok_pruned assms(3) by blast
    next
      case True
      with assms(1) g t u have "r = Inr () \<and> d' = d2 \<and> core sv' = core sv"
        by (auto simp: StopTicket_def)
      moreover have b: "same_birth (kr_data row) (stopped_ticket now t)"
        using row(3) by (simp add: same_birth_def stopped_ticket_def)
      have u': "UpsertSuperAgentTicket (stopped_ticket now t) (between d1) = (True, d2)" using u True by simp
      note write_back [OF assms(3) row(1) b pr u']
      ultimately show thesis using changed row t by blast
    qed
  qed
qed

text \<open>A new ticket.\<close>

lemma accept_cases:
  assumes "accept ot uuid now agent trigger decision d = (r, d')" "tables_ok d"
    and "''tkt_'' @ uuid \<notin> kr_id ` set (agent_tickets d)"
  obtains (quiet) e where "r = Inl e" "same_super d d'"
  | (created) worker where "r = Inr (''tkt_'' @ uuid)"
      "written d (new_ticket uuid now agent trigger decision worker) d'" "tables_ok d'"
proof -
  obtain a d1 where a: "assignedWorker (ot_lower ot) (ot_workdir ot) (ot_wsmode ot) now agent (rd_WorkerID decision) d = (a, d1)"
    by force
  note same = assignedWorker_same [OF a]
  show thesis
  proof (cases a)
    case (Inl e)
    with assms(1) a have "r = Inl e \<and> d' = d1" by (simp add: accept_def)
    then show thesis using quiet same by blast
  next
    case (Inr worker)
    let ?t = "new_ticket uuid now agent trigger decision worker"
    obtain ok d2 where u: "UpsertSuperAgentTicket ?t d1 = (ok, d2)" by force
    have i: "ti_ID ?t = ''tkt_'' @ uuid" by (simp add: new_ticket_def Let_def)
    show thesis
    proof (cases "ot_folder ot (sa_ID agent) (ti_ID ?t) \<and> ok")
      case True
      moreover from assms(3) same i have "kr_agent q = ti_SuperAgentID ?t \<and> kr_thread q = ti_ThreadKey ?t"
        if "q \<in> set (agent_tickets d1)" "kr_id q = ti_ID ?t" for q
        using that by (metis same_super_def imageI)
      ultimately have "written d1 ?t d2 \<and> tables_ok d2"
        using upsert_ticket_written [of ?t d1 d2] u tables_ok_same [OF same assms(2)] by simp
      moreover from True assms(1) a Inr u i have "r = Inr (''tkt_'' @ uuid) \<and> d' = d2"
        by (simp add: accept_def Let_def)
      ultimately show thesis using created written_mono [OF pruned_same [OF same]] by blast
    next
      case False
      then have "(\<exists>e. r = Inl e) \<and> same_super d d'"
        using assms(1) a Inr u same upsert_ticket_failed [of ?t d1 d2]
        by (auto simp: accept_def Let_def split: if_splits intro: same_super_trans)
      then show thesis using quiet by blast
    qed
  qed
qed

section \<open>Triggers and recovery\<close>

lemma ListThread_rows:
  assumes "ListSuperAgentThreadTickets a th d = (Some ts, d')" "t \<in> set ts"
  shows "\<exists>r\<in>set (agent_tickets d). kr_data r = t \<and> kr_agent r = a \<and> kr_thread r = th"
proof -
  from assms(1) have "ts = map kr_data (ticket_order (d\<lparr>tick := Suc (tick d)\<rparr>)
      (filter (\<lambda>r. kr_agent r = a \<and> kr_thread r = th) (agent_tickets d)))"
    unfolding ListSuperAgentThreadTickets_def by (auto dest!: sql_query_SomeD)
  with assms(2) show ?thesis by (auto simp: ticket_order_def)
qed

lemma ListPending_rows:
  assumes "ListPendingSuperAgentTriggers n d = (Some ts, d')" "t \<in> set ts"
  shows "\<exists>r\<in>set (agent_triggers d). yr_data r = t \<and> yr_disposition r = ''pending''"
proof -
  from assms(1) have "set ts \<subseteq> yr_data ` set (filter (\<lambda>r. yr_disposition r = ''pending'') (agent_triggers d))"
    unfolding ListPendingSuperAgentTriggers_def by (auto dest!: sql_query_SomeD in_set_takeD)
  with assms(2) show ?thesis by auto
qed

lemma ListByStatus_rows:
  assumes "ListSuperAgentTicketsByStatus [st] d = (Some ts, d')"
  shows "set ts = kr_data ` set (filter (\<lambda>r. kr_status r = st) (agent_tickets d))"
  using assms by (auto simp: ticket_order_def split: prod.splits option.splits dest!: sql_query_SomeD)

lemma GetSuperAgent_id:
  assumes "GetSuperAgent i d = (Some (Some a), d')" "tables_ok d"
  shows "sa_ID a = i"
proof -
  obtain r where "table_find gr_id i (super_agents d) = Some r" "gr_data r = a"
    using assms(1) unfolding GetSuperAgent_def
    by (cases "table_find gr_id i (super_agents d)") (auto dest!: sql_query_SomeD)
  then have "r \<in> set (super_agents d)" "gr_id r = i" "gr_data r = a"
    unfolding table_find_def by (auto dest: find_Some_in)
  with assms(2) show ?thesis by (auto simp: tables_ok_def super_ok_def)
qed

lemma InsertSuperAgentTrigger_cases:
  fixes d d' :: super_db
  assumes "InsertSuperAgentTrigger t d = (r, d')"
  obtains (same) "r \<noteq> Some True" "same_super d d'"
  | (new) "r = Some True" "agent_triggers d' = agent_triggers d @ [trigger_row_of t]"
      "agent_tickets d' = agent_tickets d" "super_agents d' = super_agents d"
      "sg_ID t \<notin> yr_id ` set (agent_triggers d)"
proof -
  obtain q d1 where q: "sql_returning (insert_trigger (trigger_row_of t)) d = (q, d1)" by force
  have "q = None \<and> same_super d d1 \<or> q = Some 0 \<and> same_super d d1 \<or>
    q = Some 1 \<and> agent_triggers d1 = agent_triggers d @ [trigger_row_of t] \<and> agent_tickets d1 = agent_tickets d \<and>
      super_agents d1 = super_agents d \<and> sg_ID t \<notin> yr_id ` set (agent_triggers d)"
    using q by (auto simp: sql_returning_def Let_def insert_trigger_def list_ex_iff trigger_row_of_def split: if_splits)
  with assms q show thesis using same new by (auto simp: InsertSuperAgentTrigger_def)
qed

lemma trigger_row_of_ok [simp]: "trigger_ok (trigger_row_of t)"
  by (simp add: trigger_ok_def trigger_row_of_def)

text \<open>What a gate stores.\<close>

definition fresh_row :: "string \<Rightarrow> (string \<times> SuperAgentSource option \<times> string) set \<Rightarrow> trigger_row \<Rightarrow> bool" where
  "fresh_row uuid adm r \<longleftrightarrow> yr_id r = ''sat_'' @ uuid \<and> trigger_ok r \<and>
     (yr_disposition r = ''pending'' \<longrightarrow> (\<exists>src. (yr_id r, src, sg_Actor (yr_data r)) \<in> adm))"

lemma store_trigger_effect:
  fixes d d' :: super_db
  assumes "store_trigger t allowed sv d = (r, sv', d')"
  shows "agent_tickets d' = agent_tickets d \<and> super_agents d' = super_agents d \<and> core sv' = core sv \<and>
    (agent_triggers d' = agent_triggers d \<or>
     agent_triggers d' = agent_triggers d @ [trigger_row_of t] \<and> sg_ID t \<notin> yr_id ` set (agent_triggers d))"
proof -
  obtain q d1 where q: "InsertSuperAgentTrigger t d = (q, d1)" by force
  with assms have "d' = d1 \<and> core sv' = core sv" by (auto simp: store_trigger_def split: option.splits)
  then show ?thesis using q by (cases rule: InsertSuperAgentTrigger_cases [OF q]) (auto simp: same_super_def)
qed

lemma Ingest_effect:
  fixes d d' :: super_db
  assumes "Ingest eqf uuid now agent source trigger sv d = (r, sv', d')"
    and adm: "so_Enabled source \<and> actorAllowed eqf source (sg_Actor trigger) \<longrightarrow>
      (''sat_'' @ uuid, Some source, sg_Actor trigger) \<in> adm"
  shows "agent_tickets d' = agent_tickets d \<and> super_agents d' = super_agents d \<and> core sv' = core sv \<and>
    (agent_triggers d' = agent_triggers d \<or> (\<exists>row. fresh_row uuid adm row \<and> agent_triggers d' = agent_triggers d @ [row] \<and>
       yr_id row \<notin> yr_id ` set (agent_triggers d)))"
proof -
  let ?allowed = "actorAllowed eqf source (sg_Actor trigger)"
  let ?t = "stored_trigger uuid now agent source ?allowed trigger"
  have t: "fresh_row uuid adm (trigger_row_of ?t)" "yr_id (trigger_row_of ?t) = sg_ID ?t" if "so_Enabled source"
    using adm that by (auto simp: fresh_row_def trigger_row_of_def stored_trigger_def Let_def trigger_ok_def)
  have cr: "core (recordEvent i at sv) = core sv" for i at by (simp add: recordEvent_def core_def)
  show ?thesis
  proof (cases "sa_Enabled agent \<and> so_Enabled source \<and> (sg_Addressed trigger \<or> ?allowed)")
    case False
    with assms(1) show ?thesis by (auto simp: Ingest_def Let_def cr split: if_splits)
  next
    case True
    have "(same_super d d' \<and> core sv' = core sv) \<or>
      (\<exists>d1. same_super d d1 \<and> store_trigger ?t ?allowed (recordEvent (so_ID source) now sv) d1 = (r, sv', d'))"
    proof (cases "sg_Addressed trigger")
      case True
      then have "store_trigger ?t ?allowed (recordEvent (so_ID source) now sv) d = (r, sv', d')"
        using assms(1) \<open>sa_Enabled agent \<and> _\<close> by (simp add: Ingest_def Let_def)
      then show ?thesis using same_super_refl by blast
    next
      case False
      obtain q d1 where q: "ListSuperAgentThreadTickets (sa_ID agent) (sg_ThreadKey trigger) d = (q, d1)" by force
      note same = ListThread_same [OF q]
      from False True q assms(1) have "d' = d1 \<and> sv' = recordEvent (so_ID source) now sv \<or>
          store_trigger ?t ?allowed (recordEvent (so_ID source) now sv) d1 = (r, sv', d')"
        by (auto simp: Ingest_def Let_def split: option.splits if_splits)
      with same cr show ?thesis by auto
    qed
    then show ?thesis
    proof (elim disjE exE conjE)
      fix d1
      assume d1: "same_super d d1" "store_trigger ?t ?allowed (recordEvent (so_ID source) now sv) d1 = (r, sv', d')"
      from store_trigger_effect [OF d1(2)] d1(1) t True show ?thesis by (auto simp: same_super_def cr)
    qed (simp add: same_super_def)
  qed
qed

lemma TriggerManually_effect:
  fixes d d' :: super_db
  assumes "TriggerManually uuid now i text sv d = (r, sv', d')" "(''sat_'' @ uuid, None, ''console'') \<in> adm"
  shows "agent_tickets d' = agent_tickets d \<and> super_agents d' = super_agents d \<and> core sv' = core sv \<and>
    (agent_triggers d' = agent_triggers d \<or> (\<exists>row. fresh_row uuid adm row \<and> agent_triggers d' = agent_triggers d @ [row] \<and>
       yr_id row \<notin> yr_id ` set (agent_triggers d)))"
proof (cases "same_super d d' \<and> sv' = sv")
  case True
  then show ?thesis by (simp add: same_super_def)
next
  case False
  then obtain d1 agent q where d1: "same_super d d1"
    "InsertSuperAgentTrigger (console_trigger uuid now agent (trim_space text)) d1 = (q, d')" "core sv' = core sv"
    using assms(1)
    by (auto simp: TriggerManually_def Let_def split: if_splits prod.splits option.splits dest: GetSuperAgent_same
        elim: InsertSuperAgentTrigger_cases)
  have "fresh_row uuid adm (trigger_row_of (console_trigger uuid now agent (trim_space text)))"
    "sg_ID (console_trigger uuid now agent (trim_space text)) = yr_id (trigger_row_of (console_trigger uuid now agent (trim_space text)))"
    using assms(2) by (auto simp: fresh_row_def trigger_row_of_def console_trigger_def Let_def trigger_ok_def zero_trigger_def)
  then show ?thesis
    using d1(1,3) by (cases rule: InsertSuperAgentTrigger_cases [OF d1(2)]) (auto simp: same_super_def)
qed

lemma UpdateSuperAgentTrigger_effect:
  fixes d d' :: super_db
  assumes "UpdateSuperAgentTrigger t d = (ok, d')"
  shows "agent_tickets d' = agent_tickets d \<and> super_agents d' = super_agents d \<and>
    (agent_triggers d' = agent_triggers d \<or> agent_triggers d' = map (\<lambda>r. if yr_id r = sg_ID t
       then r\<lparr>yr_disposition := sg_Disposition t, yr_data := t, yr_updated := formatControlTime (sg_UpdatedAt t)\<rparr>
       else r) (agent_triggers d))"
  using assms by (auto simp: UpdateSuperAgentTrigger_def sql_exec_def Let_def split: if_splits)

lemma refreshClaims_same: "refreshClaims sv d = (r, sv', d') \<Longrightarrow> same_super d d' \<and> core sv' = core sv"
  by (auto simp: refreshClaims_def split: prod.splits option.splits dest: ListSuperAgents_same)

section \<open>How tickets move\<close>

text \<open>The states a ticket may go through. A stopped ticket keeps its state, and its inputs are gone.\<close>

definition ticket_moves :: "(string \<times> string) list" where
  "ticket_moves = [(''queued'', ''running''), (''running'', ''ready''), (''running'', ''failed''),
     (''running'', ''queued''), (''failed'', ''queued''), (''ready'', ''queued''), (''queued'', ''stopped''),
     (''running'', ''stopped''), (''ready'', ''stopped''), (''failed'', ''stopped'')]"

definition status_move :: "string \<Rightarrow> string \<Rightarrow> bool" where
  "status_move a b \<longleftrightarrow> b = a \<or> (a, b) \<in> set ticket_moves"

definition ticket_status :: "string \<Rightarrow> bool" where
  "ticket_status a \<longleftrightarrow> a \<in> set [''queued'', ''running'', ''ready'', ''failed'', ''stopped'']"

definition moves_to :: "SuperAgentTicket \<Rightarrow> SuperAgentTicket \<Rightarrow> bool" where
  "moves_to t t' \<longleftrightarrow> same_birth t t' \<and> status_move (ti_Status t) (ti_Status t') \<and>
     (ti_Status t = ''stopped'' \<longrightarrow> ti_Inputs t' = ti_Inputs t)"

text \<open>A change that does not begin a turn keeps the inputs a running turn has read.\<close>

definition soft :: "SuperAgentTicket \<Rightarrow> SuperAgentTicket \<Rightarrow> bool" where
  "soft t t' \<longleftrightarrow> moves_to t t' \<and> (ti_Status t' = ''running'' \<longrightarrow> ti_Status t = ''running'' \<and>
     (\<exists>xs. ti_Inputs t' = ti_Inputs t @ xs))"

lemma soft_moves: "soft t t' \<Longrightarrow> moves_to t t'"
  by (simp add: soft_def)

lemma moves_birth: "moves_to t t' \<Longrightarrow> same_birth t t'"
  by (simp add: moves_to_def)

lemma moves_time: "moves_to t t' \<Longrightarrow> moves_to t (t'\<lparr>ti_UpdatedAt := now\<rparr>)"
  by (simp add: moves_to_def same_birth_def)

lemma soft_time: "soft t t' \<Longrightarrow> soft t (t'\<lparr>ti_UpdatedAt := now\<rparr>)"
  by (simp add: soft_def moves_time)

lemma soft_attach:
  assumes "attach_change trigger note t sv = (Inr (t', x), sv')" "ticket_status (ti_Status t)"
  shows "soft t t'"
proof (cases "ti_Status t = ''running''")
  case True
  with assms(1) show ?thesis by (auto simp: attach_change_def Let_def soft_def moves_to_def same_birth_def status_move_def ticket_moves_def)
next
  case False
  with assms have t: "ti_Status t' = ''queued''" "same_birth t t'" "ti_Status t \<noteq> ''stopped''"
    by (auto simp: attach_change_def Let_def same_birth_def split: if_splits)
  with assms(2) False have "status_move (ti_Status t) (ti_Status t')"
    by (auto simp: status_move_def ticket_moves_def ticket_status_def)
  with t show ?thesis by (simp add: soft_def moves_to_def)
qed

lemma soft_retry:
  assumes "retry_change t sv = (Inr (t', x), sv')"
  shows "soft t t'"
proof -
  from assms have "ti_Status t = ''failed''" "ti_Status t' = ''queued''" "same_birth t t'"
    by (auto simp: retry_change_def same_birth_def split: if_splits)
  then show ?thesis by (simp add: soft_def moves_to_def status_move_def ticket_moves_def)
qed

lemma soft_reply_error:
  assumes "reply_error_change m t sv = (Inr (t', x), sv')"
  shows "soft t t'"
proof -
  from assms have t': "t' = t\<lparr>ti_ReplyError := m\<rparr>" by (simp add: reply_error_change_def)
  show ?thesis unfolding t' by (simp add: soft_def moves_to_def same_birth_def status_move_def ticket_moves_def)
qed

lemma soft_stopped:
  assumes "ti_Status t \<noteq> ''stopped''" "ticket_status (ti_Status t)"
  shows "soft t (stopped_ticket now t)"
proof -
  have "status_move (ti_Status t) ''stopped''" using assms by (auto simp: status_move_def ticket_moves_def ticket_status_def)
  with assms(1) show ?thesis by (simp add: stopped_ticket_def soft_def moves_to_def same_birth_def)
qed

lemma soft_end: "end_change now b n result t sv = (Inr (t', x), sv') \<Longrightarrow> soft t t'"
proof (cases "ti_Status t = ''running''")
  case True
  assume "end_change now b n result t sv = (Inr (t', x), sv')"
  with True show ?thesis
    by (cases result) (auto simp: end_change_def Let_def soft_def moves_to_def same_birth_def status_move_def ticket_moves_def split: if_splits)
next
  case False
  assume "end_change now b n result t sv = (Inr (t', x), sv')"
  with False show ?thesis by (simp add: end_change_def Let_def soft_def moves_to_def status_move_def ticket_moves_def)
qed

lemma moves_begin:
  "begin_change now t sv = (Inr (t', x), sv') \<Longrightarrow> moves_to t t' \<and> ti_Status t = ''queued'' \<and> ti_Inputs t' = ti_Inputs t \<and>
     x = (length (ti_Inputs t'), t') \<and> ti_Status t' = ''running''"
  by (auto simp: begin_change_def Let_def moves_to_def same_birth_def status_move_def ticket_moves_def split: if_splits)

lemma moves_recovered: "ti_Status t = ''running'' \<Longrightarrow> moves_to t (recovered_ticket now t)"
  by (simp add: recovered_ticket_def moves_to_def same_birth_def status_move_def ticket_moves_def)

section \<open>What a decision changes\<close>

lemma apply_decision_cases:
  fixes d d' :: super_db
  assumes a: "apply_decision ot between uuid now agent t tickets decision sv d = (r, sv', d')" and g: "gap between"
    and ok: "tables_ok d" and st: "\<forall>q\<in>set (agent_tickets d). ticket_status (ti_Status (kr_data q))"
    and fresh: "''tkt_'' @ uuid \<notin> kr_id ` set (agent_tickets d)"
  obtains (quiet) "pruned d d'" "tables_ok d'" "core sv' = core sv" "\<And>b. note_birth r d' b = b"
  | (created) worker reason where "r = Inr (''accepted'', reason, ''tkt_'' @ uuid)" "core sv' = core sv"
      "rd_Decision decision = ''accept''"
      "written d (new_ticket uuid now agent t decision worker) d'" "tables_ok d'"
  | (moved) ticket row t' where "ticket \<in> set tickets" "row \<in> set (agent_tickets d)" "kr_id row = ti_ID ticket"
      "soft (kr_data row) t'" "written d t' d'" "tables_ok d'" "core sv' = core sv" "\<And>b. note_birth r d' b = b"
      "rd_Decision decision = ''attach'' \<or> rd_Decision decision = ''stop''"
proof -
  have nb: "note_birth q d' b = b" if "\<forall>x y z. q = Inr (x, y, z) \<longrightarrow> x \<noteq> ''accepted''" for q b
    using that by (auto simp: note_birth_def split: sum.splits)
  consider (ignore) "rd_Decision decision = ''ignore''" | (accept) "rd_Decision decision = ''accept''"
    | (ticket) "rd_Decision decision = ''attach'' \<or> rd_Decision decision = ''stop''"
    | (unknown) "rd_Decision decision \<notin> set [''ignore'', ''accept'', ''attach'', ''stop'']" by auto
  then show thesis
  proof cases
    case ignore
    with a have "d' = d" "sv' = sv" "\<forall>x y z. r = Inr (x, y, z) \<longrightarrow> x \<noteq> ''accepted''"
      by (auto simp: apply_decision_def split: if_splits)
    then show thesis using quiet ok nb pruned_same [OF same_super_refl] by blast
  next
    case unknown
    with a have "d' = d" "sv' = sv" "\<forall>x y z. r = Inr (x, y, z) \<longrightarrow> x \<noteq> ''accepted''" by (auto simp: apply_decision_def)
    then show thesis using quiet ok nb pruned_same [OF same_super_refl] by blast
  next
    case accept
    obtain q d1 where q: "accept ot uuid now agent t decision d = (q, d1)" by force
    with a accept have e: "d' = d1" "sv' = sv"
      "r = (case q of Inl e \<Rightarrow> Inl e | Inr i \<Rightarrow> Inr (''accepted'', rd_Reason decision, i))"
      by (auto simp: apply_decision_def split: sum.splits)
    from q ok fresh show thesis
    proof (cases rule: accept_cases)
      case (quiet e')
      then show thesis using that(1) e pruned_same tables_ok_same [OF _ ok] nb by auto
    next
      case (created worker)
      then show thesis using that(2) e accept by auto
    qed
  next
    case ticket
    show thesis
    proof (cases "threadTicket tickets (rd_TicketID decision)")
      case None
      with a ticket have "d' = d" "sv' = sv" "\<forall>x y z. r = Inr (x, y, z) \<longrightarrow> x \<noteq> ''accepted''" by (auto simp: apply_decision_def)
      then show thesis using quiet ok nb pruned_same [OF same_super_refl] by blast
    next
      case (Some tk)
      then have tk: "tk \<in> set tickets" by (auto simp: threadTicket_def dest: find_Some_in)
      show thesis
      proof (cases "rd_Decision decision = ''stop''")
        case True
        obtain q sv1 d1 where q: "StopTicket between now (ti_ID tk) sv d = (q, sv1, d1)" by (metis prod_cases3)
        with a True Some have e: "d' = d1" "sv' = sv1" "\<forall>x y z. r = Inr (x, y, z) \<longrightarrow> x \<noteq> ''accepted''"
          by (auto simp: apply_decision_def split: sum.splits if_splits)
        from q g ok show thesis
        proof (cases rule: StopTicket_cases)
          case (quiet e')
          then show thesis using that(1) e nb by blast
        next
          case (changed row)
          then have "soft (kr_data row) (stopped_ticket now (kr_data row))" using soft_stopped st by blast
          then show thesis using that(3) changed tk e nb ticket by blast
        qed
      next
        case False
        obtain q sv1 d1 where q: "attach between now (ti_ID tk) t (rd_Instructions decision) sv d = (q, sv1, d1)"
          by (metis prod_cases3)
        with a False ticket Some have e: "d' = d1" "sv' = sv1" "\<forall>x y z. r = Inr (x, y, z) \<longrightarrow> x \<noteq> ''accepted''"
          by (auto simp: apply_decision_def split: sum.splits)
        from q [unfolded attach_def] g ok attach_change_ok show thesis
        proof (cases rule: mutateTicket_cases)
          case (quiet e')
          then show thesis using that(1) e nb by blast
        next
          case (changed row t' x sv0)
          then have "soft (kr_data row) (t'\<lparr>ti_UpdatedAt := now\<rparr>)" using soft_time soft_attach st by blast
          then show thesis using that(3) changed tk e nb ticket by blast
        qed
      qed
    qed
  qed
qed

section \<open>Start\<close>

lemma requeue_all_effect:
  assumes "requeue_all now ts d = (ok, d')" "tables_ok d"
    "\<forall>t\<in>set ts. ti_Status t = ''running'' \<and> (\<exists>r\<in>set (agent_tickets d). kr_data r = t)" "distinct (map ti_ID ts)"
  shows "tables_ok d' \<and> agent_triggers d' = agent_triggers d \<and> super_agents d' = super_agents d \<and>
    (\<forall>r'\<in>set (agent_tickets d'). r' \<in> set (agent_tickets d) \<or>
       (\<exists>r\<in>set (agent_tickets d). kr_id r' = kr_id r \<and> kr_data r \<in> set ts \<and> kr_data r' = recovered_ticket now (kr_data r))) \<and>
    (ok \<longrightarrow> (\<forall>r'\<in>set (agent_tickets d'). kr_data r' \<notin> set ts))"
  using assms
proof (induction ts arbitrary: d)
  case Nil
  then show ?case by auto
next
  case (Cons t ts)
  let ?t = "recovered_ticket now t"
  obtain o1 d1 where u: "UpsertSuperAgentTicket ?t d = (o1, d1)" by force
  obtain r0 where r0: "r0 \<in> set (agent_tickets d)" "kr_data r0 = t" using Cons.prems(3) by auto
  show ?case
  proof (cases o1)
    case False
    with Cons.prems(1) u have "d' = d1" "\<not> ok" by auto
    moreover from False u have "same_super d d1" by (intro upsert_ticket_failed) simp
    ultimately show ?thesis using tables_ok_same Cons.prems(2) by (auto simp: same_super_def)
  next
    case True
    with Cons.prems(1) u have rest: "requeue_all now ts d1 = (ok, d')" by auto
    have k: "kr_agent q = ti_SuperAgentID ?t \<and> kr_thread q = ti_ThreadKey ?t"
      if "q \<in> set (agent_tickets d)" "kr_id q = ti_ID ?t" for q
      using that r0 Cons.prems(2) ticket_key_unique [OF Cons.prems(2) that(1) r0(1)]
      by (auto simp: tables_ok_def ticket_ok_def recovered_ticket_def)
    from u True have "UpsertSuperAgentTicket ?t d = (True, d1)" by simp
    note w = upsert_ticket_written [OF this Cons.prems(2) k]
    have kept: "\<exists>r\<in>set (agent_tickets d1). kr_data r = t2" if "t2 \<in> set ts" for t2
    proof -
      from that Cons.prems(3) obtain r where r: "r \<in> set (agent_tickets d)" "kr_data r = t2" by auto
      have "ti_ID t2 \<noteq> ti_ID t" using that Cons.prems(4) by (auto simp: image_iff)
      then have "kr_id r \<noteq> kr_id r0" using r r0 Cons.prems(2) by (auto simp: tables_ok_def ticket_ok_def)
      moreover have "set (agent_tickets d1) = set (table_upsert kr_id merge_ticket_row (ticket_row_of ?t) (agent_tickets d))"
        using \<open>UpsertSuperAgentTicket ?t d = (True, d1)\<close>
        by (auto simp: UpsertSuperAgentTicket_def sql_exec_def Let_def split: if_splits)
      moreover have "kr_id r0 = ti_ID ?t" using r0 Cons.prems(2) by (auto simp: tables_ok_def ticket_ok_def recovered_ticket_def)
      ultimately have "r \<in> set (agent_tickets d1)"
        using r(1) by (auto simp: table_upsert_def ticket_row_of_def image_iff intro!: bexI [where x = r])
      then show ?thesis using r(2) by blast
    qed
    have ih: "tables_ok d' \<and> agent_triggers d' = agent_triggers d1 \<and> super_agents d' = super_agents d1 \<and>
      (\<forall>r'\<in>set (agent_tickets d'). r' \<in> set (agent_tickets d1) \<or>
       (\<exists>r\<in>set (agent_tickets d1). kr_id r' = kr_id r \<and> kr_data r \<in> set ts \<and> kr_data r' = recovered_ticket now (kr_data r))) \<and>
      (ok \<longrightarrow> (\<forall>r'\<in>set (agent_tickets d'). kr_data r' \<notin> set ts))"
      using w Cons.prems(3,4) kept by (intro Cons.IH [OF rest]) auto
    have rows1: "r \<in> set (agent_tickets d) \<and> kr_id r \<noteq> ti_ID t \<or> kr_id r = ti_ID t \<and> kr_data r = ?t"
      if "r \<in> set (agent_tickets d1)" for r
      using w that by (auto simp: written_def recovered_ticket_def)
    have i0: "kr_id r0 = ti_ID t" using r0 Cons.prems(2) by (auto simp: tables_ok_def ticket_ok_def)
    have nt: "kr_data r \<noteq> t" if "r \<in> set (agent_tickets d1)" for r
    proof
      assume "kr_data r = t"
      moreover have "ti_Status ?t \<noteq> ti_Status t" using Cons.prems(3) by (simp add: recovered_ticket_def)
      ultimately have "r \<in> set (agent_tickets d)" "kr_id r \<noteq> ti_ID t" using rows1 [OF that] by auto
      then show False using \<open>kr_data r = t\<close> Cons.prems(2) by (auto simp: tables_ok_def ticket_ok_def)
    qed
    have fin: "r' \<in> set (agent_tickets d) \<or> (\<exists>r\<in>set (agent_tickets d). kr_id r' = kr_id r \<and> kr_data r \<in> set (t # ts) \<and>
        kr_data r' = recovered_ticket now (kr_data r))" if "r' \<in> set (agent_tickets d')" for r'
    proof -
      from ih that consider (a) "r' \<in> set (agent_tickets d1)"
        | (b) r where "r \<in> set (agent_tickets d1)" "kr_id r' = kr_id r" "kr_data r \<in> set ts"
          "kr_data r' = recovered_ticket now (kr_data r)" by blast
      then show ?thesis
      proof cases
        case a
        from rows1 [OF a] show ?thesis using r0 i0 by (metis list.set_intros(1))
      next
        case b
        have "ti_Status (kr_data r) = ''running''" using b(3) Cons.prems(3) by auto
        then have "kr_data r \<noteq> ?t" by (auto simp: recovered_ticket_def)
        then have "r \<in> set (agent_tickets d)" using rows1 [OF b(1)] by blast
        with b show ?thesis by auto
      qed
    qed
    have "kr_data r' \<notin> set (t # ts)" if "ok" "r' \<in> set (agent_tickets d')" for r'
    proof -
      from ih that(2) consider "r' \<in> set (agent_tickets d1)" | r :: ticket_row where "kr_data r' = recovered_ticket now (kr_data r)" by metis
      then have "kr_data r' \<noteq> t"
      proof cases
        case 1
        then show ?thesis by (rule nt)
      next
        case 2
        then have "ti_Status (kr_data r') = ''queued''" by (simp add: recovered_ticket_def)
        then show ?thesis using Cons.prems(3) by auto
      qed
      then show ?thesis using ih that by simp
    qed
    with ih w fin show ?thesis by auto
  qed
qed

section \<open>Super Agents\<close>

lemma UpsertSuperAgent_effect:
  assumes "UpsertSuperAgent a d = (ok, d')" "tables_ok d"
  shows "agent_triggers d' = agent_triggers d \<and> agent_tickets d' = agent_tickets d \<and> tables_ok d'"
proof -
  have "super_ok r" if "r \<in> set (table_upsert gr_id merge_super_row (super_row_of a) (super_agents d))" for r
    using that assms(2)
    by (auto simp: table_upsert_def tables_ok_def super_ok_def super_row_of_def merge_super_row_def split: if_splits)
  with assms show ?thesis
    by (auto simp: UpsertSuperAgent_def sql_exec_def Let_def tables_ok_def split: if_splits)
qed

lemma bindRouter_same: "bindRouter h now a d = (r, d') \<Longrightarrow> same_super d d'"
  by (auto simp: bindRouter_def split: option.splits prod.splits if_splits
      dest!: GetAgentInstance_same UpsertAgentInstance_same intro: same_super_trans)

definition only_agents :: "super_db \<Rightarrow> super_db \<Rightarrow> bool" where
  "only_agents d d' \<longleftrightarrow> agent_triggers d' = agent_triggers d \<and> agent_tickets d' = agent_tickets d \<and>
     (tables_ok d \<longrightarrow> tables_ok d')"

lemma only_agents_same: "same_super d d' \<Longrightarrow> only_agents d d'"
  using tables_ok_same by (auto simp: only_agents_def same_super_def)

lemma only_agents_trans: "only_agents d d' \<Longrightarrow> only_agents d' d'' \<Longrightarrow> only_agents d d''"
  by (auto simp: only_agents_def)

lemma only_agents_upsert:
  assumes "UpsertSuperAgent a d = (ok, d')"
  shows "only_agents d d'"
proof -
  from assms have "agent_triggers d' = agent_triggers d \<and> agent_tickets d' = agent_tickets d"
    by (auto simp: UpsertSuperAgent_def sql_exec_def Let_def split: if_splits)
  then show ?thesis using UpsertSuperAgent_effect [OF assms] unfolding only_agents_def by blast
qed

lemma adopt_each_effect: "only_agents d (adopt_each homes uuids now agents owners k d)"
proof (induction agents arbitrary: owners k d)
  case Nil
  then show ?case by (simp add: only_agents_def)
next
  case (Cons agent rest)
  note goa = only_agents_same
  obtain g d1 where g: "GetAgentInstance (sa_RouterAgentID agent) d = (g, d1)" by force
  have o1: "only_agents d d1" using goa GetAgentInstance_same g by blast
  show ?case
  proof (cases "\<exists>router. g = Some (Some router)")
    case False
    then have "adopt_each homes uuids now (agent # rest) owners k d = adopt_each homes uuids now rest owners k d1"
      using g by (auto split: option.splits)
    then show ?thesis using only_agents_trans [OF o1 Cons.IH] by simp
  next
    case True
    then obtain router where r: "g = Some (Some router)" ..
    show ?thesis
    proof (cases "IsRouterAgent router")
      case False
      then show ?thesis using only_agents_trans [OF o1 Cons.IH] g r by simp
    next
      case True
      note rt = this
      show ?thesis
      proof (cases "a_ID router \<in> set owners")
        case False
        obtain x d2 where b: "bindRouter (homes (sa_ID agent)) now agent d1 = (x, d2)" by force
        have "only_agents d d2" using o1 goa bindRouter_same [OF b] only_agents_trans by blast
        from only_agents_trans [OF this Cons.IH] show ?thesis using g r rt False b by simp
      next
        case True
        let ?c = "router_copy now (uuids k) agent router"
        obtain x d2 where u: "UpsertAgentInstance ?c d1 = (x, d2)" by force
        have o2: "only_agents d d2" using o1 goa UpsertAgentInstance_same [OF u] only_agents_trans by blast
        note ow = True
        show ?thesis
        proof (cases x)
          case False
          from only_agents_trans [OF o2 Cons.IH] show ?thesis using g r rt ow False u by (simp add: Let_def)
        next
          case True
          note xt = this
          obtain y d3 where v: "UpsertSuperAgent (agent\<lparr>sa_RouterAgentID := a_ID ?c\<rparr>) d2 = (y, d3)" by force
          have o3: "only_agents d d3" using o2 only_agents_upsert [OF v] only_agents_trans by blast
          show ?thesis
          proof (cases y)
            case False
            from only_agents_trans [OF o3 Cons.IH] show ?thesis using g r rt xt ow False u v by (simp add: Let_def)
          next
            case True
            obtain z d4 where w: "bindRouter (homes (sa_ID agent)) now (agent\<lparr>sa_RouterAgentID := a_ID ?c\<rparr>) d3 = (z, d4)" by force
            have "only_agents d d4" using o3 goa bindRouter_same [OF w] only_agents_trans by blast
            from only_agents_trans [OF this Cons.IH] show ?thesis using g r rt xt ow True u v w by (simp add: Let_def)
          qed
        qed
      qed
    qed
  qed
qed

lemma distinct_map_sort_key: "distinct (map g (sort_key f xs)) = distinct (map g xs)"
  by (metis distinct_map distinct_sort set_sort)

lemma ListByStatus_distinct:
  assumes "ListSuperAgentTicketsByStatus [st] d = (Some ts, d')" "tables_ok d"
  shows "distinct (map ti_ID ts)"
proof -
  let ?rows = "ticket_order (d\<lparr>tick := Suc (tick d)\<rparr>) (filter (\<lambda>r. kr_status r = st) (agent_tickets d))"
  have ts: "ts = map kr_data ?rows"
    using assms(1) by (auto split: prod.splits option.splits dest!: sql_query_SomeD)
  have "set ?rows \<subseteq> set (agent_tickets d)" by (auto simp: ticket_order_def)
  then have "map ti_ID ts = map kr_id ?rows" unfolding ts using assms(2) by (auto simp: tables_ok_def ticket_ok_def)
  moreover have "distinct (map kr_id ?rows)"
    using assms(2) by (simp add: ticket_order_def distinct_map_sort_key distinct_map_filter_key tables_ok_def)
  ultimately show ?thesis by simp
qed

lemma Start_effect:
  assumes "Start_service homes uuids now d = (ok, sv', d')" "tables_ok d"
  shows "tables_ok d'" "agent_triggers d' = agent_triggers d"
    "\<forall>r'\<in>set (agent_tickets d'). r' \<in> set (agent_tickets d) \<or>
       (\<exists>r\<in>set (agent_tickets d). kr_id r' = kr_id r \<and> ti_Status (kr_data r) = ''running'' \<and>
          kr_data r' = recovered_ticket now (kr_data r))"
    "ok \<longrightarrow> (\<forall>r'\<in>set (agent_tickets d'). ti_Status (kr_data r') \<noteq> ''running'')"
    "core sv' = core fresh_service" "sv_stopping sv' = []"
proof -
  let ?c1 = "tables_ok d' \<and> agent_triggers d' = agent_triggers d \<and>
    (\<forall>r'\<in>set (agent_tickets d'). r' \<in> set (agent_tickets d) \<or>
       (\<exists>r\<in>set (agent_tickets d). kr_id r' = kr_id r \<and> ti_Status (kr_data r) = ''running'' \<and>
          kr_data r' = recovered_ticket now (kr_data r))) \<and>
    (ok \<longrightarrow> (\<forall>r'\<in>set (agent_tickets d'). ti_Status (kr_data r') \<noteq> ''running'')) \<and>
    core sv' = core fresh_service \<and> sv_stopping sv' = []"
  obtain l d1 where l: "ListSuperAgentTicketsByStatus [''running''] d = (l, d1)" by force
  note s1 = ListByStatus_same [OF l]
  have "?c1"
  proof (cases l)
    case None
    with assms(1) l have "d' = d1" "\<not> ok" "sv' = fresh_service" by (simp_all add: Start_service_def)
    then show ?thesis using s1 tables_ok_same [OF s1 assms(2)] by (auto simp: same_super_def fresh_service_def)
  next
    case (Some ts)
    obtain o2 d2 where q: "requeue_all now ts d1 = (o2, d2)" by force
    have rows: "set ts = kr_data ` set (filter (\<lambda>r. kr_status r = ''running'') (agent_tickets d))"
      using ListByStatus_rows l Some by blast
    have ok1: "tables_ok d1" and t1: "agent_tickets d1 = agent_tickets d" "agent_triggers d1 = agent_triggers d"
      using tables_ok_same [OF s1 assms(2)] s1 by (simp_all add: same_super_def)
    have st: "kr_status r = ti_Status (kr_data r)" if "r \<in> set (agent_tickets d)" for r
      using that assms(2) by (auto simp: tables_ok_def ticket_ok_def)
    have dist: "distinct (map ti_ID ts)" by (rule ListByStatus_distinct [OF l [unfolded Some] assms(2)])
    have "\<forall>t\<in>set ts. ti_Status t = ''running'' \<and> (\<exists>r\<in>set (agent_tickets d1). kr_data r = t)"
      unfolding rows t1 using st by auto
    note e = requeue_all_effect [OF q ok1 this dist]
    have run: "r \<in> set (agent_tickets d) \<Longrightarrow> kr_data r \<in> set ts \<longleftrightarrow> ti_Status (kr_data r) = ''running''" for r
      unfolding rows using st by auto
    have tk: "\<forall>r'\<in>set (agent_tickets d2). r' \<in> set (agent_tickets d) \<or>
       (\<exists>r\<in>set (agent_tickets d). kr_id r' = kr_id r \<and> ti_Status (kr_data r) = ''running'' \<and>
          kr_data r' = recovered_ticket now (kr_data r))"
      using e run unfolding t1 by blast
    have nr: "o2 \<longrightarrow> (\<forall>r'\<in>set (agent_tickets d2). ti_Status (kr_data r') \<noteq> ''running'')"
    proof (intro impI ballI)
      fix r' assume "o2" and r': "r' \<in> set (agent_tickets d2)"
      then have "kr_data r' \<notin> set ts" using e by blast
      from tk r' consider "r' \<in> set (agent_tickets d)" | r :: ticket_row where "kr_data r' = recovered_ticket now (kr_data r)"
        by metis
      then show "ti_Status (kr_data r') \<noteq> ''running''"
        by cases (use run \<open>kr_data r' \<notin> set ts\<close> in \<open>auto simp: recovered_ticket_def\<close>)
    qed
    show ?thesis
    proof (cases o2)
      case False
      with assms(1) l Some q have "d' = d2" "\<not> ok" "sv' = fresh_service" by (simp_all add: Start_service_def)
      then show ?thesis using e tk t1 by (auto simp: fresh_service_def)
    next
      case True
      let ?d3 = "adoptRouters homes uuids now d2"
      have o3: "only_agents d2 ?d3"
        by (auto simp: adoptRouters_def split: prod.splits option.splits dest!: ListSuperAgents_same
            intro: only_agents_same only_agents_trans adopt_each_effect)
      obtain f sv4 d4 where f: "refreshClaims fresh_service ?d3 = (f, sv4, d4)" by (metis prod_cases3)
      with assms(1) l Some q True have d': "d' = d4" "sv' = sv4" by (auto simp: Start_service_def split: sum.splits)
      have "same_super ?d3 d4 \<and> core sv4 = core fresh_service" by (rule refreshClaims_same [OF f])
      moreover have "sv_stopping sv4 = []"
        using f by (auto simp: refreshClaims_def fresh_service_def split: prod.splits option.splits)
      moreover have "tables_ok d2" using e by blast
      ultimately show ?thesis
        using o3 tables_ok_same [of ?d3 d4] e tk nr True unfolding d' only_agents_def same_super_def t1 by simp
    qed
  qed
  then show "tables_ok d'" "agent_triggers d' = agent_triggers d"
    "\<forall>r'\<in>set (agent_tickets d'). r' \<in> set (agent_tickets d) \<or>
       (\<exists>r\<in>set (agent_tickets d). kr_id r' = kr_id r \<and> ti_Status (kr_data r) = ''running'' \<and>
          kr_data r' = recovered_ticket now (kr_data r))"
    "ok \<longrightarrow> (\<forall>r'\<in>set (agent_tickets d'). ti_Status (kr_data r') \<noteq> ''running'')"
    "core sv' = core fresh_service" "sv_stopping sv' = []" by blast+
qed

end
