(* ===== verification/Super_Invariant.thy ===== *)
theory Super_Invariant
  imports Super_Safety
begin

text \<open>
  The invariant of the running service: evaluations of a thread do not overlap and work on undecided events, every
  ticket comes from an event that passed a gate, and a turn reads all inputs of its ticket.
\<close>

section \<open>Evaluations\<close>

definition sats :: "system \<Rightarrow> string set" where
  "sats s = (\<lambda>u. ''sat_'' @ u) ` drawn s"

definition tkts :: "system \<Rightarrow> string set" where
  "tkts s = (\<lambda>u. ''tkt_'' @ u) ` drawn s"

definition authorized :: "system \<Rightarrow> SuperAgentTrigger \<Rightarrow> bool" where
  "authorized s t \<longleftrightarrow> (\<exists>src. (sg_ID t, src, sg_Actor t) \<in> admitted s)"

definition undone :: "evaluation \<Rightarrow> bool" where
  "undone e \<longleftrightarrow> e \<noteq> Replying \<and> e \<noteq> Leaving"

fun counted :: "pass \<Rightarrow> nat option" where
  "counted (Counted n) = Some n"
| "counted (Considering n ts bl) = Some n"
| "counted _ = None"

fun listed :: "pass \<Rightarrow> SuperAgentTrigger list" where
  "listed (Considering n ts bl) = ts"
| "listed _ = []"

definition in_evaluation :: "system \<Rightarrow> string \<Rightarrow> bool" where
  "in_evaluation s key \<longleftrightarrow> (\<exists>k t e. evs s k = Some (t, e) \<and> eval_key t = key)"

definition eval_ok :: "system \<Rightarrow> SuperAgentTrigger \<Rightarrow> evaluation \<Rightarrow> bool" where
  "eval_ok s t e \<longleftrightarrow> sg_ID t \<in> sats s \<and> eval_key t \<in> set (sv_evaluating (svc s)) \<and> authorized s t \<and>
     (undone e \<longrightarrow> (\<forall>r\<in>set (agent_triggers (tabs s)). yr_id r = sg_ID t \<longrightarrow>
        yr_disposition r = ''pending'' \<and> yr_data r = t))"

definition listed_ok :: "system \<Rightarrow> nat option \<Rightarrow> SuperAgentTrigger \<Rightarrow> bool" where
  "listed_ok s n t \<longleftrightarrow> sg_ID t \<in> sats s \<and> authorized s t \<and>
     (\<forall>r\<in>set (agent_triggers (tabs s)). yr_id r = sg_ID t \<longrightarrow>
        yr_agent r = sg_SuperAgentID t \<and> yr_thread r = sg_ThreadKey t \<and>
        (n = Some (sv_evaluations (svc s)) \<longrightarrow>
           yr_disposition r = ''pending'' \<and> yr_data r = t \<or> in_evaluation s (eval_key t)))"

definition evals_ok :: "system \<Rightarrow> bool" where
  "evals_ok s \<longleftrightarrow>
     (\<forall>k t e. evs s k = Some (t, e) \<longrightarrow> eval_ok s t e) \<and>
     (\<forall>j k t e t' e'. j \<noteq> k \<longrightarrow> evs s j = Some (t, e) \<longrightarrow> evs s k = Some (t', e') \<longrightarrow> eval_key t \<noteq> eval_key t') \<and>
     length (sv_evaluating (svc s)) \<le> maxRouterEvals \<and>
     (\<forall>r\<in>set (agent_triggers (tabs s)). yr_id r \<in> sats s \<and> (yr_disposition r = ''pending'' \<longrightarrow> authorized s (yr_data r))) \<and>
     (\<forall>n. counted (ps s) = Some n \<longrightarrow> n \<le> sv_evaluations (svc s)) \<and>
     (\<forall>t\<in>set (listed (ps s)). listed_ok s (counted (ps s)) t)"

lemma evals_okD:
  assumes "evals_ok s"
  shows "evs s k = Some (t, e) \<Longrightarrow> eval_ok s t e"
    "j \<noteq> k \<Longrightarrow> evs s j = Some (t, e) \<Longrightarrow> evs s k = Some (t', e') \<Longrightarrow> eval_key t \<noteq> eval_key t'"
    "length (sv_evaluating (svc s)) \<le> maxRouterEvals"
    "r \<in> set (agent_triggers (tabs s)) \<Longrightarrow> yr_id r \<in> sats s"
    "r \<in> set (agent_triggers (tabs s)) \<Longrightarrow> yr_disposition r = ''pending'' \<Longrightarrow> authorized s (yr_data r)"
    "counted (ps s) = Some n \<Longrightarrow> n \<le> sv_evaluations (svc s)"
    "t \<in> set (listed (ps s)) \<Longrightarrow> listed_ok s (counted (ps s)) t"
  using assms unfolding evals_ok_def by blast+

text \<open>What the steps that neither decide an event nor end an evaluation have in common.\<close>

definition evals_quiet :: "system \<Rightarrow> system \<Rightarrow> bool" where
  "evals_quiet s s' \<longleftrightarrow>
     (\<forall>k. evs s' k = evs s k \<or> (\<exists>t e e'. evs s k = Some (t, e) \<and> evs s' k = Some (t, e') \<and> (undone e' \<longrightarrow> undone e))) \<and>
     drawn s \<subseteq> drawn s' \<and> admitted s \<subseteq> admitted s' \<and>
     sv_evaluating (svc s') = sv_evaluating (svc s) \<and> sv_evaluations (svc s') = sv_evaluations (svc s) \<and>
     (\<forall>r\<in>set (agent_triggers (tabs s')). r \<in> set (agent_triggers (tabs s)) \<or>
        yr_id r \<notin> sats s \<and> yr_id r \<in> sats s' \<and> (yr_disposition r = ''pending'' \<longrightarrow> authorized s' (yr_data r))) \<and>
     (counted (ps s') = None \<or> counted (ps s') = counted (ps s) \<or> counted (ps s') = Some (sv_evaluations (svc s)) \<and> listed (ps s') = []) \<and>
     set (listed (ps s')) \<subseteq> set (listed (ps s)) \<and> (listed (ps s') \<noteq> [] \<longrightarrow> counted (ps s') = counted (ps s))"

lemma sats_mono: "drawn s \<subseteq> drawn s' \<Longrightarrow> sats s \<subseteq> sats s'"
  by (auto simp: sats_def)

lemma authorized_mono: "admitted s \<subseteq> admitted s' \<Longrightarrow> authorized s t \<Longrightarrow> authorized s' t"
  by (auto simp: authorized_def)

lemma evals_ok_quiet:
  assumes "evals_ok s" "evals_quiet s s'"
  shows "evals_ok s'"
proof -
  note q = assms(2) [unfolded evals_quiet_def]
  have ev: "evs s' k = evs s k \<or> (\<exists>t e e'. evs s k = Some (t, e) \<and> evs s' k = Some (t, e') \<and> (undone e' \<longrightarrow> undone e))" for k
    using q by blast
  have old: "\<exists>e0. evs s k = Some (t, e0) \<and> (undone e \<longrightarrow> undone e0)" if "evs s' k = Some (t, e)" for k t e
    using ev [of k] that by (metis option.inject prod.inject)
  have keys: "in_evaluation s' key" if "in_evaluation s key" for key
  proof -
    from that obtain j t1 e1 where j: "evs s j = Some (t1, e1)" "eval_key t1 = key" by (auto simp: in_evaluation_def)
    with ev [of j] have "\<exists>e2. evs s' j = Some (t1, e2)" by auto
    with j(2) show ?thesis unfolding in_evaluation_def by blast
  qed
  have d: "sats s \<subseteq> sats s'" and a: "authorized s t \<Longrightarrow> authorized s' t" for t
    using q sats_mono authorized_mono by blast+
  have rows: "r \<in> set (agent_triggers (tabs s)) \<or>
        yr_id r \<notin> sats s \<and> yr_id r \<in> sats s' \<and> (yr_disposition r = ''pending'' \<longrightarrow> authorized s' (yr_data r))"
    if "r \<in> set (agent_triggers (tabs s'))" for r
    using q that by blast
  have sv: "sv_evaluating (svc s') = sv_evaluating (svc s)" "sv_evaluations (svc s') = sv_evaluations (svc s)"
    using q by blast+
  have 1: "eval_ok s' t e" if h: "evs s' k = Some (t, e)" for k t e
  proof -
    from old [OF h] obtain e0 where e0: "evs s k = Some (t, e0)" "undone e \<longrightarrow> undone e0" by blast
    from evals_okD(1) [OF assms(1) e0(1)] e0(2) d a rows show ?thesis
      unfolding eval_ok_def sv by (metis subsetD)
  qed
  have 2: "eval_key t \<noteq> eval_key t'" if "j \<noteq> k" "evs s' j = Some (t, e)" "evs s' k = Some (t', e')" for j k t e t' e'
    using old [OF that(2)] old [OF that(3)] evals_okD(2) [OF assms(1) that(1)] by blast
  have 3: "yr_id r \<in> sats s' \<and> (yr_disposition r = ''pending'' \<longrightarrow> authorized s' (yr_data r))"
    if "r \<in> set (agent_triggers (tabs s'))" for r
    using rows [OF that] evals_okD(4,5) [OF assms(1)] d a by blast
  have 4: "n \<le> sv_evaluations (svc s')" if "counted (ps s') = Some n" for n
    using q that evals_okD(6) [OF assms(1)] sv by (metis option.discI option.inject order_refl)
  have 5: "listed_ok s' (counted (ps s')) t" if h: "t \<in> set (listed (ps s'))" for t
  proof -
    from h q have t: "t \<in> set (listed (ps s))" "counted (ps s') = counted (ps s)" by (auto dest: subsetD)
    note l = evals_okD(7) [OF assms(1) t(1), unfolded listed_ok_def]
    have "r \<in> set (agent_triggers (tabs s))" if "r \<in> set (agent_triggers (tabs s'))" "yr_id r = sg_ID t" for r
      using rows [OF that(1)] that(2) l by auto
    then show ?thesis
      unfolding listed_ok_def sv t(2) using l d a keys by (intro conjI ballI impI) (blast+)
  qed
  have 6: "length (sv_evaluating (svc s')) \<le> maxRouterEvals" unfolding sv by (rule evals_okD(3) [OF assms(1)])
  show ?thesis unfolding evals_ok_def using 1 2 3 4 5 6 by blast
qed

text \<open>Three steps are not of this kind.\<close>

lemma evals_ok_spawn:
  assumes ok: "evals_ok s" and p: "ps s = Considering n (t # ts) blocked"
    and c: "consider_trigger now n t blocked (svc s) = (True, blocked', sv')" and k: "evs s k = None"
  shows "evals_ok (s\<lparr>svc := sv', ps := Considering n ts blocked', evs := (evs s)(k \<mapsto> (t, Loading))\<rparr>)" (is "evals_ok ?s'")
    and "\<forall>r\<in>set (agent_triggers (tabs s)). yr_id r = sg_ID t \<longrightarrow> yr_disposition r = ''pending'' \<and> yr_data r = t"
proof -
  from c have b: "eval_key t \<notin> set (sv_evaluating (svc s))" "sv_evaluations (svc s) = n"
    "length (sv_evaluating (svc s)) < maxRouterEvals"
    and sv': "sv_evaluating sv' = eval_key t # sv_evaluating (svc s)" "sv_evaluations sv' = sv_evaluations (svc s)"
    by (auto simp: consider_trigger_def eval_busy_def split: if_splits)
  have free: "\<not> in_evaluation s (eval_key t)"
    using evals_okD(1) [OF ok] b(1) unfolding in_evaluation_def eval_ok_def by metis
  have l: "listed_ok s (Some n) t'" if "t' \<in> set (t # ts)" for t' using evals_okD(7) [OF ok] p that by simp
  show pend: "\<forall>r\<in>set (agent_triggers (tabs s)). yr_id r = sg_ID t \<longrightarrow> yr_disposition r = ''pending'' \<and> yr_data r = t"
    using l [of t] free b(2) by (simp add: listed_ok_def)
  have keys: "in_evaluation ?s' key" if "in_evaluation s key" for key
  proof -
    from that obtain j t1 e1 where j: "evs s j = Some (t1, e1)" "eval_key t1 = key" by (auto simp: in_evaluation_def)
    with k have "evs ?s' j = Some (t1, e1)" by auto
    with j(2) show ?thesis unfolding in_evaluation_def by blast
  qed
  have e: "eval_ok ?s' t1 e1" if "evs ?s' j = Some (t1, e1)" for j t1 e1
  proof (cases "j = k")
    case True
    with that have "t1 = t" "e1 = Loading" by simp_all
    then show ?thesis using l [of t] pend by (simp add: eval_ok_def listed_ok_def sats_def authorized_def sv')
  next
    case False
    with that have "evs s j = Some (t1, e1)" by simp
    from evals_okD(1) [OF ok this] show ?thesis by (simp add: eval_ok_def sats_def authorized_def sv')
  qed
  have u: "eval_key t1 \<noteq> eval_key t2" if "i \<noteq> j" "evs ?s' i = Some (t1, e1)" "evs ?s' j = Some (t2, e2)" for i j t1 e1 t2 e2
  proof -
    have "eval_key t' \<noteq> eval_key t" if "evs s l = Some (t', e')" for l t' e'
      using free that unfolding in_evaluation_def by blast
    then show ?thesis
      using that evals_okD(2) [OF ok that(1)] by (cases "i = k"; cases "j = k") (auto, metis)
  qed
  have ls: "listed_ok ?s' (Some n) t'" if "t' \<in> set ts" for t'
    using l [of t'] that keys by (auto simp: listed_ok_def sats_def authorized_def sv')
  show "evals_ok ?s'"
    unfolding evals_ok_def using e u ls b evals_okD(4,5) [OF ok]
    by (auto simp: sv' sats_def authorized_def)
qed

lemma evals_ok_conclude:
  assumes ok: "evals_ok s" and tok: "tables_ok (tabs s)" and k: "evs s k = Some (t, e)" "undone e"
    and f: "finishTrigger now t disposition reason i (svc s) (tabs s) = (sv', d')"
  shows "evals_ok (s\<lparr>tabs := d', svc := sv', evs := (evs s)(k \<mapsto> (t, Replying))\<rparr>)" (is "evals_ok ?s'")
    and "\<forall>r'\<in>set (agent_triggers d'). r' \<in> set (agent_triggers (tabs s)) \<or>
      (yr_id r' = sg_ID t \<and> trigger_ok r' \<and> (\<exists>r\<in>set (agent_triggers (tabs s)). yr_id r = sg_ID t \<and>
         yr_disposition r = ''pending'' \<and> yr_agent r = yr_agent r' \<and> yr_thread r = yr_thread r') \<and>
         sg_Actor (yr_data r') = sg_Actor t \<and> yr_disposition r' = disposition)"
    and "map yr_id (agent_triggers d') = map yr_id (agent_triggers (tabs s)) \<or>
      agent_triggers d' = agent_triggers (tabs s)"
    and "agent_tickets d' = agent_tickets (tabs s)" "super_agents d' = super_agents (tabs s)" "core sv' = core (svc s)"
proof -
  let ?f = "finished_trigger now t disposition reason i"
  obtain o1 where u: "UpdateSuperAgentTrigger ?f (tabs s) = (o1, d')" and sv': "sv' = notify (svc s)"
    using f by (auto simp: finishTrigger_def) (metis prod.collapse)
  note eff = UpdateSuperAgentTrigger_effect [OF u]
  have id: "sg_ID ?f = sg_ID t" "sg_Actor ?f = sg_Actor t" "sg_SuperAgentID ?f = sg_SuperAgentID t"
    "sg_ThreadKey ?f = sg_ThreadKey t" "sg_Disposition ?f = disposition" by (simp_all add: finished_trigger_def)
  from evals_okD(1) [OF ok k(1)] k(2)
  have old: "r \<in> set (agent_triggers (tabs s)) \<Longrightarrow> yr_id r = sg_ID t \<Longrightarrow> yr_disposition r = ''pending'' \<and> yr_data r = t" for r
    by (simp add: eval_ok_def)
  show rows: "\<forall>r'\<in>set (agent_triggers d'). r' \<in> set (agent_triggers (tabs s)) \<or>
      (yr_id r' = sg_ID t \<and> trigger_ok r' \<and> (\<exists>r\<in>set (agent_triggers (tabs s)). yr_id r = sg_ID t \<and>
         yr_disposition r = ''pending'' \<and> yr_agent r = yr_agent r' \<and> yr_thread r = yr_thread r') \<and>
         sg_Actor (yr_data r') = sg_Actor t \<and> yr_disposition r' = disposition)"
    using eff old tok by (force simp: id trigger_ok_def tables_ok_def)
  show "map yr_id (agent_triggers d') = map yr_id (agent_triggers (tabs s)) \<or> agent_triggers d' = agent_triggers (tabs s)"
    using eff by auto
  show "agent_tickets d' = agent_tickets (tabs s)" "super_agents d' = super_agents (tabs s)" using eff by auto
  show "core sv' = core (svc s)" by (simp add: sv')
  have sv: "sv_evaluating sv' = sv_evaluating (svc s)" "sv_evaluations sv' = sv_evaluations (svc s)"
    by (simp_all add: sv' notify_def)
  have keys: "in_evaluation ?s' key" if "in_evaluation s key" for key
  proof -
    from that obtain j t1 e1 where j: "evs s j = Some (t1, e1)" "eval_key t1 = key" by (auto simp: in_evaluation_def)
    with k(1) have "\<exists>e2. evs ?s' j = Some (t1, e2)" by (cases "j = k") auto
    with j(2) show ?thesis unfolding in_evaluation_def by blast
  qed
  have at: "authorized s t" using evals_okD(1) [OF ok k(1)] by (simp add: eval_ok_def)
  have e: "eval_ok ?s' t1 e1" if h: "evs ?s' j = Some (t1, e1)" for j t1 e1
  proof (cases "j = k")
    case True
    with h have "t1 = t" "e1 = Replying" by simp_all
    then show ?thesis using evals_okD(1) [OF ok k(1)] by (simp add: eval_ok_def sats_def authorized_def sv undone_def)
  next
    case False
    with h have j: "evs s j = Some (t1, e1)" by simp
    have "sg_ID t1 \<noteq> sg_ID t" if "undone e1" "r \<in> set (agent_triggers (tabs s))" "yr_id r = sg_ID t1" for r
    proof
      assume "sg_ID t1 = sg_ID t"
      then have "yr_data r = t1" "yr_data r = t"
        using old [OF that(2)] evals_okD(1) [OF ok j] that by (auto simp: eval_ok_def)
      then show False using evals_okD(2) [OF ok False j k(1)] by simp
    qed
    note other = this
    have "yr_disposition r' = ''pending'' \<and> yr_data r' = t1"
      if "undone e1" "r' \<in> set (agent_triggers d')" "yr_id r' = sg_ID t1" for r'
    proof (cases "r' \<in> set (agent_triggers (tabs s))")
      case True
      with that evals_okD(1) [OF ok j] show ?thesis by (simp add: eval_ok_def)
    next
      case False
      with rows that(2,3) obtain r where "r \<in> set (agent_triggers (tabs s))" "yr_id r = sg_ID t" "sg_ID t = sg_ID t1" by metis
      with other [OF that(1)] show ?thesis by metis
    qed
    with evals_okD(1) [OF ok j] show ?thesis by (simp add: eval_ok_def sats_def authorized_def sv)
  qed
  have u: "eval_key t1 \<noteq> eval_key t2" if "i \<noteq> j" "evs ?s' i = Some (t1, e1)" "evs ?s' j = Some (t2, e2)" for i j t1 e1 t2 e2
    using that evals_okD(2) [OF ok] k(1) by (auto split: if_splits)
  have rs: "yr_id r' \<in> sats s \<and> (yr_disposition r' = ''pending'' \<longrightarrow> authorized s (yr_data r'))"
    if h: "r' \<in> set (agent_triggers d')" for r'
  proof -
    from rows h consider (a) "r' \<in> set (agent_triggers (tabs s))"
      | (b) "yr_id r' = sg_ID t" "trigger_ok r'" "sg_Actor (yr_data r') = sg_Actor t" by blast
    then show ?thesis
    proof cases
      case a
      then show ?thesis using evals_okD(4,5) [OF ok] by blast
    next
      case b
      then show ?thesis using at evals_okD(1) [OF ok k(1)] by (simp add: trigger_ok_def authorized_def eval_ok_def)
    qed
  qed
  have ls: "listed_ok ?s' (counted (ps s)) t'" if h: "t' \<in> set (listed (ps s))" for t'
  proof -
    note l = evals_okD(7) [OF ok h]
    have "yr_agent r' = sg_SuperAgentID t' \<and> yr_thread r' = sg_ThreadKey t' \<and>
        (counted (ps s) = Some (sv_evaluations (svc s)) \<longrightarrow>
           yr_disposition r' = ''pending'' \<and> yr_data r' = t' \<or> in_evaluation s (eval_key t'))"
      if r': "r' \<in> set (agent_triggers d')" "yr_id r' = sg_ID t'" for r'
    proof (cases "r' \<in> set (agent_triggers (tabs s))")
      case True
      then show ?thesis using l r'(2) by (simp add: listed_ok_def)
    next
      case False
      with rows r' obtain r where r: "r \<in> set (agent_triggers (tabs s))" "yr_id r = sg_ID t" "sg_ID t = sg_ID t'"
        "yr_agent r = yr_agent r'" "yr_thread r = yr_thread r'" by metis
      with l have lr: "yr_agent r = sg_SuperAgentID t'" "yr_thread r = sg_ThreadKey t'" by (auto simp: listed_ok_def)
      moreover have "yr_data r = t" "trigger_ok r" using old r tok by (auto simp: tables_ok_def)
      ultimately have "eval_key t' = eval_key t" by (simp add: eval_key_def trigger_ok_def)
      then have "in_evaluation s (eval_key t')" using k(1) by (auto simp: in_evaluation_def)
      then show ?thesis using lr r by simp
    qed
    then show ?thesis using l keys by (auto simp: listed_ok_def sats_def authorized_def sv)
  qed
  show "evals_ok ?s'"
    unfolding evals_ok_def using e u rs ls evals_okD(3,6) [OF ok]
    by (simp add: sv sats_def authorized_def)
qed

lemma evals_ok_leave:
  assumes ok: "evals_ok s" and k: "evs s k = Some (t, Leaving)"
  shows "evals_ok (s\<lparr>svc := leave_evaluation t (svc s), evs := (evs s)(k := None)\<rparr>)" (is "evals_ok ?s'")
proof -
  have sv: "set (sv_evaluating (svc ?s')) = set (sv_evaluating (svc s)) - {eval_key t}"
    "length (sv_evaluating (svc ?s')) \<le> length (sv_evaluating (svc s))"
    "sv_evaluations (svc ?s') = Suc (sv_evaluations (svc s))"
    by (auto simp: leave_evaluation_def notify_def length_removeAll_less_eq)
  have e: "eval_ok ?s' t1 e1" if "evs ?s' j = Some (t1, e1)" for j t1 e1
  proof -
    from that have "j \<noteq> k" "evs s j = Some (t1, e1)" by (auto split: if_splits)
    with evals_okD(1,2) [OF ok] k show ?thesis unfolding eval_ok_def sv by (auto simp: sats_def authorized_def)
  qed
  have c: "n \<le> sv_evaluations (svc s)" if "counted (ps s) = Some n" for n by (rule evals_okD(6) [OF ok that])
  have ls: "listed_ok ?s' (counted (ps s)) t'" if "t' \<in> set (listed (ps s))" for t'
    using evals_okD(7) [OF ok that] c unfolding listed_ok_def sv by (auto simp: sats_def authorized_def)
  show ?thesis
    unfolding evals_ok_def using e ls c evals_okD(2-5) [OF ok] sv
    by (auto simp: sats_def authorized_def split: if_splits intro: le_SucI)
qed

lemma evals_ok_list:
  assumes ok: "evals_ok s" and tok: "tables_ok (tabs s)" and p: "ps s = Counted n"
    and l: "ListPendingSuperAgentTriggers m (tabs s) = (r, d')"
  shows "evals_ok (s\<lparr>tabs := d', ps := (case r of None \<Rightarrow> Evaluated | Some ts \<Rightarrow> Considering n ts [])\<rparr>)" (is "evals_ok ?s'")
proof -
  have t: "agent_triggers d' = agent_triggers (tabs s)" using ListPending_same [OF l] by (simp add: same_super_def)
  have "listed_ok ?s' (Some n) x" if "r = Some ts" "x \<in> set ts" for ts x
  proof -
    from ListPending_rows l that obtain q where q: "q \<in> set (agent_triggers (tabs s))" "yr_data q = x"
      "yr_disposition q = ''pending''" by blast
    have "trigger_ok q" using tok q(1) by (simp add: tables_ok_def)
    moreover have "r' = q" if "r' \<in> set (agent_triggers (tabs s))" "yr_id r' = sg_ID x" for r'
      using trigger_key_unique [OF tok that(1) q(1)] that(2) q(2) \<open>trigger_ok q\<close> by (simp add: trigger_ok_def)
    ultimately show ?thesis
      using q evals_okD(4,5) [OF ok q(1)] by (auto simp: listed_ok_def t sats_def authorized_def trigger_ok_def)
  qed
  then show ?thesis
    unfolding evals_ok_def using evals_okD(1-5) [OF ok] evals_okD(6) [OF ok, of n] p
    by (auto simp: t eval_ok_def sats_def authorized_def split: option.splits)
qed

section \<open>Tickets and turns\<close>

definition born :: "system \<Rightarrow> string \<Rightarrow> string \<Rightarrow> bool" where
  "born s i a \<longleftrightarrow> (\<exists>b. births s i = Some b \<and> ti_SuperAgentID b = a)"

definition born_as :: "system \<Rightarrow> SuperAgentTicket \<Rightarrow> bool" where
  "born_as s t \<longleftrightarrow> (\<exists>b. births s (ti_ID t) = Some b \<and> same_birth b t)"

fun eval_agent :: "evaluation \<Rightarrow> SuperAgent option" where
  "eval_agent (Threading a) = Some a"
| "eval_agent (Routing a ts) = Some a"
| "eval_agent (Rescuing a live cause) = Some a"
| "eval_agent (Deciding a ts r) = Some a"
| "eval_agent _ = None"

fun eval_tickets :: "evaluation \<Rightarrow> SuperAgentTicket list" where
  "eval_tickets (Routing a ts) = ts"
| "eval_tickets (Rescuing a live cause) = [live]"
| "eval_tickets (Deciding a ts r) = ts"
| "eval_tickets _ = []"

definition eval_knows :: "system \<Rightarrow> SuperAgentTrigger \<Rightarrow> evaluation \<Rightarrow> bool" where
  "eval_knows s t e \<longleftrightarrow> (\<forall>a. eval_agent e = Some a \<longrightarrow> sa_ID a = sg_SuperAgentID t) \<and>
     (\<forall>x\<in>set (eval_tickets e). born_as s x \<and> ti_SuperAgentID x = sg_SuperAgentID t \<and> ti_ThreadKey x = sg_ThreadKey t)"

fun queue_of :: "pass \<Rightarrow> SuperAgentTicket list" where
  "queue_of (Starting ts) = ts"
| "queue_of (Admitting a i ts) = ts"
| "queue_of _ = []"

fun chosen :: "pass \<Rightarrow> (SuperAgent \<times> string) option" where
  "chosen (Admitting a i ts) = Some (a, i)"
| "chosen _ = None"

definition pass_knows :: "system \<Rightarrow> pass \<Rightarrow> bool" where
  "pass_knows s p \<longleftrightarrow> (\<forall>x\<in>set (queue_of p). born_as s x) \<and> (\<forall>a i. chosen p = Some (a, i) \<longrightarrow> born s i (sa_ID a))"

text \<open>What a turn has read: the ticket as it began, and the number of its inputs.\<close>

fun holding :: "turn \<Rightarrow> (SuperAgentTicket \<times> nat) option" where
  "holding (Working t n) = Some (t, n)"
| "holding (Returned t n r) = Some (t, n)"
| "holding (Ending t n r) = Some (t, n)"
| "holding _ = None"

definition has_read :: "system \<Rightarrow> string \<Rightarrow> SuperAgentTicket \<Rightarrow> nat \<Rightarrow> bool" where
  "has_read s i t n \<longleftrightarrow> ti_ID t = i \<and> n = length (ti_Inputs t) \<and>
     (\<forall>r\<in>set (agent_tickets (tabs s)). kr_id r = i \<longrightarrow> ti_Status (kr_data r) = ''running'' \<longrightarrow>
        take n (ti_Inputs (kr_data r)) = ti_Inputs t)"

definition turn_ok :: "system \<Rightarrow> SuperAgent \<Rightarrow> string \<Rightarrow> turn \<Rightarrow> bool" where
  "turn_ok s a i pc \<longleftrightarrow> born s i (sa_ID a) \<and> run_key (sa_ID a) i \<in> set (sv_running (svc s)) \<and>
     (\<forall>t n. holding pc = Some (t, n) \<longrightarrow> has_read s i t n)"

definition birth_ok :: "system \<Rightarrow> string \<Rightarrow> SuperAgentTicket \<Rightarrow> bool" where
  "birth_ok s i b \<longleftrightarrow> i \<in> tkts s \<and> CHR ''|'' \<notin> set i \<and> ti_ID b = i \<and> (\<exists>src. (ti_TriggerID b, src, ti_Actor b) \<in> admitted s)"

definition row_born :: "system \<Rightarrow> ticket_row \<Rightarrow> bool" where
  "row_born s r \<longleftrightarrow> born_as s (kr_data r) \<and> ticket_status (ti_Status (kr_data r))"

definition turns_ok :: "system \<Rightarrow> bool" where
  "turns_ok s \<longleftrightarrow>
     (\<forall>i b. births s i = Some b \<longrightarrow> birth_ok s i b) \<and>
     (\<forall>r\<in>set (agent_tickets (tabs s)). row_born s r) \<and>
     (\<forall>k t e. evs s k = Some (t, e) \<longrightarrow> eval_knows s t e) \<and>
     pass_knows s (ps s) \<and>
     (\<forall>k a i pc. tns s k = Some (a, i, pc) \<longrightarrow> turn_ok s a i pc) \<and>
     (\<forall>j k a i pc a' pc'. j \<noteq> k \<longrightarrow> tns s j = Some (a, i, pc) \<longrightarrow> tns s k \<noteq> Some (a', i, pc'))"

lemma turns_okD:
  assumes "turns_ok s"
  shows "births s i = Some b \<Longrightarrow> birth_ok s i b"
    "r \<in> set (agent_tickets (tabs s)) \<Longrightarrow> row_born s r"
    "evs s k = Some (t, e) \<Longrightarrow> eval_knows s t e"
    "pass_knows s (ps s)"
    "tns s k = Some (a, i, pc) \<Longrightarrow> turn_ok s a i pc"
    "j \<noteq> k \<Longrightarrow> tns s j = Some (a, i, pc) \<Longrightarrow> tns s k \<noteq> Some (a', i, pc')"
proof -
  note t = assms [unfolded turns_ok_def]
  show "births s i = Some b \<Longrightarrow> birth_ok s i b" by (rule t [THEN conjunct1, rule_format])
  note t2 = t [THEN conjunct2]
  show "r \<in> set (agent_tickets (tabs s)) \<Longrightarrow> row_born s r" by (rule t2 [THEN conjunct1, rule_format])
  note t3 = t2 [THEN conjunct2]
  show "evs s k = Some (t, e) \<Longrightarrow> eval_knows s t e" by (rule t3 [THEN conjunct1, rule_format])
  note t4 = t3 [THEN conjunct2]
  show "pass_knows s (ps s)" by (rule t4 [THEN conjunct1])
  note t5 = t4 [THEN conjunct2]
  show "tns s k = Some (a, i, pc) \<Longrightarrow> turn_ok s a i pc" by (rule t5 [THEN conjunct1, rule_format])
  show "j \<noteq> k \<Longrightarrow> tns s j = Some (a, i, pc) \<Longrightarrow> tns s k \<noteq> Some (a', i, pc')"
    by (rule t5 [THEN conjunct2, rule_format])
qed

lemma status_move_valid:
  assumes "status_move a b" "ticket_status a"
  shows "ticket_status b"
proof -
  have m: "\<forall>p\<in>set ticket_moves. ticket_status (snd p)"
    by (simp add: ticket_moves_def ticket_status_def)
  from assms(1) have "b = a \<or> (a, b) \<in> set ticket_moves" by (simp only: status_move_def)
  then show ?thesis
  proof
    assume "b = a" then show ?thesis using assms(2) by (simp only:)
  next
    assume "(a, b) \<in> set ticket_moves"
    then have "ticket_status (snd (a, b))" by (rule m [THEN bspec])
    then show ?thesis by (simp only: snd_conv)
  qed
qed

lemma born_as_moves:
  assumes "born_as s t" "moves_to t t'"
  shows "born_as s t'"
proof -
  from assms(1) obtain b where b: "births s (ti_ID t) = Some b" "same_birth b t" by (auto simp: born_as_def)
  from moves_birth [OF assms(2)] have "ti_ID t' = ti_ID t" "same_birth b t'"
    using same_birth_trans [OF b(2)] by (auto simp: same_birth_def)
  with b show ?thesis by (simp add: born_as_def)
qed

lemma row_born_moves:
  assumes "row_born s r" "moves_to (kr_data r) (kr_data r')"
  shows "row_born s r'"
proof -
  from assms have "status_move (ti_Status (kr_data r)) (ti_Status (kr_data r'))" by (simp only: moves_to_def)
  with assms show ?thesis unfolding row_born_def using born_as_moves status_move_valid by blast
qed

text \<open>What the steps that neither begin a turn nor start one have in common.\<close>

definition turns_quiet :: "system \<Rightarrow> system \<Rightarrow> bool" where
  "turns_quiet s s' \<longleftrightarrow>
     drawn s \<subseteq> drawn s' \<and> admitted s \<subseteq> admitted s' \<and> births s \<subseteq>\<^sub>m births s' \<and>
     (\<forall>i b. births s' i = Some b \<longrightarrow> births s i = Some b \<or> birth_ok s' i b) \<and>
     (\<forall>r'\<in>set (agent_tickets (tabs s')). r' \<in> set (agent_tickets (tabs s)) \<or>
        (\<exists>r\<in>set (agent_tickets (tabs s)). kr_id r' = kr_id r \<and> soft (kr_data r) (kr_data r')) \<or>
        row_born s' r' \<and> births s (kr_id r') = None) \<and>
     (\<forall>k t e. evs s' k = Some (t, e) \<longrightarrow> evs s k = Some (t, e) \<or> eval_knows s' t e) \<and>
     (ps s' = ps s \<or> pass_knows s' (ps s')) \<and>
     (\<forall>k a i pc'. tns s' k = Some (a, i, pc') \<longrightarrow> run_key (sa_ID a) i \<in> set (sv_running (svc s')) \<and>
        (\<exists>pc. tns s k = Some (a, i, pc) \<and> (holding pc' = None \<or> holding pc' = holding pc)))"

lemma turns_ok_quiet:
  assumes ok: "turns_ok s" and quiet: "turns_quiet s s'"
  shows "turns_ok s'"
proof -
  note q = quiet [unfolded turns_quiet_def]
  have d: "tkts s \<subseteq> tkts s'" and adm: "admitted s \<subseteq> admitted s'" and m: "births s \<subseteq>\<^sub>m births s'"
    using q by (auto simp: tkts_def)
  have b: "births s i = Some x \<Longrightarrow> births s' i = Some x" for i x using m by (force simp: map_le_def)
  have ba: "born_as s t \<Longrightarrow> born_as s' t" and bo: "born s i a \<Longrightarrow> born s' i a" for t i a
    unfolding born_as_def born_def using b by blast+
  have rb: "row_born s r \<Longrightarrow> row_born s' r" for r unfolding row_born_def using ba by blast
  have rows: "r' \<in> set (agent_tickets (tabs s)) \<or>
        (\<exists>r\<in>set (agent_tickets (tabs s)). kr_id r' = kr_id r \<and> soft (kr_data r) (kr_data r')) \<or>
        row_born s' r' \<and> births s (kr_id r') = None" if "r' \<in> set (agent_tickets (tabs s'))" for r'
    using q that by blast
  have 1: "birth_ok s' i x" if "births s' i = Some x" for i x
  proof -
    from q that consider "births s i = Some x" | "birth_ok s' i x" by blast
    then show ?thesis
    proof cases
      case 1
      from turns_okD(1) [OF ok 1] show ?thesis using d adm unfolding birth_ok_def by blast
    qed
  qed
  have 2: "row_born s' r'" if "r' \<in> set (agent_tickets (tabs s'))" for r'
    using rows [OF that] turns_okD(2) [OF ok] rb row_born_moves soft_moves by metis
  have 3: "eval_knows s' t e" if "evs s' k = Some (t, e)" for k t e
  proof -
    from q that consider "evs s k = Some (t, e)" | "eval_knows s' t e" by blast
    then show ?thesis
      using turns_okD(3) [OF ok] ba unfolding eval_knows_def by cases blast+
  qed
  have 4: "pass_knows s' (ps s')"
  proof -
    from q consider "ps s' = ps s" | "pass_knows s' (ps s')" by blast
    then show ?thesis
    proof cases
      case 1
      then show ?thesis using turns_okD(4) [OF ok] ba bo unfolding pass_knows_def by metis
    qed
  qed
  have tn: "run_key (sa_ID a) i \<in> set (sv_running (svc s'))"
      "\<exists>pc. tns s k = Some (a, i, pc) \<and> (holding pc' = None \<or> holding pc' = holding pc)"
    if "tns s' k = Some (a, i, pc')" for k a i pc'
    using q that by blast+
  have 5: "turn_ok s' a i pc'" if h: "tns s' k = Some (a, i, pc')" for k a i pc'
  proof -
    from tn(2) [OF h] obtain pc where pc: "tns s k = Some (a, i, pc)" "holding pc' = None \<or> holding pc' = holding pc" by blast
    note old = turns_okD(5) [OF ok pc(1), unfolded turn_ok_def]
    have "has_read s' i t n" if hp: "holding pc' = Some (t, n)" for t n
    proof -
      from hp pc(2) old have hr: "has_read s i t n" by simp
      have "take n (ti_Inputs (kr_data r')) = ti_Inputs t"
        if r': "r' \<in> set (agent_tickets (tabs s'))" "kr_id r' = i" "ti_Status (kr_data r') = ''running''" for r'
      proof -
        from old have "births s i \<noteq> None" by (auto simp: born_def)
        with rows [OF r'(1)] r'(2) obtain r where r: "r \<in> set (agent_tickets (tabs s))" "kr_id r = i"
          "kr_data r' = kr_data r \<or> soft (kr_data r) (kr_data r')" by metis
        with r'(3) obtain xs where "ti_Status (kr_data r) = ''running''" "ti_Inputs (kr_data r') = ti_Inputs (kr_data r) @ xs"
          unfolding soft_def by (metis append_Nil2)
        moreover from this(1) hr r(1,2) have "take n (ti_Inputs (kr_data r)) = ti_Inputs t" "n = length (ti_Inputs t)"
          by (auto simp: has_read_def)
        moreover from this have "n \<le> length (ti_Inputs (kr_data r))" by (metis length_take min.cobounded1 min.commute)
        ultimately show ?thesis by simp
      qed
      with hr show ?thesis by (simp add: has_read_def)
    qed
    with tn(1) [OF h] old bo show ?thesis by (auto simp: turn_ok_def)
  qed
  have 6: "tns s' k \<noteq> Some (a', i, pc')" if "j \<noteq> k" "tns s' j = Some (a, i, pc)" for j k a i pc a' pc'
    using tn(2) that turns_okD(6) [OF ok that(1)] by metis
  show ?thesis unfolding turns_ok_def using 1 2 3 4 5 6 by blast
qed

end
