(* ===== verification/Super_Reach.thy ===== *)
theory Super_Reach
  imports Super_Invariant
begin

text \<open>
  Every step of the running service keeps its invariant, so the invariant holds in every reachable state.
\<close>

section \<open>The invariant\<close>

definition passed_gate :: "(string \<Rightarrow> string \<Rightarrow> bool) \<Rightarrow> SuperAgentSource option \<Rightarrow> string \<Rightarrow> bool" where
  "passed_gate eqf src actor \<longleftrightarrow>
     (case src of None \<Rightarrow> actor = ''console'' | Some source \<Rightarrow> so_Enabled source \<and> actorAllowed eqf source actor)"

definition gates_ok :: "(string \<Rightarrow> string \<Rightarrow> bool) \<Rightarrow> system \<Rightarrow> bool" where
  "gates_ok eqf s \<longleftrightarrow> (\<forall>(i, src, actor)\<in>admitted s. passed_gate eqf src actor)"

definition sa_inv :: "(string \<Rightarrow> string \<Rightarrow> bool) \<Rightarrow> system \<Rightarrow> bool" where
  "sa_inv eqf s \<longleftrightarrow> tables_ok (tabs s) \<and> evals_ok s \<and> turns_ok s \<and> gates_ok eqf s"

lemma sa_invD:
  assumes "sa_inv eqf s"
  shows "tables_ok (tabs s)" "evals_ok s" "turns_ok s" "gates_ok eqf s"
  using assms by (simp_all add: sa_inv_def)

lemma sa_inv_quiet:
  assumes "sa_inv eqf s" "tables_ok (tabs s')" "evals_quiet s s'" "turns_quiet s s'" "gates_ok eqf s'"
  shows "sa_inv eqf s'"
  using assms evals_ok_quiet turns_ok_quiet unfolding sa_inv_def by blast

lemma gates_ok_same: "gates_ok eqf s \<Longrightarrow> admitted s' = admitted s \<Longrightarrow> gates_ok eqf s'"
  by (simp add: gates_ok_def)

section \<open>Rules for quiet steps\<close>

text \<open>The rows of the tickets after a quiet step.\<close>

definition rows_quiet :: "system \<Rightarrow> system \<Rightarrow> bool" where
  "rows_quiet s s' \<longleftrightarrow> (\<forall>r'\<in>set (agent_tickets (tabs s')). r' \<in> set (agent_tickets (tabs s)) \<or>
     (\<exists>r\<in>set (agent_tickets (tabs s)). kr_id r' = kr_id r \<and> soft (kr_data r) (kr_data r')) \<or>
     row_born s' r' \<and> births s (kr_id r') = None)"

lemma rows_quiet_sub:
  assumes "set (agent_tickets (tabs s')) \<subseteq> set (agent_tickets (tabs s))"
  shows "rows_quiet s s'"
  using assms unfolding rows_quiet_def by blast

lemma rows_quiet_written:
  assumes "written (tabs s) t (tabs s')" "row \<in> set (agent_tickets (tabs s))" "kr_id row = ti_ID t" "soft (kr_data row) t"
  shows "rows_quiet s s'"
  unfolding rows_quiet_def
proof
  fix r' assume "r' \<in> set (agent_tickets (tabs s'))"
  with assms(1) have "r' \<in> set (agent_tickets (tabs s)) \<or> kr_id r' = ti_ID t \<and> kr_data r' = t"
    unfolding written_def by blast
  with assms(2-4) show "r' \<in> set (agent_tickets (tabs s)) \<or>
     (\<exists>r\<in>set (agent_tickets (tabs s)). kr_id r' = kr_id r \<and> soft (kr_data r) (kr_data r')) \<or>
     row_born s' r' \<and> births s (kr_id r') = None" by metis
qed

text \<open>Steps of the pass, of one evaluation, and of one turn.\<close>

lemma turns_running:
  assumes "turns_ok s" "tns s k = Some (a, i, pc)" "sv_running (svc s') = sv_running (svc s)"
  shows "run_key (sa_ID a) i \<in> set (sv_running (svc s'))"
  using turns_okD(5) [OF assms(1,2)] assms(3) by (simp add: turn_ok_def)

lemma turns_quiet_plain:
  assumes "turns_ok s" "drawn s \<subseteq> drawn s'" "admitted s \<subseteq> admitted s'" "births s' = births s" "rows_quiet s s'"
    "evs s' = evs s" "ps s' = ps s \<or> pass_knows s' (ps s')" "tns s' = tns s"
    "sv_running (svc s') = sv_running (svc s)"
  shows "turns_quiet s s'"
  unfolding turns_quiet_def rows_quiet_def [symmetric]
  using assms(2-7,9) turns_running [OF assms(1) _ assms(9)] unfolding assms(4,6,8) by (intro conjI) auto

lemma turns_quiet_eval:
  assumes "turns_ok s" "drawn s \<subseteq> drawn s'" "admitted s' = admitted s" "births s' = births s" "rows_quiet s s'"
    "evs s' = (evs s)(k := x)" "\<And>t e. x = Some (t, e) \<Longrightarrow> eval_knows s' t e" "ps s' = ps s \<or> pass_knows s' (ps s')"
    "tns s' = tns s" "sv_running (svc s') = sv_running (svc s)"
  shows "turns_quiet s s'"
  unfolding turns_quiet_def rows_quiet_def [symmetric]
  using assms(2-8,10) turns_running [OF assms(1) _ assms(10)] unfolding assms(3,4,6,9) by (intro conjI) auto

lemma turns_quiet_turn:
  assumes "turns_ok s" "drawn s' = drawn s" "admitted s' = admitted s" "births s' = births s" "rows_quiet s s'"
    "evs s' = evs s" "ps s' = ps s" "tns s k = Some (a, i, pc)" "tns s' = (tns s)(k \<mapsto> (a, i, pc'))"
    "holding pc' = None \<or> holding pc' = holding pc" "sv_running (svc s') = sv_running (svc s)"
  shows "turns_quiet s s'"
proof -
  have "run_key (sa_ID b) j \<in> set (sv_running (svc s')) \<and>
      (\<exists>pd. tns s l = Some (b, j, pd) \<and> (holding pd' = None \<or> holding pd' = holding pd))"
    if "tns s' l = Some (b, j, pd')" for l b j pd'
    using that assms(8-10) turns_running [OF assms(1) _ assms(11)] by (cases "l = k") auto
  then show ?thesis
    unfolding turns_quiet_def rows_quiet_def [symmetric] using assms(2-7) by (intro conjI) auto
qed

lemma evals_quiet_plain:
  assumes "evs s' = evs s" "drawn s \<subseteq> drawn s'" "admitted s \<subseteq> admitted s'" "core (svc s') = core (svc s)"
    "set (agent_triggers (tabs s')) \<subseteq> set (agent_triggers (tabs s))" "ps s' = ps s"
  shows "evals_quiet s s'"
  using assms unfolding evals_quiet_def core_def by auto

lemma evals_quiet_pass:
  assumes "evs s' = evs s" "drawn s' = drawn s" "admitted s' = admitted s" "core (svc s') = core (svc s)"
    "set (agent_triggers (tabs s')) \<subseteq> set (agent_triggers (tabs s))"
    "counted (ps s') = None \<or> counted (ps s') = counted (ps s) \<or> counted (ps s') = Some (sv_evaluations (svc s)) \<and> listed (ps s') = []"
    "set (listed (ps s')) \<subseteq> set (listed (ps s))" "listed (ps s') \<noteq> [] \<Longrightarrow> counted (ps s') = counted (ps s)"
  shows "evals_quiet s s'"
  unfolding evals_quiet_def using assms(1-5,8) assms(6,7) unfolding core_def by (intro conjI) auto

lemma evals_quiet_eval:
  assumes "evs s k = Some (t, e)" "evs s' = (evs s)(k \<mapsto> (t, e'))" "undone e' \<longrightarrow> undone e" "drawn s \<subseteq> drawn s'"
    "admitted s' = admitted s" "core (svc s') = core (svc s)"
    "set (agent_triggers (tabs s')) \<subseteq> set (agent_triggers (tabs s))" "ps s' = ps s"
  shows "evals_quiet s s'"
  using assms unfolding evals_quiet_def core_def by auto

lemma evals_quiet_new:
  assumes "evs s' = evs s" "drawn s' = insert uuid (drawn s)" "uuid \<notin> drawn s" "admitted s \<subseteq> admitted s'"
    "core (svc s') = core (svc s)" "ps s' = ps s"
    "agent_triggers (tabs s') = agent_triggers (tabs s) \<or>
       (\<exists>row. fresh_row uuid (admitted s') row \<and> agent_triggers (tabs s') = agent_triggers (tabs s) @ [row])"
  shows "evals_quiet s s'"
proof -
  have "r \<in> set (agent_triggers (tabs s)) \<or> yr_id r \<notin> sats s \<and> yr_id r \<in> sats s' \<and>
      (yr_disposition r = ''pending'' \<longrightarrow> authorized s' (yr_data r))" if "r \<in> set (agent_triggers (tabs s'))" for r
  proof (cases "r \<in> set (agent_triggers (tabs s))")
    case False
    with assms(7) that have "fresh_row uuid (admitted s') r" by auto
    then show ?thesis
      using assms(2,3) by (auto simp: fresh_row_def sats_def authorized_def trigger_ok_def)
  qed simp
  then show ?thesis using assms unfolding evals_quiet_def core_def by auto
qed

lemma core_running: "core sv' = core sv \<Longrightarrow> sv_running sv' = sv_running sv"
  by (simp add: core_def)

lemma same_superD:
  assumes "same_super d d'"
  shows "set (agent_triggers d') \<subseteq> set (agent_triggers d)" "set (agent_tickets d') \<subseteq> set (agent_tickets d)"
  using assms by (simp_all add: same_super_def)

section \<open>The steps of the pass\<close>

lemma inv_pass:
  assumes i: "sa_inv eqf s" and d: "same_super (tabs s) d'" and p: "pass_knows (s\<lparr>tabs := d', ps := p'\<rparr>) p'"
    and c: "counted p' = None \<or> counted p' = counted (ps s) \<or> counted p' = Some (sv_evaluations (svc s)) \<and> listed p' = []"
    "set (listed p') \<subseteq> set (listed (ps s))" "listed p' \<noteq> [] \<Longrightarrow> counted p' = counted (ps s)"
  shows "sa_inv eqf (s\<lparr>tabs := d', ps := p'\<rparr>)"
proof (rule sa_inv_quiet [OF i])
  show "tables_ok (tabs (s\<lparr>tabs := d', ps := p'\<rparr>))" using tables_ok_same [OF d sa_invD(1) [OF i]] by simp
  show "evals_quiet s (s\<lparr>tabs := d', ps := p'\<rparr>)" by (rule evals_quiet_pass) (use c same_superD [OF d] in auto)
  show "turns_quiet s (s\<lparr>tabs := d', ps := p'\<rparr>)"
    by (rule turns_quiet_plain [OF sa_invD(3) [OF i]]) (use p same_superD [OF d] rows_quiet_sub in auto)
  show "gates_ok eqf (s\<lparr>tabs := d', ps := p'\<rparr>)" by (rule gates_ok_same [OF sa_invD(4) [OF i]]) simp
qed

lemma pass_knows_none: "queue_of p = [] \<Longrightarrow> chosen p = None \<Longrightarrow> pass_knows s p"
  by (simp add: pass_knows_def)

lemma inv_list_pending:
  assumes i: "sa_inv eqf s" and p: "ps s = Counted n" and l: "ListPendingSuperAgentTriggers m (tabs s) = (r, d')"
  shows "sa_inv eqf (s\<lparr>tabs := d', ps := (case r of None \<Rightarrow> Evaluated | Some ts \<Rightarrow> Considering n ts [])\<rparr>)" (is "sa_inv eqf ?s'")
proof -
  note d = ListPending_same [OF l]
  have "turns_quiet s ?s'"
    by (rule turns_quiet_plain [OF sa_invD(3) [OF i]])
      (use same_superD [OF d] in \<open>auto intro!: rows_quiet_sub pass_knows_none split: option.splits\<close>)
  then have "turns_ok ?s'" by (rule turns_ok_quiet [OF sa_invD(3) [OF i]])
  moreover have "gates_ok eqf ?s'" by (rule gates_ok_same [OF sa_invD(4) [OF i]]) simp
  ultimately show ?thesis
    using evals_ok_list [OF sa_invD(2,1) [OF i] p l] tables_ok_same [OF d sa_invD(1) [OF i]] by (simp add: sa_inv_def)
qed

lemma inv_spawn:
  assumes i: "sa_inv eqf s" and p: "ps s = Considering n (t # ts) blocked"
    and c: "consider_trigger now n t blocked (svc s) = (True, blocked', sv')" and k: "evs s k = None"
  shows "sa_inv eqf (s\<lparr>svc := sv', ps := Considering n ts blocked', evs := (evs s)(k \<mapsto> (t, Loading))\<rparr>)" (is "sa_inv eqf ?s'")
proof -
  have r: "sv_running sv' = sv_running (svc s)" using c by (auto simp: consider_trigger_def split: if_splits)
  have "turns_quiet s ?s'"
    by (rule turns_quiet_eval [OF sa_invD(3) [OF i]])
      (use r in \<open>auto intro!: rows_quiet_sub pass_knows_none simp: eval_knows_def\<close>)
  then have "turns_ok ?s'" by (rule turns_ok_quiet [OF sa_invD(3) [OF i]])
  moreover have "gates_ok eqf ?s'" by (rule gates_ok_same [OF sa_invD(4) [OF i]]) simp
  ultimately show ?thesis using evals_ok_spawn(1) [OF sa_invD(2) [OF i] p c k] sa_invD(1) [OF i] by (simp add: sa_inv_def)
qed

lemma inv_list_queued:
  assumes i: "sa_inv eqf s" and l: "ListSuperAgentTicketsByStatus [st] (tabs s) = (r, d')"
  shows "sa_inv eqf (s\<lparr>tabs := d', ps := (case r of None \<Rightarrow> Resting | Some ts \<Rightarrow> Starting ts)\<rparr>)"
proof (rule inv_pass [OF i ListByStatus_same [OF l]])
  have "born_as s x" if "r = Some ts" "x \<in> set ts" for ts x
  proof -
    from ListByStatus_rows l that obtain q where "q \<in> set (agent_tickets (tabs s))" "x = kr_data q" by fastforce
    then show ?thesis using turns_okD(2) [OF sa_invD(3) [OF i]] by (simp add: row_born_def)
  qed
  then show "pass_knows (s\<lparr>tabs := d', ps := case r of None \<Rightarrow> Resting | Some ts \<Rightarrow> Starting ts\<rparr>)
      (case r of None \<Rightarrow> Resting | Some ts \<Rightarrow> Starting ts)"
    by (auto simp: pass_knows_def born_as_def split: option.splits)
qed (auto split: option.splits)

lemma born_as_born:
  assumes "born_as s t"
  shows "born s (ti_ID t) (ti_SuperAgentID t)"
  using assms by (auto simp: born_as_def born_def same_birth_def)

lemma inv_find_agent:
  assumes i: "sa_inv eqf s" and p: "ps s = Starting (t # ts)" and g: "GetSuperAgent (ti_SuperAgentID t) (tabs s) = (r, d')"
  shows "sa_inv eqf (s\<lparr>tabs := d', ps := (case r of None \<Rightarrow> Resting | Some None \<Rightarrow> Starting ts
      | Some (Some agent) \<Rightarrow> if \<not> sa_Enabled agent then Starting ts else Admitting agent (ti_ID t) ts)\<rparr>)"
    (is "sa_inv eqf (s\<lparr>tabs := d', ps := ?p\<rparr>)")
proof (rule inv_pass [OF i GetSuperAgent_same [OF g]])
  have k: "born_as s x" if "x \<in> set (t # ts)" for x
    using turns_okD(4) [OF sa_invD(3) [OF i]] p that by (auto simp: pass_knows_def)
  have "set (queue_of ?p) \<subseteq> set ts" "\<And>a j. chosen ?p = Some (a, j) \<Longrightarrow> j = ti_ID t \<and> r = Some (Some a)"
    by (auto split: option.splits if_splits)
  moreover have "born s (ti_ID t) (sa_ID a)" if "r = Some (Some a)" for a
    using born_as_born [OF k [of t]] GetSuperAgent_id [OF g [unfolded that] sa_invD(1) [OF i]] by simp
  ultimately have "\<forall>x\<in>set (queue_of ?p). born_as s x" "\<forall>a j. chosen ?p = Some (a, j) \<longrightarrow> born s j (sa_ID a)"
    using k by auto
  then show "pass_knows (s\<lparr>tabs := d', ps := ?p\<rparr>) ?p" by (simp add: pass_knows_def born_as_def born_def)
qed (auto split: option.splits)

lemma run_key_inj:
  assumes "run_key a i = run_key a' i'" "CHR ''|'' \<notin> set i" "CHR ''|'' \<notin> set i'"
  shows "i = i'"
proof -
  have "takeWhile (\<lambda>c. c \<noteq> CHR ''|'') (rev (run_key b j)) = rev j" if "CHR ''|'' \<notin> set j" for b j
    using that unfolding run_key_def rev_append by (simp, subst takeWhile_append2) auto
  then show ?thesis using assms by (metis rev_rev_ident)
qed

lemma inv_admit_turn:
  assumes i: "sa_inv eqf s" and p: "ps s = Admitting agent j ts" and a: "start_turn now agent j (svc s) = (True, sv')"
    and k: "tns s k = None"
  shows "sa_inv eqf (s\<lparr>svc := sv', ps := Starting ts, tns := (tns s)(k \<mapsto> (agent, j, Beginning))\<rparr>)" (is "sa_inv eqf ?s'")
proof -
  note t = sa_invD(3) [OF i]
  have run: "sv_running sv' = run_key (sa_ID agent) j # sv_running (svc s)" "run_key (sa_ID agent) j \<notin> set (sv_running (svc s))"
    and ev: "sv_evaluating sv' = sv_evaluating (svc s)" "sv_evaluations sv' = sv_evaluations (svc s)"
    using a by (auto simp: start_turn_def Let_def split: if_splits)
  have b: "born s j (sa_ID agent)" using turns_okD(4) [OF t] p by (simp add: pass_knows_def)
  have other: "j' \<noteq> j" if "tns s l = Some (a', j', pc)" for l a' j' pc
  proof
    assume "j' = j"
    with turns_okD(5) [OF t that] have "born s j (sa_ID a')" "run_key (sa_ID a') j \<in> set (sv_running (svc s))"
      by (simp_all add: turn_ok_def)
    with b run(2) show False by (auto simp: born_def)
  qed
  have keep: "eval_knows ?s' x e = eval_knows s x e" "row_born ?s' = row_born s" "birth_ok ?s' = birth_ok s" for x e
    by (auto simp: eval_knows_def row_born_def born_as_def birth_ok_def tkts_def fun_eq_iff)
  have 5: "turn_ok ?s' a' j' pc" if "tns ?s' l = Some (a', j', pc)" for l a' j' pc
    using that b run(1) turns_okD(5) [OF t] by (cases "l = k") (auto simp: turn_ok_def born_def has_read_def)
  have 6: "tns ?s' l \<noteq> Some (a'', j', pc')" if "m \<noteq> l" "tns ?s' m = Some (a', j', pc)" for m l a' j' pc a'' pc'
    using that other turns_okD(6) [OF t that(1)] by (auto split: if_splits)
  have 4: "pass_knows ?s' (ps ?s')" using turns_okD(4) [OF t] p by (auto simp: pass_knows_def born_as_def)
  have "turns_ok ?s'"
    unfolding turns_ok_def keep using turns_okD(1-3) [OF t] 4 5 6 by simp
  moreover have "evals_quiet s ?s'" using ev p by (auto simp: evals_quiet_def)
  then have "evals_ok ?s'" by (rule evals_ok_quiet [OF sa_invD(2) [OF i]])
  ultimately show ?thesis using sa_invD(1,4) [OF i] by (simp add: sa_inv_def gates_ok_def)
qed

section \<open>The steps of an evaluation\<close>

lemma inv_eval:
  assumes i: "sa_inv eqf s" and k: "evs s k = Some (t, e)" and u: "undone e' \<longrightarrow> undone e"
    and s': "s' = s\<lparr>tabs := d', svc := sv', evs := (evs s)(k \<mapsto> (t, e')), drawn := dr\<rparr>" and dr: "drawn s \<subseteq> dr"
    and c: "core sv' = core (svc s)" and d: "set (agent_triggers d') \<subseteq> set (agent_triggers (tabs s))" "tables_ok d'"
    and r: "rows_quiet s s'" and e: "eval_knows s t e'"
  shows "sa_inv eqf s'"
proof (rule sa_inv_quiet [OF i])
  show "tables_ok (tabs s')" using d(2) by (simp add: s')
  show "evals_quiet s s'" by (rule evals_quiet_eval [OF k _ u]) (use c d dr in \<open>simp_all add: s'\<close>)
  have "eval_knows s' t e'" using e by (simp add: s' eval_knows_def born_as_def)
  then show "turns_quiet s s'"
    by (intro turns_quiet_eval [OF sa_invD(3) [OF i] _ _ _ r]) (use core_running [OF c] dr in \<open>auto simp: s'\<close>)
  show "gates_ok eqf s'" by (rule gates_ok_same [OF sa_invD(4) [OF i]]) (simp add: s')
qed

lemma inv_eval_same:
  assumes i: "sa_inv eqf s" and k: "evs s k = Some (t, e)" and u: "undone e' \<longrightarrow> undone e"
    and c: "core sv' = core (svc s)" and d: "same_super (tabs s) d'" and e: "eval_knows s t e'"
  shows "sa_inv eqf (s\<lparr>tabs := d', svc := sv', evs := (evs s)(k \<mapsto> (t, e'))\<rparr>)"
  by (rule inv_eval [OF i k u, where dr = "drawn s" and d' = d' and sv' = sv'])
    (use c e same_superD [OF d] tables_ok_same [OF d sa_invD(1) [OF i]] in \<open>auto intro!: rows_quiet_sub\<close>)

lemma eval_knows_none: "eval_agent e = None \<Longrightarrow> eval_tickets e = [] \<Longrightarrow> eval_knows s t e"
  by (simp add: eval_knows_def)

lemma inv_load:
  assumes i: "sa_inv eqf s" and k: "evs s k = Some (t, Loading)" and l: "load_agent t (tabs s) = (e, d')"
  shows "sa_inv eqf (s\<lparr>tabs := d', evs := (evs s)(k \<mapsto> (t, e))\<rparr>)"
proof -
  have e: "eval_tickets e = []"
    using l by (auto simp: load_agent_def after_agent_def split: prod.splits evaluation.splits option.splits if_splits)
  have "sa_ID a = sg_SuperAgentID t" if h: "eval_agent e = Some a" for a
  proof -
    obtain r d1 where g: "GetSuperAgent (sg_SuperAgentID t) (tabs s) = (r, d1)" by force
    with l h obtain a0 where a0: "r = Some (Some a0)" "withWorkerRuntimes a0 d1 = (a, d')"
      by (auto simp: load_agent_def after_agent_def split: prod.splits option.splits if_splits)
    then show ?thesis using GetSuperAgent_id [OF _ sa_invD(1) [OF i]] g withWorkerRuntimes_same by metis
  qed
  with e have "eval_knows s t e" by (simp add: eval_knows_def)
  from inv_eval_same [OF i k _ refl load_agent_same [OF l] this] show ?thesis by (simp add: undone_def)
qed

lemma inv_threads:
  assumes i: "sa_inv eqf s" and k: "evs s k = Some (t, Threading agent)"
    and l: "ListSuperAgentThreadTickets (sa_ID agent) (sg_ThreadKey t) (tabs s) = (r, d')"
  shows "sa_inv eqf (s\<lparr>tabs := d', evs := (evs s)(k \<mapsto> (t, after_threads agent r))\<rparr>)"
proof -
  have a: "sa_ID agent = sg_SuperAgentID t" using turns_okD(3) [OF sa_invD(3) [OF i] k] by (simp add: eval_knows_def)
  have "born_as s x \<and> ti_SuperAgentID x = sg_SuperAgentID t \<and> ti_ThreadKey x = sg_ThreadKey t"
    if "r = Some ts" "x \<in> set ts" for ts x
  proof -
    from ListThread_rows l that obtain q where q: "q \<in> set (agent_tickets (tabs s))" "kr_data q = x"
      "kr_agent q = sa_ID agent" "kr_thread q = sg_ThreadKey t" by blast
    then show ?thesis
      using turns_okD(2) [OF sa_invD(3) [OF i] q(1)] sa_invD(1) [OF i] a
      by (auto simp: row_born_def tables_ok_def ticket_ok_def)
  qed
  then have "eval_knows s t (after_threads agent r)" using a by (auto simp: eval_knows_def after_threads_def split: option.splits)
  from inv_eval_same [OF i k _ refl ListThread_same [OF l] this] show ?thesis by (simp add: undone_def)
qed

lemma routed_knows:
  assumes "eval_knows s t (Routing agent tickets)" "routed ot now agent t tickets outcome sv = (e, sv')"
  shows "eval_knows s t e" "core sv' = core sv"
proof -
  have "latestLiveTicket tickets = Some live \<Longrightarrow> live \<in> set tickets" for live
    by (auto simp: latestLiveTicket_def dest: find_Some_in)
  with assms show "eval_knows s t e"
    by (auto simp: routed_def routerFailed_def router_failed_def after_route_def Let_def eval_knows_def
        split: sum.splits if_splits option.splits)
  show "core sv' = core sv"
    using assms(2) by (auto simp: routed_def routerFailed_def after_route_def Let_def core_def split: sum.splits if_splits)
qed

lemma inv_ask:
  assumes i: "sa_inv eqf s" and k: "evs s k = Some (t, Routing agent tickets)"
    and r: "route_event tx agent ans (tabs s) = (outcome, d')" "routed ot now agent t tickets outcome (svc s) = (e, sv')"
  shows "sa_inv eqf (s\<lparr>tabs := d', svc := sv', evs := (evs s)(k \<mapsto> (t, e))\<rparr>)"
  using inv_eval_same [OF i k _ routed_knows(2) route_same [OF r(1)] routed_knows(1)]
    turns_okD(3) [OF sa_invD(3) [OF i] k] r(2) by (simp add: undone_def)

lemma statuses:
  assumes "sa_inv eqf s"
  shows "\<forall>q\<in>set (agent_tickets (tabs s)). ticket_status (ti_Status (kr_data q))"
  using turns_okD(2) [OF sa_invD(3) [OF assms]] by (simp add: row_born_def)

lemma row_key:
  assumes "sa_inv eqf s" "row \<in> set (agent_tickets (tabs s))"
  shows "ti_ID (kr_data row) = kr_id row"
  using sa_invD(1) [OF assms(1)] assms(2) by (simp add: tables_ok_def ticket_ok_def)

text \<open>A change of a ticket that begins no turn.\<close>

definition soft_change :: "'x ticket_change \<Rightarrow> bool" where
  "soft_change f \<longleftrightarrow> change_ok f \<and>
     (\<forall>t sv t' x sv'. f t sv = (Inr (t', x), sv') \<longrightarrow> ticket_status (ti_Status t) \<longrightarrow> soft t t')"

lemma soft_changes:
  "soft_change (attach_change trigger note)" "soft_change retry_change" "soft_change (reply_error_change m)"
  "soft_change (end_change now t n result)"
proof -
  show "soft_change (attach_change trigger note)"
    unfolding soft_change_def by (intro conjI attach_change_ok allI impI) (erule (1) soft_attach)
  show "soft_change retry_change"
    unfolding soft_change_def by (intro conjI retry_change_ok allI impI) (erule soft_retry)
  show "soft_change (reply_error_change m)"
    unfolding soft_change_def by (intro conjI reply_error_change_ok allI impI) (erule soft_reply_error)
  show "soft_change (end_change now t n result)"
    unfolding soft_change_def by (intro conjI end_change_ok allI impI) (erule soft_end)
qed

lemma mutate_quiet:
  assumes i: "sa_inv eqf s" and m: "mutateTicket between now j f (svc s) (tabs s) = (r, sv', d')" and g: "gap between"
    and f: "soft_change f"
  shows "tables_ok d'" "core sv' = core (svc s)" "set (agent_triggers d') \<subseteq> set (agent_triggers (tabs s))"
    "tabs s' = d' \<Longrightarrow> rows_quiet s s'"
proof -
  have "tables_ok d' \<and> core sv' = core (svc s) \<and> set (agent_triggers d') \<subseteq> set (agent_triggers (tabs s)) \<and>
    (tabs s' = d' \<longrightarrow> rows_quiet s s')"
    using m g sa_invD(1) [OF i] f [unfolded soft_change_def, THEN conjunct1]
  proof (cases rule: mutateTicket_cases)
    case (quiet e)
    then show ?thesis by (auto simp: pruned_def intro: rows_quiet_sub)
  next
    case (changed row t' x sv0)
    have "soft (kr_data row) (t'\<lparr>ti_UpdatedAt := now\<rparr>)"
      using f changed(1,3) statuses [OF i] unfolding soft_change_def by (blast intro: soft_time)
    moreover have "kr_id row = ti_ID (t'\<lparr>ti_UpdatedAt := now\<rparr>)"
      using row_key [OF i changed(1)] changed(4) by (simp add: same_birth_def)
    ultimately have "tabs s' = d' \<longrightarrow> rows_quiet s s'" using changed(1,8) rows_quiet_written by blast
    then show ?thesis using changed(7-9) by (simp add: written_def)
  qed
  then show "tables_ok d'" "core sv' = core (svc s)" "set (agent_triggers d') \<subseteq> set (agent_triggers (tabs s))"
    "tabs s' = d' \<Longrightarrow> rows_quiet s s'" by blast+
qed

lemma inv_rescue:
  assumes i: "sa_inv eqf s" and k: "evs s k = Some (t, Rescuing agent live cause)" and g: "gap between"
    and a: "attach between now (ti_ID live) t [] (svc s) (tabs s) = (r, sv', d')"
  shows "sa_inv eqf (s\<lparr>tabs := d', svc := sv', evs := (evs s)(k \<mapsto> (t, after_rescue agent live cause r))\<rparr>)"
proof -
  note m = mutate_quiet [OF i a [unfolded attach_def] g soft_changes(1)]
  have "eval_knows s t (after_rescue agent live cause r)"
    by (auto simp: after_rescue_def router_failed_def eval_knows_def split: sum.splits)
  then show ?thesis
    by (intro inv_eval [OF i k, where dr = "drawn s" and d' = d' and sv' = sv']) (use m in \<open>auto simp: undone_def\<close>)
qed

lemma inv_conclude:
  assumes i: "sa_inv eqf s" and k: "evs s k = Some (t, Recording agent disposition reason j reply)"
    and f: "finishTrigger now t disposition reason j (svc s) (tabs s) = (sv', d')"
  shows "sa_inv eqf (s\<lparr>tabs := d', svc := sv', evs := (evs s)(k \<mapsto> (t, Replying))\<rparr>)" (is "sa_inv eqf ?s'")
proof -
  note c = evals_ok_conclude [OF sa_invD(2,1) [OF i] k _ f]
  have u: "undone (Recording agent disposition reason j reply)" by (simp add: undone_def)
  have "turns_quiet s ?s'"
    by (rule turns_quiet_eval [OF sa_invD(3) [OF i]])
      (use c(4,6) [OF u] in \<open>auto intro!: rows_quiet_sub eval_knows_none simp: core_def\<close>)
  then have "turns_ok ?s'" by (rule turns_ok_quiet [OF sa_invD(3) [OF i]])
  moreover have "tables_ok d'" using c(2-5) [OF u] sa_invD(1) [OF i] by (auto simp: tables_ok_def)
  moreover have "gates_ok eqf ?s'" by (rule gates_ok_same [OF sa_invD(4) [OF i]]) simp
  ultimately show ?thesis using c(1) [OF u] by (simp add: sa_inv_def)
qed

lemma inv_leave:
  assumes i: "sa_inv eqf s" and k: "evs s k = Some (t, Leaving)"
  shows "sa_inv eqf (s\<lparr>svc := leave_evaluation t (svc s), evs := (evs s)(k := None)\<rparr>)" (is "sa_inv eqf ?s'")
proof -
  have "turns_quiet s ?s'"
    by (rule turns_quiet_eval [OF sa_invD(3) [OF i]])
      (auto intro!: rows_quiet_sub simp: leave_evaluation_def notify_def)
  then have "turns_ok ?s'" by (rule turns_ok_quiet [OF sa_invD(3) [OF i]])
  moreover have "gates_ok eqf ?s'" by (rule gates_ok_same [OF sa_invD(4) [OF i]]) simp
  ultimately show ?thesis using evals_ok_leave [OF sa_invD(2) [OF i] k] sa_invD(1) [OF i] by (simp add: sa_inv_def)
qed

lemma authorized_birth:
  assumes i: "sa_inv eqf s" and k: "evs s k = Some (t, e)"
  shows "\<exists>src. (sg_ID t, src, sg_Actor t) \<in> admitted s"
  using evals_okD(1) [OF sa_invD(2) [OF i] k] by (simp add: eval_ok_def authorized_def)

lemma fresh_ticket:
  assumes i: "sa_inv eqf s" and u: "uuid \<notin> drawn s"
  shows "''tkt_'' @ uuid \<notin> kr_id ` set (agent_tickets (tabs s))" "births s (''tkt_'' @ uuid) = None"
proof -
  note t = sa_invD(3) [OF i]
  show b: "births s (''tkt_'' @ uuid) = None"
    using turns_okD(1) [OF t] u by (cases "births s (''tkt_'' @ uuid)") (auto simp: birth_ok_def tkts_def)
  show "''tkt_'' @ uuid \<notin> kr_id ` set (agent_tickets (tabs s))"
  proof
    assume "''tkt_'' @ uuid \<in> kr_id ` set (agent_tickets (tabs s))"
    then obtain r where r: "r \<in> set (agent_tickets (tabs s))" "kr_id r = ''tkt_'' @ uuid" by auto
    with turns_okD(2) [OF t r(1)] row_key [OF i r(1)] b show False by (simp add: row_born_def born_as_def)
  qed
qed

lemma created_row:
  assumes "written d t d'" "tables_ok d'" "ti_ID t = i"
  shows "map_option kr_data (table_find kr_id i (agent_tickets d')) = Some t"
proof -
  have "\<exists>r. r \<in> set (agent_tickets d') \<and> kr_id r = i" using assms(1) unfolding written_def assms(3) by blast
  then have "table_find kr_id i (agent_tickets d') \<noteq> None" unfolding table_find_def find_None_iff by blast
  then obtain q where q: "table_find kr_id i (agent_tickets d') = Some q" by blast
  from find_Some_in [OF q [unfolded table_find_def]] have "q \<in> set (agent_tickets d')" "kr_id q = i" by simp_all
  moreover have "\<forall>r\<in>set (agent_tickets d'). kr_id r = i \<longrightarrow> kr_data r = t"
    using assms(1) unfolding written_def assms(3) by blast
  ultimately have "kr_data q = t" by blast
  with q show ?thesis by simp
qed

lemma inv_decide:
  assumes i: "sa_inv eqf s" and k: "evs s k = Some (t, Deciding agent tickets decision)" and g: "gap between"
    and u: "uuid \<notin> drawn s" "CHR ''|'' \<notin> set uuid"
    and a: "apply_decision ot between uuid now agent t tickets decision (svc s) (tabs s) = (r, sv', d')"
  shows "sa_inv eqf (s\<lparr>tabs := d', svc := sv', evs := (evs s)(k \<mapsto> (t, after_apply ot agent decision r)),
      drawn := insert uuid (drawn s), births := note_birth r d' (births s)\<rparr>)" (is "sa_inv eqf ?s'")
proof -
  let ?e = "after_apply ot agent decision r"
  let ?s0 = "s\<lparr>tabs := d', svc := sv', evs := (evs s)(k \<mapsto> (t, ?e)), drawn := insert uuid (drawn s)\<rparr>"
  have e: "eval_agent ?e = (None :: SuperAgent option)" "eval_tickets ?e = []"
    by (auto simp: after_apply_def split: sum.splits)
  have q: "sa_inv eqf ?s'" if nb: "\<And>b. note_birth r d' b = b" and d: "set (agent_triggers d') \<subseteq> set (agent_triggers (tabs s))"
    "tables_ok d'" "core sv' = core (svc s)" "rows_quiet s ?s0"
  proof -
    have "sa_inv eqf ?s0"
      using inv_eval [OF i k _ refl subset_insertI d(3,1,2,4) eval_knows_none [OF e(1,2)]] by (simp add: undone_def)
    then show ?thesis by (simp add: nb)
  qed
  from a g sa_invD(1) [OF i] statuses [OF i] fresh_ticket(1) [OF i u(1)] show ?thesis
  proof (cases rule: apply_decision_cases)
    case quiet
    show ?thesis by (rule q) (use quiet in \<open>auto simp: pruned_def intro!: rows_quiet_sub\<close>)
  next
    case (moved ticket row t')
    have "kr_id row = ti_ID t'" using row_key [OF i moved(2)] moved(4) by (auto simp: soft_def moves_to_def same_birth_def)
    then have "rows_quiet s ?s0" using rows_quiet_written [of s t' ?s0 row] moved(2,4,5) by simp
    then show ?thesis by (intro q) (use moved in \<open>auto simp: written_def\<close>)
  next
    case (created worker reason)
    let ?t = "new_ticket uuid now agent t decision worker"
    have id: "ti_ID ?t = ''tkt_'' @ uuid" "ti_TriggerID ?t = sg_ID t" "ti_Actor ?t = sg_Actor t" "ti_Status ?t = ''queued''"
      by (simp_all add: new_ticket_def Let_def)
    have nb: "births ?s' = (births s)(''tkt_'' @ uuid \<mapsto> ?t)"
    proof -
      have "note_birth r d' (births s) =
          (births s)(''tkt_'' @ uuid := map_option kr_data (table_find kr_id (''tkt_'' @ uuid) (agent_tickets d')))"
        by (simp only: created(1) note_birth_def sum.case prod.case if_True simp_thms)
      then show ?thesis unfolding created_row [OF created(4,5) id(1)] by simp
    qed
    have bo: "birth_ok ?s' (''tkt_'' @ uuid) ?t"
      using authorized_birth [OF i k] u(2) id by (auto simp: birth_ok_def tkts_def)
    have rq: "rows_quiet s ?s'"
      unfolding rows_quiet_def
    proof
      fix r' assume "r' \<in> set (agent_tickets (tabs ?s'))"
      with created(4) consider "r' \<in> set (agent_tickets (tabs s))" | "kr_id r' = ti_ID ?t" "kr_data r' = ?t"
        unfolding written_def by auto
      then show "r' \<in> set (agent_tickets (tabs s)) \<or>
         (\<exists>r\<in>set (agent_tickets (tabs s)). kr_id r' = kr_id r \<and> soft (kr_data r) (kr_data r')) \<or>
         row_born ?s' r' \<and> births s (kr_id r') = None"
      proof cases
        case 2
        then have "row_born ?s' r'" using nb id by (simp add: row_born_def born_as_def ticket_status_def)
        with 2 fresh_ticket(2) [OF i u(1)] id(1) show ?thesis by simp
      qed simp
    qed
    have tq: "turns_quiet s ?s'"
    proof -
      have "births s \<subseteq>\<^sub>m births ?s'" unfolding nb map_le_def using fresh_ticket(2) [OF i u(1)] by (metis domIff fun_upd_apply)
      moreover have "births s j = Some b \<or> birth_ok ?s' j b" if "births ?s' j = Some b" for j b
        using that bo unfolding nb by (auto split: if_splits)
      moreover have "eval_knows ?s' t ?e" using e by (intro eval_knows_none) auto
      moreover have "run_key (sa_ID a) j \<in> set (sv_running sv')" if "tns s l = Some (a, j, pc)" for l a j pc
        using turns_running [OF sa_invD(3) [OF i] that, of ?s'] core_running [OF created(2)] by simp
      ultimately show ?thesis
        unfolding turns_quiet_def rows_quiet_def [symmetric] using rq by auto
    qed
    have "evals_quiet s ?s'"
      by (rule evals_quiet_eval [OF k, where e' = ?e])
        (use created in \<open>auto simp: written_def undone_def\<close>)
    then show ?thesis
      using sa_inv_quiet [OF i _ _ tq] created(5) gates_ok_same [OF sa_invD(4) [OF i], of ?s'] by simp
  qed
qed

section \<open>The steps of a turn\<close>

lemma inv_turn:
  assumes i: "sa_inv eqf s" and k: "tns s k = Some (a, j, pc)"
    and h: "holding pc' = None \<or> holding pc' = holding pc" and c: "core sv' = core (svc s)"
    and d: "set (agent_triggers d') \<subseteq> set (agent_triggers (tabs s))" "tables_ok d'"
    and s': "s' = s\<lparr>tabs := d', svc := sv', tns := (tns s)(k \<mapsto> (a, j, pc'))\<rparr>" and r: "rows_quiet s s'"
  shows "sa_inv eqf s'"
proof (rule sa_inv_quiet [OF i])
  show "tables_ok (tabs s')" using d(2) by (simp add: s')
  show "evals_quiet s s'" by (rule evals_quiet_plain) (use c d in \<open>simp_all add: s'\<close>)
  show "turns_quiet s s'"
    by (rule turns_quiet_turn [OF sa_invD(3) [OF i] _ _ _ r _ _ k _ h]) (use core_running [OF c] in \<open>simp_all add: s'\<close>)
  show "gates_ok eqf s'" by (rule gates_ok_same [OF sa_invD(4) [OF i]]) (simp add: s')
qed

lemma inv_turn_pc:
  assumes i: "sa_inv eqf s" and k: "tns s k = Some (a, j, pc)" and h: "holding pc' = None \<or> holding pc' = holding pc"
  shows "sa_inv eqf (s\<lparr>tns := (tns s)(k \<mapsto> (a, j, pc'))\<rparr>)"
  by (rule inv_turn [OF i k h refl subset_refl sa_invD(1) [OF i]]) (auto intro: rows_quiet_sub)

lemma inv_mutate_turn:
  assumes i: "sa_inv eqf s" and k: "tns s k = Some (a, j, pc)" and g: "gap between" and f: "soft_change f"
    and m: "mutateTicket between now i2 f (svc s) (tabs s) = (r, sv', d')" and h: "holding pc' = None"
  shows "sa_inv eqf (s\<lparr>tabs := d', svc := sv', tns := (tns s)(k \<mapsto> (a, j, pc'))\<rparr>)"
proof -
  note q = mutate_quiet [OF i m g f]
  show ?thesis by (rule inv_turn [OF i k disjI1 [OF h] q(2,3,1) refl q(4)]) simp
qed

lemma inv_close:
  assumes i: "sa_inv eqf s" and k: "tns s k = Some (a, j, Closing)"
  shows "sa_inv eqf (s\<lparr>svc := close_turn a j (svc s), tns := (tns s)(k := None)\<rparr>)" (is "sa_inv eqf ?s'")
proof (rule sa_inv_quiet [OF i])
  note t = sa_invD(3) [OF i]
  have sv: "sv_evaluating (close_turn a j (svc s)) = sv_evaluating (svc s)"
    "sv_evaluations (close_turn a j (svc s)) = sv_evaluations (svc s)"
    "sv_running (close_turn a j (svc s)) = removeAll (run_key (sa_ID a) j) (sv_running (svc s))"
    by (simp_all add: close_turn_def notify_def)
  have plain: "CHR ''|'' \<notin> set i" if "tns s l = Some (b, i, pc)" for l b i pc
    using turns_okD(5) [OF t that] turns_okD(1) [OF t] by (auto simp: turn_ok_def born_def birth_ok_def)
  have run: "run_key (sa_ID b) i \<in> set (sv_running (svc ?s'))" if "tns ?s' l = Some (b, i, pc)" for l b i pc
  proof -
    from that have l: "l \<noteq> k" "tns s l = Some (b, i, pc)" by (auto split: if_splits)
    then have "i \<noteq> j" using turns_okD(6) [OF t _ l(2), of k] k by auto
    then have "run_key (sa_ID b) i \<noteq> run_key (sa_ID a) j" using run_key_inj plain [OF l(2)] plain [OF k] by metis
    with turns_okD(5) [OF t l(2)] show ?thesis by (simp add: turn_ok_def sv)
  qed
  moreover have "rows_quiet s ?s'" by (rule rows_quiet_sub) simp
  ultimately show "turns_quiet s ?s'"
    unfolding turns_quiet_def rows_quiet_def [symmetric] by (auto split: if_splits)
  show "evals_quiet s ?s'" by (auto simp: evals_quiet_def sv)
  show "gates_ok eqf ?s'" by (rule gates_ok_same [OF sa_invD(4) [OF i]]) simp
qed (use sa_invD(1) [OF i] in simp)

text \<open>A turn begins with the inputs its ticket has.\<close>

lemma inv_begin:
  assumes i: "sa_inv eqf s" and k: "tns s k = Some (a, j, Beginning)" and g: "gap between"
    and m: "mutateTicket between now j (begin_change now) (svc s) (tabs s) = (r, sv', d')"
  shows "sa_inv eqf (s\<lparr>tabs := d', svc := sv', tns := (tns s)(k \<mapsto> (a, j, after_begin_turn r))\<rparr>)" (is "sa_inv eqf ?s'")
  using m g sa_invD(1) [OF i] begin_change_ok
proof (cases rule: mutateTicket_cases)
  case (quiet e)
  show ?thesis
    by (rule inv_turn [OF i k _ quiet(4) _ quiet(3) refl])
      (use quiet in \<open>auto simp: after_begin_turn_def pruned_def intro!: rows_quiet_sub\<close>)
next
  case (changed row t' x sv0)
  note t = sa_invD(3) [OF i]
  have mv: "moves_to (kr_data row) t'" "ti_Status (kr_data row) = ''queued''" "x = (length (ti_Inputs t'), t')"
    using moves_begin [OF changed(3)] by blast+
  let ?t = "t'\<lparr>ti_UpdatedAt := now\<rparr>"
  have id: "ti_ID t' = j" using mv(1) row_key [OF i changed(1)] changed(2) by (auto simp: moves_to_def same_birth_def)
  have pc: "after_begin_turn r = Working t' (length (ti_Inputs t'))" by (simp add: after_begin_turn_def changed(5) mv(3))
  have rows: "r' \<in> set (agent_tickets (tabs s)) \<and> kr_id r' \<noteq> j \<or> kr_id r' = j \<and> kr_data r' = ?t"
    if "r' \<in> set (agent_tickets d')" for r'
    using changed(8) that id unfolding written_def by auto
  have run: "sv_running sv' = sv_running (svc s)" by (rule core_running [OF changed(7)])
  have keep: "eval_knows ?s' = eval_knows s" "row_born ?s' = row_born s" "birth_ok ?s' = birth_ok s" "born ?s' = born s"
    "pass_knows ?s' = pass_knows s"
    by (auto simp: eval_knows_def row_born_def born_as_def born_def birth_ok_def tkts_def pass_knows_def fun_eq_iff)
  have 2: "row_born s r'" if "r' \<in> set (agent_tickets d')" for r'
  proof -
    from rows [OF that] consider "r' \<in> set (agent_tickets (tabs s))" | "kr_data r' = ?t" by blast
    then show ?thesis
      by cases (use turns_okD(2) [OF t] row_born_moves [OF turns_okD(2) [OF t changed(1)]] moves_time [OF mv(1)] in simp_all)
  qed
  have 5: "turn_ok ?s' b l pc'" if h: "tns ?s' n = Some (b, l, pc')" for n b l pc'
  proof (cases "n = k")
    case True
    with h have "b = a" "l = j" "pc' = Working t' (length (ti_Inputs t'))" by (simp_all add: pc)
    moreover have "has_read ?s' j t' (length (ti_Inputs t'))"
      using rows id by (fastforce simp: has_read_def)
    ultimately show ?thesis using turns_okD(5) [OF t k] by (simp add: turn_ok_def keep run)
  next
    case False
    with h have n: "tns s n = Some (b, l, pc')" by simp
    then have "l \<noteq> j" using turns_okD(6) [OF t False n] k by auto
    then have "r' \<in> set (agent_tickets (tabs s))" if "r' \<in> set (agent_tickets (tabs ?s'))" "kr_id r' = l" for r'
      using rows that by auto
    then have "has_read s l u m \<Longrightarrow> has_read ?s' l u m" for u m
      unfolding has_read_def by blast
    with turns_okD(5) [OF t n] show ?thesis by (simp add: turn_ok_def keep run)
  qed
  have 6: "tns ?s' n \<noteq> Some (b', l, pc'')" if "m \<noteq> n" "tns ?s' m = Some (b, l, pc')" for m n b l pc' b' pc''
    using that turns_okD(6) [OF t] k by (auto split: if_splits)
  have "turns_ok ?s'" unfolding turns_ok_def keep using turns_okD(1,3,4) [OF t] 2 5 6 by simp
  moreover have "evals_quiet s ?s'" by (rule evals_quiet_plain) (use changed(7,8) in \<open>simp_all add: written_def\<close>)
  then have "evals_ok ?s'" by (rule evals_ok_quiet [OF sa_invD(2) [OF i]])
  ultimately show ?thesis using sa_invD(4) [OF i] changed(9) by (simp add: sa_inv_def gates_ok_def)
qed

section \<open>The other handlers\<close>

lemma inv_outside:
  assumes i: "sa_inv eqf s" and c: "core sv' = core (svc s)"
    and d: "set (agent_triggers d') \<subseteq> set (agent_triggers (tabs s))" "tables_ok d'"
    and s': "s' = s\<lparr>tabs := d', svc := sv'\<rparr>" and r: "rows_quiet s s'"
  shows "sa_inv eqf s'"
proof (rule sa_inv_quiet [OF i])
  show "tables_ok (tabs s')" using d(2) by (simp add: s')
  show "evals_quiet s s'" by (rule evals_quiet_plain) (use c d in \<open>simp_all add: s'\<close>)
  show "turns_quiet s s'"
    by (rule turns_quiet_plain [OF sa_invD(3) [OF i] _ _ _ r]) (use core_running [OF c] in \<open>simp_all add: s'\<close>)
  show "gates_ok eqf s'" by (rule gates_ok_same [OF sa_invD(4) [OF i]]) (simp add: s')
qed

lemma inv_gate:
  assumes i: "sa_inv eqf s" and u: "uuid \<notin> drawn s" and ok: "tables_ok d'"
    and e: "agent_tickets d' = agent_tickets (tabs s) \<and> super_agents d' = super_agents (tabs s) \<and> core sv' = core (svc s) \<and>
      (agent_triggers d' = agent_triggers (tabs s) \<or> (\<exists>row. fresh_row uuid adm row \<and>
         agent_triggers d' = agent_triggers (tabs s) @ [row] \<and> yr_id row \<notin> yr_id ` set (agent_triggers (tabs s))))"
    and a: "admitted s \<subseteq> adm" "\<forall>(i, src, actor)\<in>adm. passed_gate eqf src actor"
  shows "sa_inv eqf (s\<lparr>tabs := d', svc := sv', drawn := insert uuid (drawn s), admitted := adm\<rparr>)" (is "sa_inv eqf ?s'")
proof (rule sa_inv_quiet [OF i])
  from e have tk: "agent_tickets d' = agent_tickets (tabs s)" and run: "sv_running sv' = sv_running (svc s)"
    using core_running by blast+
  show "evals_quiet s ?s'" by (rule evals_quiet_new [OF _ _ u]) (use e a in auto)
  show "turns_quiet s ?s'"
    by (rule turns_quiet_plain [OF sa_invD(3) [OF i] _ _ _ rows_quiet_sub])
      (use tk run a(1) in \<open>simp_all add: subset_insertI\<close>)
  show "gates_ok eqf ?s'" using a(2) by (simp add: gates_ok_def)
qed (use ok in simp)

lemma tables_ok_gate:
  fixes d d' :: super_db
  assumes "tables_ok d" and "agent_tickets d' = agent_tickets d" "super_agents d' = super_agents d"
    and "agent_triggers d' = agent_triggers d \<or> (\<exists>row. fresh_row uuid adm row \<and>
         agent_triggers d' = agent_triggers d @ [row] \<and> yr_id row \<notin> yr_id ` set (agent_triggers d))"
  shows "tables_ok d'"
proof -
  from assms(4) consider "agent_triggers d' = agent_triggers d"
    | row where "fresh_row uuid adm row" "agent_triggers d' = agent_triggers d @ [row]"
        "yr_id row \<notin> yr_id ` set (agent_triggers d)" by blast
  then show ?thesis
    by cases (use assms(1-3) in \<open>auto simp: tables_ok_def fresh_row_def\<close>)
qed

lemma inv_ingest:
  assumes i: "sa_inv eqf s" and u: "uuid \<notin> drawn s"
    and g: "Ingest eqf uuid now agent source trigger (svc s) (tabs s) = (r, sv', d')"
  shows "sa_inv eqf (s\<lparr>tabs := d', svc := sv', drawn := insert uuid (drawn s),
      admitted := (if so_Enabled source \<and> actorAllowed eqf source (sg_Actor trigger)
        then insert (''sat_'' @ uuid, Some source, sg_Actor trigger) (admitted s) else admitted s)\<rparr>)"
    (is "sa_inv eqf (s\<lparr>tabs := d', svc := sv', drawn := _, admitted := ?adm\<rparr>)")
proof -
  have e: "agent_tickets d' = agent_tickets (tabs s) \<and> super_agents d' = super_agents (tabs s) \<and> core sv' = core (svc s) \<and>
      (agent_triggers d' = agent_triggers (tabs s) \<or> (\<exists>row. fresh_row uuid ?adm row \<and>
         agent_triggers d' = agent_triggers (tabs s) @ [row] \<and> yr_id row \<notin> yr_id ` set (agent_triggers (tabs s))))"
    by (rule Ingest_effect [OF g]) simp
  moreover have "tables_ok d'" using tables_ok_gate [OF sa_invD(1) [OF i]] e by blast
  moreover have "\<forall>(i, src, actor)\<in>?adm. passed_gate eqf src actor"
    using sa_invD(4) [OF i] by (auto simp: gates_ok_def passed_gate_def)
  moreover have "admitted s \<subseteq> ?adm" by auto
  ultimately show ?thesis by (intro inv_gate [OF i u])
qed

lemma inv_manual:
  assumes i: "sa_inv eqf s" and u: "uuid \<notin> drawn s" and g: "TriggerManually uuid now j text (svc s) (tabs s) = (r, sv', d')"
  shows "sa_inv eqf (s\<lparr>tabs := d', svc := sv', drawn := insert uuid (drawn s),
      admitted := insert (''sat_'' @ uuid, None, ''console'') (admitted s)\<rparr>)"
proof -
  let ?adm = "insert (''sat_'' @ uuid, None, ''console'') (admitted s)"
  have e: "agent_tickets d' = agent_tickets (tabs s) \<and> super_agents d' = super_agents (tabs s) \<and> core sv' = core (svc s) \<and>
      (agent_triggers d' = agent_triggers (tabs s) \<or> (\<exists>row. fresh_row uuid ?adm row \<and>
         agent_triggers d' = agent_triggers (tabs s) @ [row] \<and> yr_id row \<notin> yr_id ` set (agent_triggers (tabs s))))"
    by (rule TriggerManually_effect [OF g]) simp
  moreover have "tables_ok d'" using tables_ok_gate [OF sa_invD(1) [OF i]] e by blast
  moreover have "\<forall>(i, src, actor)\<in>?adm. passed_gate eqf src actor"
    using sa_invD(4) [OF i] by (auto simp: gates_ok_def passed_gate_def)
  ultimately show ?thesis by (intro inv_gate [OF i u]) auto
qed

lemma inv_stop_ticket:
  assumes i: "sa_inv eqf s" and g: "gap between" and m: "StopTicket between now j (svc s) (tabs s) = (r, sv', d')"
  shows "sa_inv eqf (s\<lparr>tabs := d', svc := sv'\<rparr>)"
  using m g sa_invD(1) [OF i]
proof (cases rule: StopTicket_cases)
  case (quiet e)
  show ?thesis
    by (rule inv_outside [OF i quiet(4) _ quiet(3) refl]) (use quiet in \<open>auto simp: pruned_def intro!: rows_quiet_sub\<close>)
next
  case (changed row)
  have "soft (kr_data row) (stopped_ticket now (kr_data row))" using soft_stopped changed(1,5) statuses [OF i] by blast
  moreover have "kr_id row = ti_ID (stopped_ticket now (kr_data row))"
    using row_key [OF i changed(1)] by (simp add: stopped_ticket_def)
  moreover have "set (agent_triggers d') \<subseteq> set (agent_triggers (tabs s))" using changed(6) by (simp add: written_def)
  ultimately show ?thesis
    by (intro inv_outside [OF i changed(4) _ changed(7) refl] rows_quiet_written [where row = row])
      (use changed in simp_all)
qed

lemma inv_retry:
  assumes i: "sa_inv eqf s" and g: "gap between" and m: "RetryTicket between now j (svc s) (tabs s) = (r, sv', d')"
  shows "sa_inv eqf (s\<lparr>tabs := d', svc := sv'\<rparr>)"
proof -
  note q = mutate_quiet [OF i m [unfolded RetryTicket_def] g soft_changes(2)]
  show ?thesis by (rule inv_outside [OF i q(2,3,1) refl q(4)]) simp
qed

lemma inv_tables:
  assumes i: "sa_inv eqf s" and c: "core sv' = core (svc s)" and p: "pruned (tabs s) d'"
  shows "sa_inv eqf (s\<lparr>tabs := d', svc := sv'\<rparr>)"
  by (rule inv_outside [OF i c _ tables_ok_pruned [OF p sa_invD(1) [OF i]] refl])
    (use p in \<open>auto simp: pruned_def intro!: rows_quiet_sub\<close>)

lemma inv_configure:
  assumes i: "sa_inv eqf s" and u: "UpsertSuperAgent a (tabs s) = (ok, d')"
  shows "sa_inv eqf (s\<lparr>tabs := d'\<rparr>)"
  by (rule inv_outside [OF i refl]) (use UpsertSuperAgent_effect [OF u sa_invD(1) [OF i]] in \<open>auto intro!: rows_quiet_sub\<close>)

lemma inv_crash:
  assumes i: "sa_inv eqf s" and c: "Start_service homes uuids now (tabs s) = (ok, sv', d')"
  shows "sa_inv eqf (s\<lparr>tabs := d', svc := sv', up := ok, ps := Resting, evs := (\<lambda>_. None), tns := (\<lambda>_. None)\<rparr>)"
    (is "sa_inv eqf ?s'")
proof -
  note e = Start_effect [OF c sa_invD(1) [OF i]]
  have sv: "sv_evaluating sv' = []" using e(5) by (simp add: core_def fresh_service_def)
  have "evals_ok ?s'"
    unfolding evals_ok_def using evals_okD(4,5) [OF sa_invD(2) [OF i]] e(2)
    by (auto simp: sv sats_def authorized_def)
  moreover have "row_born ?s' r'" if "r' \<in> set (agent_tickets d')" for r'
  proof -
    have keep: "row_born ?s' = row_born s" by (auto simp: row_born_def born_as_def fun_eq_iff)
    from e(3) that consider "r' \<in> set (agent_tickets (tabs s))"
      | r where "r \<in> set (agent_tickets (tabs s))" "moves_to (kr_data r) (kr_data r')" using moves_recovered by metis
    then show ?thesis
      unfolding keep by cases (use turns_okD(2) [OF sa_invD(3) [OF i]] row_born_moves in blast)+
  qed
  then have "turns_ok ?s'"
    using turns_okD(1) [OF sa_invD(3) [OF i]] by (auto simp: turns_ok_def birth_ok_def tkts_def pass_knows_def)
  ultimately show ?thesis using e(1) sa_invD(4) [OF i] by (simp add: sa_inv_def gates_ok_def)
qed

section \<open>Reachable states\<close>

lemma inv_pass_only:
  assumes "sa_inv eqf s" "queue_of p' = []" "chosen p' = None" "listed p' = []"
    "counted p' = None \<or> counted p' = Some (sv_evaluations (svc s))"
  shows "sa_inv eqf (s\<lparr>ps := p'\<rparr>)"
  using inv_pass [OF assms(1) same_super_refl, of p'] pass_knows_none [OF assms(2,3)] assms(4,5) by auto

lemma inv_db_only:
  assumes "sa_inv eqf s" "pruned (tabs s) d'"
  shows "sa_inv eqf (s\<lparr>tabs := d'\<rparr>)"
  using inv_tables [OF assms(1) refl assms(2)] by simp

lemma inv_svc_only:
  assumes "sa_inv eqf s" "core sv' = core (svc s)"
  shows "sa_inv eqf (s\<lparr>svc := sv'\<rparr>)"
  using inv_tables [OF assms pruned_same [OF same_super_refl]] by simp

theorem sa_inv_step:
  assumes i: "sa_inv eqf s" and st: "sa_step ot eqf s s'"
  shows "sa_inv eqf s'"
  using st
proof cases
  case count
  show ?thesis unfolding count(1) by (rule inv_pass_only [OF i]) simp_all
next
  case list_pending
  show ?thesis unfolding list_pending(1) by (rule inv_list_pending [OF i list_pending(2,3)])
next
  case (skip n t ts blocked now blocked' sv')
  then have "svc s = sv'" by (auto simp: consider_trigger_def split: if_splits)
  then have s': "s' = s\<lparr>tabs := tabs s, ps := Considering n ts blocked'\<rparr>" using skip(1) by simp
  show ?thesis unfolding s' by (rule inv_pass [OF i]) (use skip(2) in \<open>auto intro: pass_knows_none\<close>)
next
  case spawn
  show ?thesis unfolding spawn(1) by (rule inv_spawn [OF i spawn(2-4)])
next
  case considered
  show ?thesis unfolding considered(1) by (rule inv_pass_only [OF i]) simp_all
next
  case list_queued
  show ?thesis unfolding list_queued(1) by (rule inv_list_queued [OF i list_queued(3)])
next
  case find_agent
  show ?thesis unfolding find_agent(1) by (rule inv_find_agent [OF i find_agent(2,3)])
next
  case (refuse agent j ts now sv')
  then have "svc s = sv'" by (auto simp: start_turn_def Let_def split: if_splits)
  then have s': "s' = s\<lparr>tabs := tabs s, ps := Starting ts\<rparr>" using refuse(1) by simp
  have "pass_knows s (Starting ts)" using turns_okD(4) [OF sa_invD(3) [OF i]] refuse(2) by (simp add: pass_knows_def)
  then show ?thesis unfolding s' by (intro inv_pass [OF i]) (auto simp: pass_knows_def born_as_def)
next
  case admit
  show ?thesis unfolding admit(1) by (rule inv_admit_turn [OF i admit(2-4)])
next
  case started
  show ?thesis unfolding started(1) by (rule inv_pass_only [OF i]) simp_all
next
  case load
  show ?thesis unfolding load(1) by (rule inv_load [OF i load(2,3)])
next
  case threads
  show ?thesis unfolding threads(1) by (rule inv_threads [OF i threads(2,3)])
next
  case ask
  show ?thesis unfolding ask(1) by (rule inv_ask [OF i ask(2-4)])
next
  case rescue
  show ?thesis unfolding rescue(1) by (rule inv_rescue [OF i rescue(2-4)])
next
  case decide
  show ?thesis unfolding decide(1) by (rule inv_decide [OF i decide(2-6)])
next
  case conclude
  show ?thesis unfolding conclude(1) by (rule inv_conclude [OF i conclude(2,3)])
next
  case (reply k t)
  have s': "s' = s\<lparr>tabs := tabs s, svc := svc s, evs := (evs s)(k \<mapsto> (t, Leaving))\<rparr>" using reply(1) by simp
  show ?thesis
    unfolding s' by (rule inv_eval_same [OF i reply(2)]) (auto simp: undone_def intro: eval_knows_none)
next
  case leave
  show ?thesis unfolding leave(1) by (rule inv_leave [OF i leave(2)])
next
  case begin_turn
  show ?thesis unfolding begin_turn(1) by (rule inv_begin [OF i begin_turn(2-4)])
next
  case work
  show ?thesis unfolding work(1) by (rule inv_turn_pc [OF i work(2)]) simp
next
  case look
  show ?thesis unfolding look(1) by (rule inv_turn_pc [OF i look(2)]) simp
next
  case (end_turn k agent j t n result between now r2 sv' d')
  have "holding (after_end t r2) = None" by (auto simp: after_end_def split: sum.splits)
  then show ?thesis unfolding end_turn(1) by (rule inv_mutate_turn [OF i end_turn(2,3) soft_changes(4) end_turn(4)])
next
  case (answer k agent j t target message err)
  show ?thesis unfolding answer(1) by (rule inv_turn_pc [OF i answer(2)]) (auto split: option.splits)
next
  case note_error
  show ?thesis unfolding note_error(1) by (rule inv_mutate_turn [OF i note_error(2,3) soft_changes(3) note_error(4)]) simp
next
  case close
  show ?thesis unfolding close(1) by (rule inv_close [OF i close(2)])
next
  case ingest
  show ?thesis unfolding ingest(1) by (rule inv_ingest [OF i ingest(3,4)])
next
  case manual
  show ?thesis unfolding manual(1) by (rule inv_manual [OF i manual(3,4)])
next
  case stop
  show ?thesis unfolding stop(1) by (rule inv_stop_ticket [OF i stop(3,4)])
next
  case retry
  show ?thesis unfolding retry(1) by (rule inv_retry [OF i retry(3,4)])
next
  case configure
  show ?thesis unfolding configure(1) by (rule inv_configure [OF i configure(3)])
next
  case (refresh r3 sv' d')
  note e = refreshClaims_same [OF refresh(3)]
  show ?thesis unfolding refresh(1) by (rule inv_tables [OF i]) (use e in \<open>auto intro: pruned_same\<close>)
next
  case (mark j)
  show ?thesis unfolding mark(1) by (rule inv_svc_only [OF i]) (simp add: mark_deleted_def)
next
  case (delete j ok d')
  show ?thesis unfolding delete(1) by (rule inv_db_only [OF i DeleteSuperAgent_pruned [OF delete(3)]])
next
  case (other d' h w)
  show ?thesis
    unfolding other(1) by (rule inv_tables [OF i])
      (use other(2) in \<open>auto simp: other_tables_def same_super_def intro: pruned_same\<close>)
next
  case crash
  show ?thesis unfolding crash(1) by (rule inv_crash [OF i crash(2)])
qed

lemma sa_inv_init: "sa_init s \<Longrightarrow> sa_inv eqf s"
  by (auto simp: sa_init_def sa_inv_def tables_ok_def evals_ok_def turns_ok_def gates_ok_def pass_knows_def
      fresh_service_def)

theorem sa_inv_reach: "sa_reach ot eqf s \<Longrightarrow> sa_inv eqf s"
  by (induction rule: sa_reach.induct) (blast intro: sa_inv_init sa_inv_step)+

end
