(* ===== verification/Super_Moves.thy ===== *)
theory Super_Moves
  imports Super_Reach
begin

text \<open>
  What one step may do to the rows: a decided event is never touched again, a ticket moves along the states it may go
  through, and a deleted one does not come back.
\<close>

section \<open>One step\<close>

definition triggers_move :: "system \<Rightarrow> system \<Rightarrow> bool" where
  "triggers_move s s' \<longleftrightarrow> (\<forall>r'\<in>set (agent_triggers (tabs s')). r' \<in> set (agent_triggers (tabs s)) \<or>
     yr_id r' \<notin> sats s \<or> (\<exists>r\<in>set (agent_triggers (tabs s)). yr_id r = yr_id r' \<and> yr_disposition r = ''pending''))"

definition tickets_move :: "system \<Rightarrow> system \<Rightarrow> bool" where
  "tickets_move s s' \<longleftrightarrow> births s \<subseteq>\<^sub>m births s' \<and>
     (\<forall>r'\<in>set (agent_tickets (tabs s')). (\<exists>r\<in>set (agent_tickets (tabs s)). kr_id r = kr_id r' \<and>
        moves_to (kr_data r) (kr_data r')) \<or> births s (kr_id r') = None)"

definition rows_move :: "system \<Rightarrow> system \<Rightarrow> bool" where
  "rows_move s s' \<longleftrightarrow> drawn s \<subseteq> drawn s' \<and> triggers_move s s' \<and> tickets_move s s'"

lemma moves_self [simp]: "moves_to t t"
  by (simp add: moves_to_def status_move_def)

lemma rows_move_sub:
  assumes "drawn s \<subseteq> drawn s'" "births s' = births s" "rows_quiet s s'"
    "set (agent_triggers (tabs s')) \<subseteq> set (agent_triggers (tabs s))"
  shows "rows_move s s'"
proof -
  have "\<exists>r\<in>set (agent_tickets (tabs s)). kr_id r = kr_id r' \<and> moves_to (kr_data r) (kr_data r')"
    if "r' \<in> set (agent_tickets (tabs s'))" "births s (kr_id r') \<noteq> None" for r'
  proof -
    note q = assms(3) [unfolded rows_quiet_def, THEN bspec, OF that(1)]
    from q that(2) consider "r' \<in> set (agent_tickets (tabs s))"
      | "\<exists>r\<in>set (agent_tickets (tabs s)). kr_id r' = kr_id r \<and> soft (kr_data r) (kr_data r')"
      by argo
    then show ?thesis
    proof cases
      case 1
      then show ?thesis using moves_self by blast
    next
      case 2
      then show ?thesis using soft_moves by metis
    qed
  qed
  then have "tickets_move s s'" unfolding tickets_move_def assms(2) by (intro conjI map_le_refl) blast
  moreover have "triggers_move s s'" unfolding triggers_move_def using assms(4) by blast
  ultimately show ?thesis using assms(1) by (simp add: rows_move_def)
qed

lemma rows_move_same:
  assumes "drawn s' = drawn s" "births s' = births s" "same_super (tabs s) (tabs s')"
  shows "rows_move s s'"
  using assms rows_quiet_sub by (intro rows_move_sub) (auto simp: same_super_def)

lemma rows_move_mutate:
  assumes i: "sa_inv eqf s" and m: "mutateTicket between now j f (svc s) (tabs s) = (r, sv', tabs s')" and g: "gap between"
    and f: "soft_change f" and s: "drawn s' = drawn s" "births s' = births s"
  shows "rows_move s s'"
  using mutate_quiet [OF i m g f] s by (intro rows_move_sub) auto

lemma rows_move_begin:
  assumes i: "sa_inv eqf s" and m: "mutateTicket between now j (begin_change now) (svc s) (tabs s) = (r, sv', tabs s')"
    and g: "gap between" and s: "drawn s' = drawn s" "births s' = births s"
  shows "rows_move s s'"
  using m g sa_invD(1) [OF i] begin_change_ok
proof (cases rule: mutateTicket_cases)
  case (quiet e)
  then show ?thesis using s by (intro rows_move_sub rows_quiet_sub) (auto simp: pruned_def)
next
  case (changed row t' x sv0)
  have mv: "moves_to (kr_data row) (t'\<lparr>ti_UpdatedAt := now\<rparr>)" using moves_begin [OF changed(3)] moves_time by blast
  have "kr_id row = ti_ID (t'\<lparr>ti_UpdatedAt := now\<rparr>)"
    using row_key [OF i changed(1)] changed(4) by (simp add: same_birth_def)
  then have "\<exists>r\<in>set (agent_tickets (tabs s)). kr_id r = kr_id r' \<and> moves_to (kr_data r) (kr_data r')"
    if "r' \<in> set (agent_tickets (tabs s'))" for r'
    using changed(1,8) mv that moves_self unfolding written_def by metis
  moreover have "set (agent_triggers (tabs s')) \<subseteq> set (agent_triggers (tabs s))" using changed(8) by (simp add: written_def)
  ultimately show ?thesis
    using s unfolding rows_move_def triggers_move_def tickets_move_def by auto
qed

lemma rows_move_decide:
  assumes i: "sa_inv eqf s" and g: "gap between" and u: "uuid \<notin> drawn s"
    and a: "apply_decision ot between uuid now agent t tickets decision (svc s) (tabs s) = (r, sv', tabs s')"
    and s: "drawn s' = insert uuid (drawn s)" "births s' = note_birth r (tabs s') (births s)"
  shows "rows_move s s'"
  using a g sa_invD(1) [OF i] statuses [OF i] fresh_ticket(1) [OF i u]
proof (cases rule: apply_decision_cases)
  case quiet
  then show ?thesis using s by (intro rows_move_sub rows_quiet_sub) (auto simp: pruned_def)
next
  case (moved ticket row t')
  have "kr_id row = ti_ID t'" using row_key [OF i moved(2)] moved(4) by (auto simp: soft_def moves_to_def same_birth_def)
  then have "rows_quiet s s'" using rows_quiet_written [of s t' s' row] moved(2,4,5) by simp
  then show ?thesis using s moved by (intro rows_move_sub) (auto simp: written_def)
next
  case (created worker reason)
  let ?i = "''tkt_'' @ uuid"
  have b: "births s' = (births s)(?i := map_option kr_data (table_find kr_id ?i (agent_tickets (tabs s'))))"
    unfolding s(2) by (simp only: created(1) note_birth_def sum.case prod.case if_True simp_thms)
  have "births s \<subseteq>\<^sub>m births s'"
    unfolding b map_le_def using fresh_ticket(2) [OF i u] by (metis domIff fun_upd_apply)
  moreover have "ti_ID (new_ticket uuid now agent t decision worker) = ?i" by (simp add: new_ticket_def Let_def)
  then have "(\<exists>r\<in>set (agent_tickets (tabs s)). kr_id r = kr_id r' \<and> moves_to (kr_data r) (kr_data r')) \<or>
      births s (kr_id r') = None" if "r' \<in> set (agent_tickets (tabs s'))" for r'
    using created(4) that fresh_ticket(2) [OF i u] moves_self unfolding written_def by metis
  moreover have "set (agent_triggers (tabs s')) \<subseteq> set (agent_triggers (tabs s))" using created(4) by (simp add: written_def)
  ultimately show ?thesis using s(1) unfolding rows_move_def triggers_move_def tickets_move_def by auto
qed

lemma rows_move_gate:
  assumes u: "uuid \<notin> drawn s" and t: "agent_tickets (tabs s') = agent_tickets (tabs s)" "births s' = births s"
    "drawn s' = insert uuid (drawn s)"
    and e: "agent_triggers (tabs s') = agent_triggers (tabs s) \<or>
      (\<exists>row. fresh_row uuid adm row \<and> agent_triggers (tabs s') = agent_triggers (tabs s) @ [row] \<and> P row)"
  shows "rows_move s s'"
proof -
  have "r' \<in> set (agent_triggers (tabs s)) \<or> yr_id r' \<notin> sats s" if "r' \<in> set (agent_triggers (tabs s'))" for r'
  proof (cases "r' \<in> set (agent_triggers (tabs s))")
    case False
    with e that have "fresh_row uuid adm r'" by auto
    then show ?thesis using u by (auto simp: fresh_row_def sats_def)
  qed simp
  then show ?thesis using t unfolding rows_move_def triggers_move_def tickets_move_def by (auto intro: moves_self)
qed

lemma rows_move_conclude:
  assumes i: "sa_inv eqf s" and k: "evs s k = Some (t, e)" "undone e"
    and f: "finishTrigger now t disposition reason j (svc s) (tabs s) = (sv', tabs s')"
    and s: "drawn s' = drawn s" "births s' = births s"
  shows "rows_move s s'"
proof -
  note c = evals_ok_conclude(2,4) [OF sa_invD(2,1) [OF i] k f]
  have "r' \<in> set (agent_triggers (tabs s)) \<or>
      (\<exists>r\<in>set (agent_triggers (tabs s)). yr_id r = yr_id r' \<and> yr_disposition r = ''pending'')"
    if "r' \<in> set (agent_triggers (tabs s'))" for r'
    using c(1) that by force
  then show ?thesis using c(2) s unfolding rows_move_def triggers_move_def tickets_move_def by (auto intro: moves_self)
qed

lemma rows_move_stop:
  assumes i: "sa_inv eqf s" and g: "gap between" and m: "StopTicket between now j (svc s) (tabs s) = (r, sv', tabs s')"
    and s: "drawn s' = drawn s" "births s' = births s"
  shows "rows_move s s'"
  using m g sa_invD(1) [OF i]
proof (cases rule: StopTicket_cases)
  case (quiet e)
  then show ?thesis using s by (intro rows_move_sub rows_quiet_sub) (auto simp: pruned_def)
next
  case (changed row)
  have "soft (kr_data row) (stopped_ticket now (kr_data row))" using soft_stopped changed(1,5) statuses [OF i] by blast
  moreover have "kr_id row = ti_ID (stopped_ticket now (kr_data row))"
    using row_key [OF i changed(1)] by (simp add: stopped_ticket_def)
  ultimately have "rows_quiet s s'" using changed(1,6) rows_quiet_written by blast
  then show ?thesis using s changed(6) by (intro rows_move_sub) (auto simp: written_def)
qed

lemma rows_move_crash:
  assumes i: "sa_inv eqf s" and c: "Start_service homes uuids now (tabs s) = (ok, sv', tabs s')"
    and s: "drawn s' = drawn s" "births s' = births s"
  shows "rows_move s s'"
proof -
  note e = Start_effect [OF c sa_invD(1) [OF i]]
  have "\<exists>r\<in>set (agent_tickets (tabs s)). kr_id r = kr_id r' \<and> moves_to (kr_data r) (kr_data r')"
    if "r' \<in> set (agent_tickets (tabs s'))" for r'
    using e(3) that moves_recovered moves_self by metis
  then show ?thesis using e(2) s unfolding rows_move_def triggers_move_def tickets_move_def by auto
qed

theorem step_moves:
  assumes i: "sa_inv eqf s" and st: "sa_step ot eqf s s'"
  shows "rows_move s s'"
  using st
proof cases
  case list_pending
  then show ?thesis by (intro rows_move_same) (simp_all add: ListPending_same)
next
  case list_queued
  then show ?thesis by (intro rows_move_same) (simp_all add: ListByStatus_same del: ListSuperAgentTicketsByStatus.simps)
next
  case find_agent
  then show ?thesis by (intro rows_move_same) (simp_all add: GetSuperAgent_same)
next
  case load
  then show ?thesis by (intro rows_move_same) (simp_all add: load_agent_same)
next
  case threads
  then show ?thesis by (intro rows_move_same) (simp_all add: ListThread_same)
next
  case ask
  then show ?thesis by (intro rows_move_same) (simp_all add: route_same)
next
  case rescue
  show ?thesis
    by (rule rows_move_mutate [OF i _ rescue(3) soft_changes(1)]) (use rescue(1,4) in \<open>simp_all add: attach_def\<close>)
next
  case decide
  show ?thesis by (rule rows_move_decide [OF i decide(3,4)]) (use decide(1,6) in simp_all)
next
  case conclude
  show ?thesis by (rule rows_move_conclude [OF i conclude(2)]) (use conclude(1,3) in \<open>simp_all add: undone_def\<close>)
next
  case begin_turn
  show ?thesis by (rule rows_move_begin [OF i _ begin_turn(3)]) (use begin_turn(1,4) in simp_all)
next
  case end_turn
  show ?thesis by (rule rows_move_mutate [OF i _ end_turn(3) soft_changes(4)]) (use end_turn(1,4) in simp_all)
next
  case note_error
  show ?thesis by (rule rows_move_mutate [OF i _ note_error(3) soft_changes(3)]) (use note_error(1,4) in simp_all)
next
  case (ingest uuid now agent source trigger r4 sv' d')
  note e = Ingest_effect [OF ingest(4), of "admitted s'"]
  show ?thesis by (rule rows_move_gate [OF ingest(3)]) (use ingest(1) e in auto)
next
  case (manual uuid now j message r5 sv' d')
  note e = TriggerManually_effect [OF manual(4), of "admitted s'"]
  show ?thesis by (rule rows_move_gate [OF manual(3)]) (use manual(1) e in auto)
next
  case stop
  show ?thesis by (rule rows_move_stop [OF i stop(3)]) (use stop(1,4) in simp_all)
next
  case retry
  show ?thesis
    by (rule rows_move_mutate [OF i _ retry(3) soft_changes(2)]) (use retry(1,4) in \<open>simp_all add: RetryTicket_def\<close>)
next
  case (configure a ok d')
  show ?thesis
    using UpsertSuperAgent_effect [OF configure(3) sa_invD(1) [OF i]] configure(1)
    by (intro rows_move_sub rows_quiet_sub) simp_all
next
  case (refresh r3 sv' d')
  show ?thesis using refreshClaims_same [OF refresh(3)] refresh(1) by (intro rows_move_same) simp_all
next
  case (delete j ok d')
  show ?thesis
    using DeleteSuperAgent_pruned [OF delete(3)] delete(1) by (intro rows_move_sub rows_quiet_sub) (auto simp: pruned_def)
next
  case (other d' h w)
  then show ?thesis by (intro rows_move_same) (simp_all add: other_tables_def same_super_def)
next
  case crash
  show ?thesis by (rule rows_move_crash [OF i]) (use crash in simp_all)
qed (rule rows_move_same; simp)+

end
