(* ===== verification/Super_Demo.thy ===== *)
theory Super_Demo
  imports Super_Moves
begin

text \<open>
  A run of the service from its start: a Super Agent is configured, a listed sender asks for work, the router gives it
  to a worker, and the worker carries it out.
\<close>

section \<open>The configuration\<close>

definition demo_time :: gotime where "demo_time = 1"

definition demo_router :: AgentInstance where
  "demo_router = \<lparr>a_ID = ''sar_1'', a_Name = ''Router'', a_RuntimeID = ''codex'', a_DesktopThreadID = [], a_WorkDir = [],
     a_WorkspaceMode = [], a_WorktreeBaseRef = [], a_SessionBackend = [], a_SystemPrompt = [], a_ProviderTool = [],
     a_ProviderID = [], a_ProviderName = [], a_DefaultModel = [], a_DefaultReasoningEffort = [],
     a_DefaultServiceTier = [], a_DefaultApprovalMode = [], a_MemoryScope = [], a_Env = [], a_ChannelBindings = [],
     a_Schedules = [], a_MCPServers = [], a_Skills = [], a_CLIs = [], a_Enabled = True, a_Source = routerAgentSource,
     a_OwnerTenantID = [], a_OwnerTenantName = [], a_Visibility = ''private'', a_CreatedAt = 1, a_UpdatedAt = 1,
     a_PrivateChatMode = [], a_GroupChatMode = []\<rparr>"

definition demo_worker :: SuperAgentWorker where
  "demo_worker = \<lparr>sw_ID = ''dev'', sw_Label = ''Dev'', sw_HostID = [], sw_AgentID = ''ag'', sw_Capabilities = ''code''\<rparr>"

definition demo_source :: SuperAgentSource where
  "demo_source = \<lparr>so_ID = ''src'', so_Kind = ''feishu_message'', so_Name = ''Chat'', so_Enabled = True,
     so_AllowedActors = [''ada''], so_Config = Map.empty\<rparr>"

definition demo_super :: SuperAgent where
  "demo_super = \<lparr>sa_ID = ''ops'', sa_Name = ''Ops'', sa_Description = [], sa_RouterRuntime = [],
     sa_RouterAgentID = ''sar_1'', sa_RouterPrompt = [], sa_Mode = ''act'', sa_MaxConcurrency = 1,
     sa_Workers = [demo_worker], sa_AutoWorkers = False, sa_WorkerRuntimes = [], sa_AutoWorkerDir = [],
     sa_AutoWorkerApprovalMode = [], sa_Sources = [demo_source], sa_Enabled = True, sa_CreatedAt = 1, sa_UpdatedAt = 1\<rparr>"

definition demo_super_db :: "nat \<Rightarrow> super_row list \<Rightarrow> trigger_row list \<Rightarrow> ticket_row list \<Rightarrow> super_db" where
  "demo_super_db n agents trs tks = \<lparr>fault = (\<lambda>_. False), tick = n, orchestrations = [], orchestration_tasks = [],
     time_key = (\<lambda>_. 0), text_key = (\<lambda>x. x), agent_instances = [demo_router], channels = [], triggers = [],
     tenants = [], tenant_tokens = [], resource_grants = [], subs = [], events = [], deliveries = [], attempts = [],
     super_agents = agents, agent_triggers = trs, agent_tickets = tks, source_states = []\<rparr>"

abbreviation demo_tables :: "nat \<Rightarrow> trigger_row list \<Rightarrow> ticket_row list \<Rightarrow> super_db" where
  "demo_tables n \<equiv> demo_super_db n [super_row_of demo_super]"

definition demo_outside :: outside where
  "demo_outside = \<lparr>ot_lower = id, ot_workdir = (\<lambda>_ _. None), ot_wsmode = id, ot_folder = (\<lambda>_ _. True),
     ot_text = (\<lambda>_. ''error''), ot_quote = id\<rparr>"

definition demo_message :: SuperAgentTrigger where
  "demo_message = zero_trigger\<lparr>sg_DedupeKey := ''m1'', sg_ThreadKey := ''th'', sg_Actor := ''ada'', sg_Addressed := True,
     sg_Text := ''fix it''\<rparr>"

definition demo_trigger :: SuperAgentTrigger where
  "demo_trigger = stored_trigger ''1'' demo_time demo_super demo_source True demo_message"

definition demo_decision :: routerDecision where
  "demo_decision = \<lparr>rd_Decision = ''accept'', rd_Title = ''Fix'', rd_WorkerID = ''dev'', rd_TicketID = [],
     rd_Instructions = [], rd_Reply = ''on it'', rd_Reason = ''clear''\<rparr>"

definition demo_ticket :: SuperAgentTicket where
  "demo_ticket = new_ticket ''2'' demo_time demo_super demo_trigger demo_decision demo_worker"

definition demo_begun :: SuperAgentTicket where
  "demo_begun = demo_ticket\<lparr>ti_Status := ''running'', ti_Attempts := 1, ti_StartedAt := demo_time\<rparr>"

definition demo_finished_trigger :: SuperAgentTrigger where
  "demo_finished_trigger = finished_trigger demo_time demo_trigger ''accepted'' ''clear'' ''tkt_2''"

section \<open>The states\<close>

definition demo_service :: service_state where
  "demo_service = notify (recordEvent ''src'' demo_time fresh_service)"

text \<open>Before the decision one identifier is drawn, afterwards two.\<close>

definition demo_system :: "bool \<Rightarrow> super_db \<Rightarrow> service_state \<Rightarrow> pass \<Rightarrow> evaluation option \<Rightarrow> turn option \<Rightarrow> system" where
  "demo_system decided d sv p e pc = \<lparr>tabs = d, svc = sv, up = True, ps = p,
     evs = (\<lambda>_. None)(0 := map_option (Pair demo_trigger) e),
     tns = (\<lambda>_. None)(0 := map_option (\<lambda>c. (demo_super, ''tkt_2'', c)) pc),
     drawn = (if decided then {''2'', ''1''} else {''1''}), admitted = {(''sat_1'', Some demo_source, ''ada'')},
     births = (if decided then [''tkt_2'' \<mapsto> demo_ticket] else Map.empty)\<rparr>"

abbreviation demo_sent :: "nat \<Rightarrow> super_db" where
  "demo_sent n \<equiv> demo_tables n [trigger_row_of demo_trigger] []"

abbreviation demo_thinking :: service_state where
  "demo_thinking \<equiv> demo_service\<lparr>sv_evaluating := [''ops|th'']\<rparr>"

lemmas demo_data = demo_router_def demo_worker_def demo_source_def demo_super_def demo_outside_def demo_message_def
  demo_trigger_def demo_decision_def

lemma demo_trigger_simps:
  "sg_ID demo_trigger = ''sat_1''" "sg_SuperAgentID demo_trigger = ''ops''" "sg_ThreadKey demo_trigger = ''th''"
  "sg_Actor demo_trigger = ''ada''" "sg_Disposition demo_trigger = ''pending''" "eval_key demo_trigger = ''ops|th''"
  by (simp_all add: demo_data stored_trigger_def Let_def zero_trigger_def eval_key_def)

lemma demo_super_simps:
  "sa_ID demo_super = ''ops''" "sa_Enabled demo_super" "sa_RouterAgentID demo_super = ''sar_1''" "\<not> sa_AutoWorkers demo_super"
  "sa_Mode demo_super = ''act''" "sa_MaxConcurrency demo_super = 1" "sa_Workers demo_super = [demo_worker]"
  by (simp_all add: demo_data)

lemma demo_ticket_simps:
  "ti_ID demo_ticket = ''tkt_2''" "ti_SuperAgentID demo_ticket = ''ops''" "ti_Status demo_ticket = ''queued''"
  "ti_ThreadKey demo_ticket = ''th''" "ti_Attempts demo_ticket = 0" "ti_StartedAt demo_ticket = 0"
  "ti_Actor demo_ticket = ''ada''" "ti_TriggerID demo_ticket = ''sat_1''"
  by (simp_all add: demo_ticket_def new_ticket_def Let_def demo_trigger_simps demo_super_simps)

lemma demo_configure: "UpsertSuperAgent demo_super (demo_super_db n [] [] []) = (True, demo_tables (Suc n) [] [])"
  by (simp add: UpsertSuperAgent_def sql_exec_def demo_super_db_def table_upsert_def)

lemma demo_trim: "trim_space ''ada'' = ''ada''" "trim_space ''dev'' = ''dev''" "trim_space ''on it'' = ''on it''"
  by code_simp+

lemma demo_allowed: "actorAllowed (=) demo_source ''ada''"
  by (simp add: actorAllowed_def demo_source_def demo_trim)

lemma demo_ingest:
  "Ingest (=) ''1'' demo_time demo_super demo_source demo_message fresh_service (demo_tables n [] []) =
     (Inr True, demo_service, demo_sent (Suc n))"
proof -
  have m: "sg_Actor demo_message = ''ada''" "sg_Addressed demo_message" "so_Enabled demo_source" "so_ID demo_source = ''src''"
    by (simp_all add: demo_message_def demo_source_def zero_trigger_def)
  have s: "store_trigger demo_trigger True sv (demo_tables n [] []) = (Inr True, notify sv, demo_sent (Suc n))" for sv
    by (simp add: store_trigger_def InsertSuperAgentTrigger_def sql_returning_def insert_trigger_def demo_super_db_def Let_def)
  show ?thesis
    by (simp add: Ingest_def Let_def demo_super_simps m demo_allowed demo_service_def s demo_trigger_def [symmetric])
qed

lemma demo_list_pending:
  "ListPendingSuperAgentTriggers k (demo_sent n) = (Some (take k [demo_trigger]), demo_sent (Suc n))"
  by (cases k)
    (simp_all add: ListPendingSuperAgentTriggers_def sql_query_def demo_super_db_def Let_def trigger_row_of_def demo_trigger_simps)

lemma demo_get: "GetSuperAgent ''ops'' (demo_tables n trs tks) = (Some (Some demo_super), demo_tables (Suc n) trs tks)"
  by (simp add: GetSuperAgent_def sql_query_def demo_super_db_def Let_def table_find_def super_row_of_def demo_super_simps)

lemma demo_load: "load_agent demo_trigger (demo_sent n) = (Threading demo_super, demo_sent (Suc n))"
  by (simp add: load_agent_def demo_trigger_simps demo_get after_agent_def demo_super_simps withWorkerRuntimes_def)

lemma demo_thread: "ListSuperAgentThreadTickets ''ops'' ''th'' (demo_sent n) = (Some [], demo_sent (Suc n))"
  by (simp add: ListSuperAgentThreadTickets_def sql_query_def demo_super_db_def Let_def ticket_order_def)

lemma demo_valid: "validateDecision demo_decision = None"
  by (simp add: validateDecision_def demo_decision_def demo_trim)

lemma demo_route: "route_event tx demo_super (Inr demo_decision) (demo_sent n) = (Inr demo_decision, demo_sent (Suc n))"
  by (simp add: route_event_def validateRouter_def demo_super_simps GetAgentInstance_def sql_query_def demo_super_db_def Let_def
      table_find_def demo_router_def IsRouterAgent_def demo_valid)

lemma demo_accept:
  "apply_decision demo_outside id ''2'' demo_time demo_super demo_trigger [] demo_decision sv (demo_sent n) =
     (Inr (''accepted'', ''clear'', ''tkt_2''), sv,
      demo_tables (Suc n) [trigger_row_of demo_trigger] [ticket_row_of demo_ticket])"
proof -
  have w: "rd_Decision demo_decision = ''accept''" "rd_WorkerID demo_decision = ''dev''" "rd_Reason demo_decision = ''clear''"
    "sw_ID demo_worker = ''dev''" by (simp_all add: demo_decision_def demo_worker_def)
  have a: "assignedWorker lower workdir wsmode now demo_super ''dev'' d = (Inr demo_worker, d)" for lower workdir wsmode now and d :: super_db
    by (simp add: assignedWorker_def autoWorkerID_def has_prefix_def demo_super_simps w)
  have u: "UpsertSuperAgentTicket demo_ticket (demo_sent n) =
      (True, demo_tables (Suc n) [trigger_row_of demo_trigger] [ticket_row_of demo_ticket])"
    by (simp add: UpsertSuperAgentTicket_def sql_exec_def demo_super_db_def Let_def table_upsert_def)
  show ?thesis
    by (simp add: apply_decision_def accept_def w a u Let_def demo_ticket_def [symmetric] demo_ticket_simps)
       (simp add: demo_outside_def)
qed

abbreviation demo_assigned :: "nat \<Rightarrow> super_db" where
  "demo_assigned n \<equiv> demo_tables n [trigger_row_of demo_trigger] [ticket_row_of demo_ticket]"

definition demo_row :: trigger_row where
  "demo_row = (trigger_row_of demo_trigger)\<lparr>yr_disposition := ''accepted'', yr_data := demo_finished_trigger\<rparr>"

abbreviation demo_decided :: "nat \<Rightarrow> super_db" where
  "demo_decided n \<equiv> demo_tables n [demo_row] [ticket_row_of demo_ticket]"

definition demo_ticket_row :: "SuperAgentTicket \<Rightarrow> ticket_row" where
  "demo_ticket_row t = merge_ticket_row (ticket_row_of (t\<lparr>ti_UpdatedAt := demo_time\<rparr>)) (ticket_row_of demo_ticket)"

lemma demo_conclude:
  "finishTrigger demo_time demo_trigger ''accepted'' ''clear'' ''tkt_2'' sv (demo_assigned n) =
     (notify sv, demo_decided (Suc n))"
proof -
  have "sg_UpdatedAt demo_trigger = demo_time" by (simp add: demo_data stored_trigger_def Let_def)
  then show ?thesis
    by (simp add: finishTrigger_def UpdateSuperAgentTrigger_def sql_exec_def demo_super_db_def Let_def demo_trigger_simps
        demo_finished_trigger_def [symmetric] demo_row_def)
       (simp add: demo_finished_trigger_def finished_trigger_def trigger_row_of_def demo_trigger_simps)
qed

lemma demo_list_queued:
  "ListSuperAgentTicketsByStatus [''queued''] (demo_tables n trs [ticket_row_of demo_ticket]) =
     (Some [demo_ticket], demo_tables (Suc n) trs [ticket_row_of demo_ticket])"
  by (simp add: sql_query_def demo_super_db_def Let_def ticket_order_def ticket_row_of_def demo_ticket_simps)

lemma demo_get_ticket:
  "GetSuperAgentTicket ''tkt_2'' (demo_tables n trs [r]) =
     (Some (if kr_id r = ''tkt_2'' then Some (kr_data r) else None), demo_tables (Suc n) trs [r])"
  by (simp add: GetSuperAgentTicket_def sql_query_def demo_super_db_def Let_def table_find_def)

lemma demo_put_ticket:
  "ti_ID t = ''tkt_2'' \<Longrightarrow> kr_id r = ''tkt_2'' \<Longrightarrow>
   UpsertSuperAgentTicket t (demo_tables n trs [r]) = (True, demo_tables (Suc n) trs [merge_ticket_row (ticket_row_of t) r])"
  by (simp add: UpsertSuperAgentTicket_def sql_exec_def demo_super_db_def Let_def table_upsert_def ticket_row_of_def)

lemma demo_begin:
  "mutateTicket id demo_time ''tkt_2'' (begin_change demo_time) sv (demo_tables n trs [ticket_row_of demo_ticket]) =
     (Inr (1, demo_begun), notify sv, demo_tables (Suc (Suc n)) trs [demo_ticket_row demo_begun])"
proof -
  have i: "length (ti_Inputs demo_ticket) = 1" by (simp add: demo_ticket_def new_ticket_def Let_def)
  have "kr_id (ticket_row_of demo_ticket) = ''tkt_2''" "kr_data (ticket_row_of demo_ticket) = demo_ticket"
    by (simp_all add: ticket_row_of_def demo_ticket_simps)
  then show ?thesis
    by (simp add: mutateTicket_def demo_get_ticket demo_put_ticket begin_change_def Let_def demo_ticket_simps
        demo_ticket_row_def demo_begun_def i)
qed

lemma demo_row_simps:
  "kr_id (demo_ticket_row t) = ''tkt_2''" "kr_data (demo_ticket_row t) = t\<lparr>ti_UpdatedAt := demo_time\<rparr>"
  "kr_status (demo_ticket_row t) = ti_Status t"
  by (simp_all add: demo_ticket_row_def merge_ticket_row_def ticket_row_of_def demo_ticket_simps)

definition demo_ready :: SuperAgentTicket where
  "demo_ready = demo_begun\<lparr>ti_Inputs := [], ti_Output := ''done'', ti_Error := [], ti_Attempts := 0, ti_Status := ''ready'',
     ti_FinishedAt := demo_time\<rparr>"

lemma demo_end:
  "mutateTicket id demo_time ''tkt_2'' (end_change demo_time demo_begun 1 (Answer ''done'')) sv
      (demo_tables n trs [demo_ticket_row demo_begun]) =
     (Inr \<lparr>te_replyTo = ti_Reply demo_ticket, te_finished = demo_time, te_reply = ''done''\<rparr>, notify sv,
      demo_tables (Suc (Suc n)) trs [demo_ticket_row demo_ready])"
proof -
  have i: "length (ti_Inputs demo_ticket) = 1" "ti_Error demo_ticket = []" "ti_UpdatedAt demo_ticket = demo_time"
    by (simp_all add: demo_ticket_def new_ticket_def Let_def)
  show ?thesis
    by (simp add: mutateTicket_def demo_get_ticket demo_put_ticket demo_row_simps end_change_def Let_def demo_begun_def
        demo_ticket_simps i)
       (simp add: demo_ticket_row_def merge_ticket_row_def ticket_row_of_def demo_ready_def demo_begun_def demo_ticket_simps i)
qed

section \<open>The run\<close>

definition demo_initial :: system where
  "demo_initial = \<lparr>tabs = demo_super_db 0 [] [] [], svc = fresh_service, up = True, ps = Resting, evs = (\<lambda>_. None),
     tns = (\<lambda>_. None), drawn = {}, admitted = {}, births = Map.empty\<rparr>"

abbreviation demo_reach :: "system \<Rightarrow> bool" where
  "demo_reach \<equiv> sa_reach demo_outside (=)"

abbreviation demo_step :: "system \<Rightarrow> system \<Rightarrow> bool" where
  "demo_step \<equiv> sa_step demo_outside (=)"

lemma demo_sent_reach: "demo_reach (demo_system False (demo_sent 2) demo_service Resting None None)"
proof -
  have "demo_reach demo_initial"
    by (rule sa_reach.init) (simp add: sa_init_def demo_initial_def demo_super_db_def)
  moreover have "demo_step demo_initial (demo_initial\<lparr>tabs := demo_tables 1 [] []\<rparr>)"
    by (rule sa_step.configure [of _ demo_super]) (simp_all add: demo_initial_def demo_configure)
  moreover have "demo_step (demo_initial\<lparr>tabs := demo_tables 1 [] []\<rparr>)
      (demo_system False (demo_sent 2) demo_service Resting None None)"
    using sa_step.ingest [of "demo_initial\<lparr>tabs := demo_tables 1 [] []\<rparr>" "''1''" "(=)" demo_time demo_super demo_source demo_message
        "Inr True" demo_service "demo_sent 2" demo_outside] demo_ingest [of 1] demo_allowed
    by (simp add: demo_initial_def demo_system_def demo_source_def demo_message_def zero_trigger_def numeral_2_eq_2)
  ultimately show ?thesis by (blast intro: sa_reach.step)
qed

lemma demo_loading_reach:
  "demo_reach (demo_system False (demo_sent 3) demo_thinking (Considering 0 [] [''ops|th'']) (Some Loading) None)"
proof -
  have sv: "sv_evaluations demo_service = 0" "sv_evaluating demo_service = []" "sv_notBefore demo_service = Map.empty"
    by (simp_all add: demo_service_def notify_def recordEvent_def fresh_service_def)
  let ?s = "\<lambda>n p. demo_system False (demo_sent n) demo_service p None None"
  have "demo_step (?s 2 Resting) (?s 2 (Counted 0))"
    using sa_step.count [of "?s 2 Resting"] by (simp add: demo_system_def sv)
  moreover have "demo_step (?s 2 (Counted 0)) (?s 3 (Considering 0 [demo_trigger] []))"
    using sa_step.list_pending [of "?s 2 (Counted 0)" 0 "Some [demo_trigger]" "demo_sent 3"] demo_list_pending [of pendingBatchSize 2]
    by (simp add: demo_system_def pendingBatchSize_def)
  moreover have "consider_trigger 0 0 demo_trigger [] demo_service = (True, [''ops|th''], demo_thinking)"
    by (simp add: consider_trigger_def eval_busy_def demo_trigger_simps sv not_yet_def maxRouterEvals_def)
  then have "demo_step (?s 3 (Considering 0 [demo_trigger] []))
      (demo_system False (demo_sent 3) demo_thinking (Considering 0 [] [''ops|th'']) (Some Loading) None)"
    using sa_step.spawn [of "?s 3 (Considering 0 [demo_trigger] [])" 0 demo_trigger "[]" "[]" 0 "[''ops|th'']" demo_thinking 0]
    by (simp add: demo_system_def)
  ultimately show ?thesis using demo_sent_reach by (blast intro: sa_reach.step)
qed

lemma demo_deciding_reach:
  "demo_reach (demo_system False (demo_sent 6) demo_thinking Evaluated (Some (Deciding demo_super [] demo_decision)) None)"
proof -
  let ?s = "\<lambda>n e. demo_system False (demo_sent n) demo_thinking Evaluated (Some e) None"
  have "demo_step (demo_system False (demo_sent 3) demo_thinking (Considering 0 [] [''ops|th'']) (Some Loading) None) (?s 3 Loading)"
    using sa_step.considered [of "demo_system False (demo_sent 3) demo_thinking (Considering 0 [] [''ops|th'']) (Some Loading) None"]
    by (simp add: demo_system_def)
  moreover have "demo_step (?s 3 Loading) (?s 4 (Threading demo_super))"
    using sa_step.load [of "?s 3 Loading" 0] demo_load [of 3] by (simp add: demo_system_def)
  moreover have "demo_step (?s 4 (Threading demo_super)) (?s 5 (Routing demo_super []))"
    using sa_step.threads [of "?s 4 (Threading demo_super)" 0 demo_trigger demo_super "Some []" "demo_sent 5"] demo_thread [of 4]
    by (simp add: demo_system_def demo_super_simps demo_trigger_simps after_threads_def)
  moreover have "routed demo_outside 0 demo_super demo_trigger [] (Inr demo_decision) demo_thinking =
      (Deciding demo_super [] demo_decision, demo_thinking)"
    by (simp add: routed_def after_route_def demo_super_simps demo_service_def notify_def recordEvent_def fresh_service_def)
  then have "demo_step (?s 5 (Routing demo_super [])) (?s 6 (Deciding demo_super [] demo_decision))"
    using sa_step.ask [of "?s 5 (Routing demo_super [])" 0 demo_trigger demo_super "[]" demo_outside "Inr demo_decision"
        "Inr demo_decision" "demo_sent 6" 0 "Deciding demo_super [] demo_decision" demo_thinking] demo_route [of _ 5]
    by (simp add: demo_system_def)
  ultimately show ?thesis using demo_loading_reach by (blast intro: sa_reach.step)
qed

abbreviation demo_working :: service_state where
  "demo_working \<equiv> demo_thinking\<lparr>sv_running := [''ops|tkt_2'']\<rparr>"

lemma demo_concluded_reach:
  "demo_reach (demo_system True (demo_decided 8) demo_thinking Evaluated (Some Replying) None)"
proof -
  let ?s = "\<lambda>n. demo_system True (demo_assigned n) demo_thinking Evaluated"
  let ?r = "Recording (Some demo_super) ''accepted'' ''clear'' ''tkt_2'' ''on it''"
  have sv: "notify demo_thinking = demo_thinking" by (simp add: demo_service_def notify_def)
  have id: "kr_id (ticket_row_of demo_ticket) = ''tkt_2''" "kr_data (ticket_row_of demo_ticket) = demo_ticket"
    by (simp_all add: ticket_row_of_def demo_ticket_simps)
  have b: "note_birth (Inr (''accepted'', ''clear'', ''tkt_2'')) (demo_assigned 7) Map.empty = [''tkt_2'' \<mapsto> demo_ticket]"
    by (simp add: note_birth_def demo_super_db_def table_find_def id)
  have a: "after_apply demo_outside demo_super demo_decision (Inr (''accepted'', ''clear'', ''tkt_2'')) = ?r"
    by (simp add: after_apply_def demo_decision_def)
  have "demo_step (demo_system False (demo_sent 6) demo_thinking Evaluated (Some (Deciding demo_super [] demo_decision)) None)
      (?s 7 (Some ?r) None)"
    using sa_step.decide [of "demo_system False (demo_sent 6) demo_thinking Evaluated (Some (Deciding demo_super [] demo_decision)) None"
        0 demo_trigger demo_super "[]" demo_decision id "''2''" demo_outside demo_time "Inr (''accepted'', ''clear'', ''tkt_2'')"
        demo_thinking "demo_assigned 7"] demo_accept [of demo_thinking 6] a b
    by (simp add: demo_system_def gap_def)
  moreover have "demo_step (?s 7 (Some ?r) None) (demo_system True (demo_decided 8) demo_thinking Evaluated (Some Replying) None)"
    using sa_step.conclude [of "?s 7 (Some ?r) None" 0 demo_trigger "Some demo_super" "''accepted''" "''clear''" "''tkt_2''" "''on it''"
        demo_time demo_thinking "demo_decided 8"] demo_conclude [of demo_thinking 7] sv
    by (simp add: demo_system_def)
  ultimately show ?thesis using demo_deciding_reach by (blast intro: sa_reach.step)
qed

abbreviation demo_admitting :: system where
  "demo_admitting \<equiv> demo_system True (demo_decided 10) demo_thinking (Admitting demo_super ''tkt_2'' []) (Some Replying) None"

lemma demo_admitting_reach: "demo_reach demo_admitting"
proof -
  let ?s = "\<lambda>n p. demo_system True (demo_decided n) demo_thinking p (Some Replying) None"
  have "demo_step (?s 8 Evaluated) (?s 9 (Starting [demo_ticket]))"
    using sa_step.list_queued [of "?s 8 Evaluated" "Some [demo_ticket]" "demo_decided 9"] demo_list_queued [of 8]
    by (simp add: demo_system_def del: ListSuperAgentTicketsByStatus.simps)
  note sa_reach.step [OF demo_concluded_reach this]
  moreover have "demo_step (?s 9 (Starting [demo_ticket])) demo_admitting"
    using sa_step.find_agent [of "?s 9 (Starting [demo_ticket])" demo_ticket "[]" "Some (Some demo_super)" "demo_decided 10"]
      demo_get [of 9]
    by (simp add: demo_system_def demo_ticket_simps demo_super_simps)
  ultimately show ?thesis by (rule sa_reach.step)
qed

lemma demo_admit_step:
  "demo_step demo_admitting (demo_system True (demo_decided 10) demo_working (Starting []) (Some Replying) (Some Beginning))"
proof -
  have none: "sv_running demo_thinking = []" "sv_notBefore demo_thinking = Map.empty"
    by (simp_all add: demo_service_def notify_def recordEvent_def fresh_service_def)
  have "start_turn 0 demo_super ''tkt_2'' demo_thinking = (True, demo_working)"
    by (simp add: start_turn_def Let_def run_key_def demo_super_simps none active_runs_def not_yet_def)
  then show ?thesis
    using sa_step.admit [of demo_admitting demo_super "''tkt_2''" "[]" 0 demo_working 0]
    by (simp add: demo_system_def)
qed

lemma demo_ending_reach:
  "demo_reach (demo_system True (demo_tables 12 [demo_row] [demo_ticket_row demo_begun]) demo_working (Starting [])
     (Some Replying) (Some (Ending demo_begun 1 (Answer ''done''))))"
proof -
  let ?s = "demo_system True (demo_decided 10) demo_working (Starting []) (Some Replying) (Some Beginning)"
  let ?t = "\<lambda>pc. demo_system True (demo_tables 12 [demo_row] [demo_ticket_row demo_begun]) demo_working (Starting []) (Some Replying) (Some pc)"
  have sv: "notify demo_working = demo_working" by (simp add: demo_service_def notify_def)
  have none: "sv_stopping demo_working = []"
    by (simp add: demo_service_def notify_def recordEvent_def fresh_service_def)
  have 1: "demo_step ?s (?t (Working demo_begun 1))"
    using sa_step.begin_turn [of ?s 0 demo_super "''tkt_2''" id demo_time
        "Inr (1, demo_begun)" demo_working "demo_tables 12 [demo_row] [demo_ticket_row demo_begun]"] demo_begin [of demo_working 10] sv
    by (simp add: demo_system_def gap_def after_begin_turn_def)
  have 2: "demo_step (?t (Working demo_begun 1)) (?t (Returned demo_begun 1 (Answer ''done'')))"
    using sa_step.work [of "?t (Working demo_begun 1)" 0 demo_super "''tkt_2''" demo_begun 1] by (simp add: demo_system_def)
  have 3: "demo_step (?t (Returned demo_begun 1 (Answer ''done''))) (?t (Ending demo_begun 1 (Answer ''done'')))"
    using sa_step.look [of "?t (Returned demo_begun 1 (Answer ''done''))" 0 demo_super "''tkt_2''" demo_begun 1 "Answer ''done''"] none
    by (simp add: demo_system_def)
  note sa_reach.step [OF sa_reach.step [OF demo_admitting_reach demo_admit_step] 1]
  note sa_reach.step [OF this 2]
  note sa_reach.step [OF this 3]
  then show ?thesis .
qed

end
