(* ===== verification/Super_Properties.thy ===== *)
theory Super_Properties
  imports Super_Demo Super_Sources Super_Router
begin

text \<open>
  The properties of Super Agents: each event is decided once, work is authorized, threads and tickets do not get in each
  other's way, no message is lost, and a stop is final.
\<close>

section \<open>Several steps\<close>

lemma sa_reach_steps: "(sa_step ot eqf)\<^sup>*\<^sup>* s s' \<Longrightarrow> sa_reach ot eqf s \<Longrightarrow> sa_reach ot eqf s'"
  by (induction rule: rtranclp_induct) (auto intro: sa_reach.step)

lemma trigger_steps:
  assumes st: "(sa_step ot eqf)\<^sup>*\<^sup>* s s'" and r: "sa_reach ot eqf s"
    and row: "row \<in> set (agent_triggers (tabs s))" "yr_disposition row \<noteq> ''pending''"
  shows "yr_id row \<in> sats s' \<and> (\<forall>q\<in>set (agent_triggers (tabs s')). yr_id q = yr_id row \<longrightarrow> q = row)"
  using st
proof (induction rule: rtranclp_induct)
  case base
  note i = sa_inv_reach [OF r]
  show ?case using trigger_key_unique [OF sa_invD(1) [OF i]] evals_okD(4) [OF sa_invD(2) [OF i]] row by blast
next
  case (step s1 s2)
  note i = sa_inv_reach [OF sa_reach_steps [OF step.hyps(1) r]]
  note m = step_moves [OF i step.hyps(2), unfolded rows_move_def]
  have "q = row" if q: "q \<in> set (agent_triggers (tabs s2))" "yr_id q = yr_id row" for q
  proof -
    from m q consider "q \<in> set (agent_triggers (tabs s1))" | "yr_id q \<notin> sats s1"
      | p where "p \<in> set (agent_triggers (tabs s1))" "yr_id p = yr_id q" "yr_disposition p = ''pending''"
      unfolding triggers_move_def by blast
    then show ?thesis by cases (use step.IH q(2) row(2) in auto)
  qed
  moreover have "yr_id row \<in> sats s2" using step.IH m sats_mono by blast
  ultimately show ?case by blast
qed

lemma ticket_steps:
  assumes st: "(sa_step ot eqf)\<^sup>*\<^sup>* s s'" and r: "sa_reach ot eqf s" and row: "row \<in> set (agent_tickets (tabs s))"
    and stop: "ti_Status (kr_data row) = ''stopped''"
  shows "births s' (kr_id row) \<noteq> None \<and> (\<forall>q\<in>set (agent_tickets (tabs s')). kr_id q = kr_id row \<longrightarrow>
    ti_Status (kr_data q) = ''stopped'' \<and> ti_Inputs (kr_data q) = ti_Inputs (kr_data row) \<and> same_birth (kr_data row) (kr_data q))"
  using st
proof (induction rule: rtranclp_induct)
  case base
  note i = sa_inv_reach [OF r]
  have "births s (kr_id row) \<noteq> None"
    using turns_okD(2) [OF sa_invD(3) [OF i] row] row_key [OF i row] by (auto simp: row_born_def born_as_def)
  then show ?case using ticket_key_unique [OF sa_invD(1) [OF i] _ row] stop by (metis same_birth_refl)
next
  case (step s1 s2)
  note i = sa_inv_reach [OF sa_reach_steps [OF step.hyps(1) r]]
  from step_moves [OF i step.hyps(2)] have m: "tickets_move s1 s2" by (simp add: rows_move_def)
  have "births s2 (kr_id row) \<noteq> None" using m step.IH unfolding tickets_move_def map_le_def by (metis domIff)
  moreover have "ti_Status (kr_data q) = ''stopped'' \<and> ti_Inputs (kr_data q) = ti_Inputs (kr_data row) \<and>
      same_birth (kr_data row) (kr_data q)"
    if q: "q \<in> set (agent_tickets (tabs s2))" "kr_id q = kr_id row" for q
  proof -
    from m q step.IH obtain p where p: "p \<in> set (agent_tickets (tabs s1))" "kr_id p = kr_id row"
      "moves_to (kr_data p) (kr_data q)" unfolding tickets_move_def by metis
    then have "ti_Status (kr_data p) = ''stopped''" "ti_Inputs (kr_data p) = ti_Inputs (kr_data row)"
      "same_birth (kr_data row) (kr_data p)" using step.IH by blast+
    with p(3) show ?thesis using same_birth_trans by (auto simp: moves_to_def status_move_def ticket_moves_def)
  qed
  ultimately show ?case by blast
qed

section \<open>Events\<close>

text \<open>C21. Once an event is decided, its record is never changed again, whatever happens afterwards.\<close>

theorem decided_event_is_final:
  assumes "sa_reach ot eqf s" "(sa_step ot eqf)\<^sup>*\<^sup>* s s'"
    and "row \<in> set (agent_triggers (tabs s))" "yr_disposition row \<noteq> ''pending''"
    and "row' \<in> set (agent_triggers (tabs s'))" "yr_id row' = yr_id row"
  shows "row' = row"
  using trigger_steps [OF assms(2,1,3,4)] assms(5,6) by blast

lemma demo_row_simps2: "yr_id demo_row = ''sat_1''" "yr_disposition demo_row = ''accepted''"
  by (simp_all add: demo_row_def trigger_row_of_def demo_trigger_simps)

lemma decided_event_is_final_witness:
  "{row' \<in> set (agent_triggers (tabs (demo_system True (demo_decided 8) demo_thinking Evaluated (Some Replying) None))).
      yr_id row' = ''sat_1''} = {demo_row}" (is "?rows = _")
proof
  show "?rows \<subseteq> {demo_row}"
    using decided_event_is_final [OF demo_concluded_reach rtranclp.rtrancl_refl, of demo_row]
    by (auto simp: demo_system_def demo_super_db_def demo_row_simps2)
  show "{demo_row} \<subseteq> ?rows" by (simp add: demo_system_def demo_super_db_def demo_row_simps2)
qed

text \<open>C22. Only undecided events are evaluated, and what is evaluated is the record as it is stored.\<close>

theorem evaluates_pending_events:
  assumes "sa_reach ot eqf s" "evs s k = Some (t, e)" "e \<noteq> Replying" "e \<noteq> Leaving"
    and "row \<in> set (agent_triggers (tabs s))" "yr_id row = sg_ID t"
  shows "yr_disposition row = ''pending'' \<and> yr_data row = t"
  using evals_okD(1) [OF sa_invD(2) [OF sa_inv_reach [OF assms(1)]] assms(2)] assms(3-6)
  by (simp add: eval_ok_def undone_def)

lemma evaluates_pending_events_witness: "yr_disposition (trigger_row_of demo_trigger) = ''pending''"
  using evaluates_pending_events [OF demo_loading_reach, of 0 demo_trigger Loading "trigger_row_of demo_trigger"]
  by (simp add: demo_system_def demo_super_db_def trigger_row_of_def)

text \<open>
  At most four events are evaluated at a time, and no two of one thread, so that a router never decides about a
  thread on two views of it.
\<close>

theorem evaluations_bounded:
  assumes "sa_reach ot eqf s"
  shows "inj_on (\<lambda>k. map_option (eval_key \<circ> fst) (evs s k)) {k. evs s k \<noteq> None} \<and>
    finite {k. evs s k \<noteq> None} \<and> card {k. evs s k \<noteq> None} \<le> maxRouterEvals"
proof -
  let ?K = "{k. evs s k \<noteq> None}" and ?f = "\<lambda>k. map_option (eval_key \<circ> fst) (evs s k)"
  note e = sa_invD(2) [OF sa_inv_reach [OF assms]]
  have i: "inj_on ?f ?K"
    using evals_okD(2) [OF e] by (auto simp: inj_on_def) (metis)
  have "?f ` ?K \<subseteq> Some ` set (sv_evaluating (svc s))"
    using evals_okD(1) [OF e] by (auto simp: eval_ok_def)
  note sub = this
  have f: "finite (?f ` ?K)" by (rule finite_subset [OF sub]) simp
  have "card (?f ` ?K) \<le> card (set (sv_evaluating (svc s)))" by (rule surj_card_le [OF _ sub]) simp
  also have "\<dots> \<le> maxRouterEvals" using card_length evals_okD(3) [OF e] by (rule le_trans)
  finally show ?thesis using i f card_image [OF i] finite_imageD by metis
qed

lemma evaluations_bounded_witness:
  "card {k. evs (demo_system False (demo_sent 3) demo_thinking (Considering 0 [] [''ops|th'']) (Some Loading) None) k \<noteq> None} \<le> 4"
  using evaluations_bounded [OF demo_loading_reach] by (simp add: maxRouterEvals_def)

section \<open>Authority\<close>

text \<open>
  C23. Every ticket carries the sender of the event it came from, and that event passed a gate: its source was enabled and
  listed the sender, or it was typed at the console.
\<close>

theorem work_is_authorized:
  assumes "sa_reach ot eqf s" "row \<in> set (agent_tickets (tabs s))"
  shows "\<exists>source. (ti_TriggerID (kr_data row), source, ti_Actor (kr_data row)) \<in> admitted s \<and>
    (case source of None \<Rightarrow> ti_Actor (kr_data row) = ''console''
     | Some src \<Rightarrow> so_Enabled src \<and> actorAllowed eqf src (ti_Actor (kr_data row)))"
proof -
  note i = sa_inv_reach [OF assms(1)]
  obtain b where b: "births s (kr_id row) = Some b" "same_birth b (kr_data row)"
    using turns_okD(2) [OF sa_invD(3) [OF i] assms(2)] row_key [OF i assms(2)] by (auto simp: row_born_def born_as_def)
  then obtain src where "(ti_TriggerID (kr_data row), src, ti_Actor (kr_data row)) \<in> admitted s"
    using turns_okD(1) [OF sa_invD(3) [OF i] b(1)] by (auto simp: birth_ok_def same_birth_def)
  moreover from this have "passed_gate eqf src (ti_Actor (kr_data row))"
    using sa_invD(4) [OF i] unfolding gates_ok_def by fast
  ultimately show ?thesis unfolding passed_gate_def by blast
qed

lemma work_is_authorized_witness: "\<exists>source. (''sat_1'', source, ''ada'') \<in>
  admitted (demo_system True (demo_decided 8) demo_thinking Evaluated (Some Replying) None)"
  using work_is_authorized [OF demo_concluded_reach, of "ticket_row_of demo_ticket"]
  by (auto simp: demo_system_def demo_super_db_def ticket_row_of_def demo_ticket_simps)

section \<open>Tickets\<close>

text \<open>
  A step moves a ticket only along the states it may go through, and never changes its identity, its thread, its
  sender or its worker.
\<close>

theorem ticket_moves_only:
  assumes "sa_reach ot eqf s" "sa_step ot eqf s s'" "row \<in> set (agent_tickets (tabs s))"
    and "row' \<in> set (agent_tickets (tabs s'))" "kr_id row' = kr_id row"
  shows "status_move (ti_Status (kr_data row)) (ti_Status (kr_data row')) \<and> same_birth (kr_data row) (kr_data row')"
proof -
  note i = sa_inv_reach [OF assms(1)]
  have "births s (kr_id row) \<noteq> None"
    using turns_okD(2) [OF sa_invD(3) [OF i] assms(3)] row_key [OF i assms(3)] by (auto simp: row_born_def born_as_def)
  with step_moves [OF i assms(2)] assms(4,5) obtain p where "p \<in> set (agent_tickets (tabs s))" "kr_id p = kr_id row"
    "moves_to (kr_data p) (kr_data row')" unfolding rows_move_def tickets_move_def by metis
  moreover from this have "p = row" using ticket_key_unique [OF sa_invD(1) [OF i] _ assms(3)] by blast
  ultimately show ?thesis by (simp add: moves_to_def)
qed

text \<open>C24. A stopped ticket stays stopped and is never given another message, until it is deleted for good.\<close>

theorem stopped_is_final:
  assumes "sa_reach ot eqf s" "(sa_step ot eqf)\<^sup>*\<^sup>* s s'"
    and "row \<in> set (agent_tickets (tabs s))" "ti_Status (kr_data row) = ''stopped''"
    and "row' \<in> set (agent_tickets (tabs s'))" "kr_id row' = kr_id row"
  shows "ti_Status (kr_data row') = ''stopped'' \<and> ti_Inputs (kr_data row') = ti_Inputs (kr_data row)"
  using ticket_steps [OF assms(2,1,3,4)] assms(5,6) by blast

definition demo_stopped_row :: ticket_row where
  "demo_stopped_row = merge_ticket_row (ticket_row_of (stopped_ticket demo_time demo_ticket)) (ticket_row_of demo_ticket)"

lemma demo_ticket_row_simps:
  "kr_id (ticket_row_of demo_ticket) = ''tkt_2''" "kr_data (ticket_row_of demo_ticket) = demo_ticket"
  by (simp_all add: ticket_row_of_def demo_ticket_simps)

lemma demo_stopped_simps: "kr_id demo_stopped_row = ''tkt_2''" "ti_Status (kr_data demo_stopped_row) = ''stopped''"
  by (simp_all add: demo_stopped_row_def merge_ticket_row_def ticket_row_of_def stopped_ticket_def demo_ticket_simps)

lemma demo_stop:
  "StopTicket id demo_time ''tkt_2'' sv (demo_decided n) =
     (Inr (), if run_key ''ops'' ''tkt_2'' \<in> set (sv_running sv) then sv\<lparr>sv_stopping := ''tkt_2'' # sv_stopping sv\<rparr> else sv,
      demo_tables (Suc (Suc n)) [demo_row] [demo_stopped_row])"
  by (simp add: StopTicket_def demo_get_ticket demo_put_ticket demo_ticket_row_simps demo_ticket_simps stopped_ticket_def
      demo_stopped_row_def)

lemma demo_stop_step:
  "demo_step (demo_system True (demo_decided 8) demo_thinking Evaluated (Some Replying) None)
     (demo_system True (demo_tables 10 [demo_row] [demo_stopped_row]) demo_thinking Evaluated (Some Replying) None)"
proof -
  have "sv_running demo_thinking = []" by (simp add: demo_service_def notify_def recordEvent_def fresh_service_def)
  then show ?thesis
    using sa_step.stop [of "demo_system True (demo_decided 8) demo_thinking Evaluated (Some Replying) None" id demo_time "''tkt_2''"
        "Inr ()" demo_thinking "demo_tables 10 [demo_row] [demo_stopped_row]"] demo_stop [of demo_thinking 8]
    by (simp add: demo_system_def gap_def)
qed

lemma ticket_moves_only_witness: "status_move ''queued'' ''stopped''"
  using ticket_moves_only [OF demo_concluded_reach demo_stop_step, of "ticket_row_of demo_ticket" demo_stopped_row]
  by (simp add: demo_system_def demo_super_db_def demo_stopped_simps demo_ticket_row_simps demo_ticket_simps)

lemma stopped_is_final_witness: "ti_Status (kr_data demo_stopped_row) = ''stopped'' \<and> kr_id demo_stopped_row = ''tkt_2''"
  using stopped_is_final [OF sa_reach.step [OF demo_concluded_reach demo_stop_step] rtranclp.rtrancl_refl,
      of demo_stopped_row demo_stopped_row]
  by (simp add: demo_system_def demo_super_db_def demo_stopped_simps)

text \<open>
  C25. When a turn ends with an answer, the ticket keeps exactly the messages that arrived while the worker was at it, and
  becomes ready only if there are none: a follow-up is neither lost nor delivered twice.
\<close>

theorem follow_up_not_lost:
  assumes r: "sa_reach ot eqf s" and k: "tns s k = Some (agent, i, Ending t n (Answer text))" and g: "gap between"
    and m: "mutateTicket between now i (end_change now t n (Answer text)) (svc s) (tabs s) = (Inr e, sv', d')"
    and row: "row \<in> set (agent_tickets (tabs s))" "kr_id row = i" "ti_Status (kr_data row) = ''running''"
    and row': "row' \<in> set (agent_tickets d')" "kr_id row' = i"
  shows "ti_Inputs (kr_data row) = ti_Inputs t @ ti_Inputs (kr_data row') \<and> ti_Output (kr_data row') = text \<and>
    ti_Status (kr_data row') = (if ti_Inputs (kr_data row') = [] then ''ready'' else ''queued'')"
proof -
  note inv = sa_inv_reach [OF r]
  have h: "take n (ti_Inputs (kr_data row)) = ti_Inputs t" "n = length (ti_Inputs t)"
    using turns_okD(5) [OF sa_invD(3) [OF inv] k] row by (auto simp: turn_ok_def has_read_def)
  from m g sa_invD(1) [OF inv] end_change_ok show ?thesis
  proof (cases rule: mutateTicket_cases)
    case (changed q t' x sv0)
    have q: "q = row" using ticket_key_unique [OF sa_invD(1) [OF inv] changed(1) row(1)] changed(2) row(2) by simp
    have "ti_ID t' = i" using row_key [OF inv row(1)] row(2) changed(4) by (simp add: same_birth_def q)
    then have d: "kr_data row' = t'\<lparr>ti_UpdatedAt := now\<rparr>" using changed(8) row' by (auto simp: written_def)
    have "drop (min n (length (ti_Inputs (kr_data row)))) (ti_Inputs (kr_data row)) = ti_Inputs t' \<and> ti_Output t' = text \<and>
        ti_Status t' = (if ti_Inputs t' = [] then ''ready'' else ''queued'')"
      using changed(3) row(3) unfolding q by (auto simp: end_change_def Let_def split: if_splits)
    moreover have "n \<le> length (ti_Inputs (kr_data row))" using h by (metis length_take min.cobounded1 min.commute)
    ultimately show ?thesis using h(1) by (simp add: d) (metis append_take_drop_id min.absorb1)
  qed simp
qed

lemma follow_up_not_lost_witness: "ti_Output (kr_data (demo_ticket_row demo_ready)) = ''done''"
  using follow_up_not_lost [OF demo_ending_reach, of 0 demo_super "''tkt_2''" demo_begun 1 "''done''" id demo_time _ _ _
      "demo_ticket_row demo_begun" "demo_ticket_row demo_ready"] demo_end [of demo_working 12 "[demo_row]"]
  by (simp add: demo_system_def gap_def demo_super_db_def demo_row_simps demo_begun_def)

text \<open>No two turns work on the same ticket, and no two of them share the context by which they are cancelled.\<close>

theorem one_turn_per_ticket:
  assumes "sa_reach ot eqf s"
  shows "inj_on (\<lambda>k. map_option (\<lambda>(agent, i, pc). i) (tns s k)) {k. tns s k \<noteq> None} \<and>
    (\<lambda>k. map_option (\<lambda>(agent, i, pc). run_key (sa_ID agent) i) (tns s k)) ` {k. tns s k \<noteq> None} \<subseteq>
      Some ` set (sv_running (svc s))"
proof
  note t = sa_invD(3) [OF sa_inv_reach [OF assms]]
  show "inj_on (\<lambda>k. map_option (\<lambda>(agent, i, pc). i) (tns s k)) {k. tns s k \<noteq> None}"
  proof (rule inj_onI, rule ccontr)
    fix j k assume jk: "j \<in> {k. tns s k \<noteq> None}" "k \<in> {k. tns s k \<noteq> None}" "j \<noteq> k"
      and e: "map_option (\<lambda>(agent, i, pc). i) (tns s j) = map_option (\<lambda>(agent, i, pc). i) (tns s k)"
    from jk obtain a i pc a' i' pc' where "tns s j = Some (a, i, pc)" "tns s k = Some (a', i', pc')" by auto
    moreover from this e have "i' = i" by simp
    ultimately show False using turns_okD(6) [OF t jk(3)] by blast
  qed
  show "(\<lambda>k. map_option (\<lambda>(agent, i, pc). run_key (sa_ID agent) i) (tns s k)) ` {k. tns s k \<noteq> None} \<subseteq>
      Some ` set (sv_running (svc s))"
    using turns_okD(5) [OF t] by (auto simp: turn_ok_def)
qed

abbreviation demo_ending :: system where
  "demo_ending \<equiv> demo_system True (demo_tables 12 [demo_row] [demo_ticket_row demo_begun]) demo_working (Starting [])
     (Some Replying) (Some (Ending demo_begun 1 (Answer ''done'')))"

lemma one_turn_per_ticket_witness: "Some ''ops|tkt_2'' \<in> Some ` set (sv_running (svc demo_ending))"
  using one_turn_per_ticket [OF demo_ending_reach] by (auto simp: demo_system_def run_key_def demo_super_simps)

text \<open>
  When a turn starts, the Super Agent has at most as many turns as it allows (at least one is allowed), the new one
  included.
\<close>

theorem concurrency_respected:
  assumes r: "sa_reach ot eqf s" and st: "sa_step ot eqf s s'"
    and new: "tns s k = None" "tns s' k = Some (agent, i, pc)"
  shows "int (card {l. \<exists>a j c. tns s' l = Some (a, j, c) \<and> sa_ID a = sa_ID agent}) \<le> max (sa_MaxConcurrency agent) 1"
proof -
  have "\<exists>now ts sv'. ps s = Admitting agent i ts \<and> start_turn now agent i (svc s) = (True, sv') \<and>
      s' = s\<lparr>svc := sv', ps := Starting ts, tns := (tns s)(k \<mapsto> (agent, i, Beginning))\<rparr>"
    using st new by cases (auto split: if_splits)
  then obtain now ts sv' where a: "start_turn now agent i (svc s) = (True, sv')"
    "tns s' = (tns s)(k \<mapsto> (agent, i, Beginning))" "svc s' = sv'" by auto
  from a(1) have run: "sv_running sv' = run_key (sa_ID agent) i # sv_running (svc s)"
    and c: "int (active_runs (svc s) (sa_ID agent)) < max (sa_MaxConcurrency agent) 1"
    by (auto simp: start_turn_def Let_def split: if_splits)
  let ?L = "{l. \<exists>a j c. tns s' l = Some (a, j, c) \<and> sa_ID a = sa_ID agent}"
  let ?f = "\<lambda>l. map_option (\<lambda>(agent, i, pc). run_key (sa_ID agent) i) (tns s' l)"
  let ?own = "filter (\<lambda>q. has_prefix q (sa_ID agent @ ''|'')) (sv_running sv')"
  note t = turns_okD [OF sa_invD(3) [OF sa_inv_reach [OF sa_reach.step [OF r st]]]]
  have i: "inj_on ?f ?L"
  proof (rule inj_onI, rule ccontr)
    fix l m assume lm: "l \<in> ?L" "m \<in> ?L" "l \<noteq> m" "?f l = ?f m"
    then obtain a j c a' j' c' where x: "tns s' l = Some (a, j, c)" "tns s' m = Some (a', j', c')" by auto
    from lm(4) x have "run_key (sa_ID a) j = run_key (sa_ID a') j'" by simp
    moreover have "CHR ''|'' \<notin> set j" "CHR ''|'' \<notin> set j'"
      using t(5) [OF x(1)] t(5) [OF x(2)] t(1) by (auto simp: turn_ok_def born_def birth_ok_def)
    ultimately have "j' = j" using run_key_inj by metis
    with t(6) [OF lm(3) x(1)] x(2) show False by blast
  qed
  have sub: "?f ` ?L \<subseteq> Some ` set ?own"
  proof
    fix y assume "y \<in> ?f ` ?L"
    then obtain l b j c where x: "tns s' l = Some (b, j, c)" "sa_ID b = sa_ID agent" "y = Some (run_key (sa_ID agent) j)" by auto
    have "run_key (sa_ID agent) j \<in> set (sv_running sv')" using t(5) [OF x(1)] x(2) a(3) by (simp add: turn_ok_def)
    moreover have "has_prefix (run_key (sa_ID agent) j) (sa_ID agent @ ''|'')" by (simp add: run_key_def has_prefix_def)
    ultimately show "y \<in> Some ` set ?own" using x(3) by simp
  qed
  have fin: "finite (?f ` ?L)" by (rule finite_subset [OF sub]) simp
  have "card ?L = card (?f ` ?L)" using card_image [OF i] by simp
  also have "\<dots> \<le> card (set ?own)" by (rule surj_card_le [OF _ sub]) simp
  also have "\<dots> \<le> length ?own" by (rule card_length)
  also have "\<dots> \<le> Suc (active_runs (svc s) (sa_ID agent))" by (simp add: run active_runs_def)
  finally show ?thesis using c by linarith
qed

lemma concurrency_respected_witness:
  "card {l. \<exists>a j c. tns (demo_system True (demo_decided 10) demo_working (Starting []) (Some Replying) (Some Beginning)) l =
     Some (a, j, c) \<and> sa_ID a = ''ops''} \<le> 1"
  using concurrency_respected [OF demo_admitting_reach demo_admit_step, of 0 demo_super "''tkt_2''" Beginning]
  by (simp add: demo_system_def demo_super_simps)

text \<open>
  Carrying out a decision touches no ticket but those of the event's own Super Agent and thread, and it creates at
  most one, for a worker of the roster or one launched for the Super Agent.
\<close>

theorem decision_confined:
  assumes r: "sa_reach ot eqf s" and k: "evs s k = Some (t, Deciding agent tickets decision)" and g: "gap between"
    and u: "uuid \<notin> drawn s"
    and a: "apply_decision ot between uuid now agent t tickets decision (svc s) (tabs s) = (res, sv', d')"
    and row: "row \<in> set (agent_tickets d')" "row \<notin> set (agent_tickets (tabs s))"
  shows "kr_agent row = sg_SuperAgentID t \<and> kr_thread row = sg_ThreadKey t \<and>
    (kr_id row = ''tkt_'' @ uuid \<and> rd_Decision decision = ''accept'' \<or>
     kr_id row \<in> kr_id ` set (agent_tickets (tabs s)) \<and> rd_Decision decision \<in> {''attach'', ''stop''})"
proof -
  note i = sa_inv_reach [OF r]
  note kn = turns_okD(3) [OF sa_invD(3) [OF i] k, unfolded eval_knows_def]
  from a g sa_invD(1) [OF i] statuses [OF i] fresh_ticket(1) [OF i u] show ?thesis
  proof (cases rule: apply_decision_cases)
    case quiet
    then show ?thesis using row by (auto simp: pruned_def)
  next
    case (created worker reason)
    then have "kr_id row = ''tkt_'' @ uuid" "kr_data row = new_ticket uuid now agent t decision worker"
      using row by (auto simp: written_def new_ticket_def Let_def)
    moreover have "ticket_ok row" using created(5) row(1) by (simp add: tables_ok_def)
    ultimately show ?thesis using created(3) kn by (simp add: ticket_ok_def new_ticket_def Let_def)
  next
    case (moved ticket q t')
    then have d: "kr_id row = ti_ID t'" "kr_data row = t'" using row by (auto simp: written_def)
    have ok: "ticket_ok row" "ticket_ok q" using moved(2,6) row(1) sa_invD(1) [OF i] by (simp_all add: tables_ok_def)
    have b: "same_birth (kr_data q) t'" using moved(4) by (simp add: soft_def moves_to_def)
    from kn moved(1) have tk: "born_as s ticket" "ti_SuperAgentID ticket = sg_SuperAgentID t" "ti_ThreadKey ticket = sg_ThreadKey t"
      by simp_all
    have "same_birth ticket (kr_data q) \<or> ti_SuperAgentID (kr_data q) = ti_SuperAgentID ticket \<and> ti_ThreadKey (kr_data q) = ti_ThreadKey ticket"
    proof -
      have "born_as s (kr_data q)" using turns_okD(2) [OF sa_invD(3) [OF i] moved(2)] by (simp add: row_born_def)
      moreover have "ti_ID (kr_data q) = ti_ID ticket" using row_key [OF i moved(2)] moved(3) by simp
      ultimately show ?thesis using tk(1) by (auto simp: born_as_def same_birth_def)
    qed
    then have "ti_SuperAgentID (kr_data q) = sg_SuperAgentID t" "ti_ThreadKey (kr_data q) = sg_ThreadKey t"
      using tk(2,3) by (auto simp: same_birth_def)
    moreover have "kr_id row \<in> kr_id ` set (agent_tickets (tabs s))" using d(1) b ok(2) moved(2) by (auto simp: ticket_ok_def same_birth_def)
    ultimately show ?thesis using d(2) b ok(1) moved(9) by (simp add: ticket_ok_def same_birth_def)
  qed
qed

lemma decision_confined_witness: "kr_thread (ticket_row_of demo_ticket) = ''th''"
  using decision_confined [OF demo_deciding_reach, of 0 demo_trigger demo_super "[]" demo_decision id "''2''" demo_time _ _ _
      "ticket_row_of demo_ticket"] demo_accept [of demo_thinking 6]
  by (simp add: demo_system_def gap_def demo_super_db_def demo_trigger_simps)

section \<open>Modes\<close>

text \<open>The Super Agent on whose behalf an evaluation is about to change a ticket or to answer.\<close>

fun acting :: "evaluation \<Rightarrow> SuperAgent option" where
  "acting (Deciding a ts r) = Some a"
| "acting (Rescuing a live cause) = Some a"
| "acting (Recording a disposition reason i reply) = (if reply = [] then None else a)"
| "acting _ = None"

lemma acting_step:
  assumes "sa_step ot eqf s s'" "evs s' k = Some (t, e)" "acting e = Some a"
  shows "(\<exists>e0. evs s k = Some (t, e0) \<and> acting e0 = Some a) \<or> sa_Mode a \<noteq> ''observe''"
  using assms(1)
proof cases
  case load
  then show ?thesis
    using assms(2,3)
    by (auto simp: load_agent_def after_agent_def split: if_splits prod.splits option.splits)
next
  case threads
  then show ?thesis using assms(2,3) by (auto simp: after_threads_def split: if_splits option.splits)
next
  case ask
  then show ?thesis
    using assms(2,3)
    by (auto simp: routed_def routerFailed_def router_failed_def after_route_def Let_def
        split: if_splits sum.splits option.splits)
next
  case rescue
  then show ?thesis
    using assms(2,3) by (auto simp: after_rescue_def router_failed_def split: if_splits sum.splits)
next
  case decide
  then show ?thesis
    using assms(2,3) by (auto simp: after_apply_def split: if_splits sum.splits)
qed (use assms(2,3) in \<open>auto split: if_splits\<close>)

text \<open>
  C26. The evaluation of an event by a Super Agent that only observes neither changes a ticket nor answers: in every
  reachable state, the evaluations that are about to carry out a decision, to hand the event to a ticket after the
  router failed, or to send a reply, work for a Super Agent whose mode, as the evaluation read it, is not observe.
  (The mode is a matter of evaluations alone. Tickets that were queued before the mode was switched, or are retried by
  hand, still get their turns.)
\<close>

theorem observer_is_silent:
  assumes "sa_reach ot eqf s" "evs s k = Some (t, e)" "acting e = Some agent"
  shows "sa_Mode agent \<noteq> ''observe''"
  using assms
proof (induction arbitrary: t e rule: sa_reach.induct)
  case (init s)
  then show ?case by (simp add: sa_init_def)
next
  case (step s s')
  then show ?case using acting_step [OF step.hyps(2) step.prems] by blast
qed

lemma observer_is_silent_witness: "sa_Mode demo_super \<noteq> ''observe''"
  using observer_is_silent [OF demo_deciding_reach, of 0 demo_trigger "Deciding demo_super [] demo_decision" demo_super]
  by (simp add: demo_system_def)

section \<open>Restart\<close>

context keyed_table
begin

lemma upsert_keys: "key ` set rows \<subseteq> key ` set (table_upsert key merge r rows)"
proof -
  have m: "map key (map (\<lambda>q. if key q = key r then merge r q else q) rows) = map key rows" by (simp add: key_merge)
  have "set (map key rows) \<subseteq> set (map key (table_upsert key merge r rows))"
    by (cases "list_ex (\<lambda>q. key q = key r) rows") (simp_all only: table_upsert_def if_True if_False m, auto)
  then show ?thesis by simp
qed

end

lemma upsert_ticket_keys:
  assumes "UpsertSuperAgentTicket t d = (ok, d')"
  shows "kr_id ` set (agent_tickets d) \<subseteq> kr_id ` set (agent_tickets d')"
proof -
  from assms have "agent_tickets d' = agent_tickets d \<or>
      agent_tickets d' = table_upsert kr_id merge_ticket_row (ticket_row_of t) (agent_tickets d)"
    by (auto simp: UpsertSuperAgentTicket_def sql_exec_def Let_def split: if_splits)
  then show ?thesis using ticket_tab.upsert_keys by (metis order_refl)
qed

lemma requeue_keys:
  "requeue_all now ts d = (ok, d') \<Longrightarrow> kr_id ` set (agent_tickets d) \<subseteq> kr_id ` set (agent_tickets d')"
proof (induction ts arbitrary: d)
  case (Cons t ts)
  then show ?case
    using upsert_ticket_keys [of "recovered_ticket now t" d] by (fastforce split: prod.splits bool.splits)
qed simp

lemma Start_keys:
  assumes "Start_service homes uuids now d = (ok, sv', d')"
  shows "kr_id ` set (agent_tickets d) \<subseteq> kr_id ` set (agent_tickets d')"
proof -
  obtain l d1 where l: "ListSuperAgentTicketsByStatus [''running''] d = (l, d1)" by force
  have t1: "agent_tickets d1 = agent_tickets d" using ListByStatus_same [OF l] by (simp add: same_super_def)
  show ?thesis
  proof (cases l)
    case None
    with assms l t1 show ?thesis by (simp add: Start_service_def)
  next
    case (Some ts)
    obtain o2 d2 where q: "requeue_all now ts d1 = (o2, d2)" by force
    have k: "kr_id ` set (agent_tickets d) \<subseteq> kr_id ` set (agent_tickets d2)" using requeue_keys [OF q] t1 by simp
    have a: "agent_tickets (adoptRouters homes uuids now d2) = agent_tickets d2"
      using adopt_each_effect by (auto simp: adoptRouters_def only_agents_def split: prod.splits option.splits
          dest!: ListSuperAgents_same simp: same_super_def)
    obtain f sv4 d4 where f: "refreshClaims fresh_service (adoptRouters homes uuids now d2) = (f, sv4, d4)" by (metis prod_cases3)
    have "agent_tickets d4 = agent_tickets d2" using refreshClaims_same [OF f] a by (simp add: same_super_def)
    with assms l Some q f k show ?thesis by (cases o2) (auto simp: Start_service_def split: sum.splits)
  qed
qed

text \<open>
  After a restart no ticket is left marked as running, and none is lost: an interrupted one is queued again with all
  its messages behind a note about the restart, and the others are as they were.
\<close>

theorem restart_keeps_tickets:
  assumes r: "sa_reach ot eqf s" and st: "Start_service homes uuids now (tabs s) = (True, sv', d')"
    and row: "row \<in> set (agent_tickets (tabs s))"
  shows "\<exists>row'\<in>set (agent_tickets d'). kr_id row' = kr_id row \<and> kr_data row' =
    (if ti_Status (kr_data row) = ''running''
     then (kr_data row)\<lparr>ti_Status := ''queued'', ti_Inputs := recoveryNote # ti_Inputs (kr_data row), ti_UpdatedAt := now\<rparr>
     else kr_data row)"
proof -
  note i = sa_inv_reach [OF r]
  note e = Start_effect [OF st sa_invD(1) [OF i]]
  obtain row' where row': "row' \<in> set (agent_tickets d')" "kr_id row' = kr_id row"
    using Start_keys [OF st] row by (metis image_iff subsetD)
  have nr: "ti_Status (kr_data row') \<noteq> ''running''" using e(4) row'(1) by blast
  from e(3) row'(1) consider "row' \<in> set (agent_tickets (tabs s))"
    | q where "q \<in> set (agent_tickets (tabs s))" "kr_id row' = kr_id q" "ti_Status (kr_data q) = ''running''"
        "kr_data row' = recovered_ticket now (kr_data q)" by blast
  then show ?thesis
  proof cases
    case 1
    then have "row' = row" using ticket_key_unique [OF sa_invD(1) [OF i] 1 row row'(2)] by simp
    with row'(1) nr show ?thesis by (intro bexI [OF _ row'(1)]) simp
  next
    case (2 q)
    have "kr_id q = kr_id row" by (rule trans [OF 2(2) [symmetric] row'(2)])
    note q = ticket_key_unique [OF sa_invD(1) [OF i] 2(1) row this]
    have "kr_data row' = (if ti_Status (kr_data row) = ''running'' then recovered_ticket now (kr_data row) else kr_data row)"
      using 2(3,4) unfolding q by (simp only: if_True simp_thms)
    with row' show ?thesis unfolding recovered_ticket_def by blast
  qed
qed

abbreviation demo_interrupted :: super_db where
  "demo_interrupted \<equiv> demo_tables 12 [demo_row] [demo_ticket_row demo_begun]"

lemma demo_restart: "fst (Start_service (\<lambda>_. None) (\<lambda>_. []) demo_time demo_interrupted)"
proof -
  let ?t = "demo_begun\<lparr>ti_UpdatedAt := demo_time\<rparr>"
  have l: "ListSuperAgentTicketsByStatus [''running''] demo_interrupted =
      (Some [?t], demo_tables 13 [demo_row] [demo_ticket_row demo_begun])"
    by (simp add: sql_query_def demo_super_db_def Let_def ticket_order_def demo_row_simps demo_begun_def)
  have "ti_ID (recovered_ticket demo_time ?t) = ''tkt_2''"
    by (simp add: recovered_ticket_def demo_begun_def demo_ticket_simps)
  from demo_put_ticket [OF this demo_row_simps(1)]
  have q: "requeue_all demo_time [?t] (demo_tables n trs [demo_ticket_row demo_begun]) =
      (True, demo_tables (Suc n) trs [merge_ticket_row (ticket_row_of (recovered_ticket demo_time ?t)) (demo_ticket_row demo_begun)])"
    for n trs by simp
  have ls: "ListSuperAgents (demo_tables n trs tks) = (Some [demo_super], demo_tables (Suc n) trs tks)" for n trs tks
    by (simp add: ListSuperAgents_def sql_query_def demo_super_db_def Let_def super_row_of_def)
  have g: "GetAgentInstance ''sar_1'' (demo_tables n trs tks) = (Some (Some demo_router), demo_tables (Suc n) trs tks)" for n trs tks
    by (simp add: GetAgentInstance_def sql_query_def demo_super_db_def Let_def table_find_def demo_router_def)
  have ra: "IsRouterAgent demo_router" by (simp add: IsRouterAgent_def demo_router_def)
  have b: "bindRouter None now demo_super d = (fst (bindRouter None now demo_super d), d)" for now and d :: super_db
    by (simp add: bindRouter_def)
  have a: "adoptRouters (\<lambda>_. None) (\<lambda>_. []) demo_time (demo_tables n trs tks) = demo_tables (Suc (Suc n)) trs tks" for n trs tks
    by (simp add: adoptRouters_def ls demo_super_simps g ra split: prod.split) (metis b prod.inject)
  show ?thesis
    by (simp only: Start_service_def l q prod.case option.case bool.case a refreshClaims_def ls sum.case fst_conv)
qed

lemma restart_keeps_tickets_witness:
  "\<exists>row'\<in>set (agent_tickets (snd (snd (Start_service (\<lambda>_. None) (\<lambda>_. []) demo_time demo_interrupted)))).
    kr_id row' = ''tkt_2'' \<and> ti_Status (kr_data row') = ''queued''"
proof -
  obtain sv' d' where e: "Start_service (\<lambda>_. None) (\<lambda>_. []) demo_time demo_interrupted = (True, sv', d')"
    using demo_restart by (metis prod.collapse)
  have t: "tabs demo_ending = demo_interrupted" by (simp add: demo_system_def)
  have r: "demo_ticket_row demo_begun \<in> set (agent_tickets demo_interrupted)"
    "ti_Status (kr_data (demo_ticket_row demo_begun)) = ''running''"
    by (simp_all add: demo_super_db_def demo_row_simps demo_begun_def)
  obtain row' where "row' \<in> set (agent_tickets d')" "kr_id row' = ''tkt_2''" "ti_Status (kr_data row') = ''queued''"
    using restart_keeps_tickets [OF demo_ending_reach, unfolded t, OF e r(1)] r(2) by (auto simp: demo_row_simps)
  then show ?thesis unfolding e by auto
qed

section \<open>Sources\<close>

text \<open>A webhook whose signature does not verify under the secret of its source changes nothing.\<close>

theorem unsigned_webhook_ignored:
  assumes "HandleGitHubWebhook eqf lower hmac digest decode uuid now sourceID delivery sv d = (r, sv', d')"
    and "\<And>claim. claim_source (sv_claims sv) sourceID = Some claim \<Longrightarrow>
      config (sc_source claim) ''webhook_secret'' = [] \<or>
      (\<forall>b. hex_decode (trim_prefix (gd_Signature delivery) ''sha256='') = Some b \<longrightarrow>
         b \<noteq> hmac (config (sc_source claim) ''webhook_secret'') (gd_Body delivery))"
  shows "d' = d \<and> sv' = sv \<and> (r = Inl ErrNotFound \<or> r = Inl Unauthorized)"
proof (cases "claim_source (sv_claims sv) sourceID")
  case None
  with assms(1) show ?thesis by (simp add: HandleGitHubWebhook_def)
next
  case (Some claim)
  from assms(2) [OF this] have "\<not> verifyGitHubSignature hmac (config (sc_source claim) ''webhook_secret'') (gd_Signature delivery) (gd_Body delivery)"
    by (auto simp: verifyGitHubSignature_def split: option.splits)
  with assms(1) Some show ?thesis by (auto simp: HandleGitHubWebhook_def split: if_splits)
qed

definition demo_hook :: service_state where
  "demo_hook = fresh_service\<lparr>sv_claims := \<lparr>ci_bySource = [(''gh'', \<lparr>sc_agent = demo_super,
     sc_source = demo_source\<lparr>so_Kind := ''github_webhook'', so_Config := [''webhook_secret'' \<mapsto> ''s'']\<rparr>\<rparr>)],
     ci_byChannel = Map.empty\<rparr>\<rparr>"

definition demo_hook_delivery :: GitHubDelivery where
  "demo_hook_delivery = \<lparr>gd_Event = ''issues'', gd_DeliveryID = ''1'', gd_Signature = ''sha256=00'', gd_Body = ''{}''\<rparr>"

lemma unsigned_webhook_ignored_witness:
  "fst (HandleGitHubWebhook (=) id (\<lambda>_ _. ''m'') id (\<lambda>_. None) ''9'' demo_time ''gh'' demo_hook_delivery demo_hook (demo_super_db 0 [] [] []))
     \<in> {Inl ErrNotFound, Inl Unauthorized}"
proof -
  let ?h = "HandleGitHubWebhook (=) id (\<lambda>_ _. ''m'') id (\<lambda>_. None) ''9'' demo_time ''gh'' demo_hook_delivery demo_hook (demo_super_db 0 [] [] [])"
  have "hex_decode (trim_prefix (gd_Signature demo_hook_delivery) ''sha256='') = Some [char_of (0::nat)]" by code_simp
  moreover have "[char_of (0::nat)] \<noteq> ''m''" by code_simp
  ultimately have "\<forall>b. hex_decode (trim_prefix (gd_Signature demo_hook_delivery) ''sha256='') = Some b \<longrightarrow> b \<noteq> ''m''"
    by (metis option.inject)
  then have "snd (snd ?h) = demo_super_db 0 [] [] [] \<and> fst (snd ?h) = demo_hook \<and> (fst ?h = Inl ErrNotFound \<or> fst ?h = Inl Unauthorized)"
    by (intro unsigned_webhook_ignored [of "(=)" id "\<lambda>_ _. ''m''" id "\<lambda>_. None" "''9''" demo_time "''gh''" demo_hook_delivery demo_hook
        "demo_super_db 0 [] [] []"]) auto
  then show ?thesis by blast
qed





















end
