(* ===== verification/Wire_Values.thy ===== *)
theory Wire_Values
  imports Prelude Complex_Main
begin

text \<open>
  The values of \<^verbatim>\<open>encoding/json\<close> the provider package works on: what \<^verbatim>\<open>any\<close> may hold after decoding or in a
  literal, with the type assertions and helpers of provider/xlate_anthropic.go, provider/xlate_stream.go and
  provider/liveconfig.go that read it.

  A number is the value of its float64. A nil slice and an empty one behave alike in Go but print as \<open>null\<close> and
  \<open>[]\<close>, so they are two values here. A map is the list of its entries in the order of the keys, so equal maps
  are equal lists; reading a nil map is reading the empty one.
\<close>

datatype jv =
    JNull
  | JBool bool
  | JNum rat
  | JStr string
  | JNilArr
  | JArr "jv list"
  | JObj "(string \<times> jv) list"

type_synonym fields = "(string \<times> jv) list"

section \<open>Maps and slices\<close>

fun put :: "string \<Rightarrow> jv \<Rightarrow> fields \<Rightarrow> fields" where
  "put k v [] = [(k, v)]"
| "put k v ((k', v') # m) =
     (if k = k' then (k, v) # m else if k < k' then (k, v) # (k', v') # m else (k', v') # put k v m)"

text \<open>A map literal, or a map filled by assignments in that order.\<close>

definition mk :: "fields \<Rightarrow> fields" where
  "mk kvs = fold (\<lambda>(k, v). put k v) kvs []"

definition obj :: "fields \<Rightarrow> jv" where
  "obj kvs = JObj (mk kvs)"

text \<open>\<^verbatim>\<open>m[k]\<close>, nil when the key is missing.\<close>

definition fld :: "fields \<Rightarrow> string \<Rightarrow> jv" where
  "fld m k = (case map_of m k of None \<Rightarrow> JNull | Some v \<Rightarrow> v)"

text \<open>\<^verbatim>\<open>if v, ok := m[k]; ok { out[k'] = v }\<close>\<close>

definition copy_as :: "fields \<Rightarrow> string \<Rightarrow> string \<Rightarrow> fields" where
  "copy_as m k k' = (case map_of m k of None \<Rightarrow> [] | Some v \<Rightarrow> [(k', v)])"

definition copy_fields :: "fields \<Rightarrow> string list \<Rightarrow> fields" where
  "copy_fields m ks = concat (map (\<lambda>k. copy_as m k k) ks)"

text \<open>A field that is set under a condition.\<close>

definition given :: "bool \<Rightarrow> string \<Rightarrow> jv \<Rightarrow> fields" where
  "given c k v = (if c then [(k, v)] else [])"

text \<open>The value of a \<^verbatim>\<open>var xs []any\<close> filled by \<^verbatim>\<open>append\<close>.\<close>

definition slice :: "jv list \<Rightarrow> jv" where
  "slice xs = (if xs = [] then JNilArr else JArr xs)"

fun as_obj :: "jv \<Rightarrow> fields option" where
  "as_obj (JObj m) = Some m"
| "as_obj _ = None"

fun as_list :: "jv \<Rightarrow> jv list option" where
  "as_list (JArr xs) = Some xs"
| "as_list JNilArr = Some []"
| "as_list _ = None"

text \<open>\<^verbatim>\<open>xs, _ := v.([]any)\<close>\<close>

definition list_or_nil :: "jv \<Rightarrow> jv list" where
  "list_or_nil v = (case as_list v of None \<Rightarrow> [] | Some xs \<Rightarrow> xs)"

text \<open>\<^verbatim>\<open>m, _ := v.(map[string]any)\<close>\<close>

definition obj_or_nil :: "jv \<Rightarrow> fields" where
  "obj_or_nil v = (case as_obj v of None \<Rightarrow> [] | Some m \<Rightarrow> m)"

text \<open>The elements of a slice that are maps, the others skipped by \<^verbatim>\<open>continue\<close>.\<close>

definition objs :: "jv list \<Rightarrow> fields list" where
  "objs xs = List.map_filter as_obj xs"

section \<open>Helpers\<close>

fun stringValue :: "jv \<Rightarrow> string" where
  "stringValue (JStr s) = s"
| "stringValue _ = []"

text \<open>The conversion of a float64 to an integer drops the fraction.\<close>

definition rat_trunc :: "rat \<Rightarrow> int" where
  "rat_trunc r = (if 0 \<le> r then \<lfloor>r\<rfloor> else \<lceil>r\<rceil>)"

fun intValue :: "jv \<Rightarrow> int" where
  "intValue (JNum r) = rat_trunc r"
| "intValue _ = 0"

definition jint :: "int \<Rightarrow> jv" where
  "jint i = JNum (of_int i)"

fun firstNonNil :: "jv list \<Rightarrow> jv" where
  "firstNonNil [] = JNull"
| "firstNonNil (v # vs) = (if v \<noteq> JNull then v else firstNonNil vs)"

fun firstNonNilString :: "string list \<Rightarrow> string" where
  "firstNonNilString [] = []"
| "firstNonNilString (v # vs) = (if v \<noteq> [] then v else firstNonNilString vs)"

fun join_with :: "string \<Rightarrow> string list \<Rightarrow> string" where
  "join_with sep [] = []"
| "join_with sep [s] = s"
| "join_with sep (s # ss) = s @ sep @ join_with sep ss"

definition type_of :: "fields \<Rightarrow> string" where
  "type_of m = stringValue (fld m ''type'')"

text \<open>\<open>messageContentText\<close>: the text of a message content, a string or an array of parts.\<close>

definition part_text :: "fields \<Rightarrow> string" where
  "part_text p = (if type_of p \<in> {''text'', ''input_text'', ''output_text'', []} then stringValue (fld p ''text'') else [])"

fun messageContentText :: "jv \<Rightarrow> string" where
  "messageContentText (JStr s) = s"
| "messageContentText (JArr xs) = concat (map part_text (objs xs))"
| "messageContentText _ = []"

text \<open>
  The arguments of a tool call: a string of JSON that is decoded into the default \<open>{}\<close>. \<open>dec\<close> is
  \<^verbatim>\<open>json.Unmarshal\<close> into \<^verbatim>\<open>any\<close>, \<open>enc\<close> is \<^verbatim>\<open>json.Marshal\<close>.
\<close>

definition tool_input :: "(string \<Rightarrow> jv option) \<Rightarrow> string \<Rightarrow> jv" where
  "tool_input dec args =
     (if args = [] then obj [] else (case dec args of None \<Rightarrow> obj [] | Some v \<Rightarrow> v))"

section \<open>Facts\<close>

lemma map_of_json_put [simp]: "map_of (put k v m) = (map_of m)(k \<mapsto> v)"
  by (induction k v m rule: put.induct) (auto simp: fun_upd_twist)

lemma map_of_fold_put: "map_of (fold (\<lambda>(k, v). put k v) kvs m) = map_of m ++ map_of (rev kvs)"
  by (induction kvs arbitrary: m) (auto simp: map_add_def fun_eq_iff split: option.splits)

text \<open>The value a literal gives to one key: the last one written.\<close>

definition look :: "fields \<Rightarrow> string \<Rightarrow> jv option" where
  "look kvs q = map_of (rev kvs) q"

lemma map_of_mk [simp]: "map_of (mk kvs) q = look kvs q"
  by (simp add: mk_def map_of_fold_put look_def)

lemma fld_mk [simp]: "fld (mk kvs) q = (case look kvs q of None \<Rightarrow> JNull | Some v \<Rightarrow> v)"
  by (simp add: fld_def)

lemma look_Nil [simp]: "look [] q = None"
  by (simp add: look_def)

lemma look_Cons [simp]:
  "look ((k, v) # kvs) q = (case look kvs q of Some v' \<Rightarrow> Some v' | None \<Rightarrow> if q = k then Some v else None)"
  by (simp add: look_def map_add_def split: option.splits)

lemma look_append [simp]:
  "look (xs @ ys) q = (case look ys q of Some v \<Rightarrow> Some v | None \<Rightarrow> look xs q)"
  by (simp add: look_def map_add_def split: option.splits)

lemma look_copy_as [simp]: "look (copy_as m k k') q = (if q = k' then map_of m k else None)"
  by (auto simp: look_def copy_as_def split: option.splits)

lemma look_copy_fields [simp]: "look (copy_fields m ks) q = (if q \<in> set ks then map_of m q else None)"
proof (induction ks)
  case Nil
  then show ?case by (simp add: copy_fields_def)
next
  case (Cons k ks)
  have "copy_fields m (k # ks) = copy_as m k k @ copy_fields m ks" by (simp add: copy_fields_def)
  with Cons show ?case by (simp split: option.splits)
qed

lemma look_given [simp]: "look (given c k v) q = (if c \<and> q = k then Some v else None)"
  by (simp add: given_def)

lemma fld_Nil [simp]: "fld [] k = JNull"
  by (simp add: fld_def)

lemma as_obj_obj [simp]: "as_obj (obj kvs) = Some (mk kvs)"
  by (simp add: obj_def)

lemma obj_not_null [simp]: "obj kvs \<noteq> JNull" "JNull \<noteq> obj kvs"
  by (simp_all add: obj_def)

lemma stringValue_obj [simp]: "stringValue (obj kvs) = []" "as_list (obj kvs) = None"
  by (simp_all add: obj_def)

lemma as_list_slice [simp]: "as_list (slice xs) = Some xs" "list_or_nil (slice xs) = xs"
  by (simp_all add: slice_def list_or_nil_def)

lemma list_or_nil_simps [simp]: "list_or_nil (JArr xs) = xs" "list_or_nil JNull = []" "list_or_nil JNilArr = []"
  "list_or_nil (JStr s) = []" "list_or_nil (JNum r) = []" "list_or_nil (JBool b) = []" "list_or_nil (JObj m) = []"
  by (simp_all add: list_or_nil_def)

lemma objs_simps [simp]:
  "objs [] = []"
  "objs (obj kvs # xs) = mk kvs # objs xs"
  "objs (xs @ ys) = objs xs @ objs ys"
  by (simp_all add: objs_def List.map_filter_def obj_def)

lemma objs_map_obj [simp]: "objs (map (\<lambda>x. obj (f x)) xs) = map (\<lambda>x. mk (f x)) xs"
  by (induction xs) simp_all

lemma mcText_Nil_slice [simp]: "messageContentText (slice xs) = concat (map part_text (objs xs))"
  by (simp add: slice_def)

end
