(* ===== verification/Translate_Requests.thy ===== *)
theory Translate_Requests
  imports Wire_Values Database
begin

text \<open>
  The request half of the translation hub of the local proxy (provider/xlate.go, provider/convert.go,
  provider/xlate_anthropic.go, provider/xlate_gemini.go, provider/xlate_responses.go): every client body is decoded to
  the chat form (the IR), and every upstream body is encoded from it. \<open>lower\<close> and \<open>upper\<close> are the case
  conversions of package strings, \<open>enc\<close> and \<open>dec\<close> the JSON codec.
\<close>

section \<open>Protocols\<close>

definition normalizeProto :: "(string \<Rightarrow> string) \<Rightarrow> string \<Rightarrow> string" where
  "normalizeProto lower format =
     (let f = trim_space (lower format) in
      if f \<in> {''anthropic'', ''claude'', ''messages''} then ''anthropic''
      else if f \<in> {''openai_chat'', ''chat'', ''chat_completions''} then ''openai_chat''
      else if f \<in> {''openai_responses'', ''responses''} then ''openai_responses''
      else if f \<in> {''gemini'', ''gemini_native'', ''generatecontent''} then ''gemini''
      else [])"

definition upstreamProto :: "(string \<Rightarrow> string) \<Rightarrow> string \<Rightarrow> string \<Rightarrow> string" where
  "upstreamProto lower apiFormat fallback =
     (let p = normalizeProto lower apiFormat in if p \<noteq> [] then p else fallback)"

section \<open>Anthropic to chat\<close>

definition block_text :: "fields \<Rightarrow> string" where
  "block_text b = (if type_of b = ''text'' then stringValue (fld b ''text'') else [])"

definition collectAnthropicText :: "jv list \<Rightarrow> string" where
  "collectAnthropicText blocks = concat (map block_text (objs blocks))"

definition anthropicToolResultText :: "jv \<Rightarrow> string" where
  "anthropicToolResultText content =
     (case content of JStr s \<Rightarrow> s
      | _ \<Rightarrow> (case as_list content of Some xs \<Rightarrow> collectAnthropicText xs | None \<Rightarrow> []))"

text \<open>A tool call of a chat message.\<close>

definition chat_call :: "jv \<Rightarrow> jv \<Rightarrow> jv \<Rightarrow> jv" where
  "chat_call i name args =
     obj [(''id'', i), (''type'', JStr ''function''),
          (''function'', obj [(''name'', name), (''arguments'', args)])]"

definition tool_use_call :: "(jv \<Rightarrow> string) \<Rightarrow> fields \<Rightarrow> jv" where
  "tool_use_call enc b = chat_call (fld b ''id'') (fld b ''name'') (JStr (enc (fld b ''input'')))"

definition tool_result_message :: "fields \<Rightarrow> jv" where
  "tool_result_message b =
     obj [(''role'', JStr ''tool''), (''tool_call_id'', fld b ''tool_use_id''),
          (''content'', JStr (anthropicToolResultText (fld b ''content'')))]"

definition has_type :: "string \<Rightarrow> fields \<Rightarrow> bool" where
  "has_type t b \<longleftrightarrow> type_of b = t"

text \<open>A message with a text that may be empty (then nil) and tool calls that may be absent.\<close>

definition text_and_calls :: "string \<Rightarrow> string \<Rightarrow> jv list \<Rightarrow> jv" where
  "text_and_calls role txt calls =
     obj ([(''role'', JStr role), (''content'', if txt \<noteq> [] then JStr txt else JNull)] @
          given (calls \<noteq> []) ''tool_calls'' (JArr calls))"

definition convertAnthropicBlocks :: "(jv \<Rightarrow> string) \<Rightarrow> string \<Rightarrow> jv list \<Rightarrow> jv list" where
  "convertAnthropicBlocks enc role blocks =
     (let bs = objs blocks;
          out = map tool_result_message (filter (has_type ''tool_result'') bs);
          txt = concat (map block_text bs);
          toolCalls = map (tool_use_call enc) (filter (has_type ''tool_use'') bs)
      in if txt \<noteq> [] \<or> toolCalls \<noteq> [] then out @ [text_and_calls role txt toolCalls] else out)"

definition chat_message :: "string \<Rightarrow> string \<Rightarrow> jv" where
  "chat_message role txt = obj [(''role'', JStr role), (''content'', JStr txt)]"

definition anthropic_system_messages :: "jv \<Rightarrow> jv list" where
  "anthropic_system_messages sys =
     (let txt = (case sys of JStr s \<Rightarrow> s
                 | _ \<Rightarrow> (case as_list sys of Some xs \<Rightarrow> collectAnthropicText xs | None \<Rightarrow> []))
      in if txt \<noteq> [] then [chat_message ''system'' txt] else [])"

definition anthropic_message :: "(jv \<Rightarrow> string) \<Rightarrow> fields \<Rightarrow> jv list" where
  "anthropic_message enc msg =
     (let role = stringValue (fld msg ''role'') in
      case fld msg ''content'' of
        JStr s \<Rightarrow> [chat_message role s]
      | content \<Rightarrow> (case as_list content of Some xs \<Rightarrow> convertAnthropicBlocks enc role xs | None \<Rightarrow> []))"

definition anthropic_tool :: "fields \<Rightarrow> jv" where
  "anthropic_tool tool =
     obj [(''type'', JStr ''function''),
          (''function'', obj ([(''name'', fld tool ''name''), (''description'', fld tool ''description'')] @
                              copy_as tool ''input_schema'' ''parameters''))]"

definition anthropic_tool_choice :: "jv \<Rightarrow> fields" where
  "anthropic_tool_choice v =
     (case as_obj v of
        None \<Rightarrow> []
      | Some choice \<Rightarrow>
          (if type_of choice = ''auto'' then [(''tool_choice'', JStr ''auto'')]
           else if type_of choice = ''any'' then [(''tool_choice'', JStr ''required'')]
           else if type_of choice = ''tool'' then
             [(''tool_choice'', obj [(''type'', JStr ''function''), (''function'', obj [(''name'', fld choice ''name'')])])]
           else []))"

text \<open>The tools of a request, set when the request has any.\<close>

definition tools_field :: "(jv list \<Rightarrow> jv list) \<Rightarrow> fields \<Rightarrow> fields" where
  "tools_field conv body =
     (let tools = (case as_list (fld body ''tools'') of Some ts \<Rightarrow> ts | None \<Rightarrow> []) in
      given (tools \<noteq> []) ''tools'' (slice (conv tools)))"

lemma look_tools_field [simp]:
  "q \<noteq> ''tools'' \<Longrightarrow> look (tools_field conv body) q = None"
  by (simp add: tools_field_def Let_def)

lemma look_anthropic_tool_choice [simp]:
  "q \<noteq> ''tool_choice'' \<Longrightarrow> look (anthropic_tool_choice v) q = None"
  by (simp add: anthropic_tool_choice_def split: option.splits)

definition anthropicToChatRequest :: "(jv \<Rightarrow> string) \<Rightarrow> fields \<Rightarrow> string \<Rightarrow> string + fields" where
  "anthropicToChatRequest enc body overrideModel =
     (let model = (if overrideModel \<noteq> [] then overrideModel else stringValue (fld body ''model'')) in
      if model = [] then Inl ''missing model''
      else Inr (mk (
        [(''model'', JStr model),
         (''messages'', slice (anthropic_system_messages (fld body ''system'') @
            concat (map (anthropic_message enc) (objs (list_or_nil (fld body ''messages''))))))] @
        copy_fields body [''max_tokens'', ''temperature'', ''top_p'', ''stream''] @
        copy_as body ''stop_sequences'' ''stop'' @
        given (fld body ''stream'' = JBool True) ''stream_options'' (obj [(''include_usage'', JBool True)]) @
        tools_field (\<lambda>ts. map anthropic_tool (objs ts)) body @
        anthropic_tool_choice (fld body ''tool_choice''))))"

section \<open>Chat to Anthropic\<close>

text \<open>
  The calls of a message: id, name and decoded arguments. A call without a function object has no name and the empty
  arguments.
\<close>

definition call_function :: "fields \<Rightarrow> fields" where
  "call_function call = obj_or_nil (fld call ''function'')"

definition call_name :: "fields \<Rightarrow> string" where
  "call_name call = stringValue (fld (call_function call) ''name'')"

definition call_input :: "(string \<Rightarrow> jv option) \<Rightarrow> fields \<Rightarrow> jv" where
  "call_input dec call = tool_input dec (stringValue (fld (call_function call) ''arguments''))"

definition message_calls :: "fields \<Rightarrow> fields list" where
  "message_calls msg = objs (list_or_nil (fld msg ''tool_calls''))"

definition tool_use_block :: "(string \<Rightarrow> jv option) \<Rightarrow> fields \<Rightarrow> jv" where
  "tool_use_block dec call =
     obj [(''type'', JStr ''tool_use''), (''id'', fld call ''id''), (''name'', JStr (call_name call)),
          (''input'', call_input dec call)]"

definition text_block :: "string \<Rightarrow> jv list" where
  "text_block txt = (if txt \<noteq> [] then [obj [(''type'', JStr ''text''), (''text'', JStr txt)]] else [])"

definition assistant_blocks :: "(string \<Rightarrow> jv option) \<Rightarrow> fields \<Rightarrow> jv list" where
  "assistant_blocks dec msg =
     text_block (messageContentText (fld msg ''content'')) @ map (tool_use_block dec) (message_calls msg)"

definition tool_result_block :: "fields \<Rightarrow> jv" where
  "tool_result_block msg =
     obj [(''type'', JStr ''tool_result''), (''tool_use_id'', fld msg ''tool_call_id''),
          (''content'', JStr (messageContentText (fld msg ''content'')))]"

definition role_content :: "string \<Rightarrow> jv \<Rightarrow> jv" where
  "role_content role content = obj [(''role'', JStr role), (''content'', content)]"

definition flushToolResults :: "jv list \<times> jv list \<Rightarrow> jv list" where
  "flushToolResults s = (case s of (messages, pending) \<Rightarrow>
     if pending \<noteq> [] then messages @ [role_content ''user'' (JArr pending)] else messages)"

text \<open>The loop over the messages: the system parts, the messages written, and the pending tool results.\<close>

definition to_anthropic_step ::
  "(string \<Rightarrow> jv option) \<Rightarrow> fields \<Rightarrow> string list \<times> jv list \<times> jv list \<Rightarrow> string list \<times> jv list \<times> jv list" where
  "to_anthropic_step dec msg s =
     (case s of (sys, messages, pending) \<Rightarrow>
        let role = stringValue (fld msg ''role''); txt = messageContentText (fld msg ''content'') in
        if role = ''system'' then (if txt \<noteq> [] then sys @ [txt] else sys, messages, pending)
        else if role = ''tool'' then (sys, messages, pending @ [tool_result_block msg])
        else if role = ''assistant'' then
          (let blocks = assistant_blocks dec msg; flushed = flushToolResults (messages, pending) in
           (sys, if blocks \<noteq> [] then flushed @ [role_content ''assistant'' (JArr blocks)] else flushed, []))
        else
          (let flushed = flushToolResults (messages, pending) in
           (sys, if txt \<noteq> [] then flushed @ [role_content ''user'' (JStr txt)] else flushed, [])))"

definition openAIToolChoiceToAnthropic :: "jv \<Rightarrow> jv" where
  "openAIToolChoiceToAnthropic choice =
     (case choice of
        JStr v \<Rightarrow>
          (if v = ''auto'' then obj [(''type'', JStr ''auto'')]
           else if v \<in> {''required'', ''any''} then obj [(''type'', JStr ''any'')]
           else JNull)
      | JObj v \<Rightarrow>
          (case as_obj (fld v ''function'') of
             Some fn \<Rightarrow> obj [(''type'', JStr ''tool''), (''name'', fld fn ''name'')]
           | None \<Rightarrow> JNull)
      | _ \<Rightarrow> JNull)"

text \<open>The function objects of the tools of a chat request.\<close>

definition tool_functions :: "jv list \<Rightarrow> fields list" where
  "tool_functions tools = List.map_filter (\<lambda>tool. as_obj (fld tool ''function'')) (objs tools)"

definition to_anthropic_tool :: "fields \<Rightarrow> jv" where
  "to_anthropic_tool fn =
     obj ([(''name'', fld fn ''name'')] @
          given (fld fn ''description'' \<noteq> JNull) ''description'' (fld fn ''description'') @
          [(''input_schema'', case map_of fn ''parameters'' of Some params \<Rightarrow> params
                              | None \<Rightarrow> obj [(''type'', JStr ''object'')])])"

definition chatToAnthropicRequest :: "(string \<Rightarrow> jv option) \<Rightarrow> fields \<Rightarrow> fields" where
  "chatToAnthropicRequest dec ir =
     (let model = stringValue (fld ir ''model'');
          (sys, messages, pending) = fold (to_anthropic_step dec) (objs (list_or_nil (fld ir ''messages''))) ([], [], []);
          choice = openAIToolChoiceToAnthropic (fld ir ''tool_choice'')
      in mk (
        given (model \<noteq> []) ''model'' (JStr model) @
        [(''messages'', slice (flushToolResults (messages, pending)))] @
        given (sys \<noteq> []) ''system'' (JStr (join_with [CHR 0x0A, CHR 0x0A] sys)) @
        [(''max_tokens'', if fld ir ''max_tokens'' \<noteq> JNull then fld ir ''max_tokens'' else jint 4096)] @
        copy_fields ir [''temperature'', ''top_p'', ''stream''] @
        copy_as ir ''stop'' ''stop_sequences'' @
        tools_field (\<lambda>ts. map to_anthropic_tool (tool_functions ts)) ir @
        given (choice \<noteq> JNull) ''tool_choice'' (choice)))"

section \<open>Chat to Responses\<close>

definition output_message :: "string \<Rightarrow> string \<Rightarrow> string \<Rightarrow> jv" where
  "output_message role partType txt =
     obj [(''type'', JStr ''message''), (''role'', JStr role),
          (''content'', JArr [obj [(''type'', JStr partType), (''text'', JStr txt)]])]"

definition function_call_item :: "fields \<Rightarrow> jv" where
  "function_call_item call =
     obj ([(''type'', JStr ''function_call''), (''call_id'', fld call ''id'')] @
          (case as_obj (fld call ''function'') of
             Some fn \<Rightarrow> [(''name'', fld fn ''name''), (''arguments'', fld fn ''arguments'')]
           | None \<Rightarrow> []))"

definition to_responses_items :: "fields \<Rightarrow> jv list" where
  "to_responses_items msg =
     (let role = stringValue (fld msg ''role''); txt = messageContentText (fld msg ''content'') in
      if role = ''system'' then []
      else if role = ''tool'' then
        [obj [(''type'', JStr ''function_call_output''), (''call_id'', fld msg ''tool_call_id''), (''output'', JStr txt)]]
      else if role = ''assistant'' then
        (if txt \<noteq> [] then [output_message ''assistant'' ''output_text'' txt] else []) @
        map function_call_item (message_calls msg)
      else (if txt \<noteq> [] then [output_message ''user'' ''input_text'' txt] else []))"

text \<open>The texts of the system messages that have one.\<close>

definition system_parts :: "fields list \<Rightarrow> string list" where
  "system_parts msgs =
     filter (\<lambda>t. t \<noteq> []) (map (\<lambda>m. messageContentText (fld m ''content''))
       (filter (\<lambda>m. stringValue (fld m ''role'') = ''system'') msgs))"

definition to_responses_tool :: "fields \<Rightarrow> jv" where
  "to_responses_tool fn =
     obj ([(''type'', JStr ''function''), (''name'', fld fn ''name''), (''description'', fld fn ''description'')] @
          copy_as fn ''parameters'' ''parameters'')"

definition responses_tool_choice :: "fields \<Rightarrow> fields" where
  "responses_tool_choice ir =
     (case map_of ir ''tool_choice'' of
        None \<Rightarrow> []
      | Some choice \<Rightarrow>
          (case choice of
             JObj selected \<Rightarrow>
               if fld selected ''type'' = JStr ''function'' then
                 (case as_obj (fld selected ''function'') of
                    Some fn \<Rightarrow> [(''tool_choice'', obj [(''type'', JStr ''function''), (''name'', fld fn ''name'')])]
                  | None \<Rightarrow> [])
               else [(''tool_choice'', choice)]
           | _ \<Rightarrow> [(''tool_choice'', choice)]))"

lemma look_responses_tool_choice [simp]:
  "q \<noteq> ''tool_choice'' \<Longrightarrow> look (responses_tool_choice ir) q = None"
  by (auto simp: responses_tool_choice_def split: option.splits jv.splits)

definition chatToResponsesRequest :: "fields \<Rightarrow> fields" where
  "chatToResponsesRequest ir =
     (let model = stringValue (fld ir ''model'');
          msgs = objs (list_or_nil (fld ir ''messages''));
          instructions = system_parts msgs
      in mk (
        given (model \<noteq> []) ''model'' (JStr model) @
        [(''input'', slice (concat (map to_responses_items msgs)))] @
        given (instructions \<noteq> []) ''instructions'' (JStr (join_with [CHR 0x0A, CHR 0x0A] instructions)) @
        given (fld ir ''max_tokens'' \<noteq> JNull) ''max_output_tokens'' (fld ir ''max_tokens'') @
        copy_fields ir [''temperature'', ''top_p'', ''stream''] @
        tools_field (\<lambda>ts. map to_responses_tool (tool_functions ts)) ir @
        responses_tool_choice ir))"

section \<open>Responses to chat\<close>

fun responsesContentText :: "(jv \<Rightarrow> string) \<Rightarrow> jv \<Rightarrow> string" where
  "responsesContentText enc (JStr s) = s"
| "responsesContentText enc (JArr xs) = concat (map part_text (objs xs))"
| "responsesContentText enc JNilArr = []"
| "responsesContentText enc JNull = []"
| "responsesContentText enc v = enc v"

definition tool_message :: "jv \<Rightarrow> string \<Rightarrow> jv" where
  "tool_message i txt = obj [(''role'', JStr ''tool''), (''tool_call_id'', i), (''content'', JStr txt)]"

definition responses_item_messages :: "(jv \<Rightarrow> string) \<Rightarrow> fields \<Rightarrow> jv list" where
  "responses_item_messages enc item =
     (if type_of item \<in> {''message'', []} then
        (let role = stringValue (fld item ''role'') in
         [chat_message (if role = [] then ''user'' else role) (responsesContentText enc (fld item ''content''))])
      else if type_of item = ''function_call'' then
        [text_and_calls ''assistant'' []
           [chat_call (fld item ''call_id'') (fld item ''name'') (fld item ''arguments'')]]
      else if type_of item = ''function_call_output'' then
        [tool_message (fld item ''call_id'') (responsesContentText enc (fld item ''output''))]
      else [])"

definition responses_tool :: "fields \<Rightarrow> jv" where
  "responses_tool tool =
     obj [(''type'', JStr ''function''),
          (''function'', obj ([(''name'', fld tool ''name''), (''description'', fld tool ''description'')] @
                              copy_as tool ''parameters'' ''parameters''))]"

definition responsesToChatRequest :: "(jv \<Rightarrow> string) \<Rightarrow> fields \<Rightarrow> fields" where
  "responsesToChatRequest enc body =
     (let model = stringValue (fld body ''model''); instr = stringValue (fld body ''instructions'');
          converted = map responses_tool (filter (has_type ''function'') (objs (list_or_nil (fld body ''tools''))))
      in mk (
        given (model \<noteq> []) ''model'' (JStr model) @
        [(''messages'', slice (
           (if instr \<noteq> [] then [chat_message ''system'' instr] else []) @
           (case fld body ''input'' of
              JStr s \<Rightarrow> [chat_message ''user'' s]
            | input \<Rightarrow> concat (map (responses_item_messages enc) (objs (list_or_nil input))))))] @
        copy_as body ''max_output_tokens'' ''max_tokens'' @
        copy_fields body [''temperature'', ''top_p'', ''stream''] @
        given (converted \<noteq> []) ''tools'' (JArr converted) @
        copy_as body ''tool_choice'' ''tool_choice''))"

section \<open>Gemini\<close>

definition geminiSynthID :: "nat \<Rightarrow> string" where
  "geminiSynthID idx = ''gemini_call_'' @ decimal idx"

text \<open>
  \<open>cleanGeminiSchema\<close>: the keys Gemini does not accept are dropped, types are upper-cased, and properties and items
  are cleaned in turn. The entries come in the order of their keys, so what is left is in that order too.
\<close>

definition unsupported_keys :: "string list" where
  "unsupported_keys =
     [''$schema'', ''$id'', ''$ref'', ''additionalProperties'', ''const'', ''minLength'', ''maxLength'', ''pattern'',
      ''exclusiveMinimum'', ''exclusiveMaximum'', ''multipleOf'', ''minItems'', ''maxItems'', ''uniqueItems'', ''format'',
      ''default'', ''examples'', ''title'']"

fun clean_type :: "(string \<Rightarrow> string) \<Rightarrow> jv \<Rightarrow> jv" where
  "clean_type upper (JStr s) = JStr (upper s)"
| "clean_type upper v = v"

text \<open>\<^verbatim>\<open>strings.EqualFold(s, "object")\<close>: the letters of the word have no fold partner outside ASCII.\<close>

definition ascii_lower :: "char \<Rightarrow> char" where
  "ascii_lower c = (if 65 \<le> byte_of c \<and> byte_of c \<le> 90 then char_of (byte_of c + 32) else c)"

definition folds_to_object :: "string \<Rightarrow> bool" where
  "folds_to_object s \<longleftrightarrow> map ascii_lower s = ''object''"

definition complete_object :: "fields \<Rightarrow> fields" where
  "complete_object out =
     (if folds_to_object (type_of out) \<and> map_of out ''properties'' = None then put ''properties'' (obj []) out else out)"

fun cleanGeminiSchema :: "(string \<Rightarrow> string) \<Rightarrow> jv \<Rightarrow> jv"
  and clean_entries :: "(string \<Rightarrow> string) \<Rightarrow> fields \<Rightarrow> fields"
  and clean_properties :: "(string \<Rightarrow> string) \<Rightarrow> fields \<Rightarrow> fields" where
  "cleanGeminiSchema upper (JObj m) = JObj (complete_object (clean_entries upper m))"
| "cleanGeminiSchema upper JNull = JNull"
| "cleanGeminiSchema upper (JBool b) = JBool b"
| "cleanGeminiSchema upper (JNum r) = JNum r"
| "cleanGeminiSchema upper (JStr s) = JStr s"
| "cleanGeminiSchema upper JNilArr = JNilArr"
| "cleanGeminiSchema upper (JArr xs) = JArr xs"
| "clean_entries upper [] = []"
| "clean_entries upper ((k, v) # m) =
     (if k \<in> set unsupported_keys then clean_entries upper m
      else if k = ''type'' then (k, clean_type upper v) # clean_entries upper m
      else if k = ''properties'' then
        (case v of JObj props \<Rightarrow> (k, JObj (clean_properties upper props)) # clean_entries upper m
         | _ \<Rightarrow> clean_entries upper m)
      else if k = ''items'' then (k, cleanGeminiSchema upper v) # clean_entries upper m
      else (k, v) # clean_entries upper m)"
| "clean_properties upper [] = []"
| "clean_properties upper ((name, sub) # m) = (name, cleanGeminiSchema upper sub) # clean_properties upper m"

text \<open>
  \<open>chatToGeminiRequest\<close> loops over the messages with the system parts, the contents, and the names of the calls seen
  so far by id; a tool result is named after its call.
\<close>

definition gemini_text :: "string \<Rightarrow> jv" where
  "gemini_text txt = obj [(''text'', JStr txt)]"

definition gemini_content :: "string \<Rightarrow> jv list \<Rightarrow> jv" where
  "gemini_content role parts = obj [(''role'', JStr role), (''parts'', JArr parts)]"

definition function_call_part :: "jv \<Rightarrow> jv \<Rightarrow> jv" where
  "function_call_part name args = obj [(''functionCall'', obj [(''name'', name), (''args'', args)])]"

definition gemini_calls :: "fields \<Rightarrow> fields list" where
  "gemini_calls msg = filter (\<lambda>call. as_obj (fld call ''function'') \<noteq> None) (message_calls msg)"

definition gemini_call_part :: "(string \<Rightarrow> jv option) \<Rightarrow> fields \<Rightarrow> jv" where
  "gemini_call_part dec call = function_call_part (JStr (call_name call)) (call_input dec call)"

definition note_names :: "fields list \<Rightarrow> (string \<times> string) list \<Rightarrow> (string \<times> string) list" where
  "note_names calls names = fold (\<lambda>call ns. (stringValue (fld call ''id''), call_name call) # ns) calls names"

definition result_name :: "(string \<times> string) list \<Rightarrow> string \<Rightarrow> string" where
  "result_name names i = (case map_of names i of None \<Rightarrow> ''tool'' | Some n \<Rightarrow> if n = [] then ''tool'' else n)"

definition to_gemini_step ::
  "(string \<Rightarrow> jv option) \<Rightarrow> fields \<Rightarrow> string list \<times> jv list \<times> (string \<times> string) list \<Rightarrow>
    string list \<times> jv list \<times> (string \<times> string) list" where
  "to_gemini_step dec msg s =
     (case s of (sys, contents, names) \<Rightarrow>
        let role = stringValue (fld msg ''role''); txt = messageContentText (fld msg ''content'') in
        if role = ''system'' then (if txt \<noteq> [] then sys @ [txt] else sys, contents, names)
        else if role = ''tool'' then
          (sys, contents @ [gemini_content ''user'' [obj [(''functionResponse'',
             obj [(''name'', JStr (result_name names (stringValue (fld msg ''tool_call_id'')))),
                  (''response'', obj [(''content'', JStr txt)])])]]], names)
        else if role = ''assistant'' then
          (let parts = (if txt \<noteq> [] then [gemini_text txt] else []) @ map (gemini_call_part dec) (gemini_calls msg) in
           (sys, if parts \<noteq> [] then contents @ [gemini_content ''model'' parts] else contents,
            note_names (gemini_calls msg) names))
        else (sys, if txt \<noteq> [] then contents @ [gemini_content ''user'' [gemini_text txt]] else contents, names))"

definition to_gemini_tool :: "(string \<Rightarrow> string) \<Rightarrow> fields \<Rightarrow> jv" where
  "to_gemini_tool upper fn =
     obj ([(''name'', fld fn ''name'')] @
          given (fld fn ''description'' \<noteq> JNull) ''description'' (fld fn ''description'') @
          [(''parameters'',
             let params = cleanGeminiSchema upper (fld fn ''parameters'') in
             if params = JNull then obj [(''type'', JStr ''OBJECT''), (''properties'', obj [])] else params)])"

definition gemini_config :: "fields \<Rightarrow> fields" where
  "gemini_config ir =
     given (fld ir ''max_tokens'' \<noteq> JNull) ''maxOutputTokens'' (fld ir ''max_tokens'') @
     copy_as ir ''temperature'' ''temperature'' @ copy_as ir ''top_p'' ''topP'' @ copy_as ir ''stop'' ''stopSequences''"

definition chatToGeminiRequest :: "(string \<Rightarrow> jv option) \<Rightarrow> (string \<Rightarrow> string) \<Rightarrow> fields \<Rightarrow> fields" where
  "chatToGeminiRequest dec upper ir =
     (let (sys, contents, _) = fold (to_gemini_step dec) (objs (list_or_nil (fld ir ''messages''))) ([], [], []);
          decls = map (to_gemini_tool upper) (tool_functions (list_or_nil (fld ir ''tools'')))
      in mk (
        [(''contents'', slice contents)] @
        given (sys \<noteq> []) ''systemInstruction''
          (obj [(''parts'', JArr [gemini_text (join_with [CHR 0x0A, CHR 0x0A] sys)])]) @
        given (gemini_config ir \<noteq> []) ''generationConfig'' (obj (gemini_config ir)) @
        given (decls \<noteq> []) ''tools'' (JArr [obj [(''functionDeclarations'', JArr decls)]])))"

definition geminiPartsText :: "jv \<Rightarrow> string" where
  "geminiPartsText parts = concat (map (\<lambda>p. stringValue (fld p ''text'')) (objs (list_or_nil parts)))"

text \<open>The function calls of a list of parts, numbered in order.\<close>

definition part_calls :: "fields list \<Rightarrow> fields list" where
  "part_calls parts = List.map_filter (\<lambda>p. as_obj (fld p ''functionCall'')) parts"

text \<open>The arguments of a function call, empty when it has none.\<close>

definition part_args :: "fields \<Rightarrow> jv" where
  "part_args fc = firstNonNil [fld fc ''args'', obj []]"

definition gemini_chat_call :: "(jv \<Rightarrow> string) \<Rightarrow> nat \<times> fields \<Rightarrow> jv" where
  "gemini_chat_call enc = (\<lambda>(idx, fc). chat_call (JStr (geminiSynthID idx)) (fld fc ''name'')
     (JStr (enc (part_args fc))))"

definition gemini_chat_calls :: "(jv \<Rightarrow> string) \<Rightarrow> fields list \<Rightarrow> jv list" where
  "gemini_chat_calls enc parts = map (gemini_chat_call enc) (enumerate 0 (part_calls parts))"

definition gemini_results :: "(jv \<Rightarrow> string) \<Rightarrow> fields list \<Rightarrow> jv list" where
  "gemini_results enc parts =
     map (\<lambda>(idx, fr). tool_message (JStr (geminiSynthID idx)) (enc (fld fr ''response'')))
       (enumerate 0 (List.map_filter (\<lambda>p. as_obj (fld p ''functionResponse'')) parts))"

definition gemini_messages :: "(jv \<Rightarrow> string) \<Rightarrow> fields \<Rightarrow> jv list" where
  "gemini_messages enc content =
     (let parts = objs (list_or_nil (fld content ''parts''));
          txt = concat (map (\<lambda>p. stringValue (fld p ''text'')) parts)
      in if stringValue (fld content ''role'') = ''model'' then
           [text_and_calls ''assistant'' txt (gemini_chat_calls enc parts)]
         else gemini_results enc parts @ (if txt \<noteq> [] then [chat_message ''user'' txt] else []))"

definition gemini_tools :: "fields \<Rightarrow> jv list" where
  "gemini_tools tool =
     map (\<lambda>decl. obj [(''type'', JStr ''function''),
            (''function'', obj ([(''name'', fld decl ''name''), (''description'', fld decl ''description'')] @
                                copy_as decl ''parameters'' ''parameters''))])
       (objs (list_or_nil (fld tool ''functionDeclarations'')))"

definition geminiToChatRequest :: "(jv \<Rightarrow> string) \<Rightarrow> fields \<Rightarrow> fields" where
  "geminiToChatRequest enc body =
     (let sys = (case as_obj (fld body ''systemInstruction'') of
                   Some s \<Rightarrow> geminiPartsText (fld s ''parts'') | None \<Rightarrow> []);
          converted = concat (map gemini_tools (objs (list_or_nil (fld body ''tools''))))
      in mk (
        [(''messages'', slice (
           (if sys \<noteq> [] then [chat_message ''system'' sys] else []) @
           concat (map (gemini_messages enc) (objs (list_or_nil (fld body ''contents''))))))] @
        (case as_obj (fld body ''generationConfig'') of
           None \<Rightarrow> []
         | Some cfg \<Rightarrow> copy_as cfg ''maxOutputTokens'' ''max_tokens'' @ copy_as cfg ''temperature'' ''temperature'' @
             copy_as cfg ''topP'' ''top_p'' @ copy_as cfg ''stopSequences'' ''stop'') @
        given (converted \<noteq> []) ''tools'' (JArr converted)))"

section \<open>The hub\<close>

definition unsupported :: "string \<Rightarrow> string \<Rightarrow> string" where
  "unsupported side proto = ''unsupported '' @ side @ '' protocol '' @ proto"

definition decodeToIR :: "(jv \<Rightarrow> string) \<Rightarrow> string \<Rightarrow> fields \<Rightarrow> string + fields" where
  "decodeToIR enc clientProto body =
     (if clientProto = ''openai_chat'' then Inr body
      else if clientProto = ''anthropic'' then anthropicToChatRequest enc body []
      else if clientProto = ''openai_responses'' then Inr (responsesToChatRequest enc body)
      else if clientProto = ''gemini'' then Inr (geminiToChatRequest enc body)
      else Inl (unsupported ''client'' clientProto))"

definition encodeFromIR ::
  "(string \<Rightarrow> jv option) \<Rightarrow> (string \<Rightarrow> string) \<Rightarrow> string \<Rightarrow> fields \<Rightarrow> string + fields" where
  "encodeFromIR dec upper upstream ir =
     (if upstream = ''openai_chat'' then Inr ir
      else if upstream = ''anthropic'' then Inr (chatToAnthropicRequest dec ir)
      else if upstream = ''openai_responses'' then Inr (chatToResponsesRequest ir)
      else if upstream = ''gemini'' then Inr (chatToGeminiRequest dec upper ir)
      else Inl (unsupported ''upstream'' upstream))"

end
