(* ===== verification/Translate_Replies.thy ===== *)
theory Translate_Replies
  imports Translate_Requests
begin

text \<open>
  The reply half of the translation hub: a complete upstream response is read into the chat form
  (\<open>upstreamRespToIR\<close>) and written in the client's form (\<open>irRespToClient\<close>), in provider/convert.go,
  provider/xlate_anthropic.go, provider/xlate_gemini.go and provider/xlate_responses.go.
\<close>

section \<open>Finish reasons\<close>

definition chatFinishToStopReason :: "string \<Rightarrow> string" where
  "chatFinishToStopReason reason =
     (if reason = ''length'' then ''max_tokens''
      else if reason \<in> {''tool_calls'', ''function_call''} then ''tool_use''
      else ''end_turn'')"

definition stopReasonToChatFinish :: "string \<Rightarrow> string" where
  "stopReasonToChatFinish reason =
     (if reason = ''max_tokens'' then ''length''
      else if reason = ''tool_use'' then ''tool_calls''
      else ''stop'')"

definition geminiFinishToChat :: "(string \<Rightarrow> string) \<Rightarrow> string \<Rightarrow> string" where
  "geminiFinishToChat upper reason = (if upper reason = ''MAX_TOKENS'' then ''length'' else ''stop'')"

definition chatFinishToGemini :: "string \<Rightarrow> string" where
  "chatFinishToGemini reason = (if reason = ''length'' then ''MAX_TOKENS'' else ''STOP'')"

section \<open>To the chat form\<close>

text \<open>The chat response every reader builds; \<open>parts\<close> are the texts collected, of which there may be none.\<close>

definition chat_reply_message :: "string list \<Rightarrow> jv list \<Rightarrow> jv" where
  "chat_reply_message parts calls =
     obj ([(''role'', JStr ''assistant''),
           (''content'', if parts \<noteq> [] then JStr (concat parts) else JNull)] @
          given (calls \<noteq> []) ''tool_calls'' (JArr calls))"

definition chat_reply :: "string \<Rightarrow> string \<Rightarrow> jv \<Rightarrow> string \<Rightarrow> jv \<Rightarrow> fields" where
  "chat_reply i model message finish usage = mk
     [(''id'', JStr i), (''object'', JStr ''chat.completion''), (''model'', JStr model),
      (''choices'', JArr [obj [(''index'', jint 0), (''message'', message), (''finish_reason'', JStr finish)]]),
      (''usage'', usage)]"

text \<open>Token counts under the names \<open>inp\<close> and \<open>outp\<close>, written under the names \<open>inp'\<close> and \<open>outp'\<close>.\<close>

definition usage_as :: "jv \<Rightarrow> string \<Rightarrow> string \<Rightarrow> string \<Rightarrow> string \<Rightarrow> jv" where
  "usage_as v inp outp inp' outp' =
     (case as_obj v of
        Some u \<Rightarrow> obj [(inp', firstNonNil [fld u inp, jint 0]), (outp', firstNonNil [fld u outp, jint 0])]
      | None \<Rightarrow> obj [(inp', jint 0), (outp', jint 0)])"

definition anthropicRespToChat :: "(jv \<Rightarrow> string) \<Rightarrow> fields \<Rightarrow> fields" where
  "anthropicRespToChat enc body =
     (let blocks = objs (list_or_nil (fld body ''content''));
          textParts = map (\<lambda>b. stringValue (fld b ''text'')) (filter (has_type ''text'') blocks);
          toolCalls = map (tool_use_call enc) (filter (has_type ''tool_use'') blocks);
          i = stringValue (fld body ''id'')
      in chat_reply (if i = [] then ''chatcmpl_proxy'' else i) (stringValue (fld body ''model''))
           (chat_reply_message textParts toolCalls)
           (stopReasonToChatFinish (stringValue (fld body ''stop_reason'')))
           (usage_as (fld body ''usage'') ''input_tokens'' ''output_tokens'' ''prompt_tokens'' ''completion_tokens''))"

definition first_obj :: "jv \<Rightarrow> fields option" where
  "first_obj v = (case as_list v of Some (x # _) \<Rightarrow> as_obj x | _ \<Rightarrow> None)"

definition geminiRespToChat :: "(jv \<Rightarrow> string) \<Rightarrow> (string \<Rightarrow> string) \<Rightarrow> fields \<Rightarrow> fields" where
  "geminiRespToChat enc upper body =
     (let cand = first_obj (fld body ''candidates'');
          parts = (case cand of None \<Rightarrow> []
                   | Some c \<Rightarrow> objs (list_or_nil (fld (obj_or_nil (fld c ''content'')) ''parts'')));
          reason = (case cand of None \<Rightarrow> [] | Some c \<Rightarrow> stringValue (fld c ''finishReason''));
          textParts = filter (\<lambda>t. t \<noteq> []) (map (\<lambda>p. stringValue (fld p ''text'')) parts);
          toolCalls = gemini_chat_calls enc parts;
          finish = (if toolCalls \<noteq> [] then ''tool_calls''
                    else if reason \<noteq> [] then geminiFinishToChat upper reason else ''stop'')
      in chat_reply ''chatcmpl_proxy'' (stringValue (fld body ''modelVersion''))
           (chat_reply_message textParts toolCalls) finish
           (usage_as (fld body ''usageMetadata'') ''promptTokenCount'' ''candidatesTokenCount''
              ''prompt_tokens'' ''completion_tokens''))"

definition responses_call :: "fields \<Rightarrow> jv" where
  "responses_call item = chat_call (fld item ''call_id'') (fld item ''name'') (fld item ''arguments'')"

definition responsesRespToChat :: "(jv \<Rightarrow> string) \<Rightarrow> fields \<Rightarrow> fields" where
  "responsesRespToChat enc body =
     (let items = objs (list_or_nil (fld body ''output''));
          texts = map (\<lambda>item. responsesContentText enc (fld item ''content'')) (filter (has_type ''message'') items);
          extra = stringValue (fld body ''output_text'');
          textParts = (if texts = [] \<and> extra \<noteq> [] then [extra] else texts);
          toolCalls = map responses_call (filter (has_type ''function_call'') items)
      in chat_reply (firstNonNilString [stringValue (fld body ''id''), ''chatcmpl_proxy''])
           (stringValue (fld body ''model'')) (chat_reply_message textParts toolCalls)
           (if toolCalls \<noteq> [] then ''tool_calls'' else ''stop'')
           (usage_as (fld body ''usage'') ''input_tokens'' ''output_tokens'' ''prompt_tokens'' ''completion_tokens''))"

definition upstreamRespToIR ::
  "(jv \<Rightarrow> string) \<Rightarrow> (string \<Rightarrow> string) \<Rightarrow> string \<Rightarrow> fields \<Rightarrow> string + fields" where
  "upstreamRespToIR enc upper upstream body =
     (if upstream = ''openai_chat'' then Inr body
      else if upstream = ''anthropic'' then Inr (anthropicRespToChat enc body)
      else if upstream = ''openai_responses'' then Inr (responsesRespToChat enc body)
      else if upstream = ''gemini'' then Inr (geminiRespToChat enc upper body)
      else Inl (unsupported ''upstream'' upstream))"

section \<open>From the chat form\<close>

text \<open>The message of the first choice of a chat response.\<close>

definition first_choice :: "fields \<Rightarrow> fields option" where
  "first_choice body = first_obj (fld body ''choices'')"

definition choice_message :: "fields \<Rightarrow> fields" where
  "choice_message body =
     (case first_choice body of None \<Rightarrow> [] | Some choice \<Rightarrow> obj_or_nil (fld choice ''message''))"

definition choice_finish :: "fields \<Rightarrow> string" where
  "choice_finish body =
     (case first_choice body of None \<Rightarrow> [] | Some choice \<Rightarrow> stringValue (fld choice ''finish_reason''))"

definition choice_text :: "fields \<Rightarrow> string" where
  "choice_text body = stringValue (fld (choice_message body) ''content'')"

definition chatToAnthropicResponse :: "(string \<Rightarrow> jv option) \<Rightarrow> fields \<Rightarrow> string \<Rightarrow> fields" where
  "chatToAnthropicResponse dec body requestModel =
     (let i = stringValue (fld body ''id''); model = stringValue (fld body ''model'') in mk
       [(''id'', JStr (if i = [] then ''msg_proxy'' else i)), (''type'', JStr ''message''), (''role'', JStr ''assistant''),
        (''model'', JStr (if model = [] then requestModel else model)),
        (''content'', JArr (text_block (choice_text body) @
           map (tool_use_block dec) (message_calls (choice_message body)))),
        (''stop_reason'', JStr (chatFinishToStopReason (choice_finish body))), (''stop_sequence'', JNull),
        (''usage'', case as_obj (fld body ''usage'') of
            Some u \<Rightarrow> obj [(''input_tokens'', fld u ''prompt_tokens''), (''output_tokens'', fld u ''completion_tokens'')]
          | None \<Rightarrow> obj [(''input_tokens'', jint 0), (''output_tokens'', jint 0)])])"

definition completed_message :: "string \<Rightarrow> jv" where
  "completed_message txt =
     obj [(''type'', JStr ''message''), (''role'', JStr ''assistant''), (''status'', JStr ''completed''),
          (''content'', JArr [obj [(''type'', JStr ''output_text''), (''text'', JStr txt)]])]"

definition chatToResponsesResponse :: "fields \<Rightarrow> string \<Rightarrow> fields" where
  "chatToResponsesResponse ir requestModel =
     (let txt = choice_text ir; model = stringValue (fld ir ''model'') in mk
       [(''id'', JStr (firstNonNilString [stringValue (fld ir ''id''), ''resp_proxy''])),
        (''object'', JStr ''response''), (''status'', JStr ''completed''),
        (''model'', JStr (if model = [] then requestModel else model)),
        (''output'', slice ((if txt \<noteq> [] then [completed_message txt] else []) @
           map function_call_item (message_calls (choice_message ir)))),
        (''usage'', usage_as (fld ir ''usage'') ''prompt_tokens'' ''completion_tokens'' ''input_tokens'' ''output_tokens'')])"

definition chatToGeminiResponse :: "(string \<Rightarrow> jv option) \<Rightarrow> fields \<Rightarrow> string \<Rightarrow> fields" where
  "chatToGeminiResponse dec ir requestModel =
     (let txt = choice_text ir; model = stringValue (fld ir ''model'');
          parts = (if txt \<noteq> [] then [gemini_text txt] else []) @
                  map (gemini_call_part dec) (message_calls (choice_message ir))
      in mk
       [(''candidates'', JArr [obj
           [(''content'', obj [(''role'', JStr ''model''), (''parts'', slice parts)]),
            (''finishReason'', JStr (case first_choice ir of None \<Rightarrow> ''STOP'' | Some _ \<Rightarrow> chatFinishToGemini (choice_finish ir))),
            (''index'', jint 0)]]),
        (''modelVersion'', JStr (if model \<noteq> [] then model else requestModel)),
        (''usageMetadata'', usage_as (fld ir ''usage'') ''prompt_tokens'' ''completion_tokens''
           ''promptTokenCount'' ''candidatesTokenCount'')])"

definition irRespToClient ::
  "(string \<Rightarrow> jv option) \<Rightarrow> string \<Rightarrow> fields \<Rightarrow> string \<Rightarrow> string + fields" where
  "irRespToClient dec clientProto ir requestModel =
     (if clientProto = ''openai_chat'' then Inr ir
      else if clientProto = ''anthropic'' then Inr (chatToAnthropicResponse dec ir requestModel)
      else if clientProto = ''openai_responses'' then Inr (chatToResponsesResponse ir requestModel)
      else if clientProto = ''gemini'' then Inr (chatToGeminiResponse dec ir requestModel)
      else Inl (unsupported ''client'' clientProto))"

end
