(* ===== verification/Translate_Correctness.thy ===== *)
theory Translate_Correctness
  imports Translate_Replies
begin

text \<open>
  What the translation hub keeps. A conversation is the list of its turns (what was said, what was called with which
  arguments, and what came back), and every wire format has a reading of its bodies as such a list. The converters
  between the formats keep the reading.
\<close>

section \<open>Conversations\<close>

datatype dialogue =
    UserText string
  | AssistantText string
  | Called jv string jv
  | Returned jv string

definition said :: "(string \<Rightarrow> dialogue) \<Rightarrow> string \<Rightarrow> dialogue list" where
  "said by txt = (if txt \<noteq> [] then [by txt] else [])"

definition chat_called :: "(string \<Rightarrow> jv option) \<Rightarrow> fields \<Rightarrow> dialogue" where
  "chat_called dec call = Called (fld call ''id'') (call_name call) (call_input dec call)"

text \<open>The chat form: system messages apart, each message in order.\<close>

definition chat_turns :: "(string \<Rightarrow> jv option) \<Rightarrow> fields \<Rightarrow> dialogue list" where
  "chat_turns dec msg =
     (let role = stringValue (fld msg ''role''); txt = messageContentText (fld msg ''content'') in
      if role = ''system'' then []
      else if role = ''tool'' then [Returned (fld msg ''tool_call_id'') txt]
      else if role = ''assistant'' then said AssistantText txt @ map (chat_called dec) (message_calls msg)
      else said UserText txt)"

definition messages_of :: "fields \<Rightarrow> fields list" where
  "messages_of body = objs (list_or_nil (fld body ''messages''))"

definition chat_conversation :: "(string \<Rightarrow> jv option) \<Rightarrow> fields \<Rightarrow> dialogue list" where
  "chat_conversation dec ir = concat (map (chat_turns dec) (messages_of ir))"

definition chat_system :: "fields \<Rightarrow> string" where
  "chat_system ir = join_with [CHR 0x0A, CHR 0x0A] (system_parts (messages_of ir))"

text \<open>The Anthropic form: in each message the results, the text, and the calls.\<close>

definition block_called :: "fields \<Rightarrow> dialogue" where
  "block_called b = Called (fld b ''id'') (stringValue (fld b ''name'')) (fld b ''input'')"

definition block_returned :: "fields \<Rightarrow> dialogue" where
  "block_returned b = Returned (fld b ''tool_use_id'') (anthropicToolResultText (fld b ''content''))"

definition content_blocks :: "fields \<Rightarrow> fields list" where
  "content_blocks msg = objs (list_or_nil (fld msg ''content''))"

definition speaker :: "fields \<Rightarrow> string \<Rightarrow> dialogue" where
  "speaker m = (if stringValue (fld m ''role'') = ''assistant'' then AssistantText else UserText)"

definition anthropic_turns :: "fields \<Rightarrow> dialogue list" where
  "anthropic_turns msg =
     (case fld msg ''content'' of
        JStr s \<Rightarrow> said (speaker msg) s
      | _ \<Rightarrow> (let bs = content_blocks msg in
         map block_returned (filter (has_type ''tool_result'') bs) @
         said (speaker msg) (concat (map block_text bs)) @
         map block_called (filter (has_type ''tool_use'') bs)))"

definition anthropic_conversation :: "fields \<Rightarrow> dialogue list" where
  "anthropic_conversation body = concat (map anthropic_turns (messages_of body))"

definition anthropic_system :: "fields \<Rightarrow> string" where
  "anthropic_system body =
     (case fld body ''system'' of JStr s \<Rightarrow> s | v \<Rightarrow> collectAnthropicText (list_or_nil v))"

text \<open>The Responses form: one item per turn.\<close>

definition responses_turns :: "(jv \<Rightarrow> string) \<Rightarrow> (string \<Rightarrow> jv option) \<Rightarrow> fields \<Rightarrow> dialogue list" where
  "responses_turns enc dec item =
     (if type_of item \<in> {''message'', []} then said (speaker item) (responsesContentText enc (fld item ''content''))
      else if type_of item = ''function_call'' then
        [Called (fld item ''call_id'') (stringValue (fld item ''name'')) (tool_input dec (stringValue (fld item ''arguments'')))]
      else if type_of item = ''function_call_output'' then
        [Returned (fld item ''call_id'') (responsesContentText enc (fld item ''output''))]
      else [])"

definition responses_conversation :: "(jv \<Rightarrow> string) \<Rightarrow> (string \<Rightarrow> jv option) \<Rightarrow> fields \<Rightarrow> dialogue list" where
  "responses_conversation enc dec body =
     (case fld body ''input'' of
        JStr s \<Rightarrow> said UserText s
      | v \<Rightarrow> concat (map (responses_turns enc dec) (objs (list_or_nil v))))"

definition responses_system :: "fields \<Rightarrow> string" where
  "responses_system body = stringValue (fld body ''instructions'')"

section \<open>Fields of literals\<close>

lemmas literal_simps = type_of_def has_type_def

section \<open>From chat\<close>

lemma collectAnthropicText_Nil [simp]: "collectAnthropicText [] = []"
  by (simp add: collectAnthropicText_def)

lemma said_Nil [simp]: "said by [] = []"
  by (simp add: said_def)

lemma concat_map_if [simp]: "concat (if c then xs else []) = (if c then concat xs else [])"
  by simp

lemma block_text_simps [simp]:
  "block_text (mk [(''type'', JStr ''text''), (''text'', JStr t)]) = t"
  by (simp add: block_text_def literal_simps)

lemma tool_use_not_text:
  "block_text (mk [(''type'', JStr ''tool_use''), (''id'', i), (''name'', n), (''input'', v)]) = []"
  "has_type ''tool_use'' (mk [(''type'', JStr ''tool_use''), (''id'', i), (''name'', n), (''input'', v)])"
  "\<not> has_type ''tool_result'' (mk [(''type'', JStr ''tool_use''), (''id'', i), (''name'', n), (''input'', v)])"
  by (simp_all add: block_text_def literal_simps)

lemma objs_tool_use: "objs (map (tool_use_block dec) calls) =
    map (\<lambda>call. mk [(''type'', JStr ''tool_use''), (''id'', fld call ''id''), (''name'', JStr (call_name call)),
          (''input'', call_input dec call)]) calls"
  by (induction calls) (simp_all add: tool_use_block_def)

lemma anthropic_turns_assistant:
  "anthropic_turns (mk [(''role'', JStr ''assistant''), (''content'', JArr (assistant_blocks dec msg))]) =
     said AssistantText (messageContentText (fld msg ''content'')) @ map (chat_called dec) (message_calls msg)"
proof -
  define ub where "ub = (\<lambda>call. mk [(''type'', JStr ''tool_use''), (''id'', fld call ''id''),
      (''name'', JStr (call_name call)), (''input'', call_input dec call)])"
  have u: "block_text (ub c) = []" "has_type ''tool_use'' (ub c)" "\<not> has_type ''tool_result'' (ub c)"
    "block_called (ub c) = chat_called dec c" for c
    by (simp_all add: ub_def tool_use_not_text block_called_def  chat_called_def)
  have t: "objs (text_block x) = (if x = [] then [] else [mk [(''type'', JStr ''text''), (''text'', JStr x)]])" for x
    by (simp add: text_block_def)
  have n: "\<not> has_type ''tool_use'' (mk [(''type'', JStr ''text''), (''text'', JStr x)])"
    "\<not> has_type ''tool_result'' (mk [(''type'', JStr ''text''), (''text'', JStr x)])" for x
    by (simp_all add: literal_simps)
  have f: "filter (has_type ''tool_result'') (map ub cs) = []" "filter (has_type ''tool_use'') (map ub cs) = map ub cs"
    "concat (map (block_text \<circ> ub) cs) = []" "map (block_called \<circ> ub) cs = map (chat_called dec) cs" for cs
    by (induction cs) (simp_all add: u)
  show ?thesis
    by (simp add: anthropic_turns_def content_blocks_def assistant_blocks_def objs_tool_use ub_def [symmetric] 
        f n t u Let_def said_def speaker_def)
qed

definition read_all :: "jv list \<Rightarrow> dialogue list" where
  "read_all ms = concat (map anthropic_turns (objs ms))"

lemma read_all_simps [simp]:
  "read_all [] = []"
  "read_all (xs @ ys) = read_all xs @ read_all ys"
  "read_all [role_content r c] = anthropic_turns (mk [(''role'', JStr r), (''content'', c)])"
  by (simp_all add: read_all_def role_content_def)

lemma anthropic_turns_results:
  "anthropic_turns (mk [(''role'', JStr ''user''), (''content'', JArr (map tool_result_block ps))]) =
     map (\<lambda>m. Returned (fld m ''tool_call_id'') (messageContentText (fld m ''content''))) ps"
proof -
  define rb where "rb = (\<lambda>m. mk [(''type'', JStr ''tool_result''), (''tool_use_id'', fld m ''tool_call_id''),
          (''content'', JStr (messageContentText (fld m ''content'')))])"
  have u: "block_text (rb m) = []" "has_type ''tool_result'' (rb m)" "\<not> has_type ''tool_use'' (rb m)"
    "block_returned (rb m) = Returned (fld m ''tool_call_id'') (messageContentText (fld m ''content''))" for m
    by (simp_all add: rb_def block_text_def literal_simps block_returned_def anthropicToolResultText_def)
  have o: "objs (map tool_result_block ps) = map rb ps"
    by (induction ps) (simp_all add: tool_result_block_def rb_def)
  have f: "filter (has_type ''tool_result'') (map rb ps) = map rb ps" "filter (has_type ''tool_use'') (map rb ps) = []"
    "concat (map (block_text \<circ> rb) ps) = []"
    "map (block_returned \<circ> rb) ps = map (\<lambda>m. Returned (fld m ''tool_call_id'') (messageContentText (fld m ''content''))) ps"
    by (induction ps) (simp_all add: u)
  show ?thesis
    by (simp add: anthropic_turns_def content_blocks_def  o f u Let_def)
qed

lemma read_flush:
  "read_all (flushToolResults (ms, map tool_result_block ps)) =
     read_all ms @ map (\<lambda>m. Returned (fld m ''tool_call_id'') (messageContentText (fld m ''content''))) ps"
  by (simp add: flushToolResults_def anthropic_turns_results)

lemma read_flush_Nil: "read_all (flushToolResults (ms, [])) = read_all ms"
  by (simp add: flushToolResults_def)

lemma assistant_blocks_Nil:
  "assistant_blocks dec msg = [] \<longleftrightarrow> messageContentText (fld msg ''content'') = [] \<and> message_calls msg = []"
  by (simp add: assistant_blocks_def text_block_def)

lemma anthropic_turns_user:
  "anthropic_turns (mk [(''role'', JStr ''user''), (''content'', JStr t)]) = said UserText t"
  by (simp add: anthropic_turns_def  speaker_def)

lemma system_parts_Cons:
  "system_parts (m # ms) =
     (if stringValue (fld m ''role'') = ''system'' \<and> messageContentText (fld m ''content'') \<noteq> []
      then [messageContentText (fld m ''content'')] else []) @ system_parts ms"
  by (simp add: system_parts_def)

lemma system_parts_append: "system_parts (xs @ ys) = system_parts xs @ system_parts ys"
  by (simp add: system_parts_def)

text \<open>One message: the results still pending, and everything read so far.\<close>

lemma to_anthropic_step_reads:
  "\<exists>ms' ps'. to_anthropic_step dec msg (sys, ms, map tool_result_block ps) =
       (sys @ system_parts [msg], ms', map tool_result_block ps') \<and>
     read_all (flushToolResults (ms', map tool_result_block ps')) =
       read_all (flushToolResults (ms, map tool_result_block ps)) @ chat_turns dec msg"
proof -
  let ?role = "stringValue (fld msg ''role'')" and ?t = "messageContentText (fld msg ''content'')"
  consider "?role = ''system''" | "?role = ''tool''" | "?role = ''assistant''"
    | "?role \<notin> {''system'', ''tool'', ''assistant''}" by blast
  then show ?thesis
  proof cases
    case 1
    then show ?thesis
      by (auto simp: to_anthropic_step_def chat_turns_def system_parts_Cons system_parts_def)
  next
    case 2
    have "to_anthropic_step dec msg (sys, ms, map tool_result_block ps) =
        (sys @ system_parts [msg], ms, map tool_result_block (ps @ [msg]))"
      using 2 by (simp add: to_anthropic_step_def system_parts_def)
    then show ?thesis using 2 by (intro exI [of _ ms] exI [of _ "ps @ [msg]"]) (simp only: read_flush, simp add: chat_turns_def)
  next
    case 3
    have "to_anthropic_step dec msg (sys, ms, map tool_result_block ps) =
        (sys @ system_parts [msg], flushToolResults (ms, map tool_result_block ps) @
           (if assistant_blocks dec msg \<noteq> [] then [role_content ''assistant'' (JArr (assistant_blocks dec msg))] else []),
         map tool_result_block [])"
      using 3 by (simp add: to_anthropic_step_def system_parts_def Let_def)
    moreover have "read_all (if assistant_blocks dec msg \<noteq> []
        then [role_content ''assistant'' (JArr (assistant_blocks dec msg))] else []) = chat_turns dec msg"
      using 3 by (simp add: anthropic_turns_assistant chat_turns_def assistant_blocks_Nil)
    ultimately show ?thesis
      by (intro exI [of _ "flushToolResults (ms, map tool_result_block ps) @
            (if assistant_blocks dec msg \<noteq> [] then [role_content ''assistant'' (JArr (assistant_blocks dec msg))] else [])"]
            exI [of _ "[]"])
         (simp only: read_flush read_flush_Nil read_all_simps list.simps append_Nil2 simp_thms append_assoc)
  next
    case 4
    have "to_anthropic_step dec msg (sys, ms, map tool_result_block ps) =
        (sys @ system_parts [msg], flushToolResults (ms, map tool_result_block ps) @
           (if ?t \<noteq> [] then [role_content ''user'' (JStr ?t)] else []), map tool_result_block [])"
      using 4 by (simp add: to_anthropic_step_def system_parts_def Let_def)
    moreover have "read_all (if ?t \<noteq> [] then [role_content ''user'' (JStr ?t)] else []) = chat_turns dec msg"
      using 4 by (simp add: anthropic_turns_user chat_turns_def Let_def)
    ultimately show ?thesis
      by (intro exI [of _ "flushToolResults (ms, map tool_result_block ps) @
            (if ?t \<noteq> [] then [role_content ''user'' (JStr ?t)] else [])"] exI [of _ "[]"])
         (simp only: read_flush read_flush_Nil read_all_simps list.simps append_Nil2 simp_thms append_assoc)
  qed
qed

lemma to_anthropic_fold_reads:
  "\<exists>ms' ps'. fold (to_anthropic_step dec) msgs (sys, ms, map tool_result_block ps) =
       (sys @ system_parts msgs, ms', map tool_result_block ps') \<and>
     read_all (flushToolResults (ms', map tool_result_block ps')) =
       read_all (flushToolResults (ms, map tool_result_block ps)) @ concat (map (chat_turns dec) msgs)"
proof (induction msgs arbitrary: sys ms ps)
  case Nil
  then show ?case by (auto simp: system_parts_def)
next
  case (Cons m msgs)
  from to_anthropic_step_reads [of dec m sys ms ps] obtain ms1 ps1 where
    s: "to_anthropic_step dec m (sys, ms, map tool_result_block ps) =
          (sys @ system_parts [m], ms1, map tool_result_block ps1)"
    and r: "read_all (flushToolResults (ms1, map tool_result_block ps1)) =
       read_all (flushToolResults (ms, map tool_result_block ps)) @ chat_turns dec m" by blast
  from Cons.IH [of "sys @ system_parts [m]" ms1 ps1] show ?case
    by (simp only: s r fold.simps comp_def list.simps concat.simps append_assoc system_parts_append [of "[m]" msgs, simplified])
qed

theorem anthropic_request_reads:
  "anthropic_conversation (chatToAnthropicRequest dec ir) = chat_conversation dec ir"
  "anthropic_system (chatToAnthropicRequest dec ir) = chat_system ir"
proof -
  from to_anthropic_fold_reads [of dec "messages_of ir" "[]" "[]" "[]"] obtain ms ps where
    f: "fold (to_anthropic_step dec) (messages_of ir) ([], [], []) = (system_parts (messages_of ir), ms, map tool_result_block ps)"
    and r: "read_all (flushToolResults (ms, map tool_result_block ps)) = concat (map (chat_turns dec) (messages_of ir))"
    by (auto simp: flushToolResults_def)
  have m: "fld (chatToAnthropicRequest dec ir) ''messages'' = slice (flushToolResults (ms, map tool_result_block ps))"
    using f by (simp add: chatToAnthropicRequest_def messages_of_def Let_def)
  show "anthropic_conversation (chatToAnthropicRequest dec ir) = chat_conversation dec ir"
    using r by (simp add: anthropic_conversation_def messages_of_def [of "chatToAnthropicRequest dec ir"] m chat_conversation_def
        read_all_def)
  show "anthropic_system (chatToAnthropicRequest dec ir) = chat_system ir"
    using f by (simp add: anthropic_system_def chatToAnthropicRequest_def messages_of_def [symmetric] Let_def chat_system_def)
qed

section \<open>From chat to Responses\<close>

lemma message_texts [simp]:
  "concat (map part_text (objs [obj [(''type'', JStr t), (''text'', JStr x)]])) =
     (if t \<in> {''text'', ''input_text'', ''output_text'', []} then x else [])"
  by (simp add: part_text_def type_of_def)

lemma responses_item_call:
  "\<exists>kvs. function_call_item call = obj kvs \<and> responses_turns enc dec (mk kvs) = [chat_called dec call]"
  unfolding function_call_item_def
  by (intro exI conjI, rule refl, cases "as_obj (fld call ''function'')")
     (simp_all add: responses_turns_def type_of_def chat_called_def call_name_def call_input_def
        call_function_def obj_or_nil_def)

definition read_items :: "(jv \<Rightarrow> string) \<Rightarrow> (string \<Rightarrow> jv option) \<Rightarrow> jv list \<Rightarrow> dialogue list" where
  "read_items enc dec xs = concat (map (responses_turns enc dec) (objs xs))"

lemma read_items_simps [simp]:
  "read_items enc dec [] = []"
  "read_items enc dec (xs @ ys) = read_items enc dec xs @ read_items enc dec ys"
  "read_items enc dec [obj kvs] = responses_turns enc dec (mk kvs)"
  by (simp_all add: read_items_def)

lemma read_items_calls: "read_items enc dec (map function_call_item calls) = map (chat_called dec) calls"
proof (induction calls)
  case (Cons c calls)
  obtain kvs where "function_call_item c = obj kvs" "responses_turns enc dec (mk kvs) = [chat_called dec c]"
    using responses_item_call by blast
  with Cons show ?case by (simp add: read_items_def)
qed simp

lemma read_items_message: "read_items enc dec (to_responses_items msg) = chat_turns dec msg"
  by (simp add: to_responses_items_def chat_turns_def Let_def read_items_calls output_message_def responses_turns_def
      type_of_def speaker_def part_text_def said_def)

lemma read_items_concat: "read_items enc dec (concat xss) = concat (map (read_items enc dec) xss)"
  by (induction xss) simp_all

lemma responses_conversation_items:
  "fld body ''input'' = slice xs \<Longrightarrow> responses_conversation enc dec body = read_items enc dec xs"
  by (cases xs) (simp_all add: responses_conversation_def slice_def read_items_def)

theorem responses_request_reads:
  "responses_conversation enc dec (chatToResponsesRequest ir) = chat_conversation dec ir"
  "responses_system (chatToResponsesRequest ir) = chat_system ir"
proof -
  have f: "fld (chatToResponsesRequest ir) ''input'' = slice (concat (map to_responses_items (messages_of ir)))"
    by (simp add: chatToResponsesRequest_def messages_of_def Let_def)
  have "responses_conversation enc dec (chatToResponsesRequest ir) =
      read_items enc dec (concat (map to_responses_items (messages_of ir)))"
    by (rule responses_conversation_items [OF f])
  also have "\<dots> = chat_conversation dec ir"
    by (simp add: read_items_concat comp_def read_items_message chat_conversation_def)
  finally show "responses_conversation enc dec (chatToResponsesRequest ir) = chat_conversation dec ir" .
  show "responses_system (chatToResponsesRequest ir) = chat_system ir"
    by (simp add: responses_system_def chatToResponsesRequest_def messages_of_def [symmetric] Let_def chat_system_def)
qed

section \<open>To chat\<close>

text \<open>A codec gives back what it was given, for the values in question.\<close>

definition codes :: "(jv \<Rightarrow> string) \<Rightarrow> (string \<Rightarrow> jv option) \<Rightarrow> jv \<Rightarrow> bool" where
  "codes enc dec v \<longleftrightarrow> enc v \<noteq> [] \<and> dec (enc v) = Some v"

lemma codes_input: "codes enc dec v \<Longrightarrow> tool_input dec (enc v) = v"
  by (simp add: codes_def tool_input_def)

text \<open>
  The Anthropic bodies that are conversations: messages of users and assistants, calls by assistants only, and arguments
  that survive encoding.
\<close>

definition anthropic_message_ok :: "(jv \<Rightarrow> string) \<Rightarrow> (string \<Rightarrow> jv option) \<Rightarrow> fields \<Rightarrow> bool" where
  "anthropic_message_ok enc dec msg \<longleftrightarrow>
     stringValue (fld msg ''role'') \<in> {''user'', ''assistant''} \<and>
     list_all (\<lambda>b. has_type ''tool_use'' b \<longrightarrow>
        stringValue (fld msg ''role'') = ''assistant'' \<and> codes enc dec (fld b ''input'')) (content_blocks msg)"

definition read_chat :: "(string \<Rightarrow> jv option) \<Rightarrow> jv list \<Rightarrow> dialogue list" where
  "read_chat dec ms = concat (map (chat_turns dec) (objs ms))"

lemma read_chat_simps [simp]:
  "read_chat dec [] = []"
  "read_chat dec (xs @ ys) = read_chat dec xs @ read_chat dec ys"
  "read_chat dec [obj kvs] = chat_turns dec (mk kvs)"
  "read_chat dec (obj kvs # ms) = chat_turns dec (mk kvs) @ read_chat dec ms"
  by (simp_all add: read_chat_def)

lemma read_chat_concat: "read_chat dec (concat xss) = concat (map (read_chat dec) xss)"
  by (induction xss) simp_all

lemma read_chat_results:
  "read_chat dec (map tool_result_message bs) = map block_returned bs"
  by (induction bs) (simp_all add: tool_result_message_def chat_turns_def block_returned_def)

definition read_system :: "jv list \<Rightarrow> string list" where
  "read_system ms = system_parts (objs ms)"

lemma read_system_simps [simp]:
  "read_system [] = []"
  "read_system (xs @ ys) = read_system xs @ read_system ys"
  "read_system [obj kvs] = system_parts [mk kvs]"
  by (simp_all add: read_system_def system_parts_append) (simp add: system_parts_def)

lemma system_parts_other: "stringValue (fld m ''role'') \<noteq> ''system'' \<Longrightarrow> system_parts [m] = []"
  by (simp add: system_parts_def)

lemma read_system_results: "read_system (map tool_result_message bs) = []"
proof (induction bs)
  case (Cons b bs)
  have "read_system (tool_result_message b # map tool_result_message bs) =
      read_system [tool_result_message b] @ read_system (map tool_result_message bs)"
    by (simp flip: read_system_simps(2))
  moreover have "read_system [tool_result_message b] = []"
    by (simp add: tool_result_message_def system_parts_other)
  ultimately show ?case using Cons.IH by simp
qed simp

lemma read_system_text_and_calls: "role \<noteq> ''system'' \<Longrightarrow> read_system [text_and_calls role t calls] = []"
  by (simp add: text_and_calls_def system_parts_other)

lemma called_tool_use:
  "codes enc dec (fld b ''input'') \<Longrightarrow>
     \<exists>kvs. tool_use_call enc b = obj kvs \<and> chat_called dec (mk kvs) = block_called b"
  by (auto simp: tool_use_call_def chat_call_def chat_called_def block_called_def call_name_def call_input_def
      call_function_def obj_or_nil_def codes_input)

lemma called_tool_uses:
  "list_all (\<lambda>b. codes enc dec (fld b ''input'')) bs \<Longrightarrow>
     map (chat_called dec) (objs (map (tool_use_call enc) bs)) = map block_called bs"
proof (induction bs)
  case (Cons b bs)
  then obtain kvs where "tool_use_call enc b = obj kvs" "chat_called dec (mk kvs) = block_called b"
    using called_tool_use [of enc dec b] by auto
  with Cons show ?case by simp
qed simp

lemma chat_turns_text_and_calls:
  "chat_turns dec (mk ([(''role'', JStr role), (''content'', if t \<noteq> [] then JStr t else JNull)] @
          given (calls \<noteq> []) ''tool_calls'' (JArr calls))) =
     (if role = ''system'' then [] else if role = ''tool'' then [Returned JNull t]
      else if role = ''assistant'' then said AssistantText t @ map (chat_called dec) (objs calls)
      else said UserText t)"
  by (simp add: chat_turns_def message_calls_def)

lemma read_text_and_calls:
  "read_chat dec [text_and_calls role t calls] =
     (if role = ''system'' then [] else if role = ''tool'' then [Returned JNull t]
      else if role = ''assistant'' then said AssistantText t @ map (chat_called dec) (objs calls)
      else said UserText t)"
  unfolding text_and_calls_def read_chat_simps(3) by (rule chat_turns_text_and_calls)

lemma objs_tool_use_call [simp]: "objs (map (tool_use_call enc) bs) = [] \<longleftrightarrow> bs = []"
  by (cases bs) (simp_all add: tool_use_call_def chat_call_def)

lemma convert_split:
  "convertAnthropicBlocks enc role xs =
     map tool_result_message (filter (has_type ''tool_result'') (objs xs)) @
     (if concat (map block_text (objs xs)) \<noteq> [] \<or> map (tool_use_call enc) (filter (has_type ''tool_use'') (objs xs)) \<noteq> []
      then [text_and_calls role (concat (map block_text (objs xs)))
              (map (tool_use_call enc) (filter (has_type ''tool_use'') (objs xs)))] else [])"
  by (simp add: convertAnthropicBlocks_def Let_def)

lemma convert_reads:
  assumes "anthropic_message_ok enc dec msg" and "fld msg ''content'' = JArr xs \<or> fld msg ''content'' = JNilArr \<and> xs = []"
  shows "read_chat dec (convertAnthropicBlocks enc (stringValue (fld msg ''role'')) xs) = anthropic_turns msg"
    and "read_system (convertAnthropicBlocks enc (stringValue (fld msg ''role'')) xs) = []"
proof -
  let ?uses = "filter (has_type ''tool_use'') (objs xs)"
  have bs: "content_blocks msg = objs xs" using assms(2) by (auto simp: content_blocks_def)
  have c: "list_all (\<lambda>b. codes enc dec (fld b ''input'')) ?uses"
    and a: "?uses \<noteq> [] \<Longrightarrow> stringValue (fld msg ''role'') = ''assistant''"
    using assms(1) by (auto simp: anthropic_message_ok_def bs list_all_iff filter_empty_conv)
  have n: "\<And>s. fld msg ''content'' \<noteq> JStr s" using assms(2) by auto
  have t: "anthropic_turns msg = map block_returned (filter (has_type ''tool_result'') (objs xs)) @
         said (speaker msg) (concat (map block_text (objs xs))) @ map block_called ?uses"
    using assms(2) by (auto simp: anthropic_turns_def bs Let_def)
  let ?t = "concat (map block_text (objs xs))" and ?calls = "map (tool_use_call enc) ?uses"
  have "read_chat dec (if ?t \<noteq> [] \<or> ?calls \<noteq> [] then [text_and_calls (stringValue (fld msg ''role'')) ?t ?calls] else []) =
      said (speaker msg) ?t @ map block_called ?uses"
    using assms(1) a called_tool_uses [OF c]
    by (cases "?uses = []") (auto simp: anthropic_message_ok_def read_text_and_calls speaker_def said_def)
  then show "read_chat dec (convertAnthropicBlocks enc (stringValue (fld msg ''role'')) xs) = anthropic_turns msg"
    unfolding t convert_split read_chat_simps(2) read_chat_results by (simp only:)
  show "read_system (convertAnthropicBlocks enc (stringValue (fld msg ''role'')) xs) = []"
    using assms(1)
    by (auto simp: convert_split read_system_results read_system_text_and_calls anthropic_message_ok_def)
qed

lemma anthropic_message_reads:
  assumes "anthropic_message_ok enc dec msg"
  shows "read_chat dec (anthropic_message enc msg) = anthropic_turns msg"
    and "read_system (anthropic_message enc msg) = []"
proof -
  have r: "stringValue (fld msg ''role'') \<in> {''user'', ''assistant''}" using assms by (simp add: anthropic_message_ok_def)
  have "read_chat dec (anthropic_message enc msg) = anthropic_turns msg \<and> read_system (anthropic_message enc msg) = []"
  proof (cases "fld msg ''content''")
    case (JStr s)
    then show ?thesis
      using r by (auto simp: anthropic_message_def chat_message_def chat_turns_def anthropic_turns_def speaker_def
          system_parts_other message_calls_def)
  next
    case JNilArr
    then show ?thesis using convert_reads [OF assms, of "[]"] by (simp add: anthropic_message_def)
  next
    case (JArr xs)
    then show ?thesis using convert_reads [OF assms, of xs] by (simp add: anthropic_message_def)
  qed (simp_all add: anthropic_message_def anthropic_turns_def content_blocks_def)
  then show "read_chat dec (anthropic_message enc msg) = anthropic_turns msg"
    and "read_system (anthropic_message enc msg) = []" by blast+
qed

lemma read_chat_map:
  "list_all (\<lambda>m. read_chat dec (f m) = g m) ms \<Longrightarrow> read_chat dec (concat (map f ms)) = concat (map g ms)"
  by (induction ms) simp_all

lemma read_system_map:
  "list_all (\<lambda>m. read_system (f m) = []) ms \<Longrightarrow> read_system (concat (map f ms)) = []"
  by (induction ms) simp_all

lemma read_chat_system [simp]: "read_chat dec [chat_message ''system'' t] = []"
  by (simp add: chat_message_def chat_turns_def)

lemma read_system_system: "t \<noteq> [] \<Longrightarrow> read_system [chat_message ''system'' t] = [t]"
  by (simp add: chat_message_def system_parts_def)

text \<open>The readings of a chat request whose messages are given.\<close>

lemma chat_reading:
  assumes "fld ir ''messages'' = slice ms"
  shows "chat_conversation dec ir = read_chat dec ms" "chat_system ir = join_with [CHR 0x0A, CHR 0x0A] (read_system ms)"
  by (simp_all add: assms chat_conversation_def chat_system_def messages_of_def read_chat_def read_system_def)

theorem anthropic_request_read:
  assumes "anthropicToChatRequest enc body [] = Inr ir"
    and ok: "list_all (anthropic_message_ok enc dec) (messages_of body)"
  shows "chat_conversation dec ir = anthropic_conversation body" "chat_system ir = anthropic_system body"
proof -
  let ?sys = "anthropic_system_messages (fld body ''system'')"
  let ?ms = "concat (map (anthropic_message enc) (messages_of body))"
  have f: "fld ir ''messages'' = slice (?sys @ ?ms)"
    using assms(1) by (auto simp: anthropicToChatRequest_def messages_of_def Let_def split: if_splits)
  have c: "read_chat dec ?ms = anthropic_conversation body"
    unfolding anthropic_conversation_def
    by (rule read_chat_map) (use ok anthropic_message_reads(1) in \<open>auto simp: list_all_iff\<close>)
  have z: "read_system ?ms = []"
    by (rule read_system_map) (use ok anthropic_message_reads(2) in \<open>auto simp: list_all_iff\<close>)
  have s: "?sys = (if anthropic_system body \<noteq> [] then [chat_message ''system'' (anthropic_system body)] else [])"
    by (cases "fld body ''system''") (simp_all add: anthropic_system_messages_def anthropic_system_def)
  show "chat_conversation dec ir = anthropic_conversation body"
    by (simp add: chat_reading [OF f] c s)
  show "chat_system ir = anthropic_system body"
    by (simp add: chat_reading [OF f] z s read_system_system)
qed

text \<open>The Responses bodies that are conversations: no message claims to be a system message or a tool result.\<close>

definition responses_item_ok :: "fields \<Rightarrow> bool" where
  "responses_item_ok item \<longleftrightarrow>
     (type_of item \<in> {''message'', []} \<longrightarrow> stringValue (fld item ''role'') \<notin> {''system'', ''tool''})"

lemma responses_item_reads:
  assumes "responses_item_ok item"
  shows "read_chat dec (responses_item_messages enc item) = responses_turns enc dec item"
    and "read_system (responses_item_messages enc item) = []"
proof -
  consider "type_of item \<in> {''message'', []}" | "type_of item = ''function_call''" | "type_of item = ''function_call_output''"
    | "type_of item \<notin> {''message'', [], ''function_call'', ''function_call_output''}" by blast
  then have "read_chat dec (responses_item_messages enc item) = responses_turns enc dec item \<and>
      read_system (responses_item_messages enc item) = []"
  proof cases
    case 1
    then show ?thesis
      using assms by (auto simp: responses_item_messages_def responses_turns_def chat_message_def chat_turns_def
          responses_item_ok_def speaker_def system_parts_other message_calls_def Let_def)
  next
    case 2
    then show ?thesis
      by (simp add: responses_item_messages_def read_text_and_calls responses_turns_def chat_call_def chat_called_def
          call_name_def call_input_def call_function_def obj_or_nil_def read_system_text_and_calls)
  next
    case 3
    then show ?thesis
      by (simp add: responses_item_messages_def tool_message_def responses_turns_def chat_turns_def system_parts_other)
  qed (simp add: responses_item_messages_def responses_turns_def)
  then show "read_chat dec (responses_item_messages enc item) = responses_turns enc dec item"
    and "read_system (responses_item_messages enc item) = []" by blast+
qed

theorem responses_request_read:
  assumes ok: "list_all responses_item_ok (objs (list_or_nil (fld body ''input'')))"
  shows "chat_conversation dec (responsesToChatRequest enc body) = responses_conversation enc dec body"
    and "chat_system (responsesToChatRequest enc body) = responses_system body"
proof -
  let ?sys = "if responses_system body \<noteq> [] then [chat_message ''system'' (responses_system body)] else []"
  let ?ms = "case fld body ''input'' of JStr s \<Rightarrow> [chat_message ''user'' s]
            | input \<Rightarrow> concat (map (responses_item_messages enc) (objs (list_or_nil input)))"
  have f: "fld (responsesToChatRequest enc body) ''messages'' = slice (?sys @ ?ms)"
    by (simp add: responsesToChatRequest_def Let_def responses_system_def)
  have items: "read_chat dec (concat (map (responses_item_messages enc) (objs (list_or_nil (fld body ''input''))))) =
      concat (map (responses_turns enc dec) (objs (list_or_nil (fld body ''input''))))"
    "read_system (concat (map (responses_item_messages enc) (objs (list_or_nil (fld body ''input''))))) = []"
    by (rule read_chat_map read_system_map, use ok responses_item_reads in \<open>auto simp: list_all_iff\<close>)+
  have c: "read_chat dec ?ms = responses_conversation enc dec body \<and> read_system ?ms = []"
    using items by (cases "fld body ''input''")
      (simp_all add: responses_conversation_def chat_message_def chat_turns_def system_parts_other)
  show "chat_conversation dec (responsesToChatRequest enc body) = responses_conversation enc dec body"
    using c by (simp add: chat_reading [OF f])
  show "chat_system (responsesToChatRequest enc body) = responses_system body"
    using c by (simp add: chat_reading [OF f] read_system_system)
qed

section \<open>Any client, any upstream\<close>

definition conversation :: "(jv \<Rightarrow> string) \<Rightarrow> (string \<Rightarrow> jv option) \<Rightarrow> string \<Rightarrow> fields \<Rightarrow> dialogue list" where
  "conversation enc dec proto body =
     (if proto = ''anthropic'' then anthropic_conversation body
      else if proto = ''openai_responses'' then responses_conversation enc dec body
      else chat_conversation dec body)"

definition system_of :: "string \<Rightarrow> fields \<Rightarrow> string" where
  "system_of proto body =
     (if proto = ''anthropic'' then anthropic_system body
      else if proto = ''openai_responses'' then responses_system body
      else chat_system body)"

definition body_ok :: "(jv \<Rightarrow> string) \<Rightarrow> (string \<Rightarrow> jv option) \<Rightarrow> string \<Rightarrow> fields \<Rightarrow> bool" where
  "body_ok enc dec proto body \<longleftrightarrow>
     (proto = ''anthropic'' \<longrightarrow> list_all (anthropic_message_ok enc dec) (messages_of body)) \<and>
     (proto = ''openai_responses'' \<longrightarrow> list_all responses_item_ok (objs (list_or_nil (fld body ''input''))))"

definition hub_protocols :: "string list" where
  "hub_protocols = [''openai_chat'', ''anthropic'', ''openai_responses'']"

lemma fld_put [simp]: "fld (put k v m) q = (if q = k then v else fld m q)"
  by (simp add: fld_def)

lemma put_model:
  "chat_conversation dec (put ''model'' v ir) = chat_conversation dec ir" "chat_system (put ''model'' v ir) = chat_system ir"
  by (simp_all add: chat_conversation_def chat_system_def messages_of_def)

lemma decode_reads:
  assumes "client \<in> set hub_protocols" "body_ok enc dec client body" "decodeToIR enc client body = Inr ir"
  shows "chat_conversation dec ir = conversation enc dec client body \<and> chat_system ir = system_of client body"
proof -
  consider "client = ''openai_chat''" | "client = ''anthropic''" | "client = ''openai_responses''"
    using assms(1) by (auto simp: hub_protocols_def)
  then show ?thesis
  proof cases
    case 1
    then show ?thesis using assms(3) by (simp add: decodeToIR_def conversation_def system_of_def)
  next
    case 2
    then have "anthropicToChatRequest enc body [] = Inr ir" "list_all (anthropic_message_ok enc dec) (messages_of body)"
      using assms(2,3) by (simp_all add: decodeToIR_def body_ok_def)
    from anthropic_request_read [OF this] 2 show ?thesis by (simp add: conversation_def system_of_def)
  next
    case 3
    then have "ir = responsesToChatRequest enc body" "list_all responses_item_ok (objs (list_or_nil (fld body ''input'')))"
      using assms(2,3) by (simp_all add: decodeToIR_def body_ok_def)
    with responses_request_read [of body] 3 show ?thesis by (simp add: conversation_def system_of_def)
  qed
qed

lemma encode_reads:
  assumes "upstream \<in> set hub_protocols" "encodeFromIR dec upper upstream ir = Inr out"
  shows "conversation enc dec upstream out = chat_conversation dec ir \<and> system_of upstream out = chat_system ir"
proof -
  consider "upstream = ''openai_chat''" | "upstream = ''anthropic''" | "upstream = ''openai_responses''"
    using assms(1) by (auto simp: hub_protocols_def)
  then show ?thesis
    using assms(2)
    by cases (auto simp: encodeFromIR_def conversation_def system_of_def anthropic_request_reads responses_request_reads)
qed

lemma hub_preserves:
  assumes "client \<in> set hub_protocols" "upstream \<in> set hub_protocols" "body_ok enc dec client body"
    and d: "decodeToIR enc client body = Inr ir"
    and e: "encodeFromIR dec upper upstream (put ''model'' model ir) = Inr out"
  shows "conversation enc dec upstream out = conversation enc dec client body \<and> system_of upstream out = system_of client body"
  using decode_reads [OF assms(1,3) d] encode_reads [OF assms(2) e] by (simp add: put_model)

end
