(* ===== verification/Reply_Correctness.thy ===== *)
theory Reply_Correctness
  imports Translate_Correctness
begin

text \<open>
  What the translation hub keeps of a complete response: the text and the calls of its first choice, read from each
  wire format as turns of a conversation. Gemini numbers no calls, so its readings leave the ids out.
\<close>

section \<open>Readings\<close>

definition chat_reply_turns :: "(string \<Rightarrow> jv option) \<Rightarrow> fields \<Rightarrow> dialogue list" where
  "chat_reply_turns dec body =
     said AssistantText (choice_text body) @ map (chat_called dec) (message_calls (choice_message body))"

definition anthropic_reply_turns :: "fields \<Rightarrow> dialogue list" where
  "anthropic_reply_turns body =
     said AssistantText (concat (map block_text (content_blocks body))) @
     map block_called (filter (has_type ''tool_use'') (content_blocks body))"

definition item_called :: "(string \<Rightarrow> jv option) \<Rightarrow> fields \<Rightarrow> dialogue" where
  "item_called dec item = Called (fld item ''call_id'') (stringValue (fld item ''name''))
     (tool_input dec (stringValue (fld item ''arguments'')))"

definition output_items :: "fields \<Rightarrow> fields list" where
  "output_items body = objs (list_or_nil (fld body ''output''))"

definition responses_reply_turns :: "(jv \<Rightarrow> string) \<Rightarrow> (string \<Rightarrow> jv option) \<Rightarrow> fields \<Rightarrow> dialogue list" where
  "responses_reply_turns enc dec body =
     (let texts = map (\<lambda>item. responsesContentText enc (fld item ''content'')) (filter (has_type ''message'') (output_items body))
      in said AssistantText (if texts = [] then stringValue (fld body ''output_text'') else concat texts) @
         map (item_called dec) (filter (has_type ''function_call'') (output_items body)))"

fun without_id :: "dialogue \<Rightarrow> dialogue" where
  "without_id (Called i n a) = Called JNull n a"
| "without_id t = t"

definition candidate_parts :: "fields \<Rightarrow> fields list" where
  "candidate_parts body =
     (case first_obj (fld body ''candidates'') of None \<Rightarrow> []
      | Some c \<Rightarrow> objs (list_or_nil (fld (obj_or_nil (fld c ''content'')) ''parts'')))"

definition gemini_reply_turns :: "fields \<Rightarrow> dialogue list" where
  "gemini_reply_turns body =
     said AssistantText (concat (map (\<lambda>p. stringValue (fld p ''text'')) (candidate_parts body))) @
     map (\<lambda>fc. Called JNull (stringValue (fld fc ''name'')) (part_args fc)) (part_calls (candidate_parts body))"

section \<open>To chat\<close>

lemma message_calls_reply [simp]:
  "message_calls (mk ([(''role'', r), (''content'', c)] @ given (calls \<noteq> []) ''tool_calls'' (JArr calls))) = objs calls"
  by (simp add: message_calls_def)

lemma chat_reply_reading:
  "chat_reply_turns dec (chat_reply i model (chat_reply_message parts calls) finish usage) =
     said AssistantText (concat parts) @ map (chat_called dec) (objs calls)"
  by (simp add: chat_reply_turns_def chat_reply_def choice_text_def choice_message_def first_choice_def first_obj_def
      chat_reply_message_def obj_or_nil_def message_calls_def)

lemma block_texts: "concat (map (\<lambda>b. stringValue (fld b ''text'')) (filter (has_type ''text'') bs)) = concat (map block_text bs)"
  by (induction bs) (simp_all add: block_text_def has_type_def)

theorem anthropic_reply_read:
  assumes "list_all (\<lambda>b. has_type ''tool_use'' b \<longrightarrow> codes enc dec (fld b ''input'')) (content_blocks body)"
  shows "chat_reply_turns dec (anthropicRespToChat enc body) = anthropic_reply_turns body"
proof -
  have c: "list_all (\<lambda>b. codes enc dec (fld b ''input'')) (filter (has_type ''tool_use'') (content_blocks body))"
    using assms by (auto simp: list_all_iff)
  show ?thesis
    unfolding anthropicRespToChat_def Let_def chat_reply_reading block_texts content_blocks_def [symmetric]
      called_tool_uses [OF c] anthropic_reply_turns_def ..
qed

lemma called_responses: "map (chat_called dec) (objs (map responses_call items)) = map (item_called dec) items"
proof (induction items)
  case (Cons a items)
  have "map (chat_called dec) (objs [responses_call a]) = [item_called dec a]"
    by (simp add: responses_call_def chat_call_def chat_called_def item_called_def call_name_def call_input_def
        call_function_def obj_or_nil_def)
  with Cons show ?case by (simp add: responses_call_def chat_call_def)
qed simp

theorem responses_reply_read:
  "chat_reply_turns dec (responsesRespToChat enc body) = responses_reply_turns enc dec body"
  unfolding responsesRespToChat_def Let_def chat_reply_reading called_responses output_items_def [symmetric]
    responses_reply_turns_def by auto

lemma called_gemini:
  "list_all (\<lambda>fc. codes enc dec (part_args fc)) fcs \<Longrightarrow>
     map (without_id \<circ> chat_called dec) (objs (map (gemini_chat_call enc) (enumerate n fcs))) =
     map (\<lambda>fc. Called JNull (stringValue (fld fc ''name'')) (part_args fc)) fcs"
proof (induction fcs arbitrary: n)
  case (Cons a fcs)
  then have "map (without_id \<circ> chat_called dec) (objs [gemini_chat_call enc (n, a)]) =
      [Called JNull (stringValue (fld a ''name'')) (part_args a)]"
    by (simp add: gemini_chat_call_def chat_call_def chat_called_def call_name_def call_input_def
        call_function_def obj_or_nil_def codes_input)
  with Cons show ?case by (simp add: gemini_chat_call_def chat_call_def)
qed simp

lemma concat_nonempty: "concat (filter (\<lambda>t. t \<noteq> []) ts) = concat ts"
  by (induction ts) auto

lemma without_id_said [simp]: "map without_id (said AssistantText t) = said AssistantText t"
  by (simp add: said_def)

theorem gemini_reply_read:
  assumes "list_all (\<lambda>fc. codes enc dec (part_args fc)) (part_calls (candidate_parts body))"
  shows "map without_id (chat_reply_turns dec (geminiRespToChat enc upper body)) = gemini_reply_turns body"
proof -
  have p: "(case first_obj (fld body ''candidates'') of None \<Rightarrow> []
      | Some c \<Rightarrow> objs (list_or_nil (fld (obj_or_nil (fld c ''content'')) ''parts''))) = candidate_parts body"
    by (simp add: candidate_parts_def)
  show ?thesis
    unfolding geminiRespToChat_def Let_def p chat_reply_reading gemini_chat_calls_def
    by (simp add: concat_nonempty called_gemini [OF assms] gemini_reply_turns_def)
qed

section \<open>From chat\<close>

lemma block_text_block [simp]: "concat (map block_text (objs (text_block t))) = t"
  by (simp add: text_block_def)

lemma tool_use_blocks:
  "concat (map block_text (objs (map (tool_use_block dec) calls))) = []"
  "filter (has_type ''tool_use'') (objs (text_block t @ map (tool_use_block dec) calls)) = objs (map (tool_use_block dec) calls)"
  "map block_called (objs (map (tool_use_block dec) calls)) = map (chat_called dec) calls"
proof -
  show "concat (map block_text (objs (map (tool_use_block dec) calls))) = []"
    by (induction calls) (simp_all add: tool_use_block_def tool_use_not_text)
  have "filter (has_type ''tool_use'') (objs (text_block t)) = []"
    by (simp add: text_block_def has_type_def type_of_def)
  moreover have "filter (has_type ''tool_use'') (objs (map (tool_use_block dec) calls)) = objs (map (tool_use_block dec) calls)"
    by (induction calls) (simp_all add: tool_use_block_def tool_use_not_text)
  ultimately show "filter (has_type ''tool_use'') (objs (text_block t @ map (tool_use_block dec) calls)) =
      objs (map (tool_use_block dec) calls)" by simp
  show "map block_called (objs (map (tool_use_block dec) calls)) = map (chat_called dec) calls"
    by (induction calls) (simp_all add: tool_use_block_def block_called_def chat_called_def)
qed

theorem anthropic_reply_reads:
  "anthropic_reply_turns (chatToAnthropicResponse dec ir m) = chat_reply_turns dec ir"
proof -
  have c: "content_blocks (chatToAnthropicResponse dec ir m) =
      objs (text_block (choice_text ir) @ map (tool_use_block dec) (message_calls (choice_message ir)))"
    by (simp add: content_blocks_def chatToAnthropicResponse_def Let_def)
  show ?thesis
    unfolding anthropic_reply_turns_def c tool_use_blocks(2)
    by (simp add: tool_use_blocks(1,3) chat_reply_turns_def)
qed

lemma function_call_items:
  "filter (has_type ''message'') (objs (map function_call_item calls)) = []"
  "map (item_called dec) (filter (has_type ''function_call'') (objs (map function_call_item calls))) = map (chat_called dec) calls"
proof -
  have one: "\<exists>kvs. function_call_item c = obj kvs \<and> has_type ''function_call'' (mk kvs) \<and>
      \<not> has_type ''message'' (mk kvs) \<and> item_called dec (mk kvs) = chat_called dec c" for c
    unfolding function_call_item_def
    by (intro exI conjI, rule refl, cases "as_obj (fld c ''function'')")
       (simp_all add: has_type_def type_of_def item_called_def chat_called_def call_name_def call_input_def call_function_def
          obj_or_nil_def split: option.splits)
  have "filter (has_type ''message'') (objs (map function_call_item calls)) = [] \<and>
    map (item_called dec) (filter (has_type ''function_call'') (objs (map function_call_item calls))) = map (chat_called dec) calls"
  proof (induction calls)
    case (Cons c calls)
    from one [of c] obtain kvs where "function_call_item c = obj kvs" "has_type ''function_call'' (mk kvs)"
      "\<not> has_type ''message'' (mk kvs)" "item_called dec (mk kvs) = chat_called dec c" by blast
    with Cons show ?case by simp
  qed simp
  then show "filter (has_type ''message'') (objs (map function_call_item calls)) = []"
    "map (item_called dec) (filter (has_type ''function_call'') (objs (map function_call_item calls))) = map (chat_called dec) calls"
    by blast+
qed

theorem responses_reply_reads:
  "responses_reply_turns enc dec (chatToResponsesResponse ir m) = chat_reply_turns dec ir"
proof -
  have o: "output_items (chatToResponsesResponse ir m) =
      objs ((if choice_text ir \<noteq> [] then [completed_message (choice_text ir)] else []) @
        map function_call_item (message_calls (choice_message ir)))"
    by (simp add: output_items_def chatToResponsesResponse_def Let_def)
  have t: "fld (chatToResponsesResponse ir m) ''output_text'' = JNull"
    by (simp add: chatToResponsesResponse_def Let_def)
  show ?thesis
    by (simp add: responses_reply_turns_def o t function_call_items chat_reply_turns_def completed_message_def has_type_def
        type_of_def part_text_def Let_def)
qed

lemma gemini_call_parts:
  "concat (map (\<lambda>p. stringValue (fld p ''text'')) (objs (map (gemini_call_part dec) calls))) = []"
  "part_calls (objs (map (gemini_call_part dec) calls)) =
     map (\<lambda>c. mk [(''name'', JStr (call_name c)), (''args'', call_input dec c)]) calls"
  by (induction calls) (simp_all add: gemini_call_part_def function_call_part_def part_calls_def List.map_filter_def)

theorem gemini_reply_reads:
  assumes "list_all (\<lambda>c. call_input dec c \<noteq> JNull) (message_calls (choice_message ir))"
  shows "gemini_reply_turns (chatToGeminiResponse dec ir m) = map without_id (chat_reply_turns dec ir)"
proof -
  let ?calls = "message_calls (choice_message ir)"
  have p: "candidate_parts (chatToGeminiResponse dec ir m) =
      objs ((if choice_text ir \<noteq> [] then [gemini_text (choice_text ir)] else []) @ map (gemini_call_part dec) ?calls)"
    by (simp add: candidate_parts_def chatToGeminiResponse_def Let_def first_obj_def obj_or_nil_def)
  have g: "objs (gemini_text t # ys) = mk [(''text'', JStr t)] # objs ys" for t ys
    by (simp add: gemini_text_def)
  have h: "part_calls (mk [(''text'', JStr t)] # ps) = part_calls ps" for t ps
    by (simp add: part_calls_def List.map_filter_def)
  have "map (\<lambda>fc. Called JNull (stringValue (fld fc ''name'')) (part_args fc))
      (map (\<lambda>c. mk [(''name'', JStr (call_name c)), (''args'', call_input dec c)]) ?calls) =
    map without_id (map (chat_called dec) ?calls)"
    using assms by (induction ?calls) (auto simp: part_args_def chat_called_def list_all_iff)
  then show ?thesis
    by (cases "choice_text ir = []")
      (simp_all add: gemini_reply_turns_def p g h gemini_call_parts chat_reply_turns_def)
qed

section \<open>Any upstream, any client\<close>

definition reply_turns :: "(jv \<Rightarrow> string) \<Rightarrow> (string \<Rightarrow> jv option) \<Rightarrow> string \<Rightarrow> fields \<Rightarrow> dialogue list" where
  "reply_turns enc dec proto body =
     (if proto = ''anthropic'' then anthropic_reply_turns body
      else if proto = ''openai_responses'' then responses_reply_turns enc dec body
      else chat_reply_turns dec body)"

definition reply_ok :: "(jv \<Rightarrow> string) \<Rightarrow> (string \<Rightarrow> jv option) \<Rightarrow> string \<Rightarrow> fields \<Rightarrow> bool" where
  "reply_ok enc dec proto body \<longleftrightarrow>
     (proto = ''anthropic'' \<longrightarrow>
        list_all (\<lambda>b. has_type ''tool_use'' b \<longrightarrow> codes enc dec (fld b ''input'')) (content_blocks body))"

lemma hub_reply:
  assumes "client \<in> set hub_protocols" "upstream \<in> set hub_protocols" "reply_ok enc dec upstream resp"
    and u: "upstreamRespToIR enc upper upstream resp = Inr ir" and c: "irRespToClient dec client ir m = Inr out"
  shows "reply_turns enc dec client out = reply_turns enc dec upstream resp"
proof -
  consider "upstream = ''openai_chat''" | "upstream = ''anthropic''" | "upstream = ''openai_responses''"
    using assms(2) by (auto simp: hub_protocols_def)
  then have "chat_reply_turns dec ir = reply_turns enc dec upstream resp"
    using u assms(3)
    by cases (auto simp: upstreamRespToIR_def reply_turns_def reply_ok_def anthropic_reply_read responses_reply_read)
  moreover consider "client = ''openai_chat''" | "client = ''anthropic''" | "client = ''openai_responses''"
    using assms(1) by (auto simp: hub_protocols_def)
  then have "reply_turns enc dec client out = chat_reply_turns dec ir"
    using c by cases (auto simp: irRespToClient_def reply_turns_def anthropic_reply_reads responses_reply_reads)
  ultimately show ?thesis by simp
qed

end
