(* ===== verification/Gemini_Correctness.thy ===== *)
theory Gemini_Correctness
  imports Reply_Correctness
begin

text \<open>
  Gemini in the translation hub: what its requests keep (everything but the ids of calls, which it does not have), what
  \<open>cleanGeminiSchema\<close> guarantees of a tool's parameters, and two things the conversion loses.
\<close>

section \<open>Requests\<close>

fun without_ids :: "dialogue \<Rightarrow> dialogue" where
  "without_ids (Called i n a) = Called JNull n a"
| "without_ids (Returned i t) = Returned JNull t"
| "without_ids t = t"

text \<open>\<open>rd\<close> reads the text of a function response.\<close>

definition part_responses :: "fields list \<Rightarrow> fields list" where
  "part_responses parts = List.map_filter (\<lambda>p. as_obj (fld p ''functionResponse'')) parts"

definition gemini_parts :: "fields \<Rightarrow> fields list" where
  "gemini_parts content = objs (list_or_nil (fld content ''parts''))"

definition parts_text :: "fields list \<Rightarrow> string" where
  "parts_text ps = concat (map (\<lambda>p. stringValue (fld p ''text'')) ps)"

definition gemini_turns :: "(jv \<Rightarrow> string) \<Rightarrow> fields \<Rightarrow> dialogue list" where
  "gemini_turns rd content =
     (if stringValue (fld content ''role'') = ''model'' then
        said AssistantText (parts_text (gemini_parts content)) @
        map (\<lambda>fc. Called JNull (stringValue (fld fc ''name'')) (part_args fc)) (part_calls (gemini_parts content))
      else map (\<lambda>fr. Returned JNull (rd (fld fr ''response''))) (part_responses (gemini_parts content)) @
           said UserText (parts_text (gemini_parts content)))"

definition contents_of :: "fields \<Rightarrow> fields list" where
  "contents_of body = objs (list_or_nil (fld body ''contents''))"

definition gemini_conversation :: "(jv \<Rightarrow> string) \<Rightarrow> fields \<Rightarrow> dialogue list" where
  "gemini_conversation rd body = concat (map (gemini_turns rd) (contents_of body))"

definition gemini_system :: "fields \<Rightarrow> string" where
  "gemini_system body = geminiPartsText (fld (obj_or_nil (fld body ''systemInstruction'')) ''parts'')"

text \<open>A response written by the hub holds its text as \<open>content\<close>.\<close>

definition response_content :: "jv \<Rightarrow> string" where
  "response_content r = stringValue (fld (obj_or_nil r) ''content'')"

lemma without_ids_said [simp]:
  "map without_ids (said AssistantText t) = said AssistantText t" "map without_ids (said UserText t) = said UserText t"
  by (simp_all add: said_def)

subsection \<open>From chat\<close>

definition gemini_calls_ok :: "(string \<Rightarrow> jv option) \<Rightarrow> fields \<Rightarrow> bool" where
  "gemini_calls_ok dec msg \<longleftrightarrow>
     list_all (\<lambda>c. as_obj (fld c ''function'') \<noteq> None \<and> call_input dec c \<noteq> JNull) (message_calls msg)"

definition read_contents :: "jv list \<Rightarrow> dialogue list" where
  "read_contents cs = concat (map (gemini_turns response_content) (objs cs))"

lemma read_contents_simps [simp]:
  "read_contents [] = []"
  "read_contents (xs @ ys) = read_contents xs @ read_contents ys"
  "read_contents [gemini_content r ps] = gemini_turns response_content (mk [(''role'', JStr r), (''parts'', JArr ps)])"
  by (simp_all add: read_contents_def gemini_content_def)

lemma gemini_parts_mk [simp]: "gemini_parts (mk [(''role'', r), (''parts'', JArr ps)]) = objs ps"
  by (simp add: gemini_parts_def)

lemma objs_gemini_text [simp]: "objs (gemini_text t # ys) = mk [(''text'', JStr t)] # objs ys"
  by (simp add: gemini_text_def)

lemma text_part [simp]:
  "parts_text (mk [(''text'', JStr t)] # ps) = t @ parts_text ps" "parts_text [] = []"
  "part_calls (mk [(''text'', JStr t)] # ps) = part_calls ps" "part_calls [] = []"
  "part_responses (mk [(''text'', JStr t)] # ps) = part_responses ps" "part_responses [] = []"
  by (simp_all add: parts_text_def part_calls_def part_responses_def List.map_filter_def)

lemma gemini_calls_all: "gemini_calls_ok dec msg \<Longrightarrow> gemini_calls msg = message_calls msg"
  by (auto simp: gemini_calls_def gemini_calls_ok_def list_all_iff)

lemma gemini_model_turns:
  assumes "gemini_calls_ok dec msg"
  shows "gemini_turns rd (mk [(''role'', JStr ''model''), (''parts'', JArr
       ((if t \<noteq> [] then [gemini_text t] else []) @ map (gemini_call_part dec) (gemini_calls msg)))]) =
     said AssistantText t @ map (without_ids \<circ> chat_called dec) (message_calls msg)"
proof -
  note all = gemini_calls_all [OF assms]
  have t: "parts_text (objs (map (gemini_call_part dec) cs)) = []" for cs
    using gemini_call_parts(1) [of dec cs] by (simp add: parts_text_def)
  have "map (\<lambda>fc. Called JNull (stringValue (fld fc ''name'')) (part_args fc))
      (map (\<lambda>c. mk [(''name'', JStr (call_name c)), (''args'', call_input dec c)]) (message_calls msg)) =
    map (without_ids \<circ> chat_called dec) (message_calls msg)"
    using assms by (auto simp: part_args_def chat_called_def gemini_calls_ok_def list_all_iff)
  then show ?thesis
    by (cases "t = []") (simp_all add: gemini_turns_def all t gemini_call_parts)
qed

lemma to_gemini_step_reads:
  assumes "stringValue (fld msg ''role'') = ''assistant'' \<Longrightarrow> gemini_calls_ok dec msg"
  shows "\<exists>cs' ns'. to_gemini_step dec msg (sys, cs, ns) = (sys @ system_parts [msg], cs', ns') \<and>
     read_contents cs' = read_contents cs @ map without_ids (chat_turns dec msg)"
proof -
  let ?role = "stringValue (fld msg ''role'')" and ?t = "messageContentText (fld msg ''content'')"
  consider "?role = ''system''" | "?role = ''tool''" | "?role = ''assistant''"
    | "?role \<notin> {''system'', ''tool'', ''assistant''}" by blast
  then show ?thesis
  proof cases
    case 1
    then show ?thesis by (simp add: to_gemini_step_def chat_turns_def system_parts_def)
  next
    case 2
    have "parts_text (objs [obj [(''functionResponse'', v)]]) = []" for v
      by (simp add: parts_text_def)
    moreover have "part_responses (objs [obj [(''functionResponse'', obj kvs)]]) = [mk kvs]" for kvs
      by (simp add: part_responses_def List.map_filter_def)
    ultimately show ?thesis
      using 2 by (simp add: to_gemini_step_def chat_turns_def system_parts_other gemini_turns_def response_content_def
          obj_or_nil_def del: objs_simps)
  next
    case 3
    have "read_contents (if ps \<noteq> [] then cs @ [gemini_content ''model'' ps] else cs) =
        read_contents cs @ gemini_turns response_content (mk [(''role'', JStr ''model''), (''parts'', JArr ps)])" for ps
      by (simp add: gemini_turns_def)
    then show ?thesis
      using 3 gemini_model_turns [OF assms [OF 3]] gemini_calls_all [OF assms [OF 3]]
      by (simp add: to_gemini_step_def chat_turns_def system_parts_other Let_def comp_def)
  next
    case 4
    then show ?thesis
      by (auto simp: to_gemini_step_def chat_turns_def system_parts_other gemini_turns_def Let_def)
  qed
qed

lemma to_gemini_fold_reads:
  assumes "list_all (\<lambda>m. stringValue (fld m ''role'') = ''assistant'' \<longrightarrow> gemini_calls_ok dec m) msgs"
  shows "\<exists>cs' ns'. fold (to_gemini_step dec) msgs (sys, cs, ns) = (sys @ system_parts msgs, cs', ns') \<and>
     read_contents cs' = read_contents cs @ map without_ids (concat (map (chat_turns dec) msgs))"
  using assms
proof (induction msgs arbitrary: sys cs ns)
  case Nil
  then show ?case by (simp add: system_parts_def)
next
  case (Cons m msgs)
  from to_gemini_step_reads [of m dec sys cs ns] Cons.prems obtain cs1 ns1 where
    s: "to_gemini_step dec m (sys, cs, ns) = (sys @ system_parts [m], cs1, ns1)"
    and r: "read_contents cs1 = read_contents cs @ map without_ids (chat_turns dec m)" by auto
  from Cons.IH [of "sys @ system_parts [m]" cs1 ns1] Cons.prems obtain cs' ns' where
    "fold (to_gemini_step dec) msgs (sys @ system_parts [m], cs1, ns1) = (sys @ system_parts [m] @ system_parts msgs, cs', ns')"
    "read_contents cs' = read_contents cs1 @ map without_ids (concat (map (chat_turns dec) msgs))" by auto
  with s r show ?case by (simp add: system_parts_append [of "[m]" msgs, simplified])
qed

theorem gemini_request_reads:
  assumes "list_all (\<lambda>m. stringValue (fld m ''role'') = ''assistant'' \<longrightarrow> gemini_calls_ok dec m) (messages_of ir)"
  shows "gemini_conversation response_content (chatToGeminiRequest dec upper ir) = map without_ids (chat_conversation dec ir)"
    and "gemini_system (chatToGeminiRequest dec upper ir) = chat_system ir"
proof -
  from to_gemini_fold_reads [OF assms, of "[]" "[]" "[]"] obtain cs ns where
    f: "fold (to_gemini_step dec) (messages_of ir) ([], [], []) = (system_parts (messages_of ir), cs, ns)"
    and r: "read_contents cs = map without_ids (concat (map (chat_turns dec) (messages_of ir)))" by auto
  have "fld (chatToGeminiRequest dec upper ir) ''contents'' = slice cs"
    using f by (simp add: chatToGeminiRequest_def messages_of_def Let_def)
  then show "gemini_conversation response_content (chatToGeminiRequest dec upper ir) = map without_ids (chat_conversation dec ir)"
    using r by (simp add: gemini_conversation_def contents_of_def read_contents_def chat_conversation_def)
  show "gemini_system (chatToGeminiRequest dec upper ir) = chat_system ir"
    using f by (simp add: gemini_system_def chatToGeminiRequest_def messages_of_def [symmetric] Let_def chat_system_def
        obj_or_nil_def geminiPartsText_def)
qed

subsection \<open>To chat\<close>

definition gemini_content_ok :: "(jv \<Rightarrow> string) \<Rightarrow> (string \<Rightarrow> jv option) \<Rightarrow> fields \<Rightarrow> bool" where
  "gemini_content_ok enc dec content \<longleftrightarrow>
     list_all (\<lambda>fc. codes enc dec (part_args fc)) (part_calls (gemini_parts content))"

lemma read_gemini_results:
  "map without_ids (read_chat dec (map (\<lambda>(idx, fr). tool_message (JStr (geminiSynthID idx)) (enc (fld fr ''response''))) (enumerate n frs))) =
     map (\<lambda>fr. Returned JNull (enc (fld fr ''response''))) frs"
proof (induction frs arbitrary: n)
  case (Cons a frs)
  then show ?case by (simp add: tool_message_def chat_turns_def)
qed simp

lemma system_gemini_results:
  "read_system (map (\<lambda>(idx, fr). tool_message (JStr (geminiSynthID idx)) (enc (fld fr ''response''))) (enumerate n frs)) = []"
proof (induction frs arbitrary: n)
  case (Cons a frs)
  have "read_system (tool_message i t # ms) = read_system ms" for i t ms
    by (simp add: read_system_def tool_message_def system_parts_def)
  with Cons show ?case by simp
qed simp

lemma gemini_messages_read:
  assumes "gemini_content_ok enc dec content"
  shows "map without_ids (read_chat dec (gemini_messages enc content)) = gemini_turns enc content"
    and "read_system (gemini_messages enc content) = []"
proof -
  let ?t = "parts_text (gemini_parts content)"
  have c: "map (without_ids \<circ> chat_called dec) (objs (gemini_chat_calls enc (gemini_parts content))) =
      map (\<lambda>fc. Called JNull (stringValue (fld fc ''name'')) (part_args fc)) (part_calls (gemini_parts content))"
  proof -
    have "without_ids (chat_called dec x) = without_id (chat_called dec x)" for x by (simp add: chat_called_def)
    then show ?thesis
      using called_gemini [of enc dec "part_calls (gemini_parts content)" 0] assms
      by (simp add: gemini_content_ok_def gemini_chat_calls_def comp_def)
  qed
  have g: "gemini_messages enc content =
     (if stringValue (fld content ''role'') = ''model'' then
        [text_and_calls ''assistant'' ?t (gemini_chat_calls enc (gemini_parts content))]
      else gemini_results enc (gemini_parts content) @ (if ?t \<noteq> [] then [chat_message ''user'' ?t] else []))"
    unfolding gemini_messages_def Let_def gemini_parts_def parts_text_def ..
  show "map without_ids (read_chat dec (gemini_messages enc content)) = gemini_turns enc content"
    using c by (cases "?t = []")
      (simp_all add: g read_text_and_calls gemini_turns_def gemini_results_def read_gemini_results part_responses_def
         chat_message_def chat_turns_def)
  show "read_system (gemini_messages enc content) = []"
    by (simp add: g read_system_text_and_calls gemini_results_def system_gemini_results chat_message_def system_parts_other)
qed

lemma without_ids_concat: "map without_ids (concat (map f xs)) = concat (map (\<lambda>x. map without_ids (f x)) xs)"
  by (induction xs) simp_all

theorem gemini_request_read:
  assumes "list_all (gemini_content_ok enc dec) (contents_of body)"
  shows "map without_ids (chat_conversation dec (geminiToChatRequest enc body)) = gemini_conversation enc body"
    and "chat_system (geminiToChatRequest enc body) = gemini_system body"
proof -
  let ?sys = "if gemini_system body \<noteq> [] then [chat_message ''system'' (gemini_system body)] else []"
  let ?ms = "concat (map (gemini_messages enc) (contents_of body))"
  have "(case as_obj (fld body ''systemInstruction'') of Some s \<Rightarrow> geminiPartsText (fld s ''parts'') | None \<Rightarrow> []) = gemini_system body"
    by (simp add: gemini_system_def obj_or_nil_def geminiPartsText_def split: option.splits)
  then have f: "fld (geminiToChatRequest enc body) ''messages'' = slice (?sys @ ?ms)"
    by (simp add: geminiToChatRequest_def contents_of_def Let_def split: option.splits)
  have "map without_ids (read_chat dec ?ms) = gemini_conversation enc body"
    unfolding read_chat_concat map_map comp_def without_ids_concat gemini_conversation_def
    using assms by (intro arg_cong [of _ _ concat] map_cong refl gemini_messages_read) (auto simp: list_all_iff)
  then show "map without_ids (chat_conversation dec (geminiToChatRequest enc body)) = gemini_conversation enc body"
    by (simp add: chat_reading [OF f])
  have "read_system ?ms = []"
    by (rule read_system_map) (use assms gemini_messages_read(2) in \<open>auto simp: list_all_iff\<close>)
  then show "chat_system (geminiToChatRequest enc body) = gemini_system body"
    by (simp add: chat_reading [OF f] read_system_system)
qed

section \<open>Tool parameters\<close>

text \<open>A schema inside a schema: the way to it goes through properties and items.\<close>

datatype schema_step = Prop string | Items

fun schema_child :: "schema_step \<Rightarrow> jv \<Rightarrow> jv option" where
  "schema_child (Prop name) v =
     (case map_of (obj_or_nil v) ''properties'' of Some (JObj props) \<Rightarrow> map_of props name | _ \<Rightarrow> None)"
| "schema_child Items v = map_of (obj_or_nil v) ''items''"

fun sub_schema :: "schema_step list \<Rightarrow> jv \<Rightarrow> jv option" where
  "sub_schema [] v = Some v"
| "sub_schema (s # path) v = (case schema_child s v of None \<Rightarrow> None | Some sub \<Rightarrow> sub_schema path sub)"

text \<open>The keywords Gemini refuses, by what they say.\<close>

definition refused_keywords :: "string set" where
  "refused_keywords =
     {''$schema'', ''$id'', ''$ref''} \<union> {''title'', ''default'', ''examples'', ''const''} \<union>
     {''format'', ''pattern'', ''minLength'', ''maxLength''} \<union> {''minItems'', ''maxItems'', ''uniqueItems''} \<union>
     {''exclusiveMinimum'', ''exclusiveMaximum'', ''multipleOf''} \<union> {''additionalProperties''}"

text \<open>
  What a schema becomes: nothing Gemini refuses is left, an object has properties, the type is in upper case, and every
  keyword that neither is refused nor holds schemas is what it was.
\<close>

definition object_type :: "jv option \<Rightarrow> bool" where
  "object_type t = (case t of Some (JStr s) \<Rightarrow> map ascii_lower s = ''object'' | _ \<Rightarrow> False)"

definition accepted_as :: "(string \<Rightarrow> string) \<Rightarrow> jv \<Rightarrow> jv \<Rightarrow> bool" where
  "accepted_as upper v v' =
     (case v of
        JObj m \<Rightarrow>
          \<exists>m'. v' = JObj m' \<and> (\<forall>k \<in> refused_keywords. map_of m' k = None) \<and>
            (\<forall>k. k \<notin> refused_keywords \<union> {''type'', ''properties'', ''items''} \<longrightarrow> map_of m' k = map_of m k) \<and>
            map_of m' ''type'' = map_option (clean_type upper) (map_of m ''type'') \<and>
            (object_type (map_of m' ''type'') \<longrightarrow> map_of m' ''properties'' \<noteq> None) \<and>
            (\<forall>props. map_of m' ''properties'' = Some props \<longrightarrow> as_obj props \<noteq> None)
      | _ \<Rightarrow> v' = v)"

text \<open>A decoded map has every key once.\<close>

fun keys_once :: "jv \<Rightarrow> bool" and entries_once :: "fields \<Rightarrow> bool" where
  "keys_once (JObj m) \<longleftrightarrow> distinct (map fst m) \<and> entries_once m"
| "keys_once _ \<longleftrightarrow> True"
| "entries_once [] \<longleftrightarrow> True"
| "entries_once ((k, v) # m) \<longleftrightarrow> keys_once v \<and> entries_once m"

lemma entries_once_map_of: "entries_once m \<Longrightarrow> map_of m k = Some v \<Longrightarrow> keys_once v"
  by (induction m) (auto split: if_splits)

lemma child_once:
  assumes "keys_once v" and "schema_child s v = Some w"
  shows "keys_once w"
proof (cases v)
  case (JObj m)
  have m: "entries_once m" using assms(1) JObj by simp
  show ?thesis
  proof (cases s)
    case (Prop name)
    then obtain props where p: "map_of m ''properties'' = Some (JObj props)" "map_of props name = Some w"
      using assms(2) JObj by (auto simp: obj_or_nil_def split: option.splits jv.splits)
    have "entries_once props" using entries_once_map_of [OF m p(1)] by simp
    then show ?thesis using p(2) by (rule entries_once_map_of)
  next
    case Items
    then show ?thesis using assms(2) JObj entries_once_map_of [OF m] by (simp add: obj_or_nil_def)
  qed
qed (use assms(2) in \<open>cases s; simp add: obj_or_nil_def\<close>)+

lemma sub_schema_once: "keys_once v \<Longrightarrow> sub_schema path v = Some w \<Longrightarrow> keys_once w"
proof (induction path arbitrary: v)
  case (Cons s path)
  then show ?case by (auto dest: child_once split: option.splits)
qed simp

lemma refused_set: "set unsupported_keys = refused_keywords"
  by (auto simp: unsupported_keys_def refused_keywords_def)

lemma schema_keywords_kept: "''type'' \<notin> refused_keywords" "''properties'' \<notin> refused_keywords" "''items'' \<notin> refused_keywords"
  by (simp_all add: refused_keywords_def)

lemma map_of_clean_properties: "map_of (clean_properties upper m) k = map_option (cleanGeminiSchema upper) (map_of m k)"
  by (induction m) auto

text \<open>What becomes of an entry.\<close>

definition cleaned_entry :: "(string \<Rightarrow> string) \<Rightarrow> string \<Rightarrow> jv \<Rightarrow> jv option" where
  "cleaned_entry upper k v =
     (if k \<in> refused_keywords then None
      else if k = ''type'' then Some (clean_type upper v)
      else if k = ''properties'' then map_option (\<lambda>props. JObj (clean_properties upper props)) (as_obj v)
      else if k = ''items'' then Some (cleanGeminiSchema upper v)
      else Some v)"

lemma clean_entries_step:
  "clean_entries upper ((k, v) # m) =
     (case cleaned_entry upper k v of None \<Rightarrow> [] | Some v' \<Rightarrow> [(k, v')]) @ clean_entries upper m"
  by (cases v) (simp_all add: cleaned_entry_def refused_set)

lemma clean_entries_keys: "map_of m k = None \<Longrightarrow> map_of (clean_entries upper m) k = None"
proof (induction m)
  case (Cons e m)
  obtain k' v where e: "e = (k', v)" by (cases e)
  have "map_of m k = None" "k \<noteq> k'" using Cons.prems by (auto simp: e split: if_splits)
  then show ?case using Cons.IH by (simp add: e clean_entries_step del: clean_entries.simps split: option.split)
qed simp

lemma map_of_clean_entries:
  "distinct (map fst m) \<Longrightarrow> map_of (clean_entries upper m) k = Option.bind (map_of m k) (cleaned_entry upper k)"
proof (induction m)
  case (Cons e m)
  obtain k' v where e: "e = (k', v)" by (cases e)
  show ?case
  proof (cases "k = k'")
    case True
    then have "map_of m k = None" using Cons.prems by (simp add: e map_of_eq_None_iff)
    then have "map_of (clean_entries upper m) k = None" by (rule clean_entries_keys)
    then show ?thesis by (simp add: e True clean_entries_step del: clean_entries.simps split: option.split)
  next
    case False
    then show ?thesis using Cons by (simp add: e clean_entries_step del: clean_entries.simps split: option.split)
  qed
qed simp

lemma map_of_complete:
  "map_of (complete_object m) k =
     (if k = ''properties'' \<and> object_type (map_of m ''type'') \<and> map_of m ''properties'' = None then Some (obj []) else map_of m k)"
proof -
  have "folds_to_object (type_of m) = object_type (map_of m ''type'')"
    by (cases "map_of m ''type''"; cases "the (map_of m ''type'')")
       (simp_all add: folds_to_object_def object_type_def type_of_def fld_def)
  then show ?thesis by (simp add: complete_object_def)
qed

lemma child_clean:
  assumes "keys_once v"
  shows "schema_child s (cleanGeminiSchema upper v) = map_option (cleanGeminiSchema upper) (schema_child s v)"
proof (cases v)
  case (JObj m)
  have d: "distinct (map fst m)" using assms JObj by simp
  note kept = schema_keywords_kept map_of_complete map_of_clean_entries [OF d] cleaned_entry_def
  show ?thesis
  proof (cases s)
    case (Prop name)
    show ?thesis
    proof (cases "map_of m ''properties''")
      case None
      then show ?thesis by (simp add: JObj Prop obj_or_nil_def obj_def mk_def kept)
    next
      case (Some props)
      then show ?thesis
        by (cases props) (simp_all add: JObj Prop obj_or_nil_def obj_def mk_def kept map_of_clean_properties)
    qed
  next
    case Items
    then show ?thesis by (cases "map_of m ''items''") (simp_all add: JObj obj_or_nil_def kept)
  qed
qed (cases s; simp add: obj_or_nil_def)+

lemma sub_schema_clean:
  "keys_once v \<Longrightarrow> sub_schema path (cleanGeminiSchema upper v) = map_option (cleanGeminiSchema upper) (sub_schema path v)"
proof (induction path arbitrary: v)
  case (Cons s path)
  show ?case
  proof (cases "schema_child s v")
    case None
    then show ?thesis by (simp add: child_clean [OF Cons.prems])
  next
    case (Some w)
    then show ?thesis using Cons.IH [OF child_once [OF Cons.prems Some]] by (simp add: child_clean [OF Cons.prems])
  qed
qed simp

lemma clean_accepted: "keys_once v \<Longrightarrow> accepted_as upper v (cleanGeminiSchema upper v)"
proof (cases v)
  case (JObj m)
  assume "keys_once v"
  then have d: "distinct (map fst m)" by (simp add: JObj)
  note kept = map_of_complete map_of_clean_entries [OF d] cleaned_entry_def
  let ?m = "complete_object (clean_entries upper m)"
  have 1: "map_of ?m k = None" if "k \<in> refused_keywords" for k
    using that schema_keywords_kept by (cases "map_of m k") (auto simp: kept)
  have 2: "map_of ?m k = map_of m k" if "k \<notin> refused_keywords \<union> {''type'', ''properties'', ''items''}" for k
    using that by (cases "map_of m k") (simp_all add: kept)
  have 3: "map_of ?m ''type'' = map_option (clean_type upper) (map_of m ''type'')"
    using schema_keywords_kept(1) by (cases "map_of m ''type''") (simp_all add: kept)
  have 4: "map_of ?m ''properties'' \<noteq> None" if "object_type (map_of ?m ''type'')"
    using that by (auto simp: map_of_complete)
  have 5: "as_obj props \<noteq> None" if "map_of ?m ''properties'' = Some props" for props
    using that schema_keywords_kept(2)
    by (cases "map_of m ''properties''") (auto simp: kept obj_def split: if_splits)
  show ?thesis by (simp add: JObj accepted_as_def) (use 1 2 3 4 5 in blast)
qed (simp_all add: accepted_as_def)

text \<open>Every schema inside the cleaned one is what became of the schema in its place, and none is lost or added.\<close>

lemma clean_everywhere:
  assumes "keys_once v"
  shows "rel_option (accepted_as upper) (sub_schema path v) (sub_schema path (cleanGeminiSchema upper v))"
  using assms clean_accepted sub_schema_once
  by (cases "sub_schema path v") (auto simp: sub_schema_clean)

text \<open>
  Schemas below other keywords are left as they are: an alternative of \<open>anyOf\<close> keeps the keywords that are dropped
  above it.
\<close>

lemma nested_schema_not_cleaned:
  "cleanGeminiSchema upper (obj [(''anyOf'', JArr [obj [(''const'', JStr ''a'')]])]) =
     obj [(''anyOf'', JArr [obj [(''const'', JStr ''a'')]])]"
  by (simp add: obj_def mk_def unsupported_keys_def complete_object_def folds_to_object_def type_of_def fld_def)

section \<open>Losses\<close>

text \<open>
  A Gemini client asks for a stream in the path of the request, and the body the hub writes does not ask for one: every
  upstream of another protocol answers with a complete body, which is then read as a stream.
\<close>

lemma gemini_stream_dropped:
  assumes "upstream \<in> {''openai_chat'', ''anthropic'', ''openai_responses''}"
    and "decodeToIR enc ''gemini'' body = Inr ir" "encodeFromIR dec upper upstream (put ''model'' m ir) = Inr out"
  shows "fld out ''stream'' = JNull"
proof -
  have s: "map_of ir ''stream'' = None"
    using assms(2) by (auto simp: decodeToIR_def geminiToChatRequest_def Let_def split: option.splits)
  show ?thesis
    using assms(1,3) s
    by (auto simp: encodeFromIR_def chatToAnthropicRequest_def chatToResponsesRequest_def Let_def fld_def
        split: prod.splits)
qed

text \<open>The ids the hub makes up for Gemini start again with every message, so two messages share them.\<close>

lemma gemini_ids_repeat:
  "part_calls parts \<noteq> [] \<Longrightarrow> fld (obj_or_nil (hd (gemini_chat_calls enc parts))) ''id'' = JStr ''gemini_call_0''"
proof -
  assume "part_calls parts \<noteq> []"
  then obtain fc fcs where c: "part_calls parts = fc # fcs" by (cases "part_calls parts") auto
  have "geminiSynthID 0 = ''gemini_call_0''"
    by code_simp
  then show ?thesis by (simp add: gemini_chat_calls_def c gemini_chat_call_def chat_call_def obj_or_nil_def)
qed

end
