(* ===== verification/Translate_Streams.thy ===== *)
theory Translate_Streams
  imports Translate_Replies
begin

text \<open>
  The streaming half of the translation hub (provider/xlate_stream.go, provider/xlate_stream_client.go and the stream
  writer of provider/convert.go). An upstream event stream is rewritten as a chat event stream, which is then written
  in the client's format.

  A reader is the bytes it gives and whether it ends with an error instead of EOF. A translator is the list of its
  writes, in order, and whether it ends with an error; when a write fails it stops there, so what reached the client
  is a prefix of that list.
\<close>

section \<open>Server-sent events\<close>

type_synonym reader = "string \<times> bool"

abbreviation LF :: char where "LF \<equiv> CHR 0x0A"
abbreviation CR :: char where "CR \<equiv> CHR 0x0D"

text \<open>
  \<^verbatim>\<open>bufio.Scanner\<close> with \<^verbatim>\<open>ScanLines\<close> and a buffer of \<open>cap\<close> bytes: the lines without their ends. A line that does
  not fit is an error, as is the error of the reader.
\<close>

fun split_lf :: "string \<Rightarrow> string \<Rightarrow> string list" where
  "split_lf acc [] = (if acc = [] then [] else [rev acc])"
| "split_lf acc (c # cs) = (if c = LF then rev acc # split_lf [] cs else split_lf (c # acc) cs)"

definition drop_cr :: "string \<Rightarrow> string" where
  "drop_cr l = (if l \<noteq> [] \<and> last l = CR then butlast l else l)"

definition scan_lines :: "nat \<Rightarrow> reader \<Rightarrow> string list \<times> bool" where
  "scan_lines cap r =
     (let ls = split_lf [] (fst r); fits = takeWhile (\<lambda>l. length l < cap) ls
      in (map drop_cr fits, snd r \<or> fits \<noteq> ls))"

definition trim_right_cr :: "string \<Rightarrow> string" where
  "trim_right_cr l = rev (dropWhile (\<lambda>c. c = CR) (rev l))"

record sseEvent =
  ev_name :: string
  ev_data :: string

definition flush_event :: "string \<Rightarrow> string \<Rightarrow> sseEvent list" where
  "flush_event name data = (if data = [] \<and> name = [] then [] else [\<lparr>ev_name = name, ev_data = data\<rparr>])"

fun sse_frames :: "string \<Rightarrow> string \<Rightarrow> string list \<Rightarrow> sseEvent list" where
  "sse_frames name data [] = flush_event name data"
| "sse_frames name data (line # lines) =
     (let t = trim_right_cr line in
      if t = [] then flush_event name data @ sse_frames [] [] lines
      else if has_prefix t ''event:'' then sse_frames (trim_space (trim_prefix t ''event:'')) data lines
      else if has_prefix t ''data:'' then
        sse_frames name ((if data \<noteq> [] then data @ [LF] else []) @ trim_space (trim_prefix t ''data:'')) lines
      else sse_frames name data lines)"

text \<open>The events \<open>scanSSE\<close> hands to its callback, and whether it reports an error of the scanner.\<close>

definition scan_limit :: nat where "scan_limit = 8 * 1024 * 1024"

definition scanSSE :: "reader \<Rightarrow> sseEvent list \<times> bool" where
  "scanSSE r = (case scan_lines scan_limit r of (lines, bad) \<Rightarrow> (sse_frames [] [] lines, bad))"

text \<open>\<^verbatim>\<open>json.Unmarshal\<close> into a map: \<open>null\<close> leaves the map nil.\<close>

definition dec_map :: "(string \<Rightarrow> jv option) \<Rightarrow> string \<Rightarrow> fields option" where
  "dec_map dec s = (case dec s of Some (JObj m) \<Rightarrow> Some m | Some JNull \<Rightarrow> Some [] | _ \<Rightarrow> None)"

section \<open>Chat chunks\<close>

text \<open>A chunk in the order its keys are written into it; \<open>writeChatChunk\<close> adds the object name.\<close>

definition chat_chunk :: "fields \<Rightarrow> jv" where
  "chat_chunk kvs = obj (kvs @ [(''object'', JStr ''chat.completion.chunk'')])"

definition chatDeltaChunk :: "fields \<Rightarrow> jv" where
  "chatDeltaChunk delta = chat_chunk [(''choices'', JArr [obj [(''index'', jint 0), (''delta'', obj delta)]])]"

definition content_chunk :: "string \<Rightarrow> jv" where
  "content_chunk txt = chatDeltaChunk [(''content'', JStr txt)]"

definition call_start_chunk :: "int \<Rightarrow> jv \<Rightarrow> jv \<Rightarrow> string \<Rightarrow> jv" where
  "call_start_chunk idx i name args =
     chatDeltaChunk [(''tool_calls'', JArr [obj [(''index'', jint idx), (''id'', i), (''type'', JStr ''function''),
       (''function'', obj [(''name'', name), (''arguments'', JStr args)])]])]"

definition call_args_chunk :: "int \<Rightarrow> string \<Rightarrow> jv" where
  "call_args_chunk idx args =
     chatDeltaChunk [(''tool_calls'', JArr [obj [(''index'', jint idx), (''function'', obj [(''arguments'', JStr args)])]])]"

definition final_chunk :: "string \<Rightarrow> int \<Rightarrow> int \<Rightarrow> jv" where
  "final_chunk finish inputTokens outputTokens =
     chat_chunk [(''choices'', JArr [obj [(''index'', jint 0), (''delta'', obj []), (''finish_reason'', JStr finish)]]),
       (''usage'', obj [(''prompt_tokens'', jint inputTokens), (''completion_tokens'', jint outputTokens)])]"

definition data_frame :: "string \<Rightarrow> string" where
  "data_frame data = ''data: '' @ data @ [LF, LF]"

definition event_frame :: "string \<Rightarrow> string \<Rightarrow> string" where
  "event_frame name data = ''event: '' @ name @ [LF] @ ''data: '' @ data @ [LF, LF]"

section \<open>Upstream streams to chat\<close>

text \<open>The variables of a translator and the chunks written so far.\<close>

record norm =
  n_toolIndex :: int
  n_blockIsTool :: bool
  n_inputTokens :: int
  n_outputTokens :: int
  n_finish :: string
  n_chunks :: "jv list"

definition norm_start :: norm where
  "norm_start = \<lparr>n_toolIndex = -1, n_blockIsTool = False, n_inputTokens = 0, n_outputTokens = 0,
     n_finish = ''stop'', n_chunks = []\<rparr>"

definition write_chunk :: "jv \<Rightarrow> norm \<Rightarrow> norm" where
  "write_chunk c n = n\<lparr>n_chunks := n_chunks n @ [c]\<rparr>"

definition anthropic_step :: "fields \<Rightarrow> norm \<Rightarrow> norm" where
  "anthropic_step payload n =
     (if type_of payload = ''content_block_start'' then
        (case as_obj (fld payload ''content_block'') of
           Some block \<Rightarrow>
             if type_of block = ''tool_use'' then
               (let idx = n_toolIndex n + 1 in
                write_chunk (call_start_chunk idx (fld block ''id'') (fld block ''name'') [])
                  (n\<lparr>n_toolIndex := idx, n_blockIsTool := True\<rparr>))
             else n\<lparr>n_blockIsTool := False\<rparr>
         | None \<Rightarrow> n\<lparr>n_blockIsTool := False\<rparr>)
      else if type_of payload = ''content_block_delta'' then
        (case as_obj (fld payload ''delta'') of
           None \<Rightarrow> n
         | Some delta \<Rightarrow>
             if type_of delta = ''text_delta'' then write_chunk (content_chunk (stringValue (fld delta ''text''))) n
             else if type_of delta = ''input_json_delta'' \<and> n_blockIsTool n then
               write_chunk (call_args_chunk (n_toolIndex n) (stringValue (fld delta ''partial_json''))) n
             else n)
      else if type_of payload = ''message_delta'' then
        (let n1 = (case as_obj (fld payload ''delta'') of
                     Some delta \<Rightarrow>
                       if stringValue (fld delta ''stop_reason'') \<noteq> []
                       then n\<lparr>n_finish := stopReasonToChatFinish (stringValue (fld delta ''stop_reason''))\<rparr> else n
                   | None \<Rightarrow> n)
         in case as_obj (fld payload ''usage'') of
              Some usage \<Rightarrow> n1\<lparr>n_outputTokens := intValue (fld usage ''output_tokens'')\<rparr>
            | None \<Rightarrow> n1)
      else if type_of payload = ''message_start'' then
        (case as_obj (fld payload ''message'') of
           Some msg \<Rightarrow>
             (case as_obj (fld msg ''usage'') of
                Some usage \<Rightarrow> n\<lparr>n_inputTokens := intValue (fld usage ''input_tokens'')\<rparr>
              | None \<Rightarrow> n)
         | None \<Rightarrow> n)
      else n)"

definition responses_step :: "string \<Rightarrow> fields \<Rightarrow> norm \<Rightarrow> norm" where
  "responses_step name payload n =
     (let typ = (if type_of payload = [] then name else type_of payload) in
      if typ = ''response.output_text.delta'' then write_chunk (content_chunk (stringValue (fld payload ''delta''))) n
      else if typ = ''response.output_item.added'' then
        (case as_obj (fld payload ''item'') of
           Some item \<Rightarrow>
             if type_of item = ''function_call'' then
               (let idx = n_toolIndex n + 1 in
                write_chunk (call_start_chunk idx (fld item ''call_id'') (fld item ''name'') [])
                  (n\<lparr>n_toolIndex := idx, n_finish := ''tool_calls''\<rparr>))
             else n
         | None \<Rightarrow> n)
      else if typ = ''response.function_call_arguments.delta'' then
        (let idx = (if n_toolIndex n < 0 then 0 else n_toolIndex n) in
         write_chunk (call_args_chunk idx (stringValue (fld payload ''delta''))) (n\<lparr>n_toolIndex := idx\<rparr>))
      else if typ = ''response.completed'' then
        (case as_obj (fld (obj_or_nil (fld payload ''response'')) ''usage'') of
           Some usage \<Rightarrow> n\<lparr>n_inputTokens := intValue (fld usage ''input_tokens''),
                           n_outputTokens := intValue (fld usage ''output_tokens'')\<rparr>
         | None \<Rightarrow> n)
      else n)"

definition gemini_part_step :: "(jv \<Rightarrow> string) \<Rightarrow> fields \<Rightarrow> norm \<Rightarrow> norm" where
  "gemini_part_step enc part n =
     (let txt = stringValue (fld part ''text'');
          n1 = (if txt \<noteq> [] then write_chunk (content_chunk txt) n else n)
      in case as_obj (fld part ''functionCall'') of
           Some fc \<Rightarrow>
             (let idx = n_toolIndex n1 + 1 in
              write_chunk (call_start_chunk idx (JStr (geminiSynthID (nat idx))) (fld fc ''name'')
                  (enc (part_args fc)))
                (n1\<lparr>n_toolIndex := idx, n_finish := ''tool_calls''\<rparr>))
         | None \<Rightarrow> n1)"

definition gemini_step :: "(jv \<Rightarrow> string) \<Rightarrow> (string \<Rightarrow> string) \<Rightarrow> fields \<Rightarrow> norm \<Rightarrow> norm" where
  "gemini_step enc upper payload n =
     (let n1 = (case as_obj (fld payload ''usageMetadata'') of
                  Some u \<Rightarrow> n\<lparr>n_inputTokens := intValue (fld u ''promptTokenCount''),
                              n_outputTokens := intValue (fld u ''candidatesTokenCount'')\<rparr>
                | None \<Rightarrow> n)
      in case first_obj (fld payload ''candidates'') of
           None \<Rightarrow> n1
         | Some cand \<Rightarrow>
             (let reason = stringValue (fld cand ''finishReason'');
                  n2 = (if reason \<noteq> [] then n1\<lparr>n_finish := geminiFinishToChat upper reason\<rparr> else n1)
              in fold (gemini_part_step enc)
                   (objs (list_or_nil (fld (obj_or_nil (fld cand ''content'')) ''parts''))) n2))"

definition norm_event ::
  "(jv \<Rightarrow> string) \<Rightarrow> (string \<Rightarrow> jv option) \<Rightarrow> (string \<Rightarrow> string) \<Rightarrow> string \<Rightarrow> sseEvent \<Rightarrow> norm \<Rightarrow> norm" where
  "norm_event enc dec upper proto ev n =
     (if ev_data ev = [] \<or> (proto = ''openai_responses'' \<and> ev_data ev = ''[DONE]'') then n
      else (case dec_map dec (ev_data ev) of
              None \<Rightarrow> n
            | Some payload \<Rightarrow>
                if proto = ''anthropic'' then anthropic_step payload n
                else if proto = ''openai_responses'' then responses_step (ev_name ev) payload n
                else gemini_step enc upper payload n))"

text \<open>What is written to the pipe: the chunks, then the final chunk and the end mark unless reading failed.\<close>

definition norm_writes :: "(jv \<Rightarrow> string) \<Rightarrow> norm \<Rightarrow> bool \<Rightarrow> string list" where
  "norm_writes enc n bad =
     map (\<lambda>c. data_frame (enc c)) (n_chunks n) @
     (if bad then []
      else [data_frame (enc (final_chunk (n_finish n) (n_inputTokens n) (n_outputTokens n))), data_frame ''[DONE]''])"

definition normalizeToChatSSE ::
  "(jv \<Rightarrow> string) \<Rightarrow> (string \<Rightarrow> jv option) \<Rightarrow> (string \<Rightarrow> string) \<Rightarrow> string \<Rightarrow> reader \<Rightarrow> reader" where
  "normalizeToChatSSE enc dec upper proto r =
     (if proto = ''openai_chat'' then r
      else if proto \<in> {''anthropic'', ''openai_responses'', ''gemini''} then
        (case scanSSE r of (evs, bad) \<Rightarrow>
           (concat (norm_writes enc (fold (norm_event enc dec upper proto) evs norm_start) bad), bad))
      else ([], True))"

section \<open>Chat to Gemini and Responses\<close>

record toolCallAccum =
  tc_index :: int
  tc_id :: string
  tc_name :: string
  tc_args :: string

text \<open>The results of \<open>collectChatStream\<close> so far: the calls in the order of their first chunk, and the texts handed on.\<close>

record collected =
  cs_finish :: string
  cs_inputTokens :: int
  cs_outputTokens :: int
  cs_tools :: "toolCallAccum list"
  cs_texts :: "string list"

definition collect_start :: collected where
  "collect_start = \<lparr>cs_finish = ''stop'', cs_inputTokens = 0, cs_outputTokens = 0, cs_tools = [], cs_texts = []\<rparr>"

definition add_call :: "fields \<Rightarrow> toolCallAccum \<Rightarrow> toolCallAccum" where
  "add_call call acc =
     (let i = stringValue (fld call ''id'');
          acc1 = (if i \<noteq> [] then acc\<lparr>tc_id := i\<rparr> else acc)
      in case as_obj (fld call ''function'') of
           Some fn \<Rightarrow>
             (let name = stringValue (fld fn ''name'');
                  acc2 = (if name \<noteq> [] then acc1\<lparr>tc_name := name\<rparr> else acc1)
              in acc2\<lparr>tc_args := tc_args acc2 @ stringValue (fld fn ''arguments'')\<rparr>)
         | None \<Rightarrow> acc1)"

fun collect_call :: "fields \<Rightarrow> toolCallAccum list \<Rightarrow> toolCallAccum list" where
  "collect_call call [] =
     [add_call call \<lparr>tc_index = intValue (fld call ''index''), tc_id = [], tc_name = [], tc_args = []\<rparr>]"
| "collect_call call (acc # accs) =
     (if tc_index acc = intValue (fld call ''index'') then add_call call acc # accs
      else acc # collect_call call accs)"

definition collect_chunk :: "fields \<Rightarrow> collected \<Rightarrow> collected" where
  "collect_chunk chunk s =
     (let s1 = (case as_obj (fld chunk ''usage'') of
                  Some u \<Rightarrow> s\<lparr>cs_inputTokens := intValue (fld u ''prompt_tokens''),
                              cs_outputTokens := intValue (fld u ''completion_tokens'')\<rparr>
                | None \<Rightarrow> s)
      in case first_obj (fld chunk ''choices'') of
           None \<Rightarrow> s1
         | Some choice \<Rightarrow>
             (let reason = stringValue (fld choice ''finish_reason'');
                  s2 = (if reason \<noteq> [] then s1\<lparr>cs_finish := reason\<rparr> else s1)
              in case as_obj (fld choice ''delta'') of
                   None \<Rightarrow> s2
                 | Some delta \<Rightarrow>
                     (let txt = stringValue (fld delta ''content'');
                          s3 = (if txt \<noteq> [] then s2\<lparr>cs_texts := cs_texts s2 @ [txt]\<rparr> else s2)
                      in s3\<lparr>cs_tools := fold collect_call (objs (list_or_nil (fld delta ''tool_calls''))) (cs_tools s3)\<rparr>)))"

definition collect_event :: "(string \<Rightarrow> jv option) \<Rightarrow> sseEvent \<Rightarrow> collected \<Rightarrow> collected" where
  "collect_event dec ev s =
     (if ev_data ev = [] \<or> ev_data ev = ''[DONE]'' then s
      else (case dec_map dec (ev_data ev) of None \<Rightarrow> s | Some chunk \<Rightarrow> collect_chunk chunk s))"

definition collectChatStream :: "(string \<Rightarrow> jv option) \<Rightarrow> reader \<Rightarrow> collected \<times> bool" where
  "collectChatStream dec r =
     (case scanSSE r of (evs, bad) \<Rightarrow>
        let s = fold (collect_event dec) evs collect_start
        in (if cs_tools s \<noteq> [] \<and> cs_finish s = ''stop'' then s\<lparr>cs_finish := ''tool_calls''\<rparr> else s, bad))"

definition gemini_text_payload :: "string \<Rightarrow> jv" where
  "gemini_text_payload txt =
     obj [(''candidates'', JArr [obj [(''content'', gemini_content ''model'' [gemini_text txt]), (''index'', jint 0)]])]"

definition gemini_final_payload :: "(string \<Rightarrow> jv option) \<Rightarrow> collected \<Rightarrow> string \<Rightarrow> jv" where
  "gemini_final_payload dec s requestModel =
     obj [(''candidates'', JArr [obj
           [(''content'', obj [(''role'', JStr ''model''),
               (''parts'', slice (map (\<lambda>tc. function_call_part (JStr (tc_name tc)) (tool_input dec (tc_args tc))) (cs_tools s)))]),
            (''finishReason'', JStr (chatFinishToGemini (cs_finish s))), (''index'', jint 0)]]),
          (''modelVersion'', JStr requestModel),
          (''usageMetadata'', obj [(''promptTokenCount'', jint (cs_inputTokens s)),
                                   (''candidatesTokenCount'', jint (cs_outputTokens s))])]"

definition chatStreamToGeminiSSE ::
  "(jv \<Rightarrow> string) \<Rightarrow> (string \<Rightarrow> jv option) \<Rightarrow> reader \<Rightarrow> string \<Rightarrow> string list \<times> bool" where
  "chatStreamToGeminiSSE enc dec r requestModel =
     (case collectChatStream dec r of (s, bad) \<Rightarrow>
        (map (\<lambda>t. data_frame (enc (gemini_text_payload t))) (cs_texts s) @
         (if bad then [] else [data_frame (enc (gemini_final_payload dec s requestModel))]), bad))"

definition responses_text_payload :: "string \<Rightarrow> jv" where
  "responses_text_payload txt = obj [(''type'', JStr ''response.output_text.delta''), (''delta'', JStr txt)]"

definition responses_output :: "collected \<Rightarrow> jv list" where
  "responses_output s =
     (let full = concat (cs_texts s) in
      (if full \<noteq> [] then [completed_message full] else []) @
      map (\<lambda>tc. obj [(''type'', JStr ''function_call''), (''call_id'', JStr (tc_id tc)),
                     (''name'', JStr (tc_name tc)), (''arguments'', JStr (tc_args tc))]) (cs_tools s))"

definition responses_final_payload :: "collected \<Rightarrow> string \<Rightarrow> jv" where
  "responses_final_payload s requestModel =
     obj [(''type'', JStr ''response.completed''),
          (''response'', obj
             [(''id'', JStr ''resp_proxy''), (''object'', JStr ''response''), (''status'', JStr ''completed''),
              (''model'', JStr requestModel), (''output'', slice (responses_output s)),
              (''usage'', obj [(''input_tokens'', jint (cs_inputTokens s)), (''output_tokens'', jint (cs_outputTokens s))])])]"

definition chatStreamToResponsesSSE ::
  "(jv \<Rightarrow> string) \<Rightarrow> (string \<Rightarrow> jv option) \<Rightarrow> reader \<Rightarrow> string \<Rightarrow> string list \<times> bool" where
  "chatStreamToResponsesSSE enc dec r requestModel =
     (case collectChatStream dec r of (s, bad) \<Rightarrow>
        (map (\<lambda>t. event_frame ''response.output_text.delta'' (enc (responses_text_payload t))) (cs_texts s) @
         (if bad then [] else [event_frame ''response.completed'' (enc (responses_final_payload s requestModel))]), bad))"

section \<open>Chat to Anthropic\<close>

text \<open>The variables of \<open>chatStreamToAnthropicSSE\<close> and the events written so far.\<close>

record writer =
  w_started :: bool
  w_blockOpen :: bool
  w_blockIndex :: int
  w_blockIsTool :: bool
  w_currentToolIdx :: int
  w_stopReason :: string
  w_inputTokens :: jv
  w_outputTokens :: jv
  w_model :: string
  w_events :: "(string \<times> fields) list"

definition writer_start :: "string \<Rightarrow> writer" where
  "writer_start requestModel = \<lparr>w_started = False, w_blockOpen = False, w_blockIndex = -1, w_blockIsTool = False,
     w_currentToolIdx = -1, w_stopReason = ''end_turn'', w_inputTokens = jint 0, w_outputTokens = jint 0,
     w_model = requestModel, w_events = []\<rparr>"

definition event :: "string \<Rightarrow> fields \<Rightarrow> writer \<Rightarrow> writer" where
  "event name kvs w = w\<lparr>w_events := w_events w @ [(name, mk ((''type'', JStr name) # kvs))]\<rparr>"

definition startMessage :: "string \<Rightarrow> writer \<Rightarrow> writer" where
  "startMessage messageID w =
     (if w_started w then w
      else event ''message_start'' [(''message'', obj
             [(''id'', JStr messageID), (''type'', JStr ''message''), (''role'', JStr ''assistant''),
              (''model'', JStr (w_model w)), (''content'', JArr []), (''stop_reason'', JNull), (''stop_sequence'', JNull),
              (''usage'', obj [(''input_tokens'', jint 0), (''output_tokens'', jint 0)])])] (w\<lparr>w_started := True\<rparr>))"

definition closeBlock :: "writer \<Rightarrow> writer" where
  "closeBlock w =
     (if \<not> w_blockOpen w then w
      else event ''content_block_stop'' [(''index'', jint (w_blockIndex w))] (w\<lparr>w_blockOpen := False\<rparr>))"

text \<open>Opening a block of either kind.\<close>

definition open_block :: "bool \<Rightarrow> jv \<Rightarrow> writer \<Rightarrow> writer" where
  "open_block isTool block w =
     event ''content_block_start'' [(''index'', jint (w_blockIndex w + 1)), (''content_block'', block)]
       (w\<lparr>w_blockIndex := w_blockIndex w + 1, w_blockOpen := True, w_blockIsTool := isTool\<rparr>)"

definition openTextBlock :: "writer \<Rightarrow> writer" where
  "openTextBlock w =
     (if w_blockOpen w \<and> \<not> w_blockIsTool w then w
      else open_block False (obj [(''type'', JStr ''text''), (''text'', JStr [])]) (closeBlock w))"

definition block_delta :: "fields \<Rightarrow> writer \<Rightarrow> writer" where
  "block_delta delta w =
     event ''content_block_delta'' [(''index'', jint (w_blockIndex w)), (''delta'', obj delta)] w"

definition write_text :: "string \<Rightarrow> writer \<Rightarrow> writer" where
  "write_text txt w =
     (if txt = [] then w
      else block_delta [(''type'', JStr ''text_delta''), (''text'', JStr txt)] (openTextBlock w))"

text \<open>\<^verbatim>\<open>fmt.Sprintf("toolu_proxy_%d", idx)\<close>\<close>

definition proxy_tool_id :: "int \<Rightarrow> string" where
  "proxy_tool_id idx = ''toolu_proxy_'' @ (if idx < 0 then ''-'' else []) @ decimal (nat \<bar>idx\<bar>)"

definition write_call :: "fields \<Rightarrow> writer \<Rightarrow> writer" where
  "write_call call w =
     (let idx = intValue (fld call ''index'');
          i = stringValue (fld call ''id'');
          w1 = (if idx \<noteq> w_currentToolIdx w \<or> \<not> w_blockOpen w \<or> \<not> w_blockIsTool w then
                  open_block True (obj [(''type'', JStr ''tool_use''),
                      (''id'', JStr (if i = [] then proxy_tool_id idx else i)), (''name'', JStr (call_name call)),
                      (''input'', obj [])]) ((closeBlock w)\<lparr>w_currentToolIdx := idx\<rparr>)
                else w);
          args = stringValue (fld (call_function call) ''arguments'')
      in if args = [] then w1
         else block_delta [(''type'', JStr ''input_json_delta''), (''partial_json'', JStr args)] w1)"

definition write_choice :: "string \<Rightarrow> fields \<Rightarrow> writer \<Rightarrow> writer" where
  "write_choice messageID choice w =
     (let w1 = startMessage messageID w;
          w2 = (case as_obj (fld choice ''delta'') of
                  None \<Rightarrow> w1
                | Some delta \<Rightarrow> fold write_call (objs (list_or_nil (fld delta ''tool_calls'')))
                                 (write_text (stringValue (fld delta ''content'')) w1));
          reason = stringValue (fld choice ''finish_reason'')
      in if reason \<noteq> [] then w2\<lparr>w_stopReason := chatFinishToStopReason reason\<rparr> else w2)"

definition write_chat_chunk :: "string \<Rightarrow> fields \<Rightarrow> writer \<Rightarrow> writer" where
  "write_chat_chunk messageID chunk w =
     (let m = stringValue (fld chunk ''model'');
          w1 = (if m \<noteq> [] then w\<lparr>w_model := m\<rparr> else w);
          u = obj_or_nil (fld chunk ''usage'');
          w2 = (case map_of u ''prompt_tokens'' of Some v \<Rightarrow> w1\<lparr>w_inputTokens := v\<rparr> | None \<Rightarrow> w1);
          w3 = (case map_of u ''completion_tokens'' of Some v \<Rightarrow> w2\<lparr>w_outputTokens := v\<rparr> | None \<Rightarrow> w2)
      in case first_obj (fld chunk ''choices'') of
           None \<Rightarrow> w3
         | Some choice \<Rightarrow> write_choice messageID choice w3)"

text \<open>A line of the stream that carries data other than the end mark.\<close>

definition line_data :: "string \<Rightarrow> string" where
  "line_data l =
     (let t = trim_space l in
      if has_prefix t ''data:'' then
        (let payload = trim_space (trim_prefix t ''data:'') in if payload = ''[DONE]'' then [] else payload)
      else [])"

definition write_line :: "(string \<Rightarrow> jv option) \<Rightarrow> string \<Rightarrow> string \<Rightarrow> writer \<Rightarrow> writer" where
  "write_line dec messageID l w =
     (if line_data l = [] then w
      else (case dec_map dec (line_data l) of
              None \<Rightarrow> w
            | Some chunk \<Rightarrow> write_chat_chunk messageID chunk w))"

definition finish_message :: "string \<Rightarrow> writer \<Rightarrow> writer" where
  "finish_message messageID w =
     (let w1 = closeBlock (startMessage messageID w) in
      event ''message_stop'' []
        (event ''message_delta''
          [(''delta'', obj [(''stop_reason'', JStr (w_stopReason w1)), (''stop_sequence'', JNull)]),
           (''usage'', obj [(''input_tokens'', w_inputTokens w1), (''output_tokens'', w_outputTokens w1)])] w1))"

definition anthropic_scan_limit :: nat where "anthropic_scan_limit = 4 * 1024 * 1024"

definition anthropic_events ::
  "(string \<Rightarrow> jv option) \<Rightarrow> reader \<Rightarrow> string \<Rightarrow> string \<Rightarrow> (string \<times> fields) list \<times> bool" where
  "anthropic_events dec r requestModel messageID =
     (case scan_lines anthropic_scan_limit r of (lines, bad) \<Rightarrow>
        let w = fold (write_line dec messageID) lines (writer_start requestModel)
        in (w_events (if bad then w else finish_message messageID w), bad))"

definition chatStreamToAnthropicSSE ::
  "(jv \<Rightarrow> string) \<Rightarrow> (string \<Rightarrow> jv option) \<Rightarrow> reader \<Rightarrow> string \<Rightarrow> string \<Rightarrow> string list \<times> bool" where
  "chatStreamToAnthropicSSE enc dec r requestModel messageID =
     (case anthropic_events dec r requestModel messageID of (evs, bad) \<Rightarrow>
        (map (\<lambda>(name, payload). event_frame name (enc (JObj payload))) evs, bad))"

section \<open>The pipeline\<close>

text \<open>\<open>copySSE\<close> writes what it reads.\<close>

definition copySSE :: "reader \<Rightarrow> string list \<times> bool" where
  "copySSE r = (if fst r = [] then [] else [fst r], snd r)"

definition streamUpstreamToClient ::
  "(jv \<Rightarrow> string) \<Rightarrow> (string \<Rightarrow> jv option) \<Rightarrow> (string \<Rightarrow> string) \<Rightarrow> string \<Rightarrow> string \<Rightarrow> reader \<Rightarrow> string \<Rightarrow>
    string \<Rightarrow> string list \<times> bool" where
  "streamUpstreamToClient enc dec upper upstream client r requestModel messageID =
     (if upstream = client then copySSE r
      else (let chatSSE = normalizeToChatSSE enc dec upper upstream r in
        if client = ''anthropic'' then chatStreamToAnthropicSSE enc dec chatSSE requestModel messageID
        else if client = ''openai_chat'' then copySSE chatSSE
        else if client = ''gemini'' then chatStreamToGeminiSSE enc dec chatSSE requestModel
        else if client = ''openai_responses'' then chatStreamToResponsesSSE enc dec chatSSE requestModel
        else ([], True)))"

text \<open>
  The writes the client receives when write number \<open>k\<close> is the first to fail (none, if there are fewer writes), and
  whether the stream ended with an error.
\<close>

definition delivered :: "nat \<Rightarrow> string list \<times> bool \<Rightarrow> string list \<times> bool" where
  "delivered k p = (take k (fst p), snd p \<or> k < length (fst p))"

end
