(* ===== verification/Stream_Grammar.thy ===== *)
theory Stream_Grammar
  imports Translate_Streams
begin

text \<open>
  The event stream a Claude client receives is well formed, whatever the upstream sends: one message, in it numbered
  blocks that open and close in order, deltas only inside a block of their kind, and the end of the message once.
\<close>

section \<open>The grammar\<close>

datatype phase =
    Before
  | Between int
  | Inside int bool
  | Ending
  | Finished

definition index_is :: "int \<Rightarrow> fields \<Rightarrow> bool" where
  "index_is k p \<longleftrightarrow> fld p ''index'' = jint k"

definition kind_of_block :: "bool \<Rightarrow> string" where
  "kind_of_block isTool = (if isTool then ''tool_use'' else ''text'')"

definition kind_of_delta :: "bool \<Rightarrow> string" where
  "kind_of_delta isTool = (if isTool then ''input_json_delta'' else ''text_delta'')"

fun accept_event :: "phase \<Rightarrow> string \<times> fields \<Rightarrow> phase option" where
  "accept_event Before (n, p) = (if n = ''message_start'' \<and> type_of p = n then Some (Between 0) else None)"
| "accept_event (Between k) (n, p) =
     (if n = ''content_block_start'' \<and> type_of p = n \<and> index_is k p then
        (let kind = type_of (obj_or_nil (fld p ''content_block'')) in
         if kind = kind_of_block False then Some (Inside k False)
         else if kind = kind_of_block True then Some (Inside k True) else None)
      else if n = ''message_delta'' \<and> type_of p = n then Some Ending
      else None)"
| "accept_event (Inside k t) (n, p) =
     (if n = ''content_block_delta'' \<and> type_of p = n \<and> index_is k p \<and>
         type_of (obj_or_nil (fld p ''delta'')) = kind_of_delta t then Some (Inside k t)
      else if n = ''content_block_stop'' \<and> type_of p = n \<and> index_is k p then Some (Between (k + 1))
      else None)"
| "accept_event Ending (n, p) = (if n = ''message_stop'' \<and> type_of p = n then Some Finished else None)"
| "accept_event Finished _ = None"

fun accepts :: "phase \<Rightarrow> (string \<times> fields) list \<Rightarrow> phase option" where
  "accepts ph [] = Some ph"
| "accepts ph (e # es) = (case accept_event ph e of None \<Rightarrow> None | Some ph' \<Rightarrow> accepts ph' es)"

lemma accepts_append: "accepts ph (xs @ ys) = (case accepts ph xs of None \<Rightarrow> None | Some ph' \<Rightarrow> accepts ph' ys)"
  by (induction xs arbitrary: ph) (auto split: option.splits)

section \<open>The writer\<close>

text \<open>The phase its variables say it is in.\<close>

definition phase_of :: "writer \<Rightarrow> phase" where
  "phase_of w =
     (if \<not> w_started w then Before
      else if w_blockOpen w then Inside (w_blockIndex w) (w_blockIsTool w)
      else Between (w_blockIndex w + 1))"

definition writer_ok :: "writer \<Rightarrow> bool" where
  "writer_ok w \<longleftrightarrow>
     accepts Before (w_events w) = Some (phase_of w) \<and> (\<not> w_started w \<longrightarrow> \<not> w_blockOpen w \<and> w_blockIndex w = -1)"

lemma accepts_event:
  "accepts Before (w_events (event n kvs w)) =
     (case accepts Before (w_events w) of None \<Rightarrow> None | Some ph \<Rightarrow> accept_event ph (n, mk ((''type'', JStr n) # kvs)))"
  by (simp add: event_def accepts_append split: option.splits)

lemma event_fields [simp]:
  "w_started (event n kvs w) = w_started w" "w_blockOpen (event n kvs w) = w_blockOpen w"
  "w_blockIndex (event n kvs w) = w_blockIndex w" "w_blockIsTool (event n kvs w) = w_blockIsTool w"
  "w_currentToolIdx (event n kvs w) = w_currentToolIdx w"
  by (simp_all add: event_def)

lemma startMessage_ok:
  assumes "writer_ok w"
  shows "writer_ok (startMessage i w)" "w_started (startMessage i w)"
  using assms by (auto simp: writer_ok_def startMessage_def accepts_event phase_of_def type_of_def)

lemma closeBlock_ok:
  assumes "writer_ok w"
  shows "writer_ok (closeBlock w)" "\<not> w_blockOpen (closeBlock w)" "w_started (closeBlock w) = w_started w"
  using assms by (auto simp: writer_ok_def closeBlock_def accepts_event phase_of_def type_of_def index_is_def)

lemma open_block_ok:
  assumes "writer_ok w" "w_started w" "\<not> w_blockOpen w" "type_of (obj_or_nil block) = kind_of_block isTool"
  shows "writer_ok (open_block isTool block w)" "w_started (open_block isTool block w)"
    "w_blockOpen (open_block isTool block w)" "w_blockIsTool (open_block isTool block w) = isTool"
  using assms
  by (auto simp: writer_ok_def open_block_def accepts_event phase_of_def type_of_def index_is_def kind_of_block_def)

lemma block_delta_ok:
  assumes "writer_ok w" "w_started w" "w_blockOpen w" "type_of (mk delta) = kind_of_delta (w_blockIsTool w)"
  shows "writer_ok (block_delta delta w)" "w_started (block_delta delta w)"
  using assms
  by (auto simp: writer_ok_def block_delta_def accepts_event phase_of_def type_of_def index_is_def obj_or_nil_def)

lemma openTextBlock_ok:
  assumes "writer_ok w" "w_started w"
  shows "writer_ok (openTextBlock w)" "w_started (openTextBlock w)" "w_blockOpen (openTextBlock w)"
    "\<not> w_blockIsTool (openTextBlock w)"
proof -
  have b: "type_of (obj_or_nil (obj [(''type'', JStr ''text''), (''text'', JStr [])])) = kind_of_block False"
    by (simp add: kind_of_block_def obj_or_nil_def type_of_def)
  note o = open_block_ok [OF closeBlock_ok(1) [OF assms(1)] _ closeBlock_ok(2) [OF assms(1)] b]
  show "writer_ok (openTextBlock w)" "w_started (openTextBlock w)" "w_blockOpen (openTextBlock w)"
    "\<not> w_blockIsTool (openTextBlock w)"
    using assms o closeBlock_ok(3) [OF assms(1)] by (auto simp: openTextBlock_def)
qed

lemma write_text_ok:
  assumes "writer_ok w" "w_started w"
  shows "writer_ok (write_text t w) \<and> w_started (write_text t w)"
  using assms block_delta_ok [OF openTextBlock_ok(1,2,3) [OF assms], of "[(''type'', JStr ''text_delta''), (''text'', JStr t)]"]
    openTextBlock_ok(4) [OF assms]
  by (auto simp: write_text_def type_of_def kind_of_delta_def)

lemma set_currentTool_ok [simp]: "writer_ok (w\<lparr>w_currentToolIdx := j\<rparr>) = writer_ok w"
  by (simp add: writer_ok_def phase_of_def)

lemma write_call_ok:
  assumes "writer_ok w" "w_started w"
  shows "writer_ok (write_call call w) \<and> w_started (write_call call w)"
proof -
  let ?idx = "intValue (fld call ''index'')" and ?i = "stringValue (fld call ''id'')"
  let ?block = "obj [(''type'', JStr ''tool_use''), (''id'', JStr (if ?i = [] then proxy_tool_id ?idx else ?i)),
     (''name'', JStr (call_name call)), (''input'', obj [])]"
  define w1 where "w1 = (if ?idx \<noteq> w_currentToolIdx w \<or> \<not> w_blockOpen w \<or> \<not> w_blockIsTool w
     then open_block True ?block ((closeBlock w)\<lparr>w_currentToolIdx := ?idx\<rparr>) else w)"
  have b: "type_of (obj_or_nil ?block) = kind_of_block True"
    by (simp add: kind_of_block_def obj_or_nil_def type_of_def)
  have "writer_ok w1 \<and> w_started w1 \<and> w_blockOpen w1 \<and> w_blockIsTool w1"
    using assms open_block_ok [of "(closeBlock w)\<lparr>w_currentToolIdx := ?idx\<rparr>" ?block True] b closeBlock_ok [OF assms(1)]
    by (simp add: w1_def)
  then show ?thesis
    using block_delta_ok [of w1 "[(''type'', JStr ''input_json_delta''), (''partial_json'',
        JStr (stringValue (fld (call_function call) ''arguments'')))]"]
    unfolding write_call_def Let_def w1_def [symmetric] by (simp add: type_of_def kind_of_delta_def)
qed

lemma write_calls_ok:
  "writer_ok w \<Longrightarrow> w_started w \<Longrightarrow> writer_ok (fold write_call calls w) \<and> w_started (fold write_call calls w)"
  by (induction calls arbitrary: w) (simp_all add: write_call_ok)

lemma unread_ok [simp]:
  "writer_ok (w\<lparr>w_model := m\<rparr>) = writer_ok w" "writer_ok (w\<lparr>w_inputTokens := v\<rparr>) = writer_ok w"
  "writer_ok (w\<lparr>w_outputTokens := v\<rparr>) = writer_ok w" "writer_ok (w\<lparr>w_stopReason := s\<rparr>) = writer_ok w"
  by (simp_all add: writer_ok_def phase_of_def)

lemma write_choice_ok: "writer_ok w \<Longrightarrow> writer_ok (write_choice i choice w)"
  using startMessage_ok [of w i] write_text_ok [of "startMessage i w"] write_calls_ok
  by (auto simp: write_choice_def Let_def split: option.splits)

lemma write_chat_chunk_ok: "writer_ok w \<Longrightarrow> writer_ok (write_chat_chunk i chunk w)"
  by (auto simp: write_chat_chunk_def Let_def write_choice_ok split: option.splits)

lemma write_line_ok: "writer_ok w \<Longrightarrow> writer_ok (write_line dec i l w)"
  by (auto simp: write_line_def write_chat_chunk_ok split: option.splits)

lemma write_lines_ok: "writer_ok w \<Longrightarrow> writer_ok (fold (write_line dec i) ls w)"
  by (induction ls arbitrary: w) (simp_all add: write_line_ok)

lemma writer_start_ok: "writer_ok (writer_start m)"
  by (simp add: writer_ok_def writer_start_def phase_of_def)

lemma finish_message_ok:
  assumes "writer_ok w"
  shows "accepts Before (w_events (finish_message i w)) = Some Finished"
proof -
  let ?w = "closeBlock (startMessage i w)"
  have "writer_ok ?w" "\<not> w_blockOpen ?w" "w_started ?w"
    using closeBlock_ok [OF startMessage_ok(1) [OF assms]] startMessage_ok(2) [OF assms] by simp_all
  then have "accepts Before (w_events ?w) = Some (Between (w_blockIndex ?w + 1))"
    by (simp add: writer_ok_def phase_of_def)
  then show ?thesis by (simp add: finish_message_def Let_def accepts_event type_of_def)
qed

lemma anthropic_stream_accepted:
  "accepts Before (fst (anthropic_events dec r m i)) \<noteq> None \<and>
   (\<not> snd (anthropic_events dec r m i) \<longrightarrow> accepts Before (fst (anthropic_events dec r m i)) = Some Finished)"
proof -
  obtain ls bad where l: "scan_lines anthropic_scan_limit r = (ls, bad)" by fastforce
  have w: "writer_ok (fold (write_line dec i) ls (writer_start m))" by (simp add: write_lines_ok writer_start_ok)
  then show ?thesis
    using finish_message_ok [OF w] by (auto simp: anthropic_events_def l Let_def writer_ok_def)
qed

text \<open>So is every prefix of it, which is what a client that hangs up has seen.\<close>

lemma accepts_prefix: "accepts ph (xs @ ys) \<noteq> None \<Longrightarrow> accepts ph xs \<noteq> None"
  by (auto simp: accepts_append split: option.splits)

end
