(* ===== verification/Stream_Content.thy ===== *)
theory Stream_Content
  imports Gemini_Correctness Stream_Grammar
begin

text \<open>
  What a stream says survives its translation: frames are read back as they were written, and the texts and calls of an
  upstream stream reach the client. A reply is a list of blocks, each given by its fragments. \<open>says\<close> relates it
  to the frames of a Claude or Responses stream that carry these fragments among any other events; such a stream becomes
  the chat chunks of the blocks, and every client format reads back the same reply.
\<close>

section \<open>Frames\<close>

definition clean_data :: "string \<Rightarrow> bool" where
  "clean_data d \<longleftrightarrow> d \<noteq> [] \<and> LF \<notin> set d \<and> CR \<notin> set d \<and> \<not> space_rune (hd (rune_split d)) \<and>
     \<not> space_rune (last (rune_split d)) \<and> length d + 6 < anthropic_scan_limit"

lemma rune_split_ascii: "byte_of c < 128 \<Longrightarrow> rune_split (c # s) = [c] # rune_split s"
  by (simp add: rune_split.simps [of "c # s"] rune_width_def well_formed_width_def Let_def)

lemma rune_split_not_Nil: "s \<noteq> [] \<Longrightarrow> rune_split s \<noteq> []"
  by (metis concat.simps(1) concat_rune_split)

lemma trim_runes:
  assumes "rs \<noteq> []" "\<not> space_rune (hd rs)" "\<not> space_rune (last rs)" "rune_split s = rs"
  shows "trim_space s = s"
proof -
  have "dropWhile space_rune rs = rs" using assms(1,2) by (cases rs) auto
  moreover have "dropWhile space_rune (rev rs) = rev rs" using assms(1,3) by (cases rs rule: rev_cases) auto
  ultimately show ?thesis using assms(4) concat_rune_split [of s] by (simp add: trim_space_def)
qed

lemma trim_clean: "clean_data d \<Longrightarrow> trim_space d = d"
  by (rule trim_runes) (auto simp: clean_data_def rune_split_not_Nil)

lemma trim_after_space: "trim_space (CHR '' '' # d) = trim_space d"
proof -
  have "space_rune '' ''" by code_simp
  moreover have "rune_split (CHR '' '' # d) = '' '' # rune_split d"
    by (rule rune_split_ascii) code_simp
  ultimately show ?thesis by (simp add: trim_space_def)
qed

lemma data_runes: "rune_split (''data: '' @ d) = map (\<lambda>c. [c]) ''data: '' @ rune_split d"
proof -
  have b: "byte_of CHR ''d'' < 128" "byte_of CHR ''a'' < 128" "byte_of CHR ''t'' < 128" "byte_of CHR '':'' < 128"
    "byte_of CHR '' '' < 128" by code_simp+
  show ?thesis by (simp add: rune_split_ascii b)
qed

lemma trim_data: "clean_data d \<Longrightarrow> trim_space (''data: '' @ d) = ''data: '' @ d"
proof (rule trim_runes [OF _ _ _ data_runes])
  assume "clean_data d"
  then show "\<not> space_rune (last (map (\<lambda>c. [c]) ''data: '' @ rune_split d))"
    by (simp add: clean_data_def rune_split_not_Nil)
  show "\<not> space_rune (hd (map (\<lambda>c. [c]) ''data: '' @ rune_split d))" by simp code_simp
qed simp

lemma split_line: "LF \<notin> set l \<Longrightarrow> split_lf acc (l @ LF # s) = (rev acc @ l) # split_lf [] s"
  by (induction l arbitrary: acc) auto

text \<open>The first line of a frame; the second is empty.\<close>

definition data_line :: "string \<Rightarrow> string" where
  "data_line d = ''data: '' @ d"

lemma data_frame_line: "data_frame d = data_line d @ [LF, LF]"
  by (simp add: data_frame_def data_line_def)

lemma data_line_chars: "LF \<in> set (data_line d) \<longleftrightarrow> LF \<in> set d" "CR \<in> set (data_line d) \<longleftrightarrow> CR \<in> set d"
  "length (data_line d) = length d + 6" "data_line d \<noteq> []"
  by (simp_all add: data_line_def)

lemma split_frame: "LF \<notin> set d \<Longrightarrow> split_lf [] (data_frame d @ s) = data_line d # [] # split_lf [] s"
  using split_line [of "data_line d" "[]" "LF # s"] by (simp add: data_frame_line data_line_chars)

text \<open>A frame with an event name has a line more.\<close>

definition sse_frame :: "string \<times> string \<Rightarrow> string" where
  "sse_frame f = (if fst f = [] then data_frame (snd f) else event_frame (fst f) (snd f))"

definition clean_frame :: "string \<times> string \<Rightarrow> bool" where
  "clean_frame f \<longleftrightarrow> clean_data (snd f) \<and> (fst f = [] \<or> clean_data (fst f))"

definition event_line :: "string \<Rightarrow> string" where
  "event_line n = ''event: '' @ n"

lemma event_line_chars: "LF \<in> set (event_line n) \<longleftrightarrow> LF \<in> set n" "CR \<in> set (event_line n) \<longleftrightarrow> CR \<in> set n"
  "length (event_line n) = length n + 7" "event_line n \<noteq> []"
  by (simp_all add: event_line_def)

definition frame_lines :: "string \<times> string \<Rightarrow> string list" where
  "frame_lines f = (if fst f = [] then [] else [event_line (fst f)]) @ [data_line (snd f), []]"

lemma event_frame_lines: "event_frame n d = event_line n @ LF # data_frame d"
  by (simp add: event_frame_def data_frame_def event_line_def)

lemma split_named_frame:
  assumes "clean_frame f"
  shows "split_lf [] (sse_frame f @ s) = frame_lines f @ split_lf [] s"
proof -
  have d: "LF \<notin> set (snd f)" using assms by (simp add: clean_frame_def clean_data_def)
  show ?thesis
  proof (cases "fst f = []")
    case True
    then show ?thesis by (simp add: sse_frame_def frame_lines_def split_frame [OF d])
  next
    case False
    then have "LF \<notin> set (event_line (fst f))" using assms by (simp add: clean_frame_def clean_data_def event_line_chars)
    from split_line [OF this, of "[]" "data_frame (snd f) @ s"] False show ?thesis
      by (simp add: sse_frame_def event_frame_lines frame_lines_def split_frame [OF d])
  qed
qed

lemma split_frames:
  "list_all clean_frame fs \<Longrightarrow> split_lf [] (concat (map sse_frame fs)) = concat (map frame_lines fs)"
  by (induction fs) (simp_all add: split_named_frame)

lemma drop_cr_id: "CR \<notin> set l \<Longrightarrow> drop_cr l = l"
  unfolding drop_cr_def by (metis last_in_set)

lemma scan_named_lines:
  assumes "list_all clean_frame fs" "anthropic_scan_limit < bound"
  shows "scan_lines bound (concat (map sse_frame fs), bad) = (concat (map frame_lines fs), bad)"
proof -
  let ?ls = "concat (map frame_lines fs)"
  have pos: "1 < bound" using assms(2) by (simp add: anthropic_scan_limit_def)
  have "\<forall>l\<in>set ?ls. length l < bound \<and> CR \<notin> set l"
    using assms pos by (fastforce simp: list_all_iff clean_frame_def frame_lines_def clean_data_def data_line_chars event_line_chars)
  then have t: "takeWhile (\<lambda>l. length l < bound) ?ls = ?ls" and "\<forall>l\<in>set ?ls. drop_cr l = l"
    by (simp_all add: takeWhile_eq_all_conv drop_cr_id)
  then have "map drop_cr ?ls = ?ls" by (simp only: map_idI)
  then show ?thesis by (simp only: scan_lines_def split_frames [OF assms(1)] Let_def fst_conv snd_conv t) simp
qed

lemma scan_frame_lines:
  assumes "list_all clean_data ds" "anthropic_scan_limit \<le> bound"
  shows "scan_lines bound (concat (map data_frame ds), bad) = (concat (map (\<lambda>d. [data_line d, []]) ds), bad)"
proof -
  let ?ls = "concat (map (\<lambda>d. [data_line d, []]) ds)"
  have pos: "0 < bound" using assms(2) by (simp add: anthropic_scan_limit_def)
  have s: "split_lf [] (concat (map data_frame ds)) = ?ls"
    using assms(1) by (induction ds) (simp_all add: split_frame clean_data_def)
  have "\<forall>l\<in>set ?ls. length l < bound \<and> CR \<notin> set l"
    using assms pos by (auto simp: list_all_iff clean_data_def data_line_chars)
  then have t: "takeWhile (\<lambda>l. length l < bound) ?ls = ?ls" and "\<forall>l\<in>set ?ls. drop_cr l = l"
    by (simp_all add: takeWhile_eq_all_conv drop_cr_id)
  then have "map drop_cr ?ls = ?ls" by (simp only: map_idI)
  then show ?thesis by (simp only: scan_lines_def s Let_def fst_conv snd_conv t) simp
qed

lemma trim_right_cr_id: "CR \<notin> set l \<Longrightarrow> trim_right_cr l = l"
proof -
  assume "CR \<notin> set l"
  then have "dropWhile (\<lambda>c. c = CR) (rev l) = rev l"
    by (subst dropWhile_eq_self_iff) (metis hd_in_set set_rev)
  then show ?thesis by (simp add: trim_right_cr_def)
qed

lemma data_line_parts:
  "has_prefix (data_line d) ''data:''" "\<not> has_prefix (data_line d) ''event:''"
  "trim_prefix (data_line d) ''data:'' = CHR '' '' # d"
  by (simp_all add: has_prefix_def trim_prefix_def data_line_def)

lemma event_line_parts:
  "has_prefix (event_line n) ''event:''" "trim_prefix (event_line n) ''event:'' = CHR '' '' # n"
  by (simp_all add: has_prefix_def trim_prefix_def event_line_def)

lemma clean_line: "clean_data d \<Longrightarrow> trim_right_cr (data_line d) = data_line d"
  "clean_data d \<Longrightarrow> trim_right_cr (event_line d) = event_line d" "trim_right_cr [] = []"
  by (simp_all add: trim_right_cr_id clean_data_def data_line_chars event_line_chars)

lemma frame_read:
  assumes "clean_frame f"
  shows "sse_frames [] [] (frame_lines f @ ls) = \<lparr>ev_name = fst f, ev_data = snd f\<rparr> # sse_frames [] [] ls"
proof -
  have d: "clean_data (snd f)" "snd f \<noteq> []" using assms by (auto simp: clean_frame_def clean_data_def)
  have data: "sse_frames n [] (data_line (snd f) # [] # ls) = \<lparr>ev_name = n, ev_data = snd f\<rparr> # sse_frames [] [] ls" for n
    using d by (simp add: clean_line data_line_parts data_line_chars trim_after_space trim_clean flush_event_def Let_def)
  show ?thesis
  proof (cases "fst f = []")
    case True
    then show ?thesis using data [of "[]"] by (simp add: frame_lines_def)
  next
    case False
    then have n: "clean_data (fst f)" using assms by (simp add: clean_frame_def)
    have "sse_frames [] [] (event_line (fst f) # ms) = sse_frames (fst f) [] ms" for ms
      using n by (simp add: clean_line event_line_parts event_line_chars trim_after_space trim_clean Let_def)
    then show ?thesis using False data [of "fst f"] by (simp add: frame_lines_def)
  qed
qed

lemma frames_of_lines:
  "list_all clean_frame fs \<Longrightarrow>
     sse_frames [] [] (concat (map frame_lines fs)) = map (\<lambda>f. \<lparr>ev_name = fst f, ev_data = snd f\<rparr>) fs"
  by (induction fs) (simp_all add: frame_read flush_event_def)

theorem scan_named:
  "list_all clean_frame fs \<Longrightarrow>
     scanSSE (concat (map sse_frame fs), bad) = (map (\<lambda>f. \<lparr>ev_name = fst f, ev_data = snd f\<rparr>) fs, bad)"
  by (simp add: scanSSE_def scan_named_lines frames_of_lines scan_limit_def anthropic_scan_limit_def)

theorem scan_printed:
  assumes "list_all clean_data ds"
  shows "scanSSE (concat (map data_frame ds), bad) = (map (\<lambda>d. \<lparr>ev_name = [], ev_data = d\<rparr>) ds, bad)"
proof -
  have "list_all clean_frame (map (Pair []) ds)" using assms by (simp add: list_all_iff clean_frame_def)
  from scan_named [OF this, of bad] show ?thesis by (simp add: comp_def sse_frame_def)
qed

lemma line_of_frame:
  "clean_data d \<Longrightarrow> line_data (data_line d) = (if d = ''[DONE]'' then [] else d)" "line_data [] = []"
proof -
  assume d: "clean_data d"
  show "line_data (data_line d) = (if d = ''[DONE]'' then [] else d)"
    unfolding line_data_def trim_data [OF d, folded data_line_def] Let_def
    by (simp add: data_line_parts trim_after_space trim_clean [OF d])
qed (simp add: line_data_def has_prefix_def)

section \<open>Replies in fragments\<close>

text \<open>A call has its id, its name, what came of the arguments with its start, and the later fragments.\<close>

datatype block =
    TextBlock "string list"
  | ToolBlock string string string "string list"

fun block_says :: "block \<Rightarrow> string" where
  "block_says (TextBlock ts) = concat ts"
| "block_says (ToolBlock i n a fs) = []"

fun block_calls :: "(string \<Rightarrow> jv option) \<Rightarrow> block \<Rightarrow> dialogue list" where
  "block_calls dec (TextBlock ts) = []"
| "block_calls dec (ToolBlock i n a fs) = [Called (JStr i) n (tool_input dec (a @ concat fs))]"

definition blocks_turns :: "(string \<Rightarrow> jv option) \<Rightarrow> block list \<Rightarrow> dialogue list" where
  "blocks_turns dec bs = said AssistantText (concat (map block_says bs)) @ concat (map (block_calls dec) bs)"

text \<open>The chunks of a reply from call number \<open>k\<close> on.\<close>

fun chunks :: "int \<Rightarrow> block list \<Rightarrow> jv list" where
  "chunks k [] = []"
| "chunks k (TextBlock ts # bs) = map content_chunk ts @ chunks k bs"
| "chunks k (ToolBlock i n a fs # bs) =
     call_start_chunk k (JStr i) (JStr n) a # map (call_args_chunk k) fs @ chunks (k + 1) bs"

section \<open>Upstream streams\<close>

lemma write_chunk_simps [simp]:
  "n_chunks (write_chunk c n) = n_chunks n @ [c]" "n_toolIndex (write_chunk c n) = n_toolIndex n"
  "n_blockIsTool (write_chunk c n) = n_blockIsTool n" "n_finish (write_chunk c n) = n_finish n"
  "n_inputTokens (write_chunk c n) = n_inputTokens n" "n_outputTokens (write_chunk c n) = n_outputTokens n"
  by (simp_all add: write_chunk_def)

lemma intValue_jint [simp]: "intValue (jint i) = i"
  by (simp add: jint_def rat_trunc_def)

text \<open>
  What one event of a provider adds to its reply, read from the provider's documentation. Every other event adds
  nothing, wherever it stands: pings, a finished item that repeats what its fragments said, counts, unknown events.
\<close>

datatype piece =
    Opens_call jv jv
  | Opens_other
  | Adds_text string
  | Adds_args string
  | Adds_nothing

definition claude_piece :: "fields \<Rightarrow> piece" where
  "claude_piece p =
     (let block = obj_or_nil (fld p ''content_block''); delta = obj_or_nil (fld p ''delta'') in
      if type_of p = ''content_block_start''
      then (if type_of block = ''tool_use'' then Opens_call (fld block ''id'') (fld block ''name'') else Opens_other)
      else if type_of p = ''content_block_delta'' \<and> type_of delta = ''text_delta'' then Adds_text (stringValue (fld delta ''text''))
      else if type_of p = ''content_block_delta'' \<and> type_of delta = ''input_json_delta''
      then Adds_args (stringValue (fld delta ''partial_json''))
      else Adds_nothing)"

text \<open>A Responses event without a type has its frame's name.\<close>

definition responses_piece :: "string \<Rightarrow> fields \<Rightarrow> piece" where
  "responses_piece name p =
     (let t = (if type_of p = [] then name else type_of p); item = obj_or_nil (fld p ''item'') in
      if t = ''response.output_text.delta'' then Adds_text (stringValue (fld p ''delta''))
      else if t = ''response.output_item.added'' \<and> type_of item = ''function_call''
      then Opens_call (fld item ''call_id'') (fld item ''name'')
      else if t = ''response.function_call_arguments.delta'' then Adds_args (stringValue (fld p ''delta''))
      else Adds_nothing)"

text \<open>The piece of a frame, whose data may not be JSON at all.\<close>

definition frame_piece :: "(string \<Rightarrow> jv option) \<Rightarrow> string \<Rightarrow> string \<times> string \<Rightarrow> piece" where
  "frame_piece dec proto f =
     (if snd f = ''[DONE]'' \<and> proto = ''openai_responses'' then Adds_nothing
      else case dec_map dec (snd f) of
             None \<Rightarrow> Adds_nothing
           | Some p \<Rightarrow> if proto = ''anthropic'' then claude_piece p else responses_piece (fst f) p)"

text \<open>
  The frames say these blocks: what they add is, in order, the fragments of each block; the arguments of a call follow
  its start before anything else of the reply, and its start has none. A Claude stream opens every block.
\<close>

fun block_pieces :: "string \<Rightarrow> block \<Rightarrow> piece list" where
  "block_pieces proto (TextBlock ts) = (if proto = ''anthropic'' then [Opens_other] else []) @ map Adds_text ts"
| "block_pieces proto (ToolBlock i n a fs) = Opens_call (JStr i) (JStr n) # map Adds_args fs"

fun starts_empty :: "block \<Rightarrow> bool" where
  "starts_empty (TextBlock ts) = True"
| "starts_empty (ToolBlock i n a fs) = (a = [])"

definition says :: "(string \<Rightarrow> jv option) \<Rightarrow> string \<Rightarrow> (string \<times> string) list \<Rightarrow> block list \<Rightarrow> bool" where
  "says dec proto fs bs \<longleftrightarrow> list_all starts_empty bs \<and>
     filter (\<lambda>x. x \<noteq> Adds_nothing) (map (frame_piece dec proto) fs) = concat (map (block_pieces proto) bs)"

subsection \<open>Pieces become chunks\<close>

text \<open>The call number, whether a call is open, and the chunks written.\<close>

fun piece_step :: "piece \<Rightarrow> int \<times> bool \<times> jv list \<Rightarrow> int \<times> bool \<times> jv list" where
  "piece_step (Opens_call i n) (k, t, cs) = (k + 1, True, cs @ [call_start_chunk (k + 1) i n []])"
| "piece_step Opens_other (k, t, cs) = (k, False, cs)"
| "piece_step (Adds_text x) (k, t, cs) = (k, t, cs @ [content_chunk x])"
| "piece_step (Adds_args f) (k, t, cs) = (if t then (max 0 k, t, cs @ [call_args_chunk (max 0 k) f]) else (k, t, cs))"
| "piece_step Adds_nothing v = v"

lemma pieces_filter: "fold piece_step (filter (\<lambda>x. x \<noteq> Adds_nothing) xs) v = fold piece_step xs v"
  by (induction xs arbitrary: v) auto

lemma text_pieces: "fold piece_step (map Adds_text ts) (k, t, cs) = (k, t, cs @ map content_chunk ts)"
  by (induction ts arbitrary: cs) simp_all

lemma args_pieces:
  "0 \<le> k \<Longrightarrow> fold piece_step (map Adds_args fs) (k, True, cs) = (k, True, cs @ map (call_args_chunk k) fs)"
  by (induction fs arbitrary: cs) (simp_all add: max_def)

lemma block_chunks:
  "list_all starts_empty bs \<Longrightarrow> -1 \<le> k \<Longrightarrow>
     snd (snd (fold piece_step (concat (map (block_pieces proto) bs)) (k, t, cs))) = cs @ chunks (k + 1) bs"
proof (induction bs arbitrary: k t cs)
  case (Cons b bs)
  show ?case
  proof (cases b)
    case (TextBlock ts)
    then show ?thesis using Cons by (auto simp: text_pieces)
  next
    case (ToolBlock i nm a fs)
    then show ?thesis using Cons by (simp add: args_pieces)
  qed
qed simp

lemma said_chunks:
  assumes "says dec proto fs bs" and "-1 \<le> k"
  shows "snd (snd (fold piece_step (map (frame_piece dec proto) fs) (k, t, cs))) = cs @ chunks (k + 1) bs"
  using assms block_chunks [of bs k proto t cs] pieces_filter [of "map (frame_piece dec proto) fs" "(k, t, cs)"]
  by (simp add: says_def)

definition claude_view :: "norm \<Rightarrow> int \<times> bool \<times> jv list" where
  "claude_view n = (n_toolIndex n, n_blockIsTool n, n_chunks n)"

definition calls_counted :: "norm \<Rightarrow> bool" where
  "calls_counted n \<longleftrightarrow> -1 \<le> n_toolIndex n \<and> (n_blockIsTool n \<longrightarrow> 0 \<le> n_toolIndex n) \<and> n_finish n \<noteq> []"

lemma finish_given: "stopReasonToChatFinish r \<noteq> []"
  by (simp add: stopReasonToChatFinish_def)

lemma obj_or_nil_cases: "obj_or_nil v = (case as_obj v of Some m \<Rightarrow> m | None \<Rightarrow> [])"
  by (cases v) (simp_all add: obj_or_nil_def)

lemma type_of_Nil: "type_of [] = []"
  by (simp add: type_of_def)

lemma claude_step_piece:
  assumes "calls_counted n"
  shows "claude_view (anthropic_step p n) = piece_step (claude_piece p) (claude_view n)" (is ?A)
    and "calls_counted (anthropic_step p n)" (is ?B)
proof -
  show ?A
    using assms unfolding anthropic_step_def claude_piece_def Let_def obj_or_nil_cases claude_view_def calls_counted_def
    by (auto simp: type_of_Nil max_def split: option.splits)
  show ?B
    using assms unfolding anthropic_step_def Let_def calls_counted_def
    by (auto simp: finish_given split: option.splits)
qed

text \<open>A Responses translator keeps no open block: a fragment goes to the last call.\<close>

definition responses_view :: "norm \<Rightarrow> int \<times> bool \<times> jv list" where
  "responses_view n = (n_toolIndex n, True, n_chunks n)"

lemma responses_step_piece:
  assumes "calls_counted n"
  shows "responses_view (responses_step name p n) = piece_step (responses_piece name p) (responses_view n)" (is ?A)
    and "calls_counted (responses_step name p n)" (is ?B)
proof -
  show ?A
    unfolding responses_step_def responses_piece_def Let_def obj_or_nil_cases responses_view_def
    by (auto simp: type_of_Nil max_def split: option.splits)
  show ?B
    using assms unfolding responses_step_def Let_def calls_counted_def
    by (auto split: option.splits)
qed

subsection \<open>The upstream formats\<close>

definition stream_view :: "string \<Rightarrow> norm \<Rightarrow> int \<times> bool \<times> jv list" where
  "stream_view proto = (if proto = ''anthropic'' then claude_view else responses_view)"

abbreviation frame_event :: "string \<times> string \<Rightarrow> sseEvent" where
  "frame_event f \<equiv> \<lparr>ev_name = fst f, ev_data = snd f\<rparr>"

lemma norm_event_piece:
  assumes "calls_counted n" and "snd f \<noteq> []" and "proto \<in> {''anthropic'', ''openai_responses''}"
  shows "stream_view proto (norm_event enc dec upper proto (frame_event f) n) = piece_step (frame_piece dec proto f) (stream_view proto n) \<and>
    calls_counted (norm_event enc dec upper proto (frame_event f) n)"
  using assms claude_step_piece [OF assms(1)] responses_step_piece [OF assms(1)]
  by (auto simp: norm_event_def frame_piece_def stream_view_def split: option.splits)

lemma norm_fold_pieces:
  assumes "calls_counted n" and "list_all clean_frame fs" and "proto \<in> {''anthropic'', ''openai_responses''}"
  shows "stream_view proto (fold (norm_event enc dec upper proto) (map frame_event fs) n) =
      fold piece_step (map (frame_piece dec proto) fs) (stream_view proto n) \<and>
    calls_counted (fold (norm_event enc dec upper proto) (map frame_event fs) n)"
  using assms
proof (induction fs arbitrary: n)
  case (Cons f fs)
  have "snd f \<noteq> []" using Cons.prems(2) by (simp add: clean_frame_def clean_data_def)
  from norm_event_piece [OF Cons.prems(1) this Cons.prems(3), where enc = enc and dec = dec and upper = upper]
  show ?case using Cons.IH Cons.prems(2,3) by simp
qed simp

text \<open>What the translator holds when it has read the frames.\<close>

definition upstream_norm ::
  "(jv \<Rightarrow> string) \<Rightarrow> (string \<Rightarrow> jv option) \<Rightarrow> (string \<Rightarrow> string) \<Rightarrow> string \<Rightarrow> (string \<times> string) list \<Rightarrow> norm" where
  "upstream_norm enc dec upper proto fs = fold (norm_event enc dec upper proto) (map frame_event fs) norm_start"

theorem said_normalized:
  assumes "says dec proto fs bs" and "list_all clean_frame fs" and "proto \<in> {''anthropic'', ''openai_responses''}"
  shows "n_chunks (upstream_norm enc dec upper proto fs) = chunks 0 bs" "n_finish (upstream_norm enc dec upper proto fs) \<noteq> []"
    and "normalizeToChatSSE enc dec upper proto (concat (map sse_frame fs), False) =
      (concat (norm_writes enc (upstream_norm enc dec upper proto fs) False), False)"
proof -
  have s: "calls_counted norm_start" by (simp add: calls_counted_def norm_start_def)
  have v: "snd (snd (stream_view proto n)) = n_chunks n" for n
    by (simp add: stream_view_def claude_view_def responses_view_def)
  have "\<exists>t. stream_view proto norm_start = (-1, t, [])"
    by (auto simp: stream_view_def claude_view_def responses_view_def norm_start_def)
  then obtain t where t: "stream_view proto norm_start = (-1, t, [])" by blast
  have f: "stream_view proto (upstream_norm enc dec upper proto fs) = fold piece_step (map (frame_piece dec proto) fs) (-1, t, [])"
    "calls_counted (upstream_norm enc dec upper proto fs)"
    using norm_fold_pieces [OF s assms(2,3), where enc = enc and dec = dec and upper = upper] t by (simp_all add: upstream_norm_def)
  show "n_chunks (upstream_norm enc dec upper proto fs) = chunks 0 bs"
    using v [of "upstream_norm enc dec upper proto fs"] said_chunks [OF assms(1), of "-1" t "[]"] by (simp add: f(1))
  show "n_finish (upstream_norm enc dec upper proto fs) \<noteq> []" using f(2) by (simp add: calls_counted_def)
  show "normalizeToChatSSE enc dec upper proto (concat (map sse_frame fs), False) =
      (concat (norm_writes enc (upstream_norm enc dec upper proto fs) False), False)"
    using assms(3) by (auto simp: normalizeToChatSSE_def scan_named [OF assms(2)] upstream_norm_def)
qed

subsection \<open>Gemini\<close>

text \<open>The blocks of the parts of a candidate; calls are numbered from \<open>k\<close> on.\<close>

fun gemini_blocks :: "(jv \<Rightarrow> string) \<Rightarrow> int \<Rightarrow> fields list \<Rightarrow> block list" where
  "gemini_blocks enc k [] = []"
| "gemini_blocks enc k (p # ps) =
     (if stringValue (fld p ''text'') \<noteq> [] then [TextBlock [stringValue (fld p ''text'')]] else []) @
     (case as_obj (fld p ''functionCall'') of
        None \<Rightarrow> gemini_blocks enc k ps
      | Some fc \<Rightarrow> ToolBlock (geminiSynthID (nat k)) (stringValue (fld fc ''name'')) (enc (part_args fc)) [] #
          gemini_blocks enc (k + 1) ps)"

definition named_call :: "fields \<Rightarrow> bool" where
  "named_call p \<longleftrightarrow> (case as_obj (fld p ''functionCall'') of None \<Rightarrow> True | Some fc \<Rightarrow> \<exists>n. fld fc ''name'' = JStr n)"

theorem gemini_chunks:
  "list_all named_call ps \<Longrightarrow>
   n_chunks (fold (gemini_part_step enc) ps n) = n_chunks n @ chunks (n_toolIndex n + 1) (gemini_blocks enc (n_toolIndex n + 1) ps)"
  by (induction ps arbitrary: n) (auto simp: gemini_part_step_def named_call_def Let_def split: option.splits)

section \<open>Client streams\<close>

subsection \<open>Collecting chunks\<close>

text \<open>A chunk as the map it is read back as.\<close>

definition chunk_map :: "jv \<Rightarrow> fields" where
  "chunk_map c = obj_or_nil c"

fun call_accums :: "int \<Rightarrow> block list \<Rightarrow> toolCallAccum list" where
  "call_accums k [] = []"
| "call_accums k (TextBlock ts # bs) = call_accums k bs"
| "call_accums k (ToolBlock i n a fs # bs) =
     \<lparr>tc_index = k, tc_id = i, tc_name = n, tc_args = a @ concat fs\<rparr> # call_accums (k + 1) bs"

definition nonempty :: "string list \<Rightarrow> string list" where
  "nonempty ts = filter (\<lambda>t. t \<noteq> []) ts"

fun block_texts :: "block \<Rightarrow> string list" where
  "block_texts (TextBlock ts) = ts"
| "block_texts (ToolBlock i n a fs) = []"

lemma collect_content:
  "collect_chunk (chunk_map (content_chunk t)) s = (if t = [] then s else s\<lparr>cs_texts := cs_texts s @ [t]\<rparr>)"
  by (simp add: collect_chunk_def chunk_map_def content_chunk_def chatDeltaChunk_def chat_chunk_def first_obj_def obj_or_nil_def)

lemma collect_start_chunk:
  "collect_chunk (chunk_map (call_start_chunk k (JStr i) (JStr n) a)) s =
     s\<lparr>cs_tools := collect_call (mk [(''index'', jint k), (''id'', JStr i), (''type'', JStr ''function''),
       (''function'', obj [(''name'', JStr n), (''arguments'', JStr a)])]) (cs_tools s)\<rparr>"
  by (simp add: collect_chunk_def chunk_map_def call_start_chunk_def chatDeltaChunk_def chat_chunk_def first_obj_def obj_or_nil_def)

lemma collect_args_chunk:
  "collect_chunk (chunk_map (call_args_chunk k a)) s =
     s\<lparr>cs_tools := collect_call (mk [(''index'', jint k), (''function'', obj [(''arguments'', JStr a)])]) (cs_tools s)\<rparr>"
  by (simp add: collect_chunk_def chunk_map_def call_args_chunk_def chatDeltaChunk_def chat_chunk_def first_obj_def obj_or_nil_def)

lemma collect_new_call:
  "list_all (\<lambda>tc. tc_index tc < k) accs \<Longrightarrow>
   collect_call (mk [(''index'', jint k), (''id'', JStr i), (''type'', JStr ''function''),
       (''function'', obj [(''name'', JStr n), (''arguments'', JStr a)])]) accs =
     accs @ [\<lparr>tc_index = k, tc_id = i, tc_name = n, tc_args = a\<rparr>]"
  by (induction accs) (auto simp: add_call_def Let_def)

lemma collect_more:
  "list_all (\<lambda>tc. tc_index tc < k) accs \<Longrightarrow> tc_index tc = k \<Longrightarrow>
   collect_call (mk [(''index'', jint k), (''function'', obj [(''arguments'', JStr f)])]) (accs @ [tc]) =
     accs @ [tc\<lparr>tc_args := tc_args tc @ f\<rparr>]"
  by (induction accs) (auto simp: add_call_def Let_def)

lemma collect_fragments:
  "list_all (\<lambda>tc. tc_index tc < k) accs \<Longrightarrow> tc_index tc = k \<Longrightarrow> cs_tools s = accs @ [tc] \<Longrightarrow>
   fold collect_chunk (map chunk_map (map (call_args_chunk k) fs)) s =
     s\<lparr>cs_tools := accs @ [tc\<lparr>tc_args := tc_args tc @ concat fs\<rparr>]\<rparr>"
proof (induction fs arbitrary: s tc)
  case (Cons f fs)
  have "collect_chunk (chunk_map (call_args_chunk k f)) s = s\<lparr>cs_tools := accs @ [tc\<lparr>tc_args := tc_args tc @ f\<rparr>]\<rparr>"
    using Cons.prems by (simp add: collect_args_chunk collect_more)
  then show ?case
    using Cons.IH [of "tc\<lparr>tc_args := tc_args tc @ f\<rparr>" "s\<lparr>cs_tools := accs @ [tc\<lparr>tc_args := tc_args tc @ f\<rparr>]\<rparr>"] Cons.prems
    by simp
qed simp

lemma collect_texts:
  "fold collect_chunk (map chunk_map (map content_chunk ts)) s = s\<lparr>cs_texts := cs_texts s @ nonempty ts\<rparr>"
  by (induction ts arbitrary: s) (simp_all add: collect_content nonempty_def)

theorem collect_chunks:
  "list_all (\<lambda>tc. tc_index tc < k) (cs_tools s) \<Longrightarrow>
   fold collect_chunk (map chunk_map (chunks k bs)) s =
     s\<lparr>cs_texts := cs_texts s @ nonempty (concat (map block_texts bs)), cs_tools := cs_tools s @ call_accums k bs\<rparr>"
proof (induction bs arbitrary: k s)
  case Nil
  then show ?case by (simp add: nonempty_def)
next
  case (Cons b bs)
  show ?case
  proof (cases b)
    case (TextBlock ts)
    then show ?thesis
      using Cons by (simp add: collect_texts del: map_map) (simp add: nonempty_def)
  next
    case (ToolBlock i n a fs)
    let ?tc = "\<lparr>tc_index = k, tc_id = i, tc_name = n, tc_args = a\<rparr>"
    have s1: "collect_chunk (chunk_map (call_start_chunk k (JStr i) (JStr n) a)) s = s\<lparr>cs_tools := cs_tools s @ [?tc]\<rparr>"
      by (simp add: collect_start_chunk collect_new_call [OF Cons.prems])
    have s2: "fold collect_chunk (map chunk_map (map (call_args_chunk k) fs)) (s\<lparr>cs_tools := cs_tools s @ [?tc]\<rparr>) =
        s\<lparr>cs_tools := cs_tools s @ [\<lparr>tc_index = k, tc_id = i, tc_name = n, tc_args = a @ concat fs\<rparr>]\<rparr>"
      using collect_fragments [OF Cons.prems, of ?tc "s\<lparr>cs_tools := cs_tools s @ [?tc]\<rparr>" fs] by simp
    have "list_all (\<lambda>tc. tc_index tc < k + 1) (cs_tools s @ [\<lparr>tc_index = k, tc_id = i, tc_name = n, tc_args = a @ concat fs\<rparr>])"
      using Cons.prems by (auto simp: list_all_iff)
    then show ?thesis
      using Cons.IH [of "k + 1" "s\<lparr>cs_tools := cs_tools s @ [\<lparr>tc_index = k, tc_id = i, tc_name = n, tc_args = a @ concat fs\<rparr>]\<rparr>"] s1 s2
      by (simp add: ToolBlock del: map_map)
  qed
qed

subsection \<open>Collecting a stream\<close>

text \<open>A value that survives being written as a frame and read back.\<close>

definition framed :: "(jv \<Rightarrow> string) \<Rightarrow> (string \<Rightarrow> jv option) \<Rightarrow> jv \<Rightarrow> bool" where
  "framed enc dec c \<longleftrightarrow> clean_data (enc c) \<and> enc c \<noteq> ''[DONE]'' \<and> dec (enc c) = Some c"

lemma clean_done: "clean_data ''[DONE]''"
proof -
  have "\<not> space_rune (hd (rune_split ''[DONE]''))" "\<not> space_rune (last (rune_split ''[DONE]''))" by code_simp+
  then show ?thesis by (simp add: clean_data_def anthropic_scan_limit_def)
qed

text \<open>Every chunk is a map.\<close>

lemma chunk_objects: "c \<in> set (chunks k bs) \<Longrightarrow> \<exists>m. c = JObj m"
  by (induction k bs rule: chunks.induct)
     (auto simp: content_chunk_def call_start_chunk_def call_args_chunk_def chatDeltaChunk_def chat_chunk_def obj_def)

lemma final_object: "\<exists>m. final_chunk f i t = JObj m"
  by (simp add: final_chunk_def chat_chunk_def obj_def)

lemma collect_framed:
  assumes "framed enc dec c" "c = JObj m"
  shows "collect_event dec \<lparr>ev_name = [], ev_data = enc c\<rparr> s = collect_chunk (chunk_map c) s"
  using assms by (simp add: collect_event_def framed_def clean_data_def dec_map_def chunk_map_def obj_or_nil_def)

lemma collect_framed_list:
  "list_all (\<lambda>c. framed enc dec c \<and> (\<exists>m. c = JObj m)) cs \<Longrightarrow>
     fold (collect_event dec) (map (\<lambda>c. \<lparr>ev_name = [], ev_data = enc c\<rparr>) cs) s = fold collect_chunk (map chunk_map cs) s"
proof (induction cs arbitrary: s)
  case (Cons c cs)
  then obtain m where "framed enc dec c" "c = JObj m" by auto
  then show ?case using collect_framed [of enc dec c m s] Cons by simp
qed simp

lemma collect_final:
  "f \<noteq> [] \<Longrightarrow> collect_chunk (chunk_map (final_chunk f i t)) s =
     s\<lparr>cs_inputTokens := i, cs_outputTokens := t, cs_finish := f\<rparr>"
  by (simp add: collect_chunk_def chunk_map_def final_chunk_def chat_chunk_def first_obj_def obj_or_nil_def)

text \<open>What a chat stream of these chunks collects to.\<close>

definition stream_result :: "block list \<Rightarrow> string \<Rightarrow> int \<Rightarrow> int \<Rightarrow> collected" where
  "stream_result bs f i t = \<lparr>cs_finish = (if call_accums 0 bs \<noteq> [] \<and> f = ''stop'' then ''tool_calls'' else f),
     cs_inputTokens = i, cs_outputTokens = t, cs_tools = call_accums 0 bs,
     cs_texts = nonempty (concat (map block_texts bs))\<rparr>"

definition norm_framed :: "(jv \<Rightarrow> string) \<Rightarrow> (string \<Rightarrow> jv option) \<Rightarrow> norm \<Rightarrow> bool" where
  "norm_framed enc dec n \<longleftrightarrow>
     list_all (framed enc dec) (n_chunks n @ [final_chunk (n_finish n) (n_inputTokens n) (n_outputTokens n)])"

lemma norm_writes_frames:
  "norm_writes enc n False =
     map data_frame (map enc (n_chunks n @ [final_chunk (n_finish n) (n_inputTokens n) (n_outputTokens n)]) @ [''[DONE]''])"
  by (simp add: norm_writes_def)

theorem collect_normalized:
  assumes "n_chunks n = chunks 0 bs" "n_finish n \<noteq> []" "norm_framed enc dec n"
  shows "collectChatStream dec (concat (norm_writes enc n False), False) =
     (stream_result bs (n_finish n) (n_inputTokens n) (n_outputTokens n), False)"
proof -
  let ?f = "final_chunk (n_finish n) (n_inputTokens n) (n_outputTokens n)"
  let ?cs = "chunks 0 bs @ [?f]"
  have fr: "list_all (framed enc dec) ?cs" using assms(1,3) by (simp add: norm_framed_def)
  then have cl: "list_all clean_data (map enc ?cs @ [''[DONE]''])"
    by (auto simp: list_all_iff framed_def clean_done)
  have ob: "list_all (\<lambda>c. framed enc dec c \<and> (\<exists>m. c = JObj m)) ?cs"
    using fr chunk_objects [of _ 0 bs] final_object by (fastforce simp: list_all_iff)
  let ?evs = "map (\<lambda>d. \<lparr>ev_name = [], ev_data = d\<rparr>) (map enc ?cs @ [''[DONE]''])"
  let ?r = "\<lparr>cs_finish = n_finish n, cs_inputTokens = n_inputTokens n, cs_outputTokens = n_outputTokens n,
     cs_tools = call_accums 0 bs, cs_texts = nonempty (concat (map block_texts bs))\<rparr>"
  have scan: "scanSSE (concat (norm_writes enc n False), False) = (?evs, False)"
    unfolding norm_writes_frames assms(1) by (rule scan_printed [OF cl])
  have "fold (collect_event dec) ?evs collect_start = fold collect_chunk (map chunk_map ?cs) collect_start"
    using collect_framed_list [OF ob, of collect_start] by (simp add: comp_def collect_event_def)
  also have "\<dots> = ?r"
    using collect_chunks [of 0 collect_start bs] by (simp add: collect_final [OF assms(2)]) (simp add: collect_start_def)
  finally have fin: "fold (collect_event dec) ?evs collect_start = ?r" .
  show ?thesis
    unfolding collectChatStream_def scan prod.case Let_def fin by (simp add: stream_result_def)
qed

section \<open>What the client reads\<close>

lemma concat_nonempty_texts: "concat (nonempty (concat (map block_texts bs))) = concat (map block_says bs)"
proof -
  have "concat (nonempty ts) = concat ts" for ts by (simp add: nonempty_def concat_nonempty)
  moreover have "concat (concat (map block_texts bs)) = concat (map block_says bs)"
  proof (induction bs)
    case (Cons b bs)
    then show ?case by (cases b) simp_all
  qed simp
  ultimately show ?thesis by simp
qed

lemma accum_calls:
  "map (\<lambda>tc. Called (JStr (tc_id tc)) (tc_name tc) (tool_input dec (tc_args tc))) (call_accums k bs) = concat (map (block_calls dec) bs)"
proof (induction bs arbitrary: k)
  case (Cons b bs)
  then show ?case by (cases b) simp_all
qed simp

subsection \<open>Responses\<close>

text \<open>The response in the last event of a Responses stream.\<close>

definition completed_response :: "jv \<Rightarrow> fields" where
  "completed_response payload = obj_or_nil (fld (obj_or_nil payload) ''response'')"

theorem responses_stream_reads:
  "responses_reply_turns enc dec (completed_response (responses_final_payload (stream_result bs f i t) m)) = blocks_turns dec bs"
proof -
  let ?s = "stream_result bs f i t"
  let ?item = "\<lambda>tc. [(''type'', JStr ''function_call''), (''call_id'', JStr (tc_id tc)),
                     (''name'', JStr (tc_name tc)), (''arguments'', JStr (tc_args tc))]"
  have r: "output_items (completed_response (responses_final_payload ?s m)) =
      objs ((if concat (cs_texts ?s) \<noteq> [] then [completed_message (concat (cs_texts ?s))] else []) @ map (\<lambda>tc. obj (?item tc)) (cs_tools ?s))"
    by (simp add: output_items_def completed_response_def responses_final_payload_def obj_or_nil_def responses_output_def Let_def)
  have o: "fld (completed_response (responses_final_payload ?s m)) ''output_text'' = JNull"
    by (simp add: completed_response_def responses_final_payload_def obj_or_nil_def)
  have f: "filter (has_type ''message'') (map (\<lambda>tc. mk (?item tc)) tcs) = []"
    "filter (has_type ''function_call'') (map (\<lambda>tc. mk (?item tc)) tcs) = map (\<lambda>tc. mk (?item tc)) tcs" for tcs
    by (induction tcs) (simp_all add: has_type_def type_of_def)
  define T where "T = concat (map block_says bs)"
  have t: "concat (cs_texts ?s) = T" "cs_tools ?s = call_accums 0 bs"
    by (simp_all add: stream_result_def concat_nonempty_texts T_def)
  have c: "map (item_called dec \<circ> (\<lambda>tc. mk (?item tc))) (call_accums 0 bs) = concat (map (block_calls dec) bs)"
    using accum_calls [of dec 0 bs] by (simp add: comp_def item_called_def)
  show ?thesis
    unfolding responses_reply_turns_def r o Let_def t blocks_turns_def T_def [symmetric]
    by (simp add: f c completed_message_def has_type_def type_of_def part_text_def)
qed

subsection \<open>Gemini\<close>

text \<open>A Gemini client appends the parts of all events.\<close>

definition gemini_stream_turns :: "jv list \<Rightarrow> dialogue list" where
  "gemini_stream_turns payloads =
     (let parts = concat (map (\<lambda>p. candidate_parts (obj_or_nil p)) payloads) in
      said AssistantText (parts_text parts) @
      map (\<lambda>fc. Called JNull (stringValue (fld fc ''name'')) (part_args fc)) (part_calls parts))"

lemma parts_text_append: "parts_text (xs @ ys) = parts_text xs @ parts_text ys"
  by (simp add: parts_text_def)

lemma part_calls_append: "part_calls (xs @ ys) = part_calls xs @ part_calls ys"
  by (simp add: part_calls_def List.map_filter_def)

lemma gemini_text_parts: "candidate_parts (obj_or_nil (gemini_text_payload t)) = [mk [(''text'', JStr t)]]"
  by (simp add: candidate_parts_def gemini_text_payload_def obj_or_nil_def first_obj_def gemini_content_def gemini_text_def)

theorem gemini_stream_reads:
  assumes "list_all (\<lambda>tc. tool_input dec (tc_args tc) \<noteq> JNull) (call_accums 0 bs)"
  shows "gemini_stream_turns (map gemini_text_payload (cs_texts (stream_result bs f i t)) @
      [gemini_final_payload dec (stream_result bs f i t) m]) = map without_id (blocks_turns dec bs)"
proof -
  let ?s = "stream_result bs f i t"
  let ?call = "\<lambda>tc. [(''functionCall'', obj [(''name'', JStr (tc_name tc)), (''args'', tool_input dec (tc_args tc))])]"
  have a: "concat (map (\<lambda>p. candidate_parts (obj_or_nil p)) (map gemini_text_payload ts)) = map (\<lambda>t. mk [(''text'', JStr t)]) ts" for ts
    by (induction ts) (simp_all add: gemini_text_parts)
  have b: "candidate_parts (obj_or_nil (gemini_final_payload dec ?s m)) = map (\<lambda>tc. mk (?call tc)) (cs_tools ?s)"
    by (simp add: candidate_parts_def gemini_final_payload_def obj_or_nil_def first_obj_def function_call_part_def)
  have x: "parts_text (map (\<lambda>t. mk [(''text'', JStr t)]) ts) = concat ts" "part_calls (map (\<lambda>t. mk [(''text'', JStr t)]) ts) = []" for ts
    by (induction ts) simp_all
  have y: "parts_text (map (\<lambda>tc. mk (?call tc)) tcs) = []"
    "part_calls (map (\<lambda>tc. mk (?call tc)) tcs) = map (\<lambda>tc. mk [(''name'', JStr (tc_name tc)), (''args'', tool_input dec (tc_args tc))]) tcs" for tcs
    by (induction tcs) (simp_all add: parts_text_def part_calls_def List.map_filter_def)
  have z: "map (\<lambda>tc. Called JNull (tc_name tc) (part_args (mk [(''name'', JStr (tc_name tc)), (''args'', tool_input dec (tc_args tc))])))
      (call_accums 0 bs) = map without_id (concat (map (block_calls dec) bs))"
    using assms unfolding accum_calls [of dec 0 bs, symmetric] by (auto simp: part_args_def list_all_iff)
  have t: "concat (cs_texts ?s) = concat (map block_says bs)" "cs_tools ?s = call_accums 0 bs"
    by (simp_all add: stream_result_def concat_nonempty_texts)
  show ?thesis
    unfolding gemini_stream_turns_def map_append concat_append a Let_def blocks_turns_def
    by (simp add: b x y parts_text_append part_calls_append t comp_def z)
qed

end
