(* ===== verification/Stream_Writer.thy ===== *)
theory Stream_Writer
  imports Stream_Content
begin

text \<open>
  What a Claude client reads from the stream that is written for it, and the streams of all pairs of formats together.
\<close>

section \<open>Reading Anthropic events\<close>

text \<open>The text so far and the calls so far, each with its id, name, and arguments; deltas go to the last call.\<close>

type_synonym read_state = "string \<times> (string \<times> string \<times> string) list"

fun add_args :: "string \<Rightarrow> (string \<times> string \<times> string) list \<Rightarrow> (string \<times> string \<times> string) list" where
  "add_args a [] = []"
| "add_args a [(i, n, b)] = [(i, n, b @ a)]"
| "add_args a (c # cs) = c # add_args a cs"

definition read_event :: "string \<times> fields \<Rightarrow> read_state \<Rightarrow> read_state" where
  "read_event e s =
     (case e of (name, p) \<Rightarrow>
        let b = obj_or_nil (fld p ''content_block''); d = obj_or_nil (fld p ''delta'') in
        if name = ''content_block_start'' \<and> type_of b = ''tool_use'' then
          (fst s, snd s @ [(stringValue (fld b ''id''), stringValue (fld b ''name''), [])])
        else if name = ''content_block_delta'' \<and> type_of d = ''text_delta'' then
          (fst s @ stringValue (fld d ''text''), snd s)
        else if name = ''content_block_delta'' \<and> type_of d = ''input_json_delta'' then
          (fst s, add_args (stringValue (fld d ''partial_json'')) (snd s))
        else s)"

definition read_events :: "(string \<times> fields) list \<Rightarrow> read_state" where
  "read_events evs = fold read_event evs ([], [])"

definition event_turns :: "(string \<Rightarrow> jv option) \<Rightarrow> (string \<times> fields) list \<Rightarrow> dialogue list" where
  "event_turns dec evs =
     (case read_events evs of (t, cs) \<Rightarrow>
        said AssistantText t @ map (\<lambda>(i, n, a). Called (JStr i) n (tool_input dec a)) cs)"

definition reads :: "writer \<Rightarrow> read_state" where
  "reads w = read_events (w_events w)"

lemma add_args_last [simp]: "add_args a (cs @ [(i, n, b)]) = cs @ [(i, n, b @ a)]"
proof (induction cs)
  case (Cons c cs)
  then show ?case by (cases c; cases cs) simp_all
qed simp

lemma reads_event: "reads (event n kvs w) = read_event (n, mk ((''type'', JStr n) # kvs)) (reads w)"
  by (simp add: reads_def event_def read_events_def)

lemma reads_cong [simp]:
  "reads (w\<lparr>w_started := a\<rparr>) = reads w" "reads (w\<lparr>w_blockOpen := a\<rparr>) = reads w" "reads (w\<lparr>w_blockIndex := k\<rparr>) = reads w"
  "reads (w\<lparr>w_blockIsTool := a\<rparr>) = reads w" "reads (w\<lparr>w_currentToolIdx := k\<rparr>) = reads w"
  "reads (w\<lparr>w_stopReason := s\<rparr>) = reads w" "reads (w\<lparr>w_model := s\<rparr>) = reads w"
  "reads (w\<lparr>w_inputTokens := v\<rparr>) = reads w" "reads (w\<lparr>w_outputTokens := v\<rparr>) = reads w"
  by (simp_all add: reads_def)

lemma reads_startMessage [simp]: "reads (startMessage i w) = reads w"
  by (simp add: startMessage_def reads_event read_event_def Let_def obj_or_nil_def)

lemma startMessage_fields [simp]:
  "w_currentToolIdx (startMessage i w) = w_currentToolIdx w" "w_blockOpen (startMessage i w) = w_blockOpen w"
  "w_blockIsTool (startMessage i w) = w_blockIsTool w"
  by (simp_all add: startMessage_def)

lemma reads_closeBlock [simp]: "reads (closeBlock w) = reads w"
  by (simp add: closeBlock_def reads_event read_event_def Let_def obj_or_nil_def)

lemma closeBlock_fields [simp]: "w_currentToolIdx (closeBlock w) = w_currentToolIdx w"
  by (simp add: closeBlock_def)

lemma reads_openTextBlock [simp]:
  "reads (openTextBlock w) = reads w" "w_currentToolIdx (openTextBlock w) = w_currentToolIdx w"
  by (simp_all add: openTextBlock_def open_block_def reads_event read_event_def Let_def obj_or_nil_def type_of_def)

lemma reads_write_text:
  "reads (write_text t w) = (fst (reads w) @ t, snd (reads w))" "w_currentToolIdx (write_text t w) = w_currentToolIdx w"
  by (simp_all add: write_text_def block_delta_def reads_event read_event_def Let_def obj_or_nil_def type_of_def)

lemma write_content:
  "write_chat_chunk i (chunk_map (content_chunk t)) w = write_text t (startMessage i w)"
  by (simp add: write_chat_chunk_def chunk_map_def content_chunk_def chatDeltaChunk_def chat_chunk_def first_obj_def
      obj_or_nil_def write_choice_def Let_def fld_def)

lemma write_text_empty [simp]: "write_text [] w = w"
  by (simp add: write_text_def)

lemma write_start_chunk:
  "write_chat_chunk i (chunk_map (call_start_chunk k ci cn a)) w =
     write_call (mk [(''index'', jint k), (''id'', ci), (''type'', JStr ''function''),
       (''function'', obj [(''name'', cn), (''arguments'', JStr a)])]) (startMessage i w)"
  by (simp add: write_chat_chunk_def chunk_map_def call_start_chunk_def chatDeltaChunk_def chat_chunk_def first_obj_def
      obj_or_nil_def write_choice_def Let_def)

lemma write_args_chunk:
  "write_chat_chunk i (chunk_map (call_args_chunk k a)) w =
     write_call (mk [(''index'', jint k), (''function'', obj [(''arguments'', JStr a)])]) (startMessage i w)"
  by (simp add: write_chat_chunk_def chunk_map_def call_args_chunk_def chatDeltaChunk_def chat_chunk_def first_obj_def
      obj_or_nil_def write_choice_def Let_def)

text \<open>The writer is inside the block of call \<open>k\<close>.\<close>

definition in_call :: "int \<Rightarrow> writer \<Rightarrow> bool" where
  "in_call k w \<longleftrightarrow> w_currentToolIdx w = k \<and> w_blockOpen w \<and> w_blockIsTool w"

lemma open_block_fields [simp]:
  "w_currentToolIdx (open_block t b w) = w_currentToolIdx w" "w_blockOpen (open_block t b w)" "w_blockIsTool (open_block t b w) = t"
  by (simp_all add: open_block_def)

lemma block_delta_fields [simp]:
  "w_currentToolIdx (block_delta d w) = w_currentToolIdx w" "w_blockOpen (block_delta d w) = w_blockOpen w"
  "w_blockIsTool (block_delta d w) = w_blockIsTool w"
  by (simp_all add: block_delta_def)

lemma reads_args: "reads (block_delta [(''type'', JStr ''input_json_delta''), (''partial_json'', JStr a)] w) =
    (fst (reads w), add_args a (snd (reads w)))"
  by (simp add: block_delta_def reads_event read_event_def Let_def obj_or_nil_def type_of_def)

lemma reads_open_call: "reads (open_block True (obj [(''type'', JStr ''tool_use''), (''id'', JStr i), (''name'', JStr n), (''input'', obj [])]) w) =
    (fst (reads w), snd (reads w) @ [(i, n, [])])"
  by (simp add: open_block_def reads_event read_event_def Let_def obj_or_nil_def type_of_def)

lemma write_new_call:
  assumes "w_currentToolIdx w < k" "i \<noteq> []"
  shows "reads (write_call (mk [(''index'', jint k), (''id'', JStr i), (''type'', JStr ''function''),
       (''function'', obj [(''name'', JStr n), (''arguments'', JStr a)])]) w) =
     (fst (reads w), snd (reads w) @ [(i, n, a)])"
    and "in_call k (write_call (mk [(''index'', jint k), (''id'', JStr i), (''type'', JStr ''function''),
       (''function'', obj [(''name'', JStr n), (''arguments'', JStr a)])]) w)"
  using assms
  by (simp_all add: write_call_def Let_def call_name_def call_function_def obj_or_nil_def reads_args reads_open_call in_call_def)

lemma write_more:
  assumes "in_call k w" "snd (reads w) = cs @ [(i, n, b)]"
  shows "reads (write_call (mk [(''index'', jint k), (''function'', obj [(''arguments'', JStr a)])]) w) =
     (fst (reads w), cs @ [(i, n, b @ a)])"
    and "in_call k (write_call (mk [(''index'', jint k), (''function'', obj [(''arguments'', JStr a)])]) w)"
  using assms
  by (simp_all add: write_call_def Let_def call_function_def obj_or_nil_def reads_args in_call_def prod_eq_iff)

lemma write_fragments:
  "in_call k w \<Longrightarrow> snd (reads w) = cs @ [(i, n, b)] \<Longrightarrow>
   reads (fold (write_chat_chunk mid) (map chunk_map (map (call_args_chunk k) fs)) w) = (fst (reads w), cs @ [(i, n, b @ concat fs)]) \<and>
   in_call k (fold (write_chat_chunk mid) (map chunk_map (map (call_args_chunk k) fs)) w)"
proof (induction fs arbitrary: w b)
  case Nil
  then show ?case by (simp add: prod_eq_iff)
next
  case (Cons f fs)
  let ?w = "write_chat_chunk mid (chunk_map (call_args_chunk k f)) w"
  have "in_call k (startMessage mid w)" "snd (reads (startMessage mid w)) = cs @ [(i, n, b)]"
    using Cons.prems by (simp_all add: in_call_def)
  from write_more [OF this] have "in_call k ?w" "reads ?w = (fst (reads w), cs @ [(i, n, b @ f)])"
    by (simp_all add: write_args_chunk)
  with Cons.IH [of ?w "b @ f"] show ?case by simp
qed

lemma write_texts:
  "reads (fold (write_chat_chunk mid) (map chunk_map (map content_chunk ts)) w) = (fst (reads w) @ concat ts, snd (reads w)) \<and>
   w_currentToolIdx (fold (write_chat_chunk mid) (map chunk_map (map content_chunk ts)) w) = w_currentToolIdx w"
  by (induction ts arbitrary: w) (simp_all add: write_content reads_write_text)

fun read_calls :: "block \<Rightarrow> (string \<times> string \<times> string) list" where
  "read_calls (TextBlock ts) = []"
| "read_calls (ToolBlock i n a fs) = [(i, n, a @ concat fs)]"

fun has_id :: "block \<Rightarrow> bool" where
  "has_id (TextBlock ts) = True"
| "has_id (ToolBlock i n a fs) = (i \<noteq> [])"

theorem write_chunks:
  "w_currentToolIdx w < k \<Longrightarrow> list_all has_id bs \<Longrightarrow>
   reads (fold (write_chat_chunk mid) (map chunk_map (chunks k bs)) w) =
     (fst (reads w) @ concat (map block_says bs), snd (reads w) @ concat (map read_calls bs))"
proof (induction bs arbitrary: k w)
  case (Cons b bs)
  show ?case
  proof (cases b)
    case (TextBlock ts)
    let ?w = "fold (write_chat_chunk mid) (map chunk_map (map content_chunk ts)) w"
    have "w_currentToolIdx ?w < k" "reads ?w = (fst (reads w) @ concat ts, snd (reads w))"
      using write_texts [of mid ts w] Cons.prems(1) by simp_all
    with Cons.IH [of ?w k] Cons.prems(2) show ?thesis by (simp add: TextBlock del: map_map)
  next
    case (ToolBlock i n a fs)
    let ?w1 = "write_chat_chunk mid (chunk_map (call_start_chunk k (JStr i) (JStr n) a)) w"
    let ?w = "fold (write_chat_chunk mid) (map chunk_map (map (call_args_chunk k) fs)) ?w1"
    have "i \<noteq> []" using Cons.prems(2) ToolBlock by simp
    with write_new_call [of "startMessage mid w" k i n a] Cons.prems(1)
    have "in_call k ?w1" "reads ?w1 = (fst (reads w), snd (reads w) @ [(i, n, a)])"
      by (simp_all add: write_start_chunk)
    with write_fragments [of k ?w1 "snd (reads w)" i n a mid fs]
    have "in_call k ?w" "reads ?w = (fst (reads w), snd (reads w) @ [(i, n, a @ concat fs)])" by simp_all
    with Cons.IH [of ?w "k + 1"] Cons.prems(2) show ?thesis by (simp add: ToolBlock in_call_def del: map_map)
  qed
qed simp

section \<open>The stream for a Claude client\<close>

lemma write_final:
  "reads (write_chat_chunk mid (chunk_map (final_chunk f i t)) w) = reads w"
  by (simp add: write_chat_chunk_def chunk_map_def final_chunk_def chat_chunk_def first_obj_def obj_or_nil_def
      write_choice_def Let_def fld_def)

lemma reads_finish: "reads (finish_message mid w) = reads w"
  by (simp add: finish_message_def Let_def reads_event read_event_def)

lemma write_frame:
  assumes "framed enc dec c" "c = JObj m"
  shows "write_line dec mid (data_line (enc c)) w = write_chat_chunk mid (chunk_map c) w"
  using assms by (simp add: write_line_def framed_def line_of_frame clean_data_def dec_map_def chunk_map_def obj_or_nil_def)

lemma write_empty_line: "write_line dec mid [] w = w"
  by (simp add: write_line_def line_of_frame)

lemma write_frames:
  "list_all (\<lambda>c. framed enc dec c \<and> (\<exists>m. c = JObj m)) cs \<Longrightarrow>
     fold (write_line dec mid) (concat (map (\<lambda>c. [data_line (enc c), []]) cs)) w = fold (write_chat_chunk mid) (map chunk_map cs) w"
proof (induction cs arbitrary: w)
  case (Cons c cs)
  then obtain m where "framed enc dec c" "c = JObj m" by auto
  then show ?case using write_frame [of enc dec c m mid w] Cons by (simp add: write_empty_line)
qed simp

theorem anthropic_stream_reads:
  assumes "n_chunks n = chunks 0 bs" "norm_framed enc dec n" "list_all has_id bs"
  shows "event_turns dec (fst (anthropic_events dec (concat (norm_writes enc n False), False) m mid)) = blocks_turns dec bs"
proof -
  let ?f = "final_chunk (n_finish n) (n_inputTokens n) (n_outputTokens n)"
  let ?cs = "chunks 0 bs @ [?f]"
  have fr: "list_all (framed enc dec) ?cs" using assms(1,2) by (simp add: norm_framed_def)
  then have cl: "list_all clean_data (map enc ?cs @ [''[DONE]''])"
    by (auto simp: list_all_iff framed_def clean_done)
  have ob: "list_all (\<lambda>c. framed enc dec c \<and> (\<exists>m. c = JObj m)) ?cs"
    using fr chunk_objects [of _ 0 bs] final_object by (fastforce simp: list_all_iff)
  let ?ls = "concat (map (\<lambda>d. [data_line d, []]) (map enc ?cs @ [''[DONE]'']))"
  have scan: "scan_lines anthropic_scan_limit (concat (norm_writes enc n False), False) = (?ls, False)"
    unfolding norm_writes_frames assms(1) by (rule scan_frame_lines [OF cl order_refl])
  have "write_line dec mid (data_line ''[DONE]'') w = w" for w
    by (simp add: write_line_def line_of_frame(1) [OF clean_done])
  then have "fold (write_line dec mid) ?ls w = fold (write_line dec mid) (concat (map (\<lambda>c. [data_line (enc c), []]) ?cs)) w" for w
    by (simp add: write_empty_line comp_def)
  then have ev: "fst (anthropic_events dec (concat (norm_writes enc n False), False) m mid) =
      w_events (finish_message mid (fold (write_chat_chunk mid) (map chunk_map ?cs) (writer_start m)))"
    unfolding anthropic_events_def scan by (simp only: prod.case Let_def write_frames [OF ob] if_False fst_conv)
  have "reads (fold (write_chat_chunk mid) (map chunk_map ?cs) (writer_start m)) =
      (concat (map block_says bs), concat (map read_calls bs))"
    using write_chunks [of "writer_start m" 0 bs mid] assms(3)
    by (simp add: write_final) (simp add: writer_start_def reads_def read_events_def)
  then have "read_events (fst (anthropic_events dec (concat (norm_writes enc n False), False) m mid)) =
      (concat (map block_says bs), concat (map read_calls bs))"
    unfolding ev by (simp add: reads_def [symmetric] reads_finish)
  moreover have "map (\<lambda>(i, n, a). Called (JStr i) n (tool_input dec a)) (concat (map read_calls bs)) = concat (map (block_calls dec) bs)"
  proof (induction bs)
    case (Cons b bs)
    then show ?case by (cases b) simp_all
  qed simp
  ultimately show ?thesis by (simp add: event_turns_def blocks_turns_def)
qed

end
