(* ===== verification/Hub_Properties.thy ===== *)
theory Hub_Properties
  imports Stream_Writer Stream_Grammar Gemini_Correctness Reply_Correctness
begin

text \<open>
  The properties of the translation hub: a request says the same to the upstream as the client said, a reply says the
  same to the client, whole or in a stream, and what is written is well formed.
\<close>

section \<open>Requests and replies\<close>

definition demo_enc :: "jv \<Rightarrow> string" where
  "demo_enc v = ''{}''"

definition demo_dec :: "string \<Rightarrow> jv option" where
  "demo_dec s = (if s = ''{}'' then Some (JObj []) else None)"

definition demo_body :: fields where
  "demo_body = mk [(''model'', JStr ''m''), (''instructions'', JStr ''be brief''), (''input'', JArr
     [obj [(''type'', JStr ''message''), (''role'', JStr ''user''), (''content'', JStr ''hi'')],
      obj [(''type'', JStr ''function_call''), (''call_id'', JStr ''c1''), (''name'', JStr ''ls''), (''arguments'', JStr ''{}'')],
      obj [(''type'', JStr ''function_call_output''), (''call_id'', JStr ''c1''), (''output'', JStr ''ok'')]])]"

text \<open>
  C28. Between any two of the chat, Anthropic and Responses formats a translated request says to the provider what the
  client said: the same texts, tool calls with their ids, names and arguments, and tool results, in the same order, and
  the same system prompt.
\<close>

theorem request_keeps_conversation:
  assumes "client \<in> set hub_protocols" and "upstream \<in> set hub_protocols" and "body_ok enc dec client body"
    and "decodeToIR enc client body = Inr ir"
    and "encodeFromIR dec upper upstream (put ''model'' model ir) = Inr out"
  shows "conversation enc dec upstream out = conversation enc dec client body \<and> system_of upstream out = system_of client body"
  by (rule hub_preserves [OF assms])

lemma request_keeps_conversation_witness:
  "conversation demo_enc demo_dec ''anthropic''
     (chatToAnthropicRequest demo_dec (put ''model'' (JStr ''up'') (responsesToChatRequest demo_enc demo_body))) =
     [UserText ''hi'', Called (JStr ''c1'') ''ls'' (JObj []), Returned (JStr ''c1'') ''ok'']"
proof -
  let ?ir = "responsesToChatRequest demo_enc demo_body"
  have ok: "body_ok demo_enc demo_dec ''openai_responses'' demo_body" by code_simp
  have c: "conversation demo_enc demo_dec ''openai_responses'' demo_body =
      [UserText ''hi'', Called (JStr ''c1'') ''ls'' (JObj []), Returned (JStr ''c1'') ''ok'']" by code_simp
  have "conversation demo_enc demo_dec ''anthropic'' (chatToAnthropicRequest demo_dec (put ''model'' (JStr ''up'') ?ir)) =
      conversation demo_enc demo_dec ''openai_responses'' demo_body"
    using request_keeps_conversation [of "''openai_responses''" "''anthropic''" demo_enc demo_dec demo_body ?ir id "JStr ''up''"] ok
    by (simp add: hub_protocols_def decodeToIR_def encodeFromIR_def)
  then show ?thesis unfolding c .
qed

definition demo_reply :: fields where
  "demo_reply = mk [(''id'', JStr ''r1''), (''output'', JArr
     [obj [(''type'', JStr ''message''), (''content'', JArr [obj [(''type'', JStr ''output_text''), (''text'', JStr ''done'')]])],
      obj [(''type'', JStr ''function_call''), (''call_id'', JStr ''c2''), (''name'', JStr ''ls''), (''arguments'', JStr ''{}'')]])]"

text \<open>
  C29. Between any two of the chat, Anthropic and Responses formats a translated reply gives the client the text and the
  tool calls of the provider's reply.
\<close>

theorem reply_keeps_turns:
  assumes "client \<in> set hub_protocols" and "upstream \<in> set hub_protocols" and "reply_ok enc dec upstream resp"
    and "upstreamRespToIR enc upper upstream resp = Inr ir" and "irRespToClient dec client ir m = Inr out"
  shows "reply_turns enc dec client out = reply_turns enc dec upstream resp"
  by (rule hub_reply [OF assms])

lemma reply_keeps_turns_witness:
  "reply_turns demo_enc demo_dec ''anthropic'' (chatToAnthropicResponse demo_dec (responsesRespToChat demo_enc demo_reply) ''m'') =
     [AssistantText ''done'', Called (JStr ''c2'') ''ls'' (JObj [])]"
proof -
  let ?ir = "responsesRespToChat demo_enc demo_reply"
  have ok: "reply_ok demo_enc demo_dec ''openai_responses'' demo_reply" by code_simp
  have c: "reply_turns demo_enc demo_dec ''openai_responses'' demo_reply = [AssistantText ''done'', Called (JStr ''c2'') ''ls'' (JObj [])]"
    by code_simp
  have "reply_turns demo_enc demo_dec ''anthropic'' (chatToAnthropicResponse demo_dec ?ir ''m'') =
      reply_turns demo_enc demo_dec ''openai_responses'' demo_reply"
    using reply_keeps_turns [of "''anthropic''" "''openai_responses''" demo_enc demo_dec demo_reply id ?ir "''m''"] ok
    by (simp add: hub_protocols_def upstreamRespToIR_def irRespToClient_def)
  then show ?thesis unfolding c .
qed

section \<open>Streams\<close>

text \<open>
  A stream is its frames, each with an event name or none and with data that may be any JSON or none. It says a list of
  blocks when the fragments its events carry are those of the blocks, whatever other events stand between them
  (\<open>says\<close>). \<open>read_back\<close> is what is asked of the JSON library: the chunks the translator writes for the frames are printed
  on a line and read back as they were.
\<close>

definition stream_text :: "(string \<times> string) list \<Rightarrow> string" where
  "stream_text fs = concat (map sse_frame fs)"

definition read_back ::
  "(jv \<Rightarrow> string) \<Rightarrow> (string \<Rightarrow> jv option) \<Rightarrow> (string \<Rightarrow> string) \<Rightarrow> string \<Rightarrow> (string \<times> string) list \<Rightarrow> bool" where
  "read_back enc dec upper proto fs \<longleftrightarrow> norm_framed enc dec (upstream_norm enc dec upper proto fs)"

text \<open>The deltas a Responses client is sent.\<close>

definition delta_text :: "jv \<Rightarrow> string" where
  "delta_text p = stringValue (fld (obj_or_nil p) ''delta'')"

lemma sent_deltas: "concat (map delta_text (map responses_text_payload ts)) = concat ts"
proof -
  have "delta_text (responses_text_payload t) = t" for t
    by (simp add: delta_text_def responses_text_payload_def obj_or_nil_def)
  then show ?thesis by (simp add: comp_def)
qed

text \<open>
  C31. The stream of a Claude provider, translated for a Responses or a Gemini client, ends without an error and gives the
  client the text and the tool calls of the stream, the arguments put together from their fragments. The stream may
  name its events or not, and may carry pings, block stops, counts, thinking and any event the protocol adds; a call
  starts without arguments and its fragments come before the next block. Chunks are read back as they were printed, and
  a Gemini client, which has no calls without arguments, is not given the arguments null.
\<close>

theorem claude_stream_translated:
  assumes "list_all clean_frame fs" and "says dec ''anthropic'' fs bs" and "read_back enc dec upper ''anthropic'' fs"
    and "list_all (\<lambda>tc. tool_input dec (tc_args tc) \<noteq> JNull) (call_accums 0 bs)"
  shows "(\<exists>deltas final.
       streamUpstreamToClient enc dec upper ''anthropic'' ''openai_responses'' (stream_text fs, False) m mid =
         (map (\<lambda>p. event_frame ''response.output_text.delta'' (enc p)) deltas @
            [event_frame ''response.completed'' (enc final)], False) \<and>
       concat (map delta_text deltas) = concat (map block_says bs) \<and>
       responses_reply_turns enc dec (completed_response final) = blocks_turns dec bs) \<and>
    (\<exists>payloads.
       streamUpstreamToClient enc dec upper ''anthropic'' ''gemini'' (stream_text fs, False) m mid =
         (map (\<lambda>p. data_frame (enc p)) payloads, False) \<and>
       gemini_stream_turns payloads = map without_id (blocks_turns dec bs))"
proof -
  let ?n = "upstream_norm enc dec upper ''anthropic'' fs"
  let ?r = "stream_result bs (n_finish ?n) (n_inputTokens ?n) (n_outputTokens ?n)"
  note n = said_normalized [OF assms(2,1), where enc = enc and upper = upper, simplified]
  have col: "collectChatStream dec (concat (norm_writes enc ?n False), False) = (?r, False)"
    by (rule collect_normalized) (use n(1,2) assms(3) in \<open>simp_all add: read_back_def\<close>)
  have 1: "streamUpstreamToClient enc dec upper ''anthropic'' ''openai_responses'' (stream_text fs, False) m mid =
      (map (\<lambda>p. event_frame ''response.output_text.delta'' (enc p)) (map responses_text_payload (cs_texts ?r)) @
         [event_frame ''response.completed'' (enc (responses_final_payload ?r m))], False)"
    by (simp add: streamUpstreamToClient_def stream_text_def n(3) chatStreamToResponsesSSE_def col comp_def)
  have 2: "streamUpstreamToClient enc dec upper ''anthropic'' ''gemini'' (stream_text fs, False) m mid =
      (map (\<lambda>p. data_frame (enc p)) (map gemini_text_payload (cs_texts ?r) @ [gemini_final_payload dec ?r m]), False)"
    by (simp add: streamUpstreamToClient_def stream_text_def n(3) chatStreamToGeminiSSE_def col comp_def)
  have 3: "concat (map delta_text (map responses_text_payload (cs_texts ?r))) = concat (map block_says bs)"
    unfolding sent_deltas by (simp add: stream_result_def concat_nonempty_texts)
  show ?thesis
    using 1 2 3 responses_stream_reads gemini_stream_reads [OF assms(4)] by blast
qed

text \<open>A codec for finitely many values: the i-th one is printed as i + 1 letters.\<close>

definition numbered :: "jv list \<Rightarrow> (jv \<times> string) list" where
  "numbered vs = zip vs (map (\<lambda>i. replicate (Suc i) (CHR ''x'')) [0..<length vs])"

definition tabled_enc :: "jv list \<Rightarrow> jv \<Rightarrow> string" where
  "tabled_enc vs v = (case find (\<lambda>(w, _). w = v) (numbered vs) of Some (_, s) \<Rightarrow> s | None \<Rightarrow> [])"

definition tabled_dec :: "jv list \<Rightarrow> string \<Rightarrow> jv option" where
  "tabled_dec vs s = map_option fst (find (\<lambda>(_, t). t = s) (numbered vs))"

lemma rune_split_x: "rune_split (replicate n (CHR ''x'')) = replicate n ''x''"
proof (induction n)
  case 0 then show ?case by simp
next
  case (Suc n) then show ?case by (simp add: rune_split_ascii byte_of_def)
qed

lemma clean_x: "i < 100 \<Longrightarrow> clean_data (replicate (Suc i) (CHR ''x''))"
proof -
  assume i: "i < 100"
  have sp: "\<not> space_rune ''x''" by code_simp
  have hd: "hd (rune_split (replicate (Suc i) (CHR ''x''))) = ''x''" "last (rune_split (replicate (Suc i) (CHR ''x''))) = ''x''"
    unfolding rune_split_x by (simp_all add: last_replicate del: replicate_Suc)
  show ?thesis using i sp hd
    by (auto simp: clean_data_def anthropic_scan_limit_def)
qed

lemma framed_tabled:
  assumes "v \<in> set vs" and "length vs < 100"
  shows "framed (tabled_enc vs) (tabled_dec vs) v"
proof -
  have nth: "(numbered vs) ! i = (vs ! i, replicate (Suc i) (CHR ''x''))" if "i < length vs" for i
    using that by (simp add: numbered_def)
  have len: "length (numbered vs) = length vs" by (simp add: numbered_def)
  obtain j where j: "j < length vs" "vs ! j = v" using assms(1) by (auto simp: in_set_conv_nth)
  then have "(v, replicate (Suc j) (CHR ''x'')) \<in> set (numbered vs)" using nth [of j] len by (metis nth_mem)
  then have "find (\<lambda>(w, _). w = v) (numbered vs) \<noteq> None" unfolding find_None_iff by fastforce
  then obtain p where p: "find (\<lambda>(w, _). w = v) (numbered vs) = Some p" by blast
  then obtain i where i: "i < length vs" and pi: "p = (v, replicate (Suc i) (CHR ''x''))"
    using nth len by (auto simp: find_Some_iff)
  have "find (\<lambda>(_, t). t = replicate (Suc i) (CHR ''x'')) (numbered vs) = Some p"
    unfolding find_Some_iff using i pi nth len p
    by (intro exI [of _ i]) (auto simp: find_Some_iff replicate_eq_replicate)
  moreover have "tabled_enc vs v = replicate (Suc i) (CHR ''x'')" using p pi by (simp add: tabled_enc_def)
  moreover have "replicate (Suc i) (CHR ''x'') \<noteq> ''[DONE]''" by simp
  moreover have "clean_data (replicate (Suc i) (CHR ''x''))" using i assms(2) by (intro clean_x) simp
  ultimately show ?thesis using pi by (simp add: framed_def tabled_dec_def)
qed

definition demo_blocks :: "block list" where
  "demo_blocks = [TextBlock [''hi''], ToolBlock ''c1'' ''ls'' [] [''{'', ''}'']]"

text \<open>Frames of payloads under a codec, and what is read from them.\<close>

definition frames :: "(jv \<Rightarrow> string) \<Rightarrow> (string \<times> fields) list \<Rightarrow> (string \<times> string) list" where
  "frames enc evs = map (\<lambda>(name, p). (name, enc (JObj p))) evs"

definition payload_piece :: "string \<Rightarrow> string \<times> fields \<Rightarrow> piece" where
  "payload_piece proto ev = (if proto = ''anthropic'' then claude_piece (snd ev) else responses_piece (fst ev) (snd ev))"

definition payload_step :: "string \<Rightarrow> string \<times> fields \<Rightarrow> norm \<Rightarrow> norm" where
  "payload_step proto ev = (if proto = ''anthropic'' then anthropic_step (snd ev) else responses_step (fst ev) (snd ev))"

abbreviation framed_events :: "(jv \<Rightarrow> string) \<Rightarrow> (string \<Rightarrow> jv option) \<Rightarrow> (string \<times> fields) list \<Rightarrow> bool" where
  "framed_events enc dec evs \<equiv> list_all (\<lambda>ev. framed enc dec (JObj (snd ev)) \<and> (fst ev = [] \<or> clean_data (fst ev))) evs"

lemma frames_clean: "framed_events enc dec evs \<Longrightarrow> list_all clean_frame (frames enc evs)"
  by (induction evs) (auto simp: frames_def clean_frame_def framed_def)

lemma frames_pieces:
  "framed_events enc dec evs \<Longrightarrow> map (frame_piece dec proto) (frames enc evs) = map (payload_piece proto) evs"
  by (induction evs) (auto simp: frames_def frame_piece_def framed_def dec_map_def payload_piece_def)

lemma frames_norm:
  assumes "framed_events enc dec evs" and "proto \<in> {''anthropic'', ''openai_responses''}"
  shows "upstream_norm enc dec upper proto (frames enc evs) = fold (payload_step proto) evs norm_start"
proof -
  have "fold (norm_event enc dec upper proto) (map frame_event (frames enc evs)) n = fold (payload_step proto) evs n" for n
    using assms
  proof (induction evs arbitrary: n)
    case (Cons ev evs)
    have f: "framed enc dec (JObj (snd ev))" using Cons.prems(1) by simp
    then have "norm_event enc dec upper proto (frame_event (fst ev, enc (JObj (snd ev)))) n = payload_step proto ev n"
      using Cons.prems(2) by (auto simp: norm_event_def framed_def clean_data_def dec_map_def payload_step_def)
    with Cons show ?case by (simp add: frames_def case_prod_unfold)
  qed (simp add: frames_def)
  then show ?thesis by (simp add: upstream_norm_def)
qed

text \<open>The values a translation of these events prints.\<close>

definition printed_values :: "string \<Rightarrow> (string \<times> fields) list \<Rightarrow> jv list" where
  "printed_values proto evs =
     (let n = fold (payload_step proto) evs norm_start
      in map (\<lambda>ev. JObj (snd ev)) evs @ n_chunks n @ [final_chunk (n_finish n) (n_inputTokens n) (n_outputTokens n)])"

lemma demo_codec:
  assumes "length (printed_values proto evs) < 100" and "list_all (\<lambda>ev. fst ev = [] \<or> clean_data (fst ev)) evs"
    and "proto \<in> {''anthropic'', ''openai_responses''}"
    and "filter (\<lambda>x. x \<noteq> Adds_nothing) (map (payload_piece proto) evs) = concat (map (block_pieces proto) bs)"
    and "list_all starts_empty bs"
  shows "list_all clean_frame (frames (tabled_enc (printed_values proto evs)) evs)" (is ?A)
    and "says (tabled_dec (printed_values proto evs)) proto (frames (tabled_enc (printed_values proto evs)) evs) bs" (is ?B)
    and "read_back (tabled_enc (printed_values proto evs)) (tabled_dec (printed_values proto evs)) upper proto
      (frames (tabled_enc (printed_values proto evs)) evs)" (is ?C)
proof -
  let ?e = "tabled_enc (printed_values proto evs)" and ?d = "tabled_dec (printed_values proto evs)"
  have f: "v \<in> set (printed_values proto evs) \<Longrightarrow> framed ?e ?d v" for v
    by (rule framed_tabled [OF _ assms(1)])
  have "framed ?e ?d (JObj (snd ev))" if "ev \<in> set evs" for ev
    by (rule f) (use that in \<open>simp add: printed_values_def Let_def\<close>)
  then have 1: "framed_events ?e ?d evs"
    using assms(2) by (simp add: list_all_iff)
  show ?A by (rule frames_clean [OF 1])
  show ?B using assms(4,5) by (simp add: says_def frames_pieces [OF 1])
  have "framed ?e ?d c" if "c \<in> set (let n = fold (payload_step proto) evs norm_start
      in n_chunks n @ [final_chunk (n_finish n) (n_inputTokens n) (n_outputTokens n)])" for c
    by (rule f) (use that in \<open>auto simp: printed_values_def Let_def\<close>)
  then show ?C by (simp add: read_back_def norm_framed_def frames_norm [OF 1 assms(3)] list_all_iff Let_def)
qed

text \<open>A Claude stream with named and unnamed events, pings, block stops and no stop at its end.\<close>

definition unnamed_event :: "string \<Rightarrow> fields \<Rightarrow> string \<times> fields" where
  "unnamed_event t kvs = ([], mk ((''type'', JStr t) # kvs))"

definition named_event :: "string \<Rightarrow> fields \<Rightarrow> string \<times> fields" where
  "named_event t kvs = (t, mk ((''type'', JStr t) # kvs))"

definition demo_claude :: "(string \<times> fields) list" where
  "demo_claude =
     [named_event ''message_start'' [(''message'', obj [(''usage'', obj [(''input_tokens'', jint 4)])])],
      unnamed_event ''content_block_start'' [(''index'', jint 0), (''content_block'', obj [(''type'', JStr ''text''), (''text'', JStr [])])],
      named_event ''ping'' [],
      unnamed_event ''content_block_delta'' [(''index'', jint 0), (''delta'', obj [(''type'', JStr ''text_delta''), (''text'', JStr ''hi'')])],
      unnamed_event ''content_block_stop'' [(''index'', jint 0)],
      unnamed_event ''content_block_start'' [(''index'', jint 1),
        (''content_block'', obj [(''type'', JStr ''tool_use''), (''id'', JStr ''c1''), (''name'', JStr ''ls''), (''input'', obj [])])],
      unnamed_event ''content_block_delta'' [(''index'', jint 1), (''delta'', obj [(''type'', JStr ''input_json_delta''), (''partial_json'', JStr ''{'')])],
      named_event ''ping'' [],
      unnamed_event ''content_block_delta'' [(''index'', jint 1), (''delta'', obj [(''type'', JStr ''input_json_delta''), (''partial_json'', JStr ''}'')])],
      unnamed_event ''message_delta'' [(''delta'', obj [(''stop_reason'', JStr ''tool_use'')]), (''usage'', obj [(''output_tokens'', jint 2)])]]"

lemma letters_clean:
  assumes "d \<noteq> []" and "list_all (\<lambda>c. byte_of c < 128 \<and> \<not> space_rune [c]) d" and "length d < 1000"
  shows "clean_data d"
proof -
  have r: "rune_split d = map (\<lambda>c. [c]) d" using assms(2) by (induction d) (simp_all add: rune_split_ascii)
  have "space_rune [LF]" "space_rune [CR]" by code_simp+
  moreover have "\<not> space_rune (hd (map (\<lambda>c. [c]) d))" "\<not> space_rune (last (map (\<lambda>c. [c]) d))"
    using assms(1,2) by (simp_all add: hd_map last_map list_all_iff)
  ultimately show ?thesis
    using assms by (auto simp: clean_data_def r anthropic_scan_limit_def list_all_iff)
qed

definition short_letters :: "string \<Rightarrow> bool" where
  "short_letters d \<longleftrightarrow> list_all (\<lambda>c. byte_of c < 128 \<and> \<not> space_rune [c]) d \<and> length d < 1000"

lemma names_clean:
  assumes "list_all short_letters (map fst evs)"
  shows "list_all (\<lambda>ev. fst ev = [] \<or> clean_data (fst ev)) evs"
proof -
  have "fst ev = [] \<or> clean_data (fst ev)" if "ev \<in> set evs" for ev
  proof -
    have "short_letters (fst ev)" using assms that by (simp add: list_all_iff)
    then show ?thesis using letters_clean [of "fst ev"] by (cases "fst ev = []") (simp_all add: short_letters_def)
  qed
  then show ?thesis by (simp add: list_all_iff)
qed

lemma claude_stream_translated_witness:
  "\<exists>enc dec deltas final.
     streamUpstreamToClient enc dec id ''anthropic'' ''openai_responses'' (stream_text (frames enc demo_claude), False) ''m'' ''x'' =
       (map (\<lambda>p. event_frame ''response.output_text.delta'' (enc p)) deltas @
          [event_frame ''response.completed'' (enc final)], False) \<and>
     concat (map delta_text deltas) = ''hi'' \<and>
     responses_reply_turns enc dec (completed_response final) = blocks_turns dec demo_blocks"
proof -
  let ?e = "tabled_enc (printed_values ''anthropic'' demo_claude)" and ?d = "tabled_dec (printed_values ''anthropic'' demo_claude)"
  have n: "length (printed_values ''anthropic'' demo_claude) < 100"
    "list_all short_letters (map fst demo_claude)"
    "filter (\<lambda>x. x \<noteq> Adds_nothing) (map (payload_piece ''anthropic'') demo_claude) =
       concat (map (block_pieces ''anthropic'') demo_blocks)" "list_all starts_empty demo_blocks"
    by code_simp+
  note c = names_clean [OF n(2)]
  have a: "list_all (\<lambda>tc. tool_input ?d (tc_args tc) \<noteq> JNull) (call_accums 0 demo_blocks)"
  proof -
    have t: "map tc_args (call_accums 0 demo_blocks) = [''{}'']" by code_simp
    have "find (\<lambda>(_, t). t = ''{}'') (numbered vs) = None" for vs
      by (auto simp: find_None_iff numbered_def set_zip)
    then have "?d ''{}'' = None" by (simp add: tabled_dec_def)
    then have "\<And>a. a \<in> set (map tc_args (call_accums 0 demo_blocks)) \<Longrightarrow> tool_input ?d a \<noteq> JNull"
      unfolding t by (simp add: tool_input_def obj_def)
    then show ?thesis by (simp add: list_all_iff)
  qed
  have s: "concat (map block_says demo_blocks) = ''hi''" by code_simp
  show ?thesis
    using claude_stream_translated [OF demo_codec(1-3) [OF n(1) c _ n(3,4)] a, of id "''m''" "''x''"] s by fastforce
qed

lemma written_scans:
  assumes "n_chunks n = chunks 0 bs" and "norm_framed enc dec n"
  shows "\<not> snd (anthropic_events dec (concat (norm_writes enc n False), False) m mid)"
proof -
  let ?cs = "chunks 0 bs @ [final_chunk (n_finish n) (n_inputTokens n) (n_outputTokens n)]"
  have "list_all clean_data (map enc ?cs @ [''[DONE]''])"
    using assms by (auto simp: norm_framed_def list_all_iff framed_def clean_done)
  from scan_frame_lines [OF this order_refl, of False] show ?thesis
    unfolding norm_writes_frames assms(1) anthropic_events_def by (simp add: Let_def split: prod.splits)
qed

text \<open>
  C30. The stream of a Responses provider, translated for a Claude client, ends without an error, is a complete and well
  formed Claude stream (a message start, numbered content blocks that are opened, filled and closed, a message delta and
  a message stop), and a client that reads it gets the text and the tool calls of the provider's stream. The stream may
  name its events or not, and may carry created and completed responses, message items, finished items and any other
  event; a call has an id, starts without arguments and its fragments come before any other text or call. Chunks are
  read back as they were printed.
\<close>

theorem responses_stream_translated:
  assumes "list_all clean_frame fs" and "says dec ''openai_responses'' fs bs" and "list_all has_id bs"
    and "read_back enc dec upper ''openai_responses'' fs"
  shows "\<exists>evs. streamUpstreamToClient enc dec upper ''openai_responses'' ''anthropic'' (stream_text fs, False) m mid =
      (map (\<lambda>(name, p). event_frame name (enc (JObj p))) evs, False) \<and>
    accepts Before evs = Some Finished \<and> event_turns dec evs = blocks_turns dec bs"
proof -
  let ?n = "upstream_norm enc dec upper ''openai_responses'' fs"
  let ?r = "(concat (norm_writes enc ?n False), False)"
  note n = said_normalized [OF assms(2,1), where enc = enc and upper = upper, simplified]
  note w = assms(4) [unfolded read_back_def]
  have ok: "\<not> snd (anthropic_events dec ?r m mid)" by (rule written_scans [OF n(1) w])
  have "streamUpstreamToClient enc dec upper ''openai_responses'' ''anthropic'' (stream_text fs, False) m mid =
      (map (\<lambda>(name, p). event_frame name (enc (JObj p))) (fst (anthropic_events dec ?r m mid)), False)"
    using ok n(3) by (simp add: streamUpstreamToClient_def stream_text_def chatStreamToAnthropicSSE_def case_prod_unfold)
  moreover have "accepts Before (fst (anthropic_events dec ?r m mid)) = Some Finished"
    using anthropic_stream_accepted ok by blast
  ultimately show ?thesis using anthropic_stream_reads [OF n(1) w assms(3)] by blast
qed

text \<open>A Responses stream with a message item, finished items that repeat what was sent, and an event without a type.\<close>

definition item_event :: "string \<Rightarrow> fields \<Rightarrow> string \<times> fields" where
  "item_event t kvs = unnamed_event t [(''item'', obj kvs)]"

definition demo_call :: fields where
  "demo_call = [(''type'', JStr ''function_call''), (''call_id'', JStr ''c1''), (''name'', JStr ''ls'')]"

definition demo_responses :: "(string \<times> fields) list" where
  "demo_responses =
     [unnamed_event ''response.created'' [(''response'', obj [])],
      item_event ''response.output_item.added'' [(''type'', JStr ''message'')],
      (''response.output_text.delta'', mk [(''delta'', JStr ''hi'')]),
      unnamed_event ''response.output_text.done'' [(''text'', JStr ''hi'')],
      item_event ''response.output_item.done'' [(''type'', JStr ''message'')],
      item_event ''response.output_item.added'' demo_call,
      unnamed_event ''response.function_call_arguments.delta'' [(''delta'', JStr ''{'')],
      unnamed_event ''response.in_progress'' [],
      unnamed_event ''response.function_call_arguments.delta'' [(''delta'', JStr ''}'')],
      unnamed_event ''response.function_call_arguments.done'' [(''arguments'', JStr ''{}'')],
      item_event ''response.output_item.done'' (demo_call @ [(''arguments'', JStr ''{}'')]),
      unnamed_event ''response.completed'' [(''response'', obj [(''usage'', obj [(''input_tokens'', jint 3)])])]]"

lemma responses_stream_translated_witness:
  "\<exists>enc dec evs. streamUpstreamToClient enc dec id ''openai_responses'' ''anthropic''
      (stream_text (frames enc demo_responses), False) ''m'' ''x'' =
      (map (\<lambda>(name, p). event_frame name (enc (JObj p))) evs, False) \<and>
    accepts Before evs = Some Finished \<and> event_turns dec evs = blocks_turns dec demo_blocks"
proof -
  have n: "length (printed_values ''openai_responses'' demo_responses) < 100"
    "list_all short_letters (map fst demo_responses)"
    "filter (\<lambda>x. x \<noteq> Adds_nothing) (map (payload_piece ''openai_responses'') demo_responses) =
       concat (map (block_pieces ''openai_responses'') demo_blocks)" "list_all starts_empty demo_blocks" "list_all has_id demo_blocks"
    by code_simp+
  note c = names_clean [OF n(2)]
  have p: "''openai_responses'' \<in> {''anthropic'', ''openai_responses''}" by simp
  note d = demo_codec [OF n(1) c p n(3,4)]
  show ?thesis using responses_stream_translated [OF d(1,2) n(5) d(3), of id "''m''" "''x''"] by blast
qed

text \<open>
  C32. Whatever the upstream sends and wherever the client stops reading, what a Claude client has received is a prefix of
  a well formed stream: events come in the order of the protocol, a block is open when something is added to it, blocks
  are numbered from 0 without gaps; and the whole is complete when the upstream was read to its end without an error.
\<close>

theorem claude_stream_well_formed:
  "accepts Before (take k (fst (anthropic_events dec r m mid))) \<noteq> None \<and>
   (if snd (anthropic_events dec r m mid) then True else accepts Before (fst (anthropic_events dec r m mid)) = Some Finished)"
  using anthropic_stream_accepted [of dec r m mid]
    accepts_prefix [of Before "take k (fst (anthropic_events dec r m mid))" "drop k (fst (anthropic_events dec r m mid))"]
  by simp




text \<open>
  C33. A stream of frames, with or without event names and in any mixture, is read as those events: each with its own
  name, the data unchanged and in order; and an error of the reader is passed on. Names and data are texts of one line
  without space at their ends.
\<close>

theorem sse_roundtrip:
  assumes "list_all (\<lambda>(name, d). clean_data d \<and> (name = [] \<or> clean_data name)) fs"
  shows "scanSSE (concat (map (\<lambda>(name, d). if name = [] then data_frame d else event_frame name d) fs), bad) =
    (map (\<lambda>(name, d). \<lparr>ev_name = name, ev_data = d\<rparr>) fs, bad)"
proof -
  have "list_all clean_frame fs" using assms by (auto simp: clean_frame_def list_all_iff)
  from scan_named [OF this, of bad] show ?thesis by (simp add: sse_frame_def [abs_def] case_prod_unfold)
qed

lemma sse_roundtrip_witness:
  "scanSSE (event_frame ''x'' ''xx'' @ data_frame ''x'', True) =
     ([\<lparr>ev_name = ''x'', ev_data = ''xx''\<rparr>, \<lparr>ev_name = [], ev_data = ''x''\<rparr>], True)"
  using sse_roundtrip [of "[(''x'', ''xx''), ([], ''x'')]" True] clean_x [of 0] clean_x [of 1] by simp

end
