(* ===== verification/Provider_Store.thy ===== *)
theory Provider_Store
  imports Tenancy
begin

text \<open>
  Model providers and the routes of tools to them: the data of core/provider_types.go and the statements of
  store/providers.go and store/proxy.go, with the settings they keep in store/store.go. JSON columns are the values
  they read back as. An API key is not a column.
\<close>

section \<open>Data\<close>

record ClaudeDesktopModel =
  dm_ID :: string
  dm_Name :: string
  dm_DisplayName :: string
  dm_UpstreamModel :: string

record ProviderMeta =
  pm_APIFormat :: string
  pm_SupportedModels :: "string list"
  pm_BlockedModels :: "string list"
  pm_SupportedReasoningEfforts :: "string list"
  pm_DefaultReasoningEffort :: string
  pm_SupportedServiceTiers :: "string list"
  pm_DefaultServiceTier :: string
  pm_SupportedAPIFormats :: "string list"
  pm_SupportedProtocols :: "string list"
  pm_ClaudeAuthScheme :: string
  pm_ClaudeSonnetModel :: string
  pm_ClaudeOpusModel :: string
  pm_ClaudeHaikuModel :: string
  pm_ClaudeDesktopMode :: string
  pm_ClaudeDesktopModels :: "ClaudeDesktopModel list"
  pm_ClaudeDesktopAuthMode :: string

record ModelProvider =
  mp_ID :: string
  mp_Name :: string
  mp_Preset :: string
  mp_Category :: string
  mp_BaseURL :: string
  mp_APIKeyEnv :: string
  mp_APIKey :: string
  mp_Model :: string
  mp_Extra :: "(string \<times> string) list"
  mp_SettingsConfig :: string
  mp_Meta :: ProviderMeta
  mp_Enabled :: bool
  mp_InFailoverQueue :: bool
  mp_SortIndex :: int
  mp_CreatedAt :: gotime
  mp_UpdatedAt :: gotime

record ProviderRoute =
  ro_Tool :: string
  ro_ProviderID :: string
  ro_ProviderName :: string
  ro_BaseURL :: string
  ro_APIKeyEnv :: string
  ro_Model :: string
  ro_APIFormat :: string
  ro_Meta :: ProviderMeta
  ro_Configured :: bool

definition no_meta :: ProviderMeta where
  "no_meta = \<lparr>pm_APIFormat = [], pm_SupportedModels = [], pm_BlockedModels = [], pm_SupportedReasoningEfforts = [],
     pm_DefaultReasoningEffort = [], pm_SupportedServiceTiers = [], pm_DefaultServiceTier = [],
     pm_SupportedAPIFormats = [], pm_SupportedProtocols = [], pm_ClaudeAuthScheme = [], pm_ClaudeSonnetModel = [],
     pm_ClaudeOpusModel = [], pm_ClaudeHaikuModel = [], pm_ClaudeDesktopMode = [], pm_ClaudeDesktopModels = [],
     pm_ClaudeDesktopAuthMode = []\<rparr>"

definition RouteMetaFromProvider :: "ProviderMeta \<Rightarrow> ProviderMeta" where
  "RouteMetaFromProvider meta = no_meta\<lparr>
     pm_ClaudeAuthScheme := pm_ClaudeAuthScheme meta, pm_ClaudeSonnetModel := pm_ClaudeSonnetModel meta,
     pm_ClaudeOpusModel := pm_ClaudeOpusModel meta, pm_ClaudeHaikuModel := pm_ClaudeHaikuModel meta,
     pm_ClaudeDesktopMode := pm_ClaudeDesktopMode meta, pm_ClaudeDesktopModels := pm_ClaudeDesktopModels meta,
     pm_ClaudeDesktopAuthMode := pm_ClaudeDesktopAuthMode meta\<rparr>"

definition RouteMetaIsZero :: "ProviderMeta \<Rightarrow> bool" where
  "RouteMetaIsZero meta \<longleftrightarrow>
     pm_ClaudeAuthScheme meta = [] \<and> pm_ClaudeSonnetModel meta = [] \<and> pm_ClaudeOpusModel meta = [] \<and>
     pm_ClaudeHaikuModel meta = [] \<and> pm_ClaudeDesktopMode meta = [] \<and> pm_ClaudeDesktopModels meta = [] \<and>
     pm_ClaudeDesktopAuthMode meta = []"

definition pick :: "'a list \<Rightarrow> 'a list \<Rightarrow> 'a list" where
  "pick a b = (if a \<noteq> [] then a else b)"

definition MergeRouteMeta :: "ProviderMeta \<Rightarrow> ProviderMeta \<Rightarrow> ProviderMeta" where
  "MergeRouteMeta base route = base\<lparr>
     pm_ClaudeAuthScheme := pick (pm_ClaudeAuthScheme route) (pm_ClaudeAuthScheme base),
     pm_ClaudeSonnetModel := pick (pm_ClaudeSonnetModel route) (pm_ClaudeSonnetModel base),
     pm_ClaudeOpusModel := pick (pm_ClaudeOpusModel route) (pm_ClaudeOpusModel base),
     pm_ClaudeHaikuModel := pick (pm_ClaudeHaikuModel route) (pm_ClaudeHaikuModel base),
     pm_ClaudeDesktopMode := pick (pm_ClaudeDesktopMode route) (pm_ClaudeDesktopMode base),
     pm_ClaudeDesktopModels := pick (pm_ClaudeDesktopModels route) (pm_ClaudeDesktopModels base),
     pm_ClaudeDesktopAuthMode := pick (pm_ClaudeDesktopAuthMode route) (pm_ClaudeDesktopAuthMode base)\<rparr>"

definition ProviderWithRouteMeta :: "ModelProvider option \<Rightarrow> ProviderMeta \<Rightarrow> ModelProvider option" where
  "ProviderWithRouteMeta p route = map_option (\<lambda>p. p\<lparr>mp_Meta := MergeRouteMeta (mp_Meta p) route\<rparr>) p"

definition ModelBlocked :: "ModelProvider \<Rightarrow> string \<Rightarrow> bool" where
  "ModelBlocked p model \<longleftrightarrow>
     trim_space model \<noteq> [] \<and> list_ex (\<lambda>blocked. trim_space blocked = trim_space model) (pm_BlockedModels (mp_Meta p))"

definition UnblockedModels :: "ModelProvider \<Rightarrow> string list \<Rightarrow> string list" where
  "UnblockedModels p models = filter (\<lambda>m. \<not> ModelBlocked p m) models"

text \<open>The closure \<open>add\<close> of \<open>ProviderModelOptions\<close>; what it has \<open>seen\<close> is what it has put out.\<close>

definition add_option :: "ModelProvider \<Rightarrow> string \<Rightarrow> string list \<Rightarrow> string list" where
  "add_option p model out =
     (let m = trim_space model in if m = [] \<or> m \<in> set out \<or> ModelBlocked p m then out else out @ [m])"

definition ProviderModelOptions :: "ModelProvider \<Rightarrow> string list" where
  "ProviderModelOptions p = fold (add_option p) (mp_Model p # pm_SupportedModels (mp_Meta p)) []"

section \<open>Tables\<close>

record ProxyToolConfig =
  xc_Tool :: string
  xc_Enabled :: bool
  xc_AutoFailover :: bool
  xc_MaxRetries :: int
  xc_FailureThreshold :: int
  xc_CooldownSeconds :: int

record route_row =
  rr_tool :: string
  rr_provider_id :: string
  rr_meta :: "ProviderMeta option"

record ProxyTrace =
  xt_ID :: string
  xt_RequestID :: string
  xt_TraceID :: string
  xt_ParentSpanID :: string
  xt_Attempt :: nat
  xt_ParentAttemptID :: string
  xt_Timestamp :: gotime
  xt_StartedAt :: gotime
  xt_Tool :: string
  xt_ProviderID :: string
  xt_ProviderName :: string
  xt_ClientProtocol :: string
  xt_UpstreamProtocol :: string
  xt_ClientModel :: string
  xt_UpstreamModel :: string
  xt_StatusCode :: int
  xt_Success :: bool
  xt_Error :: string
  xt_SessionID :: string
  xt_ProjectDir :: string

record proxy_db = tenancy_db +
  providers :: "ModelProvider list"
  active_provider :: "route_row list"
  proxy_config :: "ProxyToolConfig list"
  live_backup :: "(string \<times> string) list"
  proxy_traces :: "ProxyTrace list"
  settings :: "(string \<times> string) list"

section \<open>Providers\<close>

definition merge_provider :: "ModelProvider \<Rightarrow> ModelProvider \<Rightarrow> ModelProvider" where
  "merge_provider p q = p\<lparr>mp_CreatedAt := mp_CreatedAt q\<rparr>"

interpretation provider_tab: keyed_table mp_ID merge_provider
  by unfold_locales (simp add: merge_provider_def)

text \<open>The row of a provider: the key is not written.\<close>

definition provider_row :: "ModelProvider \<Rightarrow> ModelProvider" where
  "provider_row p = p\<lparr>mp_APIKey := []\<rparr>"

definition ListProviders :: "'a proxy_db_scheme \<Rightarrow> ModelProvider list option \<times> 'a proxy_db_scheme" where
  "ListProviders = sql_query (\<lambda>d. sort_key (\<lambda>p. text_key d (mp_Name p)) (providers d))"

definition ListProvidersForTenant :: "string \<Rightarrow> 'a proxy_db_scheme \<Rightarrow> ModelProvider list option \<times> 'a proxy_db_scheme" where
  "ListProvidersForTenant tenantID = sql_query (\<lambda>d. sort_key (\<lambda>p. text_key d (mp_Name p))
     (filter (\<lambda>p. list_ex (\<lambda>g. rg_TenantID g = tenantID \<and> rg_ResourceType g = ''provider'' \<and> rg_ResourceID g = mp_ID p)
        (resource_grants d)) (providers d)))"

definition GetProvider :: "string \<Rightarrow> 'a proxy_db_scheme \<Rightarrow> ModelProvider option option \<times> 'a proxy_db_scheme" where
  "GetProvider i = sql_query (\<lambda>d. table_find mp_ID i (providers d))"

definition UpsertProvider :: "ModelProvider \<Rightarrow> 'a proxy_db_scheme \<Rightarrow> bool \<times> 'a proxy_db_scheme" where
  "UpsertProvider p = sql_exec (\<lambda>d.
     Some (d\<lparr>providers := table_upsert mp_ID merge_provider (provider_row p) (providers d)\<rparr>))"

definition SetFailoverQueue :: "string \<Rightarrow> bool \<Rightarrow> int \<Rightarrow> 'a proxy_db_scheme \<Rightarrow> bool \<times> 'a proxy_db_scheme" where
  "SetFailoverQueue i inQueue sortIndex = sql_exec (\<lambda>d. Some (d\<lparr>providers :=
     map (\<lambda>p. if mp_ID p = i then p\<lparr>mp_InFailoverQueue := inQueue, mp_SortIndex := sortIndex\<rparr> else p) (providers d)\<rparr>))"

text \<open>The last two statements of every change of a route.\<close>

definition disable_all :: "'a proxy_db_scheme \<Rightarrow> 'a proxy_db_scheme option" where
  "disable_all d = Some (d\<lparr>providers := map (\<lambda>p. p\<lparr>mp_Enabled := False\<rparr>) (providers d)\<rparr>)"

definition enable_active :: "'a proxy_db_scheme \<Rightarrow> 'a proxy_db_scheme option" where
  "enable_active d = Some (d\<lparr>providers :=
     map (\<lambda>p. if mp_ID p \<in> set (map rr_provider_id (active_provider d)) then p\<lparr>mp_Enabled := True\<rparr> else p) (providers d)\<rparr>)"

definition DeleteProvider :: "string \<Rightarrow> 'a proxy_db_scheme \<Rightarrow> bool \<times> 'a proxy_db_scheme" where
  "DeleteProvider i = sql_tx
     [\<lambda>d. Some (d\<lparr>providers := table_delete mp_ID i (providers d)\<rparr>),
      \<lambda>d. Some (d\<lparr>resource_grants := filter (\<lambda>g. \<not> (rg_ResourceType g = ''provider'' \<and> rg_ResourceID g = i)) (resource_grants d)\<rparr>),
      \<lambda>d. Some (d\<lparr>active_provider := filter (\<lambda>r. rr_provider_id r \<noteq> i) (active_provider d)\<rparr>),
      disable_all, enable_active]"

section \<open>Routes\<close>

text \<open>\<^verbatim>\<open>ON CONFLICT(tool) DO UPDATE\<close> of the provider alone, or of the provider and its metadata.\<close>

definition merge_active :: "route_row \<Rightarrow> route_row \<Rightarrow> route_row" where
  "merge_active r q = q\<lparr>rr_provider_id := rr_provider_id r\<rparr>"

definition merge_route :: "route_row \<Rightarrow> route_row \<Rightarrow> route_row" where
  "merge_route r q = q\<lparr>rr_provider_id := rr_provider_id r, rr_meta := rr_meta r\<rparr>"

interpretation active_tab: keyed_table rr_tool merge_active
  by unfold_locales (simp add: merge_active_def)

interpretation route_tab: keyed_table rr_tool merge_route
  by unfold_locales (simp add: merge_route_def)

definition SetActiveProvider :: "string \<Rightarrow> string \<Rightarrow> 'a proxy_db_scheme \<Rightarrow> bool \<times> 'a proxy_db_scheme" where
  "SetActiveProvider tool i = sql_tx
     [\<lambda>d. Some (d\<lparr>active_provider := table_upsert rr_tool merge_active
              \<lparr>rr_tool = tool, rr_provider_id = i, rr_meta = None\<rparr> (active_provider d)\<rparr>),
      disable_all, enable_active]"

definition SetActiveProviderRoute :: "ProviderRoute \<Rightarrow> 'a proxy_db_scheme \<Rightarrow> bool \<times> 'a proxy_db_scheme" where
  "SetActiveProviderRoute route = sql_tx
     [\<lambda>d. Some (d\<lparr>active_provider := table_upsert rr_tool merge_route
              \<lparr>rr_tool = ro_Tool route, rr_provider_id = ro_ProviderID route, rr_meta = Some (ro_Meta route)\<rparr> (active_provider d)\<rparr>),
      disable_all, enable_active]"

definition ClearActiveProvider :: "string \<Rightarrow> 'a proxy_db_scheme \<Rightarrow> bool \<times> 'a proxy_db_scheme" where
  "ClearActiveProvider tool = sql_tx
     [\<lambda>d. Some (d\<lparr>active_provider := table_delete rr_tool tool (active_provider d)\<rparr>), disable_all, enable_active]"

definition ActiveProviderID :: "string \<Rightarrow> 'a proxy_db_scheme \<Rightarrow> string option option \<times> 'a proxy_db_scheme" where
  "ActiveProviderID tool = sql_query (\<lambda>d. map_option rr_provider_id (table_find rr_tool tool (active_provider d)))"

text \<open>The row joined with its provider, which may be gone; a row without metadata takes the provider's.\<close>

definition scanProviderRoute :: "ModelProvider list \<Rightarrow> route_row \<Rightarrow> ProviderRoute" where
  "scanProviderRoute ps r =
     (let p = table_find mp_ID (rr_provider_id r) ps;
          col = (\<lambda>f. case p of None \<Rightarrow> [] | Some q \<Rightarrow> f q);
          providerMeta = (case p of None \<Rightarrow> no_meta | Some q \<Rightarrow> mp_Meta q);
          routeMeta = (case rr_meta r of None \<Rightarrow> no_meta | Some m \<Rightarrow> m)
      in \<lparr>ro_Tool = rr_tool r, ro_ProviderID = rr_provider_id r, ro_ProviderName = col mp_Name,
          ro_BaseURL = col mp_BaseURL, ro_APIKeyEnv = col mp_APIKeyEnv, ro_Model = col mp_Model,
          ro_APIFormat = pm_APIFormat providerMeta,
          ro_Meta = (if RouteMetaIsZero routeMeta then RouteMetaFromProvider providerMeta else routeMeta),
          ro_Configured = (p \<noteq> None)\<rparr>)"

definition ActiveProviderRoute :: "string \<Rightarrow> 'a proxy_db_scheme \<Rightarrow> ProviderRoute option option \<times> 'a proxy_db_scheme" where
  "ActiveProviderRoute tool = sql_query (\<lambda>d.
     map_option (scanProviderRoute (providers d)) (table_find rr_tool tool (active_provider d)))"

definition ActiveProviderRoutes :: "'a proxy_db_scheme \<Rightarrow> ProviderRoute list option \<times> 'a proxy_db_scheme" where
  "ActiveProviderRoutes = sql_query (\<lambda>d.
     map (scanProviderRoute (providers d)) (sort_key (\<lambda>r. text_key d (rr_tool r)) (active_provider d)))"

section \<open>Local routing\<close>

definition defaultProxyToolConfig :: "string \<Rightarrow> ProxyToolConfig" where
  "defaultProxyToolConfig tool = \<lparr>xc_Tool = tool, xc_Enabled = False, xc_AutoFailover = False, xc_MaxRetries = 3,
     xc_FailureThreshold = 4, xc_CooldownSeconds = 60\<rparr>"

definition GetProxyToolConfig :: "string \<Rightarrow> 'a proxy_db_scheme \<Rightarrow> ProxyToolConfig option \<times> 'a proxy_db_scheme" where
  "GetProxyToolConfig tool = sql_query (\<lambda>d.
     case table_find xc_Tool tool (proxy_config d) of None \<Rightarrow> defaultProxyToolConfig tool | Some cfg \<Rightarrow> cfg)"

definition ListProxyToolConfigs :: "'a proxy_db_scheme \<Rightarrow> ProxyToolConfig list option \<times> 'a proxy_db_scheme" where
  "ListProxyToolConfigs = sql_query (\<lambda>d. sort_key (\<lambda>c. text_key d (xc_Tool c)) (proxy_config d))"

definition at_least_one :: "int \<Rightarrow> int \<Rightarrow> int" where
  "at_least_one v dflt = (if v \<le> 0 then dflt else v)"

definition SetProxyToolConfig :: "ProxyToolConfig \<Rightarrow> 'a proxy_db_scheme \<Rightarrow> bool \<times> 'a proxy_db_scheme" where
  "SetProxyToolConfig cfg = sql_exec (\<lambda>d. Some (d\<lparr>proxy_config := table_upsert xc_Tool (\<lambda>c _. c)
     (cfg\<lparr>xc_MaxRetries := at_least_one (xc_MaxRetries cfg) 3,
          xc_FailureThreshold := at_least_one (xc_FailureThreshold cfg) 4,
          xc_CooldownSeconds := at_least_one (xc_CooldownSeconds cfg) 60\<rparr>) (proxy_config d)\<rparr>))"

interpretation config_tab: keyed_table xc_Tool "\<lambda>c _. c"
  by unfold_locales simp

definition SaveLiveBackup :: "string \<Rightarrow> string \<Rightarrow> 'a proxy_db_scheme \<Rightarrow> bool \<times> 'a proxy_db_scheme" where
  "SaveLiveBackup tool blob = sql_exec (\<lambda>d. Some (d\<lparr>live_backup := table_upsert fst (\<lambda>r _. r) (tool, blob) (live_backup d)\<rparr>))"

definition GetLiveBackup :: "string \<Rightarrow> 'a proxy_db_scheme \<Rightarrow> string option option \<times> 'a proxy_db_scheme" where
  "GetLiveBackup tool = sql_query (\<lambda>d. map_option snd (table_find fst tool (live_backup d)))"

definition DeleteLiveBackup :: "string \<Rightarrow> 'a proxy_db_scheme \<Rightarrow> bool \<times> 'a proxy_db_scheme" where
  "DeleteLiveBackup tool = sql_exec (\<lambda>d. Some (d\<lparr>live_backup := table_delete fst tool (live_backup d)\<rparr>))"

interpretation backup_tab: keyed_table fst "\<lambda>r _. r"
  by unfold_locales simp

text \<open>The primary key refuses a second trace with the same id.\<close>

definition InsertProxyTrace :: "string \<Rightarrow> gotime \<Rightarrow> ProxyTrace \<Rightarrow> 'a proxy_db_scheme \<Rightarrow> bool \<times> 'a proxy_db_scheme" where
  "InsertProxyTrace newID now trace =
     (let t1 = (if xt_ID trace = [] then trace\<lparr>xt_ID := newID\<rparr> else trace);
          t2 = (if is_zero (xt_Timestamp t1) then t1\<lparr>xt_Timestamp := now\<rparr> else t1)
      in sql_exec (\<lambda>d. if list_ex (\<lambda>t. xt_ID t = xt_ID t2) (proxy_traces d) then None
                       else Some (d\<lparr>proxy_traces := proxy_traces d @ [t2]\<rparr>)))"

definition QueryProxyTraces ::
  "string \<Rightarrow> string \<Rightarrow> int \<Rightarrow> 'a proxy_db_scheme \<Rightarrow> ProxyTrace list option \<times> 'a proxy_db_scheme" where
  "QueryProxyTraces tool sessionID limit0 =
     (let limit = (if limit0 \<le> 0 then 100 else if limit0 > 500 then 500 else limit0) in
      sql_query (\<lambda>d. take (nat limit) (sort_key (\<lambda>t. - time_key d (Some (xt_Timestamp t)))
        (filter (\<lambda>t. (tool = [] \<or> xt_Tool t = tool) \<and> (sessionID = [] \<or> xt_SessionID t = sessionID)) (proxy_traces d)))))"

definition GetSetting :: "string \<Rightarrow> 'a proxy_db_scheme \<Rightarrow> string option option \<times> 'a proxy_db_scheme" where
  "GetSetting key = sql_query (\<lambda>d. map_option snd (table_find fst key (settings d)))"

definition SetSetting :: "string \<Rightarrow> string \<Rightarrow> 'a proxy_db_scheme \<Rightarrow> bool \<times> 'a proxy_db_scheme" where
  "SetSetting key value = sql_exec (\<lambda>d. Some (d\<lparr>settings := table_upsert fst (\<lambda>r _. r) (key, value) (settings d)\<rparr>))"

definition gatewayTokenKey :: string where
  "gatewayTokenKey = ''claude_desktop_gateway_token''"

text \<open>\<open>drawn\<close> is the encoded random draw, None when it fails.\<close>

definition GetOrCreateGatewayToken :: "string option \<Rightarrow> 'a proxy_db_scheme \<Rightarrow> string option \<times> 'a proxy_db_scheme" where
  "GetOrCreateGatewayToken drawn d =
     (case GetSetting gatewayTokenKey d of
        (None, d1) \<Rightarrow> (None, d1)
      | (Some v, d1) \<Rightarrow>
          (case v of
             Some (c # cs) \<Rightarrow> (Some (c # cs), d1)
           | _ \<Rightarrow>
               (case drawn of
                  None \<Rightarrow> (None, d1)
                | Some hex \<Rightarrow>
                    (let token = ''amux-'' @ hex in
                     case SetSetting gatewayTokenKey token d1 of
                       (False, d2) \<Rightarrow> (None, d2) | (True, d2) \<Rightarrow> (Some token, d2)))))"

end
