(* ===== verification/Provider_Models.thy ===== *)
theory Provider_Models
  imports Provider_Store Translate_Requests
begin

text \<open>
  Which model a provider is asked for: the routes of provider/proxy.go for Claude Code and Claude Desktop, the repair
  of Desktop routes in provider/claudedesktop.go, and \<open>resolveUpstreamModel\<close> of provider/forward.go.

  The library functions the package calls whose tables are not written out here are the fields of \<open>golib\<close>: the
  JSON codec (\<open>g_decFirst\<close> is a \<^verbatim>\<open>json.Decoder\<close>, which reads one value and leaves the rest), the case tables of package unicode off ASCII, \<^verbatim>\<open>strconv.Quote\<close>, SHA-256 in hexadecimal, and the error of
  \<^verbatim>\<open>http.NewRequest\<close> on a bad URL.
\<close>

section \<open>Library functions\<close>

record golib =
  g_enc :: "jv \<Rightarrow> string"
  g_dec :: "string \<Rightarrow> jv option"
  g_decFirst :: "string \<Rightarrow> jv option"
  g_lower :: "string \<Rightarrow> string"
  g_upper :: "string \<Rightarrow> string"
  g_fold :: "string \<Rightarrow> string \<Rightarrow> bool"
  g_quote :: "string \<Rightarrow> string"
  g_sha256 :: "string \<Rightarrow> string"
  g_badURL :: "string \<Rightarrow> string option"

definition ascii :: "string \<Rightarrow> bool" where
  "ascii s \<longleftrightarrow> list_all (\<lambda>c. byte_of c < 128) s"

text \<open>\<^verbatim>\<open>strings.ToLower\<close> and \<^verbatim>\<open>strings.EqualFold\<close>.\<close>

definition ToLower :: "golib \<Rightarrow> string \<Rightarrow> string" where
  "ToLower g s = (if ascii s then map ascii_lower s else g_lower g s)"

definition EqualFold :: "golib \<Rightarrow> string \<Rightarrow> string \<Rightarrow> bool" where
  "EqualFold g s t = (if ascii s \<and> ascii t then map ascii_lower s = map ascii_lower t else g_fold g s t)"

text \<open>\<^verbatim>\<open>strings.Contains\<close>.\<close>

fun contains :: "string \<Rightarrow> string \<Rightarrow> bool" where
  "contains [] sub = (sub = [])"
| "contains (c # s) sub = (has_prefix (c # s) sub \<or> contains s sub)"

text \<open>\<^verbatim>\<open>strings.CutPrefix\<close>.\<close>

definition CutPrefix :: "string \<Rightarrow> string \<Rightarrow> string option" where
  "CutPrefix s p = (if has_prefix s p then Some (drop (length p) s) else None)"

section \<open>Claude Code\<close>

definition claudeCodeModelPrefix :: string where
  "claudeCodeModelPrefix = ''claude-''"

definition mapClaudeTierModel :: "golib \<Rightarrow> string \<Rightarrow> ModelProvider \<Rightarrow> string" where
  "mapClaudeTierModel g model p =
     (let low = ToLower g model in
      if \<not> has_prefix low ''claude-'' \<and> \<not> has_prefix low ''anthropic/claude-'' then model
      else if contains low ''haiku'' then pick (pm_ClaudeHaikuModel (mp_Meta p)) model
      else if contains low ''opus'' then pick (pm_ClaudeOpusModel (mp_Meta p)) model
      else if contains low ''sonnet'' then pick (pm_ClaudeSonnetModel (mp_Meta p)) model
      else model)"

record claudeCodeModelRoute =
  cr_ID :: string
  cr_DisplayName :: string
  cr_UpstreamModel :: string

text \<open>The closure of \<open>claudeCodeModelOptions\<close>; as in \<open>add_option\<close>, the result is what was seen.\<close>

definition add_model :: "string \<Rightarrow> string list \<Rightarrow> string list" where
  "add_model model0 out = (let model = trim_space model0 in if model = [] \<or> model \<in> set out then out else out @ [model])"

definition claudeCodeModelOptions :: "ModelProvider \<Rightarrow> string list" where
  "claudeCodeModelOptions p = fold add_model (ProviderModelOptions p) []"

definition add_route :: "golib \<Rightarrow> claudeCodeModelRoute \<Rightarrow> claudeCodeModelRoute list \<Rightarrow> claudeCodeModelRoute list" where
  "add_route g r0 routes =
     (let r = r0\<lparr>cr_ID := trim_space (cr_ID r0), cr_UpstreamModel := trim_space (cr_UpstreamModel r0)\<rparr> in
      if cr_ID r = [] \<or> cr_UpstreamModel r = [] \<or> ToLower g (cr_ID r) \<in> set (map (\<lambda>q. ToLower g (cr_ID q)) routes)
      then routes
      else routes @ [if cr_DisplayName r = [] then r\<lparr>cr_DisplayName := cr_ID r\<rparr> else r])"

definition desktop_model_route :: "golib \<Rightarrow> ModelProvider \<Rightarrow> ClaudeDesktopModel \<Rightarrow> claudeCodeModelRoute" where
  "desktop_model_route g p m =
     (let i = pick (dm_ID m) (dm_Name m);
          upstream = (if dm_UpstreamModel m = [] then mapClaudeTierModel g i p else dm_UpstreamModel m)
      in \<lparr>cr_ID = i, cr_DisplayName = pick (dm_DisplayName m) i, cr_UpstreamModel = upstream\<rparr>)"

definition option_route :: "string \<Rightarrow> claudeCodeModelRoute" where
  "option_route model = \<lparr>cr_ID = claudeCodeModelPrefix @ model, cr_DisplayName = model, cr_UpstreamModel = model\<rparr>"

definition claudeCodeModelRoutes :: "golib \<Rightarrow> ModelProvider \<Rightarrow> claudeCodeModelRoute list" where
  "claudeCodeModelRoutes g p =
     fold (add_route g) (map (desktop_model_route g p) (pm_ClaudeDesktopModels (mp_Meta p)) @
                         map option_route (claudeCodeModelOptions p)) []"

definition claudeCodeUpstreamModel :: "golib \<Rightarrow> ModelProvider \<Rightarrow> string \<Rightarrow> string option" where
  "claudeCodeUpstreamModel g p clientModel =
     (let alias0 = trim_space clientModel;
          alias = (if has_suffix (ToLower g alias0) ''[1m]'' then trim_space (take (length alias0 - 4) alias0) else alias0)
      in case find (\<lambda>b. EqualFold g (claudeCodeModelPrefix @ trim_space b) alias) (pm_BlockedModels (mp_Meta p)) of
           Some b \<Rightarrow> Some (trim_space b)
         | None \<Rightarrow> map_option cr_UpstreamModel
                     (find (\<lambda>r. EqualFold g (cr_ID r) alias) (claudeCodeModelRoutes g p)))"

definition upstreamModelFor :: "golib \<Rightarrow> ModelProvider \<Rightarrow> string \<Rightarrow> string" where
  "upstreamModelFor g p clientModel =
     (case claudeCodeUpstreamModel g p clientModel of
        Some upstream \<Rightarrow> upstream
      | None \<Rightarrow>
          (let mapped = mapClaudeTierModel g clientModel p in
           if mapped \<noteq> clientModel then mapped
           else if clientModel \<in> set (claudeCodeModelOptions p) then clientModel
           else if mp_Model p \<noteq> [] then mp_Model p
           else clientModel))"

section \<open>Claude Desktop\<close>

definition claudeDesktopDefaultProxyRoutes :: "string list" where
  "claudeDesktopDefaultProxyRoutes = [''claude-sonnet-5'', ''claude-opus-4-8'', ''claude-haiku-4-5'', ''claude-fable-5'']"

definition isClaudeDesktopDirectModel :: "golib \<Rightarrow> string \<Rightarrow> bool" where
  "isClaudeDesktopDirectModel g model0 =
     (let model = ToLower g (trim_space model0) in
      if contains model ''[1m]'' then False
      else (case (case CutPrefix model ''anthropic/claude-'' of Some t \<Rightarrow> Some t | None \<Rightarrow> CutPrefix model ''claude-'') of
              None \<Rightarrow> False
            | Some tail \<Rightarrow>
                list_ex (\<lambda>pre. case CutPrefix tail pre of Some rest \<Rightarrow> rest \<noteq> [] | None \<Rightarrow> False)
                  [''sonnet-'', ''opus-'', ''haiku-'', ''fable-'']))"

definition claudeDesktopModelID :: "ClaudeDesktopModel \<Rightarrow> string" where
  "claudeDesktopModelID m = pick (trim_space (dm_ID m)) (trim_space (dm_Name m))"

text \<open>
  The second loop of \<open>nextClaudeDesktopSafeRouteID\<close>. \<open>taken\<close> is what both of its tests exclude: the reserved ids and the
  ids of the routes so far. Only finitely many numbers are taken, so the loop ends.
\<close>

definition numbered_route :: "nat \<Rightarrow> string" where
  "numbered_route i = hd claudeDesktopDefaultProxyRoutes @ ''-r'' @ decimal i"

primrec decimal_value :: "nat \<Rightarrow> string \<Rightarrow> nat" where
  "decimal_value acc [] = acc"
| "decimal_value acc (c # s) = decimal_value (10 * acc + (byte_of c - 48)) s"

lemma decimal_value_append: "decimal_value acc (s @ t) = decimal_value (decimal_value acc s) t"
  by (induction s arbitrary: acc) simp_all

lemma digit_value: "n < 10 \<Longrightarrow> byte_of (digit_char n) - 48 = n"
  by (simp add: byte_of_def digit_char_def)

lemma decimal_value_decimal [simp]: "decimal_value 0 (decimal n) = n"
proof (induction n rule: decimal.induct)
  case (1 n)
  show ?case
  proof (cases "n < 10")
    case True
    then show ?thesis by (simp add: decimal.simps [of n] digit_value)
  next
    case False
    with 1 show ?thesis by (simp add: decimal.simps [of n] decimal_value_append digit_value)
  qed
qed

lemma decimal_inj: "inj decimal"
  by (metis decimal_value_decimal injI)

lemma numbered_route_inj: "inj numbered_route"
  by (rule injI) (simp add: numbered_route_def inj_eq [OF decimal_inj])

lemma finite_taken: "finite {j. i \<le> j \<and> numbered_route j \<in> set taken}"
  by (rule finite_subset [OF _ finite_vimageI [OF finite_set numbered_route_inj]]) auto

function free_route :: "string list \<Rightarrow> nat \<Rightarrow> string" where
  "free_route taken i = (if numbered_route i \<in> set taken then free_route taken (Suc i) else numbered_route i)"
  by pat_completeness auto
termination
proof (relation "measure (\<lambda>(taken, i). card {j. i \<le> j \<and> numbered_route j \<in> set taken})")
  fix taken i
  assume t: "numbered_route i \<in> set taken"
  have "i \<in> {j. i \<le> j \<and> numbered_route j \<in> set taken} - {j. Suc i \<le> j \<and> numbered_route j \<in> set taken}"
    using t by simp
  then have "{j. Suc i \<le> j \<and> numbered_route j \<in> set taken} \<subset> {j. i \<le> j \<and> numbered_route j \<in> set taken}"
    by (auto simp only: psubset_eq mem_Collect_eq subset_iff dest: Suc_leD)
  then show "((taken, Suc i), taken, i) \<in> measure (\<lambda>(taken, i). card {j. i \<le> j \<and> numbered_route j \<in> set taken})"
    by (simp add: psubset_card_mono [OF finite_taken])
qed simp

declare free_route.simps [simp del]

definition nextClaudeDesktopSafeRouteID :: "ClaudeDesktopModel list \<Rightarrow> string list \<Rightarrow> string" where
  "nextClaudeDesktopSafeRouteID existing reserved =
     (let taken = reserved @ map dm_ID existing in
      case find (\<lambda>r. r \<notin> set taken) claudeDesktopDefaultProxyRoutes of
        Some r \<Rightarrow> r
      | None \<Rightarrow> free_route taken 2)"

text \<open>One model of the second loop of \<open>repairClaudeDesktopProxyModels\<close>; what is \<open>seen\<close> is the ids put out.\<close>

definition repair_model :: "golib \<Rightarrow> string list \<Rightarrow> ClaudeDesktopModel \<Rightarrow> ClaudeDesktopModel list \<Rightarrow> ClaudeDesktopModel list" where
  "repair_model g reserved m out =
     (let originalID = claudeDesktopModelID m;
          upstream = pick (trim_space (dm_UpstreamModel m)) originalID
      in if originalID = [] \<and> upstream = [] then out
         else (let routeID = (if isClaudeDesktopDirectModel g originalID then originalID
                              else nextClaudeDesktopSafeRouteID out reserved)
               in if routeID = [] \<or> routeID \<in> set (map dm_ID out) then out
                  else out @ [\<lparr>dm_ID = routeID, dm_Name = routeID,
                               dm_DisplayName = pick (pick (trim_space (dm_DisplayName m)) originalID) upstream,
                               dm_UpstreamModel = upstream\<rparr>]))"

definition repairClaudeDesktopProxyModels :: "golib \<Rightarrow> ClaudeDesktopModel list \<Rightarrow> ClaudeDesktopModel list" where
  "repairClaudeDesktopProxyModels g models =
     (let reserved = filter (isClaudeDesktopDirectModel g) (map claudeDesktopModelID models)
      in fold (repair_model g reserved) models [])"

definition claudeDesktopRouteModels :: "golib \<Rightarrow> ModelProvider \<Rightarrow> ClaudeDesktopModel list" where
  "claudeDesktopRouteModels g p =
     (let models = pm_ClaudeDesktopModels (mp_Meta p);
          first = hd claudeDesktopDefaultProxyRoutes
      in repairClaudeDesktopProxyModels g
           (if models = [] \<and> mp_Model p \<noteq> []
            then [\<lparr>dm_ID = first, dm_Name = first, dm_DisplayName = mp_Model p, dm_UpstreamModel = mp_Model p\<rparr>]
            else models))"

text \<open>
  \<open>mapClaudeDesktopRequestModel\<close>: the first route with the id, then the first with the upstream model, then the first
  route of a role the name mentions, in the order of the roles.
\<close>

definition route_name :: "ClaudeDesktopModel \<Rightarrow> string" where
  "route_name r = pick (dm_ID r) (dm_Name r)"

definition role_routes :: "golib \<Rightarrow> string \<Rightarrow> ClaudeDesktopModel list \<Rightarrow> ClaudeDesktopModel list" where
  "role_routes g normalized routes =
     concat (map (\<lambda>role. if \<not> contains normalized role then []
                         else filter (\<lambda>r. contains (ToLower g (dm_ID r @ dm_Name r)) role \<and> dm_UpstreamModel r \<noteq> []) routes)
       [''opus'', ''haiku'', ''fable'', ''sonnet''])"

definition mapClaudeDesktopRequestModel :: "golib \<Rightarrow> ModelProvider \<Rightarrow> fields \<Rightarrow> string + fields" where
  "mapClaudeDesktopRequestModel g p body =
     (let requested = trim_space (stringValue (fld body ''model'')) in
      if requested = [] then Inl ''missing model''
      else
        (let normalized = trim_space (trim_suffix (ToLower g requested) ''[1m]'');
             routes = claudeDesktopRouteModels g p;
             send = (\<lambda>m. Inr (put ''model'' (JStr m) body))
         in case find (\<lambda>r. route_name r \<noteq> [] \<and> EqualFold g (trim_space (route_name r)) normalized) routes of
              Some r \<Rightarrow> send (if dm_UpstreamModel r = [] then mapClaudeTierModel g (route_name r) p else dm_UpstreamModel r)
            | None \<Rightarrow>
                (case find (\<lambda>r. dm_UpstreamModel r \<noteq> [] \<and> EqualFold g (trim_space (dm_UpstreamModel r)) normalized) routes of
                   Some r \<Rightarrow> send (dm_UpstreamModel r)
                 | None \<Rightarrow>
                     (case role_routes g normalized routes of
                        r # _ \<Rightarrow> send (dm_UpstreamModel r)
                      | [] \<Rightarrow> Inl (''model route '' @ g_quote g requested @ '' is not configured for provider '' @ mp_ID p)))))"

section \<open>The model of a request\<close>

type_synonym model_map = "ModelProvider \<Rightarrow> fields \<Rightarrow> string + fields"

definition blocked_error :: "golib \<Rightarrow> ModelProvider \<Rightarrow> string \<Rightarrow> string" where
  "blocked_error g p model = ''model '' @ g_quote g model @ '' is temporarily blocked for provider '' @ g_quote g (mp_ID p)"

text \<open>The model id and the body it was written into.\<close>

definition resolveUpstreamModel :: "golib \<Rightarrow> ModelProvider \<Rightarrow> fields \<Rightarrow> model_map option \<Rightarrow> string + (string \<times> fields)" where
  "resolveUpstreamModel g p body mapModel =
     (let asked = stringValue (fld body ''model'') in
      if ModelBlocked p asked then Inl (blocked_error g p asked)
      else
        (case (case mapModel of
                 None \<Rightarrow> Inr (upstreamModelFor g p asked, body)
               | Some f \<Rightarrow> (case f p body of Inl e \<Rightarrow> Inl e | Inr body' \<Rightarrow> Inr (stringValue (fld body' ''model''), body'))) of
           Inl e \<Rightarrow> Inl e
         | Inr (model, body') \<Rightarrow>
             if ModelBlocked p model then Inl (blocked_error g p model)
             else Inr (model, if model \<noteq> [] then put ''model'' (JStr model) body' else body')))"

end
