(* ===== verification/Provider_Proxy.thy ===== *)
theory Provider_Proxy
  imports Provider_Models Translate_Streams Access "HOL-Library.Word" "HOL-Library.Product_Lexorder"
begin

text \<open>
  Local routing: provider/proxy.go and provider/forward.go with the keys of provider/secrets.go. A request of a client
  is offered to a chain of providers, each behind a circuit breaker, until one answers.

  The state of the proxy is its database, the breakers, the process environment and the reply to the client, with
  the requests sent upstream as a log. What the outside contributes to one request is a record \<open>exchange\<close>: the answers
  of the upstream servers, the secret store, the clock, random draws, the request headers, and the number of writes
  the client takes before it is gone.
\<close>

section \<open>Headers\<close>

type_synonym headers = "(string \<times> string list) list"

text \<open>\<^verbatim>\<open>textproto.CanonicalMIMEHeaderKey\<close>: a key with a byte that no token may hold stays as it is.\<close>

definition ascii_upper :: "char \<Rightarrow> char" where
  "ascii_upper c = (if in_bytes 97 122 c then char_of (byte_of c - 32) else c)"

definition token_char :: "char \<Rightarrow> bool" where
  "token_char c \<longleftrightarrow> in_bytes 48 57 c \<or> in_bytes 65 90 c \<or> in_bytes 97 122 c \<or> c \<in> set ''!#$%&*+-.^_`|~'' \<or> c = CHR 0x27"

fun capitalise :: "bool \<Rightarrow> string \<Rightarrow> string" where
  "capitalise up [] = []"
| "capitalise up (c # s) = (if up then ascii_upper c else ascii_lower c) # capitalise (c = CHR ''-'') s"

definition canonical :: "string \<Rightarrow> string" where
  "canonical k = (if list_all token_char k then capitalise True k else k)"

definition header_values :: "string \<Rightarrow> headers \<Rightarrow> string list" where
  "header_values k h = (case map_of h (canonical k) of None \<Rightarrow> [] | Some vs \<Rightarrow> vs)"

definition header_get :: "string \<Rightarrow> headers \<Rightarrow> string" where
  "header_get k h = (case header_values k h of [] \<Rightarrow> [] | v # _ \<Rightarrow> v)"

definition header_put :: "string \<Rightarrow> string list \<Rightarrow> headers \<Rightarrow> headers" where
  "header_put k vs h = filter (\<lambda>(k', _). k' \<noteq> canonical k) h @ [(canonical k, vs)]"

definition header_set :: "string \<Rightarrow> string \<Rightarrow> headers \<Rightarrow> headers" where
  "header_set k v h = header_put k [v] h"

definition header_add :: "string \<Rightarrow> string \<Rightarrow> headers \<Rightarrow> headers" where
  "header_add k v h = header_put k (header_values k h @ [v]) h"

definition skipped_headers :: "string list" where
  "skipped_headers = [''authorization'', ''x-api-key'', ''host'', ''connection'', ''keep-alive'', ''proxy-authenticate'',
     ''proxy-authorization'', ''te'', ''trailer'', ''transfer-encoding'', ''upgrade'', ''content-length'', ''accept-encoding'']"

text \<open>The copies of headers: \<open>copyProxyHeaders\<close> towards the provider, the loop of \<open>relayResponse\<close> towards the client.\<close>

definition copy_headers :: "golib \<Rightarrow> string list \<Rightarrow> headers \<Rightarrow> headers \<Rightarrow> headers" where
  "copy_headers g skip src dst =
     fold (\<lambda>(k, vs). if ToLower g k \<in> set skip then id else fold (header_add k) vs) src dst"

definition copyProxyHeaders :: "golib \<Rightarrow> headers \<Rightarrow> headers \<Rightarrow> headers" where
  "copyProxyHeaders g src dst = copy_headers g skipped_headers src dst"

section \<open>The client\<close>

record client =
  cl_headers :: headers
  cl_status :: "nat option"
  cl_writes :: "string list"

definition fresh_client :: client where
  "fresh_client = \<lparr>cl_headers = [], cl_status = None, cl_writes = []\<rparr>"

text \<open>A second \<^verbatim>\<open>WriteHeader\<close> has no effect.\<close>

definition WriteHeader :: "nat \<Rightarrow> client \<Rightarrow> client" where
  "WriteHeader code c = (case cl_status c of None \<Rightarrow> c\<lparr>cl_status := Some code\<rparr> | Some _ \<Rightarrow> c)"

text \<open>Writes in order, until the client has taken \<open>accepts\<close> in all; whether they ended with an error.\<close>

definition write_all :: "nat \<Rightarrow> string list \<times> bool \<Rightarrow> client \<Rightarrow> bool \<times> client" where
  "write_all accepts p c =
     (let d = delivered (accepts - length (cl_writes c)) p in (snd d, c\<lparr>cl_writes := cl_writes c @ fst d\<rparr>))"

definition writeProxyValue :: "golib \<Rightarrow> nat \<Rightarrow> nat \<Rightarrow> jv \<Rightarrow> client \<Rightarrow> client" where
  "writeProxyValue g accepts code v c =
     snd (write_all accepts ([g_enc g v @ [LF]], False)
            (WriteHeader code (c\<lparr>cl_headers := header_set ''Content-Type'' ''application/json'' (cl_headers c)\<rparr>)))"

definition writeProxyJSON :: "golib \<Rightarrow> nat \<Rightarrow> nat \<Rightarrow> fields \<Rightarrow> client \<Rightarrow> client" where
  "writeProxyJSON g accepts code v c = writeProxyValue g accepts code (JObj v) c"

definition anthropic_error :: "string \<Rightarrow> string \<Rightarrow> fields" where
  "anthropic_error errType message =
     mk [(''type'', JStr ''error''), (''error'', obj [(''type'', JStr errType), (''message'', JStr message)])]"

definition openai_error :: "string \<Rightarrow> fields" where
  "openai_error message = mk [(''error'', obj [(''message'', JStr message), (''type'', JStr ''api_error'')])]"

definition relayResponse :: "golib \<Rightarrow> nat \<Rightarrow> nat \<Rightarrow> headers \<Rightarrow> reader \<Rightarrow> client \<Rightarrow> bool \<times> client" where
  "relayResponse g accepts code h r c =
     write_all accepts (copySSE r) (WriteHeader code
       (c\<lparr>cl_headers := copy_headers g [''connection'', ''transfer-encoding'', ''keep-alive''] h (cl_headers c)\<rparr>))"

section \<open>Breakers\<close>

text \<open>
  The counter is an \<^verbatim>\<open>atomic.Int32\<close>, the end of the pause an \<^verbatim>\<open>atomic.Int64\<close>; a missing breaker of the map is a new one.
\<close>

record breaker =
  br_failures :: "32 word"
  br_openTill :: "64 word"

definition new_breaker :: breaker where
  "new_breaker = \<lparr>br_failures = 0, br_openTill = 0\<rparr>"

text \<open>A time is counted in nanoseconds from year 1; \<^verbatim>\<open>UnixNano\<close> counts from 1970 in an \<^verbatim>\<open>int64\<close> that wraps.\<close>

definition unix_epoch :: gotime where
  "unix_epoch = 62135596800 * second_ns"

definition UnixNano :: "gotime \<Rightarrow> 64 word" where
  "UnixNano t = word_of_int (t - unix_epoch)"

definition available :: "gotime \<Rightarrow> breaker \<Rightarrow> bool" where
  "available now b \<longleftrightarrow> br_openTill b <=s UnixNano now"

definition recordFailure :: "32 word \<Rightarrow> int \<Rightarrow> gotime \<Rightarrow> breaker \<Rightarrow> bool \<times> breaker" where
  "recordFailure threshold cooldown now b =
     (let n = br_failures b + 1 in
      if threshold <=s n then (True, \<lparr>br_failures = 0, br_openTill = UnixNano (now + cooldown)\<rparr>)
      else (False, b\<lparr>br_failures := n\<rparr>))"

definition recordSuccess :: "breaker \<Rightarrow> breaker" where
  "recordSuccess b = \<lparr>br_failures = 0, br_openTill = 0\<rparr>"

text \<open>\<^verbatim>\<open>time.Duration(n)*time.Second\<close> at 64 bits.\<close>

definition seconds :: "int \<Rightarrow> int" where
  "seconds n = sint (word_of_int (n * second_ns) :: 64 word)"

section \<open>The state\<close>

record http_request =
  rq_method :: string
  rq_url :: string
  rq_headers :: headers
  rq_body :: string

datatype http_answer = Net_Error string | Answer nat headers reader

datatype secret_read = Secret string | No_Secret | Secret_Error string

record exchange =
  e_http :: "nat \<Rightarrow> http_request \<Rightarrow> http_answer"
  e_secret :: "string \<Rightarrow> secret_read"
  e_clock :: "nat \<Rightarrow> gotime"
  e_attemptID :: "nat \<Rightarrow> string"
  e_requestID :: string
  e_traceID :: string
  e_messageID :: string
  e_gatewayToken :: "string option"
  e_headers :: headers
  e_accepts :: nat

record proxy_state =
  x_db :: proxy_db
  x_breakers :: "string \<Rightarrow> breaker"
  x_env :: "string \<Rightarrow> string"
  x_sent :: "(ModelProvider \<times> http_request) list"
  x_client :: client

section \<open>Keys\<close>

text \<open>\<^verbatim>\<open>os.Setenv\<close>; an unset variable reads as the empty string.\<close>

definition setenv :: "string \<Rightarrow> string \<Rightarrow> (string \<Rightarrow> string) \<Rightarrow> (string \<Rightarrow> string) option" where
  "setenv k v env =
     (if k = [] \<or> CHR ''='' \<in> set k \<or> CHR 0x00 \<in> set k \<or> CHR 0x00 \<in> set v then None else Some (env(k := v)))"

definition EnsureProviderAPIKeyEnv ::
  "exchange \<Rightarrow> string \<Rightarrow> (string \<Rightarrow> string) \<Rightarrow> (string + bool) \<times> (string \<Rightarrow> string)" where
  "EnsureProviderAPIKeyEnv x apiKeyEnv0 env =
     (let apiKeyEnv = trim_space apiKeyEnv0 in
      if apiKeyEnv = [] then (Inr False, env)
      else if env apiKeyEnv \<noteq> [] then (Inr True, env)
      else (case e_secret x apiKeyEnv of
              No_Secret \<Rightarrow> (Inr False, env)
            | Secret_Error e \<Rightarrow> (Inl e, env)
            | Secret s \<Rightarrow>
                (let secret = trim_space s in
                 if secret = [] then (Inr False, env)
                 else (case setenv apiKeyEnv secret env of
                         None \<Rightarrow> (Inl (''set API key env '' @ apiKeyEnv @ '': setenv: invalid argument''), env)
                       | Some env' \<Rightarrow> (Inr True, env')))))"

definition providerAPIKeyFromEnvOrSecret ::
  "exchange \<Rightarrow> string \<Rightarrow> (string \<Rightarrow> string) \<Rightarrow> (string + string) \<times> (string \<Rightarrow> string)" where
  "providerAPIKeyFromEnvOrSecret x apiKeyEnv0 env =
     (let apiKeyEnv = trim_space apiKeyEnv0 in
      if apiKeyEnv = [] then (Inr [], env)
      else if trim_space (env apiKeyEnv) \<noteq> [] then (Inr (trim_space (env apiKeyEnv)), env)
      else (case EnsureProviderAPIKeyEnv x apiKeyEnv env of
              (Inl e, env') \<Rightarrow> (Inl e, env')
            | (Inr ok, env') \<Rightarrow> (Inr (if ok then trim_space (env' apiKeyEnv) else []), env')))"

definition providerAPIKey :: "exchange \<Rightarrow> ModelProvider \<Rightarrow> (string \<Rightarrow> string) \<Rightarrow> string \<times> (string \<Rightarrow> string)" where
  "providerAPIKey x p env =
     (if mp_APIKeyEnv p = [] then (trim_space (mp_APIKey p), env)
      else (case providerAPIKeyFromEnvOrSecret x (mp_APIKeyEnv p) env of
              (Inr (c # v), env') \<Rightarrow> (c # v, env')
            | (_, env') \<Rightarrow> (trim_space (mp_APIKey p), env')))"

definition providerAPIKeyIssue :: "exchange \<Rightarrow> ModelProvider \<Rightarrow> (string \<Rightarrow> string) \<Rightarrow> string \<times> (string \<Rightarrow> string)" where
  "providerAPIKeyIssue x p env =
     (let apiKeyEnv = trim_space (mp_APIKeyEnv p) in
      if trim_space (mp_APIKey p) \<noteq> [] \<or> apiKeyEnv = [] then ([], env)
      else (case EnsureProviderAPIKeyEnv x apiKeyEnv env of
              (Inl e, env') \<Rightarrow> (e, env')
            | (Inr ok, env') \<Rightarrow>
                (if \<not> ok \<or> env' apiKeyEnv = [] then ''environment variable '' @ apiKeyEnv @ '' is empty or not set'' else [],
                 env')))"

section \<open>The chain\<close>

definition liveConfigTool :: "string \<Rightarrow> string" where
  "liveConfigTool tool0 =
     (let tool = trim_space tool0 in
      if tool \<in> set [''claude'', ''claudecode'', ''claudecode-cli'', ''claude-code-cli''] then ''claudecode''
      else if tool \<in> set [''claude-desktop'', ''claudecode-desktop'', ''claude-code-desktop''] then ''claude-desktop''
      else if tool \<in> set [''codex'', ''codex-cli'', ''codex-app'', ''codex-desktop'', ''codex-app-server''] then ''codex''
      else tool)"

definition activeRouteKeys :: "string \<Rightarrow> string list" where
  "activeRouteKeys canon =
     (if canon = ''codex'' then [''codex'', ''codex-app'', ''codex-desktop'']
      else if canon = ''claudecode'' then [''claudecode'', ''claude'']
      else [canon])"

text \<open>The first key that has a route, and its provider under the metadata of the route; a failed read is skipped.\<close>

fun active_route_provider :: "string list \<Rightarrow> proxy_db \<Rightarrow> ModelProvider option \<times> proxy_db" where
  "active_route_provider [] d = (None, d)"
| "active_route_provider (key # keys) d =
     (case ActiveProviderRoute key d of
        (Some (Some route), d1) \<Rightarrow>
          (case GetProvider (ro_ProviderID route) d1 of
             (Some p, d2) \<Rightarrow> (ProviderWithRouteMeta p (ro_Meta route), d2)
           | (None, d2) \<Rightarrow> (None, d2))
      | (_, d1) \<Rightarrow> active_route_provider keys d1)"

definition append_provider :: "ModelProvider \<Rightarrow> ModelProvider list \<Rightarrow> ModelProvider list" where
  "append_provider p chain = (if mp_ID p \<in> set (map mp_ID chain) then chain else chain @ [p])"

text \<open>\<^verbatim>\<open>sort.Slice\<close> with the order of \<open>providerChain\<close>; ids are unique, so the order is total on the queue.\<close>

definition queue_before :: "ModelProvider \<Rightarrow> ModelProvider \<Rightarrow> bool" where
  "queue_before p q \<longleftrightarrow> (if mp_SortIndex p \<noteq> mp_SortIndex q then mp_SortIndex p < mp_SortIndex q else mp_ID p < mp_ID q)"

definition sorted_queue :: "ModelProvider list \<Rightarrow> ModelProvider list" where
  "sorted_queue all = sort_key (\<lambda>p. (mp_SortIndex p, mp_ID p)) (filter mp_InFailoverQueue all)"

definition zero_config :: ProxyToolConfig where
  "zero_config = \<lparr>xc_Tool = [], xc_Enabled = False, xc_AutoFailover = False, xc_MaxRetries = 0,
     xc_FailureThreshold = 0, xc_CooldownSeconds = 0\<rparr>"

definition providerChain :: "string \<Rightarrow> proxy_db \<Rightarrow> (ModelProvider list \<times> ProxyToolConfig) \<times> proxy_db" where
  "providerChain tool d =
     (let canon = liveConfigTool tool in
      case GetProxyToolConfig canon d of (cfg0, d1) \<Rightarrow>
        (let cfg = (case cfg0 of None \<Rightarrow> zero_config | Some c \<Rightarrow> c) in
         case active_route_provider (activeRouteKeys canon) d1 of (active, d2) \<Rightarrow>
           (let chain = (case active of None \<Rightarrow> [] | Some p \<Rightarrow> [p]) in
            if \<not> xc_AutoFailover cfg then ((chain, cfg), d2)
            else (case ListProviders d2 of
                    (None, d3) \<Rightarrow> ((chain, cfg), d3)
                  | (Some all, d3) \<Rightarrow> ((fold append_provider (sorted_queue all) chain, cfg), d3)))))"

definition hotSwitchAfterFailover :: "string \<Rightarrow> ModelProvider \<Rightarrow> proxy_db \<Rightarrow> proxy_db" where
  "hotSwitchAfterFailover tool p d = snd (SetActiveProvider (liveConfigTool tool) (mp_ID p) d)"

end
