(* ===== verification/Provider_Forward.thy ===== *)
theory Provider_Forward
  imports Provider_Proxy
begin

text \<open>
  One client request on its way through the chain: provider/forward.go, the conversation key of
  provider/anthropic_session.go, the request identity of provider/forward_metrics.go, and the request handlers of
  provider/proxy.go. The text of an error that only a trace could show is not kept, and neither are the durations and
  token counts of a trace.
\<close>

section \<open>Requests upstream\<close>

definition providerUpstreamProto :: "golib \<Rightarrow> ModelProvider \<Rightarrow> string \<Rightarrow> string" where
  "providerUpstreamProto g p clientProto =
     (if list_ex (\<lambda>f. normalizeProto (ToLower g) f = clientProto) (pm_SupportedAPIFormats (mp_Meta p)) then clientProto
      else upstreamProto (ToLower g) (pm_APIFormat (mp_Meta p)) clientProto)"

definition trim_slashes :: "string \<Rightarrow> string" where
  "trim_slashes s = rev (dropWhile (\<lambda>c. c = CHR ''/'') (rev s))"

definition joinURL :: "string \<Rightarrow> string \<Rightarrow> string" where
  "joinURL base endpoint = trim_slashes (trim_space base) @ endpoint"

text \<open>\<^verbatim>\<open>url.PathEscape\<close>.\<close>

definition path_char :: "char \<Rightarrow> bool" where
  "path_char c \<longleftrightarrow> in_bytes 48 57 c \<or> in_bytes 65 90 c \<or> in_bytes 97 122 c \<or> c \<in> set ''-_.~$&+=:@''"

definition upper_hex :: "nat \<Rightarrow> char" where
  "upper_hex n = char_of (if n < 10 then 48 + n else 55 + n)"

definition PathEscape :: "string \<Rightarrow> string" where
  "PathEscape s = concat (map (\<lambda>c. if path_char c then [c]
     else [CHR ''%'', upper_hex (byte_of c div 16), upper_hex (byte_of c mod 16)]) s)"

definition upstreamEndpoint :: "string \<Rightarrow> string \<Rightarrow> string \<Rightarrow> bool \<Rightarrow> string" where
  "upstreamEndpoint proto baseURL model stream =
     (if proto = ''anthropic'' then
        (if has_suffix (trim_slashes baseURL) ''/v1'' then joinURL baseURL ''/messages'' else joinURL baseURL ''/v1/messages'')
      else if proto = ''openai_responses'' then joinURL baseURL ''/responses''
      else if proto = ''gemini'' then
        (let meth = (if stream then ''streamGenerateContent'' else ''generateContent'');
             m = (if trim_space model = [] then ''gemini-pro'' else trim_space model);
             u = joinURL baseURL (''/models/'' @ PathEscape m @ '':'' @ meth)
         in if stream then u @ ''?alt=sse'' else u)
      else joinURL baseURL ''/chat/completions'')"

definition applyUpstreamAuth :: "string \<Rightarrow> string \<Rightarrow> headers \<Rightarrow> headers" where
  "applyUpstreamAuth proto key h =
     (if key = [] then h
      else if proto = ''anthropic'' then
        (let h1 = header_set ''Authorization'' (''Bearer '' @ key) (header_set ''x-api-key'' key h)
         in if header_get ''anthropic-version'' h1 = [] then header_set ''anthropic-version'' ''2023-06-01'' h1 else h1)
      else if proto = ''gemini'' then header_set ''x-goog-api-key'' key h
      else header_set ''Authorization'' (''Bearer '' @ key) h)"

text \<open>\<^verbatim>\<open>strings.Cut\<close>, the part after the separator when it is there.\<close>

fun cut_after :: "string \<Rightarrow> string \<Rightarrow> string option" where
  "cut_after sep [] = (if sep = [] then Some [] else None)"
| "cut_after sep (c # s) = (if has_prefix (c # s) sep then Some (drop (length sep) (c # s)) else cut_after sep s)"

definition anthropicResponseCacheKey :: "golib \<Rightarrow> fields \<Rightarrow> string" where
  "anthropicResponseCacheKey g body =
     (let metadata = obj_or_nil (fld body ''metadata'');
          direct = trim_space (stringValue (fld metadata ''session_id''));
          userID = stringValue (fld metadata ''user_id'');
          session =
            (if direct \<noteq> [] then direct
             else (case dec_map (g_dec g) userID of
                     Some identity \<Rightarrow> trim_space (stringValue (fld identity ''session_id''))
                   | None \<Rightarrow>
                       if has_prefix userID ''user_'' then
                         (case cut_after ''_session_'' userID of Some suffix \<Rightarrow> trim_space suffix | None \<Rightarrow> [])
                       else []))
      in if session = [] then [] else ''agentmux-claude-'' @ g_sha256 g (''agentmux:claude-session:'' @ session))"

text \<open>The payload: the client's body when both sides speak one protocol, its translation otherwise.\<close>

definition upstream_payload :: "golib \<Rightarrow> string \<Rightarrow> string \<Rightarrow> fields \<Rightarrow> string \<Rightarrow> string + string" where
  "upstream_payload g clientProto upstream body upstreamModel =
     (if upstream = clientProto then Inr (g_enc g (JObj body))
      else (case decodeToIR (g_enc g) clientProto body of
              Inl e \<Rightarrow> Inl e
            | Inr ir \<Rightarrow>
                (case encodeFromIR (g_dec g) (g_upper g) upstream
                        (if upstreamModel \<noteq> [] then put ''model'' (JStr upstreamModel) ir else ir) of
                   Inl e \<Rightarrow> Inl e
                 | Inr upstreamBody \<Rightarrow>
                     (let key = anthropicResponseCacheKey g body in
                      Inr (g_enc g (JObj
                        (if clientProto = ''anthropic'' \<and> upstream = ''openai_responses'' \<and> key \<noteq> []
                         then put ''prompt_cache_key'' (JStr key) upstreamBody else upstreamBody)))))))"

section \<open>One attempt\<close>

record forwardOpts =
  fo_tool :: string
  fo_clientProto :: string
  fo_stream :: bool
  fo_mapModel :: "model_map option"
  fo_writeErr :: "string \<Rightarrow> fields"

record proxyAttemptResult =
  at_OK :: bool
  at_Retryable :: bool
  at_StatusCode :: nat
  at_Upstream :: string
  at_Err :: "string option"

definition isFailoverStatus :: "nat \<Rightarrow> bool" where
  "isFailoverStatus code \<longleftrightarrow> 500 \<le> code \<or> code = 429 \<or> code = 401 \<or> code = 403"

definition clip_text :: "string \<Rightarrow> nat \<Rightarrow> string" where
  "clip_text s0 n = (let s = trim_space s0 in if length s \<le> n then s else take n s @ ''...'')"

definition failed :: "bool \<Rightarrow> string \<Rightarrow> proxyAttemptResult \<Rightarrow> proxyAttemptResult" where
  "failed retryable e r = r\<lparr>at_Retryable := retryable, at_Err := Some e\<rparr>"

definition io_error :: string where
  "io_error = ''unexpected EOF''"

definition stream_headers :: "client \<Rightarrow> client" where
  "stream_headers c = WriteHeader 200 (c\<lparr>cl_headers :=
     header_set ''Cache-Control'' ''no-cache'' (header_set ''Content-Type'' ''text/event-stream'' (cl_headers c))\<rparr>)"

text \<open>
  The reply to the client once the provider has accepted the request: the end of \<open>forwardOne\<close>, with None where nothing is
  written.
\<close>

definition finished :: "proxyAttemptResult \<Rightarrow> bool \<times> client \<Rightarrow> proxyAttemptResult \<times> client option" where
  "finished r w = (if fst w then failed False io_error r else r\<lparr>at_OK := True\<rparr>, Some (snd w))"

definition provider_reply ::
  "golib \<Rightarrow> exchange \<Rightarrow> forwardOpts \<Rightarrow> ModelProvider \<Rightarrow> string \<Rightarrow> nat \<Rightarrow> headers \<Rightarrow> reader \<Rightarrow> proxyAttemptResult \<Rightarrow>
    client \<Rightarrow> proxyAttemptResult \<times> client option" where
  "provider_reply g x opts p requestModel code h body r c =
     (if at_Upstream r = fo_clientProto opts then finished r (relayResponse g (e_accepts x) code h body c)
      else if fo_stream opts
      then finished r (write_all (e_accepts x)
             (streamUpstreamToClient (g_enc g) (g_dec g) (g_upper g) (at_Upstream r) (fo_clientProto opts) body
                requestModel (e_messageID x)) (stream_headers c))
      else if snd body then (failed False io_error r, None)
      else (case dec_map (g_dec g) (fst body) of
              None \<Rightarrow> (failed True (mp_ID p @ '': invalid upstream JSON'') r, None)
            | Some upstreamResp \<Rightarrow>
                (case upstreamRespToIR (g_enc g) (g_upper g) (at_Upstream r) upstreamResp of
                   Inl e \<Rightarrow> (failed False e r, None)
                 | Inr ir \<Rightarrow>
                     (case irRespToClient (g_dec g) (fo_clientProto opts) ir requestModel of
                        Inl e \<Rightarrow> (failed False e r, None)
                      | Inr resp \<Rightarrow> (r\<lparr>at_OK := True\<rparr>, Some (writeProxyJSON g (e_accepts x) 200 resp c))))))"

text \<open>\<open>before\<close> is \<open>beforeRespond\<close>, called just before the first write.\<close>

definition answer_client ::
  "golib \<Rightarrow> exchange \<Rightarrow> forwardOpts \<Rightarrow> ModelProvider \<Rightarrow> string \<Rightarrow> (proxy_db \<Rightarrow> proxy_db) \<Rightarrow> nat \<Rightarrow> headers \<Rightarrow> reader \<Rightarrow>
    proxyAttemptResult \<Rightarrow> proxy_state \<Rightarrow> proxyAttemptResult \<times> proxy_state" where
  "answer_client g x opts p requestModel before code h body r s =
     (case provider_reply g x opts p requestModel code h body r (x_client s) of
        (r1, None) \<Rightarrow> (r1, s)
      | (r1, Some c) \<Rightarrow> (r1, s\<lparr>x_db := before (x_db s), x_client := c\<rparr>))"

definition forwardOne ::
  "golib \<Rightarrow> exchange \<Rightarrow> forwardOpts \<Rightarrow> nat \<Rightarrow> ModelProvider \<Rightarrow> fields \<Rightarrow> string \<Rightarrow> string \<Rightarrow> (proxy_db \<Rightarrow> proxy_db) \<Rightarrow>
    proxy_state \<Rightarrow> proxyAttemptResult \<times> proxy_state" where
  "forwardOne g x opts i p body requestModel upstreamModel before s =
     (let upstream = providerUpstreamProto g p (fo_clientProto opts);
          r = \<lparr>at_OK = False, at_Retryable = False, at_StatusCode = 0, at_Upstream = upstream, at_Err = None\<rparr>
      in case providerAPIKeyIssue x p (x_env s) of (issue, env1) \<Rightarrow>
           (let s1 = s\<lparr>x_env := env1\<rparr> in
            if issue \<noteq> [] then (failed True (mp_ID p @ '': '' @ issue) r, s1)
            else (case upstream_payload g (fo_clientProto opts) upstream body upstreamModel of
                    Inl e \<Rightarrow> (failed False e r, s1)
                  | Inr payload \<Rightarrow>
                      (let endpoint = upstreamEndpoint upstream (mp_BaseURL p) upstreamModel (fo_stream opts) in
                       case g_badURL g endpoint of
                         Some e \<Rightarrow> (failed True e r, s1)
                       | None \<Rightarrow>
                           (case providerAPIKey x p env1 of (key, env2) \<Rightarrow>
                             (let h0 = (if upstream = fo_clientProto opts then copyProxyHeaders g (e_headers x) [] else []);
                                  h = applyUpstreamAuth upstream key (header_set ''Content-Type'' ''application/json'' h0);
                                  req = \<lparr>rq_method = ''POST'', rq_url = endpoint, rq_headers = h, rq_body = payload\<rparr>;
                                  s2 = s1\<lparr>x_env := env2, x_sent := x_sent s1 @ [(p, req)]\<rparr>
                              in case e_http x i req of
                                   Net_Error e \<Rightarrow> (failed True e r, s2)
                                 | Answer code rh rb \<Rightarrow>
                                     (let r1 = r\<lparr>at_StatusCode := code\<rparr> in
                                      if isFailoverStatus code \<or> 400 \<le> code then
                                        (failed (isFailoverStatus code)
                                           (mp_ID p @ '': upstream '' @ decimal code @ '': '' @
                                              clip_text (take 4096 (fst rb)) 300) r1, s2)
                                      else answer_client g x opts p requestModel before code rh rb r1 s2)))))))"

section \<open>Traces\<close>

fun firstTraceValue :: "string list \<Rightarrow> string" where
  "firstTraceValue [] = []"
| "firstTraceValue (v # vs) = (if trim_space v \<noteq> [] then trim_space v else firstTraceValue vs)"

definition traceBodyString :: "fields \<Rightarrow> string list \<Rightarrow> string" where
  "traceBodyString body keys = firstNonNilString (map (\<lambda>k. stringValue (fld body k)) keys)"

definition traceNestedBodyString :: "fields \<Rightarrow> string \<Rightarrow> string list \<Rightarrow> string" where
  "traceNestedBodyString body key keys = traceBodyString (obj_or_nil (fld body key)) keys"

definition session_keys :: "string list" where
  "session_keys = [''session_id'', ''sessionId'', ''conversation_id'', ''conversationId'', ''thread_id'', ''threadId'']"

definition project_keys :: "string list" where
  "project_keys = [''project_dir'', ''projectDir'', ''cwd'', ''working_directory'', ''workingDirectory'']"

definition traceSessionID :: "headers \<Rightarrow> fields \<Rightarrow> string" where
  "traceSessionID h body = firstTraceValue
     ([traceBodyString body session_keys, traceNestedBodyString body ''metadata'' session_keys] @
      map (\<lambda>k. header_get k h) [''x-agentmux-session-id'', ''x-session-id'', ''x-conversation-id'', ''x-thread-id''])"

definition traceProjectDir :: "headers \<Rightarrow> fields \<Rightarrow> string" where
  "traceProjectDir h body = firstTraceValue
     ([traceBodyString body project_keys, traceNestedBodyString body ''metadata'' project_keys] @
      map (\<lambda>k. header_get k h) [''x-agentmux-project-dir'', ''x-project-dir'', ''x-cwd''])"

text \<open>\<^verbatim>\<open>strings.Split(s, "-")\<close>.\<close>

fun split_dash :: "string \<Rightarrow> string list" where
  "split_dash [] = [[]]"
| "split_dash (c # s) = (if c = CHR ''-'' then [] # split_dash s else (c # hd (split_dash s)) # tl (split_dash s))"

definition traceparent_part :: "nat \<Rightarrow> nat \<Rightarrow> string \<Rightarrow> string" where
  "traceparent_part i n value =
     (let parts = split_dash (trim_space value) in
      if 4 \<le> length parts \<and> length (parts ! i) = n then parts ! i else [])"

definition traceIDFromTraceparent :: "string \<Rightarrow> string" where
  "traceIDFromTraceparent value = traceparent_part 1 32 value"

definition spanIDFromTraceparent :: "string \<Rightarrow> string" where
  "spanIDFromTraceparent value = traceparent_part 2 16 value"

record proxyRequestIdentity =
  id_RequestID :: string
  id_TraceID :: string
  id_ParentSpanID :: string

definition proxyRequestIdentityFrom :: "exchange \<Rightarrow> proxyRequestIdentity" where
  "proxyRequestIdentityFrom x =
     (let h = e_headers x in
      \<lparr>id_RequestID = pick (firstTraceValue [header_get ''x-request-id'' h, header_get ''request-id'' h]) (e_requestID x),
       id_TraceID = pick (firstTraceValue [header_get ''x-agentmux-trace-id'' h,
                            traceIDFromTraceparent (header_get ''traceparent'' h)]) (e_traceID x),
       id_ParentSpanID = spanIDFromTraceparent (header_get ''traceparent'' h)\<rparr>)"

definition recordProxyTrace ::
  "exchange \<Rightarrow> fields \<Rightarrow> forwardOpts \<Rightarrow> ModelProvider \<Rightarrow> string \<Rightarrow> string \<Rightarrow> string \<Rightarrow> string \<Rightarrow> nat \<Rightarrow>
    proxyAttemptResult \<Rightarrow> proxy_db \<Rightarrow> proxy_db" where
  "recordProxyTrace x body opts p clientModel upstreamModel attemptID parentAttemptID i r d =
     (let identity = proxyRequestIdentityFrom x in
      snd (InsertProxyTrace [] (e_clock x (Suc i))
        \<lparr>xt_ID = attemptID, xt_RequestID = id_RequestID identity, xt_TraceID = id_TraceID identity,
         xt_ParentSpanID = id_ParentSpanID identity, xt_Attempt = Suc i, xt_ParentAttemptID = parentAttemptID,
         xt_Timestamp = e_clock x (Suc i), xt_StartedAt = e_clock x i, xt_Tool = fo_tool opts, xt_ProviderID = mp_ID p,
         xt_ProviderName = mp_Name p, xt_ClientProtocol = fo_clientProto opts, xt_UpstreamProtocol = at_Upstream r,
         xt_ClientModel = clientModel, xt_UpstreamModel = upstreamModel, xt_StatusCode = int (at_StatusCode r),
         xt_Success = at_OK r, xt_Error = (if at_Err r = None then [] else ''Proxy request failed''),
         xt_SessionID = traceSessionID (e_headers x) body, xt_ProjectDir = traceProjectDir (e_headers x) body\<rparr> d))"

section \<open>The chain\<close>

definition write_error :: "golib \<Rightarrow> exchange \<Rightarrow> forwardOpts \<Rightarrow> nat \<Rightarrow> string \<Rightarrow> proxy_state \<Rightarrow> proxy_state" where
  "write_error g x opts code message s =
     s\<lparr>x_client := writeProxyJSON g (e_accepts x) code (fo_writeErr opts message) (x_client s)\<rparr>"

definition set_breaker :: "string \<Rightarrow> breaker \<Rightarrow> proxy_state \<Rightarrow> proxy_state" where
  "set_breaker i b s = s\<lparr>x_breakers := (x_breakers s)(i := b)\<rparr>"

text \<open>
  The loop: \<open>i\<close> is the index of the first provider of the list in the chain, \<open>n\<close> the length of the chain. It stops at
  an answer, at a failure that is not retryable, and at a model that cannot be sent.
\<close>

fun forward_loop ::
  "golib \<Rightarrow> exchange \<Rightarrow> forwardOpts \<Rightarrow> ProxyToolConfig \<Rightarrow> fields \<Rightarrow> nat \<Rightarrow> nat \<Rightarrow> ModelProvider list \<Rightarrow> string option \<Rightarrow>
    string \<Rightarrow> proxy_state \<Rightarrow> proxy_state" where
  "forward_loop g x opts cfg parsed n i [] lastErr parent s =
     write_error g x opts 502
       (''all providers failed'' @ (case lastErr of None \<Rightarrow> [] | Some e \<Rightarrow> '': '' @ e)) s"
| "forward_loop g x opts cfg parsed n i (p # ps) lastErr parent s =
     (let requestModel = stringValue (fld parsed ''model''); br = x_breakers s (mp_ID p); attemptID = e_attemptID x i in
      if 1 < n \<and> \<not> available (e_clock x 0) br then forward_loop g x opts cfg parsed n (Suc i) ps lastErr parent s
      else (case resolveUpstreamModel g p parsed (fo_mapModel opts) of
              Inl e \<Rightarrow>
                write_error g x opts 400 e (s\<lparr>x_db := recordProxyTrace x parsed opts p requestModel [] attemptID parent i
                  \<lparr>at_OK = False, at_Retryable = False, at_StatusCode = 400,
                   at_Upstream = providerUpstreamProto g p (fo_clientProto opts), at_Err = Some e\<rparr> (x_db s)\<rparr>)
            | Inr (upstreamModel, body) \<Rightarrow>
                (let before = (if 0 < i \<and> xc_AutoFailover cfg then hotSwitchAfterFailover (fo_tool opts) p else id) in
                 case forwardOne g x opts i p body requestModel upstreamModel before s of (r, s1) \<Rightarrow>
                   (let s2 = s1\<lparr>x_db := recordProxyTrace x parsed opts p requestModel upstreamModel attemptID parent i r (x_db s1)\<rparr>;
                        br1 = x_breakers s2 (mp_ID p)
                    in if at_OK r then set_breaker (mp_ID p) (recordSuccess br1) s2
                       else (let s3 = set_breaker (mp_ID p) (snd (recordFailure (word_of_int (xc_FailureThreshold cfg))
                                        (seconds (xc_CooldownSeconds cfg)) (e_clock x (Suc i)) br1)) s2
                             in if \<not> at_Retryable r then s3
                                else forward_loop g x opts cfg parsed n (Suc i) ps (at_Err r) attemptID s3)))))"

definition forwardChain :: "golib \<Rightarrow> exchange \<Rightarrow> forwardOpts \<Rightarrow> fields \<Rightarrow> proxy_state \<Rightarrow> proxy_state" where
  "forwardChain g x opts parsed s =
     (case providerChain (fo_tool opts) (x_db s) of ((chain, cfg), d) \<Rightarrow>
        (let s1 = s\<lparr>x_db := d\<rparr> in
         if chain = [] then write_error g x opts 502 (''no provider routed for '' @ fo_tool opts) s1
         else forward_loop g x opts cfg parsed (length chain) 0 chain None [] s1))"

section \<open>Handlers\<close>

text \<open>The body of a request is read up to 200 MiB, then decoded into a map.\<close>

definition body_limit :: nat where "body_limit = 200 * 2 ^ 20"

definition anthropic_reply :: "golib \<Rightarrow> exchange \<Rightarrow> nat \<Rightarrow> string \<Rightarrow> string \<Rightarrow> proxy_state \<Rightarrow> proxy_state" where
  "anthropic_reply g x code errType message s =
     s\<lparr>x_client := writeProxyJSON g (e_accepts x) code (anthropic_error errType message) (x_client s)\<rparr>"

definition openai_reply :: "golib \<Rightarrow> exchange \<Rightarrow> nat \<Rightarrow> string \<Rightarrow> proxy_state \<Rightarrow> proxy_state" where
  "openai_reply g x code message s =
     s\<lparr>x_client := writeProxyJSON g (e_accepts x) code (openai_error message) (x_client s)\<rparr>"

definition handleAnthropicMessages ::
  "golib \<Rightarrow> exchange \<Rightarrow> string \<Rightarrow> model_map option \<Rightarrow> reader \<Rightarrow> proxy_state \<Rightarrow> proxy_state" where
  "handleAnthropicMessages g x tool mapModel body s =
     (if snd body \<and> length (fst body) < body_limit
      then anthropic_reply g x 400 ''invalid_request_error'' (''read body: '' @ io_error) s
      else (case dec_map (g_dec g) (take body_limit (fst body)) of
              None \<Rightarrow> anthropic_reply g x 400 ''invalid_request_error'' ''invalid JSON body'' s
            | Some parsed \<Rightarrow>
                forwardChain g x \<lparr>fo_tool = tool, fo_clientProto = ''anthropic'', fo_stream = fld parsed ''stream'' = JBool True,
                  fo_mapModel = mapModel, fo_writeErr = anthropic_error ''api_error''\<rparr> parsed s))"

definition handleCodex :: "golib \<Rightarrow> exchange \<Rightarrow> string \<Rightarrow> reader \<Rightarrow> proxy_state \<Rightarrow> proxy_state" where
  "handleCodex g x endpoint body s =
     (if snd body \<and> length (fst body) < body_limit then openai_reply g x 400 (''read body: '' @ io_error) s
      else (case dec_map (g_dec g) (take body_limit (fst body)) of
              None \<Rightarrow> openai_reply g x 400 ''invalid JSON body'' s
            | Some parsed \<Rightarrow>
                forwardChain g x \<lparr>fo_tool = ''codex'',
                  fo_clientProto = (if endpoint = ''/responses'' then ''openai_responses'' else ''openai_chat''),
                  fo_stream = fld parsed ''stream'' = JBool True, fo_mapModel = None, fo_writeErr = openai_error\<rparr> parsed s))"

text \<open>
  \<open>handleGemini\<close>; \<open>seg\<close> is the path segment. A body \<open>null\<close> leaves the map nil, and writing the model into it panics: the
  result is None and the client gets nothing.
\<close>

definition handleGemini :: "golib \<Rightarrow> exchange \<Rightarrow> string \<Rightarrow> reader \<Rightarrow> proxy_state \<Rightarrow> proxy_state option" where
  "handleGemini g x seg body s =
     (if snd body \<and> length (fst body) < body_limit then Some (openai_reply g x 400 (''read body: '' @ io_error) s)
      else (let raw = take body_limit (fst body) in
        case dec_map (g_dec g) raw of
          None \<Rightarrow> Some (openai_reply g x 400 ''invalid JSON body'' s)
        | Some parsed \<Rightarrow>
            (let model = takeWhile (\<lambda>c. c \<noteq> CHR '':'') seg;
                 meth = (case cut_after '':'' seg of None \<Rightarrow> [] | Some m \<Rightarrow> m)
             in if model \<noteq> [] \<and> g_dec g raw = Some JNull then None
                else Some (forwardChain g x \<lparr>fo_tool = ''gemini'', fo_clientProto = ''gemini'',
                       fo_stream = contains (ToLower g meth) ''stream'', fo_mapModel = None, fo_writeErr = openai_error\<rparr>
                       (if model \<noteq> [] then put ''model'' (JStr model) parsed else parsed) s))))"

section \<open>Claude Desktop and model lists\<close>

definition authClaudeDesktop :: "golib \<Rightarrow> exchange \<Rightarrow> proxy_state \<Rightarrow> bool \<times> proxy_state" where
  "authClaudeDesktop g x s =
     (case GetOrCreateGatewayToken (e_gatewayToken x) (x_db s) of
        (None, d) \<Rightarrow> (False, anthropic_reply g x 500 ''api_error'' ''gateway token unavailable'' (s\<lparr>x_db := d\<rparr>))
      | (Some token, d) \<Rightarrow>
          (let bearer = trim_prefix (header_get ''Authorization'' (e_headers x)) ''Bearer '';
               got = (if bearer = [] then header_get ''x-api-key'' (e_headers x) else bearer);
               s1 = s\<lparr>x_db := d\<rparr>
           in if got \<noteq> token then (False, anthropic_reply g x 401 ''authentication_error'' ''invalid gateway token'' s1)
              else (True, s1)))"

definition activeClaudeDesktopProvider :: "proxy_db \<Rightarrow> ModelProvider option \<times> proxy_db" where
  "activeClaudeDesktopProvider d =
     (case ActiveProviderRoute ''claude-desktop'' d of
        (Some (Some route), d1) \<Rightarrow>
          (case GetProvider (ro_ProviderID route) d1 of
             (Some p, d2) \<Rightarrow> (ProviderWithRouteMeta p (ro_Meta route), d2)
           | (None, d2) \<Rightarrow> (None, d2))
      | (_, d1) \<Rightarrow> (None, d1))"

definition model_entry :: "string \<Rightarrow> string \<Rightarrow> jv" where
  "model_entry i display = obj [(''id'', JStr i), (''type'', JStr ''model''), (''display_name'', JStr display),
     (''created_at'', JStr ''2025-01-01T00:00:00Z'')]"

definition model_list :: "jv list \<Rightarrow> jv \<Rightarrow> jv \<Rightarrow> fields" where
  "model_list entries firstID lastID = mk [(''data'', JArr entries), (''has_more'', JBool False),
     (''first_id'', firstID), (''last_id'', lastID)]"

definition desktop_entries :: "golib \<Rightarrow> ModelProvider \<Rightarrow> jv list" where
  "desktop_entries g p =
     map (\<lambda>m. model_entry (route_name m) (pick (dm_DisplayName m) (route_name m)))
       (filter (\<lambda>m. \<not> ModelBlocked p (dm_ID m) \<and> \<not> ModelBlocked p (dm_UpstreamModel m) \<and> route_name m \<noteq> [])
          (claudeDesktopRouteModels g p))"

definition handleClaudeDesktopModels :: "golib \<Rightarrow> exchange \<Rightarrow> proxy_state \<Rightarrow> proxy_state" where
  "handleClaudeDesktopModels g x s =
     (case authClaudeDesktop g x s of
        (False, s1) \<Rightarrow> s1
      | (True, s1) \<Rightarrow>
          (case activeClaudeDesktopProvider (x_db s1) of
             (None, d) \<Rightarrow> anthropic_reply g x 502 ''api_error'' ''no provider routed for claude-desktop'' (s1\<lparr>x_db := d\<rparr>)
           | (Some p, d) \<Rightarrow>
               s1\<lparr>x_db := d, x_client := writeProxyJSON g (e_accepts x) 200
                  (model_list (desktop_entries g p) JNull JNull) (x_client s1)\<rparr>))"

definition handleClaudeDesktopMessages :: "golib \<Rightarrow> exchange \<Rightarrow> reader \<Rightarrow> proxy_state \<Rightarrow> proxy_state" where
  "handleClaudeDesktopMessages g x body s =
     (case authClaudeDesktop g x s of
        (False, s1) \<Rightarrow> s1
      | (True, s1) \<Rightarrow> handleAnthropicMessages g x ''claude-desktop'' (Some (mapClaudeDesktopRequestModel g)) body s1)"

definition visible_routes :: "golib \<Rightarrow> ModelProvider \<Rightarrow> claudeCodeModelRoute list" where
  "visible_routes g p =
     filter (\<lambda>r. \<not> ModelBlocked p (cr_ID r) \<and> \<not> ModelBlocked p (cr_UpstreamModel r)) (claudeCodeModelRoutes g p)"

definition handleClaudeCodeModels :: "golib \<Rightarrow> exchange \<Rightarrow> proxy_state \<Rightarrow> proxy_state" where
  "handleClaudeCodeModels g x s =
     (case providerChain ''claudecode'' (x_db s) of ((chain, _), d) \<Rightarrow>
        (let s1 = s\<lparr>x_db := d\<rparr> in
         case chain of
           [] \<Rightarrow> anthropic_reply g x 502 ''api_error'' ''no provider routed for claudecode'' s1
         | p # _ \<Rightarrow>
             (let routes = visible_routes g p;
                  edge = (\<lambda>f. if routes = [] then JNull else JStr (cr_ID (f routes)))
              in s1\<lparr>x_client := writeProxyJSON g (e_accepts x) 200
                   (model_list (map (\<lambda>r. model_entry (cr_ID r) (cr_DisplayName r)) routes) (edge hd) (edge last))
                   (x_client s1)\<rparr>)))"

definition looksLikeClaudeModelsRequest :: "golib \<Rightarrow> exchange \<Rightarrow> bool" where
  "looksLikeClaudeModelsRequest g x \<longleftrightarrow>
     trim_space (header_get ''anthropic-version'' (e_headers x)) \<noteq> [] \<or>
     trim_space (header_get ''x-api-key'' (e_headers x)) \<noteq> [] \<or>
     contains (ToLower g (header_get ''User-Agent'' (e_headers x))) ''claude''"

text \<open>The catalog of the provider without what it blocks.\<close>

definition catalog_entry_visible :: "ModelProvider \<Rightarrow> jv \<Rightarrow> bool" where
  "catalog_entry_visible p entry =
     list_all (\<lambda>k. \<not> ModelBlocked p (stringValue (fld (obj_or_nil entry) k))) [''id'', ''slug'', ''name'']"

definition filter_catalog :: "ModelProvider \<Rightarrow> fields \<Rightarrow> fields" where
  "filter_catalog p catalog =
     fold (\<lambda>key c. case as_list (fld c key) of
                     None \<Rightarrow> c
                   | Some models \<Rightarrow> put key (JArr (filter (catalog_entry_visible p) models)) c)
       [''data'', ''models''] catalog"

definition catalog_limit :: nat where "catalog_limit = 16 * 2 ^ 20"

definition codexModelsPassthrough :: "golib \<Rightarrow> exchange \<Rightarrow> proxy_state \<Rightarrow> proxy_state" where
  "codexModelsPassthrough g x s =
     (case providerChain ''codex'' (x_db s) of ((chain, _), d) \<Rightarrow>
        (let s1 = s\<lparr>x_db := d\<rparr> in
         case chain of
           [] \<Rightarrow> openai_reply g x 502 ''no provider routed for codex'' s1
         | p # _ \<Rightarrow>
             (case providerAPIKeyIssue x p (x_env s1) of (issue, env1) \<Rightarrow>
               (let s2 = s1\<lparr>x_env := env1\<rparr>; endpoint = joinURL (mp_BaseURL p) ''/models'' in
                if issue \<noteq> [] then openai_reply g x 502 (mp_ID p @ '': '' @ issue) s2
                else (case g_badURL g endpoint of
                        Some e \<Rightarrow> openai_reply g x 502 e s2
                      | None \<Rightarrow>
                          (case providerAPIKey x p env1 of (key, env2) \<Rightarrow>
                            (let h0 = copyProxyHeaders g (e_headers x) [];
                                 req = \<lparr>rq_method = ''GET'', rq_url = endpoint,
                                        rq_headers = (if key = [] then h0 else header_set ''Authorization'' (''Bearer '' @ key) h0),
                                        rq_body = []\<rparr>;
                                 s3 = s2\<lparr>x_env := env2, x_sent := x_sent s2 @ [(p, req)]\<rparr>
                             in case e_http x 0 req of
                                  Net_Error e \<Rightarrow> openai_reply g x 502 e s3
                                | Answer code rh rb \<Rightarrow>
                                    if pm_BlockedModels (mp_Meta p) \<noteq> [] \<and> code = 200 then
                                      (case g_decFirst g (take catalog_limit (fst rb)) of
                                         Some (JObj catalog) \<Rightarrow>
                                           s3\<lparr>x_client := writeProxyJSON g (e_accepts x) code (filter_catalog p catalog) (x_client s3)\<rparr>
                                       | Some JNull \<Rightarrow> s3\<lparr>x_client := writeProxyValue g (e_accepts x) code JNull (x_client s3)\<rparr>
                                       | _ \<Rightarrow> openai_reply g x 502 ''invalid upstream model catalog'' s3)
                                    else s3\<lparr>x_client := snd (relayResponse g (e_accepts x) code rh rb (x_client s3))\<rparr>)))))))"

definition handleRootModels :: "golib \<Rightarrow> exchange \<Rightarrow> proxy_state \<Rightarrow> proxy_state" where
  "handleRootModels g x s =
     (if looksLikeClaudeModelsRequest g x then handleClaudeCodeModels g x s else codexModelsPassthrough g x s)"

end
