(* ===== verification/Proxy_Headers.thy ===== *)
theory Proxy_Headers
  imports Provider_Forward
begin

text \<open>What a request upstream says about who asks: the credentials in its headers are the provider's own.\<close>

lemma byte_of_less: "byte_of c < 256"
  by (simp add: byte_of_def)

lemma byte_of_char_of: "n < 256 \<Longrightarrow> byte_of (char_of n) = n"
  by (simp add: byte_of_def)

lemma byte_of_inject: "byte_of c = byte_of d \<longleftrightarrow> c = d"
  by (simp add: byte_of_def)

lemma byte_lower: "byte_of (ascii_lower c) = (if 65 \<le> byte_of c \<and> byte_of c \<le> 90 then byte_of c + 32 else byte_of c)"
  by (simp add: ascii_lower_def in_bytes_def byte_of_char_of)

lemma byte_upper: "byte_of (ascii_upper c) = (if 97 \<le> byte_of c \<and> byte_of c \<le> 122 then byte_of c - 32 else byte_of c)"
  using byte_of_less [of c] by (simp add: ascii_upper_def in_bytes_def byte_of_char_of)

lemma lower_upper [simp]: "ascii_lower (ascii_upper c) = ascii_lower c"
  by (simp add: byte_of_inject [symmetric] byte_lower byte_upper) arith

lemma lower_lower [simp]: "ascii_lower (ascii_lower c) = ascii_lower c"
  by (simp add: byte_of_inject [symmetric] byte_lower)

lemma lower_capitalise [simp]: "map ascii_lower (capitalise up k) = map ascii_lower k"
  by (induction k arbitrary: up) auto

lemma token_char_ascii: "token_char c \<Longrightarrow> byte_of c < 128"
  by (auto simp: token_char_def in_bytes_def byte_of_def)

lemma ToLower_canonical:
  assumes "list_all token_char (canonical k)" shows "ToLower g k = map ascii_lower (canonical k)"
proof -
  have t: "list_all token_char k"
    using assms by (simp add: canonical_def split: if_splits)
  then have "ascii k"
    by (auto simp: ascii_def list_all_iff token_char_ascii)
  with t show ?thesis
    by (simp add: ToLower_def canonical_def)
qed

lemma map_of_filter_key: "map_of (filter (\<lambda>(k', _). k' \<noteq> k) h) q = (if q = k then None else map_of h q)"
  by (induction h) auto

lemma header_values_put [simp]:
  "header_values q (header_put k vs h) = (if canonical q = canonical k then vs else header_values q h)"
  by (auto simp: header_values_def header_put_def map_add_def map_of_filter_key split: option.splits)

lemma header_values_add_other:
  "canonical q \<noteq> canonical k \<Longrightarrow> header_values q (fold (header_add k) vs h) = header_values q h"
  by (induction vs arbitrary: h) (simp_all add: header_add_def)

lemma copied_header:
  assumes "list_all token_char (canonical q)" and "map ascii_lower (canonical q) \<in> set skip"
  shows "header_values q (copy_headers g skip src dst) = header_values q dst"
proof (induction src arbitrary: dst)
  case (Cons kv src)
  obtain k vs where kv: "kv = (k, vs)" by (cases kv)
  show ?case
  proof (cases "canonical q = canonical k")
    case True
    then have "ToLower g k \<in> set skip"
      using assms ToLower_canonical [of k g] by simp
    then show ?thesis
      using Cons by (simp add: copy_headers_def kv)
  next
    case False
    then show ?thesis
      using Cons by (simp add: copy_headers_def kv header_values_add_other)
  qed
qed (simp add: copy_headers_def)

lemma canonical_names:
  "canonical ''Authorization'' = ''Authorization''"
  "canonical ''x-api-key'' = ''X-Api-Key''"
  "canonical ''anthropic-version'' = ''Anthropic-Version''"
  "canonical ''Content-Type'' = ''Content-Type''"
  "canonical ''x-goog-api-key'' = ''X-Goog-Api-Key''"
  by code_simp+

lemma credentials_dropped:
  "header_values ''Authorization'' (copyProxyHeaders g src []) = []"
  "header_values ''x-api-key'' (copyProxyHeaders g src []) = []"
proof -
  have "list_all token_char ''Authorization''" "map ascii_lower ''Authorization'' \<in> set skipped_headers"
    "list_all token_char ''X-Api-Key''" "map ascii_lower ''X-Api-Key'' \<in> set skipped_headers"
    by code_simp+
  then show "header_values ''Authorization'' (copyProxyHeaders g src []) = []"
    "header_values ''x-api-key'' (copyProxyHeaders g src []) = []"
    by (simp_all add: copyProxyHeaders_def copied_header canonical_names) (simp_all add: header_values_def)
qed

text \<open>The values a header of the client has under any spelling of its name; a copied header has them all.\<close>

definition client_values :: "string \<Rightarrow> headers \<Rightarrow> string list" where
  "client_values q h = concat (map snd (filter (\<lambda>(k, _). canonical k = canonical q) h))"

lemma header_values_add:
  "canonical q = canonical k \<Longrightarrow> header_values q (fold (header_add k) vs h) = header_values q h @ vs"
proof (induction vs arbitrary: h)
  case (Cons v vs)
  have "header_values q (header_add k v h) = header_values q h @ [v]"
    using Cons.prems by (simp add: header_add_def) (simp add: header_values_def)
  then show ?case using Cons by simp
qed simp

lemma copied_values:
  assumes "list_all token_char (canonical q)" and "map ascii_lower (canonical q) \<notin> set skip"
  shows "header_values q (copy_headers g skip src dst) = header_values q dst @ client_values q src"
proof (induction src arbitrary: dst)
  case (Cons kv src)
  obtain k vs where kv: "kv = (k, vs)" by (cases kv)
  show ?case
  proof (cases "canonical q = canonical k")
    case True
    then have "ToLower g k \<notin> set skip"
      using assms ToLower_canonical [of k g] by simp
    then show ?thesis
      using Cons True by (simp add: copy_headers_def kv header_values_add client_values_def)
  next
    case False
    then show ?thesis
      using Cons by (auto simp: copy_headers_def kv header_values_add_other client_values_def)
  qed
qed (simp add: copy_headers_def client_values_def)

text \<open>
  The headers that may carry a credential, for a key and an upstream protocol: the key where the protocol asks for it,
  and nothing else but the client's own values of the Gemini header, which are passed on when both sides speak one
  protocol and the key is not written over them.
\<close>

definition credential_headers :: "string \<Rightarrow> string \<Rightarrow> headers option \<Rightarrow> headers \<Rightarrow> bool" where
  "credential_headers up key passed h \<longleftrightarrow>
     header_values ''Authorization'' h = (if key = [] \<or> up = ''gemini'' then [] else [''Bearer '' @ key]) \<and>
     header_values ''x-api-key'' h = (if key \<noteq> [] \<and> up = ''anthropic'' then [key] else []) \<and>
     header_values ''x-goog-api-key'' h =
       (if key \<noteq> [] \<and> up = ''gemini'' then [key]
        else case passed of None \<Rightarrow> [] | Some client \<Rightarrow> client_values ''x-goog-api-key'' client)"

lemma gemini_key_passed: "header_values ''x-goog-api-key'' (copyProxyHeaders g src []) = client_values ''x-goog-api-key'' src"
proof -
  have "list_all token_char ''X-Goog-Api-Key''" "map ascii_lower ''X-Goog-Api-Key'' \<notin> set skipped_headers"
    by code_simp+
  then show ?thesis
    by (simp add: copyProxyHeaders_def copied_values canonical_names) (simp add: header_values_def)
qed

lemma header_values_Nil: "header_values q [] = []"
  by (simp add: header_values_def)

lemma credential_headers_built:
  "credential_headers up key (if c then Some src else None)
     (applyUpstreamAuth up key (header_set ''Content-Type'' v (if c then copyProxyHeaders g src [] else [])))"
  by (simp add: credential_headers_def applyUpstreamAuth_def header_set_def canonical_names credentials_dropped
    gemini_key_passed header_values_Nil Let_def)

end
