(* ===== verification/Proxy_Correctness.thy ===== *)
theory Proxy_Correctness
  imports Proxy_Headers "HOL-Library.Sublist"
begin

text \<open>
  What a request does on its way through the chain: whom it is sent to, with which model and credentials, when the
  next provider is tried, and whose answer the client reads.
\<close>

section \<open>Keys\<close>

text \<open>
  The keys of a provider: the one it carries, the value of its variable when the request came, and the stored secret of
  that variable. A request may load secrets into the environment and changes nothing else there.
\<close>

definition own_keys :: "exchange \<Rightarrow> ModelProvider \<Rightarrow> (string \<Rightarrow> string) \<Rightarrow> string set" where
  "own_keys x p env =
     {trim_space (mp_APIKey p), trim_space (env (trim_space (mp_APIKeyEnv p)))} \<union>
     {trim_space (trim_space v) | v. e_secret x (trim_space (mp_APIKeyEnv p)) = Secret v}"

definition env_grown :: "exchange \<Rightarrow> (string \<Rightarrow> string) \<Rightarrow> (string \<Rightarrow> string) \<Rightarrow> bool" where
  "env_grown x env env' \<longleftrightarrow> (\<forall>k. env' k = env k \<or> (\<exists>v. e_secret x k = Secret v \<and> env' k = trim_space v))"

lemma env_grown_refl [simp]: "env_grown x env env"
  by (simp add: env_grown_def)

lemma env_grown_trans: "env_grown x a b \<Longrightarrow> env_grown x b c \<Longrightarrow> env_grown x a c"
  unfolding env_grown_def by metis

lemma grown_own:
  assumes "env_grown x env env'" shows "trim_space (env' (trim_space (mp_APIKeyEnv p))) \<in> own_keys x p env"
proof -
  have "env' (trim_space (mp_APIKeyEnv p)) = env (trim_space (mp_APIKeyEnv p)) \<or>
      (\<exists>v. e_secret x (trim_space (mp_APIKeyEnv p)) = Secret v \<and> env' (trim_space (mp_APIKeyEnv p)) = trim_space v)"
    using assms unfolding env_grown_def by blast
  then show ?thesis by (auto simp: own_keys_def)
qed

lemma ensure_grown: "env_grown x env (snd (EnsureProviderAPIKeyEnv x k env))"
  by (auto simp: EnsureProviderAPIKeyEnv_def Let_def setenv_def env_grown_def split: secret_read.splits)

lemma from_env_grown: "env_grown x env (snd (providerAPIKeyFromEnvOrSecret x k env))"
  using ensure_grown [of x env "trim_space k"]
  by (auto simp: providerAPIKeyFromEnvOrSecret_def Let_def split: prod.splits sum.splits)

lemma key_grown: "env_grown x env (snd (providerAPIKey x p env))"
  using from_env_grown [of x env "mp_APIKeyEnv p"]
  by (auto simp: providerAPIKey_def split: prod.splits sum.splits list.splits)

lemma issue_grown: "env_grown x env (snd (providerAPIKeyIssue x p env))"
  using ensure_grown [of x env "trim_space (mp_APIKeyEnv p)"]
  by (auto simp: providerAPIKeyIssue_def Let_def split: prod.splits sum.splits)

lemma from_env_value:
  "providerAPIKeyFromEnvOrSecret x k env = (Inr v, env') \<Longrightarrow> v = [] \<or> v = trim_space (env' (trim_space k))"
  by (auto simp: providerAPIKeyFromEnvOrSecret_def Let_def split: prod.splits sum.splits if_splits)

lemma key_own:
  assumes "env_grown x env0 env" shows "fst (providerAPIKey x p env) \<in> own_keys x p env0"
proof -
  obtain r env' where r: "providerAPIKeyFromEnvOrSecret x (mp_APIKeyEnv p) env = (r, env')" by fastforce
  have g: "env_grown x env0 env'"
    using assms from_env_grown [of x env "mp_APIKeyEnv p"] by (auto simp: r intro: env_grown_trans)
  have "trim_space (env' (trim_space (mp_APIKeyEnv p))) \<in> own_keys x p env0"
    using g by (rule grown_own)
  moreover have "trim_space (mp_APIKey p) \<in> own_keys x p env0"
    by (simp add: own_keys_def)
  ultimately show ?thesis
    using from_env_value [of x "mp_APIKeyEnv p" env] r
    by (fastforce simp: providerAPIKey_def split: sum.splits list.splits)
qed

lemma key_given: "fst (providerAPIKey x p env) = [] \<Longrightarrow> trim_space (mp_APIKey p) = []"
  by (auto simp: providerAPIKey_def split: if_splits prod.splits sum.splits list.splits)

text \<open>
  The credential a request carries is a key of its provider, and there is none only when the provider itself has none;
  \<open>credential_headers\<close> says where it stands and what else is passed on.
\<close>

definition provider_credentials ::
  "golib \<Rightarrow> exchange \<Rightarrow> forwardOpts \<Rightarrow> ModelProvider \<Rightarrow> (string \<Rightarrow> string) \<Rightarrow> headers \<Rightarrow> bool" where
  "provider_credentials g x opts p env h \<longleftrightarrow>
     (let up = providerUpstreamProto g p (fo_clientProto opts) in
      \<exists>key \<in> own_keys x p env. (key = [] \<longrightarrow> trim_space (mp_APIKey p) = []) \<and>
        credential_headers up key (if up = fo_clientProto opts then Some (e_headers x) else None) h)"

lemma provider_credentials_built:
  assumes "env_grown x env0 env"
  shows "provider_credentials g x opts p env0
     (applyUpstreamAuth (providerUpstreamProto g p (fo_clientProto opts)) (fst (providerAPIKey x p env))
        (header_set ''Content-Type'' v
          (if providerUpstreamProto g p (fo_clientProto opts) = fo_clientProto opts then copyProxyHeaders g (e_headers x) [] else [])))"
  unfolding provider_credentials_def Let_def
  by (rule bexI [OF _ key_own [OF assms]]) (use key_given credential_headers_built in blast)

lemma provider_credentials_grown:
  assumes "provider_credentials g x opts p env h" and "env_grown x env0 env" shows "provider_credentials g x opts p env0 h"
proof -
  have "own_keys x p env \<subseteq> own_keys x p env0"
    using grown_own [OF assms(2), of p] unfolding own_keys_def by blast
  with assms(1) show ?thesis unfolding provider_credentials_def Let_def by blast
qed

section \<open>One attempt\<close>

text \<open>A request as \<open>forwardOne\<close> builds it for a provider, a body and an upstream model.\<close>

definition upstream_request ::
  "golib \<Rightarrow> exchange \<Rightarrow> forwardOpts \<Rightarrow> (string \<Rightarrow> string) \<Rightarrow> ModelProvider \<Rightarrow> fields \<Rightarrow> string \<Rightarrow> http_request \<Rightarrow> bool" where
  "upstream_request g x opts env p body um req \<longleftrightarrow>
     (let up = providerUpstreamProto g p (fo_clientProto opts) in
      upstream_payload g (fo_clientProto opts) up body um = Inr (rq_body req) \<and>
      rq_url req = upstreamEndpoint up (mp_BaseURL p) um (fo_stream opts) \<and>
      provider_credentials g x opts p env (rq_headers req))"

lemma upstream_request_grown:
  "upstream_request g x opts env p body um req \<Longrightarrow> env_grown x env0 env \<Longrightarrow> upstream_request g x opts env0 p body um req"
  unfolding upstream_request_def Let_def by (blast intro: provider_credentials_grown)

definition attempt_start :: "golib \<Rightarrow> forwardOpts \<Rightarrow> ModelProvider \<Rightarrow> nat \<Rightarrow> proxyAttemptResult" where
  "attempt_start g opts p code = \<lparr>at_OK = False, at_Retryable = False, at_StatusCode = code,
     at_Upstream = providerUpstreamProto g p (fo_clientProto opts), at_Err = None\<rparr>"

lemma attempt_start_status: "(attempt_start g opts p n)\<lparr>at_StatusCode := code\<rparr> = attempt_start g opts p code"
  by (simp add: attempt_start_def)

text \<open>The answers of a provider after which the next one is tried.\<close>

definition invalid_answer :: "golib \<Rightarrow> forwardOpts \<Rightarrow> ModelProvider \<Rightarrow> reader \<Rightarrow> bool" where
  "invalid_answer g opts p body \<longleftrightarrow>
     providerUpstreamProto g p (fo_clientProto opts) \<noteq> fo_clientProto opts \<and> \<not> fo_stream opts \<and> \<not> snd body \<and>
     dec_map (g_dec g) (fst body) = None"

definition failover_answer :: "golib \<Rightarrow> forwardOpts \<Rightarrow> ModelProvider \<Rightarrow> http_answer \<Rightarrow> bool" where
  "failover_answer g opts p a =
     (case a of Net_Error _ \<Rightarrow> True
      | Answer code _ body \<Rightarrow> isFailoverStatus code \<or> code < 400 \<and> invalid_answer g opts p body)"

lemma provider_reply_None:
  assumes "provider_reply g x opts p rm code h body (attempt_start g opts p n) c = (r, None)"
  shows "\<not> at_OK r" and "at_Retryable r \<longleftrightarrow> invalid_answer g opts p body"
  using assms
  by (auto simp: provider_reply_def finished_def failed_def attempt_start_def invalid_answer_def
           split: if_splits option.splits sum.splits)

lemma provider_reply_Some:
  assumes "provider_reply g x opts p rm code h body (attempt_start g opts p n) c = (r, Some c')"
  shows "\<not> at_Retryable r"
  using assms
  by (auto simp: provider_reply_def finished_def failed_def attempt_start_def split: if_splits option.splits sum.splits)

text \<open>What one attempt leaves behind: nothing sent, or one request and what its answer makes of it.\<close>

definition unanswered :: "proxyAttemptResult \<Rightarrow> proxy_state \<Rightarrow> proxy_state \<Rightarrow> bool" where
  "unanswered r s s' \<longleftrightarrow> \<not> at_OK r \<and> x_client s' = x_client s \<and> x_db s' = x_db s"

definition replied ::
  "golib \<Rightarrow> exchange \<Rightarrow> forwardOpts \<Rightarrow> nat \<Rightarrow> ModelProvider \<Rightarrow> string \<Rightarrow> http_request \<Rightarrow> client \<Rightarrow> client \<Rightarrow> bool" where
  "replied g x opts i p rm req c c' \<longleftrightarrow>
     (\<exists>code h body r. e_http x i req = Answer code h body \<and> code < 400 \<and>
        provider_reply g x opts p rm code h body (attempt_start g opts p code) c = (r, Some c'))"

text \<open>A request the hub cannot put into the protocol of the provider.\<close>

definition untranslatable :: "golib \<Rightarrow> forwardOpts \<Rightarrow> ModelProvider \<Rightarrow> fields \<Rightarrow> string \<Rightarrow> bool" where
  "untranslatable g opts p body um \<longleftrightarrow>
     (\<exists>e. upstream_payload g (fo_clientProto opts) (providerUpstreamProto g p (fo_clientProto opts)) body um = Inl e)"

text \<open>
  The answers that reach nobody: a refusal for what the request says, and a complete answer of another protocol that
  breaks off or cannot be translated.
\<close>

definition dropped_body :: "golib \<Rightarrow> forwardOpts \<Rightarrow> ModelProvider \<Rightarrow> reader \<Rightarrow> bool" where
  "dropped_body g opts p body \<longleftrightarrow>
     (let up = providerUpstreamProto g p (fo_clientProto opts) in
      up \<noteq> fo_clientProto opts \<and> \<not> fo_stream opts \<and>
      (snd body \<or> (\<exists>resp. dec_map (g_dec g) (fst body) = Some resp \<and>
         (case upstreamRespToIR (g_enc g) (g_upper g) up resp of
            Inl _ \<Rightarrow> True
          | Inr ir \<Rightarrow> \<exists>m e. irRespToClient (g_dec g) (fo_clientProto opts) ir m = Inl e))))"

definition dropped_answer :: "golib \<Rightarrow> forwardOpts \<Rightarrow> ModelProvider \<Rightarrow> http_answer \<Rightarrow> bool" where
  "dropped_answer g opts p a =
     (case a of Net_Error _ \<Rightarrow> False
      | Answer code _ body \<Rightarrow> \<not> isFailoverStatus code \<and> (400 \<le> code \<or> dropped_body g opts p body))"

lemma provider_reply_dropped:
  assumes "provider_reply g x opts p rm code h body (attempt_start g opts p n) c = (r, None)"
  shows "at_Retryable r \<or> dropped_body g opts p body"
  using assms
  by (auto simp: provider_reply_def finished_def failed_def attempt_start_def dropped_body_def Let_def
           split: if_splits option.splits sum.splits)

lemma forwardOne_cases:
  assumes "forwardOne g x opts i p body rm um before s = (r, s')"
  shows "x_breakers s' = x_breakers s \<and> env_grown x (x_env s) (x_env s') \<and>
    (x_sent s' = x_sent s \<and> unanswered r s s' \<and> (at_Retryable r \<or> untranslatable g opts p body um) \<or>
     (\<exists>req. upstream_request g x opts (x_env s) p body um req \<and> x_sent s' = x_sent s @ [(p, req)] \<and>
        (unanswered r s s' \<and> at_Retryable r = failover_answer g opts p (e_http x i req) \<and>
           (at_Retryable r \<or> dropped_answer g opts p (e_http x i req)) \<or>
         replied g x opts i p rm req (x_client s) (x_client s') \<and> x_db s' = before (x_db s) \<and> \<not> at_Retryable r)))"
proof -
  define up where "up = providerUpstreamProto g p (fo_clientProto opts)"
  obtain issue env1 where iss: "providerAPIKeyIssue x p (x_env s) = (issue, env1)" by fastforce
  obtain key env2 where key: "providerAPIKey x p env1 = (key, env2)" by fastforce
  define endpoint where "endpoint = upstreamEndpoint up (mp_BaseURL p) um (fo_stream opts)"
  have env1: "env_grown x (x_env s) env1"
    using issue_grown [of x "x_env s" p] by (simp add: iss)
  have env2: "env_grown x (x_env s) env2"
    using env1 key_grown [of x env1 p] by (auto simp: key intro: env_grown_trans)
  have start: "\<lparr>at_OK = False, at_Retryable = False, at_StatusCode = code, at_Upstream = up, at_Err = None\<rparr> =
    attempt_start g opts p code" for code
    by (simp add: attempt_start_def up_def)
  show ?thesis
  proof (cases "issue \<noteq> [] \<or> (\<exists>e. upstream_payload g (fo_clientProto opts) up body um = Inl e) \<or> g_badURL g endpoint \<noteq> None")
    case True
    have "\<exists>b e. forwardOne g x opts i p body rm um before s = (failed b e (attempt_start g opts p 0), s\<lparr>x_env := env1\<rparr>) \<and>
        (b \<or> untranslatable g opts p body um)"
    proof (cases "issue \<noteq> []")
      case True
      then show ?thesis
        unfolding forwardOne_def Let_def up_def [symmetric] iss by (auto simp: start)
    next
      case no_issue: False
      show ?thesis
      proof (cases "upstream_payload g (fo_clientProto opts) up body um")
        case (Inl e)
        then have "untranslatable g opts p body um" by (simp add: untranslatable_def up_def)
        with Inl no_issue show ?thesis
          unfolding forwardOne_def Let_def up_def [symmetric] iss by (auto simp: start)
      next
        case (Inr payload)
        with True no_issue obtain e where "g_badURL g endpoint = Some e" by auto
        with Inr no_issue show ?thesis
          unfolding forwardOne_def Let_def up_def [symmetric] iss endpoint_def [symmetric] by (auto simp: start)
      qed
    qed
    then have "x_breakers s' = x_breakers s \<and> x_sent s' = x_sent s \<and> unanswered r s s' \<and>
        (at_Retryable r \<or> untranslatable g opts p body um) \<and> env_grown x (x_env s) (x_env s')"
      using assms env1 by (auto simp: failed_def unanswered_def attempt_start_def)
    then show ?thesis by simp
  next
    case False
    then obtain payload where pay: "upstream_payload g (fo_clientProto opts) up body um = Inr payload"
      and iss0: "issue = []" and url: "g_badURL g endpoint = None"
      by (cases "upstream_payload g (fo_clientProto opts) up body um") auto
    define req where "req = \<lparr>rq_method = ''POST'', rq_url = endpoint,
      rq_headers = applyUpstreamAuth up key (header_set ''Content-Type'' ''application/json''
        (if up = fo_clientProto opts then copyProxyHeaders g (e_headers x) [] else [])), rq_body = payload\<rparr>"
    define s2 where "s2 = s\<lparr>x_env := env2, x_sent := x_sent s @ [(p, req)]\<rparr>"
    have ur: "upstream_request g x opts (x_env s) p body um req"
      unfolding upstream_request_def Let_def
    proof (intro conjI)
      show "provider_credentials g x opts p (x_env s) (rq_headers req)"
        using provider_credentials_built [OF env1, of g opts p "''application/json''"]
        by (simp only: key fst_conv req_def http_request.simps up_def)
    qed (simp_all add: req_def pay endpoint_def up_def [symmetric])
    have sub: "forwardOne g x opts i p body rm um before s =
      (case e_http x i req of
         Net_Error e \<Rightarrow> (failed True e (attempt_start g opts p 0), s2)
       | Answer code rh rb \<Rightarrow>
           if isFailoverStatus code \<or> 400 \<le> code then
             (failed (isFailoverStatus code) (mp_ID p @ '': upstream '' @ decimal code @ '': '' @
                clip_text (take 4096 (fst rb)) 300) (attempt_start g opts p code), s2)
           else answer_client g x opts p rm before code rh rb (attempt_start g opts p code) s2)"
      unfolding forwardOne_def Let_def up_def [symmetric] iss
      by (cases "e_http x i req")
         (simp_all add: iss0 pay url key endpoint_def [symmetric] req_def [symmetric] s2_def start attempt_start_status
            split del: if_split cong: if_cong)
    have s2: "x_breakers s2 = x_breakers s" "x_sent s2 = x_sent s @ [(p, req)]" "x_client s2 = x_client s" "x_db s2 = x_db s"
      "env_grown x (x_env s) (x_env s2)"
      by (simp_all add: s2_def env2)
    show ?thesis
    proof (cases "e_http x i req")
      case (Net_Error e)
      then show ?thesis
        using assms ur s2 unfolding sub
        by (auto simp: failed_def unanswered_def failover_answer_def attempt_start_def)
    next
      case (Answer code rh rb)
      show ?thesis
      proof (cases "isFailoverStatus code \<or> 400 \<le> code")
        case True
        with Answer show ?thesis
          using assms ur s2 unfolding sub
          by (auto simp: failed_def unanswered_def failover_answer_def dropped_answer_def attempt_start_def)
      next
        case low: False
        obtain r1 co where pr: "provider_reply g x opts p rm code rh rb (attempt_start g opts p code) (x_client s2) = (r1, co)"
          by fastforce
        show ?thesis
        proof (cases co)
          case None
          note 1 = provider_reply_None [OF pr [unfolded None]]
          have "r = r1" "s' = s2"
            using assms low pr None Answer unfolding sub by (simp_all add: answer_client_def)
          then have "unanswered r s s'" and "at_Retryable r = failover_answer g opts p (e_http x i req)"
            using 1 s2 low by (simp_all add: unanswered_def failover_answer_def Answer)
          moreover have "at_Retryable r \<or> dropped_answer g opts p (e_http x i req)"
            using provider_reply_dropped [OF pr [unfolded None]] \<open>r = r1\<close> low by (simp add: dropped_answer_def Answer)
          ultimately show ?thesis
            using ur s2 \<open>s' = s2\<close> by auto
        next
          case (Some c)
          note 1 = provider_reply_Some [OF pr [unfolded Some]]
          have "r = r1" "s' = s2\<lparr>x_db := before (x_db s2), x_client := c\<rparr>"
            using assms low pr Some Answer unfolding sub by (simp_all add: answer_client_def)
          moreover have "replied g x opts i p rm req (x_client s) c"
            unfolding replied_def using Answer low pr Some s2 by (metis not_le)
          ultimately show ?thesis
            using 1 ur s2 by auto
        qed
      qed
    qed
  qed
qed

section \<open>The loop\<close>

lemma trace_active [simp]: "active_provider (recordProxyTrace x body opts p cm um a b i r d) = active_provider d"
  by (simp add: recordProxyTrace_def InsertProxyTrace_def sql_exec_def Let_def)

text \<open>
  A provider the loop may ask: its breaker was closed when the loop began, or it is alone in the chain, and its model
  could be resolved.
\<close>

definition asked ::
  "golib \<Rightarrow> exchange \<Rightarrow> forwardOpts \<Rightarrow> fields \<Rightarrow> nat \<Rightarrow> proxy_state \<Rightarrow> ModelProvider \<times> http_request \<Rightarrow> bool" where
  "asked g x opts parsed n s pr \<longleftrightarrow>
     (1 < n \<longrightarrow> available (e_clock x 0) (x_breakers s (mp_ID (fst pr)))) \<and>
     (\<exists>um body. resolveUpstreamModel g (fst pr) parsed (fo_mapModel opts) = Inr (um, body) \<and>
        upstream_request g x opts (x_env s) (fst pr) body um (snd pr))"

text \<open>
  The number of the attempt at a provider is its place in the chain; \<open>ps\<close> is what is left of the chain from place \<open>i\<close> on.
\<close>

definition attempt_at :: "nat \<Rightarrow> ModelProvider list \<Rightarrow> ModelProvider \<Rightarrow> nat \<Rightarrow> bool" where
  "attempt_at i ps p k \<longleftrightarrow> i \<le> k \<and> k - i < length ps \<and> ps ! (k - i) = p"

lemma attempt_here: "attempt_at i (p # ps) p i"
  by (simp add: attempt_at_def)

lemma attempt_later: "attempt_at (Suc i) ps p k \<Longrightarrow> attempt_at i (q # ps) p k"
  by (auto simp: attempt_at_def nth_Cons split: nat.splits) (metis Suc_diff_Suc Suc_le_lessD nat.inject)

definition failed_over ::
  "golib \<Rightarrow> exchange \<Rightarrow> forwardOpts \<Rightarrow> nat \<Rightarrow> ModelProvider list \<Rightarrow> ModelProvider \<times> http_request \<Rightarrow> bool" where
  "failed_over g x opts i ps pr \<longleftrightarrow>
     (\<exists>k. attempt_at i ps (fst pr) k \<and> failover_answer g opts (fst pr) (e_http x k (snd pr)))"

definition last_answer ::
  "golib \<Rightarrow> exchange \<Rightarrow> forwardOpts \<Rightarrow> fields \<Rightarrow> nat \<Rightarrow> ModelProvider list \<Rightarrow> (ModelProvider \<times> http_request) list \<Rightarrow>
    client \<Rightarrow> client \<Rightarrow> bool" where
  "last_answer g x opts parsed i ps sent c c' \<longleftrightarrow>
     sent \<noteq> [] \<and> (\<exists>k. attempt_at i ps (fst (last sent)) k \<and>
       replied g x opts k (fst (last sent)) (stringValue (fld parsed ''model'')) (snd (last sent)) c c')"

text \<open>
  How a request may end. The client is answered with what the provider asked last said; with error 502 when every
  provider that was asked was given up; with error 400 when those asked before were given up and a provider has no
  model for the request; or with nothing at all, when the answer of the provider asked last reaches nobody or a provider
  cannot be asked in its protocol.
\<close>

definition all_failed ::
  "golib \<Rightarrow> exchange \<Rightarrow> forwardOpts \<Rightarrow> nat \<Rightarrow> ModelProvider list \<Rightarrow> (ModelProvider \<times> http_request) list \<Rightarrow> client \<Rightarrow> client \<Rightarrow>
    bool" where
  "all_failed g x opts i ps sent c c' \<longleftrightarrow>
     list_all (failed_over g x opts i ps) sent \<and> (\<exists>m. c' = writeProxyJSON g (e_accepts x) 502 (fo_writeErr opts m) c)"

definition no_model ::
  "golib \<Rightarrow> exchange \<Rightarrow> forwardOpts \<Rightarrow> fields \<Rightarrow> nat \<Rightarrow> ModelProvider list \<Rightarrow> (ModelProvider \<times> http_request) list \<Rightarrow> client \<Rightarrow>
    client \<Rightarrow> bool" where
  "no_model g x opts parsed i ps sent c c' \<longleftrightarrow>
     list_all (failed_over g x opts i ps) sent \<and>
     (\<exists>p \<in> set ps. \<exists>e. resolveUpstreamModel g p parsed (fo_mapModel opts) = Inl e \<and>
        c' = writeProxyJSON g (e_accepts x) 400 (fo_writeErr opts e) c)"

definition no_answer ::
  "golib \<Rightarrow> exchange \<Rightarrow> forwardOpts \<Rightarrow> fields \<Rightarrow> nat \<Rightarrow> ModelProvider list \<Rightarrow> (ModelProvider \<times> http_request) list \<Rightarrow> client \<Rightarrow>
    client \<Rightarrow> bool" where
  "no_answer g x opts parsed i ps sent c c' \<longleftrightarrow> c' = c \<and>
     (sent \<noteq> [] \<and> (\<exists>k. attempt_at i ps (fst (last sent)) k \<and> dropped_answer g opts (fst (last sent)) (e_http x k (snd (last sent)))) \<or>
      list_all (failed_over g x opts i ps) sent \<and>
      (\<exists>p \<in> set ps. \<exists>um body. resolveUpstreamModel g p parsed (fo_mapModel opts) = Inr (um, body) \<and> untranslatable g opts p body um))"

definition client_end ::
  "golib \<Rightarrow> exchange \<Rightarrow> forwardOpts \<Rightarrow> fields \<Rightarrow> nat \<Rightarrow> ModelProvider list \<Rightarrow> (ModelProvider \<times> http_request) list \<Rightarrow> client \<Rightarrow>
    client \<Rightarrow> bool" where
  "client_end g x opts parsed i ps sent c c' \<longleftrightarrow>
     last_answer g x opts parsed i ps sent c c' \<or> all_failed g x opts i ps sent c c' \<or>
     no_model g x opts parsed i ps sent c c' \<or> no_answer g x opts parsed i ps sent c c'"

lemma failed_over_later: "failed_over g x opts (Suc i) ps pr \<Longrightarrow> failed_over g x opts i (q # ps) pr"
  unfolding failed_over_def by (meson attempt_later)

lemma last_answer_later:
  "last_answer g x opts parsed (Suc i) ps sent c c' \<Longrightarrow> last_answer g x opts parsed i (q # ps) (pre @ sent) c c'"
  unfolding last_answer_def by (auto intro: attempt_later)

lemma client_end_later:
  assumes "client_end g x opts parsed (Suc i) ps sent c c'" and "list_all (failed_over g x opts i (p # ps)) pre"
  shows "client_end g x opts parsed i (p # ps) (pre @ sent) c c'"
proof -
  have f: "list_all (failed_over g x opts (Suc i) ps) sent \<Longrightarrow> list_all (failed_over g x opts i (p # ps)) (pre @ sent)"
    using assms(2) failed_over_later by (fastforce simp: list_all_iff)
  from assms(1) consider
      (1) "last_answer g x opts parsed (Suc i) ps sent c c'" | (2) "all_failed g x opts (Suc i) ps sent c c'"
    | (3) "no_model g x opts parsed (Suc i) ps sent c c'" | (4) "no_answer g x opts parsed (Suc i) ps sent c c'"
    unfolding client_end_def by blast
  then show ?thesis
  proof cases
    case 1 then show ?thesis by (simp add: client_end_def last_answer_later)
  next
    case 2 then have "all_failed g x opts i (p # ps) (pre @ sent) c c'" using f by (simp add: all_failed_def)
    then show ?thesis by (simp add: client_end_def)
  next
    case 3 then have "no_model g x opts parsed i (p # ps) (pre @ sent) c c'" using f by (auto simp: no_model_def)
    then show ?thesis by (simp add: client_end_def)
  next
    case 4 then have "no_answer g x opts parsed i (p # ps) (pre @ sent) c c'"
      unfolding no_answer_def
      by (elim conjE disjE) (use attempt_later f in \<open>fastforce\<close>, use f in \<open>auto\<close>)
    then show ?thesis by (simp add: client_end_def)
  qed
qed

text \<open>The route changes with the answer of a provider further down the chain, and then it names that provider.\<close>

definition route_follows ::
  "golib \<Rightarrow> exchange \<Rightarrow> forwardOpts \<Rightarrow> ProxyToolConfig \<Rightarrow> fields \<Rightarrow> nat \<Rightarrow> ModelProvider list \<Rightarrow>
    (ModelProvider \<times> http_request) list \<Rightarrow> proxy_state \<Rightarrow> proxy_state \<Rightarrow> bool" where
  "route_follows g x opts cfg parsed i ps sent s s' \<longleftrightarrow>
     active_provider (x_db s') = active_provider (x_db s) \<or>
     xc_AutoFailover cfg \<and> last_answer g x opts parsed i ps sent (x_client s) (x_client s') \<and>
     (0 < i \<or> fst (last sent) \<in> set (tl ps)) \<and>
     active_provider (x_db s') = table_upsert rr_tool merge_active
       \<lparr>rr_tool = liveConfigTool (fo_tool opts), rr_provider_id = mp_ID (fst (last sent)), rr_meta = None\<rparr>
       (active_provider (x_db s))"

definition loop_result ::
  "golib \<Rightarrow> exchange \<Rightarrow> forwardOpts \<Rightarrow> ProxyToolConfig \<Rightarrow> fields \<Rightarrow> nat \<Rightarrow> nat \<Rightarrow> ModelProvider list \<Rightarrow> proxy_state \<Rightarrow>
    proxy_state \<Rightarrow> (ModelProvider \<times> http_request) list \<Rightarrow> bool" where
  "loop_result g x opts cfg parsed n i ps s s' sent \<longleftrightarrow>
     x_sent s' = x_sent s @ sent \<and> subseq (map fst sent) ps \<and>
     list_all (asked g x opts parsed n s) sent \<and>
     list_all (failed_over g x opts i ps) (butlast sent) \<and>
     client_end g x opts parsed i ps sent (x_client s) (x_client s') \<and>
     route_follows g x opts cfg parsed i ps sent s s'"

lemma hot_switch_active:
  "active_provider (hotSwitchAfterFailover tool p d) = active_provider d \<or>
   active_provider (hotSwitchAfterFailover tool p d) = table_upsert rr_tool merge_active
     \<lparr>rr_tool = liveConfigTool tool, rr_provider_id = mp_ID p, rr_meta = None\<rparr> (active_provider d)"
  by (auto simp: hotSwitchAfterFailover_def SetActiveProvider_def sql_tx_def sql_exec_def Let_def disable_all_def
    enable_active_def)

lemma loop_result_Cons:
  assumes r: "loop_result g x opts cfg parsed n (Suc i) ps s1 s' sent"
    and pre: "x_sent s1 = x_sent s @ pre"
      "pre = [] \<or> (\<exists>req. pre = [(p, req)] \<and> asked g x opts parsed n s (p, req) \<and>
        failed_over g x opts i (p # ps) (p, req))"
    and same: "x_client s1 = x_client s" "active_provider (x_db s1) = active_provider (x_db s)"
    and brs: "\<And>q. q \<in> set ps \<Longrightarrow> x_breakers s1 (mp_ID q) = x_breakers s (mp_ID q)"
    and env: "env_grown x (x_env s) (x_env s1)"
  shows "loop_result g x opts cfg parsed n i (p # ps) s s' (pre @ sent)"
proof -
  have sub: "subseq (map fst sent) ps" and fo: "list_all (failed_over g x opts (Suc i) ps) (butlast sent)"
    and ask: "list_all (asked g x opts parsed n s1) sent"
    and voice: "client_end g x opts parsed (Suc i) ps sent (x_client s1) (x_client s')"
    and route: "route_follows g x opts cfg parsed (Suc i) ps sent s1 s'"
    and sent: "x_sent s' = x_sent s1 @ sent"
    using r by (simp_all add: loop_result_def)
  have inps: "fst pr \<in> set ps" if "pr \<in> set sent" for pr
  proof -
    have "fst pr \<in> set (map fst sent)" using that by simp
    then show ?thesis using list_emb_set [OF sub, of "fst pr"] by auto
  qed
  have ask': "list_all (asked g x opts parsed n s) sent"
    unfolding list_all_iff
  proof
    fix pr assume pr: "pr \<in> set sent"
    then have "asked g x opts parsed n s1 pr" using ask by (simp add: list_all_iff)
    then show "asked g x opts parsed n s pr"
      using brs [OF inps [OF pr]] upstream_request_grown [OF _ env] unfolding asked_def by fastforce
  qed
  have last: "last (pre @ sent) = last sent" if "sent \<noteq> []"
    using that by simp
  have voice': "client_end g x opts parsed i (p # ps) (pre @ sent) (x_client s) (x_client s')"
    by (rule client_end_later [OF voice [unfolded same]]) (use pre(2) in auto)
  have "fst (last sent) \<in> set ps" if "sent \<noteq> []"
    using that inps by simp
  note in_ps = this
  have route': "route_follows g x opts cfg parsed i (p # ps) (pre @ sent) s s'"
  proof (cases "active_provider (x_db s') = active_provider (x_db s)")
    case True
    then show ?thesis by (simp add: route_follows_def)
  next
    case False
    then have r: "xc_AutoFailover cfg" "last_answer g x opts parsed (Suc i) ps sent (x_client s) (x_client s')"
      "active_provider (x_db s') = table_upsert rr_tool merge_active
         \<lparr>rr_tool = liveConfigTool (fo_tool opts), rr_provider_id = mp_ID (fst (last sent)), rr_meta = None\<rparr>
         (active_provider (x_db s))"
      using route by (simp_all add: route_follows_def same)
    have ne: "sent \<noteq> []" using r(2) by (simp add: last_answer_def)
    show ?thesis
      using r last_answer_later [OF r(2)] in_ps [OF ne] last [OF ne] by (simp add: route_follows_def)
  qed
  have "list_all (failed_over g x opts i (p # ps)) (butlast sent)"
    using fo failed_over_later by (fastforce simp: list_all_iff)
  then have "list_all (failed_over g x opts i (p # ps)) (butlast (pre @ sent))"
    using pre(2) by (auto simp: butlast_append)
  moreover have "subseq (map fst (pre @ sent)) (p # ps)"
    using sub pre(2) by auto
  moreover have "list_all (asked g x opts parsed n s) (pre @ sent)"
    using ask' pre(2) by auto
  ultimately show ?thesis
    unfolding loop_result_def using sent pre(1) voice' route' by simp
qed

theorem forward_loop_result:
  assumes "distinct (map mp_ID ps)"
  shows "\<exists>sent. loop_result g x opts cfg parsed n i ps s (forward_loop g x opts cfg parsed n i ps lastErr parent s) sent"
  using assms
proof (induction ps arbitrary: i lastErr parent s)
  case Nil
  have "all_failed g x opts i [] [] (x_client s) (x_client (write_error g x opts 502 m s))" for m
    by (auto simp: all_failed_def write_error_def)
  then show ?case
    by (intro exI [of _ "[]"]) (simp add: loop_result_def client_end_def route_follows_def, simp add: write_error_def)
next
  case (Cons p ps)
  let ?rm = "stringValue (fld parsed ''model'')"
  let ?f = "forward_loop g x opts cfg parsed n i (p # ps) lastErr parent s"
  have p_new: "mp_ID q \<noteq> mp_ID p" if "q \<in> set ps" for q
    using Cons.prems that by (metis distinct.simps(2) image_eqI list.simps(9) set_map)
  have IH: "\<exists>sent. loop_result g x opts cfg parsed n (Suc i) ps s1 (forward_loop g x opts cfg parsed n (Suc i) ps le pa s1) sent"
    for s1 le pa
    using Cons by simp
  show ?case
  proof (cases "1 < n \<and> \<not> available (e_clock x 0) (x_breakers s (mp_ID p))")
    case True
    then have f: "?f = forward_loop g x opts cfg parsed n (Suc i) ps lastErr parent s"
      by (simp add: Let_def)
    obtain sent where "loop_result g x opts cfg parsed n (Suc i) ps s ?f sent"
      using IH [of s lastErr parent] unfolding f by blast
    then have "loop_result g x opts cfg parsed n i (p # ps) s ?f ([] @ sent)"
      by (rule loop_result_Cons) simp_all
    then show ?thesis by blast
  next
    case avail: False
    show ?thesis
    proof (cases "resolveUpstreamModel g p parsed (fo_mapModel opts)")
      case (Inl e)
      define d where "d = recordProxyTrace x parsed opts p ?rm [] (e_attemptID x i) parent i (attempt_start g opts p 400
        \<lparr>at_Err := Some e\<rparr>) (x_db s)"
      have f: "?f = write_error g x opts 400 e (s\<lparr>x_db := d\<rparr>)"
        unfolding forward_loop.simps Let_def if_not_P [OF avail] Inl d_def attempt_start_def by simp
      have d: "active_provider d = active_provider (x_db s)"
        by (simp add: d_def)
      have "no_model g x opts parsed i (p # ps) [] (x_client s) (x_client ?f)"
        unfolding f using Inl by (auto simp: no_model_def write_error_def)
      then have "client_end g x opts parsed i (p # ps) [] (x_client s) (x_client ?f)"
        by (simp add: client_end_def)
      moreover have "x_sent ?f = x_sent s" "active_provider (x_db ?f) = active_provider (x_db s)"
        unfolding f by (simp_all add: write_error_def d)
      ultimately have "loop_result g x opts cfg parsed n i (p # ps) s ?f []"
        by (simp add: loop_result_def route_follows_def del: forward_loop.simps)
      then show ?thesis ..
    next
      case (Inr ub)
      obtain um body where ub: "ub = (um, body)" by (cases ub)
      define before where "before = (if 0 < i \<and> xc_AutoFailover cfg then hotSwitchAfterFailover (fo_tool opts) p else id)"
      obtain r s1 where one: "forwardOne g x opts i p body ?rm um before s = (r, s1)" by fastforce
      define s2 where "s2 = s1\<lparr>x_db := recordProxyTrace x parsed opts p ?rm um (e_attemptID x i) parent i r (x_db s1)\<rparr>"
      define s3 where "s3 = set_breaker (mp_ID p) (snd (recordFailure (word_of_int (xc_FailureThreshold cfg))
        (seconds (xc_CooldownSeconds cfg)) (e_clock x (Suc i)) (x_breakers s2 (mp_ID p)))) s2"
      have f: "?f = (if at_OK r then set_breaker (mp_ID p) (recordSuccess (x_breakers s2 (mp_ID p))) s2
                     else if \<not> at_Retryable r then s3
                     else forward_loop g x opts cfg parsed n (Suc i) ps (at_Err r) (e_attemptID x i) s3)"
        unfolding forward_loop.simps Let_def if_not_P [OF avail] Inr ub
        by (simp add: before_def [symmetric] one s2_def [symmetric] s3_def [symmetric])
      have s3: "x_sent s3 = x_sent s1" "x_client s3 = x_client s1" "active_provider (x_db s3) = active_provider (x_db s1)"
        "\<And>q. q \<in> set ps \<Longrightarrow> x_breakers s3 (mp_ID q) = x_breakers s1 (mp_ID q)" "x_env s3 = x_env s1"
        by (simp_all add: s3_def s2_def set_breaker_def p_new)
      have done_state: "x_sent ?f = x_sent s1" "x_client ?f = x_client s1" "active_provider (x_db ?f) = active_provider (x_db s1)"
        if "at_OK r \<or> \<not> at_Retryable r"
        using that s3 unfolding f by (auto simp: s2_def set_breaker_def)
      note one_cases = forwardOne_cases [OF one]
      have asks: "asked g x opts parsed n s (p, req)" if "upstream_request g x opts (x_env s) p body um req" for req
        using that avail Inr ub by (auto simp: asked_def)
      have next_one: ?thesis
        if "\<not> at_OK r" "at_Retryable r" "x_sent s1 = x_sent s @ pre" "x_client s1 = x_client s"
          "active_provider (x_db s1) = active_provider (x_db s)"
          "pre = [] \<or> (\<exists>req. pre = [(p, req)] \<and> asked g x opts parsed n s (p, req) \<and>
            failed_over g x opts i (p # ps) (p, req))"
        for pre
      proof -
        have f': "?f = forward_loop g x opts cfg parsed n (Suc i) ps (at_Err r) (e_attemptID x i) s3"
          using that unfolding f by simp
        obtain sent where "loop_result g x opts cfg parsed n (Suc i) ps s3 ?f sent"
          using IH [of s3 "at_Err r" "e_attemptID x i"] unfolding f' by blast
        then have "loop_result g x opts cfg parsed n i (p # ps) s ?f (pre @ sent)"
          by (rule loop_result_Cons) (use that s3 one_cases in auto)
        then show ?thesis by blast
      qed
      from one_cases consider
          (none) "x_sent s1 = x_sent s" "unanswered r s s1" "at_Retryable r \<or> untranslatable g opts p body um"
        | (refused) req where "upstream_request g x opts (x_env s) p body um req" "x_sent s1 = x_sent s @ [(p, req)]"
            "unanswered r s s1" "at_Retryable r = failover_answer g opts p (e_http x i req)"
            "at_Retryable r \<or> dropped_answer g opts p (e_http x i req)"
        | (reply) req where "upstream_request g x opts (x_env s) p body um req" "x_sent s1 = x_sent s @ [(p, req)]"
            "replied g x opts i p ?rm req (x_client s) (x_client s1)" "x_db s1 = before (x_db s)" "\<not> at_Retryable r"
        by blast
      then show ?thesis
      proof cases
        case none
        show ?thesis
        proof (cases "at_Retryable r")
          case True
          with none next_one [of "[]"] show ?thesis by (simp add: unanswered_def)
        next
          case False
          with none done_state have u: "untranslatable g opts p body um" "x_client ?f = x_client s" "x_sent ?f = x_sent s"
            "active_provider (x_db ?f) = active_provider (x_db s)"
            by (simp_all add: unanswered_def del: forward_loop.simps)
          have "no_answer g x opts parsed i (p # ps) [] (x_client s) (x_client ?f)"
            unfolding no_answer_def u(2) using u(1) Inr ub by auto
          with u have "loop_result g x opts cfg parsed n i (p # ps) s ?f []"
            by (simp add: loop_result_def client_end_def route_follows_def del: forward_loop.simps)
          then show ?thesis ..
        qed
      next
        case refused
        show ?thesis
        proof (cases "at_Retryable r")
          case True
          with refused next_one [of "[(p, req)]"] asks attempt_here [of i p ps] show ?thesis
            by (auto simp: unanswered_def failed_over_def simp del: forward_loop.simps)
        next
          case False
          with refused done_state have u: "dropped_answer g opts p (e_http x i req)" "x_client ?f = x_client s"
            "x_sent ?f = x_sent s @ [(p, req)]" "active_provider (x_db ?f) = active_provider (x_db s)"
            by (simp_all add: unanswered_def del: forward_loop.simps)
          have "no_answer g x opts parsed i (p # ps) [(p, req)] (x_client s) (x_client ?f)"
            unfolding no_answer_def u(2) using u(1) attempt_here [of i p ps] by auto
          with u refused(1) asks have "loop_result g x opts cfg parsed n i (p # ps) s ?f [(p, req)]"
            by (simp add: loop_result_def client_end_def route_follows_def del: forward_loop.simps)
          then show ?thesis ..
        qed
      next
        case reply
        have la: "last_answer g x opts parsed i (p # ps) [(p, req)] (x_client s) (x_client ?f)"
          using reply done_state attempt_here [of i p ps] by (auto simp: last_answer_def simp del: forward_loop.simps)
        have "route_follows g x opts cfg parsed i (p # ps) [(p, req)] s ?f"
        proof (cases "0 < i \<and> xc_AutoFailover cfg")
          case True
          then show ?thesis
            using la reply done_state hot_switch_active [of "fo_tool opts" p "x_db s"]
            by (simp add: route_follows_def before_def del: forward_loop.simps)
        next
          case False
          then show ?thesis
            using reply done_state by (auto simp: route_follows_def before_def simp del: forward_loop.simps)
        qed
        then have "loop_result g x opts cfg parsed n i (p # ps) s ?f [(p, req)]"
          using la reply done_state asks by (simp add: loop_result_def client_end_def del: forward_loop.simps)
        then show ?thesis ..
      qed
    qed
  qed
qed

end
