(* ===== verification/Proxy_Chain.thy ===== *)
theory Proxy_Chain
  imports Proxy_Correctness "HOL-Library.Multiset"
begin

text \<open>The candidates of a request and their order, the breakers, and the whole of \<open>forwardChain\<close>.\<close>

section \<open>The candidates\<close>

lemma append_provider_ids: "distinct (map mp_ID chain) \<Longrightarrow> distinct (map mp_ID (append_provider p chain))"
  by (simp add: append_provider_def)

lemma fold_append_ids: "distinct (map mp_ID chain) \<Longrightarrow> distinct (map mp_ID (fold append_provider ps chain))"
  by (induction ps arbitrary: chain) (simp_all add: append_provider_ids)

lemma fold_append_provider:
  "distinct (map mp_ID ps) \<Longrightarrow>
   fold append_provider ps chain = chain @ filter (\<lambda>p. mp_ID p \<notin> set (map mp_ID chain)) ps"
proof (induction ps arbitrary: chain)
  case (Cons p ps)
  have "mp_ID q \<noteq> mp_ID p" if "q \<in> set ps" for q
    using Cons.prems that by (metis distinct.simps(2) image_eqI list.simps(9) set_map)
  then have "filter (\<lambda>q. mp_ID q \<notin> set (map mp_ID (chain @ [p]))) ps = filter (\<lambda>q. mp_ID q \<notin> set (map mp_ID chain)) ps"
    by (intro filter_cong) auto
  with Cons show ?case by (simp add: append_provider_def)
qed simp

lemma read_db: "sql_query q d = (r, d') \<Longrightarrow> d' = d\<lparr>tick := Suc (tick d)\<rparr>"
  by (auto simp: sql_query_def Let_def)

lemma active_route_db: "\<exists>n. snd (active_route_provider keys d) = d\<lparr>tick := n\<rparr>"
proof (induction keys arbitrary: d)
  case Nil
  show ?case by (intro exI [of _ "tick d"]) simp
next
  case (Cons k keys)
  obtain res d1 where q: "ActiveProviderRoute k d = (res, d1)" by fastforce
  then have d1: "d1 = d\<lparr>tick := Suc (tick d)\<rparr>"
    unfolding ActiveProviderRoute_def by (rule read_db)
  show ?case
  proof (cases "\<exists>route. res = Some (Some route)")
    case True
    then obtain route where res: "res = Some (Some route)" by blast
    obtain res2 d2 where g: "GetProvider (ro_ProviderID route) d1 = (res2, d2)" by fastforce
    then have "d2 = d1\<lparr>tick := Suc (tick d1)\<rparr>"
      unfolding GetProvider_def by (rule read_db)
    moreover have "snd (active_route_provider (k # keys) d) = d2"
      by (cases res2) (simp_all add: q res g)
    ultimately show ?thesis
      by (intro exI [of _ "Suc (tick d1)"]) (simp add: d1)
  next
    case False
    obtain n where n: "snd (active_route_provider keys d1) = d1\<lparr>tick := n\<rparr>"
      using Cons.IH by blast
    have "active_route_provider (k # keys) d = active_route_provider keys d1"
      using False by (auto simp: q split: option.splits)
    then show ?thesis
      using n by (intro exI [of _ n]) (simp add: d1)
  qed
qed

lemma providerChain_distinct:
  "providerChain tool d = ((chain, cfg), d') \<Longrightarrow> distinct (map mp_ID chain)"
  by (auto simp: providerChain_def Let_def fold_append_ids split: prod.splits option.splits if_splits)

lemma providerChain_db:
  assumes "providerChain tool d = ((chain, cfg), d')" shows "\<exists>n. d' = d\<lparr>tick := n\<rparr>"
proof -
  obtain c d1 where c: "GetProxyToolConfig (liveConfigTool tool) d = (c, d1)" by fastforce
  then have d1: "d1 = d\<lparr>tick := Suc (tick d)\<rparr>"
    unfolding GetProxyToolConfig_def by (rule read_db)
  obtain a d2 where a: "active_route_provider (activeRouteKeys (liveConfigTool tool)) d1 = (a, d2)" by fastforce
  then obtain n where d2: "d2 = d1\<lparr>tick := n\<rparr>"
    using active_route_db [of "activeRouteKeys (liveConfigTool tool)" d1] by auto
  obtain l d3 where l: "ListProviders d2 = (l, d3)" by fastforce
  then have d3: "d3 = d2\<lparr>tick := Suc (tick d2)\<rparr>"
    unfolding ListProviders_def by (rule read_db)
  have "snd (providerChain tool d) = d2 \<or> snd (providerChain tool d) = d3"
    unfolding providerChain_def Let_def c prod.case a l by (simp split: option.split)
  then have "d' = d2 \<or> d' = d3"
    using assms by simp
  then show ?thesis
  proof
    assume "d' = d2"
    then show ?thesis by (intro exI [of _ n]) (simp add: d1 d2)
  next
    assume "d' = d3"
    then show ?thesis by (intro exI [of _ "Suc (tick d2)"]) (simp add: d1 d2 d3)
  qed
qed

text \<open>The queue in the order of the comparison.\<close>

lemma sorted_queue_sorted:
  assumes "distinct (map mp_ID all)" shows "sorted_wrt queue_before (sorted_queue all)"
proof -
  let ?k = "\<lambda>p. (mp_SortIndex p, mp_ID p)"
  have "distinct (map mp_ID (filter mp_InFailoverQueue all))"
    using assms by (simp add: distinct_map_filter)
  then have "inj_on mp_ID (set (sorted_queue all))" and "distinct (sorted_queue all)"
    by (simp_all add: sorted_queue_def distinct_map)
  then have "distinct (map ?k (sorted_queue all))"
    by (auto simp: distinct_map inj_on_def)
  moreover have "sorted (map ?k (sorted_queue all))"
    by (simp add: sorted_queue_def)
  ultimately have "sorted_wrt (<) (map ?k (sorted_queue all))"
    by (simp add: strict_sorted_iff)
  then show ?thesis
    by (auto simp: sorted_wrt_map queue_before_def elim: sorted_wrt_mono_rel [rotated])
qed

subsection \<open>The routed provider\<close>

text \<open>
  What the tables say of the route of a tool: its row is the first one its keys find; the provider of that row, if there
  is one, takes the metadata of the route over its own, and the route has none of its own when the row has none.
\<close>

fun route_row_for :: "string list \<Rightarrow> route_row list \<Rightarrow> route_row option" where
  "route_row_for [] rows = None"
| "route_row_for (key # keys) rows =
     (case filter (\<lambda>r. rr_tool r = key) rows of [] \<Rightarrow> route_row_for keys rows | r # _ \<Rightarrow> Some r)"

definition route_meta :: "route_row \<Rightarrow> ModelProvider \<Rightarrow> ProviderMeta" where
  "route_meta r p =
     (case rr_meta r of None \<Rightarrow> RouteMetaFromProvider (mp_Meta p)
      | Some m \<Rightarrow> if RouteMetaIsZero m then RouteMetaFromProvider (mp_Meta p) else m)"

definition routed :: "string \<Rightarrow> proxy_db \<Rightarrow> ModelProvider list" where
  "routed tool d =
     (case route_row_for (activeRouteKeys (liveConfigTool tool)) (active_provider d) of
        None \<Rightarrow> []
      | Some r \<Rightarrow> map (\<lambda>p. p\<lparr>mp_Meta := MergeRouteMeta (mp_Meta p) (route_meta r p)\<rparr>)
                    (filter (\<lambda>p. mp_ID p = rr_provider_id r) (providers d)))"

definition failover_on :: "string \<Rightarrow> proxy_db \<Rightarrow> bool" where
  "failover_on tool d \<longleftrightarrow>
     (case filter (\<lambda>c. xc_Tool c = liveConfigTool tool) (proxy_config d) of [] \<Rightarrow> False | c # _ \<Rightarrow> xc_AutoFailover c)"

lemma find_filter: "find P xs = (case filter P xs of [] \<Rightarrow> None | x # _ \<Rightarrow> Some x)"
  by (induction xs) auto

lemma filter_key_once:
  "distinct (map f xs) \<Longrightarrow> filter (\<lambda>x. f x = k) xs = (case find (\<lambda>x. f x = k) xs of None \<Rightarrow> [] | Some x \<Rightarrow> [x])"
proof (induction xs)
  case (Cons x xs)
  show ?case
  proof (cases "f x = k")
    case True
    then have "f y \<noteq> k" if "y \<in> set xs" for y using Cons.prems that by (metis distinct.simps(2) image_eqI list.simps(9) set_map)
    then have "filter (\<lambda>x. f x = k) xs = []" by (simp add: filter_empty_conv)
    with True show ?thesis by simp
  next
    case False
    with Cons show ?thesis by simp
  qed
qed simp

lemma zero_meta: "RouteMetaIsZero no_meta"
  by (simp add: RouteMetaIsZero_def no_meta_def)

lemma scanned_route:
  assumes "table_find mp_ID (rr_provider_id r) ps = Some p"
  shows "ro_Meta (scanProviderRoute ps r) = route_meta r p" "ro_ProviderID (scanProviderRoute ps r) = rr_provider_id r"
  using assms by (simp_all add: scanProviderRoute_def route_meta_def Let_def zero_meta split: option.splits)

lemma active_route_found:
  assumes "healthy d"
  shows "fst (active_route_provider keys d) =
    (case route_row_for keys (active_provider d) of
       None \<Rightarrow> None
     | Some r \<Rightarrow> map_option (\<lambda>p. p\<lparr>mp_Meta := MergeRouteMeta (mp_Meta p) (route_meta r p)\<rparr>)
                   (table_find mp_ID (rr_provider_id r) (providers d)))"
  using assms
proof (induction keys arbitrary: d)
  case (Cons k keys)
  define d1 where "d1 = d\<lparr>tick := Suc (tick d)\<rparr>"
  have d1: "healthy d1" "providers d1 = providers d" "active_provider d1 = active_provider d"
    using Cons.prems by (simp_all add: d1_def)
  have q: "ActiveProviderRoute k d = (Some (map_option (scanProviderRoute (providers d)) (table_find rr_tool k (active_provider d))), d1)"
    using Cons.prems by (simp add: ActiveProviderRoute_def store_simps d1_def)
  show ?case
  proof (cases "filter (\<lambda>r. rr_tool r = k) (active_provider d)")
    case Nil
    then have "table_find rr_tool k (active_provider d) = None"
      by (simp add: table_find_def find_filter)
    with Nil Cons.IH [OF d1(1), unfolded d1(2,3)] show ?thesis by (simp add: q)
  next
    case (Cons r rs)
    then have f: "table_find rr_tool k (active_provider d) = Some r"
      by (simp add: table_find_def find_filter)
    have g: "GetProvider i d1 = (Some (table_find mp_ID i (providers d)), d1\<lparr>tick := Suc (tick d1)\<rparr>)" for i
      using d1 by (simp add: GetProvider_def store_simps)
    have i: "ro_ProviderID (scanProviderRoute (providers d) r) = rr_provider_id r"
      by (simp add: scanProviderRoute_def Let_def)
    show ?thesis
      using Cons by (cases "table_find mp_ID (rr_provider_id r) (providers d)")
        (simp_all add: q f g i ProviderWithRouteMeta_def scanned_route)
  qed
qed simp

subsection \<open>The chain\<close>

text \<open>
  On a working store the chain is the routed provider, if there is one, and after it, when failover is on, every other
  provider of the queue once, in the order of the sort index and then of the id.
\<close>

theorem chain_exact:
  assumes "healthy d" and "distinct (map mp_ID (providers d))"
  shows "\<exists>queue. fst (fst (providerChain tool d)) = routed tool d @ queue \<and> sorted_wrt queue_before queue \<and>
     mset queue = mset (filter (\<lambda>p. failover_on tool d \<and> mp_InFailoverQueue p \<and> mp_ID p \<notin> set (map mp_ID (routed tool d)))
       (providers d))"
proof -
  let ?canon = "liveConfigTool tool"
  define cfg where "cfg = (case table_find xc_Tool ?canon (proxy_config d) of None \<Rightarrow> defaultProxyToolConfig ?canon | Some c \<Rightarrow> c)"
  define d1 where "d1 = d\<lparr>tick := Suc (tick d)\<rparr>"
  have c: "GetProxyToolConfig ?canon d = (Some cfg, d1)"
    using assms(1) by (simp add: GetProxyToolConfig_def store_simps cfg_def d1_def)
  have on: "xc_AutoFailover cfg = failover_on tool d"
    by (auto simp: cfg_def failover_on_def table_find_def find_filter defaultProxyToolConfig_def split: list.split)
  obtain a d2 where a: "active_route_provider (activeRouteKeys ?canon) d1 = (a, d2)" by fastforce
  have d1: "healthy d1" "providers d1 = providers d" "active_provider d1 = active_provider d"
    using assms(1) by (simp_all add: d1_def)
  obtain n where d2: "d2 = d1\<lparr>tick := n\<rparr>"
    using active_route_db [of "activeRouteKeys ?canon" d1] a by auto
  define active where "active = (case a of None \<Rightarrow> [] | Some p \<Rightarrow> [p :: ModelProvider])"
  have active: "active = routed tool d"
    using active_route_found [OF d1(1), of "activeRouteKeys ?canon"] d1
    unfolding active_def routed_def filter_key_once [OF assms(2)]
    by (auto simp: a table_find_def split: option.splits)
  define all where "all = sort_key (\<lambda>p. text_key d (mp_Name p)) (providers d)"
  have l: "ListProviders d2 = (Some all, d2\<lparr>tick := Suc (tick d2)\<rparr>)"
    using d1 by (simp add: ListProviders_def store_simps d2 d1_def all_def)
  have chain: "fst (fst (providerChain tool d)) = (if failover_on tool d then fold append_provider (sorted_queue all) active else active)"
    unfolding providerChain_def Let_def c prod.case a l active_def by (simp add: on)
  have perm: "mset all = mset (providers d)" by (simp add: all_def)
  have dist: "distinct (map mp_ID all)"
    using assms(2) perm by (metis mset_eq_imp_distinct_iff mset_map)
  have sq: "distinct (map mp_ID (sorted_queue all))"
  proof -
    have "mset (map mp_ID (sorted_queue all)) = mset (map mp_ID (filter mp_InFailoverQueue all))"
      by (simp add: sorted_queue_def)
    then show ?thesis using dist distinct_map_filter [of mp_ID all] mset_eq_imp_distinct_iff by metis
  qed
  define queue where "queue = (if failover_on tool d then filter (\<lambda>p. mp_ID p \<notin> set (map mp_ID active)) (sorted_queue all) else [])"
  have "fst (fst (providerChain tool d)) = active @ queue"
    unfolding chain queue_def by (simp add: fold_append_provider [OF sq])
  moreover have "sorted_wrt queue_before queue"
    using sorted_queue_sorted [OF dist] by (simp add: queue_def sorted_wrt_filter)
  moreover have "mset queue = mset (filter (\<lambda>p. failover_on tool d \<and> mp_InFailoverQueue p \<and> mp_ID p \<notin> set (map mp_ID active)) (providers d))"
  proof (cases "failover_on tool d")
    case True
    have "mset (filter P (sorted_queue all)) = mset (filter (\<lambda>p. mp_InFailoverQueue p \<and> P p) (providers d))" for P
      by (simp add: sorted_queue_def perm mset_filter filter_filter_mset conj_commute)
    with True show ?thesis by (simp add: queue_def)
  qed (simp add: queue_def)
  ultimately show ?thesis unfolding active by blast
qed

end
