(* ===== verification/Proxy_Models.thy ===== *)
theory Proxy_Models
  imports Proxy_Chain
begin

text \<open>What reaches a provider and the client: models, the whole chain, the breaker, the routes.\<close>

section \<open>The whole chain\<close>

theorem forward_chain_result:
  assumes "providerChain (fo_tool opts) (x_db s) = ((chain, cfg), d)"
  shows "\<exists>sent. loop_result g x opts cfg parsed (length chain) 0 chain s (forwardChain g x opts parsed s) sent"
proof -
  let ?s = "s\<lparr>x_db := d\<rparr>"
  obtain n where d: "d = (x_db s)\<lparr>tick := n\<rparr>"
    using providerChain_db [OF assms] by blast
  have lift: "loop_result g x opts cfg parsed (length chain) 0 chain s s' sent"
    if "loop_result g x opts cfg parsed (length chain) 0 chain ?s s' sent" for s' sent
  proof -
    have "asked g x opts parsed n ?s = asked g x opts parsed n s" for n
      by (simp add: asked_def fun_eq_iff)
    with that show ?thesis by (simp add: loop_result_def route_follows_def d)
  qed
  show ?thesis
  proof (cases "chain = []")
    case True
    then have "forwardChain g x opts parsed s = write_error g x opts 502 (''no provider routed for '' @ fo_tool opts) ?s"
      by (simp add: forwardChain_def assms)
    moreover have "all_failed g x opts 0 chain [] (x_client s) (x_client (write_error g x opts 502 m ?s))" for m
      by (auto simp: all_failed_def write_error_def)
    ultimately have "loop_result g x opts cfg parsed (length chain) 0 chain ?s (forwardChain g x opts parsed s) []"
      by (simp add: loop_result_def client_end_def route_follows_def) (simp add: write_error_def)
    then show ?thesis using lift by blast
  next
    case False
    then have "forwardChain g x opts parsed s = forward_loop g x opts cfg parsed (length chain) 0 chain None [] ?s"
      by (simp add: forwardChain_def assms Let_def)
    then show ?thesis
      using forward_loop_result [OF providerChain_distinct [OF assms]] lift by metis
  qed
qed

section \<open>Models\<close>

lemma fld_put_if: "fld (put k v m) q = (if q = k then v else fld m q)"
  by (simp add: fld_def)

lemma not_blocked_Nil [simp]: "\<not> ModelBlocked p []"
  by (simp add: ModelBlocked_def)

text \<open>The model a request of a client becomes at a provider.\<close>

definition model_for :: "golib \<Rightarrow> forwardOpts \<Rightarrow> fields \<Rightarrow> ModelProvider \<Rightarrow> string" where
  "model_for g opts parsed p =
     (case fo_mapModel opts of
        None \<Rightarrow> upstreamModelFor g p (stringValue (fld parsed ''model''))
      | Some f \<Rightarrow> (case f p parsed of Inl _ \<Rightarrow> [] | Inr body \<Rightarrow> stringValue (fld body ''model'')))"

lemma resolved_not_blocked:
  assumes "resolveUpstreamModel g p parsed (fo_mapModel opts) = Inr (um, body)"
  shows "um = model_for g opts parsed p" "\<not> ModelBlocked p (stringValue (fld parsed ''model''))" "\<not> ModelBlocked p um"
    "\<not> ModelBlocked p (stringValue (fld body ''model''))"
  using assms
  by (auto simp: resolveUpstreamModel_def model_for_def Let_def fld_put_if split: if_splits sum.splits option.splits)

lemma gemini_names_no_model: "fld (chatToGeminiRequest dec upper ir) ''model'' = JNull"
proof -
  obtain sys contents names where f:
    "fold (to_gemini_step dec) (objs (list_or_nil (fld ir ''messages''))) ([], [], []) = (sys, contents, names)"
    by (metis prod_cases3)
  show ?thesis
    by (simp add: chatToGeminiRequest_def f Let_def given_def mk_def fld_put_if del: put.simps)
qed

lemma encoded_model:
  "encodeFromIR dec upper up ir = Inr out \<Longrightarrow> stringValue (fld out ''model'') \<in> {[], stringValue (fld ir ''model'')}"
  by (auto simp: encodeFromIR_def chatToAnthropicRequest_def chatToResponsesRequest_def responses_tool_choice_def
           gemini_names_no_model Let_def split: if_splits prod.splits option.splits jv.splits)

lemma decoded_model:
  "decodeToIR enc cp body = Inr ir \<Longrightarrow> stringValue (fld ir ''model'') \<in> {[], stringValue (fld body ''model'')}"
  by (auto simp: decodeToIR_def anthropicToChatRequest_def responsesToChatRequest_def geminiToChatRequest_def Let_def
           split: if_splits option.splits)

lemma payload_model:
  assumes "upstream_payload g cp up body um = Inr payload"
  shows "\<exists>m. payload = g_enc g (JObj m) \<and> stringValue (fld m ''model'') \<in> {[], um, stringValue (fld body ''model'')}"
proof (cases "up = cp")
  case True
  with assms show ?thesis by (auto simp: upstream_payload_def)
next
  case False
  then obtain ir out where ir: "decodeToIR (g_enc g) cp body = Inr ir"
    and out: "encodeFromIR (g_dec g) (g_upper g) up (if um \<noteq> [] then put ''model'' (JStr um) ir else ir) = Inr out"
    and pay: "payload = g_enc g (JObj (if cp = ''anthropic'' \<and> up = ''openai_responses'' \<and> anthropicResponseCacheKey g body \<noteq> []
        then put ''prompt_cache_key'' (JStr (anthropicResponseCacheKey g body)) out else out))"
    using assms by (auto simp: upstream_payload_def Let_def split: sum.splits)
  show ?thesis
    unfolding pay
  proof (intro exI conjI)
    let ?key = "anthropicResponseCacheKey g body"
    show "stringValue (fld (if cp = ''anthropic'' \<and> up = ''openai_responses'' \<and> ?key \<noteq> []
        then put ''prompt_cache_key'' (JStr ?key) out else out) ''model'') \<in> {[], um, stringValue (fld body ''model'')}"
      using encoded_model [OF out] decoded_model [OF ir] by (auto simp: fld_put_if split: if_splits)
  qed (rule refl)
qed

text \<open>The path that asks a Gemini server for a model.\<close>

definition gemini_url :: "string \<Rightarrow> string \<Rightarrow> bool \<Rightarrow> string" where
  "gemini_url base model stream =
     joinURL base (''/models/'' @ PathEscape model @ (if stream then '':streamGenerateContent'' else '':generateContent'')) @
     (if stream then ''?alt=sse'' else [])"

lemma gemini_endpoint:
  "upstreamEndpoint ''gemini'' base um stream = gemini_url base (if trim_space um = [] then ''gemini-pro'' else trim_space um) stream"
  by (simp add: upstreamEndpoint_def gemini_url_def joinURL_def Let_def)

text \<open>
  A request to a provider: the model the client named and the one it becomes are not blocked there, no blocked model is
  named in the body, and a path for Gemini names the model, or \<open>gemini-pro\<close> when the model is blank.
\<close>

definition names_allowed_model :: "golib \<Rightarrow> forwardOpts \<Rightarrow> fields \<Rightarrow> ModelProvider \<times> http_request \<Rightarrow> bool" where
  "names_allowed_model g opts parsed pr \<longleftrightarrow>
     (let p = fst pr; um = model_for g opts parsed p in
      \<not> ModelBlocked p (stringValue (fld parsed ''model'')) \<and> \<not> ModelBlocked p um \<and>
      (\<exists>m. rq_body (snd pr) = g_enc g (JObj m) \<and> \<not> ModelBlocked p (stringValue (fld m ''model''))) \<and>
      (providerUpstreamProto g p (fo_clientProto opts) = ''gemini'' \<longrightarrow>
         rq_url (snd pr) = gemini_url (mp_BaseURL p) (if trim_space um = [] then ''gemini-pro'' else trim_space um) (fo_stream opts)))"

theorem sent_model_not_blocked:
  assumes "asked g x opts parsed n s pr" shows "names_allowed_model g opts parsed pr"
proof -
  obtain p req where pr: "pr = (p, req)" by (cases pr)
  obtain um body where r: "resolveUpstreamModel g p parsed (fo_mapModel opts) = Inr (um, body)"
    and u: "upstream_request g x opts (x_env s) p body um req"
    using assms by (auto simp: asked_def pr)
  have pay: "upstream_payload g (fo_clientProto opts) (providerUpstreamProto g p (fo_clientProto opts)) body um = Inr (rq_body req)"
    using u by (simp add: upstream_request_def Let_def)
  have url: "rq_url req = upstreamEndpoint (providerUpstreamProto g p (fo_clientProto opts)) (mp_BaseURL p) um (fo_stream opts)"
    using u by (simp add: upstream_request_def Let_def)
  obtain m where m: "rq_body req = g_enc g (JObj m)" "stringValue (fld m ''model'') \<in> {[], um, stringValue (fld body ''model'')}"
    using payload_model [OF pay] by blast
  note b = resolved_not_blocked [OF r]
  have "\<not> ModelBlocked p (stringValue (fld m ''model''))"
    using m(2) b(3,4) by auto
  with b m(1) show ?thesis
    unfolding names_allowed_model_def Let_def pr fst_conv snd_conv
    by (auto simp: url gemini_endpoint b(1) [symmetric])
qed

text \<open>The default of the Gemini path is not checked: a provider that blocks it is asked for it.\<close>

lemma gemini_default_unchecked:
  assumes "pm_BlockedModels (mp_Meta p) = [''gemini-pro'']" "pm_ClaudeDesktopModels (mp_Meta p) = []"
    "pm_SupportedModels (mp_Meta p) = []" "mp_Model p = []"
  shows "ModelBlocked p ''gemini-pro'' \<and> resolveUpstreamModel g p [] None = Inr ([], []) \<and>
    upstreamEndpoint ''gemini'' (mp_BaseURL p) [] False = joinURL (mp_BaseURL p) ''/models/gemini-pro:generateContent''"
proof -
  have t: "trim_space ''gemini-pro'' = ''gemini-pro''" "trim_space [] = []" by code_simp+
  have e: "\<not> EqualFold g (claudeCodeModelPrefix @ ''gemini-pro'') []"
    by (simp add: EqualFold_def claudeCodeModelPrefix_def ascii_def byte_of_def)
  have x: "PathEscape ''gemini-pro'' = ''gemini-pro''" by code_simp
  have l: "ToLower g [] = []" by (simp add: ToLower_def ascii_def)
  have r: "claudeCodeModelRoutes g p = []"
    using assms by (simp add: claudeCodeModelRoutes_def claudeCodeModelOptions_def ProviderModelOptions_def add_option_def Let_def t)
  show ?thesis
    using assms e r
    by (simp add: ModelBlocked_def resolveUpstreamModel_def upstreamModelFor_def claudeCodeUpstreamModel_def
      mapClaudeTierModel_def claudeCodeModelOptions_def ProviderModelOptions_def add_option_def upstreamEndpoint_def
      fld_def has_suffix_def has_prefix_def Let_def t x l)
qed

section \<open>A request the provider refuses\<close>

text \<open>With one candidate: a request that was sent and refused for what it says leaves the client without an answer.\<close>

theorem refusal_not_relayed:
  assumes chain: "providerChain (fo_tool opts) (x_db s) = (([p], cfg), d)"
    and ans: "\<And>req. e_http x 0 req = Answer code h rb" and code: "400 \<le> code" "\<not> isFailoverStatus code"
    and sent: "x_sent (forwardChain g x opts parsed s) \<noteq> x_sent s"
  shows "x_client (forwardChain g x opts parsed s) = x_client s"
proof -
  let ?s = "s\<lparr>x_db := d\<rparr>"
  let ?rm = "stringValue (fld parsed ''model'')"
  have f: "forwardChain g x opts parsed s = forward_loop g x opts cfg parsed 1 0 [p] None [] ?s"
    by (simp add: forwardChain_def chain Let_def)
  show ?thesis
  proof (cases "resolveUpstreamModel g p parsed (fo_mapModel opts)")
    case (Inl e)
    with sent show ?thesis by (simp add: f Let_def write_error_def)
  next
    case (Inr ub)
    obtain um body where ub: "ub = (um, body)" by (cases ub)
    obtain r s1 where one: "forwardOne g x opts 0 p body ?rm um id ?s = (r, s1)" by fastforce
    note cs = forwardOne_cases [OF one]
    have "x_sent (forwardChain g x opts parsed s) = x_sent s1"
      unfolding f by (cases "at_OK r"; cases "at_Retryable r") (simp_all add: Let_def Inr ub one set_breaker_def write_error_def)
    then have "x_sent s1 \<noteq> x_sent s"
      using sent by simp
    then obtain req where "unanswered r ?s s1 \<and> at_Retryable r = failover_answer g opts p (e_http x 0 req) \<or>
        replied g x opts 0 p ?rm req (x_client ?s) (x_client s1)"
      using cs by auto
    moreover have "\<not> replied g x opts 0 p ?rm req (x_client ?s) (x_client s1)"
      using code by (simp add: replied_def ans)
    ultimately have "unanswered r ?s s1" "\<not> at_Retryable r"
      using code by (auto simp: ans failover_answer_def)
    then show ?thesis
      by (simp add: f Let_def Inr ub one set_breaker_def unanswered_def)
  qed
qed

section \<open>Breakers\<close>

lemma sint_count: "k < 2 ^ 31 \<Longrightarrow> sint (word_of_nat k :: 32 word) = int k"
  by (simp add: signed_of_nat signed_take_bit_int_eq_self)

text \<open>What a breaker is told, under the settings of a tool.\<close>

datatype outcome = Failed_at gotime | Succeeded

definition breaker_step :: "ProxyToolConfig \<Rightarrow> breaker \<Rightarrow> outcome \<Rightarrow> breaker" where
  "breaker_step cfg b out =
     (case out of
        Failed_at t \<Rightarrow> snd (recordFailure (word_of_int (xc_FailureThreshold cfg)) (seconds (xc_CooldownSeconds cfg)) t b)
      | Succeeded \<Rightarrow> recordSuccess b)"

definition breaker_after :: "ProxyToolConfig \<Rightarrow> outcome list \<Rightarrow> breaker" where
  "breaker_after cfg hs = foldl (breaker_step cfg) new_breaker hs"

text \<open>
  The failures since the last success, and the one that opened the breaker last: every time the threshold is reached the
  count begins anew, so that it is the last failure whose number is a multiple of the threshold.
\<close>

fun newest_failures :: "outcome list \<Rightarrow> gotime list" where
  "newest_failures (Failed_at t # hs) = t # newest_failures hs"
| "newest_failures hs = []"

definition streak :: "outcome list \<Rightarrow> gotime list" where
  "streak hs = rev (newest_failures (rev hs))"

definition opened_at :: "nat \<Rightarrow> outcome list \<Rightarrow> gotime option" where
  "opened_at th hs =
     (if length (streak hs) < th then None else Some (streak hs ! (length (streak hs) div th * th - 1)))"

lemma streak_simps: "streak [] = []" "streak (hs @ [Succeeded]) = []" "streak (hs @ [Failed_at t]) = streak hs @ [t]"
  by (simp_all add: streak_def)

text \<open>A time whose nanoseconds since 1970 fit into the \<^verbatim>\<open>int64\<close>.\<close>

definition in_range :: "gotime \<Rightarrow> bool" where
  "in_range t \<longleftrightarrow> - (2 ^ 63) \<le> t - unix_epoch \<and> t - unix_epoch < 2 ^ 63"

definition pause :: "ProxyToolConfig \<Rightarrow> int" where
  "pause cfg = xc_CooldownSeconds cfg * second_ns"

lemma UnixNano_wraps: "UnixNano (t + seconds n) = UnixNano (t + n * second_ns)"
  by (simp add: UnixNano_def seconds_def)

lemma sint_UnixNano: "in_range t \<Longrightarrow> sint (UnixNano t) = t - unix_epoch"
  unfolding UnixNano_def in_range_def by (simp add: signed_of_int signed_take_bit_int_eq_self del: of_int_diff)

lemma UnixNano_order: "in_range t \<Longrightarrow> in_range u \<Longrightarrow> UnixNano t <=s UnixNano u \<longleftrightarrow> t \<le> u"
  by (simp add: word_sle_eq sint_UnixNano)

lemma UnixNano_positive: "in_range u \<Longrightarrow> unix_epoch \<le> u \<Longrightarrow> 0 <=s UnixNano u"
  by (simp add: word_sle_eq sint_UnixNano)

lemma div_step:
  assumes "0 < th"
  shows "Suc (k mod th) = th \<Longrightarrow> Suc k mod th = 0 \<and> Suc k div th * th = Suc k"
    and "Suc (k mod th) \<noteq> th \<Longrightarrow> Suc k mod th = Suc (k mod th) \<and> Suc k div th = k div th"
proof -
  have e: "k = k div th * th + k mod th" by simp
  have l: "k mod th < th" using assms by simp
  show "Suc (k mod th) = th \<Longrightarrow> Suc k mod th = 0 \<and> Suc k div th * th = Suc k"
    using assms by (auto simp: mod_Suc div_Suc) (metis add.commute e mult_Suc plus_nat.simps(2))
  show "Suc (k mod th) \<noteq> th \<Longrightarrow> Suc k mod th = Suc (k mod th) \<and> Suc k div th = k div th"
    by (simp add: mod_Suc div_Suc)
qed

text \<open>The state of a breaker is what its history says: the count, and the pause from the failure that opened it last.\<close>

lemma breaker_state:
  assumes "xc_FailureThreshold cfg = int th" and "0 < th" and "th < 2 ^ 31"
  shows "breaker_after cfg hs =
    \<lparr>br_failures = word_of_nat (length (streak hs) mod th),
     br_openTill = (case opened_at th hs of None \<Rightarrow> 0 | Some t \<Rightarrow> UnixNano (t + pause cfg))\<rparr>"
proof (induction hs rule: rev_induct)
  case Nil
  then show ?case using assms(2) by (simp add: breaker_after_def new_breaker_def opened_at_def streak_simps)
next
  case (snoc h hs)
  have after: "breaker_after cfg (hs @ [h]) = breaker_step cfg (breaker_after cfg hs) h"
    by (simp add: breaker_after_def)
  show ?case
  proof (cases h)
    case Succeeded
    then show ?thesis
      using assms(2) by (simp add: after [unfolded Succeeded] breaker_step_def recordSuccess_def opened_at_def streak_simps)
  next
    case (Failed_at t)
    let ?k = "length (streak hs)"
    let ?c = "?k mod th"
    have c: "?c < th" using assms(2) by simp
    have n: "word_of_nat ?c + 1 = (word_of_nat (Suc ?c) :: 32 word)" by (simp add: add.commute)
    have ge: "(word_of_nat th :: 32 word) <=s word_of_nat (Suc ?c) \<longleftrightarrow> th = Suc ?c"
      using assms(3) c sint_count [of th] sint_count [of "Suc ?c"] by (simp add: word_sle_eq del: of_nat_Suc) linarith
    have step: "breaker_after cfg (hs @ [h]) =
        (if th = Suc ?c then \<lparr>br_failures = 0, br_openTill = UnixNano (t + pause cfg)\<rparr>
         else (breaker_after cfg hs)\<lparr>br_failures := word_of_nat (Suc ?c)\<rparr>)"
      using ge n
      by (simp add: after [unfolded Failed_at] Failed_at breaker_step_def recordFailure_def snoc.IH assms(1) UnixNano_wraps
        pause_def Let_def del: of_nat_Suc)
    show ?thesis
    proof (cases "th = Suc ?c")
      case True
      then have d: "Suc ?k mod th = 0" "Suc ?k div th * th = Suc ?k" using div_step(1) [OF assms(2), of ?k] by simp_all
      then have "th \<le> Suc ?k" by (metis dvd_imp_le mod_0_imp_dvd zero_less_Suc)
      then have "opened_at th (hs @ [h]) = Some t"
        using d by (simp add: opened_at_def streak_simps Failed_at)
      then show ?thesis unfolding step if_P [OF True] by (simp add: streak_simps Failed_at d(1))
    next
      case False
      then have d: "Suc ?k mod th = Suc ?c" "Suc ?k div th = ?k div th" using div_step(2) [OF assms(2), of ?k] by simp_all
      have "opened_at th (hs @ [h]) = opened_at th hs"
      proof (cases "?k < th")
        case True
        then have "Suc ?k < th" using False by simp
        with True show ?thesis by (simp add: opened_at_def streak_simps Failed_at)
      next
        case few: False
        have "?k div th * th \<le> ?k" "0 < ?k div th * th" using few assms(2) by (simp_all add: div_greater_zero_iff)
        then have "?k div th * th - 1 < ?k" by linarith
        with few show ?thesis by (simp add: opened_at_def streak_simps Failed_at d nth_append)
      qed
      then show ?thesis unfolding step if_not_P [OF False] by (simp add: snoc.IH streak_simps Failed_at d(1) del: of_nat_Suc)
    qed
  qed
qed

theorem breaker_opens:
  assumes "xc_FailureThreshold cfg = int th" and "0 < th" and "th < 2 ^ 31" and "in_range now" and "unix_epoch \<le> now"
    and "list_all (\<lambda>t. in_range (t + pause cfg)) (streak hs)"
  shows "available now (breaker_after cfg hs) \<longleftrightarrow>
    (case opened_at th hs of None \<Rightarrow> True | Some t \<Rightarrow> t + pause cfg \<le> now)"
proof (cases "opened_at th hs")
  case None
  then show ?thesis by (simp add: available_def breaker_state [OF assms(1-3)] UnixNano_positive [OF assms(4,5)])
next
  case (Some t)
  then have "\<not> length (streak hs) < th" and t: "t = streak hs ! (length (streak hs) div th * th - 1)"
    by (simp_all add: opened_at_def split: if_splits)
  then have "0 < length (streak hs) div th * th" "length (streak hs) div th * th \<le> length (streak hs)"
    using assms(2) by (simp_all add: div_greater_zero_iff)
  then have "t \<in> set (streak hs)" unfolding t by (intro nth_mem) linarith
  then have "in_range (t + pause cfg)" using assms(6) by (simp add: list_all_iff)
  from UnixNano_order [OF this assms(4)] show ?thesis
    by (simp add: available_def breaker_state [OF assms(1-3)] Some)
qed

text \<open>
  The setting has no upper bound: a pause of 10,000,000,000 seconds ends before the failure that opened the breaker, so that
  the provider is never passed over.
\<close>

lemma long_pause_lost:
  assumes "unix_epoch \<le> t" "in_range t" "t \<le> now" "in_range now"
  shows "available now (snd (recordFailure 1 (seconds 10000000000) t new_breaker))"
proof -
  have w: "seconds 10000000000 = - 8446744073709551616" by code_simp
  have r: "in_range (t + seconds 10000000000)" using assms(1,2) by (simp add: in_range_def w)
  have "t + seconds 10000000000 \<le> now" using assms(3) by (simp add: w)
  then have "UnixNano (t + seconds 10000000000) <=s UnixNano now" using UnixNano_order [OF r assms(4)] by simp
  then show ?thesis by (simp add: recordFailure_def new_breaker_def available_def word_sle_eq Let_def)
qed

section \<open>Desktop routes\<close>

lemma free_route_not_taken: "free_route taken i \<notin> set taken"
  by (induction taken i rule: free_route.induct) (simp add: free_route.simps)

lemma safe_route_free:
  "nextClaudeDesktopSafeRouteID existing reserved \<notin> set reserved \<union> set (map dm_ID existing)"
  using free_route_not_taken [of "reserved @ map dm_ID existing" 2]
  by (auto simp: nextClaudeDesktopSafeRouteID_def Let_def split: option.splits dest: find_Some_in)

text \<open>Each model that names a direct route keeps that name, whatever names the others are given.\<close>

definition routes_ok :: "golib \<Rightarrow> string list \<Rightarrow> ClaudeDesktopModel list \<Rightarrow> ClaudeDesktopModel list \<Rightarrow> bool" where
  "routes_ok g reserved ahead out \<longleftrightarrow>
     distinct (map dm_ID out) \<and> list_all (\<lambda>r. dm_ID r \<noteq> [] \<and> dm_UpstreamModel r \<noteq> []) out \<and>
     list_all (\<lambda>m. isClaudeDesktopDirectModel g (claudeDesktopModelID m) \<longrightarrow> claudeDesktopModelID m \<in> set (map dm_ID out)) ahead \<and>
     list_all (\<lambda>r. dm_ID r \<in> set reserved \<longrightarrow>
        list_ex (\<lambda>m. claudeDesktopModelID m = dm_ID r \<and> dm_UpstreamModel r = pick (trim_space (dm_UpstreamModel m)) (dm_ID r)) ahead) out"

lemma not_direct_Nil: "\<not> isClaudeDesktopDirectModel g []"
  by (simp add: isClaudeDesktopDirectModel_def Let_def ToLower_def ascii_def CutPrefix_def has_prefix_def)

lemma repair_model_ok:
  assumes "routes_ok g reserved ahead out"
    and "isClaudeDesktopDirectModel g (claudeDesktopModelID m) \<Longrightarrow> claudeDesktopModelID m \<in> set reserved"
  shows "routes_ok g reserved (ahead @ [m]) (repair_model g reserved m out)"
  using assms safe_route_free [of out reserved] not_direct_Nil [of g]
  by (auto simp: routes_ok_def repair_model_def Let_def list_all_iff list_ex_iff pick_def)

theorem desktop_routes_repaired:
  "routes_ok g (filter (isClaudeDesktopDirectModel g) (map claudeDesktopModelID models)) models
     (repairClaudeDesktopProxyModels g models)"
proof -
  let ?res = "filter (isClaudeDesktopDirectModel g) (map claudeDesktopModelID models)"
  have "routes_ok g ?res (ahead @ ms) (fold (repair_model g ?res) ms out)"
    if "routes_ok g ?res ahead out" "set ms \<subseteq> set models" for ahead ms out
    using that
  proof (induction ms arbitrary: ahead out)
    case (Cons m ms)
    have "routes_ok g ?res (ahead @ [m]) (repair_model g ?res m out)"
      by (rule repair_model_ok) (use Cons.prems in auto)
    from Cons.IH [OF this] Cons.prems show ?case by simp
  qed simp
  from this [of "[]" "[]" models] show ?thesis
    by (simp add: repairClaudeDesktopProxyModels_def Let_def routes_ok_def)
qed

section \<open>A route after failover\<close>

lemma find_upsert_active:
  "table_find rr_tool k (table_upsert rr_tool merge_active r rows) =
     (if k = rr_tool r then Some (case table_find rr_tool k rows of None \<Rightarrow> r | Some q \<Rightarrow> merge_active r q)
      else table_find rr_tool k rows)"
  by (rule active_tab.find_upsert)

text \<open>The switch changes the provider of the route and keeps the metadata that was written for the one before.\<close>

theorem switch_keeps_meta:
  assumes "healthy d" and "table_find rr_tool (liveConfigTool tool) (active_provider d) = Some r"
    and "rr_meta r = Some meta" and "\<not> RouteMetaIsZero meta"
  shows "\<exists>route. fst (ActiveProviderRoute (liveConfigTool tool) (hotSwitchAfterFailover tool p d)) = Some (Some route) \<and>
     ro_ProviderID route = mp_ID p \<and> ro_Meta route = meta"
  using assms
  by (simp add: hotSwitchAfterFailover_def SetActiveProvider_def sql_tx_def store_simps disable_all_def enable_active_def
    ActiveProviderRoute_def find_upsert_active merge_active_def scanProviderRoute_def Let_def healthy_def)

section \<open>The Desktop gateway\<close>

definition presented_token :: "exchange \<Rightarrow> string" where
  "presented_token x =
     (let bearer = trim_prefix (header_get ''Authorization'' (e_headers x)) ''Bearer '' in
      if bearer = [] then header_get ''x-api-key'' (e_headers x) else bearer)"

theorem gateway_guarded:
  assumes "table_find fst gatewayTokenKey (settings (x_db s)) = Some (k, token)" and "token \<noteq> []"
    and "presented_token x \<noteq> token"
  shows "x_sent (handleClaudeDesktopMessages g x body s) = x_sent s \<and>
    active_provider (x_db (handleClaudeDesktopMessages g x body s)) = active_provider (x_db s) \<and>
    (\<exists>code errType m. x_client (handleClaudeDesktopMessages g x body s) =
       writeProxyJSON g (e_accepts x) code (anthropic_error errType m) (x_client s) \<and> code \<in> {401, 500})"
proof -
  obtain c cs where t: "token = c # cs" using assms(2) by (cases token) auto
  have "GetSetting gatewayTokenKey (x_db s) = (Some (Some token), (x_db s)\<lparr>tick := Suc (tick (x_db s))\<rparr>) \<or>
      GetSetting gatewayTokenKey (x_db s) = (None, (x_db s)\<lparr>tick := Suc (tick (x_db s))\<rparr>)"
    using assms(1) by (simp add: GetSetting_def sql_query_def Let_def)
  then show ?thesis
    using assms(3) unfolding presented_token_def
    by (elim disjE) (auto simp: t handleClaudeDesktopMessages_def authClaudeDesktop_def GetOrCreateGatewayToken_def
      anthropic_reply_def Let_def)
qed

end
