(* ===== verification/Provider_Manager.thy ===== *)
theory Provider_Manager
  imports Provider_Forward
begin

text \<open>
  The provider manager (provider/manager.go) and the deletion of keys (provider/secrets.go). Writing a tool's live
  configuration is a parameter: None when it succeeds, else its error.
\<close>

section \<open>Operations\<close>

definition manager_provider :: "gotime \<Rightarrow> ModelProvider \<Rightarrow> ModelProvider" where
  "manager_provider now p =
     (let p1 = (if ModelBlocked p (mp_Model p)
                then p\<lparr>mp_Model := (case ProviderModelOptions p of [] \<Rightarrow> [] | m # _ \<Rightarrow> m)\<rparr> else p)
      in (if is_zero (mp_CreatedAt p1) then p1\<lparr>mp_CreatedAt := now\<rparr> else p1)\<lparr>mp_UpdatedAt := now\<rparr>)"

definition manager_Upsert :: "gotime \<Rightarrow> ModelProvider \<Rightarrow> proxy_db \<Rightarrow> bool \<times> proxy_db" where
  "manager_Upsert now p = UpsertProvider (manager_provider now p)"

text \<open>\<open>del\<close> is the answer of the secret store: whether the deletion succeeded or found nothing.\<close>

definition DeleteProviderAPIKey :: "bool \<Rightarrow> string \<Rightarrow> (string \<Rightarrow> string) \<Rightarrow> bool \<times> (string \<Rightarrow> string)" where
  "DeleteProviderAPIKey del apiKeyEnv0 env =
     (let apiKeyEnv = trim_space apiKeyEnv0 in if apiKeyEnv = [] then (True, env) else (del, env(apiKeyEnv := [])))"

definition manager_Delete :: "bool \<Rightarrow> string \<Rightarrow> proxy_db \<times> (string \<Rightarrow> string) \<Rightarrow> bool \<times> proxy_db \<times> (string \<Rightarrow> string)" where
  "manager_Delete del i st =
     (case GetProvider i (fst st) of
        (None, d1) \<Rightarrow> (False, d1, snd st)
      | (Some None, d1) \<Rightarrow> (case DeleteProvider i d1 of (ok, d2) \<Rightarrow> (ok, d2, snd st))
      | (Some (Some p), d1) \<Rightarrow>
          (case DeleteProviderAPIKey del (mp_APIKeyEnv p) (snd st) of
             (False, env1) \<Rightarrow> (False, d1, env1)
           | (True, env1) \<Rightarrow> (case DeleteProvider i d1 of (ok, d2) \<Rightarrow> (ok, d2, env1))))"

definition manager_Active :: "string \<Rightarrow> proxy_db \<Rightarrow> ModelProvider option option \<times> proxy_db" where
  "manager_Active tool d =
     (case ActiveProviderID tool d of
        (None, d1) \<Rightarrow> (None, d1)
      | (Some None, d1) \<Rightarrow> (Some None, d1)
      | (Some (Some i), d1) \<Rightarrow> GetProvider i d1)"

definition codexSupportsResponses :: "golib \<Rightarrow> ModelProvider \<Rightarrow> bool" where
  "codexSupportsResponses g p \<longleftrightarrow>
     pm_APIFormat (mp_Meta p) = ''openai_responses'' \<or>
     list_ex (\<lambda>v. normalizeProto (ToLower g) v = ''openai_responses'')
       (pm_SupportedAPIFormats (mp_Meta p) @ pm_SupportedProtocols (mp_Meta p)) \<or>
     pm_APIFormat (mp_Meta p) = []"

text \<open>The error of a live configuration that would break the tool.\<close>

definition needs_takeover :: "golib \<Rightarrow> ModelProvider \<Rightarrow> string \<Rightarrow> string" where
  "needs_takeover g p tool = ''provider '' @ g_quote g (mp_ID p) @ '' speaks '' @ pm_APIFormat (mp_Meta p) @
     ''; enable local routing takeover for '' @ tool @ '' to use it''"

definition validateDirectSwitch :: "golib \<Rightarrow> ModelProvider \<Rightarrow> string \<Rightarrow> string option" where
  "validateDirectSwitch g p tool =
     (let format = pm_APIFormat (mp_Meta p); t = liveConfigTool tool in
      if t \<in> {''claudecode'', ''claude-desktop''} then
        (if format \<in> {''openai_chat'', ''openai_responses'', ''gemini_native''} then Some (needs_takeover g p tool) else None)
      else if t = ''codex'' then
        (if format \<in> {''anthropic'', ''gemini_native''} then Some (needs_takeover g p ''codex'')
         else if \<not> codexSupportsResponses g p then
           Some (''provider '' @ g_quote g (mp_ID p) @ '' only speaks chat/completions; codex removed chat/completions '' @
                 ''support, so enable local routing takeover for codex to use it'')
         else None)
      else None)"

definition switchProvider ::
  "golib \<Rightarrow> (string \<Rightarrow> ModelProvider \<Rightarrow> ModelProvider option \<Rightarrow> string option) \<Rightarrow> string \<Rightarrow> string \<Rightarrow> ProviderMeta \<Rightarrow> bool \<Rightarrow>
    proxy_db \<Rightarrow> (string + unit) \<times> proxy_db" where
  "switchProvider g writeLive i tool routeMeta writeRouteMeta d =
     (case GetProvider i d of
        (None, d1) \<Rightarrow> (Inl store_error, d1)
      | (Some None, d1) \<Rightarrow> (Inl (''provider '' @ g_quote g i @ '' not found''), d1)
      | (Some (Some p), d1) \<Rightarrow>
          (let effective = p\<lparr>mp_Meta := MergeRouteMeta (mp_Meta p) routeMeta\<rparr> in
           case validateDirectSwitch g effective tool of
             Some e \<Rightarrow> (Inl e, d1)
           | None \<Rightarrow>
             (case ActiveProviderID tool d1 of (prevID, d2) \<Rightarrow>
               (case (case prevID of
                        Some (Some j) \<Rightarrow> if j \<noteq> i then (case GetProvider j d2 of (q, e) \<Rightarrow> (case q of Some r \<Rightarrow> r | None \<Rightarrow> None, e))
                                         else (None, d2)
                      | _ \<Rightarrow> (None, d2)) of (prev, d3) \<Rightarrow>
                 (case writeLive tool effective prev of
                    Some e \<Rightarrow> (Inl (''write live config: '' @ e), d3)
                  | None \<Rightarrow>
                      (case (if writeRouteMeta
                             then SetActiveProviderRoute \<lparr>ro_Tool = tool, ro_ProviderID = i, ro_ProviderName = [],
                                    ro_BaseURL = [], ro_APIKeyEnv = [], ro_Model = [], ro_APIFormat = [],
                                    ro_Meta = routeMeta, ro_Configured = False\<rparr> d3
                             else SetActiveProvider tool i d3) of
                         (True, d4) \<Rightarrow> (Inr (), d4)
                       | (False, d4) \<Rightarrow> (Inl store_error, d4)))))))"

definition Switch ::
  "golib \<Rightarrow> (string \<Rightarrow> ModelProvider \<Rightarrow> ModelProvider option \<Rightarrow> string option) \<Rightarrow> string \<Rightarrow> string \<Rightarrow>
    proxy_db \<Rightarrow> (string + unit) \<times> proxy_db" where
  "Switch g writeLive i tool = switchProvider g writeLive i tool no_meta False"

definition SwitchRoute ::
  "golib \<Rightarrow> (string \<Rightarrow> ModelProvider \<Rightarrow> ModelProvider option \<Rightarrow> string option) \<Rightarrow> ProviderRoute \<Rightarrow>
    proxy_db \<Rightarrow> (string + unit) \<times> proxy_db" where
  "SwitchRoute g writeLive route = switchProvider g writeLive (ro_ProviderID route) (ro_Tool route) (ro_Meta route) True"

definition manager_Clear :: "string \<Rightarrow> proxy_db \<Rightarrow> (string + unit) \<times> proxy_db" where
  "manager_Clear tool d =
     (if trim_space tool = [] then (Inl ''missing tool'', d)
      else (case ClearActiveProvider tool d of (True, d1) \<Rightarrow> (Inr (), d1) | (False, d1) \<Rightarrow> (Inl store_error, d1)))"

section \<open>Models\<close>

lemma option_not_blocked:
  "list_all (\<lambda>m. \<not> ModelBlocked p m) out \<Longrightarrow> list_all (\<lambda>m. \<not> ModelBlocked p m) (fold (add_option p) ms out)"
  by (induction ms arbitrary: out) (auto simp: add_option_def Let_def)

lemma options_not_blocked: "m \<in> set (ProviderModelOptions p) \<Longrightarrow> \<not> ModelBlocked p m"
  using option_not_blocked [of p "[]" "mp_Model p # pm_SupportedModels (mp_Meta p)"]
  by (auto simp: ProviderModelOptions_def list_all_iff)

lemma blocked_meta: "mp_Meta p = mp_Meta q \<Longrightarrow> ModelBlocked p = ModelBlocked q"
  by (simp add: ModelBlocked_def fun_eq_iff)

text \<open>The default model of a provider that is saved through the manager is not one it blocks.\<close>

theorem saved_model_not_blocked: "\<not> ModelBlocked (manager_provider now p) (mp_Model (manager_provider now p))"
proof -
  have m: "mp_Meta (manager_provider now p) = mp_Meta p"
    by (simp add: manager_provider_def Let_def)
  have "\<not> ModelBlocked p (mp_Model (manager_provider now p))"
  proof (cases "ModelBlocked p (mp_Model p)")
    case True
    have "\<not> ModelBlocked p []" by (simp add: ModelBlocked_def)
    with True show ?thesis
      using options_not_blocked [of "hd (ProviderModelOptions p)" p]
      by (cases "ProviderModelOptions p") (simp_all add: manager_provider_def Let_def)
  next
    case False
    then show ?thesis by (simp add: manager_provider_def Let_def)
  qed
  then show ?thesis by (simp add: blocked_meta [OF m])
qed

section \<open>Flags and routes\<close>

text \<open>The enabled flag of a provider says whether a route names it.\<close>

definition flags_match :: "'a proxy_db_scheme \<Rightarrow> bool" where
  "flags_match d \<longleftrightarrow>
     list_all (\<lambda>p. mp_Enabled p \<longleftrightarrow> mp_ID p \<in> set (map rr_provider_id (active_provider d))) (providers d)"

lemma flags_after_tx:
  assumes "sql_tx (fs @ [disable_all, enable_active]) d = (True, d')" shows "flags_match d'"
proof -
  have all: "sql_all (fs @ gs) e = (True, e') \<Longrightarrow> \<exists>m. sql_all gs m = (True, e')" for gs :: "('a proxy_db_scheme \<Rightarrow> _) list" and e e'
    by (induction fs arbitrary: e) (auto split: prod.splits bool.splits)
  obtain d1 d2 where a: "sql_all (fs @ [disable_all, enable_active]) d1 = (True, d2)" and c: "sql_exec Some d2 = (True, d')"
    using assms by (auto simp: sql_tx_def split: prod.splits bool.splits)
  obtain m where "sql_all [disable_all, enable_active] m = (True, d2)"
    using all [OF a] by blast
  then have "flags_match d2"
    by (auto simp: disable_all_def enable_active_def sql_exec_def Let_def flags_match_def list_all_iff split: if_splits)
  then show ?thesis
    using c by (auto simp: sql_exec_def Let_def flags_match_def split: if_splits)
qed

lemma flags_after_failed_tx:
  assumes "sql_tx fs d = (False, d')" and "flags_match d" shows "flags_match d'"
  using sql_tx_atomic [OF assms(1)] assms(2) by (auto simp: flags_match_def)

lemma flags_tx:
  "flags_match d \<Longrightarrow> flags_match (snd (sql_tx (fs @ [disable_all, enable_active]) d))"
  by (cases "sql_tx (fs @ [disable_all, enable_active]) d"; cases "fst (sql_tx (fs @ [disable_all, enable_active]) d)")
     (auto intro: flags_after_tx flags_after_failed_tx)

theorem routes_and_flags:
  assumes "flags_match d"
  shows "flags_match (snd (SetActiveProvider tool i d)) \<and> flags_match (snd (SetActiveProviderRoute route d)) \<and>
    flags_match (snd (ClearActiveProvider tool d)) \<and> flags_match (snd (DeleteProvider i d))"
proof (intro conjI)
  show "flags_match (snd (SetActiveProvider tool i d))"
    unfolding SetActiveProvider_def using flags_tx [OF assms, of "[_]"] by simp
  show "flags_match (snd (SetActiveProviderRoute route d))"
    unfolding SetActiveProviderRoute_def using flags_tx [OF assms, of "[_]"] by simp
  show "flags_match (snd (ClearActiveProvider tool d))"
    unfolding ClearActiveProvider_def using flags_tx [OF assms, of "[_]"] by simp
  show "flags_match (snd (DeleteProvider i d))"
    unfolding DeleteProvider_def using flags_tx [OF assms, of "[_, _, _]"] by simp
qed

text \<open>A provider that was deleted is in no table any more.\<close>

theorem deleted_provider_gone:
  assumes "DeleteProvider i d = (True, d')"
  shows "i \<notin> set (map mp_ID (providers d'))" and "i \<notin> set (map rr_provider_id (active_provider d'))"
    and "\<not> list_ex (\<lambda>g. rg_ResourceType g = ''provider'' \<and> rg_ResourceID g = i) (resource_grants d')"
  using assms
  by (auto simp: DeleteProvider_def sql_tx_def sql_exec_def Let_def disable_all_def enable_active_def table_delete_def
    list_ex_iff split: if_splits)

text \<open>A switch that fails leaves every route as it was, and one that succeeds names a stored provider.\<close>

lemma activation:
  assumes "(if w then SetActiveProviderRoute route d else SetActiveProvider tool i d) = (ok, d')"
    and "ro_Tool route = tool" and "ro_ProviderID route = i"
  shows "if ok then \<exists>r. table_find rr_tool tool (active_provider d') = Some r \<and> rr_provider_id r = i
    else active_provider d' = active_provider d \<and> providers d' = providers d"
proof (cases ok)
  case True
  have "active_provider d' = table_upsert rr_tool (if w then merge_route else merge_active)
      \<lparr>rr_tool = tool, rr_provider_id = i, rr_meta = (if w then Some (ro_Meta route) else None)\<rparr> (active_provider d)"
    using assms True
    by (cases w) (auto simp: SetActiveProviderRoute_def SetActiveProvider_def sql_tx_def sql_exec_def Let_def
      disable_all_def enable_active_def split: if_splits)
  then show ?thesis
    using True
    by (cases w) (auto simp: route_tab.find_upsert active_tab.find_upsert merge_route_def merge_active_def split: option.splits)
next
  case False
  then obtain n where "d' = d\<lparr>tick := n\<rparr>"
    using assms(1) by (cases w) (auto simp: SetActiveProviderRoute_def SetActiveProvider_def dest: sql_tx_atomic)
  with False show ?thesis by simp
qed

theorem switch_outcome:
  assumes "switchProvider g writeLive i tool meta w d = (res, d')"
  shows "case res of
      Inl _ \<Rightarrow> active_provider d' = active_provider d \<and> providers d' = providers d
    | Inr _ \<Rightarrow> (\<exists>p. table_find mp_ID i (providers d) = Some p) \<and>
        (\<exists>r. table_find rr_tool tool (active_provider d') = Some r \<and> rr_provider_id r = i)"
proof -
  let ?route = "\<lparr>ro_Tool = tool, ro_ProviderID = i, ro_ProviderName = [], ro_BaseURL = [], ro_APIKeyEnv = [],
    ro_Model = [], ro_APIFormat = [], ro_Meta = meta, ro_Configured = False\<rparr>"
  obtain q d1 where q: "GetProvider i d = (q, d1)" by fastforce
  have d1: "d1 = d\<lparr>tick := Suc (tick d)\<rparr>" and found: "q = Some o1 \<Longrightarrow> table_find mp_ID i (providers d) = o1" for o1
    using q by (auto simp: GetProvider_def sql_query_def Let_def split: if_splits)
  show ?thesis
  proof (cases "\<exists>p. q = Some (Some p) \<and> validateDirectSwitch g (p\<lparr>mp_Meta := MergeRouteMeta (mp_Meta p) meta\<rparr>) tool = None")
    case False
    then have "(\<exists>e. res = Inl e) \<and> d' = d1"
      using assms unfolding switchProvider_def q Let_def by (auto split: option.splits)
    then show ?thesis by (auto simp: d1)
  next
    case True
    then obtain p where p: "q = Some (Some p)"
      and v: "validateDirectSwitch g (p\<lparr>mp_Meta := MergeRouteMeta (mp_Meta p) meta\<rparr>) tool = None" by blast
    obtain prevID d2 where a: "ActiveProviderID tool d1 = (prevID, d2)" by fastforce
    then have d2: "d2 = d1\<lparr>tick := Suc (tick d1)\<rparr>"
      by (auto simp: ActiveProviderID_def sql_query_def Let_def)
    define prev_read where "prev_read = (case prevID of
        Some (Some j) \<Rightarrow> if j \<noteq> i then (case GetProvider j d2 of (q, e) \<Rightarrow> (case q of Some r \<Rightarrow> r | None \<Rightarrow> None, e)) else (None, d2)
      | _ \<Rightarrow> (None, d2))"
    obtain prev d3 where b: "prev_read = (prev, d3)" by fastforce
    have d3: "active_provider d3 = active_provider d \<and> providers d3 = providers d"
      using b by (auto simp: prev_read_def d2 d1 GetProvider_def sql_query_def Let_def split: option.splits if_splits)
    define eff where "eff = p\<lparr>mp_Meta := MergeRouteMeta (mp_Meta p) meta\<rparr>"
    have sw: "switchProvider g writeLive i tool meta w d =
       (case writeLive tool eff prev of
          Some e \<Rightarrow> (Inl (''write live config: '' @ e), d3)
        | None \<Rightarrow>
            (case (if w then SetActiveProviderRoute ?route d3 else SetActiveProvider tool i d3) of
               (True, d4) \<Rightarrow> (Inr (), d4) | (False, d4) \<Rightarrow> (Inl store_error, d4)))"
      unfolding switchProvider_def q p Let_def
      by (simp only: prod.case option.case eff_def [symmetric] v [folded eff_def] a prev_read_def [symmetric] b)
    show ?thesis
    proof (cases "writeLive tool eff prev")
      case (Some e)
      then show ?thesis using assms d3 by (auto simp: sw)
    next
      case None
      obtain ok d4 where act: "(if w then SetActiveProviderRoute ?route d3 else SetActiveProvider tool i d3) = (ok, d4)"
        by fastforce
      have "res = (if ok then Inr () else Inl store_error)" "d' = d4"
        using assms None unfolding sw act by (cases ok; simp)+
      then show ?thesis
        using activation [OF act] d3 found [OF p] by (cases ok) simp_all
    qed
  qed
qed

end
