(* ===== verification/Proxy_Properties.thy ===== *)
theory Proxy_Properties
  imports Proxy_Models Provider_Manager
begin

text \<open>
  The properties of the provider proxy: who is asked, with which model and whose key, who answers the client, and which
  route is left behind.
\<close>

section \<open>A request on its way through the chain\<close>

definition chain_of :: "forwardOpts \<Rightarrow> proxy_state \<Rightarrow> ModelProvider list" where
  "chain_of opts s = fst (fst (providerChain (fo_tool opts) (x_db s)))"

definition config_of :: "forwardOpts \<Rightarrow> proxy_state \<Rightarrow> ProxyToolConfig" where
  "config_of opts s = snd (fst (providerChain (fo_tool opts) (x_db s)))"

lemma chain_result:
  "\<exists>sent. loop_result g x opts (config_of opts s) parsed (length (chain_of opts s)) 0 (chain_of opts s) s
     (forwardChain g x opts parsed s) sent"
  using forward_chain_result [of opts s "chain_of opts s" "config_of opts s"]
  by (metis chain_of_def config_of_def prod.collapse)

lemma subseq_distinct:
  assumes "subseq xs ys" and "distinct ys" shows "distinct xs"
  using assms by (induction rule: list_emb.induct) (auto dest: list_emb_set)

text \<open>
  C35. A request of a client goes to providers of the chain only, in the order of the chain and to none twice, and the next
  one is asked only when the one before could not be reached or gave an answer that calls for failover. The client
  then gets the answer of the provider asked last, or error 502 when every provider that was asked was given up, or
  error 400 when a provider has no model for the request; it gets nothing in two cases only, when the provider asked
  last refused the request for what it says or gave a complete answer that cannot be passed on, and when the request
  cannot be put into the protocol of a provider.
\<close>

theorem one_answer_per_request:
  "\<exists>sent. x_sent (forwardChain g x opts parsed s) = x_sent s @ sent \<and>
     subseq (map fst sent) (chain_of opts s) \<and> distinct (map (mp_ID \<circ> fst) sent) \<and>
     list_all (failed_over g x opts 0 (chain_of opts s)) (butlast sent) \<and>
     client_end g x opts parsed 0 (chain_of opts s) sent (x_client s) (x_client (forwardChain g x opts parsed s))"
proof -
  obtain sent where r: "loop_result g x opts (config_of opts s) parsed (length (chain_of opts s)) 0 (chain_of opts s) s
     (forwardChain g x opts parsed s) sent"
    using chain_result by blast
  have "distinct (map mp_ID (chain_of opts s))"
    by (rule providerChain_distinct [of "fo_tool opts" "x_db s" _ "config_of opts s" "snd (providerChain (fo_tool opts) (x_db s))"])
       (simp add: chain_of_def config_of_def)
  moreover have "subseq (map mp_ID (map fst sent)) (map mp_ID (chain_of opts s))"
    by (rule subseq_map) (use r in \<open>simp add: loop_result_def\<close>)
  ultimately have "distinct (map (mp_ID \<circ> fst) sent)"
    using subseq_distinct by (auto simp: comp_def)
  with r show ?thesis by (auto simp: loop_result_def)
qed


text \<open>
  C37. A provider is not asked when it blocks the model the client named or the model that becomes of it there, and no
  request to it names a model it blocks in its body. A Gemini provider is asked in the path for the model the request
  becomes, and for gemini-pro, which is not checked, only when that model is blank.
\<close>

theorem blocked_model_not_sent:
  "\<exists>sent. x_sent (forwardChain g x opts parsed s) = x_sent s @ sent \<and> list_all (names_allowed_model g opts parsed) sent"
proof -
  obtain sent where r: "loop_result g x opts (config_of opts s) parsed (length (chain_of opts s)) 0 (chain_of opts s) s
     (forwardChain g x opts parsed s) sent"
    using chain_result by blast
  then have "list_all (names_allowed_model g opts parsed) sent"
    using sent_model_not_blocked by (fastforce simp: loop_result_def list_all_iff)
  with r show ?thesis by (auto simp: loop_result_def)
qed

text \<open>
  C38. A request changes the route of its tool only when failover is on and a provider further down the chain has
  answered the client, and the route then names that provider.
\<close>

theorem route_follows_answer:
  "\<exists>sent. x_sent (forwardChain g x opts parsed s) = x_sent s @ sent \<and>
     route_follows g x opts (config_of opts s) parsed 0 (chain_of opts s) sent s (forwardChain g x opts parsed s)"
  using chain_result [of g x opts s parsed] by (auto simp: loop_result_def)

section \<open>The chain\<close>

text \<open>
  C39. On a working store the chain of a tool is the provider its route names, under the metadata of the route, if the
  tables have one, and after it, when failover is on, all other providers of the failover queue, each once, in the order
  of their sort index and then of their id; with failover off there are no others.
\<close>

theorem chain_ordered:
  assumes "healthy (x_db s)" and "distinct (map mp_ID (providers (x_db s)))"
  shows "\<exists>queue. chain_of opts s = routed (fo_tool opts) (x_db s) @ queue \<and> sorted_wrt queue_before queue \<and>
     mset queue = mset (filter (\<lambda>p. failover_on (fo_tool opts) (x_db s) \<and> mp_InFailoverQueue p \<and>
       mp_ID p \<notin> set (map mp_ID (routed (fo_tool opts) (x_db s)))) (providers (x_db s)))"
  using chain_exact [OF assms] by (simp add: chain_of_def)

definition demo_provider :: "string \<Rightarrow> int \<Rightarrow> ModelProvider" where
  "demo_provider i n = \<lparr>mp_ID = i, mp_Name = i, mp_Preset = [], mp_Category = [], mp_BaseURL = ''http://up'',
     mp_APIKeyEnv = [], mp_APIKey = [], mp_Model = ''m'', mp_Extra = [], mp_SettingsConfig = [], mp_Meta = no_meta,
     mp_Enabled = False, mp_InFailoverQueue = True, mp_SortIndex = n, mp_CreatedAt = 1, mp_UpdatedAt = 1\<rparr>"

definition demo_proxy_db :: proxy_db where
  "demo_proxy_db = \<lparr>fault = (\<lambda>_. False), tick = 0, orchestrations = [], orchestration_tasks = [],
     time_key = (\<lambda>_. 0), text_key = (\<lambda>x. x),
     agent_instances = [], channels = [], triggers = [], tenants = [], tenant_tokens = [], resource_grants = [],
     providers = [demo_provider ''a'' 2, demo_provider ''b'' 1, demo_provider ''c'' 2],
     active_provider = [\<lparr>rr_tool = ''codex'', rr_provider_id = ''c'', rr_meta = None\<rparr>],
     proxy_config = [\<lparr>xc_Tool = ''codex'', xc_Enabled = True, xc_AutoFailover = True, xc_MaxRetries = 3,
       xc_FailureThreshold = 3, xc_CooldownSeconds = 60\<rparr>],
     live_backup = [], proxy_traces = [], settings = []\<rparr>"

definition demo_proxy :: proxy_state where
  "demo_proxy = \<lparr>x_db = demo_proxy_db, x_breakers = (\<lambda>_. new_breaker), x_env = (\<lambda>_. []), x_sent = [],
     x_client = fresh_client\<rparr>"

definition demo_opts :: forwardOpts where
  "demo_opts = \<lparr>fo_tool = ''codex-app'', fo_clientProto = ''openai_chat'', fo_stream = False, fo_mapModel = None,
     fo_writeErr = (\<lambda>_. [])\<rparr>"

lemma chain_ordered_witness:
  "map mp_ID (routed ''codex-app'' demo_proxy_db) = [''c''] \<and>
   (\<exists>queue. map mp_ID (chain_of demo_opts demo_proxy) = ''c'' # map mp_ID queue \<and> sorted_wrt queue_before queue \<and>
      mset queue = mset [demo_provider ''a'' 2, demo_provider ''b'' 1])"
proof -
  have h: "healthy (x_db demo_proxy)" by (simp add: demo_proxy_def demo_proxy_db_def healthy_def)
  have d: "distinct (map mp_ID (providers (x_db demo_proxy)))" by code_simp
  have r: "map mp_ID (routed ''codex-app'' demo_proxy_db) = [''c'']" by code_simp
  have o: "failover_on ''codex-app'' demo_proxy_db" by code_simp
  have f: "filter (\<lambda>p. failover_on ''codex-app'' demo_proxy_db \<and> mp_InFailoverQueue p \<and>
       mp_ID p \<notin> set (map mp_ID (routed ''codex-app'' demo_proxy_db))) (providers demo_proxy_db) =
     [demo_provider ''a'' 2, demo_provider ''b'' 1]"
    unfolding r by (simp add: o) (simp add: demo_proxy_db_def demo_provider_def)
  have t: "fo_tool demo_opts = ''codex-app''" "x_db demo_proxy = demo_proxy_db"
    by (simp_all add: demo_opts_def demo_proxy_def)
  obtain queue where q: "chain_of demo_opts demo_proxy = routed ''codex-app'' demo_proxy_db @ queue" "sorted_wrt queue_before queue"
    "mset queue = mset [demo_provider ''a'' 2, demo_provider ''b'' 1]"
    using chain_ordered [OF h d, of demo_opts] unfolding t f by blast
  have m: "map mp_ID (chain_of demo_opts demo_proxy) = ''c'' # map mp_ID queue"
    unfolding q(1) map_append r by simp
  show ?thesis by (intro conjI exI [of _ queue] r m q(2,3))
qed

section \<open>Breakers\<close>

text \<open>
  C40. Whatever a breaker has been told, it is open exactly while the pause of the failure that opened it last has not
  passed. Only failures in a row count: those since the last success, and every time their number reaches another
  multiple of the threshold the newest of them opens the breaker anew. The counter has 32 bits and times have 64; the
  threshold is a positive number of 31 bits and no time leaves the range of 64 bits.
\<close>

theorem breaker_threshold:
  assumes "xc_FailureThreshold cfg = int th" and "0 < th" and "th < 2 ^ 31" and "in_range now" and "unix_epoch \<le> now"
    and "list_all (\<lambda>t. in_range (t + pause cfg)) (streak hs)"
  shows "available now (breaker_after cfg hs) \<longleftrightarrow>
    (case opened_at th hs of None \<Rightarrow> True | Some t \<Rightarrow> t + pause cfg \<le> now)"
  by (rule breaker_opens [OF assms])

definition demo_cfg :: ProxyToolConfig where
  "demo_cfg = \<lparr>xc_Tool = ''codex'', xc_Enabled = True, xc_AutoFailover = True, xc_MaxRetries = 3,
     xc_FailureThreshold = 2, xc_CooldownSeconds = 60\<rparr>"

definition demo_history :: "outcome list" where
  "demo_history = [Failed_at unix_epoch, Succeeded, Failed_at (unix_epoch + 5), Failed_at (unix_epoch + 7), Failed_at (unix_epoch + 9)]"

lemma breaker_threshold_witness:
  "\<not> available (unix_epoch + 8) (breaker_after demo_cfg demo_history) \<and>
    available (unix_epoch + 7 + pause demo_cfg) (breaker_after demo_cfg demo_history)"
proof -
  have c: "xc_FailureThreshold demo_cfg = int 2" by (simp add: demo_cfg_def)
  have r: "in_range (unix_epoch + 8)" "unix_epoch \<le> unix_epoch + 8" "in_range (unix_epoch + 7 + pause demo_cfg)"
    "unix_epoch \<le> unix_epoch + 7 + pause demo_cfg"
    "list_all (\<lambda>t. in_range (t + pause demo_cfg)) (streak demo_history)" by code_simp+
  have o: "opened_at 2 demo_history = Some (unix_epoch + 7)" by code_simp
  have p: "0 < pause demo_cfg - 1" by code_simp
  show ?thesis
    using breaker_threshold [OF c _ _ r(1,2,5)] breaker_threshold [OF c _ _ r(3,4,5)] p by (simp add: o)
qed

end
