(* ===== verification/Spec2Isabelle.thy ===== *)
theory Spec2Isabelle
  imports Orchestration_Service Auth Channel_Correctness Event_Properties Super_Properties Hub_Properties Proxy_Properties
begin

text \<open>
  AgentMux: a verification development.

  AgentMux is a server that runs coding agents for people and machines. Its parts, and how they interact: agents,
  chat channels and triggers are rows of tables that tenants own (store/agents.go, store/channels.go,
  store/triggers.go); every request passes the middleware of server/server.go, which finds out who asks and what a
  tenant may reach; the handlers then decide about single resources (server/tenancy_scope.go). Three engines do the
  work: orchestrations run a graph of tasks on agents (orchestration/service.go), the task queue of a channel turns
  chat messages into turns of an agent (core/channel_remote.go and its neighbours), and Super Agents take events from
  chats, GitHub and mail, let a router decide, and drive workers (superagent/). The event relay publishes what happens
  to subscribers (eventrelay/service.go). The provider proxy stands between agent programs and the model providers
  (provider/): it picks providers by a route and a failover queue, translates requests, replies and streams between the
  formats of the model APIs, and keeps a breaker for each provider. All of them keep their state through database/sql.

  \<^bold>\<open>Theories and sources.\<close> The order below is the order of imports.
  \<^item> \<open>Prelude\<close>: Go strings as lists of bytes, Go times, the collections of rules, lists and association lists, and the
    locale \<open>single_use\<close> (what is answered once stays answered). \<open>Database\<close>: store/database.go; a statement runs or
    fails as the schedule \<open>fault\<close> says, and changes nothing when it fails. Every theorem over a store holds for every
    schedule unless it names one.
  \<^item> \<open>Orchestration_Store\<close>, \<open>Orchestration_Validate\<close>, \<open>Orchestration_Run\<close>, \<open>Orchestration_Service\<close>:
    core/orchestration.go, store/orchestrations.go and orchestration/service.go. The scheduler loop \<open>run\<close> is the step
    relation \<open>run_step\<close>, whose environment is the agent runtime. The locale \<open>task_store\<close> is the interface
    \<^verbatim>\<open>orchestration.Store\<close>, interpreted on the tables.
  \<^item> \<open>Resources\<close>, \<open>Tenancy\<close>, \<open>Access\<close>, \<open>Auth\<close>: the resource tables, core/tenancy.go, store/tenancy.go,
    server/tenancy_scope.go, server/tenancy_auth.go, server/console_session.go, server/route_manifest.go and
    \<open>withAuth\<close> of server/server.go. The locale \<open>keyed_table\<close> states what an upsert by primary key does; every
    such table of the program interprets it.
  \<^item> \<open>Channel_Store\<close>, \<open>Channel_Queue\<close>, \<open>Channel_Control\<close>, \<open>Channel_Safety\<close>, \<open>Channel_Correctness\<close>:
    store/channel_control.go and the files core/channel_remote.go, core/channel_queue.go, core/channel_direct.go,
    core/channel_remote_commands.go, core/conversation_control.go, core/channel_remote_interactions.go and
    core/channel_feedback.go. A definition is one critical section under the mutex of the control state; the step
    relation of \<open>Channel_Safety\<close> interleaves them with store calls that may fail and with crashes. What reads the
    store, looks at the control state and writes in turn is split there: an answer to a request of an agent is
    \<open>lookup_request\<close>, \<open>owning_session\<close> and \<open>claim_request\<close>, its expiry \<open>expiry_due\<close>, \<open>owning_task\<close> and
    \<open>claim_request\<close>, and any other step may come between. The locale
    \<open>control_store\<close> is the store interface the queue needs.
  \<^item> \<open>Event_Store\<close>, \<open>Event_Relay\<close>, \<open>Event_Safety\<close>, \<open>Event_Workers\<close>, \<open>Event_Correctness\<close>,
    \<open>Event_Properties\<close>: core/event_relay.go, store/event_relay.go, eventrelay/service.go and server/event_relay.go. The
    step relation has workers of any number of processes between two calls of \<open>deliver\<close>, a clock, and the
    handlers.
  \<^item> \<open>Super_Store\<close>, \<open>Super_Intake\<close>, \<open>Super_Sources\<close>, \<open>Super_Router\<close>, \<open>Super_Agents\<close>,
    \<open>Super_Service\<close>, \<open>Super_System\<close>: core/superagent.go, store/superagents.go and superagent/. \<open>Super_System\<close>
    is the running service as a transition system: the loop of \<open>Pass\<close>, one goroutine per evaluated event, one per
    turn, and the handlers. \<open>Super_Safety\<close>, \<open>Super_Invariant\<close>, \<open>Super_Reach\<close>, \<open>Super_Moves\<close>
    hold its invariant and what a step may do to a row; \<open>Super_Demo\<close> a run from the start that serves the witnesses;
    \<open>Super_Properties\<close> the properties.
  \<^item> \<open>Wire_Values\<close>, \<open>Translate_Requests\<close>, \<open>Translate_Replies\<close>, \<open>Translate_Streams\<close>: JSON values and the
    translation hub, provider/convert.go and the files provider/xlate*.go. The hub translates every format to the chat format and from there to every format; readers
    and writers of streams are folds over lines. \<open>Translate_Correctness\<close>, \<open>Reply_Correctness\<close>,
    \<open>Gemini_Correctness\<close>, \<open>Stream_Content\<close>, \<open>Stream_Writer\<close> and \<open>Stream_Grammar\<close> read each format as
    a list of turns of a dialogue, the abstract specification, and show that translations keep it;
    \<open>Hub_Properties\<close> the properties.
  \<^item> \<open>Provider_Store\<close>, \<open>Provider_Models\<close>, \<open>Provider_Proxy\<close>, \<open>Provider_Forward\<close>, \<open>Provider_Manager\<close>:
    core/provider.go, store/providers.go, store/proxy.go and, under provider/, the manager, the routing of models,
    headers, keys, breakers and the forwarding of a request along the chain. One request is a function from the
    state of the proxy and an \<open>exchange\<close> (what servers, clock and secret store answer during it) to the new state;
    sent requests and writes to the client are logs. \<open>Proxy_Headers\<close>, \<open>Proxy_Correctness\<close>, \<open>Proxy_Chain\<close>,
    \<open>Proxy_Models\<close> hold the lemmas, \<open>Proxy_Properties\<close> the properties.

  \<^bold>\<open>What the lemmas show.\<close> For each store: what every statement writes and keeps, and that a failing statement
  changes nothing. For each engine: an invariant, its preservation by every step (rule by rule), and the
  properties of its reachable states. Orchestrations: tasks run after their dependencies and within the limit, a
  run ends (a measure decreases) and settles every task, its store refines the run in memory, a crash leaves what a new
  run can start from, and \<open>validateAcyclic\<close> decides acyclicity. Access: the exact condition under which a caller
  reaches an agent, its equivalence with the listing but for ids of configured agents, and what the middleware lets through. Channels: a prompt
  reaches an agent once, in the order of admission since the channel was attached; a request is answered once and by whom it was
  for. Event relay: one request per subscriber at a time, silence after deletion, delivery to every subscriber that
  wants an event, signatures. Super Agents: an event is decided once and by a router that ran for it; work starts for
  listed senders only; a stop is final; a message for a running ticket is read in the next turn; turns
  neither share a ticket nor exceed the limit; no poll moves past an event that is not stored. Translation hub: requests, replies and streams
  say the same in every format, and what is written is well formed; a stream may carry, between the fragments of its
  texts and calls, whatever else its protocol sends. Proxy: who is asked, with whose key and for which
  model, whose answer the client reads, and what becomes of route and breakers.

  \<^bold>\<open>Bounds and fuel.\<close> No definition has fuel. Where a loop of the code consumes a list or a counter, the
  recursion is structural; the depth-first search of \<open>validateAcyclic\<close> ends because every nested call has one more
  task on its path; scheduler and services are step relations without a bound. Times are nanoseconds as integers, and
  what the code rounds when it stores a time is rounded here. Counters that the code bounds well below the width of
  its integers are integers; the failure counter of a breaker has its 32 bits and the end of
  its pause the 64 bits of \<^verbatim>\<open>UnixNano\<close>.

  \<^bold>\<open>Parameters.\<close> Code outside the repository and random draws are arguments: the driver of the database (through
  \<open>fault\<close>), SHA-256 and HMAC, random ids and secrets, the agent runtime, the router's model, network clients,
  JSON decoding of request bodies, and the clock. For the proxy: the JSON codec, Unicode case mapping, quoting and URL
  parsing (\<open>golib\<close>), and the answers of upstream servers, the environment and the secret store (\<open>exchange\<close>);
  properties of translation assume of the codec only that the values at hand are printed on one line and read back.

  \<^bold>\<open>Not modelled.\<close> Chat platforms, agent runtimes and their protocols, remote machines, observability, usage accounting, tools, frameworks, desktop and web frontends, and SDKs: adapters to
  services and files outside the repository whose behaviour is the behaviour of those services. Of the modelled
  parts: rendering of cards and replies, logs, directories of tickets, the one-time migrations of old databases, and, of the proxy, the edits of configuration
  files of other programs, the system's secret store, metrics, and requests that run at the same time.
  The manifest lists every part with the reason.
\<close>

end
